(* ===== verification/Prelude.thy ===== *)
theory Prelude
  imports Main "HOL-Library.Word" "HOL-Library.Sublist" "HOL-Library.Multiset"
begin

text \<open>
  What every component shares: the machine integers of the source, its clock, the
  collections of facts that the component proofs pass to the simplifier, and the
  list lemmas they need.

  \<^item> \<open>usize\<close> counters that cannot wrap are \<open>nat\<close>; identifiers, handles, tokens
    and the atomics with wrapping arithmetic are words.
  \<^item> \<open>Instant\<close> and \<open>Duration\<close> are nanoseconds in \<open>nat\<close>.
    \<open>saturating_duration_since\<close> is the truncated subtraction of \<open>nat\<close>.
\<close>

unbundle bit_operations_syntax

section \<open>Machine integers and time\<close>

type_synonym u8 = "8 word"
type_synonym u16 = "16 word"
type_synonym u32 = "32 word"
type_synonym u64 = "64 word"

type_synonym instant = nat
type_synonym duration = nat

definition from_millis :: "nat \<Rightarrow> duration" where
  "from_millis n = n * 1000000"

definition from_secs :: "nat \<Rightarrow> duration" where
  "from_secs n = n * 1000000000"

definition as_millis :: "duration \<Rightarrow> nat" where
  "as_millis d = d div 1000000"

lemma as_millis_from_millis [simp]: "as_millis (from_millis n) = n"
  by (simp add: as_millis_def from_millis_def)

lemma from_millis_mono [simp]: "from_millis m \<le> from_millis n \<longleftrightarrow> m \<le> n"
  by (simp add: from_millis_def)

lemma from_millis_le_iff: "from_millis n \<le> d \<longleftrightarrow> n \<le> as_millis d"
  by (simp add: from_millis_def as_millis_def less_eq_div_iff_mult_less_eq)

section \<open>Collections of facts\<close>

named_theorems consts_def \<open>the numeric constants of the source\<close>
named_theorems step_defs \<open>definitions of the handlers, unfolded together\<close>
named_theorems frame \<open>fields an operation leaves alone\<close>

lemmas time_defs = from_millis_def from_secs_def as_millis_def

section \<open>Lists\<close>

lemma mset_take_drop [simp]: "mset (take n xs) + mset (drop n xs) = mset xs"
  by (metis append_take_drop_id mset_append)

lemma subseq_snoc_mono: "subseq xs ys \<Longrightarrow> subseq (xs @ [x]) (ys @ [x])"
  by (simp add: list_emb_append_mono)

lemma subseq_prefixI [simp]: "subseq xs (xs @ ys)"
  by (simp add: subseq_rev_drop_many)

lemma subseq_suffixI [simp]: "subseq ys (xs @ ys)"
  by (simp add: subseq_drop_many)

lemma subseq_snoc_weaken: "subseq xs ys \<Longrightarrow> subseq xs (ys @ [x])"
  by (rule subseq_rev_drop_many)

lemma subseq_append_dropL: "subseq (xs @ ys) zs \<Longrightarrow> subseq ys zs"
  by (rule subseq_order.order_trans [OF subseq_suffixI])

lemma subseq_append_dropR: "subseq (xs @ ys) zs \<Longrightarrow> subseq xs zs"
  by (rule subseq_order.order_trans [OF subseq_prefixI])

lemma subseq_append_monoR: "subseq ys ys' \<Longrightarrow> subseq (xs @ ys) (xs @ ys')"
  by (rule list_emb_append_mono) simp_all

lemma find_SomeD: "find P xs = Some x \<Longrightarrow> x \<in> set xs \<and> P x"
  by (induction xs) (auto split: if_splits)

lemma sorted_snoc: "sorted xs \<Longrightarrow> (\<And>x. x \<in> set xs \<Longrightarrow> x \<le> y) \<Longrightarrow> sorted (xs @ [y])"
  by (simp add: sorted_append)

text \<open>The longest prefix whose elements satisfy a test is what a
  \<open>while front ... pop_front\<close> loop removes.\<close>

lemma dropWhile_as_drop: "\<exists>k. dropWhile P xs = drop k xs \<and> (\<forall>x \<in> set (take k xs). P x)"
  by (rule exI [where x = "length (takeWhile P xs)"])
     (metis append_take_drop_id dropWhile_eq_drop set_takeWhileD takeWhile_eq_take)

lemma dropWhile_shorter: "length (dropWhile P xs) \<le> length xs"
  by (simp add: length_dropWhile_le)

end
