(* ===== verification/Rust_Text.thy ===== *)
theory Rust_Text
  imports Prelude "HOL-Library.Char_ord"
begin

text \<open>
  Rust's \<open>char\<close> and \<open>str\<close> as the program uses them. A \<open>char\<close> is its Unicode scalar
  value, a \<open>str\<close> the list of its scalars. The methods that need no table
  (\<open>is_control\<close>, \<open>is_whitespace\<close>, the ASCII methods, trimming and splitting) are defined
  here as the standard library documents them. What needs the Unicode Character Database
  (lowercasing, \<open>is_alphabetic\<close>, \<open>is_uppercase\<close>, general categories) and what needs the
  crate \<open>unicode_segmentation\<close> (grapheme clusters) is a parameter: a record of functions,
  passed to the definitions that use it.
\<close>

section \<open>Characters and strings\<close>

type_synonym uchar = nat
type_synonym ustr = "uchar list"

definition lit :: "string \<Rightarrow> ustr" where
  "lit s = map of_char s"

lemma lit_simps [simp]:
  "lit [] = []" "lit (c # s) = of_char c # lit s" "lit (s @ t) = lit s @ lit t"
  "length (lit s) = length s"
  by (simp_all add: lit_def)

definition is_control :: "uchar \<Rightarrow> bool" where
  "is_control c \<longleftrightarrow> c < 32 \<or> 127 \<le> c \<and> c < 160"

text \<open>The code points with the property \<open>White_Space\<close>.\<close>

definition is_whitespace :: "uchar \<Rightarrow> bool" where
  "is_whitespace c \<longleftrightarrow>
     9 \<le> c \<and> c \<le> 13 \<or> c = 32 \<or> c = 0x85 \<or> c = 0xA0 \<or> c = 0x1680
     \<or> 0x2000 \<le> c \<and> c \<le> 0x200A \<or> c = 0x2028 \<or> c = 0x2029 \<or> c = 0x202F
     \<or> c = 0x205F \<or> c = 0x3000"

definition is_ascii_digit :: "uchar \<Rightarrow> bool" where
  "is_ascii_digit c \<longleftrightarrow> 48 \<le> c \<and> c \<le> 57"

definition is_ascii_uppercase :: "uchar \<Rightarrow> bool" where
  "is_ascii_uppercase c \<longleftrightarrow> 65 \<le> c \<and> c \<le> 90"

definition is_ascii_lowercase :: "uchar \<Rightarrow> bool" where
  "is_ascii_lowercase c \<longleftrightarrow> 97 \<le> c \<and> c \<le> 122"

definition is_ascii_alphabetic :: "uchar \<Rightarrow> bool" where
  "is_ascii_alphabetic c \<longleftrightarrow> is_ascii_uppercase c \<or> is_ascii_lowercase c"

definition is_ascii_alphanumeric :: "uchar \<Rightarrow> bool" where
  "is_ascii_alphanumeric c \<longleftrightarrow> is_ascii_alphabetic c \<or> is_ascii_digit c"

definition to_ascii_lowercase :: "uchar \<Rightarrow> uchar" where
  "to_ascii_lowercase c = (if is_ascii_uppercase c then c + 32 else c)"

definition to_ascii_uppercase :: "uchar \<Rightarrow> uchar" where
  "to_ascii_uppercase c = (if is_ascii_lowercase c then c - 32 else c)"

lemmas ascii_defs = is_ascii_digit_def is_ascii_uppercase_def is_ascii_lowercase_def
  is_ascii_alphabetic_def is_ascii_alphanumeric_def to_ascii_lowercase_def
  to_ascii_uppercase_def

abbreviation ascii_lower :: "ustr \<Rightarrow> ustr" where
  "ascii_lower s \<equiv> map to_ascii_lowercase s"

abbreviation ascii_upper :: "ustr \<Rightarrow> ustr" where
  "ascii_upper s \<equiv> map to_ascii_uppercase s"

definition eq_ignore_ascii_case :: "ustr \<Rightarrow> ustr \<Rightarrow> bool" where
  "eq_ignore_ascii_case s t \<longleftrightarrow> ascii_lower s = ascii_lower t"

lemma to_ascii_lowercase_idem [simp]:
  "to_ascii_lowercase (to_ascii_lowercase c) = to_ascii_lowercase c"
  by (auto simp: ascii_defs)

definition len_utf8 :: "uchar \<Rightarrow> nat" where
  "len_utf8 c = (if c < 0x80 then 1 else if c < 0x800 then 2 else if c < 0x10000 then 3 else 4)"

definition len_utf16 :: "uchar \<Rightarrow> nat" where
  "len_utf16 c = (if c < 0x10000 then 1 else 2)"

text \<open>\<open>str::len\<close> counts UTF-8 bytes.\<close>

definition byte_len :: "ustr \<Rightarrow> nat" where
  "byte_len s = sum_list (map len_utf8 s)"

definition utf16_len :: "ustr \<Rightarrow> nat" where
  "utf16_len s = sum_list (map len_utf16 s)"

section \<open>Trimming and splitting\<close>

definition trim_matches :: "(uchar \<Rightarrow> bool) \<Rightarrow> ustr \<Rightarrow> ustr" where
  "trim_matches P s = rev (dropWhile P (rev (dropWhile P s)))"

definition trim :: "ustr \<Rightarrow> ustr" where
  "trim s = trim_matches is_whitespace s"

fun starts_with :: "ustr \<Rightarrow> uchar \<Rightarrow> bool" where
  "starts_with [] c = False"
| "starts_with (d # s) c = (d = c)"

definition split_once :: "uchar \<Rightarrow> ustr \<Rightarrow> (ustr \<times> ustr) option" where
  "split_once c s =
     (if c \<in> set s then Some (takeWhile (\<lambda>d. d \<noteq> c) s, tl (dropWhile (\<lambda>d. d \<noteq> c) s)) else None)"

definition rsplit_once :: "uchar \<Rightarrow> ustr \<Rightarrow> (ustr \<times> ustr) option" where
  "rsplit_once c s = map_option (\<lambda>(a, b). (rev b, rev a)) (split_once c (rev s))"

text \<open>\<open>split\<close> with a character predicate: the pieces between the separators, empty ones
  included.\<close>

fun split_on :: "(uchar \<Rightarrow> bool) \<Rightarrow> ustr \<Rightarrow> ustr list" where
  "split_on P [] = [[]]"
| "split_on P (c # s) =
     (if P c then [] # split_on P s
      else case split_on P s of [] \<Rightarrow> [[c]] | p # ps \<Rightarrow> (c # p) # ps)"

text \<open>The first item of \<open>rsplit\<close>: what follows the last separator.\<close>

definition last_piece :: "(uchar \<Rightarrow> bool) \<Rightarrow> ustr \<Rightarrow> ustr" where
  "last_piece P s = rev (takeWhile (\<lambda>c. \<not> P c) (rev s))"

definition is_path_separator :: "uchar \<Rightarrow> bool" where
  "is_path_separator c \<longleftrightarrow> c = 0x2F \<or> c = 0x5C"

fun strip_prefix :: "ustr \<Rightarrow> ustr \<Rightarrow> ustr option" where
  "strip_prefix [] s = Some s"
| "strip_prefix (c # p) [] = None"
| "strip_prefix (c # p) (d # s) = (if c = d then strip_prefix p s else None)"

definition strip_suffix_char :: "uchar \<Rightarrow> ustr \<Rightarrow> ustr option" where
  "strip_suffix_char c s = (if s \<noteq> [] \<and> last s = c then Some (butlast s) else None)"

text \<open>\<open>str::contains\<close> with a string.\<close>

definition contains_str :: "ustr \<Rightarrow> ustr \<Rightarrow> bool" where
  "contains_str s p \<longleftrightarrow> sublist p s"

text \<open>\<open>slice::windows\<close>.\<close>

definition windows :: "nat \<Rightarrow> 'a list \<Rightarrow> 'a list list" where
  "windows n xs = map (\<lambda>i. take n (drop i xs)) [0 ..< Suc (length xs) - n]"

text \<open>Trimming leaves a string whose ends fail the test, and leaves such a string alone.\<close>

definition clean_ends :: "(uchar \<Rightarrow> bool) \<Rightarrow> ustr \<Rightarrow> bool" where
  "clean_ends P s \<longleftrightarrow> s = [] \<or> \<not> P (hd s) \<and> \<not> P (last s)"

lemma trim_matches_clean: "clean_ends P s \<Longrightarrow> trim_matches P s = s"
proof (cases "s = []")
  case False
  assume "clean_ends P s"
  with False have "\<not> P (hd s)" "\<not> P (last s)" by (simp_all add: clean_ends_def)
  with False have "dropWhile P s = s" "dropWhile P (rev s) = rev s"
    by (simp_all add: dropWhile_eq_self_iff hd_rev)
  then show ?thesis by (simp add: trim_matches_def)
qed (simp add: trim_matches_def)

lemma trim_matches_prefix: "\<exists>t. dropWhile P s = trim_matches P s @ t"
  unfolding trim_matches_def
  by (metis rev_append rev_rev_ident takeWhile_dropWhile_id)

lemma clean_ends_trim_matches: "clean_ends P (trim_matches P s)"
proof (cases "trim_matches P s = []")
  case False
  obtain t where t: "dropWhile P s = trim_matches P s @ t" using trim_matches_prefix by blast
  with False have "hd (trim_matches P s) = hd (dropWhile P s)" "dropWhile P s \<noteq> []" by auto
  then have "\<not> P (hd (trim_matches P s))" using hd_dropWhile by metis
  moreover have "\<not> P (last (trim_matches P s))"
    using False hd_dropWhile [of P "rev (dropWhile P s)"]
    by (simp add: trim_matches_def last_rev)
  ultimately show ?thesis by (simp add: clean_ends_def)
qed (simp add: clean_ends_def)

lemma trim_matches_idem [simp]: "trim_matches P (trim_matches P s) = trim_matches P s"
  by (rule trim_matches_clean [OF clean_ends_trim_matches])

lemma trim_idem [simp]: "trim (trim s) = trim s"
  by (simp add: trim_def)

lemma set_trim_matches: "set (trim_matches P s) \<subseteq> set s"
proof
  fix c assume "c \<in> set (trim_matches P s)"
  with trim_matches_prefix [of P s] have "c \<in> set (dropWhile P s)" by auto
  then show "c \<in> set s" by (rule set_dropWhileD)
qed

lemma set_trim: "set (trim s) \<subseteq> set s"
  unfolding trim_def by (rule set_trim_matches)

lemma trim_plain: "\<forall>c \<in> set s. \<not> is_whitespace c \<Longrightarrow> trim s = s"
  unfolding trim_def by (rule trim_matches_clean) (auto simp: clean_ends_def)

lemma dropWhile_head: "s \<noteq> [] \<Longrightarrow> \<not> P (hd s) \<Longrightarrow> dropWhile P s = s"
  by (cases s) simp_all

lemma dropWhile_all_append: "\<forall>c \<in> set t. P c \<Longrightarrow> dropWhile P (t @ s) = dropWhile P s"
  by (induction t) simp_all

lemma trim_pad_right: "clean_ends is_whitespace s \<Longrightarrow> \<forall>c \<in> set t. is_whitespace c \<Longrightarrow> trim (s @ t) = s"
proof (cases "s = []")
  case False
  assume c: "clean_ends is_whitespace s" and t: "\<forall>c \<in> set t. is_whitespace c"
  from False c have "dropWhile is_whitespace (s @ t) = s @ t"
    by (cases s) (simp_all add: clean_ends_def)
  moreover have "dropWhile is_whitespace (rev t @ rev s) = dropWhile is_whitespace (rev s)"
    using t by (simp add: dropWhile_all_append)
  moreover have "dropWhile is_whitespace (rev s) = rev s"
    using False c by (intro dropWhile_head) (simp_all add: clean_ends_def hd_rev)
  ultimately show ?thesis by (simp add: trim_def trim_matches_def)
qed (simp add: trim_def trim_matches_def dropWhile_eq_Nil_conv [THEN iffD2])

lemma trim_pad_left: "clean_ends is_whitespace s \<Longrightarrow> \<forall>c \<in> set t. is_whitespace c \<Longrightarrow> trim (t @ s) = s"
  using trim_matches_clean [of is_whitespace s]
  by (simp add: trim_def trim_matches_def dropWhile_all_append)

lemma clean_ends_trim: "clean_ends is_whitespace (trim s)"
  unfolding trim_def by (rule clean_ends_trim_matches)

lemma clean_ends_all: "\<forall>c \<in> set s. \<not> P c \<Longrightarrow> clean_ends P s"
  by (auto simp: clean_ends_def)

lemma clean_ends_append:
  "clean_ends P s \<Longrightarrow> clean_ends P t \<Longrightarrow> s \<noteq> [] \<Longrightarrow> t \<noteq> [] \<Longrightarrow> clean_ends P (s @ m @ t)"
  by (auto simp: clean_ends_def)

lemma split_once_Some:
  "split_once c s = Some (a, b) \<longleftrightarrow> s = a @ c # b \<and> c \<notin> set a"
proof
  assume h: "split_once c s = Some (a, b)"
  then have c: "c \<in> set s" "a = takeWhile (\<lambda>d. d \<noteq> c) s" "b = tl (dropWhile (\<lambda>d. d \<noteq> c) s)"
    by (auto simp: split_once_def split: if_splits)
  then have "dropWhile (\<lambda>d. d \<noteq> c) s = c # b"
    by (metis (mono_tags, lifting) dropWhile_eq_Nil_conv hd_dropWhile list.collapse)
  with c show "s = a @ c # b \<and> c \<notin> set a"
    by (metis (mono_tags, lifting) set_takeWhileD takeWhile_dropWhile_id)
next
  assume h: "s = a @ c # b \<and> c \<notin> set a"
  then have "\<forall>d \<in> set a. d \<noteq> c" by auto
  with h have "takeWhile (\<lambda>d. d \<noteq> c) s = a" "dropWhile (\<lambda>d. d \<noteq> c) s = c # b"
    by (simp_all add: takeWhile_append2 dropWhile_append2)
  with h show "split_once c s = Some (a, b)" by (simp add: split_once_def)
qed

lemma last_piece_no_sep: "c \<in> set (last_piece P s) \<Longrightarrow> \<not> P c"
  unfolding last_piece_def by (auto dest: set_takeWhileD)

lemma set_last_piece: "set (last_piece P s) \<subseteq> set s"
  unfolding last_piece_def by (auto dest: set_takeWhileD)

lemma last_piece_plain: "\<forall>c \<in> set s. \<not> P c \<Longrightarrow> last_piece P s = s"
  unfolding last_piece_def by (simp add: takeWhile_eq_all_conv [THEN iffD2])

lemma last_piece_idem [simp]: "last_piece P (last_piece P s) = last_piece P s"
  by (rule last_piece_plain) (auto dest: last_piece_no_sep)

text \<open>\<open>str::lines\<close>: a line feed ends a line and takes a carriage return before it along; what
  follows the last line feed is a line unless it is empty.\<close>

definition strip_cr :: "ustr \<Rightarrow> ustr" where
  "strip_cr l = (if l \<noteq> [] \<and> last l = 13 then butlast l else l)"

definition str_lines :: "ustr \<Rightarrow> ustr list" where
  "str_lines s =
     (let ps = split_on (\<lambda>c. c = 10) s
      in map strip_cr (butlast ps) @ (if last ps = [] then [] else [last ps]))"

definition unlines :: "ustr list \<Rightarrow> ustr" where
  "unlines ls = concat (map (\<lambda>l. l @ [10]) ls)"

definition is_line :: "ustr \<Rightarrow> bool" where
  "is_line l \<longleftrightarrow> 10 \<notin> set l \<and> 13 \<notin> set l"

lemma split_on_nonempty [simp]: "split_on P s \<noteq> []"
  by (induction s) (auto split: list.split)

lemma split_on_append:
  "\<forall>c \<in> set a. \<not> P c \<Longrightarrow> P d \<Longrightarrow> split_on P (a @ d # s) = a # split_on P s"
  by (induction a) simp_all

lemma strip_cr_line: "is_line l \<Longrightarrow> strip_cr l = l"
  unfolding strip_cr_def is_line_def by (metis last_in_set)

lemma split_on_unlines:
  "\<forall>l \<in> set ls. is_line l \<Longrightarrow> split_on (\<lambda>c. c = 10) (unlines ls) = ls @ [[]]"
proof (induction ls)
  case (Cons l ls)
  then have "split_on (\<lambda>c. c = 10) (l @ 10 # unlines ls) = l # split_on (\<lambda>c. c = 10) (unlines ls)"
    by (intro split_on_append) (auto simp: is_line_def)
  with Cons show ?case by (simp add: unlines_def)
qed (simp add: unlines_def)

lemma str_lines_unlines: "\<forall>l \<in> set ls. is_line l \<Longrightarrow> str_lines (unlines ls) = ls"
  by (simp add: str_lines_def split_on_unlines Let_def map_idI strip_cr_line)

section \<open>The Unicode tables\<close>

record unicode =
  uc_lower :: "uchar \<Rightarrow> uchar list"
  uc_lower_str :: "ustr \<Rightarrow> ustr"
  uc_alphabetic :: "uchar \<Rightarrow> bool"
  uc_uppercase :: "uchar \<Rightarrow> bool"
  uc_mark :: "uchar \<Rightarrow> bool"
  uc_graphemes :: "ustr \<Rightarrow> ustr list"

text \<open>Documented behaviour the components rely on: lowercasing a string is idempotent,
  turns no other character into whitespace or a control character and loses none, and keeps
  ASCII to ASCII; grapheme clusters are the pieces of their string.\<close>

definition lowercase_laws :: "unicode \<Rightarrow> bool" where
  "lowercase_laws U \<longleftrightarrow>
     (\<forall>s. uc_lower_str U (uc_lower_str U s) = uc_lower_str U s)
     \<and> (\<forall>s. (uc_lower_str U s = []) = (s = []))
     \<and> (\<forall>s. (\<exists>c \<in> set (uc_lower_str U s). is_control c \<or> is_whitespace c)
            = (\<exists>c \<in> set s. is_control c \<or> is_whitespace c))"

lemma lower_idem: "lowercase_laws U \<Longrightarrow> uc_lower_str U (uc_lower_str U s) = uc_lower_str U s"
  unfolding lowercase_laws_def by (drule conjunct1) (erule spec)

lemma lower_empty: "lowercase_laws U \<Longrightarrow> (uc_lower_str U s = []) = (s = [])"
  unfolding lowercase_laws_def by (drule conjunct2, drule conjunct1) (erule spec)

lemma lower_chars:
  assumes "lowercase_laws U" and "\<forall>c \<in> set s. \<not> is_control c \<and> \<not> is_whitespace c"
  shows "\<forall>c \<in> set (uc_lower_str U s). \<not> is_control c \<and> \<not> is_whitespace c"
proof -
  have "(\<exists>c \<in> set (uc_lower_str U s). is_control c \<or> is_whitespace c)
      = (\<exists>c \<in> set s. is_control c \<or> is_whitespace c)"
    using assms(1) unfolding lowercase_laws_def by blast
  with assms(2) show ?thesis by blast
qed

definition grapheme_laws :: "unicode \<Rightarrow> bool" where
  "grapheme_laws U \<longleftrightarrow> (\<forall>s. concat (uc_graphemes U s) = s \<and> [] \<notin> set (uc_graphemes U s))"

text \<open>The restriction of the tables to ASCII, with every scalar its own cluster: a concrete
  instance for evaluation.\<close>

definition ascii_tables :: unicode where
  "ascii_tables = \<lparr>uc_lower = (\<lambda>c. [to_ascii_lowercase c]), uc_lower_str = map to_ascii_lowercase,
     uc_alphabetic = is_ascii_alphabetic, uc_uppercase = is_ascii_uppercase,
     uc_mark = (\<lambda>_. False), uc_graphemes = map (\<lambda>c. [c])\<rparr>"

lemma ascii_tables_simps [simp]:
  "uc_lower ascii_tables c = [to_ascii_lowercase c]"
  "uc_lower_str ascii_tables s = ascii_lower s"
  "uc_alphabetic ascii_tables = is_ascii_alphabetic"
  "uc_uppercase ascii_tables = is_ascii_uppercase"
  "uc_mark ascii_tables c = False"
  "uc_graphemes ascii_tables s = map (\<lambda>c. [c]) s"
  by (simp_all add: ascii_tables_def)

lemma ascii_tables_lowercase: "lowercase_laws ascii_tables"
proof -
  have "is_control (to_ascii_lowercase c) = is_control c"
    "is_whitespace (to_ascii_lowercase c) = is_whitespace c" for c
    by (auto simp: ascii_defs is_control_def is_whitespace_def)
  then show ?thesis by (simp add: lowercase_laws_def)
qed

lemma ascii_tables_graphemes: "grapheme_laws ascii_tables"
proof -
  have "concat (map (\<lambda>c. [c]) s) = s" for s :: ustr by (induction s) simp_all
  then show ?thesis by (auto simp: grapheme_laws_def)
qed

end
