(* ===== verification/Language.thy ===== *)
theory Language
  imports Rust_Text "HOL-Library.List_Lexorder"
begin

text \<open>
  \<open>src/language.rs\<close> and \<open>PackId\<close> of \<open>src/dictionary_registry.rs\<close>: the persistent
  identity of a language pack, its spellings, and the reinterpretation of a word as the same
  keys under the other layout. A \<open>PackId\<close> is 63 zero-padded bytes and a length; since its
  bytes are ASCII letters, digits and hyphens, comparing those is comparing the strings, and
  the derived order is the lexicographic order instantiated here.
\<close>

datatype pack_id = PackId (pack_str: ustr)

type_synonym language = pack_id

instantiation pack_id :: linorder
begin

definition less_eq_pack_id :: "pack_id \<Rightarrow> pack_id \<Rightarrow> bool" where
  "less_eq_pack_id a b \<longleftrightarrow> pack_str a \<le> pack_str b"

definition less_pack_id :: "pack_id \<Rightarrow> pack_id \<Rightarrow> bool" where
  "less_pack_id a b \<longleftrightarrow> pack_str a < pack_str b"

instance
  by standard (auto simp: less_eq_pack_id_def less_pack_id_def pack_id.expand)

end

datatype dictionary_error =
  InvalidId | InvalidWord | LimitExceeded | DuplicateId | InvalidDictionary

definition is_hyphen :: "uchar \<Rightarrow> bool" where
  "is_hyphen c \<longleftrightarrow> c = 0x2D"

definition valid_pack_text :: "ustr \<Rightarrow> bool" where
  "valid_pack_text s \<longleftrightarrow>
     \<not> (byte_len s > 63 \<or> s = [])
     \<and> (case split_on is_hyphen s of
          [] \<Rightarrow> False
        | first # parts \<Rightarrow>
            2 \<le> byte_len first \<and> byte_len first \<le> 8 \<and> list_all is_ascii_alphabetic first
            \<and> list_all (\<lambda>part. part \<noteq> [] \<and> byte_len part \<le> 8 \<and> list_all is_ascii_alphanumeric part)
                parts)"

definition from_valid_ascii :: "ustr \<Rightarrow> pack_id" where
  "from_valid_ascii s = PackId (ascii_lower s)"

definition pack_parse :: "ustr \<Rightarrow> dictionary_error + pack_id" where
  "pack_parse s = (if valid_pack_text s then Inr (from_valid_ascii s) else Inl InvalidId)"

definition English :: language where "English = from_valid_ascii (lit ''en-US'')"
definition Russian :: language where "Russian = from_valid_ascii (lit ''ru-RU'')"
definition Estonian :: language where "Estonian = from_valid_ascii (lit ''et-EE'')"
definition Japanese :: language where "Japanese = from_valid_ascii (lit ''ja-JP'')"

lemmas language_defs = English_def Russian_def Estonian_def Japanese_def from_valid_ascii_def ascii_defs

definition CANONICAL_IDS :: "(language \<times> ustr) list" where
  "CANONICAL_IDS = [(English, lit ''en-US''), (Russian, lit ''ru-RU''), (Estonian, lit ''et-EE''),
     (Japanese, lit ''ja-JP'')]"

definition from_id :: "ustr \<Rightarrow> language option" where
  "from_id name =
     (let s = ascii_lower (trim name) in
      if s \<in> {lit ''en'', lit ''en-us'', lit ''eng''} then Some English
      else if s \<in> {lit ''ru'', lit ''ru-ru'', lit ''rus''} then Some Russian
      else if s \<in> {lit ''et'', lit ''et-ee'', lit ''est''} then Some Estonian
      else if s \<in> {lit ''ja'', lit ''ja-jp'', lit ''jpn''} then Some Japanese
      else case pack_parse (trim name) of Inr l \<Rightarrow> Some l | Inl _ \<Rightarrow> None)"

definition language_id :: "language \<Rightarrow> ustr" where
  "language_id l =
     (case find (\<lambda>(k, _). k = l) CANONICAL_IDS of Some (_, label) \<Rightarrow> label | None \<Rightarrow> pack_str l)"

section \<open>The same keys under another layout\<close>

definition ENGLISH_LOWER :: ustr where
  "ENGLISH_LOWER =
     [96, 113, 119, 101, 114, 116, 121, 117, 105, 111, 112, 91, 93, 97, 115, 100, 102,
      103, 104, 106, 107, 108, 59, 39, 122, 120, 99, 118, 98, 110, 109, 44, 46]"

definition RUSSIAN_LOWER :: ustr where
  "RUSSIAN_LOWER =
     [0x451, 0x439, 0x446, 0x443, 0x43a, 0x435, 0x43d, 0x433, 0x448, 0x449, 0x437, 0x445,
      0x44a, 0x444, 0x44b, 0x432, 0x430, 0x43f, 0x440, 0x43e, 0x43b, 0x434, 0x436, 0x44d,
      0x44f, 0x447, 0x441, 0x43c, 0x438, 0x442, 0x44c, 0x431, 0x44e]"

definition ENGLISH_UPPER :: ustr where
  "ENGLISH_UPPER =
     [126, 81, 87, 69, 82, 84, 89, 85, 73, 79, 80, 123, 125, 65, 83, 68, 70, 71, 72, 74,
      75, 76, 58, 34, 90, 88, 67, 86, 66, 78, 77, 60, 62]"

definition RUSSIAN_UPPER :: ustr where
  "RUSSIAN_UPPER =
     [0x401, 0x419, 0x426, 0x423, 0x41a, 0x415, 0x41d, 0x413, 0x428, 0x429, 0x417, 0x425,
      0x42a, 0x424, 0x42b, 0x412, 0x410, 0x41f, 0x420, 0x41e, 0x41b, 0x414, 0x416, 0x42d,
      0x42f, 0x427, 0x421, 0x41c, 0x418, 0x422, 0x42c, 0x411, 0x42e]"

lemmas layout_tables = ENGLISH_LOWER_def RUSSIAN_LOWER_def ENGLISH_UPPER_def RUSSIAN_UPPER_def

text \<open>\<open>find_mapped\<close>: the position of the first occurrence, then \<open>nth\<close> of the target.\<close>

fun find_mapped :: "uchar \<Rightarrow> ustr \<Rightarrow> ustr \<Rightarrow> uchar option" where
  "find_mapped c (s # source) (t # target) = (if s = c then Some t else find_mapped c source target)"
| "find_mapped c _ _ = None"

definition transpose_character :: "uchar \<Rightarrow> language \<Rightarrow> language \<Rightarrow> uchar option" where
  "transpose_character c from to =
     (let tables =
        (if from = English \<and> to = Russian
         then Some (ENGLISH_LOWER, RUSSIAN_LOWER, ENGLISH_UPPER, RUSSIAN_UPPER)
         else if from = Russian \<and> to = English
         then Some (RUSSIAN_LOWER, ENGLISH_LOWER, RUSSIAN_UPPER, ENGLISH_UPPER)
         else None)
      in case tables of
           None \<Rightarrow> None
         | Some (source_lower, target_lower, source_upper, target_upper) \<Rightarrow>
             (case find_mapped c source_lower target_lower of
                Some d \<Rightarrow> Some d
              | None \<Rightarrow> find_mapped c source_upper target_upper))"

fun transpose_characters :: "ustr \<Rightarrow> language \<Rightarrow> language \<Rightarrow> ustr option" where
  "transpose_characters [] from to = Some []"
| "transpose_characters (c # cs) from to =
     (case transpose_character c from to of
        None \<Rightarrow> None
      | Some d \<Rightarrow> map_option ((#) d) (transpose_characters cs from to))"

definition transpose_word :: "ustr \<Rightarrow> language \<Rightarrow> language \<Rightarrow> ustr option" where
  "transpose_word word from to = (if from = to then Some word else transpose_characters word from to)"

lemma languages_distinct [simp]:
  "English \<noteq> Russian" "Russian \<noteq> English" "English \<noteq> Estonian" "Estonian \<noteq> English"
  "English \<noteq> Japanese" "Japanese \<noteq> English" "Russian \<noteq> Estonian" "Estonian \<noteq> Russian"
  "Russian \<noteq> Japanese" "Japanese \<noteq> Russian" "Estonian \<noteq> Japanese" "Japanese \<noteq> Estonian"
  by (simp_all add: language_defs)

lemma find_mapped_set: "find_mapped c s t = Some d \<Longrightarrow> c \<in> set s \<and> d \<in> set t"
  by (induction c s t rule: find_mapped.induct) (auto split: if_splits)

lemma find_mapped_back:
  "find_mapped c s t = Some d \<Longrightarrow> distinct t \<Longrightarrow> find_mapped d t s = Some c"
proof (induction c s t rule: find_mapped.induct)
  case (1 c s source t target)
  then show ?case using find_mapped_set [of c source target d] by (auto split: if_splits)
qed simp_all

lemma find_mapped_None: "c \<notin> set s \<Longrightarrow> find_mapped c s t = None"
  by (induction c s t rule: find_mapped.induct) auto

lemma layout_tables_distinct:
  "distinct ENGLISH_LOWER" "distinct ENGLISH_UPPER" "distinct RUSSIAN_LOWER" "distinct RUSSIAN_UPPER"
  by (simp_all add: layout_tables)

lemma layout_tables_disjoint:
  "list_all (\<lambda>c. c \<notin> set ENGLISH_LOWER) ENGLISH_UPPER" "list_all (\<lambda>c. c \<notin> set RUSSIAN_LOWER) RUSSIAN_UPPER"
  by (simp_all add: layout_tables)

lemma transpose_tables_back:
  assumes "(case find_mapped c sl tgl of Some d \<Rightarrow> Some d | None \<Rightarrow> find_mapped c su tu) = Some d"
    and "distinct tgl" "distinct tu" "list_all (\<lambda>c. c \<notin> set tgl) tu"
  shows "(case find_mapped d tgl sl of Some d \<Rightarrow> Some d | None \<Rightarrow> find_mapped d tu su) = Some c"
proof (cases "find_mapped c sl tgl")
  case None
  then have u: "find_mapped c su tu = Some d" using assms(1) by simp
  then have "d \<notin> set tgl" using find_mapped_set [OF u] assms(4) by (auto simp: list_all_iff)
  then show ?thesis using find_mapped_back [OF u assms(3)] by (simp add: find_mapped_None)
next
  case (Some e)
  then show ?thesis using assms find_mapped_back [OF Some assms(2)] by simp
qed

lemma transpose_character_back:
  assumes "transpose_character c from to = Some d"
  shows "transpose_character d to from = Some c"
proof -
  consider "from = English" "to = Russian" | "from = Russian" "to = English"
    using assms by (auto simp: transpose_character_def Let_def split: if_splits)
  then show ?thesis
    by cases (use assms in \<open>auto simp: transpose_character_def
        intro!: transpose_tables_back layout_tables_distinct layout_tables_disjoint\<close>)
qed

lemma transpose_characters_back:
  "transpose_characters w from to = Some v \<Longrightarrow> transpose_characters v to from = Some w"
proof (induction w arbitrary: v)
  case (Cons c w)
  then obtain d u where d: "transpose_character c from to = Some d"
    and u: "transpose_characters w from to = Some u" and "v = d # u"
    by (auto split: option.splits)
  with transpose_character_back [OF d] Cons.IH [OF u] show ?case by simp
qed simp

lemma transpose_characters_length: "transpose_characters w from to = Some v \<Longrightarrow> length v = length w"
  by (induction w arbitrary: v) (auto split: option.splits)

text \<open>Reinterpreting a word under the other layout is reversible: when a word can be
  transposed at all, transposing the result back gives the original word, character for
  character, so a layout conversion of visible text never loses information.\<close>

theorem transpose_word_reversible:
  assumes "transpose_word w from to = Some v"
  shows "transpose_word v to from = Some w \<and> length v = length w"
proof (cases "from = to")
  case False
  then have "transpose_characters w from to = Some v" using assms by (simp add: transpose_word_def)
  from transpose_characters_back [OF this] transpose_characters_length [OF this] False
  show ?thesis by (simp add: transpose_word_def)
qed (use assms in \<open>simp add: transpose_word_def\<close>)

lemma transpose_word_reversible_witness:
  "transpose_word [0x43d, 0x435] Russian English = Some (lit ''yt'') \<and> length [0x43d, 0x435::nat] = length (lit ''yt'')"
  by (rule transpose_word_reversible)
    (simp add: transpose_word_def transpose_character_def layout_tables)

section \<open>Identities\<close>

definition valid_pack :: "pack_id \<Rightarrow> bool" where
  "valid_pack l \<longleftrightarrow> pack_parse (pack_str l) = Inr l"

lemma byte_len_Cons: "byte_len (c # s) = len_utf8 c + byte_len s"
  by (simp add: byte_len_def)

lemma len_utf8_lower [simp]: "len_utf8 (to_ascii_lowercase c) = len_utf8 c"
  by (simp add: len_utf8_def ascii_defs)

lemma byte_len_lower [simp]: "byte_len (ascii_lower s) = byte_len s"
  by (induction s) (simp_all add: byte_len_def)

lemma split_on_lower:
  "(\<And>c. P (to_ascii_lowercase c) = P c) \<Longrightarrow> split_on P (ascii_lower s) = map ascii_lower (split_on P s)"
  by (induction s) (auto split: list.split)

lemma ascii_class_lower [simp]:
  "is_ascii_alphabetic (to_ascii_lowercase c) = is_ascii_alphabetic c"
  "is_ascii_alphanumeric (to_ascii_lowercase c) = is_ascii_alphanumeric c"
  "is_hyphen (to_ascii_lowercase c) = is_hyphen c"
  by (auto simp: ascii_defs is_hyphen_def)

lemma valid_pack_text_lower: "valid_pack_text (ascii_lower s) = valid_pack_text s"
  by (cases "split_on is_hyphen s")
    (simp_all add: valid_pack_text_def split_on_lower list_all_length)

lemma pack_parse_valid: "pack_parse s = Inr l \<Longrightarrow> valid_pack l"
  by (auto simp: pack_parse_def valid_pack_def valid_pack_text_lower from_valid_ascii_def
      split: if_splits)

lemma valid_pack_lower: "valid_pack l \<Longrightarrow> ascii_lower (pack_str l) = pack_str l"
  by (cases l) (auto simp: valid_pack_def pack_parse_def from_valid_ascii_def split: if_splits)

text \<open>Two-letter and three-letter spellings name a built-in pack, although each is a valid
  identity of its own.\<close>

definition alias_texts :: "ustr list" where
  "alias_texts = map lit [''en'', ''eng'', ''ru'', ''rus'', ''et'', ''est'', ''ja'', ''jpn'']"

lemma split_on_set: "c \<in> set s \<Longrightarrow> \<not> P c \<Longrightarrow> \<exists>p \<in> set (split_on P s). c \<in> set p"
  by (induction s) (auto split: list.split)

lemma valid_pack_text_chars:
  "valid_pack_text s \<Longrightarrow> c \<in> set s \<Longrightarrow> is_ascii_alphanumeric c \<or> is_hyphen c"
  using split_on_set [of c s is_hyphen]
  by (auto simp: valid_pack_text_def list_all_iff is_ascii_alphanumeric_def split: list.splits)

lemma valid_pack_chars: "valid_pack l \<Longrightarrow> c \<in> set (pack_str l) \<Longrightarrow> is_ascii_alphanumeric c \<or> is_hyphen c"
  using valid_pack_text_chars [of "pack_str l" c]
  by (auto simp: valid_pack_def pack_parse_def split: if_splits)

lemma valid_pack_nonempty: "valid_pack l \<Longrightarrow> pack_str l \<noteq> []"
  by (auto simp: valid_pack_def pack_parse_def valid_pack_text_def split: if_splits)

lemma pack_char_class:
  "is_ascii_alphanumeric c \<or> is_hyphen c \<Longrightarrow> \<not> is_whitespace c \<and> \<not> is_control c \<and> c \<noteq> 0x3A \<and> c \<noteq> 0x23"
  by (auto simp: ascii_defs is_hyphen_def is_whitespace_def is_control_def)

lemma trim_pack_str: "valid_pack l \<Longrightarrow> trim (pack_str l) = pack_str l"
  by (rule trim_plain) (use valid_pack_chars pack_char_class in blast)

lemma language_id_cases:
  "language_id l = pack_str l \<or> (l, language_id l) \<in> set CANONICAL_IDS"
  by (auto simp: language_id_def dest!: find_SomeD split: option.split prod.split)

lemma from_id_canonical: "(l, t) \<in> set CANONICAL_IDS \<Longrightarrow> from_id t = Some l"
  by (auto simp: CANONICAL_IDS_def from_id_def Let_def trim_def trim_matches_def is_whitespace_def
      ascii_defs)

lemma from_id_own:
  assumes "valid_pack l" and "pack_str l \<notin> set alias_texts"
  shows "from_id (pack_str l) = Some l"
proof -
  have "ascii_lower (trim (pack_str l)) = pack_str l" "trim (pack_str l) = pack_str l"
    using assms by (simp_all add: trim_pack_str valid_pack_lower)
  moreover have "pack_parse (pack_str l) = Inr l" using assms by (simp add: valid_pack_def)
  ultimately show ?thesis
    using assms(2)
    by (cases l) (auto simp: from_id_def Let_def alias_texts_def language_defs)
qed

text \<open>A pack identity survives its printed spelling: for every valid pack except one whose
  identity is a bare alias of a built-in pack, reading back the label written to settings,
  dictionaries and diagnostics gives the same pack.\<close>

theorem language_id_roundtrip:
  assumes "valid_pack l" and "pack_str l \<notin> set alias_texts"
  shows "from_id (language_id l) = Some l"
  using language_id_cases [of l] from_id_own [OF assms] from_id_canonical by metis

lemma language_id_roundtrip_witness:
  "from_id (language_id (PackId (lit ''de-de''))) = Some (PackId (lit ''de-de''))"
proof (rule language_id_roundtrip)
  show "valid_pack (PackId (lit ''de-de''))"
    by (simp add: valid_pack_def pack_parse_def valid_pack_text_def byte_len_def len_utf8_def
        is_hyphen_def from_valid_ascii_def ascii_defs)
  show "pack_str (PackId (lit ''de-de'')) \<notin> set alias_texts" by (simp add: alias_texts_def)
qed

text \<open>An alias is a valid identity that reads back as the built-in pack.\<close>

lemma alias_not_roundtrip:
  "valid_pack (PackId (lit ''en'')) \<and> from_id (language_id (PackId (lit ''en''))) = Some English"
  by (simp add: valid_pack_def pack_parse_def valid_pack_text_def byte_len_def len_utf8_def
      is_hyphen_def from_id_def trim_def trim_matches_def is_whitespace_def language_id_def
      CANONICAL_IDS_def Let_def language_defs)

end
