(* ===== verification/Scoring.thy ===== *)
theory Scoring
  imports Language "HOL-Library.Product_Lexorder"
begin

text \<open>
  \<open>src/scoring_model.rs\<close>: the bounded scoring data of a language pack. The decoding of JSON
  is \<open>serde_json\<close>'s and a parameter, a record with one decoder for the header and one for each
  document version; everything \<open>ScoringModel::from_json\<close> does with the decoded documents is here, in
  the order of its checks. A \<open>BTreeSet\<close> is a set, except \<open>rare\<close>, which the detector iterates:
  that one is the sorted list of its elements.
\<close>

datatype scoring_model_error = ScoringInvalidData | ScoringLimitExceeded

record scoring_policy =
  sp_bigrams :: bool
  sp_trigrams :: bool
  sp_vowels :: bool
  sp_statistical_targets :: bool

definition LEGACY :: scoring_policy where
  "LEGACY = \<lparr>sp_bigrams = True, sp_trigrams = True, sp_vowels = True, sp_statistical_targets = True\<rparr>"

record scoring_model =
  sm_ranges :: "(uchar \<times> uchar) list"
  sm_letters :: "uchar set"
  sm_marks :: "uchar set"
  sm_vowels :: "uchar set"
  sm_bigrams :: "ustr set"
  sm_trigrams :: "ustr set"
  sm_rare :: "ustr list"
  sm_policy :: scoring_policy

record model_document =
  md_format :: u32
  md_ranges :: "(uchar \<times> uchar) list"
  md_vowels :: ustr
  md_bigrams :: "ustr list"
  md_trigrams :: "ustr list"
  md_rare :: "ustr list"

record model_document_v2 = model_document +
  md_policy :: scoring_policy

record model_document_v3 = model_document_v2 +
  md_marks :: ustr

record model_document_v4 =
  m4_format :: u32
  m4_letters :: ustr
  m4_marks :: ustr
  m4_vowels :: ustr
  m4_bigrams :: "ustr list"
  m4_trigrams :: "ustr list"
  m4_rare :: "ustr list"
  m4_policy :: scoring_policy

text \<open>The strict decoders of \<open>serde_json::from_slice\<close>, one for each type; \<open>None\<close> is any
  decoding error.\<close>

record model_decoder =
  decode_header :: "u8 list \<Rightarrow> u32 option"
  decode_v1 :: "u8 list \<Rightarrow> model_document option"
  decode_v2 :: "u8 list \<Rightarrow> model_document_v2 option"
  decode_v3 :: "u8 list \<Rightarrow> model_document_v3 option"
  decode_v4 :: "u8 list \<Rightarrow> model_document_v4 option"

section \<open>Reading a document\<close>

text \<open>The document, its policy, its marks and its letters, for the format the header names.\<close>

definition document_of_v2 :: "model_document_v2 \<Rightarrow> model_document" where
  "document_of_v2 v2 = \<lparr>md_format = md_format v2, md_ranges = md_ranges v2, md_vowels = md_vowels v2,
     md_bigrams = md_bigrams v2, md_trigrams = md_trigrams v2, md_rare = md_rare v2\<rparr>"

definition document_of_v3 :: "model_document_v3 \<Rightarrow> model_document" where
  "document_of_v3 v3 = \<lparr>md_format = md_format v3, md_ranges = md_ranges v3, md_vowels = md_vowels v3,
     md_bigrams = md_bigrams v3, md_trigrams = md_trigrams v3, md_rare = md_rare v3\<rparr>"

definition document_of_v4 :: "model_document_v4 \<Rightarrow> model_document" where
  "document_of_v4 v4 = \<lparr>md_format = m4_format v4, md_ranges = [], md_vowels = m4_vowels v4,
     md_bigrams = m4_bigrams v4, md_trigrams = m4_trigrams v4, md_rare = m4_rare v4\<rparr>"

definition decode_document ::
  "model_decoder \<Rightarrow> u8 list \<Rightarrow> u32 \<Rightarrow> (model_document \<times> scoring_policy \<times> ustr \<times> ustr) option" where
  "decode_document J bytes format =
     (if format = 1 then map_option (\<lambda>d. (d, LEGACY, [], [])) (decode_v1 J bytes)
      else if format = 2 then
        map_option (\<lambda>v2. (document_of_v2 v2, md_policy v2, [], [])) (decode_v2 J bytes)
      else if format = 3 then
        map_option (\<lambda>v3. (document_of_v3 v3, md_policy v3, md_marks v3, [])) (decode_v3 J bytes)
      else if format = 4 then
        map_option (\<lambda>v4. (document_of_v4 v4, m4_policy v4, m4_marks v4, m4_letters v4)) (decode_v4 J bytes)
      else None)"

definition policy_contradicts :: "scoring_policy \<Rightarrow> model_document \<Rightarrow> bool" where
  "policy_contradicts policy d \<longleftrightarrow>
     (\<not> sp_bigrams policy \<and> md_bigrams d \<noteq> [])
     \<or> (\<not> sp_trigrams policy \<and> md_trigrams d \<noteq> [])
     \<or> (\<not> sp_vowels policy \<and> md_vowels d \<noteq> [])
     \<or> (sp_bigrams policy \<and> md_bigrams d = [])
     \<or> (sp_trigrams policy \<and> md_trigrams d = [])
     \<or> (sp_vowels policy \<and> md_vowels d = [])
     \<or> (sp_statistical_targets policy \<and> \<not> sp_bigrams policy \<and> \<not> sp_trigrams policy)"

definition document_too_large :: "model_document \<Rightarrow> ustr \<Rightarrow> ustr \<Rightarrow> bool" where
  "document_too_large d marks letters \<longleftrightarrow>
     length (md_ranges d) > 64 \<or> byte_len letters > 32 * 1024 \<or> byte_len marks > 1024
     \<or> byte_len (md_vowels d) > 256 \<or> length (md_bigrams d) > 512 \<or> length (md_trigrams d) > 512
     \<or> length (md_rare d) > 128"

definition lowercase_char :: "unicode \<Rightarrow> uchar \<Rightarrow> bool" where
  "lowercase_char U c \<longleftrightarrow> uc_lower U c = [c]"

definition bad_letters :: "unicode \<Rightarrow> ustr \<Rightarrow> bool" where
  "bad_letters U letters \<longleftrightarrow>
     length (remdups letters) \<noteq> length letters
     \<or> list_ex (\<lambda>c. \<not> uc_alphabetic U c \<or> uc_mark U c \<or> \<not> lowercase_char U c) letters"

definition bad_marks :: "unicode \<Rightarrow> ustr \<Rightarrow> bool" where
  "bad_marks U marks \<longleftrightarrow>
     length (remdups marks) \<noteq> length marks
     \<or> list_ex (\<lambda>c. \<not> uc_mark U c \<or> \<not> lowercase_char U c) marks"

text \<open>\<open>char::from_u32\<close> has no value for a surrogate.\<close>

definition scalars_between :: "uchar \<Rightarrow> uchar \<Rightarrow> uchar list" where
  "scalars_between s e = filter (\<lambda>c. \<not> (0xD800 \<le> c \<and> c \<le> 0xDFFF)) [s ..< Suc e]"

fun check_ranges ::
  "unicode \<Rightarrow> bool \<Rightarrow> nat \<Rightarrow> uchar option \<Rightarrow> (uchar \<times> uchar) list \<Rightarrow> scoring_model_error option" where
  "check_ranges U explicit_marks summed previous [] = None"
| "check_ranges U explicit_marks summed previous ((s, e) # ranges) =
     (if e < s \<or> (case previous of None \<Rightarrow> False | Some p \<Rightarrow> s \<le> p) then Some ScoringInvalidData
      else
        let summed = summed + (e - s + 1) in
        if summed > 65536 then Some ScoringLimitExceeded
        else if list_ex (\<lambda>c. \<not> uc_alphabetic U c \<or> \<not> lowercase_char U c \<or> explicit_marks \<and> uc_mark U c)
                  (scalars_between s e)
        then Some ScoringInvalidData
        else check_ranges U explicit_marks summed (Some e) ranges)"

definition repertoire :: "uchar set \<Rightarrow> uchar set \<Rightarrow> (uchar \<times> uchar) list \<Rightarrow> uchar \<Rightarrow> bool" where
  "repertoire marks letters ranges c \<longleftrightarrow>
     c \<in> marks \<or> c \<in> letters \<or> list_ex (\<lambda>(s, e). s \<le> c \<and> c \<le> e) ranges"

fun check_sequences :: "unicode \<Rightarrow> (uchar \<Rightarrow> bool) \<Rightarrow> nat \<Rightarrow> nat \<Rightarrow> ustr set \<Rightarrow> ustr list \<Rightarrow> bool" where
  "check_sequences U ok lo hi seen [] = True"
| "check_sequences U ok lo hi seen (v # vs) =
     (if \<not> (lo \<le> length v \<and> length v \<le> hi) \<or> uc_lower_str U v \<noteq> v \<or> list_ex (\<lambda>c. \<not> ok c) v \<or> v \<in> seen
      then False else check_sequences U ok lo hi (insert v seen) vs)"

definition model_from_document ::
  "unicode \<Rightarrow> u32 \<Rightarrow> model_document \<Rightarrow> scoring_policy \<Rightarrow> ustr \<Rightarrow> ustr \<Rightarrow> scoring_model_error + scoring_model" where
  "model_from_document U format d policy marks letters =
     (if md_format d \<noteq> format \<or> md_ranges d = [] \<and> letters = [] then Inl ScoringInvalidData
      else if 2 \<le> format \<and> policy_contradicts policy d then Inl ScoringInvalidData
      else if document_too_large d marks letters then Inl ScoringLimitExceeded
      else if bad_letters U letters then Inl ScoringInvalidData
      else if bad_marks U marks then Inl ScoringInvalidData
      else
        let ranges = sort (md_ranges d);
            ok = repertoire (set marks) (set letters) ranges
        in case check_ranges U (format = 3) 0 None ranges of
             Some error \<Rightarrow> Inl error
           | None \<Rightarrow>
               if list_ex (\<lambda>c. \<not> ok c) (md_vowels d) \<or> uc_lower_str U (md_vowels d) \<noteq> md_vowels d
               then Inl ScoringInvalidData
               else if \<not> (check_sequences U ok 2 2 {} (md_bigrams d)
                          \<and> check_sequences U ok 3 3 {} (md_trigrams d)
                          \<and> check_sequences U ok 2 8 {} (md_rare d))
               then Inl ScoringInvalidData
               else if length (remdups (md_vowels d)) \<noteq> length (md_vowels d)
               then Inl ScoringInvalidData
               else Inr \<lparr>sm_ranges = ranges, sm_letters = set letters, sm_marks = set marks,
                      sm_vowels = set (md_vowels d), sm_bigrams = set (md_bigrams d),
                      sm_trigrams = set (md_trigrams d), sm_rare = sort (remdups (md_rare d)),
                      sm_policy = policy\<rparr>)"

definition model_from_json ::
  "model_decoder \<Rightarrow> unicode \<Rightarrow> u8 list \<Rightarrow> scoring_model_error + scoring_model" where
  "model_from_json J U bytes =
     (if length bytes > 64 * 1024 then Inl ScoringLimitExceeded
      else case decode_header J bytes of
        None \<Rightarrow> Inl ScoringInvalidData
      | Some format \<Rightarrow>
          (case decode_document J bytes format of
             None \<Rightarrow> Inl ScoringInvalidData
           | Some (d, policy, marks, letters) \<Rightarrow> model_from_document U format d policy marks letters))"

section \<open>Questions to a model\<close>

definition model_accepts :: "scoring_model \<Rightarrow> uchar \<Rightarrow> bool" where
  "model_accepts m c \<longleftrightarrow>
     c \<in> sm_marks m \<or> c \<in> sm_letters m \<or> list_ex (\<lambda>(s, e). s \<le> c \<and> c \<le> e) (sm_ranges m)"

fun model_accepts_word :: "scoring_model \<Rightarrow> ustr \<Rightarrow> bool" where
  "model_accepts_word m [] = False"
| "model_accepts_word m (first # characters) =
     (model_accepts m first \<and> first \<notin> sm_marks m \<and> list_all (model_accepts m) characters)"

definition is_vowel :: "scoring_model \<Rightarrow> uchar \<Rightarrow> bool" where
  "is_vowel m c \<longleftrightarrow> c \<in> sm_vowels m"

definition uses_bigrams :: "scoring_model \<Rightarrow> bool" where
  "uses_bigrams m = sp_bigrams (sm_policy m)"

definition uses_trigrams :: "scoring_model \<Rightarrow> bool" where
  "uses_trigrams m = sp_trigrams (sm_policy m)"

definition uses_vowels :: "scoring_model \<Rightarrow> bool" where
  "uses_vowels m = sp_vowels (sm_policy m)"

definition allows_statistical_targets :: "scoring_model \<Rightarrow> bool" where
  "allows_statistical_targets m = sp_statistical_targets (sm_policy m)"

lemmas model_questions = is_vowel_def uses_bigrams_def uses_trigrams_def uses_vowels_def
  allows_statistical_targets_def

section \<open>What a parsed model keeps\<close>

definition is_scalar :: "uchar \<Rightarrow> bool" where
  "is_scalar c \<longleftrightarrow> \<not> (0xD800 \<le> c \<and> c \<le> 0xDFFF)"

definition sequences_ok :: "unicode \<Rightarrow> scoring_model \<Rightarrow> nat \<Rightarrow> nat \<Rightarrow> ustr set \<Rightarrow> bool" where
  "sequences_ok U m lo hi vs \<longleftrightarrow>
     (\<forall>v \<in> vs. lo \<le> length v \<and> length v \<le> hi \<and> uc_lower_str U v = v \<and> (\<forall>c \<in> set v. model_accepts m c))"

definition model_well_formed :: "unicode \<Rightarrow> scoring_model \<Rightarrow> bool" where
  "model_well_formed U m \<longleftrightarrow>
     sorted_wrt (\<lambda>(_, e) (s, _). e < s) (sm_ranges m)
     \<and> sum_list (map (\<lambda>(s, e). e - s + 1) (sm_ranges m)) \<le> 65536
     \<and> (\<forall>c. is_scalar c \<and> model_accepts m c \<longrightarrow>
          uc_lower U c = [c] \<and> (uc_alphabetic U c \<or> uc_mark U c))
     \<and> (\<exists>c. model_accepts m c)
     \<and> (\<forall>c \<in> sm_vowels m. model_accepts m c)
     \<and> sequences_ok U m 2 2 (sm_bigrams m) \<and> sequences_ok U m 3 3 (sm_trigrams m)
     \<and> sequences_ok U m 2 8 (set (sm_rare m))
     \<and> sorted_wrt (<) (sm_rare m)"

lemma check_ranges_ordered:
  "check_ranges U x summed previous ranges = None \<Longrightarrow>
     sorted_wrt (\<lambda>(_, e) (s, _). e < s) ranges
     \<and> (\<forall>(s, e) \<in> set ranges. s \<le> e \<and> (case previous of None \<Rightarrow> True | Some p \<Rightarrow> p < s))"
proof (induction U x summed previous ranges rule: check_ranges.induct)
  case (2 U x summed previous s e ranges)
  have rest: "check_ranges U x (summed + (e - s + 1)) (Some e) ranges = None"
    and here: "s \<le> e" "case previous of None \<Rightarrow> True | Some p \<Rightarrow> p < s"
    using 2(2) by (auto simp: Let_def split: if_splits option.splits)
  have "sorted_wrt (\<lambda>(_, e) (s, _). e < s) ranges \<and> (\<forall>(s, e') \<in> set ranges. s \<le> e' \<and> e < s)"
    using 2(1) [OF _ refl _ _ ] 2(2) rest by (auto simp: Let_def split: if_splits)
  then show ?case using here by (fastforce split: option.splits)
qed simp

lemma check_ranges_total:
  "check_ranges U x summed previous ranges = None \<Longrightarrow> summed \<le> 65536 \<Longrightarrow>
     summed + sum_list (map (\<lambda>(s, e). e - s + 1) ranges) \<le> 65536"
proof (induction U x summed previous ranges rule: check_ranges.induct)
  case (2 U x summed previous s e ranges)
  have rest: "check_ranges U x (summed + (e - s + 1)) (Some e) ranges = None"
    "\<not> summed + (e - s + 1) > 65536"
    using 2(2) by (auto simp: Let_def split: if_splits)
  then show ?case
    using 2(1) [OF _ refl] 2(2) by (auto simp: Let_def split: if_splits)
qed simp

lemma check_ranges_chars:
  "check_ranges U x summed previous ranges = None \<Longrightarrow> (s, e) \<in> set ranges \<Longrightarrow>
     c \<in> set (scalars_between s e) \<Longrightarrow> uc_alphabetic U c \<and> lowercase_char U c \<and> \<not> (x \<and> uc_mark U c)"
proof (induction U x summed previous ranges rule: check_ranges.induct)
  case (2 U x summed previous s' e' ranges)
  have rest: "check_ranges U x (summed + (e' - s' + 1)) (Some e') ranges = None"
    and here: "\<forall>c \<in> set (scalars_between s' e'). uc_alphabetic U c \<and> lowercase_char U c \<and> \<not> (x \<and> uc_mark U c)"
    using 2(2) by (auto simp: Let_def list_ex_iff split: if_splits)
  show ?case
  proof (cases "(s, e) = (s', e')")
    case True
    then show ?thesis using here 2(4) by auto
  next
    case False
    then have "(s, e) \<in> set ranges" using 2(3) by auto
    then show ?thesis using 2(1) [OF _ refl _ _ ] 2(2,4) rest by (auto simp: Let_def split: if_splits)
  qed
qed simp

lemma check_sequences_ok:
  "check_sequences U ok lo hi seen vs \<Longrightarrow> v \<in> set vs \<Longrightarrow>
     lo \<le> length v \<and> length v \<le> hi \<and> uc_lower_str U v = v \<and> (\<forall>c \<in> set v. ok c)"
  by (induction U ok lo hi seen vs rule: check_sequences.induct)
    (auto simp: list_ex_iff split: if_splits)

lemma accepts_repertoire:
  "model_accepts m = repertoire (sm_marks m) (sm_letters m) (sm_ranges m)"
  by (rule ext) (simp add: model_accepts_def repertoire_def)

lemma repertoire_lowercase:
  assumes "check_ranges U x 0 None ranges = None" "\<not> bad_letters U letters" "\<not> bad_marks U marks"
    and "is_scalar c" "repertoire (set marks) (set letters) ranges c"
  shows "uc_lower U c = [c] \<and> (uc_alphabetic U c \<or> uc_mark U c)"
proof -
  consider "c \<in> set marks" | "c \<in> set letters"
    | s e where "(s, e) \<in> set ranges" "c \<in> set (scalars_between s e)"
    using assms(4,5)
    unfolding repertoire_def list_ex_iff is_scalar_def scalars_between_def
    by fastforce
  then show ?thesis
  proof cases
    case 3
    then show ?thesis using check_ranges_chars [OF assms(1)] by (auto simp: lowercase_char_def)
  qed (use assms(2,3) in \<open>auto simp: bad_letters_def bad_marks_def list_ex_iff lowercase_char_def\<close>)
qed

lemma sorted_strict_remdups: "sorted_wrt (<) (sort (remdups (vs :: ustr list)))"
  by (simp add: strict_sorted_iff)

lemma model_from_document_well_formed:
  assumes "model_from_document U format d policy marks letters = Inr m"
  shows "model_well_formed U m"
proof -
  let ?ranges = "sort (md_ranges d)"
  let ?ok = "repertoire (set marks) (set letters) ?ranges"
  have ranges: "check_ranges U (format = 3) 0 None ?ranges = None"
    using assms by (auto simp: model_from_document_def Let_def split: if_splits option.splits)
  have checks: "\<not> bad_letters U letters" "\<not> bad_marks U marks"
    "\<not> (md_ranges d = [] \<and> letters = [])"
    using assms by (auto simp: model_from_document_def split: if_splits)
  have vowels: "\<forall>c \<in> set (md_vowels d). ?ok c"
    and sequences: "check_sequences U ?ok 2 2 {} (md_bigrams d)"
      "check_sequences U ?ok 3 3 {} (md_trigrams d)" "check_sequences U ?ok 2 8 {} (md_rare d)"
    using assms ranges
    by (auto simp: model_from_document_def Let_def list_ex_iff split: if_splits)
  have m: "m = \<lparr>sm_ranges = ?ranges, sm_letters = set letters, sm_marks = set marks,
      sm_vowels = set (md_vowels d), sm_bigrams = set (md_bigrams d),
      sm_trigrams = set (md_trigrams d), sm_rare = sort (remdups (md_rare d)), sm_policy = policy\<rparr>"
    using assms ranges by (auto simp: model_from_document_def Let_def split: if_splits)
  have ok: "model_accepts m = ?ok" by (simp add: accepts_repertoire m)
  have some: "\<exists>c. model_accepts m c"
  proof (cases letters)
    case Nil
    then have "?ranges \<noteq> []" using checks(3) by (metis length_0_conv length_sort)
    then obtain s e where se: "(s, e) \<in> set ?ranges" by (metis hd_in_set surj_pair)
    with check_ranges_ordered [OF ranges] have "s \<le> e" by auto
    with se show ?thesis unfolding ok by (intro exI [of _ s]) (auto simp: repertoire_def list_ex_iff)
  next
    case (Cons a x)
    then show ?thesis unfolding ok by (intro exI [of _ a]) (auto simp: repertoire_def m)
  qed
  show ?thesis
    unfolding model_well_formed_def sequences_ok_def
    using check_ranges_ordered [OF ranges] check_ranges_total [OF ranges] vowels some
      repertoire_lowercase [OF ranges checks(1,2)] check_sequences_ok [OF sequences(1)]
      check_sequences_ok [OF sequences(2)] check_sequences_ok [OF sequences(3)]
    by (simp add: ok) (simp add: m sorted_strict_remdups)
qed

text \<open>C38. A scoring model that \<open>from_json\<close> accepts is well formed, whatever the bytes: its
  ranges are ordered and disjoint and hold at most 65536 characters; every character it accepts
  is its own lowercase form and alphabetic or a mark; its vowels and its bigrams, trigrams and
  rare sequences use accepted characters only, are lowercase, and have the lengths the scorer
  windows over.\<close>

theorem parsed_model_well_formed:
  assumes "model_from_json J U bytes = Inr m"
  shows "model_well_formed U m"
  using assms
  by (auto simp: model_from_json_def split: if_splits option.splits prod.splits
      intro: model_from_document_well_formed)

text \<open>The document of the source's tests: the letters a to z, one bigram, one trigram.\<close>

definition sample_document :: model_document where
  "sample_document = \<lparr>md_format = 1, md_ranges = [(97, 122)], md_vowels = lit ''aeiou'',
     md_bigrams = [lit ''ab''], md_trigrams = [lit ''abc''], md_rare = [lit ''zz'']\<rparr>"

definition sample_decoder :: model_decoder where
  "sample_decoder = \<lparr>decode_header = (\<lambda>_. Some 1), decode_v1 = (\<lambda>_. Some sample_document),
     decode_v2 = (\<lambda>_. None), decode_v3 = (\<lambda>_. None), decode_v4 = (\<lambda>_. None)\<rparr>"

definition sample_model :: scoring_model where
  "sample_model = \<lparr>sm_ranges = [(97, 122)], sm_letters = {}, sm_marks = {},
     sm_vowels = set (lit ''aeiou''), sm_bigrams = {lit ''ab''}, sm_trigrams = {lit ''abc''},
     sm_rare = [lit ''zz''], sm_policy = LEGACY\<rparr>"

lemma sample_model_read: "model_from_json sample_decoder ascii_tables [] = Inr sample_model"
proof -
  have letters: "list_all (\<lambda>c. is_ascii_alphabetic c \<and> to_ascii_lowercase c = c) (scalars_between 97 122)"
    by (auto simp: list_all_iff scalars_between_def ascii_defs)
  then have "\<not> list_ex (\<lambda>c. \<not> is_ascii_alphabetic c \<or> \<not> lowercase_char ascii_tables c)
      (scalars_between 97 122)"
    by (auto simp: lowercase_char_def list_ex_iff list_all_iff)
  then have "check_ranges ascii_tables False 0 None [(97, 122)] = None" by simp
  moreover have "repertoire {} {} [(97, 122)] c \<longleftrightarrow> 97 \<le> c \<and> c \<le> 122" for c
    by (simp add: repertoire_def)
  moreover have "\<not> (2 :: u32) \<le> 1" by (simp add: word_le_nat_alt)
  ultimately show ?thesis
    by (simp add: model_from_json_def sample_decoder_def decode_document_def sample_document_def
        model_from_document_def sample_model_def document_too_large_def byte_len_def len_utf8_def
        bad_letters_def bad_marks_def ascii_defs)
qed

lemma parsed_model_well_formed_witness: "model_well_formed ascii_tables sample_model"
  by (rule parsed_model_well_formed) (rule sample_model_read)

end
