(* ===== verification/Ordered_Map.thy ===== *)
theory Ordered_Map
  imports Prelude "HOL-Library.Product_Lexorder"
begin

text \<open>
  \<open>BTreeMap\<close> as the source uses it: insertion, removal, lookup and iteration in key
  order. A map is the association list that the iteration yields, strictly sorted by key.
  The locale \<open>finite_table\<close> states the laws a client relies on, and what it proves
  holds for the model by the interpretation at the end.
\<close>

fun om_insert :: "'k::linorder \<Rightarrow> 'v \<Rightarrow> ('k \<times> 'v) list \<Rightarrow> ('k \<times> 'v) list" where
  "om_insert k v [] = [(k, v)]"
| "om_insert k v ((k', v') # m) =
     (if k < k' then (k, v) # (k', v') # m
      else if k = k' then (k, v) # m
      else (k', v') # om_insert k v m)"

definition om_remove :: "'k \<Rightarrow> ('k \<times> 'v) list \<Rightarrow> ('k \<times> 'v) list" where
  "om_remove k m = filter (\<lambda>e. fst e \<noteq> k) m"

definition om_lookup :: "('k \<times> 'v) list \<Rightarrow> 'k \<Rightarrow> 'v option" where
  "om_lookup m = map_of m"

definition om_values :: "('k \<times> 'v) list \<Rightarrow> 'v list" where
  "om_values m = map snd m"

definition om_sorted :: "('k::linorder \<times> 'v) list \<Rightarrow> bool" where
  "om_sorted m \<longleftrightarrow> sorted_wrt (<) (map fst m)"

section \<open>What a client may rely on\<close>

locale finite_table =
  fixes empty :: 'm
    and lookup :: "'m \<Rightarrow> 'k \<Rightarrow> 'v option"
    and insert :: "'k \<Rightarrow> 'v \<Rightarrow> 'm \<Rightarrow> 'm"
    and remove :: "'k \<Rightarrow> 'm \<Rightarrow> 'm"
    and inv :: "'m \<Rightarrow> bool"
  assumes inv_empty: "inv empty"
    and inv_insert: "inv m \<Longrightarrow> inv (insert k v m)"
    and inv_remove: "inv m \<Longrightarrow> inv (remove k m)"
    and lookup_empty: "lookup empty k = None"
    and lookup_insert: "inv m \<Longrightarrow> lookup (insert k v m) j = (if j = k then Some v else lookup m j)"
    and lookup_remove: "inv m \<Longrightarrow> lookup (remove k m) j = (if j = k then None else lookup m j)"
begin

lemma inv_track:
  "inv m \<Longrightarrow>
   inv (foldl (\<lambda>m e. if P e then insert (key e) (f e) m else remove (key e) m) m es)"
  by (induction es arbitrary: m) (simp_all add: inv_insert inv_remove)

text \<open>A table that records the last opening event of each key, and forgets the key at its
  closing event.\<close>

lemma lookup_track:
  "inv m \<Longrightarrow>
   lookup (foldl (\<lambda>m e. if P e then insert (key e) (f e) m else remove (key e) m) m es) k =
   (case find (\<lambda>e. key e = k) (rev es) of
      Some e \<Rightarrow> if P e then Some (f e) else None
    | None \<Rightarrow> lookup m k)"
proof (induction es rule: rev_induct)
  case (snoc e es)
  let ?t = "foldl (\<lambda>m e. if P e then insert (key e) (f e) m else remove (key e) m) m es"
  have "inv ?t" by (rule inv_track [OF snoc.prems])
  with snoc show ?case by (simp add: lookup_insert lookup_remove)
qed simp

end

section \<open>The association list keeps the contract\<close>

lemma set_om_insert: "set (om_insert k v m) \<subseteq> Set.insert (k, v) (set m)"
  by (induction m rule: om_insert.induct) auto

lemma om_sorted_insert: "om_sorted m \<Longrightarrow> om_sorted (om_insert k v m)"
proof (induction k v m rule: om_insert.induct)
  case (2 k v k' v' m)
  have "\<forall>x \<in> set (om_insert k v m). k' < fst x" if "k' < k"
    using set_om_insert [of k v m] that 2(2) by (auto simp: om_sorted_def)
  then show ?case using 2 by (auto simp: om_sorted_def)
qed (simp add: om_sorted_def)

lemma om_sorted_remove: "om_sorted m \<Longrightarrow> om_sorted (om_remove k m)"
  unfolding om_sorted_def om_remove_def by (simp add: sorted_wrt_map sorted_wrt_filter)

lemma om_lookup_less: "om_sorted ((k', v') # m) \<Longrightarrow> k < k' \<Longrightarrow> om_lookup m k = None"
  by (auto simp: om_sorted_def om_lookup_def map_of_eq_None_iff)

lemma om_lookup_insert: "om_lookup (om_insert k v m) j = (if j = k then Some v else om_lookup m j)"
  by (induction k v m rule: om_insert.induct) (auto simp: om_lookup_def)

lemma om_lookup_remove: "om_lookup (om_remove k m) j = (if j = k then None else om_lookup m j)"
  by (induction m) (auto simp: om_remove_def om_lookup_def)

interpretation table: finite_table "[]" om_lookup om_insert om_remove om_sorted
  by unfold_locales
    (simp_all add: om_sorted_insert om_sorted_remove om_lookup_insert om_lookup_remove,
      simp_all add: om_sorted_def om_lookup_def)

lemma om_values_lookup: "v \<in> set (om_values m) \<Longrightarrow> \<exists>k. (k, v) \<in> set m"
  by (auto simp: om_values_def)

lemma om_sorted_in: "om_sorted m \<Longrightarrow> (k, v) \<in> set m \<longleftrightarrow> om_lookup m k = Some v"
proof -
  assume "om_sorted m"
  then have "distinct (map fst m)"
    unfolding om_sorted_def by (simp add: strict_sorted_iff)
  then show ?thesis by (simp add: om_lookup_def)
qed

end
