(* ===== verification/Input_Profile.thy ===== *)
theory Input_Profile
  imports Language Ordered_Map
begin

text \<open>
  \<open>src/input_profile.rs\<close>, \<open>src/input_capabilities.rs\<close> and
  \<open>src/input_profile_selection.rs\<close>: the exact identity of a Windows keyboard profile, the
  requirements a language pack states for its profiles, the implementations this program has, and
  the user's choice among the profiles of a pack. Decoding the JSON of a descriptor is
  \<open>serde_json\<close>'s and a parameter.
\<close>

section \<open>Keyboard profiles\<close>

datatype windows_keyboard_profile =
  WindowsKeyboardProfile (profile_language_id: u16) (profile_klid: u32)

instantiation windows_keyboard_profile :: linorder
begin

definition less_eq_windows_keyboard_profile where
  "p \<le> q \<longleftrightarrow> (profile_language_id p, profile_klid p) \<le> (profile_language_id q, profile_klid q)"

definition less_windows_keyboard_profile where
  "p < q \<longleftrightarrow> (profile_language_id p, profile_klid p) < (profile_language_id q, profile_klid q)"

instance
  by standard
    (auto simp: less_eq_windows_keyboard_profile_def less_windows_keyboard_profile_def
      windows_keyboard_profile.expand)

end

datatype input_descriptor_error = DescriptorInvalidData | DescriptorLimitExceeded | PackIdMismatch

definition is_ascii_hexdigit :: "uchar \<Rightarrow> bool" where
  "is_ascii_hexdigit c \<longleftrightarrow> is_ascii_digit c \<or> 65 \<le> c \<and> c \<le> 70 \<or> 97 \<le> c \<and> c \<le> 102"

definition hex_digit_value :: "uchar \<Rightarrow> nat" where
  "hex_digit_value c = (if is_ascii_digit c then c - 48 else if c \<le> 70 then c - 55 else c - 87)"

text \<open>\<open>from_str_radix\<close> of a text that is known to hold hexadecimal digits only.\<close>

definition from_hex :: "ustr \<Rightarrow> nat" where
  "from_hex = foldl (\<lambda>n c. 16 * n + hex_digit_value c) 0"

text \<open>The source reads bytes. Its tests make every byte except the one at 4 a hexadecimal digit
  and that one a colon, so a text it goes on with is ASCII and bytes are characters.\<close>

definition profile_parse :: "ustr \<Rightarrow> input_descriptor_error + windows_keyboard_profile" where
  "profile_parse s =
     (case drop 4 s of
        [] \<Rightarrow> Inl DescriptorInvalidData
      | colon # rest \<Rightarrow>
          if byte_len s \<noteq> 13 \<or> colon \<noteq> 0x3A \<or> \<not> list_all is_ascii_hexdigit (take 4 s)
             \<or> \<not> list_all is_ascii_hexdigit rest
          then Inl DescriptorInvalidData
          else
            let language_id = of_nat (from_hex (take 4 s)); klid = of_nat (from_hex rest) in
            if language_id = 0 \<or> klid = 0 then Inl DescriptorInvalidData
            else Inr (WindowsKeyboardProfile language_id klid))"

definition hex_digit :: "nat \<Rightarrow> uchar" where
  "hex_digit n = (if n < 10 then 48 + n else 55 + n)"

text \<open>Upper-case hexadecimal, padded with zeros; the width holds every value of the type.\<close>

fun upper_hex :: "nat \<Rightarrow> nat \<Rightarrow> ustr" where
  "upper_hex 0 n = []"
| "upper_hex (Suc w) n = upper_hex w (n div 16) @ [hex_digit (n mod 16)]"

definition profile_to_string :: "windows_keyboard_profile \<Rightarrow> ustr" where
  "profile_to_string p =
     upper_hex 4 (unat (profile_language_id p)) @ [0x3A] @ upper_hex 8 (unat (profile_klid p))"

lemma from_hex_snoc: "from_hex (s @ [c]) = 16 * from_hex s + hex_digit_value c"
  by (simp add: from_hex_def)

lemma hex_digit_back: "n < 16 \<Longrightarrow> hex_digit_value (hex_digit n) = n \<and> is_ascii_hexdigit (hex_digit n)"
  by (auto simp: hex_digit_value_def hex_digit_def is_ascii_hexdigit_def is_ascii_digit_def)

lemma hex_value_back:
  "is_ascii_hexdigit c \<Longrightarrow> hex_digit (hex_digit_value c) = to_ascii_uppercase c \<and> hex_digit_value c < 16"
  by (auto simp: hex_digit_value_def hex_digit_def is_ascii_hexdigit_def ascii_defs)

lemma upper_hex_digits: "list_all is_ascii_hexdigit (upper_hex w n)"
  by (induction w n rule: upper_hex.induct) (simp_all add: hex_digit_back)

lemma length_upper_hex [simp]: "length (upper_hex w n) = w"
  by (induction w n rule: upper_hex.induct) simp_all

lemma from_hex_upper_hex: "n < 16 ^ w \<Longrightarrow> from_hex (upper_hex w n) = n"
proof (induction w n rule: upper_hex.induct)
  case (2 w n)
  then have "n div 16 < 16 ^ w" by (simp add: less_mult_imp_div_less mult.commute)
  with 2 show ?case by (simp add: from_hex_snoc hex_digit_back)
qed (simp add: from_hex_def)

lemma from_hex_bound: "list_all is_ascii_hexdigit s \<Longrightarrow> from_hex s < 16 ^ length s"
proof (induction s rule: rev_induct)
  case (snoc c s)
  then show ?case using hex_value_back [of c] by (simp add: from_hex_snoc)
qed (simp add: from_hex_def)

lemma upper_hex_from_hex:
  "list_all is_ascii_hexdigit s \<Longrightarrow> upper_hex (length s) (from_hex s) = ascii_upper s"
proof (induction s rule: rev_induct)
  case (snoc c s)
  then show ?case using hex_value_back [of c] by (simp add: from_hex_snoc)
qed simp

lemma byte_len_hex: "list_all is_ascii_hexdigit s \<Longrightarrow> byte_len s = length s"
proof (induction s)
  case (Cons c s)
  then have "len_utf8 c = 1" by (auto simp: len_utf8_def is_ascii_hexdigit_def is_ascii_digit_def)
  with Cons show ?case by (simp add: byte_len_Cons)
qed (simp add: byte_len_def)

lemma byte_len_append: "byte_len (s @ t) = byte_len s + byte_len t"
  by (simp add: byte_len_def)

lemma profile_parse_text:
  assumes "length a = 4" "length b = 8" "list_all is_ascii_hexdigit a" "list_all is_ascii_hexdigit b"
  shows "profile_parse (a @ [0x3A] @ b) =
    (if of_nat (from_hex a) = (0 :: u16) \<or> of_nat (from_hex b) = (0 :: u32)
     then Inl DescriptorInvalidData
     else Inr (WindowsKeyboardProfile (of_nat (from_hex a)) (of_nat (from_hex b))))"
  using assms
  by (simp add: profile_parse_def byte_len_append byte_len_Cons byte_len_hex Let_def len_utf8_def)

lemma profile_parse_shape:
  assumes "profile_parse s = Inr p"
  obtains a b where "s = a @ [0x3A] @ b" "length a = 4" "length b = 8"
    "list_all is_ascii_hexdigit a" "list_all is_ascii_hexdigit b"
    "p = WindowsKeyboardProfile (of_nat (from_hex a)) (of_nat (from_hex b))"
    "profile_language_id p \<noteq> 0" "profile_klid p \<noteq> 0"
proof -
  obtain rest where r: "drop 4 s = 0x3A # rest" "byte_len s = 13" "list_all is_ascii_hexdigit (take 4 s)"
    "list_all is_ascii_hexdigit rest"
    "p = WindowsKeyboardProfile (of_nat (from_hex (take 4 s))) (of_nat (from_hex rest))"
    "profile_language_id p \<noteq> 0" "profile_klid p \<noteq> 0"
    using assms by (auto simp: profile_parse_def Let_def split: list.splits if_splits)
  have s: "s = take 4 s @ [0x3A] @ rest" using r(1) by (metis append_Cons append_Nil append_take_drop_id)
  have "length s > 4" using r(1) by (metis drop_eq_Nil list.distinct(1) not_le)
  then have four: "length (take 4 s) = 4" by simp
  have "byte_len s = byte_len (take 4 s) + byte_len [0x3A] + byte_len rest"
    by (subst s) (simp only: byte_len_append)
  then have "length rest = 8"
    using r(2-4) four by (simp add: byte_len_hex) (simp add: byte_len_def len_utf8_def)
  with s r four show ?thesis by (intro that)
qed

text \<open>The text of a keyboard profile is exact: a text that parses prints back as itself with
  its hexadecimal digits in upper case, and the printed text parses to the same profile, so a
  stored profile never comes to name another keyboard.\<close>

theorem profile_text_roundtrip:
  assumes "profile_parse s = Inr p"
  shows "profile_to_string p = ascii_upper s \<and> profile_parse (profile_to_string p) = Inr p"
proof -
  obtain a b where s: "s = a @ [0x3A] @ b" and len: "length a = 4" "length b = 8"
    and hex: "list_all is_ascii_hexdigit a" "list_all is_ascii_hexdigit b"
    and p: "p = WindowsKeyboardProfile (of_nat (from_hex a)) (of_nat (from_hex b))"
      "profile_language_id p \<noteq> 0" "profile_klid p \<noteq> 0"
    using profile_parse_shape [OF assms] by blast
  have bound: "from_hex a < 2 ^ 16" "from_hex b < 2 ^ 32"
    using from_hex_bound [OF hex(1)] from_hex_bound [OF hex(2)] len by simp_all
  then have nums: "unat (profile_language_id p) = from_hex a" "unat (profile_klid p) = from_hex b"
    by (simp_all add: p(1) unat_of_nat take_bit_nat_eq_self)
  have shown: "profile_to_string p = ascii_upper a @ [0x3A] @ ascii_upper b"
    using upper_hex_from_hex [OF hex(1)] upper_hex_from_hex [OF hex(2)] len
    by (simp add: profile_to_string_def nums)
  have "profile_parse (profile_to_string p) = Inr p"
    unfolding profile_to_string_def
    using p(2,3) bound
    by (subst profile_parse_text)
      (simp_all add: upper_hex_digits from_hex_upper_hex nums, simp_all add: p(1))
  moreover have "ascii_upper s = profile_to_string p"
    by (simp add: shown s ascii_defs)
  ultimately show ?thesis by simp
qed

lemma profile_text_roundtrip_witness:
  "profile_to_string (WindowsKeyboardProfile 0x40c 0x40c) = ascii_upper (lit ''040c:0000040c'')
   \<and> profile_parse (profile_to_string (WindowsKeyboardProfile 0x40c 0x40c)) = Inr (WindowsKeyboardProfile 0x40c 0x40c)"
  by (rule profile_text_roundtrip)
    (simp add: profile_parse_def byte_len_def len_utf8_def is_ascii_hexdigit_def ascii_defs
      from_hex_def hex_digit_value_def)

section \<open>Descriptors\<close>

record input_profile_requirements =
  required_capabilities :: "ustr set"

record input_pack_descriptor =
  descriptor_pack_id :: pack_id
  descriptor_profiles :: "(windows_keyboard_profile \<times> input_profile_requirements) list"

record profile_document =
  pd_profile :: ustr
  pd_required_capabilities :: "ustr list"

record descriptor_document =
  dd_format :: u32
  dd_pack_id :: ustr
  dd_profiles :: "profile_document list"

fun valid_capability :: "ustr \<Rightarrow> bool" where
  "valid_capability [] = False"
| "valid_capability (c # s) \<longleftrightarrow>
     (byte_len (c # s) \<le> 63 \<and> is_ascii_lowercase c
      \<and> list_all (\<lambda>b. is_ascii_lowercase b \<or> is_ascii_digit b \<or> b = 0x2D) (c # s))"

fun collect_capabilities :: "ustr set \<Rightarrow> ustr list \<Rightarrow> ustr set option" where
  "collect_capabilities found [] = Some found"
| "collect_capabilities found (c # cs) =
     (if \<not> valid_capability c \<or> c \<in> found then None else collect_capabilities (insert c found) cs)"

fun descriptor_rows ::
  "profile_document list \<Rightarrow> (windows_keyboard_profile \<times> input_profile_requirements) list \<Rightarrow>
     input_descriptor_error + (windows_keyboard_profile \<times> input_profile_requirements) list" where
  "descriptor_rows [] profiles = Inr profiles"
| "descriptor_rows (row # rows) profiles =
     (case profile_parse (pd_profile row) of
        Inl error \<Rightarrow> Inl error
      | Inr p \<Rightarrow>
          if pd_required_capabilities row = [] then Inl DescriptorInvalidData
          else if length (pd_required_capabilities row) > 8 then Inl DescriptorLimitExceeded
          else case collect_capabilities {} (pd_required_capabilities row) of
                 None \<Rightarrow> Inl DescriptorInvalidData
               | Some capabilities \<Rightarrow>
                   if om_lookup profiles p \<noteq> None then Inl DescriptorInvalidData
                   else descriptor_rows rows
                          (om_insert p \<lparr>required_capabilities = capabilities\<rparr> profiles))"

definition descriptor_from_json ::
  "(u8 list \<Rightarrow> descriptor_document option) \<Rightarrow> u8 list \<Rightarrow> input_descriptor_error + input_pack_descriptor" where
  "descriptor_from_json decode bytes =
     (if length bytes > 16 * 1024 then Inl DescriptorLimitExceeded
      else case decode bytes of
        None \<Rightarrow> Inl DescriptorInvalidData
      | Some d \<Rightarrow>
          if dd_format d \<noteq> 1 \<or> dd_profiles d = [] then Inl DescriptorInvalidData
          else if length (dd_profiles d) > 32 then Inl DescriptorLimitExceeded
          else case pack_parse (dd_pack_id d) of
                 Inl _ \<Rightarrow> Inl DescriptorInvalidData
               | Inr l \<Rightarrow>
                   (case descriptor_rows (dd_profiles d) [] of
                      Inl error \<Rightarrow> Inl error
                    | Inr profiles \<Rightarrow> Inr \<lparr>descriptor_pack_id = l, descriptor_profiles = profiles\<rparr>))"

definition descriptor_profile ::
  "input_pack_descriptor \<Rightarrow> windows_keyboard_profile \<Rightarrow> input_profile_requirements option" where
  "descriptor_profile d p = om_lookup (descriptor_profiles d) p"

section \<open>Implementations of this program\<close>

datatype input_scope = ConservativePhysicalKeys

record input_binding =
  binding_profile :: windows_keyboard_profile
  binding_scope :: input_scope

datatype profile_implementation =
  UnsupportedProfile | MissingCapabilities "ustr set" | Implemented

definition US_KEYBOARD :: windows_keyboard_profile where
  "US_KEYBOARD = WindowsKeyboardProfile 0x0409 0x00000409"

definition RU_KEYBOARD :: windows_keyboard_profile where
  "RU_KEYBOARD = WindowsKeyboardProfile 0x0419 0x00000419"

definition ET_KEYBOARD :: windows_keyboard_profile where
  "ET_KEYBOARD = WindowsKeyboardProfile 0x0425 0x00000425"

definition assess_profile_implementation ::
  "windows_keyboard_profile \<Rightarrow> input_profile_requirements \<Rightarrow> profile_implementation" where
  "assess_profile_implementation p requirements =
     (if p \<in> {US_KEYBOARD, RU_KEYBOARD, ET_KEYBOARD} then
        let missing = Set.filter (\<lambda>c. c \<notin> {lit ''physical-key-v1''}) (required_capabilities requirements)
        in if missing = {} then Implemented else MissingCapabilities missing
      else UnsupportedProfile)"

definition bind_conservative_profile ::
  "windows_keyboard_profile \<Rightarrow> input_profile_requirements \<Rightarrow> input_binding option" where
  "bind_conservative_profile p requirements =
     (let supported =
        (case assess_profile_implementation p requirements of
           Implemented \<Rightarrow> True
         | MissingCapabilities missing \<Rightarrow>
             p = ET_KEYBOARD \<and> lit ''physical-key-v1'' \<in> required_capabilities requirements
             \<and> missing = {lit ''altgr-v1'', lit ''dead-key-v1''}
         | UnsupportedProfile \<Rightarrow> False)
      in if supported then Some \<lparr>binding_profile = p, binding_scope = ConservativePhysicalKeys\<rparr>
         else None)"

definition offline_layout :: "input_binding \<Rightarrow> language option" where
  "offline_layout b =
     (if binding_profile b = US_KEYBOARD then Some English
      else if binding_profile b = RU_KEYBOARD then Some Russian
      else None)"

definition binding_transpose_character :: "input_binding \<Rightarrow> uchar \<Rightarrow> input_binding \<Rightarrow> uchar option" where
  "binding_transpose_character b c target =
     (case (offline_layout b, offline_layout target) of
        (Some from, Some to) \<Rightarrow> transpose_character c from to
      | _ \<Rightarrow> None)"

definition binding_transpose_word :: "input_binding \<Rightarrow> ustr \<Rightarrow> input_binding \<Rightarrow> ustr option" where
  "binding_transpose_word b word target =
     (case (offline_layout b, offline_layout target) of
        (Some from, Some to) \<Rightarrow> transpose_word word from to
      | _ \<Rightarrow> None)"

section \<open>The user's choice\<close>

datatype profile_selection_error =
  InvalidPackId | InvalidProfile | DuplicatePackId | SelectionLimitExceeded

type_synonym input_profile_selections = "(pack_id \<times> windows_keyboard_profile) list"

fun selection_choices ::
  "nat \<Rightarrow> (ustr \<times> ustr) list \<Rightarrow> input_profile_selections \<Rightarrow>
     profile_selection_error + input_profile_selections" where
  "selection_choices i [] choices = Inr choices"
| "selection_choices i ((name, profile) # rows) choices =
     (if i \<ge> 64 then Inl SelectionLimitExceeded
      else case pack_parse name of
        Inl _ \<Rightarrow> Inl InvalidPackId
      | Inr l \<Rightarrow>
          (case profile_parse profile of
             Inl _ \<Rightarrow> Inl InvalidProfile
           | Inr p \<Rightarrow>
               if om_lookup choices l \<noteq> None then Inl DuplicatePackId
               else selection_choices (Suc i) rows (om_insert l p choices)))"

definition selections_parse ::
  "(ustr \<times> ustr) list \<Rightarrow> profile_selection_error + input_profile_selections" where
  "selections_parse rows = selection_choices 0 rows []"

definition selections_get :: "input_profile_selections \<Rightarrow> pack_id \<Rightarrow> windows_keyboard_profile option" where
  "selections_get choices l = om_lookup choices l"

definition selections_resolve ::
  "input_profile_selections \<Rightarrow> input_pack_descriptor \<Rightarrow>
     (windows_keyboard_profile \<times> input_profile_requirements) option" where
  "selections_resolve choices d =
     (case selections_get choices (descriptor_pack_id d) of
        Some p \<Rightarrow> map_option (\<lambda>r. (p, r)) (descriptor_profile d p)
      | None \<Rightarrow>
          (case descriptor_profiles d of
             [(p, requirements)] \<Rightarrow> Some (p, requirements)
           | _ \<Rightarrow> None))"

section \<open>What a parsed descriptor keeps\<close>

definition profile_row_ok :: "windows_keyboard_profile \<times> input_profile_requirements \<Rightarrow> bool" where
  "profile_row_ok row \<longleftrightarrow>
     profile_language_id (fst row) \<noteq> 0 \<and> profile_klid (fst row) \<noteq> 0
     \<and> required_capabilities (snd row) \<noteq> {} \<and> finite (required_capabilities (snd row))
     \<and> card (required_capabilities (snd row)) \<le> 8
     \<and> (\<forall>c \<in> required_capabilities (snd row). valid_capability c)"

definition descriptor_well_formed :: "input_pack_descriptor \<Rightarrow> bool" where
  "descriptor_well_formed d \<longleftrightarrow>
     valid_pack (descriptor_pack_id d) \<and> om_sorted (descriptor_profiles d)
     \<and> descriptor_profiles d \<noteq> [] \<and> length (descriptor_profiles d) \<le> 32
     \<and> list_all profile_row_ok (descriptor_profiles d)"

lemma collect_capabilities_mono:
  "collect_capabilities found cs = Some every \<Longrightarrow> every = found \<union> set cs"
  by (induction found cs rule: collect_capabilities.induct) (auto split: if_splits)

lemma collect_capabilities_valid:
  "collect_capabilities found cs = Some every \<Longrightarrow> list_all valid_capability cs"
  by (induction found cs rule: collect_capabilities.induct) (auto split: if_splits)

lemma collect_capabilities_card:
  assumes "collect_capabilities {} cs = Some every"
  shows "every = set cs \<and> finite every \<and> card every \<le> length cs \<and> (\<forall>c \<in> every. valid_capability c)"
  using collect_capabilities_mono [OF assms] collect_capabilities_valid [OF assms] card_length [of cs]
  by (simp add: list_all_iff)

lemma length_om_insert: "om_lookup m k = None \<Longrightarrow> length (om_insert k v m) = Suc (length m)"
  by (induction k v m rule: om_insert.induct) (auto simp: om_lookup_def split: if_splits)

lemma list_all_om_insert: "list_all P m \<Longrightarrow> P (k, v) \<Longrightarrow> list_all P (om_insert k v m)"
  using set_om_insert [of k v m] by (auto simp: list_all_iff)

lemma descriptor_rows_step:
  assumes "descriptor_rows (row # rows) profiles = Inr out"
  obtains p caps where "profile_parse (pd_profile row) = Inr p"
    "profile_row_ok (p, \<lparr>required_capabilities = caps\<rparr>)" "om_lookup profiles p = None"
    "descriptor_rows rows (om_insert p \<lparr>required_capabilities = caps\<rparr> profiles) = Inr out"
proof -
  obtain p where p: "profile_parse (pd_profile row) = Inr p"
    using assms by (cases "profile_parse (pd_profile row)") simp_all
  then obtain caps where caps: "collect_capabilities {} (pd_required_capabilities row) = Some caps"
    using assms by (cases "collect_capabilities {} (pd_required_capabilities row)") (auto split: if_splits)
  have here: "pd_required_capabilities row \<noteq> []" "length (pd_required_capabilities row) \<le> 8"
      "om_lookup profiles p = None"
    and rest: "descriptor_rows rows (om_insert p \<lparr>required_capabilities = caps\<rparr> profiles) = Inr out"
    using assms p caps by (simp_all split: if_splits)
  have ids: "profile_language_id p \<noteq> 0" "profile_klid p \<noteq> 0" using profile_parse_shape [OF p] by metis+
  have "caps \<noteq> {}" "card caps \<le> 8" using collect_capabilities_card [OF caps] here(1,2) by auto
  then have "profile_row_ok (p, \<lparr>required_capabilities = caps\<rparr>)"
    using collect_capabilities_card [OF caps] ids by (simp add: profile_row_ok_def)
  with p here(3) rest show ?thesis by (intro that)
qed

lemma descriptor_rows_ok:
  "descriptor_rows rows profiles = Inr out \<Longrightarrow> om_sorted profiles \<Longrightarrow> list_all profile_row_ok profiles \<Longrightarrow>
     om_sorted out \<and> list_all profile_row_ok out \<and> length out = length profiles + length rows"
proof (induction rows arbitrary: profiles)
  case (Cons row rows)
  obtain p caps where step: "profile_row_ok (p, \<lparr>required_capabilities = caps\<rparr>)" "om_lookup profiles p = None"
    "descriptor_rows rows (om_insert p \<lparr>required_capabilities = caps\<rparr> profiles) = Inr out"
    using descriptor_rows_step [OF Cons.prems(1)] by metis
  show ?case
    using Cons.IH [OF step(3)] step(1,2) Cons.prems(2,3)
    by (simp add: om_sorted_insert list_all_om_insert length_om_insert)
qed simp

text \<open>A descriptor that \<open>from_json\<close> accepts is well formed: its pack identity is valid, it has
  between one and 32 profiles in strictly ascending order, none with a zero language or keyboard,
  and each asks for between one and eight capabilities with valid names.\<close>

theorem parsed_descriptor_well_formed:
  assumes "descriptor_from_json decode bytes = Inr d"
  shows "descriptor_well_formed d"
proof -
  obtain doc where doc: "decode bytes = Some doc" and big: "\<not> length bytes > 16 * 1024"
    using assms by (cases "decode bytes") (simp_all add: descriptor_from_json_def split: if_splits)
  then have size: "dd_profiles doc \<noteq> []" "length (dd_profiles doc) \<le> 32" "dd_format doc = 1"
    using assms by (simp_all add: descriptor_from_json_def not_less split: if_splits)
  obtain l where l: "pack_parse (dd_pack_id doc) = Inr l"
    using assms doc big size by (cases "pack_parse (dd_pack_id doc)") (simp_all add: descriptor_from_json_def)
  obtain out where out: "descriptor_rows (dd_profiles doc) [] = Inr out"
    using assms doc big size l
    by (cases "descriptor_rows (dd_profiles doc) []") (simp_all add: descriptor_from_json_def)
  have "d = \<lparr>descriptor_pack_id = l, descriptor_profiles = out\<rparr>"
    using assms doc big size l out by (simp add: descriptor_from_json_def)
  then show ?thesis
    using descriptor_rows_ok [OF out] pack_parse_valid [OF l] size
    by (auto simp: descriptor_well_formed_def om_sorted_def)
qed

text \<open>The embedded descriptor of the English pack.\<close>

definition us_document :: descriptor_document where
  "us_document = \<lparr>dd_format = 1, dd_pack_id = lit ''en-US'',
     dd_profiles = [\<lparr>pd_profile = lit ''0409:00000409'', pd_required_capabilities = [lit ''physical-key-v1'']\<rparr>]\<rparr>"

definition us_descriptor :: input_pack_descriptor where
  "us_descriptor = \<lparr>descriptor_pack_id = English,
     descriptor_profiles = [(US_KEYBOARD, \<lparr>required_capabilities = {lit ''physical-key-v1''}\<rparr>)]\<rparr>"

lemma us_descriptor_read: "descriptor_from_json (\<lambda>_. Some us_document) [] = Inr us_descriptor"
proof -
  have "profile_parse (lit ''0409:00000409'') = Inr US_KEYBOARD"
    by (simp add: profile_parse_def byte_len_def len_utf8_def is_ascii_hexdigit_def ascii_defs
        from_hex_def hex_digit_value_def US_KEYBOARD_def)
  moreover have "pack_parse (lit ''en-US'') = Inr English"
    by (simp add: pack_parse_def valid_pack_text_def byte_len_def len_utf8_def is_hyphen_def language_defs)
  moreover have "valid_capability (lit ''physical-key-v1'')"
    by (simp add: byte_len_def len_utf8_def ascii_defs)
  ultimately show ?thesis
    by (simp add: descriptor_from_json_def us_document_def us_descriptor_def om_lookup_def del: lit_simps)
qed

lemma parsed_descriptor_well_formed_witness: "descriptor_well_formed us_descriptor"
  by (rule parsed_descriptor_well_formed) (rule us_descriptor_read)

text \<open>A pack takes part only through a keyboard it declares: whatever the user chose, the
  profile that is resolved is one of the descriptor's own rows; an explicit choice of a profile the
  pack does not declare resolves to nothing, never to another profile; and without a choice only a
  single declared profile is taken.\<close>

theorem selection_fails_closed:
  assumes "om_sorted (descriptor_profiles d)"
  shows "(case selections_resolve choices d of
      Some (p, r) \<Rightarrow>
        (p, r) \<in> set (descriptor_profiles d)
        \<and> (case selections_get choices (descriptor_pack_id d) of
             Some chosen \<Rightarrow> p = chosen
           | None \<Rightarrow> descriptor_profiles d = [(p, r)])
    | None \<Rightarrow>
        (case selections_get choices (descriptor_pack_id d) of
           Some chosen \<Rightarrow> chosen \<notin> fst ` set (descriptor_profiles d)
         | None \<Rightarrow> length (descriptor_profiles d) \<noteq> 1))"
proof (cases "selections_get choices (descriptor_pack_id d)")
  case None
  then show ?thesis
    by (auto simp: selections_resolve_def split: list.split)
next
  case (Some p)
  then show ?thesis
    using om_sorted_in [OF assms, of p]
    by (auto simp: selections_resolve_def descriptor_profile_def om_lookup_def map_of_eq_None_iff
        split: option.split)
qed

lemma selection_fails_closed_witness:
  "(case selections_resolve [(English, RU_KEYBOARD)] us_descriptor of
      Some (p, r) \<Rightarrow>
        (p, r) \<in> set (descriptor_profiles us_descriptor)
        \<and> (case selections_get [(English, RU_KEYBOARD)] (descriptor_pack_id us_descriptor) of
             Some chosen \<Rightarrow> p = chosen
           | None \<Rightarrow> descriptor_profiles us_descriptor = [(p, r)])
    | None \<Rightarrow>
        (case selections_get [(English, RU_KEYBOARD)] (descriptor_pack_id us_descriptor) of
           Some chosen \<Rightarrow> chosen \<notin> fst ` set (descriptor_profiles us_descriptor)
         | None \<Rightarrow> length (descriptor_profiles us_descriptor) \<noteq> 1))"
  by (rule selection_fails_closed) (simp add: us_descriptor_def om_sorted_def)

section \<open>Bindings\<close>

text \<open>A binding is only ever one of the three keyboards this program implements, with every
  capability it lacks being one of the two the conservative Estonian path does without.\<close>

lemma binding_is_reviewed:
  assumes "bind_conservative_profile p r = Some b"
  shows "binding_profile b = p \<and> p \<in> {US_KEYBOARD, RU_KEYBOARD, ET_KEYBOARD}
    \<and> required_capabilities r \<subseteq> {lit ''physical-key-v1''}
        \<union> (if p = ET_KEYBOARD then {lit ''altgr-v1'', lit ''dead-key-v1''} else {})"
proof -
  have known: "p \<in> {US_KEYBOARD, RU_KEYBOARD, ET_KEYBOARD}"
  proof (rule ccontr)
    assume "p \<notin> {US_KEYBOARD, RU_KEYBOARD, ET_KEYBOARD}"
    then have "assess_profile_implementation p r = UnsupportedProfile"
      by (simp only: assess_profile_implementation_def if_False)
    with assms show False by (simp add: bind_conservative_profile_def)
  qed
  let ?missing = "Set.filter (\<lambda>c. c \<notin> {lit ''physical-key-v1''}) (required_capabilities r)"
  have split: "required_capabilities r \<subseteq> {lit ''physical-key-v1''} \<union> ?missing" by auto
  have verdict: "assess_profile_implementation p r = (if ?missing = {} then Implemented else MissingCapabilities ?missing)"
    using known by (simp only: assess_profile_implementation_def if_True Let_def)
  have lacks: "?missing = {} \<or> p = ET_KEYBOARD \<and> ?missing = {lit ''altgr-v1'', lit ''dead-key-v1''}"
  proof (cases "?missing = {}")
    case False
    then have "assess_profile_implementation p r = MissingCapabilities ?missing" using verdict by (simp only: if_False)
    then show ?thesis
      using assms by (simp only: bind_conservative_profile_def Let_def profile_implementation.case option.distinct split: if_splits) blast
  qed simp
  have "?missing \<subseteq> (if p = ET_KEYBOARD then {lit ''altgr-v1'', lit ''dead-key-v1''} else {})"
    using lacks by (elim disjE conjE) (simp_all only: empty_subsetI if_True subset_refl refl)
  then have "required_capabilities r \<subseteq> {lit ''physical-key-v1''}
      \<union> (if p = ET_KEYBOARD then {lit ''altgr-v1'', lit ''dead-key-v1''} else {})"
    by (rule subset_trans [OF split Un_mono [OF subset_refl]])
  moreover have "binding_profile b = p"
    using assms by (auto simp only: bind_conservative_profile_def Let_def option.inject split: if_splits) simp
  ultimately show ?thesis using known by blast
qed

lemma binding_transpose_word_back:
  "binding_transpose_word b w t = Some v \<Longrightarrow> length v = length w"
  by (auto simp: binding_transpose_word_def transpose_word_def split: option.splits if_splits
      dest: transpose_characters_length)

end
