(* ===== verification/Dictionary.thy ===== *)
theory Dictionary
  imports Scoring Input_Profile
begin

text \<open>
  \<open>src/dictionary_registry.rs\<close>: the dictionary packs and the registry of the installed and the
  enabled ones. A compiled dictionary is what the program can ask it, its membership test; building
  it from a sorted list of words is the crate \<open>fst\<close>'s and a parameter.
\<close>

definition MAX_DICTIONARY_BYTES :: nat where "MAX_DICTIONARY_BYTES = 32 * 1024 * 1024"
definition MAX_SHORT_DICTIONARY_BYTES :: nat where "MAX_SHORT_DICTIONARY_BYTES = 16 * 1024 * 1024"
definition MAX_DICTIONARY_ROWS :: nat where "MAX_DICTIONARY_ROWS = 1500000"
definition MAX_SHORT_DICTIONARY_ROWS :: nat where "MAX_SHORT_DICTIONARY_ROWS = 500000"

type_synonym word_set = "ustr \<Rightarrow> bool"

text \<open>\<open>fst::Set::from_iter\<close> followed by \<open>Set::new\<close>.\<close>

type_synonym fst_builder = "ustr list \<Rightarrow> word_set option"

record dictionary_pack =
  dp_id :: pack_id
  dp_model :: "scoring_model option"
  dp_input_descriptor :: "input_pack_descriptor option"
  dp_words :: word_set
  dp_common_short :: word_set

section \<open>Compiling word lists\<close>

fun normalize_words ::
  "unicode \<Rightarrow> nat \<Rightarrow> nat \<Rightarrow> nat \<Rightarrow> nat \<Rightarrow> nat \<Rightarrow> ustr list \<Rightarrow> ustr list \<Rightarrow> dictionary_error + ustr list" where
  "normalize_words U max_rows max_bytes i bytes normalized_bytes normalized [] = Inr normalized"
| "normalize_words U max_rows max_bytes i bytes normalized_bytes normalized (w # ws) =
     (if max_rows \<le> i \<or> byte_len w > 256 then Inl LimitExceeded
      else if bytes + byte_len w > max_bytes then Inl LimitExceeded
      else if w = [] \<or> list_ex (\<lambda>c. is_control c \<or> is_whitespace c) w then Inl InvalidWord
      else
        let lower = uc_lower_str U w in
        if normalized_bytes + byte_len lower > max_bytes then Inl LimitExceeded
        else normalize_words U max_rows max_bytes (Suc i) (bytes + byte_len w)
               (normalized_bytes + byte_len lower) (lower # normalized) ws)"

definition compile_words ::
  "fst_builder \<Rightarrow> unicode \<Rightarrow> ustr list \<Rightarrow> nat \<Rightarrow> nat \<Rightarrow> dictionary_error + word_set" where
  "compile_words build U ws max_rows max_bytes =
     (case normalize_words U max_rows max_bytes 0 0 0 [] ws of
        Inl error \<Rightarrow> Inl error
      | Inr normalized \<Rightarrow>
          (case build (sort (remdups normalized)) of None \<Rightarrow> Inl InvalidDictionary | Some s \<Rightarrow> Inr s))"

text \<open>The scoring data compiled into the program is a parameter.\<close>

definition from_words ::
  "fst_builder \<Rightarrow> unicode \<Rightarrow> (pack_id \<Rightarrow> scoring_model option) \<Rightarrow> pack_id \<Rightarrow> ustr list \<Rightarrow> ustr list \<Rightarrow>
     dictionary_error + dictionary_pack" where
  "from_words build U embedded_model l ws short =
     (case compile_words build U ws MAX_DICTIONARY_ROWS MAX_DICTIONARY_BYTES of
        Inl error \<Rightarrow> Inl error
      | Inr w \<Rightarrow>
          (case compile_words build U short MAX_SHORT_DICTIONARY_ROWS MAX_SHORT_DICTIONARY_BYTES of
             Inl error \<Rightarrow> Inl error
           | Inr s \<Rightarrow> Inr \<lparr>dp_id = l, dp_model = embedded_model l, dp_input_descriptor = None,
               dp_words = w, dp_common_short = s\<rparr>))"

definition with_scoring_model :: "scoring_model \<Rightarrow> dictionary_pack \<Rightarrow> dictionary_pack" where
  "with_scoring_model m pack = pack\<lparr>dp_model := Some m\<rparr>"

definition with_input_descriptor ::
  "input_pack_descriptor \<Rightarrow> dictionary_pack \<Rightarrow> input_descriptor_error + dictionary_pack" where
  "with_input_descriptor d pack =
     (if descriptor_pack_id d \<noteq> dp_id pack then Inl PackIdMismatch
      else Inr (pack\<lparr>dp_input_descriptor := Some d\<rparr>))"

definition pack_contains :: "unicode \<Rightarrow> dictionary_pack \<Rightarrow> ustr \<Rightarrow> bool" where
  "pack_contains U pack w = dp_words pack (uc_lower_str U w)"

definition pack_common_short_contains :: "unicode \<Rightarrow> dictionary_pack \<Rightarrow> ustr \<Rightarrow> bool" where
  "pack_common_short_contains U pack w = dp_common_short pack (uc_lower_str U w)"

section \<open>The registry\<close>

text \<open>The set of enabled identities is the sorted list its iteration yields.\<close>

record dictionary_registry =
  dr_packs :: "(pack_id \<times> dictionary_pack) list"
  dr_enabled :: "pack_id list"

definition registry_default :: dictionary_registry where
  "registry_default = \<lparr>dr_packs = [], dr_enabled = []\<rparr>"

definition registry_installed :: "dictionary_registry \<Rightarrow> pack_id \<Rightarrow> dictionary_pack option" where
  "registry_installed r l = om_lookup (dr_packs r) l"

definition registry_insert ::
  "dictionary_pack \<Rightarrow> dictionary_registry \<Rightarrow> (dictionary_error + unit) \<times> dictionary_registry" where
  "registry_insert pack r =
     (if om_lookup (dr_packs r) (dp_id pack) \<noteq> None then (Inl DuplicateId, r)
      else if length (dr_packs r) \<ge> 64 then (Inl LimitExceeded, r)
      else (Inr (), r\<lparr>dr_packs := om_insert (dp_id pack) pack (dr_packs r)\<rparr>))"

fun collect_enabled :: "nat \<Rightarrow> pack_id list \<Rightarrow> pack_id list \<Rightarrow> pack_id list option" where
  "collect_enabled i enabled [] = Some enabled"
| "collect_enabled i enabled (l # ls) =
     (if 64 \<le> i then None else collect_enabled (Suc i) (l # enabled) ls)"

definition set_enabled ::
  "pack_id list \<Rightarrow> dictionary_registry \<Rightarrow> (dictionary_error + unit) \<times> dictionary_registry" where
  "set_enabled ls r =
     (case collect_enabled 0 [] ls of
        None \<Rightarrow> (Inl LimitExceeded, r)
      | Some enabled \<Rightarrow> (Inr (), r\<lparr>dr_enabled := sort (remdups enabled)\<rparr>))"

definition registry_active :: "dictionary_registry \<Rightarrow> pack_id \<Rightarrow> dictionary_pack option" where
  "registry_active r l = (if l \<in> set (dr_enabled r) then om_lookup (dr_packs r) l else None)"

definition registry_remove :: "pack_id \<Rightarrow> dictionary_registry \<Rightarrow> dictionary_pack option \<times> dictionary_registry" where
  "registry_remove l r = (om_lookup (dr_packs r) l, r\<lparr>dr_packs := om_remove l (dr_packs r)\<rparr>)"

definition active_language :: "dictionary_registry \<Rightarrow> language \<Rightarrow> dictionary_pack option" where
  "active_language r l = registry_active r l"

section \<open>What the registry keeps\<close>

definition registry_ok :: "dictionary_registry \<Rightarrow> bool" where
  "registry_ok r \<longleftrightarrow>
     om_sorted (dr_packs r) \<and> length (dr_packs r) \<le> 64
     \<and> list_all (\<lambda>(l, pack). dp_id pack = l
          \<and> (case dp_input_descriptor pack of None \<Rightarrow> True | Some d \<Rightarrow> descriptor_pack_id d = l)) (dr_packs r)
     \<and> sorted_wrt (<) (dr_enabled r) \<and> length (dr_enabled r) \<le> 64"

definition pack_ok :: "dictionary_pack \<Rightarrow> bool" where
  "pack_ok pack \<longleftrightarrow>
     (case dp_input_descriptor pack of None \<Rightarrow> True | Some d \<Rightarrow> descriptor_pack_id d = dp_id pack)"

lemma from_words_pack_ok: "from_words build U E l ws short = Inr pack \<Longrightarrow> pack_ok pack \<and> dp_id pack = l"
  by (auto simp: from_words_def pack_ok_def split: sum.splits)

lemma with_input_descriptor_ok: "with_input_descriptor d pack = Inr pack' \<Longrightarrow> pack_ok pack'"
  by (auto simp: with_input_descriptor_def pack_ok_def split: if_splits)

lemma registry_default_ok: "registry_ok registry_default"
  by (simp add: registry_ok_def registry_default_def om_sorted_def)

lemma registry_insert_ok: "registry_ok r \<Longrightarrow> pack_ok pack \<Longrightarrow> registry_ok (snd (registry_insert pack r))"
  by (auto simp: registry_ok_def registry_insert_def pack_ok_def om_sorted_insert length_om_insert
      list_all_om_insert)

lemma collect_enabled_set:
  "collect_enabled i found ls = Some enabled \<Longrightarrow>
     set enabled = set found \<union> set ls \<and> (ls = [] \<or> i + length ls \<le> 64)"
  by (induction i found ls rule: collect_enabled.induct) (auto split: if_splits)

lemma set_enabled_ok: "registry_ok r \<Longrightarrow> registry_ok (snd (set_enabled ls r))"
proof (cases "collect_enabled 0 [] ls")
  case (Some enabled)
  assume "registry_ok r"
  have "set enabled = set ls" "length ls \<le> 64" using collect_enabled_set [OF Some] by auto
  then have "length (sort (remdups enabled)) \<le> 64"
    by (metis card_length dual_order.trans length_remdups_card_conv length_sort)
  with Some \<open>registry_ok r\<close> show ?thesis
    by (simp add: registry_ok_def set_enabled_def strict_sorted_iff)
qed (simp add: set_enabled_def)

lemma list_all_om_remove: "list_all P m \<Longrightarrow> list_all P (om_remove k m)"
  by (auto simp: om_remove_def list_all_iff)

lemma registry_remove_ok: "registry_ok r \<Longrightarrow> registry_ok (snd (registry_remove l r))"
  by (simp add: registry_ok_def registry_remove_def om_sorted_remove list_all_om_remove)
    (simp add: om_remove_def order_trans [OF length_filter_le])

datatype registry_operation = InsertPack dictionary_pack | EnablePacks "pack_id list" | RemovePack pack_id

fun registry_step :: "registry_operation \<Rightarrow> dictionary_registry \<Rightarrow> dictionary_registry" where
  "registry_step (InsertPack pack) r = snd (registry_insert pack r)"
| "registry_step (EnablePacks ls) r = snd (set_enabled ls r)"
| "registry_step (RemovePack l) r = snd (registry_remove l r)"

text \<open>Whatever packs are installed, selected and removed, in whatever order, the registry stays
  well formed: at most 64 packs, sorted, each stored under its own identity with a descriptor that
  states that identity, and at most 64 selected identities; and a pack that answers as active is
  one that was selected and carries the identity asked for.\<close>

theorem registry_well_formed:
  assumes "\<forall>pack. InsertPack pack \<in> set ops \<longrightarrow> pack_ok pack"
  shows "registry_ok (fold registry_step ops registry_default)
    \<and> (\<forall>l pack. active_language (fold registry_step ops registry_default) l = Some pack \<longrightarrow>
         dp_id pack = l \<and> l \<in> set (dr_enabled (fold registry_step ops registry_default)))"
proof -
  have "registry_ok (fold registry_step ops r)"
    if "registry_ok r" "\<forall>pack. InsertPack pack \<in> set ops \<longrightarrow> pack_ok pack" for r
    using that
  proof (induction ops arbitrary: r)
    case (Cons op ops)
    then have "registry_ok (registry_step op r)"
      by (cases op) (auto simp: registry_insert_ok set_enabled_ok registry_remove_ok)
    with Cons show ?case by simp
  qed simp
  then have ok: "registry_ok (fold registry_step ops registry_default)"
    using assms registry_default_ok by blast
  then show ?thesis
    by (auto simp: active_language_def registry_active_def registry_ok_def list_all_iff om_lookup_def
        split: if_splits dest!: map_of_SomeD)
qed

section \<open>What a compiled pack contains\<close>

text \<open>The documented behaviour of the crate: a set built from sorted distinct words contains
  exactly those.\<close>

definition fst_laws :: "fst_builder \<Rightarrow> bool" where
  "fst_laws build \<longleftrightarrow> (\<forall>ws. sorted_wrt (<) ws \<longrightarrow> build ws = Some (\<lambda>w. w \<in> set ws))"

lemma normalize_words_set:
  "normalize_words U mr mb i b nb found ws = Inr normalized \<Longrightarrow>
     set normalized = set found \<union> uc_lower_str U ` set ws
     \<and> list_all (\<lambda>w. w \<noteq> [] \<and> byte_len w \<le> 256) ws \<and> b + sum_list (map byte_len ws) \<le> max b mb"
  by (induction U mr mb i b nb found ws rule: normalize_words.induct)
    (auto simp: Let_def split: if_splits)

lemma compile_words_contains:
  assumes "fst_laws build" "compile_words build U ws mr mb = Inr s"
  shows "s w \<longleftrightarrow> w \<in> uc_lower_str U ` set ws"
proof -
  obtain normalized where n: "normalize_words U mr mb 0 0 0 [] ws = Inr normalized"
    and s: "build (sort (remdups normalized)) = Some s"
    using assms(2) by (auto simp: compile_words_def split: sum.splits option.splits)
  have "build (sort (remdups normalized)) = Some (\<lambda>w. w \<in> set (sort (remdups normalized)))"
    using assms(1) sorted_strict_remdups by (simp add: fst_laws_def)
  with s have "s = (\<lambda>w. w \<in> set normalized)" by simp
  then show ?thesis using normalize_words_set [OF n] by simp
qed

text \<open>A pack compiled from word lists answers exactly for its words, without regard to case:
  it contains a word when the lowercase form of the word is the lowercase form of one of the list,
  and its short tier likewise.\<close>

theorem compiled_pack_contains:
  assumes "fst_laws build" "from_words build U E l ws short = Inr pack"
  shows "pack_contains U pack w = (\<exists>v \<in> set ws. uc_lower_str U w = uc_lower_str U v)
    \<and> pack_common_short_contains U pack w = (\<exists>v \<in> set short. uc_lower_str U w = uc_lower_str U v)"
  using assms
  by (auto simp: from_words_def pack_contains_def pack_common_short_contains_def
      compile_words_contains split: sum.splits)

definition sample_pack :: dictionary_pack where
  "sample_pack = \<lparr>dp_id = English, dp_model = None, dp_input_descriptor = Some us_descriptor,
     dp_words = (\<lambda>w. w = lit ''hello''), dp_common_short = (\<lambda>w. w = lit ''hi'')\<rparr>"

lemma registry_well_formed_witness:
  "registry_ok (fold registry_step [InsertPack sample_pack, EnablePacks [English, English]] registry_default)
    \<and> dp_id sample_pack = English
    \<and> English \<in> set (dr_enabled (fold registry_step [InsertPack sample_pack, EnablePacks [English, English]]
                registry_default))"
proof -
  have packs: "\<forall>pack. InsertPack pack \<in> set [InsertPack sample_pack, EnablePacks [English, English]] \<longrightarrow> pack_ok pack"
    by (simp add: pack_ok_def sample_pack_def us_descriptor_def)
  have active: "active_language (fold registry_step [InsertPack sample_pack, EnablePacks [English, English]]
      registry_default) English = Some sample_pack"
    by (simp add: registry_default_def registry_insert_def set_enabled_def active_language_def
        registry_active_def om_lookup_def sample_pack_def)
  show ?thesis
    using registry_well_formed [OF packs] active by blast
qed

definition list_builder :: fst_builder where
  "list_builder ws = Some (\<lambda>w. w \<in> set ws)"

lemma list_builder_laws: "fst_laws list_builder"
  by (simp add: fst_laws_def list_builder_def)

lemma compiled_sample:
  "from_words list_builder ascii_tables (\<lambda>_. None) English [lit ''Hello''] [lit ''Hi'']
    = Inr \<lparr>dp_id = English, dp_model = None, dp_input_descriptor = None,
        dp_words = (\<lambda>w. w \<in> set [lit ''hello'']), dp_common_short = (\<lambda>w. w \<in> set [lit ''hi''])\<rparr>"
  by (simp add: from_words_def compile_words_def list_builder_def byte_len_def len_utf8_def
      is_control_def is_whitespace_def ascii_defs MAX_DICTIONARY_ROWS_def MAX_DICTIONARY_BYTES_def
      MAX_SHORT_DICTIONARY_ROWS_def MAX_SHORT_DICTIONARY_BYTES_def)

lemma compiled_pack_contains_witness:
  "\<exists>pack. from_words list_builder ascii_tables (\<lambda>_. None) English [lit ''Hello''] [lit ''Hi''] = Inr pack
    \<and> pack_contains ascii_tables pack (lit ''HELLO'')
        = (\<exists>v \<in> set [lit ''Hello'']. uc_lower_str ascii_tables (lit ''HELLO'') = uc_lower_str ascii_tables v)
    \<and> pack_common_short_contains ascii_tables pack (lit ''HELLO'')
        = (\<exists>v \<in> set [lit ''Hi'']. uc_lower_str ascii_tables (lit ''HELLO'') = uc_lower_str ascii_tables v)"
  using compiled_pack_contains [OF list_builder_laws compiled_sample, of "lit ''HELLO''"] compiled_sample
  by blast

end
