(* ===== verification/User_Lexicon.thy ===== *)
theory User_Lexicon
  imports Language Ordered_Map
begin

text \<open>
  \<open>src/user_lexicon.rs\<close>: the user's dictionary and the do-not-convert list, kept per pack.
  The hash map of hash sets is an association list of sets; only lookups and the count of its
  words leave the component, so its order is not observable.
\<close>

record user_lexicon =
  ul_words :: "(pack_id \<times> ustr set) list"

definition user_lexicon_default :: user_lexicon where
  "user_lexicon_default = \<lparr>ul_words = []\<rparr>"

definition normalize_word :: "unicode \<Rightarrow> ustr \<Rightarrow> ustr option" where
  "normalize_word U word0 =
     (let word = trim word0 in
      if word = [] \<or> list_ex (\<lambda>c. is_control c \<or> is_whitespace c) word then None
      else let stored = uc_lower_str U word in
        if length stored \<le> 64 then Some stored else None)"

definition parse_entry :: "ustr \<Rightarrow> (pack_id \<times> ustr) option" where
  "parse_entry line0 =
     (let line = trim line0 in
      if line = [] \<or> starts_with line 0x23 then None
      else case split_once 0x3A line of
          None \<Rightarrow> None
        | Some (language, word) \<Rightarrow> (case from_id (trim language) of
              None \<Rightarrow> None
            | Some l \<Rightarrow> Some (l, trim word)))"

definition normalize_pack_entry :: "unicode \<Rightarrow> ustr \<Rightarrow> (pack_id \<times> ustr) option" where
  "normalize_pack_entry U line =
     (case parse_entry line of
        None \<Rightarrow> None
      | Some (l, word) \<Rightarrow> map_option (\<lambda>w. (l, w)) (normalize_word U word))"

definition contains_pack :: "unicode \<Rightarrow> user_lexicon \<Rightarrow> pack_id \<Rightarrow> ustr \<Rightarrow> bool" where
  "contains_pack U ux l word =
     (case om_lookup (ul_words ux) l of
        None \<Rightarrow> False | Some words \<Rightarrow> uc_lower_str U word \<in> words)"

definition insert_pack :: "unicode \<Rightarrow> pack_id \<Rightarrow> ustr \<Rightarrow> user_lexicon \<Rightarrow> bool \<times> user_lexicon" where
  "insert_pack U l word ux =
     (case normalize_word U word of
        None \<Rightarrow> (False, ux)
      | Some w \<Rightarrow>
          let words = (case om_lookup (ul_words ux) l of None \<Rightarrow> {} | Some ws \<Rightarrow> ws)
          in (w \<notin> words, ux\<lparr>ul_words := om_insert l (insert w words) (ul_words ux)\<rparr>))"

fun lexicon_add_lines :: "unicode \<Rightarrow> ustr list \<Rightarrow> user_lexicon \<Rightarrow> user_lexicon" where
  "lexicon_add_lines U [] ux = ux"
| "lexicon_add_lines U (line # lines) ux =
     (case normalize_pack_entry U line of
        None \<Rightarrow> lexicon_add_lines U lines ux
      | Some (l, word) \<Rightarrow> lexicon_add_lines U lines (snd (insert_pack U l word ux)))"

definition lexicon_from_lines :: "unicode \<Rightarrow> ustr list \<Rightarrow> user_lexicon" where
  "lexicon_from_lines U lines = lexicon_add_lines U lines user_lexicon_default"

definition lexicon_len :: "user_lexicon \<Rightarrow> nat" where
  "lexicon_len ux = sum_list (map card (om_values (ul_words ux)))"

definition lexicon_is_empty :: "user_lexicon \<Rightarrow> bool" where
  "lexicon_is_empty ux \<longleftrightarrow> list_all (\<lambda>ws. ws = {}) (om_values (ul_words ux))"

definition format_pack_entry :: "unicode \<Rightarrow> pack_id \<Rightarrow> ustr \<Rightarrow> ustr option" where
  "format_pack_entry U l word =
     map_option (\<lambda>w. language_id l @ lit '': '' @ w @ [10]) (normalize_word U word)"

section \<open>Stored words\<close>

lemma normalize_word_trim [simp]: "normalize_word U (trim w) = normalize_word U w"
  by (simp add: normalize_word_def)

lemma normalize_word_Some:
  "normalize_word U word = Some w \<longleftrightarrow>
   w = uc_lower_str U (trim word) \<and> trim word \<noteq> []
   \<and> (\<forall>c \<in> set (trim word). \<not> is_control c \<and> \<not> is_whitespace c) \<and> length w \<le> 64"
  by (auto simp: normalize_word_def Let_def list_ex_iff)

lemma normalize_word_chars:
  assumes "lowercase_laws U" "normalize_word U word = Some w"
  shows "w \<noteq> []" "\<forall>c \<in> set w. \<not> is_control c \<and> \<not> is_whitespace c"
proof -
  from assms(2) have w: "w = uc_lower_str U (trim word)" "trim word \<noteq> []"
    and c: "\<forall>c \<in> set (trim word). \<not> is_control c \<and> \<not> is_whitespace c"
    by (simp_all add: normalize_word_Some)
  show "w \<noteq> []" using w lower_empty [OF assms(1)] by simp
  show "\<forall>c \<in> set w. \<not> is_control c \<and> \<not> is_whitespace c"
    unfolding w(1) by (rule lower_chars [OF assms(1) c])
qed

lemma normalize_word_idem:
  assumes "lowercase_laws U" "normalize_word U word = Some w"
  shows "normalize_word U w = Some w"
proof -
  have "trim w = w" by (rule trim_plain) (use normalize_word_chars [OF assms] in blast)
  moreover have "uc_lower_str U w = w" "length w \<le> 64"
    using assms(2) lower_idem [OF assms(1), of "trim word"] by (auto simp: normalize_word_Some)
  ultimately show ?thesis
    using normalize_word_chars [OF assms] by (simp only: normalize_word_Some simp_thms)
qed

lemma contains_insert:
  "contains_pack U (snd (insert_pack U l word ux)) k v \<longleftrightarrow>
   contains_pack U ux k v \<or> (k = l \<and> normalize_word U word = Some (uc_lower_str U v))"
  by (auto simp: contains_pack_def insert_pack_def Let_def om_lookup_insert split: option.splits)

lemma contains_add_lines_mono:
  "contains_pack U ux k v \<Longrightarrow> contains_pack U (lexicon_add_lines U lines ux) k v"
  by (induction lines arbitrary: ux) (auto simp: contains_insert split: option.splits)

lemma contains_add_lines:
  "line \<in> set lines \<Longrightarrow> normalize_pack_entry U line = Some (l, w) \<Longrightarrow>
   normalize_word U w = Some (uc_lower_str U v) \<Longrightarrow> contains_pack U (lexicon_add_lines U lines ux) l v"
proof (induction lines arbitrary: ux)
  case (Cons line' lines)
  then show ?case
    by (cases "line = line'")
      (auto simp: contains_insert contains_add_lines_mono split: option.split)
qed simp

lemma language_id_chars:
  assumes "valid_pack l" "c \<in> set (language_id l)"
  shows "is_ascii_alphanumeric c \<or> is_hyphen c"
  using language_id_cases [of l]
proof
  assume "language_id l = pack_str l"
  then show ?thesis using assms valid_pack_chars by simp
next
  assume "(l, language_id l) \<in> set CANONICAL_IDS"
  then show ?thesis using assms(2) by (auto simp: CANONICAL_IDS_def is_hyphen_def ascii_defs)
qed

lemma language_id_nonempty: "valid_pack l \<Longrightarrow> language_id l \<noteq> []"
  using language_id_cases [of l] valid_pack_nonempty [of l] by (auto simp: CANONICAL_IDS_def)

lemma parse_formatted:
  assumes "valid_pack l" and "pack_str l \<notin> set alias_texts"
    and w: "w \<noteq> []" "\<forall>c \<in> set w. \<not> is_control c \<and> \<not> is_whitespace c"
  shows "parse_entry (language_id l @ lit '': '' @ w @ [10]) = Some (l, w)"
proof -
  let ?id = "language_id l"
  have id: "\<forall>c \<in> set ?id. \<not> is_whitespace c \<and> c \<noteq> 0x3A \<and> c \<noteq> 0x23" "?id \<noteq> []"
    using language_id_chars [OF assms(1)] language_id_nonempty [OF assms(1)] pack_char_class by blast+
  have ends: "clean_ends is_whitespace ?id" "clean_ends is_whitespace w"
    using id w by (auto intro!: clean_ends_all)
  have "trim ((?id @ lit '': '' @ w) @ [10]) = ?id @ lit '': '' @ w"
    by (rule trim_pad_right [OF clean_ends_append [OF ends id(2) w(1)]]) (simp add: is_whitespace_def)
  moreover have "split_once 0x3A (?id @ lit '': '' @ w) = Some (?id, 0x20 # w)"
    using id by (auto simp: split_once_Some)
  moreover have "trim (0x20 # w) = w"
    using trim_pad_left [OF ends(2), of "[0x20]"] by (simp add: is_whitespace_def)
  moreover have "trim ?id = ?id" by (rule trim_plain) (use id in blast)
  moreover have "\<not> starts_with (?id @ t) 0x23" for t using id by (cases ?id) auto
  ultimately show ?thesis
    using id language_id_roundtrip [OF assms(1,2)] by (simp add: parse_entry_def)
qed

text \<open>A word the user adds is found again: the line written for a word parses back to the
  same pack and stored word, and a lexicon loaded from any file holding that line contains the
  word, whatever the other lines are.\<close>

theorem saved_word_is_found:
  assumes "lowercase_laws U" and "valid_pack l" and "pack_str l \<notin> set alias_texts"
    and "format_pack_entry U l word = Some line" and "line \<in> set lines"
  shows "contains_pack U (lexicon_from_lines U lines) l (trim word)"
proof -
  obtain w where w: "normalize_word U word = Some w" and line: "line = language_id l @ lit '': '' @ w @ [10]"
    using assms(4) by (auto simp: format_pack_entry_def)
  have "normalize_pack_entry U line = Some (l, w)"
    unfolding line normalize_pack_entry_def
    using parse_formatted [OF assms(2,3) normalize_word_chars [OF assms(1) w]]
      normalize_word_idem [OF assms(1) w] by simp
  moreover have "normalize_word U w = Some (uc_lower_str U (trim word))"
    using w normalize_word_idem [OF assms(1) w] by (simp add: normalize_word_Some)
  ultimately show ?thesis
    unfolding lexicon_from_lines_def using assms(5) by (rule contains_add_lines [rotated])
qed

lemma saved_word_is_found_witness:
  "contains_pack ascii_tables
     (lexicon_from_lines ascii_tables [lit ''# mine'', lit ''en-US: rustdesk'' @ [10]]) English
     (trim (lit ''RustDesk''))"
proof (rule saved_word_is_found [OF ascii_tables_lowercase])
  show "valid_pack English" "pack_str English \<notin> set alias_texts"
    by (simp_all add: valid_pack_def pack_parse_def valid_pack_text_def byte_len_def len_utf8_def
        is_hyphen_def language_defs alias_texts_def)
  show "format_pack_entry ascii_tables English (lit ''RustDesk'') = Some (lit ''en-US: rustdesk'' @ [10])"
    by (simp add: format_pack_entry_def normalize_word_def Let_def trim_def trim_matches_def
        is_whitespace_def is_control_def language_id_def CANONICAL_IDS_def ascii_defs)
qed simp

end
