(* ===== verification/Conversion.thy ===== *)
theory Conversion
  imports Language
begin

text \<open>
  \<open>src/conversion.rs\<close> and \<open>src/composition.rs\<close>: the replacement of a word as a count of
  Backspace keystrokes and a text to type, with its undo, and the fail-closed decision about
  input method composition. Grapheme clusters are those of the parameter \<open>U\<close>. The scores of a
  detection are carried through and never read here, so their type is a parameter.
\<close>

record 'score detection =
  de_source_language :: language
  de_target_language :: language
  de_original :: ustr
  de_replacement :: ustr
  de_source_score :: 'score
  de_target_score :: 'score

record text_edit =
  te_erase_characters :: nat
  te_insert_text :: ustr

record conversion_transaction =
  ct_source_language :: language
  ct_target_language :: language
  ct_original :: ustr
  ct_replacement :: ustr
  ct_delimiter :: "uchar option"
  ct_forward :: text_edit
  ct_undo :: text_edit

text \<open>The loop over grapheme clusters: each must be one scalar of one UTF-16 unit.\<close>

fun erase_units :: "nat \<Rightarrow> ustr list \<Rightarrow> nat option" where
  "erase_units units [] = Some units"
| "erase_units units (g # gs) =
     (case g of
        [] \<Rightarrow> None
      | scalar # others \<Rightarrow>
          if others \<noteq> [] \<or> len_utf16 scalar \<noteq> 1 then None else erase_units (units + 1) gs)"

definition conservative_erase_units :: "unicode \<Rightarrow> ustr \<Rightarrow> nat option" where
  "conservative_erase_units U text1 = erase_units 0 (uc_graphemes U text1)"

definition with_optional_delimiter ::
  "unicode \<Rightarrow> 'score detection \<Rightarrow> uchar option \<Rightarrow> conversion_transaction option" where
  "with_optional_delimiter U d delimiter =
     (if de_original d = [] \<or> de_replacement d = [] then None
      else
        let tail = (case delimiter of Some c \<Rightarrow> [c] | None \<Rightarrow> []);
            forward_text = de_replacement d @ tail;
            undo_text = de_original d @ tail
        in case conservative_erase_units U undo_text of
             None \<Rightarrow> None
           | Some original_characters \<Rightarrow> (case conservative_erase_units U forward_text of
               None \<Rightarrow> None
             | Some replacement_characters \<Rightarrow>
                 Some \<lparr>ct_source_language = de_source_language d,
                       ct_target_language = de_target_language d,
                       ct_original = de_original d, ct_replacement = de_replacement d,
                       ct_delimiter = delimiter,
                       ct_forward = \<lparr>te_erase_characters = original_characters,
                                     te_insert_text = forward_text\<rparr>,
                       ct_undo = \<lparr>te_erase_characters = replacement_characters,
                                  te_insert_text = undo_text\<rparr>\<rparr>))"

definition transaction_new ::
  "unicode \<Rightarrow> 'score detection \<Rightarrow> uchar \<Rightarrow> conversion_transaction option" where
  "transaction_new U d delimiter =
     (if is_control delimiter then None else with_optional_delimiter U d (Some delimiter))"

definition transaction_without_delimiter ::
  "unicode \<Rightarrow> 'score detection \<Rightarrow> conversion_transaction option" where
  "transaction_without_delimiter U d = with_optional_delimiter U d None"

section \<open>Composition\<close>

datatype composition_state = CompInactive | CompActive | CompIndeterminate

definition permits_conversion :: "composition_state \<Rightarrow> bool" where
  "permits_conversion c \<longleftrightarrow> c = CompInactive"

definition requires_suppression :: "composition_state \<Rightarrow> bool" where
  "requires_suppression c \<longleftrightarrow> \<not> permits_conversion c"

definition suppress_conversion :: "composition_state \<Rightarrow> bool" where
  "suppress_conversion c = requires_suppression c"

section \<open>Undo gives the typed text back\<close>

text \<open>What an edit does to the text before the caret: each Backspace removes the last
  character, then the text is typed.\<close>

definition apply_edit :: "text_edit \<Rightarrow> ustr \<Rightarrow> ustr" where
  "apply_edit e before = take (length before - te_erase_characters e) before @ te_insert_text e"

lemma erase_units_singletons:
  "erase_units n gs = Some m \<Longrightarrow>
   m = n + length gs \<and> (\<forall>g \<in> set gs. \<exists>c. g = [c] \<and> len_utf16 c = 1)"
proof (induction gs arbitrary: n)
  case (Cons g gs)
  then obtain c where "g = [c]" "len_utf16 c = 1" "erase_units (n + 1) gs = Some m"
    by (auto split: list.splits if_splits)
  with Cons.IH [of "n + 1"] show ?case by auto
qed simp

lemma length_concat_singletons: "\<forall>g \<in> set gs. \<exists>c. g = [c] \<Longrightarrow> length (concat gs) = length gs"
  by (induction gs) auto

lemma erase_units_length:
  assumes "grapheme_laws U" and "conservative_erase_units U s = Some n"
  shows "n = length s \<and> utf16_len s = length s"
proof -
  have g: "n = length (uc_graphemes U s)"
    "\<forall>g \<in> set (uc_graphemes U s). \<exists>c. g = [c] \<and> len_utf16 c = 1"
    using erase_units_singletons [of 0 "uc_graphemes U s" n] assms(2)
    by (auto simp: conservative_erase_units_def)
  have s: "concat (uc_graphemes U s) = s" using assms(1) by (simp add: grapheme_laws_def)
  have "length s = length (uc_graphemes U s)"
    using length_concat_singletons [of "uc_graphemes U s"] g(2) s by force
  moreover have "\<forall>c \<in> set (concat (uc_graphemes U s)). len_utf16 c = 1"
    using g(2) by fastforce
  then have "\<forall>c \<in> set s. len_utf16 c = 1" by (simp only: s)
  then have "utf16_len s = length s"
    unfolding utf16_len_def by (induction s) simp_all
  ultimately show ?thesis using g(1) by simp
qed

lemma apply_edit_end:
  "te_erase_characters e = length s \<Longrightarrow> apply_edit e (before @ s) = before @ te_insert_text e"
  by (simp add: apply_edit_def)

text \<open>C39. A conversion replaces exactly the typed word and its undo restores it: on any text
  before the caret that ends with the word and its delimiter, the forward edit changes that
  ending to the replacement and the same delimiter and nothing before it, and the undo edit
  then gives back the text as it was typed.\<close>

theorem transaction_undo_restores:
  assumes "grapheme_laws U" and "with_optional_delimiter U d delimiter = Some t"
  defines "tail \<equiv> (case delimiter of Some c \<Rightarrow> [c] | None \<Rightarrow> [])"
  shows "apply_edit (ct_forward t) (before @ de_original d @ tail) = before @ de_replacement d @ tail
    \<and> apply_edit (ct_undo t) (before @ de_replacement d @ tail) = before @ de_original d @ tail"
proof -
  let ?o = "de_original d @ tail" and ?r = "de_replacement d @ tail"
  obtain m n where m: "conservative_erase_units U ?o = Some m"
    and n: "conservative_erase_units U ?r = Some n"
    and t: "ct_forward t = \<lparr>te_erase_characters = m, te_insert_text = ?r\<rparr>"
      "ct_undo t = \<lparr>te_erase_characters = n, te_insert_text = ?o\<rparr>"
    using assms(2) unfolding with_optional_delimiter_def Let_def tail_def
    by (auto split: if_splits option.splits)
  show ?thesis
    using erase_units_length [OF assms(1) m] erase_units_length [OF assms(1) n]
    by (simp add: t apply_edit_end)
qed

lemma transaction_undo_restores_witness:
  "\<exists>t. with_optional_delimiter ascii_tables
        \<lparr>de_source_language = English, de_target_language = Russian, de_original = lit ''yt'',
         de_replacement = [0x43d, 0x435], de_source_score = 0::nat, de_target_score = 20\<rparr> (Some 32) = Some t
     \<and> apply_edit (ct_undo t) (lit ''a '' @ [0x43d, 0x435] @ [32]) = lit ''a '' @ lit ''yt'' @ [32]"
proof -
  let ?d = "\<lparr>de_source_language = English, de_target_language = Russian, de_original = lit ''yt'',
    de_replacement = [0x43d, 0x435], de_source_score = 0::nat, de_target_score = 20\<rparr>"
  obtain t where t: "with_optional_delimiter ascii_tables ?d (Some 32) = Some t"
    by (simp add: with_optional_delimiter_def conservative_erase_units_def len_utf16_def Let_def)
  from transaction_undo_restores [OF ascii_tables_graphemes t, of "lit ''a ''"] t
  show ?thesis by simp
qed

end
