(* ===== verification/Profile_Resolver.thy ===== *)
theory Profile_Resolver
  imports Input_Profile
begin

text \<open>
  \<open>src/profile_resolver.rs\<close>: how the exact profile of every loaded keyboard layout is read, and
  how long what was read may be used. The trait \<open>KeyboardProfileProbe\<close> is the operating system's
  and a parameter: a record of its five calls, each a function of the state of the system that
  returns its answer and the state after it.
\<close>

definition MAX_LOADED_KEYBOARD_LAYOUTS :: nat where
  "MAX_LOADED_KEYBOARD_LAYOUTS = 64"

datatype profile_resolution_error =
  Unavailable | InvalidLayoutList | ActivationFailed | IdentityUnavailable | RestoreFailed
| LayoutListChanged

type_synonym hkl = u64

record 'p keyboard_profile_probe =
  loaded_layouts :: "'p \<Rightarrow> hkl list option \<times> 'p"
  current_layout :: "'p \<Rightarrow> hkl option \<times> 'p"
  is_ime :: "hkl \<Rightarrow> 'p \<Rightarrow> bool \<times> 'p"
  activate_layout :: "hkl \<Rightarrow> 'p \<Rightarrow> hkl option \<times> 'p"
  current_layout_name :: "'p \<Rightarrow> u16 list option \<times> 'p"

record resolved_keyboard_profiles =
  rk_loaded :: "hkl list"
  rk_profiles :: "(hkl \<times> windows_keyboard_profile) list"

definition resolved_profile :: "resolved_keyboard_profiles \<Rightarrow> hkl \<Rightarrow> windows_keyboard_profile option" where
  "resolved_profile r layout = om_lookup (rk_profiles r) layout"

definition unique_layout :: "resolved_keyboard_profiles \<Rightarrow> windows_keyboard_profile \<Rightarrow> hkl option" where
  "unique_layout r p =
     (case filter (\<lambda>e. snd e = p) (rk_profiles r) of [(layout, _)] \<Rightarrow> Some layout | _ \<Rightarrow> None)"

section \<open>The freshness boundary\<close>

definition PROFILE_MAX_AGE :: duration where "PROFILE_MAX_AGE = from_secs 6"
definition PROFILE_REFRESH_INTERVAL :: duration where "PROFILE_REFRESH_INTERVAL = from_secs 1"
definition PROFILE_RETRY_INTERVAL :: duration where "PROFILE_RETRY_INTERVAL = from_millis 250"

datatype profile_update = Unchanged | Availability | Bindings

record profile_snapshot_cache =
  pc_snapshot :: "resolved_keyboard_profiles option"
  pc_last_known :: "resolved_keyboard_profiles option"
  pc_confirmed_at :: "instant option"
  pc_generation :: u64

definition profile_cache_default :: profile_snapshot_cache where
  "profile_cache_default =
     \<lparr>pc_snapshot = None, pc_last_known = None, pc_confirmed_at = None, pc_generation = 0\<rparr>"

definition cache_current ::
  "profile_snapshot_cache \<Rightarrow> instant \<Rightarrow> duration \<Rightarrow> resolved_keyboard_profiles option" where
  "cache_current c now max_age =
     (case pc_confirmed_at c of
        None \<Rightarrow> None
      | Some t \<Rightarrow> if t \<le> now \<and> now - t < max_age then pc_snapshot c else None)"

definition cache_invalidate :: "profile_snapshot_cache \<Rightarrow> profile_update \<times> profile_snapshot_cache" where
  "cache_invalidate c =
     (let c' = c\<lparr>pc_confirmed_at := None, pc_snapshot := None\<rparr> in
      if pc_snapshot c \<noteq> None then (Bindings, c'\<lparr>pc_generation := pc_generation c + 1\<rparr>)
      else (Unchanged, c'))"

definition cache_expire ::
  "instant \<Rightarrow> duration \<Rightarrow> profile_snapshot_cache \<Rightarrow> profile_update \<times> profile_snapshot_cache" where
  "cache_expire now max_age c =
     (if cache_current c now max_age \<noteq> None then (Unchanged, c)
      else
        let c' = c\<lparr>pc_confirmed_at := None, pc_snapshot := None\<rparr>
        in (if pc_snapshot c \<noteq> None then Availability else Unchanged, c'))"

definition cache_accept ::
  "resolved_keyboard_profiles \<Rightarrow> instant \<Rightarrow> profile_snapshot_cache \<Rightarrow> profile_update \<times> profile_snapshot_cache" where
  "cache_accept snapshot now c =
     (let changed = pc_last_known c \<noteq> Some snapshot;
          available_again = pc_snapshot c = None;
          c' = c\<lparr>pc_generation := (if changed then pc_generation c + 1 else pc_generation c),
                 pc_last_known := Some snapshot, pc_snapshot := Some snapshot,
                 pc_confirmed_at := Some now\<rparr>
      in (if changed then Bindings else if available_again then Availability else Unchanged, c'))"

section \<open>Resolving\<close>

fun unique_layouts :: "hkl list \<Rightarrow> hkl list \<Rightarrow> hkl list option" where
  "unique_layouts [] found = Some found"
| "unique_layouts (l # ls) found =
     (if l \<le> 1 \<or> l \<in> set found then None else unique_layouts ls (l # found))"

text \<open>The set is the sorted list its iteration yields.\<close>

definition checked_layouts :: "hkl list option \<Rightarrow> profile_resolution_error + hkl list" where
  "checked_layouts layouts =
     (case layouts of
        None \<Rightarrow> Inl Unavailable
      | Some ls \<Rightarrow>
          if ls = [] \<or> length ls > MAX_LOADED_KEYBOARD_LAYOUTS then Inl InvalidLayoutList
          else case unique_layouts ls [] of
                 None \<Rightarrow> Inl InvalidLayoutList
               | Some found \<Rightarrow> Inr (sort found))"

text \<open>\<open>RestoreGuard::restore\<close> of a guard that still has to restore.\<close>

definition restore_layout :: "'p keyboard_profile_probe \<Rightarrow> hkl \<Rightarrow> 'p \<Rightarrow> bool \<times> 'p" where
  "restore_layout P original s =
     (let (previous, s1) = current_layout P s;
          (activated, s2) = activate_layout P original s1;
          (now, s3) = current_layout P s2
      in (previous \<noteq> None \<and> activated = previous \<and> now = Some original, s3))"

definition valid_layout_name :: "u16 list \<Rightarrow> bool" where
  "valid_layout_name name \<longleftrightarrow>
     \<not> (name ! 8 \<noteq> 0
        \<or> list_ex (\<lambda>c. c > 0x7f \<or> \<not> is_ascii_hexdigit (unat c)) (take 8 name))"

definition layout_identity :: "hkl \<Rightarrow> u16 list \<Rightarrow> windows_keyboard_profile option" where
  "layout_identity layout name =
     (case profile_parse (upper_hex 4 (unat (layout AND 0xffff)) @ [0x3A] @ map unat (take 8 name)) of
        Inr p \<Rightarrow> Some p
      | Inl _ \<Rightarrow> None)"

text \<open>Activating one layout and reading what it is: whether it became current, and its profile.\<close>

definition read_identity ::
  "'p keyboard_profile_probe \<Rightarrow> hkl \<Rightarrow> hkl \<Rightarrow> 'p \<Rightarrow> (bool \<times> windows_keyboard_profile option) \<times> 'p" where
  "read_identity P original layout s =
     (let (previous, s1) = activate_layout P layout s in
      if previous \<noteq> Some original then ((False, None), s1)
      else
        let (now, s2) = current_layout P s1 in
        if now \<noteq> Some layout then ((False, None), s2)
        else
          let (name, s3) = current_layout_name P s2 in
          case name of
            None \<Rightarrow> ((True, None), s3)
          | Some name \<Rightarrow>
              let (still, s4) = current_layout P s3
              in ((True, if still \<noteq> Some layout \<or> \<not> valid_layout_name name then None
                         else layout_identity layout name), s4))"

text \<open>One layout of the loop. When the restore fails, dropping the guard tries once more.\<close>

definition resolve_layout ::
  "'p keyboard_profile_probe \<Rightarrow> hkl \<Rightarrow> hkl \<Rightarrow> 'p \<Rightarrow> (profile_resolution_error + windows_keyboard_profile) \<times> 'p" where
  "resolve_layout P original layout s =
     (let (now, s1) = current_layout P s in
      if now \<noteq> Some original then (Inl ActivationFailed, s1)
      else
        let ((activated, identity), s2) = read_identity P original layout s1;
            (restored, s3) = restore_layout P original s2
        in if \<not> restored then (Inl RestoreFailed, snd (restore_layout P original s3))
           else if \<not> activated then (Inl ActivationFailed, s3)
           else (case identity of None \<Rightarrow> Inl IdentityUnavailable | Some p \<Rightarrow> Inr p, s3))"

fun collect_profiles ::
  "'p keyboard_profile_probe \<Rightarrow> hkl list \<Rightarrow> hkl \<Rightarrow> bool \<Rightarrow> (hkl \<times> windows_keyboard_profile) list \<Rightarrow> 'p \<Rightarrow>
     (profile_resolution_error + (hkl \<times> windows_keyboard_profile) list) \<times> 'p" where
  "collect_profiles P [] original skip_ime profiles s = (Inr profiles, s)"
| "collect_profiles P (layout # loaded) original skip_ime profiles s =
     (let (ime, s1) = (if skip_ime then is_ime P layout s else (False, s)) in
      if ime then collect_profiles P loaded original skip_ime profiles s1
      else
        let (outcome, s2) = resolve_layout P original layout s1 in
        case outcome of
          Inl error \<Rightarrow> (Inl error, s2)
        | Inr p \<Rightarrow> collect_profiles P loaded original skip_ime (om_insert layout p profiles) s2)"

definition collect_all ::
  "'p keyboard_profile_probe \<Rightarrow> hkl list \<Rightarrow> hkl \<Rightarrow> 'p \<Rightarrow>
     (profile_resolution_error + (hkl \<times> windows_keyboard_profile) list) \<times> 'p" where
  "collect_all P loaded original s =
     (let (outcome, s1) = collect_profiles P loaded original True [] s in
      case outcome of
        Inl error \<Rightarrow> (Inl error, s1)
      | Inr profiles \<Rightarrow>
          if om_lookup profiles original = None then collect_profiles P loaded original False [] s1
          else (Inr profiles, s1))"

definition resolve_keyboard_profiles ::
  "'p keyboard_profile_probe \<Rightarrow> 'p \<Rightarrow> (profile_resolution_error + resolved_keyboard_profiles) \<times> 'p" where
  "resolve_keyboard_profiles P s =
     (let (layouts, s1) = loaded_layouts P s in
      case checked_layouts layouts of
        Inl error \<Rightarrow> (Inl error, s1)
      | Inr loaded \<Rightarrow>
          let (now, s2) = current_layout P s1 in
          case now of
            None \<Rightarrow> (Inl Unavailable, s2)
          | Some original \<Rightarrow>
              if original \<notin> set loaded then (Inl LayoutListChanged, s2)
              else
                let (outcome, s3) = collect_all P loaded original s2 in
                case outcome of
                  Inl error \<Rightarrow> (Inl error, s3)
                | Inr profiles \<Rightarrow>
                    let (again, s4) = loaded_layouts P s3 in
                    case checked_layouts again of
                      Inl error \<Rightarrow> (Inl error, s4)
                    | Inr reloaded \<Rightarrow>
                        if reloaded \<noteq> loaded then (Inl LayoutListChanged, s4)
                        else
                          let (final, s5) = current_layout P s4 in
                          if final \<noteq> Some original then (Inl RestoreFailed, s5)
                          else (Inr \<lparr>rk_loaded = loaded, rk_profiles = profiles\<rparr>, s5))"

section \<open>The layout of the thread\<close>

text \<open>What Windows documents of the calls: reading leaves the current layout of the thread alone;
  activating a layout returns the one before and makes the new one current, or fails and changes
  nothing; a layout name has nine units.\<close>

definition probe_laws :: "'p keyboard_profile_probe \<Rightarrow> ('p \<Rightarrow> hkl option) \<Rightarrow> bool" where
  "probe_laws P cur \<longleftrightarrow>
     (\<forall>s. current_layout P s = (cur s, s))
     \<and> (\<forall>s. cur (snd (loaded_layouts P s)) = cur s)
     \<and> (\<forall>l s. cur (snd (is_ime P l s)) = cur s)
     \<and> (\<forall>s. cur (snd (current_layout_name P s)) = cur s)
     \<and> (\<forall>l s. case fst (activate_layout P l s) of
               None \<Rightarrow> cur (snd (activate_layout P l s)) = cur s
             | Some previous \<Rightarrow> cur s = Some previous \<and> cur (snd (activate_layout P l s)) = Some l)"

lemma probe_current: "probe_laws P cur \<Longrightarrow> current_layout P s = (cur s, s)"
  by (simp add: probe_laws_def)

lemma probe_reads:
  "probe_laws P cur \<Longrightarrow> loaded_layouts P s = (a, s1) \<Longrightarrow> cur s1 = cur s"
  "probe_laws P cur \<Longrightarrow> is_ime P l s = (i, s2) \<Longrightarrow> cur s2 = cur s"
  by (metis probe_laws_def snd_conv)+

lemma restored_layout:
  "probe_laws P cur \<Longrightarrow> restore_layout P original s = (True, s') \<Longrightarrow> cur s' = Some original"
  by (auto simp: restore_layout_def probe_current split: prod.splits)

lemma resolve_layout_keeps:
  assumes "probe_laws P cur" "resolve_layout P original layout s = (outcome, s')"
    and "outcome \<noteq> Inl RestoreFailed"
  shows "cur s' = cur s"
proof (cases "cur s = Some original")
  case False
  then show ?thesis using assms by (simp add: resolve_layout_def probe_current)
next
  case True
  obtain activated identity s2 where r: "read_identity P original layout s = ((activated, identity), s2)"
    by (metis surj_pair)
  obtain restored s3 where undo: "restore_layout P original s2 = (restored, s3)" by (metis surj_pair)
  have restored using assms True r undo
    by (auto simp: resolve_layout_def probe_current split: if_splits)
  moreover have "s' = s3" using assms True r undo \<open>restored\<close>
    by (auto simp: resolve_layout_def probe_current split: if_splits)
  ultimately show ?thesis using restored_layout [OF assms(1)] undo True by simp
qed

lemma collect_profiles_keeps:
  assumes "probe_laws P cur"
  shows "collect_profiles P loaded original skip profiles s = (outcome, s') \<Longrightarrow>
    outcome \<noteq> Inl RestoreFailed \<Longrightarrow> cur s' = cur s"
proof (induction loaded arbitrary: profiles s)
  case (Cons layout loaded)
  obtain ime s1 where ime: "(if skip then is_ime P layout s else (False, s)) = (ime, s1)"
    by (metis surj_pair)
  then have s1: "cur s1 = cur s" using probe_reads(2) [OF assms] by (auto split: if_splits)
  show ?case
  proof (cases ime)
    case True
    then show ?thesis using Cons ime s1 by simp
  next
    case False
    obtain result s2 where r: "resolve_layout P original layout s1 = (result, s2)" by (metis surj_pair)
    then have "cur s2 = cur s1" if "result \<noteq> Inl RestoreFailed"
      using resolve_layout_keeps [OF assms r] that by blast
    then show ?thesis using Cons ime False r s1 by (cases result) auto
  qed
qed simp

lemma collect_all_keeps:
  assumes "probe_laws P cur" "collect_all P loaded original s = (outcome, s')"
    and "outcome \<noteq> Inl RestoreFailed"
  shows "cur s' = cur s"
proof -
  obtain first s1 where f: "collect_profiles P loaded original True [] s = (first, s1)" by (metis surj_pair)
  show ?thesis
  proof (cases first)
    case (Inl e)
    then show ?thesis using assms f collect_profiles_keeps [OF assms(1) f] by (simp add: collect_all_def)
  next
    case (Inr profiles)
    then have "cur s1 = cur s" using collect_profiles_keeps [OF assms(1) f] by simp
    then show ?thesis
      using assms f Inr collect_profiles_keeps [OF assms(1), of loaded original False "[]" s1 outcome s']
      by (auto simp: collect_all_def split: if_splits)
  qed
qed


section \<open>What is resolved\<close>

lemma upper_hex_append_eq:
  "upper_hex 4 n @ [0x3A] @ b = a @ [0x3A] @ c \<Longrightarrow> length a = 4 \<Longrightarrow> a = upper_hex 4 n"
  by (metis append_eq_append_conv length_upper_hex)

lemma layout_identity_language:
  assumes "layout_identity layout name = Some p"
  shows "profile_language_id p = ucast layout"
proof -
  let ?n = "unat (layout AND 0xffff)"
  have parse: "profile_parse (upper_hex 4 ?n @ [0x3A] @ map unat (take 8 name)) = Inr p"
    using assms by (auto simp: layout_identity_def split: sum.splits)
  obtain a b where a: "upper_hex 4 ?n @ [0x3A] @ map unat (take 8 name) = a @ [0x3A] @ b" "length a = 4"
    and p: "p = WindowsKeyboardProfile (of_nat (from_hex a)) (of_nat (from_hex b))"
    using profile_parse_shape [OF parse] by metis
  have mask: "layout AND 0xffff = take_bit 16 layout" by (simp add: take_bit_eq_mask mask_eq_exp_minus_1)
  have n: "?n = unat layout mod 2 ^ 16"
    unfolding mask unsigned_take_bit_eq by (simp add: take_bit_eq_mod)
  then have "?n < 16 ^ 4" by simp
  then have "from_hex a = ?n" using upper_hex_append_eq [OF a] from_hex_upper_hex by metis
  then have "profile_language_id p = of_nat (unat layout mod 2 ^ 16)" by (simp add: p n)
  then show ?thesis 
    by (simp add: word_unat_eq_iff unat_of_nat unsigned_ucast_eq take_bit_eq_mod)
qed

lemma resolve_layout_language:
  "resolve_layout P original layout s = (Inr p, s') \<Longrightarrow> profile_language_id p = ucast layout"
  by (auto simp: resolve_layout_def read_identity_def Let_def layout_identity_language
      split: prod.splits if_splits option.splits)

definition bound_ok :: "hkl list \<Rightarrow> (hkl \<times> windows_keyboard_profile) list \<Rightarrow> bool" where
  "bound_ok loaded profiles \<longleftrightarrow>
     om_sorted profiles
     \<and> (\<forall>(layout, p) \<in> set profiles. layout \<in> set loaded \<and> profile_language_id p = ucast layout)"

lemma bound_ok_insert:
  "bound_ok ls profiles \<Longrightarrow> l \<in> set ls \<Longrightarrow> profile_language_id p = ucast l \<Longrightarrow>
     bound_ok ls (om_insert l p profiles)"
  using set_om_insert [of l p profiles] by (auto simp: bound_ok_def om_sorted_insert)

lemma collect_profiles_bound:
  "collect_profiles P loaded original skip profiles s = (Inr out, s') \<Longrightarrow> set loaded \<subseteq> set ls \<Longrightarrow>
     bound_ok ls profiles \<Longrightarrow> bound_ok ls out"
proof (induction loaded arbitrary: profiles s)
  case (Cons layout loaded)
  obtain ime s1 where ime: "(if skip then is_ime P layout s else (False, s)) = (ime, s1)"
    by (metis surj_pair)
  obtain result s2 where r: "resolve_layout P original layout s1 = (result, s2)" by (metis surj_pair)
  show ?case
    using Cons ime r bound_ok_insert [of ls profiles layout] resolve_layout_language [of P original layout s1 _ s2]
    by (cases ime; cases result) auto
qed simp

lemma collect_profiles_every:
  "collect_profiles P loaded original False profiles s = (Inr out, s') \<Longrightarrow>
     \<forall>l \<in> set loaded \<union> fst ` set profiles. om_lookup out l \<noteq> None"
proof (induction loaded arbitrary: profiles s)
  case (Cons layout loaded)
  obtain result s2 where r: "resolve_layout P original layout s = (result, s2)" by (metis surj_pair)
  then obtain p where p: "result = Inr p" using Cons.prems by (cases result) auto
  have "l \<in> fst ` set (om_insert layout p profiles)" if "l = layout \<or> l \<in> fst ` set profiles" for l
    using that om_lookup_insert [of layout p profiles l]
    by (metis map_of_eq_None_iff om_lookup_def option.distinct(1) set_map)
  then show ?case using Cons.IH [of "om_insert layout p profiles" s2] Cons.prems r p by auto
qed (auto simp: om_lookup_def map_of_eq_None_iff)

text \<open>A successful resolution is exact and complete for the thread: it binds only loaded
  layouts, each to a profile whose language is the low word of its handle; it holds at most 64
  layouts, none of them an activation constant; and the layout the thread is on is bound.\<close>

theorem resolution_exact:
  assumes "resolve_keyboard_profiles P s = (Inr r, s')"
  shows "bound_ok (rk_loaded r) (rk_profiles r)
    \<and> checked_layouts (fst (loaded_layouts P s)) = Inr (rk_loaded r)
    \<and> (\<exists>original \<in> set (rk_loaded r).
         fst (current_layout P (snd (loaded_layouts P s))) = Some original
         \<and> resolved_profile r original \<noteq> None)"
proof -
  obtain layouts s1 where l: "loaded_layouts P s = (layouts, s1)" by (metis surj_pair)
  obtain loaded where ls: "checked_layouts layouts = Inr loaded"
    using assms l by (auto simp: resolve_keyboard_profiles_def split: sum.splits)
  obtain now s2 where n: "current_layout P s1 = (now, s2)" by (metis surj_pair)
  obtain original where o: "now = Some original" "original \<in> set loaded"
    using assms l ls n by (auto simp: resolve_keyboard_profiles_def split: option.splits if_splits)
  obtain result s3 where c: "collect_all P loaded original s2 = (result, s3)" by (metis surj_pair)
  then obtain out where out: "result = Inr out" "rk_profiles r = out" "rk_loaded r = loaded"
    using assms l ls n o
    by (auto simp: resolve_keyboard_profiles_def split: sum.splits prod.splits if_splits)
  have "bound_ok loaded []" by (simp add: bound_ok_def om_sorted_def)
  then have "bound_ok loaded out \<and> om_lookup out original \<noteq> None"
    using c out(1) o(2) collect_profiles_bound [of P loaded original _ "[]" _ out _ loaded]
      collect_profiles_every [of P loaded original "[]" _ out s3]
    by (auto simp: collect_all_def split: prod.splits sum.splits if_splits)
  then show ?thesis using l ls n o out by (simp add: resolved_profile_def)
qed

lemma unique_layout_only:
  assumes "unique_layout r p = Some l" "(l', p) \<in> set (rk_profiles r)"
  shows "l' = l"
proof -
  obtain q where "filter (\<lambda>e. snd e = p) (rk_profiles r) = [(l, q)]"
    using assms(1) by (auto simp: unique_layout_def split: list.splits)
  moreover have "(l', p) \<in> set (filter (\<lambda>e. snd e = p) (rk_profiles r))" using assms(2) by simp
  ultimately show ?thesis by simp
qed

section \<open>A concrete thread\<close>

text \<open>Two loaded layouts, the US and the Russian keyboard; the state is the current layout.\<close>

definition sample_name :: "hkl \<Rightarrow> u16 list" where
  "sample_name l =
     (if l = 0x04090409 then [48, 48, 48, 48, 48, 52, 48, 57, 0] else [48, 48, 48, 48, 48, 52, 49, 57, 0])"

definition sample_probe :: "hkl keyboard_profile_probe" where
  "sample_probe = \<lparr>loaded_layouts = (\<lambda>s. (Some [0x04090409, 0x04190419], s)),
     current_layout = (\<lambda>s. (Some s, s)), is_ime = (\<lambda>_ s. (False, s)),
     activate_layout = (\<lambda>l s. (Some s, l)), current_layout_name = (\<lambda>s. (Some (sample_name s), s))\<rparr>"

lemma sample_probe_laws: "probe_laws sample_probe Some"
  by (simp add: probe_laws_def sample_probe_def)

definition sample_profiles :: resolved_keyboard_profiles where
  "sample_profiles = \<lparr>rk_loaded = [0x04090409, 0x04190419],
     rk_profiles = [(0x04090409, US_KEYBOARD), (0x04190419, RU_KEYBOARD)]\<rparr>"

lemma upper_hex_4:
  "upper_hex 4 n = [hex_digit (n div 4096 mod 16), hex_digit (n div 256 mod 16),
     hex_digit (n div 16 mod 16), hex_digit (n mod 16)]"
proof -
  have four: "(4 :: nat) = Suc (Suc (Suc (Suc 0)))" by simp
  show ?thesis unfolding four upper_hex.simps by (simp add: div_mult2_eq [symmetric])
qed

lemma sample_name_texts:
  "map unat (take 8 (sample_name 0x04090409)) = lit ''00000409''"
  "map unat (take 8 (sample_name 0x04190419)) = lit ''00000419''"
  by (simp_all add: sample_name_def)

lemma sample_parses:
  "profile_parse (lit ''0409:00000409'') = Inr US_KEYBOARD"
  "profile_parse (lit ''0419:00000419'') = Inr RU_KEYBOARD"
  by (simp_all add: profile_parse_def byte_len_def len_utf8_def is_ascii_hexdigit_def
      is_ascii_digit_def from_hex_def hex_digit_value_def US_KEYBOARD_def RU_KEYBOARD_def)

lemma sample_identity:
  "layout_identity 0x04090409 (sample_name 0x04090409) = Some US_KEYBOARD"
  "layout_identity 0x04190419 (sample_name 0x04190419) = Some RU_KEYBOARD"
  using sample_parses
  by (simp_all add: layout_identity_def sample_name_texts upper_hex_4 hex_digit_def)

lemma sample_name_valid: "valid_layout_name (sample_name l)"
  by (simp add: sample_name_def valid_layout_name_def is_ascii_hexdigit_def is_ascii_digit_def)

lemma sample_probe_simps [simp]:
  "loaded_layouts sample_probe s = (Some [0x04090409, 0x04190419], s)"
  "current_layout sample_probe s = (Some s, s)"
  "is_ime sample_probe l s = (False, s)"
  "activate_layout sample_probe l s = (Some s, l)"
  "current_layout_name sample_probe s = (Some (sample_name s), s)"
  by (simp_all add: sample_probe_def)

lemma sample_resolve_layout:
  "layout_identity l (sample_name l) = Some p \<Longrightarrow>
     resolve_layout sample_probe original l original = (Inr p, original)"
  by (simp add: resolve_layout_def read_identity_def restore_layout_def sample_name_valid)

lemma sample_resolved:
  "resolve_keyboard_profiles sample_probe 0x04090409 = (Inr sample_profiles, 0x04090409)"
proof -
  have checked: "checked_layouts (Some [0x04090409, 0x04190419]) = Inr [0x04090409, 0x04190419]"
    by (simp add: checked_layouts_def MAX_LOADED_KEYBOARD_LAYOUTS_def word_le_nat_alt)
  have "collect_profiles sample_probe [0x04090409, 0x04190419] 0x04090409 True [] 0x04090409
      = (Inr (rk_profiles sample_profiles), 0x04090409)"
    by (simp add: sample_resolve_layout [OF sample_identity(1)] sample_resolve_layout [OF sample_identity(2)]
        sample_profiles_def word_less_nat_alt)
  then have "collect_all sample_probe [0x04090409, 0x04190419] 0x04090409 0x04090409
      = (Inr (rk_profiles sample_profiles), 0x04090409)"
    by (simp add: collect_all_def sample_profiles_def om_lookup_def)
  then show ?thesis
    by (simp add: resolve_keyboard_profiles_def checked) (simp add: sample_profiles_def)
qed


lemma resolution_exact_witness:
  "bound_ok (rk_loaded sample_profiles) (rk_profiles sample_profiles)
    \<and> checked_layouts (fst (loaded_layouts sample_probe 0x04090409)) = Inr (rk_loaded sample_profiles)
    \<and> (\<exists>original \<in> set (rk_loaded sample_profiles).
         fst (current_layout sample_probe (snd (loaded_layouts sample_probe 0x04090409))) = Some original
         \<and> resolved_profile sample_profiles original \<noteq> None)"
  by (rule resolution_exact [OF sample_resolved])

section \<open>Freshness\<close>

datatype cache_operation =
  Accept resolved_keyboard_profiles instant | Expire instant duration | Invalidate

fun cache_step :: "cache_operation \<Rightarrow> profile_snapshot_cache \<Rightarrow> profile_update \<times> profile_snapshot_cache" where
  "cache_step (Accept r now) c = cache_accept r now c"
| "cache_step (Expire now max_age) c = cache_expire now max_age c"
| "cache_step Invalidate c = cache_invalidate c"

fun cache_run ::
  "cache_operation list \<Rightarrow> profile_snapshot_cache \<Rightarrow> profile_update list \<times> profile_snapshot_cache" where
  "cache_run [] c = ([], c)"
| "cache_run (op # ops) c =
     (let (u, c') = cache_step op c; (us, c'') = cache_run ops c' in (u # us, c''))"

lemma cache_run_Cons: "snd (cache_run (op # ops) c) = snd (cache_run ops (snd (cache_step op c)))"
  by (simp split: prod.split)

text \<open>A snapshot in use is the last one accepted.\<close>

definition cache_ok :: "profile_snapshot_cache \<Rightarrow> bool" where
  "cache_ok c \<longleftrightarrow> pc_snapshot c = None \<or> pc_snapshot c = pc_last_known c"

lemma cache_step_ok: "cache_ok c \<Longrightarrow> cache_ok (snd (cache_step op c))"
  by (cases op)
    (auto simp: cache_ok_def cache_accept_def cache_expire_def cache_invalidate_def Let_def)

lemma cache_run_ok: "cache_ok c \<Longrightarrow> cache_ok (snd (cache_run ops c))"
proof (induction ops arbitrary: c)
  case (Cons op ops)
  then show ?case using cache_step_ok [of c op] by (simp add: cache_run_Cons del: cache_run.simps(2))
qed simp

lemma cache_step_generation:
  "cache_step op c = (u, c') \<Longrightarrow>
     (if u = Bindings then pc_generation c' = pc_generation c + 1
      else pc_generation c' = pc_generation c
        \<and> (pc_last_known c' = pc_last_known c))"
  by (cases op)
    (auto simp: cache_accept_def cache_expire_def cache_invalidate_def Let_def split: if_splits)

text \<open>While no update says that the bindings changed, a generation stands for one set of
  bindings: over any sequence of refreshes, expiries and provider losses without a \<open>Bindings\<close>
  update, the generation is the same and every snapshot in use at the end is the one that was in
  use at the start; and with \<open>Bindings\<close> updates the generation advances once for each.\<close>

theorem generation_names_bindings:
  assumes "cache_ok c" "cache_run ops c = (us, c')"
  shows "pc_generation c' = pc_generation c + of_nat (count_list us Bindings)
    \<and> (Bindings \<notin> set us \<longrightarrow> pc_snapshot c \<noteq> None \<longrightarrow> pc_snapshot c' \<noteq> None \<longrightarrow>
         pc_snapshot c' = pc_snapshot c)"
proof -
  have "cache_run ops c = (us, c') \<Longrightarrow>
      pc_generation c' = pc_generation c + of_nat (count_list us Bindings)
      \<and> (Bindings \<notin> set us \<longrightarrow> pc_last_known c' = pc_last_known c)" for ops c us c'
  proof (induction ops arbitrary: c us)
    case (Cons op ops)
    obtain u d where step: "cache_step op c = (u, d)" by (metis surj_pair)
    obtain vs where "cache_run ops d = (vs, c')" "us = u # vs"
      using Cons.prems step by (auto split: prod.splits)
    then show ?case using Cons.IH [of d vs] cache_step_generation [OF step] by auto
  qed simp
  from this [OF assms(2)] cache_run_ok [OF assms(1), of ops] assms
  show ?thesis by (auto simp: cache_ok_def)
qed

lemma cache_default_ok: "cache_ok profile_cache_default"
  by (simp add: cache_ok_def profile_cache_default_def)

definition sample_cache :: profile_snapshot_cache where
  "sample_cache = snd (cache_accept sample_profiles 5 profile_cache_default)"

lemma sample_cache_run:
  "cache_run [Expire 20 10, Accept sample_profiles 21] sample_cache
    = ([Availability, Availability], sample_cache\<lparr>pc_confirmed_at := Some 21\<rparr>)"
  by (simp add: sample_cache_def cache_accept_def cache_expire_def cache_current_def
      profile_cache_default_def Let_def)

lemma generation_names_bindings_witness:
  "pc_generation (sample_cache\<lparr>pc_confirmed_at := Some 21\<rparr>)
      = pc_generation sample_cache + of_nat (count_list [Availability, Availability] Bindings)
    \<and> (Bindings \<notin> set [Availability, Availability] \<longrightarrow> pc_snapshot sample_cache \<noteq> None \<longrightarrow>
         pc_snapshot (sample_cache\<lparr>pc_confirmed_at := Some 21\<rparr>) \<noteq> None \<longrightarrow>
         pc_snapshot (sample_cache\<lparr>pc_confirmed_at := Some 21\<rparr>) = pc_snapshot sample_cache)"
  by (rule generation_names_bindings [OF _ sample_cache_run])
    (simp add: sample_cache_def cache_ok_def cache_accept_def profile_cache_default_def Let_def)

text \<open>A profile snapshot is never used beyond its age: whatever \<open>current\<close> returns after any
  sequence of operations is the snapshot of the last refresh, accepted less than the age limit
  ago, with no loss of the provider since.\<close>

theorem current_profiles_fresh:
  assumes "cache_current (snd (cache_run ops profile_cache_default)) now max_age = Some r"
  shows "\<exists>before after t. ops = before @ Accept r t # after \<and> t \<le> now \<and> now - t < max_age
    \<and> (\<forall>op \<in> set after. \<exists>u d. op = Expire u d)"
proof -
  have run_snoc: "snd (cache_run (xs @ [op]) c) = snd (cache_step op (snd (cache_run xs c)))" for xs op c
    by (induction xs arbitrary: c) (simp_all add: cache_run_Cons del: cache_run.simps(2))
  let ?c = "\<lambda>ops. snd (cache_run ops profile_cache_default)"
  have "pc_snapshot (?c ops) = Some r \<Longrightarrow> pc_confirmed_at (?c ops) = Some t \<Longrightarrow>
      \<exists>before after. ops = before @ Accept r t # after \<and> (\<forall>op \<in> set after. \<exists>u d. op = Expire u d)"
    for r t
  proof (induction ops rule: rev_induct)
    case (snoc op ops)
    show ?case
    proof (cases op)
      case (Accept q u)
      then have "q = r \<and> u = t" using snoc.prems by (auto simp: run_snoc cache_accept_def Let_def)
      with Accept show ?thesis by (intro exI [of _ ops] exI [of _ "[]"]) simp
    next
      case (Expire u d)
      then have "pc_snapshot (?c ops) = Some r \<and> pc_confirmed_at (?c ops) = Some t"
        using snoc.prems by (auto simp: run_snoc cache_expire_def Let_def split: if_splits)
      then obtain before after where "ops = before @ Accept r t # after"
        "\<forall>op \<in> set after. \<exists>u d. op = Expire u d" using snoc.IH by blast
      with Expire show ?thesis by (intro exI [of _ before] exI [of _ "after @ [op]"]) auto
    next
      case Invalidate
      then show ?thesis using snoc.prems by (simp add: run_snoc cache_invalidate_def Let_def split: if_splits)
    qed
  qed (simp add: profile_cache_default_def)
  then show ?thesis
    using assms by (auto simp: cache_current_def split: option.splits if_splits) blast
qed

lemma current_profiles_fresh_witness:
  "\<exists>before after t. [Accept sample_profiles 5, Expire 7 10] = before @ Accept sample_profiles t # after
    \<and> t \<le> (9::instant) \<and> 9 - t < 10 \<and> list_all (\<lambda>op. \<exists>u d. op = Expire u d) after"
  unfolding list_all_iff
  by (rule current_profiles_fresh)
    (simp add: cache_current_def cache_expire_def cache_accept_def profile_cache_default_def Let_def)

end
