(* ===== verification/F32.thy ===== *)
theory F32
  imports Complex_Main Prelude
begin

text \<open>
  Rust's \<open>f32\<close> as the detector uses it: binary32 with rounding to nearest, ties to even. A
  finite value is the rational it stands for. The sign of zero is not kept: no operation the
  program uses produces a negative zero from other operands, and only \<open>total_cmp\<close> could tell.
  A NaN counts as a positive one.
\<close>

datatype f32 = FNaN | FInf bool | FFin rat

section \<open>Rounding\<close>

definition pow2 :: "int \<Rightarrow> rat" where
  "pow2 e = (if 0 \<le> e then 2 ^ nat e else 1 / 2 ^ nat (- e))"

fun bit_count :: "nat \<Rightarrow> nat" where
  "bit_count n = (if n = 0 then 0 else Suc (bit_count (n div 2)))"

declare bit_count.simps [simp del]

text \<open>The exponent \<open>e\<close> with \<open>2 ^ e \<le> r < 2 ^ (e + 1)\<close>, for a positive \<open>r\<close>.\<close>

definition exponent_of :: "rat \<Rightarrow> int" where
  "exponent_of r =
     (let (n, d) = quotient_of r;
          e = int (bit_count (nat n)) - int (bit_count (nat d))
      in if pow2 e \<le> r then e else e - 1)"

definition round_half_even :: "rat \<Rightarrow> int" where
  "round_half_even r =
     (let f = \<lfloor>r\<rfloor>; d = r - of_int f
      in if d < 1 / 2 then f else if 1 / 2 < d then f + 1 else if even f then f else f + 1)"

definition quantum :: "rat \<Rightarrow> rat" where
  "quantum r = pow2 (max (exponent_of \<bar>r\<bar> - 23) (- 149))"

definition round32 :: "rat \<Rightarrow> f32" where
  "round32 r =
     (if r = 0 then FFin 0
      else
        let v = of_int (round_half_even (r / quantum r)) * quantum r
        in if pow2 128 \<le> \<bar>v\<bar> then FInf (r < 0) else FFin v)"

section \<open>Operations\<close>

fun f_neg :: "f32 \<Rightarrow> f32" where
  "f_neg FNaN = FNaN"
| "f_neg (FInf s) = FInf (\<not> s)"
| "f_neg (FFin r) = FFin (- r)"

fun f_add :: "f32 \<Rightarrow> f32 \<Rightarrow> f32" where
  "f_add FNaN y = FNaN"
| "f_add x FNaN = FNaN"
| "f_add (FInf s) (FInf t) = (if s = t then FInf s else FNaN)"
| "f_add (FInf s) (FFin r) = FInf s"
| "f_add (FFin r) (FInf t) = FInf t"
| "f_add (FFin r) (FFin q) = round32 (r + q)"

definition f_sub :: "f32 \<Rightarrow> f32 \<Rightarrow> f32" where
  "f_sub x y = f_add x (f_neg y)"

fun f_mul :: "f32 \<Rightarrow> f32 \<Rightarrow> f32" where
  "f_mul FNaN y = FNaN"
| "f_mul x FNaN = FNaN"
| "f_mul (FInf s) (FInf t) = FInf (s \<noteq> t)"
| "f_mul (FInf s) (FFin r) = (if r = 0 then FNaN else FInf (s \<noteq> (r < 0)))"
| "f_mul (FFin r) (FInf s) = (if r = 0 then FNaN else FInf (s \<noteq> (r < 0)))"
| "f_mul (FFin r) (FFin q) = round32 (r * q)"

text \<open>Division; a zero divisor counts as a positive zero.\<close>

fun f_div :: "f32 \<Rightarrow> f32 \<Rightarrow> f32" where
  "f_div FNaN y = FNaN"
| "f_div x FNaN = FNaN"
| "f_div (FInf s) (FInf t) = FNaN"
| "f_div (FInf s) (FFin r) = FInf (s \<noteq> (r < 0))"
| "f_div (FFin r) (FInf s) = FFin 0"
| "f_div (FFin r) (FFin q) = (if q = 0 then if r = 0 then FNaN else FInf (r < 0) else round32 (r / q))"

text \<open>The comparisons \<open><\<close> and \<open>\<le>\<close>, false with a NaN.\<close>

fun f_less :: "f32 \<Rightarrow> f32 \<Rightarrow> bool" where
  "f_less FNaN y = False"
| "f_less x FNaN = False"
| "f_less (FInf s) (FInf t) = (s \<and> \<not> t)"
| "f_less (FInf s) (FFin r) = s"
| "f_less (FFin r) (FInf t) = (\<not> t)"
| "f_less (FFin r) (FFin q) = (r < q)"

definition f_le :: "f32 \<Rightarrow> f32 \<Rightarrow> bool" where
  "f_le x y \<longleftrightarrow> x \<noteq> FNaN \<and> y \<noteq> FNaN \<and> \<not> f_less y x"

text \<open>\<open>total_cmp\<close> puts a positive NaN above everything.\<close>

definition total_le :: "f32 \<Rightarrow> f32 \<Rightarrow> bool" where
  "total_le x y \<longleftrightarrow> y = FNaN \<or> (x \<noteq> FNaN \<and> \<not> f_less y x)"

definition f_of_nat :: "nat \<Rightarrow> f32" where
  "f_of_nat n = round32 (of_nat n)"

definition f_sum :: "f32 list \<Rightarrow> f32" where
  "f_sum = foldl f_add (FFin 0)"

section \<open>Order\<close>

lemma f_less_trans: "f_less x y \<Longrightarrow> f_less y z \<Longrightarrow> f_less x z"
  by (cases x; cases y; cases z) auto

lemma f_less_irrefl [simp]: "\<not> f_less x x"
  by (cases x) auto

lemma total_le_refl [simp]: "total_le x x"
  by (simp add: total_le_def)

lemma total_le_linear: "total_le x y \<or> total_le y x"
  using f_less_trans [of x y x] by (auto simp: total_le_def)

lemma total_le_trans: "total_le x y \<Longrightarrow> total_le y z \<Longrightarrow> total_le x z"
  by (cases x; cases y; cases z) (auto simp: total_le_def)

lemma f_le_trans: "f_le x y \<Longrightarrow> f_le y z \<Longrightarrow> f_le x z"
  by (cases x; cases y; cases z) (auto simp: f_le_def)

section \<open>Rounding is exact on multiples of the quantum\<close>

lemma round_half_even_int [simp]: "round_half_even (of_int n) = n"
  by (simp add: round_half_even_def)

lemma pow2_pos [simp]: "0 < pow2 e"
  by (simp add: pow2_def)

lemma round32_exact:
  assumes "r = of_int n * quantum r" and "\<bar>r\<bar> < pow2 128"
  shows "round32 r = FFin r"
proof (cases "r = 0")
  case False
  have q: "quantum r > 0" by (simp add: quantum_def)
  have "r / quantum r = of_int n" using assms(1) q by (metis less_irrefl nonzero_mult_div_cancel_right)
  then have "of_int (round_half_even (r / quantum r)) * quantum r = r"
    by (metis assms(1) round_half_even_int)
  then show ?thesis using False assms(2) by (simp add: round32_def Let_def)
qed (simp add: round32_def)

lemma round_half_even_mono: "x \<le> y \<Longrightarrow> round_half_even x \<le> round_half_even y"
proof -
  assume le: "x \<le> y"
  have b: "\<lfloor>z\<rfloor> \<le> round_half_even z \<and> round_half_even z \<le> \<lfloor>z\<rfloor> + 1" for z :: rat
    by (simp add: round_half_even_def Let_def)
  have f: "\<lfloor>x\<rfloor> \<le> \<lfloor>y\<rfloor>" using le by (rule floor_mono)
  show ?thesis
  proof (cases "\<lfloor>x\<rfloor> = \<lfloor>y\<rfloor>")
    case True
    then show ?thesis using le by (auto simp: round_half_even_def Let_def)
  next
    case False
    then show ?thesis using f b [of x] b [of y] by linarith
  qed
qed

lemma round32_units [simp]: "round32 0 = FFin 0" "round32 1 = FFin 1" "round32 (- 1) = FFin (- 1)"
  by code_simp+

end
