(* ===== verification/Layout_Model.thy ===== *)
theory Layout_Model
  imports Language F32
begin

text \<open>
  \<open>src/layout_model.rs\<close>: the optional character model of the layouts, its file format and its
  inference. Machine floats are those of \<open>F32\<close>, whose zero has no sign: a weight of minus zero is
  read as zero, and no result of the model depends on it. The exponential is the platform's and a
  parameter.
\<close>

definition MAGIC :: "u8 list" where "MAGIC = [0x41, 0x4B, 0x4C, 0x4D]"
definition VERSION :: u16 where "VERSION = 2"
definition MAX_LAYOUTS :: nat where "MAX_LAYOUTS = 16"
definition MAX_BUCKETS :: nat where "MAX_BUCKETS = 1048576"
definition MAX_DIM :: nat where "MAX_DIM = 64"
definition MAX_HIDDEN :: nat where "MAX_HIDDEN = 256"

datatype layout_model_error = Format | Unsupported

record candidate =
  ca_text :: ustr
  ca_in_dictionary :: bool
  ca_in_short_list :: bool

record layout_model =
  lm_languages :: "language list"
  lm_buckets :: nat
  lm_dim :: nat
  lm_hidden :: nat
  lm_max_n :: nat
  lm_max_ngrams :: nat
  lm_context :: nat
  lm_scales :: "f32 list"
  lm_embeddings :: "int list"
  lm_hidden_weight :: "f32 list"
  lm_hidden_bias :: "f32 list"
  lm_output_weight :: "f32 list"
  lm_output_bias :: f32

section \<open>UTF-8\<close>

definition is_continuation :: "u8 \<Rightarrow> bool" where
  "is_continuation b \<longleftrightarrow> 0x80 \<le> unat b \<and> unat b < 0xC0"

text \<open>\<open>std::str::from_utf8\<close>: no overlong form, no surrogate, nothing above U+10FFFF.\<close>

fun utf8_decode :: "u8 list \<Rightarrow> ustr option" where
  "utf8_decode [] = Some []"
| "utf8_decode (b # bs) =
     (if unat b < 0x80 then map_option ((#) (unat b)) (utf8_decode bs)
      else if unat b < 0xC2 then None
      else if unat b < 0xE0 then
        (case bs of
           b1 # bs \<Rightarrow>
             if is_continuation b1
             then map_option ((#) ((unat b - 0xC0) * 64 + (unat b1 - 0x80))) (utf8_decode bs)
             else None
         | _ \<Rightarrow> None)
      else if unat b < 0xF0 then
        (case bs of
           b1 # b2 # bs \<Rightarrow>
             let c = (unat b - 0xE0) * 4096 + (unat b1 - 0x80) * 64 + (unat b2 - 0x80) in
             if is_continuation b1 \<and> is_continuation b2 \<and> 0x800 \<le> c \<and> \<not> (0xD800 \<le> c \<and> c \<le> 0xDFFF)
             then map_option ((#) c) (utf8_decode bs)
             else None
         | _ \<Rightarrow> None)
      else
        (case bs of
           b1 # b2 # b3 # bs \<Rightarrow>
             let c = (unat b - 0xF0) * 262144 + (unat b1 - 0x80) * 4096 + (unat b2 - 0x80) * 64 + (unat b3 - 0x80) in
             if is_continuation b1 \<and> is_continuation b2 \<and> is_continuation b3 \<and> 0x10000 \<le> c \<and> c \<le> 0x10FFFF
             then map_option ((#) c) (utf8_decode bs)
             else None
         | _ \<Rightarrow> None))"

definition encode_utf8 :: "uchar \<Rightarrow> u8 list" where
  "encode_utf8 c =
     (if c < 0x80 then [of_nat c]
      else if c < 0x800 then [of_nat (0xC0 + c div 64), of_nat (0x80 + c mod 64)]
      else if c < 0x10000 then
        [of_nat (0xE0 + c div 4096), of_nat (0x80 + c div 64 mod 64), of_nat (0x80 + c mod 64)]
      else
        [of_nat (0xF0 + c div 262144), of_nat (0x80 + c div 4096 mod 64), of_nat (0x80 + c div 64 mod 64),
         of_nat (0x80 + c mod 64)])"

section \<open>Reading the file\<close>

text \<open>The reader is the rest of the file.\<close>

type_synonym 'a reader = "u8 list \<Rightarrow> ('a \<times> u8 list) option"

definition read_bytes :: "nat \<Rightarrow> u8 list reader" where
  "read_bytes n bs = (if n \<le> length bs then Some (take n bs, drop n bs) else None)"

definition le_value :: "u8 list \<Rightarrow> nat" where
  "le_value bs = foldr (\<lambda>b n. unat b + 256 * n) bs 0"

definition read_le :: "nat \<Rightarrow> nat reader" where
  "read_le n bs = map_option (\<lambda>(x, bs). (le_value x, bs)) (read_bytes n bs)"

text \<open>The value of 32 bits as a float.\<close>

definition f32_of_bits :: "nat \<Rightarrow> f32" where
  "f32_of_bits n =
     (let negative = 2 ^ 31 \<le> n; ex = n div 2 ^ 23 mod 256; frac = n mod 2 ^ 23;
          magnitude = (if ex = 0 then of_nat frac * pow2 (- 149)
                       else of_nat (2 ^ 23 + frac) * pow2 (int ex - 150))
      in if ex = 255 then if frac = 0 then FInf negative else FNaN
         else FFin (if negative then - magnitude else magnitude))"

fun f_finite :: "f32 \<Rightarrow> bool" where
  "f_finite (FFin r) = True"
| "f_finite _ = False"

definition read_f32 :: "f32 reader" where
  "read_f32 bs =
     (case read_le 4 bs of
        None \<Rightarrow> None
      | Some (n, bs) \<Rightarrow> if f_finite (f32_of_bits n) then Some (f32_of_bits n, bs) else None)"

fun read_f32s :: "nat \<Rightarrow> f32 list reader" where
  "read_f32s 0 bs = Some ([], bs)"
| "read_f32s (Suc n) bs =
     (case read_f32 bs of
        None \<Rightarrow> None
      | Some (x, bs) \<Rightarrow> map_option (\<lambda>(xs, bs). (x # xs, bs)) (read_f32s n bs))"

fun read_languages :: "nat \<Rightarrow> language list \<Rightarrow> language list reader" where
  "read_languages 0 found bs = Some (found, bs)"
| "read_languages (Suc n) found bs =
     (case read_le 1 bs of
        None \<Rightarrow> None
      | Some (len, bs) \<Rightarrow>
          (case read_bytes len bs of
             None \<Rightarrow> None
           | Some (name, bs) \<Rightarrow>
               (case utf8_decode name of
                  None \<Rightarrow> None
                | Some name \<Rightarrow>
                    (case from_id name of
                       None \<Rightarrow> None
                     | Some l \<Rightarrow> if l \<in> set found then None else read_languages n (found @ [l]) bs))))"

fun read_rows :: "nat \<Rightarrow> nat \<Rightarrow> (f32 list \<times> int list) reader" where
  "read_rows 0 cols bs = Some (([], []), bs)"
| "read_rows (Suc n) cols bs =
     (case read_f32 bs of
        None \<Rightarrow> None
      | Some (scale, bs) \<Rightarrow>
          (case read_bytes cols bs of
             None \<Rightarrow> None
           | Some (row, bs) \<Rightarrow>
               map_option (\<lambda>((scales, rows), bs). ((scale # scales, map sint row @ rows), bs))
                 (read_rows n cols bs)))"

definition dense_width :: "nat \<Rightarrow> nat" where
  "dense_width layouts = 5 + 2 * layouts"

record model_header =
  mh_buckets :: nat
  mh_dim :: nat
  mh_hidden :: nat
  mh_max_n :: nat
  mh_max_ngrams :: nat
  mh_context :: nat

definition read_header :: "model_header reader" where
  "read_header bs =
     (case read_le 4 bs of None \<Rightarrow> None | Some (buckets, bs) \<Rightarrow>
      case read_le 2 bs of None \<Rightarrow> None | Some (cols, bs) \<Rightarrow>
      case read_le 2 bs of None \<Rightarrow> None | Some (hidden, bs) \<Rightarrow>
      case read_le 1 bs of None \<Rightarrow> None | Some (max_n, bs) \<Rightarrow>
      case read_le 1 bs of None \<Rightarrow> None | Some (max_ngrams, bs) \<Rightarrow>
      case read_le 1 bs of None \<Rightarrow> None | Some (ctx, bs) \<Rightarrow>
        if buckets = 0 \<or> buckets > MAX_BUCKETS \<or> \<not> (1 \<le> cols \<and> cols \<le> MAX_DIM)
           \<or> \<not> (1 \<le> hidden \<and> hidden \<le> MAX_HIDDEN) \<or> \<not> (1 \<le> max_n \<and> max_n \<le> 8)
           \<or> max_ngrams = 0 \<or> ctx > 16
        then None
        else Some (\<lparr>mh_buckets = buckets, mh_dim = cols, mh_hidden = hidden, mh_max_n = max_n,
               mh_max_ngrams = max_ngrams, mh_context = ctx\<rparr>, bs))"

text \<open>The bytes the header announces: a scale and an embedding row for every bucket, then the dense
  layers. The bounds of the header keep the products far below \<open>usize\<close>.\<close>

definition payload_size :: "model_header \<Rightarrow> nat \<Rightarrow> nat" where
  "payload_size h layouts =
     mh_buckets h * (4 + mh_dim h)
     + (mh_hidden h * (mh_dim h + dense_width layouts) + 2 * mh_hidden h + 1) * 4"

definition read_payload :: "language list \<Rightarrow> model_header \<Rightarrow> u8 list \<Rightarrow> layout_model option" where
  "read_payload languages h bs =
     (if length bs \<noteq> payload_size h (length languages) then None
      else case read_rows (mh_buckets h) (mh_dim h) bs of None \<Rightarrow> None | Some ((scales, embeddings), bs) \<Rightarrow>
      case read_f32s (mh_hidden h * (mh_dim h + dense_width (length languages))) bs of
        None \<Rightarrow> None | Some (hidden_weight, bs) \<Rightarrow>
      case read_f32s (mh_hidden h) bs of None \<Rightarrow> None | Some (hidden_bias, bs) \<Rightarrow>
      case read_f32s (mh_hidden h) bs of None \<Rightarrow> None | Some (output_weight, bs) \<Rightarrow>
      case read_f32 bs of None \<Rightarrow> None | Some (output_bias, bs) \<Rightarrow>
        Some \<lparr>lm_languages = languages, lm_buckets = mh_buckets h, lm_dim = mh_dim h,
          lm_hidden = mh_hidden h, lm_max_n = mh_max_n h, lm_max_ngrams = mh_max_ngrams h,
          lm_context = mh_context h, lm_scales = scales, lm_embeddings = embeddings,
          lm_hidden_weight = hidden_weight, lm_hidden_bias = hidden_bias,
          lm_output_weight = output_weight, lm_output_bias = output_bias\<rparr>)"

definition layout_model_parse :: "u8 list \<Rightarrow> layout_model_error + layout_model" where
  "layout_model_parse bytes =
     (case read_bytes 4 bytes of None \<Rightarrow> Inl Format | Some (magic, bs) \<Rightarrow>
      if magic \<noteq> MAGIC then Inl Format
      else case read_le 2 bs of None \<Rightarrow> Inl Format | Some (version, bs) \<Rightarrow>
      if version \<noteq> unat VERSION then Inl Unsupported
      else case read_le 1 bs of None \<Rightarrow> Inl Format | Some (layouts, bs) \<Rightarrow>
      if \<not> (2 \<le> layouts \<and> layouts \<le> MAX_LAYOUTS) then Inl Format
      else case read_languages layouts [] bs of None \<Rightarrow> Inl Format | Some (languages, bs) \<Rightarrow>
      case read_header bs of None \<Rightarrow> Inl Format | Some (h, bs) \<Rightarrow>
      case read_payload languages h bs of None \<Rightarrow> Inl Format | Some m \<Rightarrow> Inr m)"

section \<open>Inference\<close>

fun position_of :: "'a \<Rightarrow> 'a list \<Rightarrow> nat option" where
  "position_of x [] = None"
| "position_of x (y # ys) = (if y = x then Some 0 else map_option Suc (position_of x ys))"

definition index_of :: "layout_model \<Rightarrow> language \<Rightarrow> nat option" where
  "index_of m l = position_of l (lm_languages m)"

definition crc_entry :: "u32 \<Rightarrow> u32" where
  "crc_entry i = ((\<lambda>v. if v AND 1 \<noteq> 0 then 0xEDB88320 XOR drop_bit 1 v else drop_bit 1 v) ^^ 8) i"

definition crc32 :: "u8 list \<Rightarrow> u32" where
  "crc32 bytes =
     NOT (foldl (\<lambda>crc byte. crc_entry ((crc XOR ucast byte) AND 0xff) XOR drop_bit 8 crc) (NOT 0) bytes)"

definition ngram_id :: "layout_model \<Rightarrow> nat \<Rightarrow> ustr \<Rightarrow> nat" where
  "ngram_id m layout window =
     unat (crc32 (of_nat (layout + 1) # concat (map encode_utf8 window))) mod lm_buckets m"

text \<open>The windows of one to \<open>max_n\<close> characters of the lowercased word between its markers, the
  markers alone left out; the loop stops at \<open>max_ngrams\<close> of them.\<close>

definition ngram_ids :: "unicode \<Rightarrow> layout_model \<Rightarrow> nat \<Rightarrow> ustr \<Rightarrow> nat list" where
  "ngram_ids U m layout word =
     (let padded = [0x3C] @ concat (map (uc_lower U) word) @ [0x3E];
          every = concat (map (\<lambda>n. filter (\<lambda>w. \<not> (n = 1 \<and> (hd w = 0x3C \<or> hd w = 0x3E))) (windows n padded))
                    [1 ..< Suc (lm_max_n m)])
      in take (lm_max_ngrams m) (map (ngram_id m layout) every))"

fun context_weights :: "layout_model \<Rightarrow> nat \<Rightarrow> language list \<Rightarrow> f32 list \<Rightarrow> f32 list" where
  "context_weights m age [] ctx = ctx"
| "context_weights m age (l # ls) ctx =
     context_weights m (Suc age) ls
       (case index_of m l of
          None \<Rightarrow> ctx
        | Some i \<Rightarrow> ctx[i := f_add (ctx ! i) (round32 ((1 / 2) ^ age))])"

definition f_of_bool :: "bool \<Rightarrow> f32" where
  "f_of_bool b = (if b then FFin 1 else FFin 0)"

definition embedding_row :: "layout_model \<Rightarrow> nat \<Rightarrow> f32 list" where
  "embedding_row m row =
     map (\<lambda>v. f_mul (FFin (of_int v)) (lm_scales m ! row))
       (take (lm_dim m) (drop (row * lm_dim m) (lm_embeddings m)))"

definition embedding_mean :: "layout_model \<Rightarrow> nat list \<Rightarrow> f32 list" where
  "embedding_mean m ids =
     (let slot_sums = foldl (\<lambda>slots row. map2 f_add slots (embedding_row m row)) (replicate (lm_dim m) (FFin 0)) ids
      in if ids = [] then slot_sums else map (\<lambda>slot. f_div slot (f_of_nat (length ids))) slot_sums)"

definition dense_features ::
  "layout_model \<Rightarrow> nat \<Rightarrow> ustr \<Rightarrow> f32 list \<Rightarrow> nat \<Rightarrow> candidate \<Rightarrow> f32 list" where
  "dense_features m typed typed_text ctx i ca =
     [f_of_bool (ca_in_dictionary ca), f_of_bool (ca_in_short_list ca), f_of_bool (i = typed),
      f_of_bool (ca_text ca = typed_text), ctx ! i]
     @ (replicate (length (lm_languages m)) (FFin 0))[i := FFin 1] @ ctx"

definition features_of ::
  "unicode \<Rightarrow> layout_model \<Rightarrow> nat \<Rightarrow> ustr \<Rightarrow> f32 list \<Rightarrow> nat \<Rightarrow> candidate \<Rightarrow> f32 list" where
  "features_of U m typed typed_text ctx i ca =
     embedding_mean m (ngram_ids U m i (ca_text ca)) @ dense_features m typed typed_text ctx i ca"

text \<open>\<open>f32::max\<close> prefers a number to a NaN.\<close>

definition f_max :: "f32 \<Rightarrow> f32 \<Rightarrow> f32" where
  "f_max x y = (if x = FNaN then y else if y = FNaN then x else if f_less x y then y else x)"

definition dot :: "f32 list \<Rightarrow> f32 list \<Rightarrow> f32" where
  "dot ws xs = f_sum (map2 f_mul ws xs)"

definition model_width :: "layout_model \<Rightarrow> nat" where
  "model_width m = lm_dim m + dense_width (length (lm_languages m))"

definition hidden_unit :: "layout_model \<Rightarrow> f32 list \<Rightarrow> nat \<Rightarrow> f32" where
  "hidden_unit m features unit =
     f_max (f_add (dot (take (model_width m) (drop (unit * model_width m) (lm_hidden_weight m))) features)
              (lm_hidden_bias m ! unit))
       (FFin 0)"

definition logit_of :: "layout_model \<Rightarrow> f32 list \<Rightarrow> f32" where
  "logit_of m features =
     f_add (dot (map (hidden_unit m features) [0 ..< lm_hidden m]) (lm_output_weight m)) (lm_output_bias m)"

definition softmax :: "(f32 \<Rightarrow> f32) \<Rightarrow> f32 list \<Rightarrow> f32 list option" where
  "softmax f_exp logits =
     (let top = foldl f_max (FInf True) logits;
          weights = map (\<lambda>x. if f_finite x then f_exp (f_sub x top) else FFin 0) logits;
          summed = foldl (\<lambda>t (x, w). if f_finite x then f_add t w else t) (FFin 0) (zip logits weights)
      in if \<not> (f_finite summed \<and> f_less (FFin 0) summed) then None
         else Some (map (\<lambda>w. f_div w summed) weights))"

definition probabilities ::
  "(f32 \<Rightarrow> f32) \<Rightarrow> unicode \<Rightarrow> layout_model \<Rightarrow> candidate option list \<Rightarrow> nat \<Rightarrow> language list \<Rightarrow> f32 list option" where
  "probabilities f_exp U m candidates typed previous =
     (let layouts = length (lm_languages m) in
      if length candidates \<noteq> layouts \<or> \<not> typed < layouts then None
      else case candidates ! typed of
        None \<Rightarrow> None
      | Some typed_candidate \<Rightarrow>
          let start = length previous - lm_context m;
              ctx = context_weights m 0 (rev (drop start previous)) (replicate layouts (FFin 0));
              logits = map (\<lambda>(i, ca). case ca of
                  None \<Rightarrow> FInf True
                | Some ca \<Rightarrow> logit_of m (features_of U m typed (ca_text typed_candidate) ctx i ca))
                (enumerate 0 candidates)
          in if list_ex (\<lambda>(ca, x). ca \<noteq> None \<and> \<not> f_finite x) (zip candidates logits) then None
             else softmax f_exp logits)"

section \<open>What a parsed model keeps\<close>

definition layout_model_ok :: "layout_model \<Rightarrow> bool" where
  "layout_model_ok m \<longleftrightarrow>
     distinct (lm_languages m) \<and> 2 \<le> length (lm_languages m) \<and> length (lm_languages m) \<le> MAX_LAYOUTS
     \<and> 0 < lm_buckets m \<and> lm_buckets m \<le> MAX_BUCKETS \<and> 0 < lm_dim m \<and> lm_dim m \<le> MAX_DIM
     \<and> 0 < lm_hidden m \<and> lm_hidden m \<le> MAX_HIDDEN \<and> 0 < lm_max_n m \<and> lm_max_n m \<le> 8
     \<and> length (lm_scales m) = lm_buckets m
     \<and> length (lm_embeddings m) = lm_buckets m * lm_dim m
     \<and> list_all (\<lambda>v. -128 \<le> v \<and> v \<le> 127) (lm_embeddings m)
     \<and> length (lm_hidden_weight m) = lm_hidden m * model_width m
     \<and> length (lm_hidden_bias m) = lm_hidden m \<and> length (lm_output_weight m) = lm_hidden m
     \<and> list_all f_finite (lm_scales m @ lm_hidden_weight m @ lm_hidden_bias m @ lm_output_weight m)
     \<and> f_finite (lm_output_bias m)"

lemma read_bytes_Some: "read_bytes n bs = Some (x, r) \<Longrightarrow> length x = n \<and> length bs = n + length r"
  by (auto simp: read_bytes_def split: if_splits)

lemma read_f32_Some: "read_f32 bs = Some (x, r) \<Longrightarrow> f_finite x \<and> length bs = 4 + length r"
  by (auto simp: read_f32_def read_le_def split: option.splits if_splits dest: read_bytes_Some)

lemma read_f32s_Some:
  "read_f32s n bs = Some (xs, r) \<Longrightarrow> length xs = n \<and> list_all f_finite xs \<and> length bs = 4 * n + length r"
proof (induction n arbitrary: bs xs)
  case (Suc n)
  obtain x b where x: "read_f32 bs = Some (x, b)" using Suc.prems by (auto split: option.splits)
  with Suc.prems obtain ys where "read_f32s n b = Some (ys, r)" "xs = x # ys" by auto
  with Suc.IH [of b ys] read_f32_Some [OF x] show ?case by simp
qed simp

lemma sint_byte: "- 128 \<le> sint (b :: u8) \<and> sint b \<le> 127"
  using sint_range_size [of b] by (simp add: word_size)

lemma read_rows_Some:
  "read_rows n cols bs = Some ((scales, rows), r) \<Longrightarrow>
     length scales = n \<and> length rows = n * cols \<and> list_all f_finite scales
     \<and> list_all (\<lambda>v. - 128 \<le> v \<and> v \<le> 127) rows \<and> length bs = n * (4 + cols) + length r"
proof (induction n arbitrary: bs scales rows)
  case (Suc n)
  obtain x b where x: "read_f32 bs = Some (x, b)" using Suc.prems by (auto split: option.splits)
  then obtain row c where row: "read_bytes cols b = Some (row, c)" using Suc.prems by (auto split: option.splits)
  with Suc.prems x obtain ss rs where "read_rows n cols c = Some ((ss, rs), r)" "scales = x # ss" "rows = map sint row @ rs"
    by auto
  with Suc.IH [of c ss rs] read_f32_Some [OF x] read_bytes_Some [OF row] sint_byte show ?case
    by (auto simp: list_all_iff)
qed simp

lemma read_languages_Some:
  "read_languages n found bs = Some (ls, r) \<Longrightarrow> distinct found \<Longrightarrow> distinct ls \<and> length ls = length found + n"
proof (induction n arbitrary: found bs)
  case (Suc n)
  then obtain l b where "read_languages n (found @ [l]) b = Some (ls, r)" "l \<notin> set found"
    by (auto split: option.splits if_splits)
  with Suc.IH [of "found @ [l]" b] Suc.prems(2) show ?case by auto
qed simp

lemma read_payload_Some:
  assumes "read_payload languages h bs = Some m"
  shows "lm_languages m = languages \<and> lm_buckets m = mh_buckets h \<and> lm_dim m = mh_dim h
    \<and> lm_hidden m = mh_hidden h \<and> lm_max_n m = mh_max_n h
    \<and> length (lm_scales m) = lm_buckets m \<and> length (lm_embeddings m) = lm_buckets m * lm_dim m
    \<and> list_all (\<lambda>v. -128 \<le> v \<and> v \<le> 127) (lm_embeddings m)
    \<and> length (lm_hidden_weight m) = lm_hidden m * model_width m
    \<and> length (lm_hidden_bias m) = lm_hidden m \<and> length (lm_output_weight m) = lm_hidden m
    \<and> list_all f_finite (lm_scales m @ lm_hidden_weight m @ lm_hidden_bias m @ lm_output_weight m)
    \<and> f_finite (lm_output_bias m)"
proof -
  obtain sc em b1 where 1: "read_rows (mh_buckets h) (mh_dim h) bs = Some ((sc, em), b1)"
    using assms by (auto simp: read_payload_def split: if_splits option.splits)
  obtain hw b2 where 2: "read_f32s (mh_hidden h * (mh_dim h + dense_width (length languages))) b1 = Some (hw, b2)"
    using assms 1 by (auto simp: read_payload_def split: if_splits option.splits)
  obtain hb b3 where 3: "read_f32s (mh_hidden h) b2 = Some (hb, b3)"
    using assms 1 2 by (auto simp: read_payload_def split: if_splits option.splits)
  obtain ow b4 where 4: "read_f32s (mh_hidden h) b3 = Some (ow, b4)"
    using assms 1 2 3 by (auto simp: read_payload_def split: if_splits option.splits)
  obtain ob b5 where 5: "read_f32 b4 = Some (ob, b5)"
    using assms 1 2 3 4 by (auto simp: read_payload_def split: if_splits option.splits)
  show ?thesis
    using assms read_rows_Some [OF 1] read_f32s_Some [OF 2] read_f32s_Some [OF 3] read_f32s_Some [OF 4]
      read_f32_Some [OF 5]
    by (auto simp: read_payload_def 1 2 3 4 5 model_width_def split: if_splits)
qed

lemma read_header_Some:
  "read_header bs = Some (h, r) \<Longrightarrow>
     0 < mh_buckets h \<and> mh_buckets h \<le> MAX_BUCKETS \<and> 0 < mh_dim h \<and> mh_dim h \<le> MAX_DIM
     \<and> 0 < mh_hidden h \<and> mh_hidden h \<le> MAX_HIDDEN \<and> 0 < mh_max_n h \<and> mh_max_n h \<le> 8"
  by (auto simp: read_header_def split: option.splits if_splits)

text \<open>A layout model that \<open>parse\<close> accepts has the tables its inference indexes: between two and
  sixteen distinct languages, a scale and an embedding row for every bucket, a weight for every
  feature of every hidden unit, each number finite and each size within its bound.\<close>

theorem parsed_layout_model_ok:
  assumes "layout_model_parse bytes = Inr m"
  shows "layout_model_ok m"
proof -
  obtain layouts languages bs h bs' bs'' where
    "2 \<le> layouts" "layouts \<le> MAX_LAYOUTS" and l: "read_languages layouts [] bs = Some (languages, bs')"
    and h: "read_header bs' = Some (h, bs'')" and p: "read_payload languages h bs'' = Some m"
    using assms by (auto simp: layout_model_parse_def split: option.splits if_splits)
  then show ?thesis
    using read_languages_Some [OF l] read_header_Some [OF h] read_payload_Some [OF p]
    by (simp add: layout_model_ok_def)
qed

text \<open>The smallest file: English and Russian, one bucket, one hidden unit, every weight zero.\<close>

definition sample_model_bytes :: "u8 list" where
  "sample_model_bytes =
     [0x41, 0x4B, 0x4C, 0x4D, 2, 0, 2, 2, 101, 110, 2, 114, 117, 1, 0, 0, 0, 1, 0, 1, 0, 1, 1, 0]
     @ replicate 57 0"

definition sample_layout_model :: layout_model where
  "sample_layout_model = \<lparr>lm_languages = [English, Russian], lm_buckets = 1, lm_dim = 1, lm_hidden = 1,
     lm_max_n = 1, lm_max_ngrams = 1, lm_context = 0, lm_scales = [FFin 0], lm_embeddings = [0],
     lm_hidden_weight = replicate 10 (FFin 0), lm_hidden_bias = [FFin 0], lm_output_weight = [FFin 0],
     lm_output_bias = FFin 0\<rparr>"

lemma read_zero: "read_f32 (replicate (4 + k) 0) = Some (FFin 0, replicate k 0)"
proof -
  have "replicate 4 (0 :: u8) = [0, 0, 0, 0]" by (simp add: numeral_eq_Suc)
  then have four: "replicate (4 + k) (0 :: u8) = [0, 0, 0, 0] @ replicate k 0" by (simp add: replicate_add)
  have "f32_of_bits 0 = FFin 0" by (simp add: f32_of_bits_def Let_def)
  then show ?thesis unfolding four by (simp add: read_f32_def read_le_def read_bytes_def le_value_def)
qed

lemma read_zeros: "read_f32s n (replicate (4 * n + k) 0) = Some (replicate n (FFin 0), replicate k 0)"
proof (induction n)
  case (Suc n)
  have "4 * Suc n + k = 4 + (4 * n + k)" by simp
  then show ?case by (simp only: read_f32s.simps read_zero option.case prod.case Suc) simp
qed simp

lemma sample_payload:
  "read_payload [English, Russian]
     \<lparr>mh_buckets = 1, mh_dim = 1, mh_hidden = 1, mh_max_n = 1, mh_max_ngrams = 1, mh_context = 0\<rparr>
     (replicate 57 0) = Some sample_layout_model"
proof -
  have "read_rows 1 1 (replicate 57 0) = Some (([FFin 0], [0]), replicate 52 0)"
    using read_zero [of 53] by (simp add: read_bytes_def)
  moreover have "read_f32s 10 (replicate 52 0) = Some (replicate 10 (FFin 0), replicate 12 0)"
    using read_zeros [of 10 12] by simp
  moreover have "read_f32s 1 (replicate 12 0) = Some ([FFin 0], replicate 8 0)"
    "read_f32s 1 (replicate 8 0) = Some ([FFin 0], replicate 4 0)"
    using read_zeros [of 1 8] read_zeros [of 1 4] by simp_all
  moreover have "read_f32 (replicate 4 0) = Some (FFin 0, [])" using read_zero [of 0] by simp
  ultimately show ?thesis
    by (simp add: read_payload_def payload_size_def dense_width_def sample_layout_model_def del: One_nat_def)
qed

lemma sample_model_parsed: "layout_model_parse sample_model_bytes = Inr sample_layout_model"
proof -
  let ?zeros = "replicate 57 0 :: u8 list"
  have "from_id [101, 110] = Some English" "from_id [114, 117] = Some Russian"
    by (simp_all add: from_id_def Let_def trim_def trim_matches_def is_whitespace_def ascii_defs)
  then have l: "read_languages (Suc (Suc 0)) [] ([2, 101, 110, 2, 114, 117, 1, 0, 0, 0, 1, 0, 1, 0, 1, 1, 0] @ ?zeros)
      = Some ([English, Russian], [1, 0, 0, 0, 1, 0, 1, 0, 1, 1, 0] @ ?zeros)"
    by (simp add: read_le_def read_bytes_def le_value_def)
  have h: "read_header ([1, 0, 0, 0, 1, 0, 1, 0, 1, 1, 0] @ ?zeros)
      = Some (\<lparr>mh_buckets = 1, mh_dim = 1, mh_hidden = 1, mh_max_n = 1, mh_max_ngrams = 1, mh_context = 0\<rparr>, ?zeros)"
    by (simp add: read_header_def read_le_def read_bytes_def le_value_def MAX_BUCKETS_def MAX_DIM_def
        MAX_HIDDEN_def)
  show ?thesis
    using l h sample_payload
    by (simp add: layout_model_parse_def sample_model_bytes_def read_bytes_def read_le_def le_value_def
        MAGIC_def VERSION_def MAX_LAYOUTS_def del: read_languages.simps)
qed

lemma parsed_layout_model_ok_witness: "layout_model_ok sample_layout_model"
  by (rule parsed_layout_model_ok [OF sample_model_parsed])

section \<open>Inference stays inside the tables\<close>

lemma length_context_weights [simp]: "length (context_weights m age ls ctx) = length ctx"
  by (induction m age ls ctx rule: context_weights.induct) (auto split: option.splits)

lemma length_embedding_row:
  "layout_model_ok m \<Longrightarrow> row < lm_buckets m \<Longrightarrow> length (embedding_row m row) = lm_dim m"
proof -
  assume "layout_model_ok m" "row < lm_buckets m"
  then have "Suc row * lm_dim m \<le> length (lm_embeddings m)"
    by (simp add: layout_model_ok_def mult_le_mono1 del: mult_Suc)
  then show ?thesis by (simp add: embedding_row_def)
qed

lemma ngram_ids_range:
  "layout_model_ok m \<Longrightarrow> row \<in> set (ngram_ids U m i w) \<Longrightarrow> row < lm_buckets m"
  by (auto simp: ngram_ids_def Let_def layout_model_ok_def ngram_id_def dest!: in_set_takeD)

lemma length_embedding_mean:
  assumes "layout_model_ok m" "\<forall>row \<in> set ids. row < lm_buckets m"
  shows "length (embedding_mean m ids) = lm_dim m"
proof -
  have "length (foldl (\<lambda>slots row. map2 f_add slots (embedding_row m row)) slots ids) = lm_dim m"
    if "length slots = lm_dim m" for slots
    using that assms(2)
    by (induction ids arbitrary: slots) (simp_all add: length_embedding_row [OF assms(1)])
  then show ?thesis by (simp add: embedding_mean_def Let_def)
qed

text \<open>Inference reads only what the tables hold: for a parsed model, every n-gram of any word
  names a stored scale and a whole stored embedding row, there are at most \<open>max_ngrams\<close> of them, the
  feature vector of a reading has exactly one entry for each weight of a hidden unit, and the weights
  of every hidden unit lie inside the weight table.\<close>

theorem inference_stays_in_tables:
  assumes "layout_model_ok m" "i < length (lm_languages m)" "length ctx = length (lm_languages m)"
  shows "(\<forall>row \<in> set (ngram_ids U m i (ca_text ca)).
            row < length (lm_scales m) \<and> (row + 1) * lm_dim m \<le> length (lm_embeddings m))
    \<and> length (ngram_ids U m i (ca_text ca)) \<le> lm_max_ngrams m
    \<and> length (features_of U m typed word ctx i ca) = model_width m
    \<and> (\<forall>unit < lm_hidden m. (unit + 1) * model_width m \<le> length (lm_hidden_weight m))"
proof -
  have rows: "row < lm_buckets m" if "row \<in> set (ngram_ids U m i (ca_text ca))" for row
    using ngram_ids_range [OF assms(1) that] .
  have "(row + 1) * lm_dim m \<le> length (lm_embeddings m)" if "row < lm_buckets m" for row
    using that assms(1) mult_le_mono1 [of "row + 1" "lm_buckets m" "lm_dim m"]
    by (simp add: layout_model_ok_def)
  moreover have "(unit + 1) * model_width m \<le> length (lm_hidden_weight m)" if "unit < lm_hidden m" for unit
    using that assms(1) mult_le_mono1 [of "unit + 1" "lm_hidden m" "model_width m"]
    by (simp add: layout_model_ok_def)
  moreover have "length (features_of U m typed word ctx i ca) = model_width m"
    using length_embedding_mean [OF assms(1)] rows assms(2,3)
    by (simp add: features_of_def dense_features_def model_width_def dense_width_def)
  ultimately show ?thesis
    using rows assms(1) by (simp add: layout_model_ok_def ngram_ids_def Let_def)
qed

lemma inference_stays_in_tables_witness:
  "list_all (\<lambda>row. row < length (lm_scales sample_layout_model)
        \<and> (row + 1) * lm_dim sample_layout_model \<le> length (lm_embeddings sample_layout_model))
      (ngram_ids ascii_tables sample_layout_model 0
        (ca_text \<lparr>ca_text = lit ''hi'', ca_in_dictionary = True, ca_in_short_list = False\<rparr>))
    \<and> length (ngram_ids ascii_tables sample_layout_model 0 (ca_text \<lparr>ca_text = lit ''hi'', ca_in_dictionary = True, ca_in_short_list = False\<rparr>)) \<le> lm_max_ngrams sample_layout_model
    \<and> length (features_of ascii_tables sample_layout_model 0 (lit ''hi'') [FFin 0, FFin 0] 0
         \<lparr>ca_text = lit ''hi'', ca_in_dictionary = True, ca_in_short_list = False\<rparr>) = model_width sample_layout_model
    \<and> (0 + 1) * model_width sample_layout_model \<le> length (lm_hidden_weight sample_layout_model)"
proof -
  have ok: "layout_model_ok sample_layout_model"
    by (simp add: layout_model_ok_def sample_layout_model_def MAX_LAYOUTS_def MAX_BUCKETS_def MAX_DIM_def
        MAX_HIDDEN_def model_width_def dense_width_def list_all_iff)
  have first: "0 < lm_hidden sample_layout_model" "0 < length (lm_languages sample_layout_model)"
      "length [FFin 0, FFin 0] = length (lm_languages sample_layout_model)"
    by (simp_all add: sample_layout_model_def)
  show ?thesis
    unfolding list_all_iff
    using inference_stays_in_tables [OF ok first(2,3), of ascii_tables
        "\<lparr>ca_text = lit ''hi'', ca_in_dictionary = True, ca_in_short_list = False\<rparr>" 0 "lit ''hi''"] first(1)
    by blast
qed

section \<open>Probabilities\<close>

lemma softmax_length: "softmax e xs = Some ps \<Longrightarrow> length ps = length xs"
  by (auto simp: softmax_def Let_def split: if_splits)

lemma softmax_absent:
  assumes "softmax e xs = Some ps" "i < length xs" "\<not> f_finite (xs ! i)"
  shows "ps ! i = FFin 0"
proof -
  obtain s where s: "f_finite s" "f_less (FFin 0) s" "ps ! i = f_div (FFin 0) s"
    using assms by (auto simp: softmax_def Let_def split: if_splits)
  then show ?thesis by (cases s) (auto simp: round32_def)
qed

text \<open>The model answers for exactly its layouts, and a layout without a reading gets nothing.\<close>

lemma probabilities_Some:
  assumes "probabilities e U m cs typed previous = Some ps"
  shows "length ps = length (lm_languages m) \<and> length cs = length (lm_languages m)
    \<and> (\<forall>i < length cs. cs ! i = None \<longrightarrow> ps ! i = FFin 0)"
proof -
  obtain logits where l: "softmax e logits = Some ps" "length logits = length cs"
    and none: "\<forall>i < length cs. cs ! i = None \<longrightarrow> logits ! i = FInf True"
    and len: "length cs = length (lm_languages m)"
    using assms by (auto simp: probabilities_def Let_def nth_enumerate_eq split: if_splits option.splits)
  show ?thesis using softmax_length [OF l(1)] softmax_absent [OF l(1)] l(2) none len by auto
qed

end
