(* ===== verification/Detector.thy ===== *)
theory Detector
  imports Dictionary User_Lexicon Conversion Profile_Resolver Layout_Model
begin

text \<open>
  \<open>src/detector.rs\<close>: the offline detector of words typed in the wrong layout. A detector is an
  immutable snapshot of the dictionaries, of the exact keyboard bindings of their packs, of the
  user's words and exclusions and of the optional layout model. The Unicode tables \<open>U\<close> and the
  exponential of the layout model are parameters; everything else, the float arithmetic of the
  scores included, is computed here.
\<close>

definition DICTIONARY_SCORE_BONUS :: f32 where "DICTIONARY_SCORE_BONUS = FFin 10"
definition MINIMUM_STATISTICAL_CHARACTERS :: nat where "MINIMUM_STATISTICAL_CHARACTERS = 4"
definition LAYOUT_MODEL_MINIMUM_CHARACTERS :: nat where "LAYOUT_MODEL_MINIMUM_CHARACTERS = 3"
definition LAYOUT_MODEL_THRESHOLD :: f32 where "LAYOUT_MODEL_THRESHOLD = round32 (9 / 10)"
definition LAYOUT_MODEL_SHORT_THRESHOLD :: f32 where "LAYOUT_MODEL_SHORT_THRESHOLD = round32 (97 / 100)"
definition MINIMUM_BASE_LIST_CHARACTERS :: nat where "MINIMUM_BASE_LIST_CHARACTERS = 3"

record detector_config =
  minimum_word_characters :: nat
  minimum_target_score :: f32
  minimum_score_margin :: f32
  single_letter_words :: bool

definition detector_config_default :: detector_config where
  "detector_config_default = \<lparr>minimum_word_characters = 2, minimum_target_score = FFin 12,
     minimum_score_margin = FFin 5, single_letter_words = False\<rparr>"

definition score_margin :: "f32 detection \<Rightarrow> f32" where
  "score_margin d = f_sub (de_target_score d) (de_source_score d)"

record detector =
  dt_config :: detector_config
  dt_dictionaries :: dictionary_registry
  dt_input_bindings :: "(language \<times> input_binding) list"
  dt_resolved_input_packs :: "language set option"
  dt_user_dictionary :: user_lexicon
  dt_word_exclusions :: user_lexicon
  dt_layout_model :: "layout_model option"

section \<open>Which packs take part\<close>

text \<open>Every claim an enabled pack makes on a profile; a chosen profile reserves only itself.\<close>

definition profile_claims ::
  "dictionary_registry \<Rightarrow> input_profile_selections \<Rightarrow> windows_keyboard_profile list" where
  "profile_claims dictionaries choices =
     concat (map (\<lambda>l.
       case registry_active dictionaries l of
         None \<Rightarrow> []
       | Some pack \<Rightarrow>
           (case dp_input_descriptor pack of
              None \<Rightarrow> []
            | Some d \<Rightarrow>
                filter (\<lambda>p. case selections_get choices l of None \<Rightarrow> True | Some chosen \<Rightarrow> chosen = p)
                  (map fst (descriptor_profiles d))))
       (dr_enabled dictionaries))"

definition pack_binding ::
  "dictionary_registry \<Rightarrow> input_profile_selections \<Rightarrow> pack_id \<Rightarrow> input_binding option" where
  "pack_binding dictionaries choices l =
     (case registry_active dictionaries l of None \<Rightarrow> None | Some pack \<Rightarrow>
      case dp_model pack of None \<Rightarrow> None | Some _ \<Rightarrow>
      case dp_input_descriptor pack of None \<Rightarrow> None | Some d \<Rightarrow>
      case selections_resolve choices d of None \<Rightarrow> None | Some (p, requirements) \<Rightarrow>
        if count_list (profile_claims dictionaries choices) p \<noteq> 1 then None
        else bind_conservative_profile p requirements)"

text \<open>The enabled identities are in ascending order, and so are the keys collected from them.\<close>

definition with_profile_selections ::
  "detector_config \<Rightarrow> dictionary_registry \<Rightarrow> input_profile_selections \<Rightarrow> detector" where
  "with_profile_selections config dictionaries choices =
     \<lparr>dt_config = config, dt_dictionaries = dictionaries,
      dt_input_bindings =
        List.map_filter (\<lambda>l. map_option (\<lambda>b. (l, b)) (pack_binding dictionaries choices l))
          (dr_enabled dictionaries),
      dt_resolved_input_packs = None, dt_user_dictionary = user_lexicon_default,
      dt_word_exclusions = user_lexicon_default, dt_layout_model = None\<rparr>"

definition with_registry :: "detector_config \<Rightarrow> dictionary_registry \<Rightarrow> detector" where
  "with_registry config dictionaries = with_profile_selections config dictionaries []"

definition profile_implementation_of ::
  "detector \<Rightarrow> language \<Rightarrow> windows_keyboard_profile \<Rightarrow> profile_implementation option" where
  "profile_implementation_of dt l p =
     (case registry_active (dt_dictionaries dt) l of None \<Rightarrow> None | Some pack \<Rightarrow>
      case dp_input_descriptor pack of None \<Rightarrow> None | Some d \<Rightarrow>
        map_option (assess_profile_implementation p) (descriptor_profile d p))"

definition binding_of :: "detector \<Rightarrow> language \<Rightarrow> input_binding option" where
  "binding_of dt l = om_lookup (dt_input_bindings dt) l"

definition input_pack_is_eligible :: "detector \<Rightarrow> language \<Rightarrow> bool" where
  "input_pack_is_eligible dt l \<longleftrightarrow>
     binding_of dt l \<noteq> None
     \<and> (case dt_resolved_input_packs dt of None \<Rightarrow> True | Some packs \<Rightarrow> l \<in> packs)"

definition automatic_targets :: "detector \<Rightarrow> language \<Rightarrow> language list" where
  "automatic_targets dt source =
     filter (\<lambda>target. input_pack_is_eligible dt source \<and> input_pack_is_eligible dt target \<and> target \<noteq> source)
       (map fst (dt_input_bindings dt))"

definition input_profile :: "detector \<Rightarrow> language \<Rightarrow> windows_keyboard_profile option" where
  "input_profile dt l = map_option binding_profile (binding_of dt l)"

definition input_scope_of :: "detector \<Rightarrow> language \<Rightarrow> input_scope option" where
  "input_scope_of dt l = map_option binding_scope (binding_of dt l)"

definition set_resolved_profiles :: "resolved_keyboard_profiles option \<Rightarrow> detector \<Rightarrow> detector" where
  "set_resolved_profiles profiles dt =
     dt\<lparr>dt_resolved_input_packs :=
       Some (set (filter (\<lambda>l.
         case input_profile dt l of
           None \<Rightarrow> False
         | Some p \<Rightarrow>
             (case profiles of None \<Rightarrow> False | Some snapshot \<Rightarrow> unique_layout snapshot p \<noteq> None))
         (map fst (dt_input_bindings dt))))\<rparr>"

definition language_for_profile :: "detector \<Rightarrow> windows_keyboard_profile \<Rightarrow> language option" where
  "language_for_profile dt p =
     (case filter (\<lambda>l. input_pack_is_eligible dt l \<and> input_profile dt l = Some p)
             (map fst (dt_input_bindings dt)) of
        [l] \<Rightarrow> Some l
      | _ \<Rightarrow> None)"

definition set_layout_model :: "layout_model option \<Rightarrow> detector \<Rightarrow> detector" where
  "set_layout_model m dt = dt\<lparr>dt_layout_model := m\<rparr>"

definition replace_user_lexicons :: "user_lexicon \<Rightarrow> user_lexicon \<Rightarrow> detector \<Rightarrow> detector" where
  "replace_user_lexicons user exclusions dt =
     dt\<lparr>dt_user_dictionary := user, dt_word_exclusions := exclusions\<rparr>"

section \<open>Questions to the dictionaries\<close>

definition active_model :: "detector \<Rightarrow> language \<Rightarrow> scoring_model option" where
  "active_model dt l = Option.bind (active_language (dt_dictionaries dt) l) dp_model"

definition accepts_character :: "unicode \<Rightarrow> detector \<Rightarrow> language \<Rightarrow> uchar \<Rightarrow> bool" where
  "accepts_character U dt l c =
     (case active_model dt l of None \<Rightarrow> False | Some m \<Rightarrow> list_all (model_accepts m) (uc_lower U c))"

definition accepts_word :: "unicode \<Rightarrow> detector \<Rightarrow> language \<Rightarrow> ustr \<Rightarrow> bool" where
  "accepts_word U dt l word =
     (case active_model dt l of None \<Rightarrow> False | Some m \<Rightarrow> model_accepts_word m (uc_lower_str U word))"

definition base_dictionary_contains :: "unicode \<Rightarrow> detector \<Rightarrow> language \<Rightarrow> ustr \<Rightarrow> bool" where
  "base_dictionary_contains U dt l word =
     (case active_language (dt_dictionaries dt) l of None \<Rightarrow> False | Some pack \<Rightarrow> pack_contains U pack word)"

definition common_short_contains :: "unicode \<Rightarrow> detector \<Rightarrow> language \<Rightarrow> ustr \<Rightarrow> bool" where
  "common_short_contains U dt l word =
     (case active_language (dt_dictionaries dt) l of
        None \<Rightarrow> False | Some pack \<Rightarrow> pack_common_short_contains U pack word)"

definition dictionary_contains :: "unicode \<Rightarrow> detector \<Rightarrow> language \<Rightarrow> ustr \<Rightarrow> bool" where
  "dictionary_contains U dt l word \<longleftrightarrow>
     base_dictionary_contains U dt l word \<or> common_short_contains U dt l word
     \<or> contains_pack U (dt_user_dictionary dt) l word"

definition can_extend_word_with_readings ::
  "unicode \<Rightarrow> detector \<Rightarrow> uchar \<Rightarrow> language \<Rightarrow> (language \<times> uchar) list \<Rightarrow> bool" where
  "can_extend_word_with_readings U dt c current readings \<longleftrightarrow>
     input_pack_is_eligible dt current
     \<and> (accepts_character U dt current c
        \<or> list_ex (\<lambda>target.
             case (case find (\<lambda>(l, _). l = target) readings of
                     Some (_, reading) \<Rightarrow> Some reading
                   | None \<Rightarrow>
                       (case (binding_of dt current, binding_of dt target) of
                          (Some b, Some t) \<Rightarrow> binding_transpose_character b c t
                        | _ \<Rightarrow> None)) of
               None \<Rightarrow> False
             | Some mapped \<Rightarrow> accepts_character U dt target mapped)
             (automatic_targets dt current))"

definition can_extend_word :: "unicode \<Rightarrow> detector \<Rightarrow> uchar \<Rightarrow> language \<Rightarrow> bool" where
  "can_extend_word U dt c current = can_extend_word_with_readings U dt c current []"

definition letter_core :: "unicode \<Rightarrow> detector \<Rightarrow> language \<Rightarrow> ustr \<Rightarrow> ustr" where
  "letter_core U dt l word = trim_matches (\<lambda>c. \<not> accepts_character U dt l c) word"

definition knows_letter_core :: "unicode \<Rightarrow> detector \<Rightarrow> language \<Rightarrow> ustr \<Rightarrow> bool" where
  "knows_letter_core U dt l core =
     (if length core < MINIMUM_BASE_LIST_CHARACTERS
      then common_short_contains U dt l core \<or> contains_pack U (dt_user_dictionary dt) l core
      else dictionary_contains U dt l core)"

definition is_contraction :: "unicode \<Rightarrow> detector \<Rightarrow> language \<Rightarrow> ustr \<Rightarrow> bool" where
  "is_contraction U dt l word =
     (let parts = split_on (\<lambda>c. c = 0x27 \<or> c = 0x2019) word in
      2 \<le> length parts
      \<and> (knows_letter_core U dt l (hd parts)
         \<or> length parts = 2 \<and> 3 \<le> length (hd parts) \<and> length (last parts) = 1))"

fun follows_known_run :: "unicode \<Rightarrow> detector \<Rightarrow> language \<Rightarrow> ustr \<Rightarrow> ustr \<Rightarrow> bool" where
  "follows_known_run U dt l run [] = False"
| "follows_known_run U dt l run (c # cs) =
     (if accepts_character U dt l c then follows_known_run U dt l (run @ [c]) cs
      else if MINIMUM_BASE_LIST_CHARACTERS \<le> length run \<and> knows_letter_core U dt l (uc_lower_str U run)
      then True
      else follows_known_run U dt l [] cs)"

definition follows_known_word :: "unicode \<Rightarrow> detector \<Rightarrow> language \<Rightarrow> ustr \<Rightarrow> bool" where
  "follows_known_word U dt l word = follows_known_run U dt l [] word"

definition capital_from_punctuation :: "unicode \<Rightarrow> detector \<Rightarrow> language \<Rightarrow> ustr \<Rightarrow> ustr \<Rightarrow> bool" where
  "capital_from_punctuation U dt l word replacement =
     list_ex (\<lambda>(typed, reading). \<not> accepts_character U dt l typed \<and> uc_uppercase U reading)
       (zip word replacement)"

definition period_between_letters :: "unicode \<Rightarrow> ustr \<Rightarrow> bool" where
  "period_between_letters U word =
     list_ex (\<lambda>shorter. 2 \<le> shorter)
       (concat (map (\<lambda>chunk.
          let parts = map length (split_on (\<lambda>c. c = 0x2E) chunk)
          in map2 min parts (tl parts))
          (split_on (\<lambda>c. \<not> uc_alphabetic U c \<and> c \<noteq> 0x2E) word)))"

section \<open>Scores\<close>

definition ngram_score :: "ustr \<Rightarrow> ustr set \<Rightarrow> nat \<Rightarrow> f32 \<Rightarrow> f32 \<Rightarrow> f32" where
  "ngram_score characters common width hit_score miss_score =
     (if length characters < width then FFin 0
      else f_sum (map (\<lambda>window. if window \<in> common then hit_score else miss_score) (windows width characters)))"

definition vowel_score :: "scoring_model \<Rightarrow> ustr \<Rightarrow> f32 \<Rightarrow> f32" where
  "vowel_score m characters score =
     (let vowel_count = length (filter (is_vowel m) characters) in
      if 4 \<le> length characters \<and> vowel_count = 0 then f_sub score (FFin 5)
      else
        let ratio = f_div (f_of_nat vowel_count) (f_of_nat (length characters))
        in if f_le (round32 (15 / 100)) ratio \<and> f_le ratio (round32 (70 / 100)) then f_add score (FFin (3 / 2))
           else score)"

definition score_word :: "unicode \<Rightarrow> ustr \<Rightarrow> language \<Rightarrow> user_lexicon \<Rightarrow> dictionary_registry \<Rightarrow> f32" where
  "score_word U word l user dictionaries =
     (case active_language dictionaries l of None \<Rightarrow> FInf True | Some pack \<Rightarrow>
      case dp_model pack of None \<Rightarrow> FInf True | Some m \<Rightarrow>
        let characters = uc_lower_str U word in
        if characters = [] then FInf True
        else if \<not> model_accepts_word m characters then FFin (- 20)
        else
          let score = f_mul (f_of_nat (length characters)) (FFin (5 / 4));
              score = (if pack_contains U pack characters \<or> pack_common_short_contains U pack characters
                          \<or> contains_pack U user l characters
                       then f_add score DICTIONARY_SCORE_BONUS else score);
              score = (if uses_bigrams m
                       then f_add score (ngram_score characters (sm_bigrams m) 2 (round32 (9 / 10)) (round32 (- 2 / 10)))
                       else score);
              score = (if uses_trigrams m
                       then f_add score (ngram_score characters (sm_trigrams m) 3 (FFin (3 / 2)) (round32 (- 1 / 10)))
                       else score);
              score = (if uses_vowels m then vowel_score m characters score else score)
          in foldl (\<lambda>s sequence. if contains_str characters sequence then f_sub s (FFin (3 / 2)) else s)
               score (sm_rare m))"

definition detector_score :: "unicode \<Rightarrow> detector \<Rightarrow> ustr \<Rightarrow> language \<Rightarrow> f32" where
  "detector_score U dt word l = score_word U word l (dt_user_dictionary dt) (dt_dictionaries dt)"

section \<open>Readings of a word\<close>

fun take_candidates ::
  "detector \<Rightarrow> language \<Rightarrow> (language \<times> ustr) list \<Rightarrow> (language \<times> ustr) list \<Rightarrow> (language \<times> ustr) list" where
  "take_candidates dt current resolved [] = resolved"
| "take_candidates dt current resolved ((target, replacement) # candidates) =
     take_candidates dt current
       (if target \<noteq> current \<and> target \<in> set (automatic_targets dt current) \<and> target \<notin> fst ` set resolved
        then resolved @ [(target, replacement)] else resolved)
       candidates"

fun add_transposed ::
  "detector \<Rightarrow> ustr \<Rightarrow> language \<Rightarrow> (language \<times> ustr) list \<Rightarrow> language list \<Rightarrow> (language \<times> ustr) list" where
  "add_transposed dt word current resolved [] = resolved"
| "add_transposed dt word current resolved (target # targets) =
     (if target \<in> fst ` set resolved then add_transposed dt word current resolved targets
      else
        (case (binding_of dt current, binding_of dt target) of
           (Some b, Some t) \<Rightarrow>
             (case binding_transpose_word b word t of
                Some replacement \<Rightarrow> add_transposed dt word current (resolved @ [(target, replacement)]) targets
              | None \<Rightarrow> add_transposed dt word current resolved targets)
         | _ \<Rightarrow> add_transposed dt word current resolved targets))"

definition resolve_candidates ::
  "detector \<Rightarrow> ustr \<Rightarrow> language \<Rightarrow> (language \<times> ustr) list \<Rightarrow> (language \<times> ustr) list" where
  "resolve_candidates dt word current candidates =
     add_transposed dt word current (take_candidates dt current [] candidates) (automatic_targets dt current)"

section \<open>One-letter words\<close>

definition listed_short :: "unicode \<Rightarrow> detector \<Rightarrow> language \<Rightarrow> ustr \<Rightarrow> bool" where
  "listed_short U dt l word \<longleftrightarrow>
     common_short_contains U dt l word \<or> contains_pack U (dt_user_dictionary dt) l word"

definition single_letter_target :: "unicode \<Rightarrow> detector \<Rightarrow> ustr \<Rightarrow> language \<Rightarrow> language \<Rightarrow> ustr \<Rightarrow> bool" where
  "single_letter_target U dt word current target replacement \<longleftrightarrow>
     \<not> (target = current \<or> active_language (dt_dictionaries dt) target = None
        \<or> length replacement \<noteq> 1 \<or> replacement = word \<or> \<not> accepts_word U dt target replacement)
     \<and> listed_short U dt target replacement"

fun single_letter_loop ::
  "unicode \<Rightarrow> detector \<Rightarrow> ustr \<Rightarrow> language \<Rightarrow> f32 \<Rightarrow> f32 detection option \<Rightarrow> (language \<times> ustr) list \<Rightarrow>
     f32 detection option" where
  "single_letter_loop U dt word current source_score chosen [] = chosen"
| "single_letter_loop U dt word current source_score chosen ((target, replacement) # readings) =
     (if \<not> single_letter_target U dt word current target replacement
      then single_letter_loop U dt word current source_score chosen readings
      else if chosen \<noteq> None then None
      else single_letter_loop U dt word current source_score
             (Some \<lparr>de_source_language = current, de_target_language = target, de_original = word,
                de_replacement = replacement, de_source_score = source_score,
                de_target_score = detector_score U dt replacement target\<rparr>)
             readings)"

definition detect_single_letter ::
  "unicode \<Rightarrow> detector \<Rightarrow> ustr \<Rightarrow> language \<Rightarrow> (language \<times> ustr) list \<Rightarrow> f32 detection option" where
  "detect_single_letter U dt word current candidates =
     (if contains_pack U (dt_word_exclusions dt) current word then None
      else if accepts_word U dt current word \<and> listed_short U dt current word then None
      else single_letter_loop U dt word current (detector_score U dt word current) None
             (resolve_candidates dt word current candidates))"

section \<open>The dictionary stage\<close>

definition source_is_known :: "unicode \<Rightarrow> detector \<Rightarrow> ustr \<Rightarrow> language \<Rightarrow> bool" where
  "source_is_known U dt word current =
     (if length word < MINIMUM_STATISTICAL_CHARACTERS then listed_short U dt current word
      else dictionary_contains U dt current word)"

definition source_score_of :: "unicode \<Rightarrow> detector \<Rightarrow> ustr \<Rightarrow> language \<Rightarrow> f32" where
  "source_score_of U dt word current =
     (let score = detector_score U dt word current in
      if length word < MINIMUM_STATISTICAL_CHARACTERS \<and> accepts_word U dt current word
         \<and> base_dictionary_contains U dt current word
      then f_sub score DICTIONARY_SCORE_BONUS else score)"

text \<open>One reading: \<open>None\<close> where the loop continues, otherwise whether the reading is a dictionary word
  and the detection it stands for.\<close>

definition judge_target ::
  "unicode \<Rightarrow> detector \<Rightarrow> ustr \<Rightarrow> language \<Rightarrow> f32 \<Rightarrow> language \<times> ustr \<Rightarrow> (bool \<times> f32 detection) option" where
  "judge_target U dt word current source_score reading =
     (let (target, replacement) = reading;
          short_word = length word < MINIMUM_STATISTICAL_CHARACTERS;
          target_in_dictionary = dictionary_contains U dt target replacement
      in if target = current \<or> active_language (dt_dictionaries dt) target = None then None
         else if \<not> accepts_word U dt target replacement then None
         else if \<not> target_in_dictionary
                 \<and> \<not> (case active_model dt target of None \<Rightarrow> False | Some m \<Rightarrow> allows_statistical_targets m)
         then None
         else if short_word \<and> \<not> common_short_contains U dt target replacement
                 \<and> \<not> contains_pack U (dt_user_dictionary dt) target replacement
         then None
         else if \<not> accepts_word U dt current word \<and> \<not> target_in_dictionary then None
         else
           let detection = \<lparr>de_source_language = current, de_target_language = target, de_original = word,
                 de_replacement = replacement, de_source_score = source_score,
                 de_target_score = detector_score U dt replacement target\<rparr>
           in if f_less (de_target_score detection) (minimum_target_score (dt_config dt))
                 \<or> f_less (score_margin detection) (minimum_score_margin (dt_config dt))
              then None
              else Some (target_in_dictionary, detection))"

fun detect_loop ::
  "(language \<times> ustr \<Rightarrow> (bool \<times> f32 detection) option) \<Rightarrow> f32 detection option \<Rightarrow> f32 detection option \<Rightarrow>
     (language \<times> ustr) list \<Rightarrow> f32 detection option" where
  "detect_loop judge dictionary_candidate statistical_candidate [] =
     (case dictionary_candidate of Some x \<Rightarrow> Some x | None \<Rightarrow> statistical_candidate)"
| "detect_loop judge dictionary_candidate statistical_candidate (reading # readings) =
     (case judge reading of
        None \<Rightarrow> detect_loop judge dictionary_candidate statistical_candidate readings
      | Some (in_dictionary, detection) \<Rightarrow>
          if in_dictionary then
            if dictionary_candidate \<noteq> None then None
            else detect_loop judge (Some detection) statistical_candidate readings
          else
            if statistical_candidate \<noteq> None then None
            else detect_loop judge dictionary_candidate (Some detection) readings)"

definition detect_mapped_candidates ::
  "unicode \<Rightarrow> detector \<Rightarrow> ustr \<Rightarrow> language \<Rightarrow> (language \<times> ustr) list \<Rightarrow> f32 detection option" where
  "detect_mapped_candidates U dt word current candidates =
     (if active_language (dt_dictionaries dt) current = None then None
      else if length word = 1 then
        if \<not> single_letter_words (dt_config dt) then None
        else detect_single_letter U dt word current candidates
      else if length word < minimum_word_characters (dt_config dt) then None
      else if contains_pack U (dt_word_exclusions dt) current word then None
      else if accepts_word U dt current word \<and> source_is_known U dt word current then None
      else
        let core = letter_core U dt current word in
        if core \<noteq> word \<and> knows_letter_core U dt current core then None
        else detect_loop (judge_target U dt word current (source_score_of U dt word current)) None None
               (resolve_candidates dt word current candidates))"

definition detect :: "unicode \<Rightarrow> detector \<Rightarrow> ustr \<Rightarrow> language \<Rightarrow> f32 detection option" where
  "detect U dt word current = detect_mapped_candidates U dt word current []"

section \<open>The layout model stage\<close>

text \<open>\<open>Iterator::max_by\<close> keeps the last of equal maxima.\<close>

definition confident_layout :: "f32 list \<Rightarrow> f32 \<Rightarrow> nat option" where
  "confident_layout ps threshold =
     (case foldl (\<lambda>best (i, p). case best of
              None \<Rightarrow> Some (i, p)
            | Some (j, q) \<Rightarrow> if total_le q p then Some (i, p) else Some (j, q))
            None (enumerate 0 ps) of
        None \<Rightarrow> None
      | Some (i, p) \<Rightarrow> if f_le threshold p then Some i else None)"

definition model_threshold :: "ustr \<Rightarrow> f32" where
  "model_threshold word =
     (if length word = LAYOUT_MODEL_MINIMUM_CHARACTERS then LAYOUT_MODEL_SHORT_THRESHOLD
      else LAYOUT_MODEL_THRESHOLD)"

definition model_skips :: "unicode \<Rightarrow> detector \<Rightarrow> ustr \<Rightarrow> language \<Rightarrow> bool" where
  "model_skips U dt word current \<longleftrightarrow>
     length word < LAYOUT_MODEL_MINIMUM_CHARACTERS
     \<or> contains_pack U (dt_word_exclusions dt) current word
     \<or> letter_core U dt current word \<noteq> word
     \<or> is_contraction U dt current word
     \<or> follows_known_word U dt current word
     \<or> period_between_letters U word
     \<or> (let lower = uc_lower_str U word in
        base_dictionary_contains U dt current lower
        \<or> common_short_contains U dt current lower
        \<or> contains_pack U (dt_user_dictionary dt) current word)"

definition model_texts ::
  "detector \<Rightarrow> layout_model \<Rightarrow> ustr \<Rightarrow> language \<Rightarrow> (language \<times> ustr) list \<Rightarrow> ustr option list" where
  "model_texts dt m word current candidates =
     map (\<lambda>l.
       if l = current then Some word
       else if active_language (dt_dictionaries dt) l = None then None
       else map_option snd (find (\<lambda>(c, _). c = l) candidates))
     (lm_languages m)"

definition model_features ::
  "unicode \<Rightarrow> detector \<Rightarrow> layout_model \<Rightarrow> ustr option list \<Rightarrow> candidate option list" where
  "model_features U dt m texts =
     map2 (\<lambda>t l. map_option (\<lambda>t.
         \<lparr>ca_text = t, ca_in_dictionary = base_dictionary_contains U dt l (uc_lower_str U t),
          ca_in_short_list = common_short_contains U dt l (uc_lower_str U t)\<rparr>) t)
       texts (lm_languages m)"

definition detect_with_layout_model ::
  "(f32 \<Rightarrow> f32) \<Rightarrow> unicode \<Rightarrow> detector \<Rightarrow> ustr \<Rightarrow> language \<Rightarrow> (language \<times> ustr) list \<Rightarrow> language list \<Rightarrow>
     f32 detection option" where
  "detect_with_layout_model f_exp U dt word current candidates previous =
     (case dt_layout_model dt of None \<Rightarrow> None | Some m \<Rightarrow>
      if active_language (dt_dictionaries dt) current = None \<or> model_skips U dt word current then None
      else case index_of m current of None \<Rightarrow> None | Some typed \<Rightarrow>
        let texts = model_texts dt m word current (resolve_candidates dt word current candidates) in
        case probabilities f_exp U m (model_features U dt m texts) typed previous of None \<Rightarrow> None | Some ps \<Rightarrow>
        case confident_layout ps (model_threshold word) of None \<Rightarrow> None | Some best \<Rightarrow>
        case texts ! best of None \<Rightarrow> None | Some replacement \<Rightarrow>
          let target = lm_languages m ! best in
          if best = typed \<or> replacement = word \<or> \<not> accepts_word U dt target replacement
             \<or> capital_from_punctuation U dt current word replacement
          then None
          else Some \<lparr>de_source_language = current, de_target_language = target, de_original = word,
                 de_replacement = replacement, de_source_score = detector_score U dt word current,
                 de_target_score = detector_score U dt replacement target\<rparr>)"

definition detect_mapped_candidates_in_context ::
  "(f32 \<Rightarrow> f32) \<Rightarrow> unicode \<Rightarrow> detector \<Rightarrow> ustr \<Rightarrow> language \<Rightarrow> (language \<times> ustr) list \<Rightarrow> language list \<Rightarrow>
     f32 detection option" where
  "detect_mapped_candidates_in_context f_exp U dt word current candidates previous =
     (case detect_mapped_candidates U dt word current candidates of
        Some x \<Rightarrow> Some x
      | None \<Rightarrow> detect_with_layout_model f_exp U dt word current candidates previous)"

section \<open>Ranking for the hotkey\<close>

text \<open>\<open>sort_by\<close> is stable; the comparison is reversed, so the highest score comes first.\<close>

fun insert_ranked :: "'a \<times> f32 \<Rightarrow> ('a \<times> f32) list \<Rightarrow> ('a \<times> f32) list" where
  "insert_ranked x [] = [x]"
| "insert_ranked x (y # ys) =
     (if total_le (snd y) (snd x) then x # y # ys else y # insert_ranked x ys)"

definition rank_candidates :: "unicode \<Rightarrow> detector \<Rightarrow> (language \<times> ustr) list \<Rightarrow> language list" where
  "rank_candidates U dt readings =
     map fst (foldr insert_ranked (map (\<lambda>(l, reading). (l, detector_score U dt reading l)) readings) [])"

section \<open>Readings come from the packs that take part\<close>

lemma take_candidates_ok:
  "fst ` set resolved \<subseteq> set (automatic_targets dt current) \<Longrightarrow> distinct (map fst resolved) \<Longrightarrow>
     fst ` set (take_candidates dt current resolved cs) \<subseteq> set (automatic_targets dt current)
     \<and> distinct (map fst (take_candidates dt current resolved cs))"
  by (induction dt current resolved cs rule: take_candidates.induct) auto

lemma add_transposed_ok:
  "fst ` set resolved \<subseteq> T \<Longrightarrow> distinct (map fst resolved) \<Longrightarrow> set ts \<subseteq> T \<Longrightarrow>
     fst ` set (add_transposed dt word current resolved ts) \<subseteq> T
     \<and> distinct (map fst (add_transposed dt word current resolved ts))"
  by (induction dt word current resolved ts rule: add_transposed.induct)
    (auto split: option.splits)

lemma resolve_candidates_ok:
  "fst ` set (resolve_candidates dt word current cs) \<subseteq> set (automatic_targets dt current)
   \<and> distinct (map fst (resolve_candidates dt word current cs))"
  unfolding resolve_candidates_def
  using take_candidates_ok [of "[]" dt current cs] by (intro add_transposed_ok) auto

lemma resolve_candidates_target:
  "(target, r) \<in> set (resolve_candidates dt word current cs) \<Longrightarrow> target \<in> set (automatic_targets dt current)"
  using resolve_candidates_ok [of dt word current cs] by force

lemma automatic_targets_other: "target \<in> set (automatic_targets dt current) \<Longrightarrow> target \<noteq> current"
  by (simp add: automatic_targets_def)

section \<open>One plausible reading, or none\<close>

text \<open>The reference: the plausible readings by tier. More than one in either tier decides
  nothing; a dictionary reading is preferred.\<close>

definition unique_detection :: "(bool \<times> f32 detection) list \<Rightarrow> f32 detection option" where
  "unique_detection plausible =
     (let ds = map snd (filter fst plausible); ss = map snd (filter (\<lambda>v. \<not> fst v) plausible)
      in if 1 < length ds \<or> 1 < length ss then None
         else case ds @ ss of [] \<Rightarrow> None | x # _ \<Rightarrow> Some x)"

definition pending_candidates ::
  "f32 detection option \<Rightarrow> f32 detection option \<Rightarrow> (bool \<times> f32 detection) list" where
  "pending_candidates dc sc =
     (case dc of None \<Rightarrow> [] | Some x \<Rightarrow> [(True, x)]) @ (case sc of None \<Rightarrow> [] | Some x \<Rightarrow> [(False, x)])"

lemma unique_detection_perm:
  "filter fst vs = filter fst ws \<Longrightarrow> filter (\<lambda>v. \<not> fst v) vs = filter (\<lambda>v. \<not> fst v) ws \<Longrightarrow>
     unique_detection vs = unique_detection ws"
  by (simp add: unique_detection_def)

lemma unique_detection_two:
  "1 < length (filter fst vs) \<or> 1 < length (filter (\<lambda>v. \<not> fst v) vs) \<Longrightarrow> unique_detection vs = None"
  by (auto simp: unique_detection_def)

lemma detect_loop_unique:
  "detect_loop judge dc sc rs = unique_detection (pending_candidates dc sc @ List.map_filter judge rs)"
proof (induction rs arbitrary: dc sc)
  case Nil
  show ?case by (cases dc; cases sc) (simp_all add: unique_detection_def pending_candidates_def)
next
  case (Cons r rs)
  show ?case
  proof (cases "judge r")
    case None
    then show ?thesis by (simp add: Cons.IH map_filter_simps)
  next
    case (Some v)
    obtain b x where v: "v = (b, x)" by (cases v)
    show ?thesis
    proof (cases "if b then dc = None else sc = None")
      case True
      have "detect_loop judge dc sc (r # rs)
          = unique_detection (pending_candidates (if b then Some x else dc) (if b then sc else Some x)
              @ List.map_filter judge rs)"
        using True Some v by (simp add: Cons.IH)
      also have "\<dots> = unique_detection (pending_candidates dc sc @ List.map_filter judge (r # rs))"
        using True Some v
        by (intro unique_detection_perm)
          (auto simp: pending_candidates_def map_filter_simps split: option.splits if_splits)
      finally show ?thesis .
    next
      case False
      then have "detect_loop judge dc sc (r # rs) = None" using Some v by (auto split: if_splits)
      moreover have "unique_detection (pending_candidates dc sc @ List.map_filter judge (r # rs)) = None"
        using False Some v
        by (intro unique_detection_two)
          (auto simp: pending_candidates_def map_filter_simps split: if_splits)
      ultimately show ?thesis by simp
    qed
  qed
qed

text \<open>C27. The dictionary stage decides exactly when one reading is plausible: its loop over the
  readings, with its early returns, computes the reference that collects all plausible readings,
  gives up when either tier holds two, and prefers the dictionary tier. So the order in which the
  layouts are tried can never let one of two plausible readings win.\<close>

theorem dictionary_stage_unique:
  "detect_loop (judge_target U dt word current score) None None (resolve_candidates dt word current candidates)
   = unique_detection (List.map_filter (judge_target U dt word current score)
       (resolve_candidates dt word current candidates))"
  by (simp add: detect_loop_unique pending_candidates_def)

section \<open>What a detection guarantees\<close>

lemma unique_detection_in:
  assumes "unique_detection vs = Some x"
  shows "\<exists>b. (b, x) \<in> set vs"
proof -
  let ?all = "map snd (filter fst vs) @ map snd (filter (\<lambda>v. \<not> fst v) vs)"
  obtain xs where "?all = x # xs"
    using assms unfolding unique_detection_def Let_def by (cases ?all) (simp_all split: if_splits)
  then have "x \<in> set ?all" by (simp only: list.set_intros)
  then show ?thesis by auto
qed

lemma map_filter_in: "y \<in> set (List.map_filter f xs) \<Longrightarrow> \<exists>x \<in> set xs. f x = Some y"
  by (auto simp: List.map_filter_def)

lemma detect_loop_in:
  "detect_loop judge None None rs = Some x \<Longrightarrow> \<exists>r \<in> set rs. \<exists>b. judge r = Some (b, x)"
  unfolding detect_loop_unique
  by (auto simp: pending_candidates_def dest!: unique_detection_in map_filter_in)

lemma judge_target_Some:
  assumes "judge_target U dt word current score (target, r) = Some (b, x)"
  shows "de_source_language x = current \<and> de_target_language x = target \<and> de_original x = word
    \<and> de_replacement x = r \<and> accepts_word U dt target r \<and> target \<noteq> current
    \<and> (length word < MINIMUM_STATISTICAL_CHARACTERS \<longrightarrow> listed_short U dt target r)
    \<and> (dictionary_contains U dt target r
       \<or> accepts_word U dt current word
         \<and> (\<exists>m. active_model dt target = Some m \<and> allows_statistical_targets m))
    \<and> \<not> f_less (de_target_score x) (minimum_target_score (dt_config dt))
    \<and> \<not> f_less (score_margin x) (minimum_score_margin (dt_config dt))"
  using assms
  by (auto simp: judge_target_def Let_def listed_short_def split: if_splits option.splits)

lemma single_letter_loop_in:
  "single_letter_loop U dt word current score chosen rs = Some x \<Longrightarrow>
     chosen = Some x
     \<or> (\<exists>(target, r) \<in> set rs. single_letter_target U dt word current target r
          \<and> de_source_language x = current \<and> de_target_language x = target \<and> de_original x = word
          \<and> de_replacement x = r)"
  by (induction U dt word current score chosen rs rule: single_letter_loop.induct)
    (auto split: if_splits)

lemma detection_sound_facts:
  assumes "detect_mapped_candidates U dt word current candidates = Some x"
  shows "de_source_language x = current \<and> de_original x = word
    \<and> de_target_language x \<in> set (automatic_targets dt current) \<and> de_target_language x \<noteq> current
    \<and> accepts_word U dt (de_target_language x) (de_replacement x)
    \<and> (length word < MINIMUM_STATISTICAL_CHARACTERS \<longrightarrow>
         listed_short U dt (de_target_language x) (de_replacement x))
    \<and> (dictionary_contains U dt (de_target_language x) (de_replacement x)
       \<or> accepts_word U dt current word
         \<and> (\<exists>m. active_model dt (de_target_language x) = Some m \<and> allows_statistical_targets m))
    \<and> (length word \<noteq> 1 \<longrightarrow>
         \<not> f_less (de_target_score x) (minimum_target_score (dt_config dt))
         \<and> \<not> f_less (score_margin x) (minimum_score_margin (dt_config dt)))"
proof (cases "length word = 1")
  case True
  then have "single_letter_loop U dt word current (detector_score U dt word current) None
      (resolve_candidates dt word current candidates) = Some x"
    using assms by (auto simp: detect_mapped_candidates_def detect_single_letter_def split: if_splits)
  then obtain target r where r: "(target, r) \<in> set (resolve_candidates dt word current candidates)"
    and t: "single_letter_target U dt word current target r"
    and x: "de_source_language x = current" "de_target_language x = target" "de_original x = word"
      "de_replacement x = r"
    using single_letter_loop_in by fastforce
  have "dictionary_contains U dt target r" "listed_short U dt target r" "accepts_word U dt target r"
    using t by (auto simp: single_letter_target_def listed_short_def dictionary_contains_def)
  then show ?thesis
    using True x resolve_candidates_target [OF r] automatic_targets_other by auto
next
  case False
  then have "detect_loop (judge_target U dt word current (source_score_of U dt word current)) None None
      (resolve_candidates dt word current candidates) = Some x"
    using assms by (auto simp: detect_mapped_candidates_def Let_def split: if_splits)
  then obtain target r b where r: "(target, r) \<in> set (resolve_candidates dt word current candidates)"
    and j: "judge_target U dt word current (source_score_of U dt word current) (target, r) = Some (b, x)"
    using detect_loop_in by fastforce
  show ?thesis using judge_target_Some [OF j] resolve_candidates_target [OF r] by auto
qed

text \<open>C21. A detection of the dictionary stage is safe to act on: it converts the word that was asked
  about, from the layout it was typed in, to another layout that takes part with its exact keyboard;
  its replacement is spelled with the target's letters; a word of fewer than four characters becomes
  a listed short word or a word of the user; a longer one is a dictionary word of the target, or the
  target allows statistics and the typed letters were a possible word; and with more than one
  character the scores reach both thresholds.\<close>

theorem detection_sound:
  assumes "detect_mapped_candidates U dt word current candidates = Some x"
  shows "de_source_language x = current \<and> de_original x = word
    \<and> de_target_language x \<in> set (automatic_targets dt current) \<and> de_target_language x \<noteq> current
    \<and> accepts_word U dt (de_target_language x) (de_replacement x)
    \<and> (length word < MINIMUM_STATISTICAL_CHARACTERS \<longrightarrow>
         listed_short U dt (de_target_language x) (de_replacement x))
    \<and> (dictionary_contains U dt (de_target_language x) (de_replacement x)
       \<or> accepts_word U dt current word
         \<and> (\<exists>m. active_model dt (de_target_language x) = Some m \<and> allows_statistical_targets m))
    \<and> (length word \<noteq> 1 \<longrightarrow>
         \<not> f_less (de_target_score x) (minimum_target_score (dt_config dt))
         \<and> \<not> f_less (score_margin x) (minimum_score_margin (dt_config dt)))"
  by (rule detection_sound_facts [OF assms])

section \<open>What is never converted\<close>

lemma detect_loop_empty [simp]: "detect_loop judge None None [] = None"
  by simp

lemma model_texts_nth:
  "i < length (lm_languages m) \<Longrightarrow> model_texts dt m word current rs ! i = Some t \<Longrightarrow>
     (lm_languages m ! i = current \<and> t = word) \<or> (lm_languages m ! i, t) \<in> set rs"
  by (auto simp: model_texts_def split: if_splits dest!: find_SomeD)

lemma foldl_best:
  "foldl (\<lambda>best (i, p). case best of
        None \<Rightarrow> Some (i, p)
      | Some (j, q) \<Rightarrow> if total_le q p then Some (i, p) else Some (j, q)) best xs = Some (i, p) \<Longrightarrow>
     (Some (i, p) = best \<or> (i, p) \<in> set xs)
     \<and> (\<forall>(j, q) \<in> set xs. total_le q p) \<and> (case best of None \<Rightarrow> True | Some (j, q) \<Rightarrow> total_le q p)"
proof (induction xs arbitrary: best)
  case Nil
  then show ?case by (auto split: option.split)
next
  case (Cons x xs)
  obtain k r where x: "x = (k, r)" by (cases x)
  show ?case
  proof (cases best)
    case None
    then show ?thesis using Cons.IH [of "Some (k, r)"] Cons.prems x by auto
  next
    case (Some b)
    obtain j q where b: "b = (j, q)" by (cases b)
    show ?thesis
    proof (cases "total_le q r")
      case True
      then show ?thesis
        using Cons.IH [of "Some (k, r)"] Cons.prems x Some b total_le_trans [OF True, of p] by auto
    next
      case False
      then have "total_le r q" using total_le_linear by blast
      with False show ?thesis
        using Cons.IH [of "Some (j, q)"] Cons.prems x Some b total_le_trans [of r q p] by auto
    qed
  qed
qed

lemma confident_layout_Some:
  assumes "confident_layout ps threshold = Some i"
  shows "i < length ps \<and> f_le threshold (ps ! i) \<and> (\<forall>q \<in> set ps. total_le q (ps ! i))"
proof -
  let ?f = "\<lambda>best (i, p). case best of
        None \<Rightarrow> Some (i, p)
      | Some (j, q) \<Rightarrow> if total_le q p then Some (i, p) else Some (j, q)"
  obtain p where f: "foldl ?f None (enumerate 0 ps) = Some (i, p)" "f_le threshold p"
    using assms by (auto simp: confident_layout_def split: option.splits if_splits)
  from foldl_best [OF f(1)] have "(i, p) \<in> set (enumerate 0 ps)"
    and all: "\<forall>(j, q) \<in> set (enumerate 0 ps). total_le q p" by simp_all
  then have i: "i < length ps" "ps ! i = p" by (auto simp: in_set_enumerate_eq)
  have "total_le q p" if "q \<in> set ps" for q
  proof -
    from that obtain j where "j < length ps" "ps ! j = q" by (auto simp: in_set_conv_nth)
    then have "(j, q) \<in> set (enumerate 0 ps)" by (simp add: in_set_enumerate_eq)
    with all show ?thesis by auto
  qed
  with i f(2) show ?thesis by simp
qed

lemma detect_with_layout_model_Some:
  assumes "detect_with_layout_model e U dt word current candidates previous = Some x"
  obtains m ps best typed where "dt_layout_model dt = Some m" "\<not> model_skips U dt word current"
    "index_of m current = Some typed"
    "probabilities e U m (model_features U dt m (model_texts dt m word current
        (resolve_candidates dt word current candidates))) typed previous = Some ps"
    "confident_layout ps (model_threshold word) = Some best" "best \<noteq> typed"
    "model_texts dt m word current (resolve_candidates dt word current candidates) ! best
       = Some (de_replacement x)"
    "de_target_language x = lm_languages m ! best" "de_replacement x \<noteq> word" "de_original x = word"
    "de_source_language x = current" "accepts_word U dt (de_target_language x) (de_replacement x)"
    "\<not> capital_from_punctuation U dt current word (de_replacement x)"
  using assms
  by (fastforce simp: detect_with_layout_model_def Let_def split: option.splits if_splits)

lemma layout_model_sound_facts:
  assumes "detect_with_layout_model e U dt word current candidates previous = Some x"
  shows "de_target_language x \<in> set (automatic_targets dt current) \<and> de_source_language x = current
    \<and> de_original x = word \<and> de_replacement x \<noteq> word
    \<and> accepts_word U dt (de_target_language x) (de_replacement x)
    \<and> LAYOUT_MODEL_MINIMUM_CHARACTERS \<le> length word
    \<and> \<not> contains_pack U (dt_word_exclusions dt) current word
    \<and> \<not> contains_pack U (dt_user_dictionary dt) current word
    \<and> (\<exists>m ps best typed. dt_layout_model dt = Some m \<and> index_of m current = Some typed
         \<and> probabilities e U m (model_features U dt m (model_texts dt m word current
             (resolve_candidates dt word current candidates))) typed previous = Some ps
         \<and> best < length ps \<and> lm_languages m ! best = de_target_language x
         \<and> f_le (model_threshold word) (ps ! best) \<and> (\<forall>q \<in> set ps. total_le q (ps ! best)))"
proof -
  obtain m ps best typed where m: "dt_layout_model dt = Some m" "\<not> model_skips U dt word current"
    "index_of m current = Some typed"
    and ps: "probabilities e U m (model_features U dt m (model_texts dt m word current
        (resolve_candidates dt word current candidates))) typed previous = Some ps"
    and best: "confident_layout ps (model_threshold word) = Some best"
    and spelled: "model_texts dt m word current (resolve_candidates dt word current candidates) ! best
       = Some (de_replacement x)"
    and x: "de_target_language x = lm_languages m ! best" "de_replacement x \<noteq> word" "de_original x = word"
    "de_source_language x = current" "accepts_word U dt (de_target_language x) (de_replacement x)"
    using detect_with_layout_model_Some [OF assms] by metis
  have c: "best < length ps" "f_le (model_threshold word) (ps ! best)" "\<forall>q \<in> set ps. total_le q (ps ! best)"
    using confident_layout_Some [OF best] by simp_all
  then have "best < length (lm_languages m)" using probabilities_Some [OF ps] by simp
  then have "(lm_languages m ! best, de_replacement x) \<in> set (resolve_candidates dt word current candidates)"
    using model_texts_nth [OF _ spelled] x(2) by auto
  then have "de_target_language x \<in> set (automatic_targets dt current)"
    using resolve_candidates_target x(1) by simp
  moreover have "LAYOUT_MODEL_MINIMUM_CHARACTERS \<le> length word"
    "\<not> contains_pack U (dt_word_exclusions dt) current word"
    "\<not> contains_pack U (dt_user_dictionary dt) current word"
    using m(2) by (auto simp: model_skips_def Let_def)
  ultimately show ?thesis using m(1,3) ps c x by metis
qed


text \<open>C22. A word the user excluded, and a word the typed language knows, is never converted: neither
  by the dictionary stage nor by the layout model after it, whatever the other layouts make of its
  keys and whatever the model's weights are.\<close>

theorem known_word_never_converted:
  assumes "lowercase_laws U"
    and "contains_pack U (dt_word_exclusions dt) current word
      \<or> accepts_word U dt current word \<and> source_is_known U dt word current"
  shows "detect_mapped_candidates_in_context e U dt word current candidates previous = None"
proof -
  have "detect_mapped_candidates U dt word current candidates = None"
    using assms(2)
    by (auto simp: detect_mapped_candidates_def detect_single_letter_def source_is_known_def
        MINIMUM_STATISTICAL_CHARACTERS_def)
  moreover have "base_dictionary_contains U dt current (uc_lower_str U word) = base_dictionary_contains U dt current word"
    "common_short_contains U dt current (uc_lower_str U word) = common_short_contains U dt current word"
    using lower_idem [OF assms(1)]
    by (simp_all add: base_dictionary_contains_def common_short_contains_def pack_contains_def
        pack_common_short_contains_def split: option.split)
  then have "model_skips U dt word current"
    using assms(2)
    by (auto simp: model_skips_def Let_def source_is_known_def listed_short_def dictionary_contains_def
        split: if_splits)
  then have "detect_with_layout_model e U dt word current candidates previous = None"
    by (simp add: detect_with_layout_model_def split: option.split)
  ultimately show ?thesis by (simp add: detect_mapped_candidates_in_context_def)
qed

text \<open>Without evidence of the loaded keyboards nothing is converted: a detector whose profiles
  could not be resolved has no target and detects nothing, with or without the layout model.\<close>

theorem no_evidence_no_conversion:
  "automatic_targets (set_resolved_profiles None dt) current = []
   \<and> detect_mapped_candidates_in_context e U (set_resolved_profiles None dt) word current candidates previous = None"
proof -
  let ?dt = "set_resolved_profiles None dt"
  have "dt_resolved_input_packs ?dt = Some {}"
    by (auto simp: set_resolved_profiles_def split: option.split)
  then have none: "automatic_targets ?dt current = []"
    by (simp add: automatic_targets_def input_pack_is_eligible_def)
  have "detect_mapped_candidates_in_context e U ?dt word current candidates previous \<noteq> Some x" for x
    using detection_sound_facts [of U ?dt word current candidates x]
      layout_model_sound_facts [of e U ?dt word current candidates previous x] none
    by (auto simp: detect_mapped_candidates_in_context_def split: option.splits)
  with none show ?thesis by auto
qed

section \<open>One pack for a keyboard\<close>

lemma pack_binding_Some:
  assumes "pack_binding dictionaries choices l = Some b"
  obtains pack d r where "registry_active dictionaries l = Some pack" "dp_input_descriptor pack = Some d"
    "selections_resolve choices d = Some (binding_profile b, r)"
    "count_list (profile_claims dictionaries choices) (binding_profile b) = 1"
    "bind_conservative_profile (binding_profile b) r = Some b"
proof -
  obtain pack d p r where *: "registry_active dictionaries l = Some pack" "dp_input_descriptor pack = Some d"
    "selections_resolve choices d = Some (p, r)"
    "count_list (profile_claims dictionaries choices) p = 1" "bind_conservative_profile p r = Some b"
    using assms by (auto simp: pack_binding_def split: option.splits prod.splits if_splits)
  moreover have "binding_profile b = p" using binding_is_reviewed [OF *(5)] by simp
  ultimately show ?thesis using that by simp
qed

definition claims_of :: "dictionary_registry \<Rightarrow> input_profile_selections \<Rightarrow> pack_id \<Rightarrow> windows_keyboard_profile list" where
  "claims_of dictionaries choices l =
     (case registry_active dictionaries l of
        None \<Rightarrow> []
      | Some pack \<Rightarrow>
          (case dp_input_descriptor pack of
             None \<Rightarrow> []
           | Some d \<Rightarrow>
               filter (\<lambda>p. case selections_get choices l of None \<Rightarrow> True | Some chosen \<Rightarrow> chosen = p)
                 (map fst (descriptor_profiles d))))"

lemma profile_claims_alt:
  "profile_claims dictionaries choices = concat (map (claims_of dictionaries choices) (dr_enabled dictionaries))"
  by (simp add: profile_claims_def claims_of_def [abs_def])

lemma count_list_concat: "count_list (concat xss) p = sum_list (map (\<lambda>xs. count_list xs p) xss)"
  by (induction xss) simp_all

lemma count_two:
  assumes "distinct ls" "l1 \<in> set ls" "l2 \<in> set ls" "l1 \<noteq> l2" "p \<in> set (f l1)" "p \<in> set (f l2)"
  shows "2 \<le> count_list (concat (map f ls)) p"
proof -
  have pos: "1 \<le> count_list (f l) p" if "p \<in> set (f l)" for l
    using that count_list_0_iff [of "f l" p] by (simp add: Suc_le_eq)
  have "count_list (concat (map f ls)) p = (\<Sum>l \<in> set ls. count_list (f l) p)"
    using assms(1) by (simp add: count_list_concat sum_list_distinct_conv_sum_set comp_def)
  moreover have "(\<Sum>l \<in> {l1, l2}. count_list (f l) p) \<le> (\<Sum>l \<in> set ls. count_list (f l) p)"
    using assms(2,3) by (intro sum_mono2) auto
  moreover have "2 \<le> (\<Sum>l \<in> {l1, l2}. count_list (f l) p)"
    using assms(4) pos [OF assms(5)] pos [OF assms(6)] by simp
  ultimately show ?thesis by simp
qed

lemma pack_binding_claims:
  assumes "registry_ok dictionaries" "pack_binding dictionaries choices l = Some b"
  shows "binding_profile b \<in> set (claims_of dictionaries choices l) \<and> l \<in> set (dr_enabled dictionaries)"
proof -
  obtain pack d r where pack: "registry_active dictionaries l = Some pack" "dp_input_descriptor pack = Some d"
    and res: "selections_resolve choices d = Some (binding_profile b, r)"
    using pack_binding_Some [OF assms(2)] by metis
  then have "(l, pack) \<in> set (dr_packs dictionaries)" and l: "l \<in> set (dr_enabled dictionaries)"
    by (auto simp: registry_active_def om_lookup_def split: if_splits dest: map_of_SomeD)
  then have d: "descriptor_pack_id d = l"
    using assms(1) pack(2) by (auto simp: registry_ok_def list_all_iff)
  have "binding_profile b \<in> fst ` set (descriptor_profiles d)
      \<and> (case selections_get choices l of None \<Rightarrow> True | Some chosen \<Rightarrow> chosen = binding_profile b)"
    using res d
    by (auto simp: selections_resolve_def descriptor_profile_def om_lookup_def image_iff
        split: option.splits list.splits dest!: map_of_SomeD intro: bexI [rotated])
  then show ?thesis using pack l by (simp add: claims_of_def)
qed

lemma bindings_in:
  "(l, b) \<in> set (dt_input_bindings (with_profile_selections config dictionaries choices)) \<Longrightarrow>
     pack_binding dictionaries choices l = Some b"
  by (auto simp: with_profile_selections_def List.map_filter_def)

text \<open>No keyboard is shared: in the detector built from any well-formed registry and any user
  choices, two packs never hold the same keyboard profile, every bound profile is one of the three
  this program implements, and the bound pack is selected, installed and carries a scoring model.\<close>

theorem one_pack_per_keyboard:
  assumes "registry_ok dictionaries"
    and "(l, b) \<in> set (dt_input_bindings (with_profile_selections config dictionaries choices))"
    and "(l', b') \<in> set (dt_input_bindings (with_profile_selections config dictionaries choices))"
    and "binding_profile b = binding_profile b'"
  shows "l = l' \<and> binding_profile b \<in> {US_KEYBOARD, RU_KEYBOARD, ET_KEYBOARD}
    \<and> (\<exists>pack. active_language dictionaries l = Some pack \<and> dp_model pack \<noteq> None)"
proof -
  have b: "pack_binding dictionaries choices l = Some b" "pack_binding dictionaries choices l' = Some b'"
    using assms(2,3) by (simp_all add: bindings_in)
  obtain r where one: "count_list (profile_claims dictionaries choices) (binding_profile b) = 1"
    and bind: "bind_conservative_profile (binding_profile b) r = Some b"
    using pack_binding_Some [OF b(1)] by metis
  have "distinct (dr_enabled dictionaries)"
    using assms(1) by (auto simp: registry_ok_def strict_sorted_iff)
  moreover note pack_binding_claims [OF assms(1) b(1)] pack_binding_claims [OF assms(1) b(2)]
  ultimately have "2 \<le> count_list (profile_claims dictionaries choices) (binding_profile b)" if "l \<noteq> l'"
    unfolding profile_claims_alt using that assms(4) by (intro count_two) auto
  with one have "l = l'" by fastforce
  moreover have "\<exists>pack. active_language dictionaries l = Some pack \<and> dp_model pack \<noteq> None"
    using b(1) by (auto simp: pack_binding_def active_language_def split: option.splits)
  ultimately show ?thesis using binding_is_reviewed [OF bind] by simp
qed

section \<open>Ranking\<close>

lemma insert_ranked_mset: "mset (insert_ranked x ys) = add_mset x (mset ys)"
  by (induction x ys rule: insert_ranked.induct) auto

lemma insert_ranked_sorted:
  "sorted_wrt (\<lambda>x y. total_le (snd y) (snd x)) ys \<Longrightarrow>
     sorted_wrt (\<lambda>x y. total_le (snd y) (snd x)) (insert_ranked x ys)"
proof (induction x ys rule: insert_ranked.induct)
  case (2 x y ys)
  have "set (insert_ranked x ys) = insert x (set ys)"
    using insert_ranked_mset [of x ys] by (metis set_mset_add_mset_insert set_mset_mset)
  show ?case
  proof (cases "total_le (snd y) (snd x)")
    case True
    then show ?thesis using 2(2) total_le_trans [of _ "snd y" "snd x"] by auto
  next
    case False
    then have "total_le (snd x) (snd y)" using total_le_linear by blast
    with False 2(1) [OF False] 2(2) \<open>set (insert_ranked x ys) = insert x (set ys)\<close> show ?thesis by simp
  qed
qed simp

lemma total_le_antisym: "total_le x y \<Longrightarrow> total_le y x \<Longrightarrow> x = y"
  by (cases x; cases y) (auto simp: total_le_def)

lemma insert_ranked_stable:
  "sorted_wrt (\<lambda>x y. total_le (snd y) (snd x)) ys \<Longrightarrow>
     filter (\<lambda>e. snd e = s) (insert_ranked x ys) = filter (\<lambda>e. snd e = s) (x # ys)"
  by (induction x ys rule: insert_ranked.induct) auto

text \<open>The order in which the hotkey tries the layouts: the ranking is a rearrangement of the
  readings, highest score first, and readings with equal scores keep the order they were given
  in.\<close>

theorem rank_candidates_ordered:
  "\<exists>ranked. rank_candidates U dt readings = map fst ranked
     \<and> mset ranked = mset (map (\<lambda>(l, reading). (l, detector_score U dt reading l)) readings)
     \<and> sorted_wrt (\<lambda>x y. total_le (snd y) (snd x)) ranked
     \<and> (\<forall>s. filter (\<lambda>e. snd e = s) ranked
          = filter (\<lambda>e. snd e = s) (map (\<lambda>(l, reading). (l, detector_score U dt reading l)) readings))"
proof -
  have "mset (foldr insert_ranked xs []) = mset xs
      \<and> sorted_wrt (\<lambda>x y. total_le (snd y) (snd x)) (foldr insert_ranked xs [])
      \<and> (\<forall>s. filter (\<lambda>e. snd e = s) (foldr insert_ranked xs []) = filter (\<lambda>e. snd e = s) xs)"
    for xs :: "(language \<times> f32) list"
    by (induction xs) (simp_all add: insert_ranked_mset insert_ranked_sorted insert_ranked_stable)
  then show ?thesis unfolding rank_candidates_def by blast
qed

section \<open>A concrete detector\<close>

definition letters_model :: "uchar \<Rightarrow> uchar \<Rightarrow> scoring_model" where
  "letters_model s e = \<lparr>sm_ranges = [(s, e)], sm_letters = {}, sm_marks = {}, sm_vowels = {},
     sm_bigrams = {}, sm_trigrams = {}, sm_rare = [],
     sm_policy = \<lparr>sp_bigrams = False, sp_trigrams = False, sp_vowels = False, sp_statistical_targets = False\<rparr>\<rparr>"

definition ru_descriptor :: input_pack_descriptor where
  "ru_descriptor = \<lparr>descriptor_pack_id = Russian,
     descriptor_profiles = [(RU_KEYBOARD, \<lparr>required_capabilities = {lit ''physical-key-v1''}\<rparr>)]\<rparr>"

definition privet :: ustr where
  "privet = [0x43f, 0x440, 0x438, 0x432, 0x435, 0x442]"

definition en_pack :: dictionary_pack where
  "en_pack = \<lparr>dp_id = English, dp_model = Some (letters_model 97 122), dp_input_descriptor = Some us_descriptor,
     dp_words = (\<lambda>w. w = lit ''hello''), dp_common_short = (\<lambda>w. w = lit ''hi'')\<rparr>"

definition ru_pack :: dictionary_pack where
  "ru_pack = \<lparr>dp_id = Russian, dp_model = Some (letters_model 0x430 0x44f), dp_input_descriptor = Some ru_descriptor,
     dp_words = (\<lambda>w. w = privet), dp_common_short = (\<lambda>_. False)\<rparr>"

definition sample_registry :: dictionary_registry where
  "sample_registry = \<lparr>dr_packs = [(English, en_pack), (Russian, ru_pack)], dr_enabled = [English, Russian]\<rparr>"

definition sample_detector :: detector where
  "sample_detector = with_profile_selections detector_config_default sample_registry []"

lemma english_before_russian: "English < Russian"
  by (simp add: less_pack_id_def language_defs)

lemma sample_registry_ok: "registry_ok sample_registry"
  by (simp add: registry_ok_def sample_registry_def om_sorted_def english_before_russian
      en_pack_def ru_pack_def us_descriptor_def ru_descriptor_def)

lemma keyboards_distinct [simp]:
  "US_KEYBOARD \<noteq> RU_KEYBOARD" "RU_KEYBOARD \<noteq> US_KEYBOARD"
  "US_KEYBOARD \<noteq> ET_KEYBOARD" "RU_KEYBOARD \<noteq> ET_KEYBOARD"
  by (simp_all add: US_KEYBOARD_def RU_KEYBOARD_def ET_KEYBOARD_def)

definition plain_binding :: "windows_keyboard_profile \<Rightarrow> input_binding" where
  "plain_binding p = \<lparr>binding_profile = p, binding_scope = ConservativePhysicalKeys\<rparr>"

lemma bind_plain:
  "p \<in> {US_KEYBOARD, RU_KEYBOARD, ET_KEYBOARD} \<Longrightarrow>
     bind_conservative_profile p \<lparr>required_capabilities = {lit ''physical-key-v1''}\<rparr> = Some (plain_binding p)"
proof -
  assume p: "p \<in> {US_KEYBOARD, RU_KEYBOARD, ET_KEYBOARD}"
  have "Set.filter (\<lambda>c. c \<notin> {lit ''physical-key-v1''}) {lit ''physical-key-v1''} = {}" by auto
  then show ?thesis
    using p by (simp add: bind_conservative_profile_def assess_profile_implementation_def plain_binding_def
        del: lit_simps)
qed

lemma sample_active [simp]:
  "registry_active sample_registry English = Some en_pack"
  "registry_active sample_registry Russian = Some ru_pack"
  by (simp_all add: registry_active_def sample_registry_def om_lookup_def)

lemma sample_bindings:
  "dt_input_bindings sample_detector = [(English, plain_binding US_KEYBOARD), (Russian, plain_binding RU_KEYBOARD)]"
proof -
  have claims: "profile_claims sample_registry [] = [US_KEYBOARD, RU_KEYBOARD]"
    by (simp add: profile_claims_alt claims_of_def selections_get_def om_lookup_def)
      (simp add: sample_registry_def claims_of_def en_pack_def ru_pack_def us_descriptor_def ru_descriptor_def
        registry_active_def om_lookup_def selections_get_def)
  have "pack_binding sample_registry [] English = Some (plain_binding US_KEYBOARD)"
    "pack_binding sample_registry [] Russian = Some (plain_binding RU_KEYBOARD)"
    by (simp_all add: pack_binding_def claims selections_resolve_def selections_get_def om_lookup_def bind_plain
        en_pack_def ru_pack_def us_descriptor_def ru_descriptor_def del: lit_simps)
  then show ?thesis
    by (simp add: sample_detector_def with_profile_selections_def map_filter_simps)
      (simp add: sample_registry_def map_filter_simps)
qed

lemma sample_detector_fields [simp]:
  "dt_dictionaries sample_detector = sample_registry" "dt_config sample_detector = detector_config_default"
  "dt_resolved_input_packs sample_detector = None" "dt_layout_model sample_detector = None"
  "contains_pack U (dt_user_dictionary sample_detector) l w = False"
  "contains_pack U (dt_word_exclusions sample_detector) l w = False"
  by (simp_all add: sample_detector_def with_profile_selections_def user_lexicon_default_def
      contains_pack_def om_lookup_def)

lemma sample_models [simp]:
  "active_language sample_registry English = Some en_pack"
  "active_language sample_registry Russian = Some ru_pack"
  "active_model sample_detector English = Some (letters_model 97 122)"
  "active_model sample_detector Russian = Some (letters_model 0x430 0x44f)"
  by (simp_all add: active_model_def active_language_def) (simp_all add: en_pack_def ru_pack_def)

lemma letters_model_accepts [simp]: "model_accepts (letters_model s e) c \<longleftrightarrow> s \<le> c \<and> c \<le> e"
  by (simp add: letters_model_def model_accepts_def)

lemma letters_model_marks [simp]: "c \<notin> sm_marks (letters_model s e)"
  by (simp add: letters_model_def)

definition ghbdtn :: ustr where "ghbdtn = lit ''ghbdtn''"

lemma sample_words:
  "accepts_word ascii_tables sample_detector English ghbdtn"
  "accepts_word ascii_tables sample_detector Russian privet"
  "dictionary_contains ascii_tables sample_detector Russian privet"
  "\<not> dictionary_contains ascii_tables sample_detector English ghbdtn"
  "letter_core ascii_tables sample_detector English ghbdtn = ghbdtn"
  by (simp_all add: accepts_word_def dictionary_contains_def base_dictionary_contains_def
      common_short_contains_def pack_contains_def pack_common_short_contains_def letter_core_def
      accepts_character_def trim_matches_def ghbdtn_def privet_def ascii_defs)
    (simp_all add: en_pack_def ru_pack_def privet_def)

lemma sample_scores:
  "detector_score ascii_tables sample_detector privet Russian = FFin (35 / 2)"
  "detector_score ascii_tables sample_detector ghbdtn English = FFin (15 / 2)"
proof -
  have "f_mul (f_of_nat 6) (FFin (5 / 4)) = FFin (15 / 2)" by code_simp
  moreover have "f_add (FFin (15 / 2)) (FFin 10) = FFin (35 / 2)" by code_simp
  moreover have "map to_ascii_lowercase privet = privet" "map to_ascii_lowercase ghbdtn = ghbdtn"
    by (simp_all add: privet_def ghbdtn_def ascii_defs)
  moreover have "model_accepts_word (letters_model 0x430 0x44f) privet" "model_accepts_word (letters_model 97 122) ghbdtn"
    by (simp_all add: privet_def ghbdtn_def)
  moreover have "privet \<noteq> []" "ghbdtn \<noteq> []" "length privet = 6" "length ghbdtn = 6"
    "ghbdtn \<noteq> lit ''hello''" "ghbdtn \<noteq> lit ''hi''"
    by (simp_all add: privet_def ghbdtn_def)
  moreover have "\<not> contains_pack ascii_tables (dt_user_dictionary sample_detector) l w" for l w by simp
  ultimately show
    "detector_score ascii_tables sample_detector privet Russian = FFin (35 / 2)"
    "detector_score ascii_tables sample_detector ghbdtn English = FFin (15 / 2)"
    by (simp_all add: detector_score_def score_word_def pack_contains_def pack_common_short_contains_def
        DICTIONARY_SCORE_BONUS_def Let_def ru_pack_def en_pack_def uses_bigrams_def uses_trigrams_def
        uses_vowels_def letters_model_def del: letters_model_accepts lit_simps sample_detector_fields(5))
qed

lemma sample_resolved_reading:
  "resolve_candidates sample_detector ghbdtn English [] = [(Russian, privet)]"
proof -
  have "automatic_targets sample_detector English = [Russian]"
    by (simp add: automatic_targets_def sample_bindings input_pack_is_eligible_def binding_of_def om_lookup_def)
  moreover have "binding_transpose_word (plain_binding US_KEYBOARD) ghbdtn (plain_binding RU_KEYBOARD) = Some privet"
    by (simp add: binding_transpose_word_def offline_layout_def plain_binding_def transpose_word_def
        transpose_character_def layout_tables ghbdtn_def privet_def)
  ultimately show ?thesis
    by (simp add: resolve_candidates_def binding_of_def sample_bindings om_lookup_def)
qed

definition sample_detection :: "f32 detection" where
  "sample_detection = \<lparr>de_source_language = English, de_target_language = Russian, de_original = ghbdtn,
     de_replacement = privet, de_source_score = FFin (15 / 2), de_target_score = FFin (35 / 2)\<rparr>"

lemma sample_detected:
  "detect_mapped_candidates ascii_tables sample_detector ghbdtn English [] = Some sample_detection"
proof -
  have six: "length ghbdtn = 6" by (simp add: ghbdtn_def)
  have margin: "\<not> f_less (f_sub (FFin (35 / 2)) (FFin (15 / 2))) (FFin 5)" by code_simp
  have "judge_target ascii_tables sample_detector ghbdtn English (FFin (15 / 2)) (Russian, privet)
      = Some (True, sample_detection)"
    using margin six
    by (simp add: judge_target_def Let_def sample_words sample_scores MINIMUM_STATISTICAL_CHARACTERS_def
        sample_detection_def score_margin_def detector_config_default_def)
  moreover have "source_score_of ascii_tables sample_detector ghbdtn English = FFin (15 / 2)"
    using six by (simp add: source_score_of_def sample_scores MINIMUM_STATISTICAL_CHARACTERS_def)
  moreover have "\<not> source_is_known ascii_tables sample_detector ghbdtn English"
    using six by (simp add: source_is_known_def sample_words MINIMUM_STATISTICAL_CHARACTERS_def)
  ultimately show ?thesis
    using six by (simp add: detect_mapped_candidates_def sample_words sample_resolved_reading
        detector_config_default_def)
qed

lemma detection_sound_witness:
  "de_source_language sample_detection = English \<and> de_original sample_detection = ghbdtn
    \<and> de_target_language sample_detection \<in> set (automatic_targets sample_detector English)
    \<and> de_target_language sample_detection \<noteq> English
    \<and> accepts_word ascii_tables sample_detector (de_target_language sample_detection) (de_replacement sample_detection)
    \<and> (dictionary_contains ascii_tables sample_detector (de_target_language sample_detection) (de_replacement sample_detection)
       \<or> accepts_word ascii_tables sample_detector English ghbdtn
         \<and> (\<exists>m. active_model sample_detector (de_target_language sample_detection) = Some m
              \<and> allows_statistical_targets m))
    \<and> \<not> f_less (de_target_score sample_detection) (minimum_target_score (dt_config sample_detector))
    \<and> \<not> f_less (score_margin sample_detection) (minimum_score_margin (dt_config sample_detector))"
proof -
  have "length ghbdtn \<noteq> 1"
    by (simp add: ghbdtn_def)
  then show ?thesis
    using detection_sound [OF sample_detected] by blast
qed

lemma known_word_never_converted_witness:
  "detect_mapped_candidates_in_context (\<lambda>x. x) ascii_tables sample_detector (lit ''hello'') English
     [(Russian, privet)] [] = None"
proof (rule known_word_never_converted [OF ascii_tables_lowercase disjI2])
  show "accepts_word ascii_tables sample_detector English (lit ''hello'')
      \<and> source_is_known ascii_tables sample_detector (lit ''hello'') English"
    by (simp add: accepts_word_def source_is_known_def dictionary_contains_def base_dictionary_contains_def
        pack_contains_def MINIMUM_STATISTICAL_CHARACTERS_def ascii_defs)
      (simp add: en_pack_def)
qed

lemma one_pack_per_keyboard_witness:
  "Russian = Russian \<and> binding_profile (plain_binding RU_KEYBOARD) \<in> {US_KEYBOARD, RU_KEYBOARD, ET_KEYBOARD}
    \<and> (\<exists>pack. active_language sample_registry Russian = Some pack \<and> dp_model pack \<noteq> None)"
  by (rule one_pack_per_keyboard [OF sample_registry_ok, of _ _ detector_config_default "[]"])
    (simp_all add: sample_detector_def [symmetric] sample_bindings)

text \<open>A model that is certain of Russian: the one hidden unit reads the position of the layout.\<close>

definition biased_model :: layout_model where
  "biased_model = sample_layout_model\<lparr>
     lm_hidden_weight := (replicate 10 (FFin 0))[7 := FFin 1], lm_output_weight := [FFin 1]\<rparr>"

definition step_exp :: "f32 \<Rightarrow> f32" where
  "step_exp x = (if x = FFin 0 then FFin 1 else FFin 0)"

definition model_detector :: detector where
  "model_detector = set_layout_model (Some biased_model) sample_detector"

lemma biased_fields [simp]:
  "lm_languages biased_model = [English, Russian]" "lm_dim biased_model = 1" "lm_hidden biased_model = 1"
  "lm_buckets biased_model = 1" "lm_max_ngrams biased_model = 1" "lm_context biased_model = 0"
  "lm_scales biased_model = [FFin 0]" "lm_embeddings biased_model = [0]" "lm_hidden_bias biased_model = [FFin 0]"
  "lm_output_weight biased_model = [FFin 1]" "lm_output_bias biased_model = FFin 0"
  "model_width biased_model = 10"
  by (simp_all add: biased_model_def sample_layout_model_def model_width_def dense_width_def)

lemma biased_mean: "embedding_mean biased_model (ngram_ids U biased_model i w) = [FFin 0]"
proof -
  let ?ids = "ngram_ids U biased_model i w"
  have "length ?ids \<le> 1" by (simp add: ngram_ids_def Let_def)
  moreover have "\<forall>x \<in> set ?ids. x = 0"
    by (auto simp: ngram_ids_def Let_def ngram_id_def dest!: in_set_takeD)
  ultimately have ids: "?ids = [] \<or> ?ids = [0]" by (cases ?ids) auto
  show ?thesis
    using ids by (elim disjE) (simp_all add: embedding_mean_def embedding_row_def f_of_nat_def)
qed

lemma sample_logits:
  assumes "length ctx = 2" "ctx = [FFin 0, FFin 0]"
  shows "logit_of biased_model (features_of U biased_model 0 word ctx 0 ca) = FFin 0"
    and "logit_of biased_model (features_of U biased_model 0 word ctx 1 ca) = FFin 1"
proof -
  have weights: "lm_hidden_weight biased_model = [FFin 0, FFin 0, FFin 0, FFin 0, FFin 0, FFin 0, FFin 0,
      FFin 1, FFin 0, FFin 0]"
    by (simp add: biased_model_def numeral_eq_Suc)
  have bit: "f_mul (FFin 0) (f_of_bool b) = FFin 0" for b by (simp add: f_of_bool_def)
  have two: "replicate 2 x = [x, x]" for x :: f32 by (simp add: numeral_2_eq_2)
  show "logit_of biased_model (features_of U biased_model 0 word ctx 0 ca) = FFin 0"
    "logit_of biased_model (features_of U biased_model 0 word ctx 1 ca) = FFin 1"
    unfolding logit_of_def hidden_unit_def features_of_def dense_features_def biased_mean
    using assms(2)
    by (simp_all add: weights dot_def f_sum_def f_max_def two bit)
qed

lemma sample_probabilities:
  "probabilities step_exp U biased_model [Some a, Some b] 0 [] = Some [FFin 0, FFin 1]"
proof -
  have two: "replicate 2 x = [x, x]" for x :: f32 by (simp add: numeral_2_eq_2)
  have "softmax step_exp [FFin 0, FFin 1] = Some [FFin 0, FFin 1]"
    by (simp add: softmax_def f_max_def step_exp_def f_sub_def Let_def)
  then show ?thesis
    using sample_logits [of "[FFin 0, FFin 0]"]
    by (simp add: probabilities_def Let_def two)
qed

lemma model_detector_fields:
  "dt_layout_model model_detector = Some biased_model"
  "resolve_candidates model_detector w l cs = resolve_candidates sample_detector w l cs"
  "accepts_word U model_detector l w = accepts_word U sample_detector l w"
  "accepts_character U model_detector l c = accepts_character U sample_detector l c"
  "active_language (dt_dictionaries model_detector) l = active_language sample_registry l"
  "contains_pack U (dt_word_exclusions model_detector) l w = False"
  "contains_pack U (dt_user_dictionary model_detector) l w = False"
  "base_dictionary_contains U model_detector l w = base_dictionary_contains U sample_detector l w"
  "common_short_contains U model_detector l w = common_short_contains U sample_detector l w"
proof -
  have t: "automatic_targets model_detector l = automatic_targets sample_detector l"
    "binding_of model_detector l = binding_of sample_detector l" for l
    by (simp_all add: model_detector_def set_layout_model_def automatic_targets_def binding_of_def
        input_pack_is_eligible_def)
  have "take_candidates model_detector l rs cs = take_candidates sample_detector l rs cs" for rs
    by (induction cs arbitrary: rs) (auto simp: t)
  moreover have "add_transposed model_detector w l rs ts = add_transposed sample_detector w l rs ts" for rs ts
    by (induction ts arbitrary: rs) (auto simp: t split: option.split)
  ultimately show "resolve_candidates model_detector w l cs = resolve_candidates sample_detector w l cs"
    by (simp add: resolve_candidates_def t)
qed (simp_all add: model_detector_def set_layout_model_def accepts_word_def accepts_character_def
    active_model_def base_dictionary_contains_def common_short_contains_def
    sample_detector_def with_profile_selections_def user_lexicon_default_def contains_pack_def om_lookup_def)

definition model_detection :: "f32 detection" where
  "model_detection = \<lparr>de_source_language = English, de_target_language = Russian, de_original = ghbdtn,
     de_replacement = privet, de_source_score = detector_score ascii_tables model_detector ghbdtn English,
     de_target_score = detector_score ascii_tables model_detector privet Russian\<rparr>"

lemma sample_model_detected:
  "detect_with_layout_model step_exp ascii_tables model_detector ghbdtn English [] [] = Some model_detection"
proof -
  have word: "length ghbdtn = 6" "ascii_lower ghbdtn = ghbdtn" "split_on (\<lambda>c. c = 0x27 \<or> c = 0x2019) ghbdtn = [ghbdtn]"
    "ghbdtn \<noteq> privet"
    by (simp_all add: ghbdtn_def privet_def ascii_defs)
  have chars: "\<forall>c \<in> set ghbdtn. accepts_character ascii_tables model_detector English c"
    unfolding model_detector_fields(4) by (auto simp: accepts_character_def ghbdtn_def ascii_defs)
  have "follows_known_run ascii_tables model_detector English run w = False"
    if "\<forall>c \<in> set w. accepts_character ascii_tables model_detector English c" for run w
    using that by (induction w arbitrary: run) simp_all
  then have follows: "\<not> follows_known_word ascii_tables model_detector English ghbdtn"
    using chars by (simp add: follows_known_word_def)
  have core: "letter_core ascii_tables model_detector English ghbdtn = ghbdtn"
    unfolding letter_core_def by (rule trim_matches_clean) (auto intro!: clean_ends_all simp: chars)
  have period: "\<not> period_between_letters ascii_tables ghbdtn"
    by (simp add: period_between_letters_def ghbdtn_def is_ascii_alphabetic_def is_ascii_lowercase_def)
  have unknown: "\<not> base_dictionary_contains ascii_tables sample_detector English ghbdtn"
    "\<not> common_short_contains ascii_tables sample_detector English ghbdtn"
    using sample_words(4) by (simp_all add: dictionary_contains_def)
  have skips: "\<not> model_skips ascii_tables model_detector ghbdtn English"
    using follows core period unknown word
    by (simp add: model_skips_def is_contraction_def model_detector_fields LAYOUT_MODEL_MINIMUM_CHARACTERS_def)
  have texts: "model_texts model_detector biased_model ghbdtn English [(Russian, privet)] = [Some ghbdtn, Some privet]"
    by (simp add: model_texts_def model_detector_fields)
  have capital: "\<not> capital_from_punctuation ascii_tables model_detector English ghbdtn privet"
    by (simp add: capital_from_punctuation_def privet_def ghbdtn_def is_ascii_uppercase_def)
  have threshold: "f_le (round32 (9 / 10)) (FFin 1)" by code_simp
  have "confident_layout [FFin 0, FFin 1] (model_threshold ghbdtn) = Some 1"
    using threshold word
    by (simp add: confident_layout_def total_le_def model_threshold_def LAYOUT_MODEL_MINIMUM_CHARACTERS_def
        LAYOUT_MODEL_THRESHOLD_def)
  moreover obtain a b where
    "model_features ascii_tables model_detector biased_model [Some ghbdtn, Some privet] = [Some a, Some b]"
    by (simp add: model_features_def)
  ultimately show ?thesis
    using skips texts capital word sample_words(2)
    by (simp add: detect_with_layout_model_def model_detector_fields sample_resolved_reading index_of_def
        sample_probabilities Let_def model_detection_def)
qed

end
