(* ===== verification/Session.thy ===== *)
theory Session
  imports Detector
begin

text \<open>
  \<open>src/session.rs\<close>: the word being typed, and the suppression of conversions while what stands
  before the caret is not known. The Unicode tables and the exponential of the layout model are
  parameters, passed on to the detector.
\<close>

definition DEFAULT_MAX_WORD_CHARACTERS :: nat where "DEFAULT_MAX_WORD_CHARACTERS = 64"

datatype reset_reason =
  ResetBackspace | ResetDelete | ResetNavigation | ResetMouse | ResetFocusChanged | ResetLayoutChanged
| ResetShortcut | ResetUnsupportedInput | ResetComposition | ResetQueueOverflow

datatype input_event =
  Printable uchar | Boundary | Backspace | Delete | Navigation | Mouse | FocusChanged | LayoutChanged
| Shortcut | UnsupportedInput | QueueOverflow | Injected

datatype session_action = NoAction | Candidate "f32 detection" | Reset reset_reason

record input_session =
  current_word :: ustr
  suppressed_until_boundary :: bool
  backspace_remaining :: "nat option"
  max_word_characters :: nat
  at_line_start :: bool
  current_word_started_at_line_start :: bool
  recheck_first_word_after_erasing :: bool

definition input_session_default :: input_session where
  "input_session_default = \<lparr>current_word = [], suppressed_until_boundary = False, backspace_remaining = None,
     max_word_characters = DEFAULT_MAX_WORD_CHARACTERS, at_line_start = False,
     current_word_started_at_line_start = False, recheck_first_word_after_erasing = True\<rparr>"

fun category :: "input_event \<Rightarrow> ustr" where
  "category (Printable _) = lit ''Printable''"
| "category Boundary = lit ''Boundary''"
| "category Backspace = lit ''Backspace''"
| "category Delete = lit ''Delete''"
| "category Navigation = lit ''Navigation''"
| "category Mouse = lit ''Mouse''"
| "category FocusChanged = lit ''FocusChanged''"
| "category LayoutChanged = lit ''LayoutChanged''"
| "category Shortcut = lit ''Shortcut''"
| "category UnsupportedInput = lit ''UnsupportedInput''"
| "category QueueOverflow = lit ''QueueOverflow''"
| "category Injected = lit ''Injected''"

section \<open>Operations\<close>

definition session_reset :: "reset_reason \<Rightarrow> bool \<Rightarrow> input_session \<Rightarrow> session_action \<times> input_session" where
  "session_reset reason suppress s =
     (Reset reason,
      s\<lparr>current_word := [], suppressed_until_boundary := suppress, backspace_remaining := None,
        at_line_start := False, current_word_started_at_line_start := False\<rparr>)"

definition session_clear :: "input_session \<Rightarrow> input_session" where
  "session_clear s =
     s\<lparr>current_word := [], suppressed_until_boundary := False, backspace_remaining := None,
       at_line_start := False, current_word_started_at_line_start := False\<rparr>"

text \<open>The line start comes back when the first word of the line is erased.\<close>

definition first_word_erased :: "input_session \<Rightarrow> input_session" where
  "first_word_erased s =
     (let was_first_word = current_word_started_at_line_start s;
          s = s\<lparr>current_word_started_at_line_start := False\<rparr>
      in if was_first_word \<and> recheck_first_word_after_erasing s then s\<lparr>at_line_start := True\<rparr> else s)"

definition handle_backspace :: "input_session \<Rightarrow> session_action \<times> input_session" where
  "handle_backspace s =
     (Reset ResetBackspace,
      if suppressed_until_boundary s then
        (case backspace_remaining s of
           None \<Rightarrow> s
         | Some remaining \<Rightarrow>
             let s = s\<lparr>current_word := butlast (current_word s)\<rparr>; remaining = remaining - 1 in
             if remaining = 0 then
               first_word_erased
                 (s\<lparr>current_word := [], suppressed_until_boundary := False, backspace_remaining := None\<rparr>)
             else s\<lparr>backspace_remaining := Some remaining\<rparr>)
      else if current_word s \<noteq> [] then
        let s = s\<lparr>current_word := butlast (current_word s)\<rparr>;
            remaining = length (current_word s);
            s = s\<lparr>suppressed_until_boundary := (remaining \<noteq> 0),
                  backspace_remaining := (if remaining \<noteq> 0 then Some remaining else None)\<rparr>
        in if remaining = 0 then first_word_erased s else s
      else s\<lparr>suppressed_until_boundary := True, backspace_remaining := None\<rparr>)"

definition finish_boundary ::
  "(f32 \<Rightarrow> f32) \<Rightarrow> unicode \<Rightarrow> detector \<Rightarrow> language option \<Rightarrow>
     ((language \<times> ustr) list \<times> language list) option \<Rightarrow> input_session \<Rightarrow> session_action \<times> input_session" where
  "finish_boundary f_exp U dt current_language candidates s =
     (if suppressed_until_boundary s then
        (NoAction,
         s\<lparr>current_word := [], suppressed_until_boundary := False, backspace_remaining := None,
           at_line_start := False, current_word_started_at_line_start := False\<rparr>)
      else
        let word = current_word s;
            s = s\<lparr>backspace_remaining := None, current_word := [], at_line_start := False,
                  current_word_started_at_line_start := False\<rparr>
        in case current_language of
             None \<Rightarrow> (NoAction, s)
           | Some l \<Rightarrow>
               (case (case candidates of
                        None \<Rightarrow> detect U dt word l
                      | Some (readings, previous) \<Rightarrow>
                          detect_mapped_candidates_in_context f_exp U dt word l readings previous) of
                  None \<Rightarrow> (NoAction, s)
                | Some detection \<Rightarrow> (Candidate detection, s)))"

definition handle_printable ::
  "unicode \<Rightarrow> detector \<Rightarrow> uchar \<Rightarrow> language option \<Rightarrow> (language \<times> uchar) list \<Rightarrow> input_session \<Rightarrow>
     session_action \<times> input_session" where
  "handle_printable U dt c current_language readings s =
     (if suppressed_until_boundary s then (NoAction, s\<lparr>backspace_remaining := None\<rparr>)
      else case current_language of
        None \<Rightarrow> session_reset ResetUnsupportedInput True s
      | Some l \<Rightarrow>
          if \<not> can_extend_word_with_readings U dt c l readings then session_reset ResetUnsupportedInput True s
          else if length (current_word s) \<ge> max_word_characters s then session_reset ResetUnsupportedInput True s
          else
            let s = (if current_word s = [] then s\<lparr>current_word_started_at_line_start := at_line_start s\<rparr> else s)
            in (NoAction, s\<lparr>at_line_start := False, current_word := current_word s @ [c]\<rparr>))"

fun handle_with_readings ::
  "(f32 \<Rightarrow> f32) \<Rightarrow> unicode \<Rightarrow> detector \<Rightarrow> input_event \<Rightarrow> language option \<Rightarrow> (language \<times> uchar) list \<Rightarrow>
     input_session \<Rightarrow> session_action \<times> input_session" where
  "handle_with_readings f_exp U dt Injected l readings s = (NoAction, s)"
| "handle_with_readings f_exp U dt (Printable c) l readings s = handle_printable U dt c l readings s"
| "handle_with_readings f_exp U dt Boundary l readings s = finish_boundary f_exp U dt l None s"
| "handle_with_readings f_exp U dt Backspace l readings s = handle_backspace s"
| "handle_with_readings f_exp U dt Delete l readings s = session_reset ResetDelete True s"
| "handle_with_readings f_exp U dt Navigation l readings s = session_reset ResetNavigation True s"
| "handle_with_readings f_exp U dt Mouse l readings s = session_reset ResetMouse False s"
| "handle_with_readings f_exp U dt FocusChanged l readings s = session_reset ResetFocusChanged False s"
| "handle_with_readings f_exp U dt LayoutChanged l readings s = session_reset ResetLayoutChanged True s"
| "handle_with_readings f_exp U dt Shortcut l readings s = session_reset ResetShortcut True s"
| "handle_with_readings f_exp U dt UnsupportedInput l readings s = session_reset ResetUnsupportedInput True s"
| "handle_with_readings f_exp U dt QueueOverflow l readings s = session_reset ResetQueueOverflow True s"

definition session_handle ::
  "(f32 \<Rightarrow> f32) \<Rightarrow> unicode \<Rightarrow> detector \<Rightarrow> input_event \<Rightarrow> language option \<Rightarrow> input_session \<Rightarrow>
     session_action \<times> input_session" where
  "session_handle f_exp U dt event l s = handle_with_readings f_exp U dt event l [] s"

definition finish_boundary_in_context ::
  "(f32 \<Rightarrow> f32) \<Rightarrow> unicode \<Rightarrow> detector \<Rightarrow> language option \<Rightarrow> (language \<times> ustr) list \<Rightarrow> language list \<Rightarrow>
     input_session \<Rightarrow> session_action \<times> input_session" where
  "finish_boundary_in_context f_exp U dt l candidates previous s =
     finish_boundary f_exp U dt l (Some (candidates, previous)) s"

definition observe_composition :: "composition_state \<Rightarrow> input_session \<Rightarrow> session_action \<times> input_session" where
  "observe_composition state s =
     (if requires_suppression state then session_reset ResetComposition True s else (NoAction, s))"

definition mark_line_start :: "input_session \<Rightarrow> input_session" where
  "mark_line_start s = (session_clear s)\<lparr>at_line_start := True\<rparr>"

definition erase_last_character :: "input_session \<Rightarrow> bool \<times> input_session" where
  "erase_last_character s =
     (if suppressed_until_boundary s \<or> current_word s = [] then (False, s)
      else
        let s = s\<lparr>current_word := butlast (current_word s), backspace_remaining := None\<rparr> in
        (True,
         if current_word s = []
         then s\<lparr>at_line_start := current_word_started_at_line_start s,
                current_word_started_at_line_start := False\<rparr>
         else s))"

definition restore_word :: "ustr \<Rightarrow> input_session \<Rightarrow> bool \<times> input_session" where
  "restore_word word s =
     (if word = [] \<or> length word > max_word_characters s then (False, s)
      else (True, (session_clear s)\<lparr>current_word := word\<rparr>))"

definition erase_first_word_by_shortcut :: "input_session \<Rightarrow> bool \<times> input_session" where
  "erase_first_word_by_shortcut s =
     (if \<not> recheck_first_word_after_erasing s \<or> current_word s = [] \<or> \<not> current_word_started_at_line_start s
      then (False, s)
      else (True, (session_clear s)\<lparr>at_line_start := True\<rparr>))"

section \<open>All operations\<close>

datatype session_operation =
  Event input_event "language option" "(language \<times> uchar) list"
| Finish "language option" "(language \<times> ustr) list" "language list"
| Composition composition_state | MarkLineStart | EraseLast | Restore ustr | EraseFirstWord | Clear
| SetRecheck bool

fun session_step ::
  "(f32 \<Rightarrow> f32) \<Rightarrow> unicode \<Rightarrow> detector \<Rightarrow> session_operation \<Rightarrow> input_session \<Rightarrow> session_action \<times> input_session" where
  "session_step f_exp U dt (Event event l readings) s = handle_with_readings f_exp U dt event l readings s"
| "session_step f_exp U dt (Finish l candidates previous) s =
     finish_boundary_in_context f_exp U dt l candidates previous s"
| "session_step f_exp U dt (Composition state) s = observe_composition state s"
| "session_step f_exp U dt MarkLineStart s = (NoAction, mark_line_start s)"
| "session_step f_exp U dt EraseLast s = (NoAction, snd (erase_last_character s))"
| "session_step f_exp U dt (Restore word) s = (NoAction, snd (restore_word word s))"
| "session_step f_exp U dt EraseFirstWord s = (NoAction, snd (erase_first_word_by_shortcut s))"
| "session_step f_exp U dt Clear s = (NoAction, session_clear s)"
| "session_step f_exp U dt (SetRecheck b) s = (NoAction, s\<lparr>recheck_first_word_after_erasing := b\<rparr>)"

section \<open>What the session promises\<close>

text \<open>The abstract view: the word before the caret is known, or it is unknown until the next
  boundary, or so many characters of a word that is being erased are left.\<close>

datatype tracked = Known ustr | Erasing nat | Unknown

definition session_view :: "input_session \<Rightarrow> tracked" where
  "session_view s =
     (if \<not> suppressed_until_boundary s then Known (current_word s)
      else case backspace_remaining s of None \<Rightarrow> Unknown | Some n \<Rightarrow> Erasing n)"

definition session_ok :: "input_session \<Rightarrow> bool" where
  "session_ok s \<longleftrightarrow>
     length (current_word s) \<le> max_word_characters s
     \<and> (case backspace_remaining s of
          None \<Rightarrow> True
        | Some n \<Rightarrow> suppressed_until_boundary s \<and> n = length (current_word s) \<and> 0 < n)"

text \<open>The abstract behaviour. \<open>extends\<close> says whether a character continues the word.\<close>

definition spec_printable :: "nat \<Rightarrow> bool \<Rightarrow> uchar \<Rightarrow> tracked \<Rightarrow> tracked" where
  "spec_printable limit extends c t =
     (case t of
        Known w \<Rightarrow> if extends \<and> length w < limit then Known (w @ [c]) else Unknown
      | _ \<Rightarrow> Unknown)"

fun spec_backspace :: "tracked \<Rightarrow> tracked" where
  "spec_backspace (Known w) =
     (if w = [] then Unknown else if length w = 1 then Known [] else Erasing (length w - 1))"
| "spec_backspace (Erasing n) = (if n = 1 then Known [] else Erasing (n - 1))"
| "spec_backspace Unknown = Unknown"

fun spec_event :: "nat \<Rightarrow> bool \<Rightarrow> input_event \<Rightarrow> tracked \<Rightarrow> tracked" where
  "spec_event limit extends Injected t = t"
| "spec_event limit extends (Printable c) t = spec_printable limit extends c t"
| "spec_event limit extends Boundary t = Known []"
| "spec_event limit extends Backspace t = spec_backspace t"
| "spec_event limit extends Mouse t = Known []"
| "spec_event limit extends FocusChanged t = Known []"
| "spec_event limit extends _ t = Unknown"

definition extends_word :: "unicode \<Rightarrow> detector \<Rightarrow> session_operation \<Rightarrow> bool" where
  "extends_word U dt op =
     (case op of
        Event (Printable c) (Some l) readings \<Rightarrow> can_extend_word_with_readings U dt c l readings
      | _ \<Rightarrow> False)"

fun spec_step :: "nat \<Rightarrow> bool \<Rightarrow> bool \<Rightarrow> session_operation \<Rightarrow> tracked \<Rightarrow> tracked" where
  "spec_step limit extends first (Event event l readings) t = spec_event limit extends event t"
| "spec_step limit extends first (Finish l candidates previous) t = Known []"
| "spec_step limit extends first (Composition state) t = (if requires_suppression state then Unknown else t)"
| "spec_step limit extends first MarkLineStart t = Known []"
| "spec_step limit extends first EraseLast t =
     (case t of Known w \<Rightarrow> Known (butlast w) | _ \<Rightarrow> t)"
| "spec_step limit extends first (Restore word) t =
     (if word = [] \<or> length word > limit then t else Known word)"
| "spec_step limit extends first EraseFirstWord t = (if first then Known [] else t)"
| "spec_step limit extends first Clear t = Known []"
| "spec_step limit extends first (SetRecheck b) t = t"

lemmas session_defs = session_reset_def session_clear_def first_word_erased_def finish_boundary_def
  handle_printable_def handle_backspace_def finish_boundary_in_context_def observe_composition_def
  mark_line_start_def erase_last_character_def restore_word_def erase_first_word_by_shortcut_def

lemma handle_backspace_ok:
  assumes "session_ok s"
  shows "session_ok (snd (handle_backspace s))
     \<and> session_view (snd (handle_backspace s)) = spec_backspace (session_view s)"
proof (cases "current_word s" rule: rev_cases)
  case Nil
  then show ?thesis
    using assms by (cases "backspace_remaining s")
      (auto simp: session_ok_def session_view_def handle_backspace_def)
next
  case (snoc w c)
  then show ?thesis
    using assms by (cases "backspace_remaining s"; cases w)
      (auto simp: session_ok_def session_view_def handle_backspace_def first_word_erased_def Let_def)
qed

lemma handle_printable_ok:
  assumes "session_ok s"
  shows "session_ok (snd (handle_printable U dt c l readings s))
     \<and> session_view (snd (handle_printable U dt c l readings s))
        = spec_printable (max_word_characters s) (extends_word U dt (Event (Printable c) l readings)) c (session_view s)"
  using assms
  by (cases l; cases "backspace_remaining s")
    (auto simp: session_ok_def session_view_def handle_printable_def session_reset_def spec_printable_def
      extends_word_def Let_def)

lemma finish_boundary_ok:
  "session_ok (snd (finish_boundary e U dt l cs s)) \<and> session_view (snd (finish_boundary e U dt l cs s)) = Known []"
  by (auto simp: session_ok_def session_view_def finish_boundary_def Let_def split: option.split)

lemma session_reset_ok:
  "session_ok (snd (session_reset reason b s))
   \<and> session_view (snd (session_reset reason b s)) = (if b then Unknown else Known [])"
  by (simp add: session_ok_def session_view_def session_reset_def)

lemma session_event_ok:
  "session_ok s \<Longrightarrow> session_ok (snd (handle_with_readings e U dt event l readings s))
     \<and> session_view (snd (handle_with_readings e U dt event l readings s))
        = spec_event (max_word_characters s) (extends_word U dt (Event event l readings)) event (session_view s)"
  by (cases event) (simp_all add: handle_backspace_ok handle_printable_ok finish_boundary_ok session_reset_ok)

definition erases_first_word :: "input_session \<Rightarrow> bool" where
  "erases_first_word s \<longleftrightarrow>
     recheck_first_word_after_erasing s \<and> current_word s \<noteq> [] \<and> current_word_started_at_line_start s"

lemma session_step_refines:
  assumes "session_ok s"
  shows "session_ok (snd (session_step e U dt op s))
    \<and> session_view (snd (session_step e U dt op s))
       = spec_step (max_word_characters s) (extends_word U dt op) (erases_first_word s) op (session_view s)"
proof (cases op)
  case EraseLast
  then show ?thesis
    using assms by (cases "current_word s" rule: rev_cases)
      (auto simp: erase_last_character_def session_ok_def session_view_def Let_def split: option.splits)
next
  case (Restore w)
  then show ?thesis
    using assms
    by (cases "w = [] \<or> length w > max_word_characters s")
      (simp_all add: restore_word_def session_clear_def session_ok_def session_view_def)
next
  case EraseFirstWord
  then show ?thesis
    using assms
    by (cases "erases_first_word s")
      (auto simp: erase_first_word_by_shortcut_def erases_first_word_def session_clear_def
        session_ok_def session_view_def)
next
  case (Event event l readings)
  then show ?thesis using session_event_ok [OF assms] by simp
next
  case (SetRecheck b)
  then show ?thesis
    using assms by (cases "backspace_remaining s") (simp_all add: session_ok_def session_view_def)
qed (use assms in \<open>simp_all add: finish_boundary_in_context_def finish_boundary_ok
    observe_composition_def session_reset_ok mark_line_start_def session_clear_def\<close>,
    auto simp: session_ok_def session_view_def)

text \<open>C23. The session implements its promise: from any well-formed state, every operation leads to a
  well-formed state and does to the view exactly what the abstract behaviour says. So a word counts
  as known only while every key since its start was tracked; a character that cannot continue it, a
  navigation, an edit or a composition makes it unknown until the next boundary; and erasing makes
  it known again exactly when all its characters have gone.\<close>

theorem session_refines:
  assumes "session_ok s"
  shows "session_ok (snd (session_step e U dt op s))
    \<and> session_view (snd (session_step e U dt op s))
       = spec_step (max_word_characters s) (extends_word U dt op) (erases_first_word s) op (session_view s)"
  by (rule session_step_refines [OF assms])

lemma session_default_ok: "session_ok input_session_default"
  by (simp add: session_ok_def input_session_default_def)

lemma session_refines_witness:
  "session_ok (snd (session_step (\<lambda>x. x) ascii_tables sample_detector (Event Backspace None []) input_session_default))
    \<and> session_view (snd (session_step (\<lambda>x. x) ascii_tables sample_detector (Event Backspace None []) input_session_default))
       = spec_step (max_word_characters input_session_default)
           (extends_word ascii_tables sample_detector (Event Backspace None []))
           (erases_first_word input_session_default) (Event Backspace None []) (session_view input_session_default)"
  by (rule session_refines [OF session_default_ok])

section \<open>Runs\<close>

fun session_run ::
  "(f32 \<Rightarrow> f32) \<Rightarrow> unicode \<Rightarrow> detector \<Rightarrow> session_operation list \<Rightarrow> input_session \<Rightarrow> input_session" where
  "session_run f_exp U dt [] s = s"
| "session_run f_exp U dt (op # ops) s = session_run f_exp U dt ops (snd (session_step f_exp U dt op s))"

lemma session_step_limit: "max_word_characters (snd (session_step e U dt op s)) = max_word_characters s"
proof (cases op)
  case (Event event l readings)
  then show ?thesis
    by (cases event) (auto simp: session_defs Let_def split: option.split)
qed (auto simp: session_defs Let_def split: option.split)

lemma session_run_ok: "session_ok s \<Longrightarrow> session_ok (session_run e U dt ops s)"
  by (induction ops arbitrary: s) (simp_all add: session_step_refines)

lemma session_run_limit: "max_word_characters (session_run e U dt ops s) = max_word_characters s"
  by (induction ops arbitrary: s) (simp_all add: session_step_limit)

lemma session_run_snoc: "session_run e U dt (ops @ [op]) s = snd (session_step e U dt op (session_run e U dt ops s))"
  by (induction ops arbitrary: s) simp_all

text \<open>The characters typed since the last event that is neither a character nor injected.\<close>

fun typed_back :: "input_event list \<Rightarrow> ustr" where
  "typed_back [] = []"
| "typed_back (Printable c # es) = c # typed_back es"
| "typed_back (Injected # es) = typed_back es"
| "typed_back (_ # es) = []"

definition typed_tail :: "input_event list \<Rightarrow> ustr" where
  "typed_tail es = rev (typed_back (rev es))"

lemma typed_tail_snoc:
  "typed_tail (es @ [ev]) =
     (case ev of Printable c \<Rightarrow> typed_tail es @ [c] | Injected \<Rightarrow> typed_tail es | _ \<Rightarrow> [])"
  by (cases ev) (simp_all add: typed_tail_def)

definition event_operations :: "(input_event \<times> language option \<times> (language \<times> uchar) list) list \<Rightarrow> session_operation list" where
  "event_operations es = map (\<lambda>(ev, l, readings). Event ev l readings) es"

lemma spec_event_known:
  "spec_event limit extends ev t = Known w \<Longrightarrow> (\<forall>v. t = Known v \<longrightarrow> v = tail) \<Longrightarrow>
     w = (case ev of Printable c \<Rightarrow> tail @ [c] | Injected \<Rightarrow> tail | _ \<Rightarrow> [])"
  by (cases ev; cases t) (auto simp: spec_printable_def split: if_splits)

lemma known_word_typed:
  "session_view (session_run e U dt (event_operations es) input_session_default) = Known w \<Longrightarrow>
     w = typed_tail (map fst es)"
proof (induction es arbitrary: w rule: rev_induct)
  case Nil
  then show ?case
    by (simp add: event_operations_def session_view_def input_session_default_def typed_tail_def)
next
  case (snoc x es)
  obtain ev l readings where x: "x = (ev, l, readings)" by (cases x)
  let ?s = "session_run e U dt (event_operations es) input_session_default"
  have ok: "session_ok ?s" by (rule session_run_ok [OF session_default_ok])
  have "session_run e U dt (event_operations (es @ [x])) input_session_default
      = snd (session_step e U dt (Event ev l readings) ?s)"
    by (simp add: event_operations_def x session_run_snoc)
  then have "spec_event (max_word_characters ?s) (extends_word U dt (Event ev l readings)) ev (session_view ?s) = Known w"
    using snoc.prems session_step_refines [OF ok, of e U dt "Event ev l readings"] by simp
  then show ?case using spec_event_known snoc.IH by (simp add: typed_tail_snoc x)
qed

lemma finish_boundary_candidate:
  "fst (finish_boundary e U dt l cs s) = Candidate d \<Longrightarrow>
     session_view s = Known (de_original d) \<and> (\<exists>k. l = Some k \<and> de_source_language d = k)"
  by (auto simp: finish_boundary_def session_view_def Let_def detect_def detect_mapped_candidates_in_context_def
      split: if_splits option.splits dest!: detection_sound_facts layout_model_sound_facts)


definition sample_typing :: "(input_event \<times> language option \<times> (language \<times> uchar) list) list" where
  "sample_typing = (Mouse, None, []) # map (\<lambda>c. (Printable c, Some English, [])) ghbdtn"

lemma sample_typed:
  "current_word (session_run e ascii_tables sample_detector (event_operations sample_typing) input_session_default) = ghbdtn
   \<and> \<not> suppressed_until_boundary (session_run e ascii_tables sample_detector (event_operations sample_typing) input_session_default)"
proof -
  have eligible: "input_pack_is_eligible sample_detector English"
    by (simp add: input_pack_is_eligible_def binding_of_def sample_bindings om_lookup_def)
  have chars: "accepts_character ascii_tables sample_detector English c" if "97 \<le> c" "c \<le> 122" for c
    using that by (simp add: accepts_character_def ascii_defs)
  show ?thesis
    by (simp add: sample_typing_def event_operations_def ghbdtn_def input_session_default_def session_reset_def
        handle_printable_def can_extend_word_with_readings_def eligible chars DEFAULT_MAX_WORD_CHARACTERS_def)
qed


end
