(* ===== verification/Rolling_Budget.thy ===== *)
theory Rolling_Budget
  imports Prelude
begin

text \<open>
  The interface behind every rolling allowance of the program: an operation that is
  asked at some time, may grant, and keeps a log of its grants from which it forgets
  only grants that are at least one period old. \<open>RateLimit\<close> and the reinstall budget of
  \<open>HookWatchdog\<close> provide it. The client fact is about whole runs: in any window of one
  period, at most \<open>limit\<close> grants.
\<close>

text \<open>The times granted by a run: the operation is asked with each input in turn.\<close>

fun granted_times :: "('i \<Rightarrow> instant \<Rightarrow> 's \<Rightarrow> bool \<times> 's) \<Rightarrow> 's \<Rightarrow> ('i \<times> instant) list \<Rightarrow> instant list"
where
  "granted_times ask s [] = []"
| "granted_times ask s ((i, now) # rest) =
     (let (granted, s') = ask i now s
      in (if granted then [now] else []) @ granted_times ask s' rest)"

definition in_window :: "instant \<Rightarrow> duration \<Rightarrow> instant list \<Rightarrow> instant list" where
  "in_window a period ts = filter (\<lambda>t. a \<le> t \<and> t < a + period) ts"

lemma in_window_append [simp]:
  "in_window a p (xs @ ys) = in_window a p xs @ in_window a p ys"
  by (simp add: in_window_def)

lemma in_window_old: "(\<And>t. t \<in> set ts \<Longrightarrow> t < a) \<Longrightarrow> in_window a p ts = []"
  by (auto simp: in_window_def filter_empty_conv not_le dest: leD)

lemma in_window_length: "length (in_window a p ts) \<le> length ts"
  by (simp add: in_window_def)

locale rolling_budget =
  fixes ask :: "'i \<Rightarrow> instant \<Rightarrow> 's \<Rightarrow> bool \<times> 's"
    and log :: "'s \<Rightarrow> instant list"
    and limit :: "'s \<Rightarrow> nat"
    and period :: "'s \<Rightarrow> duration"
  assumes ask_grants:
      "ask i now s = (True, s') \<Longrightarrow>
         \<exists>k. log s' = drop k (log s) @ [now] \<and> length (log s') \<le> limit s
             \<and> (\<forall>t \<in> set (take k (log s)). period s \<le> now - t)"
    and ask_refuses:
      "ask i now s = (False, s') \<Longrightarrow>
         \<exists>k. log s' = drop k (log s) \<and> (\<forall>t \<in> set (take k (log s)). period s \<le> now - t)"
    and ask_limit: "ask i now s = (b, s') \<Longrightarrow> limit s' = limit s"
    and ask_period: "ask i now s = (b, s') \<Longrightarrow> period s' = period s"
begin

text \<open>\<open>past\<close> is what was granted before: forgotten grants, then the log.\<close>

definition covered :: "instant list \<Rightarrow> instant \<Rightarrow> 's \<Rightarrow> bool" where
  "covered past now s \<longleftrightarrow>
     (\<exists>old. past = old @ log s \<and> (\<forall>t \<in> set old. t + period s \<le> now))
     \<and> (\<forall>t \<in> set past. t \<le> now)
     \<and> (\<forall>a. length (in_window a (period s) past) \<le> limit s)"

lemma covered_refuse:
  assumes "covered past t0 s" and "t0 \<le> now" and "ask i now s = (False, s')"
  shows "covered past now s'"
proof -
  obtain old where old: "past = old @ log s" "\<forall>t \<in> set old. t + period s \<le> t0"
    and le: "\<forall>t \<in> set past. t \<le> t0"
    and win: "\<forall>a. length (in_window a (period s) past) \<le> limit s"
    using assms(1) by (auto simp: covered_def)
  obtain k where k: "log s' = drop k (log s)" "\<forall>t \<in> set (take k (log s)). period s \<le> now - t"
    using ask_refuses [OF assms(3)] by blast
  have "past = (old @ take k (log s)) @ log s'" by (simp add: old(1) k(1))
  moreover have "\<forall>t \<in> set (old @ take k (log s)). t + period s \<le> now"
  proof
    fix t assume t: "t \<in> set (old @ take k (log s))"
    then have "t \<in> set past" using old(1) in_set_takeD by fastforce
    then have "t \<le> now" using le assms(2) order_trans by blast
    with t old(2) k(2) assms(2) show "t + period s \<le> now" by fastforce
  qed
  ultimately show ?thesis
    using le win assms(2) order_trans ask_limit [OF assms(3)] ask_period [OF assms(3)]
    unfolding covered_def by metis
qed

lemma covered_grant:
  assumes "covered past t0 s" and "t0 \<le> now" and "ask i now s = (True, s')"
  shows "covered (past @ [now]) now s'"
proof -
  obtain old where old: "past = old @ log s" "\<forall>t \<in> set old. t + period s \<le> t0"
    and le: "\<forall>t \<in> set past. t \<le> t0"
    and win: "\<forall>a. length (in_window a (period s) past) \<le> limit s"
    using assms(1) by (auto simp: covered_def)
  obtain k where k: "log s' = drop k (log s) @ [now]" "length (log s') \<le> limit s"
      "\<forall>t \<in> set (take k (log s)). period s \<le> now - t"
    using ask_grants [OF assms(3)] by blast
  let ?old = "old @ take k (log s)"
  have split: "past @ [now] = ?old @ log s'" by (simp add: old(1) k(1))
  have older: "\<forall>t \<in> set ?old. t + period s \<le> now"
  proof
    fix t assume t: "t \<in> set ?old"
    then have "t \<in> set past" using old(1) in_set_takeD by fastforce
    then have "t \<le> now" using le assms(2) order_trans by blast
    with t old(2) k(3) assms(2) show "t + period s \<le> now" by fastforce
  qed
  have "length (in_window a (period s) (past @ [now])) \<le> limit s" for a
  proof (cases "a \<le> now \<and> now < a + period s")
    case True
    have "in_window a (period s) ?old = []"
      by (rule in_window_old) (use older True in fastforce)
    then have "length (in_window a (period s) (past @ [now])) \<le> length (log s')"
      unfolding split by (simp add: in_window_length del: set_append)
    with k(2) show ?thesis by simp
  next
    case False
    then show ?thesis using win by (auto simp: in_window_def)
  qed
  then show ?thesis
    unfolding covered_def
    using split older le assms(2) order_trans ask_limit [OF assms(3)] ask_period [OF assms(3)]
    by (metis Un_iff empty_iff empty_set insert_iff list.set(2) nle_le set_append)
qed

lemma run_covered:
  assumes "covered past t0 s" and "sorted (t0 # map snd is)"
  shows "length (in_window a (period s) (past @ granted_times ask s is)) \<le> limit s"
  using assms
proof (induction "is" arbitrary: past t0 s)
  case Nil
  then show ?case by (simp add: covered_def)
next
  case (Cons x rest)
  obtain i now where x: "x = (i, now)" by (cases x)
  obtain b s' where ask: "ask i now s = (b, s')" by (cases "ask i now s")
  have t: "t0 \<le> now" "sorted (now # map snd rest)" using Cons.prems(2) x by auto
  have same: "limit s' = limit s" "period s' = period s"
    using ask ask_limit ask_period by blast+
  show ?case
  proof (cases b)
    case True
    with ask have granted: "ask i now s = (True, s')" by simp
    from Cons.IH [OF covered_grant [OF Cons.prems(1) t(1) granted] t(2)]
    show ?thesis by (simp add: granted same x)
  next
    case False
    with ask have refused: "ask i now s = (False, s')" by simp
    from Cons.IH [OF covered_refuse [OF Cons.prems(1) t(1) refused] t(2)]
    show ?thesis by (simp add: refused same x)
  qed
qed

theorem at_most_limit:
  assumes "log s = []" and "sorted (map snd is)"
  shows "length (in_window a (period s) (granted_times ask s is)) \<le> limit s"
proof -
  have "covered [] 0 s" by (simp add: covered_def assms(1) in_window_def)
  from run_covered [OF this, of "is" a] assms(2) show ?thesis by simp
qed

end

text \<open>An allowance that also keeps its grants apart.\<close>

locale spaced_budget = rolling_budget ask log limit period
  for ask :: "'i \<Rightarrow> instant \<Rightarrow> 's \<Rightarrow> bool \<times> 's"
    and log :: "'s \<Rightarrow> instant list"
    and limit :: "'s \<Rightarrow> nat"
    and period :: "'s \<Rightarrow> duration" +
  fixes gap :: duration
  assumes ask_spaced:
      "ask i now s = (True, s') \<Longrightarrow> log s \<noteq> [] \<Longrightarrow> gap \<le> now - last (log s)"
    and log_kept: "ask i now s = (b, s') \<Longrightarrow> now - last (log s) < gap \<Longrightarrow>
        log s \<noteq> [] \<Longrightarrow> log s' \<noteq> [] \<and> last (log s') = last (log s)"
    and log_never_newer: "ask i now s = (False, s') \<Longrightarrow>
        log s' = [] \<or> log s \<noteq> [] \<and> last (log s') = last (log s)"
begin

definition last_is :: "instant option \<Rightarrow> instant \<Rightarrow> 's \<Rightarrow> bool" where
  "last_is g now s \<longleftrightarrow>
     (case g of None \<Rightarrow> log s = []
      | Some t \<Rightarrow> t \<le> now \<and>
          (if log s = [] then gap \<le> now - t else last (log s) = t))"

lemma last_is_grant:
  assumes "last_is g t0 s" and "t0 \<le> now" and "ask i now s = (True, s')"
  shows "last_is (Some now) now s'" and "\<And>t. g = Some t \<Longrightarrow> t + gap \<le> now"
proof -
  obtain k where "log s' = drop k (log s) @ [now]" using ask_grants [OF assms(3)] by blast
  then show "last_is (Some now) now s'" by (simp add: last_is_def)
  fix t assume "g = Some t"
  with assms ask_spaced [OF assms(3)] show "t + gap \<le> now"
    by (cases "log s = []") (auto simp: last_is_def)
qed

lemma last_is_refuse:
  assumes "last_is g t0 s" and "t0 \<le> now" and "ask i now s = (False, s')"
  shows "last_is g now s'"
proof (cases g)
  case None
  then show ?thesis
    using assms ask_refuses [OF assms(3)] by (auto simp: last_is_def)
next
  case (Some t)
  show ?thesis
  proof (cases "log s = []")
    case True
    with Some assms ask_refuses [OF assms(3)] show ?thesis by (auto simp: last_is_def)
  next
    case False
    with Some assms(1,2) have t: "t \<le> now" "last (log s) = t" by (auto simp: last_is_def)
    show ?thesis
    proof (cases "now - t < gap")
      case True
      with log_kept [OF assms(3)] False t Some show ?thesis by (simp add: last_is_def)
    next
      case far: False
      with log_never_newer [OF assms(3)] t Some show ?thesis by (auto simp: last_is_def)
    qed
  qed
qed

lemma run_spaced:
  assumes "last_is g t0 s" and "sorted (t0 # map snd is)"
  shows "sorted_wrt (\<lambda>x y. x + gap \<le> y) (case_option [] (\<lambda>t. [t]) g @ granted_times ask s is)"
  using assms
proof (induction "is" arbitrary: g t0 s)
  case Nil
  then show ?case by (cases g) simp_all
next
  case (Cons x rest)
  obtain i now where x: "x = (i, now)" by (cases x)
  obtain b s' where ask: "ask i now s = (b, s')" by (cases "ask i now s")
  have t: "t0 \<le> now" "sorted (now # map snd rest)" using Cons.prems(2) x by auto
  show ?case
  proof (cases b)
    case False
    with ask have refused: "ask i now s = (False, s')" by simp
    show ?thesis
      using Cons.IH [OF last_is_refuse [OF Cons.prems(1) t(1) refused] t(2)] refused x by simp
  next
    case True
    with ask have ask: "ask i now s = (True, s')" by simp
    note g = last_is_grant [OF Cons.prems(1) t(1) ask]
    have "sorted_wrt (\<lambda>x y. x + gap \<le> y) (now # granted_times ask s' rest)"
      using Cons.IH [OF g(1) t(2)] by simp
    with g(2) ask x show ?thesis by (cases g) fastforce+
  qed
qed

theorem grants_spaced:
  assumes "log s = []" and "sorted (map snd is)"
  shows "sorted_wrt (\<lambda>x y. x + gap \<le> y) (granted_times ask s is)"
  using run_spaced [of None 0 s "is"] assms by (simp add: last_is_def)

end

end
