(* ===== verification/Ui_Guard.thy ===== *)
theory Ui_Guard
  imports Rolling_Budget Rust_Text
begin

text \<open>
  \<open>src/rate_limit.rs\<close> and \<open>src/ui_guard.rs\<close>: the allowances and watchdogs that keep the
  thread of the low-level hooks healthy. \<open>VecDeque<Instant>\<close> is a list, oldest first;
  the decisions take the current time as an argument, as in the source.
\<close>

section \<open>RateLimit\<close>

record rate_limit =
  rl_max :: nat
  rl_per :: duration
  rl_granted :: "instant list"

definition rate_limit_new :: "nat \<Rightarrow> duration \<Rightarrow> rate_limit" where
  "rate_limit_new mx per = \<lparr>rl_max = mx, rl_per = per, rl_granted = []\<rparr>"

definition aged_out :: "duration \<Rightarrow> instant \<Rightarrow> instant list \<Rightarrow> instant list" where
  "aged_out per now q = dropWhile (\<lambda>earlier. per \<le> now - earlier) q"

definition try_take :: "instant \<Rightarrow> rate_limit \<Rightarrow> bool \<times> rate_limit" where
  "try_take now r =
     (let r = r\<lparr>rl_granted := aged_out (rl_per r) now (rl_granted r)\<rparr>
      in if length (rl_granted r) < rl_max r
         then (True, r\<lparr>rl_granted := rl_granted r @ [now]\<rparr>)
         else (False, r))"

lemma aged_out_drop:
  "\<exists>k. aged_out per now q = drop k q \<and> (\<forall>t \<in> set (take k q). per \<le> now - t)"
  unfolding aged_out_def by (rule dropWhile_as_drop)

interpretation rate: rolling_budget "\<lambda>_. try_take" rl_granted rl_max rl_per
proof
  show "\<exists>k. rl_granted s' = drop k (rl_granted s) @ [now] \<and> length (rl_granted s') \<le> rl_max s
      \<and> (\<forall>t \<in> set (take k (rl_granted s)). rl_per s \<le> now - t)"
    if "try_take now s = (True, s')" for i :: 'a and now s s'
    using that aged_out_drop [of "rl_per s" now "rl_granted s"]
    by (force simp: try_take_def Let_def split: if_splits)
  show "\<exists>k. rl_granted s' = drop k (rl_granted s)
      \<and> (\<forall>t \<in> set (take k (rl_granted s)). rl_per s \<le> now - t)"
    if "try_take now s = (False, s')" for i :: 'a and now s s'
    using that aged_out_drop [of "rl_per s" now "rl_granted s"]
    by (force simp: try_take_def Let_def split: if_splits)
qed (auto simp: try_take_def Let_def split: if_splits)

section \<open>The hook watchdog\<close>

definition INPUT_RECENT :: duration where [consts_def]: "INPUT_RECENT = from_millis 400"
definition HOOK_SILENT :: duration where [consts_def]: "HOOK_SILENT = from_secs 3"
definition REINSTALL_MIN_INTERVAL :: duration where
  [consts_def]: "REINSTALL_MIN_INTERVAL = from_secs 15"
definition REINSTALL_PER_HOUR :: nat where [consts_def]: "REINSTALL_PER_HOUR = 4"
definition HOUR :: duration where [consts_def]: "HOUR = from_secs (60 * 60)"

datatype foreground_privilege = PrivNone | NotHigher | Higher | PrivUnknown

datatype silent_hook_kind = SilentKeyboard | SilentMouse

record hook_silence =
  silence_keyboard :: duration
  silence_mouse :: duration

definition silent_hook :: "duration \<Rightarrow> hook_silence \<Rightarrow> bool \<Rightarrow> silent_hook_kind option" where
  "silent_hook input_idle silence pointer_moving =
     (if INPUT_RECENT < input_idle then None
      else if pointer_moving then
        (if HOOK_SILENT < silence_mouse silence then Some SilentMouse else None)
      else
        (let unseen_by_the_mouse_hook = input_idle + INPUT_RECENT < silence_mouse silence
         in if HOOK_SILENT < silence_keyboard silence \<and> unseen_by_the_mouse_hook
            then Some SilentKeyboard else None))"

record pointer_motion =
  pm_last :: "(int \<times> int) option"
  pm_moves :: u32

definition pointer_motion_new :: pointer_motion where
  "pointer_motion_new = \<lparr>pm_last = None, pm_moves = 0\<rparr>"

definition saturating_succ :: "u32 \<Rightarrow> u32" where
  "saturating_succ w = (if w = -1 then w else w + 1)"

definition observe :: "(int \<times> int) option \<Rightarrow> pointer_motion \<Rightarrow> bool \<times> pointer_motion" where
  "observe position p =
     (let moved = position \<noteq> None \<and> pm_last p \<noteq> None \<and> position \<noteq> pm_last p;
          moves = (if moved then saturating_succ (pm_moves p) else 0)
      in (2 \<le> moves, \<lparr>pm_last = position, pm_moves = moves\<rparr>))"

definition compare_privilege :: "u32 option \<Rightarrow> u32 option \<Rightarrow> foreground_privilege" where
  "compare_privilege theirs ours =
     (case (theirs, ours) of
        (Some t, Some u) \<Rightarrow> if u < t then Higher else NotHigher
      | _ \<Rightarrow> PrivUnknown)"

record watchdog_facts =
  wf_input_idle :: duration
  wf_silence :: hook_silence
  wf_pointer_moving :: bool
  wf_foreground :: foreground_privilege
  wf_input_desktop_is_default :: bool
  wf_foreground_captures_input :: bool

datatype watchdog_action = Nothing | Reinstall | WarnUnstable

record hook_watchdog =
  reinstalls :: "instant list"
  warned_at :: "instant option"

definition hook_watchdog_new :: hook_watchdog where
  "hook_watchdog_new = \<lparr>reinstalls = [], warned_at = None\<rparr>"

definition hooks_silent :: "watchdog_facts \<Rightarrow> bool" where
  "hooks_silent facts \<longleftrightarrow>
     silent_hook (wf_input_idle facts) (wf_silence facts) (wf_pointer_moving facts) \<noteq> None
     \<and> wf_input_desktop_is_default facts
     \<and> wf_foreground facts = NotHigher
     \<and> \<not> wf_foreground_captures_input facts"

definition decide ::
  "watchdog_facts \<Rightarrow> instant \<Rightarrow> hook_watchdog \<Rightarrow> watchdog_action \<times> hook_watchdog"
where
  "decide facts now w =
     (if \<not> hooks_silent facts then (Nothing, w)
      else
        let w = w\<lparr>reinstalls := aged_out HOUR now (reinstalls w)\<rparr>
        in if reinstalls w \<noteq> [] \<and> now - last (reinstalls w) < REINSTALL_MIN_INTERVAL
           then (Nothing, w)
           else if length (reinstalls w) < REINSTALL_PER_HOUR
           then (Reinstall, w\<lparr>reinstalls := reinstalls w @ [now]\<rparr>)
           else if (case warned_at w of None \<Rightarrow> True | Some t \<Rightarrow> HOUR \<le> now - t)
           then (WarnUnstable, w\<lparr>warned_at := Some now\<rparr>)
           else (Nothing, w))"

lemma aged_out_last: "aged_out per now q \<noteq> [] \<Longrightarrow> q \<noteq> [] \<and> last (aged_out per now q) = last q"
  unfolding aged_out_def using dropWhile_as_drop
  by (metis append_is_Nil_conv last_appendR takeWhile_dropWhile_id)

lemma aged_out_empty: "aged_out per now q = [] \<Longrightarrow> q \<noteq> [] \<Longrightarrow> per \<le> now - last q"
  unfolding aged_out_def by (simp add: dropWhile_eq_Nil_conv)

text \<open>The reinstallations of the watchdog as an operation that grants or refuses.\<close>

definition ask_reinstall ::
  "watchdog_facts \<Rightarrow> instant \<Rightarrow> hook_watchdog \<Rightarrow> bool \<times> hook_watchdog" where
  "ask_reinstall facts now w = (let (a, w') = decide facts now w in (a = Reinstall, w'))"

lemmas reinstall_defs = ask_reinstall_def decide_def Let_def

interpretation watchdog: spaced_budget ask_reinstall reinstalls
  "\<lambda>_. REINSTALL_PER_HOUR" "\<lambda>_. HOUR" REINSTALL_MIN_INTERVAL
proof
  fix i now s s'
  note drops = aged_out_drop [of HOUR now "reinstalls s"]
  show "\<exists>k. reinstalls s' = drop k (reinstalls s) @ [now] \<and> length (reinstalls s') \<le> REINSTALL_PER_HOUR
      \<and> (\<forall>t \<in> set (take k (reinstalls s)). HOUR \<le> now - t)"
    if "ask_reinstall i now s = (True, s')"
    using that drops by (force simp: reinstall_defs split: if_splits)
  show "\<exists>k. reinstalls s' = drop k (reinstalls s) \<and> (\<forall>t \<in> set (take k (reinstalls s)). HOUR \<le> now - t)"
    if "ask_reinstall i now s = (False, s')"
  proof (cases "reinstalls s' = reinstalls s")
    case True
    then show ?thesis by (intro exI [where x = 0]) simp
  next
    case False
    with that drops show ?thesis by (auto simp: reinstall_defs split: if_splits)
  qed
  show "REINSTALL_MIN_INTERVAL \<le> now - last (reinstalls s)"
    if "ask_reinstall i now s = (True, s')" and "reinstalls s \<noteq> []"
  proof (cases "aged_out HOUR now (reinstalls s) = []")
    case True
    from aged_out_empty [OF this that(2)] show ?thesis by (simp add: consts_def time_defs)
  next
    case False
    from aged_out_last [OF this] that(1) False show ?thesis
      by (auto simp: reinstall_defs split: if_splits)
  qed
  show "reinstalls s' \<noteq> [] \<and> last (reinstalls s') = last (reinstalls s)"
    if "ask_reinstall i now s = (b, s')" and "now - last (reinstalls s) < REINSTALL_MIN_INTERVAL"
      and "reinstalls s \<noteq> []" for b
  proof (cases "aged_out HOUR now (reinstalls s) = []")
    case True
    from aged_out_empty [OF this that(3)] that(2) show ?thesis by (simp add: consts_def time_defs)
  next
    case False
    from aged_out_last [OF this] that False show ?thesis
      by (auto simp: reinstall_defs split: if_splits)
  qed
  show "reinstalls s' = [] \<or> reinstalls s \<noteq> [] \<and> last (reinstalls s') = last (reinstalls s)"
    if "ask_reinstall i now s = (False, s')"
    using that aged_out_last [of HOUR now "reinstalls s"]
    by (auto simp: reinstall_defs split: if_splits)
qed auto

section \<open>Keyboard-capturing programs, the tray throttle and the retry delay\<close>

definition keyboard_capturing_programs :: "ustr list" where
  "keyboard_capturing_programs = map lit
     [''vmware.exe'', ''vmplayer.exe'', ''virtualboxvm.exe'', ''vmconnect.exe'',
      ''mstsc.exe'', ''msrdc.exe'']"

definition captures_keyboard :: "ustr \<Rightarrow> bool" where
  "captures_keyboard image_path \<longleftrightarrow>
     list_ex (eq_ignore_ascii_case (last_piece is_path_separator image_path))
       keyboard_capturing_programs"

record tray_throttle =
  next_allowed :: "instant option"

definition TRAY_MIN_INTERVAL :: duration where
  [consts_def]: "TRAY_MIN_INTERVAL = from_millis 500"

definition tray_throttle_new :: tray_throttle where
  "tray_throttle_new = \<lparr>next_allowed = None\<rparr>"

definition allow :: "instant \<Rightarrow> bool \<Rightarrow> tray_throttle \<Rightarrow> bool \<times> tray_throttle" where
  "allow now gate_active t =
     (if gate_active \<or> (case next_allowed t of None \<Rightarrow> False | Some a \<Rightarrow> now < a)
      then (False, t)
      else (True, t\<lparr>next_allowed := Some (now + TRAY_MIN_INTERVAL)\<rparr>))"

definition retry_delay :: "nat \<Rightarrow> duration" where
  "retry_delay failures = from_secs (min (2 ^ min (failures - 1) 5) 30)"


section \<open>What the guards promise\<close>

text \<open>An allowance of \<open>mx\<close> uses per period grants, in any window of one period and however
  often it is asked, at most \<open>mx\<close> uses.\<close>

theorem rate_limit_holds:
  assumes "sorted (map snd is)"
  shows "length (in_window a per (granted_times (\<lambda>_. try_take) (rate_limit_new mx per) is)) \<le> mx"
  using rate.at_most_limit [of "rate_limit_new mx per" "is" a] assms by (simp add: rate_limit_new_def)

lemma rate_limit_holds_witness:
  "length (in_window 0 10 (granted_times (\<lambda>_. try_take) (rate_limit_new 1 10) [((), 1), ((), 5)])) \<le> 1
   \<and> granted_times (\<lambda>_. try_take) (rate_limit_new 1 10) [((), 1), ((), 5)] = [1]"
  using rate_limit_holds [of "[((), 1), ((), 5)]" 0 10 1]
  by (simp add: rate_limit_new_def try_take_def aged_out_def)

text \<open>The hooks are not reinstalled in a storm: whatever the watchdog is told and however
  often, it reinstalls at most four times in any hour, and any two of its reinstallations are at
  least fifteen seconds apart.\<close>

theorem watchdog_budget:
  assumes "sorted (map snd is)"
  shows "length (in_window a HOUR (granted_times ask_reinstall hook_watchdog_new is)) \<le> 4
    \<and> sorted_wrt (\<lambda>x y. x + from_secs 15 \<le> y) (granted_times ask_reinstall hook_watchdog_new is)"
proof -
  have e: "reinstalls hook_watchdog_new = []" by (simp add: hook_watchdog_new_def)
  show ?thesis
    using watchdog.at_most_limit [OF e assms, of a] watchdog.grants_spaced [OF e assms]
    by (simp add: REINSTALL_PER_HOUR_def REINSTALL_MIN_INTERVAL_def)
qed

definition sample_silence :: watchdog_facts where
  "sample_silence =
     \<lparr>wf_input_idle = 0,
      wf_silence = \<lparr>silence_keyboard = from_secs 4, silence_mouse = from_secs 4\<rparr>,
      wf_pointer_moving = True, wf_foreground = NotHigher, wf_input_desktop_is_default = True,
      wf_foreground_captures_input = False\<rparr>"

lemma watchdog_budget_witness:
  "granted_times ask_reinstall hook_watchdog_new [(sample_silence, 0), (sample_silence, 1)] = [0]
   \<and> length (in_window 0 HOUR
      (granted_times ask_reinstall hook_watchdog_new [(sample_silence, 0), (sample_silence, 1)])) \<le> 4"
proof -
  let ?is = "[(sample_silence, 0 :: instant), (sample_silence, 1)]"
  have "granted_times ask_reinstall hook_watchdog_new ?is = [0]"
    by (simp add: reinstall_defs hooks_silent_def silent_hook_def sample_silence_def hook_watchdog_new_def
        aged_out_def consts_def time_defs)
  moreover have "sorted (map snd ?is)" by simp
  ultimately show ?thesis using watchdog_budget [of ?is 0] by blast
qed

end
