(* ===== verification/Privacy.thy ===== *)
theory Privacy
  imports Rust_Text
begin

text \<open>
  \<open>src/privacy.rs\<close>: why a field must not be buffered or converted, the exception for a
  verified terminal, and the exclusion list of programs. The set of executable names is a
  \<open>BTreeSet<String>\<close> of which only membership and insertion are used.
\<close>

datatype privacy_block_reason =
    PasswordField | ExcludedProcess | ElevatedProcess | FieldInspectionUnavailable
  | InspectionUnavailable

definition manual_conversion_allowed :: "privacy_block_reason option \<Rightarrow> bool \<Rightarrow> bool \<Rightarrow> bool" where
  "manual_conversion_allowed reason terminal_opt_in verified_terminal \<longleftrightarrow>
     reason = None
     \<or> (reason = Some FieldInspectionUnavailable \<and> terminal_opt_in \<and> verified_terminal)"

definition forbidden_in_windows_path :: "uchar \<Rightarrow> bool" where
  "forbidden_in_windows_path c \<longleftrightarrow>
     is_control c \<or> c \<in> {0x22, 0x3C, 0x3E, 0x7C, 0x3F, 0x2A}"

definition normalize_executable_name :: "unicode \<Rightarrow> ustr \<Rightarrow> ustr option" where
  "normalize_executable_name U path_or_name =
     (let trimmed = trim_matches (\<lambda>c. c = 0x22) (trim path_or_name) in
      if list_ex forbidden_in_windows_path trimmed then None
      else let name = trim (last_piece is_path_separator trimmed) in
        if name = [] then None else Some (uc_lower_str U name))"

record exclusion_policy =
  executable_names :: "ustr set"

fun extend_lines :: "unicode \<Rightarrow> ustr list \<Rightarrow> exclusion_policy \<Rightarrow> exclusion_policy" where
  "extend_lines U [] p = p"
| "extend_lines U (l # ls) p =
     (let line = trim l in
      if line = [] \<or> starts_with line 0x23 then extend_lines U ls p
      else case normalize_executable_name U line of
          Some name \<Rightarrow> extend_lines U ls (p\<lparr>executable_names := insert name (executable_names p)\<rparr>)
        | None \<Rightarrow> extend_lines U ls p)"

definition policy_from_lines :: "unicode \<Rightarrow> ustr list \<Rightarrow> exclusion_policy" where
  "policy_from_lines U ls = extend_lines U ls \<lparr>executable_names = {}\<rparr>"

definition default_exclusions :: "ustr list" where
  "default_exclusions = map lit
     [''1Password.exe'', ''AutoKeyboardLayot.exe'', ''Bitwarden.exe'', ''Consent.exe'',
      ''CredentialUIBroker.exe'', ''KeePass.exe'', ''KeePassXC.exe'', ''LogonUI.exe'']"

definition exclusion_policy_default :: "unicode \<Rightarrow> exclusion_policy" where
  "exclusion_policy_default U = policy_from_lines U default_exclusions"

definition is_excluded :: "unicode \<Rightarrow> exclusion_policy \<Rightarrow> ustr \<Rightarrow> bool" where
  "is_excluded U p path_or_name =
     (case normalize_executable_name U path_or_name of
        None \<Rightarrow> False
      | Some name \<Rightarrow>
          name \<in> executable_names p
          \<or> (case rsplit_once 0x2E name of
               None \<Rightarrow> False
             | Some (stem, _) \<Rightarrow> stem \<noteq> [] \<and> stem \<in> executable_names p))"

section \<open>Lines only add exclusions\<close>

lemma extend_lines_mono:
  "executable_names p \<subseteq> executable_names (extend_lines U ls p)"
proof (induction ls arbitrary: p)
  case (Cons l ls)
  have "executable_names p \<subseteq> executable_names (extend_lines U ls (p\<lparr>executable_names := insert n (executable_names p)\<rparr>))"
    for n using Cons [of "p\<lparr>executable_names := insert n (executable_names p)\<rparr>"] by auto
  with Cons [of p] show ?case by (simp add: Let_def split: option.split)
qed simp

lemma extend_lines_in:
  assumes "l \<in> set ls" and "trim l \<noteq> []" "\<not> starts_with (trim l) 0x23"
    and "normalize_executable_name U (trim l) = Some n"
  shows "n \<in> executable_names (extend_lines U ls p)"
  using assms(1)
proof (induction ls arbitrary: p)
  case (Cons k ls)
  show ?case
  proof (cases "k = l")
    case True
    then have "extend_lines U (k # ls) p = extend_lines U ls (p\<lparr>executable_names := insert n (executable_names p)\<rparr>)"
      using assms by (simp add: Let_def)
    then show ?thesis
      using extend_lines_mono [of "p\<lparr>executable_names := insert n (executable_names p)\<rparr>" U ls] by auto
  next
    case False
    then show ?thesis using Cons by (auto simp: Let_def split: option.split)
  qed
qed simp

lemma normalize_trim [simp]: "normalize_executable_name U (trim s) = normalize_executable_name U s"
  by (simp add: normalize_executable_name_def)

text \<open>A program named in the exclusion list is excluded under any of its paths: whatever
  executable name a non-comment line of the list denotes, every image path denoting the same
  name is excluded, and later lines never undo it.\<close>

theorem listed_program_excluded:
  assumes "l \<in> set ls" and "trim l \<noteq> []" and "\<not> starts_with (trim l) 0x23"
    and "normalize_executable_name U path \<noteq> None"
    and "normalize_executable_name U path = normalize_executable_name U l"
  shows "is_excluded U (extend_lines U (ls @ later) (policy_from_lines U earlier)) path"
proof -
  obtain n where n: "normalize_executable_name U path = Some n" using assms(4) by blast
  then have "n \<in> executable_names (extend_lines U (ls @ later) (policy_from_lines U earlier))"
    using assms by (intro extend_lines_in [of l]) simp_all
  with n show ?thesis by (simp add: is_excluded_def)
qed

lemma listed_program_excluded_witness:
  "is_excluded ascii_tables
     (extend_lines ascii_tables ([lit ''# private'', lit '' KeePass.exe ''] @ [])
       (policy_from_lines ascii_tables []))
     (lit ''C:/Tools/KEEPASS.EXE'')"
  by (rule listed_program_excluded [where l = "lit '' KeePass.exe ''"])
    (simp_all add: normalize_executable_name_def Let_def trim_def trim_matches_def last_piece_def
      is_whitespace_def is_path_separator_def forbidden_in_windows_path_def is_control_def ascii_defs)

end
