(* ===== verification/Backend_Rules.thy ===== *)
theory Backend_Rules
  imports Privacy Ordered_Map "HOL-Library.List_Lexorder"
begin

text \<open>
  \<open>src/backend_rules.rs\<close>: which text replacement strategy a foreground program gets. Rules
  are a \<open>BTreeMap\<close> from normalized path or name to strategy and one fallback; a rule file
  either loads whole or is refused with the line and the message of its first error.
\<close>

datatype backend_strategy = CapabilityProbe | ProtectedPaste | PhysicalReplay | ObserveOnly

definition strategy_id :: "backend_strategy \<Rightarrow> ustr" where
  "strategy_id s =
     (case s of
        CapabilityProbe \<Rightarrow> lit ''capability-probe''
      | ProtectedPaste \<Rightarrow> lit ''protected-paste''
      | PhysicalReplay \<Rightarrow> lit ''physical-replay''
      | ObserveOnly \<Rightarrow> lit ''observe-only'')"

definition strategy_from_id :: "ustr \<Rightarrow> backend_strategy option" where
  "strategy_from_id value =
     (let v = ascii_lower (trim value) in
      if v \<in> {lit ''auto'', lit ''capability'', lit ''capability-probe''} then Some CapabilityProbe
      else if v \<in> {lit ''paste'', lit ''protected-paste'', lit ''uia-paste''} then Some ProtectedPaste
      else if v \<in> {lit ''replay'', lit ''physical-replay''} then Some PhysicalReplay
      else if v \<in> {lit ''disabled'', lit ''observe'', lit ''observe-only''} then Some ObserveOnly
      else None)"

record backend_rule_error =
  re_line :: nat
  re_message :: ustr

record backend_rules =
  br_exact :: "(ustr \<times> backend_strategy) list"
  br_fallback :: backend_strategy

definition normalize_process_path :: "unicode \<Rightarrow> ustr \<Rightarrow> ustr option" where
  "normalize_process_path U path_or_name =
     (let value = trim_matches (\<lambda>c. c = 0x22) (trim path_or_name) in
      if value = [] \<or> list_ex forbidden_in_windows_path value then None
      else Some (uc_lower_str U (map (\<lambda>c. if c = 0x2F then 0x5C else c) value)))"

definition normalize_rule_pattern :: "unicode \<Rightarrow> ustr \<Rightarrow> ustr option" where
  "normalize_rule_pattern U pattern0 =
     (let pattern = trim_matches (\<lambda>c. c = 0x22) (trim pattern0) in
      if pattern = lit ''*'' then Some (lit ''*'') else normalize_process_path U pattern)"

text \<open>One line of the loop: the rules so far and the fallback so far.\<close>

definition rule_line ::
  "unicode \<Rightarrow> nat \<Rightarrow> ustr \<Rightarrow> (ustr \<times> backend_strategy) list \<times> backend_strategy option
   \<Rightarrow> backend_rule_error + (ustr \<times> backend_strategy) list \<times> backend_strategy option" where
  "rule_line U line_number raw_line = (\<lambda>(exact, fallback).
     let line = trim raw_line;
         err = (\<lambda>m. Inl \<lparr>re_line = line_number, re_message = lit m\<rparr>) in
     if line = [] \<or> starts_with line 0x23 then Inr (exact, fallback)
     else case split_once 0x3D line of
       None \<Rightarrow> err ''expected executable = backend''
     | Some (pattern, strategy) \<Rightarrow> (case normalize_rule_pattern U pattern of
         None \<Rightarrow> err ''invalid executable name or path''
       | Some pattern \<Rightarrow>
           if starts_with pattern 0x23 then err ''an executable name cannot start with #''
           else (case strategy_from_id strategy of
             None \<Rightarrow> err ''unknown backend; use capability-probe, protected-paste, physical-replay, or observe-only''
           | Some strategy \<Rightarrow>
               if pattern = lit ''*'' then
                 (if fallback \<noteq> None then err ''duplicate catch-all rule''
                  else Inr (exact, Some strategy))
               else if om_lookup exact pattern \<noteq> None then err ''duplicate executable rule''
               else Inr (om_insert pattern strategy exact, fallback))))"

fun rule_lines ::
  "unicode \<Rightarrow> nat \<Rightarrow> ustr list \<Rightarrow> (ustr \<times> backend_strategy) list \<times> backend_strategy option
   \<Rightarrow> backend_rule_error + (ustr \<times> backend_strategy) list \<times> backend_strategy option" where
  "rule_lines U n [] st = Inr st"
| "rule_lines U n (l # ls) st =
     (case rule_line U n l st of Inl e \<Rightarrow> Inl e | Inr st' \<Rightarrow> rule_lines U (n + 1) ls st')"

definition rules_from_lines :: "unicode \<Rightarrow> ustr list \<Rightarrow> backend_rule_error + backend_rules" where
  "rules_from_lines U ls =
     (case rule_lines U 1 ls ([], None) of
        Inl e \<Rightarrow> Inl e
      | Inr (exact, fallback) \<Rightarrow>
          Inr \<lparr>br_exact = exact,
               br_fallback = (case fallback of None \<Rightarrow> CapabilityProbe | Some s \<Rightarrow> s)\<rparr>)"

definition built_in_rules :: "ustr list" where
  "built_in_rules = map lit
     [''notepad.exe = protected-paste'', ''viber.exe = protected-paste'',
      ''windowsterminal.exe = physical-replay'', ''openconsole.exe = physical-replay'',
      ''conhost.exe = physical-replay'', ''firefox.exe = physical-replay'',
      ''* = capability-probe'']"

definition rules_resolve :: "unicode \<Rightarrow> backend_rules \<Rightarrow> ustr \<Rightarrow> backend_strategy" where
  "rules_resolve U r path_or_name =
     (case normalize_process_path U path_or_name of
        None \<Rightarrow> ObserveOnly
      | Some full \<Rightarrow> (case om_lookup (br_exact r) full of
          Some s \<Rightarrow> s
        | None \<Rightarrow> (case om_lookup (br_exact r) (last_piece (\<lambda>c. c = 0x5C) full) of
            Some s \<Rightarrow> s
          | None \<Rightarrow> br_fallback r)))"

definition rule_text :: "ustr \<times> backend_strategy \<Rightarrow> ustr" where
  "rule_text = (\<lambda>(pattern, s). pattern @ lit '' = '' @ strategy_id s)"

definition rules_to_text :: "backend_rules \<Rightarrow> ustr" where
  "rules_to_text r =
     unlines (map rule_text (br_exact r) @ [lit ''* = '' @ strategy_id (br_fallback r)])"

definition rules_len :: "backend_rules \<Rightarrow> nat" where
  "rules_len r = length (br_exact r) + 1"

section \<open>A loaded file applies every rule it holds\<close>

lemma strategy_id_line [simp]:
  "trim (strategy_id s) = strategy_id s" "strategy_from_id (strategy_id s) = Some s"
  "strategy_id s \<noteq> []" "is_line (strategy_id s)" "clean_ends is_whitespace (strategy_id s)"
proof -
  show t: "trim (strategy_id s) = strategy_id s"
    by (rule trim_plain) (cases s; simp add: strategy_id_def is_whitespace_def)
  show "strategy_from_id (strategy_id s) = Some s"
    unfolding strategy_from_id_def t by (cases s) (simp_all add: strategy_id_def ascii_defs)
  show "strategy_id s \<noteq> []" "is_line (strategy_id s)" "clean_ends is_whitespace (strategy_id s)"
    by (cases s; simp add: strategy_id_def is_line_def clean_ends_def is_whitespace_def)+
qed

lemma rule_line_keeps:
  "rule_line U n l (ex, fb) = Inr (ex', fb') \<Longrightarrow> om_lookup ex k = Some s \<Longrightarrow> om_lookup ex' k = Some s"
  by (auto simp: rule_line_def Let_def om_lookup_insert split: if_splits option.splits)

lemma rule_lines_keeps:
  "rule_lines U n ls (ex, fb) = Inr (ex', fb') \<Longrightarrow> om_lookup ex k = Some s \<Longrightarrow> om_lookup ex' k = Some s"
proof (induction ls arbitrary: n ex fb)
  case (Cons l ls)
  then show ?case
    by (cases "rule_line U n l (ex, fb)") (auto dest: rule_line_keeps)
qed simp

definition states_rule :: "unicode \<Rightarrow> ustr \<Rightarrow> ustr \<Rightarrow> backend_strategy \<Rightarrow> bool" where
  "states_rule U l k s \<longleftrightarrow>
     trim l \<noteq> [] \<and> \<not> starts_with (trim l) 0x23
     \<and> (\<exists>p t. split_once 0x3D (trim l) = Some (p, t) \<and> normalize_rule_pattern U p = Some k
              \<and> strategy_from_id t = Some s)"

lemma rule_line_states:
  "rule_line U n l (ex, fb) = Inr (ex', fb') \<Longrightarrow> states_rule U l k s \<Longrightarrow> k \<noteq> lit ''*'' \<Longrightarrow>
   om_lookup ex' k = Some s"
  by (auto simp: rule_line_def states_rule_def Let_def om_lookup_insert split: if_splits)

lemma rule_lines_states:
  "rule_lines U n ls (ex, fb) = Inr (ex', fb') \<Longrightarrow> l \<in> set ls \<Longrightarrow> states_rule U l k s \<Longrightarrow>
   k \<noteq> lit ''*'' \<Longrightarrow> om_lookup ex' k = Some s"
proof (induction ls arbitrary: n ex fb)
  case (Cons l' ls)
  then obtain ex1 fb1 where st: "rule_line U n l' (ex, fb) = Inr (ex1, fb1)"
    and rest: "rule_lines U (n + 1) ls (ex1, fb1) = Inr (ex', fb')"
    by (cases "rule_line U n l' (ex, fb)") auto
  show ?case
  proof (cases "l = l'")
    case True
    with st Cons.prems have "om_lookup ex1 k = Some s" by (simp add: rule_line_states)
    with rest show ?thesis by (rule rule_lines_keeps)
  qed (use Cons rest in auto)
qed simp

text \<open>A rule of a file that loaded governs its program: whatever program or path a line
  names, every process path that normalizes to the same text gets that line's strategy; no
  other line of the file and no fallback can change it.\<close>

theorem loaded_rule_governs:
  assumes "rules_from_lines U ls = Inr r" and "l \<in> set ls" and "states_rule U l k s"
    and "k \<noteq> lit ''*''" and "normalize_process_path U path = Some k"
  shows "rules_resolve U r path = s"
proof -
  obtain ex fb where st: "rule_lines U 1 ls ([], None) = Inr (ex, fb)"
    and r: "r = \<lparr>br_exact = ex, br_fallback = (case fb of None \<Rightarrow> CapabilityProbe | Some s \<Rightarrow> s)\<rparr>"
    using assms(1) by (auto simp: rules_from_lines_def split: sum.splits)
  have "om_lookup ex k = Some s" by (rule rule_lines_states [OF st assms(2,3,4)])
  then show ?thesis by (simp add: rules_resolve_def assms(5) r)
qed

lemma loaded_rule_governs_witness:
  "\<exists>r. rules_from_lines ascii_tables [lit ''# hosts'', lit ''C:/P/Editor.exe = replay''] = Inr r
     \<and> rules_resolve ascii_tables r (lit ''c:/p/EDITOR.EXE'') = PhysicalReplay"
proof -
  note ev = rule_line_def Let_def trim_def trim_matches_def is_whitespace_def split_once_def
    normalize_rule_pattern_def normalize_process_path_def forbidden_in_windows_path_def is_control_def
    strategy_from_id_def ascii_defs om_lookup_def states_rule_def
  let ?ls = "[lit ''# hosts'', lit ''C:/P/Editor.exe = replay'']"
  obtain r where r: "rules_from_lines ascii_tables ?ls = Inr r"
    by (simp add: rules_from_lines_def ev)
  have "rules_resolve ascii_tables r (lit ''c:/p/EDITOR.EXE'') = PhysicalReplay"
    by (rule loaded_rule_governs [OF r, where l = "lit ''C:/P/Editor.exe = replay''"
          and k = "ascii_lower (map (\<lambda>c. if c = 0x2F then 0x5C else c) (lit ''c:/p/editor.exe''))"])
      (simp_all add: ev)
  with r show ?thesis by blast
qed

section \<open>Reading back what is written\<close>

text \<open>A key that survives being read back: the normal case. A key that two layers of quotes
  leave with spaces at its ends is not stable.\<close>

definition stable_key :: "unicode \<Rightarrow> ustr \<Rightarrow> bool" where
  "stable_key U k \<longleftrightarrow>
     normalize_rule_pattern U k = Some k \<and> k \<noteq> [] \<and> k \<noteq> lit ''*'' \<and> clean_ends is_whitespace k
     \<and> \<not> starts_with k 0x23 \<and> 0x3D \<notin> set k \<and> is_line k"

lemma split_rule_text:
  assumes "clean_ends is_whitespace k" "k \<noteq> []" "0x3D \<notin> set k"
  shows "trim (rule_text (k, s)) = rule_text (k, s)"
    and "split_once 0x3D (rule_text (k, s)) = Some (k @ [0x20], 0x20 # strategy_id s)"
proof -
  show "trim (rule_text (k, s)) = rule_text (k, s)"
    unfolding rule_text_def prod.case
    by (subst trim_def) (intro trim_matches_clean clean_ends_append assms; simp)
  show "split_once 0x3D (rule_text (k, s)) = Some (k @ [0x20], 0x20 # strategy_id s)"
    using assms(3) by (simp add: split_once_Some rule_text_def)
qed

lemma trim_spaces:
  "clean_ends is_whitespace k \<Longrightarrow> trim (k @ [0x20]) = k" "trim (0x20 # strategy_id s) = strategy_id s"
  using trim_pad_right [of k "[0x20]"] trim_pad_left [of "strategy_id s" "[0x20]"]
  by (simp_all add: is_whitespace_def)

lemma normalize_rule_pattern_trim: "trim p = q \<Longrightarrow> normalize_rule_pattern U p = normalize_rule_pattern U q"
  by (auto simp: normalize_rule_pattern_def)

lemma strategy_from_id_trim: "trim p = q \<Longrightarrow> strategy_from_id p = strategy_from_id q"
  by (auto simp: strategy_from_id_def)

lemma rule_line_text:
  assumes "stable_key U k" "om_lookup ex k = None"
  shows "rule_line U n (rule_text (k, s)) (ex, fb) = Inr (om_insert k s ex, fb)"
proof -
  have k: "clean_ends is_whitespace k" "k \<noteq> []" "0x3D \<notin> set k" "\<not> starts_with k 0x23"
    using assms(1) by (simp_all add: stable_key_def)
  have "normalize_rule_pattern U (k @ [0x20]) = Some k" "strategy_from_id (0x20 # strategy_id s) = Some s"
    using assms(1) normalize_rule_pattern_trim [OF trim_spaces(1) [OF k(1)], of U]
      strategy_from_id_trim [OF trim_spaces(2), of s] by (simp_all add: stable_key_def)
  moreover have "\<not> starts_with (rule_text (k, s)) 0x23" "rule_text (k, s) \<noteq> []"
    using k by (cases k; simp add: rule_text_def)+
  ultimately show ?thesis
    using assms k unfolding rule_line_def split_rule_text(1) [OF k(1-3)]
    by (simp add: split_rule_text(2) [OF k(1-3)] stable_key_def)
qed

lemma om_insert_last: "om_sorted (m @ [(k, v)]) \<Longrightarrow> om_insert k v m = m @ [(k, v)]"
  by (induction m) (auto simp: om_sorted_def)

lemma om_sorted_append: "om_sorted (m @ n) \<Longrightarrow> om_sorted m"
  by (simp add: om_sorted_def sorted_wrt_append)

lemma om_lookup_fresh: "om_sorted (m @ (k, v) # n) \<Longrightarrow> om_lookup m k = None"
  by (auto simp: om_sorted_def sorted_wrt_append om_lookup_def map_of_eq_None_iff)

lemma rule_lines_text:
  "om_sorted (ex @ m) \<Longrightarrow> \<forall>(k, s) \<in> set m. stable_key U k \<Longrightarrow>
   rule_lines U n (map rule_text m @ ls) (ex, fb) = rule_lines U (n + length m) ls (ex @ m, fb)"
proof (induction m arbitrary: n ex)
  case (Cons e m)
  obtain k s where e: "e = (k, s)" by (cases e)
  have "om_sorted (ex @ [(k, s)])" using Cons.prems(1) om_sorted_append [of "ex @ [e]" m] by (simp add: e)
  then have "om_insert k s ex = ex @ [(k, s)]" by (rule om_insert_last)
  moreover have "om_lookup ex k = None" using Cons.prems(1) om_lookup_fresh by (simp add: e)
  ultimately have "rule_line U n (rule_text e) (ex, fb) = Inr (ex @ [e], fb)"
    using Cons.prems(2) by (simp add: e rule_line_text)
  then show ?case using Cons.IH [of "ex @ [e]" "Suc n"] Cons.prems by simp
qed simp

lemma fallback_line:
  "rule_line U n (lit ''* = '' @ strategy_id s) (ex, None) = Inr (ex, Some s)"
proof -
  have star: "clean_ends is_whitespace (lit ''*'')" "lit ''*'' \<noteq> []" "0x3D \<notin> set (lit ''*'')"
    by (simp_all add: clean_ends_def is_whitespace_def)
  have t: "lit ''* = '' @ strategy_id s = rule_text (lit ''*'', s)" by (simp add: rule_text_def)
  have "normalize_rule_pattern U (lit ''*'' @ [0x20]) = Some (lit ''*'')"
    by (simp add: normalize_rule_pattern_def Let_def trim_def trim_matches_def is_whitespace_def)
  moreover have "strategy_from_id (0x20 # strategy_id s) = Some s"
    using strategy_from_id_trim [OF trim_spaces(2), of s] by simp
  moreover have "split_once 61 (42 # 32 # 61 # 32 # strategy_id s) = Some ([42, 32], 32 # strategy_id s)"
    by (simp add: split_once_Some)
  ultimately show ?thesis
    unfolding t rule_line_def split_rule_text(1) [OF star] by (simp add: rule_text_def)
qed

text \<open>Saving the rules and loading them again changes nothing: the text written for any
  rule set whose patterns are stable parses back, without error, to the same rules and the
  same fallback.\<close>

theorem rules_roundtrip:
  assumes "om_sorted (br_exact r)" and "\<forall>(k, s) \<in> set (br_exact r). stable_key U k"
  shows "rules_from_lines U (str_lines (rules_to_text r)) = Inr r"
proof -
  let ?fb = "lit ''* = '' @ strategy_id (br_fallback r)"
  have "\<forall>l \<in> set (map rule_text (br_exact r) @ [?fb]). is_line l"
    using assms(2) strategy_id_line(4)
    by (auto simp: rule_text_def stable_key_def is_line_def)
  then have "str_lines (rules_to_text r) = map rule_text (br_exact r) @ [?fb]"
    unfolding rules_to_text_def by (rule str_lines_unlines)
  moreover have "rule_lines U 1 (map rule_text (br_exact r) @ [?fb]) ([], None)
      = Inr (br_exact r, Some (br_fallback r))"
    using rule_lines_text [of "[]" "br_exact r" U 1 "[?fb]" None] assms
    by (simp add: fallback_line del: lit_simps)
  ultimately show ?thesis by (simp add: rules_from_lines_def)
qed

lemma rules_roundtrip_witness:
  "rules_from_lines ascii_tables (str_lines (rules_to_text
     \<lparr>br_exact = [(lit ''a.exe'', PhysicalReplay), (lit ''b.exe'', ObserveOnly)], br_fallback = CapabilityProbe\<rparr>))
   = Inr \<lparr>br_exact = [(lit ''a.exe'', PhysicalReplay), (lit ''b.exe'', ObserveOnly)], br_fallback = CapabilityProbe\<rparr>"
proof (rule rules_roundtrip)
  show "om_sorted (br_exact \<lparr>br_exact = [(lit ''a.exe'', PhysicalReplay), (lit ''b.exe'', ObserveOnly)],
      br_fallback = CapabilityProbe\<rparr>)" by (simp add: om_sorted_def)
  show "\<forall>(k, s) \<in> set (br_exact \<lparr>br_exact = [(lit ''a.exe'', PhysicalReplay), (lit ''b.exe'', ObserveOnly)],
      br_fallback = CapabilityProbe\<rparr>). stable_key ascii_tables k"
    by (simp add: stable_key_def normalize_rule_pattern_def normalize_process_path_def Let_def trim_def
        trim_matches_def is_whitespace_def forbidden_in_windows_path_def is_control_def ascii_defs
        clean_ends_def is_line_def)
qed

text \<open>Two layers of quotes leave spaces in a stored pattern: the rule then matches no program,
  and what is written for it reads back as another rule.\<close>

lemma quoted_twice_not_stable:
  "normalize_rule_pattern ascii_tables [0x22, 0x20, 0x22, 0x20, 0x78, 0x20, 0x22, 0x20, 0x22]
     = Some [0x20, 0x78, 0x20]
   \<and> normalize_rule_pattern ascii_tables [0x20, 0x78, 0x20] = Some [0x78]"
  by (simp add: normalize_rule_pattern_def normalize_process_path_def Let_def trim_def
      trim_matches_def is_whitespace_def forbidden_in_windows_path_def is_control_def ascii_defs)

end
