(* ===== verification/Hotkey.thy ===== *)
theory Hotkey
  imports Rust_Text
begin

text \<open>
  \<open>src/hotkey.rs\<close>: the contextual force/undo hotkey, its validation, its spelling and
  its matching against key events. Virtual keys are 16-bit words, modifier sets 8-bit
  words, as in the source; an error carries the message the source formats.
\<close>

definition HOTKEY_MOD_CONTROL :: u8 where [consts_def]: "HOTKEY_MOD_CONTROL = 1"
definition HOTKEY_MOD_ALT :: u8 where [consts_def]: "HOTKEY_MOD_ALT = 2"
definition HOTKEY_MOD_SHIFT :: u8 where [consts_def]: "HOTKEY_MOD_SHIFT = 4"
definition HOTKEY_MOD_WIN :: u8 where [consts_def]: "HOTKEY_MOD_WIN = 8"
definition HOTKEY_MOD_MASK :: u8 where
  [consts_def]: "HOTKEY_MOD_MASK =
     HOTKEY_MOD_CONTROL OR HOTKEY_MOD_ALT OR HOTKEY_MOD_SHIFT OR HOTKEY_MOD_WIN"

definition VK_CANCEL :: u16 where [consts_def]: "VK_CANCEL = 0x03"
definition VK_PAUSE :: u16 where [consts_def]: "VK_PAUSE = 0x13"
definition VK_INSERT :: u16 where [consts_def]: "VK_INSERT = 0x2d"
definition VK_F1 :: u16 where [consts_def]: "VK_F1 = 0x70"
definition VK_F24 :: u16 where [consts_def]: "VK_F24 = 0x87"
definition VK_SCROLL :: u16 where [consts_def]: "VK_SCROLL = 0x91"

record hotkey =
  hk_key :: u16
  hk_mods :: u8

type_synonym hotkey_error = ustr

definition hotkey_default :: hotkey where
  "hotkey_default = \<lparr>hk_key = VK_PAUSE, hk_mods = 0\<rparr>"

definition is_digit_key :: "u16 \<Rightarrow> bool" where
  "is_digit_key vk \<longleftrightarrow> 0x30 \<le> vk \<and> vk \<le> 0x39"

definition is_letter_key :: "u16 \<Rightarrow> bool" where
  "is_letter_key vk \<longleftrightarrow> 0x41 \<le> vk \<and> vk \<le> 0x5a"

definition is_function_key :: "u16 \<Rightarrow> bool" where
  "is_function_key vk \<longleftrightarrow> VK_F1 \<le> vk \<and> vk \<le> VK_F24"

definition types_text :: "u16 \<Rightarrow> u8 \<Rightarrow> bool" where
  "types_text vk m =
     (let letter_or_digit = is_digit_key vk \<or> is_letter_key vk;
          ctrl_alt = HOTKEY_MOD_CONTROL OR HOTKEY_MOD_ALT
      in letter_or_digit
         \<and> (m = HOTKEY_MOD_SHIFT
            \<or> (m AND HOTKEY_MOD_WIN = 0 \<and> m AND ctrl_alt = ctrl_alt)))"

definition hotkey_new :: "u16 \<Rightarrow> u8 \<Rightarrow> hotkey_error + hotkey" where
  "hotkey_new vk0 m0 =
     (let (vk, m) = (if vk0 = VK_CANCEL then (VK_PAUSE, m0 OR HOTKEY_MOD_CONTROL) else (vk0, m0))
      in if m AND NOT HOTKEY_MOD_MASK \<noteq> 0 then Inl (lit ''unknown hotkey modifier bits'')
      else
        let ordinary_key = is_digit_key vk \<or> is_letter_key vk;
            supported_key = vk \<in> {VK_CANCEL, VK_PAUSE, VK_INSERT, VK_SCROLL}
                            \<or> is_function_key vk \<or> ordinary_key
        in if \<not> supported_key then Inl (lit ''unsupported hotkey key'')
        else if ordinary_key \<and> m = 0
        then Inl (lit ''letter and number hotkeys require at least one modifier'')
        else if types_text vk m
        then Inl (lit ''a letter or number with Shift alone or with Ctrl+Alt types text'')
        else Inr \<lparr>hk_key = vk, hk_mods = m\<rparr>)"

section \<open>Spelling\<close>

text \<open>Decimal digits, and \<open>u16::from_str\<close>: an optional plus sign, then digits, in range.\<close>

fun decimal :: "nat \<Rightarrow> ustr" where
  "decimal n = (if n < 10 then [48 + n] else decimal (n div 10) @ [48 + n mod 10])"

declare decimal.simps [simp del]

fun digits_value :: "nat \<Rightarrow> ustr \<Rightarrow> nat option" where
  "digits_value acc [] = Some acc"
| "digits_value acc (c # s) =
     (if is_ascii_digit c then digits_value (10 * acc + (c - 48)) s else None)"

definition parse_u16 :: "ustr \<Rightarrow> nat option" where
  "parse_u16 s =
     (let d = (case s of c # t \<Rightarrow> if c = 0x2B then t else s | [] \<Rightarrow> s)
      in if d = [] then None
         else case digits_value 0 d of
           Some n \<Rightarrow> if n < 65536 then Some n else None
         | None \<Rightarrow> None)"

definition parse_key :: "ustr \<Rightarrow> u16 option" where
  "parse_key key0 =
     (let key = trim key0 in
      if eq_ignore_ascii_case key (lit ''pause'') \<or> eq_ignore_ascii_case key (lit ''pause/break'')
      then Some VK_PAUSE
      else if eq_ignore_ascii_case key (lit ''break'') then Some VK_CANCEL
      else if eq_ignore_ascii_case key (lit ''insert'') then Some VK_INSERT
      else if eq_ignore_ascii_case key (lit ''scroll'') \<or> eq_ignore_ascii_case key (lit ''scroll lock'')
      then Some VK_SCROLL
      else
        let upper = ascii_upper key in
        case Option.bind (strip_prefix (lit ''F'') upper) parse_u16 of
          Some n \<Rightarrow>
            if 1 \<le> n \<and> n \<le> 24 then Some (VK_F1 + of_nat n - 1)
            else (case upper of
                [c] \<Rightarrow> if is_ascii_uppercase c \<or> is_ascii_digit c then Some (of_nat c) else None
              | _ \<Rightarrow> None)
        | None \<Rightarrow>
            (case upper of
                [c] \<Rightarrow> if is_ascii_uppercase c \<or> is_ascii_digit c then Some (of_nat c) else None
              | _ \<Rightarrow> None))"

definition modifier_bit :: "ustr \<Rightarrow> u8 option" where
  "modifier_bit m =
     (if eq_ignore_ascii_case m (lit ''ctrl'') \<or> eq_ignore_ascii_case m (lit ''control'')
      then Some HOTKEY_MOD_CONTROL
      else if eq_ignore_ascii_case m (lit ''alt'') then Some HOTKEY_MOD_ALT
      else if eq_ignore_ascii_case m (lit ''shift'') then Some HOTKEY_MOD_SHIFT
      else if eq_ignore_ascii_case m (lit ''win'') \<or> eq_ignore_ascii_case m (lit ''windows'')
      then Some HOTKEY_MOD_WIN
      else None)"

fun add_modifiers :: "u8 \<Rightarrow> ustr list \<Rightarrow> hotkey_error + u8" where
  "add_modifiers result [] = Inr result"
| "add_modifiers result (m # ms) =
     (case modifier_bit m of
        None \<Rightarrow> Inl (lit ''unknown hotkey modifier: '' @ m)
      | Some b \<Rightarrow>
          if result AND b \<noteq> 0 then Inl (lit ''duplicate hotkey modifier: '' @ m)
          else add_modifiers (result OR b) ms)"

definition is_modifier_separator :: "uchar \<Rightarrow> bool" where
  "is_modifier_separator c \<longleftrightarrow> c = 0x2B \<or> c = 0x2C \<or> c = 0x20"

definition parse_modifiers :: "ustr \<Rightarrow> hotkey_error + u8" where
  "parse_modifiers s =
     add_modifiers 0 (filter (\<lambda>m. m \<noteq> []) (map trim (split_on is_modifier_separator s)))"

definition typing_chord :: "ustr \<Rightarrow> ustr \<Rightarrow> hotkey option" where
  "typing_chord key mods =
     (case parse_key key of None \<Rightarrow> None
      | Some vk \<Rightarrow> (case parse_modifiers mods of Inl _ \<Rightarrow> None
          | Inr m \<Rightarrow> if types_text vk m then Some \<lparr>hk_key = vk, hk_mods = m\<rparr> else None))"

definition from_parts :: "ustr \<Rightarrow> ustr \<Rightarrow> hotkey_error + hotkey" where
  "from_parts key mods =
     (case parse_key key of
        None \<Rightarrow> Inl (lit ''unknown hotkey key: '' @ trim key)
      | Some vk \<Rightarrow> (case parse_modifiers mods of Inl e \<Rightarrow> Inl e | Inr m \<Rightarrow> hotkey_new vk m))"

definition key_name_of :: "u16 \<Rightarrow> ustr" where
  "key_name_of vk =
     (if vk = VK_CANCEL then lit ''Break''
      else if vk = VK_PAUSE then lit ''Pause/Break''
      else if vk = VK_INSERT then lit ''Insert''
      else if vk = VK_SCROLL then lit ''Scroll Lock''
      else if is_function_key vk then lit ''F'' @ decimal (unat (vk - VK_F1 + 1))
      else if is_letter_key vk \<or> is_digit_key vk then [unat vk]
      else lit ''Pause/Break'')"

definition key_name :: "hotkey \<Rightarrow> ustr" where
  "key_name h = key_name_of (hk_key h)"

definition modifiers_text_of :: "u8 \<Rightarrow> ustr" where
  "modifiers_text_of m =
     (let parts = (if m AND HOTKEY_MOD_CONTROL \<noteq> 0 then [lit ''Ctrl''] else [])
                @ (if m AND HOTKEY_MOD_ALT \<noteq> 0 then [lit ''Alt''] else [])
                @ (if m AND HOTKEY_MOD_SHIFT \<noteq> 0 then [lit ''Shift''] else [])
                @ (if m AND HOTKEY_MOD_WIN \<noteq> 0 then [lit ''Win''] else [])
      in case parts of [] \<Rightarrow> [] | p # ps \<Rightarrow> p @ concat (map (\<lambda>q. lit ''+'' @ q) ps))"

definition modifiers_text :: "hotkey \<Rightarrow> ustr" where
  "modifiers_text h = modifiers_text_of (hk_mods h)"

definition display_name :: "hotkey \<Rightarrow> ustr" where
  "display_name h =
     (let ms = modifiers_text h
      in if ms = [] then key_name h else ms @ lit ''+'' @ key_name h)"

section \<open>Matching\<close>

definition matches_key :: "hotkey \<Rightarrow> u16 \<Rightarrow> bool" where
  "matches_key h vk \<longleftrightarrow>
     hk_key h = vk
     \<or> (hk_key h = VK_PAUSE \<and> vk = VK_CANCEL \<and> hk_mods h AND HOTKEY_MOD_CONTROL \<noteq> 0)"

definition hotkey_matches :: "hotkey \<Rightarrow> u16 \<Rightarrow> u8 \<Rightarrow> bool" where
  "hotkey_matches h vk m \<longleftrightarrow> matches_key h vk \<and> hk_mods h = m"

definition selectable_keys :: "(ustr \<times> u16) list" where
  "selectable_keys =
     [(lit ''Pause/Break'', VK_PAUSE), (lit ''Insert'', VK_INSERT), (lit ''Scroll Lock'', VK_SCROLL)]
     @ map (\<lambda>n. (lit ''F'' @ decimal (n + 1), VK_F1 + of_nat n)) [0 ..< 24]
     @ map (\<lambda>c. ([c], of_nat c)) [65 ..< 91]
     @ map (\<lambda>c. ([c], of_nat c)) [48 ..< 58]"

section \<open>Validation\<close>

definition canonical :: "u16 \<Rightarrow> u8 \<Rightarrow> hotkey" where
  "canonical vk m =
     (if vk = VK_CANCEL then \<lparr>hk_key = VK_PAUSE, hk_mods = m OR HOTKEY_MOD_CONTROL\<rparr>
      else \<lparr>hk_key = vk, hk_mods = m\<rparr>)"

definition usable :: "hotkey \<Rightarrow> bool" where
  "usable h \<longleftrightarrow>
     hk_mods h AND NOT HOTKEY_MOD_MASK = 0
     \<and> (hk_key h \<in> {VK_PAUSE, VK_INSERT, VK_SCROLL} \<or> is_function_key (hk_key h)
        \<or> is_digit_key (hk_key h) \<or> is_letter_key (hk_key h))
     \<and> (is_digit_key (hk_key h) \<or> is_letter_key (hk_key h) \<longrightarrow> hk_mods h \<noteq> 0)
     \<and> \<not> types_text (hk_key h) (hk_mods h)"

lemma vk_distinct [simp]:
  "VK_PAUSE \<noteq> VK_CANCEL" "VK_CANCEL \<noteq> VK_PAUSE" "VK_INSERT \<noteq> VK_CANCEL" "VK_SCROLL \<noteq> VK_CANCEL"
  "VK_INSERT \<noteq> VK_PAUSE" "VK_SCROLL \<noteq> VK_PAUSE" "VK_SCROLL \<noteq> VK_INSERT"
  by (simp_all add: consts_def)

lemma not_cancel [simp]:
  "\<not> is_function_key VK_CANCEL" "\<not> is_digit_key VK_CANCEL" "\<not> is_letter_key VK_CANCEL"
  by (simp_all add: is_function_key_def is_digit_key_def is_letter_key_def consts_def)

lemma hotkey_new_canonical:
  "hotkey_new vk m = hotkey_new (hk_key (canonical vk m)) (hk_mods (canonical vk m))"
  "hk_key (canonical vk m) \<noteq> VK_CANCEL"
  by (cases "vk = VK_CANCEL";
      simp only: hotkey_new_def canonical_def if_True if_False hotkey.simps vk_distinct simp_thms)+

lemma hotkey_new_eq:
  "hotkey_new vk m =
    (if m AND NOT HOTKEY_MOD_MASK \<noteq> 0 then Inl (lit ''unknown hotkey modifier bits'')
     else if \<not> (vk \<in> {VK_PAUSE, VK_INSERT, VK_SCROLL} \<or> is_function_key vk
        \<or> is_digit_key vk \<or> is_letter_key vk) then Inl (lit ''unsupported hotkey key'')
     else if (is_digit_key vk \<or> is_letter_key vk) \<and> m = 0
     then Inl (lit ''letter and number hotkeys require at least one modifier'')
     else if types_text vk m
     then Inl (lit ''a letter or number with Shift alone or with Ctrl+Alt types text'')
     else Inr \<lparr>hk_key = vk, hk_mods = m\<rparr>)" if "vk \<noteq> VK_CANCEL"
  unfolding hotkey_new_def Let_def if_not_P [OF that] prod.case
  by (simp only: insert_iff that simp_thms disj_assoc)
lemma hotkey_new_other:
  assumes "vk \<noteq> VK_CANCEL"
  shows "hotkey_new vk m = Inr h \<longleftrightarrow> h = \<lparr>hk_key = vk, hk_mods = m\<rparr> \<and> usable h"
  unfolding hotkey_new_eq [OF assms]
  by (simp only: if_bool_eq_conj usable_def hotkey.simps split: if_split)  auto

lemma hotkey_new_Inr:
  "hotkey_new vk m = Inr h \<longleftrightarrow> h = canonical vk m \<and> usable h"
  by (subst hotkey_new_canonical(1), subst hotkey_new_other [OF hotkey_new_canonical(2)]) auto

lemma usable_key: "usable h \<Longrightarrow> hk_key h \<noteq> VK_CANCEL"
  by (auto simp: usable_def)

lemma usable_canonical: "usable h \<Longrightarrow> canonical (hk_key h) (hk_mods h) = h"
  by (simp add: canonical_def usable_key)

lemma usable_canonical_new: "hotkey_new vk m = Inr h \<Longrightarrow> usable h"
  by (blast dest: hotkey_new_Inr [THEN iffD1])

lemma hotkey_new_usable: "usable h \<Longrightarrow> hotkey_new (hk_key h) (hk_mods h) = Inr h"
  by (simp add: hotkey_new_Inr usable_canonical)

section \<open>Reading back what is written\<close>

lemma digits_value_append:
  "digits_value acc (s @ t) = Option.bind (digits_value acc s) (\<lambda>a. digits_value a t)"
  by (induction s arbitrary: acc) auto

lemma digits_value_decimal: "digits_value 0 (decimal n) = Some n"
proof (induction n rule: decimal.induct)
  case (1 n)
  have "n mod 10 \<le> 9" using mod_less_divisor [of 10 n] by simp
  then show ?case
    using 1 by (cases "n < 10") (simp_all add: decimal.simps [of n] digits_value_append is_ascii_digit_def)
qed

lemma decimal_digits: "c \<in> set (decimal n) \<Longrightarrow> is_ascii_digit c"
proof (induction n rule: decimal.induct)
  case (1 n)
  then show ?case by (auto simp: decimal.simps [of n] is_ascii_digit_def split: if_splits)
qed

lemma decimal_nonempty [simp]: "decimal n \<noteq> []"
  by (simp add: decimal.simps [of n])

lemma parse_u16_decimal: "n < 65536 \<Longrightarrow> parse_u16 (decimal n) = Some n"
proof -
  assume n: "n < 65536"
  obtain c t where ct: "decimal n = c # t" by (cases "decimal n") simp_all
  with decimal_digits [of c n] have "c \<noteq> 0x2B" by (auto simp: is_ascii_digit_def)
  then show ?thesis using digits_value_decimal [of n] n by (simp add: parse_u16_def ct)
qed

lemma printed_not_space: "is_ascii_alphanumeric c \<Longrightarrow> \<not> is_whitespace c"
  by (auto simp: ascii_defs is_whitespace_def)

lemma eq_ignore_ascii_case_length:
  "eq_ignore_ascii_case s t \<Longrightarrow> length s = length t"
  by (auto simp: eq_ignore_ascii_case_def dest: map_eq_imp_length_eq)

lemma eq_ignore_ascii_case_hd:
  "eq_ignore_ascii_case (c # s) (d # t) \<Longrightarrow> to_ascii_lowercase c = to_ascii_lowercase d"
  by (simp add: eq_ignore_ascii_case_def)

lemma parse_key_single:
  assumes "is_ascii_uppercase c \<or> is_ascii_digit c"
  shows "parse_key [c] = Some (of_nat c)"
proof -
  have t: "trim [c] = [c]"
    by (rule trim_plain) (use assms in \<open>auto simp: ascii_defs is_whitespace_def\<close>)
  have u: "ascii_upper [c] = [c]" using assms by (auto simp: ascii_defs)
  have "\<not> eq_ignore_ascii_case [c] (d # e # w)" for d e w by (simp add: eq_ignore_ascii_case_def)
  then show ?thesis
    using assms unfolding parse_key_def Let_def t u
    by (cases "c = 0x46") (simp_all add: parse_u16_def)
qed

lemma parse_key_function:
  assumes "1 \<le> n" and "n \<le> 24"
  shows "parse_key (lit ''F'' @ decimal n) = Some (VK_F1 + of_nat n - 1)"
proof -
  have digits: "\<forall>c \<in> set (decimal n). is_ascii_digit c" by (auto dest: decimal_digits)
  have "trim (lit ''F'' @ decimal n) = lit ''F'' @ decimal n"
    by (rule trim_plain) (use digits in \<open>auto simp: is_whitespace_def is_ascii_digit_def\<close>)
  moreover have "ascii_upper (decimal n) = decimal n"
    by (rule map_idI) (use digits in \<open>auto simp: ascii_defs\<close>)
  moreover have "\<not> eq_ignore_ascii_case (0x46 # decimal n) (d # w)"
    if "to_ascii_lowercase d \<noteq> 0x66" for d w
    using eq_ignore_ascii_case_hd [of "0x46" "decimal n" d w] that by (auto simp: ascii_defs)
  ultimately show ?thesis
    using assms parse_u16_decimal [of n]
    by (simp add: parse_key_def Let_def ascii_defs)
qed

lemma parse_key_name:
  assumes "usable h"
  shows "parse_key (key_name h) = Some (hk_key h)"
proof -
  let ?k = "hk_key h"
  consider "?k \<in> {VK_PAUSE, VK_INSERT, VK_SCROLL}" | "is_function_key ?k"
    | "is_digit_key ?k \<or> is_letter_key ?k"
    using assms by (auto simp: usable_def)
  then show ?thesis
  proof cases
    case 1
    then show ?thesis
      by (elim insertE emptyE)
        (simp_all add: key_name_def key_name_of_def parse_key_def Let_def trim_def trim_matches_def
          is_whitespace_def eq_ignore_ascii_case_def ascii_defs)
  next
    case 2
    let ?n = "unat (?k - VK_F1 + 1)"
    have b: "0x70 \<le> unat ?k" "unat ?k \<le> 0x87"
      using 2 by (simp_all add: is_function_key_def consts_def word_le_nat_alt)
    have f: "VK_F1 = 0x70" by (simp add: consts_def)
    have "unat (?k - 0x70) = unat ?k - 0x70"
      using b by (subst unat_sub) (simp_all add: word_le_nat_alt)
    then have n: "?n = unat ?k - 0x70 + 1"
      using b unfolding f by (subst unat_word_ariths) simp
    have "VK_F1 + of_nat ?n - 1 = ?k"
      by simp
    moreover have "?k \<notin> {VK_PAUSE, VK_INSERT, VK_SCROLL, VK_CANCEL}"
      using 2 by (auto simp: is_function_key_def consts_def)
    ultimately show ?thesis
      using parse_key_function [of ?n] n b 2
      by (simp add: key_name_def key_name_of_def del: lit_simps)
  next
    case 3
    then have u: "is_ascii_uppercase (unat ?k) \<or> is_ascii_digit (unat ?k)"
      by (auto simp: is_digit_key_def is_letter_key_def ascii_defs word_le_nat_alt)
    moreover have "key_name h = [unat ?k]"
      using 3 by (auto simp: key_name_def key_name_of_def is_function_key_def is_digit_key_def
          is_letter_key_def consts_def word_le_nat_alt)
    ultimately show ?thesis using parse_key_single [OF u] by simp
  qed
qed

lemma u8_within_mask:
  fixes m :: u8
  assumes "m AND NOT 15 = 0"
  shows "\<exists>n \<in> set [0 ..< 16]. m = of_nat n"
proof -
  have "m = m AND 15"
    using assms by (metis bit.conj_disj_distrib bit.disj_cancel_right bit.conj_one_right or.right_neutral)
  then have "m \<le> 15" by (metis word_and_le1)
  then have "unat m < 16" by (simp add: word_le_nat_alt)
  then show ?thesis by (intro bexI [where x = "unat m"]) simp_all
qed

lemmas modifier_eval = parse_modifiers_def modifiers_text_of_def consts_def Let_def
  is_modifier_separator_def trim_def trim_matches_def is_whitespace_def modifier_bit_def
  eq_ignore_ascii_case_def ascii_defs

lemma parse_modifiers_text:
  assumes "m AND NOT HOTKEY_MOD_MASK = 0"
  shows "parse_modifiers (modifiers_text_of m) = Inr m"
proof -
  have "list_all (\<lambda>n. parse_modifiers (modifiers_text_of (of_nat n)) = Inr (of_nat n)) [0 ..< 16]"
    by (simp add: upt_rec modifier_eval)
  moreover have "\<exists>n \<in> set [0 ..< 16]. m = of_nat n"
    by (rule u8_within_mask) (use assms in \<open>simp add: consts_def\<close>)
  ultimately show ?thesis by (auto simp: list_all_iff)
qed

section \<open>What configuration and the settings window rely on\<close>

lemma from_parts_new:
  "usable h \<Longrightarrow> from_parts (key_name h) (modifiers_text h) = Inr h"
  by (simp add: from_parts_def parse_key_name modifiers_text_def parse_modifiers_text
      hotkey_new_usable usable_def [THEN iffD1, THEN conjunct1])

text \<open>Every hotkey the constructor accepts survives being written to the configuration
  file and read back: its key name and modifier list parse to the same hotkey.\<close>

theorem hotkey_roundtrip:
  assumes "hotkey_new vk m = Inr h"
  shows "from_parts (key_name h) (modifiers_text h) = Inr h"
  by (rule from_parts_new [OF usable_canonical_new [OF assms]])

lemma hotkey_roundtrip_witness:
  "from_parts (key_name \<lparr>hk_key = VK_PAUSE, hk_mods = HOTKEY_MOD_CONTROL\<rparr>)
     (modifiers_text \<lparr>hk_key = VK_PAUSE, hk_mods = HOTKEY_MOD_CONTROL\<rparr>)
   = Inr \<lparr>hk_key = VK_PAUSE, hk_mods = HOTKEY_MOD_CONTROL\<rparr>"
proof (rule hotkey_roundtrip)
  show "hotkey_new VK_CANCEL 0 = Inr \<lparr>hk_key = VK_PAUSE, hk_mods = HOTKEY_MOD_CONTROL\<rparr>"
    by (simp add: hotkey_new_def Let_def consts_def types_text_def is_digit_key_def is_letter_key_def
        is_function_key_def)
qed

text \<open>A hotkey never takes a keystroke that types text: a key event that an accepted hotkey
  matches is neither a bare letter or digit nor one under Shift alone or under Ctrl+Alt.\<close>

theorem hotkey_never_takes_text:
  assumes "hotkey_new vk0 m0 = Inr h" and "hotkey_matches h vk m"
  shows "\<not> types_text vk m \<and> (is_digit_key vk \<or> is_letter_key vk \<longrightarrow> m \<noteq> 0)"
proof -
  have u: "usable h" by (rule usable_canonical_new [OF assms(1)])
  have "vk = hk_key h \<or> vk = VK_CANCEL" and m: "m = hk_mods h"
    using assms(2) by (auto simp: hotkey_matches_def matches_key_def)
  then show ?thesis
    using u by (auto simp: usable_def types_text_def [of VK_CANCEL])
qed

lemma hotkey_never_takes_text_witness:
  "\<not> types_text 0x50 (HOTKEY_MOD_CONTROL OR HOTKEY_MOD_WIN)"
proof -
  let ?m = "HOTKEY_MOD_CONTROL OR HOTKEY_MOD_WIN"
  have "hotkey_new 0x50 ?m = Inr \<lparr>hk_key = 0x50, hk_mods = ?m\<rparr>"
    by (simp add: hotkey_new_def Let_def consts_def types_text_def is_digit_key_def is_letter_key_def
        is_function_key_def)
  from hotkey_never_takes_text [OF this, of "0x50" ?m] show ?thesis
    by (simp add: hotkey_matches_def matches_key_def)
qed

end
