(* ===== verification/Key_Edges.thy ===== *)
theory Key_Edges
  imports Ordered_Map Hotkey
begin

text \<open>
  \<open>src/windows_agent.rs\<close>: key edges as the keyboard hook records them, the input target
  they belong to, and the pure functions the correction gate applies to lists of held edges:
  which key-downs repeat, which key-ups must be delivered at once, what one drain replays and
  the inputs that \<open>SendInput\<close> is given. Window handles and the pointer-sized marker are
  64-bit words.
\<close>

definition WM_KEYDOWN :: u32 where [consts_def]: "WM_KEYDOWN = 0x100"
definition WM_KEYUP :: u32 where [consts_def]: "WM_KEYUP = 0x101"
definition WM_SYSKEYDOWN :: u32 where [consts_def]: "WM_SYSKEYDOWN = 0x104"
definition WM_SYSKEYUP :: u32 where [consts_def]: "WM_SYSKEYUP = 0x105"

definition VK_BACK :: u16 where [consts_def]: "VK_BACK = 0x08"
definition VK_SHIFT :: u16 where [consts_def]: "VK_SHIFT = 0x10"
definition VK_CONTROL :: u16 where [consts_def]: "VK_CONTROL = 0x11"
definition VK_MENU :: u16 where [consts_def]: "VK_MENU = 0x12"
definition VK_SPACE :: u16 where [consts_def]: "VK_SPACE = 0x20"
definition VK_LWIN :: u16 where [consts_def]: "VK_LWIN = 0x5b"
definition VK_RWIN :: u16 where [consts_def]: "VK_RWIN = 0x5c"
definition VK_NUMPAD0 :: u16 where [consts_def]: "VK_NUMPAD0 = 0x60"
definition VK_DECIMAL :: u16 where [consts_def]: "VK_DECIMAL = 0x6e"
definition VK_NUMLOCK :: u16 where [consts_def]: "VK_NUMLOCK = 0x90"
definition VK_LSHIFT :: u16 where [consts_def]: "VK_LSHIFT = 0xa0"
definition VK_RSHIFT :: u16 where [consts_def]: "VK_RSHIFT = 0xa1"
definition VK_LCONTROL :: u16 where [consts_def]: "VK_LCONTROL = 0xa2"
definition VK_RCONTROL :: u16 where [consts_def]: "VK_RCONTROL = 0xa3"
definition VK_LMENU :: u16 where [consts_def]: "VK_LMENU = 0xa4"
definition VK_RMENU :: u16 where [consts_def]: "VK_RMENU = 0xa5"

definition KEYEVENTF_EXTENDEDKEY :: u32 where [consts_def]: "KEYEVENTF_EXTENDEDKEY = 1"
definition KEYEVENTF_KEYUP :: u32 where [consts_def]: "KEYEVENTF_KEYUP = 2"
definition KEYEVENTF_SCANCODE :: u32 where [consts_def]: "KEYEVENTF_SCANCODE = 8"

definition INJECTED_EVENT_MARKER :: u64 where
  [consts_def]: "INJECTED_EVENT_MARKER = 0x414B4C5954580001"
definition DRAINED_EVENT_MARKER :: u64 where
  [consts_def]: "DRAINED_EVENT_MARKER = 0x414B4C5954580002"
definition GATE_FENCE_MARKER_BASE :: u64 where
  [consts_def]: "GATE_FENCE_MARKER_BASE = 0x414B4C5954588000"

definition CORRECTION_GATE_CAPACITY :: nat where [consts_def]: "CORRECTION_GATE_CAPACITY = 256"

section \<open>Input targets and edges\<close>

record foreground_context =
  fc_hwnd :: u64
  fc_focus :: u64
  fc_input_thread :: u32
  fc_process :: u32
  fc_layout :: u64

definition foreground_identity_key :: "foreground_context \<Rightarrow> u64 \<times> u64 \<times> u32" where
  "foreground_identity_key c = (fc_hwnd c, fc_focus c, fc_process c)"

definition same_input_target :: "foreground_context \<Rightarrow> foreground_context \<Rightarrow> bool" where
  "same_input_target a b \<longleftrightarrow>
     foreground_identity_key a = foreground_identity_key b \<and> fc_input_thread a = fc_input_thread b"

lemma same_input_target_refl [simp]: "same_input_target a a"
  by (simp add: same_input_target_def)

lemma same_input_target_sym: "same_input_target a b \<Longrightarrow> same_input_target b a"
  by (simp add: same_input_target_def)

lemma same_input_target_trans:
  "same_input_target a b \<Longrightarrow> same_input_target b c \<Longrightarrow> same_input_target a c"
  by (simp add: same_input_target_def)

record raw_key_event =
  ke_message :: u32
  ke_virtual_key :: u32
  ke_scan_code :: u32
  ke_caps_lock :: bool
  ke_extended :: bool
  ke_foreground :: foreground_context
  ke_sequence :: u64
  ke_drain_token :: u64
  ke_hotkey_trigger :: bool
  ke_repeat :: bool
  ke_held_modifiers :: u8

type_synonym key_id = "u32 \<times> u32 \<times> bool"

definition key_of :: "raw_key_event \<Rightarrow> key_id" where
  "key_of e = (ke_virtual_key e, ke_scan_code e, ke_extended e)"

definition is_down_message :: "u32 \<Rightarrow> bool" where
  "is_down_message m \<longleftrightarrow> m = WM_KEYDOWN \<or> m = WM_SYSKEYDOWN"

definition is_up_message :: "u32 \<Rightarrow> bool" where
  "is_up_message m \<longleftrightarrow> m = WM_KEYUP \<or> m = WM_SYSKEYUP"

abbreviation is_down :: "raw_key_event \<Rightarrow> bool" where
  "is_down e \<equiv> is_down_message (ke_message e)"

abbreviation is_up :: "raw_key_event \<Rightarrow> bool" where
  "is_up e \<equiv> is_up_message (ke_message e)"

lemma down_not_up: "is_down_message m \<Longrightarrow> \<not> is_up_message m"
  by (auto simp: is_down_message_def is_up_message_def consts_def)

definition hotkey_modifier_bit :: "u16 \<Rightarrow> u8 option" where
  "hotkey_modifier_bit vk =
     (if vk = VK_CONTROL \<or> vk = VK_LCONTROL \<or> vk = VK_RCONTROL then Some HOTKEY_MOD_CONTROL
      else if vk = VK_MENU \<or> vk = VK_LMENU \<or> vk = VK_RMENU then Some HOTKEY_MOD_ALT
      else if vk = VK_SHIFT \<or> vk = VK_LSHIFT \<or> vk = VK_RSHIFT then Some HOTKEY_MOD_SHIFT
      else if vk = VK_LWIN \<or> vk = VK_RWIN then Some HOTKEY_MOD_WIN
      else None)"

section \<open>Lists of held edges\<close>

definition gated_key_down_repeats :: "raw_key_event list \<Rightarrow> raw_key_event \<Rightarrow> bool \<Rightarrow> bool" where
  "gated_key_down_repeats held raw system_down =
     (case find (\<lambda>e. key_of e = key_of raw) (rev held) of
        Some e \<Rightarrow> is_down e
      | None \<Rightarrow> system_down)"

text \<open>\<open>split_delivered_key_releases\<close>: the loop with its two sets; the first list stays
  retained, the second is delivered now.\<close>

fun split_releases ::
  "key_id set \<Rightarrow> key_id set \<Rightarrow> raw_key_event list \<Rightarrow> raw_key_event list \<times> raw_key_event list"
where
  "split_releases pressed released [] = ([], [])"
| "split_releases pressed released (e # es) =
     (if is_down e then
        let pressed' = (if \<not> ke_repeat e \<or> key_of e \<in> released
                        then insert (key_of e) pressed else pressed);
            (retained, releases) = split_releases pressed' released es
        in (e # retained, releases)
      else
        let released' = insert (key_of e) released in
        if key_of e \<in> pressed then
          let (retained, releases) = split_releases (pressed - {key_of e}) released' es
          in (e # retained, releases)
        else
          let (retained, releases) = split_releases pressed released' es
          in (retained, e # releases))"

definition split_delivered_key_releases ::
  "raw_key_event list \<Rightarrow> raw_key_event list \<times> raw_key_event list" where
  "split_delivered_key_releases = split_releases {} {}"

definition cancel_superseded_key_release ::
  "raw_key_event list \<Rightarrow> raw_key_event \<Rightarrow> raw_key_event list" where
  "cancel_superseded_key_release pending e = filter (\<lambda>q. key_of q \<noteq> key_of e) pending"

definition is_space_down :: "raw_key_event \<Rightarrow> bool" where
  "is_space_down e \<longleftrightarrow> (ucast (ke_virtual_key e) :: u16) = VK_SPACE \<and> is_down e"

text \<open>\<open>take_held_replay_prefix\<close>: what one drain replays, and what stays held.\<close>

definition take_held_replay_prefix ::
  "raw_key_event list \<Rightarrow> raw_key_event list \<times> raw_key_event list" where
  "take_held_replay_prefix held =
     (let before = length (takeWhile (\<lambda>e. \<not> is_space_down e) held);
          end = (if before < length held then before + 1 else length held)
      in (take end held, drop end held))"

definition held_tail_invalidates_undo :: "raw_key_event list \<Rightarrow> bool" where
  "held_tail_invalidates_undo held =
     list_ex (\<lambda>e. hotkey_modifier_bit (ucast (ke_virtual_key e)) = None \<and> is_down e) held"

section \<open>What \<open>SendInput\<close> is given\<close>

record key_input =
  ki_virtual_key :: u16
  ki_scan_code :: u16
  ki_flags :: u32
  ki_marker :: u64

definition u16_try_from :: "u32 \<Rightarrow> u16 option" where
  "u16_try_from n = (if n \<le> 0xFFFF then Some (ucast n) else None)"

definition is_keypad_digit_key :: "u32 \<Rightarrow> bool" where
  "is_keypad_digit_key vk =
     (case u16_try_from vk of
        Some key \<Rightarrow> (VK_NUMPAD0 \<le> key \<and> key \<le> VK_NUMPAD0 + 9) \<or> key = VK_DECIMAL
      | None \<Rightarrow> False)"

definition shares_scan_code_with_another_key :: "u32 \<Rightarrow> bool" where
  "shares_scan_code_with_another_key vk =
     (case u16_try_from vk of Some key \<Rightarrow> key = VK_PAUSE \<or> key = VK_NUMLOCK | None \<Rightarrow> False)"

definition replays_by_virtual_key :: "raw_key_event \<Rightarrow> bool" where
  "replays_by_virtual_key e \<longleftrightarrow>
     ke_scan_code e = 0 \<or> is_keypad_digit_key (ke_virtual_key e)
     \<or> shares_scan_code_with_another_key (ke_virtual_key e)"

definition raw_replay_input :: "u64 \<Rightarrow> raw_key_event \<Rightarrow> key_input option" where
  "raw_replay_input marker e =
     (let by_vk = replays_by_virtual_key e;
          flags = (if by_vk then 0 else KEYEVENTF_SCANCODE)
                  OR (if ke_extended e then KEYEVENTF_EXTENDEDKEY else 0)
      in if \<not> is_up e \<and> \<not> is_down e then None
         else
           let flags = (if is_up e then flags OR KEYEVENTF_KEYUP else flags) in
           case (if by_vk then u16_try_from (ke_virtual_key e) else Some 0) of
             None \<Rightarrow> None
           | Some vk \<Rightarrow> (case u16_try_from (ke_scan_code e) of
               None \<Rightarrow> None
             | Some scan \<Rightarrow>
                 Some \<lparr>ki_virtual_key = vk, ki_scan_code = scan, ki_flags = flags,
                       ki_marker = marker\<rparr>))"

fun build_raw_replay_inputs :: "raw_key_event list \<Rightarrow> u64 \<Rightarrow> key_input list option" where
  "build_raw_replay_inputs [] marker = Some []"
| "build_raw_replay_inputs (e # held) marker =
     (case raw_replay_input marker e of
        None \<Rightarrow> None
      | Some i \<Rightarrow> map_option ((#) i) (build_raw_replay_inputs held marker))"

definition keyboard_input_with_marker :: "u16 \<Rightarrow> u16 \<Rightarrow> u32 \<Rightarrow> u64 \<Rightarrow> key_input" where
  "keyboard_input_with_marker vk scan flags marker =
     \<lparr>ki_virtual_key = vk, ki_scan_code = scan, ki_flags = flags, ki_marker = marker\<rparr>"

definition build_held_replay_inputs :: "raw_key_event list \<Rightarrow> u64 \<Rightarrow> key_input list option" where
  "build_held_replay_inputs held fence =
     (if length held > CORRECTION_GATE_CAPACITY \<or> fence = 0 then None
      else map_option
        (\<lambda>inputs. inputs @ [keyboard_input_with_marker VK_F24 0 0 fence,
                             keyboard_input_with_marker VK_F24 0 KEYEVENTF_KEYUP fence])
        (build_raw_replay_inputs held DRAINED_EVENT_MARKER))"

definition keys_left_down :: "raw_key_event list \<Rightarrow> (key_id \<times> raw_key_event) list" where
  "keys_left_down held =
     foldl (\<lambda>down e. if is_down e then om_insert (key_of e) e down else om_remove (key_of e) down)
       [] held"

definition build_balanced_replay_inputs :: "raw_key_event list \<Rightarrow> key_input list option" where
  "build_balanced_replay_inputs held =
     (case build_raw_replay_inputs held INJECTED_EVENT_MARKER of
        None \<Rightarrow> None
      | Some inputs \<Rightarrow>
          map_option (\<lambda>ups. inputs @ ups)
            (build_raw_replay_inputs
              (map (\<lambda>e. e\<lparr>ke_message := WM_KEYUP\<rparr>) (om_values (keys_left_down held)))
              INJECTED_EVENT_MARKER))"

definition build_recovery_inputs :: "raw_key_event list \<Rightarrow> key_input list option" where
  "build_recovery_inputs held =
     (if held = [] \<or> length held > CORRECTION_GATE_CAPACITY * 2 + 1 then None
      else build_balanced_replay_inputs held)"

definition is_owned_gate_fence_marker :: "u64 \<Rightarrow> bool" where
  "is_owned_gate_fence_marker marker \<longleftrightarrow> marker AND NOT 0x7fff = GATE_FENCE_MARKER_BASE"

definition fence_marker_of :: "u64 \<Rightarrow> u64" where
  "fence_marker_of token = GATE_FENCE_MARKER_BASE OR (token AND 0x7fff)"

section \<open>What leaves a gate without being typed\<close>

definition keys_after :: "key_id set \<Rightarrow> raw_key_event list \<Rightarrow> key_id set" where
  "keys_after = foldl (\<lambda>S e. if is_down e then insert (key_of e) S else S - {key_of e})"

lemma split_releases_mset:
  "mset es = mset (fst (split_releases P R es)) + mset (snd (split_releases P R es))"
  by (induction es arbitrary: P R) (simp_all add: Let_def case_prod_unfold)

lemma split_releases_subseq:
  "subseq (fst (split_releases P R es)) es \<and> subseq (snd (split_releases P R es)) es"
  by (induction es arbitrary: P R) (auto simp: Let_def case_prod_unfold)

lemma split_releases_ups: "e \<in> set (snd (split_releases P R es)) \<Longrightarrow> \<not> is_down e"
  by (induction es arbitrary: P R) (auto simp: Let_def case_prod_unfold split: if_splits)

lemma split_releases_length:
  "length (fst (split_releases P R es)) + length (snd (split_releases P R es)) = length es"
  using arg_cong [OF split_releases_mset [of es P R], of size] by simp

text \<open>Auto-repeats of the keys that were down before the gate are marked as such.\<close>

fun repeats_marked :: "key_id set \<Rightarrow> raw_key_event list \<Rightarrow> bool" where
  "repeats_marked S [] = True"
| "repeats_marked S (e # es) =
     ((is_down e \<and> key_of e \<in> S \<longrightarrow> ke_repeat e)
      \<and> repeats_marked (if is_down e then S else S - {key_of e}) es)"

lemma split_releases_frees:
  assumes "k \<in> S" "k \<notin> P" "k \<notin> R" "repeats_marked S es" "\<exists>e \<in> set es. \<not> is_down e \<and> key_of e = k"
  shows "\<exists>e \<in> set (snd (split_releases P R es)). key_of e = k"
  using assms
proof (induction es arbitrary: P R S)
  case (Cons e es)
  show ?case
  proof (cases "is_down e")
    case True
    let ?P = "if \<not> ke_repeat e \<or> key_of e \<in> R then insert (key_of e) P else P"
    have "k \<notin> ?P" using Cons.prems True by auto
    then have "\<exists>e \<in> set (snd (split_releases ?P R es)). key_of e = k"
      using Cons.prems True by (intro Cons.IH [of S]) auto
    then show ?thesis using True by (simp add: Let_def case_prod_unfold)
  next
    case False
    show ?thesis
    proof (cases "key_of e = k")
      case True
      then show ?thesis using False Cons.prems by (simp add: Let_def case_prod_unfold)
    next
      case ne: False
      have "\<exists>e \<in> set (snd (split_releases Q (insert (key_of e) R) es)). key_of e = k"
        if "k \<notin> Q" for Q
        using Cons.prems False ne that by (intro Cons.IH [of "S - {key_of e}"]) auto
      then have "\<exists>e \<in> set (snd (split_releases (P - {key_of e}) (insert (key_of e) R) es)). key_of e = k"
        and "\<exists>e \<in> set (snd (split_releases P (insert (key_of e) R) es)). key_of e = k"
        using Cons.prems by auto
      then show ?thesis using False by (auto simp: Let_def case_prod_unfold)
    qed
  qed
qed simp

lemma keys_after_ups:
  "(\<And>e. e \<in> set es \<Longrightarrow> \<not> is_down e) \<Longrightarrow> keys_after S es = S - key_of ` set es"
  by (induction es arbitrary: S) (auto simp: keys_after_def)

lemma released_before_gate:
  assumes "split_delivered_key_releases es = (retained, releases)" "repeats_marked S es"
    and "k \<in> S" "\<exists>e \<in> set es. \<not> is_down e \<and> key_of e = k"
  shows "k \<notin> keys_after S releases"
proof -
  have "\<exists>e \<in> set releases. key_of e = k"
    using split_releases_frees [of k S "{}" "{}" es] assms by (simp add: split_delivered_key_releases_def)
  moreover have "\<not> is_down e" if "e \<in> set releases" for e
    using split_releases_ups [of e "{}" "{}" es] assms(1) that
    by (simp add: split_delivered_key_releases_def)
  ultimately show ?thesis by (auto simp: keys_after_ups)
qed

lemma repeats_marked_unreleased:
  assumes "repeats_marked S es" "k \<in> S" "\<forall>e \<in> set es. key_of e = k \<longrightarrow> is_down e"
    and "find (\<lambda>e. key_of e = k) (rev es) = Some e"
  shows "is_down e"
  using assms(3) find_SomeD [OF assms(4)] by simp

lemma repeats_marked_snoc:
  "repeats_marked S (es @ [e]) \<longleftrightarrow>
   repeats_marked S es
   \<and> (is_down e \<and> key_of e \<in> S \<and> (\<forall>d \<in> set es. key_of d = key_of e \<longrightarrow> is_down d) \<longrightarrow> ke_repeat e)"
  by (induction es arbitrary: S) auto

lemma repeats_marked_hold:
  assumes "repeats_marked S es"
    and "is_down e \<Longrightarrow> ke_repeat e = gated_key_down_repeats es e (key_of e \<in> S)"
  shows "repeats_marked S (es @ [e])"
  using assms repeats_marked_unreleased [OF assms(1), of "key_of e"]
  by (auto simp: repeats_marked_snoc gated_key_down_repeats_def split: option.splits)

text \<open>The marks the hook sets: \<open>S\<close> is what the system saw pressed when the gate opened.\<close>

definition marked_by_hook :: "key_id set \<Rightarrow> raw_key_event list \<Rightarrow> bool" where
  "marked_by_hook S es \<longleftrightarrow>
     (\<forall>i < length es. is_down (es ! i) \<longrightarrow>
        ke_repeat (es ! i) = gated_key_down_repeats (take i es) (es ! i) (key_of (es ! i) \<in> S))"

lemma marked_by_hook_snoc:
  "marked_by_hook S (es @ [e]) \<longleftrightarrow>
   marked_by_hook S es \<and> (is_down e \<longrightarrow> ke_repeat e = gated_key_down_repeats es e (key_of e \<in> S))"
  by (auto simp: marked_by_hook_def nth_append less_Suc_eq)

lemma marked_by_hook_repeats: "marked_by_hook S es \<Longrightarrow> repeats_marked S es"
  by (induction es rule: rev_induct) (simp_all add: marked_by_hook_snoc repeats_marked_hold)

text \<open>Keys pressed before a gate do not stay pressed when it breaks: with the repeat marks the
  hook sets, every key that was down when the gate opened and came up while it was active is
  released by the key-ups that leave the gate at once; those key-ups press nothing, and together
  with what is retained they are exactly the held edges.\<close>

theorem pressed_keys_released:
  assumes "marked_by_hook S es" and "split_delivered_key_releases es = (retained, releases)"
  shows "(\<forall>k \<in> S. (\<exists>e \<in> set es. \<not> is_down e \<and> key_of e = k) \<longrightarrow> k \<notin> keys_after S releases)
    \<and> (\<forall>e \<in> set releases. \<not> is_down e) \<and> mset es = mset retained + mset releases
    \<and> subseq retained es \<and> subseq releases es"
  using released_before_gate [OF assms(2) marked_by_hook_repeats [OF assms(1)]]
    split_releases_ups [of _ "{}" "{}" es] split_releases_mset [of es "{}" "{}"]
    split_releases_subseq [of "{}" "{}" es] assms(2)
  by (auto simp: split_delivered_key_releases_def)

definition sample_key :: "u32 \<Rightarrow> raw_key_event" where
  "sample_key message =
     \<lparr>ke_message = message, ke_virtual_key = 0x41, ke_scan_code = 0x1e, ke_caps_lock = False,
      ke_extended = False, ke_foreground = \<lparr>fc_hwnd = 1, fc_focus = 1, fc_input_thread = 1,
      fc_process = 1, fc_layout = 1\<rparr>, ke_sequence = 0, ke_drain_token = 0,
      ke_hotkey_trigger = False, ke_repeat = is_down_message message, ke_held_modifiers = 0\<rparr>"

lemma pressed_keys_released_witness:
  "key_of (sample_key WM_KEYUP)
     \<notin> keys_after {key_of (sample_key WM_KEYUP)}
         (snd (split_delivered_key_releases [sample_key WM_KEYDOWN, sample_key WM_KEYUP]))"
proof -
  let ?es = "[sample_key WM_KEYDOWN, sample_key WM_KEYUP]" and ?S = "{key_of (sample_key WM_KEYUP)}"
  have k: "is_down (sample_key WM_KEYDOWN)" "\<not> is_down (sample_key WM_KEYUP)"
    "ke_repeat (sample_key WM_KEYDOWN)" "key_of (sample_key WM_KEYDOWN) = key_of (sample_key WM_KEYUP)"
    by (simp_all add: sample_key_def is_down_message_def key_of_def consts_def)
  have "marked_by_hook ?S ([] @ [sample_key WM_KEYDOWN] @ [sample_key WM_KEYUP])"
    unfolding append_assoc [symmetric]
    by (simp only: marked_by_hook_snoc) (simp add: marked_by_hook_def gated_key_down_repeats_def k)
  then have "marked_by_hook ?S ?es" by simp
  from pressed_keys_released [OF this surjective_pairing] k show ?thesis by simp
qed

section \<open>One drain\<close>

lemma take_held_append:
  "take_held_replay_prefix held = (p, r) \<Longrightarrow> held = p @ r"
  by (auto simp: take_held_replay_prefix_def Let_def)

lemma take_held_nonempty:
  "take_held_replay_prefix held = (p, r) \<Longrightarrow> held \<noteq> [] \<Longrightarrow> p \<noteq> []"
  by (auto simp: take_held_replay_prefix_def Let_def split: if_splits)

lemma take_held_space:
  assumes "take_held_replay_prefix held = (p, r)"
  shows "\<forall>e \<in> set (butlast p). \<not> is_space_down e" and "r \<noteq> [] \<Longrightarrow> is_space_down (last p)"
proof -
  let ?t = "takeWhile (\<lambda>e. \<not> is_space_down e) held"
  have t: "take (length ?t) held = ?t" by (simp flip: takeWhile_eq_take)
  show "\<forall>e \<in> set (butlast p). \<not> is_space_down e"
  proof (cases "length ?t < length held")
    case True
    then have "p = ?t @ [held ! length ?t]"
      using assms t by (auto simp: take_held_replay_prefix_def Let_def take_Suc_conv_app_nth)
    then show ?thesis by (auto dest: set_takeWhileD)
  next
    case False
    then have "?t = held" by (metis length_takeWhile_le linorder_not_less nat_less_le takeWhile_eq_take take_all)
    then have "\<forall>e \<in> set held. \<not> is_space_down e" by (simp add: takeWhile_eq_all_conv)
    moreover have "set (butlast p) \<subseteq> set held"
      using assms by (auto dest!: take_held_append in_set_butlastD)
    ultimately show ?thesis by blast
  qed
  assume "r \<noteq> []"
  then have l: "length ?t < length held"
    using assms by (auto simp: take_held_replay_prefix_def Let_def split: if_splits)
  then have "p = ?t @ [held ! length ?t]"
    using assms t by (auto simp: take_held_replay_prefix_def Let_def take_Suc_conv_app_nth)
  then show "is_space_down (last p)"
    using nth_length_takeWhile [OF l] by simp
qed

text \<open>One drain types at most one word: the batch taken from a gate that holds something is
  not empty, it and the rest are the held edges in order, no press of Space is in it but possibly
  as its last edge, and the rest is empty unless it ends with one.\<close>

theorem drain_stops_at_space:
  assumes "take_held_replay_prefix held = (batch, rest)"
  shows "held = batch @ rest \<and> (held \<noteq> [] \<longrightarrow> batch \<noteq> [])
    \<and> (\<forall>e \<in> set (butlast batch). \<not> is_space_down e) \<and> (rest \<noteq> [] \<longrightarrow> is_space_down (last batch))"
  using take_held_append [OF assms] take_held_nonempty [OF assms] take_held_space [OF assms] by blast

lemma drain_stops_at_space_witness:
  "take_held_replay_prefix [sample_key WM_KEYDOWN] = ([sample_key WM_KEYDOWN], [])
   \<and> \<not> (\<exists>e \<in> set (butlast [sample_key WM_KEYDOWN]). is_space_down e)"
proof -
  have t: "take_held_replay_prefix [sample_key WM_KEYDOWN] = ([sample_key WM_KEYDOWN], [])"
    by (simp add: take_held_replay_prefix_def Let_def)
  from drain_stops_at_space [OF t] t show ?thesis by blast
qed

section \<open>Inputs\<close>

definition input_id :: "key_input \<Rightarrow> u16 \<times> u16 \<times> u32" where
  "input_id i = (ki_virtual_key i, ki_scan_code i, ki_flags i AND NOT KEYEVENTF_KEYUP)"

definition is_key_up_input :: "key_input \<Rightarrow> bool" where
  "is_key_up_input i \<longleftrightarrow> ki_flags i AND KEYEVENTF_KEYUP \<noteq> 0"

text \<open>The keys a sequence of inputs leaves pressed.\<close>

definition inputs_down :: "(u16 \<times> u16 \<times> u32) set \<Rightarrow> key_input list \<Rightarrow> (u16 \<times> u16 \<times> u32) set" where
  "inputs_down =
     foldl (\<lambda>S i. if is_key_up_input i then S - {input_id i} else insert (input_id i) S)"

definition replay_id :: "key_id \<Rightarrow> u16 \<times> u16 \<times> u32" where
  "replay_id = (\<lambda>(vk, scan, ext).
     let by_vk = scan = 0 \<or> is_keypad_digit_key vk \<or> shares_scan_code_with_another_key vk
     in (if by_vk then ucast vk else 0, ucast scan,
         (if by_vk then 0 else KEYEVENTF_SCANCODE) OR (if ext then KEYEVENTF_EXTENDEDKEY else 0)))"

lemma raw_replay_input_id:
  assumes "raw_replay_input m e = Some i"
  shows "input_id i = replay_id (key_of e)" "is_key_up_input i \<longleftrightarrow> \<not> is_down e" "is_up e \<or> is_down e"
    and "ki_marker i = m"
  using assms down_not_up [of "ke_message e"]
  by (auto simp: raw_replay_input_def Let_def input_id_def is_key_up_input_def replay_id_def key_of_def
      replays_by_virtual_key_def u16_try_from_def consts_def split: if_splits option.splits)

lemma build_raw_append:
  "build_raw_replay_inputs (xs @ ys) m =
   (case build_raw_replay_inputs xs m of None \<Rightarrow> None
    | Some is \<Rightarrow> map_option ((@) is) (build_raw_replay_inputs ys m))"
  by (cases "build_raw_replay_inputs ys m"; induction xs) (auto split: option.split)

lemma build_raw_length: "build_raw_replay_inputs es m = Some is \<Longrightarrow> length is = length es"
  by (induction es arbitrary: "is") (auto split: option.splits)

lemma build_raw_down:
  "build_raw_replay_inputs es m = Some is \<Longrightarrow>
   inputs_down S is =
     foldl (\<lambda>S e. if is_down e then insert (replay_id (key_of e)) S else S - {replay_id (key_of e)}) S es"
  by (induction es arbitrary: "is" S)
    (auto simp: inputs_down_def raw_replay_input_id split: option.splits)

lemma keys_left_down_track:
  "om_lookup (keys_left_down es) k =
   (case find (\<lambda>e. key_of e = k) (rev es) of
      Some e \<Rightarrow> if is_down e then Some e else None | None \<Rightarrow> None)"
  using table.lookup_track [OF table.inv_empty, where P = is_down and key = key_of and f = "\<lambda>e. e" and es = es]
  by (simp add: keys_left_down_def om_lookup_def split: option.split)

lemma keys_left_down_sorted: "om_sorted (keys_left_down es)"
  unfolding keys_left_down_def by (rule table.inv_track [OF table.inv_empty])

lemma keys_left_down_key:
  "om_lookup (keys_left_down es) k = Some e \<Longrightarrow> key_of e = k \<and> is_down e \<and> e \<in> set es"
  using find_SomeD [of "\<lambda>e. key_of e = k" "rev es"]
  by (auto simp: keys_left_down_track split: option.splits if_splits)

lemma keys_left_down_snoc:
  "om_lookup (keys_left_down (es @ [e])) k =
   (if k = key_of e then if is_down e then Some e else None else om_lookup (keys_left_down es) k)"
  by (simp add: keys_left_down_track)

lemma down_ids_tracked:
  "foldl (\<lambda>S e. if is_down e then insert (replay_id (key_of e)) S else S - {replay_id (key_of e)}) S es
   \<subseteq> S \<union> replay_id ` {k. om_lookup (keys_left_down es) k \<noteq> None}"
proof (induction es rule: rev_induct)
  case (snoc e es)
  then show ?case by (auto simp: keys_left_down_snoc)
qed simp

lemma fold_releases:
  "(\<And>e. e \<in> set es \<Longrightarrow> \<not> is_down e) \<Longrightarrow>
   foldl (\<lambda>S e. if is_down e then insert (replay_id (key_of e)) S else S - {replay_id (key_of e)}) S es
   = S - replay_id ` key_of ` set es"
  by (induction es arbitrary: S) auto

lemma inputs_down_append: "inputs_down S (xs @ ys) = inputs_down (inputs_down S xs) ys"
  by (simp add: inputs_down_def)

lemma balanced_releases:
  assumes "build_balanced_replay_inputs held = Some is"
  shows "inputs_down S is \<subseteq> S"
proof -
  let ?ups = "map (\<lambda>e. e\<lparr>ke_message := WM_KEYUP\<rparr>) (om_values (keys_left_down held))"
  obtain a b where a: "build_raw_replay_inputs held INJECTED_EVENT_MARKER = Some a"
    and b: "build_raw_replay_inputs ?ups INJECTED_EVENT_MARKER = Some b" and "is": "is = a @ b"
    using assms by (auto simp: build_balanced_replay_inputs_def split: option.splits)
  have up: "\<not> is_down e" if "e \<in> set ?ups" for e
    using that by (auto simp: is_down_message_def consts_def)
  have "k \<in> key_of ` set ?ups" if down: "om_lookup (keys_left_down held) k \<noteq> None" for k
  proof -
    obtain e where e: "om_lookup (keys_left_down held) k = Some e" using down by blast
    then have "e \<in> set (om_values (keys_left_down held))"
      unfolding om_values_def by (metis image_eqI keys_left_down_sorted list.set_map om_sorted_in snd_conv)
    moreover have "key_of (e\<lparr>ke_message := WM_KEYUP\<rparr>) = k"
      using keys_left_down_key [OF e] by (simp add: key_of_def)
    ultimately show ?thesis by (metis (mono_tags, lifting) image_eqI list.set_map)
  qed
  then have dom: "{k. om_lookup (keys_left_down held) k \<noteq> None} \<subseteq> key_of ` set ?ups" by blast
  have "inputs_down (inputs_down S a) b = inputs_down S a - replay_id ` key_of ` set ?ups"
    unfolding build_raw_down [OF b] by (rule fold_releases) (rule up)
  moreover have "inputs_down S a \<subseteq> S \<union> replay_id ` {k. om_lookup (keys_left_down held) k \<noteq> None}"
    unfolding build_raw_down [OF a] by (rule down_ids_tracked)
  moreover have "S \<union> replay_id ` {k. om_lookup (keys_left_down held) k \<noteq> None}
      \<subseteq> replay_id ` key_of ` set ?ups \<union> S"
    by (subst Un_commute) (rule Un_mono [OF image_mono [OF dom] subset_refl])
  ultimately show ?thesis
    unfolding "is" inputs_down_append by (simp only: Diff_subset_conv subset_trans)
qed

text \<open>Every edge the hook delivers can be replayed: its message is one of the four key
  messages and its codes fit the 16-bit fields of an input.\<close>

definition replayable :: "raw_key_event \<Rightarrow> bool" where
  "replayable e \<longleftrightarrow> (is_up e \<or> is_down e) \<and> ke_virtual_key e \<le> 0xFFFF \<and> ke_scan_code e \<le> 0xFFFF"

lemma raw_replay_total: "replayable e \<Longrightarrow> raw_replay_input m e \<noteq> None"
  by (auto simp: raw_replay_input_def replayable_def Let_def u16_try_from_def split: option.splits)

lemma build_raw_total:
  "(\<And>e. e \<in> set es \<Longrightarrow> replayable e) \<Longrightarrow> build_raw_replay_inputs es m \<noteq> None"
proof (induction es)
  case (Cons e es)
  have "replayable e" by (rule Cons.prems) simp
  moreover have "build_raw_replay_inputs es m \<noteq> None"
    by (rule Cons.IH) (rule Cons.prems, simp)
  ultimately show ?case using raw_replay_total [of e m] by (auto split: option.split)
qed simp

lemma build_balanced_total:
  assumes "\<And>e. e \<in> set es \<Longrightarrow> replayable e"
  shows "build_balanced_replay_inputs es \<noteq> None"
proof -
  have "e \<in> set es" if v: "e \<in> set (om_values (keys_left_down es))" for e
  proof -
    obtain k where "(k, e) \<in> set (keys_left_down es)" by (rule exE [OF om_values_lookup [OF v]])
    then have "om_lookup (keys_left_down es) k = Some e"
      by (simp add: om_sorted_in [OF keys_left_down_sorted])
    then show ?thesis by (simp add: keys_left_down_key)
  qed
  then have "replayable (e\<lparr>ke_message := WM_KEYUP\<rparr>)" if "e \<in> set (om_values (keys_left_down es))" for e
    using assms [of e] that by (simp add: replayable_def is_up_message_def)
  then have "build_raw_replay_inputs (map (\<lambda>e. e\<lparr>ke_message := WM_KEYUP\<rparr>) (om_values (keys_left_down es)))
      INJECTED_EVENT_MARKER \<noteq> None"
    by (intro build_raw_total) auto
  moreover have "build_raw_replay_inputs es INJECTED_EVENT_MARKER \<noteq> None"
    by (rule build_raw_total) (rule assms)
  ultimately show ?thesis by (auto simp: build_balanced_replay_inputs_def split: option.splits)
qed

end
