(* ===== verification/Gate.thy ===== *)
theory Gate
  imports Key_Edges
begin

text \<open>
  \<open>src/windows_agent.rs\<close>, \<open>CorrectionGate\<close>: the gate that swallows the keys typed
  while a conversion decides and edits, holds them in order, and is drained or handed over
  afterwards. Each clock reading that decides a branch is an argument.
\<close>

definition CORRECTION_GATE_MAX_HOLD_MS :: nat where
  [consts_def]: "CORRECTION_GATE_MAX_HOLD_MS = 1200"

record correction_gate =
  cg_active :: bool
  cg_cancelled :: bool
  cg_token :: u64
  cg_fence_marker :: u64
  cg_released_count :: nat
  cg_current_drain_count :: nat
  cg_drain_failed :: bool
  cg_drain_in_flight :: bool
  cg_awaiting_worker_ack :: bool
  cg_handoff_budget_ms :: nat
  cg_deadline :: instant
  cg_held :: "raw_key_event list"
  cg_origin :: "foreground_context option"
  cg_pending_hotkey :: "raw_key_event option"

definition correction_gate_default :: "instant \<Rightarrow> correction_gate" where
  "correction_gate_default now =
     \<lparr>cg_active = False, cg_cancelled = False, cg_token = 0, cg_fence_marker = 0,
      cg_released_count = 0, cg_current_drain_count = 0, cg_drain_failed = False,
      cg_drain_in_flight = False, cg_awaiting_worker_ack = False, cg_handoff_budget_ms = 0,
      cg_deadline = now, cg_held = [], cg_origin = None, cg_pending_hotkey = None\<rparr>"

definition defer_hotkey :: "raw_key_event \<Rightarrow> correction_gate \<Rightarrow> correction_gate" where
  "defer_hotkey e g =
     (case cg_pending_hotkey g of
        Some _ \<Rightarrow> g
      | None \<Rightarrow> g\<lparr>cg_pending_hotkey := Some (e\<lparr>ke_hotkey_trigger := True\<rparr>)\<rparr>)"

definition take_pending_hotkey ::
  "foreground_context option \<Rightarrow> correction_gate \<Rightarrow> raw_key_event option \<times> correction_gate" where
  "take_pending_hotkey current g =
     (let g' = g\<lparr>cg_pending_hotkey := None\<rparr> in
      case cg_pending_hotkey g of
        None \<Rightarrow> (None, g')
      | Some e \<Rightarrow> (case current of
          None \<Rightarrow> (None, g')
        | Some now \<Rightarrow>
            if same_input_target (ke_foreground e) now
            then (Some (e\<lparr>ke_foreground := now, ke_drain_token := cg_token g\<rparr>), g')
            else (None, g')))"

definition activate :: "u64 \<Rightarrow> instant \<Rightarrow> correction_gate \<Rightarrow> correction_gate" where
  "activate token now g =
     g\<lparr>cg_active := True, cg_cancelled := False, cg_token := token,
       cg_fence_marker := fence_marker_of token, cg_released_count := 0,
       cg_current_drain_count := 0, cg_drain_failed := False, cg_drain_in_flight := False,
       cg_awaiting_worker_ack := False, cg_handoff_budget_ms := 0, cg_held := [],
       cg_origin := None, cg_pending_hotkey := None,
       cg_deadline := now + from_millis CORRECTION_GATE_MAX_HOLD_MS\<rparr>"

definition hold :: "raw_key_event \<Rightarrow> instant \<Rightarrow> correction_gate \<Rightarrow> bool \<times> correction_gate" where
  "hold e now g =
     (if \<not> cg_active g then (False, g)
      else if cg_deadline g \<le> now \<or> CORRECTION_GATE_CAPACITY \<le> length (cg_held g) then (False, g)
      else (True, g\<lparr>cg_held := cg_held g @ [e]\<rparr>))"

definition can_start_drain :: "u64 \<Rightarrow> correction_gate \<Rightarrow> bool" where
  "can_start_drain token g \<longleftrightarrow>
     cg_active g \<and> cg_token g = token \<and> \<not> cg_cancelled g \<and> \<not> cg_drain_in_flight g
     \<and> \<not> cg_awaiting_worker_ack g"

definition handoff ::
  "u64 \<Rightarrow> u64 \<Rightarrow> instant \<Rightarrow> correction_gate \<Rightarrow> bool \<times> correction_gate" where
  "handoff old_token new_token now g =
     (if \<not> cg_active g \<or> cg_cancelled g \<or> \<not> cg_awaiting_worker_ack g
         \<or> cg_token g \<noteq> old_token \<or> new_token = 0 \<or> cg_handoff_budget_ms g = 0
         \<or> cg_deadline g - now < from_millis (cg_handoff_budget_ms g)
      then (False, g)
      else (True, g\<lparr>cg_token := new_token, cg_fence_marker := fence_marker_of new_token,
                    cg_released_count := 0, cg_current_drain_count := 0, cg_drain_failed := False,
                    cg_drain_in_flight := False, cg_awaiting_worker_ack := False,
                    cg_handoff_budget_ms := 0\<rparr>))"

text \<open>The conversion of the remaining time to 64 bits cannot fail: the deadline is at most
  the hold limit ahead of some earlier clock reading.\<close>

definition prepare_handoff_budget ::
  "u64 \<Rightarrow> nat \<Rightarrow> instant \<Rightarrow> correction_gate \<Rightarrow> nat option \<times> correction_gate" where
  "prepare_handoff_budget old_token required_ms now g =
     (let remaining_ms = as_millis (cg_deadline g - now) in
      if remaining_ms \<ge> 2 ^ 64 then (None, g)
      else if \<not> cg_active g \<or> cg_cancelled g \<or> \<not> cg_awaiting_worker_ack g
              \<or> cg_token g \<noteq> old_token \<or> required_ms = 0
              \<or> required_ms > CORRECTION_GATE_MAX_HOLD_MS \<or> remaining_ms < required_ms
      then (None, g)
      else (Some remaining_ms, g\<lparr>cg_handoff_budget_ms := required_ms\<rparr>))"

section \<open>Fences\<close>

text \<open>The fence marker of a gate is one of the markers the hook takes for its own, and two
  tokens share it only when their low fifteen bits agree.\<close>

lemma mask15_cancel: "((x :: u64) AND 32767) AND - 32768 = 0"
proof -
  have "(32767 :: u64) AND - 32768 = 0" by simp
  then show ?thesis by (simp only: and.assoc and_zero_eq)
qed

lemma fence_marker_owned: "is_owned_gate_fence_marker (fence_marker_of token)"
  using mask15_cancel [of token]
  by (simp add: is_owned_gate_fence_marker_def fence_marker_of_def consts_def bit.conj_disj_distrib2)

lemma fence_marker_low: "fence_marker_of token AND 0x7fff = token AND 0x7fff"
proof -
  have "(0x414B4C5954588000 :: u64) AND 0x7fff = 0" by simp
  then show ?thesis
    unfolding fence_marker_of_def consts_def
    by (simp only: bit.conj_disj_distrib2 and.assoc and.idem or.left_neutral)
qed

lemma fence_marker_inj: "fence_marker_of s = fence_marker_of t \<longleftrightarrow> s AND 0x7fff = t AND 0x7fff"
proof
  assume "fence_marker_of s = fence_marker_of t"
  then have "fence_marker_of s AND 0x7fff = fence_marker_of t AND 0x7fff" by (rule arg_cong)
  then show "s AND 0x7fff = t AND 0x7fff" by (simp only: fence_marker_low)
qed (simp add: fence_marker_of_def)


text \<open>The hook never mistakes a key for a fence: the fence of any gate is recognised as the
  agent's own, no marker of injected or replayed keys is, and the fences of two gates coincide
  only when the low fifteen bits of their tokens do.\<close>

theorem fences_recognised:
  "is_owned_gate_fence_marker (fence_marker_of token)
   \<and> \<not> is_owned_gate_fence_marker INJECTED_EVENT_MARKER
   \<and> \<not> is_owned_gate_fence_marker DRAINED_EVENT_MARKER
   \<and> \<not> is_owned_gate_fence_marker 0
   \<and> (fence_marker_of token = fence_marker_of token' \<longleftrightarrow> token AND 0x7fff = token' AND 0x7fff)"
  using fence_marker_owned [of token] fence_marker_inj [of token token']
  by (simp add: is_owned_gate_fence_marker_def consts_def)

end
