(* ===== verification/Settings.thy ===== *)
theory Settings
  imports Hotkey Language
begin

text \<open>
  \<open>src/settings.rs\<close>: the settings record, its text form and its tolerant and strict readers.
  The set of selected packs is a \<open>BTreeSet\<close>, iterated in order when it is written. The note
  about a refused hotkey takes no part in comparisons in the source; the theorems state
  equality with the note cleared.
\<close>

record settings_error =
  se_line :: nat
  se_message :: ustr

record settings =
  st_automatic_conversion_on_startup :: bool
  st_pause_break_undo :: bool
  st_offer_word_exclusion_after_undo :: bool
  st_offer_dictionary_after_forced_conversion :: bool
  st_force_hotkey_virtual_key :: u16
  st_force_hotkey_modifiers :: u8
  st_recheck_first_word_after_erasing :: bool
  st_physical_fallback_for_unsupported_apps :: bool
  st_single_letter_words :: bool
  st_layout_model :: bool
  st_manual_terminal_uia_fallback :: bool
  st_conversion_sound :: bool
  st_diagnostics_enabled :: bool
  st_suppress_after_backspace :: bool
  st_suppress_after_delete :: bool
  st_suppress_after_left :: bool
  st_suppress_after_right :: bool
  st_suppress_after_up :: bool
  st_suppress_after_down :: bool
  st_suppress_after_home_end :: bool
  st_suppress_after_manual_layout_change :: bool
  st_enabled_input_packs :: "pack_id set"
  st_refused_force_hotkey :: "ustr option"

definition settings_default :: settings where
  "settings_default =
     \<lparr>st_automatic_conversion_on_startup = True, st_pause_break_undo = True,
      st_offer_word_exclusion_after_undo = True, st_offer_dictionary_after_forced_conversion = True,
      st_force_hotkey_virtual_key = hk_key hotkey_default,
      st_force_hotkey_modifiers = hk_mods hotkey_default,
      st_recheck_first_word_after_erasing = True, st_physical_fallback_for_unsupported_apps = True,
      st_single_letter_words = False, st_layout_model = False,
      st_manual_terminal_uia_fallback = False, st_conversion_sound = False,
      st_diagnostics_enabled = False, st_suppress_after_backspace = True,
      st_suppress_after_delete = True, st_suppress_after_left = True, st_suppress_after_right = True,
      st_suppress_after_up = True, st_suppress_after_down = True, st_suppress_after_home_end = True,
      st_suppress_after_manual_layout_change = True,
      st_enabled_input_packs = {English, Russian, Estonian}, st_refused_force_hotkey = None\<rparr>"

definition language_enabled :: "settings \<Rightarrow> language \<Rightarrow> bool" where
  "language_enabled s l \<longleftrightarrow> l \<in> st_enabled_input_packs s"

definition set_pack_enabled :: "pack_id \<Rightarrow> bool \<Rightarrow> settings \<Rightarrow> settings" where
  "set_pack_enabled l enabled s =
     (if enabled then s\<lparr>st_enabled_input_packs := insert l (st_enabled_input_packs s)\<rparr>
      else s\<lparr>st_enabled_input_packs := st_enabled_input_packs s - {l}\<rparr>)"

definition force_hotkey :: "settings \<Rightarrow> hotkey" where
  "force_hotkey s =
     (case hotkey_new (st_force_hotkey_virtual_key s) (st_force_hotkey_modifiers s) of
        Inr h \<Rightarrow> h | Inl _ \<Rightarrow> hotkey_default)"

text \<open>The keys of boolean settings, with the field each one sets.\<close>

definition bool_settings :: "(ustr \<times> ((bool \<Rightarrow> bool) \<Rightarrow> settings \<Rightarrow> settings)) list" where
  "bool_settings =
     [(lit ''automatic_conversion_on_startup'', st_automatic_conversion_on_startup_update),
      (lit ''pause_break_undo'', st_pause_break_undo_update),
      (lit ''offer_word_exclusion_after_undo'', st_offer_word_exclusion_after_undo_update),
      (lit ''offer_dictionary_after_forced_conversion'', st_offer_dictionary_after_forced_conversion_update),
      (lit ''recheck_first_word_after_erasing'', st_recheck_first_word_after_erasing_update),
      (lit ''physical_fallback_for_unsupported_apps'', st_physical_fallback_for_unsupported_apps_update),
      (lit ''single_letter_words'', st_single_letter_words_update),
      (lit ''layout_model'', st_layout_model_update),
      (lit ''manual_terminal_uia_fallback'', st_manual_terminal_uia_fallback_update),
      (lit ''conversion_sound'', st_conversion_sound_update),
      (lit ''diagnostics_enabled'', st_diagnostics_enabled_update),
      (lit ''suppress_after_backspace'', st_suppress_after_backspace_update),
      (lit ''suppress_after_delete'', st_suppress_after_delete_update),
      (lit ''suppress_after_left'', st_suppress_after_left_update),
      (lit ''suppress_after_right'', st_suppress_after_right_update),
      (lit ''suppress_after_up'', st_suppress_after_up_update),
      (lit ''suppress_after_down'', st_suppress_after_down_update),
      (lit ''suppress_after_home_end'', st_suppress_after_home_end_update),
      (lit ''suppress_after_manual_layout_change'', st_suppress_after_manual_layout_change_update)]"

definition legacy_packs :: "(ustr \<times> ustr) list" where
  "legacy_packs = [(lit ''enable_english'', lit ''en-US''), (lit ''enable_russian'', lit ''ru-RU''),
     (lit ''enable_estonian'', lit ''et-EE'')]"

definition known_keys :: "ustr list" where
  "known_keys =
     [lit ''enabled_input_packs'', lit ''enable_english'', lit ''enable_russian'',
       lit ''enable_estonian'', lit ''force_hotkey_key'', lit ''force_hotkey_modifiers'',
       lit ''automatic_conversion_on_startup'',
       lit ''pause_break_undo'',
       lit ''offer_word_exclusion_after_undo'',
       lit ''offer_dictionary_after_forced_conversion'',
       lit ''recheck_first_word_after_erasing'',
       lit ''physical_fallback_for_unsupported_apps'',
       lit ''single_letter_words'',
       lit ''layout_model'',
       lit ''manual_terminal_uia_fallback'',
       lit ''conversion_sound'',
       lit ''diagnostics_enabled'',
       lit ''suppress_after_backspace'',
       lit ''suppress_after_delete'',
       lit ''suppress_after_left'',
       lit ''suppress_after_right'',
       lit ''suppress_after_up'',
       lit ''suppress_after_down'',
       lit ''suppress_after_home_end'',
       lit ''suppress_after_manual_layout_change'']"

definition is_known_key :: "ustr \<Rightarrow> bool" where
  "is_known_key key \<longleftrightarrow> key \<in> set known_keys"

definition parse_bool :: "ustr \<Rightarrow> bool option" where
  "parse_bool value =
     (let v = ascii_lower (trim value) in
      if v \<in> {lit ''1'', lit ''true'', lit ''yes'', lit ''on''} then Some True
      else if v \<in> {lit ''0'', lit ''false'', lit ''no'', lit ''off''} then Some False
      else None)"

fun select_packs :: "nat \<Rightarrow> ustr list \<Rightarrow> pack_id set \<Rightarrow> string + pack_id set" where
  "select_packs position [] selection = Inr selection"
| "select_packs position (id1 # ids) selection =
     (if position \<ge> 64 then Inl ''too many input pack selections''
      else case pack_parse (trim id1) of
          Inl _ \<Rightarrow> Inl ''invalid input pack ID''
        | Inr l \<Rightarrow> select_packs (position + 1) ids (insert l selection))"

definition parse_pack_selection :: "ustr \<Rightarrow> string + pack_id set" where
  "parse_pack_selection value =
     (if trim value = [] then Inr {}
      else select_packs 0 (split_on (\<lambda>c. c = 0x2C) (trim value)) {})"

section \<open>Reading\<close>

record parse_state =
  ps_settings :: settings
  ps_seen :: "ustr set"
  ps_hotkey_key :: "ustr option"
  ps_hotkey_modifiers :: "ustr option"
  ps_hotkey_line :: nat
  ps_pack_selection_seen :: bool
  ps_legacy_selection_seen :: bool

definition parse_start :: parse_state where
  "parse_start = \<lparr>ps_settings = settings_default, ps_seen = {}, ps_hotkey_key = None,
     ps_hotkey_modifiers = None, ps_hotkey_line = 1, ps_pack_selection_seen = False,
     ps_legacy_selection_seen = False\<rparr>"

definition settings_error_at :: "nat \<Rightarrow> string \<Rightarrow> settings_error + 'a" where
  "settings_error_at n m = Inl \<lparr>se_line = n, se_message = lit m\<rparr>"

text \<open>What a line with a key and a value does, once the duplicate check has passed.\<close>

definition apply_setting ::
  "bool \<Rightarrow> nat \<Rightarrow> ustr \<Rightarrow> ustr \<Rightarrow> parse_state \<Rightarrow> settings_error + parse_state" where
  "apply_setting strict n key value p =
     (if key = lit ''enabled_input_packs'' then
        (if strict \<and> (ps_pack_selection_seen p \<or> ps_legacy_selection_seen p)
         then settings_error_at n ''conflicting input pack selection settings''
         else case parse_pack_selection value of
             Inr selection \<Rightarrow>
               Inr (p\<lparr>ps_settings := (ps_settings p)\<lparr>st_enabled_input_packs := selection\<rparr>,
                      ps_pack_selection_seen := True\<rparr>)
           | Inl m \<Rightarrow> if strict then settings_error_at n m else Inr p)
      else case map_of legacy_packs key of
        Some pack \<Rightarrow>
          if strict \<and> ps_pack_selection_seen p
          then settings_error_at n ''conflicting input pack selection settings''
          else
            let p = p\<lparr>ps_legacy_selection_seen := True\<rparr> in
            (case parse_bool value of
               Some b \<Rightarrow>
                 Inr (p\<lparr>ps_settings := set_pack_enabled (from_valid_ascii pack) b (ps_settings p)\<rparr>)
             | None \<Rightarrow> if strict then settings_error_at n ''invalid boolean setting'' else Inr p)
      | None \<Rightarrow>
          if key = lit ''force_hotkey_key'' then
            Inr (p\<lparr>ps_hotkey_key := Some (trim value), ps_hotkey_line := n\<rparr>)
          else if key = lit ''force_hotkey_modifiers'' then
            Inr (p\<lparr>ps_hotkey_modifiers := Some (trim value), ps_hotkey_line := n\<rparr>)
          else (case map_of bool_settings key of
              None \<Rightarrow> Inr p
            | Some destination \<Rightarrow> (case parse_bool value of
                Some b \<Rightarrow> Inr (p\<lparr>ps_settings := destination (\<lambda>_. b) (ps_settings p)\<rparr>)
              | None \<Rightarrow> if strict then settings_error_at n ''invalid boolean setting'' else Inr p)))"

definition settings_line ::
  "bool \<Rightarrow> nat \<Rightarrow> ustr \<Rightarrow> parse_state \<Rightarrow> settings_error + parse_state" where
  "settings_line strict n line0 p =
     (let line = trim line0 in
      if line = [] \<or> starts_with line 0x23 then Inr p
      else case split_once 0x3D line of
          None \<Rightarrow> if strict then settings_error_at n ''expected a settings key=value pair'' else Inr p
        | Some (key0, value) \<Rightarrow>
            let key = trim key0 in
            if strict \<and> is_known_key key then
              (if key \<in> ps_seen p then settings_error_at n ''duplicate setting''
               else apply_setting strict n key value (p\<lparr>ps_seen := insert key (ps_seen p)\<rparr>))
            else apply_setting strict n key value p)"

fun settings_lines :: "bool \<Rightarrow> nat \<Rightarrow> ustr list \<Rightarrow> parse_state \<Rightarrow> settings_error + parse_state" where
  "settings_lines strict n [] p = Inr p"
| "settings_lines strict n (l # ls) p =
     (case settings_line strict n l p of Inl e \<Rightarrow> Inl e | Inr q \<Rightarrow> settings_lines strict (n + 1) ls q)"

definition settle_hotkey :: "bool \<Rightarrow> parse_state \<Rightarrow> settings_error + settings" where
  "settle_hotkey strict p =
     (let s = ps_settings p in
      if ps_hotkey_key p = None \<and> ps_hotkey_modifiers p = None then Inr s
      else
        let current = force_hotkey s;
            key = (case ps_hotkey_key p of Some k \<Rightarrow> k | None \<Rightarrow> key_name current);
            mods = (case ps_hotkey_modifiers p of Some m \<Rightarrow> m | None \<Rightarrow> modifiers_text current)
        in case from_parts key mods of
             Inr h \<Rightarrow> Inr (s\<lparr>st_force_hotkey_virtual_key := hk_key h,
                             st_force_hotkey_modifiers := hk_mods h\<rparr>)
           | Inl _ \<Rightarrow> (case typing_chord key mods of
               Some chord \<Rightarrow> Inr (s\<lparr>st_pause_break_undo := False,
                                   st_refused_force_hotkey := Some (display_name chord)\<rparr>)
             | None \<Rightarrow> if strict then settings_error_at (ps_hotkey_line p) ''invalid force hotkey''
                        else Inr s))"

definition settings_parse_text :: "ustr \<Rightarrow> bool \<Rightarrow> settings_error + settings" where
  "settings_parse_text text0 strict =
     (let text1 = (case strip_prefix [0xFEFF] text0 of Some t \<Rightarrow> t | None \<Rightarrow> text0)
      in case settings_lines strict 1 (str_lines text1) parse_start of
           Inl e \<Rightarrow> Inl e
         | Inr p \<Rightarrow> settle_hotkey strict p)"

definition settings_try_from_text :: "ustr \<Rightarrow> settings_error + settings" where
  "settings_try_from_text t = settings_parse_text t True"

section \<open>Writing\<close>

definition bool_text :: "bool \<Rightarrow> ustr" where
  "bool_text b = (if b then lit ''true'' else lit ''false'')"

definition key_value :: "string \<Rightarrow> ustr \<Rightarrow> ustr" where
  "key_value k v = lit k @ 0x3D # v"

fun join_with :: "uchar \<Rightarrow> ustr list \<Rightarrow> ustr" where
  "join_with c [] = []"
| "join_with c [p] = p"
| "join_with c (p # q # ps) = p @ c # join_with c (q # ps)"

definition settings_text_lines :: "settings \<Rightarrow> ustr list" where
  "settings_text_lines s =
     [lit ''# AutoKeyboardLayot settings v2'',
      key_value ''automatic_conversion_on_startup'' (bool_text (st_automatic_conversion_on_startup s)),
      key_value ''pause_break_undo'' (bool_text (st_pause_break_undo s)),
      key_value ''offer_word_exclusion_after_undo'' (bool_text (st_offer_word_exclusion_after_undo s)),
      key_value ''offer_dictionary_after_forced_conversion'' (bool_text (st_offer_dictionary_after_forced_conversion s)),
      key_value ''force_hotkey_key'' (key_name (force_hotkey s)),
      key_value ''force_hotkey_modifiers'' (modifiers_text (force_hotkey s)),
      key_value ''recheck_first_word_after_erasing'' (bool_text (st_recheck_first_word_after_erasing s)),
      key_value ''physical_fallback_for_unsupported_apps'' (bool_text (st_physical_fallback_for_unsupported_apps s)),
      key_value ''single_letter_words'' (bool_text (st_single_letter_words s)),
      key_value ''layout_model'' (bool_text (st_layout_model s)),
      key_value ''manual_terminal_uia_fallback'' (bool_text (st_manual_terminal_uia_fallback s)),
      key_value ''conversion_sound'' (bool_text (st_conversion_sound s)),
      key_value ''diagnostics_enabled'' (bool_text (st_diagnostics_enabled s)),
      key_value ''suppress_after_backspace'' (bool_text (st_suppress_after_backspace s)),
      key_value ''suppress_after_delete'' (bool_text (st_suppress_after_delete s)),
      key_value ''suppress_after_left'' (bool_text (st_suppress_after_left s)),
      key_value ''suppress_after_right'' (bool_text (st_suppress_after_right s)),
      key_value ''suppress_after_up'' (bool_text (st_suppress_after_up s)),
      key_value ''suppress_after_down'' (bool_text (st_suppress_after_down s)),
      key_value ''suppress_after_home_end'' (bool_text (st_suppress_after_home_end s)),
      key_value ''suppress_after_manual_layout_change'' (bool_text (st_suppress_after_manual_layout_change s)),
      key_value ''enabled_input_packs''
        (join_with 0x2C (map pack_str (sorted_list_of_set (st_enabled_input_packs s))))]"

definition settings_to_text :: "settings \<Rightarrow> ustr" where
  "settings_to_text s = unlines (settings_text_lines s)"

section \<open>The tolerant reader accepts every text\<close>

definition settings_from_text :: "ustr \<Rightarrow> settings option" where
  "settings_from_text t = (case settings_parse_text t False of Inr s \<Rightarrow> Some s | Inl _ \<Rightarrow> None)"

lemma apply_setting_tolerant: "\<exists>q. apply_setting False n key value p = Inr q"
  by (simp add: apply_setting_def Let_def del: lit_simps split: option.split sum.split)

lemma settings_line_tolerant: "\<exists>q. settings_line False n line p = Inr q"
  using apply_setting_tolerant by (auto simp: settings_line_def Let_def split: option.split)

lemma settings_lines_tolerant: "\<exists>q. settings_lines False n ls p = Inr q"
proof (induction ls arbitrary: n p)
  case (Cons l ls)
  obtain q where "settings_line False n l p = Inr q" using settings_line_tolerant by blast
  with Cons show ?case by simp
qed simp

text \<open>C40. The tolerant reader of the settings file is total: whatever the file holds, loading it
  yields settings, so the program's start never stops at the expectation it is wrapped in.\<close>

theorem settings_from_text_total: "settings_from_text t \<noteq> None"
proof -
  have settle: "\<exists>s. settle_hotkey False p = Inr s" for p
    by (simp add: settle_hotkey_def Let_def split: option.split sum.split)
  have "\<exists>s. settings_parse_text t False = Inr s"
    using settings_lines_tolerant settle unfolding settings_parse_text_def Let_def
    by (metis sum.simps(6))
  then show ?thesis by (auto simp: settings_from_text_def)
qed

section \<open>Reading back what is written\<close>

type_synonym bool_field = "ustr \<times> ((bool \<Rightarrow> bool) \<Rightarrow> settings \<Rightarrow> settings) \<times> (settings \<Rightarrow> bool)"

definition bool_fields1 :: "bool_field list" where
  "bool_fields1 =
     [(lit ''automatic_conversion_on_startup'', st_automatic_conversion_on_startup_update, st_automatic_conversion_on_startup),
      (lit ''pause_break_undo'', st_pause_break_undo_update, st_pause_break_undo),
      (lit ''offer_word_exclusion_after_undo'', st_offer_word_exclusion_after_undo_update, st_offer_word_exclusion_after_undo),
      (lit ''offer_dictionary_after_forced_conversion'', st_offer_dictionary_after_forced_conversion_update, st_offer_dictionary_after_forced_conversion)]"

definition bool_fields2 :: "bool_field list" where
  "bool_fields2 =
     [(lit ''recheck_first_word_after_erasing'', st_recheck_first_word_after_erasing_update, st_recheck_first_word_after_erasing),
      (lit ''physical_fallback_for_unsupported_apps'', st_physical_fallback_for_unsupported_apps_update, st_physical_fallback_for_unsupported_apps),
      (lit ''single_letter_words'', st_single_letter_words_update, st_single_letter_words),
      (lit ''layout_model'', st_layout_model_update, st_layout_model),
      (lit ''manual_terminal_uia_fallback'', st_manual_terminal_uia_fallback_update, st_manual_terminal_uia_fallback),
      (lit ''conversion_sound'', st_conversion_sound_update, st_conversion_sound),
      (lit ''diagnostics_enabled'', st_diagnostics_enabled_update, st_diagnostics_enabled),
      (lit ''suppress_after_backspace'', st_suppress_after_backspace_update, st_suppress_after_backspace),
      (lit ''suppress_after_delete'', st_suppress_after_delete_update, st_suppress_after_delete),
      (lit ''suppress_after_left'', st_suppress_after_left_update, st_suppress_after_left),
      (lit ''suppress_after_right'', st_suppress_after_right_update, st_suppress_after_right),
      (lit ''suppress_after_up'', st_suppress_after_up_update, st_suppress_after_up),
      (lit ''suppress_after_down'', st_suppress_after_down_update, st_suppress_after_down),
      (lit ''suppress_after_home_end'', st_suppress_after_home_end_update, st_suppress_after_home_end),
      (lit ''suppress_after_manual_layout_change'', st_suppress_after_manual_layout_change_update, st_suppress_after_manual_layout_change)]"

definition bool_line :: "settings \<Rightarrow> bool_field \<Rightarrow> ustr" where
  "bool_line s = (\<lambda>(k, _, get). k @ 0x3D # bool_text (get s))"

lemma settings_text_split:
  "settings_text_lines s =
   lit ''# AutoKeyboardLayot settings v2'' # map (bool_line s) bool_fields1
   @ key_value ''force_hotkey_key'' (key_name (force_hotkey s))
   # key_value ''force_hotkey_modifiers'' (modifiers_text (force_hotkey s))
   # map (bool_line s) bool_fields2
   @ [key_value ''enabled_input_packs''
        (join_with 0x2C (map pack_str (sorted_list_of_set (st_enabled_input_packs s))))]"
  by (simp only: settings_text_lines_def bool_fields1_def bool_fields2_def bool_line_def key_value_def
      list.map append.simps prod.case)

definition plain_key :: "ustr \<Rightarrow> bool" where
  "plain_key k \<longleftrightarrow>
     k \<noteq> [] \<and> list_all (\<lambda>c. \<not> is_whitespace c \<and> c \<noteq> 0x3D \<and> c \<noteq> 0x23 \<and> c \<noteq> 10 \<and> c \<noteq> 13) k"

lemma known_keys_plain: "list_all plain_key known_keys"
  by (simp add: known_keys_def plain_key_def is_whitespace_def)

lemma known_keys_distinct: "distinct known_keys"
  by (simp add: known_keys_def)

lemma known_keys_split:
  "known_keys = [lit ''enabled_input_packs'', lit ''enable_english'', lit ''enable_russian'',
     lit ''enable_estonian'', lit ''force_hotkey_key'', lit ''force_hotkey_modifiers'']
     @ map fst (bool_fields1 @ bool_fields2)"
  by (simp only: known_keys_def bool_fields1_def bool_fields2_def append.simps list.map fst_conv)

lemma bool_settings_split: "bool_settings = map (\<lambda>(k, u, _). (k, u)) (bool_fields1 @ bool_fields2)"
  by (simp only: bool_settings_def bool_fields1_def bool_fields2_def append.simps list.map prod.case)

lemma trim_key_value:
  assumes "plain_key k" and "clean_ends is_whitespace v"
  shows "split_once 0x3D (trim (k @ 0x3D # v)) = Some (k, v)" "trim k = k"
    and "trim (k @ 0x3D # v) \<noteq> []" "\<not> starts_with (trim (k @ 0x3D # v)) 0x23"
proof -
  have k: "\<forall>c \<in> set k. \<not> is_whitespace c \<and> c \<noteq> 0x3D \<and> c \<noteq> 0x23" "k \<noteq> []"
    using assms(1) by (auto simp: plain_key_def list_all_iff)
  have "clean_ends is_whitespace (k @ 0x3D # v)"
    using k assms(2) by (cases "v = []") (auto simp: clean_ends_def is_whitespace_def)
  then have t: "trim (k @ 0x3D # v) = k @ 0x3D # v" unfolding trim_def by (rule trim_matches_clean)
  show "split_once 0x3D (trim (k @ 0x3D # v)) = Some (k, v)"
    unfolding t by (simp only: split_once_Some simp_thms) (use k in blast)
  show "trim k = k" by (rule trim_plain) (use k in blast)
  show "trim (k @ 0x3D # v) \<noteq> []" "\<not> starts_with (trim (k @ 0x3D # v)) 0x23"
    unfolding t using k by (cases k; simp)+
qed

lemma settings_line_key_value:
  assumes "k \<in> set known_keys" and "k \<notin> ps_seen p" and "clean_ends is_whitespace v"
  shows "settings_line True n (k @ 0x3D # v) p =
    apply_setting True n k v (p\<lparr>ps_seen := insert k (ps_seen p)\<rparr>)"
proof -
  have "plain_key k" using assms(1) known_keys_plain by (simp add: list_all_iff)
  from trim_key_value [OF this assms(3)] show ?thesis
    unfolding settings_line_def using assms(1,2) by (simp add: is_known_key_def)
qed

lemma bool_text_value [simp]:
  "parse_bool (bool_text b) = Some b" "clean_ends is_whitespace (bool_text b)" "is_line (bool_text b)"
  by (cases b; simp add: parse_bool_def bool_text_def trim_def trim_matches_def is_whitespace_def
      ascii_defs clean_ends_def is_line_def)+

lemma bool_field_setting:
  assumes "(k, u, g) \<in> set (bool_fields1 @ bool_fields2)"
  shows "apply_setting True n k (bool_text b) p = Inr (p\<lparr>ps_settings := u (\<lambda>_. b) (ps_settings p)\<rparr>)"
    and "k \<in> set known_keys"
proof -
  have "distinct (map fst (bool_fields1 @ bool_fields2))"
    using known_keys_distinct unfolding known_keys_split distinct_append by blast
  then have "distinct (map fst bool_settings)"
    unfolding bool_settings_split by (simp add: comp_def case_prod_unfold)
  moreover have "(k, u) \<in> set bool_settings"
    using assms unfolding bool_settings_split by force
  ultimately have m: "map_of bool_settings k = Some u" by simp
  have kin: "k \<in> set (map fst (bool_fields1 @ bool_fields2))" using assms by force
  have "set [lit ''enabled_input_packs'', lit ''enable_english'', lit ''enable_russian'',
     lit ''enable_estonian'', lit ''force_hotkey_key'', lit ''force_hotkey_modifiers'']
     \<inter> set (map fst (bool_fields1 @ bool_fields2)) = {}"
    using known_keys_distinct unfolding known_keys_split distinct_append by blast
  then have ne: "k \<noteq> lit ''enabled_input_packs''" "k \<noteq> lit ''enable_english''"
    "k \<noteq> lit ''enable_russian''" "k \<noteq> lit ''enable_estonian''"
    "k \<noteq> lit ''force_hotkey_key''" "k \<noteq> lit ''force_hotkey_modifiers''"
    using kin unfolding list.set by blast+
  then have "map_of legacy_packs k = None"
    unfolding legacy_packs_def by (simp only: map_of.simps fun_upd_apply fst_conv snd_conv if_False)
  show "apply_setting True n k (bool_text b) p = Inr (p\<lparr>ps_settings := u (\<lambda>_. b) (ps_settings p)\<rparr>)"
    using ne m \<open>map_of legacy_packs k = None\<close> by (simp add: apply_setting_def del: lit_simps)
  show "k \<in> set known_keys" unfolding known_keys_split set_append using kin by blast
qed

lemma settings_lines_bools:
  assumes "set fs \<subseteq> set (bool_fields1 @ bool_fields2)" and "distinct (map fst fs)"
    and "fst ` set fs \<inter> ps_seen p = {}"
  shows "settings_lines True n (map (bool_line s) fs @ ls) p =
    settings_lines True (n + length fs) ls
      (p\<lparr>ps_seen := ps_seen p \<union> fst ` set fs,
         ps_settings := fold (\<lambda>(k, u, g). u (\<lambda>_. g s)) fs (ps_settings p)\<rparr>)"
  using assms
proof (induction fs arbitrary: n p)
  case (Cons f fs)
  obtain k u g where f: "f = (k, u, g)" by (cases f)
  have kin: "(k, u, g) \<in> set (bool_fields1 @ bool_fields2)" using Cons.prems f by auto
  let ?p = "p\<lparr>ps_seen := insert k (ps_seen p), ps_settings := u (\<lambda>_. g s) (ps_settings p)\<rparr>"
  have "k \<notin> ps_seen p" using Cons.prems f by auto
  then have "settings_line True n (bool_line s f) p = Inr ?p"
    using settings_line_key_value [OF bool_field_setting(2) [OF kin], of p "bool_text (g s)" n]
      bool_field_setting(1) [OF kin]
    by (simp add: bool_line_def f del: set_append)
  moreover have "set fs \<subseteq> set (bool_fields1 @ bool_fields2)" "distinct (map fst fs)"
    "fst ` set fs \<inter> ps_seen ?p = {}"
    using Cons.prems f by auto
  note Cons.IH [OF this, of "Suc n"]
  ultimately show ?case by (simp add: f)
qed simp

lemma comment_line:
  "settings_line True n (lit ''# AutoKeyboardLayot settings v2'') p = Inr p"
proof -
  have "trim (lit ''# AutoKeyboardLayot settings v2'') = lit ''# AutoKeyboardLayot settings v2''"
    unfolding trim_def by (rule trim_matches_clean) (simp add: clean_ends_def is_whitespace_def)
  then show ?thesis by (simp add: settings_line_def)
qed

definition special_keys :: "ustr list" where
  "special_keys = [lit ''force_hotkey_key'', lit ''force_hotkey_modifiers'', lit ''enabled_input_packs'']"

lemma special_keys_in:
  "lit ''force_hotkey_key'' \<in> set special_keys" "lit ''force_hotkey_modifiers'' \<in> set special_keys"
  "lit ''enabled_input_packs'' \<in> set special_keys"
  by (simp_all only: special_keys_def list.set insert_iff simp_thms)

lemma special_known: "k \<in> set special_keys \<Longrightarrow> k \<in> set known_keys"
  unfolding special_keys_def known_keys_def list.set insert_iff by (elim disjE) simp_all

lemma special_fresh:
  "k \<in> set special_keys \<Longrightarrow> k \<notin> fst ` set bool_fields1 \<and> k \<notin> fst ` set bool_fields2"
proof -
  assume k: "k \<in> set special_keys"
  have "set [lit ''enabled_input_packs'', lit ''enable_english'', lit ''enable_russian'',
     lit ''enable_estonian'', lit ''force_hotkey_key'', lit ''force_hotkey_modifiers'']
     \<inter> set (map fst (bool_fields1 @ bool_fields2)) = {}"
    using known_keys_distinct unfolding known_keys_split distinct_append by blast
  moreover have "k \<in> set [lit ''enabled_input_packs'', lit ''enable_english'', lit ''enable_russian'',
     lit ''enable_estonian'', lit ''force_hotkey_key'', lit ''force_hotkey_modifiers'']"
    using k unfolding special_keys_def list.set by blast
  ultimately have "k \<notin> set (map fst (bool_fields1 @ bool_fields2))" by blast
  then show ?thesis by auto
qed

lemma legacy_special: "map_of legacy_packs (lit ''force_hotkey_key'') = None"
  "map_of legacy_packs (lit ''force_hotkey_modifiers'') = None"
  by (simp_all add: legacy_packs_def)

definition clean_line :: "ustr \<Rightarrow> bool" where
  "clean_line t \<longleftrightarrow> clean_ends is_whitespace t \<and> is_line t"

lemma clean_line_plain: "\<forall>c \<in> set t. \<not> is_whitespace c \<Longrightarrow> clean_line t"
proof -
  assume t: "\<forall>c \<in> set t. \<not> is_whitespace c"
  have "is_whitespace 10" "is_whitespace 13" by (simp_all add: is_whitespace_def)
  with t have "is_line t" unfolding is_line_def by blast
  with clean_ends_all [OF t] show ?thesis by (simp add: clean_line_def)
qed

lemma clean_line_literals:
  "clean_line (lit ''Break'')" "clean_line (lit ''Pause/Break'')" "clean_line (lit ''Insert'')"
  "clean_line (lit ''Scroll Lock'')"
  by (simp_all add: clean_line_def clean_ends_def is_line_def is_whitespace_def)

lemma clean_line_function: "clean_line (lit ''F'' @ decimal n)"
  by (rule clean_line_plain) (auto simp: is_ascii_digit_def is_whitespace_def dest: decimal_digits)

lemma clean_line_key: "is_letter_key vk \<or> is_digit_key vk \<Longrightarrow> clean_line [unat vk]"
  by (rule clean_line_plain)
    (auto simp: is_letter_key_def is_digit_key_def word_le_nat_alt is_whitespace_def)

lemma clean_line_key_name: "clean_line (key_name_of vk)"
  unfolding key_name_of_def
  by (simp only: clean_line_literals clean_line_function simp_thms split: if_split) (blast intro: clean_line_key)

lemma key_name_clean: "trim (key_name h) = key_name h" "is_line (key_name h)"
  "clean_ends is_whitespace (key_name h)"
  using clean_line_key_name [of "hk_key h"]
  by (simp_all add: key_name_def clean_line_def trim_def trim_matches_clean)

lemma modifiers_text_clean:
  "trim (modifiers_text h) = modifiers_text h" "is_line (modifiers_text h)"
  "clean_ends is_whitespace (modifiers_text h)"
proof -
  show c: "clean_ends is_whitespace (modifiers_text h)"
    by (simp add: modifiers_text_def modifiers_text_of_def Let_def clean_ends_def is_whitespace_def)
  show "is_line (modifiers_text h)"
    by (simp add: modifiers_text_def modifiers_text_of_def Let_def is_line_def)
  show "trim (modifiers_text h) = modifiers_text h"
    using c by (simp add: trim_def trim_matches_clean)
qed

section \<open>The pack selection\<close>

lemma split_on_join:
  "\<forall>p \<in> set ps. c \<notin> set p \<Longrightarrow> ps \<noteq> [] \<Longrightarrow> split_on (\<lambda>d. d = c) (join_with c ps) = ps"
proof (induction c ps rule: join_with.induct)
  case (2 c p)
  have "split_on (\<lambda>d. d = c) p = [p]" if "c \<notin> set p" for p
    using that by (induction p) auto
  with 2 show ?case by simp
next
  case (3 c p q ps)
  have "split_on (\<lambda>d. d = c) (p @ c # join_with c (q # ps))
      = p # split_on (\<lambda>d. d = c) (join_with c (q # ps))"
    using 3(2) by (intro split_on_append) auto
  with 3 show ?case by simp
qed simp

lemma set_join: "set (join_with c ps) \<subseteq> insert c (\<Union>p \<in> set ps. set p)"
  by (induction c ps rule: join_with.induct) auto

lemma select_packs_all:
  "list_all valid_pack ls \<Longrightarrow> n + length ls \<le> 64 \<Longrightarrow>
   select_packs n (map pack_str ls) S = Inr (S \<union> set ls)"
  by (induction ls arbitrary: n S) (simp_all add: trim_pack_str valid_pack_def)

lemma parse_selection_written:
  assumes "finite A" and "\<forall>l \<in> A. valid_pack l" and "card A \<le> 64"
  defines "v \<equiv> join_with 0x2C (map pack_str (sorted_list_of_set A))"
  shows "parse_pack_selection v = Inr A" and "clean_line v"
proof -
  let ?ls = "sorted_list_of_set A"
  have c: "\<not> is_whitespace c \<and> c \<noteq> 0x2C" if "l \<in> A" "c \<in> set (pack_str l)" for l c
    using valid_pack_chars [of l c] assms(2) that
    by (auto simp: ascii_defs is_hyphen_def is_whitespace_def)
  have "\<forall>c \<in> set v. \<not> is_whitespace c"
    using set_join [of "0x2C" "map pack_str ?ls"] assms(1) c
    unfolding v_def by (fastforce simp: is_whitespace_def)
  then show "clean_line v" by (rule clean_line_plain)
  then have t: "trim v = v" by (simp add: clean_line_def trim_def trim_matches_clean)
  show "parse_pack_selection v = Inr A"
  proof (cases "A = {}")
    case True
    then show ?thesis by (simp add: v_def parse_pack_selection_def trim_def trim_matches_def)
  next
    case False
    have "split_on (\<lambda>d. d = 0x2C) v = map pack_str ?ls"
      unfolding v_def by (rule split_on_join) (use assms(1) c False in auto)
    moreover have "select_packs 0 (map pack_str ?ls) {} = Inr A"
      using select_packs_all [of ?ls 0 "{}"] assms(1-3) by (simp add: list_all_iff)
    moreover have "v \<noteq> []"
    proof
      assume "v = []"
      then have "map pack_str ?ls = [[]]" using calculation(1) by simp
      then obtain a where "?ls = [a]" "pack_str a = []" by (auto simp: map_eq_Cons_conv)
      moreover have "set ?ls = A" using assms(1) by simp
      ultimately show False using assms(2) valid_pack_nonempty by auto
    qed
    ultimately show ?thesis by (simp add: parse_pack_selection_def t)
  qed
qed

section \<open>The round trip\<close>

lemma settings_line_special:
  assumes "k \<in> set special_keys" and "k \<notin> ps_seen p" and "clean_line v"
  shows "settings_line True n (k @ 0x3D # v) p =
    apply_setting True n k v (p\<lparr>ps_seen := insert k (ps_seen p)\<rparr>)"
  using assms by (intro settings_line_key_value special_known) (simp_all add: clean_line_def)

lemma apply_hotkey_key:
  "trim v = v \<Longrightarrow> apply_setting True n (lit ''force_hotkey_key'') v p =
   Inr (p\<lparr>ps_hotkey_key := Some v, ps_hotkey_line := n\<rparr>)"
  by (simp add: apply_setting_def legacy_packs_def)

lemma apply_hotkey_modifiers:
  "trim v = v \<Longrightarrow> apply_setting True n (lit ''force_hotkey_modifiers'') v p =
   Inr (p\<lparr>ps_hotkey_modifiers := Some v, ps_hotkey_line := n\<rparr>)"
  by (simp add: apply_setting_def legacy_packs_def)

lemma apply_packs:
  "parse_pack_selection v = Inr A \<Longrightarrow> \<not> ps_pack_selection_seen p \<Longrightarrow> \<not> ps_legacy_selection_seen p \<Longrightarrow>
   apply_setting True n (lit ''enabled_input_packs'') v p =
   Inr (p\<lparr>ps_settings := (ps_settings p)\<lparr>st_enabled_input_packs := A\<rparr>, ps_pack_selection_seen := True\<rparr>)"
  by (simp add: apply_setting_def)

lemma bool_fields_ok:
  "set bool_fields1 \<subseteq> set (bool_fields1 @ bool_fields2)" "distinct (map fst bool_fields1)"
  "set bool_fields2 \<subseteq> set (bool_fields1 @ bool_fields2)" "distinct (map fst bool_fields2)"
  "fst ` set bool_fields2 \<inter> fst ` set bool_fields1 = {}"
  using known_keys_distinct unfolding known_keys_split distinct_append map_append set_append set_map
  by blast+

definition read_back :: "settings \<Rightarrow> settings" where
  "read_back s =
     fold (\<lambda>(k, u, g). u (\<lambda>_. g s)) bool_fields2 (fold (\<lambda>(k, u, g). u (\<lambda>_. g s)) bool_fields1 settings_default)"

lemma settings_lines_written:
  assumes "clean_line v" "parse_pack_selection v = Inr A"
  shows "\<exists>p. settings_lines True 1
      (lit ''# AutoKeyboardLayot settings v2'' # map (bool_line s) bool_fields1
       @ (lit ''force_hotkey_key'' @ 0x3D # key_name h)
       # (lit ''force_hotkey_modifiers'' @ 0x3D # modifiers_text h)
       # map (bool_line s) bool_fields2
       @ [lit ''enabled_input_packs'' @ 0x3D # v]) parse_start = Inr p
     \<and> ps_settings p = (read_back s)\<lparr>st_enabled_input_packs := A\<rparr>
     \<and> ps_hotkey_key p = Some (key_name h) \<and> ps_hotkey_modifiers p = Some (modifiers_text h)"
proof -
  let ?k = "lit ''force_hotkey_key''" and ?m = "lit ''force_hotkey_modifiers''"
  let ?e = "lit ''enabled_input_packs''"
  let ?u = "\<lambda>fs. fold (\<lambda>(k, u, g). u (\<lambda>_. g s)) fs"
  let ?n1 = "2 + length bool_fields1"
  let ?p1 = "parse_start\<lparr>ps_seen := fst ` set bool_fields1, ps_settings := ?u bool_fields1 settings_default\<rparr>"
  let ?p2 = "?p1\<lparr>ps_seen := insert ?k (ps_seen ?p1), ps_hotkey_key := Some (key_name h), ps_hotkey_line := ?n1\<rparr>"
  let ?p3 = "?p2\<lparr>ps_seen := insert ?m (ps_seen ?p2), ps_hotkey_modifiers := Some (modifiers_text h),
    ps_hotkey_line := ?n1 + 1\<rparr>"
  let ?p4 = "?p3\<lparr>ps_seen := ps_seen ?p3 \<union> fst ` set bool_fields2, ps_settings := read_back s\<rparr>"
  note sp = special_keys_in
  have ne: "?k \<noteq> ?m" "?k \<noteq> ?e" "?m \<noteq> ?e"
    by simp_all
  have l1: "settings_lines True 1 (lit ''# AutoKeyboardLayot settings v2'' # map (bool_line s) bool_fields1 @ ls)
      parse_start = settings_lines True ?n1 ls ?p1" for ls
    using settings_lines_bools [OF bool_fields_ok(1,2), of parse_start 2 s ls]
    by (simp add: comment_line parse_start_def numeral_2_eq_2 del: lit_simps)
  have k: "settings_line True ?n1 (?k @ 0x3D # key_name h) ?p1 = Inr ?p2"
    using special_fresh [OF sp(1)]
    by (subst settings_line_special [OF sp(1)])
      (simp_all add: apply_hotkey_key key_name_clean clean_line_def del: lit_simps)
  have m: "settings_line True (?n1 + 1) (?m @ 0x3D # modifiers_text h) ?p2 = Inr ?p3"
    using special_fresh [OF sp(2)] ne
    by (subst settings_line_special [OF sp(2)])
      (simp_all add: apply_hotkey_modifiers modifiers_text_clean clean_line_def del: lit_simps)
  have l4: "settings_lines True (?n1 + 1 + 1) (map (bool_line s) bool_fields2 @ ls) ?p3
      = settings_lines True (?n1 + 1 + 1 + length bool_fields2) ls ?p4" for ls
    using settings_lines_bools [OF bool_fields_ok(3,4), of ?p3 "?n1 + 1 + 1" s ls]
      special_fresh [OF sp(1)] special_fresh [OF sp(2)] bool_fields_ok(5)
    by (simp add: read_back_def del: lit_simps)
  have e: "settings_line True n (?e @ 0x3D # v) ?p4 =
      Inr (?p4\<lparr>ps_seen := insert ?e (ps_seen ?p4), ps_settings := (read_back s)\<lparr>st_enabled_input_packs := A\<rparr>,
        ps_pack_selection_seen := True\<rparr>)" for n
    using special_fresh [OF sp(3)] ne
    by (subst settings_line_special [OF sp(3) _ assms(1)])
      (simp_all add: apply_packs assms(2) parse_start_def del: lit_simps)
  show ?thesis
    unfolding l1
    unfolding settings_lines.simps k sum.case m
    unfolding l4 settings_lines.simps e sum.case sum.inject
    by (simp del: lit_simps add: parse_start_def)
qed

text \<open>The fields of boolean settings are exactly what the boolean lines set.\<close>

lemma read_back_fields:
  "(read_back s)\<lparr>st_enabled_input_packs := st_enabled_input_packs s,
     st_force_hotkey_virtual_key := st_force_hotkey_virtual_key s,
     st_force_hotkey_modifiers := st_force_hotkey_modifiers s\<rparr>
   = s\<lparr>st_refused_force_hotkey := None\<rparr>"
  by (cases s) (simp add: read_back_def bool_fields1_def bool_fields2_def settings_default_def del: lit_simps)

text \<open>Saving settings and loading them again changes nothing: for settings with an accepted
  hotkey and at most 64 selected packs, the strict reader accepts the written text and gives
  back every field, boolean by boolean, the hotkey and the selection; only the volatile note
  about a refused hotkey is gone.\<close>

theorem settings_roundtrip:
  assumes "hotkey_new (st_force_hotkey_virtual_key s) (st_force_hotkey_modifiers s)
      = Inr \<lparr>hk_key = st_force_hotkey_virtual_key s, hk_mods = st_force_hotkey_modifiers s\<rparr>"
    and "finite (st_enabled_input_packs s)" "\<forall>l \<in> st_enabled_input_packs s. valid_pack l"
    and "card (st_enabled_input_packs s) \<le> 64"
  shows "settings_try_from_text (settings_to_text s) = Inr (s\<lparr>st_refused_force_hotkey := None\<rparr>)"
proof -
  let ?h = "\<lparr>hk_key = st_force_hotkey_virtual_key s, hk_mods = st_force_hotkey_modifiers s\<rparr>"
  let ?v = "join_with 0x2C (map pack_str (sorted_list_of_set (st_enabled_input_packs s)))"
  note v = parse_selection_written [OF assms(2,3,4)]
  have h: "force_hotkey s = ?h" by (simp add: force_hotkey_def assms(1))
  have fp: "from_parts (key_name ?h) (modifiers_text ?h) = Inr ?h"
    by (rule from_parts_new [OF usable_canonical_new [OF assms(1)]])
  have lines: "\<forall>l \<in> set (settings_text_lines s). is_line l"
  proof -
    have app: "is_line (a @ 0x3D # b)" if "is_line a" "is_line b" for a b
      using that by (auto simp: is_line_def)
    have key: "is_line k" if "k \<in> set known_keys" for k
      using known_keys_plain that by (fastforce simp: list_all_iff plain_key_def is_line_def)
    have "is_line (bool_line s f)" if "f \<in> set (bool_fields1 @ bool_fields2)" for f
    proof -
      obtain k u g where f: "f = (k, u, g)" by (cases f)
      show ?thesis
        using app [OF key [OF bool_field_setting(2) [OF that [unfolded f]]] bool_text_value(3)]
        by (simp add: f bool_line_def)
    qed
    moreover have "is_line (lit ''# AutoKeyboardLayot settings v2'')" by (simp add: is_line_def)
    moreover have "is_line (lit ''force_hotkey_key'' @ 0x3D # key_name ?h)"
      "is_line (lit ''force_hotkey_modifiers'' @ 0x3D # modifiers_text ?h)"
      "is_line (lit ''enabled_input_packs'' @ 0x3D # ?v)"
      by (rule app [OF key [OF special_known [OF special_keys_in(1)]] key_name_clean(2)],
          rule app [OF key [OF special_known [OF special_keys_in(2)]] modifiers_text_clean(2)],
          rule app [OF key [OF special_known [OF special_keys_in(3)]] v(2) [unfolded clean_line_def, THEN conjunct2]])
    ultimately show ?thesis
      unfolding settings_text_split key_value_def h by (auto simp del: lit_simps)
  qed
  have bom: "strip_prefix [0xFEFF] (settings_to_text s) = None"
    by (simp add: settings_to_text_def settings_text_lines_def unlines_def)
  obtain p where "settings_lines True 1 (settings_text_lines s) parse_start = Inr p"
    and p: "ps_settings p = (read_back s)\<lparr>st_enabled_input_packs := st_enabled_input_packs s\<rparr>"
      "ps_hotkey_key p = Some (key_name ?h)" "ps_hotkey_modifiers p = Some (modifiers_text ?h)"
    using settings_lines_written [OF v(2,1), of s ?h] unfolding settings_text_split key_value_def h by blast
  then have "settings_try_from_text (settings_to_text s) = settle_hotkey True p"
    unfolding settings_try_from_text_def settings_parse_text_def bom
    by (simp add: settings_to_text_def str_lines_unlines [OF lines])
  also have "\<dots> = Inr (s\<lparr>st_refused_force_hotkey := None\<rparr>)"
    using read_back_fields [of s] by (simp add: settle_hotkey_def p fp)
  finally show ?thesis .
qed

lemma settings_roundtrip_witness:
  "settings_try_from_text (settings_to_text settings_default)
   = Inr (settings_default\<lparr>st_refused_force_hotkey := None\<rparr>)"
proof (rule settings_roundtrip)
  show "hotkey_new (st_force_hotkey_virtual_key settings_default) (st_force_hotkey_modifiers settings_default)
      = Inr \<lparr>hk_key = st_force_hotkey_virtual_key settings_default,
             hk_mods = st_force_hotkey_modifiers settings_default\<rparr>"
    by (simp add: settings_default_def hotkey_default_def hotkey_new_def Let_def consts_def types_text_def
        is_digit_key_def is_letter_key_def is_function_key_def)
  show "\<forall>l \<in> st_enabled_input_packs settings_default. valid_pack l"
    by (simp add: settings_default_def valid_pack_def pack_parse_def valid_pack_text_def byte_len_def
        len_utf8_def is_hyphen_def language_defs)
qed (simp_all add: settings_default_def)

end
