(* ===== verification/Agent_State.thy ===== *)
theory Agent_State
  imports Gate Settings Privacy
begin

text \<open>
  \<open>src/windows_agent.rs\<close>: the state of the UI thread (\<open>AppState\<close>) with the metrics it shares
  with the input worker (\<open>ObserverMetrics\<close>), the bounded queue to the worker, and every
  operation that ends a correction gate, keeps its keys, hands them back or deletes them.

  \<^item> The atomics of \<open>ObserverMetrics\<close> are fields; the mutex around the retained record is
    held for each operation, as in the source.
  \<^item> The channel to the worker is the list of queued events, \<open>None\<close> once the sender was
    taken; \<open>as_worker_listening\<close> is false once the worker dropped the receiver.
  \<^item> Messages posted to the agent's own window are collected in \<open>as_posted\<close>.
  \<^item> Diagnostic records are not modelled: nothing reads them.
  \<^item> A clock reading that only stamps records is one argument per operation; the foreground
    the operation reads is an argument.
\<close>

section \<open>Data\<close>

definition INPUT_QUEUE_CAPACITY :: nat where [consts_def]: "INPUT_QUEUE_CAPACITY = 512"
definition RETAINED_INPUT_LIFETIME_MS :: nat where [consts_def]: "RETAINED_INPUT_LIFETIME_MS = 60000"
definition STALLED_WORKER_HAND_BACK_MS :: nat where
  [consts_def]: "STALLED_WORKER_HAND_BACK_MS = 2000"
definition RETAINED_RECOVERY_GRACE :: duration where
  [consts_def]: "RETAINED_RECOVERY_GRACE = from_secs 5"

datatype conversion_failure_reason =
    FailNone | FailSourceBarrier | FailLayoutUnavailable | FailPhysicalEdit | FailTextCommit
  | FailReplayCommit | FailGateDrain | FailClipboardEdit | FailInternalFault | FailSelectionLeft
  | FailLayoutSwitch

datatype gate_failure_cause =
    CauseDeadline | CauseCapacity | CauseFocusChanged | CauseMouse | CauseExternalInjection
  | CauseWorkerQueue | CauseReplaySubmit | CauseWorkerAck | CauseDownstreamHook
  | CauseInternalFault | CauseHookReinstall | CauseSelectionLeft

record retained_input =
  ri_token :: u64
  ri_foreground :: foreground_context
  ri_events :: "raw_key_event list"
  ri_delivery_uncertain :: bool
  ri_expires_at :: instant
  ri_recovering :: bool
  ri_retained_at :: instant
  ri_auto_recover :: bool
  ri_input_mark :: u64

datatype raw_input_event =
    EvKey raw_key_event
  | EvMouse
  | EvExternalInjection
  | EvPrivacyRefresh foreground_context
  | EvProfileRefresh
  | EvReloadConfiguration
  | EvRecoverInput (ev_sequence: u64) (ev_explicit: bool)
  | EvRetainedInputExpired
  | EvRetainedInputHandedBack u64 nat nat
  | EvGateDrainReady u64 nat bool

datatype package_source = LegacyBootstrap | Managed u64 "u8 list"

record runtime_configuration =
  rc_package_source :: package_source
  rc_sources :: u8
  rc_settings :: settings

record configuration_reload =
  cr_revision :: u64
  cr_snapshot :: runtime_configuration

datatype configuration_handoff = HandoffQueued | HandoffBusy | HandoffRefused

datatype queue_refusal = RefusalFull | RefusalClosed

record queued_input_event =
  qe_epoch :: u64
  qe_captured_at :: instant
  qe_event :: raw_input_event
  qe_configuration :: "configuration_reload option"

record observer_metrics =
  m_dropped_events :: u64
  m_input_epoch :: u64
  m_configuration_pending :: bool
  m_configuration_ack :: u64
  m_configuration_rejected :: u64
  m_last_input_layout :: u64
  m_privacy_reason :: u8
  m_privacy_process_id :: u32
  m_auto_enabled :: bool
  m_safety_paused :: bool
  m_pause_break_undo :: bool
  m_force_hotkey_virtual_key :: u32
  m_force_hotkey_modifiers :: u8
  m_undo_available :: bool
  m_undo_hotkey_active :: bool
  m_hotkey_waiting_for_release :: bool
  m_explicit_hotkey_sequence :: u64
  m_conversion_failures :: u64
  m_last_failure_reason :: conversion_failure_reason
  m_diagnostics_enabled :: bool
  m_observed_input_sequence :: u64
  m_forwarded_input_sequence :: u64
  m_active_gate_token :: u64
  m_cancelled_gate_token :: u64
  m_privacy_refresh_queued :: bool
  m_profile_refresh_queued :: bool
  m_worker_busy :: bool
  m_edit_in_flight :: bool
  m_selection_left_token :: u64
  m_worker_dead :: bool
  m_retained_input :: "retained_input option"
  m_recovery_armed :: bool

definition observer_metrics_default :: observer_metrics where
  "observer_metrics_default =
     \<lparr>m_dropped_events = 0, m_input_epoch = 0, m_configuration_pending = False,
      m_configuration_ack = 0, m_configuration_rejected = 0, m_last_input_layout = 0,
      m_privacy_reason = 3, m_privacy_process_id = 0, m_auto_enabled = False,
      m_safety_paused = False, m_pause_break_undo = True,
      m_force_hotkey_virtual_key = ucast (hk_key hotkey_default),
      m_force_hotkey_modifiers = hk_mods hotkey_default, m_undo_available = False,
      m_undo_hotkey_active = False, m_hotkey_waiting_for_release = False,
      m_explicit_hotkey_sequence = 0, m_conversion_failures = 0, m_last_failure_reason = FailNone,
      m_diagnostics_enabled = False, m_observed_input_sequence = 0,
      m_forwarded_input_sequence = 0, m_active_gate_token = 0, m_cancelled_gate_token = 0,
      m_privacy_refresh_queued = False, m_profile_refresh_queued = False, m_worker_busy = False,
      m_edit_in_flight = False, m_selection_left_token = 0, m_worker_dead = False,
      m_retained_input = None, m_recovery_armed = False\<rparr>"

datatype lexicon_offer_target = OfferUserDictionary | OfferWordExclusions

record volatile_lexicon_candidate =
  vl_target :: lexicon_offer_target
  vl_language :: language
  vl_word :: ustr
  vl_expires_at :: instant

datatype posted_message = PostHeldKeysReturn | PostRecoveryNotice

record app_state =
  as_queue :: "queued_input_event list option"
  as_worker_listening :: bool
  as_shutdown :: bool
  as_metrics :: observer_metrics
  as_gate :: correction_gate
  as_settings :: settings
  as_next_configuration_revision :: u64
  as_configuration_sources :: u8
  as_package_source :: package_source
  as_pending_configuration :: "configuration_reload option"
  as_deferred_configuration :: "runtime_configuration option"
  as_lexicon_candidate :: "volatile_lexicon_candidate option"
  as_pending_key_releases :: "raw_key_event list"
  as_pending_held_replay :: "raw_key_event list"
  as_pending_hand_back :: "u64 option"
  as_typed_input :: u64
  as_posted :: "posted_message list"

section \<open>The queue to the worker\<close>

definition try_send :: "queued_input_event \<Rightarrow> app_state \<Rightarrow> (queue_refusal + unit) \<times> app_state" where
  "try_send q s =
     (case as_queue s of
        None \<Rightarrow> (Inl RefusalClosed, s)
      | Some qs \<Rightarrow>
          if \<not> as_worker_listening s then (Inl RefusalClosed, s)
          else if INPUT_QUEUE_CAPACITY \<le> length qs then (Inl RefusalFull, s)
          else (Inr (), s\<lparr>as_queue := Some (qs @ [q])\<rparr>))"

text \<open>The flag that keeps at most one refresh of a kind in the queue.\<close>

definition refresh_flag :: "raw_input_event \<Rightarrow> observer_metrics \<Rightarrow> bool option" where
  "refresh_flag e m =
     (case e of
        EvPrivacyRefresh _ \<Rightarrow> Some (m_privacy_refresh_queued m)
      | EvProfileRefresh \<Rightarrow> Some (m_profile_refresh_queued m)
      | _ \<Rightarrow> None)"

definition set_refresh_flag :: "raw_input_event \<Rightarrow> bool \<Rightarrow> observer_metrics \<Rightarrow> observer_metrics" where
  "set_refresh_flag e b m =
     (case e of
        EvPrivacyRefresh _ \<Rightarrow> m\<lparr>m_privacy_refresh_queued := b\<rparr>
      | EvProfileRefresh \<Rightarrow> m\<lparr>m_profile_refresh_queued := b\<rparr>
      | _ \<Rightarrow> m)"

definition note_layout :: "raw_input_event \<Rightarrow> observer_metrics \<Rightarrow> observer_metrics" where
  "note_layout e m =
     (case e of EvKey k \<Rightarrow> m\<lparr>m_last_input_layout := fc_layout (ke_foreground k)\<rparr> | _ \<Rightarrow> m)"

definition enqueue_with_configuration ::
  "raw_input_event \<Rightarrow> configuration_reload option \<Rightarrow> instant \<Rightarrow> app_state
   \<Rightarrow> (queue_refusal + unit) \<times> app_state" where
  "enqueue_with_configuration e configuration now s =
     (if as_queue s = None then (Inl RefusalClosed, s)
      else if refresh_flag e (as_metrics s) = Some True then (Inr (), s)
      else
        let s = as_metrics_update (\<lambda>m. note_layout e (set_refresh_flag e True m)) s;
            q = \<lparr>qe_epoch = m_input_epoch (as_metrics s), qe_captured_at = now, qe_event = e,
                 qe_configuration = configuration\<rparr>
        in case try_send q s of
             (Inr u, s) \<Rightarrow> (Inr u, s)
           | (Inl RefusalClosed, s) \<Rightarrow>
               (Inl RefusalClosed, as_metrics_update (set_refresh_flag e False) s)
           | (Inl RefusalFull, s) \<Rightarrow>
               if refresh_flag e (as_metrics s) \<noteq> None
               then (Inl RefusalFull, as_metrics_update (set_refresh_flag e False) s)
               else (Inl RefusalFull,
                     as_metrics_update (\<lambda>m. m\<lparr>m_dropped_events := m_dropped_events m + 1,
                                              m_input_epoch := m_input_epoch m + 1\<rparr>) s))"

definition enqueue :: "raw_input_event \<Rightarrow> instant \<Rightarrow> app_state \<Rightarrow> bool \<times> app_state" where
  "enqueue e now s =
     (case enqueue_with_configuration e None now s of (r, s) \<Rightarrow> (\<not> isl r, s))"

text \<open>The source often ignores whether the event was queued.\<close>

definition enqueued :: "raw_input_event \<Rightarrow> instant \<Rightarrow> app_state \<Rightarrow> app_state" where
  "enqueued e now s = snd (enqueue e now s)"

section \<open>Ending a gate\<close>

definition has_retained_input :: "observer_metrics \<Rightarrow> bool" where
  "has_retained_input m \<longleftrightarrow> m_retained_input m \<noteq> None"

definition hands_held_keys_back_automatically :: "gate_failure_cause \<Rightarrow> bool" where
  "hands_held_keys_back_automatically c \<longleftrightarrow>
     c \<in> {CauseDeadline, CauseCapacity, CauseWorkerQueue, CauseHookReinstall}"

text \<open>Arming the gate of a token: the hook does it for a Space, the worker asks for it.\<close>

definition arm_gate ::
  "u64 \<Rightarrow> foreground_context option \<Rightarrow> instant \<Rightarrow> app_state \<Rightarrow> app_state" where
  "arm_gate token origin now s =
     s\<lparr>as_gate := (activate token now (as_gate s))\<lparr>cg_origin := origin\<rparr>,
       as_metrics := (as_metrics s)\<lparr>m_active_gate_token := token, m_cancelled_gate_token := 0\<rparr>\<rparr>"

definition record_gate_failure_without_worker :: "app_state \<Rightarrow> app_state" where
  "record_gate_failure_without_worker s =
     (if \<not> m_auto_enabled (as_metrics s) then s
      else as_metrics_update (\<lambda>m. m\<lparr>m_auto_enabled := False, m_last_failure_reason := FailGateDrain,
             m_safety_paused := True, m_conversion_failures := m_conversion_failures m + 1\<rparr>) s)"

definition post_held_keys_return :: "app_state \<Rightarrow> app_state" where
  "post_held_keys_return s = s\<lparr>as_posted := as_posted s @ [PostHeldKeysReturn]\<rparr>"

text \<open>What \<open>break_correction_gate\<close> does with the held edges: all of them go back unchanged
  after an internal fault in the same target; otherwise the key-ups of keys pressed before the
  gate are delivered and the rest is retained.\<close>

definition gate_replays_unchanged ::
  "gate_failure_cause \<Rightarrow> foreground_context option \<Rightarrow> correction_gate \<Rightarrow> bool" where
  "gate_replays_unchanged cause current g \<longleftrightarrow>
     cause = CauseInternalFault
     \<and> (case (cg_origin g, current) of
          (Some origin, Some now) \<Rightarrow> same_input_target origin now | _ \<Rightarrow> False)"

definition retained_target ::
  "foreground_context option \<Rightarrow> foreground_context option \<Rightarrow> foreground_context
   \<Rightarrow> foreground_context" where
  "retained_target origin current fallback =
     (case origin of
        None \<Rightarrow> fallback
      | Some o' \<Rightarrow> (case current of
          Some now \<Rightarrow> if same_input_target o' now then now else o'
        | None \<Rightarrow> o'))"

definition retain_record ::
  "gate_failure_cause \<Rightarrow> foreground_context option \<Rightarrow> instant \<Rightarrow> raw_key_event list \<Rightarrow> app_state
   \<Rightarrow> retained_input" where
  "retain_record cause current now held s =
     \<lparr>ri_token = cg_token (as_gate s),
      ri_foreground = retained_target (cg_origin (as_gate s)) current (ke_foreground (hd held)),
      ri_events = held,
      ri_delivery_uncertain = (cause = CauseDownstreamHook),
      ri_expires_at = now + from_millis RETAINED_INPUT_LIFETIME_MS,
      ri_recovering = False, ri_retained_at = now,
      ri_auto_recover = hands_held_keys_back_automatically cause,
      ri_input_mark = as_typed_input s\<rparr>"

text \<open>The gate and its edges after the break, before anything is queued or posted; with it,
  whether keys were retained, and whether some go back to the window procedure.\<close>

definition dissolve_gate ::
  "gate_failure_cause \<Rightarrow> foreground_context option \<Rightarrow> instant \<Rightarrow> app_state
   \<Rightarrow> bool \<times> bool \<times> app_state" where
  "dissolve_gate cause current now s =
     (let held = cg_held (as_gate s);
          unchanged = gate_replays_unchanged cause current (as_gate s);
          (kept, releases) =
            (if unchanged then ([], []) else split_delivered_key_releases held);
          replayed = (if unchanged then held else []);
          m = (as_metrics s)\<lparr>m_active_gate_token := 0,
                m_cancelled_gate_token := cg_token (as_gate s),
                m_input_epoch := m_input_epoch (as_metrics s) + 1\<rparr>
      in (kept \<noteq> [], releases \<noteq> [] \<or> replayed \<noteq> [],
          s\<lparr>as_gate := (as_gate s)\<lparr>cg_held := [], cg_cancelled := True, cg_active := False,
                                   cg_pending_hotkey := None\<rparr>,
            as_pending_held_replay := as_pending_held_replay s @ replayed,
            as_pending_key_releases := as_pending_key_releases s @ releases,
            as_metrics := (if kept \<noteq> [] then m\<lparr>m_retained_input := Some (retain_record cause current now kept s)\<rparr>
                           else m)\<rparr>))"

definition break_correction_gate ::
  "gate_failure_cause \<Rightarrow> foreground_context option \<Rightarrow> instant \<Rightarrow> app_state \<Rightarrow> app_state" where
  "break_correction_gate cause current now s =
     (if \<not> cg_active (as_gate s) then s
      else
        let token = cg_token (as_gate s);
            sequence = m_observed_input_sequence (as_metrics s);
            (retained, returned, s) = dissolve_gate cause current now s;
            s = (if retained \<or> cg_drain_failed (as_gate s)
                 then record_gate_failure_without_worker s else s);
            s = (if returned then post_held_keys_return s else s);
            s = enqueued (EvGateDrainReady token 0 False) now s;
            s = (if retained \<and> hands_held_keys_back_automatically cause
                 then enqueued (EvRecoverInput sequence False) now s else s)
        in if retained then s\<lparr>as_posted := as_posted s @ [PostRecoveryNotice]\<rparr> else s)"

definition queue_delivered_key_releases :: "raw_key_event list \<Rightarrow> app_state \<Rightarrow> app_state" where
  "queue_delivered_key_releases releases s =
     (if releases = [] then s
      else post_held_keys_return
        (s\<lparr>as_pending_key_releases := as_pending_key_releases s @ releases\<rparr>))"

definition invalidate_for_hook_reinstall ::
  "foreground_context option \<Rightarrow> instant \<Rightarrow> app_state \<Rightarrow> app_state" where
  "invalidate_for_hook_reinstall current now s =
     break_correction_gate CauseHookReinstall current now
       (as_metrics_update (\<lambda>m. m\<lparr>m_input_epoch := m_input_epoch m + 1\<rparr>) s)"

text \<open>\<open>hold_gated_edge\<close> reads the clock in \<open>hold\<close> and, when that refused, once more.\<close>

definition hold_gated_edge ::
  "raw_key_event \<Rightarrow> instant \<Rightarrow> instant \<Rightarrow> foreground_context option \<Rightarrow> app_state
   \<Rightarrow> bool \<times> app_state" where
  "hold_gated_edge raw now now' current s =
     (case hold raw now (as_gate s) of
        (True, g) \<Rightarrow> (True, s\<lparr>as_gate := g\<rparr>)
      | (False, g) \<Rightarrow>
          if \<not> cg_active g then (False, s)
          else
            let cause = (if cg_deadline g \<le> now' then CauseDeadline else CauseCapacity);
                s = s\<lparr>as_gate := g\<lparr>cg_held := cg_held g @ [raw]\<rparr>\<rparr>
            in (True, break_correction_gate cause current now' s))"

definition close_drained_gate ::
  "foreground_context option \<Rightarrow> instant \<Rightarrow> app_state \<Rightarrow> app_state" where
  "close_drained_gate current now s =
     (let old_token = cg_token (as_gate s);
          s = s\<lparr>as_gate := (as_gate s)\<lparr>cg_active := False\<rparr>,
                as_metrics := (as_metrics s)\<lparr>m_active_gate_token := 0\<rparr>\<rparr>;
          (pending, g) = take_pending_hotkey current (as_gate s);
          s = s\<lparr>as_gate := g\<rparr>
      in case pending of
           None \<Rightarrow> s
         | Some hotkey \<Rightarrow>
             let sequence = m_observed_input_sequence (as_metrics s) + 1;
                 hotkey = hotkey\<lparr>ke_sequence := sequence, ke_drain_token := old_token\<rparr>;
                 s = as_metrics_update (\<lambda>m. m\<lparr>m_observed_input_sequence := sequence,
                       m_explicit_hotkey_sequence := sequence,
                       m_forwarded_input_sequence := max (m_forwarded_input_sequence m) sequence\<rparr>) s
             in enqueued (EvKey hotkey) now s)"

text \<open>\<open>retain_failed_drain\<close>: the prefix whose \<open>SendInput\<close> was not accepted whole.\<close>

definition keep_unsent_prefix ::
  "u64 \<Rightarrow> raw_key_event list \<Rightarrow> nat \<Rightarrow> instant \<Rightarrow> app_state \<Rightarrow> app_state" where
  "keep_unsent_prefix token unsent sent now s =
     (let (kept, releases) = split_delivered_key_releases unsent;
          s = queue_delivered_key_releases releases s
      in case m_retained_input (as_metrics s) of
           Some r \<Rightarrow>
             as_metrics_update (\<lambda>m. m\<lparr>m_retained_input := Some (r\<lparr>ri_events := kept @ ri_events r\<rparr>)\<rparr>) s
         | None \<Rightarrow> (case kept of
             [] \<Rightarrow> s
           | first # _ \<Rightarrow>
               as_metrics_update (\<lambda>m. m\<lparr>m_retained_input := Some
                 \<lparr>ri_token = token,
                  ri_foreground = (case cg_origin (as_gate s) of Some c \<Rightarrow> c | None \<Rightarrow> ke_foreground first),
                  ri_events = kept, ri_delivery_uncertain = (sent \<noteq> 0),
                  ri_expires_at = now + from_millis RETAINED_INPUT_LIFETIME_MS,
                  ri_recovering = False, ri_retained_at = now, ri_auto_recover = False,
                  ri_input_mark = as_typed_input s\<rparr>\<rparr>) s))"

definition mark_uncertain :: "nat \<Rightarrow> app_state \<Rightarrow> app_state" where
  "mark_uncertain sent s =
     (case m_retained_input (as_metrics s) of
        None \<Rightarrow> s
      | Some r \<Rightarrow> as_metrics_update (\<lambda>m. m\<lparr>m_retained_input := Some
          (r\<lparr>ri_delivery_uncertain := (ri_delivery_uncertain r \<or> sent \<noteq> 0)\<rparr>)\<rparr>) s)"

definition retain_failed_drain ::
  "u64 \<Rightarrow> raw_key_event list \<Rightarrow> nat \<Rightarrow> foreground_context option \<Rightarrow> instant \<Rightarrow> app_state
   \<Rightarrow> app_state" where
  "retain_failed_drain token unsent sent current now s =
     (if cg_token (as_gate s) \<noteq> token then s
      else
        let s = (if cg_active (as_gate s) then
                   break_correction_gate CauseReplaySubmit current now
                     (s\<lparr>as_gate := (as_gate s)\<lparr>cg_held := unsent @ cg_held (as_gate s),
                                              cg_drain_failed := True\<rparr>\<rparr>)
                 else keep_unsent_prefix token unsent sent now s)
        in record_gate_failure_without_worker (mark_uncertain sent s))"

definition fail_open_correction_gate ::
  "u64 \<Rightarrow> gate_failure_cause \<Rightarrow> foreground_context option \<Rightarrow> instant \<Rightarrow> app_state \<Rightarrow> app_state" where
  "fail_open_correction_gate token cause current now s =
     (if cg_active (as_gate s) \<and> cg_token (as_gate s) = token
      then break_correction_gate cause current now s else s)"

definition expire_correction_gate ::
  "foreground_context option \<Rightarrow> instant \<Rightarrow> app_state \<Rightarrow> app_state" where
  "expire_correction_gate current now s =
     (if cg_active (as_gate s) \<and> cg_deadline (as_gate s) \<le> now then
        (if cg_awaiting_worker_ack (as_gate s) \<and> cg_held (as_gate s) = []
         then close_drained_gate current now s
         else break_correction_gate CauseDeadline current now s)
      else s)"

section \<open>What the operations leave alone\<close>

text \<open>Queueing touches the queue, the refresh flags, the last layout, the count of dropped
  events and the epoch.\<close>

lemma enqueue_with_frame [frame]:
  "as_gate (snd (enqueue_with_configuration e c now s)) = as_gate s"
  "as_pending_key_releases (snd (enqueue_with_configuration e c now s)) = as_pending_key_releases s"
  "as_pending_held_replay (snd (enqueue_with_configuration e c now s)) = as_pending_held_replay s"
  "as_pending_hand_back (snd (enqueue_with_configuration e c now s)) = as_pending_hand_back s"
  "as_typed_input (snd (enqueue_with_configuration e c now s)) = as_typed_input s"
  "as_shutdown (snd (enqueue_with_configuration e c now s)) = as_shutdown s"
  "as_posted (snd (enqueue_with_configuration e c now s)) = as_posted s"
  "as_pending_configuration (snd (enqueue_with_configuration e c now s)) = as_pending_configuration s"
  "m_retained_input (as_metrics (snd (enqueue_with_configuration e c now s)))
     = m_retained_input (as_metrics s)"
  "m_observed_input_sequence (as_metrics (snd (enqueue_with_configuration e c now s)))
     = m_observed_input_sequence (as_metrics s)"
  "m_auto_enabled (as_metrics (snd (enqueue_with_configuration e c now s)))
     = m_auto_enabled (as_metrics s)"
  "m_recovery_armed (as_metrics (snd (enqueue_with_configuration e c now s)))
     = m_recovery_armed (as_metrics s)"
  "m_active_gate_token (as_metrics (snd (enqueue_with_configuration e c now s)))
     = m_active_gate_token (as_metrics s)"
  "m_cancelled_gate_token (as_metrics (snd (enqueue_with_configuration e c now s)))
     = m_cancelled_gate_token (as_metrics s)"
  "m_configuration_pending (as_metrics (snd (enqueue_with_configuration e c now s)))
     = m_configuration_pending (as_metrics s)"
  "m_worker_dead (as_metrics (snd (enqueue_with_configuration e c now s)))
     = m_worker_dead (as_metrics s)"
  "m_privacy_reason (as_metrics (snd (enqueue_with_configuration e c now s)))
     = m_privacy_reason (as_metrics s)"
  "m_undo_hotkey_active (as_metrics (snd (enqueue_with_configuration e c now s)))
     = m_undo_hotkey_active (as_metrics s)"
  "m_hotkey_waiting_for_release (as_metrics (snd (enqueue_with_configuration e c now s)))
     = m_hotkey_waiting_for_release (as_metrics s)"
  by (simp_all add: enqueue_with_configuration_def try_send_def Let_def set_refresh_flag_def
      note_layout_def split: option.split queue_refusal.split raw_input_event.split)

lemma enqueue_frame [frame]:
  "as_gate (snd (enqueue e now s)) = as_gate s"
  "as_pending_key_releases (snd (enqueue e now s)) = as_pending_key_releases s"
  "as_pending_held_replay (snd (enqueue e now s)) = as_pending_held_replay s"
  "as_pending_hand_back (snd (enqueue e now s)) = as_pending_hand_back s"
  "as_typed_input (snd (enqueue e now s)) = as_typed_input s"
  "as_shutdown (snd (enqueue e now s)) = as_shutdown s"
  "as_posted (snd (enqueue e now s)) = as_posted s"
  "as_pending_configuration (snd (enqueue e now s)) = as_pending_configuration s"
  "m_retained_input (as_metrics (snd (enqueue e now s))) = m_retained_input (as_metrics s)"
  "m_observed_input_sequence (as_metrics (snd (enqueue e now s))) = m_observed_input_sequence (as_metrics s)"
  "m_auto_enabled (as_metrics (snd (enqueue e now s))) = m_auto_enabled (as_metrics s)"
  "m_recovery_armed (as_metrics (snd (enqueue e now s))) = m_recovery_armed (as_metrics s)"
  "m_active_gate_token (as_metrics (snd (enqueue e now s))) = m_active_gate_token (as_metrics s)"
  "m_cancelled_gate_token (as_metrics (snd (enqueue e now s))) = m_cancelled_gate_token (as_metrics s)"
  "m_configuration_pending (as_metrics (snd (enqueue e now s))) = m_configuration_pending (as_metrics s)"
  "m_worker_dead (as_metrics (snd (enqueue e now s))) = m_worker_dead (as_metrics s)"
  "m_privacy_reason (as_metrics (snd (enqueue e now s))) = m_privacy_reason (as_metrics s)"
  "m_undo_hotkey_active (as_metrics (snd (enqueue e now s))) = m_undo_hotkey_active (as_metrics s)"
  "m_hotkey_waiting_for_release (as_metrics (snd (enqueue e now s))) = m_hotkey_waiting_for_release (as_metrics s)"
  by (simp_all add: enqueue_def case_prod_unfold frame)

lemma enqueued_frame [frame]:
  "as_gate (enqueued e now s) = as_gate s"
  "as_pending_key_releases (enqueued e now s) = as_pending_key_releases s"
  "as_pending_held_replay (enqueued e now s) = as_pending_held_replay s"
  "as_pending_hand_back (enqueued e now s) = as_pending_hand_back s"
  "as_typed_input (enqueued e now s) = as_typed_input s"
  "as_shutdown (enqueued e now s) = as_shutdown s"
  "as_posted (enqueued e now s) = as_posted s"
  "as_pending_configuration (enqueued e now s) = as_pending_configuration s"
  "m_retained_input (as_metrics (enqueued e now s)) = m_retained_input (as_metrics s)"
  "m_observed_input_sequence (as_metrics (enqueued e now s)) = m_observed_input_sequence (as_metrics s)"
  "m_auto_enabled (as_metrics (enqueued e now s)) = m_auto_enabled (as_metrics s)"
  "m_recovery_armed (as_metrics (enqueued e now s)) = m_recovery_armed (as_metrics s)"
  "m_active_gate_token (as_metrics (enqueued e now s)) = m_active_gate_token (as_metrics s)"
  "m_cancelled_gate_token (as_metrics (enqueued e now s)) = m_cancelled_gate_token (as_metrics s)"
  "m_configuration_pending (as_metrics (enqueued e now s)) = m_configuration_pending (as_metrics s)"
  "m_worker_dead (as_metrics (enqueued e now s)) = m_worker_dead (as_metrics s)"
  "m_privacy_reason (as_metrics (enqueued e now s)) = m_privacy_reason (as_metrics s)"
  "m_undo_hotkey_active (as_metrics (enqueued e now s)) = m_undo_hotkey_active (as_metrics s)"
  "m_hotkey_waiting_for_release (as_metrics (enqueued e now s)) = m_hotkey_waiting_for_release (as_metrics s)"
  by (simp_all add: enqueued_def frame)

lemma record_gate_failure_frame [frame]:
  "as_gate (record_gate_failure_without_worker s) = as_gate s"
  "as_pending_key_releases (record_gate_failure_without_worker s) = as_pending_key_releases s"
  "as_pending_held_replay (record_gate_failure_without_worker s) = as_pending_held_replay s"
  "as_pending_hand_back (record_gate_failure_without_worker s) = as_pending_hand_back s"
  "as_typed_input (record_gate_failure_without_worker s) = as_typed_input s"
  "as_shutdown (record_gate_failure_without_worker s) = as_shutdown s"
  "as_posted (record_gate_failure_without_worker s) = as_posted s"
  "as_pending_configuration (record_gate_failure_without_worker s) = as_pending_configuration s"
  "m_retained_input (as_metrics (record_gate_failure_without_worker s)) = m_retained_input (as_metrics s)"
  "m_observed_input_sequence (as_metrics (record_gate_failure_without_worker s)) = m_observed_input_sequence (as_metrics s)"
  "m_recovery_armed (as_metrics (record_gate_failure_without_worker s)) = m_recovery_armed (as_metrics s)"
  "m_active_gate_token (as_metrics (record_gate_failure_without_worker s)) = m_active_gate_token (as_metrics s)"
  "m_cancelled_gate_token (as_metrics (record_gate_failure_without_worker s)) = m_cancelled_gate_token (as_metrics s)"
  "m_configuration_pending (as_metrics (record_gate_failure_without_worker s)) = m_configuration_pending (as_metrics s)"
  "m_worker_dead (as_metrics (record_gate_failure_without_worker s)) = m_worker_dead (as_metrics s)"
  "m_privacy_reason (as_metrics (record_gate_failure_without_worker s)) = m_privacy_reason (as_metrics s)"
  "m_undo_hotkey_active (as_metrics (record_gate_failure_without_worker s)) = m_undo_hotkey_active (as_metrics s)"
  "m_hotkey_waiting_for_release (as_metrics (record_gate_failure_without_worker s)) = m_hotkey_waiting_for_release (as_metrics s)"
  by (simp_all add: record_gate_failure_without_worker_def)

lemma post_held_keys_return_frame [frame]:
  "as_gate (post_held_keys_return s) = as_gate s"
  "as_pending_key_releases (post_held_keys_return s) = as_pending_key_releases s"
  "as_pending_held_replay (post_held_keys_return s) = as_pending_held_replay s"
  "as_pending_hand_back (post_held_keys_return s) = as_pending_hand_back s"
  "as_typed_input (post_held_keys_return s) = as_typed_input s"
  "as_shutdown (post_held_keys_return s) = as_shutdown s"
  "as_pending_configuration (post_held_keys_return s) = as_pending_configuration s"
  "m_retained_input (as_metrics (post_held_keys_return s)) = m_retained_input (as_metrics s)"
  "m_observed_input_sequence (as_metrics (post_held_keys_return s)) = m_observed_input_sequence (as_metrics s)"
  "m_auto_enabled (as_metrics (post_held_keys_return s)) = m_auto_enabled (as_metrics s)"
  "m_recovery_armed (as_metrics (post_held_keys_return s)) = m_recovery_armed (as_metrics s)"
  "m_active_gate_token (as_metrics (post_held_keys_return s)) = m_active_gate_token (as_metrics s)"
  "m_cancelled_gate_token (as_metrics (post_held_keys_return s)) = m_cancelled_gate_token (as_metrics s)"
  "m_configuration_pending (as_metrics (post_held_keys_return s)) = m_configuration_pending (as_metrics s)"
  "m_worker_dead (as_metrics (post_held_keys_return s)) = m_worker_dead (as_metrics s)"
  "m_privacy_reason (as_metrics (post_held_keys_return s)) = m_privacy_reason (as_metrics s)"
  "m_undo_hotkey_active (as_metrics (post_held_keys_return s)) = m_undo_hotkey_active (as_metrics s)"
  "m_hotkey_waiting_for_release (as_metrics (post_held_keys_return s)) = m_hotkey_waiting_for_release (as_metrics s)"
  by (simp_all add: post_held_keys_return_def)

text \<open>Where the held edges are after a gate ended.\<close>

definition kept_of :: "gate_failure_cause \<Rightarrow> foreground_context option \<Rightarrow> correction_gate \<Rightarrow> raw_key_event list" where
  "kept_of cause current g =
     (if gate_replays_unchanged cause current g then []
      else fst (split_delivered_key_releases (cg_held g)))"

definition released_of :: "gate_failure_cause \<Rightarrow> foreground_context option \<Rightarrow> correction_gate \<Rightarrow> raw_key_event list" where
  "released_of cause current g =
     (if gate_replays_unchanged cause current g then []
      else snd (split_delivered_key_releases (cg_held g)))"

definition replayed_of :: "gate_failure_cause \<Rightarrow> foreground_context option \<Rightarrow> correction_gate \<Rightarrow> raw_key_event list" where
  "replayed_of cause current g = (if gate_replays_unchanged cause current g then cg_held g else [])"

lemma dissolve_gate_flags:
  "fst (dissolve_gate cause current now s) \<longleftrightarrow> kept_of cause current (as_gate s) \<noteq> []"
  "fst (snd (dissolve_gate cause current now s)) \<longleftrightarrow>
     released_of cause current (as_gate s) \<noteq> [] \<or> replayed_of cause current (as_gate s) \<noteq> []"
  by (simp_all add: dissolve_gate_def Let_def kept_of_def released_of_def replayed_of_def case_prod_unfold)

lemma dissolve_gate_fields:
  fixes s cause current now
  defines "g \<equiv> as_gate s" and "t \<equiv> snd (snd (dissolve_gate cause current now s))"
  shows "as_gate t = g\<lparr>cg_held := [], cg_cancelled := True, cg_active := False, cg_pending_hotkey := None\<rparr>"
    and "as_pending_held_replay t = as_pending_held_replay s @ replayed_of cause current g"
    and "as_pending_key_releases t = as_pending_key_releases s @ released_of cause current g"
    and "m_retained_input (as_metrics t) =
      (if kept_of cause current g \<noteq> [] then Some (retain_record cause current now (kept_of cause current g) s)
       else m_retained_input (as_metrics s))"
    and "m_active_gate_token (as_metrics t) = 0"
    and "m_cancelled_gate_token (as_metrics t) = cg_token g"
    and "as_pending_hand_back t = as_pending_hand_back s"
    and "as_typed_input t = as_typed_input s"
    and "m_auto_enabled (as_metrics t) = m_auto_enabled (as_metrics s)"
  unfolding g_def t_def
  by (simp_all add: dissolve_gate_def Let_def kept_of_def released_of_def replayed_of_def
      case_prod_unfold)

lemma break_fields:
  fixes s cause current now
  assumes "cg_active (as_gate s)"
  defines "g \<equiv> as_gate s" and "t \<equiv> break_correction_gate cause current now s"
  shows "as_gate t = g\<lparr>cg_held := [], cg_cancelled := True, cg_active := False, cg_pending_hotkey := None\<rparr>"
    and "as_pending_held_replay t = as_pending_held_replay s @ replayed_of cause current g"
    and "as_pending_key_releases t = as_pending_key_releases s @ released_of cause current g"
    and "m_retained_input (as_metrics t) =
      (if kept_of cause current g \<noteq> [] then Some (retain_record cause current now (kept_of cause current g) s)
       else m_retained_input (as_metrics s))"
    and "m_active_gate_token (as_metrics t) = 0"
    and "m_cancelled_gate_token (as_metrics t) = cg_token g"
    and "as_pending_hand_back t = as_pending_hand_back s"
    and "as_typed_input t = as_typed_input s"
  using assms(1) unfolding g_def t_def break_correction_gate_def
  by (simp_all add: Let_def case_prod_unfold frame dissolve_gate_fields)

lemma break_inactive [simp]: "\<not> cg_active (as_gate s) \<Longrightarrow> break_correction_gate c cur now s = s"
  by (simp add: break_correction_gate_def)

lemma retain_record_events [simp]: "ri_events (retain_record c cur now es s) = es"
  by (simp add: retain_record_def)

end
