(* ===== verification/Agent_Operations.thy ===== *)
theory Agent_Operations
  imports Agent_State
begin

text \<open>
  \<open>src/windows_agent.rs\<close>: the window procedure's handlers around the correction gate and the
  retained keys (drain, acknowledgement, hand-back, recovery, expiry), the reaction to a
  contained fault, the configuration hand-off and the decision to exit.
\<close>

section \<open>Draining the gate\<close>

text \<open>The part of \<open>drain_correction_gate\<close> under the state borrow: the batch to send, with the
  gate's fence marker.\<close>

definition begin_drain ::
  "u64 \<Rightarrow> foreground_context option \<Rightarrow> foreground_context option \<Rightarrow> instant \<Rightarrow> app_state
   \<Rightarrow> (raw_key_event list \<times> u64) option \<times> app_state" where
  "begin_drain token current current' now s =
     (if \<not> can_start_drain token (as_gate s) then (None, s)
      else if (case (cg_origin (as_gate s), current) of
                 (Some origin, Some c) \<Rightarrow> \<not> same_input_target origin c
               | _ \<Rightarrow> True)
      then (None, break_correction_gate CauseFocusChanged current' now s)
      else
        let (held, rest) = take_held_replay_prefix (cg_held (as_gate s));
            g = (as_gate s)\<lparr>cg_held := rest,
                  cg_released_count := cg_released_count (as_gate s) + length held,
                  cg_current_drain_count := length held, cg_drain_in_flight := True\<rparr>;
            s = s\<lparr>as_gate := g\<rparr>;
            s = (if held_tail_invalidates_undo held
                 then as_metrics_update (\<lambda>m. m\<lparr>m_undo_available := False\<rparr>) s else s)
        in (Some (held, cg_fence_marker g), s))"

text \<open>What follows once \<open>SendInput\<close> took \<open>sent\<close> inputs of the batch.\<close>

definition end_drain ::
  "u64 \<Rightarrow> raw_key_event list \<Rightarrow> u64 \<Rightarrow> nat \<Rightarrow> foreground_context option \<Rightarrow> instant \<Rightarrow> app_state
   \<Rightarrow> app_state" where
  "end_drain token held fence_marker sent current now s =
     (case build_held_replay_inputs held fence_marker of
        None \<Rightarrow> retain_failed_drain token held 0 current now s
      | Some inputs \<Rightarrow>
          if sent \<noteq> length inputs then retain_failed_drain token held sent current now s else s)"

text \<open>The worker's answer to a drained batch. The result is whether it was acknowledged and
  whether the next batch is to be drained; \<open>now\<close> is the reading compared with the deadline,
  \<open>now'\<close> the one the hand-off gets. \<open>posted\<close> is whether the release message for the next batch
  could be posted.\<close>

definition acknowledge_drain_state ::
  "u64 \<Rightarrow> u64 \<Rightarrow> instant \<Rightarrow> instant \<Rightarrow> foreground_context option \<Rightarrow> app_state
   \<Rightarrow> bool \<times> bool \<times> app_state" where
  "acknowledge_drain_state old_token new_token now now' current s =
     (let g = as_gate s in
      if \<not> cg_active g \<or> cg_token g \<noteq> old_token \<or> \<not> cg_awaiting_worker_ack g
      then (False, False, s)
      else if cg_deadline g \<le> now \<and> (new_token \<noteq> 0 \<or> cg_held g \<noteq> [])
      then (False, False, break_correction_gate CauseDeadline current now s)
      else if new_token \<noteq> 0 then
        (if m_observed_input_sequence (as_metrics s) \<noteq> new_token \<or> \<not> m_auto_enabled (as_metrics s)
         then (False, False, s)
         else case handoff old_token new_token now' g of
             (False, g) \<Rightarrow> (False, False, s\<lparr>as_gate := g\<rparr>)
           | (True, g) \<Rightarrow> (True, False,
               s\<lparr>as_gate := g, as_metrics := (as_metrics s)\<lparr>m_active_gate_token := new_token,
                                                          m_cancelled_gate_token := 0\<rparr>\<rparr>))
      else
        let s = s\<lparr>as_gate := g\<lparr>cg_awaiting_worker_ack := False, cg_handoff_budget_ms := 0\<rparr>\<rparr>
        in if cg_held (as_gate s) = [] then (True, False, close_drained_gate current now s)
           else (True, True, s))"

definition acknowledge_correction_gate_drain ::
  "u64 \<Rightarrow> u64 \<Rightarrow> instant \<Rightarrow> instant \<Rightarrow> foreground_context option \<Rightarrow> bool \<Rightarrow> app_state
   \<Rightarrow> bool \<times> app_state" where
  "acknowledge_correction_gate_drain old_token new_token now now' current posted s =
     (let (acknowledged, continue_drain, s) =
            acknowledge_drain_state old_token new_token now now' current s
      in (acknowledged,
          if acknowledged \<and> continue_drain \<and> \<not> posted
          then fail_open_correction_gate old_token CauseWorkerAck current now s else s))"

text \<open>\<open>GATE_ARM_MESSAGE\<close>: the worker asks for a gate for an edit it is about to make.\<close>

definition gate_request_enabled :: "observer_metrics \<Rightarrow> u64 \<Rightarrow> bool" where
  "gate_request_enabled m token \<longleftrightarrow>
     \<not> m_configuration_pending m
     \<and> (m_auto_enabled m
        \<or> (token \<noteq> 0 \<and> m_pause_break_undo m \<and> m_explicit_hotkey_sequence m = token))"

definition arm_gate_for_worker ::
  "u64 \<Rightarrow> foreground_context option \<Rightarrow> instant \<Rightarrow> app_state \<Rightarrow> bool \<times> app_state" where
  "arm_gate_for_worker token foreground now s =
     (let m = as_metrics s in
      if as_shutdown s \<or> token = 0 \<or> foreground = None \<or> cg_active (as_gate s)
         \<or> has_retained_input m \<or> \<not> gate_request_enabled m token
         \<or> m_observed_input_sequence m \<noteq> token
      then (False, s)
      else (True, arm_gate token foreground now s))"

section \<open>Keys handed back by the window procedure\<close>

record held_keys_return =
  hr_inputs :: "key_input list"
  hr_handed_back :: "u64 option"

definition take_held_keys_return :: "app_state \<Rightarrow> held_keys_return option \<times> app_state" where
  "take_held_keys_return s =
     (if as_pending_held_replay s = [] \<and> as_pending_key_releases s = [] then (None, s)
      else
        let events = as_pending_held_replay s @ as_pending_key_releases s
        in (Some \<lparr>hr_inputs = (case build_balanced_replay_inputs events of Some is \<Rightarrow> is | None \<Rightarrow> []),
                  hr_handed_back = as_pending_hand_back s\<rparr>,
            s\<lparr>as_pending_held_replay := [], as_pending_key_releases := [],
              as_pending_hand_back := None\<rparr>))"

definition finish_held_keys_return ::
  "held_keys_return \<Rightarrow> nat \<Rightarrow> instant \<Rightarrow> app_state \<Rightarrow> app_state" where
  "finish_held_keys_return held sent now s =
     (case hr_handed_back held of
        None \<Rightarrow> s
      | Some token \<Rightarrow>
          enqueued (EvRetainedInputHandedBack token sent (length (hr_inputs held))) now s)"

definition privacy_reason_from_code :: "u8 \<Rightarrow> privacy_block_reason option" where
  "privacy_reason_from_code code =
     (if code = 0 then None
      else if code = 1 then Some PasswordField
      else if code = 2 then Some ExcludedProcess
      else if code = 4 then Some ElevatedProcess
      else Some InspectionUnavailable)"

definition recovery_privacy_allows :: "privacy_block_reason option \<Rightarrow> bool" where
  "recovery_privacy_allows reason \<longleftrightarrow>
     reason \<notin> {Some PasswordField, Some ExcludedProcess, Some ElevatedProcess}"

record hand_back_facts =
  hb_now :: instant
  hb_worker_stalled :: bool
  hb_typed_input :: u64
  hb_selection_left_token :: u64
  hb_modifiers_released :: bool
  hb_current :: "foreground_context option"
  hb_privacy :: "privacy_block_reason option"

definition stalled_worker_may_hand_back :: "retained_input \<Rightarrow> hand_back_facts \<Rightarrow> bool" where
  "stalled_worker_may_hand_back r f \<longleftrightarrow>
     ri_auto_recover r \<and> \<not> ri_recovering r \<and> \<not> ri_delivery_uncertain r
     \<and> hb_worker_stalled f \<and> hb_typed_input f = ri_input_mark r
     \<and> hb_selection_left_token f \<noteq> ri_token r \<and> hb_modifiers_released f
     \<and> from_millis STALLED_WORKER_HAND_BACK_MS \<le> hb_now f - ri_retained_at r
     \<and> (case hb_current f of Some c \<Rightarrow> same_input_target (ri_foreground r) c | None \<Rightarrow> False)
     \<and> recovery_privacy_allows (hb_privacy f)"

definition hand_back_stalled_retained_input ::
  "foreground_context option \<Rightarrow> bool \<Rightarrow> instant \<Rightarrow> app_state \<Rightarrow> app_state" where
  "hand_back_stalled_retained_input current modifiers_released now s =
     (let m = as_metrics s;
          facts = \<lparr>hb_now = now, hb_worker_stalled = (m_worker_busy m \<and> \<not> m_edit_in_flight m),
                   hb_typed_input = as_typed_input s,
                   hb_selection_left_token = m_selection_left_token m,
                   hb_modifiers_released = modifiers_released, hb_current = current,
                   hb_privacy = privacy_reason_from_code (m_privacy_reason m)\<rparr>
      in case m_retained_input m of
           None \<Rightarrow> s
         | Some r \<Rightarrow>
             if stalled_worker_may_hand_back r facts
             then post_held_keys_return
                    (s\<lparr>as_metrics := m\<lparr>m_retained_input := None, m_recovery_armed := False\<rparr>,
                       as_pending_held_replay := as_pending_held_replay s @ ri_events r,
                       as_pending_hand_back := Some (ri_token r)\<rparr>)
             else s)"

section \<open>Recovery and expiry of retained keys\<close>

definition prepare_retained_recovery ::
  "u64 \<Rightarrow> instant \<Rightarrow> observer_metrics \<Rightarrow> bool \<times> observer_metrics" where
  "prepare_retained_recovery token now m =
     (case m_retained_input m of
        Some r \<Rightarrow>
          if ri_token r = token
          then (True, m\<lparr>m_retained_input := Some (r\<lparr>ri_expires_at :=
                  max (ri_expires_at r) (now + from_millis RETAINED_INPUT_LIFETIME_MS)\<rparr>),
                  m_recovery_armed := True\<rparr>)
          else (False, m\<lparr>m_recovery_armed := False\<rparr>)
      | None \<Rightarrow> (False, m\<lparr>m_recovery_armed := False\<rparr>))"

definition begin_retained_recovery :: "u64 \<Rightarrow> observer_metrics \<Rightarrow> bool \<times> observer_metrics" where
  "begin_retained_recovery token m =
     (case m_retained_input m of
        Some r \<Rightarrow>
          if ri_token r = token \<and> \<not> ri_recovering r
          then (True, m\<lparr>m_retained_input := Some (r\<lparr>ri_recovering := True\<rparr>)\<rparr>)
          else (False, m)
      | None \<Rightarrow> (False, m))"

definition finish_retained_recovery ::
  "u64 \<Rightarrow> nat \<Rightarrow> nat \<Rightarrow> observer_metrics \<Rightarrow> observer_metrics" where
  "finish_retained_recovery token sent requested m =
     (case m_retained_input m of
        Some r \<Rightarrow>
          if ri_token r = token then
            (if sent = requested then m\<lparr>m_retained_input := None\<rparr>
             else m\<lparr>m_retained_input := Some (r\<lparr>ri_recovering := False,
                     ri_delivery_uncertain := (ri_delivery_uncertain r \<or> sent \<noteq> 0)\<rparr>)\<rparr>)
          else m
      | None \<Rightarrow> m)"

definition should_resume_after_recovery :: "bool \<Rightarrow> nat \<Rightarrow> nat \<Rightarrow> bool" where
  "should_resume_after_recovery explicit submitted requested \<longleftrightarrow>
     \<not> explicit \<and> requested \<noteq> 0 \<and> submitted = requested"

definition discard_confirmed_retained_input :: "app_state \<Rightarrow> bool \<times> app_state" where
  "discard_confirmed_retained_input s =
     (let m = as_metrics s in
      case m_retained_input m of
        Some r \<Rightarrow>
          if \<not> ri_recovering r
          then (True, queue_delivered_key_releases (snd (split_delivered_key_releases (ri_events r)))
                  (s\<lparr>as_metrics := m\<lparr>m_retained_input := None, m_recovery_armed := False\<rparr>\<rparr>))
          else (False, s\<lparr>as_metrics := m\<lparr>m_recovery_armed := False\<rparr>\<rparr>)
      | None \<Rightarrow> (False, s\<lparr>as_metrics := m\<lparr>m_recovery_armed := False\<rparr>\<rparr>))"

definition retained_deadline :: "retained_input \<Rightarrow> instant" where
  "retained_deadline r =
     (if ri_recovering r then ri_expires_at r + RETAINED_RECOVERY_GRACE else ri_expires_at r)"

definition expire_retained_input :: "instant \<Rightarrow> app_state \<Rightarrow> bool \<times> app_state" where
  "expire_retained_input now s =
     (let m = as_metrics s in
      case m_retained_input m of
        Some r \<Rightarrow>
          if retained_deadline r \<le> now
          then (True, enqueued EvRetainedInputExpired now
                 (queue_delivered_key_releases (snd (split_delivered_key_releases (ri_events r)))
                   (s\<lparr>as_metrics := m\<lparr>m_retained_input := None, m_recovery_armed := False\<rparr>\<rparr>)))
          else (False, s)
      | None \<Rightarrow> (False, s))"

section \<open>A contained fault, and exit\<close>

definition record_engine_fault :: "foreground_context option \<Rightarrow> instant \<Rightarrow> app_state \<Rightarrow> app_state" where
  "record_engine_fault current now s =
     (let s = (if m_auto_enabled (as_metrics s)
               then as_metrics_update (\<lambda>m. m\<lparr>m_auto_enabled := False,
                      m_last_failure_reason := FailInternalFault, m_safety_paused := True,
                      m_conversion_failures := m_conversion_failures m + 1\<rparr>) s
               else s);
          s = break_correction_gate CauseInternalFault current now s;
          s = as_metrics_update (\<lambda>m. m\<lparr>m_undo_hotkey_active := False,
                m_hotkey_waiting_for_release := False, m_input_epoch := m_input_epoch m + 1\<rparr>) s
      in if m_worker_dead (as_metrics s)
         then s\<lparr>as_pending_configuration := None,
                as_metrics := (as_metrics s)\<lparr>m_configuration_pending := False,
                                             m_recovery_armed := False\<rparr>\<rparr>
         else s)"

record shutdown_facts =
  sf_correction_gate_active :: bool
  sf_retained_input :: bool
  sf_worker_busy :: bool
  sf_worker_finished :: bool
  sf_configuration_pending :: bool
  sf_undo_hotkey_active :: bool
  sf_hotkey_waiting_for_release :: bool

datatype shutdown_blocker =
    BlockCorrectionGate | BlockRetainedInput | BlockWorkerBusy | BlockConfigurationPending
  | BlockUndoHotkey | BlockHotkeyRelease

definition shutdown_blockers :: "shutdown_facts \<Rightarrow> shutdown_blocker list" where
  "shutdown_blockers f =
     map fst (filter snd
       [(BlockCorrectionGate, sf_correction_gate_active f),
        (BlockRetainedInput, sf_retained_input f \<and> \<not> sf_worker_finished f),
        (BlockWorkerBusy, sf_worker_busy f \<and> \<not> sf_worker_finished f),
        (BlockConfigurationPending, sf_configuration_pending f \<and> \<not> sf_worker_finished f),
        (BlockUndoHotkey, sf_undo_hotkey_active f),
        (BlockHotkeyRelease, sf_hotkey_waiting_for_release f)])"

text \<open>\<open>worker_finished\<close> is \<open>JoinHandle::is_finished\<close> of the worker, false without one.\<close>

definition decline_reasons :: "bool \<Rightarrow> app_state \<Rightarrow> shutdown_blocker list" where
  "decline_reasons worker_finished s =
     (let m = as_metrics s in
      shutdown_blockers
        \<lparr>sf_correction_gate_active = cg_active (as_gate s), sf_retained_input = has_retained_input m,
         sf_worker_busy = m_worker_busy m, sf_worker_finished = worker_finished,
         sf_configuration_pending = m_configuration_pending m,
         sf_undo_hotkey_active = m_undo_hotkey_active m,
         sf_hotkey_waiting_for_release = m_hotkey_waiting_for_release m\<rparr>)"

definition request_shutdown :: "bool \<Rightarrow> app_state \<Rightarrow> bool \<times> app_state" where
  "request_shutdown worker_finished s =
     (if as_shutdown s then (True, s)
      else if decline_reasons worker_finished s \<noteq> [] then (False, s)
      else (True, s\<lparr>as_shutdown := True, as_queue := None,
                    as_metrics := (as_metrics s)\<lparr>m_input_epoch := m_input_epoch (as_metrics s) + 1\<rparr>\<rparr>))"

definition toggle_auto_enabled :: "app_state \<Rightarrow> bool \<times> app_state" where
  "toggle_auto_enabled s =
     (if has_retained_input (as_metrics s) then (False, s)
      else (True, as_metrics_update (\<lambda>m. m\<lparr>m_safety_paused := False,
              m_auto_enabled := \<not> m_auto_enabled m, m_undo_hotkey_active := False,
              m_input_epoch := m_input_epoch m + 1\<rparr>) s))"

end
