(* ===== verification/Configuration_Handoff.thy ===== *)
theory Configuration_Handoff
  imports Agent_Operations
begin

text \<open>
  \<open>src/windows_agent.rs\<close>: a loaded configuration on its way to the worker and back.
  \<open>enqueue_configuration\<close> offers one snapshot under a new revision; the worker acknowledges or
  rejects the revision; the UI thread publishes or drops it. The rules that accept a reload are
  those of \<open>ConfigurationSources\<close> (\<open>src/configuration/storage.rs\<close>) and \<open>PackageSource\<close>
  (\<open>src/installed_packages.rs\<close>). Of a snapshot the model keeps the fields the UI thread reads.
\<close>

definition sources_unified :: u8 where "sources_unified = 1"

definition sources_accept_reload :: "u8 \<Rightarrow> u8 \<Rightarrow> bool" where
  "sources_accept_reload old new \<longleftrightarrow> new = sources_unified \<or> old AND new = old"

definition packages_accept_reload :: "package_source \<Rightarrow> package_source \<Rightarrow> bool" where
  "packages_accept_reload old new =
     (case (old, new) of
        (LegacyBootstrap, _) \<Rightarrow> True
      | (Managed _ _, LegacyBootstrap) \<Rightarrow> False
      | (Managed g h, Managed g' h') \<Rightarrow> g < g' \<or> (g' = g \<and> h' = h))"

definition saturating_sub_u64 :: "u64 \<Rightarrow> u64 \<Rightarrow> u64" where
  "saturating_sub_u64 a b = (if a \<le> b then 0 else a - b)"

definition enqueue_configuration ::
  "runtime_configuration \<Rightarrow> instant \<Rightarrow> app_state \<Rightarrow> configuration_handoff \<times> app_state" where
  "enqueue_configuration snapshot now s =
     (let m = as_metrics s;
          previous_sources = (case as_pending_configuration s of
            Some p \<Rightarrow> rc_sources (cr_snapshot p) | None \<Rightarrow> as_configuration_sources s);
          previous_packages = (case as_pending_configuration s of
            Some p \<Rightarrow> rc_package_source (cr_snapshot p) | None \<Rightarrow> as_package_source s);
          settled = max (m_configuration_ack m) (m_configuration_rejected m)
      in if as_shutdown s \<or> m_worker_dead m then (HandoffRefused, s)
         else if \<not> sources_accept_reload previous_sources (rc_sources snapshot) then (HandoffRefused, s)
         else if \<not> packages_accept_reload previous_packages (rc_package_source snapshot)
         then (HandoffRefused, s)
         else if cg_active (as_gate s) \<or> has_retained_input m \<or> as_pending_configuration s \<noteq> None
                 \<or> saturating_sub_u64 (as_next_configuration_revision s) settled \<ge> 2
         then (HandoffBusy, s)
         else if as_next_configuration_revision s = -1 then (HandoffRefused, s)
         else
           let revision = as_next_configuration_revision s + 1;
               reload = \<lparr>cr_revision = revision, cr_snapshot = snapshot\<rparr>;
               s = as_metrics_update (\<lambda>m. m\<lparr>m_configuration_pending := True,
                     m_input_epoch := m_input_epoch m + 1\<rparr>) s
           in case enqueue_with_configuration EvReloadConfiguration (Some reload) now s of
                (Inl refusal, s) \<Rightarrow>
                  (case refusal of RefusalFull \<Rightarrow> HandoffBusy | RefusalClosed \<Rightarrow> HandoffRefused,
                   as_metrics_update
                     (\<lambda>m. m\<lparr>m_configuration_pending := as_pending_configuration s \<noteq> None\<rparr>) s)
              | (Inr _, s) \<Rightarrow>
                  (HandoffQueued, s\<lparr>as_next_configuration_revision := revision,
                                    as_pending_configuration := Some reload\<rparr>))"

datatype configuration_message = ReadConfigError ustr | ApplyConfigError

text \<open>A load is \<open>None\<close> when nothing was loaded, an error text, or a snapshot.\<close>

definition hand_off_configuration ::
  "(ustr + runtime_configuration) option \<Rightarrow> instant \<Rightarrow> app_state
   \<Rightarrow> configuration_message option \<times> app_state" where
  "hand_off_configuration loaded now s =
     (case loaded of
        Some (Inl error) \<Rightarrow> (Some (ReadConfigError error), s\<lparr>as_deferred_configuration := None\<rparr>)
      | _ \<Rightarrow>
          let snapshot = (case loaded of Some (Inr c) \<Rightarrow> Some c | _ \<Rightarrow> as_deferred_configuration s);
              s = (if loaded = None then s\<lparr>as_deferred_configuration := None\<rparr> else s)
          in case snapshot of
               None \<Rightarrow> (None, s)
             | Some c \<Rightarrow> (case enqueue_configuration c now s of
                 (HandoffQueued, s) \<Rightarrow> (None, s)
               | (HandoffBusy, s) \<Rightarrow> (None, s\<lparr>as_deferred_configuration := Some c\<rparr>)
               | (HandoffRefused, s) \<Rightarrow> (Some ApplyConfigError, s)))"

definition drop_rejected_configuration :: "app_state \<Rightarrow> bool \<times> app_state" where
  "drop_rejected_configuration s =
     (case as_pending_configuration s of
        None \<Rightarrow> (False, s)
      | Some p \<Rightarrow>
          if m_configuration_rejected (as_metrics s) \<noteq> cr_revision p then (False, s)
          else (True, s\<lparr>as_pending_configuration := None,
                        as_metrics := (as_metrics s)\<lparr>m_input_epoch := m_input_epoch (as_metrics s) + 1,
                                                     m_configuration_pending := False\<rparr>\<rparr>))"

definition take_acknowledged_configuration ::
  "app_state \<Rightarrow> runtime_configuration option \<times> app_state" where
  "take_acknowledged_configuration s =
     (case as_pending_configuration s of
        None \<Rightarrow> (None, s)
      | Some p \<Rightarrow>
          if m_configuration_ack (as_metrics s) \<noteq> cr_revision p then (None, s)
          else (Some (cr_snapshot p), s\<lparr>as_pending_configuration := None\<rparr>))"

definition store_hotkey_configuration :: "settings \<Rightarrow> observer_metrics \<Rightarrow> observer_metrics" where
  "store_hotkey_configuration st m =
     m\<lparr>m_force_hotkey_virtual_key := ucast (hk_key (force_hotkey st)),
       m_force_hotkey_modifiers := hk_mods (force_hotkey st),
       m_undo_hotkey_active := False, m_hotkey_waiting_for_release := False\<rparr>"

definition publish_acknowledged_configuration ::
  "app_state \<Rightarrow> runtime_configuration option \<times> app_state" where
  "publish_acknowledged_configuration s =
     (case take_acknowledged_configuration s of
        (None, s) \<Rightarrow> (None, s)
      | (Some c, s) \<Rightarrow>
          let st = rc_settings c;
              m = store_hotkey_configuration st
                    ((as_metrics s)\<lparr>m_pause_break_undo := st_pause_break_undo st\<rparr>);
              m = m\<lparr>m_diagnostics_enabled := st_diagnostics_enabled st,
                    m_input_epoch := m_input_epoch m + 1, m_configuration_pending := False\<rparr>
          in (Some c,
              s\<lparr>as_configuration_sources := rc_sources c, as_package_source := rc_package_source c,
                as_settings := st, as_metrics := m,
                as_lexicon_candidate :=
                  (if \<not> st_offer_word_exclusion_after_undo st
                      \<and> \<not> st_offer_dictionary_after_forced_conversion st
                   then None else as_lexicon_candidate s)\<rparr>))"

text \<open>The state the agent starts with, for the configuration it loaded at startup.\<close>

definition agent_start :: "runtime_configuration \<Rightarrow> instant \<Rightarrow> app_state" where
  "agent_start c now =
     (let st = rc_settings c;
          m = observer_metrics_default\<lparr>m_auto_enabled := st_automatic_conversion_on_startup st,
                m_pause_break_undo := st_pause_break_undo st\<rparr>;
          m = (store_hotkey_configuration st m)\<lparr>m_diagnostics_enabled := st_diagnostics_enabled st\<rparr>
      in \<lparr>as_queue = Some [], as_worker_listening = True, as_shutdown = False, as_metrics = m,
          as_gate = correction_gate_default now, as_settings = st,
          as_next_configuration_revision = 0, as_configuration_sources = rc_sources c,
          as_package_source = rc_package_source c, as_pending_configuration = None,
          as_deferred_configuration = None, as_lexicon_candidate = None,
          as_pending_key_releases = [], as_pending_held_replay = [], as_pending_hand_back = None,
          as_typed_input = 0, as_posted = []\<rparr>)"

section \<open>Reloads never go back\<close>

lemma packages_accept_refl: "packages_accept_reload p p"
  by (cases p) (simp_all add: packages_accept_reload_def)

lemma packages_accept_trans:
  "packages_accept_reload a b \<Longrightarrow> packages_accept_reload b c \<Longrightarrow> packages_accept_reload a c"
  by (cases a; cases b; cases c) (auto simp: packages_accept_reload_def)

text \<open>Package generations never go back: along any chain of accepted reloads that starts
  from a managed generation, the source stays managed, the generation never decreases, and an
  equal generation means the same state hash.\<close>

theorem accepted_reloads_monotone:
  assumes "rtranclp packages_accept_reload (Managed g h) p"
  shows "\<exists>g' h'. p = Managed g' h' \<and> g \<le> g' \<and> (g' = g \<longrightarrow> h' = h)"
proof -
  have "packages_accept_reload (Managed g h) p"
    using assms
    by (induction rule: rtranclp_induct) (blast intro: packages_accept_refl packages_accept_trans)+
  then show ?thesis by (cases p) (auto simp: packages_accept_reload_def)
qed

lemma accepted_reloads_monotone_witness:
  "\<exists>g' h'. Managed 5 [1] = Managed g' h' \<and> (3 :: u64) \<le> g' \<and> (g' = 3 \<longrightarrow> h' = [0])"
  by (rule accepted_reloads_monotone)
    (rule r_into_rtranclp, simp add: packages_accept_reload_def)

section \<open>The revision protocol\<close>

text \<open>What holds between operations: a pending configuration has the newest revision, and it
  keeps input waiting.\<close>

definition handoff_ok :: "app_state \<Rightarrow> bool" where
  "handoff_ok s \<longleftrightarrow>
     (\<forall>p. as_pending_configuration s = Some p \<longrightarrow>
        cr_revision p = as_next_configuration_revision s \<and> m_configuration_pending (as_metrics s))
     \<and> (as_pending_configuration s = None \<longrightarrow> \<not> m_configuration_pending (as_metrics s))"

lemma enqueue_reload_frame:
  assumes "enqueue_with_configuration EvReloadConfiguration c now s = (r, s')"
  shows "as_pending_configuration s' = as_pending_configuration s"
    "m_configuration_pending (as_metrics s') = m_configuration_pending (as_metrics s)"
    "as_next_configuration_revision s' = as_next_configuration_revision s"
  using assms
  by (auto simp: enqueue_with_configuration_def try_send_def Let_def set_refresh_flag_def note_layout_def
      refresh_flag_def split: option.splits if_splits queue_refusal.splits)

lemma handoff_ok_enqueue:
  "handoff_ok s \<Longrightarrow> enqueue_configuration c now s = (r, s') \<Longrightarrow> handoff_ok s'"
  unfolding enqueue_configuration_def Let_def
  by (auto simp: handoff_ok_def split: if_splits prod.splits sum.splits dest: enqueue_reload_frame)

lemma handoff_ok_deferred [simp]:
  "handoff_ok (s\<lparr>as_deferred_configuration := x\<rparr>) = handoff_ok s"
  by (simp add: handoff_ok_def)

definition settle_handoff ::
  "runtime_configuration \<Rightarrow> configuration_handoff \<times> app_state
   \<Rightarrow> configuration_message option \<times> app_state" where
  "settle_handoff c = (\<lambda>(h, s).
     case h of
       HandoffQueued \<Rightarrow> (None, s)
     | HandoffBusy \<Rightarrow> (None, s\<lparr>as_deferred_configuration := Some c\<rparr>)
     | HandoffRefused \<Rightarrow> (Some ApplyConfigError, s))"

lemma hand_off_loaded:
  "hand_off_configuration (Some (Inr c)) now s = settle_handoff c (enqueue_configuration c now s)"
  by (simp add: hand_off_configuration_def settle_handoff_def case_prod_unfold
      split: configuration_handoff.split prod.split)

lemma hand_off_deferred:
  "hand_off_configuration None now s =
   (let t = s\<lparr>as_deferred_configuration := None\<rparr>
    in case as_deferred_configuration s of
         None \<Rightarrow> (None, t) | Some c \<Rightarrow> settle_handoff c (enqueue_configuration c now t))"
  by (simp add: hand_off_configuration_def settle_handoff_def case_prod_unfold Let_def
      split: configuration_handoff.split prod.split option.split)

lemma handoff_ok_settle: "handoff_ok (snd p) \<Longrightarrow> handoff_ok (snd (settle_handoff c p))"
  by (cases p; cases "fst p") (auto simp: settle_handoff_def)

lemma handoff_ok_hand_off:
  assumes "handoff_ok s"
  shows "handoff_ok (snd (hand_off_configuration l now s))"
proof -
  have e: "handoff_ok (snd (enqueue_configuration c now t))" if "handoff_ok t" for c t
    using handoff_ok_enqueue [OF that] by (metis prod.collapse)
  show ?thesis
  proof (cases l)
    case None
    then show ?thesis
      using assms e handoff_ok_settle
      by (simp add: hand_off_deferred Let_def split: option.split)
  next
    case (Some r)
    then show ?thesis
      using assms handoff_ok_settle [OF e [OF assms]]
      by (cases r) (simp_all add: hand_off_loaded, simp add: hand_off_configuration_def)
  qed
qed

lemma handoff_ok_drop: "handoff_ok s \<Longrightarrow> handoff_ok (snd (drop_rejected_configuration s))"
  by (auto simp: handoff_ok_def drop_rejected_configuration_def split: option.split)

lemma handoff_ok_publish: "handoff_ok s \<Longrightarrow> handoff_ok (snd (publish_acknowledged_configuration s))"
  by (auto simp: handoff_ok_def publish_acknowledged_configuration_def take_acknowledged_configuration_def
      Let_def split: option.split)

text \<open>The configuration the UI thread may do next, and what the worker may do to the revision
  counters meanwhile: it settles the revision that is pending.\<close>

inductive handoff_step :: "app_state \<Rightarrow> app_state \<Rightarrow> bool" where
  load: "handoff_step s (snd (hand_off_configuration l now s))"
| drop: "handoff_step s (snd (drop_rejected_configuration s))"
| publish: "handoff_step s (snd (publish_acknowledged_configuration s))"
| acknowledge: "as_pending_configuration s = Some p \<Longrightarrow>
    handoff_step s (as_metrics_update (\<lambda>m. m\<lparr>m_configuration_ack := cr_revision p\<rparr>) s)"
| reject: "as_pending_configuration s = Some p \<Longrightarrow>
    handoff_step s (as_metrics_update (\<lambda>m. m\<lparr>m_configuration_rejected := cr_revision p\<rparr>) s)"
| dequeue: "as_queue s = Some (q # qs) \<Longrightarrow> handoff_step s (s\<lparr>as_queue := Some qs\<rparr>)"

lemma handoff_ok_step: "handoff_step s t \<Longrightarrow> handoff_ok s \<Longrightarrow> handoff_ok t"
  by (induction rule: handoff_step.induct)
    (simp_all add: handoff_ok_hand_off handoff_ok_drop handoff_ok_publish, simp_all add: handoff_ok_def)

lemma handoff_ok_start: "handoff_ok (agent_start c now)"
  by (simp add: handoff_ok_def agent_start_def Let_def store_hotkey_configuration_def
      observer_metrics_default_def)

text \<open>C37. Input waits exactly while a configuration is on its way: in every state reachable from
  the agent's start by loading, publishing, dropping, and the worker's acknowledgements and
  rejections, the flag that makes the hooks wait is set if and only if one configuration is
  pending, and that one carries the newest revision.\<close>

theorem configuration_pending_exact:
  assumes "rtranclp handoff_step (agent_start c now) t"
  shows "(m_configuration_pending (as_metrics t) \<longleftrightarrow> as_pending_configuration t \<noteq> None)
    \<and> (\<forall>p. as_pending_configuration t = Some p \<longrightarrow> cr_revision p = as_next_configuration_revision t)"
proof -
  have "handoff_ok t"
    using assms by (induction rule: rtranclp_induct) (auto intro: handoff_ok_step handoff_ok_start)
  then show ?thesis by (cases "as_pending_configuration t") (auto simp: handoff_ok_def)
qed

definition sample_configuration :: runtime_configuration where
  "sample_configuration =
     \<lparr>rc_package_source = LegacyBootstrap, rc_sources = 1, rc_settings = settings_default\<rparr>"

lemma configuration_pending_exact_witness:
  "\<exists>t. rtranclp handoff_step (agent_start sample_configuration 0) t
     \<and> as_pending_configuration t \<noteq> None
     \<and> (m_configuration_pending (as_metrics t) \<longleftrightarrow> as_pending_configuration t \<noteq> None)
     \<and> (\<forall>p. as_pending_configuration t = Some p \<longrightarrow> cr_revision p = as_next_configuration_revision t)"
proof -
  let ?s = "agent_start sample_configuration 0"
  let ?t = "snd (hand_off_configuration (Some (Inr sample_configuration)) 1 ?s)"
  have step: "rtranclp handoff_step ?s ?t" by (rule r_into_rtranclp) (rule load)
  have "as_pending_configuration ?t \<noteq> None"
    by (simp add: hand_off_configuration_def enqueue_configuration_def enqueue_with_configuration_def
        try_send_def Let_def agent_start_def sample_configuration_def sources_accept_reload_def
        sources_unified_def packages_accept_reload_def refresh_flag_def set_refresh_flag_def
        note_layout_def store_hotkey_configuration_def observer_metrics_default_def
        correction_gate_default_def has_retained_input_def saturating_sub_u64_def consts_def)
  with step configuration_pending_exact [OF step] show ?thesis by blast
qed

text \<open>A load that the worker takes at once leaves an older deferred snapshot in place; the next
  timer tick offers that older snapshot again.\<close>

lemma queued_load_keeps_deferred:
  assumes "enqueue_configuration c now s = (HandoffQueued, s')"
  shows "as_deferred_configuration (snd (hand_off_configuration (Some (Inr c)) now s))
    = as_deferred_configuration s"
proof -
  have "as_deferred_configuration s' = as_deferred_configuration s"
    using assms
    by (auto simp: enqueue_configuration_def enqueue_with_configuration_def try_send_def Let_def
        set_refresh_flag_def note_layout_def refresh_flag_def
        split: option.splits if_splits queue_refusal.splits)
  then show ?thesis by (simp add: hand_off_loaded assms settle_handoff_def)
qed

end
