(* ===== verification/Gate_Protocol.thy ===== *)
theory Gate_Protocol
  imports Configuration_Handoff
begin

text \<open>
  The custody of swallowed keys. Every operation of the UI thread on the correction gate is a
  step of a world that also records, as ghost state, the edges the hook swallowed in order, the
  batch a \<open>SendInput\<close> call is sending, and what became of edges that left: sent, deleted,
  superseded by a newer edge, or lost. The locale states what a step may do to the edges in
  custody; its facts are about whole runs.
\<close>

section \<open>Custody in general\<close>

locale custody =
  fixes good :: "'w \<Rightarrow> bool"
    and move :: "'w \<Rightarrow> 'w \<Rightarrow> bool"
    and taken :: "'w \<Rightarrow> 'k list"
    and kept :: "'w \<Rightarrow> 'k list"
    and out :: "'w \<Rightarrow> 'k multiset"
  assumes move_good: "move w w' \<Longrightarrow> good w \<Longrightarrow> good w'"
    and move_custody: "move w w' \<Longrightarrow> good w \<Longrightarrow>
      \<exists>xs. taken w' = taken w @ xs \<and> subseq (kept w') (kept w @ xs)
           \<and> mset (kept w') + out w' = mset (kept w) + mset xs + out w"
begin

lemma run_good: "rtranclp move w w' \<Longrightarrow> good w \<Longrightarrow> good w'"
  by (induction rule: rtranclp_induct) (auto intro: move_good)

lemma run_ordered:
  assumes "rtranclp move w w'" "good w" "subseq (kept w) (taken w)"
  shows "subseq (kept w') (taken w')"
  using assms
proof (induction rule: rtranclp_induct)
  case (step v u)
  from step have g: "good v" by (auto intro: run_good)
  obtain xs where "taken u = taken v @ xs" "subseq (kept u) (kept v @ xs)"
    using move_custody [OF step.hyps(2) g] by blast
  moreover have "subseq (kept v @ xs) (taken v @ xs)"
    using step by (intro list_emb_append_mono) simp_all
  ultimately show ?case by (metis subseq_order.order_trans)
qed

lemma run_conserved:
  assumes "rtranclp move w w'" "good w" "mset (taken w) = mset (kept w) + out w"
  shows "mset (taken w') = mset (kept w') + out w'"
  using assms
proof (induction rule: rtranclp_induct)
  case (step v u)
  from step have g: "good v" by (auto intro: run_good)
  obtain xs where x: "taken u = taken v @ xs"
    and c: "mset (kept u) + out u = mset (kept v) + mset xs + out v"
    using move_custody [OF step.hyps(2) g] by blast
  have "mset (taken u) = mset (taken v) + mset xs" by (simp add: x)
  also have "\<dots> = mset (kept v) + mset xs + out v" using step by simp
  also have "\<dots> = mset (kept u) + out u" by (rule c [symmetric])
  finally show ?case .
qed simp

end

section \<open>Operations of the agent\<close>

definition retained_events :: "app_state \<Rightarrow> raw_key_event list" where
  "retained_events s = (case m_retained_input (as_metrics s) of None \<Rightarrow> [] | Some r \<Rightarrow> ri_events r)"

definition custody_kept :: "app_state \<Rightarrow> raw_key_event list" where
  "custody_kept s = cg_held (as_gate s) @ retained_events s"

definition custody_out :: "app_state \<Rightarrow> raw_key_event multiset" where
  "custody_out s = mset (as_pending_key_releases s) + mset (as_pending_held_replay s)"

definition app_ok :: "app_state \<Rightarrow> bool" where
  "app_ok s \<longleftrightarrow>
     (cg_active (as_gate s) \<longrightarrow> m_retained_input (as_metrics s) = None)
     \<and> (\<not> cg_active (as_gate s) \<longrightarrow> cg_held (as_gate s) = [])
     \<and> length (cg_held (as_gate s)) \<le> CORRECTION_GATE_CAPACITY
     \<and> (\<forall>r. m_retained_input (as_metrics s) = Some r \<longrightarrow> ri_events r \<noteq> [])"

text \<open>A step that swallows nothing: edges in custody stay in order, or leave into \<open>gone\<close>.\<close>

definition settles :: "app_state \<Rightarrow> app_state \<Rightarrow> raw_key_event multiset \<Rightarrow> bool" where
  "settles s s' gone \<longleftrightarrow>
     app_ok s' \<and> subseq (custody_kept s') (custody_kept s)
     \<and> mset (custody_kept s') + custody_out s' + gone = mset (custody_kept s) + custody_out s"

lemma settles_refl: "app_ok s \<Longrightarrow> settles s s {#}"
  by (simp add: settles_def)

lemma settles_trans: "settles s t g \<Longrightarrow> settles t u h \<Longrightarrow> settles s u (g + h)"
  unfolding settles_def by (metis add.assoc add.commute subseq_order.order_trans)

text \<open>An operation that leaves the gate's edges, the retained record and the pending edges
  alone.\<close>

definition quiet :: "app_state \<Rightarrow> app_state \<Rightarrow> bool" where
  "quiet s s' \<longleftrightarrow>
     cg_active (as_gate s') = cg_active (as_gate s) \<and> cg_held (as_gate s') = cg_held (as_gate s)
     \<and> m_retained_input (as_metrics s') = m_retained_input (as_metrics s)
     \<and> as_pending_key_releases s' = as_pending_key_releases s
     \<and> as_pending_held_replay s' = as_pending_held_replay s"

lemma quiet_refl [simp]: "quiet s s"
  by (simp add: quiet_def)

lemma quiet_trans: "quiet s t \<Longrightarrow> quiet t u \<Longrightarrow> quiet s u"
  by (simp add: quiet_def)

lemma settles_quiet: "quiet s s' \<Longrightarrow> app_ok s \<Longrightarrow> settles s s' {#}"
  by (simp add: quiet_def settles_def app_ok_def custody_kept_def custody_out_def retained_events_def)

lemma quiet_enqueued: "quiet s (enqueued e now s)" "quiet s (snd (enqueue e now s))"
  "quiet s (snd (enqueue_with_configuration e c now s))"
  by (simp_all add: quiet_def frame)

lemma quiet_record_failure: "quiet s (record_gate_failure_without_worker s)"
  by (simp add: quiet_def frame)

lemma quiet_post: "quiet s (post_held_keys_return s)"
  by (simp add: quiet_def frame)

lemma quiet_metrics: "(\<And>m. m_retained_input (f m) = m_retained_input m) \<Longrightarrow> quiet s (as_metrics_update f s)"
  by (simp add: quiet_def)

lemma break_parts:
  "subseq (kept_of c cur g) (cg_held g)"
  "mset (kept_of c cur g) + mset (released_of c cur g) + mset (replayed_of c cur g) = mset (cg_held g)"
  using split_releases_subseq [of "{}" "{}" "cg_held g"] split_releases_mset [of "cg_held g" "{}" "{}"]
  by (simp_all add: kept_of_def released_of_def replayed_of_def split_delivered_key_releases_def)

lemma settles_break:
  assumes "app_ok s \<or> (cg_active (as_gate s) \<and> m_retained_input (as_metrics s) = None)"
  shows "settles s (break_correction_gate c cur now s) {#}"
proof (cases "cg_active (as_gate s)")
  case True
  with assms have r: "m_retained_input (as_metrics s) = None" by (auto simp: app_ok_def)
  show ?thesis
    using break_parts [of c cur "as_gate s"]
    by (cases "kept_of c cur (as_gate s) = []")
      (simp_all add: settles_def app_ok_def custody_kept_def custody_out_def retained_events_def r
        break_fields [OF True] ac_simps)
qed (use assms in \<open>simp add: settles_refl\<close>)

lemma settles_hand_over:
  assumes "app_ok s" "m_retained_input (as_metrics s) = Some r"
    and "s' = s\<lparr>as_metrics := (as_metrics s)\<lparr>m_retained_input := None, m_recovery_armed := b\<rparr>\<rparr>"
  shows "settles s s' (mset (ri_events r))"
  using assms by (auto simp: settles_def app_ok_def custody_kept_def custody_out_def retained_events_def)

lemma queue_releases_fields:
  "as_pending_key_releases (queue_delivered_key_releases rs s) = as_pending_key_releases s @ rs"
  "as_gate (queue_delivered_key_releases rs s) = as_gate s"
  "as_metrics (queue_delivered_key_releases rs s) = as_metrics s"
  "as_pending_held_replay (queue_delivered_key_releases rs s) = as_pending_held_replay s"
  "as_typed_input (queue_delivered_key_releases rs s) = as_typed_input s"
  by (simp_all add: queue_delivered_key_releases_def post_held_keys_return_def)

lemma settles_delete:
  assumes "app_ok s" "m_retained_input (as_metrics s) = Some r"
    and "s' = queue_delivered_key_releases (snd (split_delivered_key_releases (ri_events r)))
      (s\<lparr>as_metrics := (as_metrics s)\<lparr>m_retained_input := None, m_recovery_armed := b\<rparr>\<rparr>)"
  shows "settles s s' (mset (fst (split_delivered_key_releases (ri_events r))))"
  using assms split_releases_mset [of "ri_events r" "{}" "{}"]
  by (auto simp: settles_def app_ok_def custody_kept_def custody_out_def retained_events_def
      queue_releases_fields split_delivered_key_releases_def ac_simps)

text \<open>Deleting a record deletes exactly the edges that do not have to be delivered.\<close>

definition deleted_edges :: "app_state \<Rightarrow> raw_key_event multiset" where
  "deleted_edges s = mset (fst (split_delivered_key_releases (retained_events s)))"

lemma settles_discard:
  assumes "app_ok s" and "discard_confirmed_retained_input s = (b, s')"
  shows "settles s s' (if b then deleted_edges s else {#})"
proof (cases "m_retained_input (as_metrics s)")
  case None
  then show ?thesis
    using assms by (auto simp: discard_confirmed_retained_input_def quiet_def intro!: settles_quiet)
next
  case (Some r)
  show ?thesis
  proof (cases "ri_recovering r")
    case True
    then show ?thesis
      using assms Some
      by (auto simp: discard_confirmed_retained_input_def Let_def quiet_def intro!: settles_quiet)
  next
    case False
    then show ?thesis
      using assms Some settles_delete [OF assms(1) Some refl, of False]
      by (auto simp: discard_confirmed_retained_input_def Let_def deleted_edges_def retained_events_def)
  qed
qed

lemma settles_expire:
  assumes "app_ok s" and "expire_retained_input now s = (b, s')"
  shows "settles s s' (if b then deleted_edges s else {#})"
proof (cases "m_retained_input (as_metrics s)")
  case None
  then show ?thesis using assms by (auto simp: expire_retained_input_def settles_refl)
next
  case (Some r)
  let ?t = "queue_delivered_key_releases (snd (split_delivered_key_releases (ri_events r)))
    (s\<lparr>as_metrics := (as_metrics s)\<lparr>m_retained_input := None, m_recovery_armed := False\<rparr>\<rparr>)"
  have d: "settles s ?t (mset (fst (split_delivered_key_releases (ri_events r))))"
    by (rule settles_delete [OF assms(1) Some refl])
  then have "app_ok ?t" by (simp add: settles_def)
  from settles_trans [OF d settles_quiet [OF quiet_enqueued(1) this]]
  show ?thesis
    using assms Some
    by (auto simp: expire_retained_input_def Let_def deleted_edges_def retained_events_def settles_refl
        split: if_splits)
qed

lemma settles_hand_back:
  assumes "app_ok s"
  shows "settles s (hand_back_stalled_retained_input cur released now s) {#}"
proof (cases "m_retained_input (as_metrics s)")
  case (Some r)
  then show ?thesis
    using assms
    by (auto simp: hand_back_stalled_retained_input_def Let_def settles_refl settles_def app_ok_def
        custody_kept_def custody_out_def retained_events_def post_held_keys_return_def)
qed (use assms in \<open>simp add: hand_back_stalled_retained_input_def settles_refl\<close>)

lemma settles_take_return:
  assumes "app_ok s" and "take_held_keys_return s = (r, s')"
  shows "settles s s' (custody_out s)"
  using assms
  by (auto simp: take_held_keys_return_def Let_def settles_def app_ok_def custody_kept_def
      custody_out_def retained_events_def split: if_splits)

lemma settles_supersede:
  assumes "app_ok s"
  shows "settles s (s\<lparr>as_pending_key_releases := cancel_superseded_key_release (as_pending_key_releases s) e\<rparr>)
    (mset (filter (\<lambda>q. key_of q = key_of e) (as_pending_key_releases s)))"
  using assms multiset_partition [of "mset (as_pending_key_releases s)" "\<lambda>q. key_of q \<noteq> key_of e"]
  by (simp add: settles_def app_ok_def custody_kept_def custody_out_def retained_events_def
      cancel_superseded_key_release_def ac_simps flip: mset_filter)

lemma settles_recovery_metrics:
  assumes "app_ok s"
    and "\<And>r. m_retained_input (as_metrics s) = Some r \<Longrightarrow>
      \<exists>r'. m_retained_input m' = Some r' \<and> ri_events r' = ri_events r"
    and "m_retained_input (as_metrics s) = None \<Longrightarrow> m_retained_input m' = None"
  shows "settles s (s\<lparr>as_metrics := m'\<rparr>) {#}"
  using assms
  by (cases "m_retained_input (as_metrics s)")
    (auto simp: settles_def app_ok_def custody_kept_def custody_out_def retained_events_def)

lemma settles_prepare:
  "app_ok s \<Longrightarrow> settles s (s\<lparr>as_metrics := snd (prepare_retained_recovery token now (as_metrics s))\<rparr>) {#}"
  by (rule settles_recovery_metrics) (auto simp: prepare_retained_recovery_def split: option.splits)

lemma settles_begin_recovery:
  "app_ok s \<Longrightarrow> settles s (s\<lparr>as_metrics := snd (begin_retained_recovery token (as_metrics s))\<rparr>) {#}"
  by (rule settles_recovery_metrics) (auto simp: begin_retained_recovery_def split: option.splits)

lemma settles_finish_recovery:
  assumes "app_ok s"
  shows "settles s (s\<lparr>as_metrics := finish_retained_recovery token sent requested (as_metrics s)\<rparr>)
    (if m_retained_input (finish_retained_recovery token sent requested (as_metrics s)) = None
     then mset (retained_events s) else {#})"
  using assms
  by (cases "m_retained_input (as_metrics s)")
    (auto simp: finish_retained_recovery_def settles_def app_ok_def custody_kept_def custody_out_def
      retained_events_def)

lemma settles_close:
  assumes "app_ok s" "cg_held (as_gate s) = []"
  shows "settles s (close_drained_gate cur now s) {#}"
proof -
  let ?t = "s\<lparr>as_gate := (as_gate s)\<lparr>cg_active := False, cg_pending_hotkey := None\<rparr>,
      as_metrics := (as_metrics s)\<lparr>m_active_gate_token := 0\<rparr>\<rparr>"
  have ok: "app_ok ?t" using assms by (simp add: app_ok_def)
  have st: "settles s ?t {#}"
    using assms(2) ok by (simp add: settles_def custody_kept_def custody_out_def retained_events_def)
  have "quiet ?t (close_drained_gate cur now s)"
    by (cases "cg_pending_hotkey (as_gate s)"; cases cur)
      (simp_all add: close_drained_gate_def take_pending_hotkey_def Let_def quiet_def frame)
  from settles_trans [OF st settles_quiet [OF this ok]] show ?thesis by simp
qed

lemma handoff_frame:
  assumes "handoff old new now g = (b, g')"
  shows "cg_active g' = cg_active g" "cg_held g' = cg_held g" "cg_origin g' = cg_origin g"
    and "\<not> b \<Longrightarrow> g' = g"
  using assms by (auto simp: handoff_def split: if_splits)

lemma settles_acknowledge_state:
  assumes "app_ok s" and "acknowledge_drain_state old new now now' cur s = (a, c, s')"
  shows "settles s s' {#}"
proof -
  let ?t = "s\<lparr>as_gate := (as_gate s)\<lparr>cg_awaiting_worker_ack := False, cg_handoff_budget_ms := 0\<rparr>\<rparr>"
  have q: "quiet s ?t" by (simp add: quiet_def)
  have t: "settles s ?t {#}" by (rule settles_quiet [OF q assms(1)])
  have ok: "app_ok ?t" using t by (simp add: settles_def)
  obtain b g' where h: "handoff old new now' (as_gate s) = (b, g')" by fastforce
  have hq: "quiet s (s\<lparr>as_gate := g'\<rparr>)"
    "quiet s (s\<lparr>as_gate := g', as_metrics := (as_metrics s)\<lparr>m_active_gate_token := new, m_cancelled_gate_token := 0\<rparr>\<rparr>)"
    using handoff_frame [OF h] by (simp_all add: quiet_def)
  have cl: "settles s (close_drained_gate cur now ?t) {#}" if "cg_held (as_gate s) = []"
    using settles_trans [OF t settles_close [OF ok, of cur now]] that by simp
  have br: "settles s (break_correction_gate CauseDeadline cur now s) {#}"
    using settles_break assms(1) by blast
  show ?thesis
    using assms(2) settles_refl [OF assms(1)] br t cl settles_quiet [OF hq(1) assms(1)]
      settles_quiet [OF hq(2) assms(1)]
    unfolding acknowledge_drain_state_def Let_def h
    by (cases b; cases "cg_held (as_gate s) = []") (simp_all split: if_splits)
qed

lemma settles_fail_open: "app_ok s \<Longrightarrow> settles s (fail_open_correction_gate token c cur now s) {#}"
  by (simp add: fail_open_correction_gate_def settles_break settles_refl)

lemma settles_acknowledge:
  assumes "app_ok s"
  shows "settles s (snd (acknowledge_correction_gate_drain old new now now' cur posted s)) {#}"
proof -
  obtain a c t where t: "acknowledge_drain_state old new now now' cur s = (a, c, t)"
    by (cases "acknowledge_drain_state old new now now' cur s") auto
  have st: "settles s t {#}" by (rule settles_acknowledge_state [OF assms t])
  then have "app_ok t" by (simp add: settles_def)
  from settles_trans [OF st settles_fail_open [OF this]] st show ?thesis
    by (simp add: acknowledge_correction_gate_drain_def t)
qed

lemma settles_expire_gate: "app_ok s \<Longrightarrow> settles s (expire_correction_gate cur now s) {#}"
  by (simp add: expire_correction_gate_def settles_break settles_refl settles_close)

lemma settles_after_metrics:
  assumes "app_ok s" "settles s t {#}" "\<And>m. m_retained_input (f m) = m_retained_input m"
  shows "settles s (as_metrics_update f t) {#}"
proof -
  have "app_ok t" using assms(2) by (simp add: settles_def)
  from settles_trans [OF assms(2) settles_quiet [OF quiet_metrics this]] assms(3) show ?thesis by simp
qed

lemma settles_reinstall: "app_ok s \<Longrightarrow> settles s (invalidate_for_hook_reinstall cur now s) {#}"
proof -
  let ?t = "as_metrics_update (\<lambda>m. m\<lparr>m_input_epoch := m_input_epoch m + 1\<rparr>) s"
  assume ok: "app_ok s"
  have q: "quiet s ?t" by (simp add: quiet_def)
  have "app_ok ?t" using settles_quiet [OF q ok] by (simp add: settles_def)
  then have "settles ?t (invalidate_for_hook_reinstall cur now s) {#}"
    unfolding invalidate_for_hook_reinstall_def using settles_break by blast
  from settles_trans [OF settles_quiet [OF q ok] this] show ?thesis by simp
qed

lemma settles_fault: "app_ok s \<Longrightarrow> settles s (record_engine_fault cur now s) {#}"
proof -
  let ?a = "\<lambda>m. m\<lparr>m_auto_enabled := False, m_last_failure_reason := FailInternalFault,
    m_safety_paused := True, m_conversion_failures := m_conversion_failures m + 1\<rparr>"
  let ?t = "if m_auto_enabled (as_metrics s) then as_metrics_update ?a s else s"
  assume ok: "app_ok s"
  have q: "quiet s ?t" by (simp add: quiet_def)
  have okt: "app_ok ?t" using settles_quiet [OF q ok] by (simp add: settles_def)
  have b: "settles ?t (break_correction_gate CauseInternalFault cur now ?t) {#}"
    using settles_break okt by blast
  have okb: "app_ok (break_correction_gate CauseInternalFault cur now ?t)"
    using b by (simp add: settles_def)
  have "quiet (break_correction_gate CauseInternalFault cur now ?t) (record_engine_fault cur now s)"
    unfolding record_engine_fault_def Let_def by (simp add: quiet_def)
  from settles_trans [OF settles_trans [OF settles_quiet [OF q ok] b] settles_quiet [OF this okb]]
  show ?thesis by simp
qed

section \<open>Swallowing and draining\<close>

lemma hold_custody:
  assumes "app_ok s" and "hold_gated_edge raw t1 t2 cur s = (True, s')"
  shows "app_ok s'" and "subseq (custody_kept s') (custody_kept s @ [raw])"
    and "mset (custody_kept s') + custody_out s' = mset (custody_kept s) + {#raw#} + custody_out s"
    and "length (custody_kept s') \<le> CORRECTION_GATE_CAPACITY + 1"
proof -
  let ?u = "s\<lparr>as_gate := (as_gate s)\<lparr>cg_held := cg_held (as_gate s) @ [raw]\<rparr>\<rparr>"
  have act: "cg_active (as_gate s)"
    using assms(2) by (auto simp: hold_gated_edge_def hold_def split: if_splits)
  with assms(1) have r: "m_retained_input (as_metrics s) = None"
    and len: "length (cg_held (as_gate s)) \<le> CORRECTION_GATE_CAPACITY"
    by (simp_all add: app_ok_def)
  have u: "custody_kept ?u = custody_kept s @ [raw]" "custody_out ?u = custody_out s"
    using r by (simp_all add: custody_kept_def custody_out_def retained_events_def)
  have lk: "length (custody_kept s) \<le> CORRECTION_GATE_CAPACITY"
    using len r by (simp add: custody_kept_def retained_events_def)
  consider "s' = ?u" "length (cg_held (as_gate s)) < CORRECTION_GATE_CAPACITY"
    | c where "s' = break_correction_gate c cur t2 ?u"
    using assms(2) act by (auto simp: hold_gated_edge_def hold_def Let_def split: if_splits)
  then have "app_ok s' \<and> subseq (custody_kept s') (custody_kept s @ [raw])
    \<and> mset (custody_kept s') + custody_out s' = mset (custody_kept s) + {#raw#} + custody_out s"
  proof cases
    case 1
    then show ?thesis using u act r by (simp add: app_ok_def)
  next
    case 2
    have "settles ?u s' {#}" unfolding 2 by (rule settles_break) (simp add: act r)
    then show ?thesis using u by (simp add: settles_def)
  qed
  then show "app_ok s'" "subseq (custody_kept s') (custody_kept s @ [raw])"
    "mset (custody_kept s') + custody_out s' = mset (custody_kept s) + {#raw#} + custody_out s"
    by simp_all
  then show "length (custody_kept s') \<le> CORRECTION_GATE_CAPACITY + 1"
    using list_emb_length [of "(=)" "custody_kept s'" "custody_kept s @ [raw]"] lk by simp
qed

lemma begin_drain_none:
  assumes "app_ok s" and "begin_drain token c c' now s = (None, s')"
  shows "settles s s' {#}"
  using assms settles_break [of s] settles_refl [of s]
  by (auto simp: begin_drain_def Let_def case_prod_unfold split: if_splits)

lemma begin_drain_some:
  assumes "app_ok s" and "begin_drain token c c' now s = (Some (es, f), s')"
  shows "app_ok s'" "custody_kept s = es @ custody_kept s'" "custody_out s' = custody_out s"
    and "cg_active (as_gate s)" "retained_events s' = []" "length es \<le> CORRECTION_GATE_CAPACITY"
    and "cg_token (as_gate s) = token" "f = cg_fence_marker (as_gate s)"
proof -
  obtain p r where pr: "take_held_replay_prefix (cg_held (as_gate s)) = (p, r)" by fastforce
  have a: "cg_active (as_gate s)" "es = p" "cg_held (as_gate s') = r" "cg_active (as_gate s')"
    "m_retained_input (as_metrics s') = m_retained_input (as_metrics s)" "custody_out s' = custody_out s"
    "cg_token (as_gate s) = token" "f = cg_fence_marker (as_gate s)"
    using assms(2) pr
    by (auto simp: begin_drain_def can_start_drain_def Let_def custody_out_def split: if_splits)
  note h = take_held_append [OF pr]
  from assms(1) a(1) have r: "m_retained_input (as_metrics s) = None"
    "length (cg_held (as_gate s)) \<le> CORRECTION_GATE_CAPACITY"
    by (simp_all add: app_ok_def)
  show "app_ok s'" using a r h by (simp add: app_ok_def)
  show "custody_kept s = es @ custody_kept s'" using a r h by (simp add: custody_kept_def retained_events_def)
  show "custody_out s' = custody_out s" "cg_active (as_gate s)" "cg_token (as_gate s) = token"
    "f = cg_fence_marker (as_gate s)" using a by simp_all
  show "retained_events s' = []" using a r by (simp add: retained_events_def)
  show "length es \<le> CORRECTION_GATE_CAPACITY" using a r h by simp
qed

text \<open>A drain whose inputs were not all accepted: while the token is still the gate's, its
  edges go before everything in custody.\<close>

lemma keep_unsent_custody:
  assumes "app_ok s" "\<not> cg_active (as_gate s)" and "s' = keep_unsent_prefix token es sent now s"
  shows "app_ok s'" "subseq (custody_kept s') (es @ custody_kept s)"
    and "mset (custody_kept s') + custody_out s' = mset es + mset (custody_kept s) + custody_out s"
proof -
  obtain k r where kr: "split_delivered_key_releases es = (k, r)" by fastforce
  have m: "mset es = mset k + mset r" "subseq k es"
    using split_releases_mset [of es "{}" "{}"] split_releases_subseq [of "{}" "{}" es] kr
    by (simp_all add: split_delivered_key_releases_def)
  have h: "cg_held (as_gate s) = []" using assms(1,2) by (simp add: app_ok_def)
  have "app_ok s' \<and> custody_kept s' = k @ custody_kept s \<and> custody_out s' = custody_out s + mset r"
    using assms h
    by (cases k; cases "m_retained_input (as_metrics s)")
      (auto simp: keep_unsent_prefix_def kr app_ok_def custody_kept_def custody_out_def
        retained_events_def queue_releases_fields)
  then show "app_ok s'" "subseq (custody_kept s') (es @ custody_kept s)"
    "mset (custody_kept s') + custody_out s' = mset es + mset (custody_kept s) + custody_out s"
    using m by (simp_all add: list_emb_append_mono)
qed

lemma settles_mark_uncertain: "app_ok s \<Longrightarrow> settles s (mark_uncertain sent s) {#}"
  by (cases "m_retained_input (as_metrics s)")
    (auto simp: mark_uncertain_def settles_def app_ok_def custody_kept_def custody_out_def
      retained_events_def)

lemma retain_failed_custody:
  assumes "app_ok s" "cg_token (as_gate s) = token"
    and "s' = retain_failed_drain token es sent cur now s"
  shows "app_ok s'" "subseq (custody_kept s') (es @ custody_kept s)"
    and "mset (custody_kept s') + custody_out s' = mset es + mset (custody_kept s) + custody_out s"
proof -
  let ?u = "s\<lparr>as_gate := (as_gate s)\<lparr>cg_held := es @ cg_held (as_gate s), cg_drain_failed := True\<rparr>\<rparr>"
  define t where "t = (if cg_active (as_gate s) then break_correction_gate CauseReplaySubmit cur now ?u
    else keep_unsent_prefix token es sent now s)"
  have t: "app_ok t \<and> subseq (custody_kept t) (es @ custody_kept s)
    \<and> mset (custody_kept t) + custody_out t = mset es + mset (custody_kept s) + custody_out s"
  proof (cases "cg_active (as_gate s)")
    case True
    with assms(1) have r: "m_retained_input (as_metrics s) = None" by (simp add: app_ok_def)
    have "settles ?u t {#}" unfolding t_def using True by (simp, intro settles_break) (simp add: r)
    then show ?thesis
      using r by (simp add: settles_def custody_kept_def custody_out_def retained_events_def)
  next
    case False
    then show ?thesis using keep_unsent_custody [OF assms(1) False, of t] by (simp add: t_def)
  qed
  have s': "s' = record_gate_failure_without_worker (mark_uncertain sent t)"
    using assms(2,3) by (simp add: retain_failed_drain_def Let_def t_def)
  have m: "settles t (mark_uncertain sent t) {#}" using t settles_mark_uncertain by blast
  then have "app_ok (mark_uncertain sent t)" by (simp add: settles_def)
  from settles_trans [OF m settles_quiet [OF quiet_record_failure this]]
  have "settles t s' {#}" by (simp add: s')
  with t show "app_ok s'" "subseq (custody_kept s') (es @ custody_kept s)"
    "mset (custody_kept s') + custody_out s' = mset es + mset (custody_kept s) + custody_out s"
    using subseq_order.order_trans by (auto simp: settles_def)
qed

section \<open>The world\<close>

record world =
  w_app :: app_state
  w_taken :: "raw_key_event list"
  w_inflight :: "(u64 \<times> raw_key_event list \<times> u64) option"
  w_sent :: "raw_key_event multiset"
  w_deleted :: "raw_key_event multiset"
  w_superseded :: "raw_key_event multiset"
  w_lost :: "raw_key_event multiset"

definition inflight_edges :: "world \<Rightarrow> raw_key_event list" where
  "inflight_edges w = (case w_inflight w of None \<Rightarrow> [] | Some (_, es, _) \<Rightarrow> es)"

definition world_kept :: "world \<Rightarrow> raw_key_event list" where
  "world_kept w = inflight_edges w @ custody_kept (w_app w)"

definition world_gone :: "world \<Rightarrow> raw_key_event multiset" where
  "world_gone w = w_sent w + w_deleted w + w_superseded w + w_lost w"

definition world_out :: "world \<Rightarrow> raw_key_event multiset" where
  "world_out w = custody_out (w_app w) + world_gone w"

text \<open>The drain of a batch ends: \<open>sent\<close> is what \<open>SendInput\<close> returned. A batch that was not
  accepted whole while another gate took over is lost.\<close>

definition batch_accepted :: "raw_key_event list \<Rightarrow> u64 \<Rightarrow> nat \<Rightarrow> bool" where
  "batch_accepted es fence sent =
     (case build_held_replay_inputs es fence of None \<Rightarrow> False | Some is \<Rightarrow> sent = length is)"

definition settle_drain ::
  "u64 \<Rightarrow> raw_key_event list \<Rightarrow> u64 \<Rightarrow> nat \<Rightarrow> foreground_context option \<Rightarrow> instant \<Rightarrow> world \<Rightarrow> world" where
  "settle_drain token es fence sent cur now w =
     w\<lparr>w_app := end_drain token es fence sent cur now (w_app w), w_inflight := None,
       w_sent := w_sent w + (if batch_accepted es fence sent then mset es else {#}),
       w_lost := w_lost w + (if \<not> batch_accepted es fence sent \<and> cg_token (as_gate (w_app w)) \<noteq> token
                             then mset es else {#})\<rparr>"

inductive gate_step :: "world \<Rightarrow> world \<Rightarrow> bool" where
  swallow: "hold_gated_edge raw t1 t2 cur (w_app w) = (True, s) \<Longrightarrow>
    gate_step w (w\<lparr>w_app := s, w_taken := w_taken w @ [raw]\<rparr>)"
| arm: "\<not> cg_active (as_gate (w_app w)) \<Longrightarrow> \<not> has_retained_input (as_metrics (w_app w)) \<Longrightarrow>
    gate_step w (w\<lparr>w_app := arm_gate token origin now (w_app w)\<rparr>)"
| break_gate: "gate_step w (w\<lparr>w_app := break_correction_gate c cur now (w_app w)\<rparr>)"
| drain_refused: "begin_drain token c c' now (w_app w) = (None, s) \<Longrightarrow> gate_step w (w\<lparr>w_app := s\<rparr>)"
| drain: "w_inflight w = None \<Longrightarrow> begin_drain token c c' now (w_app w) = (Some (es, f), s) \<Longrightarrow>
    gate_step w (w\<lparr>w_app := s, w_inflight := Some (token, es, f)\<rparr>)"
| drained: "w_inflight w = Some (token, es, f) \<Longrightarrow>
    gate_step w (settle_drain token es f sent cur now w)"
| acknowledge: "gate_step w (w\<lparr>w_app := snd (acknowledge_correction_gate_drain old new now now' cur posted (w_app w))\<rparr>)"
| fail_open: "gate_step w (w\<lparr>w_app := fail_open_correction_gate token c cur now (w_app w)\<rparr>)"
| expire_gate: "gate_step w (w\<lparr>w_app := expire_correction_gate cur now (w_app w)\<rparr>)"
| reinstall: "gate_step w (w\<lparr>w_app := invalidate_for_hook_reinstall cur now (w_app w)\<rparr>)"
| fault: "gate_step w (w\<lparr>w_app := record_engine_fault cur now (w_app w)\<rparr>)"
| hand_back: "gate_step w (w\<lparr>w_app := hand_back_stalled_retained_input cur released now (w_app w)\<rparr>)"
| return_keys: "take_held_keys_return (w_app w) = (r, s) \<Longrightarrow>
    gate_step w (w\<lparr>w_app := s, w_sent := w_sent w + custody_out (w_app w)\<rparr>)"
| supersede: "gate_step w (w\<lparr>w_app := (w_app w)\<lparr>as_pending_key_releases :=
      cancel_superseded_key_release (as_pending_key_releases (w_app w)) e\<rparr>,
    w_superseded := w_superseded w
      + mset (filter (\<lambda>q. key_of q = key_of e) (as_pending_key_releases (w_app w)))\<rparr>)"
| prepare: "gate_step w (w\<lparr>w_app := (w_app w)\<lparr>as_metrics :=
      snd (prepare_retained_recovery token now (as_metrics (w_app w)))\<rparr>\<rparr>)"
| begin_recovery: "gate_step w (w\<lparr>w_app := (w_app w)\<lparr>as_metrics :=
      snd (begin_retained_recovery token (as_metrics (w_app w)))\<rparr>\<rparr>)"
| finish_recovery: "m' = finish_retained_recovery token sent requested (as_metrics (w_app w)) \<Longrightarrow>
    gate_step w (w\<lparr>w_app := (w_app w)\<lparr>as_metrics := m'\<rparr>,
      w_sent := w_sent w
        + (if m_retained_input m' = None then mset (retained_events (w_app w)) else {#})\<rparr>)"
| discard: "discard_confirmed_retained_input (w_app w) = (b, s) \<Longrightarrow>
    gate_step w (w\<lparr>w_app := s, w_deleted := w_deleted w + (if b then deleted_edges (w_app w) else {#})\<rparr>)"
| expire: "expire_retained_input now (w_app w) = (b, s) \<Longrightarrow>
    gate_step w (w\<lparr>w_app := s, w_deleted := w_deleted w + (if b then deleted_edges (w_app w) else {#})\<rparr>)"
| other: "quiet (w_app w) s \<Longrightarrow> gate_step w (w\<lparr>w_app := s\<rparr>)"

definition world_ok :: "world \<Rightarrow> bool" where
  "world_ok w \<longleftrightarrow>
     app_ok (w_app w)
     \<and> length (custody_kept (w_app w)) \<le> CORRECTION_GATE_CAPACITY * 2 + 1
     \<and> (w_inflight w \<noteq> None \<longrightarrow>
          length (custody_kept (w_app w)) \<le> CORRECTION_GATE_CAPACITY + 1
          \<and> length (inflight_edges w) \<le> CORRECTION_GATE_CAPACITY)"

definition world_start :: "app_state \<Rightarrow> world" where
  "world_start s = \<lparr>w_app = s, w_taken = [], w_inflight = None, w_sent = {#}, w_deleted = {#},
     w_superseded = {#}, w_lost = {#}\<rparr>"

text \<open>What a step does to custody, with the bound it keeps.\<close>

definition step_custody :: "world \<Rightarrow> world \<Rightarrow> bool" where
  "step_custody w w' \<longleftrightarrow>
     world_ok w'
     \<and> (\<exists>xs. w_taken w' = w_taken w @ xs \<and> subseq (world_kept w') (world_kept w @ xs)
         \<and> mset (world_kept w') + world_out w' = mset (world_kept w) + mset xs + world_out w)"

lemma subseq_length: "subseq xs ys \<Longrightarrow> length xs \<le> length ys"
  by (rule list_emb_length)

lemma step_settles:
  assumes "world_ok w" and "settles (w_app w) s gone"
    and "w_app w' = s" "w_taken w' = w_taken w" "w_inflight w' = w_inflight w"
    and "world_gone w' = world_gone w + gone"
  shows "step_custody w w'"
proof -
  have "length (custody_kept s) \<le> length (custody_kept (w_app w))"
    using assms(2) by (auto simp: settles_def dest: subseq_length)
  moreover have i: "inflight_edges w' = inflight_edges w" using assms(5) by (simp add: inflight_edges_def)
  ultimately have "world_ok w'" using assms by (auto simp: world_ok_def settles_def)
  then show ?thesis
    unfolding step_custody_def using assms(2-6) i
    by (intro conjI exI [where x = "[]"])
      (auto simp: settles_def world_kept_def world_out_def list_emb_append_mono ac_simps)
qed

lemma step_settles_plain:
  assumes "world_ok w" "settles (w_app w) s {#}"
  shows "step_custody w (w\<lparr>w_app := s\<rparr>)"
  by (rule step_settles [OF assms]) (simp_all add: world_gone_def)

lemma step_swallow:
  assumes "world_ok w" "hold_gated_edge raw t1 t2 cur (w_app w) = (True, s)"
  shows "step_custody w (w\<lparr>w_app := s, w_taken := w_taken w @ [raw]\<rparr>)"
proof -
  have ok: "app_ok (w_app w)" using assms(1) by (simp add: world_ok_def)
  note h = hold_custody [OF ok assms(2)]
  have "subseq (inflight_edges w @ custody_kept s) (inflight_edges w @ custody_kept (w_app w) @ [raw])"
    by (rule list_emb_append_mono) (simp_all add: h)
  then show ?thesis
    using h assms(1)
    unfolding step_custody_def
    by (intro conjI exI [where x = "[raw]"])
      (auto simp: world_ok_def world_kept_def world_out_def world_gone_def inflight_edges_def ac_simps)
qed

lemma step_drain:
  assumes "world_ok w" "w_inflight w = None" "begin_drain token c c' now (w_app w) = (Some (es, f), s)"
  shows "step_custody w (w\<lparr>w_app := s, w_inflight := Some (token, es, f)\<rparr>)"
proof -
  have ok: "app_ok (w_app w)" using assms(1) by (simp add: world_ok_def)
  note b = begin_drain_some [OF ok assms(3)]
  have "length (custody_kept s) \<le> CORRECTION_GATE_CAPACITY"
    using b(1,5) by (simp add: custody_kept_def app_ok_def)
  then show ?thesis
    using b assms(1,2) unfolding step_custody_def
    by (intro conjI exI [where x = "[]"])
      (auto simp: world_ok_def world_kept_def world_out_def world_gone_def inflight_edges_def)
qed

lemma step_drained:
  assumes "world_ok w" "w_inflight w = Some (token, es, f)"
  shows "step_custody w (settle_drain token es f sent cur now w)"
proof -
  let ?s = "w_app w" and ?s' = "end_drain token es f sent cur now (w_app w)"
  have ok: "app_ok ?s" and len: "length (custody_kept ?s) \<le> CORRECTION_GATE_CAPACITY + 1"
    "length es \<le> CORRECTION_GATE_CAPACITY" and kept: "world_kept w = es @ custody_kept ?s"
    using assms by (auto simp: world_ok_def inflight_edges_def world_kept_def)
  consider "batch_accepted es f sent" "?s' = ?s"
    | "\<not> batch_accepted es f sent" "cg_token (as_gate ?s) \<noteq> token" "?s' = ?s"
    | n where "\<not> batch_accepted es f sent" "cg_token (as_gate ?s) = token"
      "?s' = retain_failed_drain token es n cur now ?s"
    by (cases "cg_token (as_gate ?s) = token"; cases "build_held_replay_inputs es f")
      (auto simp: end_drain_def batch_accepted_def retain_failed_drain_def split: if_splits)
  then show ?thesis
  proof cases
    case 1
    then show ?thesis
      unfolding step_custody_def using ok len kept
      by (intro conjI exI [where x = "[]"])
        (auto simp: settle_drain_def world_ok_def world_kept_def world_out_def world_gone_def
          inflight_edges_def ac_simps)
  next
    case 2
    then show ?thesis
      unfolding step_custody_def using ok len kept
      by (intro conjI exI [where x = "[]"])
        (auto simp: settle_drain_def world_ok_def world_kept_def world_out_def world_gone_def
          inflight_edges_def ac_simps)
  next
    case 3
    note r = retain_failed_custody [OF ok 3(2,3)]
    have "length (custody_kept ?s') \<le> CORRECTION_GATE_CAPACITY * 2 + 1"
      using subseq_length [OF r(2)] len by simp
    then show ?thesis
      unfolding step_custody_def using r kept 3(1,2)
      by (intro conjI exI [where x = "[]"])
        (auto simp: settle_drain_def world_ok_def world_kept_def world_out_def world_gone_def
          inflight_edges_def ac_simps)
  qed
qed


lemma arm_settles:
  assumes "app_ok s" "\<not> cg_active (as_gate s)" "\<not> has_retained_input (as_metrics s)"
  shows "settles s (arm_gate token origin now s) {#}"
  using assms
  by (auto simp: settles_def app_ok_def custody_kept_def custody_out_def retained_events_def
      arm_gate_def activate_def has_retained_input_def)

lemma step_good: "gate_step w w' \<Longrightarrow> world_ok w \<Longrightarrow> step_custody w w'"
proof (induction rule: gate_step.induct)
  case swallow
  then show ?case using step_swallow by blast
next
  case (arm w token origin now)
  then show ?case by (intro step_settles_plain arm_settles) (simp_all add: world_ok_def)
next
  case (break_gate w c cur now)
  then show ?case by (intro step_settles_plain settles_break) (simp_all add: world_ok_def)
next
  case (drain_refused token c c' now w s)
  then show ?case
    by (intro step_settles_plain begin_drain_none [OF _ drain_refused(1)]) (simp_all add: world_ok_def)
next
  case drain
  then show ?case using step_drain by blast
next
  case drained
  then show ?case using step_drained by blast
next
  case acknowledge
  then show ?case by (intro step_settles_plain settles_acknowledge) (simp_all add: world_ok_def)
next
  case fail_open
  then show ?case by (intro step_settles_plain settles_fail_open) (simp_all add: world_ok_def)
next
  case expire_gate
  then show ?case by (intro step_settles_plain settles_expire_gate) (simp_all add: world_ok_def)
next
  case reinstall
  then show ?case by (intro step_settles_plain settles_reinstall) (simp_all add: world_ok_def)
next
  case fault
  then show ?case by (intro step_settles_plain settles_fault) (simp_all add: world_ok_def)
next
  case hand_back
  then show ?case by (intro step_settles_plain settles_hand_back) (simp_all add: world_ok_def)
next
  case (return_keys w r s)
  then show ?case
    by (intro step_settles [OF _ settles_take_return [OF _ return_keys(1)]])
      (simp_all add: world_ok_def world_gone_def ac_simps)
next
  case (supersede w e)
  then show ?case
    by (intro step_settles [OF _ settles_supersede]) (simp_all add: world_ok_def world_gone_def ac_simps)
next
  case prepare
  then show ?case by (intro step_settles_plain settles_prepare) (simp_all add: world_ok_def)
next
  case begin_recovery
  then show ?case by (intro step_settles_plain settles_begin_recovery) (simp_all add: world_ok_def)
next
  case (finish_recovery m' token sent requested w)
  then have ok: "app_ok (w_app w)" by (simp add: world_ok_def)
  show ?case
    by (rule step_settles [OF finish_recovery(2) settles_finish_recovery [OF ok, of token sent requested]])
      (simp_all add: finish_recovery(1) world_gone_def ac_simps)
next
  case (discard w b s)
  then show ?case
    by (intro step_settles [OF _ settles_discard [OF _ discard(1)]])
      (simp_all add: world_ok_def world_gone_def ac_simps)
next
  case (expire now w b s)
  then show ?case
    by (intro step_settles [OF _ settles_expire [OF _ expire(1)]])
      (simp_all add: world_ok_def world_gone_def ac_simps)
next
  case other
  then show ?case by (intro step_settles_plain settles_quiet) (simp_all add: world_ok_def)
qed

interpretation keys: custody world_ok gate_step w_taken world_kept world_out
  using step_good by unfold_locales (simp_all add: step_custody_def)


section \<open>Runs of the agent\<close>

definition agent_runs :: "runtime_configuration \<Rightarrow> instant \<Rightarrow> world \<Rightarrow> bool" where
  "agent_runs c now w \<longleftrightarrow> rtranclp gate_step (world_start (agent_start c now)) w"

lemma agent_start_app:
  "app_ok (agent_start c now)" "custody_kept (agent_start c now) = []" "custody_out (agent_start c now) = {#}"
  by (simp_all add: app_ok_def custody_kept_def custody_out_def retained_events_def agent_start_def
      Let_def correction_gate_default_def store_hotkey_configuration_def observer_metrics_default_def
      CORRECTION_GATE_CAPACITY_def)

lemma agent_start_world:
  "world_ok (world_start (agent_start c now))" "world_kept (world_start (agent_start c now)) = []"
  "world_out (world_start (agent_start c now)) = {#}" "w_taken (world_start (agent_start c now)) = []"
  by (simp_all add: world_ok_def world_start_def world_kept_def world_out_def world_gone_def
      inflight_edges_def agent_start_app CORRECTION_GATE_CAPACITY_def)

lemma agent_runs_good: "agent_runs c now w \<Longrightarrow> world_ok w"
  unfolding agent_runs_def using keys.run_good agent_start_world(1) by blast

lemma agent_runs_conserved: "agent_runs c now w \<Longrightarrow> mset (w_taken w) = mset (world_kept w) + world_out w"
  using keys.run_conserved [of "world_start (agent_start c now)" w]
  by (simp add: agent_runs_def agent_start_world)

text \<open>A small run, for the witnesses: a gate is armed, swallows one key-down, and breaks.\<close>

definition sample_target :: foreground_context where
  "sample_target = \<lparr>fc_hwnd = 16, fc_focus = 17, fc_input_thread = 3, fc_process = 4, fc_layout = 1033\<rparr>"

definition sample_edge :: "u32 \<Rightarrow> u32 \<Rightarrow> u32 \<Rightarrow> raw_key_event" where
  "sample_edge message vk scan =
     \<lparr>ke_message = message, ke_virtual_key = vk, ke_scan_code = scan, ke_caps_lock = False,
      ke_extended = False, ke_foreground = sample_target, ke_sequence = 0, ke_drain_token = 0,
      ke_hotkey_trigger = False, ke_repeat = False, ke_held_modifiers = 0\<rparr>"

definition sample_down :: raw_key_event where
  "sample_down = sample_edge WM_KEYDOWN 0x41 0x1e"

lemma sample_down_replayable: "replayable sample_down" "is_down sample_down" "\<not> ke_repeat sample_down"
  by (simp_all add: sample_down_def sample_edge_def replayable_def is_down_message_def is_up_message_def
      consts_def)

lemma one_key_run:
  assumes "\<not> cg_active (as_gate s)" "m_retained_input (as_metrics s) = None"
  shows "\<exists>w. rtranclp gate_step (world_start s) w \<and> w_taken w = [sample_down]
     \<and> m_retained_input (as_metrics (w_app w)) \<noteq> None"
proof -
  define s1 where "s1 = arm_gate 1 (Some sample_target) 0 s"
  define s2 where "s2 = s1\<lparr>as_gate := (as_gate s1)\<lparr>cg_held := [sample_down]\<rparr>\<rparr>"
  define s3 where "s3 = break_correction_gate CauseCapacity None 1 s2"
  have g: "cg_active (as_gate s1)" "cg_held (as_gate s1) = []" "cg_deadline (as_gate s1) = 1200000000"
    by (simp_all add: s1_def arm_gate_def activate_def from_millis_def consts_def)
  have g2: "cg_active (as_gate s2)" "cg_held (as_gate s2) = [sample_down]" by (simp_all add: s2_def g)
  define w1 where "w1 = (world_start s)\<lparr>w_app := s1\<rparr>"
  define w2 where "w2 = w1\<lparr>w_app := s2, w_taken := w_taken w1 @ [sample_down]\<rparr>"
  define w3 where "w3 = w2\<lparr>w_app := s3\<rparr>"
  have w: "w_app (world_start s) = s" "w_app w1 = s1" "w_app w2 = s2" "w_app w3 = s3" "w_taken w3 = [sample_down]"
    by (simp_all add: w1_def w2_def w3_def world_start_def)
  have 1: "gate_step (world_start s) w1"
    using arm [of "world_start s" 1 "Some sample_target" 0] assms
    by (simp add: w w1_def s1_def has_retained_input_def)
  have "hold_gated_edge sample_down 1 1 None s1 = (True, s2)"
    using g by (simp add: hold_gated_edge_def hold_def CORRECTION_GATE_CAPACITY_def s2_def)
  then have 2: "gate_step w1 w2" unfolding w2_def by (intro swallow) (simp add: w)
  have 3: "gate_step w2 w3" unfolding w3_def s3_def using break_gate [of w2 CauseCapacity None 1] by (simp add: w)
  have "rtranclp gate_step (world_start s) w3"
    by (intro rtranclp.rtrancl_into_rtrancl [where r = gate_step, OF _ 3]
        rtranclp.rtrancl_into_rtrancl [where r = gate_step, OF _ 2] r_into_rtranclp [where r = gate_step] 1)
  moreover have "kept_of CauseCapacity None (as_gate s2) = [sample_down]"
    by (simp add: kept_of_def gate_replays_unchanged_def split_delivered_key_releases_def
        sample_down_replayable g2)
  then have "m_retained_input (as_metrics s3) \<noteq> None"
    by (simp add: s3_def break_fields(4) [OF g2(1)])
  ultimately show ?thesis using w by (intro exI [of _ w3]) simp
qed

lemma sample_run:
  "\<exists>w. agent_runs sample_configuration 0 w \<and> w_taken w = [sample_down]
     \<and> m_retained_input (as_metrics (w_app w)) \<noteq> None"
  unfolding agent_runs_def
  by (rule one_key_run)
    (simp_all add: agent_start_def Let_def correction_gate_default_def store_hotkey_configuration_def
      observer_metrics_default_def)



text \<open>C3. The keys that are still to be typed keep the order they were pressed in: the batch in
  flight, then the held keys, then the retained ones form a subsequence of what was swallowed.\<close>

theorem swallowed_keys_in_order:
  assumes "agent_runs c now w"
  shows "subseq (inflight_edges w @ cg_held (as_gate (w_app w)) @ retained_events (w_app w)) (w_taken w)"
  using keys.run_ordered [OF assms [unfolded agent_runs_def] agent_start_world(1)]
    agent_start_world(2) [of c now]
  by (simp add: world_kept_def custody_kept_def)

lemma swallowed_keys_in_order_witness:
  "\<exists>w. agent_runs sample_configuration 0 w \<and> w_taken w \<noteq> []
    \<and> subseq (inflight_edges w @ cg_held (as_gate (w_app w)) @ retained_events (w_app w)) (w_taken w)"
  using sample_run swallowed_keys_in_order by (metis list.distinct(1))



text \<open>C30. Retained keys can always be recovered, and recovering them leaves no key pressed: when
  the swallowed edges were key edges with 16-bit codes, the inputs of a retained record can be
  built whatever happened before, and they leave no key down that was not down already.\<close>

theorem retained_keys_recoverable:
  assumes "agent_runs c now w" "\<forall>e \<in> set (w_taken w). replayable e"
    and "m_retained_input (as_metrics (w_app w)) = Some r"
  shows "\<exists>is. build_recovery_inputs (ri_events r) = Some is \<and> inputs_down S is \<subseteq> S"
proof -
  have ok: "world_ok w" by (rule agent_runs_good [OF assms(1)])
  have len: "length (ri_events r) \<le> CORRECTION_GATE_CAPACITY * 2 + 1" and ne: "ri_events r \<noteq> []"
    using ok assms(3) by (auto simp: world_ok_def app_ok_def custody_kept_def retained_events_def)
  have "mset (ri_events r) \<subseteq># mset (w_taken w)"
    unfolding agent_runs_conserved [OF assms(1)]
    using assms(3) by (simp add: world_kept_def custody_kept_def retained_events_def)
  then have "set (ri_events r) \<subseteq> set (w_taken w)" by (metis set_mset_mono set_mset_mset)
  then have "build_balanced_replay_inputs (ri_events r) \<noteq> None"
    using assms(2) by (intro build_balanced_total) blast
  then obtain "is" where "build_balanced_replay_inputs (ri_events r) = Some is" by blast
  then show ?thesis using ne len balanced_releases by (auto simp: build_recovery_inputs_def)
qed

lemma retained_keys_recoverable_witness:
  "\<exists>w r is. agent_runs sample_configuration 0 w \<and> m_retained_input (as_metrics (w_app w)) = Some r
    \<and> build_recovery_inputs (ri_events r) = Some is \<and> inputs_down {} is = {}"
proof -
  obtain w r where w: "agent_runs sample_configuration 0 w" "w_taken w = [sample_down]"
    and r: "m_retained_input (as_metrics (w_app w)) = Some r"
    using sample_run by blast
  have "\<forall>e \<in> set (w_taken w). replayable e" by (simp add: w(2) sample_down_replayable)
  from retained_keys_recoverable [OF w(1) this r, of "{}"]
  have "\<exists>is. build_recovery_inputs (ri_events r) = Some is \<and> inputs_down {} is = {}" by simp
  with w(1) r show ?thesis by blast
qed

end
