(* ===== verification/Hotkey_Gesture.thy ===== *)
theory Hotkey_Gesture
  imports Agent_State
begin

text \<open>
  \<open>src/windows_agent.rs\<close>: the modifier state of a key event, the small state machine that
  recognises the conversion hotkey (\<open>contextual_hotkey_action\<close>) and the decision to open a gate
  for a Space. The asynchronous key state of Windows is an argument.
\<close>

section \<open>Modifiers\<close>

type_synonym key_state = "u16 \<Rightarrow> bool"

definition PHYSICAL_MODIFIER_KEYS :: "u16 list" where
  "PHYSICAL_MODIFIER_KEYS =
     [VK_LSHIFT, VK_RSHIFT, VK_LCONTROL, VK_RCONTROL, VK_LMENU, VK_RMENU, VK_LWIN, VK_RWIN]"

definition physical_modifiers_released :: "key_state \<Rightarrow> bool" where
  "physical_modifiers_released held =
     list_all (\<lambda>k. \<not> held k) [VK_SHIFT, VK_CONTROL, VK_MENU, VK_LWIN, VK_RWIN]"

definition shortcut_modifiers_released_by :: "key_state \<Rightarrow> bool" where
  "shortcut_modifiers_released_by held =
     list_all (\<lambda>k. \<not> held k) [VK_CONTROL, VK_MENU, VK_LWIN, VK_RWIN]"

definition held_modifiers_for_event :: "key_state \<Rightarrow> u16 \<Rightarrow> bool \<Rightarrow> bool \<Rightarrow> u8" where
  "held_modifiers_for_event down vk key_down key_up =
     foldl (\<lambda>held (b, key).
         if (if key = vk then key_down \<and> \<not> key_up else down key)
         then held OR push_bit b 1 else held)
       0 (enumerate 0 PHYSICAL_MODIFIER_KEYS)"

definition other_modifier_key :: "u16 \<Rightarrow> u16 option" where
  "other_modifier_key vk =
     (if vk = VK_LCONTROL then Some VK_RCONTROL
      else if vk = VK_RCONTROL then Some VK_LCONTROL
      else if vk = VK_LMENU then Some VK_RMENU
      else if vk = VK_RMENU then Some VK_LMENU
      else if vk = VK_LSHIFT then Some VK_RSHIFT
      else if vk = VK_RSHIFT then Some VK_LSHIFT
      else if vk = VK_LWIN then Some VK_RWIN
      else if vk = VK_RWIN then Some VK_LWIN
      else None)"

definition pressed_hotkey_modifiers_for_event :: "key_state \<Rightarrow> u16 \<Rightarrow> bool \<Rightarrow> bool \<Rightarrow> u8" where
  "pressed_hotkey_modifiers_for_event down vk key_down key_up =
     (let modifiers =
            foldl (\<lambda>m (key, b). if down key then m OR b else m) 0
              [(VK_CONTROL, HOTKEY_MOD_CONTROL), (VK_MENU, HOTKEY_MOD_ALT), (VK_SHIFT, HOTKEY_MOD_SHIFT)];
          modifiers = (if list_ex down [VK_LWIN, VK_RWIN] then modifiers OR HOTKEY_MOD_WIN else modifiers)
      in case hotkey_modifier_bit vk of
           None \<Rightarrow> modifiers
         | Some b \<Rightarrow>
             if key_down then modifiers OR b
             else if key_up then
               (if (case other_modifier_key vk of Some key \<Rightarrow> down key | None \<Rightarrow> False)
                then modifiers else modifiers AND NOT b)
             else modifiers)"

section \<open>The hotkey\<close>

datatype undo_hotkey_action = PassThrough | Swallow | TriggerSwallow | TriggerPassThrough

definition swallows :: "undo_hotkey_action \<Rightarrow> bool" where
  "swallows a \<longleftrightarrow> a = Swallow \<or> a = TriggerSwallow"

definition triggers :: "undo_hotkey_action \<Rightarrow> bool" where
  "triggers a \<longleftrightarrow> a = TriggerSwallow \<or> a = TriggerPassThrough"

text \<open>The last part: a chord waits for its modifiers to be released.\<close>

definition hotkey_release_action ::
  "observer_metrics \<Rightarrow> bool \<Rightarrow> u16 \<Rightarrow> u8 \<Rightarrow> undo_hotkey_action \<times> observer_metrics" where
  "hotkey_release_action m key_down vk modifiers =
     (if m_hotkey_waiting_for_release m then
        (if key_down \<and> hotkey_modifier_bit vk = None
         then (PassThrough, m\<lparr>m_hotkey_waiting_for_release := False\<rparr>)
         else if \<not> key_down \<and> modifiers = 0 \<and> hotkey_modifier_bit vk \<noteq> None
         then (TriggerPassThrough, m\<lparr>m_hotkey_waiting_for_release := False\<rparr>)
         else (PassThrough, m))
      else (PassThrough, m))"

definition contextual_hotkey_action ::
  "observer_metrics \<Rightarrow> u32 \<Rightarrow> u16 \<Rightarrow> u8 \<Rightarrow> undo_hotkey_action \<times> observer_metrics" where
  "contextual_hotkey_action m message vk modifiers =
     (let key_down = is_down_message message;
          key_up = is_up_message message;
          configured_key = ucast (m_force_hotkey_virtual_key m) :: u16;
          configured_modifiers = m_force_hotkey_modifiers m
      in
      if m_configuration_pending m then
        (if matches_key \<lparr>hk_key = configured_key, hk_mods = 0\<rparr> vk \<and> m_undo_hotkey_active m
         then (Swallow, if key_up then m\<lparr>m_undo_hotkey_active := False,
                                         m_hotkey_waiting_for_release := False\<rparr> else m)
         else (PassThrough, m))
      else if \<not> m_pause_break_undo m \<and> \<not> m_recovery_armed m \<and> \<not> m_undo_hotkey_active m
      then (PassThrough, m\<lparr>m_undo_hotkey_active := False, m_hotkey_waiting_for_release := False\<rparr>)
      else if \<not> key_down \<and> \<not> key_up then (PassThrough, m)
      else if matches_key \<lparr>hk_key = configured_key, hk_mods = configured_modifiers\<rparr> vk then
        (if key_down then
           let already_down = m_undo_hotkey_active m;
               m = m\<lparr>m_undo_hotkey_active := True\<rparr>;
               fresh_pause_pulse = configured_key = 0x13 \<and> \<not> m_hotkey_waiting_for_release m
           in if already_down \<and> \<not> fresh_pause_pulse then (Swallow, m)
              else if modifiers \<noteq> configured_modifiers
              then (PassThrough, m\<lparr>m_undo_hotkey_active := False\<rparr>)
              else if configured_modifiers = 0 then (TriggerSwallow, m)
              else (Swallow, m\<lparr>m_hotkey_waiting_for_release := True\<rparr>)
         else if m_undo_hotkey_active m then
           let m = m\<lparr>m_undo_hotkey_active := False\<rparr>
           in if modifiers = 0 \<and> m_hotkey_waiting_for_release m
              then (TriggerSwallow, m\<lparr>m_hotkey_waiting_for_release := False\<rparr>)
              else (Swallow, m)
         else hotkey_release_action m key_down vk modifiers)
      else hotkey_release_action m key_down vk modifiers)"

section \<open>Arming a gate for a Space\<close>

definition PRIVACY_ALLOWED :: u8 where [consts_def]: "PRIVACY_ALLOWED = 0"
definition PRIVACY_UNAVAILABLE :: u8 where [consts_def]: "PRIVACY_UNAVAILABLE = 3"

definition should_arm_space_decision_gate ::
  "bool \<Rightarrow> bool \<Rightarrow> u16 \<Rightarrow> bool \<Rightarrow> u8 \<Rightarrow> bool \<Rightarrow> bool \<Rightarrow> bool" where
  "should_arm_space_decision_gate drained key_down vk auto_enabled privacy gate_active released \<longleftrightarrow>
     \<not> drained \<and> key_down \<and> vk = VK_SPACE \<and> auto_enabled \<and> privacy = PRIVACY_ALLOWED
     \<and> \<not> gate_active \<and> released"

definition hook_privacy_reason :: "observer_metrics \<Rightarrow> u32 \<Rightarrow> u8" where
  "hook_privacy_reason m pid =
     (if m_privacy_process_id m \<noteq> pid then PRIVACY_UNAVAILABLE else m_privacy_reason m)"


section \<open>Gestures\<close>

text \<open>One key edge as the machine sees it, with the flags other parts of the program may have
  changed since the last one.\<close>

record hotkey_input =
  hi_pending :: bool
  hi_enabled :: bool
  hi_armed :: bool
  hi_message :: u32
  hi_vk :: u16
  hi_mods :: u8

definition hotkey_step ::
  "hotkey_input \<Rightarrow> observer_metrics \<Rightarrow> undo_hotkey_action \<times> observer_metrics" where
  "hotkey_step i m =
     contextual_hotkey_action
       (m\<lparr>m_configuration_pending := hi_pending i, m_pause_break_undo := hi_enabled i,
          m_recovery_armed := hi_armed i\<rparr>)
       (hi_message i) (hi_vk i) (hi_mods i)"

fun hotkey_run ::
  "hotkey_input list \<Rightarrow> observer_metrics \<Rightarrow> undo_hotkey_action list \<times> observer_metrics" where
  "hotkey_run [] m = ([], m)"
| "hotkey_run (i # is) m =
     (let (a, m) = hotkey_step i m; (as, m) = hotkey_run is m in (a # as, m))"

definition configured_hotkey :: "observer_metrics \<Rightarrow> hotkey" where
  "configured_hotkey m =
     \<lparr>hk_key = ucast (m_force_hotkey_virtual_key m), hk_mods = m_force_hotkey_modifiers m\<rparr>"

text \<open>A hotkey that has one key code: all but Pause with Ctrl, which arrives as Cancel.\<close>

definition single_code :: "hotkey \<Rightarrow> bool" where
  "single_code h \<longleftrightarrow> hk_key h \<noteq> VK_PAUSE \<or> hk_mods h AND HOTKEY_MOD_CONTROL = 0"

lemma single_code_matches:
  "single_code h \<Longrightarrow> matches_key h vk \<longleftrightarrow> vk = hk_key h"
  "matches_key (h\<lparr>hk_mods := 0\<rparr>) vk \<longleftrightarrow> vk = hk_key h"
  by (auto simp: single_code_def matches_key_def)

lemma release_action_state:
  assumes "hotkey_release_action m d vk mods = (a, m')"
  shows "m_undo_hotkey_active m' = m_undo_hotkey_active m"
    "m_hotkey_waiting_for_release m' \<Longrightarrow> m_hotkey_waiting_for_release m"
    "\<not> swallows a" "configured_hotkey m' = configured_hotkey m"
    "triggers a \<Longrightarrow> mods = 0 \<and> m_hotkey_waiting_for_release m \<and> \<not> m_hotkey_waiting_for_release m'"
  using assms
  by (auto simp: hotkey_release_action_def swallows_def triggers_def configured_hotkey_def split: if_splits)

lemma hotkey_action_configured:
  "contextual_hotkey_action m message vk mods = (a, m') \<Longrightarrow> configured_hotkey m' = configured_hotkey m"
  by (auto simp: contextual_hotkey_action_def Let_def configured_hotkey_def
      dest: release_action_state(4) split: if_splits)

lemma hotkey_step_configured: "hotkey_step i m = (a, m') \<Longrightarrow> configured_hotkey m' = configured_hotkey m"
  unfolding hotkey_step_def by (drule hotkey_action_configured) (simp add: configured_hotkey_def)

text \<open>The effect of one edge of the hotkey's own key, and of any other key.\<close>

lemma hotkey_action_active:
  assumes "contextual_hotkey_action m message vk mods = (a, m')" "single_code (configured_hotkey m)"
    and "is_down_message message \<or> is_up_message message"
  shows "vk \<noteq> hk_key (configured_hotkey m) \<Longrightarrow>
      m_undo_hotkey_active m' = m_undo_hotkey_active m \<and> \<not> swallows a"
    and "vk = hk_key (configured_hotkey m) \<Longrightarrow> is_down_message message \<Longrightarrow>
      m_undo_hotkey_active m' \<longleftrightarrow> swallows a"
    and "vk = hk_key (configured_hotkey m) \<Longrightarrow> is_up_message message \<Longrightarrow>
      \<not> m_undo_hotkey_active m' \<and> (swallows a \<longleftrightarrow> m_undo_hotkey_active m)"
  using assms single_code_matches(1) [OF assms(2), of vk] down_not_up [of message]
  by (auto simp: contextual_hotkey_action_def Let_def configured_hotkey_def swallows_def matches_key_def
      dest: release_action_state(1,3) split: if_splits)


definition key_edge :: "hotkey_input \<Rightarrow> bool" where
  "key_edge i \<longleftrightarrow> is_down_message (hi_message i) \<or> is_up_message (hi_message i)"

lemma hotkey_step_active:
  assumes "hotkey_step i m = (a, m')" "single_code (configured_hotkey m)" "key_edge i"
  shows "m_undo_hotkey_active m' \<longleftrightarrow>
      (if hi_vk i = hk_key (configured_hotkey m) then is_down_message (hi_message i) \<and> swallows a
       else m_undo_hotkey_active m)"
    and "swallows a \<Longrightarrow> hi_vk i = hk_key (configured_hotkey m)"
    and "hi_vk i = hk_key (configured_hotkey m) \<Longrightarrow> is_up_message (hi_message i) \<Longrightarrow>
      swallows a \<longleftrightarrow> m_undo_hotkey_active m"
  using hotkey_action_active [OF assms(1) [unfolded hotkey_step_def]] assms(2,3)
    down_not_up [of "hi_message i"]
  by (auto simp: key_edge_def configured_hotkey_def)

lemma hotkey_run_append:
  "hotkey_run (xs @ ys) m =
   (let (as, m1) = hotkey_run xs m; (bs, m2) = hotkey_run ys m1 in (as @ bs, m2))"
  by (induction xs arbitrary: m) (simp_all add: Let_def case_prod_unfold)

lemma hotkey_run_length: "length (fst (hotkey_run xs m)) = length xs"
  by (induction xs arbitrary: m) (simp_all add: case_prod_unfold Let_def)

text \<open>Whether the hotkey's key went down last without the application seeing it.\<close>

definition down_swallowed :: "u16 \<Rightarrow> (hotkey_input \<times> undo_hotkey_action) list \<Rightarrow> bool" where
  "down_swallowed key trace =
     (case find (\<lambda>(i, a). hi_vk i = key) (rev trace) of
        Some (i, a) \<Rightarrow> is_down_message (hi_message i) \<and> swallows a
      | None \<Rightarrow> False)"

lemma hotkey_run_active:
  assumes "hotkey_run xs m = (as, m')" "single_code (configured_hotkey m)" "list_all key_edge xs"
    and "\<not> m_undo_hotkey_active m"
  shows "m_undo_hotkey_active m' \<longleftrightarrow> down_swallowed (hk_key (configured_hotkey m)) (zip xs as)"
    and "configured_hotkey m' = configured_hotkey m"
  using assms
proof (induction xs arbitrary: as m' rule: rev_induct)
  case Nil
  { case 1 then show ?case by (simp add: down_swallowed_def) }
  { case 2 then show ?case by simp }
next
  case (snoc i xs)
  have *: "(m_undo_hotkey_active m' \<longleftrightarrow> down_swallowed (hk_key (configured_hotkey m)) (zip (xs @ [i]) as))
      \<and> configured_hotkey m' = configured_hotkey m"
    if r: "hotkey_run (xs @ [i]) m = (as, m')" and k: "list_all key_edge (xs @ [i])" for as m'
  proof -
    obtain bs m1 where b: "hotkey_run xs m = (bs, m1)" by fastforce
    obtain a m2 where a: "hotkey_step i m1 = (a, m2)" by fastforce
    have e: "as = bs @ [a]" "m' = m2" using r a b by (simp_all add: hotkey_run_append)
    have len: "length bs = length xs" using hotkey_run_length [of xs m] b by simp
    have k': "list_all key_edge xs" "key_edge i" using k by simp_all
    note IH = snoc.IH [OF b assms(2) k'(1) assms(4)]
    note st = hotkey_step_active(1) [OF a _ k'(2)] hotkey_step_configured [OF a]
    show ?thesis
      using IH st assms(2) len by (simp add: e down_swallowed_def)
  qed
  { case 1 then show ?case using * by blast }
  { case 2 then show ?case using * by blast }
qed


definition sample_press :: "u32 \<Rightarrow> bool \<Rightarrow> hotkey_input" where
  "sample_press message pending =
     \<lparr>hi_pending = pending, hi_enabled = True, hi_armed = False, hi_message = message,
      hi_vk = VK_PAUSE, hi_mods = 0\<rparr>"

lemma sample_configured: "configured_hotkey observer_metrics_default = hotkey_default"
  by (simp add: configured_hotkey_def observer_metrics_default_def hotkey_default_def consts_def)

lemma sample_idle: "\<not> m_undo_hotkey_active observer_metrics_default"
  by (simp add: observer_metrics_default_def)

lemma sample_press_run:
  "fst (hotkey_run [sample_press WM_KEYDOWN False, sample_press WM_KEYUP True] observer_metrics_default)
   = [TriggerSwallow, Swallow]"
  by (simp add: hotkey_step_def contextual_hotkey_action_def sample_press_def Let_def matches_key_def
      observer_metrics_default_def hotkey_default_def is_down_message_def is_up_message_def consts_def)


section \<open>When the hotkey acts\<close>

lemma hotkey_action_trigger:
  assumes "contextual_hotkey_action m message vk mods = (a, m')"
  shows "triggers a \<Longrightarrow> mods = 0 \<and> \<not> m_configuration_pending m"
    and "(if triggers a then 1 else 0) + (if m_hotkey_waiting_for_release m' then 1 else 0)
      \<le> (if m_hotkey_waiting_for_release m then 1 else (0::nat))
        + (if is_down_message message \<and> matches_key (configured_hotkey m) vk
              \<and> mods = m_force_hotkey_modifiers m then 1 else 0)"
  using assms
  by (auto simp: contextual_hotkey_action_def Let_def triggers_def configured_hotkey_def
      dest: release_action_state(2,5) split: if_splits)

definition hotkey_press :: "hotkey \<Rightarrow> hotkey_input \<Rightarrow> bool" where
  "hotkey_press h i \<longleftrightarrow>
     is_down_message (hi_message i) \<and> matches_key h (hi_vk i) \<and> hi_mods i = hk_mods h"

lemma hotkey_step_trigger:
  assumes "hotkey_step i m = (a, m')"
  shows "triggers a \<Longrightarrow> hi_mods i = 0 \<and> \<not> hi_pending i"
    and "(if triggers a then 1 else 0) + (if m_hotkey_waiting_for_release m' then 1 else 0)
      \<le> (if m_hotkey_waiting_for_release m then 1 else (0::nat))
        + (if hotkey_press (configured_hotkey m) i then 1 else 0)"
  using hotkey_action_trigger [OF assms [unfolded hotkey_step_def]]
  by (simp_all add: hotkey_press_def configured_hotkey_def)



text \<open>Pause with Ctrl arrives as Cancel, which the machine does not recognise while a
  configuration is pending: the key-up of a swallowed press then reaches the application, and
  the machine still believes that the key is down.\<close>

definition ctrl_break_edge :: "u32 \<Rightarrow> bool \<Rightarrow> hotkey_input" where
  "ctrl_break_edge message pending =
     \<lparr>hi_pending = pending, hi_enabled = True, hi_armed = False, hi_message = message,
      hi_vk = VK_CANCEL, hi_mods = HOTKEY_MOD_CONTROL\<rparr>"

lemma pending_misses_ctrl_break:
  defines "m \<equiv> observer_metrics_default\<lparr>m_force_hotkey_modifiers := HOTKEY_MOD_CONTROL\<rparr>"
  shows "fst (hotkey_run [ctrl_break_edge WM_KEYDOWN False, ctrl_break_edge WM_KEYUP True] m)
      = [Swallow, PassThrough]"
    and "m_undo_hotkey_active
      (snd (hotkey_run [ctrl_break_edge WM_KEYDOWN False, ctrl_break_edge WM_KEYUP True] m))"
  by (simp_all add: m_def hotkey_step_def contextual_hotkey_action_def ctrl_break_edge_def Let_def
      matches_key_def observer_metrics_default_def hotkey_default_def is_down_message_def
      is_up_message_def consts_def)

end
