(* ===== verification/Modifiers.thy ===== *)
theory Modifiers
  imports Hotkey_Gesture
begin

text \<open>
  \<open>src/windows_agent.rs\<close>: the modifiers the input worker tracks from the queued edges, and the
  byte the keyboard hook sends with each edge. Each mask has one bit for the left key, one for the
  right key and one for the generic code.
\<close>

record modifiers =
  shift_mask :: u8
  control_mask :: u8
  alt_mask :: u8
  win_mask :: u8

definition modifiers_default :: modifiers where
  "modifiers_default = \<lparr>shift_mask = 0, control_mask = 0, alt_mask = 0, win_mask = 0\<rparr>"

definition from_held :: "u8 \<Rightarrow> modifiers" where
  "from_held held =
     \<lparr>shift_mask = held AND 3, control_mask = drop_bit 2 held AND 3,
      alt_mask = drop_bit 4 held AND 3, win_mask = drop_bit 6 held AND 3\<rparr>"

definition forget_released :: "u8 \<Rightarrow> modifiers \<Rightarrow> modifiers" where
  "forget_released held m =
     (let held = from_held held in
      \<lparr>shift_mask = (if shift_mask held = 0 then 0 else shift_mask m),
       control_mask = (if control_mask held = 0 then 0 else control_mask m),
       alt_mask = (if alt_mask held = 0 then 0 else alt_mask m),
       win_mask = (if win_mask held = 0 then 0 else win_mask m)\<rparr>)"

definition set_modifier_bit :: "u8 \<Rightarrow> u8 \<Rightarrow> bool \<Rightarrow> u8" where
  "set_modifier_bit bits b pressed = (if pressed then bits OR b else bits AND NOT b)"

definition update_modifier_mask :: "u8 \<Rightarrow> u16 \<Rightarrow> u16 \<Rightarrow> u16 \<Rightarrow> u16 \<Rightarrow> bool \<Rightarrow> u8" where
  "update_modifier_mask bits key generic left right pressed =
     (if key = left then set_modifier_bit bits 1 pressed
      else if key = right then set_modifier_bit bits 2 pressed
      else if key = generic then set_modifier_bit bits 4 pressed
      else bits)"

definition modifiers_update :: "u32 \<Rightarrow> bool \<Rightarrow> bool \<Rightarrow> modifiers \<Rightarrow> bool \<times> modifiers" where
  "modifiers_update virtual_key key_down key_up m =
     (let pressed = key_down \<and> \<not> key_up; key = ucast virtual_key :: u16 in
      if key = VK_SHIFT \<or> key = VK_LSHIFT \<or> key = VK_RSHIFT then
        (True, m\<lparr>shift_mask := update_modifier_mask (shift_mask m) key VK_SHIFT VK_LSHIFT VK_RSHIFT pressed\<rparr>)
      else if key = VK_CONTROL \<or> key = VK_LCONTROL \<or> key = VK_RCONTROL then
        (True, m\<lparr>control_mask :=
           update_modifier_mask (control_mask m) key VK_CONTROL VK_LCONTROL VK_RCONTROL pressed\<rparr>)
      else if key = VK_MENU \<or> key = VK_LMENU \<or> key = VK_RMENU then
        (True, m\<lparr>alt_mask := update_modifier_mask (alt_mask m) key VK_MENU VK_LMENU VK_RMENU pressed\<rparr>)
      else if key = VK_LWIN \<or> key = VK_RWIN then
        (True, m\<lparr>win_mask := set_modifier_bit (win_mask m) (if key = VK_LWIN then 1 else 2) pressed\<rparr>)
      else (False, m))"

definition mod_shift :: "modifiers \<Rightarrow> bool" where "mod_shift m \<longleftrightarrow> shift_mask m \<noteq> 0"
definition mod_control :: "modifiers \<Rightarrow> bool" where "mod_control m \<longleftrightarrow> control_mask m \<noteq> 0"
definition mod_alt :: "modifiers \<Rightarrow> bool" where "mod_alt m \<longleftrightarrow> alt_mask m \<noteq> 0"

definition has_shortcut_modifier :: "modifiers \<Rightarrow> bool" where
  "has_shortcut_modifier m \<longleftrightarrow> mod_control m \<or> mod_alt m \<or> win_mask m \<noteq> 0"

definition switches_keyboard_layout :: "u32 \<Rightarrow> modifiers \<Rightarrow> bool" where
  "switches_keyboard_layout virtual_key m \<longleftrightarrow>
     virtual_key = ucast VK_SPACE \<and> win_mask m \<noteq> 0 \<and> \<not> mod_control m \<and> \<not> mod_alt m"

definition shortcut_kind :: "u32 \<Rightarrow> modifiers \<Rightarrow> string" where
  "shortcut_kind virtual_key m =
     (let control_only = mod_control m \<and> \<not> mod_alt m;
          key = (case u16_try_from virtual_key of None \<Rightarrow> 0 | Some k \<Rightarrow> k) in
      if control_only \<and> key = VK_BACK then ''erase-word''
      else if key = 0x56 \<and> control_only then ''paste''
      else if key = 0x43 \<and> control_only then ''copy''
      else if key = 0x58 \<and> control_only then ''cut''
      else if (key = 0x5a \<or> key = 0x59) \<and> control_only then ''undo''
      else if control_only then ''ctrl''
      else if mod_alt m \<and> \<not> mod_control m then ''alt''
      else if mod_control m then ''ctrl-alt''
      else ''win'')"

lemmas modifier_queries =
  mod_shift_def mod_control_def mod_alt_def has_shortcut_modifier_def

section \<open>The masks are the set of pressed keys\<close>

definition mask3 :: "bool \<Rightarrow> bool \<Rightarrow> bool \<Rightarrow> u8" where
  "mask3 left right generic =
     (if left then 1 else 0) OR (if right then 2 else 0) OR (if generic then 4 else 0)"

lemma mask3_nonzero: "mask3 a b c \<noteq> 0 \<longleftrightarrow> a \<or> b \<or> c"
  by (cases a; cases b; cases c) (simp_all add: mask3_def)

lemma mask3_set:
  "set_modifier_bit (mask3 a b c) 1 p = mask3 p b c"
  "set_modifier_bit (mask3 a b c) 2 p = mask3 a p c"
  "set_modifier_bit (mask3 a b c) 4 p = mask3 a b p"
  by (cases p; cases a; cases b; cases c; simp add: mask3_def set_modifier_bit_def)+

text \<open>The abstract state: the keys whose last edge was a key-down.\<close>

definition press :: "u16 \<Rightarrow> bool \<Rightarrow> u16 set \<Rightarrow> u16 set" where
  "press key pressed S = (if pressed then insert key S else S - {key})"

lemma in_press: "k \<in> press key p S \<longleftrightarrow> (if k = key then p else k \<in> S)"
  by (simp add: press_def)

definition tracks :: "modifiers \<Rightarrow> u16 set \<Rightarrow> bool" where
  "tracks m S \<longleftrightarrow>
     shift_mask m = mask3 (VK_LSHIFT \<in> S) (VK_RSHIFT \<in> S) (VK_SHIFT \<in> S)
     \<and> control_mask m = mask3 (VK_LCONTROL \<in> S) (VK_RCONTROL \<in> S) (VK_CONTROL \<in> S)
     \<and> alt_mask m = mask3 (VK_LMENU \<in> S) (VK_RMENU \<in> S) (VK_MENU \<in> S)
     \<and> win_mask m = mask3 (VK_LWIN \<in> S) (VK_RWIN \<in> S) False"

definition modifier_keys :: "u16 set" where
  "modifier_keys = {VK_SHIFT, VK_LSHIFT, VK_RSHIFT, VK_CONTROL, VK_LCONTROL, VK_RCONTROL,
     VK_MENU, VK_LMENU, VK_RMENU, VK_LWIN, VK_RWIN}"

lemmas modifier_vk_defs =
  VK_SHIFT_def VK_LSHIFT_def VK_RSHIFT_def VK_CONTROL_def VK_LCONTROL_def VK_RCONTROL_def
  VK_MENU_def VK_LMENU_def VK_RMENU_def VK_LWIN_def VK_RWIN_def

lemma update_mask3:
  assumes "distinct [l, r, g]" "key = l \<or> key = r \<or> key = g"
  shows "update_modifier_mask (mask3 (l \<in> S) (r \<in> S) (g \<in> S)) key g l r p
      = mask3 (l \<in> press key p S) (r \<in> press key p S) (g \<in> press key p S)"
  using assms by (auto simp: update_modifier_mask_def mask3_set in_press)

lemma update_groups:
  "key = VK_SHIFT \<or> key = VK_LSHIFT \<or> key = VK_RSHIFT \<Longrightarrow>
     update_modifier_mask (mask3 (VK_LSHIFT \<in> S) (VK_RSHIFT \<in> S) (VK_SHIFT \<in> S)) key VK_SHIFT VK_LSHIFT VK_RSHIFT p
     = mask3 (VK_LSHIFT \<in> press key p S) (VK_RSHIFT \<in> press key p S) (VK_SHIFT \<in> press key p S)"
  "key = VK_CONTROL \<or> key = VK_LCONTROL \<or> key = VK_RCONTROL \<Longrightarrow>
     update_modifier_mask (mask3 (VK_LCONTROL \<in> S) (VK_RCONTROL \<in> S) (VK_CONTROL \<in> S)) key VK_CONTROL VK_LCONTROL VK_RCONTROL p
     = mask3 (VK_LCONTROL \<in> press key p S) (VK_RCONTROL \<in> press key p S) (VK_CONTROL \<in> press key p S)"
  "key = VK_MENU \<or> key = VK_LMENU \<or> key = VK_RMENU \<Longrightarrow>
     update_modifier_mask (mask3 (VK_LMENU \<in> S) (VK_RMENU \<in> S) (VK_MENU \<in> S)) key VK_MENU VK_LMENU VK_RMENU p
     = mask3 (VK_LMENU \<in> press key p S) (VK_RMENU \<in> press key p S) (VK_MENU \<in> press key p S)"
  by (rule update_mask3; auto simp: modifier_vk_defs)+

lemma tracks_update:
  assumes m: "tracks m S"
  shows "tracks (snd (modifiers_update vk kd ku m)) (press (ucast vk) (kd \<and> \<not> ku) S)
    \<and> fst (modifiers_update vk kd ku m) = (ucast vk \<in> modifier_keys)"
proof -
  define key where "key = (ucast vk :: u16)"
  define p where "p = (kd \<and> \<not> ku)"
  consider (shift) "key = VK_SHIFT \<or> key = VK_LSHIFT \<or> key = VK_RSHIFT"
    | (control) "key = VK_CONTROL \<or> key = VK_LCONTROL \<or> key = VK_RCONTROL"
    | (alt) "key = VK_MENU \<or> key = VK_LMENU \<or> key = VK_RMENU"
    | (win) "key = VK_LWIN \<or> key = VK_RWIN"
    | (other) "key \<notin> modifier_keys"
    by (auto simp: modifier_keys_def)
  then have "tracks (snd (modifiers_update vk kd ku m)) (press key p S)
    \<and> fst (modifiers_update vk kd ku m) = (key \<in> modifier_keys)"
  proof cases
    case shift
    then have "snd (modifiers_update vk kd ku m)
        = m\<lparr>shift_mask := update_modifier_mask (shift_mask m) key VK_SHIFT VK_LSHIFT VK_RSHIFT p\<rparr>"
      by (simp add: modifiers_update_def Let_def key_def p_def)
    moreover have "fst (modifiers_update vk kd ku m)" "key \<in> modifier_keys"
      using shift by (auto simp: modifiers_update_def Let_def key_def [symmetric] modifier_keys_def)
    moreover have "update_modifier_mask (shift_mask m) key VK_SHIFT VK_LSHIFT VK_RSHIFT p
        = mask3 (VK_LSHIFT \<in> press key p S) (VK_RSHIFT \<in> press key p S) (VK_SHIFT \<in> press key p S)"
      using update_groups shift m by (simp add: tracks_def)
    ultimately show ?thesis
      using shift m by (elim disjE; simp add: tracks_def in_press modifier_vk_defs)
  next
    case control
    then have "snd (modifiers_update vk kd ku m)
        = m\<lparr>control_mask := update_modifier_mask (control_mask m) key VK_CONTROL VK_LCONTROL VK_RCONTROL p\<rparr>"
      by (elim disjE; simp add: modifiers_update_def Let_def key_def [symmetric] p_def [symmetric] modifier_vk_defs)
    moreover have "fst (modifiers_update vk kd ku m)" "key \<in> modifier_keys"
      using control by (auto simp: modifiers_update_def Let_def key_def [symmetric] modifier_keys_def)
    moreover have "update_modifier_mask (control_mask m) key VK_CONTROL VK_LCONTROL VK_RCONTROL p
        = mask3 (VK_LCONTROL \<in> press key p S) (VK_RCONTROL \<in> press key p S) (VK_CONTROL \<in> press key p S)"
      using update_groups control m by (simp add: tracks_def)
    ultimately show ?thesis
      using control m by (elim disjE; simp add: tracks_def in_press modifier_vk_defs)
  next
    case alt
    then have "snd (modifiers_update vk kd ku m)
        = m\<lparr>alt_mask := update_modifier_mask (alt_mask m) key VK_MENU VK_LMENU VK_RMENU p\<rparr>"
      by (elim disjE; simp add: modifiers_update_def Let_def key_def [symmetric] p_def [symmetric] modifier_vk_defs)
    moreover have "fst (modifiers_update vk kd ku m)" "key \<in> modifier_keys"
      using alt by (auto simp: modifiers_update_def Let_def key_def [symmetric] modifier_keys_def)
    moreover have "update_modifier_mask (alt_mask m) key VK_MENU VK_LMENU VK_RMENU p
        = mask3 (VK_LMENU \<in> press key p S) (VK_RMENU \<in> press key p S) (VK_MENU \<in> press key p S)"
      using update_groups alt m by (simp add: tracks_def)
    ultimately show ?thesis
      using alt m by (elim disjE; simp add: tracks_def in_press modifier_vk_defs)
  next
    case win
    then have "snd (modifiers_update vk kd ku m)
        = m\<lparr>win_mask := set_modifier_bit (win_mask m) (if key = VK_LWIN then 1 else 2) p\<rparr>"
      by (elim disjE; simp add: modifiers_update_def Let_def key_def [symmetric] p_def [symmetric] modifier_vk_defs)
    moreover have "fst (modifiers_update vk kd ku m)" "key \<in> modifier_keys"
      using win by (auto simp: modifiers_update_def Let_def key_def [symmetric] modifier_keys_def)
    moreover have "set_modifier_bit (win_mask m) (if key = VK_LWIN then 1 else 2) p
        = mask3 (VK_LWIN \<in> press key p S) (VK_RWIN \<in> press key p S) False"
      using win m by (elim disjE; simp add: tracks_def in_press mask3_set modifier_vk_defs)
    ultimately show ?thesis
      using win m by (elim disjE; simp add: tracks_def in_press modifier_vk_defs)
  next
    case other
    then have "modifiers_update vk kd ku m = (False, m)"
      by (auto simp: modifiers_update_def Let_def key_def [symmetric] modifier_keys_def)
    moreover have "k \<in> press key p S \<longleftrightarrow> k \<in> S" if "k \<in> modifier_keys" for k
      using other that by (auto simp: in_press)
    then have "tracks m (press key p S)"
      using m by (simp add: tracks_def modifier_keys_def)
    ultimately show ?thesis
      using other by simp
  qed
  then show ?thesis by (simp add: key_def p_def)
qed

text \<open>A run of edges: virtual key, key-down and key-up as the queued message gives them.\<close>

definition modifiers_run :: "(u32 \<times> bool \<times> bool) list \<Rightarrow> modifiers" where
  "modifiers_run es = foldl (\<lambda>m (vk, kd, ku). snd (modifiers_update vk kd ku m)) modifiers_default es"

definition pressed_keys :: "(u32 \<times> bool \<times> bool) list \<Rightarrow> u16 set" where
  "pressed_keys es = foldl (\<lambda>S (vk, kd, ku). press (ucast vk) (kd \<and> \<not> ku) S) {} es"

lemma tracks_run: "tracks (modifiers_run es) (pressed_keys es)"
proof (induction es rule: rev_induct)
  case Nil
  show ?case
    by (simp add: modifiers_run_def pressed_keys_def tracks_def modifiers_default_def mask3_def)
next
  case (snoc e es)
  obtain vk kd ku where e: "e = (vk, kd, ku)" by (cases e) auto
  show ?case
    using tracks_update [OF snoc.IH, of vk kd ku] by (simp add: modifiers_run_def pressed_keys_def e)
qed

text \<open>The worker's modifiers are the physical keys: after any run of edges, Shift, Ctrl, Alt or
  a shortcut modifier counts as held exactly when one of its keys - left, right or the generic code -
  had a key-down as its last edge. Releasing the left key never releases the right one.\<close>

theorem modifiers_are_pressed_keys:
  "mod_shift (modifiers_run es) = (pressed_keys es \<inter> {VK_SHIFT, VK_LSHIFT, VK_RSHIFT} \<noteq> {})
   \<and> mod_control (modifiers_run es) = (pressed_keys es \<inter> {VK_CONTROL, VK_LCONTROL, VK_RCONTROL} \<noteq> {})
   \<and> mod_alt (modifiers_run es) = (pressed_keys es \<inter> {VK_MENU, VK_LMENU, VK_RMENU} \<noteq> {})
   \<and> has_shortcut_modifier (modifiers_run es)
      = (pressed_keys es \<inter> (modifier_keys - {VK_SHIFT, VK_LSHIFT, VK_RSHIFT}) \<noteq> {})"
proof -
  have others: "modifier_keys - {VK_SHIFT, VK_LSHIFT, VK_RSHIFT}
      = {VK_CONTROL, VK_LCONTROL, VK_RCONTROL, VK_MENU, VK_LMENU, VK_RMENU, VK_LWIN, VK_RWIN}"
    by (simp add: modifier_keys_def modifier_vk_defs)
  show ?thesis
    unfolding others
    using tracks_run [of es] by (simp add: tracks_def modifier_queries mask3_nonzero) blast
qed

section \<open>The byte the hook sends\<close>

lemma if_or: "(if P then h OR x else h) = h OR (if P then x else (0::u8))"
  by simp

lemma enumerated_modifier_keys:
  "enumerate 0 PHYSICAL_MODIFIER_KEYS =
     [(0, VK_LSHIFT), (1, VK_RSHIFT), (2, VK_LCONTROL), (3, VK_RCONTROL),
      (4, VK_LMENU), (5, VK_RMENU), (6, VK_LWIN), (7, VK_RWIN)]"
  by (simp add: PHYSICAL_MODIFIER_KEYS_def)

definition held_after :: "key_state \<Rightarrow> u16 \<Rightarrow> bool \<Rightarrow> bool \<Rightarrow> u16 \<Rightarrow> bool" where
  "held_after down vk kd ku k = (if k = vk then kd \<and> \<not> ku else down k)"

definition held_bit :: "bool \<Rightarrow> u8 \<Rightarrow> u8" where "held_bit p w = (if p then w else 0)"

lemma held_byte_bits:
  fixes down vk kd ku
  defines "p \<equiv> held_after down vk kd ku"
  shows "held_modifiers_for_event down vk kd ku =
    ((((((held_bit (p VK_LSHIFT) 1 OR held_bit (p VK_RSHIFT) 2) OR held_bit (p VK_LCONTROL) 4)
      OR held_bit (p VK_RCONTROL) 8) OR held_bit (p VK_LMENU) 16) OR held_bit (p VK_RMENU) 32)
      OR held_bit (p VK_LWIN) 64) OR held_bit (p VK_RWIN) 128"
proof -
  have "(if k = vk then kd \<and> \<not> ku else down k) = p k" for k
    by (simp add: p_def held_after_def)
  then have "held_modifiers_for_event down vk kd ku
      = foldl (\<lambda>held (b, key). held OR held_bit (p key) (push_bit b 1)) 0 (enumerate 0 PHYSICAL_MODIFIER_KEYS)"
    unfolding held_modifiers_for_event_def by (simp only: if_or held_bit_def)
  then show ?thesis
    unfolding enumerated_modifier_keys by simp
qed

lemma read_held_pair:
  "(((((((held_bit a 1 OR held_bit b 2) OR held_bit c 4) OR held_bit d 8) OR held_bit e 16)
      OR held_bit f 32) OR held_bit g 64) OR held_bit h 128) = w \<Longrightarrow>
   from_held w = \<lparr>shift_mask = mask3 a b False, control_mask = mask3 c d False,
      alt_mask = mask3 e f False, win_mask = mask3 g h False\<rparr>"
  by (cases a; cases b; cases c; cases d; cases e; cases f; cases g; cases h)
    (auto simp: from_held_def held_bit_def mask3_def)

text \<open>The byte of held modifiers that travels with an edge is read back exactly: the worker sees
  each modifier as held precisely when, with this edge applied, its left or its right key is down.\<close>

theorem held_modifiers_read_back:
  "from_held (held_modifiers_for_event down vk kd ku) =
     \<lparr>shift_mask = mask3 (held_after down vk kd ku VK_LSHIFT) (held_after down vk kd ku VK_RSHIFT) False,
      control_mask = mask3 (held_after down vk kd ku VK_LCONTROL) (held_after down vk kd ku VK_RCONTROL) False,
      alt_mask = mask3 (held_after down vk kd ku VK_LMENU) (held_after down vk kd ku VK_RMENU) False,
      win_mask = mask3 (held_after down vk kd ku VK_LWIN) (held_after down vk kd ku VK_RWIN) False\<rparr>"
  by (rule read_held_pair) (rule held_byte_bits [symmetric])

text \<open>What the worker forgets, it forgets because neither key of the modifier is down.\<close>

lemma forget_released_shift:
  "mod_shift (forget_released held m) \<longleftrightarrow> mod_shift m \<and> mod_shift (from_held held)"
  by (simp add: forget_released_def mod_shift_def Let_def)

end
