(* ===== verification/Replay_Plan.thy ===== *)
theory Replay_Plan
  imports Modifiers
begin

text \<open>
  \<open>src/windows_agent.rs\<close>: a physical conversion. \<open>build_physical_replay_plan\<close> lays out the
  inputs that erase the word and retype it in the other layout, one step per character, and
  \<open>dispatch_physical_replay_plan\<close> sends them, at once or step by step with the guard asked before
  each step. The guard, \<open>SendInput\<close> and the pacer are the arguments of the dispatch.
\<close>

definition VK_V_KEY :: u16 where [consts_def]: "VK_V_KEY = 0x56"
definition VK_ESCAPE :: u16 where [consts_def]: "VK_ESCAPE = 0x1b"
definition VK_PRIOR :: u16 where [consts_def]: "VK_PRIOR = 0x21"
definition VK_NEXT :: u16 where [consts_def]: "VK_NEXT = 0x22"
definition VK_APPS :: u16 where [consts_def]: "VK_APPS = 0x5d"

record replay_key =
  rk_scan_code :: u16
  rk_shift :: bool
  rk_caps_lock :: bool
  rk_extended :: bool

datatype replay_attempt = Applied | Cancelled | Failed | LayoutSwitchFailed

datatype physical_replay_mode = Batch | Paced

record physical_replay_plan =
  rp_inputs :: "key_input list"
  rp_step_ends :: "nat list"

definition keyboard_input :: "u16 \<Rightarrow> u16 \<Rightarrow> u32 \<Rightarrow> key_input" where
  "keyboard_input vk scan flags = keyboard_input_with_marker vk scan flags INJECTED_EVENT_MARKER"

definition replay_key_from_event :: "raw_key_event \<Rightarrow> modifiers \<Rightarrow> replay_key option" where
  "replay_key_from_event e m =
     (case u16_try_from (ke_scan_code e) of
        None \<Rightarrow> None
      | Some scan_code \<Rightarrow>
          if scan_code = 0 then None
          else Some \<lparr>rk_scan_code = scan_code, rk_shift = mod_shift m,
                     rk_caps_lock = ke_caps_lock e, rk_extended = ke_extended e\<rparr>)"

definition keypad_digit_key :: "u16 \<Rightarrow> u16 option" where
  "keypad_digit_key scan_code =
     (if scan_code = 0x53 then Some VK_DECIMAL
      else map_option (\<lambda>digit. VK_NUMPAD0 + digit)
        (map_of [(0x52, 0), (0x4f, 1), (0x50, 2), (0x51, 3), (0x4b, 4), (0x4c, 5), (0x4d, 6),
                 (0x47, 7), (0x48, 8), (0x49, 9)] scan_code))"

definition keypad_of :: "replay_key \<Rightarrow> u16 option" where
  "keypad_of key = (if rk_extended key then None else keypad_digit_key (rk_scan_code key))"

definition may_move_focus_within_window :: "u16 \<Rightarrow> bool" where
  "may_move_focus_within_window vk \<longleftrightarrow>
     vk = VK_ESCAPE \<or> vk = VK_APPS \<or> vk = VK_PRIOR \<or> vk = VK_NEXT \<or> (VK_F1 \<le> vk \<and> vk \<le> VK_F24)"

section \<open>The plan\<close>

text \<open>One step of the plan: its inputs, pushed with the end they reach.\<close>

definition push_step :: "key_input list \<Rightarrow> physical_replay_plan \<Rightarrow> physical_replay_plan" where
  "push_step inputs p =
     \<lparr>rp_inputs = rp_inputs p @ inputs, rp_step_ends = rp_step_ends p @ [length (rp_inputs p @ inputs)]\<rparr>"

definition erase_step :: "key_input list" where
  "erase_step = [keyboard_input VK_BACK 0 0, keyboard_input VK_BACK 0 KEYEVENTF_KEYUP]"

definition space_step :: "key_input list" where
  "space_step = [keyboard_input VK_SPACE 0 0, keyboard_input VK_SPACE 0 KEYEVENTF_KEYUP]"

definition key_step :: "replay_key \<Rightarrow> key_input list" where
  "key_step key =
     (case keypad_of key of
        Some keypad \<Rightarrow>
          [keyboard_input keypad (rk_scan_code key) 0,
           keyboard_input keypad (rk_scan_code key) KEYEVENTF_KEYUP]
      | None \<Rightarrow>
          let scan_flags = KEYEVENTF_SCANCODE OR (if rk_extended key then KEYEVENTF_EXTENDEDKEY else 0) in
          (if rk_shift key then [keyboard_input VK_LSHIFT 0 0] else [])
          @ [keyboard_input 0 (rk_scan_code key) scan_flags,
             keyboard_input 0 (rk_scan_code key) (scan_flags OR KEYEVENTF_KEYUP)]
          @ (if rk_shift key then [keyboard_input VK_LSHIFT 0 KEYEVENTF_KEYUP] else []))"

definition build_physical_replay_plan ::
  "nat \<Rightarrow> replay_key list \<Rightarrow> uchar option \<Rightarrow> physical_replay_plan option" where
  "build_physical_replay_plan erase_characters replay_keys delimiter =
     (if erase_characters > 128 \<or> replay_keys = [] \<or> length replay_keys > 128
         \<or> (case delimiter of None \<Rightarrow> False | Some d \<Rightarrow> d \<noteq> 0x20)
      then None
      else
        let plan = \<lparr>rp_inputs = [], rp_step_ends = []\<rparr>;
            plan = fold (\<lambda>_. push_step erase_step) [0..<erase_characters] plan;
            plan = fold (\<lambda>key. push_step (key_step key)) replay_keys plan
        in Some (if delimiter \<noteq> None then push_step space_step plan else plan))"

text \<open>\<open>SendInput\<close> is an argument: the number of inputs it took, and the state after it.\<close>

definition send_input_count :: "(key_input list \<Rightarrow> 's \<Rightarrow> nat \<times> 's) \<Rightarrow> key_input list \<Rightarrow> 's \<Rightarrow> nat \<times> 's" where
  "send_input_count send_input inputs s = (if inputs = [] then (0, s) else send_input inputs s)"

definition send_input_batch :: "(key_input list \<Rightarrow> 's \<Rightarrow> nat \<times> 's) \<Rightarrow> key_input list \<Rightarrow> 's \<Rightarrow> bool \<times> 's" where
  "send_input_batch send_input inputs s =
     (if inputs = [] then (False, s)
      else let (sent, s) = send_input_count send_input inputs s in (sent = length inputs, s))"

definition build_paste_inputs :: "key_input list" where
  "build_paste_inputs =
     [keyboard_input VK_LCONTROL 0 0, keyboard_input VK_V_KEY 0 0,
      keyboard_input VK_V_KEY 0 KEYEVENTF_KEYUP, keyboard_input VK_LCONTROL 0 KEYEVENTF_KEYUP]"

section \<open>Sending it\<close>

record 's replay_seam =
  rs_guard :: "'s \<Rightarrow> bool \<times> 's"
  rs_send :: "key_input list \<Rightarrow> 's \<Rightarrow> bool \<times> 's"
  rs_pace :: "'s \<Rightarrow> 's"

fun dispatch_steps ::
  "'s replay_seam \<Rightarrow> key_input list \<Rightarrow> nat \<Rightarrow> nat list \<Rightarrow> 's \<Rightarrow> replay_attempt \<times> 's" where
  "dispatch_steps R inputs start [] s = (Applied, s)"
| "dispatch_steps R inputs start (e # ends) s =
     (if e \<le> start \<or> e > length inputs then (Failed, s)
      else
        let (current, s) = rs_guard R s in
        if \<not> current then ((if start = 0 then Cancelled else Failed), s)
        else
          let (sent, s) = rs_send R (take (e - start) (drop start inputs)) s in
          if \<not> sent then (Failed, s)
          else dispatch_steps R inputs e ends (if ends \<noteq> [] then rs_pace R s else s))"

definition dispatch_physical_replay_plan ::
  "'s replay_seam \<Rightarrow> physical_replay_plan \<Rightarrow> physical_replay_mode \<Rightarrow> 's \<Rightarrow> replay_attempt \<times> 's" where
  "dispatch_physical_replay_plan R plan mode s =
     (if rp_inputs plan = []
         \<or> (if rp_step_ends plan = [] then None else Some (last (rp_step_ends plan)))
            \<noteq> Some (length (rp_inputs plan))
      then (Failed, s)
      else
        let (current, s) = rs_guard R s in
        if \<not> current then (Cancelled, s)
        else if mode = Batch then
          let (sent, s) = rs_send R (rp_inputs plan) s in ((if sent then Applied else Failed), s)
        else dispatch_steps R (rp_inputs plan) 0 (rp_step_ends plan) s)"

section \<open>What the receiving program makes of the inputs\<close>

text \<open>A keyboard: the keys down, each named by its virtual key, its scan code and the flags that
  select it; a key-down edits the text, with Shift or without.\<close>

datatype edit = Erase | Stroke u16 bool bool | Keypad u16 bool | Space_typed

definition input_key :: "key_input \<Rightarrow> u16 \<times> u16 \<times> u32" where
  "input_key i = (ki_virtual_key i, ki_scan_code i, ki_flags i AND NOT KEYEVENTF_KEYUP)"

definition edit_of :: "bool \<Rightarrow> key_input \<Rightarrow> edit list" where
  "edit_of shift i =
     (if ki_flags i AND KEYEVENTF_SCANCODE \<noteq> 0
      then [Stroke (ki_scan_code i) shift (ki_flags i AND KEYEVENTF_EXTENDEDKEY \<noteq> 0)]
      else if ki_virtual_key i = VK_BACK then [Erase]
      else if ki_virtual_key i = VK_SPACE then [Space_typed]
      else if ki_virtual_key i = VK_LSHIFT then []
      else [Keypad (ki_virtual_key i) shift])"

definition left_shift :: "u16 \<times> u16 \<times> u32" where "left_shift = (VK_LSHIFT, 0, 0)"

fun consume :: "(u16 \<times> u16 \<times> u32) set \<Rightarrow> key_input list \<Rightarrow> edit list \<times> (u16 \<times> u16 \<times> u32) set" where
  "consume D [] = ([], D)"
| "consume D (i # inputs) =
     (if ki_flags i AND KEYEVENTF_KEYUP \<noteq> 0 then consume (D - {input_key i}) inputs
      else
        let (es, D') = consume (insert (input_key i) D) inputs in
        (edit_of (left_shift \<in> D) i @ es, D'))"

lemma consume_append:
  "consume D (xs @ ys) =
     (fst (consume D xs) @ fst (consume (snd (consume D xs)) ys), snd (consume (snd (consume D xs)) ys))"
  by (induction D xs rule: consume.induct) (simp_all add: Let_def case_prod_unfold)

text \<open>What a replayed key is to type: a keypad digit never with Shift, any other key by its scan code.\<close>

definition edit_of_key :: "replay_key \<Rightarrow> edit" where
  "edit_of_key key =
     (case keypad_of key of
        Some keypad \<Rightarrow> Keypad keypad False
      | None \<Rightarrow> Stroke (rk_scan_code key) (rk_shift key) (rk_extended key))"

lemmas input_defs =
  keyboard_input_def keyboard_input_with_marker_def input_key_def edit_of_def left_shift_def
  KEYEVENTF_KEYUP_def KEYEVENTF_SCANCODE_def KEYEVENTF_EXTENDEDKEY_def

lemma consume_erase: "consume {} erase_step = ([Erase], {})"
  by (simp add: erase_step_def input_defs VK_BACK_def VK_LSHIFT_def)

lemma consume_space: "consume {} space_step = ([Space_typed], {})"
  by (simp add: space_step_def input_defs VK_SPACE_def VK_BACK_def VK_LSHIFT_def)

lemma keypad_range:
  assumes "keypad_digit_key scan = Some k"
  shows "k \<noteq> VK_BACK \<and> k \<noteq> VK_SPACE \<and> k \<noteq> VK_LSHIFT"
  using assms
  by (auto simp: keypad_digit_key_def VK_NUMPAD0_def VK_DECIMAL_def VK_BACK_def VK_SPACE_def VK_LSHIFT_def
      split: if_splits)

lemma consume_key: "consume {} (key_step key) = ([edit_of_key key], {})"
proof (cases "keypad_of key")
  case None
  then show ?thesis
    by (cases "rk_shift key"; cases "rk_extended key")
      (simp_all add: key_step_def edit_of_key_def input_defs VK_LSHIFT_def
        VK_BACK_def VK_SPACE_def)
next
  case (Some k)
  then have "k \<noteq> VK_BACK \<and> k \<noteq> VK_SPACE \<and> k \<noteq> VK_LSHIFT"
    using keypad_range by (auto simp: keypad_of_def split: if_splits)
  then show ?thesis
    using Some by (simp add: key_step_def edit_of_key_def input_defs)
qed

section \<open>The plan as a list of steps\<close>

definition plan_steps :: "nat \<Rightarrow> replay_key list \<Rightarrow> uchar option \<Rightarrow> key_input list list" where
  "plan_steps n keys delimiter =
     replicate n erase_step @ map key_step keys @ (if delimiter \<noteq> None then [space_step] else [])"

definition plan_edits :: "nat \<Rightarrow> replay_key list \<Rightarrow> uchar option \<Rightarrow> edit list" where
  "plan_edits n keys delimiter =
     replicate n Erase @ map edit_of_key keys @ (if delimiter \<noteq> None then [Space_typed] else [])"

fun ends_from :: "nat \<Rightarrow> 'a list list \<Rightarrow> nat list" where
  "ends_from n [] = []"
| "ends_from n (x # xs) = (n + length x) # ends_from (n + length x) xs"

lemma ends_from_append: "ends_from n (xs @ ys) = ends_from n xs @ ends_from (n + length (concat xs)) ys"
  by (induction xs arbitrary: n) (simp_all add: add.assoc)

lemma ends_from_length [simp]: "length (ends_from n xs) = length xs"
  by (induction xs arbitrary: n) simp_all

lemma ends_from_nth: "k < length xs \<Longrightarrow> ends_from n xs ! k = n + length (concat (take (Suc k) xs))"
proof (induction xs arbitrary: n k)
  case (Cons x xs)
  then show ?case by (cases k) (simp_all add: add.assoc)
qed simp

lemma ends_from_last: "xs \<noteq> [] \<Longrightarrow> last (ends_from n xs) = n + length (concat xs)"
proof (induction xs arbitrary: n)
  case (Cons x xs)
  then show ?case by (cases xs) simp_all
qed simp

lemma push_steps:
  "rp_step_ends p = ends_from 0 pushed \<Longrightarrow> rp_inputs p = concat pushed \<Longrightarrow>
   rp_inputs (fold push_step steps p) = concat (pushed @ steps)
   \<and> rp_step_ends (fold push_step steps p) = ends_from 0 (pushed @ steps)"
proof (induction steps arbitrary: p pushed)
  case (Cons x steps)
  have "rp_step_ends (push_step x p) = ends_from 0 (pushed @ [x])"
    and "rp_inputs (push_step x p) = concat (pushed @ [x])"
    using Cons.prems by (simp_all add: push_step_def ends_from_append)
  from Cons.IH [OF this] show ?case by simp
qed simp

lemma fold_constant_step: "fold (\<lambda>_. push_step x) xs = fold push_step (replicate (length xs) x)"
  by (induction xs) simp_all

lemma plan_built:
  assumes "build_physical_replay_plan n keys delimiter = Some p"
  shows "rp_inputs p = concat (plan_steps n keys delimiter)
    \<and> rp_step_ends p = ends_from 0 (plan_steps n keys delimiter)
    \<and> keys \<noteq> [] \<and> n \<le> 128 \<and> length keys \<le> 128"
proof -
  let ?steps = "replicate n erase_step @ map key_step keys"
  have "p = (if delimiter \<noteq> None then push_step space_step else id)
      (fold push_step ?steps \<lparr>rp_inputs = [], rp_step_ends = []\<rparr>)"
    and "keys \<noteq> [] \<and> n \<le> 128 \<and> length keys \<le> 128"
    using assms
    by (auto simp: build_physical_replay_plan_def Let_def fold_constant_step fold_map comp_def
        split: if_splits)
  then have "p = fold push_step (plan_steps n keys delimiter) \<lparr>rp_inputs = [], rp_step_ends = []\<rparr>"
    by (simp add: plan_steps_def)
  then show ?thesis
    using push_steps [of "\<lparr>rp_inputs = [], rp_step_ends = []\<rparr>" "[]" "plan_steps n keys delimiter"]
      \<open>keys \<noteq> [] \<and> n \<le> 128 \<and> length keys \<le> 128\<close> by simp
qed

lemma key_step_nonempty: "key_step key \<noteq> [] \<and> [] \<noteq> key_step key"
  by (simp add: key_step_def Let_def split: option.split)

lemma plan_steps_nonempty: "step \<in> set (plan_steps n keys delimiter) \<Longrightarrow> step \<noteq> []"
  by (auto simp: plan_steps_def erase_step_def space_step_def key_step_nonempty split: if_splits)

lemma consume_concat:
  assumes "list_all2 (\<lambda>step e. consume {} step = ([e], {})) steps es"
  shows "consume {} (concat steps) = (es, {})"
  using assms by (induction steps es rule: list_all2_induct) (simp_all add: consume_append)

lemma plan_steps_edits:
  "list_all2 (\<lambda>step e. consume {} step = ([e], {})) (plan_steps n keys delimiter) (plan_edits n keys delimiter)"
  unfolding plan_steps_def plan_edits_def
  by (intro list_all2_appendI)
    (auto simp: list_all2_conv_all_nth consume_erase consume_key consume_space)

lemma consume_whole_steps:
  "consume {} (concat (take k (plan_steps n keys delimiter))) = (take k (plan_edits n keys delimiter), {})"
  by (intro consume_concat list_all2_takeI plan_steps_edits)

lemma plan_steps_length: "length (plan_steps n keys delimiter) = length (plan_edits n keys delimiter)"
  using plan_steps_edits by (rule list_all2_lengthD)

text \<open>C26. A physical conversion types what it is meant to: read by a program, the inputs of the plan
  are the erased characters, then each key of the word under its own scan code, Shift and extended
  flag (a keypad digit as its virtual key, never shifted), then the delimiter; no key is left down;
  and up to the end of each step the inputs are exactly the edits so far, again with no key left
  down.\<close>

theorem physical_plan_types_word:
  assumes "build_physical_replay_plan n keys delimiter = Some p"
  shows "consume {} (rp_inputs p) = (plan_edits n keys delimiter, {})
    \<and> length (rp_step_ends p) = length (plan_edits n keys delimiter)
    \<and> (\<forall>k < length (plan_edits n keys delimiter).
         consume {} (take (rp_step_ends p ! k) (rp_inputs p)) = (take (Suc k) (plan_edits n keys delimiter), {}))"
proof -
  let ?steps = "plan_steps n keys delimiter"
  have p: "rp_inputs p = concat ?steps" "rp_step_ends p = ends_from 0 ?steps"
    using plan_built [OF assms] by simp_all
  have "take (rp_step_ends p ! k) (rp_inputs p) = concat (take (Suc k) ?steps)" if "k < length ?steps" for k
  proof -
    have "concat ?steps = concat (take (Suc k) ?steps) @ concat (drop (Suc k) ?steps)"
      by (metis append_take_drop_id concat_append)
    then show ?thesis
      using that by (simp add: p ends_from_nth)
  qed
  then show ?thesis
    using consume_whole_steps [of "length ?steps" n keys delimiter] consume_whole_steps [of _ n keys delimiter]
    by (simp add: p plan_steps_length)
qed

lemma plan_types_whole:
  assumes "build_physical_replay_plan n keys delimiter = Some p"
  shows "consume {} (rp_inputs p) = (plan_edits n keys delimiter, {})"
  using plan_built [OF assms] consume_whole_steps [of "length (plan_steps n keys delimiter)" n keys delimiter]
  by (simp add: plan_steps_length)

section \<open>The dispatch\<close>

text \<open>What a caller relies on: asking the guard and pacing send nothing, a batch that is taken whole
  is sent whole, and of a refused batch at most a prefix is sent.\<close>

definition replay_laws :: "'s replay_seam \<Rightarrow> ('s \<Rightarrow> key_input list) \<Rightarrow> bool" where
  "replay_laws R sent \<longleftrightarrow>
     (\<forall>s. sent (snd (rs_guard R s)) = sent s)
     \<and> (\<forall>s. sent (rs_pace R s) = sent s)
     \<and> (\<forall>batch s. if fst (rs_send R batch s) then sent (snd (rs_send R batch s)) = sent s @ batch
         else \<exists>part. prefix part batch \<and> sent (snd (rs_send R batch s)) = sent s @ part)"

lemma take_step:
  "concat (before @ x # after) = inputs \<Longrightarrow>
   take (length x) (drop (length (concat before)) inputs) = x"
  by auto

lemma dispatch_steps_sent:
  assumes laws: "replay_laws R sent"
    and inputs: "inputs = concat (before @ todo)" and nonempty: "\<forall>x \<in> set todo. x \<noteq> []"
    and run: "dispatch_steps R inputs (length (concat before)) (ends_from (length (concat before)) todo) s = (r, s')"
  shows "\<exists>k part. k \<le> length todo \<and> sent s' = sent s @ concat (take k todo) @ part
    \<and> prefix (concat (take k todo) @ part) (concat todo)
    \<and> (r = Applied \<longrightarrow> k = length todo \<and> part = [])
    \<and> (r = Cancelled \<longrightarrow> k = 0 \<and> part = [] \<and> concat before = [])
    \<and> r \<noteq> LayoutSwitchFailed
    \<and> ((\<forall>batch t. fst (rs_send R batch t)) \<longrightarrow> part = [])
    \<and> ((\<forall>batch t. fst (rs_send R batch t)) \<and> (\<forall>t. fst (rs_guard R t)) \<longrightarrow> r = Applied)"
  using inputs nonempty run
proof (induction todo arbitrary: before s)
  case Nil
  then show ?case by (intro exI [of _ 0] exI [of _ "[]"]) simp
next
  case (Cons x todo)
  let ?start = "length (concat before)"
  have "x \<noteq> []" using Cons.prems by simp
  obtain current s1 where g: "rs_guard R s = (current, s1)" by fastforce
  have s1: "sent s1 = sent s"
    using laws g unfolding replay_laws_def by (metis snd_conv)
  show ?case
  proof (cases current)
    case False
    then have "r = (if ?start = 0 then Cancelled else Failed)" "s' = s1"
      using Cons.prems \<open>x \<noteq> []\<close> g by (auto simp: Let_def)
    moreover have "\<not> (\<forall>t. fst (rs_guard R t))"
      using False g by (metis fst_conv)
    ultimately show ?thesis
      using s1 by (intro exI [of _ 0] exI [of _ "[]"]) auto
  next
    case current: True
    have batch: "take (length x) (drop ?start inputs) = x"
      using Cons.prems(1) by simp
    obtain ok s2 where sd: "rs_send R x s1 = (ok, s2)" by fastforce
    show ?thesis
    proof (cases ok)
      case False
      then obtain part where part: "prefix part x" "sent s2 = sent s1 @ part"
        using laws sd unfolding replay_laws_def by (metis fst_conv snd_conv)
      have "r = Failed" "s' = s2"
        using Cons.prems \<open>x \<noteq> []\<close> g current batch sd False by (auto simp: Let_def)
      moreover have "\<not> (\<forall>batch t. fst (rs_send R batch t))"
        using False sd by (metis fst_conv)
      ultimately show ?thesis
        using s1 part by (intro exI [of _ 0] exI [of _ part]) auto
    next
      case True
      then have s2: "sent s2 = sent s @ x"
        using laws sd s1 unfolding replay_laws_def by (metis fst_conv snd_conv)
      define s3 where "s3 = (if todo \<noteq> [] then rs_pace R s2 else s2)"
      have s3: "sent s3 = sent s @ x"
        using laws s2 by (simp add: s3_def replay_laws_def)
      have "ends_from (?start + length x) todo \<noteq> [] \<longleftrightarrow> todo \<noteq> []"
        by (metis ends_from_length length_0_conv)
      then have "dispatch_steps R inputs (length (concat (before @ [x])))
          (ends_from (length (concat (before @ [x]))) todo) s3 = (r, s')"
        using Cons.prems \<open>x \<noteq> []\<close> g current batch sd True by (simp add: Let_def s3_def)
      moreover have "inputs = concat ((before @ [x]) @ todo)" "\<forall>x \<in> set todo. x \<noteq> []"
        using Cons.prems by simp_all
      ultimately obtain k part where k: "k \<le> length todo" "sent s' = sent s3 @ concat (take k todo) @ part"
        "prefix (concat (take k todo) @ part) (concat todo)"
        "r = Applied \<longrightarrow> k = length todo \<and> part = []" "r = Cancelled \<longrightarrow> concat (before @ [x]) = []"
        "r \<noteq> LayoutSwitchFailed" "(\<forall>batch t. fst (rs_send R batch t)) \<longrightarrow> part = []"
        "(\<forall>batch t. fst (rs_send R batch t)) \<and> (\<forall>t. fst (rs_guard R t)) \<longrightarrow> r = Applied"
        using Cons.IH [of "before @ [x]" s3] by blast
      have "r \<noteq> Cancelled"
        using k(5) \<open>x \<noteq> []\<close> by auto
      then show ?thesis
        using k s3 by (intro exI [of _ "Suc k"] exI [of _ part]) auto
    qed
  qed
qed

text \<open>An interrupted replay leaves whole edits: what was sent is a prefix of the plan; all of it
  when the replay reports Applied and nothing when it reports Cancelled; and unless \<open>SendInput\<close>
  refused a batch, it is exactly the first edits of the plan with no key left down. A replay whose
  guard stays and whose batches are taken is applied.\<close>

theorem replay_leaves_whole_edits:
  assumes "replay_laws R sent" and "build_physical_replay_plan n keys delimiter = Some p"
    and "dispatch_physical_replay_plan R p mode s = (r, s')"
  shows "\<exists>out. sent s' = sent s @ out \<and> prefix out (rp_inputs p)
    \<and> (r = Applied \<longrightarrow> out = rp_inputs p) \<and> (r = Cancelled \<longrightarrow> out = []) \<and> r \<noteq> LayoutSwitchFailed
    \<and> ((\<forall>batch t. fst (rs_send R batch t)) \<longrightarrow>
         (\<exists>k. consume {} out = (take k (plan_edits n keys delimiter), {})))
    \<and> ((\<forall>batch t. fst (rs_send R batch t)) \<and> (\<forall>t. fst (rs_guard R t)) \<longrightarrow> r = Applied)"
proof -
  let ?steps = "plan_steps n keys delimiter"
  have p: "rp_inputs p = concat ?steps" "rp_step_ends p = ends_from 0 ?steps" "keys \<noteq> []"
    using plan_built [OF assms(2)] by simp_all
  have steps: "?steps \<noteq> []"
    using p(3) by (simp add: plan_steps_def)
  then obtain x xs where x: "?steps = x # xs" "x \<noteq> []"
    using plan_steps_nonempty [of "hd ?steps" n keys delimiter] by (cases ?steps) auto
  then have whole: "rp_inputs p \<noteq> []" "rp_step_ends p \<noteq> []"
      "last (rp_step_ends p) = length (rp_inputs p)"
    using ends_from_last [OF steps, of 0] by (simp_all add: p)
  obtain current s1 where g: "rs_guard R s = (current, s1)" by fastforce
  have s1: "sent s1 = sent s"
    using assms(1) g unfolding replay_laws_def by (metis snd_conv)
  have unguarded: "\<not> (\<forall>t. fst (rs_guard R t))" if "\<not> current"
    using that g by (metis fst_conv)
  consider (lost) "\<not> current" | (batch) current "mode = Batch" | (paced) current "mode = Paced"
    by (cases mode) auto
  then show ?thesis
  proof cases
    case lost
    then have "r = Cancelled" "s' = s1"
      using assms(3) whole g by (auto simp: dispatch_physical_replay_plan_def)
    then show ?thesis
      using s1 unguarded [OF lost] by (intro exI [of _ "[]"]) (auto intro: exI [of _ 0])
  next
    case batch
    obtain ok s2 where sd: "rs_send R (rp_inputs p) s1 = (ok, s2)" by fastforce
    have r: "r = (if ok then Applied else Failed)" "s' = s2"
      using assms(3) whole g batch sd by (auto simp: dispatch_physical_replay_plan_def)
    show ?thesis
    proof (cases ok)
      case True
      then have "sent s' = sent s @ rp_inputs p"
        using assms(1) sd s1 r unfolding replay_laws_def by (metis fst_conv snd_conv)
      then show ?thesis
        using r True consume_whole_steps [of "length ?steps" n keys delimiter] p
        by (intro exI [of _ "rp_inputs p"]) auto
    next
      case False
      then obtain part where "prefix part (rp_inputs p)" "sent s2 = sent s @ part"
        using assms(1) sd s1 unfolding replay_laws_def by (metis fst_conv snd_conv)
      moreover have "\<not> (\<forall>batch t. fst (rs_send R batch t))"
        using False sd by (metis fst_conv)
      ultimately show ?thesis
        using r False by auto
    qed
  next
    case paced
    then have run: "dispatch_steps R (rp_inputs p) (length (concat [])) (ends_from (length (concat [])) ?steps) s1
        = (r, s')"
      using assms(3) whole g p(2) by (simp add: dispatch_physical_replay_plan_def)
    have "rp_inputs p = concat ([] @ ?steps)" "\<forall>x \<in> set ?steps. x \<noteq> []"
      using p plan_steps_nonempty by auto
    from dispatch_steps_sent [OF assms(1) this run] obtain k part where
      "sent s' = sent s1 @ concat (take k ?steps) @ part"
      "prefix (concat (take k ?steps) @ part) (rp_inputs p)"
      "r = Applied \<longrightarrow> k = length ?steps \<and> part = []" "r = Cancelled \<longrightarrow> k = 0 \<and> part = []"
      "r \<noteq> LayoutSwitchFailed" "(\<forall>batch t. fst (rs_send R batch t)) \<longrightarrow> part = []"
      "(\<forall>batch t. fst (rs_send R batch t)) \<and> (\<forall>t. fst (rs_guard R t)) \<longrightarrow> r = Applied"
      unfolding p(1) by blast
    then show ?thesis
      using s1 consume_whole_steps [of k n keys delimiter] p(1)
      by (intro exI [of _ "concat (take k ?steps) @ part"]) auto
  qed
qed

text \<open>\<open>SendInput\<close> inserts the first inputs of a batch and says how many; sent through
  \<open>send_input_batch\<close> it keeps the laws of the dispatch.\<close>

lemma send_input_batch_laws:
  assumes send: "\<And>batch s. sent (snd (send_input batch s)) = sent s @ take (fst (send_input batch s)) batch"
    and "\<And>s. sent (snd (guard s)) = sent s" "\<And>s. sent (pace s) = sent s"
  shows "replay_laws \<lparr>rs_guard = guard, rs_send = send_input_batch send_input, rs_pace = pace\<rparr> sent"
proof -
  have "if fst (send_input_batch send_input batch s)
        then sent (snd (send_input_batch send_input batch s)) = sent s @ batch
        else \<exists>part. prefix part batch \<and> sent (snd (send_input_batch send_input batch s)) = sent s @ part"
    for batch s
    using send [of batch s]
    by (auto simp: send_input_batch_def send_input_count_def case_prod_unfold Let_def take_is_prefix)
  then show ?thesis
    using assms(2,3) by (simp add: replay_laws_def)
qed

text \<open>A sample: the word of two keys, the second with Shift, sent to a log.\<close>

definition sample_keys :: "replay_key list" where
  "sample_keys =
     [\<lparr>rk_scan_code = 0x23, rk_shift = False, rk_caps_lock = False, rk_extended = False\<rparr>,
      \<lparr>rk_scan_code = 0x52, rk_shift = False, rk_caps_lock = False, rk_extended = False\<rparr>]"

definition sample_plan :: physical_replay_plan where
  "sample_plan = \<lparr>rp_inputs = concat (plan_steps 1 sample_keys (Some 0x20)),
     rp_step_ends = [2, 4, 6, 8]\<rparr>"

lemma sample_plan_built: "build_physical_replay_plan 1 sample_keys (Some 0x20) = Some sample_plan"
  by (simp add: build_physical_replay_plan_def sample_plan_def sample_keys_def plan_steps_def push_step_def
      erase_step_def space_step_def key_step_def keypad_of_def keypad_digit_key_def Let_def)

definition log_seam :: "key_input list replay_seam" where
  "log_seam = \<lparr>rs_guard = (\<lambda>s. (length s < 4, s)), rs_send = (\<lambda>batch s. (True, s @ batch)), rs_pace = id\<rparr>"

lemma log_seam_laws: "replay_laws log_seam id"
  by (simp add: replay_laws_def log_seam_def)

lemma physical_plan_types_word_witness:
  "consume {} (rp_inputs sample_plan)
     = ([Erase, Stroke 0x23 False False, Keypad VK_NUMPAD0 False, Space_typed], {})
   \<and> consume {} (take 4 (rp_inputs sample_plan)) = ([Erase, Stroke 0x23 False False], {})"
proof -
  have edits: "plan_edits 1 sample_keys (Some 0x20)
      = [Erase, Stroke 0x23 False False, Keypad VK_NUMPAD0 False, Space_typed]"
    by (simp add: plan_edits_def sample_keys_def edit_of_key_def keypad_of_def keypad_digit_key_def)
  have "rp_step_ends sample_plan ! 1 = 4"
    by (simp add: sample_plan_def)
  then show ?thesis
    using physical_plan_types_word [OF sample_plan_built] unfolding edits
    by (metis One_nat_def Suc_less_eq length_Cons take_Suc_Cons take0 zero_less_Suc)
qed

lemma replay_leaves_whole_edits_witness:
  "\<exists>out k. snd (dispatch_physical_replay_plan log_seam sample_plan Paced []) = out
    \<and> prefix out (rp_inputs sample_plan)
    \<and> consume {} out = (take k (plan_edits 1 sample_keys (Some 0x20)), {})"
proof -
  obtain r s' where run: "dispatch_physical_replay_plan log_seam sample_plan Paced [] = (r, s')"
    by fastforce
  have "\<forall>batch t. fst (rs_send log_seam batch t)"
    by (simp add: log_seam_def)
  then show ?thesis
    using replay_leaves_whole_edits [OF log_seam_laws sample_plan_built run] run by auto
qed

end
