(* ===== verification/Gate_Budget.thy ===== *)
theory Gate_Budget
  imports Replay_Plan Language
begin

text \<open>
  \<open>src/windows_agent.rs\<close>: the time a conversion may take. While a conversion edits the text, the
  correction gate holds the keys typed after the word, so every wait is cut to what the gate has
  left: \<open>conversion_gate_budget_ms\<close> and \<open>paste_gate_budget_ms\<close> say what is asked of the gate
  beforehand, \<open>PasteBudget\<close> shortens the waits of a protected paste. The answers of the UI thread
  to a hand-over, and the order of the languages the hotkey walks through, are here as well.
\<close>

definition U64_LIMIT :: nat where "U64_LIMIT = 2 ^ 64"

definition INPUT_SETTLE_AFTER_FORWARD_MS :: nat where [consts_def]: "INPUT_SETTLE_AFTER_FORWARD_MS = 35"
definition HOOK_FORWARD_TIMEOUT_MS :: nat where [consts_def]: "HOOK_FORWARD_TIMEOUT_MS = 50"
definition NOTEPAD_TEXT_BARRIER_TIMEOUT_MS :: nat where [consts_def]: "NOTEPAD_TEXT_BARRIER_TIMEOUT_MS = 150"
definition UIA_SELECTION_CONFIRM_TIMEOUT_MS :: nat where [consts_def]: "UIA_SELECTION_CONFIRM_TIMEOUT_MS = 50"
definition UIA_MANUAL_SELECTION_CONFIRM_TIMEOUT_MS :: nat where
  [consts_def]: "UIA_MANUAL_SELECTION_CONFIRM_TIMEOUT_MS = 100"
definition UIA_MANUAL_SELECTION_ATTEMPTS :: nat where [consts_def]: "UIA_MANUAL_SELECTION_ATTEMPTS = 2"
definition NOTEPAD_REPLAY_STEP_DELAY_MS :: nat where [consts_def]: "NOTEPAD_REPLAY_STEP_DELAY_MS = 3"
definition NOTEPAD_REPLAY_GATE_MARGIN_MS :: nat where [consts_def]: "NOTEPAD_REPLAY_GATE_MARGIN_MS = 200"
definition LAYOUT_SWITCH_TIMEOUT_MS :: nat where [consts_def]: "LAYOUT_SWITCH_TIMEOUT_MS = 250"
definition REPLAY_COMMIT_MS :: nat where [consts_def]: "REPLAY_COMMIT_MS = 50"
definition CLIPBOARD_BROKER_TIMEOUT_MS :: nat where [consts_def]: "CLIPBOARD_BROKER_TIMEOUT_MS = 500"
definition CLIPBOARD_RESTORE_WAIT_MS :: nat where [consts_def]: "CLIPBOARD_RESTORE_WAIT_MS = 100"
definition CLIPBOARD_AUTOMATIC_INSTALL_TIMEOUT_MS :: nat where
  [consts_def]: "CLIPBOARD_AUTOMATIC_INSTALL_TIMEOUT_MS = 200"
definition PASTE_MIN_INSTALL_MS :: nat where [consts_def]: "PASTE_MIN_INSTALL_MS = 50"
definition PASTE_UIA_MARGIN_MS :: nat where [consts_def]: "PASTE_UIA_MARGIN_MS = 100"
definition PASTE_TARGET_COMMIT_MIN_MS :: nat where [consts_def]: "PASTE_TARGET_COMMIT_MIN_MS = 50"
definition PASTE_COMMIT_LATE_ANSWER_MS :: nat where [consts_def]: "PASTE_COMMIT_LATE_ANSWER_MS = 400"
definition PASTE_AFTER_COMMIT_MS :: nat where
  [consts_def]: "PASTE_AFTER_COMMIT_MS =
     CLIPBOARD_RESTORE_WAIT_MS + LAYOUT_SWITCH_TIMEOUT_MS + NOTEPAD_TEXT_BARRIER_TIMEOUT_MS + PASTE_UIA_MARGIN_MS"
definition PASTE_AFTER_SUBMIT_MS :: nat where
  [consts_def]: "PASTE_AFTER_SUBMIT_MS = NOTEPAD_TEXT_BARRIER_TIMEOUT_MS + PASTE_AFTER_COMMIT_MS"
definition PASTE_AFTER_LATE_COMMIT_MS :: nat where
  [consts_def]: "PASTE_AFTER_LATE_COMMIT_MS =
     LAYOUT_SWITCH_TIMEOUT_MS + PASTE_TARGET_COMMIT_MIN_MS + PASTE_UIA_MARGIN_MS"

section \<open>The budget asked of the gate\<close>

definition checked_add :: "nat \<Rightarrow> nat \<Rightarrow> nat option" where
  "checked_add a b = (if a + b < U64_LIMIT then Some (a + b) else None)"

definition checked_mul :: "nat \<Rightarrow> nat \<Rightarrow> nat option" where
  "checked_mul a b = (if a * b < U64_LIMIT then Some (a * b) else None)"

fun checked_sum :: "nat \<Rightarrow> nat list \<Rightarrow> nat option" where
  "checked_sum n [] = Some n"
| "checked_sum n (m # ms) = (case checked_add n m of None \<Rightarrow> None | Some k \<Rightarrow> checked_sum k ms)"

definition conversion_gate_budget_ms :: "nat \<Rightarrow> bool \<Rightarrow> bool \<Rightarrow> nat option" where
  "conversion_gate_budget_ms step_count paced include_forward_wait =
     (let sum = (if include_forward_wait then HOOK_FORWARD_TIMEOUT_MS else 0);
          sum = (if paced then
             (case checked_mul (step_count - 1) NOTEPAD_REPLAY_STEP_DELAY_MS of
                None \<Rightarrow> None
              | Some pacing_ms \<Rightarrow>
                  checked_sum sum [NOTEPAD_TEXT_BARRIER_TIMEOUT_MS, LAYOUT_SWITCH_TIMEOUT_MS, pacing_ms,
                    NOTEPAD_TEXT_BARRIER_TIMEOUT_MS])
           else checked_sum sum [INPUT_SETTLE_AFTER_FORWARD_MS, LAYOUT_SWITCH_TIMEOUT_MS, REPLAY_COMMIT_MS])
      in case sum of None \<Rightarrow> None | Some n \<Rightarrow> checked_add n NOTEPAD_REPLAY_GATE_MARGIN_MS)"

definition paced_replay_fits_gate :: "nat \<Rightarrow> bool" where
  "paced_replay_fits_gate step_count =
     (case conversion_gate_budget_ms step_count True True of
        None \<Rightarrow> False | Some needed \<Rightarrow> needed \<le> CORRECTION_GATE_MAX_HOLD_MS)"

definition paste_gate_budget_ms :: "bool \<Rightarrow> nat" where
  "paste_gate_budget_ms capability_probe =
     (if capability_probe then INPUT_SETTLE_AFTER_FORWARD_MS + NOTEPAD_TEXT_BARRIER_TIMEOUT_MS
      else NOTEPAD_TEXT_BARRIER_TIMEOUT_MS)
     + UIA_SELECTION_CONFIRM_TIMEOUT_MS + PASTE_MIN_INSTALL_MS + PASTE_AFTER_SUBMIT_MS"

section \<open>The budget of a protected paste\<close>

datatype paste_patience = Automatic | Manual

definition confirm_timeout :: "paste_patience \<Rightarrow> duration" where
  "confirm_timeout p = from_millis (case p of
     Automatic \<Rightarrow> UIA_SELECTION_CONFIRM_TIMEOUT_MS | Manual \<Rightarrow> UIA_MANUAL_SELECTION_CONFIRM_TIMEOUT_MS)"

definition patience_attempts :: "paste_patience \<Rightarrow> nat" where
  "patience_attempts p = (case p of Automatic \<Rightarrow> 1 | Manual \<Rightarrow> UIA_MANUAL_SELECTION_ATTEMPTS)"

definition clipboard_install_timeout :: "paste_patience \<Rightarrow> duration" where
  "clipboard_install_timeout p = from_millis (case p of
     Automatic \<Rightarrow> CLIPBOARD_AUTOMATIC_INSTALL_TIMEOUT_MS | Manual \<Rightarrow> CLIPBOARD_BROKER_TIMEOUT_MS)"

definition paste_patience_of :: "bool \<Rightarrow> paste_patience" where
  "paste_patience_of forced = (if forced then Manual else Automatic)"

record paste_budget =
  pb_deadline :: "instant option"

definition budget_remaining :: "paste_budget \<Rightarrow> instant \<Rightarrow> duration option" where
  "budget_remaining b now = map_option (\<lambda>deadline. deadline - now) (pb_deadline b)"

definition allows_selection :: "paste_budget \<Rightarrow> instant \<Rightarrow> paste_patience \<Rightarrow> bool" where
  "allows_selection b now p =
     (let needed = confirm_timeout p + from_millis (PASTE_MIN_INSTALL_MS + PASTE_AFTER_SUBMIT_MS) in
      case budget_remaining b now of None \<Rightarrow> True | Some remaining \<Rightarrow> needed \<le> remaining)"

definition install_timeout :: "paste_budget \<Rightarrow> instant \<Rightarrow> paste_patience \<Rightarrow> duration option" where
  "install_timeout b now p =
     (let limit = clipboard_install_timeout p in
      case budget_remaining b now of
        None \<Rightarrow> Some limit
      | Some remaining \<Rightarrow>
          if remaining < from_millis PASTE_AFTER_SUBMIT_MS then None
          else
            let left = remaining - from_millis PASTE_AFTER_SUBMIT_MS in
            if from_millis PASTE_MIN_INSTALL_MS \<le> left then Some (min left limit) else None)"

definition allows_submit :: "paste_budget \<Rightarrow> instant \<Rightarrow> bool" where
  "allows_submit b now =
     (case budget_remaining b now of
        None \<Rightarrow> True | Some remaining \<Rightarrow> from_millis PASTE_AFTER_SUBMIT_MS \<le> remaining)"

definition wait_within :: "paste_budget \<Rightarrow> instant \<Rightarrow> duration \<Rightarrow> duration \<Rightarrow> duration" where
  "wait_within b now limit reserve =
     (case budget_remaining b now of
        None \<Rightarrow> limit | Some remaining \<Rightarrow> min (remaining - reserve) limit)"

definition commit_late_until :: "paste_budget \<Rightarrow> instant \<Rightarrow> duration \<Rightarrow> instant" where
  "commit_late_until b poll_end reserve =
     (let late = poll_end + from_millis PASTE_COMMIT_LATE_ANSWER_MS in
      case pb_deadline b of
        None \<Rightarrow> late
      | Some deadline \<Rightarrow> if deadline < reserve then late else min late (deadline - reserve))"

section \<open>The hand-over of a gate\<close>

datatype gate_ack = AckAccepted | AckRefused | AckUnanswered

definition gate_ack_outcome :: "bool \<Rightarrow> nat \<Rightarrow> bool \<Rightarrow> gate_ack" where
  "gate_ack_outcome returned message_result timed_out =
     (if returned then (if message_result = 1 then AckAccepted else AckRefused)
      else if timed_out then AckUnanswered
      else AckRefused)"

definition fail_open_after_ack :: "gate_ack \<Rightarrow> bool" where
  "fail_open_after_ack outcome \<longleftrightarrow> outcome = AckRefused"

definition handed_over_gate_deadline :: "bool \<Rightarrow> instant \<Rightarrow> u64 \<Rightarrow> nat \<Rightarrow> instant option" where
  "handed_over_gate_deadline sent asked_at answer required_ms =
     (let remaining_ms = unat answer in
      if sent \<and> remaining_ms \<noteq> 0 \<and> required_ms \<le> remaining_ms
      then Some (asked_at + from_millis remaining_ms) else None)"

section \<open>The order the hotkey walks through\<close>

definition push_new :: "'a list \<Rightarrow> 'a \<Rightarrow> 'a list" where
  "push_new order x = (if x \<in> set order then order else order @ [x])"

definition layout_cycle_order :: "language \<Rightarrow> language list \<Rightarrow> language list \<Rightarrow> language list" where
  "layout_cycle_order source enabled ranked = foldl push_new [source] (ranked @ enabled)"

section \<open>What the budgets guarantee\<close>

lemma checked_sum_Some: "checked_sum n ms = Some k \<Longrightarrow> k = n + sum_list ms"
  by (induction ms arbitrary: n) (fastforce simp: checked_add_def split: if_splits)+

lemma checked_sum_fits: "n + sum_list ms < U64_LIMIT \<Longrightarrow> checked_sum n ms = Some (n + sum_list ms)"
  by (induction ms arbitrary: n) (auto simp: checked_add_def add.assoc)

lemma paced_budget:
  "conversion_gate_budget_ms steps True True = Some needed \<Longrightarrow> needed = 800 + 3 * (steps - 1)"
  by (auto simp: conversion_gate_budget_ms_def consts_def checked_mul_def checked_add_def
      dest!: checked_sum_Some split: option.splits if_splits)

text \<open>A paced replay fits the gate exactly when it has at most 134 steps, for any number of
  steps a \<open>usize\<close> can hold: the checked arithmetic refuses what would overflow instead of wrapping
  into a small budget.\<close>

theorem paced_replay_bound: "paced_replay_fits_gate steps \<longleftrightarrow> steps \<le> 134"
proof
  assume "paced_replay_fits_gate steps"
  then obtain needed where "conversion_gate_budget_ms steps True True = Some needed" "needed \<le> 1200"
    by (auto simp: paced_replay_fits_gate_def CORRECTION_GATE_MAX_HOLD_MS_def split: option.splits)
  then show "steps \<le> 134"
    using paced_budget by fastforce
next
  assume steps: "steps \<le> 134"
  then have "checked_mul (steps - 1) 3 = Some ((steps - 1) * 3)"
    by (simp add: checked_mul_def U64_LIMIT_def)
  then have "conversion_gate_budget_ms steps True True = Some (800 + (steps - 1) * 3)"
    using steps by (simp add: conversion_gate_budget_ms_def consts_def checked_add_def U64_LIMIT_def)
  then show "paced_replay_fits_gate steps"
    using steps by (simp add: paced_replay_fits_gate_def CORRECTION_GATE_MAX_HOLD_MS_def)
qed

lemmas budget_defs =
  budget_remaining_def allows_selection_def install_timeout_def allows_submit_def wait_within_def
  commit_late_until_def confirm_timeout_def clipboard_install_timeout_def

lemma selection_leaves_installation:
  assumes "pb_deadline b = Some deadline" "allows_selection b t p" "t' \<le> t + confirm_timeout p"
  shows "\<exists>limit. install_timeout b t' p = Some limit
    \<and> from_millis PASTE_MIN_INSTALL_MS \<le> limit \<and> limit \<le> clipboard_install_timeout p"
proof -
  have left: "from_millis PASTE_MIN_INSTALL_MS + from_millis PASTE_AFTER_SUBMIT_MS \<le> deadline - t'"
    using assms by (simp add: allows_selection_def budget_remaining_def from_millis_def Let_def add_mult_distrib)
  have least: "from_millis PASTE_MIN_INSTALL_MS \<le> clipboard_install_timeout p"
    by (cases p) (simp_all add: clipboard_install_timeout_def consts_def)
  show ?thesis
    using left least assms(1) by (simp add: install_timeout_def budget_remaining_def Let_def)
qed

lemma installation_leaves_submit:
  assumes "pb_deadline b = Some deadline" "install_timeout b t p = Some limit" "t' \<le> t + limit"
  shows "allows_submit b t'"
  using assms by (auto simp: install_timeout_def allows_submit_def budget_remaining_def Let_def split: if_splits)

lemma submit_leaves_commit:
  assumes "pb_deadline b = Some deadline" "allows_submit b t"
  shows "t + from_millis PASTE_AFTER_SUBMIT_MS \<le> deadline
    \<and> commit_late_until b (t + from_millis NOTEPAD_TEXT_BARRIER_TIMEOUT_MS)
        (from_millis PASTE_AFTER_LATE_COMMIT_MS) + from_millis PASTE_AFTER_LATE_COMMIT_MS \<le> deadline"
proof -
  have left: "from_millis PASTE_AFTER_SUBMIT_MS \<le> deadline - t"
    using assms by (simp add: allows_submit_def budget_remaining_def)
  have least: "from_millis PASTE_AFTER_LATE_COMMIT_MS \<le> from_millis PASTE_AFTER_SUBMIT_MS"
    "0 < from_millis PASTE_AFTER_SUBMIT_MS"
    by (simp_all add: from_millis_def consts_def)
  then have "from_millis PASTE_AFTER_LATE_COMMIT_MS \<le> deadline"
    using left by linarith
  moreover have "min a (deadline - r) + r \<le> deadline" if "r \<le> deadline" for a r
    using that min.cobounded2 [of a "deadline - r"] by linarith
  ultimately show ?thesis
    using left least assms(1) by (simp add: commit_late_until_def Let_def)
qed

lemma wait_keeps_reserve:
  assumes "pb_deadline b = Some deadline" "t + reserve \<le> deadline"
  shows "wait_within b t limit reserve \<le> limit \<and> t + wait_within b t limit reserve + reserve \<le> deadline"
  using assms by (auto simp: wait_within_def budget_remaining_def)


text \<open>A paste whose gate has its whole budget may start, with what the settle before it took.\<close>

lemma paste_budget_starts:
  assumes "pb_deadline b = Some (start + from_millis (paste_gate_budget_ms probe))"
    and "t \<le> start + from_millis ((if probe then INPUT_SETTLE_AFTER_FORWARD_MS else 0)
          + NOTEPAD_TEXT_BARRIER_TIMEOUT_MS)"
  shows "allows_selection b t Automatic"
  using assms
  by (cases probe) (simp_all add: allows_selection_def budget_remaining_def confirm_timeout_def
      paste_gate_budget_ms_def from_millis_def consts_def)


section \<open>The cycle of layouts\<close>

lemma foldl_push_new:
  "distinct order \<Longrightarrow>
   distinct (foldl push_new order xs) \<and> set (foldl push_new order xs) = set order \<union> set xs
   \<and> prefix order (foldl push_new order xs)"
proof (induction xs arbitrary: order)
  case (Cons x xs)
  have "distinct (push_new order x)" "set (push_new order x) = insert x (set order)"
    and p: "prefix order (push_new order x)"
    using Cons.prems by (auto simp: push_new_def)
  then show ?case
    using Cons.IH [of "push_new order x"] prefix_order.trans [OF p] by auto
qed simp

text \<open>The hotkey's walk visits every layout once: it starts at the language the word was typed in,
  names no language twice, names every enabled one and every ranked one, and tries all ranked
  readings before the rest, in the order of the ranking when that order is new.\<close>

theorem layout_cycle_visits_all:
  "hd (layout_cycle_order source enabled ranked) = source
   \<and> distinct (layout_cycle_order source enabled ranked)
   \<and> set (layout_cycle_order source enabled ranked) = insert source (set ranked \<union> set enabled)
   \<and> prefix (foldl push_new [source] ranked) (layout_cycle_order source enabled ranked)"
proof -
  let ?ranked = "foldl push_new [source] ranked"
  have r: "distinct ?ranked" "set ?ranked = insert source (set ranked)" "prefix [source] ?ranked"
    using foldl_push_new [of "[source]" ranked] by auto
  have "layout_cycle_order source enabled ranked = foldl push_new ?ranked enabled"
    by (simp add: layout_cycle_order_def)
  then have "distinct (layout_cycle_order source enabled ranked)"
    "set (layout_cycle_order source enabled ranked) = set ?ranked \<union> set enabled"
    "prefix ?ranked (layout_cycle_order source enabled ranked)"
    using foldl_push_new [OF r(1), of enabled] by auto
  moreover have "hd (layout_cycle_order source enabled ranked) = source"
    using r(3) calculation(3) by (auto simp: prefix_def)
  ultimately show ?thesis
    using r(2) by auto
qed

end
