(* ===== verification/Text_Field.thy ===== *)
theory Text_Field
  imports Gate_Budget Backend_Rules
begin

text \<open>
  \<open>src/windows_agent.rs\<close>: the text barrier and the selection of the word before the caret. The
  text pattern calls of the field (the trait \<open>TextField\<close>), the clock and the sleep are the record
  \<open>text_field\<close>: each takes the state of the outside world and returns the new one, so a field may
  answer late, differently each time, or not at all. A range is a handle, as in UI Automation:
  moving it changes the state. The \<open>Cell\<close> of the report is passed along.
\<close>

datatype text_edit_backend = BackendPaste | BackendPhysical | BackendProbe | BackendObserve

definition text_edit_backend_for_strategy :: "backend_strategy \<Rightarrow> text_edit_backend" where
  "text_edit_backend_for_strategy strategy = (case strategy of
     CapabilityProbe \<Rightarrow> BackendProbe | ProtectedPaste \<Rightarrow> BackendPaste
   | PhysicalReplay \<Rightarrow> BackendPhysical | ObserveOnly \<Rightarrow> BackendObserve)"

definition requires_text_barrier :: "text_edit_backend \<Rightarrow> bool" where
  "requires_text_barrier b \<longleftrightarrow> b = BackendPaste"

definition BACKEND_OBSERVE_ONLY :: u8 where [consts_def]: "BACKEND_OBSERVE_ONLY = 0"
definition BACKEND_PROTECTED_PASTE :: u8 where [consts_def]: "BACKEND_PROTECTED_PASTE = 1"
definition BACKEND_PHYSICAL_REPLAY :: u8 where [consts_def]: "BACKEND_PHYSICAL_REPLAY = 2"
definition BACKEND_CAPABILITY_PROBE :: u8 where [consts_def]: "BACKEND_CAPABILITY_PROBE = 3"
definition BACKEND_SELECTION_MISMATCH :: u8 where [consts_def]: "BACKEND_SELECTION_MISMATCH = 6"
definition BACKEND_SELECTION_UNSUPPORTED :: u8 where [consts_def]: "BACKEND_SELECTION_UNSUPPORTED = 7"

definition backend_status_code :: "text_edit_backend \<Rightarrow> u8" where
  "backend_status_code b = (case b of
     BackendPaste \<Rightarrow> BACKEND_PROTECTED_PASTE | BackendPhysical \<Rightarrow> BACKEND_PHYSICAL_REPLAY
   | BackendProbe \<Rightarrow> BACKEND_CAPABILITY_PROBE | BackendObserve \<Rightarrow> BACKEND_OBSERVE_ONLY)"

datatype barrier_status = Match | Mismatch | Unavailable_text

datatype character_class = NoChar | Space | NonBreakingSpace | LineBreak | OtherChar

datatype barrier_stage =
  StageNone | TextLength | Resolver | SelectionStage | SelectionRanges | Caret | CaretNotEmpty
  | RangeClone | RangeMove | TextRead | TextCompared | SelectCall | SelectionConfirm | Provider

datatype resolver_reason =
  ReasonNone | AutomationUnavailable | FocusUnavailable | WalkerUnavailable | ProcessUnavailable
  | PasswordReason | PasswordPropertyUnavailable | ParentUnavailable | NoEditableAncestor
  | OwnershipUnproven

datatype selection_poll = PollUnreadable | PollNotOneRange | PollEmpty | PollText ustr

datatype selection_confirmation = Confirmed | OtherText | NotShown | Unreadable

datatype selection_cleanup = Collapsed | Unverified

record barrier_report =
  tb_stage :: barrier_stage
  tb_expected_chars :: nat
  tb_actual_chars :: nat
  tb_moved_units :: int
  tb_exact :: bool
  tb_trailing_nbsp_equivalent :: bool
  tb_word_at_start :: bool
  tb_word_at_end :: bool
  tb_actual_without_first_is_word :: bool
  tb_actual_without_last_is_word :: bool
  tb_leading :: character_class
  tb_trailing :: character_class
  tb_resolver_depth :: nat
  tb_resolver_reason :: resolver_reason
  tb_resolver_process_id :: u32
  tb_confirmation :: "selection_confirmation option"
  tb_attempts :: nat
  tb_cleanup :: "selection_cleanup option"

definition barrier_report_default :: barrier_report where
  "barrier_report_default =
     \<lparr>tb_stage = StageNone, tb_expected_chars = 0, tb_actual_chars = 0, tb_moved_units = 0,
      tb_exact = False, tb_trailing_nbsp_equivalent = False, tb_word_at_start = False,
      tb_word_at_end = False, tb_actual_without_first_is_word = False,
      tb_actual_without_last_is_word = False, tb_leading = NoChar, tb_trailing = NoChar,
      tb_resolver_depth = 0, tb_resolver_reason = ReasonNone, tb_resolver_process_id = 0,
      tb_confirmation = None, tb_attempts = 0, tb_cleanup = None\<rparr>"

definition editable_resolver_action :: "bool \<Rightarrow> bool \<Rightarrow> bool" where
  "editable_resolver_action exact_process editable \<longleftrightarrow> exact_process \<and> editable"

datatype capability_decision = DecidePaste | DecideReplay | CancelMismatch | Unsupported_field

definition capability_decide :: "barrier_status \<Rightarrow> bool \<Rightarrow> capability_decision" where
  "capability_decide barrier physical_fallback_allowed = (case barrier of
     Match \<Rightarrow> DecidePaste
   | Mismatch \<Rightarrow> CancelMismatch
   | Unavailable_text \<Rightarrow> (if physical_fallback_allowed then DecideReplay else Unsupported_field))"

definition physical_replay_fallback_is_safe :: "resolver_reason \<Rightarrow> bool" where
  "physical_replay_fallback_is_safe reason \<longleftrightarrow>
     reason \<in> {WalkerUnavailable, ParentUnavailable, NoEditableAncestor, OwnershipUnproven}"

section \<open>Comparing texts\<close>

definition nbsp_equivalent :: "ustr \<Rightarrow> ustr \<Rightarrow> bool" where
  "nbsp_equivalent actual expected =
     (case (strip_suffix_char 0x20 expected, strip_suffix_char 0xA0 actual) of
        (Some expected_word, Some actual_word) \<Rightarrow> expected_word = actual_word
      | _ \<Rightarrow> False)"

definition text_barrier_matches :: "ustr \<Rightarrow> ustr \<Rightarrow> bool" where
  "text_barrier_matches actual expected \<longleftrightarrow> actual = expected \<or> nbsp_equivalent actual expected"

definition barrier_character_class :: "uchar option \<Rightarrow> character_class" where
  "barrier_character_class c = (case c of
     None \<Rightarrow> NoChar
   | Some c \<Rightarrow> if c = 0x20 then Space else if c = 0xA0 then NonBreakingSpace
       else if c = 13 \<or> c = 10 then LineBreak else OtherChar)"

definition classify_text_barrier :: "ustr \<Rightarrow> ustr \<Rightarrow> barrier_stage \<Rightarrow> int \<Rightarrow> barrier_report" where
  "classify_text_barrier actual expected stage moved_units =
     (let expected_word = (case strip_suffix_char 0x20 expected of None \<Rightarrow> expected | Some w \<Rightarrow> w) in
      \<lparr>tb_stage = stage, tb_expected_chars = length expected, tb_actual_chars = length actual,
       tb_moved_units = moved_units, tb_exact = (actual = expected),
       tb_trailing_nbsp_equivalent = nbsp_equivalent actual expected,
       tb_word_at_start = prefix expected_word actual, tb_word_at_end = suffix expected_word actual,
       tb_actual_without_first_is_word = (actual \<noteq> [] \<and> drop 1 actual = expected_word),
       tb_actual_without_last_is_word = (take (length actual - 1) actual = expected_word),
       tb_leading = barrier_character_class (if actual = [] then None else Some (hd actual)),
       tb_trailing = barrier_character_class (if actual = [] then None else Some (last actual)),
       tb_resolver_depth = 0, tb_resolver_reason = ReasonNone, tb_resolver_process_id = 0,
       tb_confirmation = None, tb_attempts = 0, tb_cleanup = None\<rparr>)"

definition barrier_units :: "ustr \<Rightarrow> int option" where
  "barrier_units expected_text =
     (let units = utf16_len expected_text in if 1 \<le> units \<and> units \<le> 128 then Some (int units) else None)"

section \<open>The field\<close>

datatype 'r selection_read = ReadUnreadable | ReadNotOneRange | RangeUnreadable | One 'r

record ('s, 'r) text_field =
  tf_selection :: "'s \<Rightarrow> 'r selection_read \<times> 's"
  tf_is_empty :: "'r \<Rightarrow> 's \<Rightarrow> bool option \<times> 's"
  tf_clone_range :: "'r \<Rightarrow> 's \<Rightarrow> 'r option \<times> 's"
  tf_move_start :: "'r \<Rightarrow> int \<Rightarrow> 's \<Rightarrow> int option \<times> 's"
  tf_text :: "'r \<Rightarrow> 's \<Rightarrow> ustr option \<times> 's"
  tf_select :: "'r \<Rightarrow> 's \<Rightarrow> bool \<times> 's"
  tf_collapse_to_end :: "'r \<Rightarrow> 's \<Rightarrow> bool \<times> 's"
  tf_now :: "'s \<Rightarrow> instant \<times> 's"
  tf_sleep :: "duration \<Rightarrow> 's \<Rightarrow> 's"

definition I32_MIN :: int where "I32_MIN = - 2147483648"

definition read_preceding_text ::
  "('s, 'r) text_field \<Rightarrow> int \<Rightarrow> ustr \<Rightarrow> barrier_report \<Rightarrow> 's \<Rightarrow>
     (barrier_status + 'r) \<times> barrier_report \<times> 's" where
  "read_preceding_text F units expected_text report s =
     (case tf_selection F s of
        (ReadUnreadable, s) \<Rightarrow> (Inl Unavailable_text, report\<lparr>tb_stage := SelectionStage\<rparr>, s)
      | (ReadNotOneRange, s) \<Rightarrow> (Inl Mismatch, report\<lparr>tb_stage := SelectionRanges\<rparr>, s)
      | (RangeUnreadable, s) \<Rightarrow> (Inl Unavailable_text, report\<lparr>tb_stage := Caret\<rparr>, s)
      | (One caret, s) \<Rightarrow>
      let (empty, s) = tf_is_empty F caret s in
      if empty \<noteq> Some True then (Inl Mismatch, report\<lparr>tb_stage := CaretNotEmpty\<rparr>, s)
      else case tf_clone_range F caret s of
        (None, s) \<Rightarrow> (Inl Unavailable_text, report\<lparr>tb_stage := RangeClone\<rparr>, s)
      | (Some word_range, s) \<Rightarrow>
      let (moved, s) = tf_move_start F word_range (- units) s in
      if moved \<noteq> Some (- units) then
        (Inl Mismatch,
         report\<lparr>tb_moved_units := (case moved of None \<Rightarrow> I32_MIN | Some m \<Rightarrow> m), tb_stage := RangeMove\<rparr>, s)
      else case tf_text F word_range s of
        (None, s) \<Rightarrow> (Inl Unavailable_text, report\<lparr>tb_moved_units := - units, tb_stage := TextRead\<rparr>, s)
      | (Some actual, s) \<Rightarrow>
          ((if text_barrier_matches actual expected_text then Inr word_range else Inl Mismatch),
           classify_text_barrier actual expected_text TextCompared (- units), s))"

definition SELECTION_COLLAPSE_ATTEMPTS :: nat where [consts_def]: "SELECTION_COLLAPSE_ATTEMPTS = 4"
definition SELECTION_COLLAPSE_BUDGET_MS :: nat where [consts_def]: "SELECTION_COLLAPSE_BUDGET_MS = 200"

text \<open>The attempts of \<open>collapse_selection\<close>: the number left, and whether this one is the first.\<close>

fun collapse_attempts ::
  "('s, 'r) text_field \<Rightarrow> instant \<Rightarrow> bool \<Rightarrow> nat \<Rightarrow> 's \<Rightarrow> selection_cleanup \<times> 's" where
  "collapse_attempts F deadline first 0 s = (Unverified, s)"
| "collapse_attempts F deadline first (Suc left) s =
     (let (over, s) =
        (if first then (False, s)
         else let (now, s) = tf_now F s in
           if deadline \<le> now then (True, s) else (False, tf_sleep F (from_millis 2) s)) in
      if over then (Unverified, s)
      else case tf_selection F s of
        (One word_range, s) \<Rightarrow>
          (case tf_is_empty F word_range s of
             (Some True, s) \<Rightarrow> (Collapsed, s)
           | (Some False, s) \<Rightarrow>
               let (collapsed, s) = tf_collapse_to_end F word_range s in
               collapse_attempts F deadline False left (if collapsed then snd (tf_select F word_range s) else s)
           | (None, s) \<Rightarrow> collapse_attempts F deadline False left s)
      | (_, s) \<Rightarrow> collapse_attempts F deadline False left s)"

definition collapse_selection :: "('s, 'r) text_field \<Rightarrow> 's \<Rightarrow> selection_cleanup \<times> 's" where
  "collapse_selection F s =
     (let (now, s) = tf_now F s in
      collapse_attempts F (now + from_millis SELECTION_COLLAPSE_BUDGET_MS) True
        SELECTION_COLLAPSE_ATTEMPTS s)"

section \<open>Confirming the selection\<close>

text \<open>\<open>confirm_selection\<close> over the closures it is given, on any state: its loop may run as long as
  \<open>expired\<close> says no, so it is a partial function, and that it ends is a theorem.\<close>

partial_function (option) confirm_loop ::
  "('t \<Rightarrow> bool \<times> 't) \<Rightarrow> ('t \<Rightarrow> selection_poll \<times> 't) \<Rightarrow> (ustr \<Rightarrow> bool) \<Rightarrow> ('t \<Rightarrow> 't) \<Rightarrow> bool \<Rightarrow> bool \<Rightarrow> 't \<Rightarrow>
     (selection_confirmation \<times> 't) option" where
  "confirm_loop expired poll matches sleep saw_other_text saw_not_shown t =
     (let e = expired t in
      if fst e then
        Some ((if saw_other_text then OtherText else if saw_not_shown then NotShown else Unreadable), snd e)
      else
        let p = poll (snd e) in
        case fst p of
          PollUnreadable \<Rightarrow> confirm_loop expired poll matches sleep saw_other_text saw_not_shown (sleep (snd p))
        | PollNotOneRange \<Rightarrow> confirm_loop expired poll matches sleep saw_other_text True (sleep (snd p))
        | PollEmpty \<Rightarrow> confirm_loop expired poll matches sleep saw_other_text True (sleep (snd p))
        | PollText actual \<Rightarrow>
            if matches actual then Some (Confirmed, snd p)
            else confirm_loop expired poll matches sleep True saw_not_shown (sleep (snd p)))"

definition confirm_selection ::
  "('t \<Rightarrow> bool \<times> 't) \<Rightarrow> ('t \<Rightarrow> selection_poll \<times> 't) \<Rightarrow> (ustr \<Rightarrow> bool) \<Rightarrow> ('t \<Rightarrow> 't) \<Rightarrow>
     ('t \<Rightarrow> selection_cleanup \<times> 't) \<Rightarrow> 't \<Rightarrow>
     ((selection_confirmation \<times> selection_cleanup option) \<times> 't) option" where
  "confirm_selection expired poll matches sleep collapse t =
     (case confirm_loop expired poll matches sleep False False t of
        None \<Rightarrow> None
      | Some (outcome, t) \<Rightarrow>
          if outcome \<noteq> Confirmed
          then let (cleanup, t) = collapse t in Some ((outcome, Some cleanup), t)
          else Some ((outcome, None), t))"

definition confirmation_status :: "selection_confirmation \<Rightarrow> barrier_status" where
  "confirmation_status c = (case c of
     Confirmed \<Rightarrow> Match | OtherText \<Rightarrow> Mismatch | NotShown \<Rightarrow> Mismatch | Unreadable \<Rightarrow> Unavailable_text)"

record selection_attempt =
  sa_status :: barrier_status
  sa_confirmation :: "selection_confirmation option"
  sa_cleanup :: "selection_cleanup option"

definition poll_selection ::
  "('s, 'r) text_field \<Rightarrow> ustr \<Rightarrow> int \<Rightarrow> barrier_report \<times> 's \<Rightarrow> selection_poll \<times> (barrier_report \<times> 's)" where
  "poll_selection F expected_text units t =
     (let (report, s) = t in
      case tf_selection F s of
        (ReadUnreadable, s) \<Rightarrow> (PollUnreadable, report, s)
      | (RangeUnreadable, s) \<Rightarrow> (PollUnreadable, report, s)
      | (ReadNotOneRange, s) \<Rightarrow> (PollNotOneRange, report, s)
      | (One selected, s) \<Rightarrow>
          let (empty, s) = tf_is_empty F selected s in
          if empty = Some True then (PollEmpty, report, s)
          else case tf_text F selected s of
            (Some actual, s) \<Rightarrow>
              (PollText actual, classify_text_barrier actual expected_text SelectionConfirm (- units), s)
          | (None, s) \<Rightarrow> (PollUnreadable, report, s))"

text \<open>The end of \<open>select_preceding_text_in\<close>, once \<open>Select()\<close> succeeded.\<close>

definition confirm_own_selection ::
  "('s, 'r) text_field \<Rightarrow> ustr \<Rightarrow> duration \<Rightarrow> int \<Rightarrow> barrier_report \<Rightarrow> 's \<Rightarrow>
     (selection_attempt \<times> (barrier_report \<times> 's)) option" where
  "confirm_own_selection F expected_text timeout units report s =
     (let (now, s) = tf_now F s; deadline = now + timeout in
      case confirm_selection
             (\<lambda>(report, s). let (now, s) = tf_now F s in (deadline \<le> now, report, s))
             (poll_selection F expected_text units)
             (\<lambda>actual. text_barrier_matches actual expected_text)
             (\<lambda>(report, s). (report, tf_sleep F (from_millis 1) s))
             (\<lambda>(report, s). let (c, s) = collapse_selection F s in (c, report, s))
             (report, s) of
        None \<Rightarrow> None
      | Some ((confirmation, cleanup), report, s) \<Rightarrow>
          let final_report =
            (if confirmation = Unreadable
             then barrier_report_default\<lparr>tb_stage := SelectionConfirm, tb_expected_chars := length expected_text,
                    tb_moved_units := - units\<rparr>
             else report)
          in Some (\<lparr>sa_status = confirmation_status confirmation, sa_confirmation = Some confirmation,
                    sa_cleanup = cleanup\<rparr>,
                   final_report\<lparr>tb_confirmation := Some confirmation, tb_cleanup := cleanup\<rparr>, s))"

definition select_preceding_text_in ::
  "('s, 'r) text_field \<Rightarrow> ustr \<Rightarrow> duration \<Rightarrow> bool \<Rightarrow> (barrier_report \<times> 's \<Rightarrow> barrier_status option \<times> (barrier_report \<times> 's)) \<Rightarrow>
     barrier_report \<times> 's \<Rightarrow> (selection_attempt \<times> (barrier_report \<times> 's)) option" where
  "select_preceding_text_in F expected_text timeout earlier_attempt resolve t =
     (case barrier_units expected_text of
        None \<Rightarrow>
          Some (\<lparr>sa_status = Unavailable_text, sa_confirmation = None, sa_cleanup = None\<rparr>,
                (fst t)\<lparr>tb_stage := TextLength\<rparr>, snd t)
      | Some units \<Rightarrow>
      case resolve t of
        (Some status, t) \<Rightarrow> Some (\<lparr>sa_status = status, sa_confirmation = None, sa_cleanup = None\<rparr>, t)
      | (None, report, s) \<Rightarrow>
      case read_preceding_text F units expected_text report s of
        (Inl status, report, s) \<Rightarrow>
          let late_selection = (earlier_attempt \<and> tb_stage report = CaretNotEmpty);
              (cleanup, s) = (if late_selection
                then let (c, s) = collapse_selection F s in (Some c, s) else (None, s))
          in Some (\<lparr>sa_status = status, sa_confirmation = None, sa_cleanup = cleanup\<rparr>,
                   report\<lparr>tb_cleanup := cleanup\<rparr>, s)
      | (Inr word_range, report, s) \<Rightarrow>
      let (selected, s) = tf_select F word_range s in
      if \<not> selected then
        let (cleanup, s) = collapse_selection F s in
        Some (\<lparr>sa_status = Mismatch, sa_confirmation = None, sa_cleanup = Some cleanup\<rparr>,
              report\<lparr>tb_stage := SelectCall, tb_cleanup := Some cleanup\<rparr>, s)
      else
      confirm_own_selection F expected_text timeout units report s)"

text \<open>\<open>retry_unshown_selection\<close>: so far \<open>runs\<close> attempts have run.\<close>

definition unshown :: "selection_attempt \<Rightarrow> bool" where
  "unshown a \<longleftrightarrow> sa_confirmation a = Some NotShown \<and> sa_cleanup a = Some Collapsed"

function retry_unshown_selection ::
  "nat \<Rightarrow> ('t \<Rightarrow> bool \<times> 't) \<Rightarrow> (bool \<Rightarrow> 't \<Rightarrow> (selection_attempt \<times> 't) option) \<Rightarrow> nat \<Rightarrow> 't \<Rightarrow>
     (selection_attempt \<times> nat \<times> 't) option" where
  "retry_unshown_selection attempts may_retry attempt runs t =
     (case attempt (runs > 0) t of
        None \<Rightarrow> None
      | Some (result, t) \<Rightarrow>
          let runs = runs + 1 in
          if \<not> unshown result \<or> attempts \<le> runs then Some (result, runs, t)
          else let (again, t) = may_retry t in
            if \<not> again then Some (result, runs, t)
            else retry_unshown_selection attempts may_retry attempt runs t)"
  by pat_completeness auto
termination
  by (relation "measure (\<lambda>(attempts, _, _, runs, _). attempts - runs)") auto

declare retry_unshown_selection.simps [simp del]

definition select_preceding_text_retrying ::
  "('s, 'r) text_field \<Rightarrow> ustr \<Rightarrow> paste_patience \<Rightarrow> paste_budget \<Rightarrow>
     (barrier_report \<times> 's \<Rightarrow> barrier_status option \<times> (barrier_report \<times> 's)) \<Rightarrow> barrier_report \<times> 's \<Rightarrow>
     ((barrier_status \<times> selection_cleanup option) \<times> (barrier_report \<times> 's)) option" where
  "select_preceding_text_retrying F expected_text patience budget resolve t =
     (case retry_unshown_selection (patience_attempts patience)
             (\<lambda>(report, s). let (now, s) = tf_now F s in (allows_selection budget now patience, report, s))
             (\<lambda>earlier (report, s).
                select_preceding_text_in F expected_text (confirm_timeout patience) earlier resolve
                  (barrier_report_default\<lparr>tb_expected_chars := length expected_text\<rparr>, s))
             0 t of
        None \<Rightarrow> None
      | Some (result, attempts, report, s) \<Rightarrow>
          Some ((sa_status result, sa_cleanup result), report\<lparr>tb_attempts := attempts\<rparr>, s))"

section \<open>The attempts end\<close>

text \<open>What is assumed of the clock: a reading lies between the times before and after it, time does
  not run back during a call to the field, and a sleep lasts at least as long as it was asked to.\<close>

definition field_clock :: "('s, 'r) text_field \<Rightarrow> ('s \<Rightarrow> instant) \<Rightarrow> bool" where
  "field_clock F clock \<longleftrightarrow>
     (\<forall>s. clock s \<le> fst (tf_now F s) \<and> fst (tf_now F s) \<le> clock (snd (tf_now F s)))
     \<and> (\<forall>s. clock s \<le> clock (snd (tf_selection F s)))
     \<and> (\<forall>r s. clock s \<le> clock (snd (tf_is_empty F r s)))
     \<and> (\<forall>r s. clock s \<le> clock (snd (tf_text F r s)))
     \<and> (\<forall>d s. clock s + d \<le> clock (tf_sleep F d s))"

lemma confirm_loop_returns:
  assumes now: "\<And>t. \<not> fst (expired t) \<Longrightarrow> clk t < (limit::nat)" "\<And>t. clk t \<le> clk (snd (expired t))"
    and poll: "\<And>t. clk t \<le> clk (snd (poll t))" and sleep: "\<And>t. clk t < clk (sleep t)"
  shows "\<exists>r. confirm_loop expired poll matches sleep other shown t = Some r"
proof (induction "limit - clk t" arbitrary: t other shown rule: less_induct)
  case less
  show ?case
  proof (cases "fst (expired t)")
    case True
    then show ?thesis
      by (subst confirm_loop.simps) (simp add: Let_def)
  next
    case False
    let ?p = "poll (snd (expired t))" and ?t = "sleep (snd (poll (snd (expired t))))"
    have "clk t < clk ?t"
      using now(2) [of t] poll [of "snd (expired t)"] sleep [of "snd ?p"] by linarith
    then have "limit - clk ?t < limit - clk t"
      using now(1) [OF False] by linarith
    then have rest: "\<exists>r. confirm_loop expired poll matches sleep other shown ?t = Some r" for other shown
      by (rule less.hyps)
    show ?thesis
      using False rest
      by (subst confirm_loop.simps) (cases "fst ?p"; simp add: Let_def)
  qed
qed

lemma poll_clock:
  assumes "field_clock F clock"
  shows "clock (snd t) \<le> clock (snd (snd (poll_selection F expected units t)))"
proof -
  obtain report s where t: "t = (report, s)" by fastforce
  have c: "clock s \<le> clock (snd (tf_selection F s))" "clock u \<le> clock (snd (tf_is_empty F r u))"
    "clock u \<le> clock (snd (tf_text F r u))" for r u
    using assms by (simp_all add: field_clock_def)
  obtain rd s1 where sel: "tf_selection F s = (rd, s1)" by fastforce
  show ?thesis
  proof (cases rd)
    case (One r)
    obtain e s2 where e: "tf_is_empty F r s1 = (e, s2)" by fastforce
    obtain x s3 where x: "tf_text F r s2 = (x, s3)" by fastforce
    have "clock s \<le> clock s1" "clock s1 \<le> clock s2" "clock s2 \<le> clock s3"
      using c(1) c(2) [of s1 r] c(3) [of s2 r] by (simp_all add: sel e x)
    then show ?thesis
      using One by (cases x) (simp_all add: t poll_selection_def sel e x)
  qed (use c(1) in \<open>simp_all add: t poll_selection_def sel\<close>)
qed

lemma attempt_returns:
  assumes "field_clock F clock"
  shows "\<exists>r. select_preceding_text_in F expected timeout earlier resolve t = Some r"
proof -
  have confirm: "\<exists>r. confirm_loop (\<lambda>(report, s). let (now, s) = tf_now F s in (deadline \<le> now, report, s))
      (poll_selection F expected units) matches (\<lambda>(report, s). (report, tf_sleep F (from_millis 1) s))
      other shown u = Some r" for deadline units matches other shown u
  proof (rule confirm_loop_returns [where clk = "\<lambda>t. clock (snd t)" and limit = deadline])
    show "clock (snd t) < deadline"
      if "\<not> fst (case t of (report, s) \<Rightarrow> let (now, s) = tf_now F s in (deadline \<le> now, report, s))" for t
    proof -
      obtain report s where t: "t = (report, s)" by fastforce
      have "fst (tf_now F s) < deadline"
        using that by (simp add: t case_prod_unfold Let_def)
      moreover have "clock s \<le> fst (tf_now F s)"
        using assms by (simp add: field_clock_def)
      ultimately show ?thesis by (simp add: t)
    qed
    show "clock (snd t) \<le> clock (snd (snd (case t of (report, s) \<Rightarrow>
        let (now, s) = tf_now F s in (deadline \<le> now, report, s))))" for t
    proof -
      have "clock s \<le> clock (snd (tf_now F s))" for s
        using assms order_trans unfolding field_clock_def by blast
      then show ?thesis by (simp add: case_prod_unfold Let_def)
    qed
    show "clock (snd t) \<le> clock (snd (snd (poll_selection F expected units t)))" for t
      by (rule poll_clock [OF assms])
    show "clock (snd t) < clock (snd (case t of (report, s) \<Rightarrow> (report, tf_sleep F (from_millis 1) s)))" for t
    proof -
      have "clock (snd t) + from_millis 1 \<le> clock (tf_sleep F (from_millis 1) (snd t))"
        using assms by (simp add: field_clock_def)
      then show ?thesis by (simp add: case_prod_unfold from_millis_def)
    qed
  qed
  have own: "\<exists>r. confirm_own_selection F expected timeout units report s = Some r" for units report s
  proof -
    obtain now s1 where "tf_now F s = (now, s1)" by fastforce
    moreover obtain outcome u where "confirm_loop
        (\<lambda>(report, s). let (now', s) = tf_now F s in (now + timeout \<le> now', report, s))
        (poll_selection F expected units) (\<lambda>actual. text_barrier_matches actual expected)
        (\<lambda>(report, s). (report, tf_sleep F (from_millis 1) s)) False False (report, s1) = Some (outcome, u)"
      using confirm by fastforce
    ultimately show ?thesis
      by (cases "outcome = Confirmed") (simp_all add: confirm_own_selection_def confirm_selection_def
          case_prod_unfold Let_def)
  qed
  show ?thesis
  proof (cases "barrier_units expected")
    case (Some units)
    obtain status u where r: "resolve t = (status, u)" by (metis surj_pair)
    show ?thesis
    proof (cases status)
      case None
      obtain answer report s where rd: "read_preceding_text F units expected (fst u) (snd u) = (answer, report, s)"
        by (metis surj_pair)
      show ?thesis
        using Some None r rd own
        by (cases answer; cases u) (simp_all add: select_preceding_text_in_def case_prod_unfold Let_def)
    qed (simp add: select_preceding_text_in_def Some r)
  qed (simp add: select_preceding_text_in_def)
qed

lemma retry_returns:
  assumes "\<forall>earlier t. \<exists>r. attempt earlier t = Some r"
  shows "\<exists>result n u. retry_unshown_selection attempts may_retry attempt runs t = Some (result, n, u)
    \<and> n \<le> max (Suc runs) attempts"
  using assms
proof (induction attempts may_retry attempt runs t rule: retry_unshown_selection.induct)
  case (1 attempts may_retry attempt runs t)
  obtain result t1 where a: "attempt (runs > 0) t = Some (result, t1)"
    using assms "1.prems" by fastforce
  obtain again t2 where m: "may_retry t1 = (again, t2)" by fastforce
  show ?case
  proof (cases "\<not> unshown result \<or> attempts \<le> runs + 1 \<or> \<not> again")
    case True
    then show ?thesis
      by (subst retry_unshown_selection.simps) (auto simp: a m Let_def)
  next
    case False
    then have "\<exists>result n u. retry_unshown_selection attempts may_retry attempt (runs + 1) t2 = Some (result, n, u)
        \<and> n \<le> max (Suc (runs + 1)) attempts"
      using "1.IH" a m "1.prems" by auto
    then show ?thesis
      using False by (subst retry_unshown_selection.simps) (auto simp: a m Let_def)
  qed
qed

text \<open>Selecting the word always comes to an end: whatever the field answers, however late, and
  whatever the user types, each attempt stops at its deadline and at most the attempts of the
  patience are made.\<close>

theorem selection_returns:
  assumes "field_clock F clock"
  shows "\<exists>status cleanup report s'.
    select_preceding_text_retrying F expected patience budget resolve t = Some ((status, cleanup), report, s')
    \<and> tb_attempts report \<le> patience_attempts patience"
proof -
  have "1 \<le> patience_attempts patience"
    by (cases patience) (simp_all add: patience_attempts_def UIA_MANUAL_SELECTION_ATTEMPTS_def)
  moreover have "\<forall>earlier u. \<exists>r. (\<lambda>earlier (report, s).
      select_preceding_text_in F expected (confirm_timeout patience) earlier resolve
        (barrier_report_default\<lparr>tb_expected_chars := length expected\<rparr>, s)) earlier u = Some r"
    using attempt_returns [OF assms] by (simp add: case_prod_unfold)
  from retry_returns [OF this, of "patience_attempts patience"
      "\<lambda>(report, s). let (now, s) = tf_now F s in (allows_selection budget now patience, report, s)" 0 t]
  obtain result n u where "retry_unshown_selection (patience_attempts patience)
      (\<lambda>(report, s). let (now, s) = tf_now F s in (allows_selection budget now patience, report, s))
      (\<lambda>earlier (report, s).
        select_preceding_text_in F expected (confirm_timeout patience) earlier resolve
          (barrier_report_default\<lparr>tb_expected_chars := length expected\<rparr>, s)) 0 t = Some (result, n, u)"
    "n \<le> max 1 (patience_attempts patience)"
    by auto
  ultimately show ?thesis
    by (cases u) (simp add: select_preceding_text_retrying_def)
qed

section \<open>The agent's selection is not left behind\<close>

text \<open>\<open>mine\<close> says that the field still shows a selection the agent made. It appears only through
  \<open>Select()\<close>, and a selection that is read as one empty range is none.\<close>

definition field_truthful :: "('s, 'r) text_field \<Rightarrow> ('s \<Rightarrow> bool) \<Rightarrow> bool" where
  "field_truthful F mine \<longleftrightarrow>
     (\<forall>s. \<not> mine s \<longrightarrow>
        \<not> mine (snd (tf_selection F s)) \<and> \<not> mine (snd (tf_now F s)) \<and> (\<forall>d. \<not> mine (tf_sleep F d s))
        \<and> (\<forall>r. \<not> mine (snd (tf_is_empty F r s)) \<and> \<not> mine (snd (tf_clone_range F r s))
              \<and> \<not> mine (snd (tf_text F r s)) \<and> (\<forall>n. \<not> mine (snd (tf_move_start F r n s)))))
     \<and> (\<forall>s r s1 s2. tf_selection F s = (One r, s1) \<and> tf_is_empty F r s1 = (Some True, s2) \<longrightarrow> \<not> mine s2)"

lemma truthful_keeps:
  assumes "field_truthful F mine" "\<not> mine s"
  shows "tf_selection F s = (rd, s') \<Longrightarrow> \<not> mine s'"
    "tf_is_empty F r s = (e, s') \<Longrightarrow> \<not> mine s'"
    "tf_clone_range F r s = (c, s') \<Longrightarrow> \<not> mine s'"
    "tf_text F r s = (x, s') \<Longrightarrow> \<not> mine s'"
    "tf_move_start F r n s = (m, s') \<Longrightarrow> \<not> mine s'"
    "tf_now F s = (now, s') \<Longrightarrow> \<not> mine s'"
  using assms unfolding field_truthful_def by (metis snd_conv)+

lemma truthful_empty:
  assumes "field_truthful F mine" "tf_selection F s = (One r, s1)" "tf_is_empty F r s1 = (Some True, s2)"
  shows "\<not> mine s2"
  using assms unfolding field_truthful_def by blast

lemma collapse_attempts_collapsed:
  assumes "field_truthful F mine"
  shows "collapse_attempts F deadline first left s = (Collapsed, s') \<Longrightarrow> \<not> mine s'"
proof (induction left arbitrary: first s)
  case (Suc left)
  obtain over s1 where over: "(if first then (False, s)
      else let (now, s) = tf_now F s in if deadline \<le> now then (True, s) else (False, tf_sleep F (from_millis 2) s))
      = (over, s1)"
    by fastforce
  obtain rd s2 where rd: "tf_selection F s1 = (rd, s2)" by fastforce
  have run: "\<not> over" "(case tf_selection F s1 of
        (One r, s) \<Rightarrow>
          (case tf_is_empty F r s of
             (Some True, s) \<Rightarrow> (Collapsed, s)
           | (Some False, s) \<Rightarrow>
               let (collapsed, s) = tf_collapse_to_end F r s in
               collapse_attempts F deadline False left (if collapsed then snd (tf_select F r s) else s)
           | (None, s) \<Rightarrow> collapse_attempts F deadline False left s)
      | (_, s) \<Rightarrow> collapse_attempts F deadline False left s) = (Collapsed, s')"
    using Suc.prems over by (auto simp del: split_paired_All simp: Let_def split: if_splits)
  show ?case
  proof (cases rd)
    case (One r)
    obtain e s3 where e: "tf_is_empty F r s2 = (e, s3)" by fastforce
    obtain c s4 where c: "tf_collapse_to_end F r s3 = (c, s4)" by fastforce
    show ?thesis
    proof (cases e)
      case None
      then show ?thesis using run(2) One rd e Suc.IH by simp
    next
      case (Some b)
      then show ?thesis
        using run(2) One rd e c Suc.IH truthful_empty [OF assms, of s1 r s2 s3] by (cases b) auto
    qed
  qed (use run(2) rd Suc.IH in simp_all)
qed simp

lemma collapse_selection_collapsed:
  "field_truthful F mine \<Longrightarrow> collapse_selection F s = (Collapsed, s') \<Longrightarrow> \<not> mine s'"
  unfolding collapse_selection_def by (auto simp: case_prod_unfold Let_def dest: collapse_attempts_collapsed)

lemma read_keeps:
  assumes "field_truthful F mine" "\<not> mine s" "read_preceding_text F units expected report s = (answer, report', s')"
  shows "\<not> mine s' \<and> answer \<noteq> Inl Match"
proof -
  note keeps = truthful_keeps [OF assms(1)]
  obtain rd s1 where rd: "tf_selection F s = (rd, s1)" by fastforce
  then have s1: "\<not> mine s1" using keeps(1) assms(2) by blast
  show ?thesis
  proof (cases rd)
    case (One r)
    obtain e s2 where e: "tf_is_empty F r s1 = (e, s2)" by fastforce
    then have s2: "\<not> mine s2" using keeps(2) s1 by blast
    obtain c s3 where c: "tf_clone_range F r s2 = (c, s3)" by fastforce
    then have s3: "\<not> mine s3" using keeps(3) s2 by blast
    show ?thesis
    proof (cases "e = Some True")
      case True
      show ?thesis
      proof (cases c)
        case None
        then show ?thesis
          using assms(3) rd One e c True s3 by (auto simp: read_preceding_text_def)
      next
        case (Some copy)
        obtain m s4 where m: "tf_move_start F copy (- units) s3 = (m, s4)" by fastforce
        then have s4: "\<not> mine s4" using keeps(5) s3 by blast
        obtain x s5 where x: "tf_text F copy s4 = (x, s5)" by fastforce
        then have s5: "\<not> mine s5" using keeps(4) s4 by blast
        show ?thesis
          using assms(3) rd One e c True Some m x s4 s5
          by (cases "m = Some (- units)"; cases x) (auto simp: read_preceding_text_def split: if_splits)
      qed
    next
      case False
      then show ?thesis
        using assms(3) rd One e s2 by (auto simp: read_preceding_text_def)
    qed
  qed (use assms(3) rd s1 in \<open>auto simp: read_preceding_text_def\<close>)
qed

lemma confirm_loop_confirmed:
  assumes run: "confirm_loop expired poll matches sleep other shown t = Some r" and "fst r = Confirmed"
  shows "\<exists>actual u. poll u = (PollText actual, snd r) \<and> matches actual"
proof -
  have "fst r = Confirmed \<longrightarrow> (\<exists>actual u. poll u = (PollText actual, snd r) \<and> matches actual)"
  proof (rule confirm_loop.raw_induct [where P = "\<lambda>expired poll matches sleep other shown t r.
      fst r = Confirmed \<longrightarrow> (\<exists>actual u. poll u = (PollText actual, snd r) \<and> matches actual)", OF _ run],
      goal_cases)
    case (1 loop expired poll matches sleep other shown t r)
    let ?p = "poll (snd (expired t))"
    show ?case
    proof (cases "fst (expired t)")
      case True
      then show ?thesis using 1(2) by (auto simp: Let_def split: if_splits)
    next
      case False
      show ?thesis
      proof (cases "fst ?p")
        case (PollText actual)
        then have p: "?p = (PollText actual, snd ?p)" by (metis prod.collapse)
        show ?thesis
        proof (cases "matches actual")
          case True
          then have "r = (Confirmed, snd ?p)"
            using 1(2) False PollText by (simp add: Let_def)
          then show ?thesis using p True by (metis snd_conv)
        next
          case other: False
          then show ?thesis
            using 1(1) [of expired poll matches sleep True shown] 1(2) False PollText
            by (simp add: Let_def)
        qed
      qed (use 1 False in \<open>auto simp: Let_def\<close>)
    qed
  qed
  then show ?thesis using assms(2) by blast
qed

text \<open>A selection is confirmed only by text that matches.\<close>

lemma poll_text_report:
  assumes "poll_selection F expected units u = (PollText actual, report, s)"
  shows "report = classify_text_barrier actual expected SelectionConfirm (- units)"
  using assms
  by (auto simp: poll_selection_def Let_def case_prod_unfold
      split: selection_read.splits option.splits if_splits prod.splits)

definition report_matches :: "barrier_report \<Rightarrow> bool" where
  "report_matches report \<longleftrightarrow>
     tb_stage report = SelectionConfirm \<and> (tb_exact report \<or> tb_trailing_nbsp_equivalent report)"

text \<open>What one attempt promises: a match has been read back, and any other end without an unverified
  cleanup leaves no selection of the agent.\<close>

definition attempt_sound :: "('s \<Rightarrow> bool) \<Rightarrow> selection_attempt \<Rightarrow> barrier_report \<Rightarrow> 's \<Rightarrow> bool" where
  "attempt_sound mine a report s \<longleftrightarrow>
     (sa_status a = Match \<longrightarrow> sa_cleanup a = None \<and> report_matches report)
     \<and> (sa_status a \<noteq> Match \<and> sa_cleanup a \<noteq> Some Unverified \<longrightarrow> \<not> mine s)"

lemma confirm_own_sound:
  assumes "field_truthful F mine"
    and run: "confirm_own_selection F expected timeout units report s = Some (a, report', s')"
  shows "attempt_sound mine a report' s'"
proof -
  obtain now s1 where now: "tf_now F s = (now, s1)" by fastforce
  let ?loop = "confirm_loop (\<lambda>(report, s). let (now', s) = tf_now F s in (now + timeout \<le> now', report, s))
    (poll_selection F expected units) (\<lambda>actual. text_barrier_matches actual expected)
    (\<lambda>(report, s). (report, tf_sleep F (from_millis 1) s)) False False (report, s1)"
  obtain outcome report2 s2 where loop: "?loop = Some (outcome, report2, s2)"
    using run by (cases ?loop) (auto simp: confirm_own_selection_def confirm_selection_def now)
  show ?thesis
  proof (cases "outcome = Confirmed")
    case True
    have "\<exists>actual u. poll_selection F expected units u = (PollText actual, report2, s2)
        \<and> text_barrier_matches actual expected"
      using confirm_loop_confirmed [OF loop] True by simp
    then have "report_matches report2"
      using poll_text_report
      by (fastforce simp: report_matches_def classify_text_barrier_def text_barrier_matches_def Let_def)
    then show ?thesis
      using run now loop True
      by (auto simp: confirm_own_selection_def confirm_selection_def attempt_sound_def
          confirmation_status_def report_matches_def)
  next
    case False
    obtain c s3 where c: "collapse_selection F s2 = (c, s3)" by fastforce
    have "confirmation_status outcome \<noteq> Match"
      using False by (cases outcome) (simp_all add: confirmation_status_def)
    moreover have "sa_status a = confirmation_status outcome" "sa_cleanup a = Some c" "s' = s3"
      using run now loop False c by (auto simp: confirm_own_selection_def confirm_selection_def Let_def)
    moreover have "c = Collapsed \<Longrightarrow> \<not> mine s3"
      using collapse_selection_collapsed [OF assms(1)] c by blast
    ultimately show ?thesis
      by (cases c) (simp_all add: attempt_sound_def)
  qed
qed

text \<open>What is assumed of the resolver of the field: it reports no match, and selects nothing.\<close>

definition resolver_quiet ::
  "(barrier_report \<times> 's \<Rightarrow> barrier_status option \<times> (barrier_report \<times> 's)) \<Rightarrow> ('s \<Rightarrow> bool) \<Rightarrow> bool" where
  "resolver_quiet resolve mine \<longleftrightarrow>
     (\<forall>t. fst (resolve t) \<noteq> Some Match \<and> (\<not> mine (snd t) \<longrightarrow> \<not> mine (snd (snd (resolve t)))))"

lemma attempt_is_sound:
  assumes "field_truthful F mine" "resolver_quiet resolve mine" "\<not> mine (snd t)"
    and run: "select_preceding_text_in F expected timeout earlier resolve t = Some (a, report', s')"
  shows "attempt_sound mine a report' s'"
proof (cases "barrier_units expected")
  case None
  then show ?thesis
    using assms(3) run by (auto simp: select_preceding_text_in_def attempt_sound_def)
next
  case (Some units)
  obtain status report s where r: "resolve t = (status, report, s)" by (metis surj_pair)
  have s: "\<not> mine s" "status \<noteq> Some Match"
    using assms(2,3) r unfolding resolver_quiet_def by (metis fst_conv snd_conv)+
  show ?thesis
  proof (cases status)
    case status: (Some x)
    then show ?thesis
      using Some run r s by (auto simp: select_preceding_text_in_def attempt_sound_def)
  next
    case resolved: None
    obtain answer report2 s2 where rd: "read_preceding_text F units expected report s = (answer, report2, s2)"
      by (metis surj_pair)
    have s2: "\<not> mine s2" "answer \<noteq> Inl Match"
      using read_keeps [OF assms(1) s(1) rd] by simp_all
    obtain c s3 where c: "collapse_selection F s2 = (c, s3)" by fastforce
    have s3: "c = Collapsed \<Longrightarrow> \<not> mine s3"
      using collapse_selection_collapsed [OF assms(1)] c by blast
    show ?thesis
    proof (cases answer)
      case (Inl failure)
      let ?late = "earlier \<and> tb_stage report2 = CaretNotEmpty"
      have "a = \<lparr>sa_status = failure, sa_confirmation = None, sa_cleanup = (if ?late then Some c else None)\<rparr>"
        "s' = (if ?late then s3 else s2)"
        using Some resolved Inl run r rd c by (auto simp: select_preceding_text_in_def)
      then show ?thesis
        using s2 s3 Inl by (cases c) (simp_all add: attempt_sound_def)
    next
      case (Inr found)
      obtain selected s4 where sel: "tf_select F found s2 = (selected, s4)" by fastforce
      obtain c' s5 where c': "collapse_selection F s4 = (c', s5)" by fastforce
      have s5: "c' = Collapsed \<Longrightarrow> \<not> mine s5"
        using collapse_selection_collapsed [OF assms(1)] c' by blast
      show ?thesis
      proof (cases selected)
        case True
        then have "confirm_own_selection F expected timeout units report2 s4 = Some (a, report', s')"
          using Some resolved Inr run r rd sel by (simp add: select_preceding_text_in_def)
        then show ?thesis by (rule confirm_own_sound [OF assms(1)])
      next
        case False
        then have "a = \<lparr>sa_status = Mismatch, sa_confirmation = None, sa_cleanup = Some c'\<rparr>" "s' = s5"
          using Some resolved Inr run r rd sel c' by (simp_all add: select_preceding_text_in_def)
        then show ?thesis
          using s5 by (cases c') (simp_all add: attempt_sound_def)
      qed
    qed
  qed
qed

lemma retry_is_sound:
  assumes "\<And>earlier t a u. attempt earlier t = Some (a, u) \<Longrightarrow> \<not> mine (snd t) \<Longrightarrow> attempt_sound mine a (fst u) (snd u)"
    and "\<And>t. \<not> mine (snd t) \<Longrightarrow> \<not> mine (snd (snd (may_retry t)))"
  shows "retry_unshown_selection attempts may_retry attempt runs t = Some (a, n, u) \<Longrightarrow> \<not> mine (snd t) \<Longrightarrow>
    attempt_sound mine a (fst u) (snd u)"
  using assms
proof (induction attempts may_retry attempt runs t rule: retry_unshown_selection.induct)
  case (1 attempts may_retry attempt runs t)
  obtain result t1 where a: "attempt (runs > 0) t = Some (result, t1)"
    using "1.prems"(1) by (subst (asm) retry_unshown_selection.simps) (auto split: option.splits)
  have sound: "attempt_sound mine result (fst t1) (snd t1)"
    using "1.prems"(2,3) a by blast
  obtain again t2 where m: "may_retry t1 = (again, t2)" by (metis surj_pair)
  show ?case
  proof (cases "\<not> unshown result \<or> attempts \<le> runs + 1")
    case True
    then have "a = result" "u = t1"
      using "1.prems"(1) a by (subst (asm) retry_unshown_selection.simps, auto simp: Let_def)+
    then show ?thesis using sound by simp
  next
    case False
    then have "unshown result" by simp
    then have nm: "\<not> mine (snd t1)" "sa_status result \<noteq> Match"
      using sound by (auto simp: attempt_sound_def unshown_def)
    then have nm2: "\<not> mine (snd t2)"
      using "1.prems"(4) [of t1] m by simp
    show ?thesis
    proof (cases again)
      case True
      then have "retry_unshown_selection attempts may_retry attempt (runs + 1) t2 = Some (a, n, u)"
        using "1.prems"(1) a m False by (subst (asm) retry_unshown_selection.simps) (simp add: Let_def)
      from "1.IH" [OF a refl refl _ refl m [symmetric] _ this nm2 "1.prems"(3,4)] show ?thesis
        using False True by simp
    next
      case stop: False
      then have "a = result" "u = t2"
        using "1.prems"(1) a m False by (subst (asm) retry_unshown_selection.simps, auto simp: Let_def)+
      then show ?thesis
        using nm(2) nm2 by (simp add: attempt_sound_def)
    qed
  qed
qed

text \<open>The agent's selection is never left behind unnoticed: selecting the word before the caret,
  with all its retries, ends as a match only when the field was read back and showed the word; and it
  ends otherwise only with the selection gone, or with the cleanup reported as unverified. A field
  may answer late, wrongly sized or not at all; it is only assumed that a selection appears through
  \<open>Select()\<close> and that one read as a single empty range is none.\<close>

theorem selection_never_left:
  assumes "field_truthful F mine" "resolver_quiet resolve mine" "\<not> mine (snd t)"
    and "select_preceding_text_retrying F expected patience budget resolve t = Some ((status, cleanup), report, s')"
  shows "(status = Match \<longrightarrow> cleanup = None \<and> report_matches report)
    \<and> (status \<noteq> Match \<and> cleanup \<noteq> Some Unverified \<longrightarrow> \<not> mine s')"
proof -
  let ?attempt = "\<lambda>earlier (report, s). select_preceding_text_in F expected (confirm_timeout patience) earlier
    resolve (barrier_report_default\<lparr>tb_expected_chars := length expected\<rparr>, s)"
  let ?may = "\<lambda>(report, s). let (now, s) = tf_now F s in (allows_selection budget now patience, report, s)"
  obtain a n report' where run: "retry_unshown_selection (patience_attempts patience) ?may ?attempt 0 t
      = Some (a, n, report', s')"
    and r: "status = sa_status a" "cleanup = sa_cleanup a" "report = report'\<lparr>tb_attempts := n\<rparr>"
    using assms(4) by (auto simp: select_preceding_text_retrying_def split: option.splits)
  have "attempt_sound mine a (fst (report', s')) (snd (report', s'))"
  proof (rule retry_is_sound [where mine = mine and attempt = ?attempt and may_retry = ?may, OF _ _ run assms(3)])
    show "attempt_sound mine a (fst u) (snd u)"
      if "?attempt earlier t = Some (a, u)" "\<not> mine (snd t)" for earlier t a u
      using attempt_is_sound [OF assms(1,2), of "(barrier_report_default\<lparr>tb_expected_chars := length expected\<rparr>, snd t)"
          expected "confirm_timeout patience" earlier a "fst u" "snd u"] that
      by (simp add: case_prod_unfold)
    show "\<not> mine (snd (snd (?may t)))" if "\<not> mine (snd t)" for t
      using truthful_keeps(6) [OF assms(1) that, of "fst (tf_now F (snd t))" "snd (tf_now F (snd t))"]
      by (simp add: case_prod_unfold Let_def)
  qed
  then show ?thesis
    by (simp add: attempt_sound_def report_matches_def r)
qed

section \<open>A sample field\<close>

text \<open>A text whose last characters can be selected. The state is the number of characters selected and
  the time; a range is the number of characters before the caret it covers.\<close>

definition sample_text :: ustr where "sample_text = lit ''say ghbdtn''"

definition sample_field :: "(nat \<times> instant, nat) text_field" where
  "sample_field =
     \<lparr>tf_selection = (\<lambda>s. (One (fst s), s)), tf_is_empty = (\<lambda>r s. (Some (r = 0), s)),
      tf_clone_range = (\<lambda>r s. (Some 6, s)), tf_move_start = (\<lambda>r n s. (Some n, s)),
      tf_text = (\<lambda>r s. (Some (drop (length sample_text - r) sample_text), s)),
      tf_select = (\<lambda>r s. (True, (r, snd s))), tf_collapse_to_end = (\<lambda>r s. (True, s)),
      tf_now = (\<lambda>s. (snd s, s)), tf_sleep = (\<lambda>d s. (fst s, snd s + d))\<rparr>"

lemma sample_field_clock: "field_clock sample_field snd"
  by (simp add: field_clock_def sample_field_def)

lemma sample_field_truthful: "field_truthful sample_field (\<lambda>s. fst s > 0)"
  by (auto simp: field_truthful_def sample_field_def)

lemma selection_returns_witness:
  "\<exists>status cleanup report s'. select_preceding_text_retrying sample_field (lit ''ghbdtn'') Manual
      \<lparr>pb_deadline = None\<rparr> (\<lambda>t. (None, t)) (barrier_report_default, 0, 0) = Some ((status, cleanup), report, s')
    \<and> tb_attempts report \<le> patience_attempts Manual"
  by (rule selection_returns [OF sample_field_clock])

lemma selection_never_left_witness:
  "\<exists>status cleanup report. select_preceding_text_retrying sample_field (lit ''hello'') Automatic
      \<lparr>pb_deadline = None\<rparr> (\<lambda>t. (None, t)) (barrier_report_default, 0, 0) = Some ((status, cleanup), report, (0, 0))
    \<and> status = Mismatch \<and> cleanup = None \<and> \<not> (0::nat) < fst (0::nat, 0::nat)"
proof -
  have run: "\<exists>report. select_preceding_text_retrying sample_field (lit ''hello'') Automatic
      \<lparr>pb_deadline = None\<rparr> (\<lambda>t. (None, t)) (barrier_report_default, 0, 0) = Some ((Mismatch, None), report, (0, 0))"
    by (subst select_preceding_text_retrying_def, subst retry_unshown_selection.simps)
      (simp add: sample_field_def select_preceding_text_in_def barrier_units_def utf16_len_def len_utf16_def
        read_preceding_text_def patience_attempts_def unshown_def classify_text_barrier_def text_barrier_matches_def
        nbsp_equivalent_def strip_suffix_char_def sample_text_def Let_def)
  have quiet: "resolver_quiet (\<lambda>t. (None, t)) (\<lambda>s. fst s > (0::nat))"
    by (simp add: resolver_quiet_def)
  from run obtain report where r: "select_preceding_text_retrying sample_field (lit ''hello'') Automatic
      \<lparr>pb_deadline = None\<rparr> (\<lambda>t. (None, t)) (barrier_report_default, 0, 0) = Some ((Mismatch, None), report, (0, 0))"
    by blast
  then show ?thesis
    using selection_never_left [OF sample_field_truthful quiet _ r] r by auto
qed

end
