(* ===== verification/Clipboard_Broker.thy ===== *)
theory Clipboard_Broker
  imports Rust_Text Key_Edges
begin

text \<open>
  \<open>src/windows_agent.rs\<close>: the clipboard broker, the thread that puts a paste's replacement on the
  clipboard and gives the user's own content back. The trait \<open>ClipboardSystem\<close>, the channels to the
  worker, the clock and the shared flags are the record \<open>clipboard_system\<close>, over a state of the
  outside world in which other programs may change the clipboard during every call. What the user
  keeps is stated over a ghost: the list of all writes to the clipboard so far.
\<close>

datatype broker_command = Restore | Abandon | Defer u32 duration instant

datatype broker_wait = Command broker_command | Timeout | Disconnected

datatype broker_failure = Setup | Snapshot | Open | Changed | CancelledByWorker | Prepare | EmptiedClipboard

record broker_refusal =
  rf_reason :: broker_failure
  rf_attempts :: nat
  rf_holder :: u32

datatype broker_response = Installed_at u32 u64 | Finished bool | Failed_broker broker_refusal

datatype broker_end = Running | Untouched | Restored | NotRestored | Kept | Unread

datatype install_outcome = InstallUntouched broker_failure | InstallEmptied u32 | Installed u32

definition is_transient :: "broker_failure \<Rightarrow> bool" where
  "is_transient f \<longleftrightarrow> f = Open \<or> f = Snapshot"

definition broker_end_from_code :: "u8 \<Rightarrow> broker_end" where
  "broker_end_from_code code =
     (if code = 1 then Untouched else if code = 2 then Restored else if code = 3 then NotRestored
      else if code = 4 then Kept else if code = 5 then Unread else Running)"

definition CLIPBOARD_INSTALL_ATTEMPTS :: nat where [consts_def]: "CLIPBOARD_INSTALL_ATTEMPTS = 3"
definition CLIPBOARD_INSTALL_RETRY_MS :: nat where [consts_def]: "CLIPBOARD_INSTALL_RETRY_MS = 15"
definition TARGET_READ_GRACE_MS :: nat where [consts_def]: "TARGET_READ_GRACE_MS = 500"

record ('s, 'c) clipboard_system =
  cs_sequence :: "'s \<Rightarrow> u32 \<times> 's"
  cs_owner :: "'s \<Rightarrow> u64 \<times> 's"
  cs_owned :: "'s \<Rightarrow> bool \<times> 's"
  cs_snapshot :: "'s \<Rightarrow> 'c option \<times> 's"
  cs_install :: "ustr \<Rightarrow> u32 \<Rightarrow> 's \<Rightarrow> install_outcome \<times> 's"
  cs_restore :: "u32 option \<Rightarrow> 'c \<Rightarrow> 's \<Rightarrow> bool \<times> 's"
  cs_wait :: "bool \<Rightarrow> duration option \<Rightarrow> 's \<Rightarrow> broker_wait \<times> 's"
  cs_read_by :: "u32 \<Rightarrow> instant \<Rightarrow> 's \<Rightarrow> bool \<times> 's"
  cs_holder :: "'s \<Rightarrow> u32 \<times> 's"
  cs_cancelled :: "'s \<Rightarrow> bool \<times> 's"
  cs_now :: "'s \<Rightarrow> instant \<times> 's"
  cs_sleep :: "duration \<Rightarrow> 's \<Rightarrow> 's"
  cs_finish :: "broker_end \<Rightarrow> 's \<Rightarrow> 's"
  cs_send :: "broker_response \<Rightarrow> 's \<Rightarrow> 's"

definition replacement_read_by :: "(u32 \<times> instant) list \<Rightarrow> u32 \<Rightarrow> instant \<Rightarrow> bool" where
  "replacement_read_by readers process submitted_at =
     list_ex (\<lambda>(reader, at). reader = process \<or> (reader = 0 \<and> submitted_at \<le> at)) readers"

definition missing_opt_out_formats :: "u32 list \<Rightarrow> u32 list \<Rightarrow> u32 list" where
  "missing_opt_out_formats present opt_outs = filter (\<lambda>f. f \<notin> set present) opt_outs"

definition restore_if_current :: "('s, 'c) clipboard_system \<Rightarrow> u32 \<Rightarrow> 'c \<Rightarrow> 's \<Rightarrow> broker_end \<times> 's" where
  "restore_if_current C sequence snapshot s =
     (let (now, s) = cs_sequence C s in
      if now \<noteq> sequence then (NotRestored, s)
      else
        let (owned, s) = cs_owned C s in
        if \<not> owned then (NotRestored, s)
        else
          let (restored, s) = cs_restore C (Some sequence) snapshot s in
          ((if restored then Restored else NotRestored), s))"

datatype reader_wait = Read | Replaced | Expired | Reader_command broker_command

partial_function (option) reader_loop ::
  "('s, 'c) clipboard_system \<Rightarrow> u32 \<Rightarrow> u32 \<times> instant \<Rightarrow> instant \<Rightarrow> bool \<Rightarrow> bool \<Rightarrow> 's \<Rightarrow>
     (reader_wait \<times> 's) option" where
  "reader_loop C sequence target deadline read listening s =
     (let q = cs_sequence C s in
      if fst q \<noteq> sequence then Some (Replaced, snd q)
      else let own = cs_owned C (snd q) in
      if \<not> fst own then Some (Replaced, snd own)
      else
        let n = cs_now C (snd own);
            r = (if read then (False, snd n) else cs_read_by C (fst target) (snd target) (snd n));
            read' = (read \<or> fst r);
            deadline' = (if fst r then fst n + from_millis TARGET_READ_GRACE_MS else deadline)
        in if deadline' \<le> fst n then Some ((if read' then Read else Expired), snd r)
        else
          let w = cs_wait C listening (Some (min (deadline' - fst n) (from_millis 10))) (snd r) in
          case fst w of
            Timeout \<Rightarrow> reader_loop C sequence target deadline' read' listening (snd w)
          | Command c \<Rightarrow> Some (Reader_command c, snd w)
          | Disconnected \<Rightarrow> reader_loop C sequence target deadline' read' False (snd w))"

definition wait_for_reader ::
  "('s, 'c) clipboard_system \<Rightarrow> u32 \<Rightarrow> u32 \<times> instant \<Rightarrow> duration \<Rightarrow> 's \<Rightarrow> (reader_wait \<times> 's) option" where
  "wait_for_reader C sequence target wait s =
     (let (now, s) = cs_now C s in reader_loop C sequence target (now + wait) False True s)"

partial_function (option) command_loop ::
  "('s, 'c) clipboard_system \<Rightarrow> u32 \<Rightarrow> 'c \<Rightarrow> broker_wait \<Rightarrow> 's \<Rightarrow> (broker_end \<times> 's) option" where
  "command_loop C sequence snapshot waited s =
     (case waited of
        Command c \<Rightarrow>
          (case c of
             Restore \<Rightarrow> Some (restore_if_current C sequence snapshot s)
           | Abandon \<Rightarrow> Some (Kept, s)
           | Defer process wait submitted_at \<Rightarrow>
               Option.bind (wait_for_reader C sequence (process, submitted_at) wait s) (\<lambda>r.
                 case fst r of
                   Read \<Rightarrow> Some (restore_if_current C sequence snapshot (snd r))
                 | Replaced \<Rightarrow> Some (NotRestored, snd r)
                 | Expired \<Rightarrow> Some (Unread, snd r)
                 | Reader_command c \<Rightarrow> command_loop C sequence snapshot (Command c) (snd r)))
      | Timeout \<Rightarrow> Some (Kept, s)
      | Disconnected \<Rightarrow> Some (Kept, s))"

text \<open>The installation: up to three attempts, then the copy with the sequence of the replacement, or
  the end the broker came to.\<close>

function install_attempts ::
  "('s, 'c) clipboard_system \<Rightarrow> ustr \<Rightarrow> nat \<Rightarrow> 's \<Rightarrow> (broker_end + ('c \<times> u32)) \<times> 's" where
  "install_attempts C text attempts s =
     (let (before, s) = cs_sequence C s;
          (copy, s) = cs_snapshot C s;
          (outcome, s) = (case copy of
             None \<Rightarrow> (Inr Snapshot, s)
           | Some snapshot \<Rightarrow>
               (case cs_install C text before s of
                  (Installed sequence, s) \<Rightarrow> (Inl (Inr (snapshot, sequence)), s)
                | (InstallUntouched reason, s) \<Rightarrow> (Inr reason, s)
                | (InstallEmptied sequence, s) \<Rightarrow>
                    let (restored, s) = cs_restore C (Some sequence) snapshot s;
                        end = (if restored then Restored else NotRestored);
                        s = cs_finish C end s
                    in (Inl (Inl end),
                        cs_send C (Failed_broker \<lparr>rf_reason = EmptiedClipboard, rf_attempts = attempts,
                          rf_holder = 0\<rparr>) s)))
      in case outcome of
        Inl result \<Rightarrow> (result, s)
      | Inr reason \<Rightarrow>
          let (retry, s) =
            (if is_transient reason \<and> attempts < CLIPBOARD_INSTALL_ATTEMPTS
             then let (cancelled, s) = cs_cancelled C s in (\<not> cancelled, s) else (False, s)) in
          if retry \<and> attempts < CLIPBOARD_INSTALL_ATTEMPTS then
            install_attempts C text (attempts + 1) (cs_sleep C (from_millis CLIPBOARD_INSTALL_RETRY_MS) s)
          else
            let s = cs_finish C Untouched s;
                (holder, s) = cs_holder C s
            in (Inl Untouched,
                cs_send C (Failed_broker \<lparr>rf_reason = reason, rf_attempts = attempts, rf_holder = holder\<rparr>) s))"
  by pat_completeness auto
termination
  by (relation "measure (\<lambda>(C, text, attempts, s). CLIPBOARD_INSTALL_ATTEMPTS - attempts)") auto

declare install_attempts.simps [simp del]

definition run_clipboard_broker ::
  "('s, 'c) clipboard_system \<Rightarrow> ustr \<Rightarrow> 's \<Rightarrow> (broker_end \<times> 's) option" where
  "run_clipboard_broker C text s =
     (case install_attempts C text 1 s of
        (Inl end, s) \<Rightarrow> Some (end, s)
      | (Inr (snapshot, sequence), s) \<Rightarrow>
          let (owner, s) = cs_owner C s;
              s = cs_send C (Installed_at sequence owner) s;
              (waited, s) = cs_wait C True None s
          in case command_loop C sequence snapshot waited s of
            None \<Rightarrow> None
          | Some (end, s) \<Rightarrow>
              Some (end, cs_send C (Finished (end = Restored)) (cs_finish C end s)))"

definition spawn_clipboard_broker ::
  "bool \<Rightarrow> ('s, 'c) clipboard_system \<Rightarrow> ustr \<Rightarrow> 's \<Rightarrow> (broker_end \<times> 's) option" where
  "spawn_clipboard_broker made C text s =
     (if \<not> made then
        Some (Untouched, cs_send C (Failed_broker \<lparr>rf_reason = Setup, rf_attempts = 1, rf_holder = 0\<rparr>)
          (cs_finish C Untouched s))
      else run_clipboard_broker C text s)"

section \<open>What is assumed of the clipboard\<close>

text \<open>Every change of the clipboard is a write; \<open>Partial\<close> is a content the broker could not put back
  whole. The content after a run of writes, and its sequence number, are functions of the writes, and
  as long as fewer than \<open>2 ^ 32\<close> changes are made no two moments share a number.\<close>

datatype 'c cwrite = Other 'c | Emptied | Replacement | Put_back 'c | Partial

fun is_other :: "'c cwrite \<Rightarrow> bool" where
  "is_other (Other c) = True"
| "is_other _ = False"

definition others :: "'c cwrite list \<Rightarrow> bool" where "others ws = list_all is_other ws"

lemma others_simps [simp]:
  "others []" "others (ws @ ws') \<longleftrightarrow> others ws \<and> others ws'" "others (w # ws) \<longleftrightarrow> is_other w \<and> others ws"
  by (simp_all add: others_def)

definition only_others :: "('s \<Rightarrow> 'c cwrite list) \<Rightarrow> 's \<Rightarrow> 's \<Rightarrow> bool" where
  "only_others writes s s' \<longleftrightarrow> (\<exists>os. writes s' = writes s @ os \<and> others os)"

lemma only_others_trans:
  "only_others writes s s' \<Longrightarrow> only_others writes s' s'' \<Longrightarrow> only_others writes s s''"
  by (fastforce simp: only_others_def)

definition stamps_law :: "('c cwrite list \<Rightarrow> u32) \<Rightarrow> bool" where
  "stamps_law number \<longleftrightarrow>
     (\<forall>w w'. prefix w w' \<and> length w' < 2 ^ 32 \<and> number w = number w' \<longrightarrow> w = w')"

definition sequence_law ::
  "('s, 'c) clipboard_system \<Rightarrow> ('s \<Rightarrow> 'c cwrite list) \<Rightarrow> ('c cwrite list \<Rightarrow> u32) \<Rightarrow> bool" where
  "sequence_law C writes number \<longleftrightarrow>
     (\<forall>s. \<exists>os os'. writes (snd (cs_sequence C s)) = writes s @ os @ os' \<and> others os \<and> others os'
        \<and> fst (cs_sequence C s) = number (writes s @ os))"

definition quiet_law :: "('s, 'c) clipboard_system \<Rightarrow> ('s \<Rightarrow> 'c cwrite list) \<Rightarrow> bool" where
  "quiet_law C writes \<longleftrightarrow>
     (\<forall>s. only_others writes s (snd (cs_owner C s)) \<and> only_others writes s (snd (cs_owned C s))
        \<and> only_others writes s (snd (cs_holder C s)) \<and> only_others writes s (snd (cs_cancelled C s))
        \<and> only_others writes s (snd (cs_now C s)) \<and> (\<forall>p t. only_others writes s (snd (cs_read_by C p t s)))
        \<and> (\<forall>b d. only_others writes s (snd (cs_wait C b d s))) \<and> (\<forall>d. only_others writes s (cs_sleep C d s))
        \<and> (\<forall>e. only_others writes s (cs_finish C e s)) \<and> (\<forall>r. only_others writes s (cs_send C r s)))"

definition snapshot_law ::
  "('s, 'c) clipboard_system \<Rightarrow> ('s \<Rightarrow> 'c cwrite list) \<Rightarrow> ('c cwrite list \<Rightarrow> 'c) \<Rightarrow> bool" where
  "snapshot_law C writes content \<longleftrightarrow>
     (\<forall>s. \<exists>os os'. writes (snd (cs_snapshot C s)) = writes s @ os @ os' \<and> others os \<and> others os'
        \<and> (case fst (cs_snapshot C s) of None \<Rightarrow> True | Some c \<Rightarrow> c = content (writes s @ os)))"

text \<open>The installation writes only while the sequence is the expected one, and reads its own number
  some time after it let the clipboard go.\<close>

definition placed ::
  "('s \<Rightarrow> 'c cwrite list) \<Rightarrow> ('c cwrite list \<Rightarrow> u32) \<Rightarrow> 's \<Rightarrow> u32 \<Rightarrow> 'c cwrite \<Rightarrow> u32 \<Rightarrow> 's \<Rightarrow> bool" where
  "placed writes number s expected x q s' \<longleftrightarrow>
     (\<exists>os os1 os2. writes s' = writes s @ os @ [x] @ os1 @ os2 \<and> others os \<and> others os1 \<and> others os2
        \<and> number (writes s @ os) = expected \<and> q = number (writes s @ os @ [x] @ os1))"

definition install_law ::
  "('s, 'c) clipboard_system \<Rightarrow> ('s \<Rightarrow> 'c cwrite list) \<Rightarrow> ('c cwrite list \<Rightarrow> u32) \<Rightarrow> bool" where
  "install_law C writes number \<longleftrightarrow>
     (\<forall>s replacement expected outcome s'. cs_install C replacement expected s = (outcome, s') \<longrightarrow>
        (case outcome of
           InstallUntouched _ \<Rightarrow> only_others writes s s'
         | Installed q \<Rightarrow> placed writes number s expected Replacement q s'
         | InstallEmptied q \<Rightarrow> placed writes number s expected Emptied q s'))"

text \<open>The restore writes only while the clipboard holds the broker's own item of that number.\<close>

definition restore_law ::
  "('s, 'c) clipboard_system \<Rightarrow> ('s \<Rightarrow> 'c cwrite list) \<Rightarrow> ('c cwrite list \<Rightarrow> u32) \<Rightarrow> bool" where
  "restore_law C writes number \<longleftrightarrow>
     (\<forall>s q c b s'. cs_restore C (Some q) c s = (b, s') \<longrightarrow>
        (\<exists>os os'. others os \<and> others os'
           \<and> (let own = writes s @ os; mine = (number own = q \<and> own \<noteq> [] \<and> \<not> is_other (last own)) in
              if b then writes s' = own @ [Put_back c] @ os' \<and> mine
              else writes s' = own @ os' \<or> writes s' = own @ [Partial] @ os' \<and> mine)))"

definition clipboard_laws ::
  "('s, 'c) clipboard_system \<Rightarrow> ('s \<Rightarrow> 'c cwrite list) \<Rightarrow> ('c cwrite list \<Rightarrow> u32) \<Rightarrow> ('c cwrite list \<Rightarrow> 'c) \<Rightarrow> bool" where
  "clipboard_laws C writes number content \<longleftrightarrow>
     stamps_law number \<and> sequence_law C writes number \<and> quiet_law C writes
     \<and> snapshot_law C writes content \<and> install_law C writes number \<and> restore_law C writes number"

lemma clipboard_lawsD:
  assumes "clipboard_laws C writes number content"
  shows "stamps_law number" "sequence_law C writes number" "quiet_law C writes"
    "snapshot_law C writes content" "install_law C writes number" "restore_law C writes number"
  using assms by (simp_all add: clipboard_laws_def)

lemma stamps:
  "clipboard_laws C writes number content \<Longrightarrow> prefix w w' \<Longrightarrow> length w' < 2 ^ 32 \<Longrightarrow> number w = number w' \<Longrightarrow> w = w'"
  unfolding clipboard_laws_def stamps_law_def by blast

lemma quiet:
  assumes "clipboard_laws C writes number content"
  shows "only_others writes s (snd (cs_sequence C s))" "only_others writes s (snd (cs_owner C s))"
    "only_others writes s (snd (cs_owned C s))" "only_others writes s (snd (cs_holder C s))"
    "only_others writes s (snd (cs_cancelled C s))" "only_others writes s (snd (cs_now C s))"
    "only_others writes s (snd (cs_read_by C p t s))" "only_others writes s (snd (cs_wait C b d' s))"
    "only_others writes s (cs_sleep C d s)" "only_others writes s (cs_finish C e s)"
    "only_others writes s (cs_send C r s)" "only_others writes s (snd (cs_snapshot C s))"
proof -
  obtain os os' where "writes (snd (cs_sequence C s)) = writes s @ os @ os'" "others os" "others os'"
    using clipboard_lawsD(2) [OF assms] unfolding sequence_law_def by metis
  then show "only_others writes s (snd (cs_sequence C s))"
    by (auto simp: only_others_def intro!: exI [of _ "os @ os'"])
  obtain os os' where "writes (snd (cs_snapshot C s)) = writes s @ os @ os'" "others os" "others os'"
    using clipboard_lawsD(4) [OF assms] unfolding snapshot_law_def by metis
  then show "only_others writes s (snd (cs_snapshot C s))"
    by (auto simp: only_others_def intro!: exI [of _ "os @ os'"])
qed (use clipboard_lawsD(3) [OF assms] in \<open>simp_all add: quiet_law_def\<close>)

text \<open>The broker's own write \<open>last W\<close> may have been followed by writes of others; \<open>q\<close> is a number read
  since.\<close>

definition holds :: "('s \<Rightarrow> 'c cwrite list) \<Rightarrow> ('c cwrite list \<Rightarrow> u32) \<Rightarrow> 'c cwrite list \<Rightarrow> u32 \<Rightarrow> 's \<Rightarrow> bool" where
  "holds writes number W q s \<longleftrightarrow>
     (\<exists>os os'. writes s = W @ os @ os' \<and> others os \<and> others os' \<and> q = number (W @ os))"

lemma holds_quiet: "holds writes number W q s \<Longrightarrow> only_others writes s s' \<Longrightarrow> holds writes number W q s'"
  unfolding holds_def only_others_def by fastforce

text \<open>What a restore of the broker's item leads to.\<close>

definition gave_back :: "'c cwrite list \<Rightarrow> 'c \<Rightarrow> broker_end \<Rightarrow> 'c cwrite list \<Rightarrow> bool" where
  "gave_back W c end ws \<longleftrightarrow>
     (end = Restored \<and> (\<exists>os. ws = W @ [Put_back c] @ os \<and> others os))
     \<or> (end = NotRestored \<and> (\<exists>os. ws = W @ os \<and> (others os \<or> (\<exists>os'. os = Partial # os' \<and> others os'))))"

lemma restore_gives_back:
  assumes laws: "clipboard_laws C writes number content" and held: "holds writes number W q s"
    and run: "cs_restore C (Some q) c s = (b, s')" and short: "length (writes s') < 2 ^ 32"
  shows "gave_back W c (if b then Restored else NotRestored) (writes s')"
proof -
  obtain os1 os2 where w: "writes s = W @ os1 @ os2" "others os1" "others os2" "q = number (W @ os1)"
    using held by (auto simp: holds_def)
  define own where "own os = writes s @ os" for os
  obtain os os' where os: "others os" "others os'"
    and r: "if b then writes s' = own os @ [Put_back c] @ os' \<and> number (own os) = q \<and> own os \<noteq> []
          \<and> \<not> is_other (last (own os))
        else writes s' = own os @ os'
          \<or> writes s' = own os @ [Partial] @ os' \<and> number (own os) = q \<and> own os \<noteq> [] \<and> \<not> is_other (last (own os))"
    using clipboard_lawsD(6) [OF laws] run unfolding restore_law_def own_def Let_def by blast
  have unchanged: "own os = W" if "number (own os) = q" "own os \<noteq> []" "\<not> is_other (last (own os))"
      "length (own os) \<le> length (writes s')"
  proof -
    have "prefix (W @ os1) (own os)" by (simp add: own_def w)
    then have "W @ os1 = own os"
      using stamps [OF laws] that(1,4) short w(4) by (metis order.strict_trans1)
    moreover have "os1 = []"
    proof (rule ccontr)
      assume "os1 \<noteq> []"
      then have "last (own os) = last os1" "is_other (last os1)"
        using w(2) \<open>W @ os1 = own os\<close> by (metis last_appendR) (use w(2) \<open>os1 \<noteq> []\<close> in \<open>simp add: others_def list_all_iff\<close>)
      then show False using that(3) by simp
    qed
    ultimately show ?thesis by simp
  qed
  show ?thesis
  proof (cases b)
    case True
    then show ?thesis
      using r unchanged os by (auto simp: gave_back_def)
  next
    case False
    then consider "writes s' = own os @ os'" | "writes s' = own os @ [Partial] @ os'" "own os = W"
      using r unchanged by fastforce
    then show ?thesis
    proof cases
      case 1
      then have "writes s' = W @ (os1 @ os2 @ os @ os')"
        by (simp add: own_def w)
      then show ?thesis
        using False os w by (fastforce simp: gave_back_def)
    next
      case 2
      then show ?thesis
        using False os by (auto simp: gave_back_def)
    qed
  qed
qed

lemma restore_if_current_gives_back:
  assumes laws: "clipboard_laws C writes number content" and held: "holds writes number W q s"
    and run: "restore_if_current C q c s = (end, s')" and short: "length (writes s') < 2 ^ 32"
  shows "gave_back W c end (writes s')"
proof -
  obtain now s1 where q: "cs_sequence C s = (now, s1)" by fastforce
  obtain owned s2 where own: "cs_owned C s1 = (owned, s2)" by fastforce
  obtain b s3 where r: "cs_restore C (Some q) c s2 = (b, s3)" by fastforce
  have h1: "holds writes number W q s1"
    using holds_quiet [OF held quiet(1) [OF laws]] q by simp
  have h2: "holds writes number W q s2"
    using holds_quiet [OF h1 quiet(3) [OF laws]] own by simp
  have not_back: "gave_back W c NotRestored (writes u)" if "holds writes number W q u" for u
    using that by (fastforce simp: holds_def gave_back_def)
  consider "end = NotRestored" "s' = s1" | "end = NotRestored" "s' = s2"
    | "end = (if b then Restored else NotRestored)" "s' = s3"
    using run q own r by (auto simp: restore_if_current_def split: if_splits)
  then show ?thesis
    using not_back [OF h1] not_back [OF h2] restore_gives_back [OF laws h2 r] short by cases auto
qed

text \<open>Waiting for a reader changes nothing on the clipboard.\<close>

lemma reader_loop_quiet:
  assumes laws: "clipboard_laws C writes number content"
    and run: "reader_loop C q target deadline read listening s = Some r"
  shows "only_others writes s (snd r)"
proof -
  have "clipboard_laws C writes number content \<longrightarrow> only_others writes s (snd r)"
  proof (rule reader_loop.raw_induct [where P = "\<lambda>C q target deadline read listening s r.
      clipboard_laws C writes number content \<longrightarrow> only_others writes s (snd r)", OF _ run], rule impI)
    fix loop C q target deadline read listening s r
    assume IH: "\<And>C q target deadline read listening s r.
        loop C q target deadline read listening s = Some r \<Longrightarrow>
        clipboard_laws C writes number content \<longrightarrow> only_others writes s (snd r)"
      and laws: "clipboard_laws C writes number content"
      and eq: "(let sq = cs_sequence C s in
        if fst sq \<noteq> q then Some (Replaced, snd sq)
        else let own = cs_owned C (snd sq) in
        if \<not> fst own then Some (Replaced, snd own)
        else
          let n = cs_now C (snd own);
              r = (if read then (False, snd n) else cs_read_by C (fst target) (snd target) (snd n));
              read' = (read \<or> fst r);
              deadline' = (if fst r then fst n + from_millis TARGET_READ_GRACE_MS else deadline)
          in if deadline' \<le> fst n then Some ((if read' then Read else Expired), snd r)
          else
            let w = cs_wait C listening (Some (min (deadline' - fst n) (from_millis 10))) (snd r) in
            case fst w of
              Command c \<Rightarrow> Some (Reader_command c, snd w)
            | Timeout \<Rightarrow> loop C q target deadline' read' listening (snd w)
            | Disconnected \<Rightarrow> loop C q target deadline' read' False (snd w)) = Some r"
    define s1 where "s1 = snd (cs_sequence C s)"
    define s2 where "s2 = snd (cs_owned C s1)"
    define n where "n = cs_now C s2"
    define rd where "rd = (if read then (False, snd n) else cs_read_by C (fst target) (snd target) (snd n))"
    define deadline' where "deadline' = (if fst rd then fst n + from_millis TARGET_READ_GRACE_MS else deadline)"
    define w where "w = cs_wait C listening (Some (min (deadline' - fst n) (from_millis 10))) (snd rd)"
    have s1: "only_others writes s s1"
      unfolding s1_def by (rule quiet [OF laws])
    have s2: "only_others writes s s2"
      unfolding s2_def using only_others_trans [OF s1 quiet(3) [OF laws]] .
    have n: "only_others writes s (snd n)"
      unfolding n_def using only_others_trans [OF s2 quiet(6) [OF laws]] .
    have rd: "only_others writes s (snd rd)"
      using n only_others_trans [OF n quiet(7) [OF laws]] by (simp add: rd_def)
    have w: "only_others writes s (snd w)"
      unfolding w_def using only_others_trans [OF rd quiet(8) [OF laws]] .
    have "r \<in> {(Replaced, s1), (Replaced, s2), (Read, snd rd), (Expired, snd rd)}
        \<or> (\<exists>c. r = (Reader_command c, snd w))
        \<or> (\<exists>listening. loop C q target deadline' (read \<or> fst rd) listening (snd w) = Some r)"
      using eq unfolding Let_def s1_def [symmetric] s2_def [symmetric] n_def [symmetric]
        rd_def [symmetric] deadline'_def [symmetric] w_def [symmetric]
      by (auto split: if_splits broker_wait.splits)
    then show "only_others writes s (snd r)"
      using s1 s2 rd w IH laws only_others_trans [OF w] by fastforce
  qed
  then show ?thesis using laws by blast
qed

lemma wait_for_reader_quiet:
  assumes "clipboard_laws C writes number content" "wait_for_reader C q target wait s = Some r"
  shows "only_others writes s (snd r)"
proof -
  obtain now s1 where now: "cs_now C s = (now, s1)" by fastforce
  then have "reader_loop C q target (now + wait) False True s1 = Some r"
    using assms(2) by (simp add: wait_for_reader_def)
  from reader_loop_quiet [OF assms(1) this] show ?thesis
    using quiet(6) [OF assms(1), of s] now only_others_trans by (metis snd_conv)
qed

text \<open>How the broker may end once the replacement is on the clipboard.\<close>

definition ended :: "'c cwrite list \<Rightarrow> 'c \<Rightarrow> broker_end \<Rightarrow> 'c cwrite list \<Rightarrow> bool" where
  "ended W c end ws \<longleftrightarrow>
     gave_back W c end ws \<or> end \<in> {Kept, Unread} \<and> (\<exists>os. ws = W @ os \<and> others os)"

lemma holds_ended:
  "holds writes number W q s \<Longrightarrow> end \<in> {Kept, Unread, NotRestored} \<Longrightarrow> ended W c end (writes s)"
  by (fastforce simp: holds_def ended_def gave_back_def)

text \<open>Whatever commands come, the loop ends by one restore or by leaving the clipboard alone.\<close>

lemma command_loop_shape:
  assumes laws: "clipboard_laws C writes number content"
    and run: "command_loop C q c waited s = Some r"
  shows "\<exists>u. only_others writes s u
    \<and> (r = restore_if_current C q c u \<or> (\<exists>fin \<in> {Kept, Unread, NotRestored}. r = (fin, u)))"
proof -
  let ?Q = "\<lambda>C q c s r. clipboard_laws C writes number content \<longrightarrow> (\<exists>u. only_others writes s u
    \<and> (r = restore_if_current C q c u \<or> (\<exists>fin \<in> {Kept, Unread, NotRestored}. r = (fin, u))))"
  have "?Q C q c s r"
  proof (rule command_loop.raw_induct [where P = "\<lambda>C q c waited s r. ?Q C q c s r", OF _ run], intro impI)
    fix loop C q c waited s r
    assume IH: "\<And>C q c waited s r. loop C q c waited s = Some r \<Longrightarrow> ?Q C q c s r"
      and eq: "(case waited of
        Command x \<Rightarrow>
          (case x of
             Restore \<Rightarrow> Some (restore_if_current C q c s)
           | Abandon \<Rightarrow> Some (Kept, s)
           | Defer process wait submitted_at \<Rightarrow>
               Option.bind (wait_for_reader C q (process, submitted_at) wait s) (\<lambda>r.
                 case fst r of
                   Read \<Rightarrow> Some (restore_if_current C q c (snd r))
                 | Replaced \<Rightarrow> Some (NotRestored, snd r)
                 | Expired \<Rightarrow> Some (Unread, snd r)
                 | Reader_command x \<Rightarrow> loop C q c (Command x) (snd r)))
      | Timeout \<Rightarrow> Some (Kept, s)
      | Disconnected \<Rightarrow> Some (Kept, s)) = Some r"
      and laws: "clipboard_laws C writes number content"
    have refl: "only_others writes s s" by (simp add: only_others_def)
    show "\<exists>u. only_others writes s u
      \<and> (r = restore_if_current C q c u \<or> (\<exists>fin \<in> {Kept, Unread, NotRestored}. r = (fin, u)))"
    proof (cases waited)
      case (Command x)
      show ?thesis
      proof (cases x)
        case (Defer process wait submitted_at)
        then obtain u where u: "wait_for_reader C q (process, submitted_at) wait s = Some u"
          using eq Command by (cases "wait_for_reader C q (process, submitted_at) wait s") auto
        have su: "only_others writes s (snd u)"
          by (rule wait_for_reader_quiet [OF laws u])
        show ?thesis
        proof (cases "fst u")
          case (Reader_command y)
          then have "loop C q c (Command y) (snd u) = Some r"
            using eq Command Defer u by simp
          then show ?thesis using IH laws only_others_trans [OF su] by blast
        qed (use eq Command Defer u su in auto)
      qed (use eq Command refl in auto)
    qed (use eq refl in auto)
  qed
  then show ?thesis using laws by blast
qed

lemma command_loop_ends_well:
  assumes laws: "clipboard_laws C writes number content"
    and run: "command_loop C q c waited s = Some (fin, s')"
    and held: "holds writes number W q s" and short: "length (writes s') < 2 ^ 32"
  shows "ended W c fin (writes s')"
proof -
  obtain u where u: "only_others writes s u"
    and r: "(fin, s') = restore_if_current C q c u \<or> fin \<in> {Kept, Unread, NotRestored} \<and> s' = u"
    using command_loop_shape [OF laws run] by auto
  have hu: "holds writes number W q u"
    by (rule holds_quiet [OF held u])
  from r show ?thesis
  proof
    assume "(fin, s') = restore_if_current C q c u"
    then show ?thesis
      using restore_if_current_gives_back [OF laws hu _ short] by (simp add: ended_def)
  next
    assume "fin \<in> {Kept, Unread, NotRestored} \<and> s' = u"
    then show ?thesis using holds_ended [OF hu] by simp
  qed
qed

section \<open>The installation\<close>

definition installed_on ::
  "('s \<Rightarrow> 'c cwrite list) \<Rightarrow> ('c cwrite list \<Rightarrow> u32) \<Rightarrow> ('c cwrite list \<Rightarrow> 'c) \<Rightarrow> 's \<Rightarrow>
     'c cwrite \<Rightarrow> 'c \<Rightarrow> u32 \<Rightarrow> 's \<Rightarrow> bool" where
  "installed_on writes number content s x c q s' \<longleftrightarrow>
     (\<exists>pre. others pre \<and> c = content (writes s @ pre) \<and> holds writes number (writes s @ pre @ [x]) q s')"

text \<open>The copy is the content the installation replaces: the sequence read before the copy is still
  the clipboard's when the installation empties it.\<close>

lemma install_replaces_the_copy:
  assumes laws: "clipboard_laws C writes number content"
    and "cs_sequence C s = (before, s1)" "cs_snapshot C s1 = (Some c, s2)"
    and "cs_install C text before s2 = (outcome, s3)" "length (writes s3) < 2 ^ 32"
  shows "case outcome of
      InstallUntouched _ \<Rightarrow> only_others writes s s3
    | Installed q \<Rightarrow> installed_on writes number content s Replacement c q s3
    | InstallEmptied q \<Rightarrow> installed_on writes number content s Emptied c q s3"
proof -
  obtain a a' where a: "writes s1 = writes s @ a @ a'" "others a" "others a'" "before = number (writes s @ a)"
    using clipboard_lawsD(2) [OF laws] assms(2) unfolding sequence_law_def by (metis fst_conv snd_conv)
  obtain b b' where b: "writes s2 = writes s1 @ b @ b'" "others b" "others b'" "c = content (writes s1 @ b)"
    using clipboard_lawsD(4) [OF laws] assms(3) unfolding snapshot_law_def
    by (metis (mono_tags, lifting) fst_conv option.simps(5) snd_conv)
  have put: "installed_on writes number content s x c q s3" if put: "placed writes number s2 before x q s3" for x q
  proof -
    obtain os os1 os2 where w: "writes s3 = writes s2 @ os @ [x] @ os1 @ os2" "others os1" "others os2"
      "number (writes s2 @ os) = before" "q = number (writes s2 @ os @ [x] @ os1)"
      using put unfolding placed_def by blast
    have "prefix (writes s @ a) (writes s2 @ os)" "length (writes s2 @ os) < 2 ^ 32"
      using w(1) assms(5) by (simp_all add: a(1) b(1))
    then have "writes s @ a = writes s2 @ os"
      using stamps [OF laws] a(4) w(4) by metis
    then have "a' = []" "b = []" "b' = []" "os = []"
      by (simp_all add: a(1) b(1))
    then show ?thesis
      unfolding installed_on_def holds_def using w a b
      by (intro exI [of _ a] conjI exI [of _ os1] exI [of _ os2]) simp_all
  qed
  have law: "case outcome of InstallUntouched _ \<Rightarrow> only_others writes s2 s3
      | Installed q \<Rightarrow> placed writes number s2 before Replacement q s3
      | InstallEmptied q \<Rightarrow> placed writes number s2 before Emptied q s3"
    using clipboard_lawsD(5) [OF laws] assms(4) unfolding install_law_def by blast
  have "only_others writes s s2"
    using only_others_trans quiet(1,12) [OF laws] assms(2,3) by (metis snd_conv)
  then show ?thesis
    using law put only_others_trans by (cases outcome) auto
qed

lemma restore_grows:
  assumes "clipboard_laws C writes number content"
  shows "length (writes s) \<le> length (writes (snd (cs_restore C (Some q) c s)))"
proof -
  obtain b s' where r: "cs_restore C (Some q) c s = (b, s')" by fastforce
  then obtain os os' where "if b then writes s' = (writes s @ os) @ [Put_back c] @ os'
      else writes s' = (writes s @ os) @ os' \<or> writes s' = (writes s @ os) @ [Partial] @ os'"
    using clipboard_lawsD(6) [OF assms] unfolding restore_law_def Let_def by (metis (no_types, lifting))
  then show ?thesis
    using r by (cases b) auto
qed

lemma restore_if_current_grows:
  assumes laws: "clipboard_laws C writes number content"
  shows "length (writes s) \<le> length (writes (snd (restore_if_current C q c s)))"
proof -
  obtain now s1 where q: "cs_sequence C s = (now, s1)" by fastforce
  obtain owned s2 where own: "cs_owned C s1 = (owned, s2)" by fastforce
  have "only_others writes s s1" "only_others writes s1 s2"
    using quiet(1) [OF laws, of s] quiet(3) [OF laws, of s1] q own by simp_all
  then have "length (writes s) \<le> length (writes s1)" "length (writes s1) \<le> length (writes s2)"
    by (auto simp: only_others_def)
  then show ?thesis
    using restore_grows [OF laws, of s2 q c] by (simp add: restore_if_current_def q own case_prod_unfold Let_def)
qed

lemma only_others_length: "only_others writes s s' \<Longrightarrow> length (writes s) \<le> length (writes s')"
  by (auto simp: only_others_def)

lemma gave_back_later: "gave_back W c fin ws \<Longrightarrow> others os \<Longrightarrow> gave_back W c fin (ws @ os)"
  by (fastforce simp: gave_back_def)

lemma ended_later: "ended W c fin ws \<Longrightarrow> others os \<Longrightarrow> ended W c fin (ws @ os)"
  by (auto simp: ended_def intro: gave_back_later)

definition install_result ::
  "('s \<Rightarrow> 'c cwrite list) \<Rightarrow> ('c cwrite list \<Rightarrow> u32) \<Rightarrow> ('c cwrite list \<Rightarrow> 'c) \<Rightarrow> 's \<Rightarrow>
     broker_end + ('c \<times> u32) \<Rightarrow> 's \<Rightarrow> bool" where
  "install_result writes number content s r s' \<longleftrightarrow> (case r of
     Inr (c, q) \<Rightarrow> installed_on writes number content s Replacement c q s'
   | Inl fin \<Rightarrow> fin = Untouched \<and> only_others writes s s'
       \<or> (\<exists>pre. others pre \<and> gave_back (writes s @ pre @ [Emptied]) (content (writes s @ pre)) fin (writes s')))"

lemma install_result_later:
  assumes "only_others writes s u" "install_result writes number content u r s'"
  shows "install_result writes number content s r s'"
proof -
  obtain os where os: "writes u = writes s @ os" "others os"
    using assms(1) by (auto simp: only_others_def)
  show ?thesis
  proof (cases r)
    case (Inl fin)
    then consider "fin = Untouched" "only_others writes u s'"
      | pre where "others pre" "gave_back (writes u @ pre @ [Emptied]) (content (writes u @ pre)) fin (writes s')"
      using assms(2) by (auto simp: install_result_def)
    then show ?thesis
    proof cases
      case 1
      then show ?thesis using only_others_trans [OF assms(1)] Inl by (simp add: install_result_def)
    next
      case (2 pre)
      then show ?thesis
        using os Inl by (auto simp: install_result_def intro!: exI [of _ "os @ pre"])
    qed
  next
    case (Inr x)
    then obtain c q where r: "r = Inr (c, q)" by (cases x) simp
    then obtain pre where "others pre" "c = content (writes u @ pre)" "holds writes number (writes u @ pre @ [Replacement]) q s'"
      using assms(2) by (auto simp: install_result_def installed_on_def)
    then show ?thesis
      using os r by (auto simp: install_result_def installed_on_def intro!: exI [of _ "os @ pre"])
  qed
qed

lemma install_attempts_result:
  assumes laws: "clipboard_laws C writes number content"
  shows "install_attempts C replacement n s = (r, s') \<Longrightarrow> length (writes s') < 2 ^ 32 \<Longrightarrow>
    install_result writes number content s r s'"
proof (induction "CLIPBOARD_INSTALL_ATTEMPTS - n" arbitrary: n s rule: less_induct)
  case less
  note q = quiet [OF laws]
  have grows: "length (writes u) \<le> length (writes (snd (cs_restore C (Some x) c u)))" for u x c
    using restore_grows [OF laws] .
  obtain before s1 where before: "cs_sequence C s = (before, s1)" by fastforce
  obtain copy s2 where copy: "cs_snapshot C s1 = (copy, s2)" by fastforce
  have s2: "only_others writes s s2"
    using only_others_trans q(1,12) before copy by (metis snd_conv)
  define after where "after reason u = (let (retry, u) =
      (if is_transient reason \<and> n < CLIPBOARD_INSTALL_ATTEMPTS
       then let (cancelled, u) = cs_cancelled C u in (\<not> cancelled, u) else (False, u)) in
    if retry \<and> n < CLIPBOARD_INSTALL_ATTEMPTS then
      install_attempts C replacement (n + 1) (cs_sleep C (from_millis CLIPBOARD_INSTALL_RETRY_MS) u)
    else
      let u = cs_finish C Untouched u; (holder, u) = cs_holder C u
      in (Inl Untouched,
          cs_send C (Failed_broker \<lparr>rf_reason = reason, rf_attempts = n, rf_holder = holder\<rparr>) u))" for reason u
  have unchanged: "install_result writes number content s r s'"
    if u: "only_others writes s u" and a: "after reason u = (r, s')" for reason u
  proof -
    obtain retry u1 where retry: "(if is_transient reason \<and> n < CLIPBOARD_INSTALL_ATTEMPTS
       then let (cancelled, u) = cs_cancelled C u in (\<not> cancelled, u) else (False, u)) = (retry, u1)"
      by (metis surj_pair)
    have u1: "only_others writes s u1"
      using retry u only_others_trans [OF u q(5)] by (auto simp: case_prod_unfold Let_def split: if_splits)
    show ?thesis
    proof (cases "retry \<and> n < CLIPBOARD_INSTALL_ATTEMPTS")
      case True
      let ?u = "cs_sleep C (from_millis CLIPBOARD_INSTALL_RETRY_MS) u1"
      have "install_attempts C replacement (n + 1) ?u = (r, s')"
        using a retry True by (simp add: after_def)
      moreover have "CLIPBOARD_INSTALL_ATTEMPTS - (n + 1) < CLIPBOARD_INSTALL_ATTEMPTS - n"
        using conjunct2 [OF True] by linarith
      ultimately have "install_result writes number content ?u r s'"
        using less.hyps less.prems(2) by blast
      then show ?thesis
        by (rule install_result_later [OF only_others_trans [OF u1 q(9)]])
    next
      case False
      obtain holder u2 where h: "cs_holder C (cs_finish C Untouched u1) = (holder, u2)" by fastforce
      have "r = Inl Untouched" "\<exists>m. s' = cs_send C m u2"
        using a retry False h by (auto simp: after_def)
      moreover have "only_others writes s u2"
        using only_others_trans [OF only_others_trans [OF u1 q(10)] q(4)] h by (metis snd_conv)
      ultimately show ?thesis
        using only_others_trans [OF _ q(11)] by (auto simp: install_result_def)
    qed
  qed
  show ?case
  proof (cases copy)
    case None
    then have "after Snapshot s2 = (r, s')"
      using less.prems(1) before copy
      by (subst (asm) install_attempts.simps) (simp add: after_def)
    then show ?thesis by (rule unchanged [OF s2])
  next
    case (Some c)
    obtain outcome s3 where install: "cs_install C replacement before s2 = (outcome, s3)" by fastforce
    show ?thesis
    proof (cases outcome)
      case (InstallUntouched reason)
      then have a: "after reason s3 = (r, s')"
        using less.prems(1) before copy Some install
        by (subst (asm) install_attempts.simps) (simp add: after_def)
      have "only_others writes s2 s3"
        using clipboard_lawsD(5) [OF laws] install InstallUntouched unfolding install_law_def by fastforce
      then show ?thesis
        using unchanged [OF only_others_trans [OF s2] a] by blast
    next
      case (Installed x)
      then have r: "r = Inr (c, x)" "s' = s3"
        using less.prems(1) before copy Some install
        by (subst (asm) install_attempts.simps, simp)+
      then show ?thesis
        using install_replaces_the_copy [OF laws before _ install] copy Some Installed less.prems(2)
        by (simp add: install_result_def)
    next
      case (InstallEmptied x)
      obtain b s4 where restore: "cs_restore C (Some x) c s3 = (b, s4)" by fastforce
      let ?fin = "if b then Restored else NotRestored"
      have r: "r = Inl ?fin" "\<exists>m. s' = cs_send C m (cs_finish C ?fin s4)"
        using less.prems(1) before copy Some install InstallEmptied restore
        by (subst (asm) install_attempts.simps, auto)+
      have s4: "only_others writes s4 s'"
        using r(2) only_others_trans [OF q(10) q(11)] by blast
      then have short: "length (writes s4) < 2 ^ 32" "length (writes s3) < 2 ^ 32"
        using only_others_length [OF s4] less.prems(2) grows [of s3 x c] restore by simp_all
      then have "installed_on writes number content s Emptied c x s3"
        using install_replaces_the_copy [OF laws before _ install] copy Some InstallEmptied by simp
      then obtain pre where "others pre" "c = content (writes s @ pre)"
        "holds writes number (writes s @ pre @ [Emptied]) x s3"
        by (auto simp: installed_on_def)
      then have "gave_back (writes s @ pre @ [Emptied]) c ?fin (writes s4)"
        using restore_gives_back [OF laws _ restore short(1)] by blast
      then have "gave_back (writes s @ pre @ [Emptied]) c ?fin (writes s')"
        using s4 gave_back_later by (auto simp: only_others_def)
      then show ?thesis
        using r(1) \<open>others pre\<close> \<open>c = content (writes s @ pre)\<close> by (auto simp: install_result_def)
    qed
  qed
qed

section \<open>What the user keeps\<close>

text \<open>C25. A paste never costs the user what is on the clipboard, except as it is reported. Whatever
  other programs do to the clipboard meanwhile, the broker ends in one of these ways: it wrote
  nothing; it put back, directly after its own single write, the very content that write replaced;
  it reports that it did not put it back, having written nothing after its own write except a
  restore that could not be completed; or it left the replacement on purpose. So it never overwrites
  what another program put there.\<close>

theorem broker_keeps_users_clipboard:
  assumes laws: "clipboard_laws C writes number content"
    and run: "run_clipboard_broker C replacement s = Some (fin, s')" and short: "length (writes s') < 2 ^ 32"
  shows "fin = Untouched \<and> (\<exists>os. writes s' = writes s @ os \<and> others os)
    \<or> (\<exists>pre x os. others pre \<and> others os \<and> x \<in> {Emptied, Replacement}
         \<and> (fin = Restored \<and> writes s' = writes s @ pre @ [x, Put_back (content (writes s @ pre))] @ os
            \<or> fin = NotRestored
                \<and> (writes s' = writes s @ pre @ [x] @ os \<or> writes s' = writes s @ pre @ [x, Partial] @ os)
            \<or> fin \<in> {Kept, Unread} \<and> x = Replacement \<and> writes s' = writes s @ pre @ [x] @ os))"
proof -
  note q = quiet [OF laws]
  obtain r s1 where install: "install_attempts C replacement 1 s = (r, s1)" by fastforce
  show ?thesis
  proof (cases r)
    case (Inl e)
    then have "e = fin" "s1 = s'"
      using run install by (simp_all add: run_clipboard_broker_def)
    then have "install_result writes number content s (Inl fin) s'"
      using install_attempts_result [OF laws install] short Inl by simp
    then consider "fin = Untouched" "only_others writes s s'"
      | pre where "others pre" "gave_back (writes s @ pre @ [Emptied]) (content (writes s @ pre)) fin (writes s')"
      by (auto simp: install_result_def)
    then show ?thesis
    proof cases
      case 1
      then show ?thesis by (simp add: only_others_def)
    next
      case (2 pre)
      then show ?thesis
        unfolding gave_back_def by fastforce
    qed
  next
    case (Inr x)
    then obtain c n where r: "r = Inr (c, n)" by (cases x) simp
    obtain owner s2 where owner: "cs_owner C s1 = (owner, s2)" by fastforce
    obtain waited s4 where waited: "cs_wait C True None (cs_send C (Installed_at n owner) s2) = (waited, s4)"
      by fastforce
    obtain e s5 where loop: "command_loop C n c waited s4 = Some (e, s5)"
      using run install r owner waited by (auto simp: run_clipboard_broker_def split: option.splits)
    have fin: "e = fin" "s' = cs_send C (Finished (fin = Restored)) (cs_finish C fin s5)"
      using run install r owner waited loop by (auto simp: run_clipboard_broker_def)
    have s5: "only_others writes s5 s'"
      unfolding fin(2) by (rule only_others_trans [OF q(10) q(11)])
    have s4: "only_others writes s1 s4"
      using only_others_trans [OF only_others_trans [OF q(2) q(11)] q(8)] owner waited by (metis snd_conv)
    have short5: "length (writes s5) < 2 ^ 32"
      using only_others_length [OF s5] short by simp
    have "length (writes s4) \<le> length (writes s5)"
    proof -
      obtain u where u: "only_others writes s4 u" and e: "restore_if_current C n c u = (e, s5) \<or> s5 = u"
        using command_loop_shape [OF laws loop] by auto
      have "length (writes u) \<le> length (writes s5)"
        using e restore_if_current_grows [OF laws, of u n c] by auto
      then show ?thesis using only_others_length [OF u] by simp
    qed
    then have "length (writes s1) \<le> length (writes s5)"
      using only_others_length [OF s4] by simp
    then have "install_result writes number content s r s1"
      using install_attempts_result [OF laws install] short5 by simp
    then obtain pre where pre: "others pre" "c = content (writes s @ pre)"
      "holds writes number (writes s @ pre @ [Replacement]) n s1"
      using r by (auto simp: install_result_def installed_on_def)
    have "ended (writes s @ pre @ [Replacement]) c e (writes s5)"
      using command_loop_ends_well [OF laws loop holds_quiet [OF pre(3) s4]] short5 by simp
    moreover obtain os where "writes s' = writes s5 @ os" "others os"
      using s5 by (auto simp: only_others_def)
    ultimately have "ended (writes s @ pre @ [Replacement]) c fin (writes s')"
      using ended_later fin(1) by metis
    then show ?thesis
      using pre(1,2) unfolding ended_def gave_back_def by fastforce
  qed
qed

section \<open>The broker comes to an end\<close>

text \<open>What is assumed of the time and of the worker: time does not run back; a wait that times out
  lasted as long as it was asked to; and \<open>pending\<close>, the number of commands the worker is still to
  send, goes down with each command received. A broker that no longer listens is never told anything.\<close>

definition calm :: "('s \<Rightarrow> instant) \<Rightarrow> ('s \<Rightarrow> nat) \<Rightarrow> 's \<Rightarrow> 's \<Rightarrow> bool" where
  "calm clock pending s s' \<longleftrightarrow> clock s \<le> clock s' \<and> pending s' \<le> pending s"

lemma calm_trans: "calm clock pending s s' \<Longrightarrow> calm clock pending s' s'' \<Longrightarrow> calm clock pending s s''"
  by (auto simp: calm_def)

definition progress_laws :: "('s, 'c) clipboard_system \<Rightarrow> ('s \<Rightarrow> instant) \<Rightarrow> ('s \<Rightarrow> nat) \<Rightarrow> bool" where
  "progress_laws C clock pending \<longleftrightarrow>
     (\<forall>s. calm clock pending s (snd (cs_sequence C s)) \<and> calm clock pending s (snd (cs_owned C s))
        \<and> calm clock pending s (snd (cs_now C s)) \<and> clock s \<le> fst (cs_now C s)
        \<and> (\<forall>p t. calm clock pending s (snd (cs_read_by C p t s)))
        \<and> (\<forall>b d. calm clock pending s (snd (cs_wait C b d s))))
     \<and> (\<forall>s b d. case fst (cs_wait C b (Some d) s) of
          Command _ \<Rightarrow> b \<and> pending (snd (cs_wait C b (Some d) s)) < pending s
        | Timeout \<Rightarrow> clock s + d \<le> clock (snd (cs_wait C b (Some d) s))
        | Disconnected \<Rightarrow> b)"

lemma reader_loop_returns:
  assumes laws: "progress_laws C clock pending"
  shows "\<exists>r. reader_loop C q target deadline read listening s = Some r
    \<and> (\<forall>c. fst r = Reader_command c \<longrightarrow> pending (snd r) < pending s)"
proof (induction "(if read then 0 else 1 :: nat, if listening then 1 else 0 :: nat, deadline - clock s)"
    arbitrary: read listening deadline s
    rule: wf_induct_rule [OF wf_lex_prod [OF wf_less_than wf_lex_prod [OF wf_less_than wf_less_than]]])
  case (1 read listening deadline s)
  define s1 where "s1 = snd (cs_sequence C s)"
  define s2 where "s2 = snd (cs_owned C s1)"
  define n where "n = cs_now C s2"
  define rd where "rd = (if read then (False, snd n) else cs_read_by C (fst target) (snd target) (snd n))"
  define deadline' where "deadline' = (if fst rd then fst n + from_millis TARGET_READ_GRACE_MS else deadline)"
  define slice where "slice = min (deadline' - fst n) (from_millis 10)"
  define w where "w = cs_wait C listening (Some slice) (snd rd)"
  have "calm clock pending s s1" "calm clock pending s1 s2" "calm clock pending s2 (snd n)"
    "calm clock pending (snd n) (snd rd)" "clock s2 \<le> fst n" "calm clock pending (snd rd) (snd w)"
    using laws by (simp_all add: progress_laws_def s1_def s2_def n_def rd_def w_def calm_def)
  then have calm: "calm clock pending s (snd rd)" "clock s \<le> fst n" "calm clock pending s (snd w)"
    by (auto simp: calm_def)
  have eq: "reader_loop C q target deadline read listening s =
     (if fst (cs_sequence C s) \<noteq> q then Some (Replaced, s1)
      else if \<not> fst (cs_owned C s1) then Some (Replaced, s2)
      else if deadline' \<le> fst n then Some ((if read \<or> fst rd then Read else Expired), snd rd)
      else case fst w of
          Timeout \<Rightarrow> reader_loop C q target deadline' (read \<or> fst rd) listening (snd w)
        | Command c \<Rightarrow> Some (Reader_command c, snd w)
        | Disconnected \<Rightarrow> reader_loop C q target deadline' (read \<or> fst rd) False (snd w))"
    by (subst reader_loop.simps) (simp only: Let_def s1_def s2_def n_def rd_def deadline'_def slice_def w_def)
  have outcome: "case fst w of Command _ \<Rightarrow> listening \<and> pending (snd w) < pending (snd rd)
      | Timeout \<Rightarrow> clock (snd rd) + slice \<le> clock (snd w) | Disconnected \<Rightarrow> listening"
    using laws unfolding progress_laws_def w_def by blast
  show ?case
  proof (cases "fst (cs_sequence C s) \<noteq> q \<or> \<not> fst (cs_owned C s1) \<or> deadline' \<le> fst n")
    case True
    then show ?thesis unfolding eq by auto
  next
    case False
    then have late: "fst n < deadline'" by simp
    have again: "\<exists>r. reader_loop C q target deadline' (read \<or> fst rd) listening' (snd w) = Some r
        \<and> (\<forall>c. fst r = Reader_command c \<longrightarrow> pending (snd r) < pending s)"
      if "fst w = Timeout \<and> listening' = listening \<or> listening \<and> \<not> listening'" for listening'
    proof -
      have "((if read \<or> fst rd then 0 else 1 :: nat, if listening' then 1 else 0 :: nat, deadline' - clock (snd w)),
          (if read then 0 else 1, if listening then 1 else 0, deadline - clock s))
          \<in> less_than <*lex*> less_than <*lex*> less_than"
      proof (cases "\<not> read \<and> fst rd")
        case True
        then show ?thesis by simp
      next
        case unread: False
        then have d: "deadline' = deadline" "\<not> fst rd"
          by (auto simp: deadline'_def rd_def split: if_splits)
        show ?thesis
        proof (cases "listening' = listening")
          case True
          then have "clock (snd rd) + slice \<le> clock (snd w)"
            using that outcome by auto
          moreover have "0 < slice"
            using late by (simp add: slice_def from_millis_def)
          ultimately have "clock s < clock (snd w)" "clock s < deadline"
            using calm late d by (auto simp: calm_def)
          then show ?thesis using True d by auto
        next
          case False
          then show ?thesis using that d by auto
        qed
      qed
      from "1.hyps" [OF this] show ?thesis
        using calm(3) by (force simp: calm_def)
    qed
    show ?thesis
    proof (cases "fst w")
      case (Command c)
      then show ?thesis
        unfolding eq using False outcome calm(1) by (auto simp: calm_def)
    next
      case Timeout
      then show ?thesis
        unfolding eq using False again [of listening] by auto
    next
      case Disconnected
      then show ?thesis
        unfolding eq using False outcome again [of False] by auto
    qed
  qed
qed

lemma wait_for_reader_returns:
  assumes "progress_laws C clock pending"
  shows "\<exists>r. wait_for_reader C q target wait s = Some r
    \<and> (\<forall>c. fst r = Reader_command c \<longrightarrow> pending (snd r) < pending s)"
proof -
  obtain now s1 where now: "cs_now C s = (now, s1)" by fastforce
  have "calm clock pending s s1"
    using assms now unfolding progress_laws_def by (metis snd_conv)
  moreover obtain r where "reader_loop C q target (now + wait) False True s1 = Some r"
    "\<forall>c. fst r = Reader_command c \<longrightarrow> pending (snd r) < pending s1"
    using reader_loop_returns [OF assms] by blast
  ultimately show ?thesis
    by (auto simp: wait_for_reader_def now calm_def)
qed

lemma command_loop_returns:
  assumes "progress_laws C clock pending"
  shows "\<exists>r. command_loop C q c waited s = Some r"
proof (induction "pending s" arbitrary: waited s rule: less_induct)
  case less
  show ?case
  proof (cases waited)
    case (Command x)
    show ?thesis
    proof (cases x)
      case (Defer process wait submitted_at)
      obtain u where u: "wait_for_reader C q (process, submitted_at) wait s = Some u"
        "\<forall>c. fst u = Reader_command c \<longrightarrow> pending (snd u) < pending s"
        using wait_for_reader_returns [OF assms] by blast
      show ?thesis
      proof (cases "fst u")
        case (Reader_command y)
        then have "\<exists>r. command_loop C q c (Command y) (snd u) = Some r"
          using u(2) less.hyps by blast
        then show ?thesis
          using Command Defer u(1) Reader_command by (subst command_loop.simps) simp
      qed (use Command Defer u(1) in \<open>subst command_loop.simps, simp\<close>)+
    qed (use Command in \<open>subst command_loop.simps, simp\<close>)+
  qed (subst command_loop.simps, simp)+
qed

text \<open>C28. The broker always comes to an end, so the user's content is not held for ever: whatever the
  clipboard answers and whenever the paste's target reads it, a broker whose worker sends finitely
  many commands, or goes away, returns.\<close>

theorem broker_ends:
  assumes "progress_laws C clock pending"
  shows "\<exists>fin s'. run_clipboard_broker C replacement s = Some (fin, s')"
proof -
  obtain r s1 where install: "install_attempts C replacement 1 s = (r, s1)" by fastforce
  show ?thesis
  proof (cases r)
    case (Inl fin)
    then show ?thesis by (simp add: run_clipboard_broker_def install [unfolded One_nat_def])
  next
    case (Inr x)
    obtain c q where x: "x = (c, q)" by fastforce
    obtain owner s2 where owner: "cs_owner C s1 = (owner, s2)" by fastforce
    obtain waited s3 where waited: "cs_wait C True None (cs_send C (Installed_at q owner) s2) = (waited, s3)"
      by fastforce
    obtain fin s4 where "command_loop C q c waited s3 = Some (fin, s4)"
      using command_loop_returns [OF assms] by fastforce
    then show ?thesis
      by (simp add: run_clipboard_broker_def install [unfolded One_nat_def] Inr x owner waited)
  qed
qed

section \<open>A sample clipboard\<close>

text \<open>A clipboard nobody else changes: the writes so far, the commands still to come and the time.\<close>

fun sample_content :: "nat cwrite list \<Rightarrow> nat" where
  "sample_content ws = (case rev ws of Other c # _ \<Rightarrow> c | Put_back c # _ \<Rightarrow> c | _ \<Rightarrow> 0)"

definition sample_number :: "nat cwrite list \<Rightarrow> u32" where
  "sample_number ws = of_nat (length ws)"

definition sample_clipboard :: "(nat cwrite list \<times> nat \<times> instant, nat) clipboard_system" where
  "sample_clipboard =
     \<lparr>cs_sequence = (\<lambda>s. (sample_number (fst s), s)), cs_owner = Pair 7,
      cs_owned = (\<lambda>s. (fst s \<noteq> [] \<and> \<not> is_other (last (fst s)), s)),
      cs_snapshot = (\<lambda>s. (Some (sample_content (fst s)), s)),
      cs_install = (\<lambda>replacement expected (ws, n, t).
        if sample_number ws = expected
        then (Installed (sample_number (ws @ [Replacement])), (ws @ [Replacement], n, t))
        else (InstallUntouched Changed, (ws, n, t))),
      cs_restore = (\<lambda>q c (ws, n, t).
        if q = Some (sample_number ws) \<and> ws \<noteq> [] \<and> \<not> is_other (last ws)
        then (True, (ws @ [Put_back c], n, t)) else (False, (ws, n, t))),
      cs_wait = (\<lambda>b d (ws, n, t).
        if b \<and> n > 0 then (Command Restore, (ws, n - 1, t))
        else (Timeout, (ws, n, t + (case d of None \<Rightarrow> 0 | Some d \<Rightarrow> d)))),
      cs_read_by = (\<lambda>p t. Pair True), cs_holder = Pair 0, cs_cancelled = Pair False,
      cs_now = (\<lambda>s. (snd (snd s), s)), cs_sleep = (\<lambda>d (ws, n, t). (ws, n, t + d)),
      cs_finish = (\<lambda>_. id), cs_send = (\<lambda>_. id)\<rparr>"

lemma sample_stamps: "stamps_law sample_number"
  unfolding stamps_law_def
proof (intro allI impI)
  fix w w' :: "nat cwrite list"
  assume "prefix w w' \<and> length w' < 2 ^ 32 \<and> sample_number w = sample_number w'"
  then have p: "prefix w w'" "length w' < 2 ^ 32" "(of_nat (length w) :: u32) = of_nat (length w')"
    by (simp_all add: sample_number_def)
  then have "length w < 2 ^ 32"
    using prefix_length_le le_less_trans by blast
  then have "length w = length w'"
    using p(2) arg_cong [OF p(3), of unat] by (simp add: unat_of_nat)
  then show "w = w'"
    using p(1) by (auto simp: prefix_def)
qed

lemma no_others: "only_others fst s s" "fst s' = fst s \<Longrightarrow> only_others fst s s'"
  by (simp_all add: only_others_def)

lemma sample_clipboard_laws: "clipboard_laws sample_clipboard fst sample_number sample_content"
  unfolding clipboard_laws_def
proof (intro conjI)
  show "stamps_law sample_number" by (rule sample_stamps)
  show "sequence_law sample_clipboard fst sample_number"
    by (auto simp: sequence_law_def sample_clipboard_def intro!: exI [of _ "[]"])
  show "quiet_law sample_clipboard fst"
    by (auto simp: quiet_law_def sample_clipboard_def intro!: no_others)
  show "snapshot_law sample_clipboard fst sample_content"
    by (auto simp: snapshot_law_def sample_clipboard_def intro!: exI [of _ "[]"])
  show "install_law sample_clipboard fst sample_number"
    by (auto simp: install_law_def sample_clipboard_def placed_def intro!: no_others exI [of _ "[]"] split: if_splits)
  show "restore_law sample_clipboard fst sample_number"
    by (auto simp: restore_law_def sample_clipboard_def Let_def intro!: exI [of _ "[]"] split: if_splits)
qed

lemma sample_progress: "progress_laws sample_clipboard (\<lambda>s. snd (snd s)) (\<lambda>s. fst (snd s))"
  by (auto simp: progress_laws_def sample_clipboard_def calm_def split: if_splits)

lemma sample_broker_run:
  "run_clipboard_broker sample_clipboard [] ([Other 5], 1, 0)
    = Some (Restored, ([Other 5, Replacement, Put_back 5], 0, 0))"
  by (subst run_clipboard_broker_def, subst install_attempts.simps)
    (simp add: sample_clipboard_def command_loop.simps restore_if_current_def sample_number_def)

lemma broker_ends_witness:
  "\<exists>fin s'. run_clipboard_broker sample_clipboard [] ([Other 5], 1, 0) = Some (fin, s')"
  by (rule broker_ends [OF sample_progress])

lemma broker_keeps_users_clipboard_witness:
  "\<exists>fin s'. run_clipboard_broker sample_clipboard [] ([Other 5], 1, 0) = Some (fin, s') \<and> fin = Restored
    \<and> (\<exists>pre x os. others pre \<and> others os
         \<and> fst s' = [Other 5] @ pre @ [x, Put_back (sample_content ([Other 5] @ pre))] @ os)"
proof -
  have "length (fst ([Other 5, Replacement, Put_back 5] :: nat cwrite list, 0::nat, 0::instant)) < 2 ^ 32"
    by simp
  from broker_keeps_users_clipboard [OF sample_clipboard_laws sample_broker_run this] show ?thesis
    using sample_broker_run by fastforce
qed

end
