(* ===== verification/Bounded_Probe.thy ===== *)
theory Bounded_Probe
  imports Prelude
begin

text \<open>
  \<open>src/bounded_probe.rs\<close>: one provider thread with a queue of one request, asked with a limit on the
  wait and on the age of the answer. The channels and the clock of the standard library are arguments
  over a state of the outside world: a channel is made, a request is tried, an answer is waited for,
  and a stuck provider is replaced by a fresh thread with a queue of its own.
\<close>

section \<open>The probe\<close>

datatype probe_failure = ProbeTimeout | ProbeBusy | ProbeDisconnected | ProbeExpired

datatype send_outcome = SendOk | SendFull | SendDisconnected

datatype 'v receive_outcome = Received 'v | RecvTimeout | RecvDisconnected

record ('s, 'q, 'c, 'k, 'v) provider_system =
  pv_now :: "'s \<Rightarrow> instant \<times> 's"
  pv_channel :: "'s \<Rightarrow> 'c \<times> 's"
  pv_try_send :: "'q \<Rightarrow> 'k \<Rightarrow> 'c \<Rightarrow> 's \<Rightarrow> send_outcome \<times> 's"
  pv_receive :: "'c \<Rightarrow> duration \<Rightarrow> 's \<Rightarrow> 'v receive_outcome \<times> 's"
  pv_respawn :: "'s \<Rightarrow> 'q option \<times> 's"

record ('k, 'c) pending_request =
  pr_key :: 'k
  pr_started :: instant
  pr_reply :: 'c

record healing =
  he_stuck_after :: duration
  he_remaining :: nat
  he_busy_since :: "instant option"

record ('q, 'k, 'c) bounded_probe =
  bp_sender :: 'q
  bp_pending :: "('k, 'c) pending_request option"
  bp_healing :: "healing option"
  bp_respawns :: nat

definition probe_spawn :: "'q \<Rightarrow> ('q, 'k, 'c) bounded_probe" where
  "probe_spawn sender = \<lparr>bp_sender = sender, bp_pending = None, bp_healing = None, bp_respawns = 0\<rparr>"

definition probe_spawn_resilient :: "'q \<Rightarrow> duration \<Rightarrow> nat \<Rightarrow> ('q, 'k, 'c) bounded_probe" where
  "probe_spawn_resilient sender stuck_after max_respawns =
     \<lparr>bp_sender = sender, bp_pending = None,
      bp_healing = Some \<lparr>he_stuck_after = stuck_after, he_remaining = max_respawns, he_busy_since = None\<rparr>,
      bp_respawns = 0\<rparr>"

definition not_busy :: "('q, 'k, 'c) bounded_probe \<Rightarrow> ('q, 'k, 'c) bounded_probe" where
  "not_busy p = p\<lparr>bp_healing := map_option (\<lambda>h. h\<lparr>he_busy_since := None\<rparr>) (bp_healing p)\<rparr>"

definition replace_if_stuck ::
  "('s, 'q, 'c, 'k, 'v) provider_system \<Rightarrow> ('q, 'k, 'c) bounded_probe \<Rightarrow> 's \<Rightarrow>
     bool \<times> ('q, 'k, 'c) bounded_probe \<times> 's" where
  "replace_if_stuck P p s =
     (case bp_healing p of
        None \<Rightarrow> (False, p, s)
      | Some h \<Rightarrow>
          let (since, s) = (case he_busy_since h of Some t \<Rightarrow> (t, s) | None \<Rightarrow> pv_now P s);
              h = h\<lparr>he_busy_since := Some since\<rparr>;
              p = p\<lparr>bp_healing := Some h\<rparr>
          in if he_remaining h = 0 then (False, p, s)
             else
               let (now, s) = pv_now P s in
               if now - since < he_stuck_after h then (False, p, s)
               else case pv_respawn P s of
                 (None, s) \<Rightarrow> (False, p, s)
               | (Some sender, s) \<Rightarrow>
                   (True,
                    p\<lparr>bp_healing := Some (h\<lparr>he_remaining := he_remaining h - 1, he_busy_since := None\<rparr>),
                      bp_sender := sender, bp_pending := None, bp_respawns := bp_respawns p + 1\<rparr>,
                    s))"

text \<open>\<open>query_result\<close> in its three parts: a pending request of another key, or too old, is given up; a
  request is submitted when none is pending; the answer is waited for.\<close>

definition give_up_pending ::
  "('s, 'q, 'c, 'k, 'v) provider_system \<Rightarrow> 'k \<Rightarrow> duration \<Rightarrow> ('q, 'k, 'c) bounded_probe \<Rightarrow> 's \<Rightarrow>
     ('q, 'k, 'c) bounded_probe \<times> 's" where
  "give_up_pending P key max_age p s =
     (case bp_pending p of
        None \<Rightarrow> (p, s)
      | Some r \<Rightarrow>
          if pr_key r \<noteq> key then (p\<lparr>bp_pending := None\<rparr>, s)
          else let (now, s) = pv_now P s in
            if max_age \<le> now - pr_started r then (p\<lparr>bp_pending := None\<rparr>, s) else (p, s))"

definition submit_request ::
  "('s, 'q, 'c, 'k, 'v) provider_system \<Rightarrow> 'k \<Rightarrow> ('q, 'k, 'c) bounded_probe \<Rightarrow> 's \<Rightarrow>
     (probe_failure + 'c) \<times> ('q, 'k, 'c) bounded_probe \<times> 's" where
  "submit_request P key p s =
     (let (channel, s) = pv_channel P s in
      case pv_try_send P (bp_sender p) key channel s of
        (SendOk, s) \<Rightarrow> (Inr channel, not_busy p, s)
      | (SendDisconnected, s) \<Rightarrow> (Inl ProbeDisconnected, p, s)
      | (SendFull, s) \<Rightarrow>
          let (replaced, p, s) = replace_if_stuck P p s in
          if \<not> replaced then (Inl ProbeBusy, p, s)
          else case pv_try_send P (bp_sender p) key channel s of
            (SendOk, s) \<Rightarrow> (Inr channel, p, s)
          | (SendFull, s) \<Rightarrow> (Inl ProbeBusy, p, s)
          | (SendDisconnected, s) \<Rightarrow> (Inl ProbeDisconnected, p, s))"

definition await_reply ::
  "('s, 'q, 'c, 'k, 'v) provider_system \<Rightarrow> duration \<Rightarrow> duration \<Rightarrow> ('k, 'c) pending_request \<Rightarrow>
     ('q, 'k, 'c) bounded_probe \<Rightarrow> 's \<Rightarrow> (probe_failure + 'v) \<times> ('q, 'k, 'c) bounded_probe \<times> 's" where
  "await_reply P wait max_age r p s =
     (let (now, s) = pv_now P s;
          remaining = max_age - (now - pr_started r)
      in case pv_receive P (pr_reply r) (min wait remaining) s of
        (RecvTimeout, s) \<Rightarrow> (Inl ProbeTimeout, p, s)
      | (RecvDisconnected, s) \<Rightarrow> (Inl ProbeDisconnected, p\<lparr>bp_pending := None\<rparr>, s)
      | (Received v, s) \<Rightarrow>
          let (now, s) = pv_now P s;
              fresh = (now - pr_started r < max_age);
              p = not_busy (p\<lparr>bp_pending := None\<rparr>)
          in (if fresh then Inr v else Inl ProbeExpired, p, s))"

definition query_result ::
  "('s, 'q, 'c, 'k, 'v) provider_system \<Rightarrow> 'k \<Rightarrow> duration \<Rightarrow> duration \<Rightarrow> ('q, 'k, 'c) bounded_probe \<Rightarrow> 's \<Rightarrow>
     (probe_failure + 'v) \<times> ('q, 'k, 'c) bounded_probe \<times> 's" where
  "query_result P key wait max_age p s =
     (let (p, s) = give_up_pending P key max_age p s in
      case bp_pending p of
        Some r \<Rightarrow> await_reply P wait max_age r p s
      | None \<Rightarrow>
          (case submit_request P key p s of
             (Inl failure, p, s) \<Rightarrow> (Inl failure, p, s)
           | (Inr channel, p, s) \<Rightarrow>
               let (now, s) = pv_now P s;
                   r = \<lparr>pr_key = key, pr_started = now, pr_reply = channel\<rparr>
               in await_reply P wait max_age r (p\<lparr>bp_pending := Some r\<rparr>) s))"

definition probe_query ::
  "('s, 'q, 'c, 'k, 'v) provider_system \<Rightarrow> 'k \<Rightarrow> duration \<Rightarrow> duration \<Rightarrow> ('q, 'k, 'c) bounded_probe \<Rightarrow> 's \<Rightarrow>
     'v option \<times> ('q, 'k, 'c) bounded_probe \<times> 's" where
  "probe_query P key wait max_age p s =
     (case query_result P key wait max_age p s of
        (Inr v, p, s) \<Rightarrow> (Some v, p, s) | (Inl _, p, s) \<Rightarrow> (None, p, s))"

section \<open>An answer fits its question\<close>

text \<open>What is assumed of the threads and channels. A channel that was made is new; \<open>asked s c\<close> is the key and
  the time of the request sent with it, which stays; an answer received on it was given by a run of
  the provider on that key begun after the request. The clock does not run back.\<close>

definition steady :: "('s \<Rightarrow> instant) \<Rightarrow> ('s \<Rightarrow> 'c \<Rightarrow> ('k \<times> instant) option) \<Rightarrow> 's \<Rightarrow> 's \<Rightarrow> bool" where
  "steady clock asked s s' \<longleftrightarrow> clock s \<le> clock s' \<and> asked s' = asked s"

definition grows :: "('s \<Rightarrow> instant) \<Rightarrow> ('s \<Rightarrow> 'c \<Rightarrow> ('k \<times> instant) option) \<Rightarrow> 's \<Rightarrow> 's \<Rightarrow> bool" where
  "grows clock asked s s' \<longleftrightarrow>
     clock s \<le> clock s' \<and> (\<forall>c k t. asked s c = Some (k, t) \<longrightarrow> asked s' c = Some (k, t))"

definition answered :: "('s \<Rightarrow> ('k \<times> instant \<times> 'v) set) \<Rightarrow> 'k \<Rightarrow> instant \<Rightarrow> 'v \<Rightarrow> 's \<Rightarrow> bool" where
  "answered runs key since v s \<longleftrightarrow> (\<exists>t. since \<le> t \<and> (key, t, v) \<in> runs s)"

definition provider_laws ::
  "('s, 'q, 'c, 'k, 'v) provider_system \<Rightarrow> ('s \<Rightarrow> instant) \<Rightarrow> ('s \<Rightarrow> 'c \<Rightarrow> ('k \<times> instant) option) \<Rightarrow>
     ('s \<Rightarrow> ('k \<times> instant \<times> 'v) set) \<Rightarrow> bool" where
  "provider_laws P clock asked runs \<longleftrightarrow>
     (\<forall>s. steady clock asked s (snd (pv_now P s))
        \<and> clock s \<le> fst (pv_now P s) \<and> fst (pv_now P s) \<le> clock (snd (pv_now P s))
        \<and> runs s \<subseteq> runs (snd (pv_now P s)))
     \<and> (\<forall>s. grows clock asked s (snd (pv_channel P s)) \<and> asked (snd (pv_channel P s)) (fst (pv_channel P s)) = None)
     \<and> (\<forall>q k c s. asked s c = None \<longrightarrow>
          grows clock asked s (snd (pv_try_send P q k c s))
          \<and> (if fst (pv_try_send P q k c s) = SendOk
             then \<exists>t \<ge> clock s. t \<le> clock (snd (pv_try_send P q k c s))
                  \<and> asked (snd (pv_try_send P q k c s)) c = Some (k, t)
             else asked (snd (pv_try_send P q k c s)) c = None))
     \<and> (\<forall>c d s. steady clock asked s (snd (pv_receive P c d s))
          \<and> (\<forall>v k t. fst (pv_receive P c d s) = Received v \<longrightarrow> asked s c = Some (k, t) \<longrightarrow>
               answered runs k t v (snd (pv_receive P c d s))))
     \<and> (\<forall>s. steady clock asked s (snd (pv_respawn P s)))"

text \<open>A pending request was asked: the start kept for it is not before the time it was sent.\<close>

definition pending_asked ::
  "('s \<Rightarrow> instant) \<Rightarrow> ('s \<Rightarrow> 'c \<Rightarrow> ('k \<times> instant) option) \<Rightarrow> ('k, 'c) pending_request \<Rightarrow> 's \<Rightarrow> bool" where
  "pending_asked clock asked r s \<longleftrightarrow>
     (\<exists>t. asked s (pr_reply r) = Some (pr_key r, t) \<and> t \<le> pr_started r \<and> pr_started r \<le> clock s)"

definition probe_ok ::
  "('s \<Rightarrow> instant) \<Rightarrow> ('s \<Rightarrow> 'c \<Rightarrow> ('k \<times> instant) option) \<Rightarrow> ('q, 'k, 'c) bounded_probe \<Rightarrow> 's \<Rightarrow> bool" where
  "probe_ok clock asked p s \<longleftrightarrow> (\<forall>r. bp_pending p = Some r \<longrightarrow> pending_asked clock asked r s)"

lemma steady_grows [simp]: "steady clock asked s t \<Longrightarrow> grows clock asked s t"
  by (simp add: steady_def grows_def)

lemma grows_refl [simp]: "grows clock asked s s"
  by (simp add: grows_def)

lemma grows_trans: "grows clock asked s t \<Longrightarrow> grows clock asked t u \<Longrightarrow> grows clock asked s u"
  unfolding grows_def by (meson order_trans)

lemma steady_trans: "steady clock asked s t \<Longrightarrow> steady clock asked t u \<Longrightarrow> steady clock asked s u"
  unfolding steady_def by (metis order_trans)

lemma pending_asked_grows:
  "pending_asked clock asked r s \<Longrightarrow> grows clock asked s s' \<Longrightarrow> pending_asked clock asked r s'"
  unfolding pending_asked_def grows_def by (meson order_trans)

lemma probe_ok_grows: "probe_ok clock asked p s \<Longrightarrow> grows clock asked s s' \<Longrightarrow> probe_ok clock asked p s'"
  unfolding probe_ok_def using pending_asked_grows by meson

lemma probe_ok_none [simp]: "bp_pending p = None \<Longrightarrow> probe_ok clock asked p s"
  by (simp add: probe_ok_def)

lemma not_busy_fields [simp]:
  "bp_pending (not_busy p) = bp_pending p" "bp_sender (not_busy p) = bp_sender p"
  "bp_respawns (not_busy p) = bp_respawns p"
  "map_option he_remaining (bp_healing (not_busy p)) = map_option he_remaining (bp_healing p)"
  by (auto simp: not_busy_def option.map_comp comp_def)

lemma provider_lawsD:
  assumes "provider_laws P clock asked runs"
  shows "steady clock asked s (snd (pv_now P s))" "clock s \<le> fst (pv_now P s)"
    "fst (pv_now P s) \<le> clock (snd (pv_now P s))" "runs s \<subseteq> runs (snd (pv_now P s))"
    "grows clock asked s (snd (pv_channel P s))"
    "asked (snd (pv_channel P s)) (fst (pv_channel P s)) = None"
    "asked s c = None \<Longrightarrow> grows clock asked s (snd (pv_try_send P q k c s))"
    "asked s c = None \<Longrightarrow> fst (pv_try_send P q k c s) = SendOk \<Longrightarrow>
       \<exists>t \<ge> clock s. t \<le> clock (snd (pv_try_send P q k c s))
         \<and> asked (snd (pv_try_send P q k c s)) c = Some (k, t)"
    "asked s c = None \<Longrightarrow> fst (pv_try_send P q k c s) \<noteq> SendOk \<Longrightarrow>
       asked (snd (pv_try_send P q k c s)) c = None"
    "steady clock asked s (snd (pv_receive P c d s))"
    "fst (pv_receive P c d s) = Received v \<Longrightarrow> asked s c = Some (k, t) \<Longrightarrow>
       answered runs k t v (snd (pv_receive P c d s))"
    "steady clock asked s (snd (pv_respawn P s))"
  using assms unfolding provider_laws_def by (blast, blast, blast, blast, blast, blast, blast, presburger, presburger, blast, blast, blast)
lemma give_up_pending_ok:
  assumes laws: "provider_laws P clock asked runs" and ok: "probe_ok clock asked p s"
    and run: "give_up_pending P key max_age p s = (p', s')"
  shows "steady clock asked s s' \<and> bp_sender p' = bp_sender p \<and> bp_healing p' = bp_healing p
    \<and> bp_respawns p' = bp_respawns p
    \<and> (bp_pending p' = None
        \<or> (\<exists>r. bp_pending p' = Some r \<and> bp_pending p = Some r \<and> pr_key r = key \<and> pending_asked clock asked r s'))"
proof (cases "bp_pending p")
  case None
  then show ?thesis using run by (simp add: give_up_pending_def steady_def)
next
  case (Some r)
  obtain now u where now: "pv_now P s = (now, u)" by fastforce
  then have u: "steady clock asked s u" using provider_lawsD(1) [OF laws, of s] by simp
  moreover have "pending_asked clock asked r u"
    using ok Some u unfolding probe_ok_def by (meson pending_asked_grows steady_grows)
  ultimately show ?thesis
    using run Some now by (auto simp: give_up_pending_def steady_def split: if_splits)
qed

lemma replace_if_stuck_ok:
  assumes laws: "provider_laws P clock asked runs"
    and run: "replace_if_stuck P p s = (replaced, p', s')"
  shows "steady clock asked s s' \<and> (bp_pending p = None \<longrightarrow> bp_pending p' = None)"
proof (cases "bp_healing p")
  case None
  then show ?thesis using run by (simp add: replace_if_stuck_def steady_def)
next
  case (Some h)
  obtain since u where u: "(case he_busy_since h of Some t \<Rightarrow> (t, s) | None \<Rightarrow> pv_now P s) = (since, u)"
    by fastforce
  have su: "steady clock asked s u"
    using u provider_lawsD(1) [OF laws, of s] by (cases "he_busy_since h") (auto simp: steady_def)
  obtain now v where v: "pv_now P u = (now, v)" by fastforce
  have uv: "steady clock asked u v" using provider_lawsD(1) [OF laws, of u] v by simp
  obtain sender w where w: "pv_respawn P v = (sender, w)" by fastforce
  have vw: "steady clock asked v w" using provider_lawsD(12) [OF laws, of v] w by simp
  show ?thesis
    using run Some u v w su steady_trans [OF su uv] steady_trans [OF steady_trans [OF su uv] vw]
    by (cases sender; cases "he_remaining h = 0"; cases "now - since < he_stuck_after h")
       (auto simp: replace_if_stuck_def Let_def)
qed

lemma submit_request_ok:
  assumes laws: "provider_laws P clock asked runs" and none: "bp_pending p = None"
    and run: "submit_request P key p s = (result, p', s')"
  shows "grows clock asked s s' \<and> bp_pending p' = None
    \<and> (\<forall>c. result = Inr c \<longrightarrow> (\<exists>t. asked s' c = Some (key, t) \<and> clock s \<le> t \<and> t \<le> clock s'))"
proof -
  obtain c u where u: "pv_channel P s = (c, u)" by fastforce
  have su: "grows clock asked s u" and c: "asked u c = None"
    using provider_lawsD(5,6) [OF laws, of s] u by auto
  obtain first v where v: "pv_try_send P (bp_sender p) key c u = (first, v)" by fastforce
  have uv: "grows clock asked u v"
    and sent: "first = SendOk \<Longrightarrow> \<exists>t \<ge> clock u. t \<le> clock v \<and> asked v c = Some (key, t)"
    and refused: "first \<noteq> SendOk \<Longrightarrow> asked v c = None"
    using provider_lawsD(7,8,9) [OF laws c, of "bp_sender p" key] v by auto
  have sv: "grows clock asked s v" by (rule grows_trans [OF su uv])
  have su_clock: "clock s \<le> clock u" using su by (simp add: grows_def)
  show ?thesis
  proof (cases first)
    case SendOk
    then obtain t where "clock u \<le> t" "t \<le> clock v" "asked v c = Some (key, t)" using sent by blast
    then show ?thesis using run u v SendOk sv none su_clock by (auto simp: submit_request_def)
  next
    case SendDisconnected
    then show ?thesis using run u v sv none by (auto simp: submit_request_def)
  next
    case SendFull
    obtain replaced q w where w: "replace_if_stuck P p v = (replaced, q, w)" by (metis surj_pair)
    have vw: "steady clock asked v w" and q: "bp_pending q = None"
      using replace_if_stuck_ok [OF laws w] none by auto
    have sw: "grows clock asked s w" using grows_trans [OF sv] vw by simp
    have cw: "asked w c = None" using vw refused SendFull by (simp add: steady_def)
    obtain second x where x: "pv_try_send P (bp_sender q) key c w = (second, x)" by fastforce
    have wx: "grows clock asked w x"
      and sent2: "second = SendOk \<Longrightarrow> \<exists>t \<ge> clock w. t \<le> clock x \<and> asked x c = Some (key, t)"
      using provider_lawsD(7,8) [OF laws cw, of "bp_sender q" key] x by auto
    have sx: "grows clock asked s x" by (rule grows_trans [OF sw wx])
    have "clock s \<le> clock w" using sw by (simp add: grows_def)
    then have asked: "second = SendOk \<Longrightarrow> \<exists>t. asked x c = Some (key, t) \<and> clock s \<le> t \<and> t \<le> clock x"
      using sent2 by (meson order_trans)
    show ?thesis
      using run u v w x SendFull sw sx q asked
      by (cases replaced; cases second) (auto simp: submit_request_def)
  qed
qed

text \<open>What a reply that is not too old tells: a run of the provider on the key, begun after the request,
  whose start is less than \<open>max_age\<close> before the answer is used.\<close>

definition timely ::
  "('s \<Rightarrow> instant) \<Rightarrow> ('s \<Rightarrow> ('k \<times> instant \<times> 'v) set) \<Rightarrow> 'k \<Rightarrow> duration \<Rightarrow> 's \<Rightarrow> 'v \<Rightarrow> 's \<Rightarrow> bool" where
  "timely clock runs key max_age s v s' \<longleftrightarrow>
     (\<exists>asked_at started now. answered runs key asked_at v s' \<and> asked_at \<le> started
        \<and> clock s \<le> now \<and> now \<le> clock s' \<and> now < started + max_age)"

lemma timely_earlier: "timely clock runs key max_age u v s' \<Longrightarrow> grows clock asked s u \<Longrightarrow> timely clock runs key max_age s v s'"
  unfolding timely_def grows_def by (meson order_trans)

lemma await_reply_ok:
  assumes laws: "provider_laws P clock asked runs" and r: "pending_asked clock asked r s"
    and p: "bp_pending p = Some r"
    and run: "await_reply P wait max_age r p s = (result, p', s')"
  shows "grows clock asked s s' \<and> probe_ok clock asked p' s'
    \<and> (\<forall>v. result = Inr v \<longrightarrow> timely clock runs (pr_key r) max_age s v s')"
proof -
  obtain t where t: "asked s (pr_reply r) = Some (pr_key r, t)" "t \<le> pr_started r"
    using r by (auto simp: pending_asked_def)
  obtain n1 u where u: "pv_now P s = (n1, u)" by fastforce
  have su: "steady clock asked s u" using provider_lawsD(1) [OF laws, of s] u by simp
  obtain y v where v: "pv_receive P (pr_reply r) (min wait (max_age - (n1 - pr_started r))) u = (y, v)"
    by fastforce
  have uv: "steady clock asked u v" using provider_lawsD(10) [OF laws, of u] v by (metis snd_conv)
  have sv: "steady clock asked s v" by (rule steady_trans [OF su uv])
  obtain n2 w where w: "pv_now P v = (n2, w)" by fastforce
  have vw: "steady clock asked v w" and n2: "clock v \<le> n2" "n2 \<le> clock w" and runs: "runs v \<subseteq> runs w"
    using provider_lawsD(1-4) [OF laws, of v] w by auto
  have sw: "steady clock asked s w" by (rule steady_trans [OF sv vw])
  have pv: "probe_ok clock asked p v"
    using pending_asked_grows [OF r steady_grows [OF sv]] p by (simp add: probe_ok_def)
  show ?thesis
  proof (cases y)
    case (Received a)
    have "asked u (pr_reply r) = Some (pr_key r, t)" using t(1) su by (simp add: steady_def)
    then have "answered runs (pr_key r) t a v"
      using provider_lawsD(11) [OF laws, where s = u and c = "pr_reply r"] v Received by (metis fst_conv snd_conv)
    then have "answered runs (pr_key r) t a w" using runs by (auto simp: answered_def)
    moreover have "clock s \<le> n2" using sv n2(1) by (simp add: steady_def)
    moreover have "n2 < pr_started r + max_age" if "n2 - pr_started r < max_age" using that by linarith
    ultimately have "n2 - pr_started r < max_age \<longrightarrow> timely clock runs (pr_key r) max_age s a w"
      using t(2) n2(2) unfolding timely_def by blast
    then show ?thesis
      using run u v w Received sw by (auto simp: await_reply_def split: if_splits)
  qed (use run u v sv pv in \<open>auto simp: await_reply_def\<close>)
qed

lemma query_result_ok:
  assumes laws: "provider_laws P clock asked runs" and ok: "probe_ok clock asked p s"
    and run: "query_result P key wait max_age p s = (result, p', s')"
  shows "grows clock asked s s' \<and> probe_ok clock asked p' s'
    \<and> (\<forall>v. result = Inr v \<longrightarrow> timely clock runs key max_age s v s')"
proof -
  obtain q u where u: "give_up_pending P key max_age p s = (q, u)" by fastforce
  note g = give_up_pending_ok [OF laws ok u]
  then have su: "grows clock asked s u" by simp
  show ?thesis
  proof (cases "bp_pending q")
    case (Some r)
    then have r: "pending_asked clock asked r u" "pr_key r = key" using g by auto
    have "await_reply P wait max_age r q u = (result, p', s')"
      using run u Some by (simp add: query_result_def)
    note a = await_reply_ok [OF laws r(1) Some this]
    show ?thesis
      using a r(2) by (auto intro: grows_trans [OF su] timely_earlier [OF _ su])
  next
    case None
    obtain y q' v where v: "submit_request P key q u = (y, q', v)" by (metis surj_pair)
    note b = submit_request_ok [OF laws None v]
    then have sv: "grows clock asked s v" using grows_trans [OF su] by simp
    show ?thesis
    proof (cases y)
      case (Inl failure)
      then show ?thesis using run u v None b sv by (auto simp: query_result_def)
    next
      case (Inr c)
      obtain now w where w: "pv_now P v = (now, w)" by fastforce
      have vw: "steady clock asked v w" "clock v \<le> now" "now \<le> clock w"
        using provider_lawsD(1-3) [OF laws, of v] w by auto
      let ?r = "\<lparr>pr_key = key, pr_started = now, pr_reply = c\<rparr>"
      have sw: "grows clock asked s w" using grows_trans [OF sv] vw(1) by simp
      obtain t where t: "asked v c = Some (key, t)" "t \<le> clock v" using b Inr by auto
      then have r: "pending_asked clock asked ?r w"
        using t vw by (simp add: pending_asked_def steady_def)
      have "await_reply P wait max_age ?r (q'\<lparr>bp_pending := Some ?r\<rparr>) w = (result, p', s')"
        using run u v w None Inr by (simp add: query_result_def Let_def)
      note a = await_reply_ok [OF laws r _ this]
      show ?thesis
        using a by (auto intro: grows_trans [OF sw] timely_earlier [OF _ sw])
    qed
  qed
qed

text \<open>Any use of a probe: queries of any keys, and time in between.\<close>

inductive probe_reaches ::
  "('s, 'q, 'c, 'k, 'v) provider_system \<Rightarrow> ('s \<Rightarrow> instant) \<Rightarrow> ('s \<Rightarrow> 'c \<Rightarrow> ('k \<times> instant) option) \<Rightarrow>
     ('q, 'k, 'c) bounded_probe \<Rightarrow> 's \<Rightarrow> ('q, 'k, 'c) bounded_probe \<Rightarrow> 's \<Rightarrow> bool"
  for P clock asked p0 s0 where
  start: "probe_reaches P clock asked p0 s0 p0 s0"
| query: "probe_reaches P clock asked p0 s0 p s \<Longrightarrow>
    query_result P key wait max_age p s = (result, p', s') \<Longrightarrow> probe_reaches P clock asked p0 s0 p' s'"
| elapse: "probe_reaches P clock asked p0 s0 p s \<Longrightarrow> steady clock asked s s' \<Longrightarrow>
    probe_reaches P clock asked p0 s0 p s'"

lemma reaches_ok:
  assumes "probe_reaches P clock asked p0 s0 p s" "provider_laws P clock asked runs" "bp_pending p0 = None"
  shows "probe_ok clock asked p s"
  using assms
  by (induction rule: probe_reaches.induct)
     (simp, metis query_result_ok, metis probe_ok_grows steady_grows)

text \<open>C19. A probe answers the question that was asked: however the queries before were cut off, a value
  returned for a key was given by a run of the provider on exactly that key, begun after the request
  was sent, and the request is younger than \<open>max_age\<close> when the value is used. An answer that was
  asked for in another context - another field, epoch or privacy generation - is never returned.\<close>

theorem answer_fits_question:
  assumes laws: "provider_laws P clock asked runs"
    and reached: "probe_reaches P clock asked p0 s0 p s" and "bp_pending p0 = None"
    and run: "query_result P key wait max_age p s = (Inr v, p', s')"
  shows "\<exists>asked_at started now. answered runs key asked_at v s' \<and> asked_at \<le> started
    \<and> clock s \<le> now \<and> now \<le> clock s' \<and> now < started + max_age"
  using query_result_ok [OF laws reaches_ok [OF reached laws] run] assms(3) unfolding timely_def by blast

text \<open>The providers that are replaced are counted, and their number is bounded by the limit given.\<close>

definition respawns_kept :: "nat \<Rightarrow> ('q, 'k, 'c) bounded_probe \<Rightarrow> bool" where
  "respawns_kept n p \<longleftrightarrow> (\<exists>h. bp_healing p = Some h \<and> he_remaining h + bp_respawns p = n)"

lemma respawns_kept_simps [simp]:
  "respawns_kept n (not_busy p) = respawns_kept n p"
  "respawns_kept n (p\<lparr>bp_pending := r\<rparr>) = respawns_kept n p"
  by (cases "bp_healing p"; simp add: respawns_kept_def not_busy_def)+

lemma replace_keeps_respawns:
  assumes "replace_if_stuck P p s = (replaced, p', s')" "respawns_kept n p"
  shows "respawns_kept n p'"
proof -
  obtain h where h: "bp_healing p = Some h" "he_remaining h + bp_respawns p = n"
    using assms(2) by (auto simp: respawns_kept_def)
  obtain since u where u: "(case he_busy_since h of Some t \<Rightarrow> (t, s) | None \<Rightarrow> pv_now P s) = (since, u)"
    by fastforce
  obtain now v where v: "pv_now P u = (now, v)" by fastforce
  obtain sender w where w: "pv_respawn P v = (sender, w)" by fastforce
  show ?thesis
    using assms(1) h u v w
    by (cases sender; cases "he_remaining h = 0"; cases "now - since < he_stuck_after h")
       (auto simp: replace_if_stuck_def Let_def respawns_kept_def)
qed

lemma query_keeps_respawns:
  assumes run: "query_result P key wait max_age p s = (result, p', s')" and kept: "respawns_kept n p"
  shows "respawns_kept n p'"
proof -
  obtain q u where u: "give_up_pending P key max_age p s = (q, u)" by fastforce
  have q: "respawns_kept n q"
    using u kept by (auto simp: give_up_pending_def Let_def case_prod_unfold split: option.splits if_splits)
  have await: "respawns_kept n p'" if "await_reply P wait max_age r a t = (result, p', s')" "respawns_kept n a" for r a t
    using that by (auto simp: await_reply_def Let_def case_prod_unfold split: receive_outcome.splits if_splits)
  show ?thesis
  proof (cases "bp_pending q")
    case (Some r)
    then show ?thesis using run u q await by (simp add: query_result_def)
  next
    case None
    obtain y q' v where v: "submit_request P key q u = (y, q', v)" by (metis surj_pair)
    have "respawns_kept n q'"
    proof -
      obtain c w where w: "pv_channel P u = (c, w)" by fastforce
      obtain first x where x: "pv_try_send P (bp_sender q) key c w = (first, x)" by fastforce
      obtain replaced z y' where z: "replace_if_stuck P q x = (replaced, z, y')" by (metis surj_pair)
      have "respawns_kept n z" by (rule replace_keeps_respawns [OF z q])
      then show ?thesis
        using v w x z q
        by (cases first) (auto simp: submit_request_def split: prod.splits send_outcome.splits if_splits)
    qed
    then show ?thesis
      using run u v None await by (cases y) (auto simp: query_result_def Let_def case_prod_unfold)
  qed
qed

lemma provider_replacements_bounded:
  assumes "probe_reaches P clock asked (probe_spawn_resilient sender stuck_after n) s0 p s"
  shows "bp_respawns p \<le> n"
proof -
  have "respawns_kept n p"
    using assms
  proof (induction rule: probe_reaches.induct)
    case start
    then show ?case by (simp add: respawns_kept_def probe_spawn_resilient_def)
  next
    case query
    show ?case by (rule query_keeps_respawns [OF query.hyps(2) query.IH])
  qed
  then show ?thesis by (auto simp: respawns_kept_def)
qed

section \<open>A provider at work\<close>

text \<open>A provider that answers each request at once with the successor of its key: the state is the number
  of channels, the clock and the requests.\<close>

definition sample_provider ::
  "(nat \<times> instant \<times> (nat \<rightharpoonup> nat \<times> instant), unit, nat, nat, nat) provider_system" where
  "sample_provider =
     \<lparr>pv_now = (\<lambda>(n, t, a). (t, (n, t + 1, a))),
      pv_channel = (\<lambda>(n, t, a). (n, (n + 1, t, a(n := None)))),
      pv_try_send = (\<lambda>_ k c (n, t, a).
        if c < n then (SendOk, (n, t, a(c \<mapsto> (k, t)))) else (SendDisconnected, (n, t, a))),
      pv_receive = (\<lambda>c _ (n, t, a).
        (case a c of None \<Rightarrow> RecvDisconnected | Some (k, _) \<Rightarrow> Received (k + 1), (n, t, a))),
      pv_respawn = (\<lambda>s. (Some (), s))\<rparr>"

definition sample_runs :: "nat \<times> instant \<times> (nat \<rightharpoonup> nat \<times> instant) \<Rightarrow> (nat \<times> instant \<times> nat) set" where
  "sample_runs s = {(k, t, v). v = k + 1}"

definition sample_asked :: "nat \<times> instant \<times> (nat \<rightharpoonup> nat \<times> instant) \<Rightarrow> nat \<Rightarrow> (nat \<times> instant) option" where
  "sample_asked = (\<lambda>(n, t, a) c. if c < n then a c else None)"

lemma sample_provider_laws:
  "provider_laws sample_provider (\<lambda>(_, t, _). t) sample_asked sample_runs"
  by (auto simp: provider_laws_def sample_provider_def steady_def grows_def answered_def sample_runs_def
      sample_asked_def fun_eq_iff split: option.splits)

lemma sample_query:
  "query_result sample_provider 7 5 5 (probe_spawn ()) (0, 0, Map.empty)
     = (Inr 8, probe_spawn (), (1, 3, [0 \<mapsto> (7, 0)]))"
  by (simp add: sample_provider_def probe_spawn_def query_result_def give_up_pending_def submit_request_def
    await_reply_def not_busy_def Let_def)

theorem answer_fits_question_witness:
  "\<exists>asked_at started now. answered sample_runs 7 asked_at (8::nat) (1, 3, [0 \<mapsto> (7, 0)])
     \<and> asked_at \<le> started \<and> (0::nat) \<le> now \<and> now \<le> 3 \<and> now < started + (5::nat)"
  using answer_fits_question [OF sample_provider_laws probe_reaches.start _ sample_query]
  by (simp add: probe_spawn_def)

end
