(* ===== verification/Profile_Cache.thy ===== *)
theory Profile_Cache
  imports Profile_Resolver Bounded_Probe
begin

text \<open>
  \<open>src/windows_input_profiles.rs\<close>: the cache of the keyboard profiles over one provider thread that
  resolves them. \<open>poll\<close> never waits for the provider. The provider is a \<open>bounded_probe\<close> that is asked
  for \<open>()\<close>; the layouts that are loaded are read by an argument.
\<close>

type_synonym profile_answer = "profile_resolution_error + resolved_keyboard_profiles"

type_synonym ('s, 'q, 'c) profile_provider = "('s, 'q, 'c, unit, profile_answer) provider_system"

record ('q, 'c) keyboard_profile_cache =
  kc_resolver :: "('q, unit, 'c) bounded_probe option"
  kc_cache :: profile_snapshot_cache
  kc_next_refresh :: instant

definition with_resolver :: "('q, unit, 'c) bounded_probe option \<Rightarrow> instant \<Rightarrow> ('q, 'c) keyboard_profile_cache" where
  "with_resolver resolver now =
     \<lparr>kc_resolver = resolver, kc_cache = profile_cache_default, kc_next_refresh = now\<rparr>"

definition profile_poll ::
  "('s, 'q, 'c) profile_provider \<Rightarrow> ('q, 'c) keyboard_profile_cache \<Rightarrow> 's \<Rightarrow>
     profile_update \<times> ('q, 'c) keyboard_profile_cache \<times> 's" where
  "profile_poll P k s =
     (let (now, s) = pv_now P s in
      if now < kc_next_refresh k then (Unchanged, k, s)
      else case kc_resolver k of
        None \<Rightarrow>
          let (update, c) = cache_expire now PROFILE_MAX_AGE (kc_cache k) in (update, k\<lparr>kc_cache := c\<rparr>, s)
      | Some resolver \<Rightarrow>
          (case query_result P () 0 PROFILE_MAX_AGE resolver s of
             (Inr (Inr snapshot), r, s) \<Rightarrow>
               let (update, c) = cache_accept snapshot now (kc_cache k) in
               (update, k\<lparr>kc_resolver := Some r, kc_cache := c, kc_next_refresh := now + PROFILE_REFRESH_INTERVAL\<rparr>, s)
           | (Inr (Inl _), r, s) \<Rightarrow>
               let (update, c) = cache_expire now PROFILE_MAX_AGE (kc_cache k) in
               (update, k\<lparr>kc_resolver := Some r, kc_cache := c, kc_next_refresh := now + PROFILE_RETRY_INTERVAL\<rparr>, s)
           | (Inl ProbeDisconnected, _, s) \<Rightarrow>
               let (update, c) = cache_invalidate (kc_cache k) in
               (update, k\<lparr>kc_resolver := None, kc_cache := c, kc_next_refresh := now + PROFILE_RETRY_INTERVAL\<rparr>, s)
           | (Inl _, r, s) \<Rightarrow>
               let (update, c) = cache_expire now PROFILE_MAX_AGE (kc_cache k) in
               (update, k\<lparr>kc_resolver := Some r, kc_cache := c\<rparr>, s)))"

definition profile_generation :: "('q, 'c) keyboard_profile_cache \<Rightarrow> u64" where
  "profile_generation k = pc_generation (kc_cache k)"

definition profile_snapshot ::
  "('s, 'q, 'c) profile_provider \<Rightarrow> ('q, 'c) keyboard_profile_cache \<Rightarrow> 's \<Rightarrow> resolved_keyboard_profiles option \<times> 's" where
  "profile_snapshot P k s =
     (let (now, s) = pv_now P s in (cache_current (kc_cache k) now PROFILE_MAX_AGE, s))"

definition inventory_is_current ::
  "('s, 'q, 'c) profile_provider \<Rightarrow> ('s \<Rightarrow> hkl list option \<times> 's) \<Rightarrow> ('q, 'c) keyboard_profile_cache \<Rightarrow> 's \<Rightarrow> bool \<times> 's" where
  "inventory_is_current P native_layouts k s =
     (case profile_snapshot P k s of
        (None, s) \<Rightarrow> (False, s)
      | (Some snapshot, s) \<Rightarrow>
          (case native_layouts s of
             (None, s) \<Rightarrow> (False, s)
           | (Some loaded, s) \<Rightarrow> (rk_loaded snapshot = sort loaded, s)))"

end
