(* ===== verification/Worker_State.thy ===== *)
theory Worker_State
  imports Session Text_Field Clipboard_Broker Profile_Cache Ui_Guard Configuration_Handoff
begin

text \<open>
  \<open>src/windows_agent.rs\<close>: the state of the input worker (\<open>InputProcessor\<close>), the world it acts on, and
  the small operations on it.

  \<^item> \<open>processor\<close> holds the fields that a \<open>&mut self\<close> method may change. The fields behind a \<open>Cell\<close>,
    a \<open>RefCell\<close> or the privacy guard, which \<open>&self\<close> methods change too, are \<open>cells\<close>.
  \<^item> The world \<open>'s\<close> is everything outside the worker. Each call into it - the clock, an atomic, a
    window message, a key, UI Automation - is an operation of \<open>worker_world\<close> that returns its answer
    and the world after it; whatever the other threads and programs do meanwhile happens inside these
    calls. So two reads of an atomic may disagree, as they may in the program.
  \<^item> One \<open>ww_atomic\<close> is one atomic step on the shared metrics: it returns them as they were and
    leaves them updated.
  \<^item> Diagnostic records are not modelled: nothing reads them.
\<close>

section \<open>Data\<close>

definition MANUAL_TOKEN_MAX_KEYS :: nat where [consts_def]: "MANUAL_TOKEN_MAX_KEYS = 64"
definition REMEMBERED_WORD_TTL :: duration where [consts_def]: "REMEMBERED_WORD_TTL = from_secs 120"
definition REMEMBERED_WORD_WINDOWS :: nat where [consts_def]: "REMEMBERED_WORD_WINDOWS = 8"
definition LAYOUT_STABLE_MS :: nat where [consts_def]: "LAYOUT_STABLE_MS = 50"
definition PRIVACY_RECENT_OK_MS :: nat where [consts_def]: "PRIVACY_RECENT_OK_MS = 5000"
definition PRIVACY_PROBE_WAIT_MS :: nat where [consts_def]: "PRIVACY_PROBE_WAIT_MS = 300"
definition PRIVACY_SLOW_PROVIDER_MS :: nat where [consts_def]: "PRIVACY_SLOW_PROVIDER_MS = 50"
definition UNCONFIRMED_PASTE_WAIT_MS :: nat where [consts_def]: "UNCONFIRMED_PASTE_WAIT_MS = 5000"
definition LEXICON_OFFER_SECONDS :: nat where [consts_def]: "LEXICON_OFFER_SECONDS = 120"

datatype edit_strategy = StrategyPaste | StrategyPhysical

datatype text_edit_attempt =
    EditApplied | EditAppliedClipboardNotRestored | EditUnsupported | EditCancelled
  | EditFailed conversion_failure_reason | EditSelectionLeft

datatype paste_route = RouteBackend | RouteCapabilityProbe

record pending_conversion =
  pn_transaction :: conversion_transaction
  pn_foreground :: foreground_context
  pn_source_layout :: u64
  pn_generation :: u64
  pn_space_sequence :: u64
  pn_keys :: "replay_key list"
  pn_forced :: bool
  pn_cycle_order :: "language list"

record deferred_drained_conversion =
  dd_gate_token :: u64
  dd_boundary_sequence :: u64

record last_boundary =
  lb_keys :: "replay_key list"
  lb_delimiter :: "uchar option"
  lb_foreground :: foreground_context
  lb_epoch :: u64
  lb_generation :: u64

record transpose_cycle =
  tc_keys :: "replay_key list"
  tc_delimiter :: "uchar option"
  tc_foreground :: foreground_context
  tc_language :: language
  tc_text :: ustr
  tc_epoch :: u64
  tc_generation :: u64
  tc_order :: "language list"

record remembered_word =
  rw_target :: foreground_context
  rw_cycle :: "transpose_cycle option"
  rw_word :: "last_boundary option"
  rw_at :: instant

record undo_record =
  ur_transaction :: conversion_transaction
  ur_foreground :: foreground_context
  ur_source_layout :: u64
  ur_generation :: u64
  ur_keys :: "replay_key list"
  ur_strategy :: edit_strategy

datatype probe_trigger = TriggerTyping | TriggerRefresh | TriggerRecovery | TriggerManual

record recent_privacy_ok =
  ro_foreground :: foreground_context
  ro_epoch :: u64
  ro_at :: instant

datatype probe_source =
    SourceProvider | SourceWaitTimeout | SourceQueueBusy | SourceDisconnected | SourceExpired
  | SourceProcessPolicy | SourceProbeMissing | SourceContextChanged | SourceRecentOk

datatype word_reset =
    WordNone | WordMouse | WordExternal | WordFocus | WordLayout | WordShortcut | WordBackspace
  | WordDelete | WordNavigation | WordBoundary | WordPrivacy | WordUnsupported

datatype sound_cue = CueConverted | CueUndone

record barrier_read =
  bd_process :: u32
  bd_text :: ustr
  bd_check :: u64

type_synonym barrier_reply = "barrier_status \<times> barrier_report"
type_synonym privacy_key = "foreground_context \<times> u64 \<times> u64"

record worker_configuration = runtime_configuration +
  wc_input_profiles :: input_profile_selections
  wc_user_dictionary :: user_lexicon
  wc_word_exclusions :: user_lexicon
  wc_process_exclusions :: exclusion_policy
  wc_backend_rules :: backend_rules
  wc_dictionaries :: dictionary_registry

text \<open>The metrics the worker shares with the UI thread: those of \<open>observer_metrics\<close> and the counters
  that only the worker writes.\<close>

record shared_metrics =
  sm_observer :: observer_metrics
  sm_candidates :: u64
  sm_backend_status :: u8
  sm_gate_replayed_events :: u64
  sm_gate_release_requests :: u64
  sm_clipboard_restore_failures :: u64
  sm_privacy_probe_cost_ms :: nat
  sm_foreground_full_screen :: bool

record processor =
  ip_detector :: detector
  ip_profiles :: "(nat, nat) keyboard_profile_cache"
  ip_session :: input_session
  ip_modifiers :: modifiers
  ip_resync_modifiers :: bool
  ip_privacy_probe :: "(nat, privacy_key, nat) bounded_probe option"
  ip_exclusion_policy :: exclusion_policy
  ip_backend_rules :: backend_rules
  ip_settings :: settings
  ip_privacy_needs_check :: bool
  ip_privacy_generation :: u64
  ip_privacy_reason :: "privacy_block_reason option"
  ip_recent_privacy_ok :: "recent_privacy_ok option"
  ip_last_refresh_check :: "(foreground_context \<times> duration) option"
  ip_process_reason :: "privacy_block_reason option"
  ip_last_process :: "u32 option"
  ip_integrity_level :: "u32 option"
  ip_replay_keys :: "replay_key list"
  ip_manual_only_word :: bool
  ip_manual_only_inspection :: bool
  ip_manual_token_start_known :: bool
  ip_last_word_reset :: word_reset
  ip_recent_languages :: "language list"
  ip_last_boundary :: "last_boundary option"
  ip_transpose_cycle :: "transpose_cycle option"
  ip_remembered_words :: "remembered_word list"
  ip_last_key_foreground :: "foreground_context option"
  ip_backend :: text_edit_backend
  ip_pending :: "pending_conversion option"
  ip_deferred :: "deferred_drained_conversion option"
  ip_undo :: "undo_record option"
  ip_layout_in_flight :: "(u64 \<times> instant) option"
  ip_last_foreground :: "(u64 \<times> u64 \<times> u32) option"
  ip_last_layout :: "u64 option"
  ip_last_input_epoch :: u64
  ip_configuration_revision :: u64
  ip_last_dropped_events :: u64
  ip_gate_window :: u64
  ip_last_gate_release :: u64
  ip_last_gate_retention :: u64
  ip_held_keys_kept_for :: "u64 option"
  ip_auto_resumes :: rate_limit
  ip_recovered_mid_word :: bool
  ip_failed_edit_gate :: u64
  ip_applying_configuration :: "u64 option"

record cells =
  ce_barrier_probe :: "(nat, barrier_read, nat) bounded_probe option"
  ce_barrier_checks :: u64
  ce_barrier_report :: barrier_report
  ce_edit_deadline :: "instant option"
  ce_lingering :: "nat list"

section \<open>The worker starts\<close>

definition PRIVACY_PROBE_STUCK_AFTER_SECS :: nat where [consts_def]: "PRIVACY_PROBE_STUCK_AFTER_SECS = 5"
definition PRIVACY_PROBE_MAX_RESPAWNS :: nat where [consts_def]: "PRIVACY_PROBE_MAX_RESPAWNS = 3"
definition BARRIER_PROBE_STUCK_AFTER_MS :: nat where [consts_def]: "BARRIER_PROBE_STUCK_AFTER_MS = 2000"
definition BARRIER_PROBE_MAX_RESPAWNS :: nat where [consts_def]: "BARRIER_PROBE_MAX_RESPAWNS = 3"

text \<open>What the start asks of the system: the provider threads, if they started, the time, the worker's own
  integrity level, and the layout model that is built in.\<close>

record start_facts =
  sf_privacy_sender :: "nat option"
  sf_barrier_sender :: "nat option"
  sf_profile_resolver :: "(nat, unit, nat) bounded_probe option"
  sf_now :: instant
  sf_integrity :: "u32 option"
  sf_embedded_model :: "layout_model option"

definition detector_of_configuration :: "worker_configuration \<Rightarrow> layout_model option \<Rightarrow> detector" where
  "detector_of_configuration c embedded =
     set_layout_model (if st_layout_model (rc_settings c) then embedded else None)
       (replace_user_lexicons (wc_user_dictionary c) (wc_word_exclusions c)
         (set_resolved_profiles None
           (with_profile_selections
             (detector_config_default\<lparr>single_letter_words := st_single_letter_words (rc_settings c)\<rparr>)
             (wc_dictionaries c) (wc_input_profiles c))))"

definition processor_new :: "u64 \<Rightarrow> worker_configuration \<Rightarrow> start_facts \<Rightarrow> processor" where
  "processor_new gate_window c facts =
     \<lparr>ip_detector = detector_of_configuration c (sf_embedded_model facts),
      ip_profiles = with_resolver (sf_profile_resolver facts) (sf_now facts),
      ip_session = input_session_default\<lparr>recheck_first_word_after_erasing :=
        st_recheck_first_word_after_erasing (rc_settings c)\<rparr>,
      ip_modifiers = modifiers_default, ip_resync_modifiers = True,
      ip_privacy_probe = map_option (\<lambda>sender. probe_spawn_resilient sender
        (from_secs PRIVACY_PROBE_STUCK_AFTER_SECS) PRIVACY_PROBE_MAX_RESPAWNS) (sf_privacy_sender facts),
      ip_exclusion_policy = wc_process_exclusions c, ip_backend_rules = wc_backend_rules c,
      ip_settings = rc_settings c, ip_privacy_needs_check = True, ip_privacy_generation = 0,
      ip_privacy_reason = Some InspectionUnavailable, ip_recent_privacy_ok = None,
      ip_last_refresh_check = None, ip_process_reason = None, ip_last_process = None,
      ip_integrity_level = sf_integrity facts, ip_replay_keys = [], ip_manual_only_word = False,
      ip_manual_only_inspection = False, ip_manual_token_start_known = False,
      ip_last_word_reset = WordNone, ip_recent_languages = [], ip_last_boundary = None,
      ip_transpose_cycle = None, ip_remembered_words = [], ip_last_key_foreground = None,
      ip_backend = BackendObserve, ip_pending = None, ip_deferred = None, ip_undo = None,
      ip_layout_in_flight = None, ip_last_foreground = None, ip_last_layout = None,
      ip_last_input_epoch = 0, ip_configuration_revision = 0, ip_last_dropped_events = 0,
      ip_gate_window = gate_window, ip_last_gate_release = 0, ip_last_gate_retention = 0,
      ip_held_keys_kept_for = None, ip_auto_resumes = rate_limit_new 3 (from_secs (60 * 60)),
      ip_recovered_mid_word = False, ip_failed_edit_gate = 0, ip_applying_configuration = None\<rparr>"

definition cells_new :: "start_facts \<Rightarrow> cells" where
  "cells_new facts =
     \<lparr>ce_barrier_probe = map_option (\<lambda>sender. probe_spawn_resilient sender
        (from_millis BARRIER_PROBE_STUCK_AFTER_MS) BARRIER_PROBE_MAX_RESPAWNS) (sf_barrier_sender facts),
      ce_barrier_checks = 0, ce_barrier_report = barrier_report_default, ce_edit_deadline = None,
      ce_lingering = []\<rparr>"

text \<open>The start publishes the hotkeys of its configuration.\<close>

definition publish_start :: "settings \<Rightarrow> observer_metrics \<Rightarrow> observer_metrics" where
  "publish_start st m =
     (store_hotkey_configuration st (m\<lparr>m_pause_break_undo := st_pause_break_undo st\<rparr>))
       \<lparr>m_diagnostics_enabled := st_diagnostics_enabled st\<rparr>"

end
