(* ===== verification/Protected_Clipboard.thy ===== *)
theory Protected_Clipboard
  imports Clipboard_Broker Gate_Budget
begin

text \<open>
  \<open>src/windows_agent.rs\<close>: the worker's side of the clipboard broker. \<open>ProtectedClipboard\<close> is the
  replacement on the clipboard for one paste; \<open>ClipboardBrokers\<close> keeps the brokers the worker stopped
  waiting for. The channel to a broker, its thread and the clipboard's sequence and owner are
  arguments; a broker is named by a number.

  The channel of commands holds one command, and a second \<open>send\<close> would block the worker. The main
  result is that every broker is sent exactly one.
\<close>

section \<open>Brokers that were left to finish\<close>

record 's clipboard_link =
  cl_now :: "'s \<Rightarrow> instant \<times> 's"
  cl_spawn :: "ustr \<Rightarrow> 's \<Rightarrow> nat \<times> 's"
  cl_finished :: "nat \<Rightarrow> 's \<Rightarrow> bool \<times> 's"
  cl_join :: "nat \<Rightarrow> 's \<Rightarrow> 's"
  cl_end :: "nat \<Rightarrow> 's \<Rightarrow> u8 \<times> 's"
  cl_cancel :: "nat \<Rightarrow> 's \<Rightarrow> 's"
  cl_try_send :: "nat \<Rightarrow> broker_command \<Rightarrow> 's \<Rightarrow> 's"
  cl_send :: "nat \<Rightarrow> broker_command \<Rightarrow> 's \<Rightarrow> bool \<times> 's"
  cl_receive :: "nat \<Rightarrow> duration \<Rightarrow> 's \<Rightarrow> broker_response option \<times> 's"
  cl_state :: "'s \<Rightarrow> (u32 \<times> u64) \<times> 's"

fun brokers_busy :: "'s clipboard_link \<Rightarrow> nat list \<Rightarrow> 's \<Rightarrow> bool \<times> 's" where
  "brokers_busy L [] s = (False, s)"
| "brokers_busy L (b # bs) s =
     (let (finished, s) = cl_finished L b s in
      if \<not> finished then (True, s) else brokers_busy L bs s)"

definition swap_remove :: "nat \<Rightarrow> 'a list \<Rightarrow> 'a list" where
  "swap_remove i xs = butlast (xs[i := last xs])"

lemma length_swap_remove [simp]: "length (swap_remove i xs) = length xs - 1"
  by (simp add: swap_remove_def)

function reap_from ::
  "'s clipboard_link \<Rightarrow> nat \<Rightarrow> nat list \<Rightarrow> (nat \<times> broker_end) list \<Rightarrow> 's \<Rightarrow>
     (nat \<times> broker_end) list \<times> nat list \<times> 's" where
  "reap_from L i lingering over s =
     (if length lingering \<le> i then (over, lingering, s)
      else
        let b = lingering ! i; (finished, s) = cl_finished L b s in
        if \<not> finished then reap_from L (i + 1) lingering over s
        else
          let s = cl_join L b s; (code, s) = cl_end L b s in
          reap_from L i (swap_remove i lingering) (over @ [(b, broker_end_from_code code)]) s)"
  by pat_completeness auto

termination
  by (relation "measure (\<lambda>(L, i, lingering, _). length lingering - i)") auto

declare reap_from.simps [simp del]

definition brokers_reap :: "'s clipboard_link \<Rightarrow> nat list \<Rightarrow> 's \<Rightarrow> broker_end list \<times> nat list \<times> 's" where
  "brokers_reap L lingering s =
     (let (over, lingering, s) = reap_from L 0 lingering [] s in (map snd over, lingering, s))"

lemma mset_swap_remove:
  assumes i: "i < length xs"
  shows "add_mset (xs ! i) (mset (swap_remove i xs)) = mset xs"
proof -
  let ?ys = "xs[i := last xs]"
  have "xs \<noteq> []" using i by auto
  then have ne: "?ys \<noteq> []" and "last ?ys = last xs" by (auto simp: last_list_update)
  then have "mset ?ys = mset (swap_remove i xs @ [last xs])"
    using append_butlast_last_id [OF ne] unfolding swap_remove_def by metis
  then have "add_mset (last xs) (mset (swap_remove i xs)) = mset ?ys" by simp
  moreover have "add_mset (xs ! i) (mset ?ys) = add_mset (last xs) (mset xs)"
    using i nth_mem_mset [OF i] by (simp add: mset_update)
  ultimately show ?thesis by (metis add_mset_commute add_mset_add_mset_same_iff add_mset_remove_trivial)
qed

text \<open>Reaping loses no broker: each one is either joined and its end reported, or still kept.\<close>

lemma reap_from_keeps:
  "reap_from L i lingering over s = (over', lingering', s') \<Longrightarrow>
     mset (map fst over') + mset lingering' = mset (map fst over) + mset lingering"
proof (induction L i lingering over s arbitrary: over' lingering' s' rule: reap_from.induct)
  case (1 L i lingering over s)
  show ?case
  proof (cases "length lingering \<le> i")
    case True
    then show ?thesis using "1.prems" by (subst (asm) reap_from.simps) auto
  next
    case False
    obtain finished u where u: "cl_finished L (lingering ! i) s = (finished, u)" by fastforce
    obtain code v where v: "cl_end L (lingering ! i) (cl_join L (lingering ! i) u) = (code, v)" by fastforce
    show ?thesis
    proof (cases finished)
      case True
      then have "reap_from L i (swap_remove i lingering) (over @ [(lingering ! i, broker_end_from_code code)]) v
          = (over', lingering', s')"
        using "1.prems" False u v by (subst (asm) reap_from.simps) (simp add: Let_def)
      from "1.IH"(2) [OF False refl u [symmetric] refl _ refl v [symmetric] refl this] True False
      show ?thesis using mset_swap_remove [of i lingering] by (simp add: union_mset_add_mset_right)
    next
      case nf: False
      then have "reap_from L (i + 1) lingering over u = (over', lingering', s')"
        using "1.prems" False u by (subst (asm) reap_from.simps) (simp add: Let_def)
      from "1.IH"(1) [OF False refl u [symmetric] refl _ this] nf show ?thesis by simp
    qed
  qed
qed

section \<open>The replacement of one paste\<close>

datatype clipboard_begin_failure = BrokersBusy | NotInstalled "broker_refusal option"

record protected_clipboard =
  pk_owner :: u64
  pk_sequence :: u32
  pk_target :: u32
  pk_deferred_wait :: duration
  pk_broker :: nat
  pk_worker :: bool
  pk_active :: bool
  pk_submitted_at :: "instant option"
  pk_lingering :: bool

text \<open>\<open>begin_with\<close>: the clipboard, or why not, and the brokers left to finish.\<close>

definition begin_with ::
  "'s clipboard_link \<Rightarrow> ustr \<Rightarrow> duration \<Rightarrow> u32 \<times> duration \<Rightarrow> nat list \<Rightarrow> 's \<Rightarrow>
     (clipboard_begin_failure + protected_clipboard) \<times> nat list \<times> 's" where
  "begin_with L replacement install_wait target lingering s =
     (let (busy, s) = brokers_busy L lingering s in
      if busy then (Inl BrokersBusy, lingering, s)
      else
        let (b, s) = cl_spawn L replacement s;
            (answer, s) = cl_receive L b install_wait s
        in case answer of
          Some (Installed_at sequence owner) \<Rightarrow>
            (Inr \<lparr>pk_owner = owner, pk_sequence = sequence, pk_target = fst target,
               pk_deferred_wait = snd target, pk_broker = b, pk_worker = True, pk_active = True,
               pk_submitted_at = None, pk_lingering = False\<rparr>, lingering, s)
        | Some (Failed_broker refusal) \<Rightarrow>
            (Inl (NotInstalled (Some refusal)), lingering @ [b], cl_try_send L b Restore (cl_cancel L b s))
        | _ \<Rightarrow> (Inl (NotInstalled None), lingering @ [b], cl_try_send L b Restore (cl_cancel L b s)))"

definition clipboard_is_current :: "'s clipboard_link \<Rightarrow> protected_clipboard \<Rightarrow> 's \<Rightarrow> bool \<times> 's" where
  "clipboard_is_current L k s =
     (if \<not> pk_active k then (False, s)
      else let (state, s) = cl_state L s in (state = (pk_sequence k, pk_owner k), s))"

definition mark_submitted :: "'s clipboard_link \<Rightarrow> protected_clipboard \<Rightarrow> 's \<Rightarrow> protected_clipboard \<times> 's" where
  "mark_submitted L k s = (let (now, s) = cl_now L s in (k\<lparr>pk_submitted_at := Some now\<rparr>, s))"

definition clipboard_finish ::
  "'s clipboard_link \<Rightarrow> broker_command \<Rightarrow> duration \<Rightarrow> protected_clipboard \<Rightarrow> nat list \<Rightarrow> 's \<Rightarrow>
     bool \<times> protected_clipboard \<times> nat list \<times> 's" where
  "clipboard_finish L command wait k lingering s =
     (let (sent, s) = cl_send L (pk_broker k) command s;
          (response, s) = (if sent then cl_receive L (pk_broker k) wait s else (None, s));
          (k, lingering, s) =
            (if \<not> pk_worker k then (k, lingering, s)
             else if response \<noteq> None then (k\<lparr>pk_worker := False\<rparr>, lingering, cl_join L (pk_broker k) s)
             else (k\<lparr>pk_worker := False, pk_lingering := True\<rparr>, lingering @ [pk_broker k], s))
      in (response = Some (Finished True), k, lingering, s))"

definition restore_waiting ::
  "'s clipboard_link \<Rightarrow> duration \<Rightarrow> protected_clipboard \<Rightarrow> nat list \<Rightarrow> 's \<Rightarrow>
     bool \<times> protected_clipboard \<times> nat list \<times> 's" where
  "restore_waiting L wait k lingering s =
     (if \<not> pk_active k then (True, k, lingering, s)
      else
        let k = k\<lparr>pk_active := False\<rparr>; (state, s) = cl_state L s in
        if state = (pk_sequence k, pk_owner k) then clipboard_finish L Restore wait k lingering s
        else let (_, k, lingering, s) = clipboard_finish L Abandon wait k lingering s in (False, k, lingering, s))"

definition clipboard_restore ::
  "'s clipboard_link \<Rightarrow> protected_clipboard \<Rightarrow> nat list \<Rightarrow> 's \<Rightarrow>
     bool \<times> protected_clipboard \<times> nat list \<times> 's" where
  "clipboard_restore L = restore_waiting L (from_millis CLIPBOARD_RESTORE_WAIT_MS)"

definition restore_pending :: "protected_clipboard \<Rightarrow> bool" where
  "restore_pending k = pk_lingering k"

definition clipboard_defer ::
  "'s clipboard_link \<Rightarrow> protected_clipboard \<Rightarrow> nat list \<Rightarrow> 's \<Rightarrow> protected_clipboard \<times> nat list \<times> 's" where
  "clipboard_defer L k lingering s =
     (if \<not> pk_active k then (k, lingering, s)
      else
        let k = k\<lparr>pk_active := False\<rparr>;
            (at, s) = (case pk_submitted_at k of Some t \<Rightarrow> (t, s) | None \<Rightarrow> cl_now L s);
            (_, s) = cl_send L (pk_broker k) (Defer (pk_target k) (pk_deferred_wait k) at) s
        in if pk_worker k then (k\<lparr>pk_worker := False\<rparr>, lingering @ [pk_broker k], s)
           else (k, lingering, s))"

definition clipboard_drop ::
  "'s clipboard_link \<Rightarrow> protected_clipboard \<Rightarrow> nat list \<Rightarrow> 's \<Rightarrow> nat list \<times> 's" where
  "clipboard_drop L k lingering s =
     (if pk_submitted_at k \<noteq> None
      then let (_, lingering, s) = clipboard_defer L k lingering s in (lingering, s)
      else let (_, _, lingering, s) = clipboard_restore L k lingering s in (lingering, s))"

section \<open>One command per broker\<close>

text \<open>\<open>told s b\<close> lists the commands sent to broker \<open>b\<close>. A new broker was told nothing; a command is told
  by \<open>send\<close> and \<open>try_send\<close>, to their broker alone.\<close>

definition link_laws :: "'s clipboard_link \<Rightarrow> ('s \<Rightarrow> nat \<Rightarrow> broker_command list) \<Rightarrow> bool" where
  "link_laws L told \<longleftrightarrow>
     (\<forall>s. told (snd (cl_now L s)) = told s) \<and> (\<forall>s. told (snd (cl_state L s)) = told s)
     \<and> (\<forall>b s. told (snd (cl_finished L b s)) = told s) \<and> (\<forall>b s. told (cl_join L b s) = told s)
     \<and> (\<forall>b s. told (snd (cl_end L b s)) = told s) \<and> (\<forall>b s. told (cl_cancel L b s) = told s)
     \<and> (\<forall>b d s. told (snd (cl_receive L b d s)) = told s)
     \<and> (\<forall>w s. told (snd (cl_spawn L w s)) = (told s)(fst (cl_spawn L w s) := []))
     \<and> (\<forall>b c s. told (snd (cl_send L b c s)) = (told s)(b := told s b @ [c]))
     \<and> (\<forall>b c s. told (cl_try_send L b c s) = (told s)(b := told s b @ [c]))"

lemma link_lawsD:
  assumes "link_laws L told"
  shows "told (snd (cl_now L s)) = told s" "told (snd (cl_state L s)) = told s"
    "told (snd (cl_finished L b s)) = told s" "told (cl_join L b s) = told s"
    "told (cl_cancel L b s) = told s" "told (snd (cl_receive L b d s)) = told s"
    "told (snd (cl_spawn L w s)) = (told s)(fst (cl_spawn L w s) := [])"
    "told (snd (cl_send L b c s)) = (told s)(b := told s b @ [c])"
    "told (cl_try_send L b c s) = (told s)(b := told s b @ [c])"
  using assms by (simp_all add: link_laws_def)

datatype clipboard_use = AskCurrent | MarkSubmitted | RestoreWithin duration | DeferPaste

fun use_step ::
  "'s clipboard_link \<Rightarrow> clipboard_use \<Rightarrow> protected_clipboard \<Rightarrow> nat list \<Rightarrow> 's \<Rightarrow>
     protected_clipboard \<times> nat list \<times> 's" where
  "use_step L AskCurrent k lingering s = (k, lingering, snd (clipboard_is_current L k s))"
| "use_step L MarkSubmitted k lingering s = (let (k, s) = mark_submitted L k s in (k, lingering, s))"
| "use_step L (RestoreWithin wait) k lingering s = snd (restore_waiting L wait k lingering s)"
| "use_step L DeferPaste k lingering s = clipboard_defer L k lingering s"

fun use_run ::
  "'s clipboard_link \<Rightarrow> clipboard_use list \<Rightarrow> protected_clipboard \<Rightarrow> nat list \<Rightarrow> 's \<Rightarrow>
     protected_clipboard \<times> nat list \<times> 's" where
  "use_run L [] k lingering s = (k, lingering, s)"
| "use_run L (u # us) k lingering s =
     (let (k, lingering, s) = use_step L u k lingering s in use_run L us k lingering s)"

text \<open>While the clipboard is active its broker was told nothing; from then on exactly one command.\<close>

definition clipboard_ok ::
  "('s \<Rightarrow> nat \<Rightarrow> broker_command list) \<Rightarrow> protected_clipboard \<Rightarrow> 's \<Rightarrow> bool" where
  "clipboard_ok told k s \<longleftrightarrow> length (told s (pk_broker k)) = (if pk_active k then 0 else 1)"

lemma finish_tells:
  assumes "link_laws L told" "clipboard_finish L c wait k lingering s = (r, k', lingering', s')"
  shows "told s' = (told s)(pk_broker k := told s (pk_broker k) @ [c])
    \<and> pk_broker k' = pk_broker k \<and> pk_active k' = pk_active k \<and> pk_submitted_at k' = pk_submitted_at k"
  using assms(2) link_lawsD [OF assms(1)]
  by (auto simp: clipboard_finish_def Let_def case_prod_unfold split: if_splits)

lemma restore_waiting_ok:
  assumes laws: "link_laws L told" and run: "restore_waiting L wait k lingering s = (r, k', lingering', s')"
    and ok: "clipboard_ok told k s"
  shows "clipboard_ok told k' s' \<and> pk_broker k' = pk_broker k \<and> \<not> pk_active k'
    \<and> (\<forall>b. b \<noteq> pk_broker k \<longrightarrow> told s' b = told s b)"
proof (cases "pk_active k")
  case False
  then show ?thesis using run ok by (auto simp: restore_waiting_def)
next
  case True
  obtain state u where u: "cl_state L s = (state, u)" by fastforce
  have tu: "told u = told s" using link_lawsD(2) [OF laws, of s] u by simp
  let ?k = "k\<lparr>pk_active := False\<rparr>"
  have told: "clipboard_ok told k0 s0 \<and> pk_broker k0 = pk_broker k \<and> \<not> pk_active k0
      \<and> (\<forall>b. b \<noteq> pk_broker k \<longrightarrow> told s0 b = told s b)"
    if "clipboard_finish L c wait ?k lingering u = (r0, k0, l0, s0)" for c r0 k0 l0 s0
    using finish_tells [OF laws that] ok True tu by (simp add: clipboard_ok_def)
  show ?thesis
  proof (cases "state = (pk_sequence k, pk_owner k)")
    case st: True
    then have "clipboard_finish L Restore wait ?k lingering u = (r, k', lingering', s')"
      using run True u by (simp add: restore_waiting_def)
    then show ?thesis by (rule told)
  next
    case st: False
    obtain r0 k0 l0 s0 where f: "clipboard_finish L Abandon wait ?k lingering u = (r0, k0, l0, s0)"
      by (metis surj_pair)
    then have "k0 = k'" "s0 = s'" using run True u st by (simp_all add: restore_waiting_def)
    then show ?thesis using told [OF f] by simp
  qed
qed

lemma defer_ok:
  assumes laws: "link_laws L told" and run: "clipboard_defer L k lingering s = (k', lingering', s')"
    and ok: "clipboard_ok told k s"
  shows "clipboard_ok told k' s' \<and> pk_broker k' = pk_broker k \<and> \<not> pk_active k'
    \<and> (\<forall>b. b \<noteq> pk_broker k \<longrightarrow> told s' b = told s b)"
  using run ok link_lawsD(1,8) [OF laws]
  by (auto simp: clipboard_defer_def clipboard_ok_def Let_def case_prod_unfold split: if_splits option.splits)

text \<open>Without a restore, an ended clipboard told its broker to wait for the paste's target.\<close>

definition is_defer :: "broker_command \<Rightarrow> bool" where
  "is_defer c \<longleftrightarrow> (\<exists>p w t. c = Defer p w t)"

definition deferred_ok ::
  "('s \<Rightarrow> nat \<Rightarrow> broker_command list) \<Rightarrow> protected_clipboard \<Rightarrow> 's \<Rightarrow> bool" where
  "deferred_ok told k s \<longleftrightarrow> (\<not> pk_active k \<longrightarrow> list_all is_defer (told s (pk_broker k)))"

lemma defer_tells:
  assumes laws: "link_laws L told" and run: "clipboard_defer L k lingering s = (k', lingering', s')"
    and ok: "clipboard_ok told k s" and "deferred_ok told k s"
  shows "deferred_ok told k' s' \<and> pk_submitted_at k' = pk_submitted_at k"
  using run ok assms(4) link_lawsD(1,8) [OF laws]
  by (auto simp: clipboard_defer_def clipboard_ok_def deferred_ok_def is_defer_def Let_def case_prod_unfold
      split: if_splits option.splits)

lemma use_step_ok:
  assumes laws: "link_laws L told" and run: "use_step L u k lingering s = (k', lingering', s')"
    and ok: "clipboard_ok told k s"
  shows "clipboard_ok told k' s' \<and> pk_broker k' = pk_broker k
    \<and> (\<forall>b. b \<noteq> pk_broker k \<longrightarrow> told s' b = told s b)
    \<and> ((\<forall>d. u \<noteq> RestoreWithin d) \<longrightarrow> deferred_ok told k s \<longrightarrow>
        deferred_ok told k' s' \<and> (pk_submitted_at k \<noteq> None \<or> u = MarkSubmitted \<longrightarrow> pk_submitted_at k' \<noteq> None))"
proof (cases u)
  case AskCurrent
  then show ?thesis
    using run ok link_lawsD(2) [OF laws]
    by (auto simp: clipboard_is_current_def clipboard_ok_def deferred_ok_def Let_def case_prod_unfold)
next
  case MarkSubmitted
  then show ?thesis
    using run ok link_lawsD(1) [OF laws]
    by (auto simp: mark_submitted_def clipboard_ok_def deferred_ok_def Let_def case_prod_unfold)
next
  case (RestoreWithin wait)
  obtain r where "restore_waiting L wait k lingering s = (r, k', lingering', s')"
    using run RestoreWithin by (cases "restore_waiting L wait k lingering s") auto
  from restore_waiting_ok [OF laws this ok] RestoreWithin show ?thesis by auto
next
  case DeferPaste
  then have "clipboard_defer L k lingering s = (k', lingering', s')" using run by simp
  from defer_ok [OF laws this ok] defer_tells [OF laws this ok] DeferPaste show ?thesis by auto
qed

lemma use_run_ok:
  assumes laws: "link_laws L told"
  shows "use_run L uses k lingering s = (k', lingering', s') \<Longrightarrow> clipboard_ok told k s \<Longrightarrow>
    clipboard_ok told k' s' \<and> pk_broker k' = pk_broker k
    \<and> (\<forall>b. b \<noteq> pk_broker k \<longrightarrow> told s' b = told s b)
    \<and> ((\<forall>d. RestoreWithin d \<notin> set uses) \<longrightarrow> deferred_ok told k s \<longrightarrow>
        deferred_ok told k' s'
        \<and> (pk_submitted_at k \<noteq> None \<or> MarkSubmitted \<in> set uses \<longrightarrow> pk_submitted_at k' \<noteq> None))"
proof (induction uses arbitrary: k lingering s)
  case Nil
  then show ?case by simp
next
  case (Cons u uses)
  obtain k1 l1 s1 where step: "use_step L u k lingering s = (k1, l1, s1)" by (metis surj_pair)
  note first = use_step_ok [OF laws step Cons.prems(2)]
  have "use_run L uses k1 l1 s1 = (k', lingering', s')" using Cons.prems(1) step by simp
  note rest = Cons.IH [OF this first [THEN conjunct1]]
  have "\<forall>d. u \<noteq> RestoreWithin d" if "\<forall>d. RestoreWithin d \<notin> set (u # uses)" using that by auto
  then show ?case using first rest by auto
qed

lemma drop_ok:
  assumes laws: "link_laws L told" and run: "clipboard_drop L k lingering s = (lingering', s')"
    and ok: "clipboard_ok told k s"
  shows "length (told s' (pk_broker k)) = 1 \<and> (\<forall>b. b \<noteq> pk_broker k \<longrightarrow> told s' b = told s b)
    \<and> (deferred_ok told k s \<and> pk_submitted_at k \<noteq> None \<longrightarrow> list_all is_defer (told s' (pk_broker k)))"
proof (cases "pk_submitted_at k")
  case None
  obtain r k1 where "clipboard_restore L k lingering s = (r, k1, lingering', s')"
    using run None by (cases "clipboard_restore L k lingering s") (auto simp: clipboard_drop_def)
  from restore_waiting_ok [OF laws this [unfolded clipboard_restore_def] ok] None
  show ?thesis by (auto simp: clipboard_ok_def split: if_splits)
next
  case (Some at)
  obtain k1 where d: "clipboard_defer L k lingering s = (k1, lingering', s')"
    using run Some by (cases "clipboard_defer L k lingering s") (auto simp: clipboard_drop_def)
  from defer_ok [OF laws d ok] defer_tells [OF laws d ok]
  show ?thesis by (auto simp: clipboard_ok_def deferred_ok_def split: if_splits)
qed

lemma brokers_busy_tells: "link_laws L told \<Longrightarrow> told (snd (brokers_busy L bs s)) = told s"
  by (induction bs arbitrary: s) (auto simp: Let_def case_prod_unfold link_lawsD(3))

text \<open>What \<open>begin_with\<close> told: nothing when it refused, \<open>Restore\<close> to a broker it gave up, and nothing yet to
  the broker of the clipboard it returns.\<close>

lemma begin_tells:
  assumes laws: "link_laws L told" and run: "begin_with L w d target lingering s = (outcome, lingering', s')"
  shows "case outcome of
      Inl BrokersBusy \<Rightarrow> told s' = told s
    | Inl (NotInstalled _) \<Rightarrow> \<exists>b. told s' = (told s)(b := [Restore]) \<and> lingering' = lingering @ [b]
    | Inr k \<Rightarrow> told s' = (told s)(pk_broker k := []) \<and> pk_active k \<and> pk_submitted_at k = None"
proof -
  obtain busy u where u: "brokers_busy L lingering s = (busy, u)" by fastforce
  then have tu: "told u = told s" using brokers_busy_tells [OF laws] by (metis snd_conv)
  obtain b v where v: "cl_spawn L w u = (b, v)" by fastforce
  then have tv: "told v = (told s)(b := [])" using link_lawsD(7) [OF laws, of w u] tu by simp
  obtain answer x where x: "cl_receive L b d v = (answer, x)" by fastforce
  then have tx: "told x = (told s)(b := [])" using link_lawsD(6) [OF laws, of b d v] tv by simp
  have refused: "told (cl_try_send L b Restore (cl_cancel L b x)) = (told s)(b := [Restore])"
    using link_lawsD(5,9) [OF laws] tx by simp
  show ?thesis
    using run u v x tu tx refused
    by (auto simp: begin_with_def Let_def split: if_splits option.splits broker_response.splits)
qed

text \<open>C20. A broker is sent exactly one command, so the worker never blocks on the one place of its command
  queue and no broker is left waiting for one: a broker that was given up is told to restore; and
  however a clipboard is used - asked, marked, restored, deferred, in any order and number - once it is
  dropped its broker was told one command, and no other broker any. If the Ctrl+V was marked as sent
  and no restore was asked for, that command leaves the replacement to the paste's target.\<close>

theorem one_command_per_broker:
  assumes laws: "link_laws L told" and run: "begin_with L w d target lingering s = (outcome, lingering1, s1)"
  shows "case outcome of
      Inl BrokersBusy \<Rightarrow> told s1 = told s
    | Inl (NotInstalled _) \<Rightarrow> \<exists>b. told s1 = (told s)(b := [Restore]) \<and> lingering1 = lingering @ [b]
    | Inr k \<Rightarrow> \<forall>uses k' l' s' l'' s''. use_run L uses k lingering1 s1 = (k', l', s') \<longrightarrow>
        clipboard_drop L k' l' s' = (l'', s'') \<longrightarrow>
        (\<exists>c. told s'' = (told s)(pk_broker k := [c])
           \<and> (MarkSubmitted \<in> set uses \<and> (\<forall>wait. RestoreWithin wait \<notin> set uses) \<longrightarrow> is_defer c))"
proof (cases outcome)
  case (Inl failure)
  then show ?thesis using begin_tells [OF laws run] by simp
next
  case (Inr k)
  have begun: "told s1 = (told s)(pk_broker k := [])" "pk_active k"
    using begin_tells [OF laws run] Inr by auto
  then have ok: "clipboard_ok told k s1" and fresh: "deferred_ok told k s1"
    by (auto simp: clipboard_ok_def deferred_ok_def)
  have "\<exists>c. told s'' = (told s)(pk_broker k := [c])
      \<and> (MarkSubmitted \<in> set uses \<and> (\<forall>wait. RestoreWithin wait \<notin> set uses) \<longrightarrow> is_defer c)"
    if uses: "use_run L uses k lingering1 s1 = (k', l', s')" and drop: "clipboard_drop L k' l' s' = (l'', s'')"
    for uses k' l' s' l'' s''
  proof -
    note used = use_run_ok [OF laws uses ok]
    then have ok': "clipboard_ok told k' s'" and same: "pk_broker k' = pk_broker k" by auto
    note dropped = drop_ok [OF laws drop ok']
    obtain c where c: "told s'' (pk_broker k) = [c]" using dropped same by (auto simp: length_Suc_conv)
    have "told s'' = (told s)(pk_broker k := [c])" using dropped used begun(1) same c by (auto simp: fun_eq_iff)
    then show ?thesis using used dropped fresh same c by auto
  qed
  then show ?thesis using Inr by simp
qed

text \<open>A link whose brokers install at once; its state is the number of brokers and what they were told.\<close>

definition sample_link :: "(nat \<times> (nat \<Rightarrow> broker_command list)) clipboard_link" where
  "sample_link =
     \<lparr>cl_now = (\<lambda>s. (5, s)), cl_spawn = (\<lambda>_ (n, f). (n, (n + 1, f(n := [])))),
      cl_finished = (\<lambda>_ s. (True, s)), cl_join = (\<lambda>_ s. s), cl_end = (\<lambda>_ s. (2, s)), cl_cancel = (\<lambda>_ s. s),
      cl_try_send = (\<lambda>b c (n, f). (n, f(b := f b @ [c]))),
      cl_send = (\<lambda>b c (n, f). (True, (n, f(b := f b @ [c])))),
      cl_receive = (\<lambda>_ _ s. (Some (Installed_at 7 9), s)), cl_state = (\<lambda>s. ((7, 9), s))\<rparr>"

lemma sample_link_laws: "link_laws sample_link snd"
  by (auto simp: link_laws_def sample_link_def)

definition sample_clip :: protected_clipboard where
  "sample_clip = \<lparr>pk_owner = 9, pk_sequence = 7, pk_target = 42, pk_deferred_wait = 5000, pk_broker = 0,
     pk_worker = True, pk_active = True, pk_submitted_at = None, pk_lingering = False\<rparr>"

lemma sample_begin:
  "begin_with sample_link (lit ''hello'') 100 (42, 5000) [] (0, \<lambda>_. []) = (Inr sample_clip, [], (1, \<lambda>_. []))"
  by (simp add: begin_with_def sample_link_def sample_clip_def fun_eq_iff)

lemma sample_use:
  "use_run sample_link [AskCurrent, MarkSubmitted, DeferPaste] sample_clip [] (1, \<lambda>_. [])
     = (sample_clip\<lparr>pk_active := False, pk_worker := False, pk_submitted_at := Some 5\<rparr>, [0],
        (1, (\<lambda>_. [])(0 := [Defer 42 5000 5])))"
  by (simp add: sample_link_def sample_clip_def clipboard_is_current_def mark_submitted_def clipboard_defer_def)

lemma sample_drop:
  "clipboard_drop sample_link (sample_clip\<lparr>pk_active := False, pk_worker := False, pk_submitted_at := Some 5\<rparr>)
     [0] (1, (\<lambda>_. [])(0 := [Defer 42 5000 5])) = ([0], (1, (\<lambda>_. [])(0 := [Defer 42 5000 5])))"
  by (simp add: clipboard_drop_def clipboard_defer_def)

theorem one_command_per_broker_witness:
  "\<exists>c. (\<lambda>b. if b = 0 then [Defer 42 5000 5] else []) = (\<lambda>_. [])(0 := [c]) \<and> is_defer c"
proof -
  note all = one_command_per_broker [OF sample_link_laws sample_begin, unfolded sum.case]
  note told = all [THEN spec, THEN spec, THEN spec, THEN spec, THEN spec, THEN spec, THEN mp, OF sample_use,
    THEN mp, OF sample_drop]
  show ?thesis using told by (auto simp: sample_clip_def fun_eq_iff split: if_splits)
qed

end
