(* ===== verification/Loops.thy ===== *)
theory Loops
  imports Prelude
begin

text \<open>
  The wait loops of the worker: a body that either leaves the loop with a result or goes round again
  with new loop variables, over a state of the outside world. \<open>iterate\<close> is \<open>None\<close> when the loop does
  not end. Two rules carry the proofs about every such loop: what holds when it ends, by an invariant
  (\<open>iterate_ends\<close>), and that it ends, by a measure that goes down (\<open>iterate_returns\<close>).
\<close>

partial_function (option) iterate ::
  "('a \<Rightarrow> 's \<Rightarrow> ('r + 'a) \<times> 's) \<Rightarrow> 'a \<Rightarrow> 's \<Rightarrow> ('r \<times> 's) option" where
  "iterate body a s =
     (let b = body a s in
      case fst b of
        Inl r \<Rightarrow> Some (r, snd b)
      | Inr a \<Rightarrow> iterate body a (snd b))"

lemma iterate_unfold:
  "iterate body a s =
     (case body a s of (Inl r, s) \<Rightarrow> Some (r, s) | (Inr a, s) \<Rightarrow> iterate body a s)"
  by (subst iterate.simps) (simp add: Let_def case_prod_unfold)

lemma iterate_ends:
  assumes run: "iterate body a s = Some (r, s')" and "I a s"
    and step: "\<And>a s a' s'. I a s \<Longrightarrow> body a s = (Inr a', s') \<Longrightarrow> I a' s'"
    and leave: "\<And>a s r s'. I a s \<Longrightarrow> body a s = (Inl r, s') \<Longrightarrow> Q r s'"
  shows "Q r s'"
proof -
  define P where "P B a s x \<longleftrightarrow> (B = body \<longrightarrow> I a s \<longrightarrow> Q (fst x) (snd x))" for B a s x
  have "P body a s (r, s')"
  proof (rule iterate.raw_induct [where P = P, OF _ run])
    fix loop B a s x
    assume IH: "\<And>B a s x. loop B a s = Some x \<Longrightarrow> P B a s x"
      and eq: "(let b = B a s in case fst b of Inl r \<Rightarrow> Some (r, snd b) | Inr a \<Rightarrow> loop B a (snd b)) = Some x"
    show "P B a s x"
      unfolding P_def
    proof (intro impI)
      assume B: "B = body" and "I a s"
      obtain y u where b: "body a s = (y, u)" by fastforce
      show "Q (fst x) (snd x)"
      proof (cases y)
        case (Inl r)
        then show ?thesis using eq B b leave \<open>I a s\<close> by (auto simp: Let_def)
      next
        case (Inr a')
        then have "loop body a' u = Some x" using eq B b by (simp add: Let_def)
        then show ?thesis using IH step [OF \<open>I a s\<close>] b Inr by (auto simp: P_def)
      qed
    qed
  qed
  then show ?thesis using \<open>I a s\<close> by (simp add: P_def)
qed

lemma iterate_returns:
  assumes "I a s"
    and step: "\<And>a s a' s'. I a s \<Longrightarrow> body a s = (Inr a', s') \<Longrightarrow> I a' s' \<and> m a' s' < (m a s :: nat)"
  shows "\<exists>r s'. iterate body a s = Some (r, s')"
  using assms(1)
proof (induction "m a s" arbitrary: a s rule: less_induct)
  case less
  obtain y u where b: "body a s = (y, u)" by fastforce
  show ?case
  proof (cases y)
    case (Inr a')
    then have "\<exists>r s'. iterate body a' u = Some (r, s')"
      using step [OF less.prems] b less.hyps by blast
    then show ?thesis by (subst iterate_unfold) (simp add: b Inr)
  qed (subst iterate_unfold, simp add: b)
qed

text \<open>\<open>while Instant::now() < deadline { body }\<close>: a body leaves with \<open>Inl\<close>, a passed deadline with the
  result \<open>late\<close> makes of the loop variables.\<close>

definition before ::
  "('s \<Rightarrow> instant \<times> 's) \<Rightarrow> ('a \<Rightarrow> instant) \<Rightarrow> ('a \<Rightarrow> 'r) \<Rightarrow> ('a \<Rightarrow> 's \<Rightarrow> ('r + 'a) \<times> 's) \<Rightarrow>
     'a \<Rightarrow> 's \<Rightarrow> ('r + 'a) \<times> 's" where
  "before now deadline late body a s =
     (let (t, s) = now s in if t < deadline a then body a s else (Inl (late a), s))"

definition while_before ::
  "('s \<Rightarrow> instant \<times> 's) \<Rightarrow> ('a \<Rightarrow> instant) \<Rightarrow> ('a \<Rightarrow> 'r) \<Rightarrow> ('a \<Rightarrow> 's \<Rightarrow> ('r + 'a) \<times> 's) \<Rightarrow>
     'a \<Rightarrow> 's \<Rightarrow> ('r \<times> 's) option" where
  "while_before now deadline late body = iterate (before now deadline late body)"

lemma while_before_ends:
  assumes run: "while_before now deadline late body a s = Some (r, s')" and "I a s"
    and time: "\<And>a s. I a s \<Longrightarrow> I a (snd (now s))"
    and step: "\<And>a s a' s'. I a s \<Longrightarrow> body a s = (Inr a', s') \<Longrightarrow> I a' s'"
    and leave: "\<And>a s r s'. I a s \<Longrightarrow> body a s = (Inl r, s') \<Longrightarrow> Q r s'"
    and over: "\<And>a s. I a s \<Longrightarrow> Q (late a) s"
  shows "Q r s'"
proof (rule iterate_ends [of _ a s r s' I Q])
  show "iterate (before now deadline late body) a s = Some (r, s')"
    using run by (simp add: while_before_def)
  show "I a' s'" if "I a s" "before now deadline late body a s = (Inr a', s')" for a s a' s'
    using step [of a "snd (now s)"] time [OF that(1)] that(2)
    by (auto simp: before_def case_prod_unfold Let_def split: if_splits)
  show "Q r s'" if "I a s" "before now deadline late body a s = (Inl r, s')" for a s r s'
    using leave [of a "snd (now s)"] over [of a "snd (now s)"] time [OF that(1)] that(2)
    by (auto simp: before_def case_prod_unfold Let_def split: if_splits)
qed fact

text \<open>Such a loop ends when every round takes time and the deadline stays below some limit.\<close>

lemma while_before_returns:
  assumes now: "\<And>s. clock s \<le> fst (now s) \<and> clock s \<le> clock (snd (now s))"
    and limit: "deadline a \<le> limit"
    and step: "\<And>a s a' s'. deadline a \<le> limit \<Longrightarrow> body a s = (Inr a', s') \<Longrightarrow> deadline a' \<le> limit \<and> clock s < clock s'"
  shows "\<exists>r s'. while_before now deadline late body a s = Some (r, s')"
  unfolding while_before_def
proof (rule iterate_returns [where I = "\<lambda>a s. deadline a \<le> limit" and m = "\<lambda>a s. limit - clock s"])
  fix a s a' s'
  assume a: "deadline a \<le> limit" and b: "before now deadline late body a s = (Inr a', s')"
  then have "fst (now s) < deadline a" "body a (snd (now s)) = (Inr a', s')"
    by (auto simp: before_def case_prod_unfold Let_def split: if_splits)
  then show "deadline a' \<le> limit \<and> limit - clock s' < limit - clock s"
    using step [OF a] now [of s] a by fastforce
qed (rule limit)

end
