(* ===== verification/Worker_World.thy ===== *)
theory Worker_World
  imports Worker_State Protected_Clipboard Loops
begin

text \<open>
  The world the input worker acts on (see \<open>Worker_State\<close>), and the reads of it that the worker's
  methods share: the atomics, the focus, the resolved profiles.

  A method with \<open>&self\<close> takes the processor and returns the cells it may have changed with the world;
  \<open>out\<close> lifts an operation of the world to that pair.
\<close>

datatype gate_question = AskArm u64 | AskBudget u64 nat | AskDrainAck u64 u64
datatype gate_notice = NoticeRelease u64 | NoticeFailOpen u64 | NoticeSelectionLeft u64

record ('s, 'r) worker_world =
  ww_unicode :: unicode
  ww_exp :: "f32 \<Rightarrow> f32"
  ww_layout_model :: "layout_model option"
  ww_field :: "('s, 'r) text_field"
  ww_resolve :: "u32 \<Rightarrow> barrier_report \<times> 's \<Rightarrow> barrier_status option \<times> (barrier_report \<times> 's)"
  ww_clipboard :: "'s clipboard_link"
  ww_barrier :: "('s, nat, nat, barrier_read, barrier_reply) provider_system"
  ww_privacy :: "('s, nat, nat, privacy_key, privacy_block_reason option) provider_system"
  ww_profiles :: "('s, nat, nat) profile_provider"
  ww_native_layouts :: "'s \<Rightarrow> hkl list option \<times> 's"
  ww_atomic :: "(shared_metrics \<Rightarrow> shared_metrics) \<Rightarrow> 's \<Rightarrow> shared_metrics \<times> 's"
  ww_foreground :: "'s \<Rightarrow> foreground_context option \<times> 's"
  ww_key_held :: "u16 \<Rightarrow> 's \<Rightarrow> bool \<times> 's"
  ww_process_facts :: "u32 \<Rightarrow> 's \<Rightarrow> (ustr option \<times> u32 option) \<times> 's"
  ww_post_layout :: "foreground_context \<Rightarrow> u64 \<Rightarrow> 's \<Rightarrow> bool \<times> 's"
  ww_ask_gate :: "gate_question \<Rightarrow> 's \<Rightarrow> (bool \<times> nat \<times> bool) \<times> 's"
  ww_post_gate :: "gate_notice \<Rightarrow> 's \<Rightarrow> bool \<times> 's"
  ww_send_input :: "key_input list \<Rightarrow> 's \<Rightarrow> nat \<times> 's"
  ww_pacer :: "'s \<Rightarrow> bool \<times> 's"
  ww_pacer_wait :: "'s \<Rightarrow> 's"
  ww_virtual_key :: "u32 \<Rightarrow> u64 \<Rightarrow> u32"
  ww_layout_print :: "u32 \<Rightarrow> u16 \<Rightarrow> bool \<Rightarrow> bool \<Rightarrow> u64 \<Rightarrow> u16 list"
  ww_translate :: "raw_key_event \<Rightarrow> modifiers \<Rightarrow> 's \<Rightarrow> uchar option \<times> 's"
  ww_lexicon :: "(volatile_lexicon_candidate option \<Rightarrow> volatile_lexicon_candidate option) \<Rightarrow> 's \<Rightarrow> 's"
  ww_post_offer :: "'s \<Rightarrow> 's"
  ww_sound :: "sound_cue \<Rightarrow> 's \<Rightarrow> 's"
  ww_full_screen :: "'s \<Rightarrow> bool \<times> 's"

definition ww_now :: "('s, 'r) worker_world \<Rightarrow> 's \<Rightarrow> instant \<times> 's" where
  "ww_now W = tf_now (ww_field W)"

definition ww_sleep :: "('s, 'r) worker_world \<Rightarrow> nat \<Rightarrow> 's \<Rightarrow> 's" where
  "ww_sleep W ms = tf_sleep (ww_field W) (from_millis ms)"

definition out :: "('s \<Rightarrow> 'a \<times> 's) \<Rightarrow> 'c \<times> 's \<Rightarrow> 'a \<times> ('c \<times> 's)" where
  "out f t = (let (x, s) = f (snd t) in (x, (fst t, s)))"

definition load :: "('s, 'r) worker_world \<Rightarrow> (observer_metrics \<Rightarrow> 'a) \<Rightarrow> 's \<Rightarrow> 'a \<times> 's" where
  "load W f s = (let (m, s) = ww_atomic W id s in (f (sm_observer m), s))"

definition store :: "('s, 'r) worker_world \<Rightarrow> (observer_metrics \<Rightarrow> observer_metrics) \<Rightarrow> 's \<Rightarrow> 's" where
  "store W f s = snd (ww_atomic W (sm_observer_update f) s)"

definition swap :: "('s, 'r) worker_world \<Rightarrow> (observer_metrics \<Rightarrow> 'a) \<Rightarrow> (observer_metrics \<Rightarrow> observer_metrics) \<Rightarrow> 's \<Rightarrow> 'a \<times> 's" where
  "swap W f u s = (let (m, s) = ww_atomic W (sm_observer_update u) s in (f (sm_observer m), s))"

definition note_metric :: "('s, 'r) worker_world \<Rightarrow> (shared_metrics \<Rightarrow> shared_metrics) \<Rightarrow> 's \<Rightarrow> 's" where
  "note_metric W f s = snd (ww_atomic W f s)"

text \<open>\<open>physical_modifiers_released\<close>: \<open>all\<close> asks the keys in order and stops at the first held one.\<close>

fun all_released :: "('s, 'r) worker_world \<Rightarrow> u16 list \<Rightarrow> 's \<Rightarrow> bool \<times> 's" where
  "all_released W [] s = (True, s)"
| "all_released W (k # ks) s =
     (let (held, s) = ww_key_held W k s in if held then (False, s) else all_released W ks s)"

definition modifiers_released_now :: "('s, 'r) worker_world \<Rightarrow> 's \<Rightarrow> bool \<times> 's" where
  "modifiers_released_now W = all_released W [VK_SHIFT, VK_CONTROL, VK_MENU, VK_LWIN, VK_RWIN]"

section \<open>Guards\<close>

definition foreground_matches :: "('s, 'r) worker_world \<Rightarrow> foreground_context \<Rightarrow> 's \<Rightarrow> bool \<times> 's" where
  "foreground_matches W expected s =
     (let (current, s) = ww_foreground W s in
      (case current of None \<Rightarrow> False | Some c \<Rightarrow> same_input_target c expected, s))"

definition input_sequence_is_current :: "('s, 'r) worker_world \<Rightarrow> u64 \<Rightarrow> 's \<Rightarrow> bool \<times> 's" where
  "input_sequence_is_current W expected s =
     (let (observed, s) = load W m_observed_input_sequence s in (observed = expected, s))"

definition sequence_and_modifiers :: "('s, 'r) worker_world \<Rightarrow> u64 \<Rightarrow> 's \<Rightarrow> bool \<times> 's" where
  "sequence_and_modifiers W sequence s =
     (let (current, s) = input_sequence_is_current W sequence s in
      if current then modifiers_released_now W s else (False, s))"

text \<open>The two guards differ in what they ask of a gate of their own: after the key was forwarded, the
  forwarded sequence has reached it.\<close>

definition gate_cancelled_or_new_epoch :: "('s, 'r) worker_world \<Rightarrow> processor \<Rightarrow> u64 \<Rightarrow> 's \<Rightarrow> bool \<times> 's" where
  "gate_cancelled_or_new_epoch W p sequence s =
     (let (cancelled, s) = load W m_cancelled_gate_token s in
      if cancelled = sequence then (True, s)
      else let (epoch, s) = load W m_input_epoch s in (epoch \<noteq> ip_last_input_epoch p, s))"

definition pre_forward_input_guard_is_current :: "('s, 'r) worker_world \<Rightarrow> processor \<Rightarrow> u64 \<Rightarrow> 's \<Rightarrow> bool \<times> 's" where
  "pre_forward_input_guard_is_current W p sequence s =
     (let (stale, s) = gate_cancelled_or_new_epoch W p sequence s in
      if stale then (False, s)
      else
        let (active, s) = load W m_active_gate_token s in
        if active = sequence
        then let (cancelled, s) = load W m_cancelled_gate_token s in (cancelled \<noteq> sequence, s)
        else sequence_and_modifiers W sequence s)"

definition input_guard_is_current :: "('s, 'r) worker_world \<Rightarrow> processor \<Rightarrow> u64 \<Rightarrow> 's \<Rightarrow> bool \<times> 's" where
  "input_guard_is_current W p sequence s =
     (let (stale, s) = gate_cancelled_or_new_epoch W p sequence s in
      if stale then (False, s)
      else
        let (active, s) = load W m_active_gate_token s in
        if active = sequence
        then
          let (cancelled, s) = load W m_cancelled_gate_token s in
          if cancelled = sequence then (False, s)
          else let (forwarded, s) = load W m_forwarded_input_sequence s in (sequence \<le> forwarded, s)
        else sequence_and_modifiers W sequence s)"

definition pre_forward_guard_is_current ::
  "('s, 'r) worker_world \<Rightarrow> processor \<Rightarrow> foreground_context \<Rightarrow> u64 \<Rightarrow> 's \<Rightarrow> bool \<times> 's" where
  "pre_forward_guard_is_current W p foreground sequence s =
     (let (current, s) = pre_forward_input_guard_is_current W p sequence s in
      if current then foreground_matches W foreground s else (False, s))"

definition edit_guard_is_current ::
  "('s, 'r) worker_world \<Rightarrow> processor \<Rightarrow> foreground_context \<Rightarrow> u64 \<Rightarrow> 's \<Rightarrow> bool \<times> 's" where
  "edit_guard_is_current W p foreground sequence s =
     (let (current, s) = input_guard_is_current W p sequence s in
      if current then foreground_matches W foreground s else (False, s))"

text \<open>Whether the input target has the focus with the layout \<open>layout\<close>.\<close>

definition layout_is :: "('s, 'r) worker_world \<Rightarrow> u64 \<Rightarrow> 's \<Rightarrow> bool \<times> 's" where
  "layout_is W layout s =
     (let (current, s) = ww_foreground W s in
      (case current of None \<Rightarrow> False | Some c \<Rightarrow> fc_layout c = layout, s))"

section \<open>Profiles\<close>

definition resolved_profiles ::
  "('s, 'r) worker_world \<Rightarrow> processor \<Rightarrow> 's \<Rightarrow> resolved_keyboard_profiles option \<times> 's" where
  "resolved_profiles W p = profile_snapshot (ww_profiles W) (ip_profiles p)"

definition language_for_layout :: "('s, 'r) worker_world \<Rightarrow> processor \<Rightarrow> u64 \<Rightarrow> 's \<Rightarrow> language option \<times> 's" where
  "language_for_layout W p layout s =
     (let (profiles, s) = resolved_profiles W p s in
      (case profiles of
         None \<Rightarrow> None
       | Some r \<Rightarrow>
           (case resolved_profile r layout of
              None \<Rightarrow> None
            | Some profile \<Rightarrow>
                (case language_for_profile (ip_detector p) profile of
                   None \<Rightarrow> None
                 | Some l \<Rightarrow> if language_enabled (ip_settings p) l then Some l else None)), s))"

definition find_layout :: "('s, 'r) worker_world \<Rightarrow> processor \<Rightarrow> language \<Rightarrow> 's \<Rightarrow> u64 option \<times> 's" where
  "find_layout W p l s =
     (case input_profile (ip_detector p) l of
        None \<Rightarrow> (None, s)
      | Some profile \<Rightarrow>
          let (profiles, s) = resolved_profiles W p s in
          (case profiles of None \<Rightarrow> None | Some r \<Rightarrow> unique_layout r profile, s))"

definition profile_inventory_is_current :: "('s, 'r) worker_world \<Rightarrow> processor \<Rightarrow> 's \<Rightarrow> bool \<times> 's" where
  "profile_inventory_is_current W p =
     inventory_is_current (ww_profiles W) (ww_native_layouts W) (ip_profiles p)"

definition pending_profiles_match :: "('s, 'r) worker_world \<Rightarrow> processor \<Rightarrow> pending_conversion \<Rightarrow> 's \<Rightarrow> bool \<times> 's" where
  "pending_profiles_match W p pending s =
     (if pn_generation pending \<noteq> profile_generation (ip_profiles p) then (False, s)
      else
        let (source_ok, s) =
          (if pn_forced pending then (True, s)
           else let (l, s) = language_for_layout W p (pn_source_layout pending) s in (l \<noteq> None, s))
        in if \<not> source_ok then (False, s)
           else let (layout, s) = find_layout W p (ct_target_language (pn_transaction pending)) s in
             (layout \<noteq> None, s))"

section \<open>Small operations on the processor\<close>

definition clear_undo :: "('s, 'r) worker_world \<Rightarrow> processor \<times> 's \<Rightarrow> processor \<times> 's" where
  "clear_undo W = (\<lambda>(p, s). (p\<lparr>ip_undo := None\<rparr>, store W (m_undo_available_update (\<lambda>_. False)) s))"

definition commit_confirmed_layout :: "u64 \<Rightarrow> processor \<Rightarrow> processor" where
  "commit_confirmed_layout layout p = p\<lparr>ip_last_layout := Some layout, ip_layout_in_flight := None\<rparr>"

definition invalidate_conversion_state :: "('s, 'r) worker_world \<Rightarrow> processor \<times> 's \<Rightarrow> processor \<times> 's" where
  "invalidate_conversion_state W = (\<lambda>(p, s).
     clear_undo W
       (p\<lparr>ip_pending := None, ip_deferred := None, ip_last_boundary := None, ip_transpose_cycle := None\<rparr>, s))"

definition handle_session ::
  "('s, 'r) worker_world \<Rightarrow> input_event \<Rightarrow> language option \<Rightarrow> processor \<Rightarrow> session_action \<times> processor" where
  "handle_session W event l p =
     (let (action, session) = session_handle (ww_exp W) (ww_unicode W) (ip_detector p) event l (ip_session p)
      in (action, p\<lparr>ip_session := session\<rparr>))"

definition clear_session :: "processor \<Rightarrow> processor" where
  "clear_session p = p\<lparr>ip_session := session_clear (ip_session p)\<rparr>"

definition suppress_session :: "('s, 'r) worker_world \<Rightarrow> processor \<Rightarrow> processor" where
  "suppress_session W p =
     snd (handle_session W UnsupportedInput None
       (p\<lparr>ip_replay_keys := [], ip_manual_only_word := False, ip_manual_only_inspection := False\<rparr>))"

definition record_manual_edit_failure :: "('s, 'r) worker_world \<Rightarrow> processor \<times> 's \<Rightarrow> processor \<times> 's" where
  "record_manual_edit_failure W t =
     (let (p, s) = invalidate_conversion_state W t
      in ((suppress_session W p)\<lparr>ip_layout_in_flight := None\<rparr>, s))"

definition record_conversion_failure ::
  "('s, 'r) worker_world \<Rightarrow> conversion_failure_reason \<Rightarrow> processor \<times> 's \<Rightarrow> processor \<times> 's" where
  "record_conversion_failure W reason = (\<lambda>(p, s).
     let (cancelled, s) = load W m_cancelled_gate_token s;
         (p, s) = invalidate_conversion_state W (p\<lparr>ip_failed_edit_gate := cancelled\<rparr>, s);
         p = (suppress_session W (p\<lparr>ip_recent_languages := []\<rparr>))\<lparr>ip_layout_in_flight := None\<rparr>;
         (was_enabled, s) = swap W m_auto_enabled (m_auto_enabled_update (\<lambda>_. False)) s
     in if \<not> was_enabled then (p, s)
        else
          let s = store W (m_last_failure_reason_update (\<lambda>_. reason)) s;
              s = store W (m_safety_paused_update (\<lambda>_. True)) s;
              (epoch, s) = swap W m_input_epoch (m_input_epoch_update (\<lambda>e. e + 1)) s;
              p = p\<lparr>ip_last_input_epoch := epoch + 1\<rparr>
          in (p, store W (m_conversion_failures_update (\<lambda>n. n + 1)) s))"

end
