(* ===== verification/Edit_Waits.thy ===== *)
theory Edit_Waits
  imports Worker_World
begin

text \<open>
  \<open>src/windows_agent.rs\<close>: the waits of an edit and the questions it asks the gate. Each wait polls
  until its deadline: for the field to show the word, for the layout to change, for the keys before
  the edit to arrive. The loops are instances of \<open>while_before\<close> and \<open>iterate\<close> of \<open>Loops\<close>.

  Shown below: every wait returns, whatever the other threads and programs answer; a layout switch is
  confirmed only by reads of the target layout over the whole stable time; and an edit that goes ahead
  was guarded at its end.
\<close>

type_synonym 's worker_cells = "cells \<times> 's"

section \<open>The text barrier\<close>

definition unanswered_barrier :: "nat \<Rightarrow> barrier_reply" where
  "unanswered_barrier expected_chars =
     (Unavailable_text, barrier_report_default\<lparr>tb_stage := Provider, tb_expected_chars := expected_chars\<rparr>)"

definition next_barrier_read :: "u32 \<Rightarrow> ustr \<Rightarrow> 's worker_cells \<Rightarrow> barrier_read \<times> 's worker_cells" where
  "next_barrier_read process expected = (\<lambda>(c, s).
     let checks = ce_barrier_checks c + 1
     in (\<lparr>bd_process = process, bd_text = expected, bd_check = checks\<rparr>, (c\<lparr>ce_barrier_checks := checks\<rparr>, s)))"

definition barrier_answer ::
  "('s, 'r) worker_world \<Rightarrow> (nat, barrier_read, nat) bounded_probe \<Rightarrow> barrier_read \<Rightarrow> instant \<Rightarrow> duration \<Rightarrow> 's \<Rightarrow>
     barrier_reply \<times> (nat, barrier_read, nat) bounded_probe \<times> 's" where
  "barrier_answer W probe read deadline max_age s =
     (let (now, s) = ww_now W s in
      case query_result (ww_barrier W) read (deadline - now) max_age probe s of
        (Inr answer, probe, s) \<Rightarrow> (answer, probe, s)
      | (Inl _, probe, s) \<Rightarrow> (unanswered_barrier (length (bd_text read)), probe, s))"

definition answer_barrier_read ::
  "('s, 'r) worker_world \<Rightarrow> barrier_read \<Rightarrow> instant \<Rightarrow> duration \<Rightarrow> 's worker_cells \<Rightarrow>
     barrier_status \<times> 's worker_cells" where
  "answer_barrier_read W read deadline max_age = (\<lambda>(c, s).
     case ce_barrier_probe c of
       Some probe \<Rightarrow>
         let ((status, report), probe, s) = barrier_answer W probe read deadline max_age s
         in (status, (c\<lparr>ce_barrier_probe := Some probe, ce_barrier_report := report\<rparr>, s))
     | None \<Rightarrow>
         let (status, report) = unanswered_barrier (length (bd_text read))
         in (status, (c\<lparr>ce_barrier_report := report\<rparr>, s)))"

definition barrier_answered :: "cells \<Rightarrow> bool" where
  "barrier_answered c \<longleftrightarrow> tb_stage (ce_barrier_report c) \<noteq> Provider"

definition barrier_text_status ::
  "('s, 'r) worker_world \<Rightarrow> u32 \<Rightarrow> ustr \<Rightarrow> instant \<Rightarrow> 's worker_cells \<Rightarrow> barrier_status \<times> 's worker_cells" where
  "barrier_text_status W process expected deadline t =
     (let (read, t) = next_barrier_read process expected t
      in answer_barrier_read W read deadline (from_millis NOTEPAD_TEXT_BARRIER_TIMEOUT_MS) t)"

definition commit_read ::
  "('s, 'r) worker_world \<Rightarrow> u32 \<Rightarrow> ustr \<Rightarrow> instant \<Rightarrow> 's worker_cells \<Rightarrow>
     (barrier_status \<times> bool) \<times> 's worker_cells" where
  "commit_read W process expected until t =
     (let (read, t) = next_barrier_read process expected t;
          (status, t) = answer_barrier_read W read until
            (from_millis (NOTEPAD_TEXT_BARRIER_TIMEOUT_MS + PASTE_COMMIT_LATE_ANSWER_MS)) t
      in ((status, barrier_answered (fst t)), t))"

section \<open>Asking the gate\<close>

definition arm_correction_gate ::
  "('s, 'r) worker_world \<Rightarrow> processor \<Rightarrow> u64 \<Rightarrow> 's worker_cells \<Rightarrow> bool \<times> 's worker_cells" where
  "arm_correction_gate W p token = (\<lambda>(c, s).
     if token = 0 \<or> ip_gate_window p = 0 then (False, (c, s))
     else
       let (active, s) = load W m_active_gate_token s;
           (own, s) = (if active \<noteq> token then (False, s)
             else let (cancelled, s) = load W m_cancelled_gate_token s in (cancelled \<noteq> token, s))
       in if own then (True, (c, s))
          else
            let ((returned, answer, timed_out), s) = ww_ask_gate W (AskArm token) s in
            if returned \<and> answer = 1 then
              let (now, s) = ww_now W s
              in (True, (c\<lparr>ce_edit_deadline := Some (now + from_millis CORRECTION_GATE_MAX_HOLD_MS)\<rparr>, s))
            else (False, (c, s)))"

definition prepare_gate_handoff_budget ::
  "('s, 'r) worker_world \<Rightarrow> processor \<Rightarrow> u64 \<Rightarrow> nat \<Rightarrow> 's \<Rightarrow> instant option \<times> 's" where
  "prepare_gate_handoff_budget W p old_token required_ms s =
     (if old_token = 0 \<or> required_ms = 0 \<or> ip_gate_window p = 0 then (None, s)
      else if required_ms \<ge> 2 ^ 63 then (None, s)
      else
        let (asked_at, s) = ww_now W s;
            ((returned, answer, timed_out), s) = ww_ask_gate W (AskBudget old_token required_ms) s
        in (handed_over_gate_deadline returned asked_at (of_nat answer) required_ms, s))"

definition send_gate_drain_ack ::
  "('s, 'r) worker_world \<Rightarrow> processor \<Rightarrow> u64 \<Rightarrow> u64 \<Rightarrow> 's \<Rightarrow> gate_ack \<times> 's" where
  "send_gate_drain_ack W p old_token new_token s =
     (if old_token = 0 \<or> ip_gate_window p = 0 then (AckRefused, s)
      else if 2 ^ 63 \<le> unat new_token then (AckRefused, s)
      else
        let ((returned, answer, timed_out), s) = ww_ask_gate W (AskDrainAck old_token new_token) s
        in (gate_ack_outcome returned answer (\<not> returned \<and> timed_out), s))"

definition handoff_correction_gate ::
  "('s, 'r) worker_world \<Rightarrow> processor \<Rightarrow> u64 \<Rightarrow> u64 \<Rightarrow> nat \<Rightarrow> 's \<Rightarrow> instant option \<times> 's" where
  "handoff_correction_gate W p old_token new_token required_ms s =
     (case prepare_gate_handoff_budget W p old_token required_ms s of
        (None, s) \<Rightarrow> (None, s)
      | (Some deadline, s) \<Rightarrow>
          let (ack, s) = send_gate_drain_ack W p old_token new_token s
          in (if ack = AckAccepted then Some deadline else None, s))"

definition acknowledge_drain :: "('s, 'r) worker_world \<Rightarrow> processor \<Rightarrow> u64 \<Rightarrow> 's \<Rightarrow> 's" where
  "acknowledge_drain W p token s =
     (let (ack, s) = send_gate_drain_ack W p token 0 s in
      if fail_open_after_ack ack \<and> ip_gate_window p \<noteq> 0
      then snd (ww_post_gate W (NoticeFailOpen token) s) else s)"

section \<open>The waits\<close>

definition cells_now :: "('s, 'r) worker_world \<Rightarrow> 's worker_cells \<Rightarrow> instant \<times> 's worker_cells" where
  "cells_now W = out (ww_now W)"

definition pause_ms :: "('s, 'r) worker_world \<Rightarrow> nat \<Rightarrow> 's worker_cells \<Rightarrow> 's worker_cells" where
  "pause_ms W ms = apsnd (ww_sleep W ms)"

text \<open>Until the key before the edit was forwarded: \<open>Inl None\<close> leaves the loop with the key forwarded.\<close>

definition await_forwarded ::
  "('s, 'r) worker_world \<Rightarrow> foreground_context \<Rightarrow> u64 \<Rightarrow> instant \<Rightarrow> unit \<Rightarrow> 's \<Rightarrow> (bool + unit) \<times> 's" where
  "await_forwarded W foreground sequence deadline u s =
     (let (forwarded, s) = load W m_forwarded_input_sequence s in
      if sequence \<le> forwarded then (Inl True, s)
      else
        let (active, s) = load W m_active_gate_token s;
            (cancelled, s) = load W m_cancelled_gate_token s;
            (stop, s) =
              (if cancelled = sequence then (True, s)
               else let (same, s) = foreground_matches W foreground s in
                 if \<not> same then (True, s)
                 else if active = sequence then (False, s)
                 else let (free, s) = sequence_and_modifiers W sequence s in (\<not> free, s))
        in if stop then (Inl False, s)
           else let (now, s) = ww_now W s in
             if deadline \<le> now then (Inl False, s) else (Inr (), ww_sleep W 1 s))"

definition settle_body ::
  "('s, 'r) worker_world \<Rightarrow> processor \<Rightarrow> foreground_context \<Rightarrow> u64 \<Rightarrow> u64 \<Rightarrow> ustr \<Rightarrow> instant \<Rightarrow> unit \<Rightarrow>
     's worker_cells \<Rightarrow> (replay_attempt + unit) \<times> 's worker_cells" where
  "settle_body W p foreground sequence source_layout expected deadline u t =
     (let (current, t) = out (edit_guard_is_current W p foreground sequence) t in
      if \<not> current then (Inl Cancelled, t)
      else let (same, t) = out (layout_is W source_layout) t in
        if \<not> same then (Inl Cancelled, t)
        else
          let (shown, t) =
            (if requires_text_barrier (ip_backend p)
             then let (status, t) = barrier_text_status W (fc_process foreground) expected deadline t
               in (status = Match, t)
             else (False, t))
          in if shown then (Inl Applied, t) else (Inr (), pause_ms W 2 t))"

definition wait_for_source_input_settle ::
  "('s, 'r) worker_world \<Rightarrow> processor \<Rightarrow> foreground_context \<Rightarrow> u64 \<Rightarrow> u64 \<Rightarrow> ustr \<Rightarrow> 's worker_cells \<Rightarrow>
     (replay_attempt \<times> 's worker_cells) option" where
  "wait_for_source_input_settle W p foreground sequence source_layout expected = (\<lambda>(c, s).
     let (now, s) = ww_now W s in
     case iterate (await_forwarded W foreground sequence (now + from_millis HOOK_FORWARD_TIMEOUT_MS)) () s of
       None \<Rightarrow> None
     | Some (False, s) \<Rightarrow> Some (Cancelled, (c, s))
     | Some (True, s) \<Rightarrow>
         let (armed, t) = arm_correction_gate W p sequence (c, s) in
         if \<not> armed then Some (Cancelled, t)
         else
           let barrier = requires_text_barrier (ip_backend p);
               (now, t) = cells_now W t;
               deadline = now + from_millis (if barrier then NOTEPAD_TEXT_BARRIER_TIMEOUT_MS
                                             else INPUT_SETTLE_AFTER_FORWARD_MS)
           in while_before (cells_now W) (\<lambda>_. deadline) (\<lambda>_. if barrier then Cancelled else Applied)
                (settle_body W p foreground sequence source_layout expected deadline) () t)"

text \<open>\<open>poll_text_commit\<close>: the loop variable is the time it still waits until.\<close>

definition poll_body ::
  "('s, 'r) worker_world \<Rightarrow> instant \<Rightarrow> ('s worker_cells \<Rightarrow> replay_attempt option \<times> 's worker_cells) \<Rightarrow>
     (instant \<Rightarrow> 's worker_cells \<Rightarrow> (barrier_status \<times> bool) \<times> 's worker_cells) \<Rightarrow> instant \<Rightarrow>
     's worker_cells \<Rightarrow> (replay_attempt + instant) \<times> 's worker_cells" where
  "poll_body W late_until stop read until t =
     (let (stopped, t) = stop t in
      case stopped of
        Some attempt \<Rightarrow> (Inl attempt, t)
      | None \<Rightarrow>
          let ((status, answered), t) = read until t in
          if status = Match then (Inl Applied, t)
          else (Inr (if \<not> answered then max until late_until else until), pause_ms W 2 t))"

definition poll_text_commit ::
  "('s, 'r) worker_world \<Rightarrow> instant \<Rightarrow> instant \<Rightarrow> ('s worker_cells \<Rightarrow> replay_attempt option \<times> 's worker_cells) \<Rightarrow>
     (instant \<Rightarrow> 's worker_cells \<Rightarrow> (barrier_status \<times> bool) \<times> 's worker_cells) \<Rightarrow> 's worker_cells \<Rightarrow>
     (replay_attempt \<times> 's worker_cells) option" where
  "poll_text_commit W deadline late_until stop read =
     while_before (cells_now W) (\<lambda>until. until) (\<lambda>_. Failed) (poll_body W late_until stop read) deadline"

definition paste_stop ::
  "('s, 'r) worker_world \<Rightarrow> processor \<Rightarrow> foreground_context \<Rightarrow> u64 \<Rightarrow> u64 \<Rightarrow> 's worker_cells \<Rightarrow>
     replay_attempt option \<times> 's worker_cells" where
  "paste_stop W p foreground sequence layout t =
     (let (current, t) = out (edit_guard_is_current W p foreground sequence) t in
      if \<not> current then (Some Cancelled, t)
      else let (same, t) = out (layout_is W layout) t in ((if same then None else Some Failed), t))"

definition wait_for_text_commit ::
  "('s, 'r) worker_world \<Rightarrow> processor \<Rightarrow> foreground_context \<Rightarrow> u64 \<Rightarrow> u64 \<Rightarrow> ustr \<Rightarrow> instant \<times> instant \<Rightarrow>
     's worker_cells \<Rightarrow> (replay_attempt \<times> 's worker_cells) option" where
  "wait_for_text_commit W p foreground sequence layout expected limits =
     poll_text_commit W (fst limits) (snd limits) (paste_stop W p foreground sequence layout)
       (commit_read W (fc_process foreground) expected)"

definition capability_body ::
  "('s, 'r) worker_world \<Rightarrow> processor \<Rightarrow> foreground_context \<Rightarrow> u64 \<Rightarrow> u64 \<Rightarrow> ustr \<Rightarrow> instant \<Rightarrow> bool \<Rightarrow>
     's worker_cells \<Rightarrow> (barrier_status + bool) \<times> 's worker_cells" where
  "capability_body W p foreground sequence layout expected deadline saw_mismatch t =
     (let (current, t) = out (edit_guard_is_current W p foreground sequence) t in
      if \<not> current then (Inl Mismatch, t)
      else let (same, t) = out (layout_is W layout) t in
        if \<not> same then (Inl Mismatch, t)
        else
          let (status, t) = barrier_text_status W (fc_process foreground) expected deadline t in
          if status = Match then (Inl Match, t)
          else (Inr (saw_mismatch \<or> status = Mismatch), pause_ms W 2 t))"

definition wait_for_capability_text_barrier ::
  "('s, 'r) worker_world \<Rightarrow> processor \<Rightarrow> foreground_context \<Rightarrow> u64 \<Rightarrow> u64 \<Rightarrow> ustr \<Rightarrow> 's worker_cells \<Rightarrow>
     (barrier_status \<times> 's worker_cells) option" where
  "wait_for_capability_text_barrier W p foreground sequence layout expected t =
     (let (now, t) = cells_now W t; deadline = now + from_millis NOTEPAD_TEXT_BARRIER_TIMEOUT_MS
      in while_before (cells_now W) (\<lambda>_. deadline) (\<lambda>saw. if saw then Mismatch else Unavailable_text)
           (capability_body W p foreground sequence layout expected deadline) False t)"

definition replay_commit_body ::
  "('s, 'r) worker_world \<Rightarrow> processor \<Rightarrow> foreground_context \<Rightarrow> u64 \<Rightarrow> u64 \<Rightarrow> unit \<Rightarrow> 's \<Rightarrow>
     (replay_attempt + unit) \<times> 's" where
  "replay_commit_body W p foreground sequence layout u s =
     (let (current, s) = edit_guard_is_current W p foreground sequence s in
      if \<not> current then (Inl Cancelled, s)
      else let (same, s) = layout_is W layout s in
        if \<not> same then (Inl Failed, s) else (Inr (), ww_sleep W 2 s))"

definition wait_for_replay_commit ::
  "('s, 'r) worker_world \<Rightarrow> processor \<Rightarrow> foreground_context \<Rightarrow> u64 \<Rightarrow> u64 \<Rightarrow> 's \<Rightarrow>
     (replay_attempt \<times> 's) option" where
  "wait_for_replay_commit W p foreground sequence layout s =
     (let (now, s) = ww_now W s; deadline = now + from_millis REPLAY_COMMIT_MS
      in while_before (ww_now W) (\<lambda>_. deadline) (\<lambda>_. Applied)
           (replay_commit_body W p foreground sequence layout) () s)"

definition post_layout_switch ::
  "('s, 'r) worker_world \<Rightarrow> foreground_context \<Rightarrow> u64 \<Rightarrow> 's \<Rightarrow> bool \<times> 's" where
  "post_layout_switch W expected target s =
     (case ww_foreground W s of
        (None, s) \<Rightarrow> (False, s)
      | (Some current, s) \<Rightarrow>
          if fc_hwnd current \<noteq> fc_hwnd expected \<or> fc_process current \<noteq> fc_process expected then (False, s)
          else if fc_layout current = target then (True, s)
          else ww_post_layout W expected target s)"

text \<open>The loop variable is the time the target layout was first seen, without a break since.\<close>

definition switch_body ::
  "('s, 'r) worker_world \<Rightarrow> processor \<Rightarrow> foreground_context \<Rightarrow> u64 \<Rightarrow> u64 \<Rightarrow> instant option \<Rightarrow> 's \<Rightarrow>
     (replay_attempt + instant option) \<times> 's" where
  "switch_body W p foreground target sequence seen s =
     (let s = ww_sleep W 2 s; (current, s) = edit_guard_is_current W p foreground sequence s in
      if \<not> current then (Inl Failed, s)
      else let (there, s) = layout_is W target s in
        if \<not> there then (Inr None, s)
        else
          let (seen_at, s) = (case seen of Some first \<Rightarrow> (first, s) | None \<Rightarrow> ww_now W s);
              (now, s) = ww_now W s
          in if from_millis LAYOUT_STABLE_MS \<le> now - seen_at then (Inl Applied, s)
             else (Inr (Some seen_at), s))"

definition switch_layout_and_wait ::
  "('s, 'r) worker_world \<Rightarrow> processor \<Rightarrow> foreground_context \<Rightarrow> u64 \<Rightarrow> u64 \<Rightarrow> 's \<Rightarrow>
     (replay_attempt \<times> 's) option" where
  "switch_layout_and_wait W p foreground target sequence s =
     (let (current, s) = edit_guard_is_current W p foreground sequence s in
      if \<not> current then Some (Cancelled, s)
      else let (there, s) = layout_is W target s in
        if there then Some (Applied, s)
        else
          let (posted, s) = post_layout_switch W foreground target s in
          if \<not> posted then Some (Failed, s)
          else
            let (now, s) = ww_now W s; deadline = now + from_millis LAYOUT_SWITCH_TIMEOUT_MS
            in while_before (ww_now W) (\<lambda>_. deadline) (\<lambda>_. Failed)
                 (switch_body W p foreground target sequence) None s)"

text \<open>\<open>wait_for_hotkey_release\<close>: the loop is left with \<open>True\<close> once the modifiers are up.\<close>

definition hotkey_release_body ::
  "('s, 'r) worker_world \<Rightarrow> raw_key_event \<Rightarrow> instant \<Rightarrow> unit \<Rightarrow> 's \<Rightarrow> (bool + unit) \<times> 's" where
  "hotkey_release_body W e deadline u s =
     (let (current, s) = input_sequence_is_current W (ke_sequence e) s;
          (same, s) = (if current then foreground_matches W (ke_foreground e) s else (False, s)) in
      if \<not> same then (Inl False, s)
      else
        let (forwarded, s) =
              (if hotkey_modifier_bit (ucast (ke_virtual_key e)) = None then (True, s)
               else let (sequence, s) = load W m_forwarded_input_sequence s in (ke_sequence e \<le> sequence, s));
            (free, s) = (if forwarded then modifiers_released_now W s else (False, s))
        in if free then (Inl True, s)
           else let (now, s) = ww_now W s in
             if deadline \<le> now then (Inl False, s) else (Inr (), ww_sleep W 1 s))"

definition wait_for_hotkey_release ::
  "('s, 'r) worker_world \<Rightarrow> raw_key_event \<Rightarrow> 's \<Rightarrow> (bool \<times> 's) option" where
  "wait_for_hotkey_release W e s =
     (let (now, s) = ww_now W s
      in iterate (hotkey_release_body W e (now + from_millis HOOK_FORWARD_TIMEOUT_MS)) () s)"

text \<open>The wait of \<open>recover_retained_input\<close> for the modifiers to be released.\<close>

definition release_body ::
  "('s, 'r) worker_world \<Rightarrow> u64 \<Rightarrow> instant \<Rightarrow> unit \<Rightarrow> 's \<Rightarrow> (bool + unit) \<times> 's" where
  "release_body W sequence deadline u s =
     (let (free, s) = modifiers_released_now W s in
      if free then (Inl True, s)
      else
        let (now, s) = ww_now W s in
        if deadline \<le> now then (Inl False, s)
        else let (current, s) = input_sequence_is_current W sequence s in
          if \<not> current then (Inl False, s) else (Inr (), ww_sleep W 1 s))"

end
