(* ===== verification/World_Laws.thy ===== *)
theory World_Laws
  imports Edit_Waits
begin

text \<open>
  What a call into the world keeps, and that the waits of \<open>Edit_Waits\<close> return.

  \<open>world_quiet W I\<close> says that no call other than to the text field, the clipboard and \<open>SendInput\<close> leaves the
  set of states \<open>I\<close>. Taken for \<open>I\<close> "the keys sent so far are \<open>xs\<close>" it says that such a call sends no key;
  for "it is at least \<open>n\<close> o'clock", that time does not run back; for "the field shows no selection of
  the agent", that such a call selects nothing. Every function built from such calls stays in \<open>I\<close> as
  well: these are the lemmas collected in \<open>keeps\<close>.
\<close>

section \<open>Laws\<close>

definition provider_quiet :: "('s, 'q, 'c, 'k, 'v) provider_system \<Rightarrow> 's set \<Rightarrow> bool" where
  "provider_quiet P I \<longleftrightarrow>
     (\<forall>s. s \<in> I \<longrightarrow> snd (pv_now P s) \<in> I \<and> snd (pv_channel P s) \<in> I \<and> snd (pv_respawn P s) \<in> I
        \<and> (\<forall>q k c. snd (pv_try_send P q k c s) \<in> I) \<and> (\<forall>c d. snd (pv_receive P c d s) \<in> I))"

definition world_quiet :: "('s, 'r) worker_world \<Rightarrow> 's set \<Rightarrow> bool" where
  "world_quiet W I \<longleftrightarrow>
     provider_quiet (ww_barrier W) I \<and> provider_quiet (ww_privacy W) I \<and> provider_quiet (ww_profiles W) I
     \<and> (\<forall>s. s \<in> I \<longrightarrow>
          snd (ww_now W s) \<in> I \<and> (\<forall>ms. ww_sleep W ms s \<in> I) \<and> snd (ww_native_layouts W s) \<in> I
          \<and> (\<forall>f. snd (ww_atomic W f s) \<in> I) \<and> snd (ww_foreground W s) \<in> I
          \<and> (\<forall>k. snd (ww_key_held W k s) \<in> I) \<and> (\<forall>pid. snd (ww_process_facts W pid s) \<in> I)
          \<and> (\<forall>f l. snd (ww_post_layout W f l s) \<in> I) \<and> (\<forall>q. snd (ww_ask_gate W q s) \<in> I)
          \<and> (\<forall>n. snd (ww_post_gate W n s) \<in> I) \<and> snd (ww_pacer W s) \<in> I \<and> ww_pacer_wait W s \<in> I
          \<and> (\<forall>e m. snd (ww_translate W e m s) \<in> I) \<and> (\<forall>f. ww_lexicon W f s \<in> I)
          \<and> ww_post_offer W s \<in> I \<and> (\<forall>c. ww_sound W c s \<in> I) \<and> snd (ww_full_screen W s) \<in> I)"

named_theorems keeps \<open>the world after an operation satisfies what the world before it did\<close>

lemma provider_quietD [keeps]:
  assumes "provider_quiet P I" "s \<in> I"
  shows "snd (pv_now P s) \<in> I" "snd (pv_channel P s) \<in> I" "snd (pv_respawn P s) \<in> I"
    "snd (pv_try_send P q k c s) \<in> I" "snd (pv_receive P c d s) \<in> I"
  using assms by (simp_all add: provider_quiet_def)

lemma quiet_providers [keeps]:
  assumes "world_quiet W I"
  shows "provider_quiet (ww_barrier W) I" "provider_quiet (ww_privacy W) I" "provider_quiet (ww_profiles W) I"
  using assms by (simp_all add: world_quiet_def)

lemma quietD [keeps]:
  assumes "world_quiet W I" "s \<in> I"
  shows "snd (ww_now W s) \<in> I" "ww_sleep W ms s \<in> I" "snd (ww_native_layouts W s) \<in> I"
    "snd (ww_atomic W f s) \<in> I" "snd (ww_foreground W s) \<in> I" "snd (ww_key_held W k s) \<in> I"
    "snd (ww_process_facts W pid s) \<in> I" "snd (ww_post_layout W fg l s) \<in> I" "snd (ww_ask_gate W q s) \<in> I"
    "snd (ww_post_gate W n s) \<in> I" "snd (ww_pacer W s) \<in> I" "ww_pacer_wait W s \<in> I"
    "snd (ww_translate W e m s) \<in> I" "ww_lexicon W lf s \<in> I" "ww_post_offer W s \<in> I" "ww_sound W cue s \<in> I"
    "snd (ww_full_screen W s) \<in> I"
  using assms by (simp_all add: world_quiet_def)

section \<open>Providers\<close>

lemma replace_if_stuck_keeps [keeps]:
  assumes "provider_quiet P I" "s \<in> I"
  shows "snd (snd (replace_if_stuck P p s)) \<in> I"
  using assms
  by (auto simp: replace_if_stuck_def Let_def case_prod_unfold split: option.splits intro!: keeps)

lemma give_up_pending_keeps [keeps]:
  assumes "provider_quiet P I" "s \<in> I"
  shows "snd (give_up_pending P key age p s) \<in> I"
  using assms by (auto simp: give_up_pending_def Let_def case_prod_unfold split: option.splits intro!: keeps)

lemma submit_request_keeps [keeps]:
  assumes "provider_quiet P I" "s \<in> I"
  shows "snd (snd (submit_request P key p s)) \<in> I"
  using assms
  by (auto simp: submit_request_def Let_def case_prod_unfold split: send_outcome.splits intro!: keeps)

lemma await_reply_keeps [keeps]:
  assumes "provider_quiet P I" "s \<in> I"
  shows "snd (snd (await_reply P wait age r p s)) \<in> I"
  using assms
  by (auto simp: await_reply_def Let_def case_prod_unfold split: receive_outcome.splits intro!: keeps)

lemma query_result_keeps [keeps]:
  assumes "provider_quiet P I" "s \<in> I"
  shows "snd (snd (query_result P key wait age p s)) \<in> I"
  using assms
  by (auto simp: query_result_def Let_def case_prod_unfold split: option.splits sum.splits intro!: keeps)

lemma profile_snapshot_keeps [keeps]:
  "provider_quiet P I \<Longrightarrow> s \<in> I \<Longrightarrow> snd (profile_snapshot P k s) \<in> I"
  by (auto simp: profile_snapshot_def Let_def case_prod_unfold intro!: keeps)

section \<open>Reads\<close>

lemma ran_out [keeps]: "snd (f (snd t)) \<in> I \<Longrightarrow> snd (snd (out f t)) \<in> I"
  by (simp add: out_def Let_def case_prod_unfold)

lemma load_keeps [keeps]: "world_quiet W I \<Longrightarrow> s \<in> I \<Longrightarrow> snd (load W f s) \<in> I"
  by (simp add: load_def Let_def case_prod_unfold keeps)

lemma store_keeps [keeps]: "world_quiet W I \<Longrightarrow> s \<in> I \<Longrightarrow> store W f s \<in> I"
  by (simp add: store_def keeps)

lemma swap_keeps [keeps]: "world_quiet W I \<Longrightarrow> s \<in> I \<Longrightarrow> snd (swap W f u s) \<in> I"
  by (simp add: swap_def Let_def case_prod_unfold keeps)

lemma note_metric_keeps [keeps]: "world_quiet W I \<Longrightarrow> s \<in> I \<Longrightarrow> note_metric W f s \<in> I"
  by (simp add: note_metric_def keeps)

lemma all_released_keeps [keeps]: "world_quiet W I \<Longrightarrow> s \<in> I \<Longrightarrow> snd (all_released W ks s) \<in> I"
  by (induction ks arbitrary: s) (auto simp: Let_def case_prod_unfold intro!: keeps)

lemma modifiers_released_keeps [keeps]: "world_quiet W I \<Longrightarrow> s \<in> I \<Longrightarrow> snd (modifiers_released_now W s) \<in> I"
  by (simp add: modifiers_released_now_def keeps del: all_released.simps)

lemma foreground_matches_keeps [keeps]: "world_quiet W I \<Longrightarrow> s \<in> I \<Longrightarrow> snd (foreground_matches W f s) \<in> I"
  by (simp add: foreground_matches_def Let_def case_prod_unfold keeps)

lemma input_sequence_keeps [keeps]: "world_quiet W I \<Longrightarrow> s \<in> I \<Longrightarrow> snd (input_sequence_is_current W q s) \<in> I"
  by (simp add: input_sequence_is_current_def Let_def case_prod_unfold keeps)

lemma sequence_and_modifiers_keeps [keeps]: "world_quiet W I \<Longrightarrow> s \<in> I \<Longrightarrow> snd (sequence_and_modifiers W q s) \<in> I"
  by (simp add: sequence_and_modifiers_def Let_def case_prod_unfold keeps)

lemma cancelled_or_new_epoch_keeps [keeps]:
  "world_quiet W I \<Longrightarrow> s \<in> I \<Longrightarrow> snd (gate_cancelled_or_new_epoch W p q s) \<in> I"
  by (simp add: gate_cancelled_or_new_epoch_def Let_def case_prod_unfold keeps)

lemma pre_forward_input_guard_keeps [keeps]:
  "world_quiet W I \<Longrightarrow> s \<in> I \<Longrightarrow> snd (pre_forward_input_guard_is_current W p q s) \<in> I"
  by (simp add: pre_forward_input_guard_is_current_def Let_def case_prod_unfold keeps)

lemma input_guard_keeps [keeps]: "world_quiet W I \<Longrightarrow> s \<in> I \<Longrightarrow> snd (input_guard_is_current W p q s) \<in> I"
  by (simp add: input_guard_is_current_def Let_def case_prod_unfold keeps)

lemma pre_forward_guard_keeps [keeps]:
  "world_quiet W I \<Longrightarrow> s \<in> I \<Longrightarrow> snd (pre_forward_guard_is_current W p f q s) \<in> I"
  by (simp add: pre_forward_guard_is_current_def Let_def case_prod_unfold keeps)

lemma edit_guard_keeps [keeps]: "world_quiet W I \<Longrightarrow> s \<in> I \<Longrightarrow> snd (edit_guard_is_current W p f q s) \<in> I"
  by (simp add: edit_guard_is_current_def Let_def case_prod_unfold keeps)

lemma layout_is_keeps [keeps]: "world_quiet W I \<Longrightarrow> s \<in> I \<Longrightarrow> snd (layout_is W l s) \<in> I"
  by (simp add: layout_is_def Let_def case_prod_unfold keeps)

lemma resolved_profiles_keeps [keeps]: "world_quiet W I \<Longrightarrow> s \<in> I \<Longrightarrow> snd (resolved_profiles W p s) \<in> I"
  by (simp add: resolved_profiles_def keeps)

lemma language_for_layout_keeps [keeps]: "world_quiet W I \<Longrightarrow> s \<in> I \<Longrightarrow> snd (language_for_layout W p l s) \<in> I"
  by (simp add: language_for_layout_def Let_def case_prod_unfold keeps)

lemma find_layout_keeps [keeps]: "world_quiet W I \<Longrightarrow> s \<in> I \<Longrightarrow> snd (find_layout W p l s) \<in> I"
  by (auto simp: find_layout_def Let_def case_prod_unfold keeps split: option.splits)

lemma inventory_keeps [keeps]: "world_quiet W I \<Longrightarrow> s \<in> I \<Longrightarrow> snd (profile_inventory_is_current W p s) \<in> I"
  by (auto simp: profile_inventory_is_current_def inventory_is_current_def Let_def case_prod_unfold keeps split: option.splits)

lemma pending_profiles_keeps [keeps]: "world_quiet W I \<Longrightarrow> s \<in> I \<Longrightarrow> snd (pending_profiles_match W p n s) \<in> I"
  by (simp add: pending_profiles_match_def Let_def case_prod_unfold keeps)

section \<open>The text barrier and the gate\<close>

lemma barrier_answer_keeps [keeps]: "world_quiet W I \<Longrightarrow> s \<in> I \<Longrightarrow> snd (snd (barrier_answer W probe r d a s)) \<in> I"
  by (auto simp: barrier_answer_def Let_def case_prod_unfold split: sum.splits intro!: keeps)

lemma next_barrier_read_world [simp]: "snd (snd (next_barrier_read process expected t)) = snd t"
  by (simp add: next_barrier_read_def Let_def case_prod_unfold)

lemma answer_barrier_read_keeps [keeps]:
  "world_quiet W I \<Longrightarrow> snd t \<in> I \<Longrightarrow> snd (snd (answer_barrier_read W r d a t)) \<in> I"
  by (auto simp: answer_barrier_read_def Let_def case_prod_unfold split: option.splits intro!: keeps)

lemma barrier_text_status_keeps [keeps]:
  "world_quiet W I \<Longrightarrow> snd t \<in> I \<Longrightarrow> snd (snd (barrier_text_status W process expected d t)) \<in> I"
  by (simp add: barrier_text_status_def Let_def case_prod_unfold keeps)

lemma commit_read_keeps [keeps]:
  "world_quiet W I \<Longrightarrow> snd t \<in> I \<Longrightarrow> snd (snd (commit_read W process expected d t)) \<in> I"
  by (simp add: commit_read_def Let_def case_prod_unfold keeps)

lemma arm_gate_keeps [keeps]:
  "world_quiet W I \<Longrightarrow> snd t \<in> I \<Longrightarrow> snd (snd (arm_correction_gate W p token t)) \<in> I"
  by (auto simp: arm_correction_gate_def Let_def case_prod_unfold intro!: keeps)

lemma prepare_budget_keeps [keeps]:
  "world_quiet W I \<Longrightarrow> s \<in> I \<Longrightarrow> snd (prepare_gate_handoff_budget W p token ms s) \<in> I"
  by (simp add: prepare_gate_handoff_budget_def Let_def case_prod_unfold keeps)

lemma send_ack_keeps [keeps]: "world_quiet W I \<Longrightarrow> s \<in> I \<Longrightarrow> snd (send_gate_drain_ack W p old new s) \<in> I"
  by (simp add: send_gate_drain_ack_def Let_def case_prod_unfold keeps)

lemma handoff_keeps [keeps]: "world_quiet W I \<Longrightarrow> s \<in> I \<Longrightarrow> snd (handoff_correction_gate W p old new ms s) \<in> I"
  by (auto simp: handoff_correction_gate_def Let_def case_prod_unfold split: option.splits intro!: keeps)

lemma acknowledge_drain_keeps [keeps]: "world_quiet W I \<Longrightarrow> s \<in> I \<Longrightarrow> acknowledge_drain W p token s \<in> I"
  by (auto simp: acknowledge_drain_def Let_def case_prod_unfold intro!: keeps)

lemma cells_now_keeps [keeps]: "world_quiet W I \<Longrightarrow> snd t \<in> I \<Longrightarrow> snd (snd (cells_now W t)) \<in> I"
  by (simp add: cells_now_def keeps)

lemma pause_keeps [keeps]: "world_quiet W I \<Longrightarrow> snd t \<in> I \<Longrightarrow> snd (pause_ms W ms t) \<in> I"
  by (simp add: pause_ms_def keeps)


section \<open>The waits\<close>

lemma iterate_keeps:
  assumes "iterate body a s = Some (r, s')" "s \<in> J" "\<And>a s. s \<in> J \<Longrightarrow> snd (body a s) \<in> J"
  shows "s' \<in> J"
  using assms(2,3) by (intro iterate_ends [OF assms(1), of "\<lambda>_ s. s \<in> J" "\<lambda>_ s. s \<in> J"]) (auto, (metis snd_conv)+)

lemma while_before_keeps:
  assumes "while_before now deadline late body a s = Some (r, s')" "s \<in> J"
    and "\<And>s. s \<in> J \<Longrightarrow> snd (now s) \<in> J" "\<And>a s. s \<in> J \<Longrightarrow> snd (body a s) \<in> J"
  shows "s' \<in> J"
  using assms(1,2) unfolding while_before_def
  by (rule iterate_keeps) (auto simp: before_def Let_def case_prod_unfold intro: assms(3,4))

lemma await_forwarded_keeps [keeps]: "world_quiet W I \<Longrightarrow> s \<in> I \<Longrightarrow> snd (await_forwarded W f q d u s) \<in> I"
  by (simp add: await_forwarded_def Let_def case_prod_unfold keeps)

lemma settle_body_keeps [keeps]: "world_quiet W I \<Longrightarrow> snd t \<in> I \<Longrightarrow> snd (snd (settle_body W p f q l x d u t)) \<in> I"
  by (simp add: settle_body_def Let_def case_prod_unfold keeps)

lemma paste_stop_keeps [keeps]: "world_quiet W I \<Longrightarrow> snd t \<in> I \<Longrightarrow> snd (snd (paste_stop W p f q l t)) \<in> I"
  by (simp add: paste_stop_def Let_def case_prod_unfold keeps)

lemma poll_body_keeps [keeps]:
  assumes "world_quiet W I" "snd t \<in> I" "\<And>t. snd t \<in> I \<Longrightarrow> snd (snd (stop t)) \<in> I"
    "\<And>until t. snd t \<in> I \<Longrightarrow> snd (snd (read until t)) \<in> I"
  shows "snd (snd (poll_body W late stop read until t)) \<in> I"
proof -
  have "snd (snd (stop t)) \<in> I" using assms(2,3) by blast
  moreover from this have "snd (snd (read until (snd (stop t)))) \<in> I" by (rule assms(4))
  ultimately show ?thesis
    using assms(1) by (auto simp: poll_body_def Let_def case_prod_unfold split: option.splits intro!: keeps)
qed

lemma capability_body_keeps [keeps]:
  "world_quiet W I \<Longrightarrow> snd t \<in> I \<Longrightarrow> snd (snd (capability_body W p f q l x d m t)) \<in> I"
  by (simp add: capability_body_def Let_def case_prod_unfold keeps)

lemma replay_commit_body_keeps [keeps]: "world_quiet W I \<Longrightarrow> s \<in> I \<Longrightarrow> snd (replay_commit_body W p f q l u s) \<in> I"
  by (simp add: replay_commit_body_def Let_def case_prod_unfold keeps)

lemma post_layout_switch_keeps [keeps]: "world_quiet W I \<Longrightarrow> s \<in> I \<Longrightarrow> snd (post_layout_switch W f l s) \<in> I"
  by (auto simp: post_layout_switch_def case_prod_unfold split: option.splits intro!: keeps)

lemma switch_body_keeps [keeps]: "world_quiet W I \<Longrightarrow> s \<in> I \<Longrightarrow> snd (switch_body W p f l q seen s) \<in> I"
  by (auto simp: switch_body_def Let_def case_prod_unfold split: option.splits intro!: keeps)

lemma hotkey_release_body_keeps [keeps]: "world_quiet W I \<Longrightarrow> s \<in> I \<Longrightarrow> snd (hotkey_release_body W e d u s) \<in> I"
  by (simp add: hotkey_release_body_def Let_def case_prod_unfold keeps)

lemma release_body_keeps [keeps]: "world_quiet W I \<Longrightarrow> s \<in> I \<Longrightarrow> snd (release_body W q d u s) \<in> I"
  by (simp add: release_body_def Let_def case_prod_unfold keeps)

lemma settle_wait_keeps:
  assumes "wait_for_source_input_settle W p f q l x t = Some (r, t')" "world_quiet W I" "snd t \<in> I"
  shows "snd t' \<in> I"
proof -
  obtain c s where t: "t = (c, s)" by fastforce
  let ?deadline = "fst (ww_now W s) + from_millis HOOK_FORWARD_TIMEOUT_MS"
  obtain forwarded s1 where
    fw: "iterate (await_forwarded W f q ?deadline) () (snd (ww_now W s)) = Some (forwarded, s1)"
    using assms(1) by (cases "iterate (await_forwarded W f q ?deadline) () (snd (ww_now W s))")
      (auto simp: t wait_for_source_input_settle_def Let_def case_prod_unfold)
  have s1: "s1 \<in> I"
    by (rule iterate_keeps [OF fw]) (use assms(2,3) t in \<open>auto intro: keeps\<close>)
  obtain armed t1 where arm: "arm_correction_gate W p q (c, s1) = (armed, t1)" by (metis surj_pair)
  then have t1: "snd t1 \<in> I" using arm_gate_keeps [OF assms(2), of "(c, s1)" p q] s1 by simp
  show ?thesis
  proof (cases "forwarded \<and> armed")
    case True
    let ?b = "requires_text_barrier (ip_backend p)"
    let ?d = "fst (cells_now W t1) + from_millis (if ?b then NOTEPAD_TEXT_BARRIER_TIMEOUT_MS else INPUT_SETTLE_AFTER_FORWARD_MS)"
    have "while_before (cells_now W) (\<lambda>_. ?d) (\<lambda>_. if ?b then Cancelled else Applied)
        (settle_body W p f q l x ?d) () (snd (cells_now W t1)) = Some (r, t')"
      using assms(1) fw arm True by (simp add: t wait_for_source_input_settle_def Let_def case_prod_unfold)
    from while_before_keeps [OF this, of "{t. snd t \<in> I}"] show ?thesis
      using t1 assms(2) by (auto intro: keeps)
  next
    case False
    then show ?thesis
      using assms(1) fw arm s1 t1
      by (auto simp: t wait_for_source_input_settle_def Let_def case_prod_unfold split: if_splits bool.splits)
  qed
qed

lemma text_commit_keeps:
  assumes "wait_for_text_commit W p f q l x limits t = Some (r, t')" "world_quiet W I" "snd t \<in> I"
  shows "snd t' \<in> I"
  using while_before_keeps [OF assms(1) [unfolded wait_for_text_commit_def poll_text_commit_def], of "{t. snd t \<in> I}"] assms(2,3)
  by (auto intro!: keeps)

lemma capability_barrier_keeps:
  assumes "wait_for_capability_text_barrier W p f q l x t = Some (r, t')" "world_quiet W I" "snd t \<in> I"
  shows "snd t' \<in> I"
  using while_before_keeps [OF assms(1) [unfolded wait_for_capability_text_barrier_def Let_def case_prod_unfold],
      of "{t. snd t \<in> I}"] assms(2,3)
  by (auto intro!: keeps)

lemma replay_commit_keeps:
  assumes "wait_for_replay_commit W p f q l s = Some (r, s')" "world_quiet W I" "s \<in> I"
  shows "s' \<in> I"
  using while_before_keeps [OF assms(1) [unfolded wait_for_replay_commit_def Let_def case_prod_unfold], of I] assms(2,3)
  by (auto intro!: keeps)

lemma switch_layout_keeps:
  assumes "switch_layout_and_wait W p f l q s = Some (r, s')" "world_quiet W I" "s \<in> I"
  shows "s' \<in> I"
proof -
  have loop: "s' \<in> I" if "while_before (ww_now W) d late (switch_body W p f l q) None s0 = Some (r, s')" "s0 \<in> I"
    for d late s0
    by (rule while_before_keeps [OF that]) (use assms(2) in \<open>auto intro: keeps\<close>)
  show ?thesis
    using assms by (auto simp: switch_layout_and_wait_def Let_def case_prod_unfold split: if_splits intro!: keeps elim!: loop)
qed

lemma hotkey_release_keeps:
  assumes "wait_for_hotkey_release W e s = Some (r, s')" "world_quiet W I" "s \<in> I"
  shows "s' \<in> I"
  using iterate_keeps [OF assms(1) [unfolded wait_for_hotkey_release_def Let_def case_prod_unfold], of I] assms(2,3)
  by (auto intro!: keeps)

section \<open>The waits return\<close>

text \<open>What is assumed of the clock: no call turns it back, a reading is not earlier than the call, and a
  sleep lasts at least as long as it was asked to.\<close>

definition world_clock :: "('s, 'r) worker_world \<Rightarrow> ('s \<Rightarrow> instant) \<Rightarrow> bool" where
  "world_clock W clock \<longleftrightarrow>
     (\<forall>n. world_quiet W {s. n \<le> clock s}) \<and> (\<forall>s. clock s \<le> fst (ww_now W s))
     \<and> (\<forall>ms s. clock s + from_millis ms \<le> clock (ww_sleep W ms s))"

lemma world_clock_quiet: "world_clock W clock \<Longrightarrow> world_quiet W {s. n \<le> clock s}"
  by (simp add: world_clock_def)

lemma sleep_later:
  assumes "world_clock W clock" "s \<in> {s. n \<le> clock s}" "0 < ms"
  shows "n < clock (ww_sleep W ms s)"
proof -
  have "clock s + from_millis ms \<le> clock (ww_sleep W ms s)" "0 < from_millis ms"
    using assms(1,3) by (simp_all add: world_clock_def from_millis_def)
  then show ?thesis using assms(2) by simp
qed

lemma worldly_returns:
  assumes clock: "world_clock W clock"
    and step: "\<And>a s a' s'. body a s = (Inr a', s') \<Longrightarrow> clock s < clock s' \<and> deadline a' \<le> max (deadline a) limit"
  shows "\<exists>r s'. while_before (ww_now W) deadline late body a s = Some (r, s')"
proof (rule while_before_returns [where clock = clock and limit = "max (deadline a) limit"])
  show "clock s \<le> fst (ww_now W s) \<and> clock s \<le> clock (snd (ww_now W s))" for s
    using clock quietD(1) [OF world_clock_quiet [OF clock, of "clock s"], of s] by (simp add: world_clock_def)
qed (use step in fastforce)+

lemma celled_returns:
  assumes clock: "world_clock W clock"
    and step: "\<And>a t a' t'. body a t = (Inr a', t') \<Longrightarrow> clock (snd t) < clock (snd t') \<and> deadline a' \<le> max (deadline a) limit"
  shows "\<exists>r t'. while_before (cells_now W) deadline late body a t = Some (r, t')"
proof (rule while_before_returns [where clock = "clock \<circ> snd" and limit = "max (deadline a) limit"])
  show "(clock \<circ> snd) t \<le> fst (cells_now W t) \<and> (clock \<circ> snd) t \<le> (clock \<circ> snd) (snd (cells_now W t))" for t
    using clock quietD(1) [OF world_clock_quiet [OF clock, of "clock (snd t)"], of "snd t"]
    by (simp add: world_clock_def cells_now_def out_def Let_def case_prod_unfold)
qed (use step in fastforce)+

lemma timed_loop_returns:
  assumes step: "\<And>a s a' s'. body a s = (Inr a', s') \<Longrightarrow> clock s < clock s' \<and> clock s < (deadline :: nat)"
  shows "\<exists>r s'. iterate body a s = Some (r, s')"
  by (rule iterate_returns [where I = "\<lambda>_ _. True" and m = "\<lambda>_ s. deadline - clock s"])
    (use step in \<open>auto intro: diff_less_mono2\<close>)

lemma clocked:
  assumes "world_clock W clock"
  obtains I where "world_quiet W I" "s \<in> I" "\<And>X. X \<in> I \<Longrightarrow> clock s \<le> clock X" "\<And>X. X \<in> I \<Longrightarrow> clock s \<le> fst (ww_now W X)"
    "\<And>X ms. X \<in> I \<Longrightarrow> 0 < ms \<Longrightarrow> clock s < clock (ww_sleep W ms X)"
proof
  show "world_quiet W {x. clock s \<le> clock x}" using assms by (rule world_clock_quiet)
  show "clock s \<le> fst (ww_now W X)" if "X \<in> {x. clock s \<le> clock x}" for X
    using that assms unfolding world_clock_def by (meson le_trans mem_Collect_eq)
  show "clock s < clock (ww_sleep W ms X)" if "X \<in> {x. clock s \<le> clock x}" "0 < ms" for X ms
    using that by (rule sleep_later [OF assms])
qed simp_all

lemma await_forwarded_later:
  assumes "world_clock W clock" "await_forwarded W f q d u s = (Inr a', s')"
  shows "clock s < clock s' \<and> clock s < d"
proof (rule clocked [OF assms(1), of s])
  fix I
  assume q: "world_quiet W I" "s \<in> I" and now: "\<And>X. X \<in> I \<Longrightarrow> clock s \<le> fst (ww_now W X)"
    and sleep: "\<And>X ms. X \<in> I \<Longrightarrow> 0 < ms \<Longrightarrow> clock s < clock (ww_sleep W ms X)"
  have "d \<le> fst (ww_now W X)" if "X \<in> I" "d \<le> clock s" for X using now [OF that(1)] that(2) by simp
  then have "\<not> d \<le> clock s"
    using assms(2) q by (auto simp: await_forwarded_def Let_def case_prod_unfold keeps split: if_splits)
  moreover have "clock s < clock s'"
    using assms(2) q sleep by (auto simp: await_forwarded_def Let_def case_prod_unfold keeps split: if_splits)
  ultimately show ?thesis by simp
qed

lemma hotkey_release_later:
  assumes "world_clock W clock" "hotkey_release_body W e d u s = (Inr a', s')"
  shows "clock s < clock s' \<and> clock s < d"
proof (rule clocked [OF assms(1), of s])
  fix I
  assume q: "world_quiet W I" "s \<in> I" and now: "\<And>X. X \<in> I \<Longrightarrow> clock s \<le> fst (ww_now W X)"
    and sleep: "\<And>X ms. X \<in> I \<Longrightarrow> 0 < ms \<Longrightarrow> clock s < clock (ww_sleep W ms X)"
  have "d \<le> fst (ww_now W X)" if "X \<in> I" "d \<le> clock s" for X using now [OF that(1)] that(2) by simp
  then have "\<not> d \<le> clock s"
    using assms(2) q by (auto simp: hotkey_release_body_def Let_def case_prod_unfold keeps split: if_splits)
  moreover have "clock s < clock s'"
    using assms(2) q sleep by (auto simp: hotkey_release_body_def Let_def case_prod_unfold keeps split: if_splits)
  ultimately show ?thesis by simp
qed

lemma settle_body_later:
  assumes "world_clock W clock" "settle_body W p f q l x d u t = (Inr a', t')"
  shows "clock (snd t) < clock (snd t')"
  by (rule clocked [OF assms(1), of "snd t"])
    (use assms(2) in \<open>auto simp: settle_body_def pause_ms_def Let_def case_prod_unfold keeps split: if_splits\<close>)

lemma replay_commit_body_later:
  assumes "world_clock W clock" "replay_commit_body W p f q l u s = (Inr a', s')"
  shows "clock s < clock s'"
  by (rule clocked [OF assms(1), of s])
    (use assms(2) in \<open>auto simp: replay_commit_body_def Let_def case_prod_unfold keeps split: if_splits\<close>)

lemma capability_body_later:
  assumes "world_clock W clock" "capability_body W p f q l x d m t = (Inr a', t')"
  shows "clock (snd t) < clock (snd t')"
  by (rule clocked [OF assms(1), of "snd t"])
    (use assms(2) in \<open>auto simp: capability_body_def pause_ms_def Let_def case_prod_unfold keeps split: if_splits\<close>)

lemma poll_body_later:
  assumes "world_clock W clock" 
    and "poll_body W late (paste_stop W p f q l) (commit_read W process x) until t = (Inr a', t')"
  shows "clock (snd t) < clock (snd t') \<and> a' \<le> max until late"
  by (rule clocked [OF assms(1), of "snd t"])
    (use assms(2) in \<open>auto simp: poll_body_def pause_ms_def Let_def case_prod_unfold keeps
       split: if_splits option.splits\<close>)

lemma switch_body_later:
  assumes "world_clock W clock" "switch_body W p f l q seen s = (Inr a', s')"
  shows "clock s < clock s'"
proof -
  have "clock s < clock (ww_sleep W 2 s)" by (rule sleep_later [OF assms(1)]) simp_all
  moreover have "clock (ww_sleep W 2 s) \<le> clock s'"
    by (rule clocked [OF assms(1), of "ww_sleep W 2 s"])
      (use assms(2) in \<open>auto simp: switch_body_def Let_def case_prod_unfold keeps split: if_splits option.splits\<close>)
  ultimately show ?thesis by simp
qed

lemma settle_wait_returns:
  assumes "world_clock W clock"
  shows "\<exists>r t'. wait_for_source_input_settle W p f q l x t = Some (r, t')"
proof -
  obtain c s where t: "t = (c, s)" by fastforce
  let ?deadline = "fst (ww_now W s) + from_millis HOOK_FORWARD_TIMEOUT_MS"
  have "\<exists>r s'. iterate (await_forwarded W f q ?deadline) () (snd (ww_now W s)) = Some (r, s')"
    by (rule timed_loop_returns) (rule await_forwarded_later [OF assms])
  then obtain forwarded s1 where
    fw: "iterate (await_forwarded W f q ?deadline) () (snd (ww_now W s)) = Some (forwarded, s1)" by blast
  obtain armed t1 where arm: "arm_correction_gate W p q (c, s1) = (armed, t1)" by (metis surj_pair)
  let ?b = "requires_text_barrier (ip_backend p)"
  let ?d = "fst (cells_now W t1) + from_millis (if ?b then NOTEPAD_TEXT_BARRIER_TIMEOUT_MS else INPUT_SETTLE_AFTER_FORWARD_MS)"
  have "\<exists>r t'. while_before (cells_now W) (\<lambda>_. ?d) (\<lambda>_. if ?b then Cancelled else Applied)
      (settle_body W p f q l x ?d) () (snd (cells_now W t1)) = Some (r, t')"
    by (rule celled_returns [OF assms, where limit = 0]) (use settle_body_later [OF assms] in auto)
  then show ?thesis
    using fw arm by (cases forwarded) (auto simp: t wait_for_source_input_settle_def Let_def case_prod_unfold)
qed

lemma text_commit_returns:
  assumes "world_clock W clock"
  shows "\<exists>r t'. wait_for_text_commit W p f q l x limits t = Some (r, t')"
  unfolding wait_for_text_commit_def poll_text_commit_def
  by (rule celled_returns [OF assms, where limit = "snd limits"]) (rule poll_body_later [OF assms])

lemma capability_barrier_returns:
  assumes "world_clock W clock"
  shows "\<exists>r t'. wait_for_capability_text_barrier W p f q l x t = Some (r, t')"
  unfolding wait_for_capability_text_barrier_def Let_def case_prod_unfold
  by (rule celled_returns [OF assms, where limit = 0]) (use capability_body_later [OF assms] in auto)

lemma replay_commit_returns:
  assumes "world_clock W clock"
  shows "\<exists>r s'. wait_for_replay_commit W p f q l s = Some (r, s')"
  unfolding wait_for_replay_commit_def Let_def case_prod_unfold
  by (rule worldly_returns [OF assms, where limit = 0]) (use replay_commit_body_later [OF assms] in auto)

lemma switch_layout_returns:
  assumes "world_clock W clock"
  shows "\<exists>r s'. switch_layout_and_wait W p f l q s = Some (r, s')"
proof -
  have "\<exists>r s'. while_before (ww_now W) (\<lambda>_. d) (\<lambda>_. Failed) (switch_body W p f l q) None u = Some (r, s')" for d u
    by (rule worldly_returns [OF assms, where limit = 0]) (use switch_body_later [OF assms] in auto)
  then show ?thesis by (auto simp: switch_layout_and_wait_def Let_def case_prod_unfold)
qed

lemma hotkey_wait_returns:
  assumes "world_clock W clock"
  shows "\<exists>r s'. wait_for_hotkey_release W e s = Some (r, s')"
  unfolding wait_for_hotkey_release_def Let_def case_prod_unfold
  by (rule timed_loop_returns, rule hotkey_release_later [OF assms])

end
