(* ===== verification/Sample_World.thy ===== *)
theory Sample_World
  imports World_Laws
begin

text \<open>
  A world for the worker: a text field that shows what it is asked for, a clipboard whose brokers install
  at once, a keyboard on which nothing is held. Its state holds the time, the keys sent, the brokers
  with what they were told, the number of characters selected, the layout and the shared metrics. It
  satisfies the laws that the theorems on the worker assume.
\<close>

record sample_state =
  ss_time :: instant
  ss_sent :: "key_input list"
  ss_brokers :: nat
  ss_told :: "nat \<Rightarrow> broker_command list"
  ss_selected :: nat
  ss_layout :: u64
  ss_metrics :: shared_metrics
  ss_channels :: nat
  ss_asked :: "nat \<rightharpoonup> privacy_key \<times> instant"

definition sample_word :: ustr where "sample_word = lit ''ghbdtn ''"

definition sample_text_field :: "(sample_state, nat) text_field" where
  "sample_text_field =
     \<lparr>tf_selection = (\<lambda>s. (One (ss_selected s), s)), tf_is_empty = (\<lambda>r s. (Some (r = 0), s)),
      tf_clone_range = (\<lambda>r s. (Some 7, s)), tf_move_start = (\<lambda>r n s. (Some n, s)),
      tf_text = (\<lambda>r s. (Some (if r = 0 then [] else sample_word), s)),
      tf_select = (\<lambda>r s. (True, s\<lparr>ss_selected := r\<rparr>)),
      tf_collapse_to_end = (\<lambda>r s. (True, s)),
      tf_now = (\<lambda>s. (ss_time s, s)), tf_sleep = (\<lambda>d s. s\<lparr>ss_time := ss_time s + d + from_millis 60\<rparr>)\<rparr>"

definition sample_clipboard_link :: "sample_state clipboard_link" where
  "sample_clipboard_link =
     \<lparr>cl_now = (\<lambda>s. (ss_time s, s)),
      cl_spawn = (\<lambda>_ s. (ss_brokers s, s\<lparr>ss_brokers := ss_brokers s + 1, ss_told := (ss_told s)(ss_brokers s := [])\<rparr>)),
      cl_finished = (\<lambda>_ s. (True, s)), cl_join = (\<lambda>_ s. s), cl_end = (\<lambda>_ s. (2, s)), cl_cancel = (\<lambda>_ s. s),
      cl_try_send = (\<lambda>b c s. s\<lparr>ss_told := (ss_told s)(b := ss_told s b @ [c])\<rparr>),
      cl_send = (\<lambda>b c s. (True, s\<lparr>ss_told := (ss_told s)(b := ss_told s b @ [c])\<rparr>)),
      cl_receive = (\<lambda>b _ s. (Some (if ss_told s b = [] then Installed_at 7 9 else Finished True), s)),
      cl_state = (\<lambda>s. ((7, 9), s))\<rparr>"

text \<open>A provider that answers every request at once, with the same answer.\<close>

definition steady_provider :: "'v \<Rightarrow> (sample_state, nat, nat, 'k, 'v) provider_system" where
  "steady_provider v =
     \<lparr>pv_now = (\<lambda>s. (ss_time s, s)), pv_channel = (\<lambda>s. (0, s)), pv_try_send = (\<lambda>_ _ _ s. (SendOk, s)),
      pv_receive = (\<lambda>_ _ s. (Received v, s)), pv_respawn = (\<lambda>s. (None, s))\<rparr>"

text \<open>The inspector of fields: it remembers what each channel was asked, and passes every field.\<close>

definition sample_inspector :: "(sample_state, nat, nat, privacy_key, privacy_block_reason option) provider_system" where
  "sample_inspector =
     \<lparr>pv_now = (\<lambda>s. (ss_time s, s)),
      pv_channel = (\<lambda>s. (ss_channels s, s\<lparr>ss_channels := ss_channels s + 1, ss_asked := (ss_asked s)(ss_channels s := None)\<rparr>)),
      pv_try_send = (\<lambda>_ k c s. if c < ss_channels s \<and> ss_asked s c = None
         then (SendOk, s\<lparr>ss_asked := (ss_asked s)(c \<mapsto> (k, ss_time s))\<rparr>) else (SendDisconnected, s)),
      pv_receive = (\<lambda>c _ s. (if ss_asked s c = None then RecvDisconnected else Received None, s)),
      pv_respawn = (\<lambda>s. (None, s))\<rparr>"

definition sample_questions :: "sample_state \<Rightarrow> nat \<Rightarrow> (privacy_key \<times> instant) option" where
  "sample_questions s c = (if c < ss_channels s then ss_asked s c else None)"

definition sample_inspections :: "sample_state \<Rightarrow> (privacy_key \<times> instant \<times> privacy_block_reason option) set" where
  "sample_inspections s = {(k, t, v). v = None}"

definition sample_window :: foreground_context where
  "sample_window = \<lparr>fc_hwnd = 11, fc_focus = 12, fc_input_thread = 13, fc_process = 42, fc_layout = 0x409\<rparr>"

definition plain_unicode :: unicode where
  "plain_unicode =
     \<lparr>uc_lower = (\<lambda>c. [c]), uc_lower_str = (\<lambda>x. x), uc_alphabetic = (\<lambda>c. 97 \<le> c), uc_uppercase = (\<lambda>_. False),
      uc_mark = (\<lambda>_. False), uc_graphemes = map (\<lambda>c. [c])\<rparr>"

definition sample_world :: "(sample_state, nat) worker_world" where
  "sample_world =
     \<lparr>ww_unicode = plain_unicode, ww_exp = id, ww_layout_model = None, ww_field = sample_text_field,
      ww_resolve = (\<lambda>_ t. (None, t)), ww_clipboard = sample_clipboard_link,
      ww_barrier = steady_provider (Match, barrier_report_default), ww_privacy = sample_inspector,
      ww_profiles = steady_provider (Inr \<lparr>rk_loaded = [], rk_profiles = []\<rparr>),
      ww_native_layouts = (\<lambda>s. (Some [], s)),
      ww_atomic = (\<lambda>f s. (ss_metrics s, s\<lparr>ss_metrics := f (ss_metrics s)\<rparr>)),
      ww_foreground = (\<lambda>s. (Some (sample_window\<lparr>fc_layout := ss_layout s\<rparr>), s)),
      ww_key_held = (\<lambda>_ s. (False, s)),
      ww_process_facts = (\<lambda>_ s. ((Some (lit ''C:/notepad.exe''), Some 8192), s)),
      ww_post_layout = (\<lambda>_ l s. (True, s\<lparr>ss_layout := l\<rparr>)),
      ww_ask_gate = (\<lambda>_ s. ((True, 1, False), s)), ww_post_gate = (\<lambda>_ s. (True, s)),
      ww_send_input = (\<lambda>inputs s. (length inputs, s\<lparr>ss_sent := ss_sent s @ inputs\<rparr>)),
      ww_pacer = (\<lambda>s. (False, s)), ww_pacer_wait = (\<lambda>s. s), ww_virtual_key = (\<lambda>k _. k),
      ww_layout_print = (\<lambda>_ _ _ _ _. []), ww_translate = (\<lambda>_ _ s. (None, s)),
      ww_lexicon = (\<lambda>_ s. s), ww_post_offer = (\<lambda>s. s), ww_sound = (\<lambda>_ s. s),
      ww_full_screen = (\<lambda>s. (False, s))\<rparr>"

lemmas sample_world_defs = sample_inspector_def sample_world_def sample_text_field_def sample_clipboard_link_def steady_provider_def

lemma sample_inspector_quiet:
  assumes "\<And>s n a. s \<in> I \<Longrightarrow> s\<lparr>ss_channels := n, ss_asked := a\<rparr> \<in> I" "\<And>s a. s \<in> I \<Longrightarrow> s\<lparr>ss_asked := a\<rparr> \<in> I"
  shows "provider_quiet sample_inspector I"
  using assms by (auto simp: provider_quiet_def sample_inspector_def)

lemma sample_inspector_grows: "provider_quiet sample_inspector {t. grows ss_time sample_questions s t}"
proof -
  have "grows ss_time sample_questions t (snd (pv_channel sample_inspector t))" for t
    by (auto simp: grows_def sample_questions_def sample_inspector_def simp del: split_paired_All)
  moreover have "grows ss_time sample_questions t (snd (pv_try_send sample_inspector q k c t))" for t q k c
    by (auto simp: grows_def sample_questions_def sample_inspector_def simp del: split_paired_All)
  ultimately show ?thesis
    by (auto simp: provider_quiet_def intro: grows_trans) (simp_all add: sample_inspector_def)
qed

lemma sample_inspector_laws: "provider_laws sample_inspector ss_time sample_questions sample_inspections"
  unfolding provider_laws_def
  by (intro conjI allI impI)
     (auto simp: sample_inspector_def steady_def grows_def answered_def sample_inspections_def sample_questions_def
       fun_eq_iff simp del: split_paired_All split_paired_Ex split: if_splits)

lemma sample_keeps:
  assumes "provider_quiet sample_inspector I" and "\<And>s d. s \<in> I \<Longrightarrow> s\<lparr>ss_time := ss_time s + d\<rparr> \<in> I" "\<And>s m. s \<in> I \<Longrightarrow> s\<lparr>ss_metrics := m\<rparr> \<in> I"
    "\<And>s l. s \<in> I \<Longrightarrow> s\<lparr>ss_layout := l\<rparr> \<in> I"
  shows "world_quiet sample_world I"
  using assms
  by (auto simp: world_quiet_def provider_quiet_def sample_world_def sample_text_field_def steady_provider_def ww_now_def ww_sleep_def add.assoc)

lemma sample_world_clock: "world_clock sample_world ss_time"
  unfolding world_clock_def
proof (intro conjI allI)
  show "world_quiet sample_world {s. n \<le> ss_time s}" for n by (intro sample_keeps sample_inspector_quiet) auto
qed (simp_all add: ww_now_def ww_sleep_def sample_world_defs)

definition sample_metrics :: shared_metrics where
  "sample_metrics =
     \<lparr>sm_observer = observer_metrics_default\<lparr>m_observed_input_sequence := 5, m_forwarded_input_sequence := 5,
        m_active_gate_token := 5, m_auto_enabled := True\<rparr>,
      sm_candidates = 0, sm_backend_status = 0, sm_gate_replayed_events = 0, sm_gate_release_requests = 0,
      sm_clipboard_restore_failures = 0, sm_privacy_probe_cost_ms = 0, sm_foreground_full_screen = False\<rparr>"

definition sample_start :: sample_state where
  "sample_start = \<lparr>ss_time = from_secs 10, ss_sent = [], ss_brokers = 0, ss_told = (\<lambda>_. []), ss_selected = 0,
     ss_layout = 0x409, ss_metrics = sample_metrics, ss_channels = 0, ss_asked = Map.empty\<rparr>"

definition sample_worker_configuration :: worker_configuration where
  "sample_worker_configuration =
     \<lparr>rc_package_source = LegacyBootstrap, rc_sources = 0, rc_settings = settings_default,
      wc_input_profiles = [], wc_user_dictionary = user_lexicon_default,
      wc_word_exclusions = user_lexicon_default, wc_process_exclusions = \<lparr>executable_names = {}\<rparr>,
      wc_backend_rules = \<lparr>br_exact = [], br_fallback = ProtectedPaste\<rparr>, wc_dictionaries = sample_registry\<rparr>"

definition sample_facts :: start_facts where
  "sample_facts = \<lparr>sf_privacy_sender = Some 0, sf_barrier_sender = Some 0, sf_profile_resolver = None,
     sf_now = 0, sf_integrity = Some 8192, sf_embedded_model = None\<rparr>"

definition sample_processor :: processor where
  "sample_processor = (processor_new 77 sample_worker_configuration sample_facts)\<lparr>ip_backend := BackendPaste\<rparr>"

lemma sample_calls [simp]:
  "ww_field sample_world = sample_text_field" "ww_clipboard sample_world = sample_clipboard_link"
  "ww_resolve sample_world process t = (None, t)"
  "ww_barrier sample_world = steady_provider (Match, barrier_report_default)"
  "ww_privacy sample_world = sample_inspector"
  "ww_now sample_world s = (ss_time s, s)"
  "ww_sleep sample_world ms s = s\<lparr>ss_time := ss_time s + from_millis (ms + 60)\<rparr>"
  "ww_atomic sample_world f s = (ss_metrics s, s\<lparr>ss_metrics := f (ss_metrics s)\<rparr>)"
  "ww_foreground sample_world s = (Some (sample_window\<lparr>fc_layout := ss_layout s\<rparr>), s)"
  "ww_key_held sample_world k s = (False, s)"
  "ww_post_layout sample_world fg l s = (True, s\<lparr>ss_layout := l\<rparr>)"
  "ww_ask_gate sample_world q s = ((True, 1, False), s)" "ww_post_gate sample_world n s = (True, s)"
  "ww_send_input sample_world inputs s = (length inputs, s\<lparr>ss_sent := ss_sent s @ inputs\<rparr>)"
  "ww_pacer sample_world s = (False, s)" "ww_pacer_wait sample_world s = s"
  by (simp_all add: sample_world_def ww_now_def ww_sleep_def sample_text_field_def from_millis_def)

lemma sample_layout_is [simp]: "layout_is sample_world l s = (ss_layout s = l, s)"
  by (simp add: layout_is_def)

lemma sample_load [simp]: "load sample_world f s = (f (sm_observer (ss_metrics s)), s)"
  by (simp add: load_def)

lemma sample_store [simp]:
  "store sample_world f s = s\<lparr>ss_metrics := sm_observer_update f (ss_metrics s)\<rparr>"
  by (simp add: store_def)

lemma sample_processor_fields [simp]:
  "ip_last_input_epoch sample_processor = 0" "ip_gate_window sample_processor = 77"
  "ip_backend sample_processor = BackendPaste"
  by (simp_all add: sample_processor_def processor_new_def)

end
