(* ===== verification/Worker_Privacy.thy ===== *)
theory Worker_Privacy
  imports Sample_World
begin

text \<open>
  \<open>src/windows_agent.rs\<close>: the worker's privacy check. Nothing is buffered or converted in a field that may
  not be read: a password field, a program the user excluded, a program of higher integrity, or a
  field that could not be inspected. The field is inspected by the provider thread of a bounded probe
  (\<open>Bounded_Probe\<close>); a provider that fails right after it passed the same field is believed the pass.
\<close>

section \<open>The policy of the process\<close>

definition PRIVACY_PASSWORD :: u8 where [consts_def]: "PRIVACY_PASSWORD = 1"
definition PRIVACY_EXCLUDED :: u8 where [consts_def]: "PRIVACY_EXCLUDED = 2"
definition PRIVACY_ELEVATED :: u8 where [consts_def]: "PRIVACY_ELEVATED = 4"

definition privacy_reason_code :: "privacy_block_reason option \<Rightarrow> u8" where
  "privacy_reason_code reason =
     (case reason of
        None \<Rightarrow> PRIVACY_ALLOWED
      | Some PasswordField \<Rightarrow> PRIVACY_PASSWORD
      | Some ExcludedProcess \<Rightarrow> PRIVACY_EXCLUDED
      | Some ElevatedProcess \<Rightarrow> PRIVACY_ELEVATED
      | Some InspectionUnavailable \<Rightarrow> PRIVACY_UNAVAILABLE
      | Some FieldInspectionUnavailable \<Rightarrow> PRIVACY_UNAVAILABLE)"

definition privacy_known_allowed :: "processor \<Rightarrow> foreground_context \<Rightarrow> bool" where
  "privacy_known_allowed p foreground \<longleftrightarrow>
     \<not> ip_privacy_needs_check p \<and> ip_privacy_reason p = None
     \<and> ip_last_foreground p = Some (foreground_identity_key foreground)"

definition set_privacy_reason_with_manual_exception ::
  "('s, 'r) worker_world \<Rightarrow> privacy_block_reason option \<Rightarrow> bool \<Rightarrow> processor \<times> 's \<Rightarrow> processor \<times> 's" where
  "set_privacy_reason_with_manual_exception W reason manual_exception = (\<lambda>(p, s).
     let p = p\<lparr>ip_privacy_reason := reason\<rparr>;
         s = store W (m_privacy_reason_update (\<lambda>_. privacy_reason_code reason)) s
     in if reason = None then (p, s)
        else if manual_exception \<and> reason = Some FieldInspectionUnavailable
        then clear_undo W (p\<lparr>ip_manual_only_word := True, ip_manual_only_inspection := True,
               ip_pending := None, ip_deferred := None\<rparr>, s)
        else
          let (p, s) = invalidate_conversion_state W (p\<lparr>ip_last_word_reset := WordPrivacy\<rparr>, s)
          in (suppress_session W p, s))"

definition set_privacy_reason ::
  "('s, 'r) worker_world \<Rightarrow> privacy_block_reason option \<Rightarrow> processor \<times> 's \<Rightarrow> processor \<times> 's" where
  "set_privacy_reason W reason = set_privacy_reason_with_manual_exception W reason False"

definition mark_privacy_dirty :: "('s, 'r) worker_world \<Rightarrow> bool \<Rightarrow> processor \<times> 's \<Rightarrow> processor \<times> 's" where
  "mark_privacy_dirty W pause_now = (\<lambda>(p, s).
     let p = p\<lparr>ip_privacy_needs_check := True, ip_privacy_generation := ip_privacy_generation p + 1,
           ip_recent_privacy_ok := None\<rparr>
     in if \<not> pause_now then (p, s)
        else
          let reset = ip_last_word_reset p;
              reason = (case ip_process_reason p of None \<Rightarrow> Some InspectionUnavailable | r \<Rightarrow> r);
              (p, s) = set_privacy_reason W reason (p, s)
          in (p\<lparr>ip_last_word_reset := reset\<rparr>, s))"

definition process_policy ::
  "unicode \<Rightarrow> exclusion_policy \<Rightarrow> u32 option \<Rightarrow> ustr option \<times> u32 option \<Rightarrow> privacy_block_reason option" where
  "process_policy U policy current = (\<lambda>(image, integrity).
     case image of
       None \<Rightarrow> Some InspectionUnavailable
     | Some path \<Rightarrow>
         if is_excluded U policy path then Some ExcludedProcess
         else case (integrity, current) of
           (Some process_level, Some own) \<Rightarrow> if process_level > own then Some ElevatedProcess else None
         | _ \<Rightarrow> Some InspectionUnavailable)"

definition refresh_process_policy :: "('s, 'r) worker_world \<Rightarrow> u32 \<Rightarrow> processor \<times> 's \<Rightarrow> processor \<times> 's" where
  "refresh_process_policy W process = (\<lambda>(p, s).
     if ip_last_process p = Some process then (p, s)
     else
       let p = p\<lparr>ip_last_process := Some process\<rparr>;
           ((image, integrity), s) = ww_process_facts W process s;
           p = p\<lparr>ip_backend :=
             (case image of
                None \<Rightarrow> BackendObserve
              | Some path \<Rightarrow> text_edit_backend_for_strategy (rules_resolve (ww_unicode W) (ip_backend_rules p) path))\<rparr>;
           s = note_metric W (sm_backend_status_update (\<lambda>_. backend_status_code (ip_backend p))) s;
           p = p\<lparr>ip_process_reason := process_policy (ww_unicode W) (ip_exclusion_policy p) (ip_integrity_level p)
                   (image, integrity), ip_privacy_needs_check := True\<rparr>;
           (p, s) = (if ip_process_reason p = None then (p, s)
                     else set_privacy_reason W (ip_process_reason p) (p, s))
       in (p, store W (m_privacy_process_id_update (\<lambda>_. process)) s))"

section \<open>The verdict of the probe\<close>

definition probe_verdict ::
  "probe_failure + privacy_block_reason option \<Rightarrow> privacy_block_reason option \<times> probe_source" where
  "probe_verdict result =
     (case result of
        Inr reason \<Rightarrow> (reason, SourceProvider)
      | Inl failure \<Rightarrow>
          (Some InspectionUnavailable,
           case failure of
             ProbeTimeout \<Rightarrow> SourceWaitTimeout | ProbeBusy \<Rightarrow> SourceQueueBusy
           | ProbeDisconnected \<Rightarrow> SourceDisconnected | ProbeExpired \<Rightarrow> SourceExpired))"

definition keeps_recent_ok :: "probe_trigger \<Rightarrow> bool" where
  "keeps_recent_ok trigger \<longleftrightarrow> trigger = TriggerTyping \<or> trigger = TriggerRefresh"

text \<open>Whether a failure of the provider may be taken for a late answer: the age of the pass it leans on.\<close>

definition recent_ok_age ::
  "recent_privacy_ok option \<Rightarrow> foreground_context \<Rightarrow> u64 \<Rightarrow> instant \<Rightarrow> duration option" where
  "recent_ok_age recent foreground epoch now =
     (case recent of
        None \<Rightarrow> None
      | Some r \<Rightarrow>
          if same_input_target (ro_foreground r) foreground \<and> ro_epoch r = epoch \<and> ro_at r \<le> now
             \<and> now - ro_at r < from_millis PRIVACY_RECENT_OK_MS
          then Some (now - ro_at r) else None)"

definition settle_probe_outcome ::
  "privacy_block_reason option \<Rightarrow> probe_source \<Rightarrow> foreground_context \<Rightarrow> u64 \<Rightarrow> instant \<Rightarrow> probe_trigger \<Rightarrow>
     processor \<Rightarrow> (privacy_block_reason option \<times> probe_source) \<times> processor" where
  "settle_probe_outcome reason source foreground epoch now trigger p =
     (if source = SourceProvider \<and> reason = None
      then ((reason, source),
            p\<lparr>ip_recent_privacy_ok := Some \<lparr>ro_foreground = foreground, ro_epoch = epoch, ro_at = now\<rparr>\<rparr>)
      else if source = SourceProvider \<and> reason = Some FieldInspectionUnavailable \<and> keeps_recent_ok trigger
              \<and> recent_ok_age (ip_recent_privacy_ok p) foreground epoch now \<noteq> None
      then ((None, SourceRecentOk), p)
      else ((reason, source), p\<lparr>ip_recent_privacy_ok := None\<rparr>))"

definition renew_recent_privacy_ok ::
  "('s, 'r) worker_world \<Rightarrow> foreground_context \<Rightarrow> processor \<times> 's \<Rightarrow> processor \<times> 's" where
  "renew_recent_privacy_ok W foreground = (\<lambda>(p, s).
     let (epoch, s) = load W m_input_epoch s in
     case ip_recent_privacy_ok p of
       None \<Rightarrow> (p, s)
     | Some recent \<Rightarrow>
         if same_input_target (ro_foreground recent) foreground \<and> ro_epoch recent = epoch
         then let (now, s) = ww_now W s in (p\<lparr>ip_recent_privacy_ok := Some (recent\<lparr>ro_at := now\<rparr>)\<rparr>, s)
         else (p, s))"

section \<open>The manual exception\<close>

definition verified_terminal ::
  "('s, 'r) worker_world \<Rightarrow> processor \<Rightarrow> foreground_context \<Rightarrow> 's \<Rightarrow> bool \<times> 's" where
  "verified_terminal W p foreground s =
     (if ip_process_reason p = None \<and> ip_last_process p = Some (fc_process foreground)
         \<and> ip_backend p = BackendPhysical
      then
        let ((image, _), s) = ww_process_facts W (fc_process foreground) s
        in (case image of
              None \<Rightarrow> False
            | Some path \<Rightarrow> map to_ascii_lowercase (last_piece is_path_separator path)
                \<in> {lit ''windowsterminal.exe'', lit ''openconsole.exe'', lit ''conhost.exe''}, s)
      else (False, s))"

definition manual_privacy_allows_reason ::
  "('s, 'r) worker_world \<Rightarrow> processor \<Rightarrow> privacy_block_reason option \<Rightarrow> foreground_context \<Rightarrow> 's \<Rightarrow> bool \<times> 's" where
  "manual_privacy_allows_reason W p reason foreground s =
     (let (terminal, s) = verified_terminal W p foreground s
      in (manual_conversion_allowed reason (st_manual_terminal_uia_fallback (ip_settings p)) terminal, s))"

definition manual_privacy_allows_current ::
  "('s, 'r) worker_world \<Rightarrow> processor \<Rightarrow> foreground_context \<Rightarrow> 's \<Rightarrow> bool \<times> 's" where
  "manual_privacy_allows_current W p = manual_privacy_allows_reason W p (ip_privacy_reason p)"

section \<open>The check\<close>

definition publish_verdict ::
  "('s, 'r) worker_world \<Rightarrow> privacy_block_reason option \<times> probe_source \<Rightarrow> foreground_context \<Rightarrow>
     processor \<times> 's \<Rightarrow> processor \<times> 's" where
  "publish_verdict W verdict foreground t =
     (let (p, s) = t;
          (reason, source) = verdict;
          p = p\<lparr>ip_privacy_needs_check := False\<rparr>;
          (exception, s) =
            (if reason = Some FieldInspectionUnavailable then manual_privacy_allows_reason W p reason foreground s
             else (False, s));
          (p, s) = set_privacy_reason_with_manual_exception W reason exception (p, s)
      in if reason = None \<and> source = SourceProvider \<and> ip_manual_only_inspection p
         then (p\<lparr>ip_manual_only_word := False, ip_manual_only_inspection := False\<rparr>, s) else (p, s))"

definition apply_probe_answer ::
  "('s, 'r) worker_world \<Rightarrow> privacy_block_reason option \<times> probe_source \<Rightarrow> bool \<Rightarrow> foreground_context \<Rightarrow> u64 \<Rightarrow>
     instant \<Rightarrow> probe_trigger \<Rightarrow> processor \<times> 's \<Rightarrow> processor \<times> 's" where
  "apply_probe_answer W answer context_current foreground epoch started trigger = (\<lambda>(p, s).
     let (reason, source) =
           (if context_current then answer else (Some InspectionUnavailable, SourceContextChanged));
         (now, s) = ww_now W s;
         (verdict, p) = settle_probe_outcome reason source foreground epoch now trigger p;
         (now, s) = ww_now W s;
         s = note_metric W (sm_privacy_probe_cost_ms_update (\<lambda>_. as_millis (now - started))) s
     in publish_verdict W verdict foreground (p, s))"

text \<open>What the probe is asked: the target, the epoch and the generation of the focus.\<close>

definition ask_privacy_probe ::
  "('s, 'r) worker_world \<Rightarrow> foreground_context \<Rightarrow> u64 \<Rightarrow> processor \<times> 's \<Rightarrow>
     (privacy_block_reason option \<times> probe_source) \<times> processor \<times> 's" where
  "ask_privacy_probe W foreground epoch = (\<lambda>(p, s).
     case ip_process_reason p of
       Some reason \<Rightarrow> ((Some reason, SourceProcessPolicy), p, s)
     | None \<Rightarrow>
         (case ip_privacy_probe p of
            None \<Rightarrow> ((Some InspectionUnavailable, SourceProbeMissing), p, s)
          | Some probe \<Rightarrow>
              let (result, probe, s) = query_result (ww_privacy W) (foreground, epoch, ip_privacy_generation p)
                    (from_millis PRIVACY_PROBE_WAIT_MS) (from_millis 500) probe s
              in (probe_verdict result, p\<lparr>ip_privacy_probe := Some probe\<rparr>, s)))"

definition evaluate_privacy ::
  "('s, 'r) worker_world \<Rightarrow> foreground_context \<Rightarrow> probe_trigger \<Rightarrow> processor \<times> 's \<Rightarrow> processor \<times> 's" where
  "evaluate_privacy W foreground trigger t =
     (let (p, s) = refresh_process_policy W (fc_process foreground) t;
          (started, s) = ww_now W s;
          (epoch, s) = load W m_input_epoch s;
          (answer, p, s) = ask_privacy_probe W foreground epoch (p, s);
          (epoch_now, s) = load W m_input_epoch s;
          (current, s) = (if epoch_now = epoch then foreground_matches W foreground s else (False, s))
      in apply_probe_answer W answer current foreground epoch started trigger (p, s))"

definition ensure_privacy ::
  "('s, 'r) worker_world \<Rightarrow> foreground_context \<Rightarrow> probe_trigger \<Rightarrow> processor \<times> 's \<Rightarrow> bool \<times> processor \<times> 's" where
  "ensure_privacy W foreground trigger t =
     (let (p, s) = refresh_process_policy W (fc_process foreground) t;
          (p, s) = (if ip_privacy_needs_check p then evaluate_privacy W foreground trigger (p, s) else (p, s))
      in (ip_privacy_reason p = None, p, s))"

definition forced_privacy_allows ::
  "('s, 'r) worker_world \<Rightarrow> foreground_context \<Rightarrow> processor \<times> 's \<Rightarrow> bool \<times> processor \<times> 's" where
  "forced_privacy_allows W foreground = (\<lambda>(p, s).
     let (epoch, s) = load W m_input_epoch s;
         p = p\<lparr>ip_last_process := None\<rparr>;
         (p, s) = refresh_process_policy W (fc_process foreground) (p, s);
         (p, s) = evaluate_privacy W foreground TriggerManual (p, s);
         (epoch_now, s) = load W m_input_epoch s;
         (current, s) = (if epoch = epoch_now then foreground_matches W foreground s else (False, s));
         (allowed, s) = (if current then manual_privacy_allows_current W p foreground s else (False, s))
     in (allowed, p, s))"

definition request_sound :: "('s, 'r) worker_world \<Rightarrow> sound_cue \<Rightarrow> processor \<times> 's \<Rightarrow> processor \<times> 's" where
  "request_sound W cue = (\<lambda>(p, s). (p, if st_conversion_sound (ip_settings p) then ww_sound W cue s else s))"

definition observe_full_screen :: "('s, 'r) worker_world \<Rightarrow> bool \<Rightarrow> 's \<Rightarrow> 's" where
  "observe_full_screen W full_screen = note_metric W (sm_foreground_full_screen_update (\<lambda>_. full_screen))"


section \<open>What the check keeps\<close>

lemma clear_undo_fields [simp]:
  "fst (clear_undo W t) = (fst t)\<lparr>ip_undo := None\<rparr>"
  by (simp add: clear_undo_def case_prod_unfold)

lemma invalidate_fields [simp]:
  "fst (invalidate_conversion_state W t) = (fst t)\<lparr>ip_pending := None, ip_deferred := None,
     ip_last_boundary := None, ip_transpose_cycle := None, ip_undo := None\<rparr>"
  by (simp add: invalidate_conversion_state_def case_prod_unfold)

lemma suppress_session_fields:
  "\<exists>session. suppress_session W p = p\<lparr>ip_replay_keys := [], ip_manual_only_word := False,
     ip_manual_only_inspection := False, ip_session := session\<rparr>"
  by (auto simp: suppress_session_def handle_session_def case_prod_unfold Let_def)

lemma clear_undo_keeps [keeps]: "world_quiet W I \<Longrightarrow> snd t \<in> I \<Longrightarrow> snd (clear_undo W t) \<in> I"
  by (simp add: clear_undo_def case_prod_unfold keeps)

lemma invalidate_keeps [keeps]: "world_quiet W I \<Longrightarrow> snd t \<in> I \<Longrightarrow> snd (invalidate_conversion_state W t) \<in> I"
  by (simp add: invalidate_conversion_state_def case_prod_unfold keeps)

lemma set_privacy_reason_keeps [keeps]:
  "world_quiet W I \<Longrightarrow> snd t \<in> I \<Longrightarrow> snd (set_privacy_reason_with_manual_exception W reason e t) \<in> I"
  by (simp add: set_privacy_reason_with_manual_exception_def Let_def case_prod_unfold keeps)

lemma refresh_process_policy_keeps [keeps]:
  "world_quiet W I \<Longrightarrow> snd t \<in> I \<Longrightarrow> snd (refresh_process_policy W process t) \<in> I"
  by (simp add: refresh_process_policy_def set_privacy_reason_def Let_def case_prod_unfold keeps)

lemma ask_privacy_probe_keeps [keeps]:
  "world_quiet W I \<Longrightarrow> snd t \<in> I \<Longrightarrow> snd (snd (ask_privacy_probe W f epoch t)) \<in> I"
  by (auto simp: ask_privacy_probe_def Let_def case_prod_unfold split: option.splits intro!: keeps)

lemma verified_terminal_keeps [keeps]: "world_quiet W I \<Longrightarrow> s \<in> I \<Longrightarrow> snd (verified_terminal W p f s) \<in> I"
  by (simp add: verified_terminal_def Let_def case_prod_unfold keeps)

lemma manual_privacy_allows_keeps [keeps]:
  "world_quiet W I \<Longrightarrow> s \<in> I \<Longrightarrow> snd (manual_privacy_allows_reason W p reason f s) \<in> I"
  by (simp add: manual_privacy_allows_reason_def Let_def case_prod_unfold keeps)

lemma publish_verdict_keeps [keeps]:
  "world_quiet W I \<Longrightarrow> snd t \<in> I \<Longrightarrow> snd (publish_verdict W verdict f t) \<in> I"
  by (auto simp: publish_verdict_def Let_def case_prod_unfold intro!: keeps)

lemma apply_probe_answer_keeps [keeps]:
  "world_quiet W I \<Longrightarrow> snd t \<in> I \<Longrightarrow> snd (apply_probe_answer W answer current f epoch started trigger t) \<in> I"
  by (auto simp: apply_probe_answer_def Let_def case_prod_unfold intro!: keeps)

lemma evaluate_privacy_keeps [keeps]:
  "world_quiet W I \<Longrightarrow> snd t \<in> I \<Longrightarrow> snd (evaluate_privacy W f trigger t) \<in> I"
  by (simp add: evaluate_privacy_def Let_def case_prod_unfold keeps)

lemma ensure_privacy_keeps [keeps]:
  "world_quiet W I \<Longrightarrow> snd t \<in> I \<Longrightarrow> snd (snd (ensure_privacy W f trigger t)) \<in> I"
  by (simp add: ensure_privacy_def Let_def case_prod_unfold keeps)

lemma forced_privacy_keeps [keeps]:
  "world_quiet W I \<Longrightarrow> snd t \<in> I \<Longrightarrow> snd (snd (forced_privacy_allows W f t)) \<in> I"
  by (simp add: forced_privacy_allows_def manual_privacy_allows_current_def Let_def case_prod_unfold keeps)

text \<open>What a change of the verdict leaves alone.\<close>

lemma set_privacy_reason_frame [simp]:
  "ip_privacy_reason (fst (set_privacy_reason_with_manual_exception W reason e t)) = reason"
  "ip_process_reason (fst (set_privacy_reason_with_manual_exception W reason e t)) = ip_process_reason (fst t)"
  "ip_last_process (fst (set_privacy_reason_with_manual_exception W reason e t)) = ip_last_process (fst t)"
  "ip_recent_privacy_ok (fst (set_privacy_reason_with_manual_exception W reason e t)) = ip_recent_privacy_ok (fst t)"
  "ip_privacy_generation (fst (set_privacy_reason_with_manual_exception W reason e t)) = ip_privacy_generation (fst t)"
  "ip_privacy_probe (fst (set_privacy_reason_with_manual_exception W reason e t)) = ip_privacy_probe (fst t)"
  using suppress_session_fields [of W "(fst t)\<lparr>ip_privacy_reason := reason, ip_last_word_reset := WordPrivacy,
      ip_pending := None, ip_deferred := None, ip_last_boundary := None, ip_transpose_cycle := None, ip_undo := None\<rparr>"]
  by (auto simp: set_privacy_reason_with_manual_exception_def case_prod_unfold Let_def)

lemma refresh_process_policy_frame [simp]:
  "ip_last_process (fst (refresh_process_policy W process t)) = Some process"
  "ip_recent_privacy_ok (fst (refresh_process_policy W process t)) = ip_recent_privacy_ok (fst t)"
  "ip_privacy_generation (fst (refresh_process_policy W process t)) = ip_privacy_generation (fst t)"
  "ip_privacy_probe (fst (refresh_process_policy W process t)) = ip_privacy_probe (fst t)"
  by (auto simp: refresh_process_policy_def set_privacy_reason_def case_prod_unfold Let_def)


section \<open>A pass has evidence\<close>

text \<open>The probe answered that the field may be read, or the answer was a failed inspection that leans on an
  earlier pass.\<close>

definition passes ::
  "processor \<Rightarrow> foreground_context \<Rightarrow> u64 \<Rightarrow> probe_trigger \<Rightarrow> instant \<Rightarrow> privacy_block_reason option \<Rightarrow> bool" where
  "passes p foreground epoch trigger now verdict \<longleftrightarrow>
     verdict = None
     \<or> verdict = Some FieldInspectionUnavailable \<and> keeps_recent_ok trigger
       \<and> (\<exists>r. ip_recent_privacy_ok p = Some r \<and> same_input_target (ro_foreground r) foreground
            \<and> ro_epoch r = epoch \<and> now < ro_at r + from_millis PRIVACY_RECENT_OK_MS)"

lemma probe_verdict_provider:
  "snd (probe_verdict result) = SourceProvider \<longleftrightarrow> (\<exists>v. result = Inr v)"
  by (auto simp: probe_verdict_def split: sum.split probe_failure.split)

lemma settle_passes:
  assumes "settle_probe_outcome reason source foreground epoch now trigger p = ((None, source'), p')"
    and "source \<noteq> SourceProvider \<Longrightarrow> reason \<noteq> None"
  shows "source = SourceProvider \<and> passes p foreground epoch trigger now reason"
  using assms
  by (auto simp: settle_probe_outcome_def passes_def recent_ok_age_def split: if_splits option.splits)

lemma settle_frame [simp]:
  "ip_process_reason (snd (settle_probe_outcome reason source f epoch now trigger p)) = ip_process_reason p"
  "ip_last_process (snd (settle_probe_outcome reason source f epoch now trigger p)) = ip_last_process p"
  by (simp_all add: settle_probe_outcome_def)

lemma publish_verdict_frame [simp]:
  "ip_process_reason (fst (publish_verdict W verdict f t)) = ip_process_reason (fst t)"
  "ip_last_process (fst (publish_verdict W verdict f t)) = ip_last_process (fst t)"
  "ip_privacy_reason (fst (publish_verdict W verdict f t)) = fst verdict"
  by (simp_all add: publish_verdict_def case_prod_unfold Let_def)

lemma apply_probe_answer_frame [simp]:
  "ip_process_reason (fst (apply_probe_answer W a current f epoch started trigger t)) = ip_process_reason (fst t)"
  "ip_last_process (fst (apply_probe_answer W a current f epoch started trigger t)) = ip_last_process (fst t)"
  by (simp_all add: apply_probe_answer_def case_prod_unfold Let_def del: settle_frame)
     (simp_all add: settle_frame)

lemma apply_probe_passes:
  assumes "ip_privacy_reason (fst (apply_probe_answer W (reason, source) current f epoch started trigger t)) = None"
    and known: "source \<noteq> SourceProvider \<Longrightarrow> reason \<noteq> None"
  shows "current \<and> source = SourceProvider \<and> passes (fst t) f epoch trigger (fst (ww_now W (snd t))) reason"
proof -
  let ?a = "if current then (reason, source) else (Some InspectionUnavailable, SourceContextChanged)"
  let ?settled = "settle_probe_outcome (fst ?a) (snd ?a) f epoch (fst (ww_now W (snd t))) trigger (fst t)"
  have "fst (fst ?settled) = None"
    using assms(1) by (auto simp: apply_probe_answer_def case_prod_unfold Let_def split: if_splits)
  then obtain source' p' where settled: "?settled = ((None, source'), p')" by (metis prod.collapse)
  have "snd ?a = SourceProvider \<and> passes (fst t) f epoch trigger (fst (ww_now W (snd t))) (fst ?a)"
    by (rule settle_passes [OF settled]) (cases current; simp add: known)
  then show ?thesis by (cases current) auto
qed


lemma ask_privacy_probe_frame [simp]:
  "ip_process_reason (fst (snd (ask_privacy_probe W f epoch t))) = ip_process_reason (fst t)"
  "ip_last_process (fst (snd (ask_privacy_probe W f epoch t))) = ip_last_process (fst t)"
  "ip_recent_privacy_ok (fst (snd (ask_privacy_probe W f epoch t))) = ip_recent_privacy_ok (fst t)"
  by (simp_all add: ask_privacy_probe_def case_prod_unfold Let_def split: option.split)

lemma ask_privacy_probe_answered:
  assumes "provider_laws (ww_privacy W) clock asked runs"
    and "\<And>probe. ip_privacy_probe p = Some probe \<Longrightarrow> probe_ok clock asked probe s"
    and "ask_privacy_probe W f epoch (p, s) = ((verdict, SourceProvider), p', s')"
  shows "ip_process_reason p = None
    \<and> timely clock runs (f, epoch, ip_privacy_generation p) (from_millis 500) s verdict s'"
proof -
  obtain probe probe' result where probe: "ip_privacy_probe p = Some probe" "ip_process_reason p = None"
    and run: "query_result (ww_privacy W) (f, epoch, ip_privacy_generation p) (from_millis PRIVACY_PROBE_WAIT_MS)
      (from_millis 500) probe s = (result, probe', s')" and "probe_verdict result = (verdict, SourceProvider)"
    using assms(3) by (auto simp: ask_privacy_probe_def Let_def split: option.splits prod.splits)
  then have "result = Inr verdict" by (auto simp: probe_verdict_def split: sum.splits probe_failure.splits)
  with query_result_ok [OF assms(1) assms(2) [OF probe(1)] run] probe(2) show ?thesis by simp
qed

lemma ask_privacy_probe_known:
  "snd (fst (ask_privacy_probe W f epoch t)) \<noteq> SourceProvider \<Longrightarrow> fst (fst (ask_privacy_probe W f epoch t)) \<noteq> None"
  by (auto simp: ask_privacy_probe_def probe_verdict_def case_prod_unfold Let_def
    split: option.splits sum.splits probe_failure.splits)

text \<open>The steps of a check, and that the worlds they pass keep what the world keeps.\<close>

lemma evaluate_privacy_steps:
  assumes run: "evaluate_privacy W foreground trigger t = (p', s')"
  obtains epoch verdict source p1 u1 u3 p4 u4 u5 current started where
    "refresh_process_policy W (fc_process foreground) t = (p1, u1)"
    "ask_privacy_probe W foreground epoch (p1, u3) = ((verdict, source), p4, u4)"
    "p' = fst (apply_probe_answer W (verdict, source) current foreground epoch started trigger (p4, u5))"
    "\<And>I. world_quiet W I \<Longrightarrow> snd t \<in> I \<Longrightarrow> u3 \<in> I \<and> u5 \<in> I"
proof -
  obtain p1 u1 where refreshed: "refresh_process_policy W (fc_process foreground) t = (p1, u1)" by fastforce
  obtain epoch u3 where u3: "load W m_input_epoch (snd (ww_now W u1)) = (epoch, u3)" by fastforce
  obtain verdict source p4 u4 where ask: "ask_privacy_probe W foreground epoch (p1, u3) = ((verdict, source), p4, u4)"
    by (metis surj_pair)
  define same where "same = (fst (load W m_input_epoch u4) = epoch)"
  define v where "v = snd (load W m_input_epoch u4)"
  define current where "current = (same \<and> fst (foreground_matches W foreground v))"
  define u5 where "u5 = (if same then snd (foreground_matches W foreground v) else v)"
  have p': "p' = fst (apply_probe_answer W (verdict, source) current foreground epoch (fst (ww_now W u1)) trigger (p4, u5))"
    using run u3 ask refreshed by (cases same) (simp_all add: evaluate_privacy_def case_prod_unfold Let_def current_def u5_def v_def same_def)
  have "u3 \<in> I \<and> u5 \<in> I" if "world_quiet W I" "snd t \<in> I" for I
  proof -
    have "u1 \<in> I" using refresh_process_policy_keeps [OF that] refreshed by (metis snd_conv)
    then have "u3 \<in> I" using u3 load_keeps [OF that(1)] quietD(1) [OF that(1)] by (metis snd_conv)
    moreover have "u4 \<in> I" using ask_privacy_probe_keeps [OF that(1), of "(p1, u3)"] \<open>u3 \<in> I\<close> ask by (metis snd_conv)
    ultimately show ?thesis by (auto simp: u5_def v_def intro!: keeps that(1))
  qed
  with refreshed ask p' show thesis by (rule that)
qed


section \<open>A blocked field\<close>

text \<open>What is left of the word when a field is blocked: nothing at all, or, in a terminal the user allowed, the
  keys of a word that only the hotkey may convert.\<close>

definition forgotten :: "processor \<Rightarrow> bool" where
  "forgotten p \<longleftrightarrow>
     ip_pending p = None \<and> ip_deferred p = None \<and> ip_undo p = None \<and> ip_last_boundary p = None
     \<and> ip_transpose_cycle p = None \<and> ip_replay_keys p = [] \<and> \<not> ip_manual_only_word p
     \<and> current_word (ip_session p) = [] \<and> suppressed_until_boundary (ip_session p)"

definition manual_only :: "processor \<Rightarrow> bool" where
  "manual_only p \<longleftrightarrow>
     ip_pending p = None \<and> ip_deferred p = None \<and> ip_undo p = None \<and> ip_manual_only_word p
     \<and> ip_backend p = BackendPhysical \<and> ip_process_reason p = None
     \<and> st_manual_terminal_uia_fallback (ip_settings p)"

lemma suppress_session_forgets:
  assumes "ip_pending p = None" "ip_deferred p = None" "ip_undo p = None" "ip_last_boundary p = None"
    "ip_transpose_cycle p = None"
  shows "forgotten (suppress_session W p)"
  using assms
  by (simp add: forgotten_def suppress_session_def handle_session_def session_handle_def session_reset_def case_prod_unfold Let_def)

lemma set_privacy_reason_forgets:
  assumes "\<not> (e \<and> r = FieldInspectionUnavailable)"
  shows "forgotten (fst (set_privacy_reason_with_manual_exception W (Some r) e t))"
  using assms
  by (auto simp: set_privacy_reason_with_manual_exception_def case_prod_unfold Let_def intro!: suppress_session_forgets)

lemma set_manual_exception:
  "fst (set_privacy_reason_with_manual_exception W (Some FieldInspectionUnavailable) True t) =
     (fst t)\<lparr>ip_privacy_reason := Some FieldInspectionUnavailable, ip_manual_only_word := True,
       ip_manual_only_inspection := True, ip_pending := None, ip_deferred := None, ip_undo := None\<rparr>"
  by (simp add: set_privacy_reason_with_manual_exception_def case_prod_unfold Let_def)

lemma manual_exception_facts:
  assumes "fst (manual_privacy_allows_reason W p (Some r) f s)"
  shows "ip_backend p = BackendPhysical" "ip_process_reason p = None" "st_manual_terminal_uia_fallback (ip_settings p)"
  using assms
  by (auto simp: manual_privacy_allows_reason_def verified_terminal_def manual_conversion_allowed_def
    case_prod_unfold Let_def split: if_splits)

lemma publish_verdict_forgets:
  assumes "p' = fst (publish_verdict W (Some r, source) foreground t)"
  shows "forgotten p' \<or> r = FieldInspectionUnavailable \<and> manual_only p'"
proof -
  define p where "p = (fst t)\<lparr>ip_privacy_needs_check := False\<rparr>"
  define e where "e = (r = FieldInspectionUnavailable
    \<and> fst (manual_privacy_allows_reason W p (Some r) foreground (snd t)))"
  obtain u where p': "p' = fst (set_privacy_reason_with_manual_exception W (Some r) e (p, u))"
    using assms unfolding e_def p_def
    by (cases "r = FieldInspectionUnavailable") (simp_all add: publish_verdict_def case_prod_unfold Let_def)
  show ?thesis
  proof (cases e)
    case True
    then have r: "r = FieldInspectionUnavailable" and "fst (manual_privacy_allows_reason W p (Some r) foreground (snd t))"
      unfolding e_def by blast+
    note facts = manual_exception_facts [OF this(2)]
    have "p' = fst (set_privacy_reason_with_manual_exception W (Some FieldInspectionUnavailable) True (p, u))"
      using p' True r by simp
    then show ?thesis using r facts by (simp add: set_manual_exception manual_only_def)
  next
    case False
    then show ?thesis using p' set_privacy_reason_forgets [of e r W "(p, u)"] by simp
  qed
qed


text \<open>The sample worker in its second check of the sample window's process.\<close>

definition sample_checked :: processor where
  "sample_checked = sample_processor\<lparr>ip_last_process := Some 42\<rparr>"

lemma sample_checked_fields [simp]:
  "ip_last_process sample_checked = Some 42" "ip_process_reason sample_checked = None"
  "ip_privacy_generation sample_checked = 0" "ip_manual_only_inspection sample_checked = False"
  "ip_recent_privacy_ok sample_checked = None"
  "ip_privacy_probe sample_checked = Some (probe_spawn_resilient 0 (from_secs 5) 3)"
  by (simp_all add: sample_checked_def sample_processor_def processor_new_def sample_facts_def consts_def)

lemma sample_window_process [simp]: "fc_process sample_window = 42"
  by (simp add: sample_window_def)

lemma sample_ask:
  "\<exists>probe s. ask_privacy_probe sample_world sample_window 0 (sample_checked, sample_start)
     = ((None, SourceProvider), sample_checked\<lparr>ip_privacy_probe := Some probe\<rparr>, s)
     \<and> ss_metrics s = sample_metrics \<and> ss_time s = from_secs 10 \<and> ss_layout s = 0x409"
  by (simp add: ask_privacy_probe_def query_result_def give_up_pending_def submit_request_def await_reply_def
    probe_spawn_resilient_def not_busy_def sample_inspector_def sample_start_def probe_verdict_def Let_def
    from_millis_def consts_def)
    (rule exI, rule refl)

lemma sample_pass:
  "\<exists>p s. evaluate_privacy sample_world sample_window TriggerTyping (sample_checked, sample_start) = (p, s)
     \<and> ip_privacy_reason p = None \<and> ip_process_reason p = None \<and> ip_last_process p = Some 42"
proof -
  obtain probe s where "ask_privacy_probe sample_world sample_window 0 (sample_checked, sample_start)
     = ((None, SourceProvider), sample_checked\<lparr>ip_privacy_probe := Some probe\<rparr>, s)"
    and s: "ss_metrics s = sample_metrics" "ss_layout s = 0x409" "ss_time s = from_secs 10"
    using sample_ask by blast
  moreover have "m_input_epoch (sm_observer sample_metrics) = 0" "m_input_epoch (sm_observer (ss_metrics sample_start)) = 0"
    by (simp_all add: sample_start_def sample_metrics_def observer_metrics_default_def)
  moreover have "foreground_matches sample_world sample_window s = (True, s)"
    by (simp add: foreground_matches_def same_input_target_def foreground_identity_key_def)
  ultimately show ?thesis
    by (simp add: evaluate_privacy_def refresh_process_policy_def apply_probe_answer_def settle_probe_outcome_def
      set_privacy_reason_with_manual_exception_def publish_verdict_def note_metric_def Let_def)
qed


text \<open>The same worker in a program the user excluded.\<close>

lemma sample_blocked:
  "\<exists>p s. evaluate_privacy sample_world sample_window TriggerTyping
       (sample_checked\<lparr>ip_process_reason := Some ExcludedProcess\<rparr>, sample_start) = (p, s)
     \<and> ip_privacy_reason p = Some ExcludedProcess"
proof -
  let ?p = "sample_checked\<lparr>ip_process_reason := Some ExcludedProcess\<rparr>"
  let ?c = "evaluate_privacy sample_world sample_window TriggerTyping (?p, sample_start)"
  have "foreground_matches sample_world sample_window sample_start = (True, sample_start)"
    by (simp add: foreground_matches_def same_input_target_def foreground_identity_key_def)
  then have "\<exists>q. ?c = publish_verdict sample_world (Some ExcludedProcess, SourceProcessPolicy) sample_window q"
    by (simp add: evaluate_privacy_def refresh_process_policy_def ask_privacy_probe_def apply_probe_answer_def
      settle_probe_outcome_def Let_def) blast
  then have "ip_privacy_reason (fst ?c) = Some ExcludedProcess" by auto
  then show ?thesis by (metis prod.collapse)
qed


end
