(* ===== verification/Protected_Paste.thy ===== *)
theory Protected_Paste
  imports Sample_World
begin

text \<open>
  \<open>src/windows_agent.rs\<close>: the two ways an edit is made. \<open>perform_protected_paste\<close> selects the word, puts
  the replacement on the clipboard, sends Ctrl+V and waits until the field shows it;
  \<open>perform_physical_edit\<close> switches the layout, erases the word and types it again.

  Each returns the attempt with the cells and the world. The clipboard object of a paste is dropped at
  every end of it (\<open>paste_end\<close>), as the source's local variable is.
\<close>

section \<open>The steps of a paste\<close>

definition protected_paste_outcome :: "bool \<Rightarrow> bool \<Rightarrow> text_edit_attempt" where
  "protected_paste_outcome target_confirmed clipboard_restored =
     (if \<not> target_confirmed then EditFailed FailTextCommit
      else if clipboard_restored then EditApplied else EditAppliedClipboardNotRestored)"

datatype clipboard_after = AfterRestore | AfterDefer

definition clipboard_after_paste :: "replay_attempt \<Rightarrow> clipboard_after" where
  "clipboard_after_paste commit = (if commit = Applied then AfterRestore else AfterDefer)"

definition select_for_paste ::
  "('s, 'r) worker_world \<Rightarrow> u32 \<Rightarrow> ustr \<Rightarrow> paste_patience \<Rightarrow> paste_budget \<Rightarrow> 's worker_cells \<Rightarrow>
     ((barrier_status \<times> selection_cleanup option) \<times> 's worker_cells) option" where
  "select_for_paste W process expected patience budget = (\<lambda>(c, s).
     case select_preceding_text_retrying (ww_field W) expected patience budget (ww_resolve W process)
            (ce_barrier_report c, s) of
       None \<Rightarrow> None
     | Some (selection, report, s) \<Rightarrow> Some (selection, (c\<lparr>ce_barrier_report := report\<rparr>, s)))"

definition collapse_selection_to_end ::
  "('s, 'r) worker_world \<Rightarrow> u32 \<Rightarrow> 's worker_cells \<Rightarrow> selection_cleanup \<times> 's worker_cells" where
  "collapse_selection_to_end W process = (\<lambda>(c, s).
     let report = ce_barrier_report c;
         (unresolved, _, s) = ww_resolve W process (report, s);
         (cleanup, s) =
           (if unresolved = None then collapse_selection (ww_field W) s else (Unverified, s))
     in (cleanup, (c\<lparr>ce_barrier_report := report\<lparr>tb_cleanup := Some cleanup\<rparr>\<rparr>, s)))"

text \<open>An operation of the clipboard, with the brokers kept in the cells.\<close>

definition with_brokers :: "(nat list \<Rightarrow> 's \<Rightarrow> 'a \<times> nat list \<times> 's) \<Rightarrow> 's worker_cells \<Rightarrow> 'a \<times> 's worker_cells" where
  "with_brokers f = (\<lambda>(c, s).
     let (x, lingering, s) = f (ce_lingering c) s in (x, (c\<lparr>ce_lingering := lingering\<rparr>, s)))"

definition clipboard_begin ::
  "('s, 'r) worker_world \<Rightarrow> ustr \<Rightarrow> duration \<Rightarrow> u32 \<Rightarrow> 's worker_cells \<Rightarrow>
     (clipboard_begin_failure + protected_clipboard) \<times> 's worker_cells" where
  "clipboard_begin W replacement wait process =
     with_brokers (begin_with (ww_clipboard W) replacement wait (process, from_millis UNCONFIRMED_PASTE_WAIT_MS))"

definition restore_within ::
  "('s, 'r) worker_world \<Rightarrow> duration \<Rightarrow> protected_clipboard \<Rightarrow> 's worker_cells \<Rightarrow>
     (bool \<times> protected_clipboard) \<times> 's worker_cells" where
  "restore_within W wait k =
     with_brokers (\<lambda>lingering s.
       let (restored, k, lingering, s) = restore_waiting (ww_clipboard W) wait k lingering s
       in ((restored, k), lingering, s))"

definition paste_submit :: "('s, 'r) worker_world \<Rightarrow> key_input list \<Rightarrow> 's worker_cells \<Rightarrow> nat \<times> 's worker_cells" where
  "paste_submit W inputs = out (send_input_count (ww_send_input W) inputs)"

definition count_clipboard_not_restored :: "('s, 'r) worker_world \<Rightarrow> 's worker_cells \<Rightarrow> 's worker_cells" where
  "count_clipboard_not_restored W =
     apsnd (note_metric W (sm_clipboard_restore_failures_update (\<lambda>n. n + 1)))"

definition abandon_selection ::
  "('s, 'r) worker_world \<Rightarrow> processor \<Rightarrow> foreground_context \<Rightarrow> u64 \<Rightarrow> text_edit_attempt \<Rightarrow> 's worker_cells \<Rightarrow>
     text_edit_attempt \<times> 's worker_cells" where
  "abandon_selection W p foreground sequence outcome t =
     (let (current, t) = out (edit_guard_is_current W p foreground sequence) t in
      if \<not> current then (EditSelectionLeft, t)
      else
        let (cleanup, t) = collapse_selection_to_end W (fc_process foreground) t
        in (if cleanup = Collapsed then outcome else EditSelectionLeft, t))"

text \<open>The end of a paste's function body: its clipboard is dropped.\<close>

definition paste_end ::
  "('s, 'r) worker_world \<Rightarrow> protected_clipboard \<Rightarrow> text_edit_attempt \<times> 's worker_cells \<Rightarrow>
     (text_edit_attempt \<times> 's worker_cells) option" where
  "paste_end W k = (\<lambda>(attempt, t).
     Some (attempt, snd (with_brokers (\<lambda>lingering s. ((), clipboard_drop (ww_clipboard W) k lingering s)) t)))"

section \<open>The paste\<close>

text \<open>What the edit was asked to do; the arguments of \<open>perform_protected_paste\<close>.\<close>

record paste_request =
  pr_foreground :: foreground_context
  pr_sequence :: u64
  pr_source_layout :: u64
  pr_target_layout :: u64
  pr_expected :: ustr
  pr_replacement :: ustr
  pr_patience :: paste_patience

text \<open>From the confirmed commit on: the clipboard comes back, the layout changes, and the field still shows
  the replacement.\<close>

definition paste_committed ::
  "('s, 'r) worker_world \<Rightarrow> processor \<Rightarrow> paste_request \<Rightarrow> paste_budget \<Rightarrow> protected_clipboard \<Rightarrow> 's worker_cells \<Rightarrow>
     (text_edit_attempt \<times> 's worker_cells) option" where
  "paste_committed W p q budget k t =
     (let (_, t) = out (clipboard_is_current (ww_clipboard W) k) t;
          (now, t) = cells_now W t;
          wait = wait_within budget now (from_millis CLIPBOARD_RESTORE_WAIT_MS)
            (from_millis PASTE_AFTER_LATE_COMMIT_MS);
          ((restored, k), t) = restore_within W wait k t;
          t = (if \<not> restored \<and> \<not> restore_pending k then count_clipboard_not_restored W t else t)
      in case switch_layout_and_wait W p (pr_foreground q) (pr_target_layout q) (pr_sequence q) (snd t) of
           None \<Rightarrow> None
         | Some (switched, s) \<Rightarrow>
             let t = (fst t, s) in
             if switched \<noteq> Applied then paste_end W k (EditFailed FailLayoutSwitch, t)
             else
               let (now, t) = cells_now W t;
                   margin = from_millis PASTE_UIA_MARGIN_MS;
                   poll_end = now + wait_within budget now (from_millis NOTEPAD_TEXT_BARRIER_TIMEOUT_MS) margin
               in case wait_for_text_commit W p (pr_foreground q) (pr_sequence q) (pr_target_layout q)
                         (pr_replacement q) (poll_end, commit_late_until budget poll_end margin) t of
                    None \<Rightarrow> None
                  | Some (commit, t) \<Rightarrow>
                      paste_end W k (protected_paste_outcome (commit = Applied) restored, t))"

text \<open>From the keys on.\<close>

definition paste_submitted ::
  "('s, 'r) worker_world \<Rightarrow> processor \<Rightarrow> paste_request \<Rightarrow> paste_budget \<Rightarrow> protected_clipboard \<Rightarrow> 's worker_cells \<Rightarrow>
     (text_edit_attempt \<times> 's worker_cells) option" where
  "paste_submitted W p q budget k t =
     (let (k, t) = out (mark_submitted (ww_clipboard W) k) t;
          (submitted, t) = paste_submit W build_paste_inputs t;
          defer = with_brokers (clipboard_defer (ww_clipboard W) k)
      in if submitted \<noteq> length build_paste_inputs then
           let (_, t) = paste_submit W [keyboard_input VK_LCONTROL 0 KEYEVENTF_KEYUP] t;
               (k, t) = defer t
           in paste_end W k
                (abandon_selection W p (pr_foreground q) (pr_sequence q) (EditFailed FailClipboardEdit) t)
         else
           let (now, t) = cells_now W t;
               poll_end = now + from_millis NOTEPAD_TEXT_BARRIER_TIMEOUT_MS;
               late_until = commit_late_until budget poll_end (from_millis PASTE_AFTER_LATE_COMMIT_MS)
           in case wait_for_text_commit W p (pr_foreground q) (pr_sequence q) (pr_source_layout q)
                     (pr_replacement q) (poll_end, late_until) t of
                None \<Rightarrow> None
              | Some (commit, t) \<Rightarrow>
                  if clipboard_after_paste commit = AfterDefer then
                    let (k, t) = defer t
                    in paste_end W k
                         (abandon_selection W p (pr_foreground q) (pr_sequence q) (EditFailed FailTextCommit) t)
                  else paste_committed W p q budget k t)"

text \<open>From the replacement on the clipboard on.\<close>

definition paste_installed ::
  "('s, 'r) worker_world \<Rightarrow> processor \<Rightarrow> paste_request \<Rightarrow> paste_budget \<Rightarrow> protected_clipboard \<Rightarrow> 's worker_cells \<Rightarrow>
     (text_edit_attempt \<times> 's worker_cells) option" where
  "paste_installed W p q budget k t =
     (let (current, t) = out (clipboard_is_current (ww_clipboard W) k) t;
          (now, t) = cells_now W t;
          (go, t) =
            (if \<not> current \<or> \<not> allows_submit budget now then (False, t)
             else out (edit_guard_is_current W p (pr_foreground q) (pr_sequence q)) t)
      in if go then paste_submitted W p q budget k t
         else
           let ((restored, k), t) = restore_within W (from_millis CLIPBOARD_RESTORE_WAIT_MS) k t;
               t = (if \<not> restored \<and> \<not> restore_pending k then count_clipboard_not_restored W t else t)
           in paste_end W k (abandon_selection W p (pr_foreground q) (pr_sequence q) EditCancelled t))"

definition paste_selected ::
  "('s, 'r) worker_world \<Rightarrow> processor \<Rightarrow> paste_request \<Rightarrow> paste_budget \<Rightarrow> 's worker_cells \<Rightarrow>
     (text_edit_attempt \<times> 's worker_cells) option" where
  "paste_selected W p q budget t =
     (let abandon = abandon_selection W p (pr_foreground q) (pr_sequence q) EditCancelled;
          (now, t) = cells_now W t
      in case install_timeout budget now (pr_patience q) of
           None \<Rightarrow> Some (abandon t)
         | Some wait \<Rightarrow>
             (case clipboard_begin W (pr_replacement q) wait (fc_process (pr_foreground q)) t of
                (Inl _, t) \<Rightarrow> Some (abandon t)
              | (Inr k, t) \<Rightarrow> paste_installed W p q budget k t))"

definition paste_guarded ::
  "('s, 'r) worker_world \<Rightarrow> processor \<Rightarrow> paste_request \<Rightarrow> 's worker_cells \<Rightarrow>
     (text_edit_attempt \<times> 's worker_cells) option" where
  "paste_guarded W p q t =
     (let budget = \<lparr>pb_deadline = ce_edit_deadline (fst t)\<rparr>;
          (current, t) = out (edit_guard_is_current W p (pr_foreground q) (pr_sequence q)) t
      in if \<not> current then Some (EditCancelled, t)
         else
           let (now, t) = cells_now W t in
           if \<not> allows_selection budget now (pr_patience q) then Some (EditCancelled, t)
           else case select_for_paste W (fc_process (pr_foreground q)) (pr_expected q) (pr_patience q) budget t of
             None \<Rightarrow> None
           | Some ((selection, cleanup), t) \<Rightarrow>
               if cleanup = Some Unverified then Some (EditSelectionLeft, t)
               else case selection of
                 Match \<Rightarrow> paste_selected W p q budget t
               | Mismatch \<Rightarrow> Some (EditCancelled, t)
               | Unavailable_text \<Rightarrow> Some (EditUnsupported, t))"

text \<open>\<open>BusyGuard\<close>: the flag is set while the edit runs.\<close>

definition edit_in_flight ::
  "('s, 'r) worker_world \<Rightarrow> ('s worker_cells \<Rightarrow> ('a \<times> 's worker_cells) option) \<Rightarrow> 's worker_cells \<Rightarrow>
     ('a \<times> 's worker_cells) option" where
  "edit_in_flight W body t =
     (case body (apsnd (store W (m_edit_in_flight_update (\<lambda>_. True))) t) of
        None \<Rightarrow> None
      | Some (x, t) \<Rightarrow> Some (x, apsnd (store W (m_edit_in_flight_update (\<lambda>_. False))) t))"

definition perform_protected_paste ::
  "('s, 'r) worker_world \<Rightarrow> processor \<Rightarrow> paste_request \<Rightarrow> 's worker_cells \<Rightarrow>
     (text_edit_attempt \<times> 's worker_cells) option" where
  "perform_protected_paste W p q = edit_in_flight W (paste_guarded W p q)"

section \<open>The physical edit\<close>

definition replay_seam_of ::
  "('s, 'r) worker_world \<Rightarrow> processor \<Rightarrow> foreground_context \<Rightarrow> u64 \<Rightarrow> bool \<Rightarrow> 's replay_seam" where
  "replay_seam_of W p foreground sequence pacer =
     \<lparr>rs_guard = edit_guard_is_current W p foreground sequence,
      rs_send = send_input_batch (ww_send_input W),
      rs_pace = (\<lambda>s. if pacer then ww_pacer_wait W s else ww_sleep W NOTEPAD_REPLAY_STEP_DELAY_MS s)\<rparr>"

definition physical_edit ::
  "('s, 'r) worker_world \<Rightarrow> processor \<Rightarrow> foreground_context \<Rightarrow> u64 \<Rightarrow> u64 \<Rightarrow> nat \<Rightarrow> replay_key list \<Rightarrow> uchar option \<Rightarrow>
     's \<Rightarrow> (replay_attempt \<times> 's) option" where
  "physical_edit W p foreground sequence target_layout erase keys delimiter s =
     (let (current, s) = edit_guard_is_current W p foreground sequence s in
      if \<not> current then Some (Cancelled, s)
      else if keys = [] then Some (Failed, s)
      else if list_ex (\<lambda>k. rk_caps_lock k \<noteq> rk_caps_lock (hd keys)) keys then Some (Failed, s)
      else case build_physical_replay_plan erase keys delimiter of
        None \<Rightarrow> Some (Failed, s)
      | Some plan \<Rightarrow>
          let mode = (if requires_text_barrier (ip_backend p) then Paced else Batch) in
          if mode = Paced \<and> \<not> paced_replay_fits_gate (length (rp_step_ends plan)) then Some (Failed, s)
          else
            let (pacer, s) = (if mode = Paced then ww_pacer W s else (False, s)) in
            case switch_layout_and_wait W p foreground target_layout sequence s of
              None \<Rightarrow> None
            | Some (switched, s) \<Rightarrow>
                if switched = Cancelled then Some (Cancelled, s)
                else if switched \<noteq> Applied then Some (LayoutSwitchFailed, s)
                else
                  let (current, s) = edit_guard_is_current W p foreground sequence s in
                  if \<not> current then Some (Failed, s)
                  else
                    let (result, s) = dispatch_physical_replay_plan
                          (replay_seam_of W p foreground sequence pacer) plan mode s
                    in Some (if result = Cancelled then Failed else result, s))"

definition perform_physical_edit ::
  "('s, 'r) worker_world \<Rightarrow> processor \<Rightarrow> foreground_context \<Rightarrow> u64 \<Rightarrow> u64 \<Rightarrow> nat \<Rightarrow> replay_key list \<Rightarrow> uchar option \<Rightarrow>
     's \<Rightarrow> (replay_attempt \<times> 's) option" where
  "perform_physical_edit W p foreground sequence target_layout erase keys delimiter s =
     (case physical_edit W p foreground sequence target_layout erase keys delimiter
             (store W (m_edit_in_flight_update (\<lambda>_. True)) s) of
        None \<Rightarrow> None
      | Some (r, s) \<Rightarrow> Some (r, store W (m_edit_in_flight_update (\<lambda>_. False)) s))"

section \<open>What the parts of an edit keep\<close>

definition field_quiet :: "('s, 'r) worker_world \<Rightarrow> 's set \<Rightarrow> bool" where
  "field_quiet W I \<longleftrightarrow>
     (\<forall>s. s \<in> I \<longrightarrow>
        snd (tf_selection (ww_field W) s) \<in> I \<and> snd (tf_now (ww_field W) s) \<in> I
        \<and> (\<forall>d. tf_sleep (ww_field W) d s \<in> I)
        \<and> (\<forall>r. snd (tf_is_empty (ww_field W) r s) \<in> I \<and> snd (tf_clone_range (ww_field W) r s) \<in> I
              \<and> snd (tf_text (ww_field W) r s) \<in> I \<and> (\<forall>n. snd (tf_move_start (ww_field W) r n s) \<in> I)
              \<and> snd (tf_select (ww_field W) r s) \<in> I \<and> snd (tf_collapse_to_end (ww_field W) r s) \<in> I)
        \<and> (\<forall>process report. snd (snd (ww_resolve W process (report, s))) \<in> I))"

definition link_quiet :: "'s clipboard_link \<Rightarrow> 's set \<Rightarrow> bool" where
  "link_quiet L I \<longleftrightarrow>
     (\<forall>s. s \<in> I \<longrightarrow>
        snd (cl_now L s) \<in> I \<and> snd (cl_state L s) \<in> I \<and> (\<forall>w. snd (cl_spawn L w s) \<in> I)
        \<and> (\<forall>b. snd (cl_finished L b s) \<in> I \<and> cl_join L b s \<in> I \<and> snd (cl_end L b s) \<in> I \<and> cl_cancel L b s \<in> I
              \<and> (\<forall>c. cl_try_send L b c s \<in> I \<and> snd (cl_send L b c s) \<in> I)
              \<and> (\<forall>d. snd (cl_receive L b d s) \<in> I)))"

lemma field_quietD [keeps]:
  assumes "field_quiet W I" "s \<in> I"
  shows "snd (tf_selection (ww_field W) s) \<in> I" "snd (tf_now (ww_field W) s) \<in> I"
    "tf_sleep (ww_field W) d s \<in> I" "snd (tf_is_empty (ww_field W) r s) \<in> I"
    "snd (tf_clone_range (ww_field W) r s) \<in> I" "snd (tf_text (ww_field W) r s) \<in> I"
    "snd (tf_move_start (ww_field W) r n s) \<in> I" "snd (tf_select (ww_field W) r s) \<in> I"
    "snd (tf_collapse_to_end (ww_field W) r s) \<in> I" "snd (snd (ww_resolve W process (report, s))) \<in> I"
  using assms by (simp_all add: field_quiet_def)

lemma link_quietD [keeps]:
  assumes "link_quiet L I" "s \<in> I"
  shows "snd (cl_now L s) \<in> I" "snd (cl_state L s) \<in> I" "snd (cl_spawn L w s) \<in> I"
    "snd (cl_finished L b s) \<in> I" "cl_join L b s \<in> I" "snd (cl_end L b s) \<in> I" "cl_cancel L b s \<in> I"
    "cl_try_send L b c s \<in> I" "snd (cl_send L b c s) \<in> I" "snd (cl_receive L b d s) \<in> I"
  using assms by (simp_all add: link_quiet_def)

lemma brokers_busy_keeps [keeps]: "link_quiet L I \<Longrightarrow> s \<in> I \<Longrightarrow> snd (brokers_busy L bs s) \<in> I"
  by (induction bs arbitrary: s) (auto simp: Let_def case_prod_unfold keeps)

lemma begin_keeps [keeps]: "link_quiet L I \<Longrightarrow> s \<in> I \<Longrightarrow> snd (snd (begin_with L w d target lingering s)) \<in> I"
  by (auto simp: begin_with_def Let_def case_prod_unfold keeps split: option.splits broker_response.splits)

lemma clipboard_is_current_keeps [keeps]: "link_quiet L I \<Longrightarrow> s \<in> I \<Longrightarrow> snd (clipboard_is_current L k s) \<in> I"
  by (simp add: clipboard_is_current_def Let_def case_prod_unfold keeps)

lemma mark_submitted_keeps [keeps]: "link_quiet L I \<Longrightarrow> s \<in> I \<Longrightarrow> snd (mark_submitted L k s) \<in> I"
  by (simp add: mark_submitted_def Let_def case_prod_unfold keeps)

lemma clipboard_finish_keeps [keeps]:
  "link_quiet L I \<Longrightarrow> s \<in> I \<Longrightarrow> snd (snd (snd (clipboard_finish L c wait k lingering s))) \<in> I"
  by (simp add: clipboard_finish_def Let_def case_prod_unfold keeps)

lemma restore_waiting_keeps [keeps]:
  "link_quiet L I \<Longrightarrow> s \<in> I \<Longrightarrow> snd (snd (snd (restore_waiting L wait k lingering s))) \<in> I"
  by (simp add: restore_waiting_def Let_def case_prod_unfold keeps)

lemma clipboard_defer_keeps [keeps]:
  "link_quiet L I \<Longrightarrow> s \<in> I \<Longrightarrow> snd (snd (clipboard_defer L k lingering s)) \<in> I"
  by (auto simp: clipboard_defer_def Let_def case_prod_unfold keeps split: option.splits)

lemma clipboard_drop_keeps [keeps]:
  "link_quiet L I \<Longrightarrow> s \<in> I \<Longrightarrow> snd (clipboard_drop L k lingering s) \<in> I"
  by (simp add: clipboard_drop_def clipboard_restore_def Let_def case_prod_unfold keeps)

lemma collapse_attempts_keeps [keeps]:
  assumes "field_quiet W I" "s \<in> I"
  shows "snd (collapse_attempts (ww_field W) deadline first left s) \<in> I"
  using assms(2)
proof (induction left arbitrary: first s)
  case (Suc left)
  show ?case
    using Suc.prems assms(1)
    by (auto simp: Let_def case_prod_unfold keeps intro!: Suc.IH split: selection_read.splits option.splits bool.splits)
qed simp

lemma collapse_selection_keeps [keeps]:
  "field_quiet W I \<Longrightarrow> s \<in> I \<Longrightarrow> snd (collapse_selection (ww_field W) s) \<in> I"
  by (simp add: collapse_selection_def Let_def case_prod_unfold keeps)

lemma read_preceding_keeps [keeps]:
  "field_quiet W I \<Longrightarrow> s \<in> I \<Longrightarrow> snd (snd (read_preceding_text (ww_field W) units x report s)) \<in> I"
  by (auto simp: read_preceding_text_def Let_def case_prod_unfold keeps split: selection_read.splits option.splits)

lemma poll_selection_keeps [keeps]:
  "field_quiet W I \<Longrightarrow> snd t \<in> I \<Longrightarrow> snd (snd (poll_selection (ww_field W) x units t)) \<in> I"
  by (auto simp: poll_selection_def Let_def case_prod_unfold keeps split: selection_read.splits option.splits)

lemma confirm_loop_keeps:
  assumes run: "confirm_loop expired poll matches sleep other shown t = Some r" and "t \<in> J"
    and step: "\<And>t. t \<in> J \<Longrightarrow> snd (expired t) \<in> J" "\<And>t. t \<in> J \<Longrightarrow> snd (poll t) \<in> J" "\<And>t. t \<in> J \<Longrightarrow> sleep t \<in> J"
  shows "snd r \<in> J"
proof -
  define P where "P expired poll (matches :: ustr \<Rightarrow> bool) sleep (other :: bool) (shown :: bool) t r \<longleftrightarrow>
      (\<forall>t. t \<in> J \<longrightarrow> snd (expired t) \<in> J \<and> snd (poll t) \<in> J \<and> sleep t \<in> J) \<longrightarrow> t \<in> J \<longrightarrow> snd r \<in> J"
    for expired :: "'a \<Rightarrow> bool \<times> 'a" and poll :: "'a \<Rightarrow> selection_poll \<times> 'a" and matches sleep other shown t
      and r :: "selection_confirmation \<times> 'a"
  have "P expired poll matches sleep other shown t r"
  proof (rule confirm_loop.raw_induct [where P = P, OF _ run], goal_cases)
    case (1 loop expired poll matches sleep other shown t r)
    show ?case
      unfolding P_def
    proof (intro impI)
      assume step: "\<forall>t. t \<in> J \<longrightarrow> snd (expired t) \<in> J \<and> snd (poll t) \<in> J \<and> sleep t \<in> J" and "t \<in> J"
      let ?p = "poll (snd (expired t))"
      have e: "snd (expired t) \<in> J" and p: "snd ?p \<in> J" and z: "sleep (snd ?p) \<in> J"
        using step \<open>t \<in> J\<close> by blast+
      have again: "snd r \<in> J" if "loop expired poll matches sleep other' shown' (sleep (snd ?p)) = Some r"
        for other' shown'
        using 1(1) [OF that] step z by (simp add: P_def)
      show "snd r \<in> J"
        using 1(2) e p
        by (auto simp: Let_def split: if_splits selection_poll.splits dest: again)
    qed
  qed
  then show ?thesis using assms(2) step by (simp add: P_def)
qed

lemma confirm_own_keeps:
  assumes run: "confirm_own_selection (ww_field W) x timeout units report s = Some (a, report', s')"
    and q: "field_quiet W I" "s \<in> I"
  shows "s' \<in> I"
proof -
  let ?F = "ww_field W"
  let ?d = "fst (tf_now ?F s) + timeout"
  let ?loop = "confirm_loop (\<lambda>(report, s). let (now', s) = tf_now ?F s in (?d \<le> now', report, s))
    (poll_selection ?F x units) (\<lambda>actual. text_barrier_matches actual x)
    (\<lambda>(report, s). (report, tf_sleep ?F (from_millis 1) s)) False False (report, snd (tf_now ?F s))"
  obtain outcome report2 s2 where loop: "?loop = Some (outcome, report2, s2)"
    using run by (cases ?loop) (auto simp: confirm_own_selection_def confirm_selection_def case_prod_unfold Let_def)
  have "s2 \<in> I"
    using confirm_loop_keeps [OF loop, of "{t. snd t \<in> I}"] q
    by (auto simp: case_prod_unfold Let_def keeps)
  then show ?thesis
    using run loop q
    by (auto simp: confirm_own_selection_def confirm_selection_def case_prod_unfold Let_def keeps split: if_splits)
qed

lemma attempt_keeps:
  assumes run: "select_preceding_text_in (ww_field W) x timeout earlier (ww_resolve W process) t = Some (a, u)"
    and q: "field_quiet W I" "snd t \<in> I"
  shows "snd u \<in> I"
proof (cases "barrier_units x")
  case None
  then show ?thesis using run q by (auto simp: select_preceding_text_in_def)
next
  case (Some units)
  obtain status report s where r: "ww_resolve W process t = (status, report, s)" by (metis surj_pair)
  then have s: "s \<in> I" using q keeps(1) by (metis field_quietD(10) snd_conv surj_pair)
  obtain answer report1 s1 where rd: "read_preceding_text (ww_field W) units x report s = (answer, report1, s1)"
    by (metis surj_pair)
  then have s1: "s1 \<in> I" using read_preceding_keeps [OF q(1) s, of units x report] by simp
  have s2: "snd (tf_select (ww_field W) w s1) \<in> I" for w using q(1) s1 by (rule keeps)
  show ?thesis
  proof (cases status)
    case (Some st)
    then show ?thesis using run r s \<open>barrier_units x = Some units\<close> by (auto simp: select_preceding_text_in_def)
  next
    case None
    show ?thesis
    proof (cases answer)
      case (Inl st)
      then show ?thesis
        using run r None rd s1 q(1) \<open>barrier_units x = Some units\<close>
        by (auto simp: select_preceding_text_in_def case_prod_unfold Let_def keeps)
    next
      case (Inr w)
      then show ?thesis
        using run r None rd s1 s2 [of w] q(1) \<open>barrier_units x = Some units\<close>
        by (cases u) (auto simp: select_preceding_text_in_def case_prod_unfold Let_def keeps
          split: if_splits elim: confirm_own_keeps)
    qed
  qed
qed

lemma retry_keeps:
  assumes "\<And>earlier t a u. attempt earlier t = Some (a, u) \<Longrightarrow> t \<in> J \<Longrightarrow> u \<in> J"
    and "\<And>t. t \<in> J \<Longrightarrow> snd (may_retry t) \<in> J"
  shows "retry_unshown_selection attempts may_retry attempt runs t = Some (a, n, u) \<Longrightarrow> t \<in> J \<Longrightarrow> u \<in> J"
  using assms
proof (induction attempts may_retry attempt runs t rule: retry_unshown_selection.induct)
  case (1 attempts may_retry attempt runs t)
  obtain result t1 where a: "attempt (runs > 0) t = Some (result, t1)"
    using "1.prems"(1) by (subst (asm) retry_unshown_selection.simps) (auto split: option.splits)
  then have t1: "t1 \<in> J" using "1.prems"(2,3) by blast
  obtain again t2 where m: "may_retry t1 = (again, t2)" by (metis surj_pair)
  then have t2: "t2 \<in> J" using "1.prems"(4) [OF t1] by simp
  show ?case
  proof (cases "\<not> unshown result \<or> attempts \<le> runs + 1")
    case True
    then show ?thesis
      using "1.prems"(1) a t1 by (subst (asm) retry_unshown_selection.simps) (auto simp: Let_def)
  next
    case False
    show ?thesis
    proof (cases again)
      case True
      then have "retry_unshown_selection attempts may_retry attempt (runs + 1) t2 = Some (a, n, u)"
        using "1.prems"(1) a m False by (subst (asm) retry_unshown_selection.simps) (simp add: Let_def)
      from "1.IH" [OF a refl refl _ refl m [symmetric] _ this t2 "1.prems"(3,4)] show ?thesis
        using False True by simp
    next
      case stop: False
      then show ?thesis
        using "1.prems"(1) a m False t2 by (subst (asm) retry_unshown_selection.simps) (auto simp: Let_def)
    qed
  qed
qed

lemma select_for_paste_keeps:
  assumes run: "select_for_paste W process x patience budget t = Some (r, t')"
    and q: "field_quiet W I" "snd t \<in> I"
  shows "snd t' \<in> I"
proof -
  let ?attempt = "\<lambda>earlier (report, s). select_preceding_text_in (ww_field W) x (confirm_timeout patience) earlier
    (ww_resolve W process) (barrier_report_default\<lparr>tb_expected_chars := length x\<rparr>, s)"
  let ?may = "\<lambda>(report, s). let (now, s) = tf_now (ww_field W) s in (allows_selection budget now patience, report, s)"
  obtain a n u where "retry_unshown_selection (patience_attempts patience) ?may ?attempt 0
      (ce_barrier_report (fst t), snd t) = Some (a, n, u)" (is "?run") and t': "snd t' = snd u"
    using run by (auto simp: select_for_paste_def select_preceding_text_retrying_def case_prod_unfold split: option.splits)
  then have run': ?run by simp
  have "u \<in> {t. snd t \<in> I}"
  proof (rule retry_keeps [where J = "{t. snd t \<in> I}" and attempt = ?attempt and may_retry = ?may])
    show "u \<in> {t. snd t \<in> I}" if "?attempt earlier t = Some (a, u)" "t \<in> {t. snd t \<in> I}" for earlier t a u
      using attempt_keeps [OF _ q(1), of x "confirm_timeout patience" earlier process
          "(barrier_report_default\<lparr>tb_expected_chars := length x\<rparr>, snd t)" a u] that
      by (simp add: case_prod_unfold)
  qed (use q run' in \<open>auto simp: case_prod_unfold Let_def keeps\<close>)
  then show ?thesis using t' by simp
qed

section \<open>What a paste does to the field and the clipboard\<close>

text \<open>\<open>sent s\<close> are the inputs the worker sent so far, \<open>told s b\<close> the commands broker \<open>b\<close> got, \<open>mine s\<close> says that the
  field still shows a selection of the agent. Inputs are sent by \<open>SendInput\<close> alone, which takes the first
  of them; commands by the clipboard's channels alone; a selection appears by \<open>Select()\<close> alone.\<close>

definition paste_laws ::
  "('s, 'r) worker_world \<Rightarrow> ('s \<Rightarrow> key_input list) \<Rightarrow> ('s \<Rightarrow> nat \<Rightarrow> broker_command list) \<Rightarrow> ('s \<Rightarrow> bool) \<Rightarrow> bool" where
  "paste_laws W sent told mine \<longleftrightarrow>
     (\<forall>x y. world_quiet W {s. sent s = x \<and> told s = y} \<and> field_quiet W {s. sent s = x \<and> told s = y})
     \<and> world_quiet W {s. \<not> mine s} \<and> field_truthful (ww_field W) mine \<and> (\<forall>process. resolver_quiet (ww_resolve W process) mine)
     \<and> (\<forall>x. link_quiet (ww_clipboard W) {s. sent s = x}) \<and> link_quiet (ww_clipboard W) {s. \<not> mine s}
     \<and> link_laws (ww_clipboard W) told
     \<and> (\<forall>inputs s. sent (snd (ww_send_input W inputs s)) = sent s @ take (fst (ww_send_input W inputs s)) inputs
          \<and> told (snd (ww_send_input W inputs s)) = told s)"

lemma paste_lawsD:
  assumes "paste_laws W sent told mine"
  shows "world_quiet W {s. sent s = x \<and> told s = y}" "field_quiet W {s. sent s = x \<and> told s = y}"
    "world_quiet W {s. \<not> mine s}" "field_truthful (ww_field W) mine" "resolver_quiet (ww_resolve W process) mine"
    "link_quiet (ww_clipboard W) {s. sent s = x}" "link_quiet (ww_clipboard W) {s. \<not> mine s}"
    "link_laws (ww_clipboard W) told"
    "sent (snd (ww_send_input W inputs s)) = sent s @ take (fst (ww_send_input W inputs s)) inputs"
    "told (snd (ww_send_input W inputs s)) = told s"
  using assms by (simp_all add: paste_laws_def)

text \<open>Neither keys nor commands were sent between two worlds.\<close>

definition untouched ::
  "('s \<Rightarrow> key_input list) \<Rightarrow> ('s \<Rightarrow> nat \<Rightarrow> broker_command list) \<Rightarrow> 's \<Rightarrow> 's \<Rightarrow> bool" where
  "untouched sent told s s' \<longleftrightarrow> sent s' = sent s \<and> told s' = told s"

lemma untouched_refl [simp]: "untouched sent told s s"
  by (simp add: untouched_def)

lemma untouched_in: "s' \<in> {s'. sent s' = sent s \<and> told s' = told s} \<Longrightarrow> untouched sent told s s'"
  by (simp add: untouched_def)

lemma collapsed_gone:
  "field_truthful F mine \<Longrightarrow> fst (collapse_selection F s) = Collapsed \<Longrightarrow> \<not> mine (snd (collapse_selection F s))"
  using collapse_selection_collapsed [of F mine s "snd (collapse_selection F s)"] by (metis prod.collapse)

lemma abandon_leaves:
  assumes laws: "paste_laws W sent told mine" and run: "abandon_selection W p f q r t = (r', t')"
  shows "untouched sent told (snd t) (snd t') \<and> r' \<in> {r, EditSelectionLeft}
    \<and> (r' \<noteq> EditSelectionLeft \<longrightarrow> \<not> mine (snd t'))"
proof -
  have frame: "snd t' \<in> J" if "world_quiet W J" "field_quiet W J" "snd t \<in> J" for J
    using run that by (auto simp: abandon_selection_def collapse_selection_to_end_def Let_def case_prod_unfold keeps
      split: if_splits)
  have "snd t' \<in> {s'. sent s' = sent (snd t) \<and> told s' = told (snd t)}"
    by (rule frame) (simp_all add: paste_lawsD [OF laws])
  moreover have "\<not> mine (snd t')" if "r' \<noteq> EditSelectionLeft"
    using run that collapsed_gone [OF paste_lawsD(4) [OF laws]]
    by (auto simp: abandon_selection_def collapse_selection_to_end_def Let_def case_prod_unfold split: if_splits)
  ultimately show ?thesis
    using run by (auto simp: abandon_selection_def Let_def case_prod_unfold intro: untouched_in split: if_splits)
qed

lemma paste_end_inactive:
  assumes "paste_end W k rt = Some (r, t')" "\<not> pk_active k"
  shows "r = fst rt \<and> snd t' = snd (snd rt)"
  using assms
  by (auto simp: paste_end_def with_brokers_def clipboard_drop_def clipboard_defer_def clipboard_restore_def
      restore_waiting_def case_prod_unfold Let_def split: if_splits)

text \<open>The clipboard's own steps send no key, and tell its broker one command.\<close>

definition told_one ::
  "('s \<Rightarrow> key_input list) \<Rightarrow> ('s \<Rightarrow> nat \<Rightarrow> broker_command list) \<Rightarrow> nat \<Rightarrow> broker_command \<Rightarrow> 's \<Rightarrow> 's \<Rightarrow> bool" where
  "told_one sent told b c s s' \<longleftrightarrow> sent s' = sent s \<and> told s' = (told s)(b := told s b @ [c])"

lemma waiting_told:
  assumes L: "link_laws L told" and run: "restore_waiting L wait k lingering s = (r, k', lingering', s')"
    and active: "pk_active k"
  shows "\<exists>c. told s' = (told s)(pk_broker k := told s (pk_broker k) @ [c]) \<and> c \<in> {Restore, Abandon}
    \<and> (r \<longrightarrow> c = Restore) \<and> \<not> pk_active k' \<and> pk_broker k' = pk_broker k"
proof -
  obtain state u where u: "cl_state L s = (state, u)" by fastforce
  then have tu: "told u = told s" using link_lawsD(2) [OF L, of s] by simp
  let ?c = "if state = (pk_sequence k, pk_owner k) then Restore else Abandon"
  obtain r0 where f: "clipboard_finish L ?c wait (k\<lparr>pk_active := False\<rparr>) lingering u = (r0, k', lingering', s')"
    and r: "r \<longrightarrow> ?c = Restore"
    using run active u
    by (cases "clipboard_finish L Abandon wait (k\<lparr>pk_active := False\<rparr>) lingering u")
      (auto simp: restore_waiting_def Let_def split: if_splits)
  show ?thesis using finish_tells [OF L f] tu r by auto
qed

lemma defer_told:
  assumes "link_laws L told" "clipboard_defer L k lingering s = (k', lingering', s')" "pk_active k"
  shows "\<exists>c. told s' = (told s)(pk_broker k := told s (pk_broker k) @ [c]) \<and> is_defer c \<and> \<not> pk_active k'"
  using assms(2,3) link_lawsD(1,8) [OF assms(1)]
  by (auto simp: clipboard_defer_def is_defer_def Let_def case_prod_unfold split: if_splits option.splits)

lemma restore_tells:
  assumes laws: "paste_laws W sent told mine" and active: "pk_active k"
    and run: "restore_within W wait k t = ((r, k'), t')"
  shows "\<exists>c. told_one sent told (pk_broker k) c (snd t) (snd t') \<and> c \<in> {Restore, Abandon} \<and> (r \<longrightarrow> c = Restore)
    \<and> \<not> pk_active k' \<and> pk_broker k' = pk_broker k \<and> (\<not> mine (snd t) \<longrightarrow> \<not> mine (snd t'))"
proof -
  obtain l' where rw: "restore_waiting (ww_clipboard W) wait k (ce_lingering (fst t)) (snd t) = (r, k', l', snd t')"
    using run by (cases "restore_waiting (ww_clipboard W) wait k (ce_lingering (fst t)) (snd t)")
      (auto simp: restore_within_def with_brokers_def case_prod_unfold Let_def)
  have L: "link_laws (ww_clipboard W) told" by (rule paste_lawsD [OF laws])
  have frame: "snd t' \<in> J" if "link_quiet (ww_clipboard W) J" "snd t \<in> J" for J
    using restore_waiting_keeps [OF that, of wait k "ce_lingering (fst t)"] rw by simp
  have "sent (snd t') = sent (snd t)" using frame [OF paste_lawsD(6) [OF laws]] by simp
  moreover have "\<not> mine (snd t) \<longrightarrow> \<not> mine (snd t')" using frame [OF paste_lawsD(7) [OF laws]] by simp
  moreover have "\<exists>c. told (snd t') = (told (snd t))(pk_broker k := told (snd t) (pk_broker k) @ [c])
      \<and> c \<in> {Restore, Abandon} \<and> (r \<longrightarrow> c = Restore) \<and> \<not> pk_active k' \<and> pk_broker k' = pk_broker k"
    by (rule waiting_told [OF L rw active])
  ultimately show ?thesis by (auto simp: told_one_def)
qed

lemma defer_one:
  assumes laws: "paste_laws W sent told mine" and active: "pk_active k"
    and run: "with_brokers (clipboard_defer (ww_clipboard W) k) t = (k', t')"
  shows "\<exists>c. told_one sent told (pk_broker k) c (snd t) (snd t') \<and> is_defer c \<and> \<not> pk_active k'
    \<and> (\<not> mine (snd t) \<longrightarrow> \<not> mine (snd t'))"
proof -
  obtain l' where d: "clipboard_defer (ww_clipboard W) k (ce_lingering (fst t)) (snd t) = (k', l', snd t')"
    using run by (cases "clipboard_defer (ww_clipboard W) k (ce_lingering (fst t)) (snd t)")
      (auto simp: with_brokers_def case_prod_unfold Let_def)
  have L: "link_laws (ww_clipboard W) told" by (rule paste_lawsD [OF laws])
  have frame: "snd t' \<in> J" if "link_quiet (ww_clipboard W) J" "snd t \<in> J" for J
    using clipboard_defer_keeps [OF that, of k "ce_lingering (fst t)"] d by simp
  have "sent (snd t') = sent (snd t)" using frame [OF paste_lawsD(6) [OF laws]] by simp
  moreover have "\<not> mine (snd t) \<longrightarrow> \<not> mine (snd t')" using frame [OF paste_lawsD(7) [OF laws]] by simp
  moreover have "\<exists>c. told (snd t') = (told (snd t))(pk_broker k := told (snd t) (pk_broker k) @ [c]) \<and> is_defer c
      \<and> \<not> pk_active k'"
    by (rule defer_told [OF L d active])
  ultimately show ?thesis by (auto simp: told_one_def)
qed

text \<open>The steps between: no key, no command.\<close>

definition still :: "('s \<Rightarrow> key_input list) \<Rightarrow> ('s \<Rightarrow> nat \<Rightarrow> broker_command list) \<Rightarrow> 's \<Rightarrow> 's set" where
  "still sent told s = {s'. sent s' = sent s \<and> told s' = told s}"

lemma still_refl [simp]: "s \<in> still sent told s"
  by (simp add: still_def)

lemma still_quiet:
  assumes "paste_laws W sent told mine"
  shows "world_quiet W (still sent told s)" "field_quiet W (still sent told s)"
  using paste_lawsD(1,2) [OF assms] by (simp_all add: still_def)

lemma still_link:
  assumes "paste_laws W sent told mine" "u \<in> still sent told s"
  shows "snd (clipboard_is_current (ww_clipboard W) k u) \<in> still sent told s"
    "snd (mark_submitted (ww_clipboard W) k u) \<in> still sent told s"
proof -
  note L = paste_lawsD(8) [OF assms(1)]
  have "sent (snd (clipboard_is_current (ww_clipboard W) k u)) = sent u" "sent (snd (mark_submitted (ww_clipboard W) k u)) = sent u"
    using clipboard_is_current_keeps [OF paste_lawsD(6) [OF assms(1)], of u "sent u" k]
      mark_submitted_keeps [OF paste_lawsD(6) [OF assms(1)], of u "sent u" k] by simp_all
  then show "snd (clipboard_is_current (ww_clipboard W) k u) \<in> still sent told s"
    "snd (mark_submitted (ww_clipboard W) k u) \<in> still sent told s"
    using assms(2) link_lawsD(1,2) [OF L]
    by (simp_all add: still_def clipboard_is_current_def mark_submitted_def Let_def case_prod_unfold)
qed

lemma told_one_still:
  assumes "u \<in> still sent told s" "told_one sent told b c u v" "w \<in> still sent told v"
  shows "told_one sent told b c s w"
  using assms by (simp add: still_def told_one_def)

lemma count_still:
  "paste_laws W sent told mine \<Longrightarrow> snd t \<in> still sent told s \<Longrightarrow> snd (count_clipboard_not_restored W t) \<in> still sent told s"
  by (simp add: count_clipboard_not_restored_def still_quiet note_metric_keeps)

lemma paste_committed_leaves:
  assumes laws: "paste_laws W sent told mine" and active: "pk_active k"
    and run: "paste_committed W p q budget k t = Some (r, t')"
  shows "\<exists>c. told_one sent told (pk_broker k) c (snd t) (snd t') \<and> c \<in> {Restore, Abandon}
    \<and> r \<in> {EditApplied, EditAppliedClipboardNotRestored, EditFailed FailLayoutSwitch, EditFailed FailTextCommit}
    \<and> (r = EditApplied \<longrightarrow> c = Restore)"
proof -
  obtain cur t1 where 1: "out (clipboard_is_current (ww_clipboard W) k) t = (cur, t1)" by (metis surj_pair)
  then have t1: "snd t1 \<in> still sent told (snd t)"
    using still_link(1) [OF laws still_refl] by (auto simp: out_def case_prod_unfold Let_def)
  obtain now t2 where 2: "cells_now W t1 = (now, t2)" by (metis surj_pair)
  then have t2: "snd t2 \<in> still sent told (snd t)"
    using cells_now_keeps [OF still_quiet(1) [OF laws] t1] by simp
  let ?wait = "wait_within budget now (from_millis CLIPBOARD_RESTORE_WAIT_MS) (from_millis PASTE_AFTER_LATE_COMMIT_MS)"
  obtain restored k2 t3 where 3: "restore_within W ?wait k t2 = ((restored, k2), t3)"
    by (metis surj_pair)
  obtain c where c: "told_one sent told (pk_broker k) c (snd t2) (snd t3)" "c \<in> {Restore, Abandon}"
    "restored \<longrightarrow> c = Restore" and k2: "\<not> pk_active k2"
    using restore_tells [OF laws active 3] by blast
  define t4 where "t4 = (if \<not> restored \<and> \<not> restore_pending k2 then count_clipboard_not_restored W t3 else t3)"
  have t4: "snd t4 \<in> still sent told (snd t3)"
    by (simp add: t4_def count_still [OF laws])
  have later: "told_one sent told (pk_broker k) c (snd t) w" if "w \<in> still sent told (snd t3)" for w
    using told_one_still [OF t2 c(1) that] .
  obtain switched s5 where 5: "switch_layout_and_wait W p (pr_foreground q) (pr_target_layout q) (pr_sequence q) (snd t4)
      = Some (switched, s5)"
    using run 1 2 3 by (auto simp: paste_committed_def Let_def t4_def split: option.splits)
  have s5: "s5 \<in> still sent told (snd t3)"
    by (rule switch_layout_keeps [OF 5 still_quiet(1) [OF laws] t4])
  show ?thesis
  proof (cases "switched = Applied")
    case False
    then have "paste_end W k2 (EditFailed FailLayoutSwitch, fst t4, s5) = Some (r, t')"
      using run 1 2 3 5 by (simp add: paste_committed_def Let_def t4_def)
    from paste_end_inactive [OF this k2] later [OF s5] c(2) show ?thesis by auto
  next
    case True
    obtain now6 t6 where 6: "cells_now W (fst t4, s5) = (now6, t6)" by (metis surj_pair)
    then have t6: "snd t6 \<in> still sent told (snd t3)"
      using cells_now_keeps [OF still_quiet(1) [OF laws], of "(fst t4, s5)" "snd t3"] s5 by simp
    let ?margin = "from_millis PASTE_UIA_MARGIN_MS"
    let ?until = "now6 + wait_within budget now6 (from_millis NOTEPAD_TEXT_BARRIER_TIMEOUT_MS) ?margin"
    let ?wait = "wait_for_text_commit W p (pr_foreground q) (pr_sequence q) (pr_target_layout q)
        (pr_replacement q) (?until, commit_late_until budget ?until ?margin) t6"
    have run': "(case ?wait of None \<Rightarrow> None
        | Some (commit, t) \<Rightarrow> paste_end W k2 (protected_paste_outcome (commit = Applied) restored, t)) = Some (r, t')"
      using run 1 2 3 5 6 True by (simp add: paste_committed_def Let_def t4_def)
    then obtain commit t7 where 7: "?wait = Some (commit, t7)" by (cases ?wait) auto
    have "snd t7 \<in> still sent told (snd t3)"
      by (rule text_commit_keeps [OF 7 still_quiet(1) [OF laws] t6])
    moreover have "r = protected_paste_outcome (commit = Applied) restored \<and> snd t' = snd t7"
      using paste_end_inactive [OF _ k2] run' 7 by fastforce
    ultimately show ?thesis
      using later c(2,3) by (auto simp: protected_paste_outcome_def)
  qed
qed

text \<open>A commit is confirmed by a read of the field that showed the replacement.\<close>

definition shown_by :: "('s, 'r) worker_world \<Rightarrow> u32 \<Rightarrow> ustr \<Rightarrow> 's worker_cells \<Rightarrow> bool" where
  "shown_by W process x t \<longleftrightarrow> (\<exists>until u in_time. commit_read W process x until u = ((Match, in_time), t))"

lemma shown_byI: "commit_read W process x until u = ((Match, in_time), t) \<Longrightarrow> shown_by W process x t"
  unfolding shown_by_def by blast

lemma commit_was_shown:
  assumes "wait_for_text_commit W p f q l x limits t = Some (Applied, t')"
  shows "shown_by W (fc_process f) x t'"
proof -
  let ?shown = "shown_by W (fc_process f) x"
  have "Applied = Applied \<longrightarrow> ?shown t'"
  proof (rule while_before_ends [OF assms [unfolded wait_for_text_commit_def poll_text_commit_def],
        where I = "\<lambda>_ _. True" and Q = "\<lambda>r t'. r = Applied \<longrightarrow> ?shown t'"])
    fix until t r t'
    assume "poll_body W (snd limits) (paste_stop W p f q l) (commit_read W (fc_process f) x) until t = (Inl r, t')"
    then show "r = Applied \<longrightarrow> ?shown t'"
      by (cases "commit_read W (fc_process f) x until (snd (paste_stop W p f q l t))")
        (auto simp: poll_body_def Let_def case_prod_unfold paste_stop_def split: option.splits if_splits intro: shown_byI)
  qed auto
  then show ?thesis by simp
qed

text \<open>What a paste that sent keys did: \<open>typed\<close> are the keys, \<open>c\<close> the command to the broker \<open>b\<close> of its clipboard,
  which held the replacement in the world \<open>s\<close>.\<close>

definition paste_typed ::
  "('s, 'r) worker_world \<Rightarrow> paste_request \<Rightarrow> ('s \<Rightarrow> key_input list) \<Rightarrow> ('s \<Rightarrow> nat \<Rightarrow> broker_command list) \<Rightarrow> nat \<Rightarrow>
     's \<Rightarrow> text_edit_attempt \<Rightarrow> key_input list \<Rightarrow> broker_command \<Rightarrow> bool" where
  "paste_typed W q sent told b s r typed c \<longleftrightarrow>
     r \<notin> {EditCancelled, EditUnsupported}
     \<and> (r \<in> {EditApplied, EditAppliedClipboardNotRestored, EditFailed FailLayoutSwitch} \<longrightarrow> typed = build_paste_inputs)
     \<and> (r = EditApplied \<longrightarrow> c = Restore)
     \<and> (is_defer c \<or> c \<in> {Restore, Abandon} \<and> typed = build_paste_inputs
          \<and> (\<exists>v. shown_by W (fc_process (pr_foreground q)) (pr_replacement q) v
               \<and> sent (snd v) = sent s @ build_paste_inputs \<and> told (snd v) b = told s b))"

text \<open>The keys typed meanwhile may go to the field: no selection of the agent's is left, or the field had shown
  the replacement after the whole chord.\<close>

definition paste_settled ::
  "('s, 'r) worker_world \<Rightarrow> paste_request \<Rightarrow> ('s \<Rightarrow> key_input list) \<Rightarrow> ('s \<Rightarrow> bool) \<Rightarrow> 's \<Rightarrow> text_edit_attempt \<Rightarrow>
     's \<Rightarrow> bool" where
  "paste_settled W q sent mine s r s' \<longleftrightarrow>
     (r \<noteq> EditSelectionLeft \<longrightarrow> \<not> mine s'
        \<or> (\<exists>v. shown_by W (fc_process (pr_foreground q)) (pr_replacement q) v
             \<and> sent (snd v) = sent s @ build_paste_inputs))"

lemma submit_sends:
  assumes "paste_laws W sent told mine" "paste_submit W inputs t = (n, t')"
  shows "sent (snd t') = sent (snd t) @ take n inputs \<and> told (snd t') = told (snd t)"
  using assms(2) paste_lawsD(9,10) [OF assms(1)]
  by (auto simp: paste_submit_def send_input_count_def out_def case_prod_unfold Let_def split: if_splits)

lemma abandon_deferred:
  assumes laws: "paste_laws W sent told mine" and active: "pk_active k"
    and run: "(let (k, t) = with_brokers (clipboard_defer (ww_clipboard W) k) t
      in paste_end W k (abandon_selection W p f q r t)) = Some (r', t')"
  shows "\<exists>c. told_one sent told (pk_broker k) c (snd t) (snd t') \<and> is_defer c \<and> r' \<in> {r, EditSelectionLeft}
    \<and> (r' \<noteq> EditSelectionLeft \<longrightarrow> \<not> mine (snd t'))"
proof -
  obtain k1 t1 where 1: "with_brokers (clipboard_defer (ww_clipboard W) k) t = (k1, t1)" by (metis surj_pair)
  obtain c where c: "told_one sent told (pk_broker k) c (snd t) (snd t1)" "is_defer c" "\<not> pk_active k1"
    using defer_one [OF laws active 1] by blast
  obtain r2 t2 where 2: "abandon_selection W p f q r t1 = (r2, t2)" by (metis surj_pair)
  then have "untouched sent told (snd t1) (snd t2)" "r2 \<in> {r, EditSelectionLeft}"
      "r2 \<noteq> EditSelectionLeft \<longrightarrow> \<not> mine (snd t2)"
    using abandon_leaves [OF laws 2] by auto
  moreover have "r' = r2 \<and> snd t' = snd t2"
    using run 1 2 paste_end_inactive [OF _ c(3)] by fastforce
  ultimately show ?thesis using c(1,2) by (auto simp: untouched_def told_one_def)
qed

lemma paste_submitted_leaves:
  assumes laws: "paste_laws W sent told mine" and active: "pk_active k"
    and run: "paste_submitted W p q budget k t = Some (r, t')"
  shows "\<exists>typed c. sent (snd t') = sent (snd t) @ typed
    \<and> told (snd t') = (told (snd t))(pk_broker k := told (snd t) (pk_broker k) @ [c])
    \<and> paste_typed W q sent told (pk_broker k) (snd t) r typed c \<and> paste_settled W q sent mine (snd t) r (snd t')"
proof -
  obtain k1 t1 where 1: "out (mark_submitted (ww_clipboard W) k) t = (k1, t1)" by (metis surj_pair)
  then have t1: "sent (snd t1) = sent (snd t)" "told (snd t1) = told (snd t)"
    using still_link(2) [OF laws still_refl, of k "snd t"] by (auto simp: out_def still_def case_prod_unfold Let_def)
  have k1: "pk_active k1" "pk_broker k1 = pk_broker k"
    using 1 active by (auto simp: out_def mark_submitted_def case_prod_unfold Let_def)
  obtain n t2 where 2: "paste_submit W build_paste_inputs t1 = (n, t2)" by (metis surj_pair)
  note s2 = submit_sends [OF laws 2]
  show ?thesis
  proof (cases "n = length build_paste_inputs")
    case False
    let ?up = "[keyboard_input VK_LCONTROL 0 KEYEVENTF_KEYUP]"
    obtain m t3 where 3: "paste_submit W ?up t2 = (m, t3)" by (metis surj_pair)
    have "(let (k, t) = with_brokers (clipboard_defer (ww_clipboard W) k1) t3
        in paste_end W k (abandon_selection W p (pr_foreground q) (pr_sequence q) (EditFailed FailClipboardEdit) t))
        = Some (r, t')"
      using run 1 2 3 False by (simp add: paste_submitted_def Let_def)
    from abandon_deferred [OF laws k1(1) this] submit_sends [OF laws 3] s2 t1 k1(2)
    show ?thesis
      by (auto simp: told_one_def paste_typed_def paste_settled_def)
  next
    case True
    obtain now t3 where 3: "cells_now W t2 = (now, t3)" by (metis surj_pair)
    then have t3: "snd t3 \<in> still sent told (snd t2)"
      using cells_now_keeps [OF still_quiet(1) [OF laws], of t2 "snd t2"] by simp
    let ?until = "now + from_millis NOTEPAD_TEXT_BARRIER_TIMEOUT_MS"
    let ?limits = "(?until, commit_late_until budget ?until (from_millis PASTE_AFTER_LATE_COMMIT_MS))"
    let ?wait = "wait_for_text_commit W p (pr_foreground q) (pr_sequence q) (pr_source_layout q) (pr_replacement q) ?limits t3"
    have run': "(case ?wait of None \<Rightarrow> None
        | Some (commit, t) \<Rightarrow>
            if clipboard_after_paste commit = AfterDefer then
              let (k, t) = with_brokers (clipboard_defer (ww_clipboard W) k1) t
              in paste_end W k (abandon_selection W p (pr_foreground q) (pr_sequence q) (EditFailed FailTextCommit) t)
            else paste_committed W p q budget k1 t) = Some (r, t')"
      using run 1 2 3 True by (simp add: paste_submitted_def Let_def)
    then obtain commit t4 where 4: "?wait = Some (commit, t4)" by (cases ?wait) auto
    have "snd t4 \<in> still sent told (snd t2)"
      by (rule text_commit_keeps [OF 4 still_quiet(1) [OF laws] t3])
    then have s4: "sent (snd t4) = sent (snd t) @ build_paste_inputs" "told (snd t4) = told (snd t)"
      using s2 t1 True by (simp_all add: still_def)
    show ?thesis
    proof (cases "commit = Applied")
      case False
      then have "(let (k, t) = with_brokers (clipboard_defer (ww_clipboard W) k1) t4
          in paste_end W k (abandon_selection W p (pr_foreground q) (pr_sequence q) (EditFailed FailTextCommit) t))
          = Some (r, t')"
        using run' 4 by (simp add: clipboard_after_paste_def)
      from abandon_deferred [OF laws k1(1) this] s4 k1(2) show ?thesis
        by (auto simp: told_one_def paste_typed_def paste_settled_def)
    next
      case commit: True
      then have "paste_committed W p q budget k1 t4 = Some (r, t')"
        using run' 4 by (simp add: clipboard_after_paste_def)
      from paste_committed_leaves [OF laws k1(1) this] obtain c where
        c: "told_one sent told (pk_broker k) c (snd t4) (snd t')" "c \<in> {Restore, Abandon}" "r = EditApplied \<longrightarrow> c = Restore"
        "r \<in> {EditApplied, EditAppliedClipboardNotRestored, EditFailed FailLayoutSwitch, EditFailed FailTextCommit}"
        using k1(2) by auto
      have shown: "shown_by W (fc_process (pr_foreground q)) (pr_replacement q) t4"
        using commit_was_shown 4 commit by blast
      then have "paste_typed W q sent told (pk_broker k) (snd t) r build_paste_inputs c"
        using c(2-4) s4 unfolding paste_typed_def by (auto simp del: split_paired_Ex split_paired_All)
      moreover have "paste_settled W q sent mine (snd t) r (snd t')"
        using shown s4(1) unfolding paste_settled_def by blast
      ultimately show ?thesis using c(1) s4 by (auto simp: told_one_def)
    qed
  qed
qed

text \<open>The other end of a paste: nothing was typed.\<close>

definition paste_untyped ::
  "('s \<Rightarrow> key_input list) \<Rightarrow> ('s \<Rightarrow> nat \<Rightarrow> broker_command list) \<Rightarrow> ('s \<Rightarrow> bool) \<Rightarrow> 's \<Rightarrow> text_edit_attempt \<Rightarrow> 's \<Rightarrow> bool" where
  "paste_untyped sent told mine s r s' \<longleftrightarrow>
     sent s' = sent s \<and> r \<in> {EditCancelled, EditUnsupported, EditSelectionLeft}
     \<and> (r \<noteq> EditSelectionLeft \<longrightarrow> \<not> mine s')
     \<and> (told s' = told s \<or> (\<exists>b c. told s' = (told s)(b := [c]) \<and> c \<in> {Restore, Abandon}))"

definition paste_result ::
  "('s, 'r) worker_world \<Rightarrow> paste_request \<Rightarrow> ('s \<Rightarrow> key_input list) \<Rightarrow> ('s \<Rightarrow> nat \<Rightarrow> broker_command list) \<Rightarrow> ('s \<Rightarrow> bool) \<Rightarrow>
     's \<Rightarrow> text_edit_attempt \<Rightarrow> 's \<Rightarrow> bool" where
  "paste_result W q sent told mine s r s' \<longleftrightarrow>
     paste_untyped sent told mine s r s'
     \<or> (\<exists>typed b c u. sent s' = sent s @ typed \<and> told s' = (told s)(b := [c])
          \<and> sent u = sent s \<and> told u b = [] \<and> paste_typed W q sent told b u r typed c)
        \<and> paste_settled W q sent mine s r s'"

lemma untyped_abandoned:
  assumes laws: "paste_laws W sent told mine" and run: "abandon_selection W p f x EditCancelled t = (r, t')"
    and s: "sent (snd t) = sent s"
    and told: "told (snd t) = told s \<or> (\<exists>b c. told (snd t) = (told s)(b := [c]) \<and> c \<in> {Restore, Abandon})"
  shows "paste_untyped sent told mine s r (snd t')"
  using abandon_leaves [OF laws run] s told by (auto simp: paste_untyped_def untouched_def)

lemma paste_installed_leaves:
  assumes laws: "paste_laws W sent told mine" and active: "pk_active k"
    and s: "sent (snd t) = sent s" "told (snd t) = (told s)(pk_broker k := [])"
    and run: "paste_installed W p q budget k t = Some (r, t')"
  shows "paste_result W q sent told mine s r (snd t')"
proof -
  obtain cur t1 where 1: "out (clipboard_is_current (ww_clipboard W) k) t = (cur, t1)" by (metis surj_pair)
  then have t1: "snd t1 \<in> still sent told (snd t)"
    using still_link(1) [OF laws still_refl] by (auto simp: out_def case_prod_unfold Let_def)
  obtain now t2 where 2: "cells_now W t1 = (now, t2)" by (metis surj_pair)
  then have t2: "snd t2 \<in> still sent told (snd t)"
    using cells_now_keeps [OF still_quiet(1) [OF laws] t1] by simp
  obtain go t3 where 3: "(if \<not> cur \<or> \<not> allows_submit budget now then (False, t2)
      else out (edit_guard_is_current W p (pr_foreground q) (pr_sequence q)) t2) = (go, t3)"
    by (metis surj_pair)
  moreover have "snd (snd (out (edit_guard_is_current W p (pr_foreground q) (pr_sequence q)) t2)) \<in> still sent told (snd t)"
    by (rule ran_out) (rule edit_guard_keeps [OF still_quiet(1) [OF laws] t2])
  ultimately have "snd t3 \<in> still sent told (snd t)"
    using t2 by (auto split: if_splits)
  then have s3: "sent (snd t3) = sent s" "told (snd t3) = (told s)(pk_broker k := [])"
    using s by (simp_all add: still_def)
  show ?thesis
  proof (cases go)
    case True
    then have "paste_submitted W p q budget k t3 = Some (r, t')"
      using run 1 2 3 by (simp add: paste_installed_def Let_def)
    from paste_submitted_leaves [OF laws active this] obtain typed c where
      "sent (snd t') = sent s @ typed" "told (snd t') = (told s)(pk_broker k := [c])"
      "paste_typed W q sent told (pk_broker k) (snd t3) r typed c" "paste_settled W q sent mine s r (snd t')"
      using s3 unfolding paste_settled_def by auto
    then show ?thesis using s3 unfolding paste_result_def by (metis fun_upd_same)
  next
    case False
    obtain restored k4 t4 where 4: "restore_within W (from_millis CLIPBOARD_RESTORE_WAIT_MS) k t3 = ((restored, k4), t4)"
      by (metis surj_pair)
    obtain c where c: "told_one sent told (pk_broker k) c (snd t3) (snd t4)" "c \<in> {Restore, Abandon}" "\<not> pk_active k4"
      using restore_tells [OF laws active 4] by blast
    define t5 where "t5 = (if \<not> restored \<and> \<not> restore_pending k4 then count_clipboard_not_restored W t4 else t4)"
    have "snd t5 \<in> still sent told (snd t4)" by (simp add: t5_def count_still [OF laws])
    then have s5: "sent (snd t5) = sent s" "told (snd t5) = (told s)(pk_broker k := [c])"
      using c(1) s3 by (simp_all add: still_def told_one_def)
    obtain r6 t6 where 6: "abandon_selection W p (pr_foreground q) (pr_sequence q) EditCancelled t5 = (r6, t6)"
      by (metis surj_pair)
    have "paste_end W k4 (r6, t6) = Some (r, t')"
      using run 1 2 3 4 6 False by (simp add: paste_installed_def Let_def t5_def)
    from paste_end_inactive [OF this c(3)] have "r = r6" "snd t' = snd t6" by simp_all
    moreover have "paste_untyped sent told mine s r6 (snd t6)"
      by (rule untyped_abandoned [OF laws 6 s5(1)]) (use s5(2) c(2) in blast)
    ultimately show ?thesis by (simp add: paste_result_def)
  qed
qed

lemma paste_selected_leaves:
  assumes laws: "paste_laws W sent told mine" and s: "snd t \<in> still sent told s"
    and run: "paste_selected W p q budget t = Some (r, t')"
  shows "paste_result W q sent told mine s r (snd t')"
proof -
  obtain now t1 where 1: "cells_now W t = (now, t1)" by (metis surj_pair)
  then have "snd t1 \<in> still sent told s"
    using cells_now_keeps [OF still_quiet(1) [OF laws] s] by simp
  then have s1: "sent (snd t1) = sent s" "told (snd t1) = told s" by (simp_all add: still_def)
  let ?abandon = "abandon_selection W p (pr_foreground q) (pr_sequence q) EditCancelled"
  show ?thesis
  proof (cases "install_timeout budget now (pr_patience q)")
    case None
    then have "?abandon t1 = (r, t')" using run 1 by (simp add: paste_selected_def)
    from untyped_abandoned [OF laws this s1(1)] s1 show ?thesis by (simp add: paste_result_def)
  next
    case (Some wait)
    obtain k t2 where 2: "clipboard_begin W (pr_replacement q) wait (fc_process (pr_foreground q)) t1 = (k, t2)"
      by (metis surj_pair)
    let ?target = "(fc_process (pr_foreground q), from_millis UNCONFIRMED_PASTE_WAIT_MS)"
    obtain l' where b: "begin_with (ww_clipboard W) (pr_replacement q) wait ?target (ce_lingering (fst t1)) (snd t1) = (k, l', snd t2)"
      using 2 by (cases "begin_with (ww_clipboard W) (pr_replacement q) wait ?target (ce_lingering (fst t1)) (snd t1)")
        (auto simp: clipboard_begin_def with_brokers_def case_prod_unfold Let_def)
    have s2: "sent (snd t2) = sent s"
      using begin_keeps [OF paste_lawsD(6) [OF laws], of "snd t1" "sent (snd t1)"] b s1
      by (metis (mono_tags, lifting) mem_Collect_eq snd_conv)
    note told = begin_tells [OF paste_lawsD(8) [OF laws] b]
    show ?thesis
    proof (cases k)
      case (Inl failure)
      then have "?abandon t2 = (r, t')" using run 1 2 Some by (simp add: paste_selected_def)
      from untyped_abandoned [OF laws this s2] told Inl s1 show ?thesis
        by (auto simp: paste_result_def split: clipboard_begin_failure.splits)
    next
      case (Inr clip)
      then have "paste_installed W p q budget clip t2 = Some (r, t')"
        using run 1 2 Some by (simp add: paste_selected_def)
      from paste_installed_leaves [OF laws _ s2 _ this] told Inr s1 show ?thesis by simp
    qed
  qed
qed

lemma edit_in_flight_result:
  assumes "edit_in_flight W body t = Some (r, t')"
  obtains u v where "snd u = store W (m_edit_in_flight_update (\<lambda>_. True)) (snd t)" "fst u = fst t" "body u = Some (r, v)"
    "snd t' = store W (m_edit_in_flight_update (\<lambda>_. False)) (snd v)"
  using assms by (cases t) (auto simp: edit_in_flight_def split: option.splits)

lemma select_sound:
  assumes laws: "paste_laws W sent told mine" and "\<not> mine (snd t)"
    and run: "select_for_paste W process x patience budget t = Some ((status, cleanup), t')"
  shows "status \<noteq> Match \<and> cleanup \<noteq> Some Unverified \<longrightarrow> \<not> mine (snd t')"
  using run selection_never_left [OF paste_lawsD(4,5) [OF laws], of "(ce_barrier_report (fst t), snd t)"] assms(2)
  by (auto simp: select_for_paste_def case_prod_unfold split: option.splits)

lemma paste_guarded_leaves:
  assumes laws: "paste_laws W sent told mine" and clear: "\<not> mine (snd t)"
    and run: "paste_guarded W p q t = Some (r, t')"
  shows "paste_result W q sent told mine (snd t) r (snd t')"
proof -
  let ?budget = "\<lparr>pb_deadline = ce_edit_deadline (fst t)\<rparr>"
  let ?I = "still sent told (snd t) \<inter> {s. \<not> mine s}"
  have q: "world_quiet W ?I"
    using still_quiet(1) [OF laws, of "snd t"] paste_lawsD(3) [OF laws]
    by (simp add: world_quiet_def provider_quiet_def)
  obtain current t1 where 1: "out (edit_guard_is_current W p (pr_foreground q) (pr_sequence q)) t = (current, t1)"
    by (metis surj_pair)
  have "snd (snd (out (edit_guard_is_current W p (pr_foreground q) (pr_sequence q)) t)) \<in> ?I"
    by (rule ran_out) (rule edit_guard_keeps [OF q], simp add: clear)
  then have t1: "snd t1 \<in> ?I" using 1 by simp
  obtain now t2 where 2: "cells_now W t1 = (now, t2)" by (metis surj_pair)
  then have t2: "snd t2 \<in> ?I" using cells_now_keeps [OF q t1] by simp
  have ended_early: "paste_result W q sent told mine (snd t) x w"
    if "w \<in> still sent told (snd t)" "x \<in> {EditCancelled, EditUnsupported, EditSelectionLeft}"
      "x \<noteq> EditSelectionLeft \<longrightarrow> \<not> mine w" for x w
    using that by (auto simp: paste_result_def paste_untyped_def still_def)
  show ?thesis
  proof (cases "current \<and> allows_selection ?budget now (pr_patience q)")
    case False
    then have "r = EditCancelled \<and> (t' = t1 \<or> t' = t2)"
      using run 1 2 by (auto simp: paste_guarded_def Let_def split: if_splits)
    moreover have "paste_result W q sent told mine (snd t) EditCancelled w" if "w \<in> ?I" for w
      by (rule ended_early) (use that in simp_all)
    ultimately show ?thesis using t1 t2 by metis
  next
    case True
    let ?select = "select_for_paste W (fc_process (pr_foreground q)) (pr_expected q) (pr_patience q) ?budget t2"
    obtain status cleanup t3 where 3: "?select = Some ((status, cleanup), t3)"
      using run 1 2 True by (cases ?select) (auto simp: paste_guarded_def)
    have t3: "snd t3 \<in> still sent told (snd t)"
      by (rule select_for_paste_keeps [OF 3 still_quiet(2) [OF laws]]) (use t2 in simp)
    have unmatched: "\<not> mine (snd t3)" if "status \<noteq> Match" "cleanup \<noteq> Some Unverified"
      using select_sound [OF laws _ 3] t2 that by simp
    have run': "(if cleanup = Some Unverified then Some (EditSelectionLeft, t3)
        else case status of
          Match \<Rightarrow> paste_selected W p q ?budget t3
        | Mismatch \<Rightarrow> Some (EditCancelled, t3)
        | Unavailable_text \<Rightarrow> Some (EditUnsupported, t3)) = Some (r, t')"
      using run 1 2 3 True by (simp add: paste_guarded_def)
    show ?thesis
    proof (cases "cleanup = Some Unverified")
      case True
      then show ?thesis using run' ended_early [OF t3] by simp
    next
      case False
      then show ?thesis
        using run' ended_early [OF t3] unmatched paste_selected_leaves [OF laws t3]
        by (cases status) auto
    qed
  qed
qed

lemma paste_leaves:
  assumes laws: "paste_laws W sent told mine" and clear: "\<not> mine (snd t)"
    and run: "perform_protected_paste W p q t = Some (r, t')"
  shows "paste_result W q sent told mine (snd t) r (snd t')"
proof -
  obtain u v where u: "snd u = store W (m_edit_in_flight_update (\<lambda>_. True)) (snd t)"
    and body: "paste_guarded W p q u = Some (r, v)"
    and t': "snd t' = store W (m_edit_in_flight_update (\<lambda>_. False)) (snd v)"
    using run unfolding perform_protected_paste_def by (rule edit_in_flight_result)
  have frame: "store W f s \<in> J" if "world_quiet W J" "s \<in> J" for J f s by (rule store_keeps [OF that])
  have "snd u \<in> {s. \<not> mine s}" "snd u \<in> still sent told (snd t)"
    unfolding u using frame [OF paste_lawsD(3) [OF laws]] frame [OF still_quiet(1) [OF laws]] clear by simp_all
  moreover have "snd t' \<in> still sent told (snd v)" "\<not> mine (snd v) \<longrightarrow> \<not> mine (snd t')"
    unfolding t' using frame [OF paste_lawsD(3) [OF laws]] frame [OF still_quiet(1) [OF laws]] by simp_all
  moreover have "paste_result W q sent told mine (snd u) r (snd v)"
    by (rule paste_guarded_leaves [OF laws _ body]) (use calculation(1) in simp)
  ultimately show ?thesis
    by (auto simp: paste_result_def paste_untyped_def paste_settled_def still_def simp del: split_paired_Ex)
qed

section \<open>What an attempt says about the field and the clipboard\<close>

text \<open>C17. A protected paste that ends as cancelled or unsupported has typed nothing and left no selection of
  its own; one that ends as applied sent exactly Ctrl+V; and unless it ends as "selection left", no selection
  of the agent's is left or the field had shown the replacement, so the held keys may go to the field.
  Whatever it ends as, at most one broker was started and told, and told one command: the user's clipboard is put
  back, or given up, only when no key was sent or after a read of the field showed the replacement,
  made after the whole chord and before the command. In every other case the broker waits for the
  paste's target, so a late paste never inserts the user's own clipboard.\<close>

theorem paste_never_pastes_users_clipboard:
  assumes "paste_laws W sent told mine" and "\<not> mine s"
    and "perform_protected_paste W p q (c, s) = Some (r, (c', s'))"
  shows "\<exists>typed. sent s' = sent s @ typed
    \<and> (r \<in> {EditCancelled, EditUnsupported} \<longrightarrow> typed = [] \<and> \<not> mine s')
    \<and> (r \<in> {EditApplied, EditAppliedClipboardNotRestored} \<longrightarrow> typed = build_paste_inputs)
    \<and> (r \<noteq> EditSelectionLeft \<longrightarrow> \<not> mine s'
        \<or> (\<exists>v. shown_by W (fc_process (pr_foreground q)) (pr_replacement q) v
             \<and> sent (snd v) = sent s @ build_paste_inputs))
    \<and> (told s' = told s \<and> typed = []
       \<or> (\<exists>b command. told s' = (told s)(b := [command])
           \<and> (is_defer command
              \<or> command \<in> {Restore, Abandon}
                \<and> (typed = []
                   \<or> (\<exists>v. shown_by W (fc_process (pr_foreground q)) (pr_replacement q) v
                        \<and> sent (snd v) = sent s @ build_paste_inputs \<and> told (snd v) b = [])))))"
proof -
  have "paste_result W q sent told mine s r s'"
    using paste_leaves [OF assms(1) _ assms(3)] assms(2) by simp
  then consider (untyped) "paste_untyped sent told mine s r s'"
    | (typed) typed b command u where "sent s' = sent s @ typed" "told s' = (told s)(b := [command])" "sent u = sent s"
        "told u b = []" "paste_typed W q sent told b u r typed command" "paste_settled W q sent mine s r s'"
    unfolding paste_result_def by blast
  then show ?thesis
  proof cases
    case untyped
    then show ?thesis by (intro exI [of _ "[]"]) (auto simp: paste_untyped_def)
  next
    case typed
    then show ?thesis
      by (intro exI [of _ typed])
        (auto simp: paste_typed_def paste_settled_def simp del: split_paired_Ex intro!: exI [of _ b] exI [of _ command])
  qed
qed

section \<open>What a physical edit leaves\<close>

definition typing_laws :: "('s, 'r) worker_world \<Rightarrow> ('s \<Rightarrow> key_input list) \<Rightarrow> bool" where
  "typing_laws W sent \<longleftrightarrow>
     (\<forall>x. world_quiet W {s. sent s = x})
     \<and> (\<forall>inputs s. sent (snd (ww_send_input W inputs s)) = sent s @ take (fst (ww_send_input W inputs s)) inputs)"

lemma typing_same:
  assumes "typing_laws W sent"
  shows "world_quiet W {u. sent u = sent s}"
  using assms by (simp add: typing_laws_def)

lemma seam_laws:
  assumes "typing_laws W sent"
  shows "replay_laws (replay_seam_of W p f q pacer) sent"
  unfolding replay_seam_of_def
proof (rule send_input_batch_laws)
  show "sent (snd (ww_send_input W batch s)) = sent s @ take (fst (ww_send_input W batch s)) batch" for batch s
    using assms by (simp add: typing_laws_def)
  show "sent (snd (edit_guard_is_current W p f q s)) = sent s" for s
    using edit_guard_keeps [OF typing_same [OF assms, of s], of s p f q] by simp
  show "sent (if pacer then ww_pacer_wait W s else ww_sleep W NOTEPAD_REPLAY_STEP_DELAY_MS s) = sent s" for s
    using quietD(2,12) [OF typing_same [OF assms, of s], of s] by simp
qed

lemma physical_edit_cases:
  assumes laws: "typing_laws W sent" and run: "physical_edit W p f q layout n keys delimiter s = Some (r, s')"
  obtains (unsent) "sent s' = sent s" "r \<in> {Cancelled, Failed, LayoutSwitchFailed}"
  | (typed) plan pacer mode u r0 where "build_physical_replay_plan n keys delimiter = Some plan" "sent u = sent s"
      "dispatch_physical_replay_plan (replay_seam_of W p f q pacer) plan mode u = (r0, s')"
      "r = (if r0 = Cancelled then Failed else r0)"
proof -
  let ?J = "{u. sent u = sent s}"
  note q = typing_same [OF laws, of s]
  obtain current s1 where 1: "edit_guard_is_current W p f q s = (current, s1)" by fastforce
  have s1: "s1 \<in> ?J" using edit_guard_keeps [OF q, of s p f q] 1 by simp
  show ?thesis
  proof (cases "current \<and> keys \<noteq> [] \<and> \<not> list_ex (\<lambda>k. rk_caps_lock k \<noteq> rk_caps_lock (hd keys)) keys")
    case False
    then show ?thesis using run 1 s1 unsent by (auto simp: physical_edit_def split: if_splits)
  next
    case going: True
    show ?thesis
    proof (cases "build_physical_replay_plan n keys delimiter")
      case None
      then show ?thesis using run 1 s1 going unsent by (auto simp: physical_edit_def split: if_splits)
    next
      case (Some plan)
      let ?mode = "if requires_text_barrier (ip_backend p) then Paced else Batch"
      show ?thesis
      proof (cases "?mode = Paced \<and> \<not> paced_replay_fits_gate (length (rp_step_ends plan))")
        case True
        then show ?thesis using run 1 s1 going Some unsent by (auto simp: physical_edit_def split: if_splits)
      next
        case fits: False
        obtain pacer s2 where 2: "(if ?mode = Paced then ww_pacer W s1 else (False, s1)) = (pacer, s2)" by fastforce
        then have s2: "s2 \<in> ?J" using quietD(11) [OF q s1] s1 by (auto split: if_splits)
        let ?switch = "switch_layout_and_wait W p f layout q s2"
        have run': "(case ?switch of None \<Rightarrow> None | Some (switched, s) \<Rightarrow>
            if switched = Cancelled then Some (Cancelled, s)
            else if switched \<noteq> Applied then Some (LayoutSwitchFailed, s)
            else let (current, s) = edit_guard_is_current W p f q s in
              if \<not> current then Some (Failed, s)
              else let (result, s) = dispatch_physical_replay_plan (replay_seam_of W p f q pacer) plan ?mode s
                in Some (if result = Cancelled then Failed else result, s)) = Some (r, s')"
          using run 1 2 going Some fits by (auto simp: physical_edit_def Let_def split: if_splits)
        then obtain switched s3 where 3: "?switch = Some (switched, s3)" by (cases ?switch) auto
        have s3: "s3 \<in> ?J" by (rule switch_layout_keeps [OF 3 q s2])
        obtain current4 s4 where 4: "edit_guard_is_current W p f q s3 = (current4, s4)" by fastforce
        have s4: "s4 \<in> ?J" using edit_guard_keeps [OF q s3, of p f q] 4 by simp
        obtain r0 s5 where 5: "dispatch_physical_replay_plan (replay_seam_of W p f q pacer) plan ?mode s4 = (r0, s5)"
          by fastforce
        show ?thesis
        proof (cases "switched = Applied \<and> current4")
          case True
          then have r: "r = (if r0 = Cancelled then Failed else r0)" and "s' = s5" using run' 3 4 5 by simp_all
          show ?thesis by (rule typed [OF Some _ 5 [folded \<open>s' = s5\<close>] r]) (use s4 in simp)
        next
          case False
          then show ?thesis using run' 3 4 s3 s4 unsent by (auto split: if_splits)
        qed
      qed
    qed
  qed
qed

text \<open>C18. A physical edit that reports Cancelled or a failed layout switch has sent no key; one that reports
  Applied has, read by a program, erased the word's characters and typed its keys and delimiter, with
  no key left down; and one that failed halfway has made the first of these edits, whole, with no key
  left down, unless \<open>SendInput\<close> refused inputs.\<close>

theorem physical_edit_leaves_whole_edits:
  assumes "typing_laws W sent"
    and "perform_physical_edit W p f q layout n keys delimiter s = Some (r, s')"
  shows "\<exists>out. sent s' = sent s @ out
    \<and> (r \<in> {Cancelled, LayoutSwitchFailed} \<longrightarrow> out = [])
    \<and> (r = Applied \<longrightarrow> consume {} out = (plan_edits n keys delimiter, {}))
    \<and> ((\<forall>batch t. fst (send_input_batch (ww_send_input W) batch t)) \<longrightarrow>
        (\<exists>k. consume {} out = (take k (plan_edits n keys delimiter), {})))"
proof -
  let ?on = "store W (m_edit_in_flight_update (\<lambda>_. True)) s"
  obtain u where run: "physical_edit W p f q layout n keys delimiter ?on = Some (r, u)"
    and u: "s' = store W (m_edit_in_flight_update (\<lambda>_. False)) u"
    using assms(2) by (auto simp: perform_physical_edit_def split: option.splits)
  have ends: "sent ?on = sent s" "sent s' = sent u"
    using store_keeps [OF typing_same [OF assms(1), of s], of s] store_keeps [OF typing_same [OF assms(1), of u], of u] u
    by simp_all
  from assms(1) run show ?thesis
  proof (cases rule: physical_edit_cases)
    case unsent
    then show ?thesis using ends by (intro exI [of _ "[]"]) (auto intro: exI [of _ 0])
  next
    case (typed plan pacer mode v r0)
    from replay_leaves_whole_edits [OF seam_laws [OF assms(1)] typed(1,3)] obtain out where
      out: "sent u = sent v @ out" "r0 = Applied \<longrightarrow> out = rp_inputs plan" "r0 \<noteq> LayoutSwitchFailed"
      "(\<forall>batch t. fst (rs_send (replay_seam_of W p f q pacer) batch t)) \<longrightarrow>
         (\<exists>k. consume {} out = (take k (plan_edits n keys delimiter), {}))"
      by auto
    have "consume {} (rp_inputs plan) = (plan_edits n keys delimiter, {})"
      using plan_types_whole [OF typed(1)] .
    then show ?thesis
      using out ends typed(2,4) by (intro exI [of _ out]) (auto simp: replay_seam_of_def)
  qed
qed

section \<open>Edits come to an end\<close>

lemma select_for_paste_returns:
  assumes "field_clock (ww_field W) clock"
  shows "\<exists>r t'. select_for_paste W process x patience budget t = Some (r, t')"
proof -
  obtain status cleanup report s' where "select_preceding_text_retrying (ww_field W) x patience budget
      (ww_resolve W process) (ce_barrier_report (fst t), snd t) = Some ((status, cleanup), report, s')"
    using selection_returns [OF assms] by metis
  then show ?thesis by (simp add: select_for_paste_def case_prod_unfold)
qed

text \<open>\<open>returned x\<close>: the computation \<open>x\<close> came to an end.\<close>

definition returned :: "('a \<times> 's) option \<Rightarrow> bool" where
  "returned x \<longleftrightarrow> (\<exists>r s. x = Some (r, s))"

lemma returned_Some [simp]: "returned (Some p)"
  by (cases p) (simp add: returned_def)

lemma returned_case:
  assumes "returned x" "\<And>p. returned (f p)"
  shows "returned (case x of None \<Rightarrow> None | Some p \<Rightarrow> f p)"
  using assms by (auto simp: returned_def)

lemma paste_end_returns [simp]: "returned (paste_end W k rt)"
  by (simp add: paste_end_def case_prod_unfold)

lemma wait_returned:
  assumes "world_clock W clock"
  shows "returned (switch_layout_and_wait W p f l q s)" "returned (wait_for_text_commit W p f q l x limits t)"
    "returned (wait_for_replay_commit W p f q l s)" "returned (wait_for_source_input_settle W p f q l x t)"
    "returned (wait_for_capability_text_barrier W p f q l x t)" "returned (wait_for_hotkey_release W e s)"
  using switch_layout_returns [OF assms] text_commit_returns [OF assms] replay_commit_returns [OF assms]
    settle_wait_returns [OF assms] capability_barrier_returns [OF assms] hotkey_wait_returns [OF assms]
  by (simp_all add: returned_def)

lemma paste_committed_returns:
  assumes "world_clock W clock"
  shows "returned (paste_committed W p q budget k t)"
  unfolding paste_committed_def Let_def case_prod_unfold
  by (intro returned_case) (auto intro!: returned_case wait_returned [OF assms])

lemma paste_submitted_returns:
  assumes "world_clock W clock"
  shows "returned (paste_submitted W p q budget k t)"
  unfolding paste_submitted_def Let_def case_prod_unfold
  by (auto intro!: returned_case wait_returned [OF assms] paste_committed_returns [OF assms])

lemma paste_returned:
  assumes "world_clock W clock" "field_clock (ww_field W) clock"
  shows "returned (perform_protected_paste W p q t)"
proof -
  have "returned (paste_installed W p q budget k t)" for budget k t
    unfolding paste_installed_def Let_def case_prod_unfold
    by (auto intro!: paste_submitted_returns [OF assms(1)])
  then have selected: "returned (paste_selected W p q budget t)" for budget t
    unfolding paste_selected_def Let_def case_prod_unfold by (auto split: option.splits sum.splits)
  have select: "returned (select_for_paste W process x patience budget t)" for process x patience budget t
    using select_for_paste_returns [OF assms(2)] by (simp add: returned_def)
  have "returned (paste_guarded W p q t)" for t
    unfolding paste_guarded_def Let_def case_prod_unfold
    by (auto intro!: returned_case select selected split: barrier_status.splits)
  then show ?thesis
    unfolding perform_protected_paste_def edit_in_flight_def case_prod_unfold by (intro returned_case) simp_all
qed

lemma physical_edit_returned:
  assumes "world_clock W clock"
  shows "returned (perform_physical_edit W p f q l n keys delimiter s)"
proof -
  have "returned (physical_edit W p f q l n keys delimiter s)" for s
    unfolding physical_edit_def Let_def case_prod_unfold
    by (cases "build_physical_replay_plan n keys delimiter") (auto intro!: returned_case wait_returned [OF assms])
  then show ?thesis
    unfolding perform_physical_edit_def case_prod_unfold by (intro returned_case) simp_all
qed

section \<open>A paste and a physical edit that are applied\<close>

lemma sample_paste_laws: "paste_laws sample_world ss_sent ss_told (\<lambda>s. 0 < ss_selected s)"
proof -
  have "world_quiet sample_world {s. ss_sent s = x \<and> ss_told s = y}" for x y by (intro sample_keeps sample_inspector_quiet) auto
  moreover have "world_quiet sample_world {s. \<not> 0 < ss_selected s}" by (intro sample_keeps sample_inspector_quiet) auto
  ultimately show ?thesis
    unfolding paste_laws_def
    by (auto simp: field_quiet_def field_truthful_def resolver_quiet_def link_quiet_def link_laws_def sample_world_defs)
qed

lemma sample_typing_laws: "typing_laws sample_world ss_sent"
proof -
  have "world_quiet sample_world {s. ss_sent s = x}" for x by (intro sample_keeps sample_inspector_quiet) auto
  then show ?thesis by (simp add: typing_laws_def sample_world_defs)
qed

definition sample_request :: paste_request where
  "sample_request = \<lparr>pr_foreground = sample_window, pr_sequence = 5, pr_source_layout = 0x409,
     pr_target_layout = 0x419, pr_expected = sample_word, pr_replacement = privet @ [32], pr_patience = Automatic\<rparr>"

definition guarded :: "sample_state \<Rightarrow> bool" where
  "guarded s \<longleftrightarrow> m_cancelled_gate_token (sm_observer (ss_metrics s)) = 0 \<and> m_input_epoch (sm_observer (ss_metrics s)) = 0
     \<and> m_active_gate_token (sm_observer (ss_metrics s)) = 5 \<and> m_forwarded_input_sequence (sm_observer (ss_metrics s)) = 5"

lemma guarded_updates [simp]:
  "guarded (s\<lparr>ss_time := n\<rparr>) = guarded s" "guarded (s\<lparr>ss_layout := l\<rparr>) = guarded s"
  "guarded (s\<lparr>ss_selected := r\<rparr>) = guarded s" "guarded (s\<lparr>ss_sent := xs\<rparr>) = guarded s"
  "guarded (s\<lparr>ss_told := f\<rparr>) = guarded s" "guarded (s\<lparr>ss_brokers := b\<rparr>) = guarded s"
  by (simp_all add: guarded_def)

lemma sample_guard:
  assumes "guarded s"
  shows "edit_guard_is_current sample_world sample_processor sample_window 5 s = (True, s)"
  using assms
  by (simp add: edit_guard_is_current_def input_guard_is_current_def gate_cancelled_or_new_epoch_def
      foreground_matches_def same_input_target_def foreground_identity_key_def guarded_def)

lemma sample_select:
  assumes "ss_selected s = 0" "\<And>now. allows_selection budget now Automatic"
  shows "\<exists>c'. select_for_paste sample_world 42 sample_word Automatic budget (c, s) = Some ((Match, None), c', s\<lparr>ss_selected := 7\<rparr>)
    \<and> ce_barrier_probe c' = ce_barrier_probe c \<and> ce_lingering c' = ce_lingering c"
proof -
  have units: "barrier_units sample_word = Some 7"
    by (simp add: barrier_units_def sample_word_def utf16_len_def len_utf16_def)
  have same: "text_barrier_matches sample_word sample_word" by (simp add: text_barrier_matches_def)
  show ?thesis
    using assms
    by (simp add: select_for_paste_def select_preceding_text_retrying_def
      retry_unshown_selection.simps select_preceding_text_in_def units read_preceding_text_def same
      confirm_own_selection_def confirm_selection_def confirm_loop.simps poll_selection_def
      sample_text_field_def Let_def patience_attempts_def confirmation_status_def unshown_def confirm_timeout_def
      UIA_SELECTION_CONFIRM_TIMEOUT_MS_def from_millis_def)
qed

definition idle :: "cells \<Rightarrow> bool" where
  "idle c \<longleftrightarrow> (\<exists>p. ce_barrier_probe c = Some p \<and> bp_pending p = None)"

lemma sample_query_answers:
  assumes "bp_pending p = None" "0 < age"
  shows "\<exists>p'. query_result (steady_provider v) key wait age p s = (Inr v, p', s) \<and> bp_pending p' = None"
  using assms
  by (simp add: steady_provider_def query_result_def give_up_pending_def submit_request_def await_reply_def not_busy_def)

lemma sample_commit_read:
  assumes "idle c"
  shows "\<exists>c' a. commit_read sample_world process x until (c, s) = ((Match, a), (c', s)) \<and> idle c'
    \<and> ce_lingering c' = ce_lingering c"
proof -
  obtain p where p: "ce_barrier_probe c = Some p" "bp_pending p = None" using assms by (auto simp: idle_def)
  let ?age = "from_millis (NOTEPAD_TEXT_BARRIER_TIMEOUT_MS + PASTE_COMMIT_LATE_ANSWER_MS)"
  have "0 < ?age" by (simp add: from_millis_def NOTEPAD_TEXT_BARRIER_TIMEOUT_MS_def)
  let ?read = "\<lparr>bd_process = process, bd_text = x, bd_check = ce_barrier_checks c + 1\<rparr>"
  obtain p' where "query_result (steady_provider (Match, barrier_report_default)) ?read (until - ss_time s) ?age p s
      = (Inr (Match, barrier_report_default), p', s)" "bp_pending p' = None"
    using sample_query_answers [OF p(2) \<open>0 < ?age\<close>] by metis
  then show ?thesis
    using p(1)
    by (simp add: commit_read_def next_barrier_read_def answer_barrier_read_def barrier_answer_def idle_def Let_def)
qed

lemma sample_commit:
  assumes "guarded s" "idle c" "ss_time s < d" "ss_layout s = layout"
  obtains c' where "wait_for_text_commit sample_world sample_processor sample_window 5 layout x (d, late) (c, s)
    = Some (Applied, (c', s))" "idle c'" "ce_lingering c' = ce_lingering c"
proof -
  obtain c' a where "commit_read sample_world 42 x d (c, s) = ((Match, a), (c', s))" "idle c'"
    "ce_lingering c' = ce_lingering c"
    using sample_commit_read [OF assms(2)] by metis
  then show thesis
    using assms(3,4) sample_guard [OF assms(1)] that
    by (simp add: wait_for_text_commit_def poll_text_commit_def while_before_def iterate_unfold before_def cells_now_def
      out_def poll_body_def paste_stop_def sample_window_def)
qed

lemma sample_switch:
  assumes "guarded s" "ss_layout s = 0x409"
  shows "switch_layout_and_wait sample_world sample_processor sample_window 0x419 5 s
    = Some (Applied, s\<lparr>ss_layout := 0x419, ss_time := ss_time s + from_millis 124\<rparr>)"
proof -
  have guard: "edit_guard_is_current sample_world sample_processor sample_window 5 (s\<lparr>ss_layout := l, ss_time := n\<rparr>)
      = (True, s\<lparr>ss_layout := l, ss_time := n\<rparr>)" for l n
    by (rule sample_guard) (use assms(1) in \<open>simp add: guarded_def\<close>)
  have post: "post_layout_switch sample_world sample_window 0x419 s = (True, s\<lparr>ss_layout := 0x419\<rparr>)"
    by (simp add: post_layout_switch_def sample_window_def assms(2))
  show ?thesis
    using assms guard sample_guard [OF assms(1)]
    by (simp add: switch_layout_and_wait_def while_before_def iterate_unfold before_def switch_body_def post Let_def
      LAYOUT_SWITCH_TIMEOUT_MS_def LAYOUT_STABLE_MS_def from_millis_def)
qed

lemma sample_target_process [simp]: "fc_process sample_window = 42"
  by (simp add: sample_window_def)

lemma sample_request_fields [simp]:
  "pr_foreground sample_request = sample_window" "pr_sequence sample_request = 5"
  "pr_source_layout sample_request = 0x409" "pr_target_layout sample_request = 0x419"
  "pr_expected sample_request = sample_word" "pr_replacement sample_request = privet @ [32]"
  "pr_patience sample_request = Automatic"
  by (simp_all add: sample_request_def)

abbreviation no_deadline :: paste_budget where "no_deadline \<equiv> \<lparr>pb_deadline = None\<rparr>"

lemma no_deadline_budget [simp]:
  "allows_selection no_deadline now p" "allows_submit no_deadline now"
  "install_timeout no_deadline now p = Some (clipboard_install_timeout p)" "wait_within no_deadline now d r = d"
  by (simp_all add: allows_selection_def allows_submit_def install_timeout_def wait_within_def budget_remaining_def)

definition sample_clip_of :: "instant option \<Rightarrow> protected_clipboard" where
  "sample_clip_of submitted =
     \<lparr>pk_owner = 9, pk_sequence = 7, pk_target = 42, pk_deferred_wait = from_millis UNCONFIRMED_PASTE_WAIT_MS,
      pk_broker = 0, pk_worker = True, pk_active = True, pk_submitted_at = submitted, pk_lingering = False\<rparr>"

lemma sample_restore:
  assumes "ce_lingering c = []" "ss_told s = (\<lambda>_. [])"
  shows "restore_within sample_world wait (sample_clip_of t) (c, s)
    = ((True, (sample_clip_of t)\<lparr>pk_active := False, pk_worker := False\<rparr>), (c, s\<lparr>ss_told := (\<lambda>_. [])(0 := [Restore])\<rparr>))"
  using assms
  by (simp add: restore_within_def with_brokers_def restore_waiting_def sample_clip_of_def clipboard_finish_def
      sample_clipboard_link_def Let_def)

lemma sample_end:
  "paste_end sample_world ((sample_clip_of t)\<lparr>pk_active := False, pk_worker := False\<rparr>) (r, (c, s)) = Some (r, (c, s))"
  by (cases t)
    (simp_all add: paste_end_def with_brokers_def clipboard_drop_def clipboard_defer_def clipboard_restore_def
      restore_waiting_def sample_clip_of_def)

lemma sample_committed:
  assumes "guarded s" "idle c" "ce_lingering c = []" "ss_layout s = 0x409" "ss_told s = (\<lambda>_. [])"
  shows "\<exists>c' s'. paste_committed sample_world sample_processor sample_request no_deadline (sample_clip_of t) (c, s)
      = Some (EditApplied, (c', s')) \<and> ss_told s' = (\<lambda>_. [])(0 := [Restore]) \<and> ss_sent s' = ss_sent s"
proof -
  let ?s = "s\<lparr>ss_told := (\<lambda>_. [])(0 := [Restore]), ss_layout := 0x419, ss_time := ss_time s + from_millis 124\<rparr>"
  let ?until = "ss_time ?s + from_millis NOTEPAD_TEXT_BARRIER_TIMEOUT_MS"
  obtain c' where commit: "wait_for_text_commit sample_world sample_processor sample_window 5 0x419 (privet @ [32])
      (?until, commit_late_until no_deadline ?until (from_millis PASTE_UIA_MARGIN_MS)) (c, ?s) = Some (Applied, (c', ?s))"
    by (rule sample_commit [of ?s c ?until "0x419"])
      (use assms in \<open>simp_all add: from_millis_def NOTEPAD_TEXT_BARRIER_TIMEOUT_MS_def\<close>)
  have switch: "switch_layout_and_wait sample_world sample_processor sample_window 0x419 5
      (s\<lparr>ss_told := (\<lambda>_. [])(0 := [Restore])\<rparr>) = Some (Applied, ?s)"
    using sample_switch [of "s\<lparr>ss_told := (\<lambda>_. [])(0 := [Restore])\<rparr>"] assms by simp
  have current: "clipboard_is_current (ww_clipboard sample_world) (sample_clip_of t) s = (True, s)"
    by (simp add: clipboard_is_current_def sample_clip_of_def sample_clipboard_link_def)
  show ?thesis
    using commit switch
    by (simp add: paste_committed_def out_def cells_now_def current sample_restore [OF assms(3,5)] sample_end
        protected_paste_outcome_def Let_def del: sample_calls(2))
qed

lemma sample_submitted:
  assumes "guarded s" "idle c" "ce_lingering c = []" "ss_layout s = 0x409" "ss_told s = (\<lambda>_. [])"
  shows "\<exists>c' s'. paste_submitted sample_world sample_processor sample_request no_deadline (sample_clip_of None) (c, s)
      = Some (EditApplied, (c', s')) \<and> ss_told s' = (\<lambda>_. [])(0 := [Restore]) \<and> ss_sent s' = ss_sent s @ build_paste_inputs"
proof -
  let ?s = "s\<lparr>ss_sent := ss_sent s @ build_paste_inputs\<rparr>"
  let ?until = "ss_time s + from_millis NOTEPAD_TEXT_BARRIER_TIMEOUT_MS"
  obtain c1 where commit: "wait_for_text_commit sample_world sample_processor sample_window 5 0x409 (privet @ [32])
      (?until, commit_late_until no_deadline ?until (from_millis PASTE_AFTER_LATE_COMMIT_MS)) (c, ?s) = Some (Applied, (c1, ?s))"
    "idle c1" "ce_lingering c1 = ce_lingering c"
    by (rule sample_commit [of ?s c ?until "0x409"])
      (use assms in \<open>simp_all add: from_millis_def NOTEPAD_TEXT_BARRIER_TIMEOUT_MS_def\<close>)
  have mark: "mark_submitted (ww_clipboard sample_world) (sample_clip_of None) s = (sample_clip_of (Some (ss_time s)), s)"
    by (simp add: mark_submitted_def sample_clip_of_def sample_clipboard_link_def)
  have submit: "paste_submit sample_world build_paste_inputs (c, s) = (length build_paste_inputs, (c, ?s))"
    by (simp add: paste_submit_def out_def send_input_count_def build_paste_inputs_def)
  have "\<exists>c' s'. paste_committed sample_world sample_processor sample_request no_deadline
      (sample_clip_of (Some (ss_time s))) (c1, ?s) = Some (EditApplied, (c', s'))
      \<and> ss_told s' = (\<lambda>_. [])(0 := [Restore]) \<and> ss_sent s' = ss_sent ?s"
    by (rule sample_committed) (use assms commit in simp_all)
  then show ?thesis
    using commit
    by (simp add: paste_submitted_def out_def cells_now_def mark submit clipboard_after_paste_def Let_def
        del: sample_calls(2))
qed

lemma sample_paste:
  "\<exists>c s. perform_protected_paste sample_world sample_processor sample_request (cells_new sample_facts, sample_start)
      = Some (EditApplied, (c, s)) \<and> ss_told s = (\<lambda>_. [])(0 := [Restore]) \<and> ss_sent s = build_paste_inputs"
proof -
  define c0 where "c0 = cells_new sample_facts"
  have c0: "idle c0" "ce_edit_deadline c0 = None" "ce_lingering c0 = []"
    by (simp_all add: c0_def cells_new_def sample_facts_def idle_def probe_spawn_resilient_def)
  define s1 where "s1 = store sample_world (m_edit_in_flight_update (\<lambda>_. True)) sample_start"
  have s1: "guarded s1" "ss_selected s1 = 0" "ss_layout s1 = 0x409" "ss_brokers s1 = 0" "ss_told s1 = (\<lambda>_. [])"
    "ss_sent s1 = []"
    by (simp_all add: s1_def sample_start_def sample_metrics_def guarded_def observer_metrics_default_def)
  obtain c1 where sel: "select_for_paste sample_world 42 sample_word Automatic no_deadline (c0, s1)
      = Some ((Match, None), c1, s1\<lparr>ss_selected := 7\<rparr>)" "idle c1" "ce_lingering c1 = []"
    using sample_select [OF s1(2) no_deadline_budget(1), of c0] c0 unfolding idle_def by metis
  let ?s = "s1\<lparr>ss_selected := 7, ss_brokers := Suc 0, ss_told := (\<lambda>_. [])\<rparr>"
  have begun: "clipboard_begin sample_world (privet @ [32]) wait 42 (c1, s1\<lparr>ss_selected := 7\<rparr>)
      = (Inr (sample_clip_of None), (c1, ?s))" for wait
    using s1 sel(3)
    by (simp add: clipboard_begin_def with_brokers_def begin_with_def sample_clipboard_link_def sample_clip_of_def
        Let_def fun_upd_idem)
  obtain c' s' where run: "paste_submitted sample_world sample_processor sample_request no_deadline
      (sample_clip_of None) (c1, ?s) = Some (EditApplied, (c', s'))" "ss_told s' = (\<lambda>_. [])(0 := [Restore])"
      "ss_sent s' = build_paste_inputs"
    using sample_submitted [of ?s c1] s1 sel by auto
  have current: "clipboard_is_current (ww_clipboard sample_world) (sample_clip_of t) u = (True, u)" for t u
    by (simp add: clipboard_is_current_def sample_clip_of_def sample_clipboard_link_def)
  have guard: "edit_guard_is_current sample_world sample_processor sample_window 5 ?s = (True, ?s)"
    by (rule sample_guard) (simp add: s1)
  have "paste_guarded sample_world sample_processor sample_request (c0, s1) = Some (EditApplied, (c', s'))"
    using sel run(1) c0(2) sample_guard [OF s1(1)]
    by (simp add: paste_guarded_def out_def cells_now_def paste_selected_def begun paste_installed_def current guard
        Let_def del: sample_calls(2))
  then show ?thesis
    using run(2,3) by (simp add: perform_protected_paste_def edit_in_flight_def c0_def s1_def)
qed

theorem paste_never_pastes_users_clipboard_witness:
  "\<exists>c s. perform_protected_paste sample_world sample_processor sample_request (cells_new sample_facts, sample_start)
      = Some (EditApplied, (c, s)) \<and> ss_sent s = ss_sent sample_start @ build_paste_inputs
      \<and> (\<exists>v. shown_by sample_world 42 (privet @ [32]) v \<and> ss_told (snd v) 0 = [])"
proof -
  obtain c s where run: "perform_protected_paste sample_world sample_processor sample_request
      (cells_new sample_facts, sample_start) = Some (EditApplied, (c, s))"
    and told: "ss_told s = (\<lambda>_. [])(0 := [Restore])"
    using sample_paste by blast
  have start: "\<not> 0 < ss_selected sample_start" "ss_told sample_start = (\<lambda>_. [])"
    by (simp_all add: sample_start_def)
  have "b = 0 \<and> command = Restore" if "ss_told s = (\<lambda>_. [])(b := [command])" for b command
    using that told by (auto simp: fun_eq_iff split: if_splits)
  moreover have "build_paste_inputs \<noteq> []" by (simp add: build_paste_inputs_def)
  ultimately show ?thesis
    using paste_never_pastes_users_clipboard [OF sample_paste_laws start(1) run] run start(2)
    by (auto simp: is_defer_def simp del: split_paired_Ex)
qed

definition physical_processor :: processor where
  "physical_processor = sample_processor\<lparr>ip_backend := BackendPhysical\<rparr>"

lemma sample_physical:
  "\<exists>s. perform_physical_edit sample_world physical_processor sample_window 5 0x409 1 sample_keys (Some 0x20) sample_start
    = Some (Applied, s)"
proof -
  define s1 where "s1 = store sample_world (m_edit_in_flight_update (\<lambda>_. True)) sample_start"
  have "guarded s1" and layout: "ss_layout s1 = 0x409"
    by (simp_all add: s1_def sample_start_def sample_metrics_def guarded_def observer_metrics_default_def)
  then have guard: "edit_guard_is_current sample_world physical_processor sample_window 5 s1 = (True, s1)"
    by (simp add: edit_guard_is_current_def input_guard_is_current_def gate_cancelled_or_new_epoch_def
        foreground_matches_def same_input_target_def foreground_identity_key_def guarded_def physical_processor_def)
  have same_caps: "\<not> list_ex (\<lambda>k. rk_caps_lock k \<noteq> rk_caps_lock (hd sample_keys)) sample_keys" and "sample_keys \<noteq> []"
    by (simp_all add: sample_keys_def)
  have inputs: "rp_inputs sample_plan \<noteq> []" "rp_step_ends sample_plan = [2, 4, 6, 8]" "length (rp_inputs sample_plan) = 8"
    by (simp_all add: sample_plan_def plan_steps_def sample_keys_def erase_step_def space_step_def key_step_def
        keypad_of_def keypad_digit_key_def)
  have "switch_layout_and_wait sample_world physical_processor sample_window 0x409 5 s1 = Some (Applied, s1)"
    by (simp add: switch_layout_and_wait_def guard layout)
  moreover have "\<exists>s. dispatch_physical_replay_plan (replay_seam_of sample_world physical_processor sample_window 5 False)
      sample_plan Batch s1 = (Applied, s)"
    using inputs by (simp add: dispatch_physical_replay_plan_def replay_seam_of_def guard send_input_batch_def send_input_count_def)
  moreover have "\<not> requires_text_barrier (ip_backend physical_processor)"
    by (simp add: requires_text_barrier_def physical_processor_def)
  ultimately show ?thesis
    using same_caps \<open>sample_keys \<noteq> []\<close>
    by (auto simp: perform_physical_edit_def physical_edit_def guard sample_plan_built [simplified] s1_def [symmetric] Let_def simp del: sample_store)
qed

theorem physical_edit_leaves_whole_edits_witness:
  "\<exists>s out. perform_physical_edit sample_world physical_processor sample_window 5 0x409 1 sample_keys (Some 0x20) sample_start
      = Some (Applied, s) \<and> ss_sent s = out
    \<and> consume {} out = ([Erase, Stroke 0x23 False False, Keypad VK_NUMPAD0 False, Space_typed], {})"
proof -
  obtain s where run: "perform_physical_edit sample_world physical_processor sample_window 5 0x409 1 sample_keys (Some 0x20)
      sample_start = Some (Applied, s)"
    using sample_physical by blast
  have "plan_edits 1 sample_keys (Some 0x20) = [Erase, Stroke 0x23 False False, Keypad VK_NUMPAD0 False, Space_typed]"
    by (simp add: plan_edits_def sample_keys_def edit_of_key_def keypad_of_def keypad_digit_key_def)
  moreover have "ss_sent sample_start = []" by (simp add: sample_start_def)
  ultimately show ?thesis
    using physical_edit_leaves_whole_edits [OF sample_typing_laws run] run by auto
qed

end
