(* ===== verification/Worker_Edit.thy ===== *)
theory Worker_Edit
  imports Worker_Privacy Protected_Paste
begin

text \<open>
  \<open>src/windows_agent.rs\<close>: a conversion and an undo from the decision to their end: the checks that they may
  still be made, the edit by the program's backend, the bookkeeping after it, and the end of the gate that
  holds the keys typed meanwhile.

  The state of the worker is \<open>(p, c, s)\<close>: its fields, its cells and the world.
\<close>

type_synonym 's worker = "processor \<times> 's worker_cells"

definition in_world :: "(processor \<times> 's \<Rightarrow> processor \<times> 's) \<Rightarrow> 's worker \<Rightarrow> 's worker" where
  "in_world f = (\<lambda>(p, c, s). let (p, s) = f (p, s) in (p, c, s))"

definition ask_world :: "(processor \<times> 's \<Rightarrow> 'a \<times> processor \<times> 's) \<Rightarrow> 's worker \<Rightarrow> 'a \<times> 's worker" where
  "ask_world f = (\<lambda>(p, c, s). let (x, p, s) = f (p, s) in (x, p, c, s))"

definition BACKEND_CAPABILITY_UNSUPPORTED :: u8 where [consts_def]: "BACKEND_CAPABILITY_UNSUPPORTED = 4"
definition BACKEND_CAPABILITY_MISMATCH :: u8 where [consts_def]: "BACKEND_CAPABILITY_MISMATCH = 5"

section \<open>The end of the gate\<close>

definition request_gate_release :: "('s, 'r) worker_world \<Rightarrow> u64 \<Rightarrow> processor \<times> 's \<Rightarrow> processor \<times> 's" where
  "request_gate_release W token = (\<lambda>(p, s).
     if token = 0 then (p, s)
     else
       let p = p\<lparr>ip_last_gate_release := token\<rparr>;
           s = note_metric W (sm_gate_release_requests_update (\<lambda>n. n + 1)) s
       in if ip_gate_window p = 0 then (p, s)
          else
            let (posted, s) = ww_post_gate W (NoticeRelease token) s in
            if posted then (p, s)
            else
              let (p, s) = record_conversion_failure W FailGateDrain (p, s)
              in (p, snd (ww_post_gate W (NoticeFailOpen token) s)))"

definition request_gate_retention :: "('s, 'r) worker_world \<Rightarrow> u64 \<Rightarrow> processor \<times> 's \<Rightarrow> processor \<times> 's" where
  "request_gate_retention W token = (\<lambda>(p, s).
     if token = 0 then (p, s)
     else
       let p = p\<lparr>ip_last_gate_release := token, ip_last_gate_retention := token\<rparr>
       in (p, if ip_gate_window p = 0 then s else snd (ww_post_gate W (NoticeSelectionLeft token) s)))"

definition end_conversion_gate :: "('s, 'r) worker_world \<Rightarrow> u64 \<Rightarrow> processor \<times> 's \<Rightarrow> processor \<times> 's" where
  "end_conversion_gate W token = (\<lambda>(p, s).
     let kept = ip_held_keys_kept_for p; p = p\<lparr>ip_held_keys_kept_for := None\<rparr>
     in if kept = Some token then request_gate_retention W token (p, s)
        else request_gate_release W token (p, s))"

section \<open>What an attempt means\<close>

definition attempt_status :: "text_edit_attempt \<Rightarrow> u8 option" where
  "attempt_status attempt =
     (case attempt of
        EditApplied \<Rightarrow> Some BACKEND_PROTECTED_PASTE
      | EditAppliedClipboardNotRestored \<Rightarrow> Some BACKEND_PROTECTED_PASTE
      | EditCancelled \<Rightarrow> Some BACKEND_SELECTION_MISMATCH
      | EditUnsupported \<Rightarrow> Some BACKEND_SELECTION_UNSUPPORTED
      | _ \<Rightarrow> None)"

definition store_backend_status :: "('s, 'r) worker_world \<Rightarrow> u8 \<Rightarrow> 's \<Rightarrow> 's" where
  "store_backend_status W status = note_metric W (sm_backend_status_update (\<lambda>_. status))"

definition apply_paste_attempt_result ::
  "('s, 'r) worker_world \<Rightarrow> text_edit_attempt \<Rightarrow> u64 \<Rightarrow> paste_route \<Rightarrow> processor \<times> 's \<Rightarrow>
     edit_strategy option \<times> processor \<times> 's" where
  "apply_paste_attempt_result W attempt sequence route = (\<lambda>(p, s).
     let s = (if route = RouteCapabilityProbe
              then (case attempt_status attempt of None \<Rightarrow> s | Some status \<Rightarrow> store_backend_status W status s)
              else s)
     in case attempt of
          EditApplied \<Rightarrow> (Some StrategyPaste, p, s)
        | EditAppliedClipboardNotRestored \<Rightarrow> (Some StrategyPaste, p, s)
        | EditCancelled \<Rightarrow> (None, p, s)
        | EditUnsupported \<Rightarrow> (None, p, s)
        | EditFailed reason \<Rightarrow> (None, record_conversion_failure W reason (p, s))
        | EditSelectionLeft \<Rightarrow>
            (None, record_conversion_failure W FailSelectionLeft
              (p\<lparr>ip_held_keys_kept_for := Some sequence\<rparr>,
               store W (m_selection_left_token_update (\<lambda>_. sequence)) s)))"

definition finish_replay_commit ::
  "('s, 'r) worker_world \<Rightarrow> replay_attempt \<Rightarrow> u64 \<Rightarrow> processor \<times> 's \<Rightarrow> bool \<times> processor \<times> 's" where
  "finish_replay_commit W commit layout = (\<lambda>(p, s).
     case commit of
       Applied \<Rightarrow> (True, p, s)
     | Cancelled \<Rightarrow>
         let (now, s) = ww_now W s
         in (False, clear_session (p\<lparr>ip_layout_in_flight := Some (layout, now + from_secs 1)\<rparr>), s)
     | _ \<Rightarrow> (False, record_conversion_failure W FailReplayCommit (p, s)))"

text \<open>The physical edit with its commit: of a conversion, where a failed layout switch of a forced one is the
  user's to see, and of an undo.\<close>

definition physical_with_commit ::
  "('s, 'r) worker_world \<Rightarrow> bool \<Rightarrow> foreground_context \<Rightarrow> u64 \<Rightarrow> u64 \<Rightarrow> nat \<Rightarrow> replay_key list \<Rightarrow> uchar option \<Rightarrow>
     processor \<times> 's \<Rightarrow> (bool \<times> processor \<times> 's) option" where
  "physical_with_commit W manual foreground sequence layout erase keys delimiter = (\<lambda>(p, s).
     case perform_physical_edit W p foreground sequence layout erase keys delimiter s of
       None \<Rightarrow> None
     | Some (Applied, s) \<Rightarrow>
         (case wait_for_replay_commit W p foreground sequence layout s of
            None \<Rightarrow> None
          | Some (commit, s) \<Rightarrow> Some (finish_replay_commit W commit layout (p, s)))
     | Some (Cancelled, s) \<Rightarrow> Some (False, p, s)
     | Some (LayoutSwitchFailed, s) \<Rightarrow>
         Some (False, if manual then record_manual_edit_failure W (p, s)
                      else record_conversion_failure W FailPhysicalEdit (p, s))
     | Some (Failed, s) \<Rightarrow> Some (False, record_conversion_failure W FailPhysicalEdit (p, s)))"

definition complete_physical_conversion ::
  "('s, 'r) worker_world \<Rightarrow> pending_conversion \<Rightarrow> u64 \<Rightarrow> u64 \<Rightarrow> 's worker \<Rightarrow>
     (edit_strategy option \<times> 's worker) option" where
  "complete_physical_conversion W pending sequence target = (\<lambda>(p, c, s).
     case physical_with_commit W (pn_forced pending) (pn_foreground pending) sequence target
            (te_erase_characters (ct_forward (pn_transaction pending))) (pn_keys pending)
            (ct_delimiter (pn_transaction pending)) (p, s) of
       None \<Rightarrow> None
     | Some (committed, p, s) \<Rightarrow> Some (if committed then Some StrategyPhysical else None, p, c, s))"

section \<open>The bookkeeping of an applied edit\<close>

definition set_lexicon_offer ::
  "('s, 'r) worker_world \<Rightarrow> lexicon_offer_target \<Rightarrow> language \<Rightarrow> ustr \<Rightarrow> 's \<Rightarrow> 's" where
  "set_lexicon_offer W target l word s =
     (let (now, s) = ww_now W s
      in ww_post_offer W (ww_lexicon W (\<lambda>_. Some \<lparr>vl_target = target, vl_language = l, vl_word = word,
           vl_expires_at = now + from_secs LEXICON_OFFER_SECONDS\<rparr>) s))"

text \<open>The most recent word counts as the other language of an edit.\<close>

definition retag_last :: "language \<Rightarrow> language \<Rightarrow> language list \<Rightarrow> language list" where
  "retag_last was now ls = (if ls \<noteq> [] \<and> last ls = was then butlast ls @ [now] else ls)"

definition boundary_of :: "replay_key list \<Rightarrow> uchar \<Rightarrow> foreground_context \<Rightarrow> u64 \<Rightarrow> u64 \<Rightarrow> u64 \<Rightarrow> last_boundary" where
  "boundary_of keys delimiter foreground layout epoch generation =
     \<lparr>lb_keys = keys, lb_delimiter = Some delimiter, lb_foreground = foreground\<lparr>fc_layout := layout\<rparr>,
      lb_epoch = epoch, lb_generation = generation\<rparr>"

definition finish_applied_conversion ::
  "('s, 'r) worker_world \<Rightarrow> pending_conversion \<Rightarrow> u64 \<Rightarrow> edit_strategy \<Rightarrow> processor \<times> 's \<Rightarrow> processor \<times> 's" where
  "finish_applied_conversion W pending target strategy = (\<lambda>(p, s).
     let x = pn_transaction pending;
         p = (if pn_forced pending then p
              else p\<lparr>ip_recent_languages := retag_last (ct_source_language x) (ct_target_language x) (ip_recent_languages p)\<rparr>);
         p = clear_session (commit_confirmed_layout target p);
         (p, s) = renew_recent_privacy_ok W (pn_foreground pending) (p, s);
         p = (case ct_delimiter x of
                None \<Rightarrow> p
              | Some d \<Rightarrow> p\<lparr>ip_last_boundary := Some (boundary_of (pn_keys pending) d (pn_foreground pending) target
                  (ip_last_input_epoch p) (pn_generation pending))\<rparr>);
         p = (if \<not> pn_forced pending then p
              else p\<lparr>ip_transpose_cycle := Some \<lparr>tc_keys = pn_keys pending, tc_delimiter = ct_delimiter x,
                tc_foreground = pn_foreground pending, tc_language = ct_target_language x,
                tc_text = ct_replacement x, tc_epoch = ip_last_input_epoch p,
                tc_generation = pn_generation pending, tc_order = pn_cycle_order pending\<rparr>\<rparr>);
         (p, s) = request_sound W CueConverted (p, s);
         s = (if pn_forced pending \<and> st_offer_dictionary_after_forced_conversion (ip_settings p)
              then set_lexicon_offer W OfferUserDictionary (ct_target_language x) (ct_replacement x) s else s)
     in if pn_forced pending then (p, s)
        else
          (p\<lparr>ip_undo := Some \<lparr>ur_transaction = x, ur_foreground = pn_foreground pending,
               ur_source_layout = pn_source_layout pending, ur_generation = pn_generation pending,
               ur_keys = pn_keys pending, ur_strategy = strategy\<rparr>\<rparr>,
           store W (m_undo_available_update (\<lambda>_. True)) s))"

definition finish_applied_undo :: "undo_record \<Rightarrow> processor \<Rightarrow> processor" where
  "finish_applied_undo r p =
     (let x = ur_transaction r;
          p = p\<lparr>ip_recent_languages := retag_last (ct_target_language x) (ct_source_language x) (ip_recent_languages p)\<rparr>;
          p = clear_session (commit_confirmed_layout (ur_source_layout r) p)
      in p\<lparr>ip_transpose_cycle := None,
           ip_last_boundary := map_option (\<lambda>d. boundary_of (ur_keys r) d (ur_foreground r) (ur_source_layout r)
             (ip_last_input_epoch p) (ur_generation r)) (ct_delimiter x)\<rparr>)"

section \<open>A conversion\<close>

definition paste_of_conversion :: "pending_conversion \<Rightarrow> u64 \<Rightarrow> u64 \<Rightarrow> paste_request" where
  "paste_of_conversion pending sequence target =
     \<lparr>pr_foreground = pn_foreground pending, pr_sequence = sequence, pr_source_layout = pn_source_layout pending,
      pr_target_layout = target, pr_expected = te_insert_text (ct_undo (pn_transaction pending)),
      pr_replacement = te_insert_text (ct_forward (pn_transaction pending)),
      pr_patience = paste_patience_of (pn_forced pending)\<rparr>"

text \<open>A paste with what its attempt means.\<close>

definition paste_edit ::
  "('s, 'r) worker_world \<Rightarrow> paste_request \<Rightarrow> paste_route \<Rightarrow> 's worker \<Rightarrow> (edit_strategy option \<times> 's worker) option" where
  "paste_edit W q route = (\<lambda>(p, t).
     case perform_protected_paste W p q t of
       None \<Rightarrow> None
     | Some (attempt, t) \<Rightarrow> Some (ask_world (apply_paste_attempt_result W attempt (pr_sequence q) route) (p, t)))"

definition edit_with_capability ::
  "('s, 'r) worker_world \<Rightarrow> pending_conversion \<Rightarrow> u64 \<Rightarrow> u64 \<Rightarrow> 's worker \<Rightarrow>
     (edit_strategy option \<times> 's worker) option" where
  "edit_with_capability W pending sequence target = (\<lambda>(p, t).
     case wait_for_capability_text_barrier W p (pn_foreground pending) sequence (pn_source_layout pending)
            (te_insert_text (ct_undo (pn_transaction pending))) t of
       None \<Rightarrow> None
     | Some (barrier, t) \<Rightarrow>
         let fallback = st_physical_fallback_for_unsupported_apps (ip_settings p)
               \<and> physical_replay_fallback_is_safe (tb_resolver_reason (ce_barrier_report (fst t)));
             refuse = (\<lambda>status. Some (None, p, apsnd (store_backend_status W status) t))
         in case capability_decide barrier fallback of
              DecidePaste \<Rightarrow> paste_edit W (paste_of_conversion pending sequence target) RouteCapabilityProbe (p, t)
            | CancelMismatch \<Rightarrow> refuse BACKEND_CAPABILITY_MISMATCH
            | Unsupported_field \<Rightarrow> refuse BACKEND_CAPABILITY_UNSUPPORTED
            | DecideReplay \<Rightarrow>
                (case complete_physical_conversion W pending sequence target (p, t) of
                   None \<Rightarrow> None
                 | Some (None, t) \<Rightarrow> Some (None, t)
                 | Some (Some strategy, p, c, s) \<Rightarrow>
                     Some (Some strategy, p, c, store_backend_status W BACKEND_PHYSICAL_REPLAY s)))"

definition edit_by_backend ::
  "('s, 'r) worker_world \<Rightarrow> pending_conversion \<Rightarrow> u64 \<Rightarrow> u64 \<Rightarrow> 's worker \<Rightarrow>
     (edit_strategy option \<times> 's worker) option" where
  "edit_by_backend W pending sequence target t =
     (case ip_backend (fst t) of
        BackendObserve \<Rightarrow> Some (None, t)
      | BackendPaste \<Rightarrow> paste_edit W (paste_of_conversion pending sequence target) RouteBackend t
      | BackendPhysical \<Rightarrow> complete_physical_conversion W pending sequence target t
      | BackendProbe \<Rightarrow> edit_with_capability W pending sequence target t)"

text \<open>Whether the conversion may still be made, in the order the questions are asked.\<close>

definition conversion_admitted ::
  "('s, 'r) worker_world \<Rightarrow> pending_conversion \<Rightarrow> u64 \<Rightarrow> processor \<Rightarrow> 's \<Rightarrow> bool \<times> 's" where
  "conversion_admitted W pending sequence p s =
     (let (blocked, s) =
            (if pn_forced pending
             then let (allowed, s) = manual_privacy_allows_current W p (pn_foreground pending) s in (\<not> allowed, s)
             else (ip_privacy_reason p \<noteq> None, s));
          (enabled, s) = (if pn_forced pending then (True, s) else load W m_auto_enabled s)
      in if \<not> enabled \<or> blocked then (False, s)
         else
           let (matches, s) = pending_profiles_match W p pending s in
           if \<not> matches then (False, s)
           else pre_forward_guard_is_current W p (pn_foreground pending) sequence s)"

text \<open>From the settled source on: the target layout, the last guards, the edit.\<close>

definition convert_settled ::
  "('s, 'r) worker_world \<Rightarrow> pending_conversion \<Rightarrow> u64 \<Rightarrow> 's worker \<Rightarrow> 's worker option" where
  "convert_settled W pending sequence = (\<lambda>(p, c, s).
     let (current, s) = profile_inventory_is_current W p s;
         (target, s) =
           (if current then find_layout W p (ct_target_language (pn_transaction pending)) s else (None, s))
     in case target of
          None \<Rightarrow> Some (in_world (record_conversion_failure W FailLayoutUnavailable) (p, c, s))
        | Some target \<Rightarrow>
            let (current, s) = edit_guard_is_current W p (pn_foreground pending) sequence s in
            if \<not> current \<or> ip_backend p = BackendObserve then Some (p, c, s)
            else
              let (p, s) = invalidate_conversion_state W (p, s);
                  p = (clear_session p)\<lparr>ip_replay_keys := []\<rparr>
              in case edit_by_backend W pending sequence target (p, c, s) of
                   None \<Rightarrow> None
                 | Some (None, t) \<Rightarrow> Some t
                 | Some (Some strategy, t) \<Rightarrow>
                     Some (in_world (finish_applied_conversion W pending target strategy) t))"

definition execute_pending_conversion_inner ::
  "('s, 'r) worker_world \<Rightarrow> u64 \<Rightarrow> 's worker \<Rightarrow> 's worker option" where
  "execute_pending_conversion_inner W sequence = (\<lambda>(p, c, s).
     case ip_pending p of
       None \<Rightarrow> Some (p, c, s)
     | Some pending \<Rightarrow>
         let p = p\<lparr>ip_pending := None\<rparr> in
         if sequence \<noteq> pn_space_sequence pending \<and> sequence \<noteq> pn_space_sequence pending + 1 then Some (p, c, s)
         else
           let (admitted, s) = conversion_admitted W pending sequence p s in
           if \<not> admitted then Some (p, c, s)
           else
             (case wait_for_source_input_settle W p (pn_foreground pending) sequence (pn_source_layout pending)
                     (te_insert_text (ct_undo (pn_transaction pending))) (c, s) of
                None \<Rightarrow> None
              | Some (Applied, t) \<Rightarrow> convert_settled W pending sequence (p, t)
              | Some (Cancelled, t) \<Rightarrow> Some (p, t)
              | Some (_, t) \<Rightarrow> Some (in_world (record_conversion_failure W FailSourceBarrier) (p, t))))"

definition execute_pending_conversion :: "('s, 'r) worker_world \<Rightarrow> u64 \<Rightarrow> 's worker \<Rightarrow> 's worker option" where
  "execute_pending_conversion W sequence t =
     map_option (in_world (end_conversion_gate W sequence)) (execute_pending_conversion_inner W sequence t)"

section \<open>An undo\<close>

definition undo_admitted ::
  "('s, 'r) worker_world \<Rightarrow> undo_record \<Rightarrow> u64 \<Rightarrow> processor \<Rightarrow> 's \<Rightarrow> bool \<times> 's" where
  "undo_admitted W r sequence p s =
     (let (current, s) = input_sequence_is_current W sequence s in
      if \<not> current \<or> ip_privacy_reason p \<noteq> None \<or> ur_generation r \<noteq> profile_generation (ip_profiles p) then (False, s)
      else let (l, s) = language_for_layout W p (ur_source_layout r) s in
      if l \<noteq> Some (ct_source_language (ur_transaction r)) then (False, s)
      else let (inventory, s) = profile_inventory_is_current W p s in
      if \<not> inventory then (False, s)
      else let (free, s) = modifiers_released_now W s in
      if \<not> free then (False, s)
      else let (same, s) = foreground_matches W (ur_foreground r) s in
      if \<not> same then (False, s)
      else case ww_foreground W s of
        (None, s) \<Rightarrow> (False, s)
      | (Some current, s) \<Rightarrow>
          let (l, s) = language_for_layout W p (fc_layout current) s
          in (l = Some (ct_target_language (ur_transaction r)), s))"

definition paste_of_undo :: "undo_record \<Rightarrow> u64 \<Rightarrow> u64 \<Rightarrow> paste_request" where
  "paste_of_undo r sequence shown =
     \<lparr>pr_foreground = ur_foreground r, pr_sequence = sequence, pr_source_layout = shown,
      pr_target_layout = ur_source_layout r, pr_expected = te_insert_text (ct_forward (ur_transaction r)),
      pr_replacement = te_insert_text (ct_undo (ur_transaction r)), pr_patience = Manual\<rparr>"

definition undo_edit ::
  "('s, 'r) worker_world \<Rightarrow> undo_record \<Rightarrow> u64 \<Rightarrow> 's worker \<Rightarrow> (bool \<times> 's worker) option" where
  "undo_edit W r sequence = (\<lambda>(p, c, s).
     case ur_strategy r of
       StrategyPaste \<Rightarrow>
         (case ww_foreground W s of
            (None, s) \<Rightarrow> Some (False, p, c, s)
          | (Some current, s) \<Rightarrow>
              (case paste_edit W (paste_of_undo r sequence (fc_layout current)) RouteBackend (p, c, s) of
                 None \<Rightarrow> None
               | Some (strategy, t) \<Rightarrow> Some (strategy \<noteq> None, t)))
     | StrategyPhysical \<Rightarrow>
         (case physical_with_commit W True (ur_foreground r) sequence (ur_source_layout r)
                 (te_erase_characters (ct_undo (ur_transaction r))) (ur_keys r)
                 (ct_delimiter (ur_transaction r)) (p, s) of
            None \<Rightarrow> None
          | Some (committed, p, s) \<Rightarrow> Some (committed, p, c, s)))"

definition execute_undo_inner :: "('s, 'r) worker_world \<Rightarrow> u64 \<Rightarrow> 's worker \<Rightarrow> 's worker option" where
  "execute_undo_inner W sequence = (\<lambda>(p, c, s).
     case ip_undo p of
       None \<Rightarrow> Some (p, c, s)
     | Some r \<Rightarrow>
         let (admitted, s) = undo_admitted W r sequence p s in
         if \<not> admitted then Some (p, c, s)
         else
           let (armed, c, s) = arm_correction_gate W p sequence (c, s) in
           if \<not> armed then Some (p, c, s)
           else
             let (p, s) = clear_undo W (p, s) in
             (case undo_edit W r sequence (p, c, s) of
                None \<Rightarrow> None
              | Some (False, t) \<Rightarrow> Some t
              | Some (True, p, c, s) \<Rightarrow>
                  let (p, s) = request_sound W CueUndone (finish_applied_undo r p, s) in
                  Some (p, c, if st_offer_word_exclusion_after_undo (ip_settings p)
                    then set_lexicon_offer W OfferWordExclusions (ct_source_language (ur_transaction r))
                           (ct_original (ur_transaction r)) s
                    else s)))"

definition execute_undo :: "('s, 'r) worker_world \<Rightarrow> u64 \<Rightarrow> 's worker \<Rightarrow> 's worker option" where
  "execute_undo W sequence = (\<lambda>(p, c, s).
     map_option (in_world (end_conversion_gate W sequence))
       (execute_undo_inner W sequence
          (p, c, store W (m_forwarded_input_sequence_update (max sequence)) s)))"

section \<open>Edits return\<close>

definition comes_back :: "'a option \<Rightarrow> bool" where
  "comes_back x \<longleftrightarrow> x \<noteq> None"

lemma comes_back_simps [simp]: "comes_back (Some x)" "comes_back (map_option f y) = comes_back y"
  by (simp_all add: comes_back_def)

lemma returned_comes_back: "returned x \<Longrightarrow> comes_back x"
  by (auto simp: returned_def comes_back_def)

lemma physical_with_commit_returns:
  assumes "world_clock W clock"
  shows "comes_back (physical_with_commit W manual f q l n keys d t)"
proof -
  obtain p s where t: "t = (p, s)" by fastforce
  have "comes_back (perform_physical_edit W p f q l n keys d s)"
    by (rule returned_comes_back) (rule physical_edit_returned [OF assms])
  moreover have "comes_back (wait_for_replay_commit W p f q l s)" for s
    by (rule returned_comes_back) (rule wait_returned(3) [OF assms])
  ultimately show ?thesis
    unfolding t physical_with_commit_def by (auto simp del: not_None_eq simp: comes_back_def split: option.splits replay_attempt.splits)
qed

lemma complete_physical_returns:
  assumes "world_clock W clock"
  shows "comes_back (complete_physical_conversion W pending q l t)"
  using physical_with_commit_returns [OF assms]
  by (auto simp del: not_None_eq simp: complete_physical_conversion_def comes_back_def case_prod_unfold split: option.splits)

lemma paste_edit_returns:
  assumes "world_clock W clock" "field_clock (ww_field W) clock"
  shows "comes_back (paste_edit W q route t)"
  using returned_comes_back [OF paste_returned [OF assms]]
  by (auto simp del: not_None_eq simp: paste_edit_def comes_back_def case_prod_unfold split: option.splits)

lemma edit_by_backend_returns:
  assumes "world_clock W clock" "field_clock (ww_field W) clock"
  shows "comes_back (edit_by_backend W pending q l t)"
proof -
  have "comes_back (edit_with_capability W pending q l t)"
    using returned_comes_back [OF wait_returned(5) [OF assms(1)]] paste_edit_returns [OF assms]
      complete_physical_returns [OF assms(1)]
    by (auto simp del: not_None_eq simp: edit_with_capability_def comes_back_def case_prod_unfold Let_def
      split: option.splits capability_decision.splits)
  then show ?thesis
    using paste_edit_returns [OF assms] complete_physical_returns [OF assms(1)]
    by (auto simp del: not_None_eq simp: edit_by_backend_def comes_back_def split: text_edit_backend.splits)
qed

lemma convert_settled_returns:
  assumes "world_clock W clock" "field_clock (ww_field W) clock"
  shows "comes_back (convert_settled W pending q t)"
  using edit_by_backend_returns [OF assms]
  by (auto simp del: not_None_eq simp: convert_settled_def comes_back_def case_prod_unfold Let_def split: option.splits)

lemma edits_come_back:
  assumes "world_clock W clock" "field_clock (ww_field W) clock"
  shows "comes_back (execute_pending_conversion W q t)" "comes_back (execute_undo W q t)"
proof -
  obtain p c s where t: "t = (p, c, s)" by (metis surj_pair)
  show "comes_back (execute_pending_conversion W q t)"
    unfolding t execute_pending_conversion_def execute_pending_conversion_inner_def
    using returned_comes_back [OF wait_returned(4) [OF assms(1)]] convert_settled_returns [OF assms]
    by (auto simp del: not_None_eq simp: comes_back_def Let_def case_prod_unfold split: option.splits replay_attempt.splits)
  have "comes_back (undo_edit W r q t)" for r t
    unfolding undo_edit_def using paste_edit_returns [OF assms] physical_with_commit_returns [OF assms(1)]
    by (auto simp del: not_None_eq simp: comes_back_def case_prod_unfold split: option.splits edit_strategy.splits)
  then show "comes_back (execute_undo W q t)"
    unfolding t execute_undo_def execute_undo_inner_def
    by (auto simp del: not_None_eq simp: comes_back_def Let_def case_prod_unfold split: option.splits bool.splits)
qed

text \<open>A conversion and an undo always return, in every field, at every backend and on every path: all
  their waits have deadlines, and their selections, installations and replays a bounded number of
  attempts. So the gate that holds the keys typed meanwhile is always ended by the worker, and the worker
  goes on with the next event.\<close>

theorem edits_return:
  assumes "world_clock W clock" "field_clock (ww_field W) clock"
  shows "\<exists>t1 t2. execute_pending_conversion W q t = Some t1 \<and> execute_undo W q t = Some t2"
  using edits_come_back [OF assms] by (simp add: comes_back_def)

section \<open>What an edit keeps of the world\<close>

lemma dispatch_keeps:
  assumes "\<And>s. s \<in> J \<Longrightarrow> snd (rs_guard R s) \<in> J" "\<And>x s. s \<in> J \<Longrightarrow> snd (rs_send R x s) \<in> J"
    and "\<And>s. s \<in> J \<Longrightarrow> rs_pace R s \<in> J" "s \<in> J"
  shows "snd (dispatch_physical_replay_plan R plan mode s) \<in> J"
proof -
  have "snd (dispatch_steps R inputs start ends s) \<in> J" if "s \<in> J" for inputs start ends s
    using that
  proof (induction ends arbitrary: start s)
    case (Cons e ends)
    then show ?case by (auto simp: Let_def case_prod_unfold intro!: Cons.IH assms(1-3))
  qed simp
  then show ?thesis
    using assms by (simp add: dispatch_physical_replay_plan_def Let_def case_prod_unfold)
qed

text \<open>A world whose keys keep \<open>J\<close> too.\<close>

definition typing_quiet :: "('s, 'r) worker_world \<Rightarrow> 's set \<Rightarrow> bool" where
  "typing_quiet W J \<longleftrightarrow> world_quiet W J \<and> (\<forall>inputs s. s \<in> J \<longrightarrow> snd (ww_send_input W inputs s) \<in> J)"

lemma send_batch_keeps: "typing_quiet W J \<Longrightarrow> s \<in> J \<Longrightarrow> snd (send_input_batch (ww_send_input W) inputs s) \<in> J"
  by (simp add: typing_quiet_def send_input_batch_def send_input_count_def Let_def case_prod_unfold)

lemma physical_edit_keeps:
  assumes quiet: "typing_quiet W J" and s: "s \<in> J"
    and run: "perform_physical_edit W p f q l n keys d s = Some (r, s')"
  shows "s' \<in> J"
proof -
  have W: "world_quiet W J" using quiet by (simp add: typing_quiet_def)
  have seam: "snd (dispatch_physical_replay_plan (replay_seam_of W p f q pacer) plan mode s) \<in> J" if "s \<in> J" for pacer plan mode s
    by (rule dispatch_keeps [OF _ _ _ that])
      (auto simp: replay_seam_of_def intro: keeps W send_batch_keeps [OF quiet])
  have body: "u' \<in> J" if run: "physical_edit W p f q l n keys d u = Some (r, u')" and "u \<in> J" for u u' r
  proof -
    define v where "v = snd (edit_guard_is_current W p f q u)"
    have v: "v \<in> J" using that(2) by (simp add: v_def keeps W)
    have switched: "x \<in> J" if "switch_layout_and_wait W p f l q v = Some (a, x)
        \<or> switch_layout_and_wait W p f l q (snd (ww_pacer W v)) = Some (a, x)" for a x
      using that switch_layout_keeps [OF _ W] v quietD(11) [OF W v] by blast
    from run v show ?thesis
      unfolding physical_edit_def Let_def case_prod_unfold v_def [symmetric]
      by (auto split: if_splits option.splits intro!: seam edit_guard_keeps [OF W] quietD(11) [OF W] intro: switched)
  qed
  show ?thesis
    using run s unfolding perform_physical_edit_def
    by (auto split: option.splits intro!: store_keeps [OF W] dest!: body)
qed

lemma record_conversion_failure_keeps [keeps]:
  "world_quiet W I \<Longrightarrow> snd t \<in> I \<Longrightarrow> snd (record_conversion_failure W reason t) \<in> I"
  by (simp add: record_conversion_failure_def Let_def case_prod_unfold keeps)

lemma record_manual_edit_failure_keeps [keeps]:
  "world_quiet W I \<Longrightarrow> snd t \<in> I \<Longrightarrow> snd (record_manual_edit_failure W t) \<in> I"
  by (simp add: record_manual_edit_failure_def Let_def case_prod_unfold keeps)

lemma finish_replay_commit_keeps [keeps]:
  "world_quiet W I \<Longrightarrow> snd t \<in> I \<Longrightarrow> snd (snd (finish_replay_commit W commit l t)) \<in> I"
  by (auto simp: finish_replay_commit_def Let_def case_prod_unfold split: replay_attempt.splits intro!: keeps)

lemma end_gate_keeps [keeps]:
  "world_quiet W I \<Longrightarrow> snd t \<in> I \<Longrightarrow> snd (end_conversion_gate W token t) \<in> I"
  by (auto simp: end_conversion_gate_def request_gate_release_def request_gate_retention_def Let_def case_prod_unfold
    intro!: keeps)

lemma physical_with_commit_keeps:
  assumes quiet: "typing_quiet W J" and "snd t \<in> J"
    and run: "physical_with_commit W manual f q l n keys d t = Some (b, t')"
  shows "snd t' \<in> J"
proof -
  have W: "world_quiet W J" using quiet by (simp add: typing_quiet_def)
  obtain p s where t: "t = (p, s)" by fastforce
  with assms(2) have s: "s \<in> J" by simp
  obtain r u where edit: "perform_physical_edit W p f q l n keys d s = Some (r, u)"
    using run t by (auto simp: physical_with_commit_def split: option.splits)
  have u: "u \<in> J" by (rule physical_edit_keeps [OF quiet s edit])
  have committed: "v \<in> J" if "wait_for_replay_commit W p f q l u = Some (commit, v)" for commit v
    by (rule replay_commit_keeps [OF that W u])
  have pairs: "snd y \<in> J" if "x = y" "snd x \<in> J" for x y :: "processor \<times> 'a" using that by simp
  have finished: "snd t' \<in> J" if "finish_replay_commit W commit l (p, v) = (b, t')" "v \<in> J" for commit v
    using finish_replay_commit_keeps [OF W, of "(p, v)" commit l] that by simp
  show ?thesis
    using run edit u t unfolding physical_with_commit_def
    by (cases r) (auto split: option.splits if_splits dest!: committed intro: finished
      intro: pairs [OF _ record_conversion_failure_keeps [OF W]] pairs [OF _ record_manual_edit_failure_keeps [OF W]]
      dest: arg_cong [where f = "\<lambda>x. snd (snd x)"] simp del: split_paired_Ex)
qed

lemma set_lexicon_offer_keeps [keeps]: "world_quiet W I \<Longrightarrow> s \<in> I \<Longrightarrow> set_lexicon_offer W x l w s \<in> I"
  by (simp add: set_lexicon_offer_def Let_def case_prod_unfold keeps)

lemma request_sound_keeps [keeps]: "world_quiet W I \<Longrightarrow> snd t \<in> I \<Longrightarrow> snd (request_sound W cue t) \<in> I"
  by (simp add: request_sound_def case_prod_unfold keeps)

lemma renew_recent_keeps [keeps]: "world_quiet W I \<Longrightarrow> snd t \<in> I \<Longrightarrow> snd (renew_recent_privacy_ok W f t) \<in> I"
  by (auto simp: renew_recent_privacy_ok_def Let_def case_prod_unfold keeps split: option.splits)

lemma finish_applied_conversion_keeps [keeps]:
  "world_quiet W I \<Longrightarrow> snd t \<in> I \<Longrightarrow> snd (finish_applied_conversion W pending l x t) \<in> I"
  by (simp add: finish_applied_conversion_def Let_def case_prod_unfold keeps)

section \<open>The gate ends as the edit left the field\<close>

lemma suppress_session_frame [simp]:
  "ip_held_keys_kept_for (suppress_session W p) = ip_held_keys_kept_for p"
  "ip_last_gate_release (suppress_session W p) = ip_last_gate_release p"
  "ip_last_gate_retention (suppress_session W p) = ip_last_gate_retention p"
  "ip_gate_window (suppress_session W p) = ip_gate_window p"
  using suppress_session_fields [of W p] by auto

lemma record_conversion_failure_frame [simp]:
  "ip_held_keys_kept_for (fst (record_conversion_failure W r t)) = ip_held_keys_kept_for (fst t)"
  "ip_last_gate_release (fst (record_conversion_failure W r t)) = ip_last_gate_release (fst t)"
  "ip_last_gate_retention (fst (record_conversion_failure W r t)) = ip_last_gate_retention (fst t)"
  by (simp_all add: record_conversion_failure_def case_prod_unfold Let_def)

lemma record_manual_edit_failure_frame [simp]:
  "ip_held_keys_kept_for (fst (record_manual_edit_failure W t)) = ip_held_keys_kept_for (fst t)"
  by (simp add: record_manual_edit_failure_def case_prod_unfold Let_def)

lemma end_gate_frame:
  assumes "token \<noteq> 0"
  shows "ip_held_keys_kept_for (fst (end_conversion_gate W token t)) = None"
    "ip_last_gate_release (fst (end_conversion_gate W token t)) = token"
    "ip_held_keys_kept_for (fst t) = Some token \<Longrightarrow>
       ip_last_gate_retention (fst (end_conversion_gate W token t)) = token"
  using assms
  by (simp_all add: end_conversion_gate_def request_gate_release_def request_gate_retention_def case_prod_unfold Let_def)

lemma finish_replay_commit_held [simp]:
  "ip_held_keys_kept_for (fst (snd (finish_replay_commit W commit l t))) = ip_held_keys_kept_for (fst t)"
  by (simp add: finish_replay_commit_def clear_session_def case_prod_unfold Let_def split: replay_attempt.split)

lemma physical_with_commit_held:
  "physical_with_commit W manual f q l n keys d t = Some (b, t') \<Longrightarrow>
     ip_held_keys_kept_for (fst t') = ip_held_keys_kept_for (fst t)"
  by (cases t) (auto simp: physical_with_commit_def split: option.splits replay_attempt.splits
    dest!: arg_cong [where f = "\<lambda>x. ip_held_keys_kept_for (fst (snd x))"] split: if_splits)

lemma finish_applied_conversion_held [simp]:
  "ip_held_keys_kept_for (fst (finish_applied_conversion W pending l x t)) = ip_held_keys_kept_for (fst t)"
  by (simp add: finish_applied_conversion_def request_sound_def renew_recent_privacy_ok_def commit_confirmed_layout_def
    clear_session_def Let_def case_prod_unfold split: option.splits)

text \<open>What an edit may leave: the keys are to be kept, or no selection of the agent's is left, or the field
  had shown the text it was given.\<close>

definition gate_may_end ::
  "('s, 'r) worker_world \<Rightarrow> ('s \<Rightarrow> key_input list) \<Rightarrow> ('s \<Rightarrow> bool) \<Rightarrow> u64 \<Rightarrow> 's \<Rightarrow> 's worker \<Rightarrow> bool" where
  "gate_may_end W sent mine q s t \<longleftrightarrow>
     ip_held_keys_kept_for (fst t) = Some q
     \<or> \<not> mine (snd (snd t))
     \<or> (\<exists>process x v. shown_by W process x v \<and> sent (snd v) = sent s @ build_paste_inputs)"

lemma paste_edit_may_end:
  assumes laws: "paste_laws W sent told mine" and s: "\<not> mine (snd (snd t))" "sent (snd (snd t)) = sent s"
    and run: "paste_edit W q route t = Some (strategy, t')"
  shows "gate_may_end W sent mine (pr_sequence q) s t'"
proof -
  obtain p u where t: "t = (p, u)" by (metis surj_pair)
  obtain r v where paste: "perform_protected_paste W p q u = Some (r, v)"
    and "ask_world (apply_paste_attempt_result W r (pr_sequence q) route) (p, v) = (strategy, t')"
    using run t by (auto simp: paste_edit_def simp del: split_paired_Ex split_paired_All split: option.splits)
  then have t': "t' = snd (ask_world (apply_paste_attempt_result W r (pr_sequence q) route) (p, v))" by simp
  have "paste_result W q sent told mine (snd u) r (snd v)"
    by (rule paste_leaves [OF laws _ paste]) (use s t in simp)
  then have settled: "paste_settled W q sent mine s r (snd v)"
    using s t by (auto simp: paste_result_def paste_untyped_def paste_settled_def)
  have quiet: "world_quiet W {s. \<not> mine s}" by (rule paste_lawsD(3) [OF laws])
  have kept: "\<not> mine u \<Longrightarrow> mine (note_metric W f u) = False" "\<not> mine u \<Longrightarrow> mine (store W g u) = False"
      "\<not> mine (snd y) \<Longrightarrow> mine (snd (record_conversion_failure W reason y)) = False" for u f g y reason
    using note_metric_keeps [OF quiet, of u] store_keeps [OF quiet, of u] record_conversion_failure_keeps [OF quiet, of y]
    by simp_all
  show ?thesis
    using settled unfolding t' gate_may_end_def paste_settled_def
    by (cases r; cases v) (auto simp: ask_world_def apply_paste_attempt_result_def store_backend_status_def case_prod_unfold
      Let_def attempt_status_def kept simp del: split_paired_Ex split: option.splits)
qed

lemma may_end_in_world:
  assumes "gate_may_end W sent mine q s t" "\<And>x. ip_held_keys_kept_for (fst (f x)) = ip_held_keys_kept_for (fst x)"
    and "\<And>x. \<not> mine (snd x) \<Longrightarrow> \<not> mine (snd (f x))"
  shows "gate_may_end W sent mine q s (in_world f t)"
proof -
  obtain p c u where t: "t = (p, c, u)" by (metis surj_pair)
  show ?thesis
    using assms(1) assms(2) [of "(p, u)"] assms(3) [of "(p, u)"] unfolding t gate_may_end_def
    by (auto simp: in_world_def case_prod_unfold Let_def simp del: split_paired_Ex)
qed

text \<open>Before the edit nothing is sent, told or selected.\<close>

definition calm_state :: "('s \<Rightarrow> key_input list) \<Rightarrow> ('s \<Rightarrow> nat \<Rightarrow> broker_command list) \<Rightarrow> ('s \<Rightarrow> bool) \<Rightarrow> 's \<Rightarrow> 's set" where
  "calm_state sent told mine s = still sent told s \<inter> {u. \<not> mine u}"

lemma calm_quiet: "paste_laws W sent told mine \<Longrightarrow> world_quiet W (calm_state sent told mine s)"
  using still_quiet(1) [of W sent told mine s] paste_lawsD(3) [of W sent told mine]
  by (simp add: calm_state_def world_quiet_def provider_quiet_def)

lemma calm_ends: "u \<in> calm_state sent told mine s \<Longrightarrow> gate_may_end W sent mine q s (p, c, u)"
  by (simp add: calm_state_def gate_may_end_def)

lemma calmD: "u \<in> calm_state sent told mine s \<Longrightarrow> \<not> mine u \<and> sent u = sent s"
  by (simp add: calm_state_def still_def)

definition careful_worker ::
  "('s, 'r) worker_world \<Rightarrow> ('s \<Rightarrow> key_input list) \<Rightarrow> ('s \<Rightarrow> nat \<Rightarrow> broker_command list) \<Rightarrow> ('s \<Rightarrow> bool) \<Rightarrow> bool" where
  "careful_worker W sent told mine \<longleftrightarrow> paste_laws W sent told mine \<and> typing_quiet W {u. \<not> mine u}"

lemma careful_workerD:
  assumes "careful_worker W sent told mine"
  shows "paste_laws W sent told mine" "typing_quiet W {u. \<not> mine u}" "world_quiet W (calm_state sent told mine s)"
  using assms calm_quiet [of W sent told mine s] by (simp_all add: careful_worker_def)

lemma physical_may_end:
  assumes careful: "careful_worker W sent told mine" and "\<not> mine (snd (snd t))" "complete_physical_conversion W pending q l t = Some (x, t')"
  shows "gate_may_end W sent mine k s t'"
proof -
  note laws = careful_workerD(1) [OF careful] and typing = careful_workerD(2) [OF careful]
    and calm_after = careful_workerD(3) [OF careful]
  obtain p c u where t: "t = (p, c, u)" by (metis surj_pair)
  obtain b p' u' where run: "physical_with_commit W (pn_forced pending) (pn_foreground pending) q l
      (te_erase_characters (ct_forward (pn_transaction pending))) (pn_keys pending)
      (ct_delimiter (pn_transaction pending)) (p, u) = Some (b, p', u')" and u': "snd (snd t') = u'"
    using assms(3) t by (auto simp: complete_physical_conversion_def split: option.splits)
  have "snd (p', u') \<in> {u. \<not> mine u}"
    by (rule physical_with_commit_keeps [OF typing _ run]) (use assms(2) t in simp)
  then show ?thesis using u' by (simp add: gate_may_end_def)
qed

lemma edit_may_end:
  assumes careful: "careful_worker W sent told mine" and "snd (snd t) \<in> calm_state sent told mine s" "edit_by_backend W pending q l t = Some (x, t')"
  shows "gate_may_end W sent mine q s t'"
proof -
  note laws = careful_workerD(1) [OF careful] and typing = careful_workerD(2) [OF careful]
    and calm_after = careful_workerD(3) [OF careful]
  obtain p u where t: "t = (p, u)" by (metis surj_pair)
  have paste: "gate_may_end W sent mine q s v" if "paste_edit W (paste_of_conversion pending q l) route w = Some (x, v)"
      "snd (snd w) \<in> calm_state sent told mine s" for route w v x
    using paste_edit_may_end [OF laws _ _ that(1)] calmD [OF that(2)] by (simp add: paste_of_conversion_def)
  have capability: "gate_may_end W sent mine q s t'" if run: "edit_with_capability W pending q l t = Some (x, t')"
  proof -
    let ?wait = "wait_for_capability_text_barrier W p (pn_foreground pending) q (pn_source_layout pending)
      (te_insert_text (ct_undo (pn_transaction pending))) u"
    obtain barrier v where wait: "?wait = Some (barrier, v)"
      using run t by (cases ?wait) (auto simp: edit_with_capability_def)
    have v: "snd v \<in> calm_state sent told mine s"
      by (rule capability_barrier_keeps [OF wait calm_quiet [OF laws]]) (use assms(2) t in simp)
    then have "store_backend_status W status (snd v) \<in> calm_state sent told mine s" for status
      by (simp add: store_backend_status_def note_metric_keeps [OF calm_quiet [OF laws]])
    moreover have "gate_may_end W sent mine q s (p', c', store_backend_status W status u')"
      if "gate_may_end W sent mine q s (p', c', u')" for p' c' u' status
      using that note_metric_keeps [OF paste_lawsD(3) [OF laws], of u']
      unfolding gate_may_end_def store_backend_status_def by fastforce
    moreover have "gate_may_end W sent mine q s w" if "complete_physical_conversion W pending q l (p, v) = Some (y, w)" for y w
      by (rule physical_may_end [OF careful _ that]) (use calmD [OF v] in simp)
    ultimately show ?thesis
      using run wait t v
      by (cases v) (auto simp: edit_with_capability_def Let_def apsnd_def map_prod_def split: capability_decision.splits option.splits
        intro: paste calm_ends)
  qed
  show ?thesis
    using assms(3) paste [OF _ assms(2)] physical_may_end [OF careful, of t pending q l x t' q s] capability calmD [OF assms(2)]
      calm_ends [of "snd (snd t)"] assms(2)
    by (cases t) (auto simp: edit_by_backend_def split: text_edit_backend.splits)
qed

lemma undo_may_end:
  assumes careful: "careful_worker W sent told mine" and "snd (snd t) \<in> calm_state sent told mine s" "undo_edit W r q t = Some (b, t')"
  shows "gate_may_end W sent mine q s t'"
proof -
  note laws = careful_workerD(1) [OF careful] and typing = careful_workerD(2) [OF careful]
    and calm_after = careful_workerD(3) [OF careful]
  obtain p c u where t: "t = (p, c, u)" by (metis surj_pair)
  then have u: "u \<in> calm_state sent told mine s" using assms(2) by simp
  have physical: "\<not> mine u'" if "physical_with_commit W True f q l n keys d (p, u) = Some (b, p', u')" for f l n keys d p' u'
    using physical_with_commit_keeps [OF typing _ that] calmD [OF u] by simp
  have shown: "snd (ww_foreground W u) \<in> calm_state sent told mine s" by (rule quietD(5) [OF calm_quiet [OF laws] u])
  have paste: "gate_may_end W sent mine q s v"
    if "paste_edit W (paste_of_undo r q l) RouteBackend (p, c, snd (ww_foreground W u)) = Some (x, v)" for l x v
    using paste_edit_may_end [OF laws _ _ that] calmD [OF shown] by (simp add: paste_of_undo_def)
  show ?thesis
    using assms(3) t paste physical shown calmD [OF shown]
    by (cases "ww_foreground W u")
      (auto simp: undo_edit_def gate_may_end_def [of W sent mine q s "(x, y, z)" for x y z]
        simp del: split_paired_Ex split: option.splits edit_strategy.splits)
qed

lemma failure_may_end:
  assumes careful: "careful_worker W sent told mine" and "gate_may_end W sent mine q s t"
  shows "gate_may_end W sent mine q s (in_world (record_conversion_failure W reason) t)"
proof (rule may_end_in_world [OF assms(2)])
  note laws = careful_workerD(1) [OF careful]
  show "\<not> mine (snd (record_conversion_failure W reason x))" if "\<not> mine (snd x)" for x
    using record_conversion_failure_keeps [OF paste_lawsD(3) [OF laws], of x] that by simp
qed simp

lemma settled_may_end:
  assumes careful: "careful_worker W sent told mine" and u: "u \<in> calm_state sent told mine s" and run: "convert_settled W pending q (p, c, u) = Some t'"
  shows "gate_may_end W sent mine q s t'"
proof -
  note laws = careful_workerD(1) [OF careful] and typing = careful_workerD(2) [OF careful]
    and calm_after = careful_workerD(3) [OF careful]
  define v where "v = snd (let (current, s) = profile_inventory_is_current W p u in
    if current then find_layout W p (ct_target_language (pn_transaction pending)) s else (None, s))"
  have v: "v \<in> calm_state sent told mine s" using u by (simp add: v_def Let_def case_prod_unfold keeps calm_after)
  define w where "w = snd (edit_guard_is_current W p (pn_foreground pending) q v)"
  have w: "w \<in> calm_state sent told mine s" unfolding w_def by (rule edit_guard_keeps [OF calm_after v])
  let ?inv = "invalidate_conversion_state W (p, w)"
  let ?p = "(clear_session (fst ?inv))\<lparr>ip_replay_keys := []\<rparr>"
  have inv: "snd ?inv \<in> calm_state sent told mine s" by (rule invalidate_keeps [OF calm_after]) (simp add: w)
  have edit: "gate_may_end W sent mine q s y" if "edit_by_backend W pending q l (?p, c, snd ?inv) = Some (x, y)" for l x y
    by (rule edit_may_end [OF careful _ that]) (simp add: inv)
  have finished: "gate_may_end W sent mine q s (in_world (finish_applied_conversion W pending l x) y)"
    if "gate_may_end W sent mine q s y" for l x y
    by (rule may_end_in_world [OF that])
      (use finish_applied_conversion_keeps [OF paste_lawsD(3) [OF laws]] in auto)
  show ?thesis
    using run failure_may_end [OF careful calm_ends [OF v]] calm_ends [OF w] edit finished
    unfolding convert_settled_def v_def w_def
    by (auto simp: case_prod_unfold Let_def split: option.splits if_splits)
qed

lemma conversion_may_end:
  assumes careful: "careful_worker W sent told mine" and s: "\<not> mine s" and run: "execute_pending_conversion_inner W q (p, c, s) = Some t'"
  shows "gate_may_end W sent mine q s t'"
proof (cases "ip_pending p")
  case None
  then show ?thesis using run s by (auto simp: execute_pending_conversion_inner_def gate_may_end_def)
next
  case (Some pending)
  note laws = careful_workerD(1) [OF careful] and typing = careful_workerD(2) [OF careful]
    and calm_after = careful_workerD(3) [OF careful]
  let ?I = "calm_state sent told mine s"
  let ?p = "p\<lparr>ip_pending := None\<rparr>"
  have I: "s \<in> ?I" using s by (simp add: calm_state_def)
  define u where "u = snd (conversion_admitted W pending q ?p s)"
  have u: "u \<in> ?I"
    unfolding u_def conversion_admitted_def manual_privacy_allows_current_def Let_def case_prod_unfold
    using I by (simp add: keeps calm_after)
  let ?wait = "wait_for_source_input_settle W ?p (pn_foreground pending) q (pn_source_layout pending)
    (te_insert_text (ct_undo (pn_transaction pending))) (c, u)"
  have "gate_may_end W sent mine q s (?p, c, u)" by (rule calm_ends [OF u])
  moreover have "gate_may_end W sent mine q s t'"
    if "?wait = Some x" "(case x of
          (Applied, v) \<Rightarrow> convert_settled W pending q (?p, v)
        | (Cancelled, v) \<Rightarrow> Some (?p, v)
        | (_, v) \<Rightarrow> Some (in_world (record_conversion_failure W FailSourceBarrier) (?p, v))) = Some t'" for x
  proof -
    obtain r c' v' where x: "x = (r, c', v')" by (metis surj_pair)
    have v: "snd (c', v') \<in> ?I" by (rule settle_wait_keeps [OF that(1) [unfolded x] calm_after]) (simp add: u)
    then show ?thesis
      using that(2) x settled_may_end [OF careful] calm_ends failure_may_end [OF careful calm_ends]
      by (cases r) auto
  qed
  ultimately show ?thesis
    using run Some unfolding execute_pending_conversion_inner_def u_def
    by (auto simp: Let_def calm_ends [OF I] simp del: split_paired_Ex split_paired_All split: if_splits option.splits
      prod.splits)
qed

lemma undone_may_end:
  assumes careful: "careful_worker W sent told mine" and s: "\<not> mine s" and run: "execute_undo_inner W q (p, c, s) = Some t'"
  shows "gate_may_end W sent mine q s t'"
proof (cases "ip_undo p")
  case None
  then show ?thesis using run s by (auto simp: execute_undo_inner_def gate_may_end_def)
next
  case (Some r)
  note laws = careful_workerD(1) [OF careful] and typing = careful_workerD(2) [OF careful]
    and calm_after = careful_workerD(3) [OF careful]
  let ?I = "calm_state sent told mine s"
  have I: "s \<in> ?I" using s by (simp add: calm_state_def)
  define u where "u = snd (undo_admitted W r q p s)"
  have u: "u \<in> ?I"
    unfolding u_def undo_admitted_def Let_def case_prod_unfold
    using I by (auto simp: keeps calm_after split: option.splits)
  obtain armed c' v where arm: "arm_correction_gate W p q (c, u) = (armed, c', v)" by (metis surj_pair)
  have v: "v \<in> ?I" using arm_gate_keeps [OF calm_after, of "(c, u)" s p q] u arm by simp
  obtain p2 v2 where undo: "clear_undo W (p, v) = (p2, v2)" by fastforce
  have v2: "v2 \<in> ?I" using clear_undo_keeps [OF calm_after, of "(p, v)" s] v undo by simp
  have edit: "gate_may_end W sent mine q s y" if "undo_edit W r q (p2, c', v2) = Some (b, y)" for b y
    by (rule undo_may_end [OF careful _ that]) (simp add: v2)
  have finished: "gate_may_end W sent mine q s (p4, c4, v5)"
    if "gate_may_end W sent mine q s (p3, c4, v3)" "request_sound W cue (finish_applied_undo r p3, v3) = (p4, v4)"
      "v5 = v4 \<or> v5 = set_lexicon_offer W x l w v4" for p3 c4 v3 cue p4 v4 v5 x l w
  proof -
    have "v5 \<in> {u. \<not> mine u}" if "\<not> mine v3"
      using request_sound_keeps [OF paste_lawsD(3) [OF laws], of "(finish_applied_undo r p3, v3)" cue]
        set_lexicon_offer_keeps [OF paste_lawsD(3) [OF laws], of v4]
        that \<open>request_sound W cue _ = _\<close> \<open>v5 = v4 \<or> _\<close> by auto
    moreover have "ip_held_keys_kept_for p4 = ip_held_keys_kept_for p3"
      using that(2) by (auto simp: request_sound_def finish_applied_undo_def clear_session_def
        commit_confirmed_layout_def Let_def split: if_splits)
    ultimately show ?thesis using that(1) by (auto simp: gate_may_end_def simp del: split_paired_Ex)
  qed
  show ?thesis
    using run Some arm undo edit calm_ends [OF u] calm_ends [OF v] unfolding execute_undo_inner_def u_def
    by (auto simp: Let_def simp del: split_paired_Ex split_paired_All split: if_splits option.splits
      prod.splits bool.splits intro: finished)
qed


text \<open>The sample worker with a word to convert.\<close>

definition sample_pending :: pending_conversion where
  "sample_pending =
     \<lparr>pn_transaction =
        \<lparr>ct_source_language = Language.English, ct_target_language = Language.Russian, ct_original = lit ''ghbdtn'',
         ct_replacement = privet, ct_delimiter = Some 32,
         ct_forward = \<lparr>te_erase_characters = 7, te_insert_text = privet @ [32]\<rparr>,
         ct_undo = \<lparr>te_erase_characters = 7, te_insert_text = sample_word\<rparr>\<rparr>,
      pn_foreground = sample_window, pn_source_layout = 0x409, pn_generation = 0, pn_space_sequence = 5,
      pn_keys = [], pn_forced = False, pn_cycle_order = []\<rparr>"

lemma sample_careful: "careful_worker sample_world ss_sent ss_told (\<lambda>s. 0 < ss_selected s)"
proof -
  have "world_quiet sample_world {s. \<not> 0 < ss_selected s}"
    by (intro sample_keeps sample_inspector_quiet) auto
  then show ?thesis by (simp add: careful_worker_def sample_paste_laws typing_quiet_def)
qed

theorem edits_return_witness:
  "\<exists>t1 t2. execute_pending_conversion sample_world 5
       (sample_processor\<lparr>ip_pending := Some sample_pending\<rparr>, cells_new sample_facts, sample_start) = Some t1
     \<and> execute_undo sample_world 5
       (sample_processor\<lparr>ip_pending := Some sample_pending\<rparr>, cells_new sample_facts, sample_start) = Some t2"
  by (rule edits_return [OF sample_world_clock]) (simp add: field_clock_def sample_text_field_def)


end
