(* ===== verification/Worker_Words.thy ===== *)
theory Worker_Words
  imports Worker_Edit
begin

text \<open>
  \<open>src/windows_agent.rs\<close>: the word under the caret as the worker follows it. What the keys of a word print in
  a layout, the end of a word and the conversion it may call for, the keys kept for the manual hotkey, the
  words remembered for other windows, and the manual conversion, which takes a word through the layouts.
\<close>

unbundle bit_operations_syntax

section \<open>What keys print\<close>

text \<open>\<open>ww_layout_print\<close> stands for \<open>ToUnicodeEx\<close>: the UTF-16 units it counts, none for a dead key.\<close>

definition map_replay_key_to_layout :: "('s, 'r) worker_world \<Rightarrow> replay_key \<Rightarrow> u64 \<Rightarrow> uchar option" where
  "map_replay_key_to_layout W key layout =
     (let virtual_key =
            (case keypad_of key of
               Some keypad \<Rightarrow> ucast keypad
             | None \<Rightarrow> ww_virtual_key W (ucast (rk_scan_code key) OR (if rk_extended key then 0xE000 else 0)) layout)
      in if virtual_key = 0 then None
         else case ww_layout_print W virtual_key (rk_scan_code key) (rk_shift key) (rk_caps_lock key) layout of
           [unit] \<Rightarrow> if 0xD800 \<le> unit \<and> unit \<le> 0xDFFF then None else Some (unat unit)
         | _ \<Rightarrow> None)"

definition map_replay_keys_to_layout :: "('s, 'r) worker_world \<Rightarrow> replay_key list \<Rightarrow> u64 \<Rightarrow> ustr option" where
  "map_replay_keys_to_layout W keys layout =
     (if keys = [] then None else those (map (\<lambda>key. map_replay_key_to_layout W key layout) keys))"

text \<open>What the keys print in the layout of a language, if the language has one.\<close>

definition map_target ::
  "('s, 'r) worker_world \<Rightarrow> processor \<Rightarrow> replay_key list \<Rightarrow> language \<Rightarrow> 's \<Rightarrow> ustr option \<times> 's" where
  "map_target W p keys target s =
     (let (layout, s) = find_layout W p target s
      in (Option.bind layout (map_replay_keys_to_layout W keys), s))"

fun map_targets ::
  "(language \<Rightarrow> 's \<Rightarrow> ustr option \<times> 's) \<Rightarrow> language list \<Rightarrow> 's \<Rightarrow> (language \<times> ustr) list \<times> 's" where
  "map_targets f [] s = ([], s)"
| "map_targets f (l # ls) s =
     (let (replacement, s) = f l s;
          (rest, s) = map_targets f ls s
      in (case replacement of None \<Rightarrow> rest | Some text \<Rightarrow> (l, text) # rest, s))"

definition mapped_layout_candidates_with ::
  "language \<Rightarrow> settings \<Rightarrow> detector \<Rightarrow> (language \<Rightarrow> 's \<Rightarrow> ustr option \<times> 's) \<Rightarrow> 's \<Rightarrow> (language \<times> ustr) list \<times> 's" where
  "mapped_layout_candidates_with current st dt f =
     map_targets f (filter (language_enabled st) (automatic_targets dt current))"

definition letter_extends_word :: "('s, 'r) worker_world \<Rightarrow> processor \<Rightarrow> uchar \<Rightarrow> language \<Rightarrow> bool" where
  "letter_extends_word W p c l \<longleftrightarrow>
     uc_alphabetic (ww_unicode W) c \<and> can_extend_word (ww_unicode W) (ip_detector p) c l"

definition single_character :: "ustr option \<Rightarrow> ustr option" where
  "single_character reading = (case reading of Some [c] \<Rightarrow> Some [c] | _ \<Rightarrow> None)"

definition key_readings ::
  "('s, 'r) worker_world \<Rightarrow> processor \<Rightarrow> replay_key \<Rightarrow> language \<Rightarrow> 's \<Rightarrow> (language \<times> uchar) list \<times> 's" where
  "key_readings W p key l s =
     apfst (map (apsnd hd))
       (mapped_layout_candidates_with l (ip_settings p) (ip_detector p)
          (\<lambda>target s. apfst single_character (map_target W p [key] target s)) s)"

section \<open>The keys of a word\<close>

definition take_manual_token_keys :: "input_event \<Rightarrow> bool \<Rightarrow> nat \<Rightarrow> processor \<Rightarrow> replay_key list option \<times> processor" where
  "take_manual_token_keys event printable buffered p =
     (if \<not> printable \<or> event = Boundary then (None, p)
      else
        let suppressed = suppressed_until_boundary (ip_session p);
            continues = suppressed \<and> ip_replay_keys p \<noteq> [];
            starts_at_word = event = UnsupportedInput \<and> \<not> suppressed \<and> length (ip_replay_keys p) = buffered;
            starts_after_shortcut = suppressed \<and> ip_replay_keys p = []
              \<and> (ip_last_word_reset p = WordShortcut \<or> ip_last_word_reset p = WordLayout);
            p = (if starts_at_word \<or> starts_after_shortcut
                 then p\<lparr>ip_manual_token_start_known := starts_at_word\<rparr> else p)
        in if continues \<or> starts_at_word \<or> starts_after_shortcut
           then (Some (ip_replay_keys p), p\<lparr>ip_replay_keys := []\<rparr>) else (None, p))"

definition extend_manual_token :: "replay_key list \<Rightarrow> replay_key option \<Rightarrow> processor \<Rightarrow> processor" where
  "extend_manual_token keys key p =
     p\<lparr>ip_replay_keys :=
       (case key of
          Some k \<Rightarrow> if length keys < MANUAL_TOKEN_MAX_KEYS then keys @ [k] else []
        | None \<Rightarrow> [])\<rparr>"

definition RECENT_LANGUAGES :: nat where [consts_def]: "RECENT_LANGUAGES = 4"

definition remember_word_language :: "language \<Rightarrow> processor \<Rightarrow> processor" where
  "remember_word_language l p =
     p\<lparr>ip_recent_languages :=
       (if length (ip_recent_languages p) = RECENT_LANGUAGES then drop 1 (ip_recent_languages p)
        else ip_recent_languages p) @ [l]\<rparr>"

section \<open>The end of a word\<close>

text \<open>What the session makes of the word, and what of it counts for the words to come.\<close>

definition word_transaction ::
  "('s, 'r) worker_world \<Rightarrow> language option \<Rightarrow> uchar option \<Rightarrow> (language \<times> ustr) list \<Rightarrow> replay_key list \<Rightarrow>
     processor \<times> 's \<Rightarrow> conversion_transaction option \<times> processor \<times> 's" where
  "word_transaction W l delimiter candidates keys = (\<lambda>(p, s).
     let suppressed = suppressed_until_boundary (ip_session p);
         (action, session) = finish_boundary_in_context (ww_exp W) (ww_unicode W) (ip_detector p) l candidates
           (ip_recent_languages p) (ip_session p);
         p = p\<lparr>ip_session := session\<rparr>
     in case action of
          Candidate d \<Rightarrow>
            (Option.bind delimiter (transaction_new (ww_unicode W) d),
             remember_word_language (de_source_language d) p,
             note_metric W (sm_candidates_update (\<lambda>n. n + 1)) s)
        | _ \<Rightarrow>
            (None,
             (case l of
                Some l \<Rightarrow> if \<not> suppressed \<and> keys \<noteq> [] then remember_word_language l p else p
              | None \<Rightarrow> p), s))"

definition handle_boundary ::
  "('s, 'r) worker_world \<Rightarrow> language option \<Rightarrow> uchar option \<Rightarrow> bool \<Rightarrow> processor \<times> 's \<Rightarrow>
     (conversion_transaction \<times> replay_key list) option \<times> processor \<times> 's" where
  "handle_boundary W l delimiter may_change_focus = (\<lambda>(p, s).
     let keys = ip_replay_keys p;
         manual_only = ip_manual_only_word p;
         p = p\<lparr>ip_replay_keys := [], ip_manual_only_word := False, ip_recovered_mid_word := False\<rparr>;
         (candidates, s) =
           (case l of
              None \<Rightarrow> ([], s)
            | Some l \<Rightarrow> mapped_layout_candidates_with l (ip_settings p) (ip_detector p) (map_target W p keys) s);
         (transaction, p, s) =
           (if ip_privacy_reason p = None \<and> \<not> manual_only
            then word_transaction W l delimiter candidates keys (p, s)
            else (None, clear_session p, s));
         p = p\<lparr>ip_privacy_needs_check := True\<rparr>;
         (p, s) = (if may_change_focus then mark_privacy_dirty W False (p, s) else (p, s))
     in (map_option (\<lambda>x. (x, keys)) transaction, p, s))"

section \<open>Backspace and navigation\<close>

text \<open>Every character of the word still belongs to it, by the tables or by what its key prints.\<close>

fun word_continues ::
  "('s, 'r) worker_world \<Rightarrow> processor \<Rightarrow> language \<Rightarrow> (uchar \<times> replay_key) list \<Rightarrow> 's \<Rightarrow> bool \<times> 's" where
  "word_continues W p l [] s = (True, s)"
| "word_continues W p l ((c, key) # rest) s =
     (if can_extend_word (ww_unicode W) (ip_detector p) c l then word_continues W p l rest s
      else
        let (readings, s) = key_readings W p key l s
        in if can_extend_word_with_readings (ww_unicode W) (ip_detector p) c l readings
           then word_continues W p l rest s else (False, s))"

text \<open>Whether the word before the erased delimiter is still the one in the field.\<close>

definition boundary_is_current ::
  "('s, 'r) worker_world \<Rightarrow> processor \<Rightarrow> last_boundary \<Rightarrow> foreground_context \<Rightarrow> 's \<Rightarrow> bool \<times> 's" where
  "boundary_is_current W p b foreground s =
     (if lb_delimiter b = None \<or> \<not> same_input_target (lb_foreground b) foreground
         \<or> fc_layout (lb_foreground b) \<noteq> fc_layout foreground then (False, s)
      else
        let (epoch, s) = load W m_input_epoch s in
        if lb_epoch b \<noteq> epoch \<or> lb_generation b \<noteq> profile_generation (ip_profiles p) then (False, s)
        else if ip_privacy_reason p = None then (True, s)
        else manual_privacy_allows_current W p foreground s)"

definition resume_word ::
  "('s, 'r) worker_world \<Rightarrow> last_boundary \<Rightarrow> foreground_context \<Rightarrow> language \<Rightarrow> processor \<times> 's \<Rightarrow>
     bool \<times> processor \<times> 's" where
  "resume_word W b foreground l = (\<lambda>(p, s).
     let (current, s) = boundary_is_current W p b foreground s in
     if \<not> current then (False, p, s)
     else case map_replay_keys_to_layout W (lb_keys b) (fc_layout (lb_foreground b)) of
       None \<Rightarrow> (False, p, s)
     | Some word \<Rightarrow>
         if length word \<noteq> length (lb_keys b) then (False, p, s)
         else
           let (continues, s) = word_continues W p l (zip word (lb_keys b)) s in
           if \<not> continues then (False, p, s)
           else
             let (restored, session) = restore_word word (ip_session p);
                 p = p\<lparr>ip_session := session\<rparr>
             in if \<not> restored then (False, p, s)
                else (True, p\<lparr>ip_replay_keys := lb_keys b, ip_manual_only_word := True,
                        ip_manual_only_inspection := False\<rparr>, s))"

definition erase_or_resume_word_with ::
  "('s, 'r) worker_world \<Rightarrow> last_boundary option \<Rightarrow> raw_key_event \<Rightarrow> language option \<Rightarrow> processor \<times> 's \<Rightarrow>
     bool \<times> processor \<times> 's" where
  "erase_or_resume_word_with W previous e l = (\<lambda>(p, s).
     let suppressed = suppressed_until_boundary (ip_session p);
         buffered = length (current_word (ip_session p))
     in if suppressed \<and> ip_replay_keys p \<noteq> []
        then
          let p = p\<lparr>ip_replay_keys := butlast (ip_replay_keys p)\<rparr>
          in (True, if ip_replay_keys p = [] \<and> ip_manual_token_start_known p then clear_session p else p, s)
        else if buffered \<noteq> 0
        then
          if length (ip_replay_keys p) \<noteq> buffered then (False, p, s)
          else
            let (erased, session) = erase_last_character (ip_session p);
                p = p\<lparr>ip_session := session\<rparr>
            in (erased, if erased then p\<lparr>ip_replay_keys := butlast (ip_replay_keys p)\<rparr> else p, s)
        else if suppressed \<or> ip_replay_keys p \<noteq> [] then (False, p, s)
        else case (previous, l) of
          (Some b, Some l) \<Rightarrow> resume_word W b (ke_foreground e) l (p, s)
        | _ \<Rightarrow> (False, p, s))"

definition handle_switching_rule ::
  "('s, 'r) worker_world \<Rightarrow> input_event \<Rightarrow> language option \<Rightarrow> bool \<Rightarrow> processor \<Rightarrow> processor" where
  "handle_switching_rule W event l suppress p =
     (let p = p\<lparr>ip_last_boundary := None, ip_transpose_cycle := None\<rparr>
      in if suppress then snd (handle_session W event l p) else clear_session p)"

definition navigate ::
  "('s, 'r) worker_world \<Rightarrow> language option \<Rightarrow> bool \<Rightarrow> processor \<times> 's \<Rightarrow> processor \<times> 's" where
  "navigate W l suppress = (\<lambda>(p, s).
     mark_privacy_dirty W False
       (handle_switching_rule W Navigation l suppress
          (p\<lparr>ip_last_word_reset := WordNavigation, ip_replay_keys := []\<rparr>), s))"

end
