(* ===== verification/Worker_Manual.thy ===== *)
theory Worker_Manual
  imports Worker_Words
begin

text \<open>
  \<open>src/windows_agent.rs\<close>: the manual hotkey. The words remembered for the windows the user left, the word a
  press acts on, and the cycle that takes it through the enabled layouts.
\<close>

section \<open>Remembered words\<close>

definition word_to_remember :: "foreground_context \<Rightarrow> u64 option \<Rightarrow> processor \<Rightarrow> last_boundary option" where
  "word_to_remember target typed_layout p =
     (let word =
        (if ip_replay_keys p = [] then ip_last_boundary p
         else map_option (\<lambda>layout.
           \<lparr>lb_keys = ip_replay_keys p, lb_delimiter = None, lb_foreground = target\<lparr>fc_layout := layout\<rparr>,
            lb_epoch = ip_last_input_epoch p, lb_generation = profile_generation (ip_profiles p)\<rparr>) typed_layout)
      in case word of
           None \<Rightarrow> None
         | Some b \<Rightarrow> if same_input_target (lb_foreground b) target then Some b else None)"

definition fresh_words :: "instant \<Rightarrow> remembered_word list \<Rightarrow> remembered_word list" where
  "fresh_words now = filter (\<lambda>e. now - rw_at e < REMEMBERED_WORD_TTL)"

definition remember_word :: "foreground_context \<Rightarrow> u64 option \<Rightarrow> instant \<Rightarrow> processor \<Rightarrow> processor" where
  "remember_word target typed_layout now p =
     (let word = word_to_remember target typed_layout p;
          cycle = (case ip_transpose_cycle p of
                     None \<Rightarrow> None
                   | Some x \<Rightarrow> if same_input_target (tc_foreground x) target then Some x else None);
          kept = fresh_words now (ip_remembered_words p)
      in if cycle = None \<and> word = None then p\<lparr>ip_remembered_words := kept\<rparr>
         else
           let others = filter (\<lambda>e. \<not> same_input_target (rw_target e) target) kept;
               others = (if REMEMBERED_WORD_WINDOWS \<le> length others then drop 1 others else others)
           in p\<lparr>ip_remembered_words :=
                others @ [\<lparr>rw_target = target, rw_cycle = cycle, rw_word = word, rw_at = now\<rparr>]\<rparr>)"

definition restore_remembered_word ::
  "('s, 'r) worker_world \<Rightarrow> foreground_context \<Rightarrow> instant \<Rightarrow> processor \<times> 's \<Rightarrow> duration option \<times> processor \<times> 's" where
  "restore_remembered_word W target now t =
     (let (p, s) = refresh_process_policy W (fc_process target) t in
      if ip_backend p \<noteq> BackendPaste \<or> ip_transpose_cycle p \<noteq> None \<or> ip_last_boundary p \<noteq> None
         \<or> ip_replay_keys p \<noteq> [] then (None, p, s)
      else
        let p = p\<lparr>ip_remembered_words := fresh_words now (ip_remembered_words p)\<rparr> in
        case List.extract (\<lambda>e. same_input_target (rw_target e) target) (ip_remembered_words p) of
          None \<Rightarrow> (None, p, s)
        | Some (earlier, e, later) \<Rightarrow>
            let p = p\<lparr>ip_remembered_words := earlier @ later\<rparr>;
                stale = (\<lambda>generation. generation \<noteq> profile_generation (ip_profiles p))
            in if (case rw_cycle e of None \<Rightarrow> False | Some x \<Rightarrow> stale (tc_generation x))
                  \<or> (case rw_word e of None \<Rightarrow> False | Some b \<Rightarrow> stale (lb_generation b)) then (None, p, s)
               else
                 let (epoch, s) = load W m_input_epoch s
                 in (Some (now - rw_at e),
                     p\<lparr>ip_transpose_cycle := map_option (tc_epoch_update (\<lambda>_. epoch)) (rw_cycle e),
                       ip_last_boundary := map_option (lb_epoch_update (\<lambda>_. epoch)) (rw_word e)\<rparr>, s))"

section \<open>The layout cycle\<close>

definition forced_conversion_source ::
  "raw_key_event \<Rightarrow> processor \<Rightarrow> (replay_key list \<times> uchar option \<times> u64) option" where
  "forced_conversion_source e p =
     (if ip_replay_keys p \<noteq> [] then Some (ip_replay_keys p, None, fc_layout (ke_foreground e))
      else case ip_last_boundary p of
        None \<Rightarrow> None
      | Some b \<Rightarrow>
          if same_input_target (lb_foreground b) (ke_foreground e)
          then Some (lb_keys b, lb_delimiter b, fc_layout (lb_foreground b)) else None)"

text \<open>The packs a press may go to: enabled, bound to a profile, with exactly one layout loaded for it.\<close>

definition cycle_languages :: "processor \<Rightarrow> resolved_keyboard_profiles option \<Rightarrow> language list" where
  "cycle_languages p profiles =
     filter (\<lambda>l.
       case input_profile (ip_detector p) l of
         None \<Rightarrow> False
       | Some profile \<Rightarrow> Option.bind profiles (\<lambda>r. unique_layout r profile) \<noteq> None)
       (sorted_list_of_set (st_enabled_input_packs (ip_settings p)))"

definition new_cycle_order ::
  "('s, 'r) worker_world \<Rightarrow> processor \<Rightarrow> language list \<Rightarrow> replay_key list \<Rightarrow> language \<Rightarrow> 's \<Rightarrow> language list \<times> 's" where
  "new_cycle_order W p enabled keys source s =
     (let (readings, s) = map_targets (map_target W p keys) (filter (\<lambda>l. l \<noteq> source) enabled) s
      in (layout_cycle_order source enabled (rank_candidates (ww_unicode W) (ip_detector p) readings), s))"

definition cycle_order_of ::
  "('s, 'r) worker_world \<Rightarrow> processor \<Rightarrow> language list \<Rightarrow> replay_key list \<Rightarrow> language \<Rightarrow> language list option \<Rightarrow> 's \<Rightarrow>
     language list \<times> 's" where
  "cycle_order_of W p enabled keys source known s =
     (case known of
        None \<Rightarrow> new_cycle_order W p enabled keys source s
      | Some order \<Rightarrow>
          if length order = length enabled \<and> set enabled \<subseteq> set order then (order, s)
          else new_cycle_order W p enabled keys source s)"

text \<open>The first layout after the current one that reads the keys differently; a layout that reads them as the
  original does gives way to the original.\<close>

fun next_in_cycle ::
  "('s, 'r) worker_world \<Rightarrow> processor \<Rightarrow> replay_key list \<Rightarrow> ustr \<Rightarrow> ustr option \<Rightarrow> language \<Rightarrow> language list \<Rightarrow> 's \<Rightarrow>
     (language \<times> ustr) option \<times> 's" where
  "next_in_cycle W p keys shown original first [] s = (None, s)"
| "next_in_cycle W p keys shown original first (l # ls) s =
     (let (reading, s) = map_target W p keys l s in
      case reading of
        None \<Rightarrow> next_in_cycle W p keys shown original first ls s
      | Some text \<Rightarrow>
          if text = shown then next_in_cycle W p keys shown original first ls s
          else (Some (if original = Some text then first else l, text), s))"

text \<open>The conversion a press calls for: \<open>original\<close> is how the first layout of the order reads the keys.\<close>

definition plan_layout_cycle ::
  "('s, 'r) worker_world \<Rightarrow> replay_key list \<Rightarrow> uchar option \<Rightarrow> foreground_context \<Rightarrow> u64 \<Rightarrow> language \<Rightarrow> ustr \<Rightarrow> u64 \<Rightarrow>
     language list option \<Rightarrow> processor \<Rightarrow> 's \<Rightarrow> pending_conversion option \<times> 's" where
  "plan_layout_cycle W keys delimiter foreground source_layout source shown sequence known p s =
     (let (profiles, s) = resolved_profiles W p s;
          enabled = cycle_languages p profiles
      in if length enabled < 2 \<or> source \<notin> set enabled then (None, s)
         else
           let (order, s) = cycle_order_of W p enabled keys source known s in
           case position_of source order of
             None \<Rightarrow> (None, s)
           | Some position \<Rightarrow>
               let (original, s) = map_target W p keys (hd order) s;
                   (target, s) = next_in_cycle W p keys shown original (hd order) (tl (rotate position order)) s
               in case target of
                    None \<Rightarrow> (None, s)
                  | Some (l, replacement) \<Rightarrow>
                      let d = \<lparr>de_source_language = source, de_target_language = l, de_original = shown,
                               de_replacement = replacement, de_source_score = FFin 0, de_target_score = FFin 1\<rparr>;
                          transaction =
                            (case delimiter of
                               Some c \<Rightarrow> transaction_new (ww_unicode W) d c
                             | None \<Rightarrow> transaction_without_delimiter (ww_unicode W) d)
                      in (map_option (\<lambda>x.
                            \<lparr>pn_transaction = x, pn_foreground = foreground, pn_source_layout = source_layout,
                             pn_generation = profile_generation (ip_profiles p), pn_space_sequence = sequence,
                             pn_keys = keys, pn_forced = True, pn_cycle_order = order\<rparr>) transaction, s))"

definition advance_layout_cycle ::
  "('s, 'r) worker_world \<Rightarrow> replay_key list \<Rightarrow> uchar option \<Rightarrow> foreground_context \<Rightarrow> u64 \<Rightarrow> language \<Rightarrow> ustr \<Rightarrow> u64 \<Rightarrow>
     language list option \<Rightarrow> 's worker \<Rightarrow> 's worker option" where
  "advance_layout_cycle W keys delimiter foreground source_layout source shown sequence known = (\<lambda>(p, c, s).
     let (plan, s) = plan_layout_cycle W keys delimiter foreground source_layout source shown sequence known p s
     in case plan of
          None \<Rightarrow> Some (p, c, s)
        | Some pending \<Rightarrow>
            let s = note_metric W (sm_candidates_update (\<lambda>n. n + 1)) s;
                s = store W (m_forwarded_input_sequence_update (max sequence)) s
            in execute_pending_conversion W sequence (p\<lparr>ip_pending := Some pending\<rparr>, c, s))"

section \<open>The hotkey\<close>

definition stale_word :: "processor \<Rightarrow> u64 \<Rightarrow> bool" where
  "stale_word p epoch \<longleftrightarrow>
     (case ip_transpose_cycle p of
        None \<Rightarrow> False
      | Some x \<Rightarrow> tc_epoch x \<noteq> epoch \<or> tc_generation x \<noteq> profile_generation (ip_profiles p))
     \<or> (case ip_last_boundary p of
          None \<Rightarrow> False
        | Some b \<Rightarrow> lb_epoch b \<noteq> epoch \<or> lb_generation b \<noteq> profile_generation (ip_profiles p))"

text \<open>A press with no cycle under way: the word before the caret, read in the layout it was typed in.\<close>

definition start_layout_cycle ::
  "('s, 'r) worker_world \<Rightarrow> raw_key_event \<Rightarrow> 's worker \<Rightarrow> 's worker option" where
  "start_layout_cycle W e = (\<lambda>(p, c, s).
     case forced_conversion_source e p of
       None \<Rightarrow> Some (p, c, s)
     | Some (keys, delimiter, typed_layout) \<Rightarrow>
         let (source, s) = language_for_layout W p typed_layout s in
         case source of
           None \<Rightarrow> Some (p, c, s)
         | Some source \<Rightarrow>
             (case map_replay_keys_to_layout W keys typed_layout of
                None \<Rightarrow> Some (p, c, s)
              | Some shown \<Rightarrow>
                  let (allowed, p, s) = forced_privacy_allows W (ke_foreground e) (p, s) in
                  if \<not> allowed then Some (p, c, s)
                  else advance_layout_cycle W keys delimiter (ke_foreground e) (fc_layout (ke_foreground e))
                         source shown (ke_sequence e) None (p, c, s)))"

definition continue_layout_cycle ::
  "('s, 'r) worker_world \<Rightarrow> transpose_cycle \<Rightarrow> raw_key_event \<Rightarrow> 's worker \<Rightarrow> 's worker option" where
  "continue_layout_cycle W x e = (\<lambda>(p, c, s).
     let (layout, s) = find_layout W p (tc_language x) s in
     if layout = None then Some (p, c, s)
     else
       let (allowed, p, s) = forced_privacy_allows W (ke_foreground e) (p, s) in
       if \<not> allowed then Some (p, c, s)
       else advance_layout_cycle W (tc_keys x) (tc_delimiter x) (tc_foreground x) (fc_layout (ke_foreground e))
              (tc_language x) (tc_text x) (ke_sequence e) (Some (tc_order x)) (p, c, s))"

definition execute_forced_conversion ::
  "('s, 'r) worker_world \<Rightarrow> raw_key_event \<Rightarrow> 's worker \<Rightarrow> 's worker option" where
  "execute_forced_conversion W e = (\<lambda>(p, c, s).
     let (now, s) = ww_now W s;
         (_, p, s) = restore_remembered_word W (ke_foreground e) now (p, s);
         (epoch, s) = load W m_input_epoch s
     in if stale_word p epoch
        then let (p, s) = invalidate_conversion_state W (p, s) in Some (suppress_session W p, c, s)
        else case ip_transpose_cycle p of
          Some x \<Rightarrow>
            if same_input_target (tc_foreground x) (ke_foreground e) then continue_layout_cycle W x e (p, c, s)
            else start_layout_cycle W e (p, c, s)
        | None \<Rightarrow> start_layout_cycle W e (p, c, s))"

section \<open>What a press changes\<close>

lemma map_target_Some:
  "map_target W p keys l u = (Some reading, u') \<longleftrightarrow>
     (\<exists>layout. find_layout W p l u = (Some layout, u') \<and> map_replay_keys_to_layout W keys layout = Some reading)"
  by (auto simp: map_target_def Let_def bind_eq_Some_conv split: prod.split)

lemma next_in_cycle_sound:
  assumes "next_in_cycle W p keys shown original first ls s = (Some (l, reading), s')"
    and "\<And>x. original = Some x \<Longrightarrow> \<exists>u u'. map_target W p keys first u = (Some x, u')"
  shows "reading \<noteq> shown \<and> (l \<in> set ls \<or> l = first) \<and> (\<exists>u u'. map_target W p keys l u = (Some reading, u'))"
  using assms(1)
proof (induction ls arbitrary: s)
  case (Cons m ls)
  then show ?case
    using assms(2) by (auto simp: Let_def split: prod.splits option.splits if_splits)
qed simp

lemma map_targets_from: "fst ` set (fst (map_targets f ls s)) \<subseteq> set ls"
proof (induction ls arbitrary: s)
  case (Cons l ls)
  then show ?case using Cons.IH [of "snd (f l s)"] by (auto simp: Let_def case_prod_unfold split: option.splits)
qed simp

lemma ranked_from: "set (rank_candidates U dt readings) \<subseteq> fst ` set readings"
proof -
  have "set (foldr insert_ranked xs []) = set xs" for xs :: "(language \<times> f32) list"
    by (induction xs) (simp_all add: insert_ranked_mset flip: set_mset_mset)
  then show ?thesis by (auto simp: rank_candidates_def intro: rev_image_eqI)
qed

lemma cycle_languages_distinct: "distinct (cycle_languages p profiles)"
  by (simp add: cycle_languages_def)

lemma cycle_order_exact:
  assumes "cycle_order_of W p enabled keys source known s = (order, s')" "source \<in> set enabled" "distinct enabled"
  shows "distinct order \<and> set order = set enabled"
proof -
  have fresh: "distinct (fst (new_cycle_order W p enabled keys source u)) \<and>
      set (fst (new_cycle_order W p enabled keys source u)) = set enabled" for u
  proof -
    obtain readings v where m: "map_targets (map_target W p keys) (filter (\<lambda>l. l \<noteq> source) enabled) u = (readings, v)"
      by fastforce
    have "set (rank_candidates (ww_unicode W) (ip_detector p) readings) \<subseteq> set enabled"
      using ranked_from map_targets_from [of "map_target W p keys" "filter (\<lambda>l. l \<noteq> source) enabled" u] m by fastforce
    then show ?thesis
      using layout_cycle_visits_all [of source enabled] assms(2) by (auto simp: new_cycle_order_def m)
  qed
  have "distinct order \<and> set order = set enabled" if "length order = length enabled" "set enabled \<subseteq> set order"
  proof -
    have "card (set enabled) = length order" using that(1) assms(3) by (simp add: distinct_card)
    then have "set order = set enabled"
      using that(2) card_length [of order] by (metis List.finite_set card_seteq)
    then show ?thesis using that(1) assms(3) by (metis card_distinct distinct_card)
  qed
  then show ?thesis
    using assms(1) fresh by (auto simp: cycle_order_of_def split: option.splits if_splits) (metis fst_conv)+
qed

lemma transaction_from:
  assumes "(case delimiter of Some c \<Rightarrow> transaction_new U d c | None \<Rightarrow> transaction_without_delimiter U d) = Some x"
  shows "ct_original x = de_original d \<and> ct_replacement x = de_replacement d \<and> ct_delimiter x = delimiter
    \<and> ct_source_language x = de_source_language d \<and> ct_target_language x = de_target_language d"
  using assms
  by (auto simp: transaction_new_def transaction_without_delimiter_def with_optional_delimiter_def Let_def
    split: option.splits if_splits)

text \<open>C16. A press of the manual hotkey always changes the text, and changes it to what the keys print elsewhere:
  the planned conversion replaces the text shown by a different one, which is what the same keys print in
  the layout of the target language; it keeps the keys and the delimiter. The order in which the presses
  walk names every enabled language with exactly one loaded layout, each once, and no other, whether it was
  made for this press or kept from the one before.\<close>

theorem cycle_changes_text:
  assumes "plan_layout_cycle W keys delimiter foreground source_layout source shown sequence known p s = (Some pending, s')"
  shows "ct_original (pn_transaction pending) = shown \<and> ct_replacement (pn_transaction pending) \<noteq> shown
    \<and> (\<exists>u u' layout. find_layout W p (ct_target_language (pn_transaction pending)) u = (Some layout, u')
         \<and> map_replay_keys_to_layout W keys layout = Some (ct_replacement (pn_transaction pending)))
    \<and> ct_delimiter (pn_transaction pending) = delimiter \<and> pn_keys pending = keys \<and> pn_forced pending
    \<and> distinct (pn_cycle_order pending)
    \<and> set (pn_cycle_order pending) = set (cycle_languages p (fst (resolved_profiles W p s)))
    \<and> {source, ct_target_language (pn_transaction pending)} \<subseteq> set (pn_cycle_order pending)"
proof -
  obtain profiles s1 where r: "resolved_profiles W p s = (profiles, s1)" by fastforce
  let ?enabled = "cycle_languages p profiles"
  obtain order s2 where o: "cycle_order_of W p ?enabled keys source known s1 = (order, s2)" by fastforce
  obtain original s3 where f: "map_target W p keys (hd order) s2 = (original, s3)" by fastforce
  have enabled: "source \<in> set ?enabled"
    using assms r by (auto simp: plan_layout_cycle_def Let_def split: if_splits)
  have order: "distinct order \<and> set order = set ?enabled"
    using cycle_order_exact [OF o enabled cycle_languages_distinct] .
  obtain position l replacement s4 x where
    n: "next_in_cycle W p keys shown original (hd order) (tl (rotate position order)) s3 = (Some (l, replacement), s4)"
    and x: "(case delimiter of
          Some c \<Rightarrow> transaction_new (ww_unicode W) \<lparr>de_source_language = source, de_target_language = l,
            de_original = shown, de_replacement = replacement, de_source_score = FFin 0, de_target_score = FFin 1\<rparr> c
        | None \<Rightarrow> transaction_without_delimiter (ww_unicode W) \<lparr>de_source_language = source, de_target_language = l,
            de_original = shown, de_replacement = replacement, de_source_score = FFin 0, de_target_score = FFin 1\<rparr>) = Some x"
    and pending: "pn_transaction pending = x" "pn_keys pending = keys" "pn_forced pending" "pn_cycle_order pending = order"
    using assms r o f
    by (auto simp: plan_layout_cycle_def Let_def split: if_splits option.splits prod.splits)
  have chosen: "replacement \<noteq> shown \<and> (l \<in> set (tl (rotate position order)) \<or> l = hd order)
      \<and> (\<exists>u u'. map_target W p keys l u = (Some replacement, u'))"
    by (rule next_in_cycle_sound [OF n]) (use f in auto)
  have "set (tl (rotate position order)) \<subseteq> set order" 
    using set_mono_suffix [OF suffix_tl, of "rotate position order"] by simp
  moreover have "hd order \<in> set order" using enabled order by (cases order) auto
  ultimately have "l \<in> set order" using chosen by auto
  then show ?thesis
    using chosen order enabled transaction_from [OF x] pending r by (auto simp: map_target_Some)
qed

text \<open>A keyboard with an English and a Russian layout, on which the one key prints g, or the Russian letter pe.\<close>

definition two_layouts :: "(sample_state, nat) worker_world" where
  "two_layouts = sample_world\<lparr>ww_virtual_key := \<lambda>_ _. 71,
     ww_layout_print := \<lambda>_ _ _ _ layout. if layout = 0x04090409 then [0x67] else [0x43F]\<rparr>"

definition two_languages :: processor where
  "two_languages = sample_processor\<lparr>ip_detector := sample_detector,
     ip_profiles := \<lparr>kc_resolver = None, kc_cache = \<lparr>pc_snapshot = Some sample_profiles, pc_last_known = Some sample_profiles,
       pc_confirmed_at = Some (from_secs 10), pc_generation = 0\<rparr>, kc_next_refresh = 0\<rparr>,
     ip_settings := settings_default\<lparr>st_enabled_input_packs := {Language.English, Language.Russian}\<rparr>\<rparr>"

definition sample_key_g :: replay_key where
  "sample_key_g = \<lparr>rk_scan_code = 0x22, rk_shift = False, rk_caps_lock = False, rk_extended = False\<rparr>"

lemma two_layouts_calls [simp]:
  "resolved_profiles two_layouts two_languages sample_start = (Some sample_profiles, sample_start)"
  "ww_unicode two_layouts = plain_unicode"
  by (simp_all add: resolved_profiles_def profile_snapshot_def cache_current_def two_layouts_def two_languages_def
    sample_world_def steady_provider_def sample_start_def PROFILE_MAX_AGE_def from_secs_def)

lemma two_languages_fields [simp]:
  "ip_detector two_languages = sample_detector" "profile_generation (ip_profiles two_languages) = 0"
  "st_enabled_input_packs (ip_settings two_languages) = {Language.English, Language.Russian}"
  by (simp_all add: two_languages_def profile_generation_def)

lemma two_languages_found [simp]:
  "find_layout two_layouts two_languages Language.English sample_start = (Some 0x04090409, sample_start)"
  "find_layout two_layouts two_languages Language.Russian sample_start = (Some 0x04190419, sample_start)"
  by (simp_all add: find_layout_def input_profile_def binding_of_def sample_bindings om_lookup_def
    plain_binding_def unique_layout_def sample_profiles_def)

lemma two_layouts_read [simp]:
  "map_replay_keys_to_layout two_layouts [sample_key_g] 0x04090409 = Some [0x67]"
  "map_replay_keys_to_layout two_layouts [sample_key_g] 0x04190419 = Some [0x43F]"
  by (simp_all add: map_replay_keys_to_layout_def map_replay_key_to_layout_def two_layouts_def sample_key_g_def keypad_of_def
    keypad_digit_key_def word_le_nat_alt)

lemma two_languages_cycle [simp]:
  "cycle_languages two_languages (Some sample_profiles) = [Language.English, Language.Russian]"
proof -
  have "sorted_list_of_set (set [Language.English, Language.Russian]) = [Language.English, Language.Russian]"
    by (rule sorted_list_of_set.idem_if_sorted_distinct) (use english_before_russian in auto)
  then show ?thesis
    by (simp add: cycle_languages_def input_profile_def binding_of_def sample_bindings om_lookup_def plain_binding_def
      unique_layout_def sample_profiles_def)
qed

definition planned_cycle :: pending_conversion where
  "planned_cycle = \<lparr>pn_transaction = \<lparr>ct_source_language = Language.English, ct_target_language = Language.Russian,
       ct_original = [0x67], ct_replacement = [0x43F], ct_delimiter = None,
       ct_forward = \<lparr>te_erase_characters = 1, te_insert_text = [0x43F]\<rparr>,
       ct_undo = \<lparr>te_erase_characters = 1, te_insert_text = [0x67]\<rparr>\<rparr>,
     pn_foreground = sample_window, pn_source_layout = 0x409, pn_generation = 0, pn_space_sequence = 5,
     pn_keys = [sample_key_g], pn_forced = True, pn_cycle_order = [Language.English, Language.Russian]\<rparr>"

lemma two_layouts_plan:
  "plan_layout_cycle two_layouts [sample_key_g] None sample_window 0x409 Language.English [0x67] 5 None two_languages
     sample_start = (Some planned_cycle, sample_start)"
proof -
  have "cycle_order_of two_layouts two_languages [Language.English, Language.Russian] [sample_key_g] Language.English None
      sample_start = ([Language.English, Language.Russian], sample_start)"
    using english_before_russian
    by (simp add: cycle_order_of_def new_cycle_order_def map_target_def rank_candidates_def layout_cycle_order_def push_new_def)
  then show ?thesis
    using english_before_russian
    by (simp add: plan_layout_cycle_def map_target_def transaction_without_delimiter_def with_optional_delimiter_def
      conservative_erase_units_def plain_unicode_def len_utf16_def planned_cycle_def Let_def)
qed

theorem cycle_changes_text_witness:
  "ct_replacement (pn_transaction planned_cycle) \<noteq> [0x67]
    \<and> set (pn_cycle_order planned_cycle) = {Language.English, Language.Russian}"
  using cycle_changes_text [OF two_layouts_plan] by simp

end
