(* ===== verification/Worker_Keys.thy ===== *)
theory Worker_Keys
  imports Worker_Manual
begin

text \<open>
  \<open>src/windows_agent.rs\<close>: \<open>process_key\<close>, what the worker does with one key edge: it follows the focus and the
  layout, acts on the hotkey, ends or extends the word, and at a Space plans and makes the conversion.
\<close>

definition VK_DELETE :: u16 where [consts_def]: "VK_DELETE = 0x2E"
definition VK_LEFT :: u16 where [consts_def]: "VK_LEFT = 0x25"
definition VK_UP :: u16 where [consts_def]: "VK_UP = 0x26"
definition VK_RIGHT :: u16 where [consts_def]: "VK_RIGHT = 0x27"
definition VK_DOWN :: u16 where [consts_def]: "VK_DOWN = 0x28"
definition VK_END :: u16 where [consts_def]: "VK_END = 0x23"
definition VK_HOME :: u16 where [consts_def]: "VK_HOME = 0x24"
definition VK_TAB :: u16 where [consts_def]: "VK_TAB = 9"
definition VK_RETURN :: u16 where [consts_def]: "VK_RETURN = 0x0D"

definition is_ascii_punctuation :: "uchar \<Rightarrow> bool" where
  "is_ascii_punctuation c \<longleftrightarrow>
     (33 \<le> c \<and> c \<le> 47) \<or> (58 \<le> c \<and> c \<le> 64) \<or> (91 \<le> c \<and> c \<le> 96) \<or> (123 \<le> c \<and> c \<le> 126)"

section \<open>Profiles\<close>

definition apply_profile_refresh ::
  "('s, 'r) worker_world \<Rightarrow> profile_update \<Rightarrow> processor \<times> 's \<Rightarrow> processor \<times> 's" where
  "apply_profile_refresh W update = (\<lambda>(p, s).
     if update = Unchanged then (p, s)
     else
       let (snapshot, s) = resolved_profiles W p s;
           p = p\<lparr>ip_detector := set_resolved_profiles snapshot (ip_detector p)\<rparr>
       in if update \<noteq> Bindings then (p, s)
          else
            let (p, s) = invalidate_conversion_state W (p, s);
                p = (if current_word (ip_session p) \<noteq> [] then suppress_session W p else p)
            in (p\<lparr>ip_replay_keys := [], ip_layout_in_flight := None\<rparr>, s))"

definition refresh_input_profiles :: "('s, 'r) worker_world \<Rightarrow> processor \<times> 's \<Rightarrow> processor \<times> 's" where
  "refresh_input_profiles W = (\<lambda>(p, s).
     let (update, k, s) = profile_poll (ww_profiles W) (ip_profiles p) s
     in apply_profile_refresh W update (p\<lparr>ip_profiles := k\<rparr>, s))"

definition refresh_profiles_outside_gate :: "('s, 'r) worker_world \<Rightarrow> processor \<times> 's \<Rightarrow> processor \<times> 's" where
  "refresh_profiles_outside_gate W = (\<lambda>(p, s).
     let (active, s) = load W m_active_gate_token s
     in if active = 0 then refresh_input_profiles W (p, s) else (p, s))"

section \<open>Focus and layout\<close>

definition enter_target ::
  "('s, 'r) worker_world \<Rightarrow> foreground_context \<Rightarrow> language option \<Rightarrow> processor \<times> 's \<Rightarrow> processor \<times> 's" where
  "enter_target W foreground l = (\<lambda>(p, s).
     let (p, s) =
           (case ip_last_key_foreground p of
              None \<Rightarrow> (p, s)
            | Some previous \<Rightarrow>
                let (now, s) = ww_now W s in (remember_word previous (ip_last_layout p) now p, s));
         (p, s) = refresh_process_policy W (fc_process foreground) (p\<lparr>ip_last_process := None\<rparr>, s);
         p = p\<lparr>ip_last_word_reset := WordFocus, ip_recovered_mid_word := False, ip_recent_languages := [],
               ip_layout_in_flight := None\<rparr>;
         (p, s) = invalidate_conversion_state W (p, s);
         p = p\<lparr>ip_replay_keys := [], ip_last_boundary := None, ip_transpose_cycle := None\<rparr>;
         p = snd (handle_session W FocusChanged l p);
         p = p\<lparr>ip_resync_modifiers := True, ip_last_foreground := Some (foreground_identity_key foreground),
               ip_last_layout := Some (fc_layout foreground)\<rparr>
     in mark_privacy_dirty W False (p, s))"

text \<open>The word a manual switch of the layout keeps for the hotkey.\<close>

definition kept_across_switch :: "foreground_context \<Rightarrow> processor \<Rightarrow> last_boundary option" where
  "kept_across_switch foreground p =
     (case ip_last_layout p of
        Some typed_layout \<Rightarrow>
          if ip_replay_keys p = [] then ip_last_boundary p
          else Some \<lparr>lb_keys = ip_replay_keys p, lb_delimiter = None,
                 lb_foreground = foreground\<lparr>fc_layout := typed_layout\<rparr>, lb_epoch = ip_last_input_epoch p,
                 lb_generation = profile_generation (ip_profiles p)\<rparr>
      | None \<Rightarrow> ip_last_boundary p)"

definition manual_layout_switch ::
  "('s, 'r) worker_world \<Rightarrow> foreground_context \<Rightarrow> language option \<Rightarrow> processor \<times> 's \<Rightarrow> processor \<times> 's" where
  "manual_layout_switch W foreground l = (\<lambda>(p, s).
     let kept = kept_across_switch foreground p;
         cycle = ip_transpose_cycle p;
         (p, s) = invalidate_conversion_state W
           (p\<lparr>ip_last_word_reset := WordLayout, ip_layout_in_flight := None, ip_replay_keys := []\<rparr>, s);
         p = handle_switching_rule W LayoutChanged l (st_suppress_after_manual_layout_change (ip_settings p)) p
     in (p\<lparr>ip_last_boundary := kept, ip_transpose_cycle := cycle, ip_last_layout := Some (fc_layout foreground)\<rparr>, s))"

definition follow_layout ::
  "('s, 'r) worker_world \<Rightarrow> foreground_context \<Rightarrow> language option \<Rightarrow> processor \<times> 's \<Rightarrow> processor \<times> 's" where
  "follow_layout W foreground l = (\<lambda>(p, s).
     if ip_last_layout p \<noteq> Some (fc_layout foreground)
     then
       let (expected, s) =
             (case ip_layout_in_flight p of
                Some (target, deadline) \<Rightarrow>
                  if target = fc_layout foreground then let (now, s) = ww_now W s in (now \<le> deadline, s)
                  else (False, s)
              | None \<Rightarrow> (False, s))
       in if expected then (p\<lparr>ip_last_layout := Some (fc_layout foreground), ip_layout_in_flight := None\<rparr>, s)
          else manual_layout_switch W foreground l (p, s)
     else case ip_layout_in_flight p of
       None \<Rightarrow> (p, s)
     | Some (_, deadline) \<Rightarrow>
         let (now, s) = ww_now W s
         in (if deadline < now then p\<lparr>ip_layout_in_flight := None\<rparr> else p, s))"

definition follow_target ::
  "('s, 'r) worker_world \<Rightarrow> foreground_context \<Rightarrow> language option \<Rightarrow> processor \<times> 's \<Rightarrow> processor \<times> 's" where
  "follow_target W foreground l = (\<lambda>(p, s).
     let (p, s) =
       (if ip_last_foreground p \<noteq> Some (foreground_identity_key foreground)
        then enter_target W foreground l (p, s) else follow_layout W foreground l (p, s))
     in (p\<lparr>ip_last_key_foreground := Some foreground\<rparr>, s))"

section \<open>Keys that type nothing\<close>

definition press_shortcut ::
  "('s, 'r) worker_world \<Rightarrow> raw_key_event \<Rightarrow> language option \<Rightarrow> processor \<times> 's \<Rightarrow> processor \<times> 's" where
  "press_shortcut W e l = (\<lambda>(p, s).
     let p = p\<lparr>ip_last_word_reset := WordShortcut, ip_replay_keys := [], ip_last_boundary := None,
               ip_transpose_cycle := None\<rparr>;
         (erased, session) =
           (if ucast (ke_virtual_key e) = VK_BACK \<and> mod_control (ip_modifiers p) \<and> \<not> mod_alt (ip_modifiers p)
            then erase_first_word_by_shortcut (ip_session p) else (False, ip_session p));
         p = p\<lparr>ip_session := session\<rparr>
     in if erased then mark_privacy_dirty W False (p, s)
        else
          let (_, p, s) = ensure_privacy W (ke_foreground e) TriggerTyping (p, s);
              p = snd (handle_session W Shortcut l (p\<lparr>ip_last_word_reset := WordShortcut\<rparr>))
          in mark_privacy_dirty W True (p, s))"

definition press_backspace ::
  "('s, 'r) worker_world \<Rightarrow> last_boundary option \<Rightarrow> raw_key_event \<Rightarrow> language option \<Rightarrow> processor \<times> 's \<Rightarrow>
     processor \<times> 's" where
  "press_backspace W previous e l = (\<lambda>(p, s).
     let suppress = st_suppress_after_backspace (ip_settings p);
         (edited, p, s) = (if suppress then (False, p, s) else erase_or_resume_word_with W previous e l (p, s))
     in if edited then (p, s)
        else (handle_switching_rule W Backspace l suppress
                (p\<lparr>ip_last_word_reset := WordBackspace, ip_replay_keys := []\<rparr>), s))"

definition press_delete :: "('s, 'r) worker_world \<Rightarrow> language option \<Rightarrow> processor \<Rightarrow> processor" where
  "press_delete W l p =
     handle_switching_rule W Delete l (st_suppress_after_delete (ip_settings p))
       (p\<lparr>ip_last_word_reset := WordDelete, ip_replay_keys := []\<rparr>)"

definition end_of_field ::
  "('s, 'r) worker_world \<Rightarrow> language option \<Rightarrow> bool \<Rightarrow> processor \<times> 's \<Rightarrow> processor \<times> 's" where
  "end_of_field W l line_start = (\<lambda>(p, s).
     let (_, p, s) = handle_boundary W l None True (p\<lparr>ip_last_boundary := None, ip_transpose_cycle := None\<rparr>, s);
         p = p\<lparr>ip_last_word_reset := WordBoundary\<rparr>
     in (if line_start then p\<lparr>ip_session := mark_line_start (ip_session p)\<rparr> else p, s))"

section \<open>Space\<close>

text \<open>Whether the completed word may be converted: automatic conversion is on, its keys were pressed as the
  edit would replay them.\<close>

definition plan_conversion ::
  "('s, 'r) worker_world \<Rightarrow> raw_key_event \<Rightarrow> conversion_transaction \<Rightarrow> replay_key list \<Rightarrow> processor \<times> 's \<Rightarrow>
     processor \<times> 's" where
  "plan_conversion W e x keys = (\<lambda>(p, s).
     let (auto, s) = load W m_auto_enabled s
     in if \<not> auto \<or> mod_shift (ip_modifiers p) \<or> length keys \<noteq> length (ct_original x)
           \<or> list_ex (\<lambda>k. rk_caps_lock k \<noteq> ke_caps_lock e) keys then (p, s)
        else
          (p\<lparr>ip_pending := Some
             \<lparr>pn_transaction = x, pn_foreground = ke_foreground e, pn_source_layout = fc_layout (ke_foreground e),
              pn_generation = profile_generation (ip_profiles p), pn_space_sequence = ke_sequence e,
              pn_keys = keys, pn_forced = False, pn_cycle_order = []\<rparr>\<rparr>, s))"

definition space_boundary ::
  "('s, 'r) worker_world \<Rightarrow> raw_key_event \<Rightarrow> language option \<Rightarrow> processor \<times> 's \<Rightarrow> processor \<times> 's" where
  "space_boundary W e l = (\<lambda>(p, s).
     let p = p\<lparr>ip_transpose_cycle := None, ip_last_boundary :=
           (if ip_replay_keys p \<noteq> [] \<and> l \<noteq> None
            then Some \<lparr>lb_keys = ip_replay_keys p, lb_delimiter = Some 32, lb_foreground = ke_foreground e,
                   lb_epoch = ip_last_input_epoch p, lb_generation = profile_generation (ip_profiles p)\<rparr>
            else None)\<rparr>;
         (completed, p, s) = handle_boundary W l (Some 32) False (p, s);
         p = p\<lparr>ip_last_word_reset := WordBoundary\<rparr>
     in case completed of None \<Rightarrow> (p, s) | Some (x, keys) \<Rightarrow> plan_conversion W e x keys (p, s))"

definition press_space ::
  "('s, 'r) worker_world \<Rightarrow> raw_key_event \<Rightarrow> language option \<Rightarrow> 's worker \<Rightarrow> 's worker option" where
  "press_space W e l = (\<lambda>(p, c, s).
     let (p, s) = space_boundary W e l (p, s);
         (auto, s) = (if ke_drain_token e = 0 then load W m_auto_enabled s else (False, s))
     in if auto then execute_pending_conversion W (ke_sequence e) (p, c, s)
        else Some
          (if ke_drain_token e \<noteq> 0 \<and> ip_pending p \<noteq> None
           then p\<lparr>ip_deferred := Some \<lparr>dd_gate_token = ke_drain_token e, dd_boundary_sequence = ke_sequence e\<rparr>\<rparr>
           else p, c, s))"

section \<open>Other keys\<close>

definition readings_of_key ::
  "('s, 'r) worker_world \<Rightarrow> processor \<Rightarrow> uchar option \<Rightarrow> language option \<Rightarrow> replay_key option \<Rightarrow> 's \<Rightarrow>
     (language \<times> uchar) list \<times> 's" where
  "readings_of_key W p printable l key s =
     (case (printable, l, key) of
        (Some c, Some l, Some k) \<Rightarrow> if letter_extends_word W p c l then ([], s) else key_readings W p k l s
      | _ \<Rightarrow> ([], s))"

definition input_event_of ::
  "('s, 'r) worker_world \<Rightarrow> processor \<Rightarrow> uchar option \<Rightarrow> language option \<Rightarrow> (language \<times> uchar) list \<Rightarrow> input_event" where
  "input_event_of W p printable l readings =
     (case printable of
        None \<Rightarrow> UnsupportedInput
      | Some c \<Rightarrow>
          if (case l of None \<Rightarrow> False
              | Some l \<Rightarrow> can_extend_word_with_readings (ww_unicode W) (ip_detector p) c l readings)
          then Printable c
          else if is_whitespace c \<or> is_ascii_punctuation c then Boundary else UnsupportedInput)"

definition starts_or_extends :: "input_event \<Rightarrow> bool" where
  "starts_or_extends event = (case event of Printable _ \<Rightarrow> True | _ \<Rightarrow> False)"

text \<open>The marks of the word before the session sees the key.\<close>

definition mark_word :: "input_event \<Rightarrow> nat \<Rightarrow> processor \<Rightarrow> processor" where
  "mark_word event buffered p =
     (let p = (if event = UnsupportedInput then p\<lparr>ip_last_word_reset := WordUnsupported\<rparr> else p);
          p = (if starts_or_extends event then p\<lparr>ip_last_boundary := None, ip_transpose_cycle := None\<rparr> else p);
          p = (if event = Boundary then p\<lparr>ip_last_word_reset := WordBoundary, ip_recovered_mid_word := False\<rparr> else p)
      in if starts_or_extends event \<and> buffered = 0
         then p\<lparr>ip_manual_only_word := (ip_privacy_reason p \<noteq> None),
                ip_manual_only_inspection := (ip_privacy_reason p \<noteq> None)\<rparr> else p)"

definition settle_action ::
  "('s, 'r) worker_world \<Rightarrow> session_action \<Rightarrow> processor \<times> 's \<Rightarrow> processor \<times> 's" where
  "settle_action W action = (\<lambda>(p, s).
     case action of
       Candidate _ \<Rightarrow> (p, note_metric W (sm_candidates_update (\<lambda>n. n + 1)) s)
     | Reset _ \<Rightarrow> (p\<lparr>ip_replay_keys := []\<rparr>, s)
     | NoAction \<Rightarrow> (p, s))"

text \<open>The keys of the word after the session saw the key.\<close>

definition keep_key ::
  "('s, 'r) worker_world \<Rightarrow> input_event \<Rightarrow> nat \<Rightarrow> replay_key list option \<Rightarrow> replay_key option \<Rightarrow> processor \<Rightarrow> processor" where
  "keep_key W event buffered token_keys key p =
     (let p = (if starts_or_extends event \<and> length (current_word (ip_session p)) = buffered + 1
               then (case key of
                       Some k \<Rightarrow> p\<lparr>ip_replay_keys := ip_replay_keys p @ [k]\<rparr>
                     | None \<Rightarrow> suppress_session W p)
               else p);
          p = (case token_keys of None \<Rightarrow> p | Some keys \<Rightarrow> extend_manual_token keys key p)
      in if event = Boundary then p\<lparr>ip_replay_keys := [], ip_privacy_needs_check := True\<rparr> else p)"

definition type_character ::
  "('s, 'r) worker_world \<Rightarrow> raw_key_event \<Rightarrow> language option \<Rightarrow> processor \<times> 's \<Rightarrow> processor \<times> 's" where
  "type_character W e l = (\<lambda>(p, s).
     let (printable, s) = ww_translate W e (ip_modifiers p) s;
         key = replay_key_from_event e (ip_modifiers p);
         (readings, s) = readings_of_key W p printable l key s;
         event = input_event_of W p printable l readings;
         buffered = length (current_word (ip_session p));
         (token_keys, p) = take_manual_token_keys event (printable \<noteq> None) buffered p;
         p = mark_word event buffered p;
         (action, session) =
           handle_with_readings (ww_exp W) (ww_unicode W) (ip_detector p) event l readings (ip_session p);
         (p, s) = settle_action W action (p\<lparr>ip_session := session\<rparr>, s)
     in (keep_key W event buffered token_keys key p, s))"

definition press_character ::
  "('s, 'r) worker_world \<Rightarrow> raw_key_event \<Rightarrow> language option \<Rightarrow> processor \<times> 's \<Rightarrow> processor \<times> 's" where
  "press_character W e l t =
     (let (passed, p, s) = ensure_privacy W (ke_foreground e) TriggerTyping t;
          (allowed, s) = (if passed then (True, s) else manual_privacy_allows_current W p (ke_foreground e) s)
      in if \<not> allowed then (suppress_session W (p\<lparr>ip_last_word_reset := WordPrivacy\<rparr>), s)
         else type_character W e l (p, s))"

section \<open>One key edge\<close>

definition press_plain_key ::
  "('s, 'r) worker_world \<Rightarrow> last_boundary option \<Rightarrow> raw_key_event \<Rightarrow> language option \<Rightarrow> 's worker \<Rightarrow>
     's worker option" where
  "press_plain_key W previous e l = (\<lambda>(p, c, s).
     let vk = ucast (ke_virtual_key e) :: u16;
         st = ip_settings p;
         here = (\<lambda>(p, s). Some (p, c, s))
     in if vk = VK_BACK then here (press_backspace W previous e l (p, s))
        else if vk = VK_DELETE then here (press_delete W l p, s)
        else if vk = VK_LEFT then here (navigate W l (st_suppress_after_left st) (p, s))
        else if vk = VK_RIGHT then here (navigate W l (st_suppress_after_right st) (p, s))
        else if vk = VK_UP then here (navigate W l (st_suppress_after_up st) (p, s))
        else if vk = VK_DOWN then here (navigate W l (st_suppress_after_down st) (p, s))
        else if vk = VK_HOME \<or> vk = VK_END then here (navigate W l (st_suppress_after_home_end st) (p, s))
        else if vk = VK_SPACE then press_space W e l (p, c, s)
        else if vk = VK_TAB then here (end_of_field W l False (p, s))
        else if may_move_focus_within_window vk then here (navigate W l True (p, s))
        else if vk = VK_RETURN then here (end_of_field W l True (p, s))
        else here (press_character W e l (p, s)))"

text \<open>A key-down that is no modifier, no hotkey and no layout switch.\<close>

definition press_key ::
  "('s, 'r) worker_world \<Rightarrow> raw_key_event \<Rightarrow> language option \<Rightarrow> 's worker \<Rightarrow> 's worker option" where
  "press_key W e l = (\<lambda>(p, c, s).
     let shortcut = has_shortcut_modifier (ip_modifiers p);
         (p, s) =
           (if shortcut
            then let (now, s) = ww_now W s
                 in (remember_word (ke_foreground e) (Some (fc_layout (ke_foreground e))) now p, s)
            else (p, s));
         (p, s) = clear_undo W (p, s);
         previous = ip_last_boundary p;
         p = p\<lparr>ip_last_boundary := None, ip_transpose_cycle := None\<rparr>;
         is_space = (ucast (ke_virtual_key e) = VK_SPACE)
     in if is_space \<and> ip_pending p \<noteq> None then Some (p, c, s)
        else
          let p = (if is_space then p else p\<lparr>ip_pending := None, ip_deferred := None\<rparr>)
          in if shortcut then let (p, s) = press_shortcut W e l (p, s) in Some (p, c, s)
             else press_plain_key W previous e l (p, c, s))"

definition press_hotkey ::
  "('s, 'r) worker_world \<Rightarrow> raw_key_event \<Rightarrow> 's worker \<Rightarrow> 's worker option" where
  "press_hotkey W e = (\<lambda>(p, c, s).
     case (if st_pause_break_undo (ip_settings p) then wait_for_hotkey_release W e s else Some (False, s)) of
       None \<Rightarrow> None
     | Some (released, s) \<Rightarrow>
         if \<not> released then Some (p, c, s)
         else
           let cycling = (case ip_transpose_cycle p of
                 None \<Rightarrow> False | Some x \<Rightarrow> same_input_target (tc_foreground x) (ke_foreground e))
           in if cycling \<and> ke_drain_token e = 0 then execute_forced_conversion W e (p, c, s)
              else
                let (undo, s) = load W m_undo_available s
                in if undo then execute_undo W (ke_sequence e) (p, c, s)
                   else if ke_drain_token e = 0 then execute_forced_conversion W e (p, c, s)
                   else Some (p, c, s))"

definition track_modifiers :: "raw_key_event \<Rightarrow> bool \<Rightarrow> bool \<Rightarrow> processor \<Rightarrow> bool \<times> processor" where
  "track_modifiers e key_down key_up p =
     (let m = (if ip_resync_modifiers p then from_held (ke_held_modifiers e) else ip_modifiers p);
          (is_modifier, m) = modifiers_update (ke_virtual_key e) key_down key_up m;
          m = (if key_down \<and> \<not> is_modifier then forget_released (ke_held_modifiers e) m else m)
      in (is_modifier, p\<lparr>ip_resync_modifiers := False, ip_modifiers := m\<rparr>))"

definition process_key :: "('s, 'r) worker_world \<Rightarrow> raw_key_event \<Rightarrow> 's worker \<Rightarrow> 's worker option" where
  "process_key W e = (\<lambda>(p, c, s).
     let (p, s) = refresh_profiles_outside_gate W (p, s);
         (l, s) = language_for_layout W p (fc_layout (ke_foreground e)) s;
         (p, s) = follow_target W (ke_foreground e) l (p, s);
         key_down = is_down_message (ke_message e);
         key_up = is_up_message (ke_message e)
     in if \<not> key_down \<and> \<not> key_up then Some (p, c, s)
        else
          let (is_modifier, p) = track_modifiers e key_down key_up p
          in if ke_hotkey_trigger e then press_hotkey W e (p, c, s)
             else if is_modifier \<or> \<not> key_down \<or> switches_keyboard_layout (ke_virtual_key e) (ip_modifiers p)
             then Some (p, c, s)
             else press_key W e l (p, c, s))"

section \<open>What Space plans\<close>

text \<open>A word that ends at a boundary and becomes a conversion was followed by the session to its last key.\<close>

lemma handle_boundary_found:
  assumes "handle_boundary W l delimiter b (p, s) = (Some (x, keys), p', s')"
  shows "\<not> suppressed_until_boundary (ip_session p) \<and> ct_original x = current_word (ip_session p)
    \<and> keys = ip_replay_keys p \<and> ct_delimiter x = delimiter \<and> l = Some (ct_source_language x)
    \<and> ip_privacy_reason p = None \<and> \<not> ip_manual_only_word p"
proof -
  obtain cs p1 s1 s2 where allowed: "ip_privacy_reason p = None" "\<not> ip_manual_only_word p"
    and keys: "keys = ip_replay_keys p"
    and w: "word_transaction W l delimiter cs (ip_replay_keys p)
      (p\<lparr>ip_replay_keys := [], ip_manual_only_word := False, ip_recovered_mid_word := False\<rparr>, s1) = (Some x, p1, s2)"
    using assms by (auto simp: handle_boundary_def Let_def split: prod.splits if_splits option.splits)
  obtain d c where d: "fst (finish_boundary_in_context (ww_exp W) (ww_unicode W) (ip_detector p) l cs
      (ip_recent_languages p) (ip_session p)) = Candidate d"
    and x: "delimiter = Some c" "transaction_new (ww_unicode W) d c = Some x"
    using w by (auto simp: word_transaction_def Let_def bind_eq_Some_conv split: prod.splits session_action.splits option.splits if_splits)
  have "session_view (ip_session p) = Known (de_original d)" "l = Some (de_source_language d)"
    using finish_boundary_candidate [of "ww_exp W" "ww_unicode W" "ip_detector p" l] d
    by (auto simp: finish_boundary_in_context_def)
  moreover have "ct_original x = de_original d" "ct_source_language x = de_source_language d" "ct_delimiter x = Some c"
    using transaction_from [where delimiter = "Some c" and U = "ww_unicode W" and d = d and x = x] x(2) by simp_all
  ultimately show ?thesis
    using allowed keys x(1) by (auto simp: session_view_def split: if_splits option.splits)
qed

lemma handle_boundary_frame [simp]:
  "ip_pending (fst (snd (handle_boundary W l delimiter False t))) = ip_pending (fst t)"
  "ip_modifiers (fst (snd (handle_boundary W l delimiter False t))) = ip_modifiers (fst t)"
  "ip_profiles (fst (snd (handle_boundary W l delimiter False t))) = ip_profiles (fst t)"
  by (simp_all add: handle_boundary_def word_transaction_def remember_word_language_def clear_session_def case_prod_unfold
    Let_def split: session_action.split option.split)

text \<open>C15. At a Space an automatic conversion is planned only of the word the Space ends, and only of what was
  surely typed there: the session followed the word to its last key, the text to be replaced is that word
  with the Space after it, one key was kept for every character and all under the present Caps Lock, no
  Shift is held, the privacy check of the field has passed and did so for the whole word, and automatic
  conversion was on. The plan is bound to this key, this window and the present profiles.\<close>

theorem space_plans_the_typed_word:
  assumes "space_boundary W e l (p, s) = (p', s')" "ip_pending p = None" "ip_pending p' = Some pending"
  shows "\<not> suppressed_until_boundary (ip_session p)
    \<and> ct_original (pn_transaction pending) = current_word (ip_session p) \<and> ct_delimiter (pn_transaction pending) = Some 32
    \<and> l = Some (ct_source_language (pn_transaction pending))
    \<and> pn_keys pending = ip_replay_keys p \<and> length (pn_keys pending) = length (current_word (ip_session p))
    \<and> list_all (\<lambda>k. rk_caps_lock k = ke_caps_lock e) (pn_keys pending) \<and> \<not> mod_shift (ip_modifiers p)
    \<and> ip_privacy_reason p = None \<and> \<not> ip_manual_only_word p \<and> (\<exists>u. fst (load W m_auto_enabled u))
    \<and> \<not> pn_forced pending \<and> pn_foreground pending = ke_foreground e \<and> pn_space_sequence pending = ke_sequence e
    \<and> pn_generation pending = profile_generation (ip_profiles p)"
proof -
  define q where "q = p\<lparr>ip_transpose_cycle := None, ip_last_boundary :=
    (if ip_replay_keys p \<noteq> [] \<and> l \<noteq> None
     then Some \<lparr>lb_keys = ip_replay_keys p, lb_delimiter = Some 32, lb_foreground = ke_foreground e,
            lb_epoch = ip_last_input_epoch p, lb_generation = profile_generation (ip_profiles p)\<rparr> else None)\<rparr>"
  have q: "ip_session q = ip_session p" "ip_replay_keys q = ip_replay_keys p" "ip_privacy_reason q = ip_privacy_reason p"
    "ip_manual_only_word q = ip_manual_only_word p" "ip_pending q = None" "ip_modifiers q = ip_modifiers p"
    "ip_profiles q = ip_profiles p" using assms(2) by (simp_all add: q_def)
  obtain completed p1 s1 where h: "handle_boundary W l (Some 32) False (q, s) = (completed, p1, s1)" by (metis surj_pair)
  have p1: "ip_pending p1 = None" "ip_modifiers p1 = ip_modifiers p" "ip_profiles p1 = ip_profiles p"
    using handle_boundary_frame [of W l "Some 32" "(q, s)"] h q by simp_all
  have "(case completed of None \<Rightarrow> (p1\<lparr>ip_last_word_reset := WordBoundary\<rparr>, s1)
      | Some (x, keys) \<Rightarrow> plan_conversion W e x keys (p1\<lparr>ip_last_word_reset := WordBoundary\<rparr>, s1)) = (p', s')"
    using assms(1) unfolding space_boundary_def Let_def prod.case q_def [symmetric] h .
  then obtain x keys where c: "completed = Some (x, keys)"
    and planned: "plan_conversion W e x keys (p1\<lparr>ip_last_word_reset := WordBoundary\<rparr>, s1) = (p', s')"
    using assms(3) p1 by (auto split: option.splits)
  note found = handle_boundary_found [OF h [unfolded c]]
  have "(\<exists>u. fst (load W m_auto_enabled u)) \<and> \<not> mod_shift (ip_modifiers p) \<and> length keys = length (ct_original x)
    \<and> list_all (\<lambda>k. rk_caps_lock k = ke_caps_lock e) keys \<and> pn_transaction pending = x \<and> pn_keys pending = keys
    \<and> \<not> pn_forced pending \<and> pn_foreground pending = ke_foreground e \<and> pn_space_sequence pending = ke_sequence e
    \<and> pn_generation pending = profile_generation (ip_profiles p)"
    using planned assms(3) p1
    by (auto simp: plan_conversion_def Let_def list_ex_iff list_all_iff split: prod.splits if_splits intro: exI [of _ s1])
  then show ?thesis using found q by auto
qed

text \<open>The sample worker after ghbdtn was typed on its English layout.\<close>

definition typed_world :: "(sample_state, nat) worker_world" where
  "typed_world = sample_world\<lparr>ww_unicode := ascii_tables, ww_exp := \<lambda>x. x\<rparr>"

definition typed_worker :: processor where
  "typed_worker = sample_processor\<lparr>ip_detector := sample_detector, ip_privacy_reason := None,
     ip_session := input_session_default\<lparr>current_word := ghbdtn\<rparr>, ip_replay_keys := replicate 6 sample_key_g\<rparr>"

definition sample_space :: raw_key_event where
  "sample_space = \<lparr>ke_message = 0x100, ke_virtual_key = 0x20, ke_scan_code = 0x39, ke_caps_lock = False,
     ke_extended = False, ke_foreground = sample_window, ke_sequence = 5, ke_drain_token = 0,
     ke_hotkey_trigger = False, ke_repeat = False, ke_held_modifiers = 0\<rparr>"

lemma no_candidates: "(\<And>l s. f l s = (None, s)) \<Longrightarrow> map_targets f ls s = ([], s)"
  by (induction ls) simp_all

lemma typed_world_reads:
  "kc_cache (ip_profiles p) = profile_cache_default \<Longrightarrow> map_target typed_world p keys l s = (None, s)"
  by (simp add: map_target_def find_layout_def resolved_profiles_def profile_snapshot_def cache_current_def
    profile_cache_default_def typed_world_def sample_world_def steady_provider_def split: option.split)

lemma typed_word_found:
  "finish_boundary_in_context (\<lambda>x. x) ascii_tables sample_detector (Some Language.English) [] recent
     (input_session_default\<lparr>current_word := ghbdtn\<rparr>)
   = (Candidate sample_detection, input_session_default)"
  by (simp add: finish_boundary_in_context_def finish_boundary_def detect_mapped_candidates_in_context_def sample_detected
    input_session_default_def)

lemma typed_word_transaction: "\<exists>x. transaction_new ascii_tables sample_detection 32 = Some x \<and> ct_original x = ghbdtn"
  by (simp add: transaction_new_def with_optional_delimiter_def sample_detection_def ghbdtn_def privet_def
    conservative_erase_units_def ascii_tables_def len_utf16_def Let_def is_control_def)

lemma typed_worker_fields [simp]:
  "ip_session typed_worker = input_session_default\<lparr>current_word := ghbdtn\<rparr>" "ip_privacy_reason typed_worker = None"
  "\<not> ip_manual_only_word typed_worker" "ip_detector typed_worker = sample_detector"
  "ip_replay_keys typed_worker = replicate 6 sample_key_g" "\<not> mod_shift (ip_modifiers typed_worker)"
  "kc_cache (ip_profiles typed_worker) = profile_cache_default" "ip_pending typed_worker = None"
  by (simp_all add: typed_worker_def sample_processor_def processor_new_def modifiers_default_def mod_shift_def with_resolver_def)

lemma typed_world_calls [simp]:
  "ww_exp typed_world = (\<lambda>x. x)" "ww_unicode typed_world = ascii_tables"
  "load typed_world f s = (f (sm_observer (ss_metrics s)), s)"
  "note_metric typed_world g s = s\<lparr>ss_metrics := g (ss_metrics s)\<rparr>"
  by (simp_all add: typed_world_def load_def note_metric_def)

lemma typed_worker_plans:
  obtains p' s' pending where
    "space_boundary typed_world sample_space (Some Language.English) (typed_worker, sample_start) = (p', s')"
    "ip_pending p' = Some pending"
proof -
  obtain x where x: "transaction_new ascii_tables sample_detection 32 = Some x" "ct_original x = ghbdtn"
    using typed_word_transaction by blast
  have six: "length ghbdtn = 6" by (simp add: ghbdtn_def)
  have "\<exists>pending. ip_pending (fst (space_boundary typed_world sample_space (Some Language.English) (typed_worker, sample_start)))
      = Some pending"
    by (simp add: space_boundary_def handle_boundary_def word_transaction_def typed_word_found x mapped_layout_candidates_with_def
      no_candidates typed_world_reads plan_conversion_def remember_word_language_def sample_start_def sample_metrics_def
      sample_space_def sample_key_g_def six list_ex_iff Let_def case_prod_unfold)
  then show thesis using that by (metis prod.collapse)
qed

theorem space_plans_the_typed_word_witness:
  "\<exists>pending. ip_pending (fst (space_boundary typed_world sample_space (Some Language.English) (typed_worker, sample_start)))
       = Some pending
     \<and> ct_original (pn_transaction pending) = ghbdtn \<and> length (pn_keys pending) = 6"
proof (rule typed_worker_plans)
  fix p' s' pending
  assume run: "space_boundary typed_world sample_space (Some Language.English) (typed_worker, sample_start) = (p', s')"
    and "ip_pending p' = Some pending"
  with space_plans_the_typed_word [OF run _ this(2)] show ?thesis by (simp add: ghbdtn_def)
qed

end
