(* ===== verification/Worker_Loop.thy ===== *)
theory Worker_Loop
  imports Worker_Keys
begin

text \<open>
  \<open>src/windows_agent.rs\<close>: \<open>InputProcessor::process\<close>, one event of the queue: keys, focus refreshes, a loaded
  configuration, the end of a drained gate, and the recovery of keys a broken gate had kept.
\<close>

section \<open>Events\<close>

record worker_event =
  we_epoch :: u64
  we_captured_at :: instant
  we_event :: raw_input_event
  we_configuration :: "(u64 \<times> worker_configuration) option"

section \<open>Configuration\<close>

definition configured_detector ::
  "worker_configuration \<Rightarrow> resolved_keyboard_profiles option \<Rightarrow> layout_model option \<Rightarrow> detector" where
  "configured_detector c profiles embedded =
     set_layout_model (if st_layout_model (rc_settings c) then embedded else None)
       (replace_user_lexicons (wc_user_dictionary c) (wc_word_exclusions c)
         (set_resolved_profiles profiles
           (with_profile_selections
             (detector_config_default\<lparr>single_letter_words := st_single_letter_words (rc_settings c)\<rparr>)
             (wc_dictionaries c) (wc_input_profiles c))))"

definition forget_word :: "('s, 'r) worker_world \<Rightarrow> processor \<times> 's \<Rightarrow> processor \<times> 's" where
  "forget_word W t =
     (let (p, s) = invalidate_conversion_state W t in ((clear_session p)\<lparr>ip_replay_keys := []\<rparr>, s))"

text \<open>Everything of the old configuration goes, and with it what was typed under it.\<close>

definition install_configuration ::
  "('s, 'r) worker_world \<Rightarrow> worker_configuration \<Rightarrow> processor \<times> 's \<Rightarrow> processor \<times> 's" where
  "install_configuration W c t =
     (let (p, s) = forget_word W t;
          (profiles, s) = resolved_profiles W p s;
          st = rc_settings c;
          p = p\<lparr>ip_detector := configured_detector c profiles (ww_layout_model W), ip_recent_languages := [],
                ip_exclusion_policy := wc_process_exclusions c, ip_backend_rules := wc_backend_rules c,
                ip_settings := st, ip_session := (ip_session p)
                  \<lparr>recheck_first_word_after_erasing := st_recheck_first_word_after_erasing st\<rparr>\<rparr>;
          s = (if \<not> st_offer_word_exclusion_after_undo st \<and> \<not> st_offer_dictionary_after_forced_conversion st
               then ww_lexicon W (\<lambda>_. None) s else s)
      in mark_privacy_dirty W False (p\<lparr>ip_last_process := None, ip_process_reason := None\<rparr>, s))"

definition apply_configuration_reload ::
  "('s, 'r) worker_world \<Rightarrow> worker_configuration \<Rightarrow> processor \<times> 's \<Rightarrow> processor \<times> 's" where
  "apply_configuration_reload W c t =
     (let (p, s) = install_configuration W c t
      in case ip_last_key_foreground p of
           None \<Rightarrow> (p, s)
         | Some foreground \<Rightarrow> refresh_process_policy W (fc_process foreground) (p, s))"

definition reload_configuration ::
  "('s, 'r) worker_world \<Rightarrow> (u64 \<times> worker_configuration) option \<Rightarrow> processor \<times> 's \<Rightarrow> processor \<times> 's" where
  "reload_configuration W reload = (\<lambda>(p, s).
     case reload of
       None \<Rightarrow> (p, s)
     | Some (revision, c) \<Rightarrow>
         if revision \<le> ip_configuration_revision p then (p, s)
         else
           let (p, s) = apply_configuration_reload W c (p\<lparr>ip_applying_configuration := Some revision\<rparr>, s)
           in (p\<lparr>ip_applying_configuration := None, ip_configuration_revision := revision\<rparr>,
               store W (m_configuration_ack_update (\<lambda>_. revision)) s))"

definition reject_faulted_configuration ::
  "('s, 'r) worker_world \<Rightarrow> processor \<times> 's \<Rightarrow> processor \<times> 's" where
  "reject_faulted_configuration W = (\<lambda>(p, s).
     case ip_applying_configuration p of
       None \<Rightarrow> (p, s)
     | Some revision \<Rightarrow>
         (p\<lparr>ip_applying_configuration := None, ip_configuration_revision := revision\<rparr>,
          store W (m_configuration_rejected_update (\<lambda>_. revision)) s))"

section \<open>Epochs\<close>

definition reset_for_epoch :: "('s, 'r) worker_world \<Rightarrow> u64 \<Rightarrow> processor \<times> 's \<Rightarrow> processor \<times> 's" where
  "reset_for_epoch W epoch = (\<lambda>(p, s).
     let (dropped, s) = load W m_dropped_events s;
         overflowed = dropped \<noteq> ip_last_dropped_events p;
         (p, s) = invalidate_conversion_state W (p, s);
         p = (if overflowed then snd (handle_session W QueueOverflow None p)
              else if ip_recovered_mid_word p
              then snd (handle_session W QueueOverflow None (p\<lparr>ip_recovered_mid_word := False\<rparr>))
              else clear_session p);
         p = p\<lparr>ip_replay_keys := [], ip_modifiers := modifiers_default, ip_resync_modifiers := True\<rparr>;
         s = store W (m_undo_hotkey_active_update (\<lambda>_. False)) s;
         s = store W (m_hotkey_waiting_for_release_update (\<lambda>_. False)) s;
         (p, s) = mark_privacy_dirty W overflowed (p, s)
     in (p\<lparr>ip_last_input_epoch := epoch, ip_last_dropped_events := dropped\<rparr>, s))"

section \<open>Recovery of kept keys\<close>

definition resume_after_recovered_abort ::
  "('s, 'r) worker_world \<Rightarrow> instant \<Rightarrow> processor \<times> 's \<Rightarrow> processor \<times> 's" where
  "resume_after_recovered_abort W now = (\<lambda>(p, s).
     let (enabled, s) = load W m_auto_enabled s;
         (paused, s) = (if enabled then (False, s) else load W m_safety_paused s);
         (by_abort, s) =
           (if paused then let (reason, s) = load W m_last_failure_reason s in (reason = FailGateDrain, s)
            else (False, s))
     in if \<not> by_abort then (p, s)
        else
          let (aborted, s) = load W m_cancelled_gate_token s in
          if aborted \<noteq> 0 \<and> ip_failed_edit_gate p = aborted then (p, s)
          else
            let (granted, resumes) = try_take now (ip_auto_resumes p);
                p = p\<lparr>ip_auto_resumes := resumes\<rparr>
            in if \<not> granted then (p, s)
               else
                 let s = store W (m_last_failure_reason_update (\<lambda>_. FailNone)) s;
                     s = store W (m_safety_paused_update (\<lambda>_. False)) s;
                     s = store W (m_auto_enabled_update (\<lambda>_. True)) s
                 in (p, store W (m_input_epoch_update (\<lambda>e. e + 1)) s))"

definition finish_recovery ::
  "('s, 'r) worker_world \<Rightarrow> bool \<Rightarrow> nat \<Rightarrow> nat \<Rightarrow> processor \<times> 's \<Rightarrow> processor \<times> 's" where
  "finish_recovery W explicit sent requested t =
     (let (p, s) = invalidate_conversion_state W t;
          p = (suppress_session W p)\<lparr>ip_recovered_mid_word := True\<rparr>
      in if should_resume_after_recovery explicit sent requested
         then let (now, s) = ww_now W s in resume_after_recovered_abort W now (p, s)
         else (p, s))"

text \<open>Whether the kept keys may be looked at: nothing else typed, the same place, not by itself after a
  selection was left.\<close>

definition recovery_admitted ::
  "('s, 'r) worker_world \<Rightarrow> retained_input \<Rightarrow> u64 \<Rightarrow> bool \<Rightarrow> 's \<Rightarrow> bool \<times> 's" where
  "recovery_admitted W r sequence explicit s =
     (if ri_delivery_uncertain r \<and> \<not> explicit then (False, s)
      else
        let (left, s) =
              (if explicit then (False, s)
               else let (token, s) = load W m_selection_left_token s in (token = ri_token r, s))
        in if left then (False, s)
           else let (current, s) = input_sequence_is_current W sequence s in
             if current then foreground_matches W (ri_foreground r) s else (False, s))"

text \<open>The last look before the keys are sent.\<close>

definition recovery_is_current ::
  "('s, 'r) worker_world \<Rightarrow> processor \<Rightarrow> retained_input \<Rightarrow> u64 \<Rightarrow> 's \<Rightarrow> bool \<times> 's" where
  "recovery_is_current W p r sequence s =
     (let (current, s) = input_sequence_is_current W sequence s in
      if \<not> current then (False, s)
      else
        let (epoch, s) = load W m_input_epoch s in
        if epoch \<noteq> ip_last_input_epoch p then (False, s)
        else
          let (foreground, s) = ww_foreground W s in
          if foreground \<noteq> Some (ri_foreground r) then (False, s) else modifiers_released_now W s)"

definition begin_recovery :: "('s, 'r) worker_world \<Rightarrow> u64 \<Rightarrow> 's \<Rightarrow> bool \<times> 's" where
  "begin_recovery W token =
     swap W (fst \<circ> begin_retained_recovery token) (snd \<circ> begin_retained_recovery token)"

definition send_recovery ::
  "('s, 'r) worker_world \<Rightarrow> retained_input \<Rightarrow> u64 \<Rightarrow> bool \<Rightarrow> processor \<times> 's \<Rightarrow> processor \<times> 's" where
  "send_recovery W r sequence explicit = (\<lambda>(p, s).
     case build_recovery_inputs (ri_events r) of
       None \<Rightarrow> (p, s)
     | Some inputs \<Rightarrow>
         let (current, s) = recovery_is_current W p r sequence s in
         if \<not> current then (p, s)
         else
           let (begun, s) = begin_recovery W (ri_token r) s in
           if \<not> begun then (p, s)
           else
             let (sent, s) = send_input_count (ww_send_input W) inputs s;
                 s = store W (finish_retained_recovery (ri_token r) sent (length inputs)) s
             in finish_recovery W explicit sent (length inputs) (p, s))"

definition wait_for_release :: "('s, 'r) worker_world \<Rightarrow> u64 \<Rightarrow> 's \<Rightarrow> (bool \<times> 's) option" where
  "wait_for_release W sequence s =
     (let (now, s) = ww_now W s
      in iterate (release_body W sequence (now + from_millis HOOK_FORWARD_TIMEOUT_MS)) () s)"

definition recover_retained_input ::
  "('s, 'r) worker_world \<Rightarrow> u64 \<Rightarrow> bool \<Rightarrow> processor \<times> 's \<Rightarrow> (processor \<times> 's) option" where
  "recover_retained_input W sequence explicit = (\<lambda>(p, s).
     let (record, s) = load W m_retained_input s in
     case record of
       None \<Rightarrow> Some (p, s)
     | Some r \<Rightarrow>
         let (admitted, s) = recovery_admitted W r sequence explicit s in
         if \<not> admitted then Some (p, s)
         else
           (case wait_for_release W sequence s of
              None \<Rightarrow> None
            | Some (released, s) \<Rightarrow>
                if \<not> released then Some (p, s)
                else
                  let (_, p, s) = ensure_privacy W (ri_foreground r) TriggerRecovery
                        (p\<lparr>ip_privacy_needs_check := True\<rparr>, s)
                  in Some (if recovery_privacy_allows (ip_privacy_reason p)
                           then send_recovery W r sequence explicit (p, s) else (p, s))))"

section \<open>The end of a drained gate\<close>

text \<open>The time the deferred edit needs of the gate that is handed over to it.\<close>

definition deferred_budget :: "processor \<Rightarrow> nat option" where
  "deferred_budget p =
     (case ip_pending p of
        None \<Rightarrow> None
      | Some pending \<Rightarrow>
          (case ip_backend p of
             BackendPaste \<Rightarrow> Some (paste_gate_budget_ms False)
           | BackendProbe \<Rightarrow> Some (paste_gate_budget_ms True)
           | _ \<Rightarrow>
               (case checked_sum (te_erase_characters (ct_forward (pn_transaction pending)))
                       [length (pn_keys pending), 1] of
                  None \<Rightarrow> None
                | Some steps \<Rightarrow> conversion_gate_budget_ms steps False False)))"

definition process_gate_drain_ready ::
  "('s, 'r) worker_world \<Rightarrow> u64 \<Rightarrow> nat \<Rightarrow> bool \<Rightarrow> 's worker \<Rightarrow> 's worker option" where
  "process_gate_drain_ready W token drained ok = (\<lambda>(p, c, s).
     if \<not> ok then let (p, s) = invalidate_conversion_state W (p, s) in Some (p, c, s)
     else
       let s = note_metric W (sm_gate_replayed_events_update (\<lambda>n. n + of_nat drained)) s;
           deferred = ip_deferred p;
           p = p\<lparr>ip_deferred := None\<rparr>
       in case deferred of
            Some d \<Rightarrow>
              if dd_gate_token d \<noteq> token then Some (p, c, acknowledge_drain W p token s)
              else
                let matching = (case ip_pending p of
                      None \<Rightarrow> False | Some pending \<Rightarrow> pn_space_sequence pending = dd_boundary_sequence d);
                    (deadline, s) =
                      (case deferred_budget p of
                         Some ms \<Rightarrow>
                           if matching then handoff_correction_gate W p token (dd_boundary_sequence d) ms s
                           else (None, s)
                       | None \<Rightarrow> (None, s))
                in (case deadline of
                      Some t \<Rightarrow>
                        execute_pending_conversion W (dd_boundary_sequence d) (p, c\<lparr>ce_edit_deadline := Some t\<rparr>, s)
                    | None \<Rightarrow> let p = p\<lparr>ip_pending := None\<rparr> in Some (p, c, acknowledge_drain W p token s))
          | None \<Rightarrow> Some (p, c, acknowledge_drain W p token s))"

section \<open>One event\<close>

definition press_mouse :: "('s, 'r) worker_world \<Rightarrow> processor \<times> 's \<Rightarrow> processor \<times> 's" where
  "press_mouse W = (\<lambda>(p, s).
     let (p, s) =
           (case ip_last_key_foreground p of
              None \<Rightarrow> (p, s)
            | Some target \<Rightarrow> let (now, s) = ww_now W s in (remember_word target (ip_last_layout p) now p, s));
         (p, s) = invalidate_conversion_state W
           (p\<lparr>ip_last_word_reset := WordMouse, ip_recovered_mid_word := False\<rparr>, s);
         p = snd (handle_session W Mouse None
           (p\<lparr>ip_replay_keys := [], ip_last_boundary := None, ip_transpose_cycle := None\<rparr>))
     in mark_privacy_dirty W False (p, s))"

definition see_external_input :: "('s, 'r) worker_world \<Rightarrow> processor \<times> 's \<Rightarrow> processor \<times> 's" where
  "see_external_input W = (\<lambda>(p, s).
     let (p, s) = invalidate_conversion_state W (p\<lparr>ip_last_word_reset := WordExternal\<rparr>, s)
     in mark_privacy_dirty W True (suppress_session W p, s))"

definition full_screen_check_is_redundant ::
  "bool \<Rightarrow> (foreground_context \<times> duration) option \<Rightarrow> foreground_context \<Rightarrow> bool" where
  "full_screen_check_is_redundant full_screen last_check foreground \<longleftrightarrow>
     full_screen
     \<and> (case last_check of
          None \<Rightarrow> False
        | Some (target, took) \<Rightarrow>
            same_input_target target foreground \<and> from_millis PRIVACY_SLOW_PROVIDER_MS \<le> took)"

definition refresh_privacy ::
  "('s, 'r) worker_world \<Rightarrow> foreground_context \<Rightarrow> processor \<times> 's \<Rightarrow> processor \<times> 's" where
  "refresh_privacy W foreground = (\<lambda>(p, s).
     let (active, s) = load W m_active_gate_token s in
     if active \<noteq> 0 then (p, s)
     else
       let (p, s) = refresh_input_profiles W (p, s);
           (same, s) = foreground_matches W foreground s
       in if \<not> same then mark_privacy_dirty W False (p, s)
          else
            let (full, s) = ww_full_screen W s;
                s = observe_full_screen W full s;
                (m, s) = ww_atomic W id s
            in if full_screen_check_is_redundant (sm_foreground_full_screen m) (ip_last_refresh_check p) foreground
               then (p, s)
               else
                 let (started, s) = ww_now W s;
                     (p, s) = evaluate_privacy W foreground TriggerRefresh (p, s);
                     (now, s) = ww_now W s
                 in (p\<lparr>ip_last_refresh_check := Some (foreground, now - started)\<rparr>, s))"

definition clear_refresh_flag :: "('s, 'r) worker_world \<Rightarrow> raw_input_event \<Rightarrow> 's \<Rightarrow> 's" where
  "clear_refresh_flag W event s =
     (case event of
        EvPrivacyRefresh _ \<Rightarrow> store W (m_privacy_refresh_queued_update (\<lambda>_. False)) s
      | EvProfileRefresh \<Rightarrow> store W (m_profile_refresh_queued_update (\<lambda>_. False)) s
      | _ \<Rightarrow> s)"

text \<open>Input of the current epoch.\<close>

definition process_input ::
  "('s, 'r) worker_world \<Rightarrow> raw_input_event \<Rightarrow> 's worker \<Rightarrow> 's worker option" where
  "process_input W event = (\<lambda>(p, c, s).
     let (pending, s) = load W m_configuration_pending s in
     if pending then Some (in_world (forget_word W) (p, c, s))
     else case event of
       EvMouse \<Rightarrow> Some (in_world (press_mouse W) (p, c, s))
     | EvExternalInjection \<Rightarrow> Some (in_world (see_external_input W) (p, c, s))
     | EvKey e \<Rightarrow> process_key W e (p, c, s)
     | EvProfileRefresh \<Rightarrow> Some (in_world (refresh_profiles_outside_gate W) (p, c, s))
     | EvPrivacyRefresh foreground \<Rightarrow> Some (in_world (refresh_privacy W foreground) (p, c, s))
     | _ \<Rightarrow> Some (p, c, s))"

definition meet_epoch :: "('s, 'r) worker_world \<Rightarrow> u64 \<Rightarrow> processor \<times> 's \<Rightarrow> processor \<times> 's" where
  "meet_epoch W epoch = (\<lambda>(p, s). if ip_last_input_epoch p \<noteq> epoch then reset_for_epoch W epoch (p, s) else (p, s))"

text \<open>What an event that is no input of the current epoch still does.\<close>

definition process_queued ::
  "('s, 'r) worker_world \<Rightarrow> worker_event \<Rightarrow> 's worker \<Rightarrow> 's worker option" where
  "process_queued W q = (\<lambda>(p, c, s).
     let (epoch, s) = load W m_input_epoch s in
     case we_event q of
       EvRecoverInput sequence explicit \<Rightarrow>
         map_option (\<lambda>(p, s). (p, c, s)) (recover_retained_input W sequence explicit (meet_epoch W epoch (p, s)))
     | EvGateDrainReady token drained ok \<Rightarrow>
         let (p, s) = meet_epoch W epoch (p, s) in process_gate_drain_ready W token drained ok (p, c, s)
     | event \<Rightarrow>
         let (p, s) = meet_epoch W epoch (p, s)
         in if we_epoch q \<noteq> epoch then Some (p, c, s) else process_input W event (p, c, s))"

definition process_event :: "('s, 'r) worker_world \<Rightarrow> worker_event \<Rightarrow> 's worker \<Rightarrow> 's worker option" where
  "process_event W q = (\<lambda>(p, c, s).
     let s = clear_refresh_flag W (we_event q) s in
     case we_event q of
       EvReloadConfiguration \<Rightarrow> Some (in_world (reload_configuration W (we_configuration q)) (p, c, s))
     | EvRetainedInputExpired \<Rightarrow>
         let (now, s) = ww_now W s in Some (in_world (resume_after_recovered_abort W now) (p, c, s))
     | EvRetainedInputHandedBack token submitted requested \<Rightarrow>
         Some (in_world (finish_recovery W False submitted requested) (p, c, s))
     | _ \<Rightarrow> process_queued W q (p, c, s))"

section \<open>The worker\<close>

definition log_finished_clipboard_brokers :: "('s, 'r) worker_world \<Rightarrow> 's worker_cells \<Rightarrow> 's worker_cells" where
  "log_finished_clipboard_brokers W = (\<lambda>(c, s).
     let (ends, lingering, s) = brokers_reap (ww_clipboard W) (ce_lingering c) s
     in foldl (\<lambda>t e. if e = NotRestored \<or> e = Unread then count_clipboard_not_restored W t else t)
          (c\<lparr>ce_lingering := lingering\<rparr>, s) ends)"

definition armed_gate_token :: "('s, 'r) worker_world \<Rightarrow> raw_input_event \<Rightarrow> 's \<Rightarrow> u64 \<times> 's" where
  "armed_gate_token W event s =
     (case event of
        EvKey e \<Rightarrow>
          if is_down_message (ke_message e) \<and> ke_virtual_key e = ucast VK_SPACE \<and> ke_drain_token e = 0
             \<and> ke_sequence e \<noteq> 0
          then let (active, s) = load W m_active_gate_token s
               in (if active = ke_sequence e then ke_sequence e else 0, s)
          else (0, s)
      | _ \<Rightarrow> (0, s))"

definition process :: "('s, 'r) worker_world \<Rightarrow> worker_event \<Rightarrow> 's worker \<Rightarrow> 's worker option" where
  "process W q = (\<lambda>(p, t).
     let (c, s) = log_finished_clipboard_brokers W t;
         (armed, s) = armed_gate_token W (we_event q) s;
         c = c\<lparr>ce_edit_deadline :=
           (if armed \<noteq> 0 then Some (we_captured_at q + from_millis CORRECTION_GATE_MAX_HOLD_MS) else None)\<rparr>
     in case process_event W q (p, c, s) of
          None \<Rightarrow> None
        | Some (p, c, s) \<Rightarrow>
            Some (if armed \<noteq> 0 \<and> ip_last_gate_release p \<noteq> armed
                  then in_world (request_gate_release W armed) (p, c, s) else (p, c, s)))"

text \<open>What the worker does after a panic was contained.\<close>

definition after_fault :: "('s, 'r) worker_world \<Rightarrow> processor \<times> 's \<Rightarrow> processor \<times> 's" where
  "after_fault W t = record_conversion_failure W FailInternalFault (reject_faulted_configuration W t)"

text \<open>The events of the queue, one after the other.\<close>

fun process_all :: "('s, 'r) worker_world \<Rightarrow> worker_event list \<Rightarrow> 's worker \<Rightarrow> 's worker option" where
  "process_all W [] t = Some t"
| "process_all W (q # qs) t = Option.bind (process W q t) (process_all W qs)"

section \<open>A new configuration\<close>

lemma refresh_new_process:
  assumes "ip_last_process (fst t) \<noteq> Some prc"
  shows "\<exists>u facts u'. ww_process_facts W prc u = (facts, u')
    \<and> ip_process_reason (fst (refresh_process_policy W prc t))
        = process_policy (ww_unicode W) (ip_exclusion_policy (fst t)) (ip_integrity_level (fst t)) facts
    \<and> (ip_process_reason (fst (refresh_process_policy W prc t)) = None
       \<or> ip_privacy_reason (fst (refresh_process_policy W prc t))
           = ip_process_reason (fst (refresh_process_policy W prc t)))"
proof -
  obtain image integrity u' where facts: "ww_process_facts W prc (snd t) = ((image, integrity), u')"
    by (metis surj_pair)
  with assms show ?thesis
    by (intro exI [of _ "snd t"] exI [of _ "(image, integrity)"] exI [of _ u'])
       (auto simp: refresh_process_policy_def set_privacy_reason_def case_prod_unfold Let_def)
qed

lemma refresh_process_policy_settings [simp]:
  "ip_settings (fst (refresh_process_policy W prc t)) = ip_settings (fst t)"
  "ip_exclusion_policy (fst (refresh_process_policy W prc t)) = ip_exclusion_policy (fst t)"
  "ip_backend_rules (fst (refresh_process_policy W prc t)) = ip_backend_rules (fst t)"
  "ip_integrity_level (fst (refresh_process_policy W prc t)) = ip_integrity_level (fst t)"
  using suppress_session_fields
  by (auto simp: refresh_process_policy_def set_privacy_reason_def set_privacy_reason_with_manual_exception_def
    suppress_session_def handle_session_def case_prod_unfold Let_def)

lemma refresh_process_policy_nothing:
  assumes "ip_pending (fst t) = None" "ip_deferred (fst t) = None" "ip_undo (fst t) = None"
    "ip_last_boundary (fst t) = None" "ip_transpose_cycle (fst t) = None" "ip_replay_keys (fst t) = []"
    "current_word (ip_session (fst t)) = []" "ip_privacy_needs_check (fst t)" "ip_recent_privacy_ok (fst t) = None"
    and p: "p = fst (refresh_process_policy W prc t)"
  shows "ip_pending p = None \<and> ip_deferred p = None \<and> ip_undo p = None \<and> ip_last_boundary p = None
    \<and> ip_transpose_cycle p = None \<and> ip_replay_keys p = [] \<and> current_word (ip_session p) = []
    \<and> ip_privacy_needs_check p \<and> ip_recent_privacy_ok p = None"
  using assms(1-9) unfolding p
  by (auto simp: refresh_process_policy_def set_privacy_reason_def set_privacy_reason_with_manual_exception_def
    suppress_session_def handle_session_def session_handle_def session_reset_def case_prod_unfold Let_def)

lemma install_configuration_fields:
  assumes "install_configuration W c t = (p, s)"
  shows "ip_last_process p = None" "ip_exclusion_policy p = wc_process_exclusions c" "ip_settings p = rc_settings c"
    "ip_backend_rules p = wc_backend_rules c" "ip_integrity_level p = ip_integrity_level (fst t)"
    "ip_last_key_foreground p = ip_last_key_foreground (fst t)" "ip_pending p = None" "ip_deferred p = None"
    "ip_undo p = None" "ip_last_boundary p = None" "ip_transpose_cycle p = None" "ip_replay_keys p = []"
    "current_word (ip_session p) = []" "ip_privacy_needs_check p" "ip_recent_privacy_ok p = None"
proof -
  have "p = fst (install_configuration W c t)" using assms by simp
  then show "ip_last_process p = None" "ip_exclusion_policy p = wc_process_exclusions c" "ip_settings p = rc_settings c"
    "ip_backend_rules p = wc_backend_rules c" "ip_integrity_level p = ip_integrity_level (fst t)"
    "ip_last_key_foreground p = ip_last_key_foreground (fst t)" "ip_pending p = None" "ip_deferred p = None"
    "ip_undo p = None" "ip_last_boundary p = None" "ip_transpose_cycle p = None" "ip_replay_keys p = []"
    "current_word (ip_session p) = []" "ip_privacy_needs_check p" "ip_recent_privacy_ok p = None"
    by (simp_all add: install_configuration_def forget_word_def clear_session_def session_clear_def
      mark_privacy_dirty_def case_prod_unfold Let_def)
qed


text \<open>The sample worker in the sample window, at a configuration that excludes its program.\<close>

definition no_notepad :: worker_configuration where
  "no_notepad = sample_worker_configuration\<lparr>wc_process_exclusions := \<lparr>executable_names = {lit ''notepad.exe''}\<rparr>\<rparr>"

definition in_notepad :: processor where
  "in_notepad = sample_processor\<lparr>ip_last_key_foreground := Some sample_window, ip_last_process := Some 42\<rparr>"


end
