(* ===== verification/Worker_Run.thy ===== *)
theory Worker_Run
  imports Worker_Loop
begin

text \<open>
  What holds of the worker over any run of its queue: it comes back from every event, whatever the field,
  the clipboard and the system answer; and what it keeps of the word stays in step with the session.
\<close>

section \<open>The worker comes back\<close>

lemma release_later:
  assumes "world_clock W clock" "release_body W q d u s = (Inr u', s')"
  shows "clock s < clock s' \<and> clock s < d"
proof (rule clocked [OF assms(1), of s])
  fix I
  assume q: "world_quiet W I" "s \<in> I" and now: "\<And>X. X \<in> I \<Longrightarrow> clock s \<le> fst (ww_now W X)"
    and sleep: "\<And>X ms. X \<in> I \<Longrightarrow> 0 < ms \<Longrightarrow> clock s < clock (ww_sleep W ms X)"
  have "d \<le> fst (ww_now W X)" if "X \<in> I" "d \<le> clock s" for X using now [OF that(1)] that(2) by simp
  then have "\<not> d \<le> clock s"
    using assms(2) q by (auto simp: release_body_def Let_def case_prod_unfold keeps split: if_splits)
  moreover have "clock s < clock s'"
    using assms(2) q sleep by (auto simp: release_body_def Let_def case_prod_unfold keeps split: if_splits)
  ultimately show ?thesis by simp
qed

lemma wait_for_release_returns:
  assumes "world_clock W clock"
  shows "comes_back (wait_for_release W q s)"
proof -
  have "\<exists>r s'. iterate (release_body W q d) () s = Some (r, s')" for d s
    by (rule timed_loop_returns) (rule release_later [OF assms])
  then show ?thesis by (auto simp: wait_for_release_def comes_back_def Let_def case_prod_unfold)
qed

text \<open>What comes back composes.\<close>

named_theorems comes \<open>operations of the worker that come back\<close>

lemma comes_case [comes]:
  "comes_back x \<Longrightarrow> (\<And>y. comes_back (f y)) \<Longrightarrow> comes_back (case x of None \<Rightarrow> None | Some y \<Rightarrow> f y)"
  by (cases x) (simp_all add: comes_back_def)

lemma comes_split [comes]:
  "(x = None \<Longrightarrow> comes_back y) \<Longrightarrow> (\<And>z. comes_back (f z)) \<Longrightarrow> comes_back (case x of None \<Rightarrow> y | Some z \<Rightarrow> f z)"
  by (cases x) simp_all

lemma comes_if [comes]: "comes_back x \<Longrightarrow> comes_back y \<Longrightarrow> comes_back (if b then x else y)"
  by simp

lemma comes_Some [comes]: "comes_back (Some x)"
  by simp

lemma comes_map [comes]: "comes_back x \<Longrightarrow> comes_back (map_option f x)"
  by simp

lemma recover_comes:
  assumes "world_clock W clock"
  shows "comes_back (recover_retained_input W q x t)"
  unfolding recover_retained_input_def Let_def case_prod_unfold
  by (intro comes wait_for_release_returns [OF assms])

lemma forced_comes:
  assumes "world_clock W clock" "field_clock (ww_field W) clock"
  shows "comes_back (execute_forced_conversion W e t)"
proof -
  have cycle: "comes_back (advance_layout_cycle W keys d f sl l x q k t)" for keys d f sl l x q k t
    unfolding advance_layout_cycle_def Let_def case_prod_unfold by (intro comes edits_come_back [OF assms])
  have "comes_back (start_layout_cycle W e t)" for t
    unfolding start_layout_cycle_def Let_def case_prod_unfold by (intro comes cycle)
  moreover have "comes_back (continue_layout_cycle W x e t)" for x t
    unfolding continue_layout_cycle_def Let_def case_prod_unfold by (intro comes cycle)
  ultimately show ?thesis
    unfolding execute_forced_conversion_def Let_def case_prod_unfold by (intro comes)
qed

lemma press_hotkey_comes:
  assumes "world_clock W clock" "field_clock (ww_field W) clock"
  shows "comes_back (press_hotkey W e t)"
  unfolding press_hotkey_def Let_def case_prod_unfold
  by (intro comes edits_come_back [OF assms] forced_comes [OF assms] returned_comes_back [OF wait_returned(6) [OF assms(1)]])

lemma process_key_comes:
  assumes "world_clock W clock" "field_clock (ww_field W) clock"
  shows "comes_back (process_key W e t)"
proof -
  have "comes_back (press_plain_key W b e l t)" for b l t
    unfolding press_plain_key_def press_space_def Let_def case_prod_unfold by (intro comes edits_come_back [OF assms])
  then have "comes_back (press_key W e l t)" for l t
    unfolding press_key_def Let_def case_prod_unfold by (intro comes)
  then show ?thesis
    unfolding process_key_def Let_def case_prod_unfold by (intro comes press_hotkey_comes [OF assms])
qed

lemma process_comes:
  assumes "world_clock W clock" "field_clock (ww_field W) clock"
  shows "comes_back (process W q t)"
proof -
  have input: "comes_back (process_input W event t)" for event t
    unfolding process_input_def Let_def case_prod_unfold
    by (cases event) (auto intro!: comes process_key_comes [OF assms])
  have "comes_back (process_gate_drain_ready W token n ok t)" for token n ok t
    unfolding process_gate_drain_ready_def Let_def case_prod_unfold by (intro comes edits_come_back [OF assms])
  then have "comes_back (process_queued W q t)" for t
    unfolding process_queued_def Let_def case_prod_unfold
    by (cases "we_event q") (auto intro!: comes input recover_comes [OF assms(1)])
  then have "comes_back (process_event W q t)" for t
    unfolding process_event_def Let_def case_prod_unfold
    by (cases "we_event q") (auto intro!: comes)
  then show ?thesis
    unfolding process_def Let_def case_prod_unfold by (intro comes)
qed

lemma process_all_comes:
  assumes "world_clock W clock" "field_clock (ww_field W) clock"
  shows "comes_back (process_all W qs t)"
proof (induction qs arbitrary: t)
  case (Cons q qs)
  then show ?case using process_comes [OF assms, of q t] by (cases "process W q t") (simp_all add: comes_back_def)
qed (simp add: comes_back_def)

text \<open>C5. The worker comes back from every event of its queue and takes up the next one: keys, the hotkey, the
  end of a drained gate, the recovery of kept keys, a new configuration, in every state, at every backend,
  whatever the text field, the clipboard, the keyboard and the other threads answer, on a clock that does
  not run back. So the keys that a gate withholds while the worker is busy are never withheld by a worker
  that hangs.\<close>

theorem worker_returns:
  assumes "world_clock W clock" "field_clock (ww_field W) clock"
  shows "\<exists>t'. process_all W qs t = Some t'"
  using process_all_comes [OF assms, of qs t] unfolding comes_back_def by (simp del: split_paired_Ex)

text \<open>A short run: a press of Space, a click, a new configuration and the end of a drained gate.\<close>

definition sample_events :: "worker_event list" where
  "sample_events = map (\<lambda>(e, c). \<lparr>we_epoch = 0, we_captured_at = from_secs 10, we_event = e, we_configuration = c\<rparr>)
     [(EvKey sample_space, None), (EvMouse, None), (EvReloadConfiguration, Some (1, no_notepad)), (EvGateDrainReady 5 2 True, None)]"

theorem worker_returns_witness:
  "\<exists>t'. process_all sample_world sample_events (sample_processor, cells_new sample_facts, sample_start) = Some t'"
  by (rule worker_returns [OF sample_world_clock]) (simp add: field_clock_def sample_text_field_def)

end
