(* ===== verification/Worker_Steps.thy ===== *)
theory Worker_Steps
  imports Worker_Run
begin

text \<open>
  What the worker keeps of the word stays in step with the session: as many keys as the word has characters,
  as long as the session follows the word at all; and what it remembers stays within its bounds. Every
  operation of the worker is shown to keep this, in the collection \<open>follow\<close>; the theorem is the induction
  over the events of a run.
\<close>

section \<open>The invariant\<close>

text \<open>The bounds of what the worker keeps.\<close>

definition one_per_target :: "remembered_word list \<Rightarrow> bool" where
  "one_per_target = sorted_wrt (\<lambda>a b. \<not> same_input_target (rw_target a) (rw_target b))"

definition within_bounds :: "processor \<Rightarrow> bool" where
  "within_bounds p \<longleftrightarrow>
     session_ok (ip_session p) \<and> max_word_characters (ip_session p) = MANUAL_TOKEN_MAX_KEYS
     \<and> length (ip_replay_keys p) \<le> MANUAL_TOKEN_MAX_KEYS
     \<and> length (ip_remembered_words p) \<le> REMEMBERED_WORD_WINDOWS \<and> one_per_target (ip_remembered_words p)
     \<and> length (ip_recent_languages p) \<le> RECENT_LANGUAGES"

definition in_step :: "processor \<Rightarrow> bool" where
  "in_step p \<longleftrightarrow>
     within_bounds p
     \<and> (\<not> suppressed_until_boundary (ip_session p) \<longrightarrow>
          length (ip_replay_keys p) = length (current_word (ip_session p)))"

definition worker_ok :: "processor \<Rightarrow> bool" where
  "worker_ok p \<longleftrightarrow> in_step p \<and> (ip_undo p \<noteq> None \<longrightarrow> ip_replay_keys p = [])"

text \<open>Most operations leave the word alone or drop all of it.\<close>

definition follows :: "processor \<Rightarrow> processor \<Rightarrow> bool" where
  "follows p p' \<longleftrightarrow>
     (ip_undo p' = ip_undo p \<or> ip_undo p' = None)
     \<and> (ip_replay_keys p' = ip_replay_keys p \<or> ip_replay_keys p' = [])
     \<and> (within_bounds p \<longrightarrow> within_bounds p') \<and> (in_step p \<longrightarrow> in_step p')"

named_theorems follow \<open>operations that leave the word alone or drop all of it\<close>

lemma follows_refl [follow]: "follows p p"
  by (simp add: follows_def)

lemma follows_trans: "follows p q \<Longrightarrow> follows q r \<Longrightarrow> follows p r"
  by (auto simp: follows_def)

lemma follows_ok: "follows p p' \<Longrightarrow> worker_ok p \<Longrightarrow> worker_ok p'"
  by (auto simp: follows_def worker_ok_def)

lemma follows_fst [follow]: "follows q p \<Longrightarrow> follows q (fst (p, s))" "follows q (fst t) \<Longrightarrow> follows q (fst (snd (x, t)))"
  by simp_all

lemma follows_if [follow]:
  "follows q x \<Longrightarrow> follows q y \<Longrightarrow> follows q (if b then x else y)"
  "follows q (fst t) \<Longrightarrow> follows q (fst u) \<Longrightarrow> follows q (fst (if b then t else u))"
  "follows q (fst (snd r)) \<Longrightarrow> follows q (fst (snd v)) \<Longrightarrow> follows q (fst (snd (if b then r else v)))"
  by simp_all

lemma follows_option [follow]:
  "follows q x \<Longrightarrow> (\<And>a. follows q (f a)) \<Longrightarrow> follows q (case z of None \<Rightarrow> x | Some a \<Rightarrow> f a)"
  "follows q (fst t) \<Longrightarrow> (\<And>a. follows q (fst (g a))) \<Longrightarrow> follows q (fst (case z of None \<Rightarrow> t | Some a \<Rightarrow> g a))"
  "follows q (fst (snd r)) \<Longrightarrow> (\<And>a. follows q (fst (snd (h a)))) \<Longrightarrow>
     follows q (fst (snd (case z of None \<Rightarrow> r | Some a \<Rightarrow> h a)))"
  by (simp_all split: option.split)

lemma follows_unchanged [follow]:
  assumes "follows q p"
  shows
    "follows q (p\<lparr>ip_detector := v0\<rparr>)" "follows q (p\<lparr>ip_profiles := v1\<rparr>)"
    "follows q (p\<lparr>ip_modifiers := v2\<rparr>)" "follows q (p\<lparr>ip_resync_modifiers := v3\<rparr>)"
    "follows q (p\<lparr>ip_privacy_probe := v4\<rparr>)" "follows q (p\<lparr>ip_exclusion_policy := v5\<rparr>)"
    "follows q (p\<lparr>ip_backend_rules := v6\<rparr>)" "follows q (p\<lparr>ip_settings := v7\<rparr>)"
    "follows q (p\<lparr>ip_privacy_needs_check := v8\<rparr>)" "follows q (p\<lparr>ip_privacy_generation := v9\<rparr>)"
    "follows q (p\<lparr>ip_privacy_reason := v10\<rparr>)" "follows q (p\<lparr>ip_recent_privacy_ok := v11\<rparr>)"
    "follows q (p\<lparr>ip_last_refresh_check := v12\<rparr>)" "follows q (p\<lparr>ip_process_reason := v13\<rparr>)"
    "follows q (p\<lparr>ip_last_process := v14\<rparr>)" "follows q (p\<lparr>ip_integrity_level := v15\<rparr>)"
    "follows q (p\<lparr>ip_manual_only_word := v16\<rparr>)" "follows q (p\<lparr>ip_manual_only_inspection := v17\<rparr>)"
    "follows q (p\<lparr>ip_manual_token_start_known := v18\<rparr>)" "follows q (p\<lparr>ip_last_word_reset := v19\<rparr>)"
    "follows q (p\<lparr>ip_last_boundary := v20\<rparr>)" "follows q (p\<lparr>ip_transpose_cycle := v21\<rparr>)"
    "follows q (p\<lparr>ip_last_key_foreground := v22\<rparr>)" "follows q (p\<lparr>ip_backend := v23\<rparr>)"
    "follows q (p\<lparr>ip_pending := v24\<rparr>)" "follows q (p\<lparr>ip_deferred := v25\<rparr>)"
    "follows q (p\<lparr>ip_layout_in_flight := v26\<rparr>)" "follows q (p\<lparr>ip_last_foreground := v27\<rparr>)"
    "follows q (p\<lparr>ip_last_layout := v28\<rparr>)" "follows q (p\<lparr>ip_last_input_epoch := v29\<rparr>)"
    "follows q (p\<lparr>ip_configuration_revision := v30\<rparr>)" "follows q (p\<lparr>ip_last_dropped_events := v31\<rparr>)"
    "follows q (p\<lparr>ip_gate_window := v32\<rparr>)" "follows q (p\<lparr>ip_last_gate_release := v33\<rparr>)"
    "follows q (p\<lparr>ip_last_gate_retention := v34\<rparr>)" "follows q (p\<lparr>ip_held_keys_kept_for := v35\<rparr>)"
    "follows q (p\<lparr>ip_auto_resumes := v36\<rparr>)" "follows q (p\<lparr>ip_recovered_mid_word := v37\<rparr>)"
    "follows q (p\<lparr>ip_failed_edit_gate := v38\<rparr>)" "follows q (p\<lparr>ip_applying_configuration := v39\<rparr>)"
    "follows q (p\<lparr>ip_undo := None\<rparr>)"
  using assms by (simp_all add: follows_def within_bounds_def in_step_def)

section \<open>The word dropped\<close>

text \<open>Events that are neither a character nor injected leave no word that the session follows.\<close>

definition drops_word :: "input_event \<Rightarrow> bool" where
  "drops_word event = (case event of Printable _ \<Rightarrow> False | Injected \<Rightarrow> False | _ \<Rightarrow> True)"

lemma session_handle_limit: "max_word_characters (snd (handle_with_readings e U dt event l r s)) = max_word_characters s"
  by (cases event) (auto simp: session_defs Let_def split: option.splits)

lemma dropped_word:
  assumes "drops_word event" "session_ok s" "\<not> suppressed_until_boundary (snd (handle_with_readings e U dt event l r s))"
  shows "current_word (snd (handle_with_readings e U dt event l r s)) = []"
proof -
  have "spec_event limit ext event t = Known w \<Longrightarrow> w = []" for limit ext t w
    using assms(1) by (cases t) (auto simp: drops_word_def split: input_event.splits if_splits)
  then show ?thesis
    using session_event_ok [OF assms(2), of e U dt event l r] assms(3) by (simp add: session_view_def)
qed

lemma handle_drops:
  assumes "within_bounds p" "ip_replay_keys p = []" "drops_word event"
  shows "in_step (snd (handle_session W event l p))"
  using assms session_event_ok [of "ip_session p" "ww_exp W" "ww_unicode W" "ip_detector p" event l "[]"] dropped_word [OF assms(3)]
  by (auto simp: in_step_def within_bounds_def handle_session_def session_handle_def session_handle_limit
    case_prod_unfold Let_def)

lemma handle_session_fields:
  "\<exists>session. snd (handle_session W event l p) = p\<lparr>ip_session := session\<rparr>"
  by (auto simp: handle_session_def case_prod_unfold Let_def)

lemma handled_fields [simp]:
  "ip_replay_keys (snd (handle_session W event l p)) = ip_replay_keys p"
  "ip_undo (snd (handle_session W event l p)) = ip_undo p"
  by (simp_all add: handle_session_def case_prod_unfold Let_def)

lemma suppressed_in_step: "within_bounds p \<Longrightarrow> in_step (suppress_session W p)"
  unfolding suppress_session_def by (rule handle_drops) (simp_all add: within_bounds_def drops_word_def)

lemma suppressed_fields [simp]:
  "ip_replay_keys (suppress_session W p) = []" "ip_undo (suppress_session W p) = ip_undo p"
  using suppress_session_fields [of W p] by auto

lemma follows_suppress [follow]: "follows q p \<Longrightarrow> follows q (suppress_session W p)"
  using suppressed_in_step [of p W] by (auto simp: follows_def in_step_def)

lemma clear_in_step: "within_bounds p \<Longrightarrow> ip_replay_keys p = [] \<Longrightarrow> in_step (clear_session p)"
  by (simp add: in_step_def within_bounds_def clear_session_def session_clear_def session_ok_def)

lemma follows_invalidate [follow]: "follows q (fst t) \<Longrightarrow> follows q (fst (invalidate_conversion_state W t))"
  by (simp add: follow)

lemma follows_clear_undo [follow]: "follows q (fst t) \<Longrightarrow> follows q (fst (clear_undo W t))"
  by (simp add: follow)

section \<open>Operations that follow\<close>

lemma follows_set_reason [follow]:
  "follows q (fst t) \<Longrightarrow> follows q (fst (set_privacy_reason_with_manual_exception W reason e t))"
  unfolding set_privacy_reason_with_manual_exception_def Let_def case_prod_unfold by (intro follow) simp_all

lemma follows_dirty [follow]: "follows q (fst t) \<Longrightarrow> follows q (fst (mark_privacy_dirty W b t))"
  unfolding mark_privacy_dirty_def set_privacy_reason_def Let_def case_prod_unfold by (intro follow) simp_all

lemma follows_process_policy [follow]: "follows q (fst t) \<Longrightarrow> follows q (fst (refresh_process_policy W pid t))"
  unfolding refresh_process_policy_def set_privacy_reason_def Let_def case_prod_unfold by (intro follow) simp_all

lemma follows_ask [follow]: "follows q (fst t) \<Longrightarrow> follows q (fst (snd (ask_privacy_probe W f epoch t)))"
  unfolding ask_privacy_probe_def Let_def case_prod_unfold by (intro follow) simp_all

lemma follows_settle [follow]:
  "follows q p \<Longrightarrow> follows q (snd (settle_probe_outcome reason source f epoch now trigger p))"
  unfolding settle_probe_outcome_def by (simp add: follow)

lemma follows_verdict [follow]: "follows q (fst t) \<Longrightarrow> follows q (fst (publish_verdict W verdict f t))"
  unfolding publish_verdict_def Let_def case_prod_unfold by (intro follow) simp_all

lemma follows_apply_probe [follow]:
  "follows q (fst t) \<Longrightarrow> follows q (fst (apply_probe_answer W answer current f epoch started trigger t))"
  unfolding apply_probe_answer_def Let_def case_prod_unfold by (intro follow) simp_all

lemma follows_evaluate [follow]: "follows q (fst t) \<Longrightarrow> follows q (fst (evaluate_privacy W f trigger t))"
  unfolding evaluate_privacy_def Let_def case_prod_unfold by (intro follow) simp_all

lemma follows_ensure [follow]: "follows q (fst t) \<Longrightarrow> follows q (fst (snd (ensure_privacy W f trigger t)))"
  unfolding ensure_privacy_def Let_def case_prod_unfold by (intro follow) simp_all

lemma follows_forced_privacy [follow]: "follows q (fst t) \<Longrightarrow> follows q (fst (snd (forced_privacy_allows W f t)))"
  unfolding forced_privacy_allows_def Let_def case_prod_unfold by (intro follow) simp_all

lemma follows_renew [follow]: "follows q (fst t) \<Longrightarrow> follows q (fst (renew_recent_privacy_ok W f t))"
  unfolding renew_recent_privacy_ok_def Let_def case_prod_unfold by (intro follow) simp_all

lemma follows_sound [follow]: "follows q (fst t) \<Longrightarrow> follows q (fst (request_sound W cue t))"
  unfolding request_sound_def case_prod_unfold by (intro follow) simp_all

lemma follows_no_recent: "follows p (p\<lparr>ip_recent_languages := []\<rparr>)"
  by (simp add: follows_def in_step_def within_bounds_def)

lemma follows_failure [follow]:
  assumes "follows q (fst t)"
  shows "follows q (fst (record_conversion_failure W reason t))"
  unfolding record_conversion_failure_def Let_def case_prod_unfold
  by (intro follow follows_trans [OF _ follows_no_recent]) (simp_all add: assms)

lemma follows_manual_failure [follow]:
  "follows q (fst t) \<Longrightarrow> follows q (fst (record_manual_edit_failure W t))"
  unfolding record_manual_edit_failure_def Let_def case_prod_unfold by (intro follow) simp_all

lemma follows_release [follow]:
  "follows q (fst t) \<Longrightarrow> follows q (fst (request_gate_release W token t))"
  "follows q (fst t) \<Longrightarrow> follows q (fst (request_gate_retention W token t))"
  "follows q (fst t) \<Longrightarrow> follows q (fst (end_conversion_gate W token t))"
  unfolding end_conversion_gate_def request_gate_release_def request_gate_retention_def Let_def case_prod_unfold
  by (intro follow; simp)+

lemma follows_attempt [follow]:
  "follows q (fst t) \<Longrightarrow> follows q (fst (snd (apply_paste_attempt_result W attempt sequence route t)))"
  unfolding apply_paste_attempt_result_def Let_def case_prod_unfold
  by (cases attempt) (auto intro!: follow)

lemma follows_cleared:
  assumes "follows q p" "ip_replay_keys p = []"
  shows "follows q (clear_session p)"
  using assms clear_in_step [of p]
  by (auto simp: follows_def in_step_def) (auto simp: clear_session_def)

lemma finish_commit_follows:
  assumes "follows q (fst t)" "ip_replay_keys (fst t) = []"
  shows "follows q (fst (snd (finish_replay_commit W commit l t)))"
  unfolding finish_replay_commit_def Let_def case_prod_unfold
  by (cases commit) (auto intro!: follow follows_cleared assms simp: assms)

section \<open>Edits\<close>

lemma follows_no_keys: "follows p p' \<Longrightarrow> ip_replay_keys p = [] \<Longrightarrow> ip_replay_keys p' = []"
  by (auto simp: follows_def)

lemma follows_run: "r = (p', s') \<Longrightarrow> follows q (fst r) \<Longrightarrow> follows q p'"
  by simp

lemma physical_commit_follows:
  assumes "physical_with_commit W manual f q l n keys d (p, s) = Some (b, p', s')" "ip_replay_keys p = []"
  shows "follows p p'"
proof -
  have commit: "follows p p'" if "finish_replay_commit W commit l (p, u) = (b, p', s')" for commit u
    using finish_commit_follows [of p "(p, u)" W commit l] that assms(2) by (simp add: follows_refl)
  have failed: "follows p p'" if "(if manual then record_manual_edit_failure W (p, u)
      else record_conversion_failure W reason (p, u)) = (p', s')" for reason u
    using that by (rule follows_run) (intro follow)
  show ?thesis
    using assms(1) failed [of _ FailPhysicalEdit]
    by (auto simp: physical_with_commit_def follows_refl split: option.splits replay_attempt.splits
      dest: commit follows_run [OF _ follows_failure [OF follows_fst(1) [OF follows_refl]]])
qed

lemma complete_physical_follows:
  assumes "complete_physical_conversion W pending q l t = Some (x, t')" "ip_replay_keys (fst t) = []"
  shows "follows (fst t) (fst t')"
  using assms by (cases t; cases t') (auto simp: complete_physical_conversion_def split: option.splits
    dest!: physical_commit_follows)

lemma paste_edit_follows:
  assumes "paste_edit W q route t = Some (x, t')"
  shows "follows (fst t) (fst t')"
proof -
  obtain p c s where t: "t = (p, c, s)" by (metis surj_pair)
  obtain attempt c1 s1 where "perform_protected_paste W p q (c, s) = Some (attempt, c1, s1)"
    and "ask_world (apply_paste_attempt_result W attempt (pr_sequence q) route) (p, c1, s1) = (x, t')"
    using assms by (auto simp: t paste_edit_def split: option.splits)
  then have "fst t' = fst (snd (apply_paste_attempt_result W attempt (pr_sequence q) route (p, s1)))"
    by (auto simp: ask_world_def case_prod_unfold Let_def)
  moreover have "follows p (fst (snd (apply_paste_attempt_result W attempt (pr_sequence q) route (p, s1))))"
    by (intro follow)
  ultimately show ?thesis by (simp add: t)
qed

lemma edit_follows:
  assumes "ip_replay_keys p = []"
  shows "complete_physical_conversion W pending q l (p, t) = Some (x, p', t') \<Longrightarrow> follows p p'"
    "paste_edit W r route (p, t) = Some (x, p', t') \<Longrightarrow> follows p p'"
  using complete_physical_follows [of W pending q l "(p, t)" x "(p', t')"] paste_edit_follows [of W r route "(p, t)" x "(p', t')"]
    assms by simp_all

lemma backend_edit_follows:
  assumes "edit_by_backend W pending q l (p, t) = Some (x, p', t')" "ip_replay_keys p = []"
  shows "follows p p'"
  using assms(1)
  by (auto simp: edit_by_backend_def edit_with_capability_def Let_def follows_refl
    split: text_edit_backend.splits option.splits capability_decision.splits dest!: edit_follows [OF assms(2)])

text \<open>An applied edit starts from an empty word and leaves one.\<close>

definition wordless :: "processor \<Rightarrow> bool" where
  "wordless p \<longleftrightarrow> in_step p \<and> ip_replay_keys p = []"

lemma wordless_ok: "wordless p \<Longrightarrow> worker_ok p"
  by (simp add: wordless_def worker_ok_def)

lemma follows_wordless: "follows p p' \<Longrightarrow> wordless p \<Longrightarrow> wordless p'"
  by (auto simp: follows_def wordless_def)

lemma length_retag [simp]: "length (retag_last a b ls) = length ls"
  by (auto simp: retag_last_def)

lemma retagged_wordless: "wordless p \<Longrightarrow> wordless (p\<lparr>ip_recent_languages := retag_last a b (ip_recent_languages p)\<rparr>)"
  by (auto simp: wordless_def in_step_def within_bounds_def)

lemma cleared_wordless: "wordless p \<Longrightarrow> wordless (clear_session p)"
  using clear_in_step by (auto simp: wordless_def in_step_def) (simp_all add: clear_session_def)

lemma finished_conversion_wordless:
  assumes "wordless (fst t)"
  shows "wordless (fst (finish_applied_conversion W pending target strategy t))"
proof -
  let ?x = "pn_transaction pending"
  let ?p = "if pn_forced pending then fst t
    else (fst t)\<lparr>ip_recent_languages := retag_last (ct_source_language ?x) (ct_target_language ?x) (ip_recent_languages (fst t))\<rparr>"
  let ?cleared = "clear_session (commit_confirmed_layout target ?p)"
  define after where "after = fst (finish_applied_conversion W pending target strategy t)"
  have "wordless ?cleared"
    by (rule cleared_wordless, rule follows_wordless [of ?p])
       (use assms retagged_wordless in \<open>auto simp: commit_confirmed_layout_def intro!: follow\<close>)
  moreover have "follows ?cleared (after\<lparr>ip_undo := None\<rparr>)"
    unfolding after_def finish_applied_conversion_def Let_def case_prod_unfold
    by (cases "pn_forced pending"; cases "ct_delimiter ?x") (auto intro!: follow)
  ultimately have "wordless (after\<lparr>ip_undo := None\<rparr>)" by (rule follows_wordless [rotated])
  then show ?thesis by (auto simp: after_def wordless_def in_step_def within_bounds_def)
qed

lemma finished_undo_wordless: "wordless p \<Longrightarrow> wordless (finish_applied_undo r p)"
proof -
  assume w: "wordless p"
  let ?x = "ur_transaction r"
  let ?p = "p\<lparr>ip_recent_languages := retag_last (ct_target_language ?x) (ct_source_language ?x) (ip_recent_languages p)\<rparr>"
  have "wordless (clear_session (commit_confirmed_layout (ur_source_layout r) ?p))"
    by (rule cleared_wordless, rule follows_wordless [of ?p])
       (use w retagged_wordless in \<open>auto simp: commit_confirmed_layout_def intro!: follow\<close>)
  then show ?thesis
    unfolding finish_applied_undo_def Let_def by (rule follows_wordless [rotated]) (intro follow)
qed

lemma in_world_fields [simp]: "in_world f (p, c, s) = (fst (f (p, s)), c, snd (f (p, s)))"
  by (simp add: in_world_def case_prod_unfold Let_def)

lemma ok_bounds: "worker_ok p \<Longrightarrow> within_bounds p"
  by (simp add: worker_ok_def in_step_def)

lemma emptied_wordless: "within_bounds p \<Longrightarrow> wordless ((clear_session p)\<lparr>ip_replay_keys := []\<rparr>)"
  by (simp add: wordless_def in_step_def within_bounds_def clear_session_def session_clear_def session_ok_def)

lemma follows_ok_run: "r = (p', s') \<Longrightarrow> follows p (fst r) \<Longrightarrow> worker_ok p \<Longrightarrow> worker_ok p'"
  using follows_ok by fastforce

lemma convert_settled_ok:
  assumes "convert_settled W pending q (p, c, s) = Some (p', t')" "worker_ok p"
  shows "worker_ok p'"
proof -
  define p1 where "p1 = (clear_session (fst (invalidate_conversion_state W (p, s))))\<lparr>ip_replay_keys := []\<rparr>"
  have "within_bounds (fst (invalidate_conversion_state W (p, s)))"
    using ok_bounds [OF assms(2)] by (simp add: within_bounds_def)
  then have w: "wordless p1" unfolding p1_def by (rule emptied_wordless)
  then have keys: "ip_replay_keys p1 = []" by (simp add: wordless_def)
  have edited: "worker_ok p'" if "edit_by_backend W pending q l (p1, c, u) = Some (None, p', t')" for l u
    using backend_edit_follows [OF that keys] w follows_wordless wordless_ok by blast
  have applied: "worker_ok p'" if "edit_by_backend W pending q l (p1, c, u) = Some (Some x, p2, c2, s2)"
    "fst (finish_applied_conversion W pending l x (p2, s2)) = p'" for l u x p2 c2 s2
    using backend_edit_follows [OF that(1) keys] w follows_wordless finished_conversion_wordless [of "(p2, s2)"]
      wordless_ok that(2) by fastforce
  have "worker_ok (fst (record_conversion_failure W FailLayoutUnavailable (p, u)))" for u
    by (rule follows_ok [OF _ assms(2)]) (intro follow)
  then show ?thesis
    using assms edited applied
    by (auto simp: convert_settled_def Let_def case_prod_unfold p1_def split: option.splits if_splits)
qed

lemma end_gate_ok: "worker_ok p \<Longrightarrow> worker_ok (fst (end_conversion_gate W token (p, s)))"
  by (rule follows_ok [of p]) (intro follow)

lemma execute_pending_ok:
  assumes "execute_pending_conversion W q (p, c, s) = Some (p', t')" "worker_ok p"
  shows "worker_ok p'"
proof -
  have taken: "worker_ok (p\<lparr>ip_pending := None\<rparr>)" by (rule follows_ok [OF _ assms(2)]) (intro follow)
  have "worker_ok p1" if "execute_pending_conversion_inner W q (p, c, s) = Some (p1, t1)" for p1 t1
  proof -
    have "worker_ok (fst (record_conversion_failure W FailSourceBarrier (p\<lparr>ip_pending := None\<rparr>, u)))" for u
      by (rule follows_ok [OF _ taken]) (intro follow)
    then show ?thesis
      using that assms(2) taken
      by (auto simp: execute_pending_conversion_inner_def Let_def case_prod_unfold
        split: option.splits if_splits replay_attempt.splits dest!: convert_settled_ok [OF _ taken])
  qed
  note inner = this
  show ?thesis
    using assms(1) by (auto simp: execute_pending_conversion_def intro!: end_gate_ok dest!: inner)
qed

lemma undo_edit_follows:
  assumes "undo_edit W r q (p, c, s) = Some (b, p', t')" "ip_replay_keys p = []"
  shows "follows p p'"
  using assms(1)
  by (auto simp: undo_edit_def follows_refl split: edit_strategy.splits option.splits prod.splits
    dest!: physical_commit_follows [OF _ assms(2)] edit_follows(2) [OF assms(2)])

lemma execute_undo_ok:
  assumes "execute_undo W q (p, c, s) = Some (p', t')" "worker_ok p"
  shows "worker_ok p'"
proof -
  have "worker_ok p1" if run: "execute_undo_inner W q (p, c, u) = Some (p1, t1)" for p1 t1 u
  proof (cases "ip_undo p")
    case None
    then show ?thesis using run assms(2) by (simp add: execute_undo_inner_def)
  next
    case (Some r)
    let ?p = "p\<lparr>ip_undo := None\<rparr>"
    have w: "wordless ?p" using assms(2) Some by (auto simp: worker_ok_def wordless_def in_step_def within_bounds_def)
    then have keys: "ip_replay_keys ?p = []" by (simp add: wordless_def)
    have failed: "worker_ok p1" if "undo_edit W r q (?p, c1, v) = Some (False, p1, t1)" for c1 v
      using undo_edit_follows [OF that keys] follows_wordless [OF _ w] wordless_ok by blast
    have undone: "worker_ok (fst (request_sound W CueUndone (finish_applied_undo r p2, v)))"
      if "undo_edit W r q (?p, c1, v1) = Some (True, p2, c2, s2)" for c1 v v1 p2 c2 s2
    proof -
      have "wordless (finish_applied_undo r p2)"
        by (rule finished_undo_wordless) (rule follows_wordless [OF undo_edit_follows [OF that keys] w])
      then show ?thesis by (rule wordless_ok [OF follows_wordless [rotated]]) (intro follow)
    qed
    show ?thesis
      using run assms(2) failed undone
      by (auto simp: execute_undo_inner_def Some Let_def case_prod_unfold split: if_splits option.splits bool.splits)
  qed
  note inner = this
  show ?thesis
    using assms(1) by (auto simp: execute_undo_def intro!: end_gate_ok dest!: inner)
qed

section \<open>The manual hotkey\<close>

text \<open>What is remembered changes within its bounds.\<close>

lemma follows_remembered:
  assumes "follows q p"
    and "length (ip_remembered_words p) \<le> REMEMBERED_WORD_WINDOWS \<Longrightarrow> one_per_target (ip_remembered_words p) \<Longrightarrow>
      length words \<le> REMEMBERED_WORD_WINDOWS \<and> one_per_target words"
  shows "follows q (p\<lparr>ip_remembered_words := words\<rparr>)"
  using assms by (simp add: follows_def in_step_def within_bounds_def)

lemma one_per_target_sublist:
  "one_per_target ws \<Longrightarrow> one_per_target (filter P ws)" "one_per_target ws \<Longrightarrow> one_per_target (drop n ws)"
  by (simp_all add: one_per_target_def sorted_wrt_filter sorted_wrt_drop)

lemma fresh_words_bounds:
  "length ws \<le> REMEMBERED_WORD_WINDOWS \<Longrightarrow> one_per_target ws \<Longrightarrow>
     length (fresh_words now ws) \<le> REMEMBERED_WORD_WINDOWS \<and> one_per_target (fresh_words now ws)"
  unfolding fresh_words_def using le_trans [OF length_filter_le] one_per_target_sublist(1) by blast

text \<open>The oldest makes room, and an older entry for the same target goes.\<close>

lemma remembered_bounds:
  assumes "length old \<le> REMEMBERED_WORD_WINDOWS" "one_per_target old"
    and rest: "rest = filter (\<lambda>e. \<not> same_input_target (rw_target e) (rw_target new)) old"
    and ws: "ws = (if REMEMBERED_WORD_WINDOWS \<le> length rest then drop 1 rest else rest)"
  shows "length (ws @ [new]) \<le> REMEMBERED_WORD_WINDOWS \<and> one_per_target (ws @ [new])"
proof -
  have "length rest \<le> REMEMBERED_WORD_WINDOWS" using assms(1) le_trans [OF length_filter_le] unfolding rest by blast
  then have "length ws < REMEMBERED_WORD_WINDOWS" by (auto simp: ws REMEMBERED_WORD_WINDOWS_def)
  moreover have "set ws \<subseteq> set rest" by (auto simp: ws dest: in_set_dropD)
  moreover have "one_per_target ws" using assms(2) by (simp add: ws rest one_per_target_sublist)
  ultimately show ?thesis by (auto simp: one_per_target_def sorted_wrt_append rest)
qed

lemma follows_remember [follow]:
  assumes "follows q p"
  shows "follows q (remember_word target layout now p)"
proof -
  let ?kept = "fresh_words now (ip_remembered_words p)"
  let ?others = "filter (\<lambda>e. \<not> same_input_target (rw_target e) target) ?kept"
  have "follows q (p\<lparr>ip_remembered_words := (if REMEMBERED_WORD_WINDOWS \<le> length ?others then drop 1 ?others else ?others)
      @ [\<lparr>rw_target = target, rw_cycle = x, rw_word = w, rw_at = now\<rparr>]\<rparr>)" for x w
    by (rule follows_remembered [OF assms], rule remembered_bounds) (use fresh_words_bounds in auto)
  then show ?thesis
    unfolding remember_word_def Let_def using follows_remembered [OF assms fresh_words_bounds] by auto
qed

lemma follows_restore [follow]:
  assumes "follows q (fst t)"
  shows "follows q (fst (snd (restore_remembered_word W target now t)))"
proof -
  let ?p = "fst (refresh_process_policy W (fc_process target) t)"
  let ?fresh = "fresh_words now (ip_remembered_words ?p)"
  have p: "follows q ?p" by (intro follow assms)
  have fresh: "follows q (?p\<lparr>ip_remembered_words := ?fresh\<rparr>)"
    by (rule follows_remembered [OF p fresh_words_bounds])
  have taken: "follows q (?p\<lparr>ip_remembered_words := xs @ ys\<rparr>)"
    if "List.extract P ?fresh = Some (xs, e, ys)" for P xs e ys
  proof (rule follows_remembered [OF p])
    have "?fresh = xs @ e # ys" using that by (simp add: extract_Some_iff)
    moreover assume "length (ip_remembered_words ?p) \<le> REMEMBERED_WORD_WINDOWS" "one_per_target (ip_remembered_words ?p)"
    ultimately show "length (xs @ ys) \<le> REMEMBERED_WORD_WINDOWS \<and> one_per_target (xs @ ys)"
      using fresh_words_bounds [of "ip_remembered_words ?p" now]
      by (auto simp: one_per_target_def sorted_wrt_append)
  qed
  show ?thesis
    using p fresh taken
    by (auto simp: restore_remembered_word_def Let_def case_prod_unfold split: option.splits intro!: follow)
qed

lemma advance_ok:
  assumes "advance_layout_cycle W keys d f sl l x q k (p, c, s) = Some (p', t')" "worker_ok p"
  shows "worker_ok p'"
proof -
  have "worker_ok (p\<lparr>ip_pending := u\<rparr>)" for u by (rule follows_ok [OF _ assms(2)]) (intro follow)
  then show ?thesis
    using assms by (auto simp: advance_layout_cycle_def Let_def case_prod_unfold split: option.splits
      dest!: execute_pending_ok)
qed

lemma forced_allows_ok: "worker_ok p \<Longrightarrow> worker_ok (fst (snd (forced_privacy_allows W f (p, s))))"
  by (rule follows_ok [of p]) (intro follow)

lemma forced_conversion_ok:
  assumes "execute_forced_conversion W e (p, c, s) = Some (p', t')" "worker_ok p"
  shows "worker_ok p'"
proof -
  let ?r = "restore_remembered_word W (ke_foreground e) (fst (ww_now W s)) (p, snd (ww_now W s))"
  have start: "worker_ok p'" if "start_layout_cycle W e (p1, c, u) = Some (p', t')" "worker_ok p1" for p1 u
    using that by (auto simp: start_layout_cycle_def Let_def case_prod_unfold split: option.splits if_splits
      dest!: advance_ok intro: forced_allows_ok)
  have continue: "worker_ok p'" if "continue_layout_cycle W x e (p1, c, u) = Some (p', t')" "worker_ok p1" for x p1 u
    using that by (auto simp: continue_layout_cycle_def Let_def case_prod_unfold split: option.splits if_splits
      dest!: advance_ok intro: forced_allows_ok)
  have p1: "worker_ok (fst (snd ?r))" by (rule follows_ok [OF _ assms(2)]) (intro follow)
  have "worker_ok (suppress_session W (fst (invalidate_conversion_state W (fst (snd ?r), u))))" for u
    by (rule follows_ok [OF _ p1]) (intro follow)
  then show ?thesis
    using assms(1) p1
    by (auto simp: execute_forced_conversion_def Let_def case_prod_unfold split: option.splits if_splits
      dest: start continue)
qed

section \<open>Focus, layout and keys that end the word\<close>

text \<open>The keys are dropped, and the session is about to drop the word.\<close>

definition drops :: "processor \<Rightarrow> processor \<Rightarrow> bool" where
  "drops p p' \<longleftrightarrow>
     (ip_undo p' = ip_undo p \<or> ip_undo p' = None) \<and> ip_replay_keys p' = [] \<and> (within_bounds p \<longrightarrow> within_bounds p')"

lemma drops_keys: "follows q p \<Longrightarrow> drops q (p\<lparr>ip_replay_keys := []\<rparr>)"
  by (auto simp: follows_def drops_def within_bounds_def)

lemma drops_handled:
  assumes "drops q p"
  shows "drops_word event \<Longrightarrow> follows q (snd (handle_session W event l p))" "follows q (clear_session p)"
proof -
  have "in_step q \<Longrightarrow> within_bounds q" by (simp add: in_step_def)
  moreover have "within_bounds q \<Longrightarrow> drops_word event \<Longrightarrow> in_step (snd (handle_session W event l p))"
    "within_bounds q \<Longrightarrow> in_step (clear_session p)"
    using assms handle_drops clear_in_step by (auto simp: drops_def)
  moreover have "ip_replay_keys (clear_session p) = ip_replay_keys p" "ip_undo (clear_session p) = ip_undo p"
    by (simp_all add: clear_session_def)
  ultimately show "drops_word event \<Longrightarrow> follows q (snd (handle_session W event l p))" "follows q (clear_session p)"
    using assms by (auto simp: follows_def drops_def in_step_def)
qed

lemma drops_same:
  assumes "drops q p"
    and "ip_session p' = ip_session p" "ip_replay_keys p' = ip_replay_keys p" "ip_undo p' = ip_undo p \<or> ip_undo p' = None"
      "ip_remembered_words p' = ip_remembered_words p" "ip_recent_languages p' = ip_recent_languages p"
  shows "drops q p'"
  using assms by (auto simp: drops_def within_bounds_def)

lemma switching_rule_follows:
  assumes "drops q p" "drops_word event"
  shows "follows q (handle_switching_rule W event l b p)"
proof -
  have "drops q (p\<lparr>ip_last_boundary := None, ip_transpose_cycle := None\<rparr>)" by (rule drops_same [OF assms(1)]) simp_all
  then show ?thesis
    unfolding handle_switching_rule_def Let_def by (cases b) (simp_all add: drops_handled assms(2))
qed

lemma follows_profile_refresh [follow]:
  assumes "follows q (fst t)"
  shows "follows q (fst (apply_profile_refresh W update t))"
proof -
  have emptied: "follows q (p\<lparr>ip_replay_keys := []\<rparr>)"
    if "follows q p" "current_word (ip_session p) = [] \<or> ip_replay_keys p = []" for p
    using that by (auto simp: follows_def in_step_def within_bounds_def)
  show ?thesis
    unfolding apply_profile_refresh_def Let_def case_prod_unfold
    by (intro follow emptied) (simp_all add: assms)
qed

lemma follows_refresh_profiles [follow]:
  "follows q (fst t) \<Longrightarrow> follows q (fst (refresh_input_profiles W t))"
  "follows q (fst t) \<Longrightarrow> follows q (fst (refresh_profiles_outside_gate W t))"
  unfolding refresh_profiles_outside_gate_def refresh_input_profiles_def Let_def case_prod_unfold
  by (intro follow; simp)+

lemma follows_enter [follow]:
  assumes "follows q (fst t)"
  shows "follows q (fst (enter_target W f l t))"
proof -
  have entered: "follows q (snd (handle_session W FocusChanged l (p\<lparr>ip_replay_keys := [], ip_last_boundary := None,
      ip_transpose_cycle := None\<rparr>)))" if "follows q p" for p
    by (rule drops_handled, rule drops_same [OF drops_keys [OF that]]) (simp_all add: drops_word_def)
  show ?thesis
    unfolding enter_target_def Let_def case_prod_unfold
    by (intro follow entered follows_trans [OF _ follows_no_recent]) (simp_all add: assms)
qed

lemma follows_switch [follow]:
  assumes "follows q (fst t)"
  shows "follows q (fst (manual_layout_switch W f l t))"
proof -
  have "follows q (handle_switching_rule W LayoutChanged l b (p\<lparr>ip_last_word_reset := r, ip_layout_in_flight := None,
      ip_replay_keys := [], ip_pending := None, ip_deferred := None, ip_last_boundary := None, ip_transpose_cycle := None,
      ip_undo := None\<rparr>))" if "follows q p" for p b r
    by (rule switching_rule_follows, rule drops_same [OF drops_keys [OF that]]) (simp_all add: drops_word_def)
  then show ?thesis
    unfolding manual_layout_switch_def Let_def case_prod_unfold by (intro follow) (simp add: assms)
qed

lemma follows_target [follow]:
  assumes "follows q (fst t)"
  shows "follows q (fst (follow_target W f l t))"
proof -
  have "follows q (fst (follow_layout W f l t))"
    unfolding follow_layout_def Let_def case_prod_unfold by (intro follow) (simp_all add: assms)
  then show ?thesis
    unfolding follow_target_def Let_def case_prod_unfold by (intro follow) (simp_all add: assms)
qed

lemma drops_follows: "drops q p \<Longrightarrow> follows p p' \<Longrightarrow> drops q p'"
  by (auto simp: drops_def follows_def)

lemma follows_language [follow]: "follows q p \<Longrightarrow> follows q (remember_word_language l p)"
  by (auto simp: follows_def in_step_def within_bounds_def remember_word_language_def RECENT_LANGUAGES_def)

lemma follows_navigate [follow]:
  assumes "follows q (fst t)"
  shows "follows q (fst (navigate W l b t))"
proof -
  have rule: "follows q (handle_switching_rule W Navigation l b (p\<lparr>ip_last_word_reset := r, ip_replay_keys := []\<rparr>))"
    if "follows q p" for p r
    by (rule switching_rule_follows, rule drops_same [OF drops_keys [OF that]]) (simp_all add: drops_word_def)
  show ?thesis
    unfolding navigate_def case_prod_unfold by (intro follow rule) (simp add: assms)
qed

lemma follows_delete [follow]: "follows q p \<Longrightarrow> follows q (press_delete W l p)"
  unfolding press_delete_def
  by (rule switching_rule_follows, rule drops_same, rule drops_keys) (auto simp: drops_word_def)

text \<open>The end of a word, whatever becomes of it.\<close>

lemma boundary_session:
  "session_ok (snd (finish_boundary e U dt l cs s))" "current_word (snd (finish_boundary e U dt l cs s)) = []"
  "max_word_characters (snd (finish_boundary e U dt l cs s)) = max_word_characters s"
  using finish_boundary_ok [of e U dt l cs s] by (auto simp: finish_boundary_def Let_def split: option.split)

lemma word_transaction_follows:
  assumes "drops q (fst t)"
  shows "follows q (fst (snd (word_transaction W l d cs keys t)))"
proof -
  let ?session = "snd (finish_boundary_in_context (ww_exp W) (ww_unicode W) (ip_detector (fst t)) l cs
    (ip_recent_languages (fst t)) (ip_session (fst t)))"
  have "follows q ((fst t)\<lparr>ip_session := ?session\<rparr>)"
    using assms by (auto simp: follows_def drops_def in_step_def within_bounds_def finish_boundary_in_context_def boundary_session)
  then show ?thesis
    unfolding word_transaction_def Let_def case_prod_unfold
    by (auto split: session_action.split option.split intro!: follow)
qed

lemma handle_boundary_follows [follow]:
  assumes "follows q (fst t)"
  shows "follows q (fst (snd (handle_boundary W l d b t)))"
proof -
  have dropped: "drops q ((fst t)\<lparr>ip_replay_keys := [], ip_manual_only_word := x, ip_recovered_mid_word := y\<rparr>)" for x y
    by (rule drops_same [OF drops_keys [OF assms]]) simp_all
  show ?thesis
    unfolding handle_boundary_def Let_def case_prod_unfold
    by (intro follow word_transaction_follows) (auto intro!: dropped drops_handled)
qed

lemma transaction_keys [simp]: "ip_replay_keys (fst (snd (word_transaction W l d cs keys t))) = ip_replay_keys (fst t)"
  by (simp add: word_transaction_def remember_word_language_def case_prod_unfold Let_def split: session_action.split option.split)

lemma dirty_keys [simp]: "ip_replay_keys (fst (mark_privacy_dirty W False t)) = ip_replay_keys (fst t)"
  by (simp add: mark_privacy_dirty_def case_prod_unfold Let_def)

lemma boundary_keys [simp]: "ip_replay_keys (fst (snd (handle_boundary W l d b t))) = []"
  unfolding handle_boundary_def Let_def case_prod_unfold by (simp add: clear_session_def)

lemma end_of_field_follows [follow]:
  assumes "follows q (fst t)"
  shows "follows q (fst (end_of_field W l b t))"
proof -
  have marked: "follows q (p\<lparr>ip_session := mark_line_start (ip_session p)\<rparr>)" if "follows q p" "ip_replay_keys p = []" for p
    using that by (auto simp: follows_def in_step_def within_bounds_def mark_line_start_def session_clear_def session_ok_def)
  show ?thesis
    unfolding end_of_field_def Let_def case_prod_unfold by (intro follow marked) (simp_all add: assms)
qed

lemma shortcut_follows [follow]:
  assumes "follows q (fst t)"
  shows "follows q (fst (press_shortcut W e l t))"
proof -
  define p where "p = (fst t)\<lparr>ip_last_word_reset := WordShortcut, ip_replay_keys := [], ip_last_boundary := None,
    ip_transpose_cycle := None\<rparr>"
  have p: "drops q p" unfolding p_def by (rule drops_same [OF drops_keys [OF assms]]) simp_all
  have erased: "follows q (p\<lparr>ip_session := snd (erase_first_word_by_shortcut (ip_session p))\<rparr>)"
    if "fst (erase_first_word_by_shortcut (ip_session p))"
    using that p
    by (auto simp: follows_def drops_def in_step_def within_bounds_def erase_first_word_by_shortcut_def
      session_clear_def session_ok_def split: if_splits)
  have same: "p\<lparr>ip_session := snd (erase_first_word_by_shortcut (ip_session p))\<rparr> = p"
    if "\<not> fst (erase_first_word_by_shortcut (ip_session p))"
    using that by (auto simp: erase_first_word_by_shortcut_def split: if_splits)
  have handled: "follows q (snd (handle_session W Shortcut l
      ((fst (snd (ensure_privacy W f TriggerTyping (p, s))))\<lparr>ip_last_word_reset := r\<rparr>)))" for f s r
    by (rule drops_handled, rule drops_same, rule drops_follows [OF p], rule follows_ensure)
       (auto simp: drops_word_def follow)
  show ?thesis
    unfolding press_shortcut_def Let_def case_prod_unfold p_def [symmetric]
    by (cases "fst (erase_first_word_by_shortcut (ip_session p))")
       (auto simp: same intro!: follow erased handled)
qed

lemma space_boundary_follows [follow]:
  assumes "follows q (fst t)"
  shows "follows q (fst (space_boundary W e l t))"
proof -
  have planned: "follows q (fst (plan_conversion W e x keys u))" if "follows q (fst u)" for x keys u
    unfolding plan_conversion_def Let_def case_prod_unfold using that by (auto intro!: follow)
  show ?thesis
    unfolding space_boundary_def Let_def case_prod_unfold by (intro follow planned) (simp_all add: assms)
qed

lemma press_space_ok:
  assumes "press_space W e l (p, c, s) = Some (p', t')" "worker_ok p"
  shows "worker_ok p'"
proof -
  let ?p = "fst (space_boundary W e l (p, s))"
  have p: "worker_ok ?p" by (rule follows_ok [OF _ assms(2)]) (intro follow)
  moreover have "worker_ok (?p\<lparr>ip_deferred := d\<rparr>)" for d by (rule follows_ok [OF _ p]) (intro follow)
  ultimately show ?thesis
    using assms(1) by (auto simp: press_space_def Let_def case_prod_unfold split: if_splits dest!: execute_pending_ok)
qed

section \<open>Characters\<close>

text \<open>A key that types may add to the word: the undo is gone by then.\<close>

definition typing :: "processor \<Rightarrow> bool" where
  "typing p \<longleftrightarrow> in_step p \<and> ip_undo p = None"

lemma typing_ok: "typing p \<Longrightarrow> worker_ok p"
  by (simp add: typing_def worker_ok_def)

lemma follows_typing: "follows p p' \<Longrightarrow> typing p \<Longrightarrow> typing p'"
  by (auto simp: follows_def typing_def)

lemma cleared_typing:
  "typing p \<Longrightarrow> ip_replay_keys q = [] \<Longrightarrow> within_bounds q \<Longrightarrow> ip_undo q = None \<Longrightarrow> typing (clear_session q)"
  using clear_in_step by (auto simp: typing_def) (simp_all add: clear_session_def)

lemma erase_last_typing:
  assumes "typing p" "length (ip_replay_keys p) = length (current_word (ip_session p))"
  shows "erase_last_character (ip_session p) = (True, session) \<Longrightarrow>
      typing (p\<lparr>ip_session := session, ip_replay_keys := butlast (ip_replay_keys p)\<rparr>)"
    "erase_last_character (ip_session p) = (False, session) \<Longrightarrow> session = ip_session p"
  using assms
  by (cases "current_word (ip_session p)" rule: rev_cases;
      auto simp: typing_def in_step_def within_bounds_def erase_last_character_def session_ok_def Let_def split: if_splits)+

lemma resume_typing:
  assumes "resume_word W b f l (p, s) = (r, p', s')" "typing p"
  shows "typing p'"
proof -
  have "typing (p\<lparr>ip_session := session, ip_replay_keys := keys, ip_manual_only_word := x, ip_manual_only_inspection := y\<rparr>)"
    if "restore_word word (ip_session p) = (True, session)" "length word = length keys" for word session keys x y
    using that assms(2)
    by (auto simp: typing_def in_step_def within_bounds_def restore_word_def session_clear_def session_ok_def split: if_splits)
  moreover have "typing (p\<lparr>ip_session := session\<rparr>)"
    if "restore_word word (ip_session p) = (False, session)" for word session
    using that assms(2) by (auto simp: restore_word_def split: if_splits)
  ultimately show ?thesis
    using assms
    by (auto simp: resume_word_def Let_def split: prod.splits if_splits option.splits)
qed

lemma erase_or_resume_typing:
  assumes "erase_or_resume_word_with W previous e l (p, s) = (r, p', s')" "typing p"
  shows "typing p'"
proof -
  let ?keys = "butlast (ip_replay_keys p)"
  consider (token) "suppressed_until_boundary (ip_session p)" "ip_replay_keys p \<noteq> []"
    | (erase) "\<not> (suppressed_until_boundary (ip_session p) \<and> ip_replay_keys p \<noteq> [])" "current_word (ip_session p) \<noteq> []"
    | (resume) "\<not> (suppressed_until_boundary (ip_session p) \<and> ip_replay_keys p \<noteq> [])" "current_word (ip_session p) = []"
    by blast
  then show ?thesis
  proof cases
    case token
    have "typing (p\<lparr>ip_replay_keys := ?keys\<rparr>)"
      using token assms(2) by (auto simp: typing_def in_step_def within_bounds_def)
    moreover from this have "typing (clear_session (p\<lparr>ip_replay_keys := ?keys\<rparr>))" if "?keys = []"
      using that by (intro cleared_typing [OF assms(2)]) (auto simp: typing_def in_step_def)
    ultimately show ?thesis
      using assms token by (auto simp: erase_or_resume_word_with_def Let_def split: if_splits)
  next
    case erase
    then show ?thesis
      using assms erase_last_typing [OF assms(2)]
      by (auto simp: erase_or_resume_word_with_def Let_def split: if_splits prod.splits bool.splits)
  next
    case resume
    then show ?thesis
      using assms by (auto simp: erase_or_resume_word_with_def Let_def split: if_splits option.splits dest: resume_typing)
  qed
qed

lemma keys_kept_typing:
  assumes p: "typing p" and "buffered = length (current_word (ip_session p))"
    and event: "(\<exists>c. event = Printable c) \<or> event = Boundary \<or> event = UnsupportedInput"
    and token: "take_manual_token_keys event printable buffered p = (token, p1)"
    and handled: "handle_with_readings e U dt event l r (ip_session p) = (action, session)"
    and q: "ip_session q = session" "ip_undo q = None" "ip_remembered_words q = ip_remembered_words p"
      "ip_recent_languages q = ip_recent_languages p"
      "ip_replay_keys q = (case action of Reset _ \<Rightarrow> [] | _ \<Rightarrow> ip_replay_keys p1)"
  shows "typing (keep_key W event buffered token key q)"
proof -
  have ok: "session_ok session" "max_word_characters session = MANUAL_TOKEN_MAX_KEYS"
    using session_event_ok [of "ip_session p" e U dt event l r] session_handle_limit [of e U dt event l r "ip_session p"]
      p handled by (auto simp: typing_def in_step_def within_bounds_def)
  have p1: "ip_replay_keys p1 = (case token of None \<Rightarrow> ip_replay_keys p | Some _ \<Rightarrow> [])"
    using token by (auto simp: take_manual_token_keys_def Let_def split: if_splits)
  have bounds: "within_bounds q"
    using ok q p p1 by (auto simp: typing_def in_step_def within_bounds_def split: session_action.splits option.splits)
  have token_typing: "typing (extend_manual_token keys key q)" if "suppressed_until_boundary session" for keys
    using that bounds q by (auto simp: typing_def in_step_def within_bounds_def extend_manual_token_def split: option.split)
  consider (boundary) "event = Boundary" | (unsupported) "event = UnsupportedInput"
    | (suppressed) c where "event = Printable c" "suppressed_until_boundary (ip_session p)"
    | (letter) c where "event = Printable c" "\<not> suppressed_until_boundary (ip_session p)"
    using event by blast
  then show ?thesis
  proof cases
    case boundary
    then have "token = None" "current_word session = []"
      using token handled boundary_session(2) [of e U dt l None "ip_session p"]
      by (auto simp: take_manual_token_keys_def)
    then show ?thesis
      using boundary bounds q by (auto simp: keep_key_def starts_or_extends_def typing_def in_step_def within_bounds_def)
  next
    case unsupported
    then have "suppressed_until_boundary session" "\<exists>reason. action = Reset reason"
      using handled by (auto simp: session_reset_def)
    moreover from this have "ip_replay_keys q = []" using q by auto
    ultimately show ?thesis
      using unsupported bounds q token_typing
      by (cases token) (simp_all add: keep_key_def starts_or_extends_def typing_def in_step_def)
  next
    case suppressed
    then have "suppressed_until_boundary session" "current_word session = current_word (ip_session p)"
      using handled by (auto simp: handle_printable_def)
    then show ?thesis
      using suppressed bounds q token_typing assms(2)
      by (cases token) (simp_all add: keep_key_def starts_or_extends_def typing_def in_step_def)
  next
    case letter
    then have none: "token = None" using token by (auto simp: take_manual_token_keys_def Let_def split: if_splits)
    show ?thesis
    proof (cases "suppressed_until_boundary session")
      case True
      then have "current_word session = []"
        using handled letter by (auto simp: handle_printable_def session_reset_def Let_def split: option.splits if_splits)
      then show ?thesis
        using True letter none bounds q by (simp add: keep_key_def starts_or_extends_def typing_def in_step_def)
    next
      case False
      then have word: "current_word session = current_word (ip_session p) @ [c]" "action = NoAction"
        using handled letter by (auto simp: handle_printable_def session_reset_def Let_def split: option.splits if_splits)
      then have keys: "length (ip_replay_keys q) = buffered"
        using p p1 none q letter assms(2) by (simp add: typing_def in_step_def)
      have "length (current_word session) \<le> MANUAL_TOKEN_MAX_KEYS" using ok by (auto simp: session_ok_def)
      then have "buffered + 1 \<le> MANUAL_TOKEN_MAX_KEYS" using word assms(2) by simp
      then show ?thesis
        using letter none word keys bounds q assms(2) suppressed_in_step [OF bounds, of W]
        by (cases key) (auto simp: keep_key_def starts_or_extends_def typing_def in_step_def within_bounds_def)
    qed
  qed
qed

lemma type_character_typing:
  assumes "typing p"
  shows "typing (fst (type_character W e l (p, s)))"
proof -
  obtain printable u where tr: "ww_translate W e (ip_modifiers p) s = (printable, u)" by fastforce
  define key where "key = replay_key_from_event e (ip_modifiers p)"
  obtain readings v where rd: "readings_of_key W p printable l key u = (readings, v)" by fastforce
  define event where "event = input_event_of W p printable l readings"
  define buffered where "buffered = length (current_word (ip_session p))"
  obtain token p1 where tk: "take_manual_token_keys event (printable \<noteq> None) buffered p = (token, p1)" by fastforce
  let ?p = "mark_word event buffered p1"
  obtain action session where hd: "handle_with_readings (ww_exp W) (ww_unicode W) (ip_detector p) event l readings
      (ip_session p) = (action, session)" by fastforce
  have same: "ip_session ?p = ip_session p" "ip_detector ?p = ip_detector p" "ip_undo ?p = ip_undo p"
    "ip_remembered_words ?p = ip_remembered_words p" "ip_recent_languages ?p = ip_recent_languages p"
    "ip_replay_keys ?p = ip_replay_keys p1"
    using tk by (auto simp: mark_word_def take_manual_token_keys_def Let_def split: if_splits)
  let ?q = "fst (settle_action W action (?p\<lparr>ip_session := session\<rparr>, v))"
  have "fst (type_character W e l (p, s)) = keep_key W event buffered token key ?q"
    using tr rd tk hd same by (simp add: type_character_def Let_def case_prod_unfold key_def event_def buffered_def)
  moreover have "typing (keep_key W event buffered token key ?q)"
  proof (rule keys_kept_typing [OF assms _ _ tk hd])
    show "(\<exists>c. event = Printable c) \<or> event = Boundary \<or> event = UnsupportedInput"
      by (auto simp: event_def input_event_of_def split: option.splits)
    show "ip_undo ?q = None" using same assms by (auto simp: settle_action_def typing_def split: session_action.split)
  qed (use same in \<open>auto simp: settle_action_def buffered_def split: session_action.split\<close>)
  ultimately show ?thesis by simp
qed

section \<open>One key edge\<close>

lemma press_plain_key_ok:
  assumes "press_plain_key W previous e l (p, c, s) = Some (p', t')" "typing p"
  shows "worker_ok p'"
proof -
  have backspace: "worker_ok (fst (press_backspace W previous e l (p, s)))"
  proof -
    obtain edited p1 s1 where er: "erase_or_resume_word_with W previous e l (p, s) = (edited, p1, s1)" by (metis surj_pair)
    have ruled: "worker_ok (handle_switching_rule W Backspace l b (q\<lparr>ip_last_word_reset := r, ip_replay_keys := []\<rparr>))"
      if "typing q" for q b r
      by (rule follows_ok [OF _ typing_ok [OF that]], rule switching_rule_follows,
          rule drops_same [OF drops_keys [OF follows_refl]]) (simp_all add: drops_word_def)
    show ?thesis
      using er erase_or_resume_typing [OF er assms(2)] assms(2) ruled
      by (simp add: press_backspace_def Let_def typing_ok case_prod_unfold)
  qed
  have character: "worker_ok (fst (press_character W e l (p, s)))"
  proof -
    obtain passed p1 s1 where en: "ensure_privacy W (ke_foreground e) TriggerTyping (p, s) = (passed, p1, s1)"
      by (metis surj_pair)
    have "follows p (fst (snd (ensure_privacy W (ke_foreground e) TriggerTyping (p, s))))" by (intro follow)
    then have t: "typing p1" using assms(2) by (simp add: en follows_typing)
    have "worker_ok (suppress_session W (p1\<lparr>ip_last_word_reset := WordPrivacy\<rparr>))"
      by (rule follows_ok [OF _ typing_ok [OF t]]) (intro follow)
    then show ?thesis
      using typing_ok [OF type_character_typing [OF t, of W e l]]
      by (simp add: press_character_def en Let_def case_prod_unfold)
  qed
  have followed: "worker_ok q" if "follows p q" for q using that typing_ok [OF assms(2)] by (rule follows_ok)
  have "worker_ok (press_delete W l p)" "worker_ok (fst (navigate W l b (p, s)))" "worker_ok (fst (end_of_field W l b (p, s)))" for b
    by (rule followed, intro follow)+
  then show ?thesis
    using assms(1) backspace character
    by (auto simp: press_plain_key_def Let_def case_prod_unfold split: if_splits
      dest: press_space_ok [OF _ typing_ok [OF assms(2)]])
qed

lemma press_key_ok:
  assumes "press_key W e l (p, c, s) = Some (p', t')" "worker_ok p"
  shows "worker_ok p'"
proof -
  let ?remembered = "if has_shortcut_modifier (ip_modifiers p)
    then remember_word (ke_foreground e) (Some (fc_layout (ke_foreground e))) (fst (ww_now W s)) p else p"
  have "follows p ?remembered" by (intro follow)
  then have in_step: "in_step ?remembered" using assms(2) by (auto simp: follows_def worker_ok_def)
  have typing: "typing (?remembered\<lparr>ip_undo := None, ip_last_boundary := None, ip_transpose_cycle := None\<rparr>)"
    "typing (?remembered\<lparr>ip_undo := None, ip_last_boundary := None, ip_transpose_cycle := None, ip_pending := None,
       ip_deferred := None\<rparr>)"
    using in_step by (auto simp: typing_def in_step_def within_bounds_def)
  have shortcut: "worker_ok (fst (press_shortcut W e l (q, u)))" if "typing q" for q u
    by (rule follows_ok [OF _ typing_ok [OF that]]) (intro follow)
  show ?thesis
    using assms(1) typing typing_ok shortcut
    by (cases "has_shortcut_modifier (ip_modifiers p)")
       (auto simp: press_key_def Let_def case_prod_unfold split: if_splits dest: press_plain_key_ok)
qed

lemma press_hotkey_ok:
  assumes "press_hotkey W e (p, c, s) = Some (p', t')" "worker_ok p"
  shows "worker_ok p'"
  using assms
  by (auto simp: press_hotkey_def Let_def case_prod_unfold split: option.splits if_splits
    dest: forced_conversion_ok execute_undo_ok)

lemma process_key_ok:
  assumes "process_key W e (p, c, s) = Some (p', t')" "worker_ok p"
  shows "worker_ok p'"
proof -
  let ?t = "refresh_profiles_outside_gate W (p, s)"
  let ?l = "language_for_layout W (fst ?t) (fc_layout (ke_foreground e)) (snd ?t)"
  let ?p = "fst (follow_target W (ke_foreground e) (fst ?l) (fst ?t, snd ?l))"
  have p: "worker_ok ?p" by (rule follows_ok [OF _ assms(2)]) (intro follow)
  have "worker_ok (snd (track_modifiers e d u ?p))" for d u
    by (rule follows_ok [OF _ p]) (auto simp: track_modifiers_def Let_def case_prod_unfold intro!: follow)
  then show ?thesis
    using assms(1) p
    by (auto simp: process_key_def Let_def case_prod_unfold split: if_splits dest: press_hotkey_ok press_key_ok)
qed

section \<open>One event\<close>

lemma follows_forget [follow]:
  assumes "follows q (fst t)"
  shows "follows q (fst (forget_word W t))"
proof -
  have "in_step (fst (forget_word W t))" if "within_bounds (fst t)"
    using that by (auto simp: forget_word_def case_prod_unfold Let_def in_step_def within_bounds_def clear_session_def
      session_clear_def session_ok_def)
  moreover have "ip_undo (fst (forget_word W t)) = None" "ip_replay_keys (fst (forget_word W t)) = []"
    by (simp_all add: forget_word_def case_prod_unfold Let_def clear_session_def)
  ultimately show ?thesis using assms by (auto simp: follows_def in_step_def)
qed

lemma follows_reload [follow]:
  assumes "follows q (fst t)"
  shows "follows q (fst (apply_configuration_reload W c t))"
proof -
  have configured: "follows q (p\<lparr>ip_detector := d, ip_recent_languages := [], ip_exclusion_policy := x,
      ip_backend_rules := y, ip_settings := st, ip_session := (ip_session p)\<lparr>recheck_first_word_after_erasing := b\<rparr>\<rparr>)"
    (is "follows q ?p") if "follows q p" for p d x y st b
  proof (rule follows_trans [OF that])
    have "session_ok (x\<lparr>recheck_first_word_after_erasing := b\<rparr>) = session_ok x" for x
      by (cases "backspace_remaining x") (simp_all add: session_ok_def)
    then have "within_bounds p \<Longrightarrow> within_bounds ?p" by (simp add: within_bounds_def)
    then show "follows p ?p" by (simp add: follows_def in_step_def)
  qed
  show ?thesis
    unfolding apply_configuration_reload_def install_configuration_def Let_def case_prod_unfold
    by (intro follow configured) (simp_all add: assms)
qed

lemma follows_reload_configuration [follow]:
  "follows q (fst t) \<Longrightarrow> follows q (fst (reload_configuration W reload t))"
  "follows q (fst t) \<Longrightarrow> follows q (fst (reject_faulted_configuration W t))"
  unfolding reload_configuration_def reject_faulted_configuration_def Let_def case_prod_unfold
  by (intro follow; simp)+

lemma follows_reset [follow]:
  assumes "follows q (fst t)"
  shows "follows q (fst (reset_for_epoch W epoch t))"
proof -
  have overflow: "follows q (snd (handle_session W QueueOverflow None p)\<lparr>ip_replay_keys := []\<rparr>)"
    and cleared: "follows q ((clear_session p)\<lparr>ip_replay_keys := []\<rparr>)" if "follows q p" for p
  proof -
    have "snd (handle_session W QueueOverflow None p)\<lparr>ip_replay_keys := []\<rparr>
        = snd (handle_session W QueueOverflow None (p\<lparr>ip_replay_keys := []\<rparr>))"
      "(clear_session p)\<lparr>ip_replay_keys := []\<rparr> = clear_session (p\<lparr>ip_replay_keys := []\<rparr>)"
      by (simp_all add: handle_session_def clear_session_def case_prod_unfold Let_def)
    then show "follows q (snd (handle_session W QueueOverflow None p)\<lparr>ip_replay_keys := []\<rparr>)"
      "follows q ((clear_session p)\<lparr>ip_replay_keys := []\<rparr>)"
      by (simp_all add: drops_handled [OF drops_keys [OF that]] drops_word_def)
  qed
  have "follows q ((if b then snd (handle_session W QueueOverflow None p)
      else if ip_recovered_mid_word p then snd (handle_session W QueueOverflow None (p\<lparr>ip_recovered_mid_word := False\<rparr>))
      else clear_session p)\<lparr>ip_replay_keys := [], ip_modifiers := m, ip_resync_modifiers := x\<rparr>)" if "follows q p" for b p m x
    using that overflow [of p] overflow [of "p\<lparr>ip_recovered_mid_word := False\<rparr>"] cleared [of p]
    by (simp add: follows_unchanged)
  note emptied = this
  show ?thesis
    unfolding reset_for_epoch_def Let_def case_prod_unfold
    by (intro follow emptied) (simp_all add: assms)
qed

lemma follows_resume [follow]: "follows q (fst t) \<Longrightarrow> follows q (fst (resume_after_recovered_abort W now t))"
  unfolding resume_after_recovered_abort_def Let_def case_prod_unfold by (intro follow) simp_all

lemma follows_recovery [follow]:
  "follows q (fst t) \<Longrightarrow> follows q (fst (finish_recovery W explicit sent requested t))"
  "follows q (fst t) \<Longrightarrow> follows q (fst (send_recovery W r sequence explicit t))"
  unfolding send_recovery_def finish_recovery_def Let_def case_prod_unfold by (intro follow; simp)+

lemma recover_ok:
  assumes "recover_retained_input W q x (p, s) = Some (p', s')" "worker_ok p"
  shows "worker_ok p'"
proof -
  let ?checked = "\<lambda>f u. snd (ensure_privacy W f TriggerRecovery (p\<lparr>ip_privacy_needs_check := True\<rparr>, u))"
  have checked: "follows p (fst (?checked f u))" for f u by (intro follow)
  have sent: "follows p (fst (send_recovery W r q x (?checked f u)))" for r f u by (intro follow checked)
  have "follows p p'"
    using assms(1)
    by (auto simp: recover_retained_input_def Let_def case_prod_unfold follows_refl split: option.splits if_splits
      dest!: follows_run [OF _ sent] follows_run [OF _ checked])
  then show ?thesis using assms(2) by (rule follows_ok)
qed

lemma gate_drain_ok:
  assumes "process_gate_drain_ready W token n ok (p, c, s) = Some (p', t')" "worker_ok p"
  shows "worker_ok p'"
proof -
  have followed: "worker_ok q" if "follows p q" for q using that assms(2) by (rule follows_ok)
  have "worker_ok (fst (invalidate_conversion_state W (p, u)))" "worker_ok (p\<lparr>ip_deferred := None\<rparr>)"
    "worker_ok (p\<lparr>ip_deferred := None, ip_pending := None\<rparr>)" for u
    by (rule followed, intro follow)+
  then show ?thesis
    using assms
    by (auto simp: process_gate_drain_ready_def Let_def case_prod_unfold split: if_splits option.splits
      dest: execute_pending_ok)
qed

lemma process_input_ok:
  assumes "process_input W event (p, c, s) = Some (p', t')" "worker_ok p"
  shows "worker_ok p'"
proof -
  have followed: "worker_ok q" if "follows p q" for q using that assms(2) by (rule follows_ok)
  have mouse: "follows p (fst (press_mouse W (p, u)))" for u
  proof -
    have handled: "follows q (snd (handle_session W Mouse None
        (x\<lparr>ip_replay_keys := [], ip_last_boundary := None, ip_transpose_cycle := None\<rparr>)))" if "follows q x" for q x
      by (rule drops_handled, rule drops_same [OF drops_keys [OF that]]) (simp_all add: drops_word_def)
    show ?thesis unfolding press_mouse_def Let_def case_prod_unfold by (intro follow handled)
  qed
  have external: "follows p (fst (see_external_input W (p, u)))" for u
    unfolding see_external_input_def Let_def case_prod_unfold by (intro follow)
  have privacy: "follows p (fst (refresh_privacy W f (p, u)))" for f u
    unfolding refresh_privacy_def Let_def case_prod_unfold by (intro follow)
  have "follows p (fst (forget_word W (p, u)))" "follows p (fst (refresh_profiles_outside_gate W (p, u)))" for u
    by (intro follow)+
  then show ?thesis
    using assms mouse external privacy followed
    by (cases event) (auto simp: process_input_def Let_def case_prod_unfold split: if_splits
      dest: process_key_ok [OF _ assms(2)])
qed

lemma process_event_ok:
  assumes "process_event W q (p, c, s) = Some (p', t')" "worker_ok p"
  shows "worker_ok p'"
proof -
  have met: "worker_ok (fst (meet_epoch W epoch (p, u)))" for epoch u
    by (rule follows_ok [OF _ assms(2)]) (auto simp: meet_epoch_def intro!: follow)
  have recovered: "worker_ok p'" if "recover_retained_input W i x (meet_epoch W epoch (p, u)) = Some (p', v)" for i x epoch u v
    using that met [of epoch u] recover_ok by (metis prod.collapse)
  have queued: "worker_ok p'" if "process_queued W q (p, c, u) = Some (p', t')" for u
    using that met
    by (cases "we_event q")
       (auto simp: process_queued_def Let_def case_prod_unfold split: if_splits
         dest: process_input_ok [OF _ met] gate_drain_ok [OF _ met] recovered)
  have followed: "worker_ok x" if "follows p x" for x using that assms(2) by (rule follows_ok)
  have "follows p (fst (reload_configuration W r (p, u)))" "follows p (fst (resume_after_recovered_abort W now (p, u)))"
    "follows p (fst (finish_recovery W b m n (p, u)))" for r u now b m n
    by (intro follow)+
  then show ?thesis
    using assms(1) queued followed
    by (cases "we_event q") (auto simp: process_event_def Let_def case_prod_unfold)
qed

lemma process_ok:
  assumes "process W q (p, t) = Some (p', t')" "worker_ok p"
  shows "worker_ok p'"
proof -
  have "worker_ok (fst (request_gate_release W token (x, u)))" if "worker_ok x" for token x u
    by (rule follows_ok [OF _ that]) (intro follow)
  then show ?thesis
    using assms by (auto simp: process_def Let_def case_prod_unfold split: option.splits if_splits dest!: process_event_ok)
qed

lemma process_all_ok: "process_all W qs t = Some t' \<Longrightarrow> worker_ok (fst t) \<Longrightarrow> worker_ok (fst t')"
  by (induction qs arbitrary: t) (auto simp: bind_eq_Some_conv dest: process_ok)

lemma processor_new_ok: "worker_ok (processor_new window c facts)"
  by (simp add: worker_ok_def in_step_def within_bounds_def processor_new_def input_session_default_def session_ok_def
    one_per_target_def DEFAULT_MAX_WORD_CHARACTERS_def MANUAL_TOKEN_MAX_KEYS_def)



end
