(* ===== verification/Configuration_Document.thy ===== *)
theory Configuration_Document
  imports Settings User_Lexicon Backend_Rules Input_Profile
begin

text \<open>
  \<open>src/configuration.rs\<close>: the configuration document that the agent and the settings window share, its text,
  and the readers of the files of older versions. The rows of a list are stored in the order of a
  \<open>BTreeSet<String>\<close>, which is the lexicographic order of their characters. Of \<open>src/localization.rs\<close> only the
  preference for a user-interface language is here, with the check of its locale.
\<close>

section \<open>The user-interface language\<close>

datatype ui_language_preference = UiLanguage (as_config: ustr)

text \<open>\<open>None\<close> is the error \<open>InvalidLocale\<close>, the only one.\<close>

definition normalize_locale :: "ustr \<Rightarrow> ustr option" where
  "normalize_locale locale =
     (if locale = [] \<or> 63 < byte_len locale \<or> list_ex (\<lambda>c. 128 \<le> c) locale then None
      else
        let parts = split_on (\<lambda>c. c = 0x2D) locale; base = hd parts
        in if \<not> (2 \<le> length base \<and> length base \<le> 8) \<or> \<not> list_all is_ascii_alphabetic base then None
           else if list_ex (\<lambda>p. p = [] \<or> 8 < length p \<or> \<not> list_all is_ascii_alphanumeric p) (tl parts) then None
           else Some (ascii_lower locale))"

definition ui_language_default :: ui_language_preference where
  "ui_language_default = UiLanguage (lit ''system'')"

definition ui_from_config :: "ustr \<Rightarrow> ui_language_preference" where
  "ui_from_config given =
     (let v = trim given in
      if v = [] \<or> eq_ignore_ascii_case v (lit ''system'') then ui_language_default
      else UiLanguage (case normalize_locale v of Some l \<Rightarrow> l | None \<Rightarrow> lit ''en''))"

section \<open>The document\<close>

datatype package_mode = ModeLegacy | ModeManaged

definition mode_as_config :: "package_mode \<Rightarrow> ustr" where
  "mode_as_config m = (case m of ModeLegacy \<Rightarrow> lit ''legacy'' | ModeManaged \<Rightarrow> lit ''managed'')"

record configuration_error =
  cf_file :: "ustr option"
  cf_line :: "nat option"
  cf_message :: ustr

definition error_at :: "nat \<Rightarrow> ustr \<Rightarrow> configuration_error" where
  "error_at n m = \<lparr>cf_file = None, cf_line = Some n, cf_message = m\<rparr>"

definition error_global :: "ustr \<Rightarrow> configuration_error" where
  "error_global m = \<lparr>cf_file = None, cf_line = None, cf_message = m\<rparr>"

definition error_in_file :: "string \<Rightarrow> configuration_error \<Rightarrow> configuration_error" where
  "error_in_file file e = e\<lparr>cf_file := Some (lit file)\<rparr>"

record configuration_document =
  cd_package_mode :: package_mode
  cd_settings :: settings
  cd_input_profiles :: input_profile_selections
  cd_ui_language :: ui_language_preference
  cd_user_dictionary :: "ustr list"
  cd_word_exclusions :: "ustr list"
  cd_process_exclusions :: "ustr list"
  cd_backend_rules :: backend_rules

text \<open>The built-in rules parse; the fallback is what the source would panic on.\<close>

definition backend_rules_default :: "unicode \<Rightarrow> backend_rules" where
  "backend_rules_default U =
     (case rules_from_lines U built_in_rules of
        Inr r \<Rightarrow> r | Inl _ \<Rightarrow> \<lparr>br_exact = [], br_fallback = CapabilityProbe\<rparr>)"

definition document_default :: "unicode \<Rightarrow> configuration_document" where
  "document_default U =
     \<lparr>cd_package_mode = ModeLegacy, cd_settings = settings_default, cd_input_profiles = [],
      cd_ui_language = ui_language_default, cd_user_dictionary = [], cd_word_exclusions = [],
      cd_process_exclusions = [], cd_backend_rules = backend_rules_default U\<rparr>"

definition english_only_managed :: "unicode \<Rightarrow> configuration_document" where
  "english_only_managed U =
     (document_default U)\<lparr>cd_package_mode := ModeManaged,
        cd_settings := settings_default\<lparr>st_enabled_input_packs := {English}\<rparr>\<rparr>"

section \<open>Rows of the lists\<close>

definition trim_end :: "ustr \<Rightarrow> ustr" where
  "trim_end s = rev (dropWhile is_whitespace (rev s))"

text \<open>The stored form of a dictionary or word-exclusion row.\<close>

definition lexicon_form :: "unicode \<Rightarrow> ustr \<Rightarrow> ustr option" where
  "lexicon_form U line =
     (case normalize_pack_entry U line of
        None \<Rightarrow> None
      | Some (l, word) \<Rightarrow> map_option trim_end (format_pack_entry U l word))"

definition lexicon_entry :: "unicode \<Rightarrow> nat \<Rightarrow> ustr \<Rightarrow> configuration_error + ustr" where
  "lexicon_entry U n line =
     (case lexicon_form U line of
        Some entry \<Rightarrow> Inr entry
      | None \<Rightarrow> Inl (error_at n (lit ''expected a language, a colon and one word, for example en-US: firefox'')))"

definition process_name_reads_back :: "ustr \<Rightarrow> bool" where
  "process_name_reads_back name \<longleftrightarrow>
     \<not> starts_with name 0x23 \<and> \<not> (starts_with name 0x5B \<and> name \<noteq> [] \<and> last name = 0x5D)"

definition process_entry :: "unicode \<Rightarrow> nat \<Rightarrow> ustr \<Rightarrow> configuration_error + ustr" where
  "process_entry U n line =
     (case normalize_executable_name U line of
        None \<Rightarrow> Inl (error_at n (lit ''expected one executable name or path''))
      | Some name \<Rightarrow>
          if process_name_reads_back name then Inr name
          else Inl (error_at n (lit ''a program name cannot start with # or be in square brackets'')))"

text \<open>The rows one after the other, up to the first error; a set, in order.\<close>

fun try_rows :: "(nat \<Rightarrow> ustr \<Rightarrow> configuration_error + 'a) \<Rightarrow> (nat \<times> ustr) list \<Rightarrow> configuration_error + 'a list" where
  "try_rows f [] = Inr []"
| "try_rows f ((n, line) # rows) =
     (case f n line of
        Inl e \<Rightarrow> Inl e
      | Inr x \<Rightarrow> (case try_rows f rows of Inl e \<Rightarrow> Inl e | Inr xs \<Rightarrow> Inr (x # xs)))"

definition ordered_set :: "ustr list \<Rightarrow> ustr list" where
  "ordered_set xs = sorted_list_of_set (set xs)"

definition canonical_lexicon_entries :: "unicode \<Rightarrow> (nat \<times> ustr) list \<Rightarrow> configuration_error + ustr list" where
  "canonical_lexicon_entries U rows = map_sum id ordered_set (try_rows (lexicon_entry U) rows)"

definition canonical_process_entries :: "unicode \<Rightarrow> (nat \<times> ustr) list \<Rightarrow> configuration_error + ustr list" where
  "canonical_process_entries U rows = map_sum id ordered_set (try_rows (process_entry U) rows)"

definition is_row :: "ustr \<Rightarrow> bool" where
  "is_row line \<longleftrightarrow> trim line \<noteq> [] \<and> \<not> starts_with (trim line) 0x23"

definition canonical_lexicon_entries_lossy :: "unicode \<Rightarrow> ustr \<Rightarrow> ustr list" where
  "canonical_lexicon_entries_lossy U s = ordered_set (List.map_filter (lexicon_form U) (filter is_row (str_lines s)))"

definition canonical_process_entries_lossy :: "unicode \<Rightarrow> ustr \<Rightarrow> ustr list" where
  "canonical_process_entries_lossy U s =
     ordered_set (filter process_name_reads_back
       (List.map_filter (normalize_executable_name U) (filter is_row (str_lines s))))"

section \<open>Validation\<close>

text \<open>What makes a document with canonical lists invalid.\<close>

definition document_fault :: "configuration_document \<Rightarrow> configuration_error option" where
  "document_fault d =
     (if 64 < card (st_enabled_input_packs (cd_settings d))
      then Some (error_global (lit ''too many input pack selections''))
      else case hotkey_new (st_force_hotkey_virtual_key (cd_settings d)) (st_force_hotkey_modifiers (cd_settings d)) of
        Inl e \<Rightarrow> Some (error_global (lit ''invalid force hotkey: '' @ e))
      | Inr _ \<Rightarrow>
          map_option (\<lambda>e. error_global (lit ''the same entry cannot be both a user word and an exclusion: '' @ e))
            (find (\<lambda>e. e \<in> set (cd_user_dictionary d)) (cd_word_exclusions d)))"

text \<open>The document is changed in place up to the first error.\<close>

definition canonicalize_and_validate ::
  "unicode \<Rightarrow> configuration_document \<Rightarrow> configuration_error option \<times> configuration_document" where
  "canonicalize_and_validate U d =
     (case canonical_lexicon_entries U (enumerate 1 (cd_user_dictionary d)) of
        Inl e \<Rightarrow> (Some e, d)
      | Inr words \<Rightarrow>
          let d = d\<lparr>cd_user_dictionary := words\<rparr> in
          case canonical_lexicon_entries U (enumerate 1 (cd_word_exclusions d)) of
            Inl e \<Rightarrow> (Some e, d)
          | Inr excluded \<Rightarrow>
              let d = d\<lparr>cd_word_exclusions := excluded\<rparr> in
              case canonical_process_entries U (enumerate 1 (cd_process_exclusions d)) of
                Inl e \<Rightarrow> (Some e, d)
              | Inr names \<Rightarrow>
                  let d = d\<lparr>cd_process_exclusions := names\<rparr> in (document_fault d, d))"

section \<open>Reading a document\<close>

datatype config_section =
  SecPackages | SecSettings | SecInputProfiles | SecUserDictionary | SecWordExclusions | SecProcessExclusions
  | SecBackendRules

record document_state =
  ds_schema :: "nat option"
  ds_section :: "config_section option"
  ds_settings :: ustr
  ds_settings_lines :: "nat list"
  ds_ui_language :: ui_language_preference
  ds_ui_language_seen :: bool
  ds_user_dictionary :: "(nat \<times> ustr) list"
  ds_word_exclusions :: "(nat \<times> ustr) list"
  ds_process_exclusions :: "(nat \<times> ustr) list"
  ds_backend_rules :: "ustr list"
  ds_backend_lines :: "nat list"
  ds_backend_seen :: bool
  ds_profiles_seen :: bool
  ds_input_profiles :: "(ustr \<times> ustr) list"
  ds_packages_seen :: bool
  ds_package_mode :: "package_mode option"

definition document_start :: document_state where
  "document_start =
     \<lparr>ds_schema = None, ds_section = None, ds_settings = [], ds_settings_lines = [],
      ds_ui_language = ui_language_default, ds_ui_language_seen = False, ds_user_dictionary = [],
      ds_word_exclusions = [], ds_process_exclusions = [], ds_backend_rules = [], ds_backend_lines = [],
      ds_backend_seen = False, ds_profiles_seen = False, ds_input_profiles = [], ds_packages_seen = False,
      ds_package_mode = None\<rparr>"

text \<open>The name between the brackets of a section line.\<close>

definition section_name :: "ustr \<Rightarrow> ustr option" where
  "section_name line = Option.bind (strip_prefix [0x5B] line) (strip_suffix_char 0x5D)"

definition enter_section :: "nat \<Rightarrow> ustr \<Rightarrow> document_state \<Rightarrow> configuration_error + document_state" where
  "enter_section n name st =
     (let key = ascii_lower (trim name); go = (\<lambda>x st. Inr (st\<lparr>ds_section := Some x\<rparr>)) in
      if key = lit ''packages''
      then if ds_packages_seen st then Inl (error_at n (lit ''duplicate packages section''))
           else go SecPackages (st\<lparr>ds_packages_seen := True\<rparr>)
      else if key = lit ''settings'' then go SecSettings st
      else if key = lit ''input_profiles''
      then if ds_profiles_seen st then Inl (error_at n (lit ''duplicate input_profiles section''))
           else go SecInputProfiles (st\<lparr>ds_profiles_seen := True\<rparr>)
      else if key = lit ''user_dictionary'' then go SecUserDictionary st
      else if key = lit ''word_exclusions'' then go SecWordExclusions st
      else if key = lit ''process_exclusions'' then go SecProcessExclusions st
      else if key = lit ''backend_rules'' then go SecBackendRules (st\<lparr>ds_backend_seen := True\<rparr>)
      else Inl (error_at n (lit ''unknown section'')))"

text \<open>\<open>u32::from_str\<close>.\<close>

definition parse_u32 :: "ustr \<Rightarrow> nat option" where
  "parse_u32 s =
     (let d = (case s of c # t \<Rightarrow> if c = 0x2B then t else s | [] \<Rightarrow> s)
      in if d = [] then None
         else case digits_value 0 d of
           Some n \<Rightarrow> if n < 2 ^ 32 then Some n else None
         | None \<Rightarrow> None)"

definition schema_row :: "nat \<Rightarrow> ustr \<Rightarrow> document_state \<Rightarrow> configuration_error + document_state" where
  "schema_row n line st =
     (case split_once 0x3D line of
        None \<Rightarrow> Inl (error_at n (lit ''expected schema_version before the first section''))
      | Some (key, given) \<Rightarrow>
          if trim key \<noteq> lit ''schema_version'' \<or> ds_schema st \<noteq> None
          then Inl (error_at n (lit ''only one schema_version is allowed before sections''))
          else case parse_u32 (trim given) of
            None \<Rightarrow> Inl (error_at n (lit ''invalid schema version''))
          | Some v \<Rightarrow> Inr (st\<lparr>ds_schema := Some v\<rparr>))"

definition packages_row :: "nat \<Rightarrow> ustr \<Rightarrow> document_state \<Rightarrow> configuration_error + document_state" where
  "packages_row n line st =
     (case split_once 0x3D line of
        None \<Rightarrow> Inl (error_at n (lit ''expected mode=legacy or mode=managed''))
      | Some (key, given) \<Rightarrow>
          if trim key \<noteq> lit ''mode'' \<or> ds_package_mode st \<noteq> None
          then Inl (error_at n (lit ''only one package mode is allowed''))
          else if trim given = lit ''legacy'' then Inr (st\<lparr>ds_package_mode := Some ModeLegacy\<rparr>)
          else if trim given = lit ''managed'' then Inr (st\<lparr>ds_package_mode := Some ModeManaged\<rparr>)
          else Inl (error_at n (lit ''invalid package mode'')))"

definition profiles_row :: "nat \<Rightarrow> ustr \<Rightarrow> document_state \<Rightarrow> configuration_error + document_state" where
  "profiles_row n line st =
     (if 64 \<le> length (ds_input_profiles st) then Inl (error_at n (lit ''too many input profile selections''))
      else case split_once 0x3D line of
        None \<Rightarrow> Inl (error_at n (lit ''expected pack-id=LANGID:KLID''))
      | Some (l, profile) \<Rightarrow>
          Inr (st\<lparr>ds_input_profiles := ds_input_profiles st @ [(trim l, trim profile)]\<rparr>))"

definition settings_row :: "nat \<Rightarrow> ustr \<Rightarrow> document_state \<Rightarrow> configuration_error + document_state" where
  "settings_row n line st =
     (let keep = (\<lambda>st. Inr (st\<lparr>ds_settings := ds_settings st @ line @ [10],
            ds_settings_lines := ds_settings_lines st @ [n]\<rparr>))
      in case split_once 0x3D line of
        None \<Rightarrow> keep st
      | Some (key, given) \<Rightarrow>
          if \<not> eq_ignore_ascii_case (trim key) (lit ''ui_language'') then keep st
          else if ds_ui_language_seen st then Inl (error_at n (lit ''duplicate setting''))
          else keep (st\<lparr>ds_ui_language_seen := True, ds_ui_language := ui_from_config given\<rparr>))"

definition section_row ::
  "config_section \<Rightarrow> nat \<Rightarrow> ustr \<Rightarrow> document_state \<Rightarrow> configuration_error + document_state" where
  "section_row x n line st =
     (case x of
        SecPackages \<Rightarrow> packages_row n line st
      | SecInputProfiles \<Rightarrow> profiles_row n line st
      | SecSettings \<Rightarrow> settings_row n line st
      | SecUserDictionary \<Rightarrow> Inr (st\<lparr>ds_user_dictionary := ds_user_dictionary st @ [(n, line)]\<rparr>)
      | SecWordExclusions \<Rightarrow> Inr (st\<lparr>ds_word_exclusions := ds_word_exclusions st @ [(n, line)]\<rparr>)
      | SecProcessExclusions \<Rightarrow> Inr (st\<lparr>ds_process_exclusions := ds_process_exclusions st @ [(n, line)]\<rparr>)
      | SecBackendRules \<Rightarrow> Inr (st\<lparr>ds_backend_rules := ds_backend_rules st @ [line],
            ds_backend_lines := ds_backend_lines st @ [n]\<rparr>))"

definition document_row :: "nat \<Rightarrow> ustr \<Rightarrow> document_state \<Rightarrow> configuration_error + document_state" where
  "document_row n raw st =
     (let line = trim raw in
      if \<not> is_row raw then Inr st
      else case section_name line of
        Some name \<Rightarrow> enter_section n name st
      | None \<Rightarrow>
          (case ds_section st of
             None \<Rightarrow> schema_row n line st
           | Some x \<Rightarrow> section_row x n line st))"

fun document_rows :: "nat \<Rightarrow> ustr list \<Rightarrow> document_state \<Rightarrow> configuration_error + document_state" where
  "document_rows n [] st = Inr st"
| "document_rows n (raw # rows) st =
     (case document_row n raw st of Inl e \<Rightarrow> Inl e | Inr st \<Rightarrow> document_rows (n + 1) rows st)"

definition CONFIGURATION_SCHEMA_VERSION :: nat where [consts_def]: "CONFIGURATION_SCHEMA_VERSION = 4"

definition schema_fault :: "document_state \<Rightarrow> configuration_error option" where
  "schema_fault st =
     (case ds_schema st of
        None \<Rightarrow> Some (error_global (lit ''schema_version is missing''))
      | Some v \<Rightarrow>
          if \<not> (1 \<le> v \<and> v \<le> CONFIGURATION_SCHEMA_VERSION)
          then Some (error_global (lit ''unsupported schema_version '' @ decimal v @ lit ''; expected ''
                 @ decimal CONFIGURATION_SCHEMA_VERSION))
          else if ds_profiles_seen st \<and> v < 3 then Some (error_global (lit ''input_profiles requires schema_version 3''))
          else if ds_packages_seen st \<and> v < 4 then Some (error_global (lit ''packages requires schema_version 4''))
          else if 4 \<le> v \<and> ds_package_mode st = None
          then Some (error_global (lit ''schema_version 4 requires an explicit package mode''))
          else None)"

definition selection_error_text :: "profile_selection_error \<Rightarrow> ustr" where
  "selection_error_text e =
     (case e of
        InvalidPackId \<Rightarrow> lit ''InvalidPackId'' | InvalidProfile \<Rightarrow> lit ''InvalidProfile''
      | DuplicatePackId \<Rightarrow> lit ''DuplicatePackId'' | SelectionLimitExceeded \<Rightarrow> lit ''LimitExceeded'')"

text \<open>The parts of the document, in the order their errors are found; an error of the settings or the rules is
  moved to the line of the document it came from.\<close>

definition document_of :: "unicode \<Rightarrow> document_state \<Rightarrow> configuration_error + configuration_document" where
  "document_of U st =
     (case selections_parse (ds_input_profiles st) of
        Inl e \<Rightarrow> Inl (error_global (lit ''invalid input profile selections: '' @ selection_error_text e))
      | Inr profiles \<Rightarrow>
      case settings_try_from_text (ds_settings st) of
        Inl e \<Rightarrow> Inl (error_at (ds_settings_lines st ! (se_line e - 1)) (se_message e))
      | Inr s \<Rightarrow>
      case canonical_lexicon_entries U (ds_user_dictionary st) of Inl e \<Rightarrow> Inl e | Inr words \<Rightarrow>
      case canonical_lexicon_entries U (ds_word_exclusions st) of Inl e \<Rightarrow> Inl e | Inr excluded \<Rightarrow>
      case canonical_process_entries U (ds_process_exclusions st) of Inl e \<Rightarrow> Inl e | Inr names \<Rightarrow>
      case (if ds_backend_seen st then rules_from_lines U (ds_backend_rules st) else Inr (backend_rules_default U)) of
        Inl e \<Rightarrow> Inl (error_at (ds_backend_lines st ! (re_line e - 1)) (re_message e))
      | Inr rules \<Rightarrow>
          Inr \<lparr>cd_package_mode = (case ds_package_mode st of Some m \<Rightarrow> m | None \<Rightarrow> ModeLegacy),
               cd_settings = s, cd_input_profiles = profiles, cd_ui_language = ds_ui_language st,
               cd_user_dictionary = words, cd_word_exclusions = excluded, cd_process_exclusions = names,
               cd_backend_rules = rules\<rparr>)"

definition without_byte_order_mark :: "ustr \<Rightarrow> ustr" where
  "without_byte_order_mark s = (case strip_prefix [0xFEFF] s of Some t \<Rightarrow> t | None \<Rightarrow> s)"

definition document_from_text :: "unicode \<Rightarrow> ustr \<Rightarrow> configuration_error + configuration_document" where
  "document_from_text U s =
     (case document_rows 1 (str_lines (without_byte_order_mark s)) document_start of
        Inl e \<Rightarrow> Inl e
      | Inr st \<Rightarrow>
          (case schema_fault st of
             Some e \<Rightarrow> Inl e
           | None \<Rightarrow>
               (case document_of U st of
                  Inl e \<Rightarrow> Inl e
                | Inr d \<Rightarrow>
                    (case canonicalize_and_validate U d of (Some e, _) \<Rightarrow> Inl e | (None, d) \<Rightarrow> Inr d))))"

section \<open>Files of older versions\<close>

definition legacy_document ::
  "unicode \<Rightarrow> settings \<Rightarrow> ustr list \<Rightarrow> ustr list \<Rightarrow> ustr list \<Rightarrow> configuration_document" where
  "legacy_document U s words excluded names =
     \<lparr>cd_package_mode = ModeLegacy, cd_settings = s, cd_input_profiles = [], cd_ui_language = ui_language_default,
      cd_user_dictionary = words, cd_word_exclusions = excluded, cd_process_exclusions = names,
      cd_backend_rules = backend_rules_default U\<rparr>"

definition document_from_legacy ::
  "unicode \<Rightarrow> settings \<Rightarrow> ustr \<Rightarrow> ustr \<Rightarrow> ustr \<Rightarrow> configuration_document" where
  "document_from_legacy U s words excluded names =
     snd (canonicalize_and_validate U (legacy_document U s
       (canonical_lexicon_entries_lossy U (without_byte_order_mark words))
       (canonical_lexicon_entries_lossy U (without_byte_order_mark excluded))
       (canonical_process_entries_lossy U (without_byte_order_mark names))))"

definition legacy_rows :: "ustr \<Rightarrow> (nat \<times> ustr) list" where
  "legacy_rows s =
     map (apsnd trim) (filter (\<lambda>(_, line). is_row line) (enumerate 1 (str_lines (without_byte_order_mark s))))"

definition document_try_from_legacy ::
  "unicode \<Rightarrow> settings \<Rightarrow> ustr \<Rightarrow> ustr \<Rightarrow> ustr \<Rightarrow> configuration_error + configuration_document" where
  "document_try_from_legacy U s words excluded names =
     (case canonical_lexicon_entries U (legacy_rows words) of
        Inl e \<Rightarrow> Inl (error_in_file ''user_dictionary.txt'' e)
      | Inr words \<Rightarrow>
      case canonical_lexicon_entries U (legacy_rows excluded) of
        Inl e \<Rightarrow> Inl (error_in_file ''word_exclusions.txt'' e)
      | Inr excluded \<Rightarrow>
      case canonical_process_entries U (legacy_rows names) of
        Inl e \<Rightarrow> Inl (error_in_file ''exclusions.txt'' e)
      | Inr names \<Rightarrow>
          (case canonicalize_and_validate U (legacy_document U s words excluded names) of
             (Some e, _) \<Rightarrow> Inl e | (None, d) \<Rightarrow> Inr d))"

section \<open>Writing a document\<close>

definition append_section :: "string \<Rightarrow> ustr list \<Rightarrow> ustr" where
  "append_section name entries = 0x5B # lit name @ [0x5D, 10] @ unlines entries @ [10]"

definition profile_row :: "pack_id \<times> windows_keyboard_profile \<Rightarrow> ustr" where
  "profile_row = (\<lambda>(l, profile). pack_str l @ 0x3D # profile_to_string profile)"

definition document_text :: "configuration_document \<Rightarrow> ustr" where
  "document_text d =
     unlines [lit ''# AutoKeyboardLayot configuration'',
       key_value ''schema_version'' (decimal CONFIGURATION_SCHEMA_VERSION), [],
       lit ''[packages]'', key_value ''mode'' (mode_as_config (cd_package_mode d)), [],
       lit ''[settings]'', key_value ''ui_language'' (as_config (cd_ui_language d))]
     @ settings_to_text (cd_settings d) @ [10]
     @ append_section ''user_dictionary'' (cd_user_dictionary d)
     @ append_section ''input_profiles'' (map profile_row (cd_input_profiles d))
     @ append_section ''word_exclusions'' (cd_word_exclusions d)
     @ append_section ''process_exclusions'' (cd_process_exclusions d)
     @ unlines [lit ''[backend_rules]''] @ rules_to_text (cd_backend_rules d)"

text \<open>Documents are compared without the note on a refused hotkey.\<close>

definition without_note :: "configuration_document \<Rightarrow> configuration_document" where
  "without_note d = d\<lparr>cd_settings := (cd_settings d)\<lparr>st_refused_force_hotkey := None\<rparr>\<rparr>"

definition document_to_text :: "unicode \<Rightarrow> configuration_document \<Rightarrow> configuration_error + ustr" where
  "document_to_text U d =
     (case canonicalize_and_validate U d of
        (Some e, _) \<Rightarrow> Inl e
      | (None, d) \<Rightarrow>
          let output = document_text d
          in if map_sum id without_note (document_from_text U output) = Inr (without_note d) then Inr output
             else Inl (error_global (lit ''the configuration would not read back unchanged; it was not saved'')))"

section \<open>Lists in an editor\<close>

fun editor_rows ::
  "(nat \<Rightarrow> ustr \<Rightarrow> configuration_error + ustr) \<Rightarrow> nat \<Rightarrow> ustr list \<Rightarrow> ustr set \<Rightarrow> configuration_error + (nat \<times> ustr) list" where
  "editor_rows f n [] seen = Inr []"
| "editor_rows f n (raw # rows) seen =
     (if \<not> is_row raw then editor_rows f (n + 1) rows seen
      else case f n (trim raw) of
        Inl e \<Rightarrow> Inl e
      | Inr stored \<Rightarrow>
          if stored \<in> seen then editor_rows f (n + 1) rows seen
          else map_sum id (\<lambda>es. (n, stored) # es) (editor_rows f (n + 1) rows (insert stored seen)))"

definition editor_entries ::
  "(nat \<Rightarrow> ustr \<Rightarrow> configuration_error + ustr) \<Rightarrow> ustr \<Rightarrow> configuration_error + (nat \<times> ustr) list" where
  "editor_entries f s = editor_rows f 1 (str_lines s) {}"

definition lexicon_editor_entries :: "unicode \<Rightarrow> ustr \<Rightarrow> configuration_error + (nat \<times> ustr) list" where
  "lexicon_editor_entries U = editor_entries (lexicon_entry U)"

definition process_editor_entries :: "unicode \<Rightarrow> ustr \<Rightarrow> configuration_error + (nat \<times> ustr) list" where
  "process_editor_entries U = editor_entries (process_entry U)"

section \<open>What the worker takes of a document\<close>

definition document_user_lexicon :: "unicode \<Rightarrow> configuration_document \<Rightarrow> user_lexicon" where
  "document_user_lexicon U d = lexicon_from_lines U (cd_user_dictionary d)"

definition document_word_exclusions :: "unicode \<Rightarrow> configuration_document \<Rightarrow> user_lexicon" where
  "document_word_exclusions U d = lexicon_from_lines U (cd_word_exclusions d)"

definition document_process_policy :: "unicode \<Rightarrow> configuration_document \<Rightarrow> exclusion_policy" where
  "document_process_policy U d = extend_lines U (cd_process_exclusions d) (exclusion_policy_default U)"

end
