(* ===== verification/Configuration_Saving.thy ===== *)
theory Configuration_Saving
  imports Configuration_Document
begin

text \<open>
  Saving a configuration document and loading it again. The stored form of a row is a fixed point of the function
  that makes it, every row of the written text is read into the section it was written under, and so the written
  document reads back as it was.
\<close>

section \<open>Lowercasing, character by character\<close>

text \<open>The characters that give a row its shape: spaces, control characters and ASCII punctuation.\<close>

definition shapes_a_row :: "uchar \<Rightarrow> bool" where
  "shapes_a_row c \<longleftrightarrow> is_control c \<or> is_whitespace c \<or> (c < 128 \<and> \<not> is_ascii_alphanumeric c)"

text \<open>Documented behaviour of \<open>str::to_lowercase\<close>: it maps one character after the other, those without case to
  themselves, and no letter to one of the characters above.\<close>

definition lower_image :: "uchar \<Rightarrow> ustr \<Rightarrow> bool" where
  "lower_image c s \<longleftrightarrow> s \<noteq> [] \<and> (if shapes_a_row c then s = [c] else list_all (\<lambda>d. \<not> shapes_a_row d) s)"

definition lower_charwise :: "unicode \<Rightarrow> bool" where
  "lower_charwise U \<longleftrightarrow>
     (\<forall>s. uc_lower_str U (uc_lower_str U s) = uc_lower_str U s
        \<and> (\<exists>parts. uc_lower_str U s = concat parts \<and> list_all2 lower_image s parts))"

lemma ascii_tables_charwise: "lower_charwise ascii_tables"
proof -
  have image: "lower_image c [to_ascii_lowercase c]" for c
    by (auto simp: lower_image_def shapes_a_row_def is_control_def is_whitespace_def ascii_defs)
  have split: "\<exists>parts. ascii_lower s = concat parts \<and> list_all2 lower_image s parts" for s
    by (intro exI [where x = "map (\<lambda>c. [to_ascii_lowercase c]) s"] conjI)
      (induction s, simp_all add: list_all2_map2 list_all2_same image)
  show ?thesis unfolding lower_charwise_def ascii_tables_simps by (intro allI conjI split) simp
qed

lemma shaped_image:
  "list_all2 lower_image s parts \<Longrightarrow> shapes_a_row c \<Longrightarrow> c \<in> set (concat parts) \<longleftrightarrow> c \<in> set s"
  by (induction s parts rule: list_all2_induct) (auto simp: lower_image_def list_all_iff split: if_splits)

lemma lower_shaped:
  assumes "lower_charwise U" "shapes_a_row c"
  shows "c \<in> set (uc_lower_str U s) \<longleftrightarrow> c \<in> set s"
  using assms shaped_image unfolding lower_charwise_def by metis

lemma lower_image_hd: "list_all2 lower_image s parts \<Longrightarrow> s \<noteq> [] \<Longrightarrow> shapes_a_row c \<Longrightarrow>
    concat parts \<noteq> [] \<and> (hd (concat parts) = c \<longleftrightarrow> hd s = c)"
  by (cases s; cases parts) (auto simp: lower_image_def list_all_iff split: if_splits)

lemma lower_image_last: "list_all2 lower_image s parts \<Longrightarrow> s \<noteq> [] \<Longrightarrow> shapes_a_row c \<Longrightarrow>
    last (concat parts) = c \<longleftrightarrow> last s = c"
  by (cases s rule: rev_cases)
    (auto simp: lower_image_def list_all_iff list_all2_append1 list_all2_Cons1 split: if_splits)

lemma lower_ends:
  assumes "lower_charwise U"
  shows "uc_lower_str U s = [] \<longleftrightarrow> s = []"
    and "shapes_a_row c \<Longrightarrow> s \<noteq> [] \<Longrightarrow> hd (uc_lower_str U s) = c \<longleftrightarrow> hd s = c"
    and "shapes_a_row c \<Longrightarrow> s \<noteq> [] \<Longrightarrow> last (uc_lower_str U s) = c \<longleftrightarrow> last s = c"
proof -
  obtain parts where p: "uc_lower_str U s = concat parts" "list_all2 lower_image s parts"
    using assms unfolding lower_charwise_def by blast
  show "uc_lower_str U s = [] \<longleftrightarrow> s = []"
    using lower_image_hd [OF p(2), of "0x20"] p by (cases s) (auto simp: shapes_a_row_def is_whitespace_def)
  show "shapes_a_row c \<Longrightarrow> s \<noteq> [] \<Longrightarrow> hd (uc_lower_str U s) = c \<longleftrightarrow> hd s = c"
    "shapes_a_row c \<Longrightarrow> s \<noteq> [] \<Longrightarrow> last (uc_lower_str U s) = c \<longleftrightarrow> last s = c"
    using lower_image_hd [OF p(2)] lower_image_last [OF p(2)] p(1) by auto
qed

lemma lower_clean_ends:
  assumes "lower_charwise U" "clean_ends is_whitespace s"
  shows "clean_ends is_whitespace (uc_lower_str U s)"
proof (cases "s = []")
  case False
  have ws: "is_whitespace c \<Longrightarrow> shapes_a_row c" for c by (simp add: shapes_a_row_def)
  have "\<not> is_whitespace (hd (uc_lower_str U s))"
    using lower_ends(2) [OF assms(1) ws False, of "hd (uc_lower_str U s)"] assms(2) False by (auto simp: clean_ends_def)
  moreover have "\<not> is_whitespace (last (uc_lower_str U s))"
    using lower_ends(3) [OF assms(1) ws False, of "last (uc_lower_str U s)"] assms(2) False by (auto simp: clean_ends_def)
  ultimately show ?thesis by (simp add: clean_ends_def)
qed (simp add: lower_ends [OF assms(1)] clean_ends_def)

lemma charwise_laws: "lower_charwise U \<Longrightarrow> lowercase_laws U"
proof -
  assume U: "lower_charwise U"
  have "(\<exists>c \<in> set (uc_lower_str U s). is_control c \<or> is_whitespace c) = (\<exists>c \<in> set s. is_control c \<or> is_whitespace c)" for s
    using lower_shaped [OF U, of _ s] unfolding shapes_a_row_def by blast
  then show ?thesis using U lower_ends(1) [OF U] unfolding lower_charwise_def lowercase_laws_def by blast
qed

section \<open>Stored rows are fixed points\<close>

lemma from_id_readable: "from_id name = Some l \<Longrightarrow> valid_pack l \<and> pack_str l \<notin> set alias_texts"
proof -
  assume l: "from_id name = Some l"
  have built_in: "valid_pack l \<and> pack_str l \<notin> set alias_texts" if "l \<in> {English, Russian, Estonian, Japanese}" for l
    using that by (auto simp: valid_pack_def pack_parse_def valid_pack_text_def byte_len_def len_utf8_def
        is_hyphen_def language_defs alias_texts_def)
  let ?s = "ascii_lower (trim name)"
  show ?thesis
  proof (cases "l \<in> {English, Russian, Estonian, Japanese}")
    case False
    then have p: "pack_parse (trim name) = Inr l" and s: "?s \<notin> set alias_texts"
      using l by (auto simp: from_id_def Let_def alias_texts_def split: if_splits sum.splits)
    moreover have "pack_str l = ?s"
      using p by (auto simp: pack_parse_def from_valid_ascii_def split: if_splits)
    ultimately show ?thesis using pack_parse_valid by simp
  qed (rule built_in)
qed

lemma trim_end_pad: "clean_ends is_whitespace s \<Longrightarrow> trim_end (s @ [10]) = s"
  by (cases "s = []") (simp_all add: trim_end_def is_whitespace_def clean_ends_def dropWhile_head hd_rev)

lemma lexicon_form_shape:
  assumes "lower_charwise U" "lexicon_form U line = Some e"
  obtains l w where "e = language_id l @ lit '': '' @ w" "valid_pack l" "pack_str l \<notin> set alias_texts"
    "normalize_word U w = Some w" "w \<noteq> []" "\<forall>c \<in> set w. \<not> is_control c \<and> \<not> is_whitespace c"
    "clean_ends is_whitespace e" "is_line e" "\<not> starts_with e 0x23" "\<not> starts_with e 0x5B" "e \<noteq> []"
proof -
  obtain l w0 w where n: "parse_entry line = Some (l, w0)" "normalize_word U w0 = Some w"
    and e0: "map_option trim_end (format_pack_entry U l w) = Some e"
    using assms(2) by (auto simp: lexicon_form_def normalize_pack_entry_def split: option.splits)
  note U = charwise_laws [OF assms(1)]
  note w = normalize_word_idem [OF U n(2)] normalize_word_chars [OF U n(2)]
  have l: "valid_pack l" "pack_str l \<notin> set alias_texts"
    using n(1) from_id_readable by (auto simp: parse_entry_def Let_def split: if_splits option.splits)
  have id: "\<forall>c \<in> set (language_id l). \<not> is_whitespace c \<and> \<not> is_control c \<and> c \<noteq> 0x23 \<and> c \<noteq> 0x5B" "language_id l \<noteq> []"
    using language_id_chars [OF l(1)] language_id_nonempty [OF l(1)] pack_char_class
    by (fastforce simp: is_hyphen_def ascii_defs dest!: language_id_chars [OF l(1)], blast)
  have ends: "clean_ends is_whitespace (language_id l)" "clean_ends is_whitespace w"
    using id w(3) by (auto intro!: clean_ends_all)
  have c: "clean_ends is_whitespace (language_id l @ lit '': '' @ w)"
    by (rule clean_ends_append [OF ends id(2) w(2)])
  have e: "e = language_id l @ lit '': '' @ w"
    using e0 w(1) trim_end_pad [OF c] by (auto simp: format_pack_entry_def)
  moreover have "is_line e"
    using id(1) w(3) unfolding e is_line_def by (auto simp: is_control_def)
  moreover have "\<not> starts_with e 0x23" "\<not> starts_with e 0x5B" "e \<noteq> []"
    using id by (cases "language_id l"; simp add: e)+
  ultimately show ?thesis using that l w c by blast
qed

lemma lexicon_form_fixed:
  assumes "lower_charwise U" "lexicon_form U line = Some e"
  shows "lexicon_form U e = Some e"
proof -
  obtain l w where e: "e = language_id l @ lit '': '' @ w" "valid_pack l" "pack_str l \<notin> set alias_texts"
    and w: "normalize_word U w = Some w" "w \<noteq> []" "\<forall>c \<in> set w. \<not> is_control c \<and> \<not> is_whitespace c"
    and c: "clean_ends is_whitespace e"
    using lexicon_form_shape [OF assms] by blast
  have "trim (e @ [10]) = trim e"
    using trim_pad_right [OF c, of "[10]"] trim_matches_clean [OF c] by (simp add: trim_def is_whitespace_def)
  then have "parse_entry e = Some (l, w)"
    using parse_formatted [OF e(2,3) w(2,3)] unfolding parse_entry_def e(1) append_assoc by simp
  then show ?thesis
    using w(1) trim_end_pad [OF c]
    by (simp add: lexicon_form_def normalize_pack_entry_def format_pack_entry_def e(1))
qed

lemma trim_clean: "clean_ends is_whitespace s \<Longrightarrow> trim s = s"
  unfolding trim_def by (rule trim_matches_clean)

lemma executable_name_shape:
  assumes "lower_charwise U" "normalize_executable_name U line = Some n"
  shows "normalize_executable_name U n = Some n" "clean_ends is_whitespace n" "is_line n" "n \<noteq> []"
proof -
  let ?t = "trim_matches (\<lambda>c. c = 0x22) (trim line)"
  define s where "s = trim (last_piece is_path_separator ?t)"
  have s: "s \<noteq> []" "n = uc_lower_str U s" "\<not> list_ex forbidden_in_windows_path ?t"
    using assms(2) unfolding normalize_executable_name_def Let_def s_def
    by (simp_all split: if_splits)
  have chars: "\<not> forbidden_in_windows_path c" "\<not> is_path_separator c" if "c \<in> set s" for c
    using that s(3) set_trim [of "last_piece is_path_separator ?t"] set_last_piece [of is_path_separator ?t]
      last_piece_no_sep [of c is_path_separator ?t]
    unfolding s_def list_ex_iff by blast+
  have shaped: "forbidden_in_windows_path c \<Longrightarrow> shapes_a_row c" "is_path_separator c \<Longrightarrow> shapes_a_row c" for c
    by (auto simp: forbidden_in_windows_path_def is_path_separator_def shapes_a_row_def ascii_defs)
  have n: "\<not> forbidden_in_windows_path c" "\<not> is_path_separator c" if "c \<in> set n" for c
    using that lower_shaped [OF assms(1), of c s] shaped [of c] chars [of c] unfolding s(2) by blast+
  show ends: "clean_ends is_whitespace n"
    unfolding s(2) by (rule lower_clean_ends [OF assms(1)]) (simp add: s_def clean_ends_trim)
  show ne: "n \<noteq> []" using s lower_ends(1) [OF assms(1)] by simp
  show "is_line n" using n(1) unfolding is_line_def forbidden_in_windows_path_def is_control_def by fastforce
  have "trim_matches (\<lambda>c. c = 0x22) n = n"
    by (rule trim_matches_clean, rule clean_ends_all) (use n(1) in \<open>auto simp: forbidden_in_windows_path_def\<close>)
  moreover have "last_piece is_path_separator n = n" by (rule last_piece_plain) (use n(2) in blast)
  moreover have "uc_lower_str U n = n" using assms(1) unfolding s(2) lower_charwise_def by blast
  ultimately show "normalize_executable_name U n = Some n"
    using n(1) ne trim_clean [OF ends] by (simp add: normalize_executable_name_def list_ex_iff)
qed

section \<open>Canonical lists\<close>

lemma try_rows_fixed: "\<forall>(n, line) \<in> set rows. f n line = Inr line \<Longrightarrow> try_rows f rows = Inr (map snd rows)"
  by (induction f rows rule: try_rows.induct) (auto split: sum.splits)

lemma try_rows_out: "try_rows f rows = Inr xs \<Longrightarrow> \<forall>x \<in> set xs. \<exists>n line. f n line = Inr x"
  by (induction f rows arbitrary: xs rule: try_rows.induct) (fastforce split: sum.splits)+

lemma ordered_set_fixed: "ordered_set (ordered_set xs) = ordered_set xs"
  by (simp add: ordered_set_def)

lemma set_ordered_set [simp]: "set (ordered_set xs) = set xs"
  by (simp add: ordered_set_def)

text \<open>A row as it is stored: a fixed point that is a line of its own, neither a comment nor a section.\<close>

definition plain_row :: "ustr \<Rightarrow> bool" where
  "plain_row row \<longleftrightarrow> clean_ends is_whitespace row \<and> is_line row \<and> row \<noteq> [] \<and> \<not> starts_with row 0x23 \<and> section_name row = None"

definition stored_list :: "(nat \<Rightarrow> ustr \<Rightarrow> configuration_error + ustr) \<Rightarrow> ustr list \<Rightarrow> bool" where
  "stored_list f rows \<longleftrightarrow> ordered_set rows = rows \<and> (\<forall>row \<in> set rows. plain_row row \<and> (\<forall>n. f n row = Inr row))"

lemma section_name_None: "\<not> starts_with row 0x5B \<Longrightarrow> section_name row = None"
  by (cases row) (auto simp: section_name_def)

lemma lexicon_row_stored:
  assumes "lower_charwise U" "lexicon_entry U n line = Inr row"
  shows "plain_row row" "lexicon_entry U m row = Inr row"
proof -
  have form: "lexicon_form U line = Some row" using assms(2) by (auto simp: lexicon_entry_def split: option.splits)
  show "lexicon_entry U m row = Inr row" using lexicon_form_fixed [OF assms(1) form] by (simp add: lexicon_entry_def)
  show "plain_row row"
    using lexicon_form_shape [OF assms(1) form] section_name_None unfolding plain_row_def by metis
qed

lemma process_row_stored:
  assumes "lower_charwise U" "process_entry U n line = Inr row"
  shows "plain_row row" "process_entry U m row = Inr row"
proof -
  have name: "normalize_executable_name U line = Some row" and ok: "process_name_reads_back row"
    using assms(2) by (auto simp: process_entry_def split: option.splits if_splits)
  note shape = executable_name_shape [OF assms(1) name]
  show "process_entry U m row = Inr row" using shape(1) ok by (simp add: process_entry_def)
  have "section_name row = None"
    using ok by (cases row) (auto simp: section_name_def strip_suffix_char_def process_name_reads_back_def)
  then show "plain_row row"
    using shape ok unfolding plain_row_def process_name_reads_back_def by blast
qed

lemma canonical_list_stored:
  assumes "\<And>n m line row. f n line = Inr row \<Longrightarrow> plain_row row \<and> f m row = Inr row"
    and "map_sum id ordered_set (try_rows f rows) = Inr out"
  shows "stored_list f out"
proof -
  obtain xs where xs: "try_rows f rows = Inr xs" "out = ordered_set xs" using assms(2) by (cases "try_rows f rows") auto
  show ?thesis
    using try_rows_out [OF xs(1)] assms(1) by (auto simp: stored_list_def xs(2) ordered_set_fixed)
qed

lemma stored_list_canonical:
  "stored_list f rows \<Longrightarrow> map snd numbered = rows \<Longrightarrow> map_sum id ordered_set (try_rows f numbered) = Inr rows"
proof -
  assume s: "stored_list f rows" and n: "map snd numbered = rows"
  have "\<forall>(n, line) \<in> set numbered. f n line = Inr line" using s n by (fastforce simp: stored_list_def)
  from try_rows_fixed [of numbered f, OF this] s show ?thesis by (simp add: n stored_list_def)
qed

definition lists_stored :: "unicode \<Rightarrow> configuration_document \<Rightarrow> bool" where
  "lists_stored U d \<longleftrightarrow> stored_list (lexicon_entry U) (cd_user_dictionary d)
     \<and> stored_list (lexicon_entry U) (cd_word_exclusions d) \<and> stored_list (process_entry U) (cd_process_exclusions d)"

lemma validated_lists_stored:
  assumes "lower_charwise U" "canonicalize_and_validate U d = (None, d')"
  shows "lists_stored U d'" "document_fault d' = None"
    and "d' = d\<lparr>cd_user_dictionary := cd_user_dictionary d', cd_word_exclusions := cd_word_exclusions d',
       cd_process_exclusions := cd_process_exclusions d'\<rparr>"
proof -
  obtain a b c where r: "canonical_lexicon_entries U (enumerate 1 (cd_user_dictionary d)) = Inr a"
    "canonical_lexicon_entries U (enumerate 1 (cd_word_exclusions d)) = Inr b"
    "canonical_process_entries U (enumerate 1 (cd_process_exclusions d)) = Inr c"
    and d': "d' = d\<lparr>cd_user_dictionary := a, cd_word_exclusions := b, cd_process_exclusions := c\<rparr>" "document_fault d' = None"
    using assms(2) by (auto simp: canonicalize_and_validate_def Let_def split: sum.splits)
  have "stored_list (lexicon_entry U) a" "stored_list (lexicon_entry U) b" "stored_list (process_entry U) c"
    by (rule canonical_list_stored [OF _ r(1) [unfolded canonical_lexicon_entries_def]],
        blast intro: lexicon_row_stored [OF assms(1)],
        rule canonical_list_stored [OF _ r(2) [unfolded canonical_lexicon_entries_def]],
        blast intro: lexicon_row_stored [OF assms(1)],
        rule canonical_list_stored [OF _ r(3) [unfolded canonical_process_entries_def]],
        blast intro: process_row_stored [OF assms(1)])
  then show "lists_stored U d'" by (simp add: lists_stored_def d')
  show "document_fault d' = None" by (rule d')
  show "d' = d\<lparr>cd_user_dictionary := cd_user_dictionary d', cd_word_exclusions := cd_word_exclusions d',
       cd_process_exclusions := cd_process_exclusions d'\<rparr>"
    by (simp add: d')
qed

lemma stored_validates:
  assumes "lists_stored U d" "document_fault d = None"
  shows "canonicalize_and_validate U d = (None, d)"
  using assms stored_list_canonical [of "lexicon_entry U" _ "enumerate 1 _"]
    stored_list_canonical [of "process_entry U" _ "enumerate 1 _"]
  by (simp add: canonicalize_and_validate_def lists_stored_def canonical_lexicon_entries_def
      canonical_process_entries_def Let_def)

section \<open>The parts of a document that read back\<close>

definition settings_saveable :: "settings \<Rightarrow> bool" where
  "settings_saveable s \<longleftrightarrow>
     hotkey_new (st_force_hotkey_virtual_key s) (st_force_hotkey_modifiers s)
       = Inr \<lparr>hk_key = st_force_hotkey_virtual_key s, hk_mods = st_force_hotkey_modifiers s\<rparr>
     \<and> finite (st_enabled_input_packs s) \<and> (\<forall>l \<in> st_enabled_input_packs s. valid_pack l)
     \<and> card (st_enabled_input_packs s) \<le> 64"

definition profiles_saveable :: "input_profile_selections \<Rightarrow> bool" where
  "profiles_saveable ps \<longleftrightarrow> om_sorted ps \<and> length ps \<le> 64
     \<and> (\<forall>(l, p) \<in> set ps. valid_pack l \<and> profile_parse (profile_to_string p) = Inr p)"

definition rules_saveable :: "unicode \<Rightarrow> backend_rules \<Rightarrow> bool" where
  "rules_saveable U r \<longleftrightarrow> om_sorted (br_exact r) \<and> (\<forall>(k, s) \<in> set (br_exact r). stable_key U k)"

definition document_saveable :: "unicode \<Rightarrow> configuration_document \<Rightarrow> bool" where
  "document_saveable U d \<longleftrightarrow> settings_saveable (cd_settings d) \<and> profiles_saveable (cd_input_profiles d)
     \<and> rules_saveable U (cd_backend_rules d) \<and> ui_from_config (as_config (cd_ui_language d)) = cd_ui_language d"

text \<open>The preference for a language: its stored text is read as itself.\<close>

lemma normalize_locale_Some:
  assumes "normalize_locale v = Some w"
  shows "w = ascii_lower v" "w \<noteq> []" "\<forall>c \<in> set w. is_ascii_alphanumeric c \<or> c = 0x2D" "normalize_locale w = Some w"
proof -
  let ?parts = "split_on (\<lambda>c. c = 0x2D) v"
  have v: "v \<noteq> []" "byte_len v \<le> 63" "\<forall>c \<in> set v. c < 128" "w = ascii_lower v"
    and base: "2 \<le> length (hd ?parts)" "length (hd ?parts) \<le> 8" "list_all is_ascii_alphabetic (hd ?parts)"
    and rest: "\<forall>p \<in> set (tl ?parts). p \<noteq> [] \<and> length p \<le> 8 \<and> list_all is_ascii_alphanumeric p"
    using assms by (auto simp: normalize_locale_def Let_def list_ex_iff not_less not_le split: if_splits)
  show "w = ascii_lower v" "w \<noteq> []" using v by simp_all
  have hyphen: "(to_ascii_lowercase c = 0x2D) = (c = 0x2D)" for c by (auto simp: ascii_defs)
  have parts: "split_on (\<lambda>c. c = 0x2D) w = map ascii_lower ?parts"
    unfolding v(4) by (rule split_on_lower) (rule hyphen)
  have cons: "set ?parts = insert (hd ?parts) (set (tl ?parts))" by (cases ?parts) simp_all
  have "\<forall>p \<in> set ?parts. list_all is_ascii_alphanumeric p"
    using base(3) rest unfolding cons by (auto simp: list_all_iff is_ascii_alphanumeric_def)
  then have "is_ascii_alphanumeric c \<or> c = 0x2D" if "c \<in> set v" for c
    using split_on_set [OF that, of "\<lambda>c. c = 0x2D"] by (auto simp: list_all_iff)
  then show "\<forall>c \<in> set w. is_ascii_alphanumeric c \<or> c = 0x2D" unfolding v(4) by (auto simp: hyphen)
  have "\<not> list_ex (\<lambda>c. 128 \<le> c) w" using v(3) by (auto simp: v(4) list_ex_iff ascii_defs not_le)
  moreover have "hd (map ascii_lower ?parts) = ascii_lower (hd ?parts)" "tl (map ascii_lower ?parts) = map ascii_lower (tl ?parts)"
    by (simp_all add: hd_map map_tl)
  moreover have "ascii_lower w = w" by (simp add: v(4))
  ultimately show "normalize_locale w = Some w"
    using v base rest unfolding normalize_locale_def parts Let_def
    by (simp add: v(4) list_all_iff list_ex_iff not_less)
qed

lemma locale_plain: "is_ascii_alphanumeric c \<or> c = 0x2D \<Longrightarrow> \<not> is_whitespace c"
  by (auto simp: ascii_defs is_whitespace_def)

lemma ui_from_config_text:
  "as_config (ui_from_config v) = lit ''system'' \<or>
   normalize_locale (as_config (ui_from_config v)) = Some (as_config (ui_from_config v))
     \<and> \<not> eq_ignore_ascii_case (as_config (ui_from_config v)) (lit ''system'')"
proof (cases "normalize_locale (trim v)")
  case None
  have "normalize_locale (lit ''en'') = Some (lit ''en'')"
    by (simp add: normalize_locale_def byte_len_def len_utf8_def ascii_defs)
  with None show ?thesis by (simp add: ui_from_config_def Let_def ui_language_default_def eq_ignore_ascii_case_def ascii_defs)
next
  case (Some w)
  note w = normalize_locale_Some [OF Some]
  show ?thesis
    using Some w(1,4) by (auto simp: ui_from_config_def Let_def ui_language_default_def eq_ignore_ascii_case_def comp_def)
qed

lemma ui_text_plain: "\<forall>c \<in> set (as_config (ui_from_config v)). \<not> is_whitespace c"
  using ui_from_config_text [of v] normalize_locale_Some(3) [of "as_config (ui_from_config v)"] locale_plain
  by (auto simp: is_whitespace_def)

lemma ui_from_config_fixed: "ui_from_config (as_config (ui_from_config v)) = ui_from_config v"
proof -
  let ?w = "as_config (ui_from_config v)"
  have t: "trim ?w = ?w" by (rule trim_plain) (rule ui_text_plain)
  show ?thesis
    using ui_from_config_text [of v] normalize_locale_Some(2) [of ?w "?w"]
    unfolding ui_from_config_def [of ?w] t Let_def
    by (auto simp: ui_language_default_def eq_ignore_ascii_case_def intro: ui_language_preference.expand)
qed

text \<open>Selections.\<close>

lemma selection_choices_written:
  "om_sorted (ex @ ps) \<Longrightarrow> i + length ps \<le> 64 \<Longrightarrow>
   \<forall>(l, p) \<in> set ps. valid_pack l \<and> profile_parse (profile_to_string p) = Inr p \<Longrightarrow>
   selection_choices i (map (\<lambda>(l, p). (pack_str l, profile_to_string p)) ps) ex = Inr (ex @ ps)"
proof (induction ps arbitrary: i ex)
  case (Cons e ps)
  obtain l p where e: "e = (l, p)" by (cases e)
  have "om_sorted (ex @ [(l, p)])" using Cons.prems(1) om_sorted_append [of "ex @ [e]" ps] by (simp add: e)
  then have "om_insert l p ex = ex @ [(l, p)]" by (rule om_insert_last)
  moreover have "om_lookup ex l = None" using Cons.prems(1) om_lookup_fresh by (simp add: e)
  ultimately show ?case using Cons by (simp add: e valid_pack_def)
qed simp

lemma selections_written:
  "profiles_saveable ps \<Longrightarrow> selections_parse (map (\<lambda>(l, p). (pack_str l, profile_to_string p)) ps) = Inr ps"
  using selection_choices_written [of "[]" ps 0] by (simp add: profiles_saveable_def selections_parse_def)

end
