(* ===== verification/Configuration_Round_Trip.thy ===== *)
theory Configuration_Round_Trip
  imports Configuration_Saving
begin

text \<open>
  Every row of a written document is read into the section it was written under, so that the document reads back
  as it was saved.
\<close>

section \<open>Rows, section by section\<close>

lemma plain_row_read:
  "plain_row row \<Longrightarrow> ds_section st = Some x \<Longrightarrow> document_row n row st = section_row x n row st"
  by (simp add: plain_row_def document_row_def is_row_def trim_clean)

lemma plain_row_line: "plain_row row \<Longrightarrow> is_line row"
  by (simp add: plain_row_def)

lemma document_rows_append:
  "document_rows n rows st = Inr st' \<Longrightarrow> document_rows n (rows @ rest) st = document_rows (n + length rows) rest st'"
  by (induction n rows st rule: document_rows.induct) (auto split: sum.splits)

lemma blank_row: "document_row n [] st = Inr st"
  by (simp add: document_row_def is_row_def trim_def trim_matches_def)

lemma user_dictionary_rows:
  "\<forall>row \<in> set rows. plain_row row \<Longrightarrow> ds_section st = Some SecUserDictionary \<Longrightarrow>
   document_rows n rows st = Inr (st\<lparr>ds_user_dictionary := ds_user_dictionary st @ enumerate n rows\<rparr>)"
  by (induction n rows st rule: document_rows.induct) (simp_all add: plain_row_read section_row_def)

lemma word_exclusion_rows:
  "\<forall>row \<in> set rows. plain_row row \<Longrightarrow> ds_section st = Some SecWordExclusions \<Longrightarrow>
   document_rows n rows st = Inr (st\<lparr>ds_word_exclusions := ds_word_exclusions st @ enumerate n rows\<rparr>)"
  by (induction n rows st rule: document_rows.induct) (simp_all add: plain_row_read section_row_def)

lemma process_exclusion_rows:
  "\<forall>row \<in> set rows. plain_row row \<Longrightarrow> ds_section st = Some SecProcessExclusions \<Longrightarrow>
   document_rows n rows st = Inr (st\<lparr>ds_process_exclusions := ds_process_exclusions st @ enumerate n rows\<rparr>)"
  by (induction n rows st rule: document_rows.induct) (simp_all add: plain_row_read section_row_def)

lemma backend_rule_rows:
  "\<forall>row \<in> set rows. plain_row row \<Longrightarrow> ds_section st = Some SecBackendRules \<Longrightarrow>
   document_rows n rows st = Inr (st\<lparr>ds_backend_rules := ds_backend_rules st @ rows,
     ds_backend_lines := ds_backend_lines st @ [n ..< n + length rows]\<rparr>)"
  by (induction n rows st rule: document_rows.induct) (simp_all add: plain_row_read section_row_def upt_conv_Cons del: upt_Suc)

text \<open>Rows with a key and a plain text, as the settings and the profiles are written.\<close>

lemma key_row_plain:
  assumes "plain_key k" "\<not> starts_with k 0x5B" "clean_line v"
  shows "plain_row (k @ 0x3D # v)" "split_once 0x3D (k @ 0x3D # v) = Some (k, v)" "trim k = k"
proof -
  have k: "\<forall>c \<in> set k. \<not> is_whitespace c \<and> c \<noteq> 0x3D \<and> c \<noteq> 0x23 \<and> c \<noteq> 10 \<and> c \<noteq> 13" "k \<noteq> []"
    using assms(1) by (auto simp: plain_key_def list_all_iff)
  show "split_once 0x3D (k @ 0x3D # v) = Some (k, v)" by (simp only: split_once_Some simp_thms) (use k in blast)
  show "trim k = k" by (rule trim_plain) (use k in blast)
  have "clean_ends is_whitespace (k @ 0x3D # v)" "is_line (k @ 0x3D # v)"
    using k assms(3) by (cases "v = []"; auto simp: clean_line_def clean_ends_def is_line_def is_whitespace_def)+
  moreover have "\<not> starts_with (k @ 0x3D # v) 0x23" "\<not> starts_with (k @ 0x3D # v) 0x5B"
    using k assms(2) by (cases k; simp)+
  ultimately show "plain_row (k @ 0x3D # v)" by (simp add: plain_row_def section_name_None)
qed

definition setting_key :: "ustr \<Rightarrow> bool" where
  "setting_key k \<longleftrightarrow> plain_key k \<and> \<not> starts_with k 0x5B \<and> \<not> eq_ignore_ascii_case k (lit ''ui_language'')"

lemma known_setting_keys: "list_all setting_key known_keys"
  by (simp add: known_keys_def setting_key_def plain_key_def is_whitespace_def eq_ignore_ascii_case_def ascii_defs)

definition setting_row :: "ustr \<Rightarrow> bool" where
  "setting_row row \<longleftrightarrow> (\<exists>k v. row = k @ 0x3D # v \<and> setting_key k \<and> clean_line v)"

lemma setting_row_plain: "setting_row row \<Longrightarrow> plain_row row"
  using key_row_plain(1) by (auto simp: setting_row_def setting_key_def)

lemma setting_row_kept:
  assumes "setting_row row"
  shows "settings_row n row st = Inr (st\<lparr>ds_settings := ds_settings st @ row @ [10], ds_settings_lines := ds_settings_lines st @ [n]\<rparr>)"
proof -
  obtain k v where row: "row = k @ 0x3D # v" and k: "plain_key k" "\<not> starts_with k 0x5B" "clean_line v"
    "\<not> eq_ignore_ascii_case k (lit ''ui_language'')"
    using assms by (auto simp: setting_row_def setting_key_def)
  show ?thesis using key_row_plain(2,3) [OF k(1-3)] k(4) by (simp add: row settings_row_def Let_def del: lit_simps)
qed

lemma setting_rows:
  "\<forall>row \<in> set rows. setting_row row \<Longrightarrow> ds_section st = Some SecSettings \<Longrightarrow>
   document_rows n rows st = Inr (st\<lparr>ds_settings := ds_settings st @ unlines rows,
     ds_settings_lines := ds_settings_lines st @ [n ..< n + length rows]\<rparr>)"
  by (induction n rows st rule: document_rows.induct)
    (simp_all add: plain_row_read setting_row_plain section_row_def setting_row_kept unlines_def upt_conv_Cons del: upt_Suc)

lemma known_setting_row: "k \<in> set known_keys \<Longrightarrow> clean_line v \<Longrightarrow> setting_row (k @ 0x3D # v)"
  using known_setting_keys by (auto simp: setting_row_def list_all_iff)

lemma bool_setting_row: "f \<in> set (bool_fields1 @ bool_fields2) \<Longrightarrow> setting_row (bool_line s f)"
proof -
  assume f: "f \<in> set (bool_fields1 @ bool_fields2)"
  obtain k u g where kug: "f = (k, u, g)" by (cases f)
  show ?thesis
    using known_setting_row [OF bool_field_setting(2) [OF f [unfolded kug]]] by (simp add: kug bool_line_def clean_line_def)
qed

lemma written_settings_rows:
  assumes "finite (st_enabled_input_packs s)" "\<forall>l \<in> st_enabled_input_packs s. valid_pack l"
    "card (st_enabled_input_packs s) \<le> 64"
  shows "\<forall>row \<in> set (tl (settings_text_lines s)). setting_row row"
proof -
  note special = special_known [OF special_keys_in(1)] special_known [OF special_keys_in(2)] special_known [OF special_keys_in(3)]
  have packs: "setting_row (lit ''enabled_input_packs'' @ 0x3D # v)" if "clean_line v" for v by (rule known_setting_row [OF special(3) that])
  have tail: "tl (settings_text_lines s) = map (bool_line s) bool_fields1
     @ (lit ''force_hotkey_key'' @ 0x3D # key_name (force_hotkey s))
     # (lit ''force_hotkey_modifiers'' @ 0x3D # modifiers_text (force_hotkey s))
     # map (bool_line s) bool_fields2
     @ [lit ''enabled_input_packs'' @ 0x3D # join_with 0x2C (map pack_str (sorted_list_of_set (st_enabled_input_packs s)))]"
    unfolding settings_text_split key_value_def by (simp only: list.sel)
  have "setting_row (lit ''force_hotkey_key'' @ 0x3D # key_name (force_hotkey s))"
    "setting_row (lit ''force_hotkey_modifiers'' @ 0x3D # modifiers_text (force_hotkey s))"
    by (rule known_setting_row [OF special(1)], simp add: clean_line_def key_name_clean,
        rule known_setting_row [OF special(2)], simp add: clean_line_def modifiers_text_clean)
  then show ?thesis
    using bool_setting_row packs [OF parse_selection_written(2) [OF assms]] unfolding tail by (auto simp del: lit_simps)
qed

lemma settings_lines_are_lines:
  assumes "settings_saveable s"
  shows "\<forall>row \<in> set (settings_text_lines s). is_line row"
proof -
  have "set (settings_text_lines s) = insert (lit ''# AutoKeyboardLayot settings v2'') (set (tl (settings_text_lines s)))"
    unfolding settings_text_lines_def by (simp only: list.sel list.set)
  moreover have "is_line (lit ''# AutoKeyboardLayot settings v2'')" by (simp add: is_line_def)
  ultimately show ?thesis
    using written_settings_rows [of s] assms setting_row_plain plain_row_line
    by (auto simp: settings_saveable_def simp del: lit_simps)
qed

section \<open>The written document\<close>

definition ui_row :: "ui_language_preference \<Rightarrow> ustr" where
  "ui_row u = lit ''ui_language'' @ 0x3D # as_config u"

lemma ui_row_read:
  assumes "ui_from_config (as_config u) = u" "ds_section st = Some SecSettings" "\<not> ds_ui_language_seen st"
  shows "document_row n (ui_row u) st = Inr (st\<lparr>ds_ui_language_seen := True, ds_ui_language := u,
     ds_settings := ds_settings st @ ui_row u @ [10], ds_settings_lines := ds_settings_lines st @ [n]\<rparr>)"
    and "is_line (ui_row u)" and "settings_line True m (ui_row u) p = Inr p"
proof -
  let ?k = "lit ''ui_language''"
  have k: "plain_key ?k" "\<not> starts_with ?k 0x5B" by (simp_all add: plain_key_def is_whitespace_def)
  have v: "clean_line (as_config u)" using ui_text_plain [of "as_config u"] assms(1) by (intro clean_line_plain) simp
  note row = key_row_plain [OF k v]
  show "is_line (ui_row u)" using row(1) by (simp add: ui_row_def plain_row_def)
  show "document_row n (ui_row u) st = Inr (st\<lparr>ds_ui_language_seen := True, ds_ui_language := u,
     ds_settings := ds_settings st @ ui_row u @ [10], ds_settings_lines := ds_settings_lines st @ [n]\<rparr>)"
    unfolding ui_row_def plain_row_read [OF row(1) assms(2)] section_row_def config_section.case settings_row_def row(2)
    by (simp add: row(3) eq_ignore_ascii_case_def assms(1,3) Let_def del: lit_simps)
  have "?k \<notin> set known_keys" "map_of legacy_packs ?k = None" "map_of bool_settings ?k = None"
    "?k \<noteq> lit ''enabled_input_packs''" "?k \<noteq> lit ''force_hotkey_key''" "?k \<noteq> lit ''force_hotkey_modifiers''"
    by (simp_all add: known_keys_def legacy_packs_def bool_settings_def)
  then show "settings_line True m (ui_row u) p = Inr p"
    using trim_key_value [OF k(1), of "as_config u"] v
    unfolding settings_line_def ui_row_def clean_line_def
    by (simp add: is_known_key_def apply_setting_def Let_def del: lit_simps)
qed

lemma profile_row_read:
  assumes "valid_pack l" "ds_section st = Some SecInputProfiles" "length (ds_input_profiles st) < 64"
  shows "document_row n (profile_row (l, p)) st =
     Inr (st\<lparr>ds_input_profiles := ds_input_profiles st @ [(pack_str l, profile_to_string p)]\<rparr>)"
    and "is_line (profile_row (l, p))"
proof -
  have l: "\<forall>c \<in> set (pack_str l). (is_ascii_alphanumeric c \<or> is_hyphen c)" "pack_str l \<noteq> []"
    using valid_pack_chars [OF assms(1)] valid_pack_nonempty [OF assms(1)] by auto
  then have k: "plain_key (pack_str l)" "\<not> starts_with (pack_str l) 0x5B"
    by (auto simp: plain_key_def list_all_iff ascii_defs is_hyphen_def is_whitespace_def)
      (cases "pack_str l"; auto simp: ascii_defs is_hyphen_def)
  have hex: "\<not> is_whitespace c" if "is_ascii_hexdigit c" for c
    using that by (auto simp: is_ascii_hexdigit_def is_ascii_digit_def is_whitespace_def)
  have p: "\<forall>c \<in> set (profile_to_string p). \<not> is_whitespace c"
    using upper_hex_digits [of 4 "unat (profile_language_id p)"] upper_hex_digits [of 8 "unat (profile_klid p)"] hex
    by (auto simp: profile_to_string_def list_all_iff is_whitespace_def)
  note row = key_row_plain [OF k clean_line_plain [OF p]]
  show "is_line (profile_row (l, p))" using row(1) by (simp add: profile_row_def plain_row_def)
  show "document_row n (profile_row (l, p)) st =
     Inr (st\<lparr>ds_input_profiles := ds_input_profiles st @ [(pack_str l, profile_to_string p)]\<rparr>)"
    unfolding profile_row_def prod.case plain_row_read [OF row(1) assms(2)] section_row_def config_section.case
      profiles_row_def row(2)
    using assms(3) by (simp add: row(3) trim_plain [OF p])
qed

lemma profile_rows:
  "\<forall>(l, p) \<in> set ps. valid_pack l \<Longrightarrow> ds_section st = Some SecInputProfiles \<Longrightarrow>
   length (ds_input_profiles st) + length ps \<le> 64 \<Longrightarrow>
   document_rows n (map profile_row ps) st = Inr (st\<lparr>ds_input_profiles := ds_input_profiles st
     @ map (\<lambda>(l, p). (pack_str l, profile_to_string p)) ps\<rparr>)"
proof (induction ps arbitrary: n st)
  case (Cons e ps)
  obtain l p where e: "e = (l, p)" by (cases e)
  show ?case using Cons profile_row_read(1) [of l st n p] by (simp add: e)
qed simp

lemma strategy_id_last: "last (strategy_id s) \<noteq> 0x5D" "strategy_id s \<noteq> []"
  by (cases s; simp add: strategy_id_def)+

lemma section_name_last: "last row \<noteq> 0x5D \<Longrightarrow> section_name row = None"
  by (cases row) (auto simp: section_name_def strip_suffix_char_def split: if_splits)

lemma rule_row_plain:
  assumes "clean_ends is_whitespace k" "k \<noteq> []" "\<not> starts_with k 0x23" "is_line k"
  shows "plain_row (rule_text (k, s))"
proof -
  have "clean_ends is_whitespace (rule_text (k, s))"
    unfolding rule_text_def prod.case by (rule clean_ends_append [OF assms(1) _ assms(2)]) simp_all
  moreover have "is_line (rule_text (k, s))"
    using assms(4) strategy_id_line(4) [of s] by (auto simp: rule_text_def is_line_def)
  moreover have "last (rule_text (k, s)) \<noteq> 0x5D" using strategy_id_last by (simp add: rule_text_def)
  moreover have "\<not> starts_with (rule_text (k, s)) 0x23" using assms(2,3) by (cases k) (simp_all add: rule_text_def)
  ultimately show ?thesis using assms(2) by (simp add: plain_row_def section_name_last rule_text_def)
qed

definition rule_rows :: "backend_rules \<Rightarrow> ustr list" where
  "rule_rows r = map rule_text (br_exact r) @ [lit ''* = '' @ strategy_id (br_fallback r)]"

lemma rule_rows_plain: "rules_saveable U r \<Longrightarrow> \<forall>row \<in> set (rule_rows r). plain_row row"
proof -
  assume r: "rules_saveable U r"
  have "plain_row (rule_text (lit ''*'', s))" for s
    by (rule rule_row_plain) (simp_all add: clean_ends_def is_whitespace_def is_line_def)
  then have "plain_row (lit ''* = '' @ strategy_id s)" for s by (simp add: rule_text_def)
  moreover have "plain_row (rule_text e)" if "e \<in> set (br_exact r)" for e
    using r that by (cases e) (auto simp: rules_saveable_def stable_key_def intro!: rule_row_plain)
  ultimately show ?thesis by (auto simp: rule_rows_def simp del: lit_simps)
qed

lemma rule_rows_read:
  assumes "rules_saveable U r"
  shows "rules_from_lines U (rule_rows r) = Inr r"
proof -
  have "\<forall>row \<in> set (rule_rows r). is_line row" using rule_rows_plain [OF assms] plain_row_line by blast
  then have "str_lines (rules_to_text r) = rule_rows r"
    using str_lines_unlines unfolding rules_to_text_def rule_rows_def by blast
  then show ?thesis using rules_roundtrip [of r U] assms by (simp add: rules_saveable_def)
qed

section \<open>Section by section\<close>

definition heading :: "string \<Rightarrow> ustr" where
  "heading name = 0x5B # lit name @ [0x5D]"

definition start_rows :: "configuration_document \<Rightarrow> ustr list" where
  "start_rows d =
     [lit ''# AutoKeyboardLayot configuration'', key_value ''schema_version'' (decimal CONFIGURATION_SCHEMA_VERSION), [],
      heading ''packages'', key_value ''mode'' (mode_as_config (cd_package_mode d)), [],
      heading ''settings'', ui_row (cd_ui_language d)]"

definition written_rows :: "configuration_document \<Rightarrow> ustr list" where
  "written_rows d =
     start_rows d @ settings_text_lines (cd_settings d) @ [[], heading ''user_dictionary''] @ cd_user_dictionary d
     @ [[], heading ''input_profiles''] @ map profile_row (cd_input_profiles d)
     @ [[], heading ''word_exclusions''] @ cd_word_exclusions d
     @ [[], heading ''process_exclusions''] @ cd_process_exclusions d
     @ [[], heading ''backend_rules''] @ rule_rows (cd_backend_rules d)"

lemma unlines_append: "unlines (xs @ ys) = unlines xs @ unlines ys"
  by (simp add: unlines_def)

lemma unlines_Cons: "unlines (x # xs) = x @ 10 # unlines xs" "unlines [] = []"
  by (simp_all add: unlines_def)

lemma document_text_rows: "document_text d = unlines (written_rows d)"
  unfolding document_text_def written_rows_def start_rows_def append_section_def heading_def ui_row_def key_value_def
    settings_to_text_def rules_to_text_def rule_rows_def unlines_append unlines_Cons
  by (simp add: unlines_append unlines_Cons)

lemmas evaluate_row = document_row_def is_row_def trim_def trim_matches_def is_whitespace_def heading_def
  section_name_def strip_suffix_char_def enter_section_def ascii_defs Let_def

lemma heading_rows:
  "document_row n (heading ''settings'') st = Inr (st\<lparr>ds_section := Some SecSettings\<rparr>)"
  "document_row n (heading ''user_dictionary'') st = Inr (st\<lparr>ds_section := Some SecUserDictionary\<rparr>)"
  "document_row n (heading ''word_exclusions'') st = Inr (st\<lparr>ds_section := Some SecWordExclusions\<rparr>)"
  "document_row n (heading ''process_exclusions'') st = Inr (st\<lparr>ds_section := Some SecProcessExclusions\<rparr>)"
  "document_row n (heading ''backend_rules'') st = Inr (st\<lparr>ds_backend_seen := True, ds_section := Some SecBackendRules\<rparr>)"
  "\<not> ds_profiles_seen st \<Longrightarrow> document_row n (heading ''input_profiles'') st =
     Inr (st\<lparr>ds_profiles_seen := True, ds_section := Some SecInputProfiles\<rparr>)"
  "\<not> ds_packages_seen st \<Longrightarrow> document_row n (heading ''packages'') st =
     Inr (st\<lparr>ds_packages_seen := True, ds_section := Some SecPackages\<rparr>)"
  by (simp_all add: evaluate_row)

lemma start_rows_read:
  assumes "ui_from_config (as_config (cd_ui_language d)) = cd_ui_language d"
  shows "document_rows 1 (start_rows d) document_start = Inr (document_start\<lparr>ds_schema := Some 4, ds_packages_seen := True,
     ds_package_mode := Some (cd_package_mode d), ds_section := Some SecSettings, ds_ui_language_seen := True,
     ds_ui_language := cd_ui_language d, ds_settings := ui_row (cd_ui_language d) @ [10], ds_settings_lines := [8]\<rparr>)"
proof -
  have comment: "document_row n (lit ''# AutoKeyboardLayot configuration'') st = Inr st" for n st
    by (simp add: evaluate_row)
  have four: "decimal CONFIGURATION_SCHEMA_VERSION = [0x34]"
    by (simp add: decimal.simps consts_def)
  have schema: "document_row n (key_value ''schema_version'' [0x34]) st = Inr (st\<lparr>ds_schema := Some 4\<rparr>)"
    if "ds_section st = None" "ds_schema st = None" for n st
    using that by (simp add: evaluate_row key_value_def schema_row_def split_once_def parse_u32_def)
  have mode: "document_row n (key_value ''mode'' (mode_as_config m)) st = Inr (st\<lparr>ds_package_mode := Some m\<rparr>)"
    if "ds_section st = Some SecPackages" "ds_package_mode st = None" for n st m
    using that by (cases m) (simp_all add: evaluate_row key_value_def section_row_def packages_row_def split_once_def mode_as_config_def)
  show ?thesis
    unfolding start_rows_def four document_rows.simps comment sum.case blank_row
    by (simp add: schema heading_rows mode blank_row ui_row_read(1) [OF assms] document_start_def del: lit_simps)
qed

lemmas rows_then =
  document_rows_append [OF user_dictionary_rows] document_rows_append [OF word_exclusion_rows]
  document_rows_append [OF process_exclusion_rows] document_rows_append [OF profile_rows]
  document_rows_append [OF setting_rows]

lemma written_rows_read:
  assumes "document_saveable U d" "lists_stored U d"
  shows "\<exists>st. document_rows 1 (written_rows d) document_start = Inr st \<and> ds_schema st = Some 4
     \<and> ds_package_mode st = Some (cd_package_mode d) \<and> ds_ui_language st = cd_ui_language d
     \<and> ds_settings st = unlines (ui_row (cd_ui_language d) # tl (settings_text_lines (cd_settings d)))
     \<and> map snd (ds_user_dictionary st) = cd_user_dictionary d \<and> map snd (ds_word_exclusions st) = cd_word_exclusions d
     \<and> map snd (ds_process_exclusions st) = cd_process_exclusions d
     \<and> ds_input_profiles st = map (\<lambda>(l, p). (pack_str l, profile_to_string p)) (cd_input_profiles d)
     \<and> ds_backend_seen st \<and> ds_backend_rules st = rule_rows (cd_backend_rules d)"
proof -
  let ?comment = "lit ''# AutoKeyboardLayot settings v2''"
  have lines: "settings_text_lines s = ?comment # tl (settings_text_lines s)" for s
    by (simp only: settings_text_lines_def list.sel)
  have comment: "document_row n ?comment st = Inr st" for n st by (simp add: evaluate_row)
  have ui: "ui_from_config (as_config (cd_ui_language d)) = cd_ui_language d" using assms(1) by (simp add: document_saveable_def)
  have settings: "\<forall>row \<in> set (tl (settings_text_lines (cd_settings d))). setting_row row"
    using assms(1) by (intro written_settings_rows) (auto simp: document_saveable_def settings_saveable_def)
  have rows: "\<forall>row \<in> set (cd_user_dictionary d). plain_row row" "\<forall>row \<in> set (cd_word_exclusions d). plain_row row"
    "\<forall>row \<in> set (cd_process_exclusions d). plain_row row"
    using assms(2) by (auto simp: lists_stored_def stored_list_def)
  have profiles: "\<forall>(l, p) \<in> set (cd_input_profiles d). valid_pack l" "length (cd_input_profiles d) \<le> 64"
    using assms(1) by (auto simp: document_saveable_def profiles_saveable_def)
  have rules: "\<forall>row \<in> set (rule_rows (cd_backend_rules d)). plain_row row"
    using assms(1) by (intro rule_rows_plain [of U]) (simp add: document_saveable_def)
  show ?thesis
    unfolding written_rows_def document_rows_append [OF start_rows_read [OF ui]]
    by (subst lines)
      (simp add: rows_then settings rows profiles rules blank_row heading_rows comment backend_rule_rows
        document_start_def unlines_Cons del: lit_simps upt_Suc)
qed

lemma ui_row_before_settings:
  assumes "document_saveable U d"
  shows "settings_try_from_text (unlines (ui_row (cd_ui_language d) # tl (settings_text_lines (cd_settings d))))
    = Inr ((cd_settings d)\<lparr>st_refused_force_hotkey := None\<rparr>)"
proof -
  let ?s = "cd_settings d" and ?ui = "ui_row (cd_ui_language d)"
  have ui: "ui_from_config (as_config (cd_ui_language d)) = cd_ui_language d"
    and s: "settings_saveable ?s"
    using assms by (simp_all add: document_saveable_def)
  have line: "is_line row" if "row \<in> set (tl (settings_text_lines ?s))" for row
    using that written_settings_rows [of ?s] s setting_row_plain plain_row_line by (auto simp: settings_saveable_def)
  define rows where "rows = tl (settings_text_lines ?s)"
  have written: "settings_to_text ?s = unlines (lit ''# AutoKeyboardLayot settings v2'' # rows)"
    unfolding settings_to_text_def rows_def settings_text_lines_def by (simp only: list.sel)
  note ui_row = ui_row_read(2,3) [OF ui, of "document_start\<lparr>ds_section := Some SecSettings\<rparr>"]
  have "str_lines (unlines (?ui # rows)) = ?ui # rows"
    using line ui_row(1) unfolding rows_def by (intro str_lines_unlines) (auto simp: document_start_def)
  moreover have "str_lines (settings_to_text ?s) = lit ''# AutoKeyboardLayot settings v2'' # rows"
    using line unfolding written rows_def by (intro str_lines_unlines) (auto simp: is_line_def)
  moreover have "strip_prefix [0xFEFF] (unlines (?ui # rows)) = None" "strip_prefix [0xFEFF] (settings_to_text ?s) = None"
    by (simp_all add: written unlines_def ui_row_def)
  moreover have "settings_lines True 1 (?ui # rows) parse_start
      = settings_lines True 1 (lit ''# AutoKeyboardLayot settings v2'' # rows) parse_start"
    using ui_row(2) by (simp add: comment_line document_start_def del: lit_simps)
  ultimately have "settings_try_from_text (unlines (?ui # rows)) = settings_try_from_text (settings_to_text ?s)"
    by (simp only: settings_try_from_text_def settings_parse_text_def option.case Let_def)
  then show ?thesis
    using settings_roundtrip [of ?s] s unfolding rows_def settings_saveable_def by simp
qed

lemma start_rows_lines: "document_saveable U d \<Longrightarrow> \<forall>row \<in> set (start_rows d). is_line row"
proof -
  assume "document_saveable U d"
  then have "ui_from_config (as_config (cd_ui_language d)) = cd_ui_language d" by (simp add: document_saveable_def)
  note ui = ui_row_read(2) [OF this, of "document_start\<lparr>ds_section := Some SecSettings\<rparr>"]
  have digits: "\<forall>c \<in> set (decimal n). c \<noteq> 10 \<and> c \<noteq> 13" for n
    by (auto simp: is_ascii_digit_def dest: decimal_digits)
  then have "is_line (key_value ''schema_version'' (decimal n))" for n by (auto simp: is_line_def key_value_def)
  moreover have "is_line (key_value ''mode'' (mode_as_config m))" for m
    by (cases m) (simp_all add: is_line_def key_value_def mode_as_config_def)
  moreover have "is_line (lit ''# AutoKeyboardLayot configuration'')" "is_line (heading ''packages'')"
    "is_line (heading ''settings'')" "is_line []"
    by (simp_all add: is_line_def heading_def)
  ultimately show ?thesis using ui by (simp add: start_rows_def document_start_def del: lit_simps)
qed

lemma written_rows_lines:
  assumes "document_saveable U d" "lists_stored U d"
  shows "\<forall>row \<in> set (written_rows d). is_line row"
proof -
  have "\<forall>row \<in> set (settings_text_lines (cd_settings d)). is_line row"
    using assms(1) by (intro settings_lines_are_lines) (simp add: document_saveable_def)
  moreover have "is_line row" if "row \<in> set (rule_rows (cd_backend_rules d))" for row
    using that rule_rows_plain [of U] assms(1) plain_row_line by (auto simp: document_saveable_def)
  moreover have "\<forall>row \<in> set (map profile_row (cd_input_profiles d)). is_line row"
    using assms(1) profile_row_read(2) [of _ "document_start\<lparr>ds_section := Some SecInputProfiles\<rparr>"]
    by (auto simp: document_saveable_def profiles_saveable_def document_start_def)
  moreover have "is_line row" if "row \<in> set (cd_user_dictionary d) \<union> set (cd_word_exclusions d) \<union> set (cd_process_exclusions d)" for row
    using that assms(2) plain_row_line by (auto simp: lists_stored_def stored_list_def)
  moreover have "is_line (heading ''user_dictionary'')" "is_line (heading ''input_profiles'')" "is_line (heading ''word_exclusions'')"
    "is_line (heading ''process_exclusions'')" "is_line (heading ''backend_rules'')" "is_line []"
    by (simp_all add: is_line_def heading_def)
  ultimately show ?thesis
    using start_rows_lines [OF assms(1)] unfolding written_rows_def set_append list.set by blast
qed

lemma fault_without_note: "document_fault (without_note d) = document_fault d"
  by (simp add: without_note_def document_fault_def del: lit_simps cong: sum.case_cong if_cong)

lemma written_document_read:
  assumes "document_saveable U d" "lists_stored U d" "document_fault d = None"
  shows "document_from_text U (document_text d) = Inr (without_note d)"
proof -
  obtain st where st: "document_rows 1 (written_rows d) document_start = Inr st"
    and head: "ds_schema st = Some 4" "ds_package_mode st = Some (cd_package_mode d)" "ds_ui_language st = cd_ui_language d"
    and settings: "ds_settings st = unlines (ui_row (cd_ui_language d) # tl (settings_text_lines (cd_settings d)))"
    and lists: "map snd (ds_user_dictionary st) = cd_user_dictionary d" "map snd (ds_word_exclusions st) = cd_word_exclusions d"
      "map snd (ds_process_exclusions st) = cd_process_exclusions d"
    and profiles: "ds_input_profiles st = map (\<lambda>(l, p). (pack_str l, profile_to_string p)) (cd_input_profiles d)"
    and rules: "ds_backend_seen st" "ds_backend_rules st = rule_rows (cd_backend_rules d)"
    using written_rows_read [OF assms(1,2)] by blast
  have stored: "stored_list (lexicon_entry U) (cd_user_dictionary d)" "stored_list (lexicon_entry U) (cd_word_exclusions d)"
    "stored_list (process_entry U) (cd_process_exclusions d)"
    using assms(2) by (simp_all add: lists_stored_def)
  have entries: "canonical_lexicon_entries U (ds_user_dictionary st) = Inr (cd_user_dictionary d)"
    "canonical_lexicon_entries U (ds_word_exclusions st) = Inr (cd_word_exclusions d)"
    "canonical_process_entries U (ds_process_exclusions st) = Inr (cd_process_exclusions d)"
    using stored_list_canonical [OF stored(1) lists(1)] stored_list_canonical [OF stored(2) lists(2)]
      stored_list_canonical [OF stored(3) lists(3)]
    by (simp_all add: canonical_lexicon_entries_def canonical_process_entries_def)
  have parts: "selections_parse (ds_input_profiles st) = Inr (cd_input_profiles d)"
    "settings_try_from_text (ds_settings st) = Inr ((cd_settings d)\<lparr>st_refused_force_hotkey := None\<rparr>)"
    "rules_from_lines U (ds_backend_rules st) = Inr (cd_backend_rules d)"
    using assms(1) selections_written [of "cd_input_profiles d"] ui_row_before_settings [OF assms(1)] rule_rows_read [of U]
    unfolding profiles settings rules(2) document_saveable_def by simp_all
  have document: "document_of U st = Inr (without_note d)"
    unfolding document_of_def parts entries sum.case if_P [OF rules(1)]
    by (simp add: head without_note_def)
  note lines = written_rows_lines [OF assms(1,2)]
  have "without_byte_order_mark (document_text d) = document_text d"
    by (simp add: without_byte_order_mark_def document_text_def unlines_def)
  then have "str_lines (without_byte_order_mark (document_text d)) = written_rows d"
    using str_lines_unlines [OF lines] by (simp add: document_text_rows)
  moreover have "schema_fault st = None" by (simp add: schema_fault_def head consts_def)
  moreover have "lists_stored U (without_note d)" "document_fault (without_note d) = None"
    using assms(2,3) fault_without_note [of d] by (simp_all add: lists_stored_def without_note_def)
  note stored_validates [OF this]
  ultimately show ?thesis by (simp only: document_from_text_def st document sum.case option.case prod.case)
qed

end
