(* ===== verification/Configuration_Loaded.thy ===== *)
theory Configuration_Loaded
  imports Configuration_Round_Trip
begin

text \<open>
  What is loaded from a configuration file can be saved again: every part a reader accepts has the form in which it is
  written.
\<close>

section \<open>What a loaded document satisfies\<close>

definition settings_ready :: "settings \<Rightarrow> bool" where
  "settings_ready s \<longleftrightarrow>
     hotkey_new (st_force_hotkey_virtual_key s) (st_force_hotkey_modifiers s)
       = Inr \<lparr>hk_key = st_force_hotkey_virtual_key s, hk_mods = st_force_hotkey_modifiers s\<rparr>
     \<and> finite (st_enabled_input_packs s) \<and> (\<forall>l \<in> st_enabled_input_packs s. valid_pack l)"

lemma select_packs_valid:
  "select_packs i ids A = Inr B \<Longrightarrow> finite A \<Longrightarrow> \<forall>l \<in> A. valid_pack l \<Longrightarrow> finite B \<and> (\<forall>l \<in> B. valid_pack l)"
  by (induction i ids A rule: select_packs.induct) (auto split: if_splits sum.splits dest: pack_parse_valid)

lemma parse_pack_selection_valid: "parse_pack_selection v = Inr B \<Longrightarrow> finite B \<and> (\<forall>l \<in> B. valid_pack l)"
  using select_packs_valid [of 0 _ "{}" B] by (auto simp: parse_pack_selection_def split: if_splits)

lemma legacy_pack_valid: "map_of legacy_packs k = Some t \<Longrightarrow> valid_pack (from_valid_ascii t)"
  by (auto simp: legacy_packs_def valid_pack_def pack_parse_def valid_pack_text_def byte_len_def len_utf8_def
      is_hyphen_def from_valid_ascii_def ascii_defs split: if_splits)

lemma bool_field_ready: "map_of bool_settings k = Some u \<Longrightarrow> settings_ready (u (\<lambda>_. b) s) = settings_ready s"
proof -
  assume "map_of bool_settings k = Some u"
  then have "u \<in> snd ` set bool_settings" by (force dest: map_of_SomeD)
  then show ?thesis unfolding bool_settings_def list.set image_insert image_empty snd_conv insert_iff empty_iff
    by (elim disjE) (simp_all add: settings_ready_def)
qed

lemma settings_ready_packs:
  "settings_ready s \<Longrightarrow> finite A \<and> (\<forall>l \<in> A. valid_pack l) \<Longrightarrow> settings_ready (s\<lparr>st_enabled_input_packs := A\<rparr>)"
  by (simp add: settings_ready_def)

lemma set_pack_ready: "settings_ready s \<Longrightarrow> valid_pack l \<Longrightarrow> settings_ready (set_pack_enabled l b s)"
  by (simp add: settings_ready_def set_pack_enabled_def)

lemma apply_setting_ready:
  "apply_setting strict n k v p = Inr q \<Longrightarrow> settings_ready (ps_settings p) \<Longrightarrow> settings_ready (ps_settings q)"
  unfolding apply_setting_def Let_def
  by (auto simp: settings_error_at_def bool_field_ready settings_ready_packs set_pack_ready
      simp del: lit_simps dest: parse_pack_selection_valid legacy_pack_valid split: if_splits sum.splits option.splits)

lemma settings_lines_ready:
  "settings_lines strict n ls p = Inr q \<Longrightarrow> settings_ready (ps_settings p) \<Longrightarrow> settings_ready (ps_settings q)"
proof (induction strict n ls p rule: settings_lines.induct)
  case (2 strict n l ls p)
  then obtain p' where p': "settings_line strict n l p = Inr p'" and rest: "settings_lines strict (n + 1) ls p' = Inr q"
    by (auto split: sum.splits)
  have "settings_ready (ps_settings p')"
    using p' 2(3) apply_setting_ready [of _ _ _ _ "p\<lparr>ps_seen := _\<rparr>" p'] apply_setting_ready [of _ _ _ _ p p']
    by (auto simp: settings_line_def Let_def settings_error_at_def split: if_splits option.splits)
  with 2(1) [OF p' rest] show ?case .
qed simp

lemma settings_ready_default: "settings_ready settings_default"
  by (simp add: settings_ready_def settings_default_def hotkey_default_def hotkey_new_def Let_def consts_def types_text_def
      is_digit_key_def is_letter_key_def is_function_key_def valid_pack_def pack_parse_def valid_pack_text_def
      byte_len_def len_utf8_def is_hyphen_def language_defs)

lemma settle_hotkey_ready:
  assumes "settle_hotkey strict p = Inr s" "settings_ready (ps_settings p)"
  shows "settings_ready s"
proof -
  have usable: "hotkey_new (hk_key h) (hk_mods h) = Inr \<lparr>hk_key = hk_key h, hk_mods = hk_mods h\<rparr>"
    if "from_parts key mods = Inr h" for key mods h
    using that hotkey_new_usable usable_canonical_new by (auto simp: from_parts_def split: option.splits sum.splits)
  show ?thesis
    using assms usable
    by (fastforce simp: settle_hotkey_def Let_def settings_error_at_def settings_ready_def split: if_splits sum.splits option.splits)
qed

lemma parsed_settings_ready: "settings_try_from_text t = Inr s \<Longrightarrow> settings_ready s"
  using settings_lines_ready [of True 1 _ parse_start] settings_ready_default settle_hotkey_ready
  by (auto simp: settings_try_from_text_def settings_parse_text_def Let_def parse_start_def split: sum.splits)

section \<open>Profiles, rules and the language\<close>

lemma selection_choices_saveable:
  "selection_choices i named ex = Inr ps \<Longrightarrow> om_sorted ex \<Longrightarrow> length ex \<le> i \<Longrightarrow> i \<le> 64 \<Longrightarrow>
   \<forall>(l, p) \<in> set ex. valid_pack l \<and> profile_parse (profile_to_string p) = Inr p \<Longrightarrow> profiles_saveable ps"
proof (induction i named ex rule: selection_choices.induct)
  case (2 i name profile rows ex)
  then obtain l p where lp: "pack_parse name = Inr l" "profile_parse profile = Inr p" "om_lookup ex l = None" "i < 64"
    and rest: "selection_choices (Suc i) rows (om_insert l p ex) = Inr ps"
    by (auto split: if_splits sum.splits)
  have "\<forall>(l, p) \<in> set (om_insert l p ex). valid_pack l \<and> profile_parse (profile_to_string p) = Inr p"
    using set_om_insert [of l p ex] 2(6) pack_parse_valid [OF lp(1)] profile_text_roundtrip [OF lp(2)] by auto
  moreover have "length (om_insert l p ex) \<le> Suc i" using 2(4) by (simp add: length_om_insert [OF lp(3)])
  ultimately show ?case
    using 2(1) [OF _ lp(1,2)] lp(3,4) rest om_sorted_insert [OF 2(3)] by simp
qed (simp add: profiles_saveable_def)

lemma parsed_profiles_saveable: "selections_parse named = Inr ps \<Longrightarrow> profiles_saveable ps"
  using selection_choices_saveable [of 0 named "[]" ps] by (simp add: selections_parse_def om_sorted_def)

lemma rule_lines_sorted: "rule_lines U n ls (ex, fb) = Inr (ex', fb') \<Longrightarrow> om_sorted ex \<Longrightarrow> om_sorted ex'"
proof (induction ls arbitrary: n ex fb)
  case (Cons l ls)
  then obtain ex1 fb1 where st: "rule_line U n l (ex, fb) = Inr (ex1, fb1)"
    and rest: "rule_lines U (n + 1) ls (ex1, fb1) = Inr (ex', fb')"
    by (cases "rule_line U n l (ex, fb)") auto
  have "om_sorted ex1"
    using st Cons.prems(2) by (auto simp: rule_line_def Let_def om_sorted_insert split: if_splits option.splits)
  with Cons.IH [OF rest] show ?case .
qed simp

lemma parsed_rules_sorted: "rules_from_lines U ls = Inr r \<Longrightarrow> om_sorted (br_exact r)"
  using rule_lines_sorted [of U 1 ls "[]" None] by (auto simp: rules_from_lines_def om_sorted_def split: sum.splits)

lemma default_rules_sorted: "om_sorted (br_exact (backend_rules_default U))"
  using parsed_rules_sorted [of U built_in_rules] by (auto simp: backend_rules_default_def om_sorted_def split: sum.split)

definition ui_read :: "ui_language_preference \<Rightarrow> bool" where
  "ui_read u \<longleftrightarrow> ui_from_config (as_config u) = u"

lemma ui_read_config: "ui_read (ui_from_config v)"
  by (simp add: ui_read_def ui_from_config_fixed)

lemma document_row_ui: "document_row n row st = Inr st' \<Longrightarrow> ui_read (ds_ui_language st) \<Longrightarrow> ui_read (ds_ui_language st')"
  by (auto simp: document_row_def Let_def enter_section_def schema_row_def section_row_def packages_row_def profiles_row_def
      settings_row_def ui_read_config simp del: lit_simps split: if_splits option.splits config_section.splits)

lemma document_rows_ui:
  "document_rows n rows st = Inr st' \<Longrightarrow> ui_read (ds_ui_language st) \<Longrightarrow> ui_read (ds_ui_language st')"
  by (induction n rows st rule: document_rows.induct) (auto split: sum.splits dest: document_row_ui)

lemma default_ui_read: "ui_read ui_language_default"
  using ui_read_config [of "[]"] by (simp add: ui_from_config_def trim_def trim_matches_def)

section \<open>Loading and saving\<close>

lemma loaded_document:
  assumes "lower_charwise U" "document_from_text U source = Inr d"
    and "\<forall>(k, s) \<in> set (br_exact (cd_backend_rules d)). stable_key U k"
  shows "document_saveable U d" "lists_stored U d" "document_fault d = None"
proof -
  obtain st d0 where st: "document_rows 1 (str_lines (without_byte_order_mark source)) document_start = Inr st"
    and d0: "document_of U st = Inr d0" "canonicalize_and_validate U d0 = (None, d)"
    using assms(2) by (auto simp: document_from_text_def split: sum.splits option.splits prod.splits)
  note lists = validated_lists_stored [OF assms(1) d0(2)]
  show "lists_stored U d" "document_fault d = None" by (rule lists)+
  have same: "cd_settings d = cd_settings d0" "cd_input_profiles d = cd_input_profiles d0"
    "cd_backend_rules d = cd_backend_rules d0" "cd_ui_language d = cd_ui_language d0"
    by (subst lists(3), simp)+
  have "settings_ready (cd_settings d0)" "profiles_saveable (cd_input_profiles d0)" "om_sorted (br_exact (cd_backend_rules d0))"
    "cd_ui_language d0 = ds_ui_language st"
    using d0(1) by (auto simp: document_of_def dest: parsed_settings_ready parsed_profiles_saveable parsed_rules_sorted
        intro: default_rules_sorted split: sum.splits if_splits)
  moreover have "ui_read (ds_ui_language st)"
    using document_rows_ui [OF st] default_ui_read by (simp add: document_start_def)
  moreover have "card (st_enabled_input_packs (cd_settings d)) \<le> 64"
    using lists(2) by (auto simp: document_fault_def split: if_splits)
  ultimately show "document_saveable U d"
    using assms(3) by (simp add: document_saveable_def settings_saveable_def settings_ready_def rules_saveable_def ui_read_def same)
qed

text \<open>A configuration that is saved reads back as it was: for a document whose lists, profiles, hotkey and rules
  pass the program's own checks, the check of the written text never refuses to save it, and what is loaded from the
  text is the document with its lists in stored form. Excepted is a rule whose pattern is not stable (two layers of
  quotes).\<close>

theorem saved_configuration_reads_back:
  assumes "lower_charwise U" and "document_saveable U d" and "canonicalize_and_validate U d = (None, d')"
  shows "\<exists>written. document_to_text U d = Inr written \<and> document_from_text U written = Inr (without_note d')"
proof -
  note lists = validated_lists_stored [OF assms(1,3)]
  have same: "cd_settings d' = cd_settings d" "cd_input_profiles d' = cd_input_profiles d"
    "cd_backend_rules d' = cd_backend_rules d" "cd_ui_language d' = cd_ui_language d"
    by (subst lists(3), simp)+
  then have ok: "document_saveable U d'" using assms(2) by (simp add: document_saveable_def)
  have out: "document_from_text U (document_text d') = Inr (without_note d')"
    by (rule written_document_read [OF ok lists(1,2)])
  moreover have "document_to_text U d = Inr (document_text d')"
    using out by (simp add: document_to_text_def assms(3) Let_def without_note_def)
  ultimately show ?thesis by blast
qed


definition sample_source :: ustr where
  "sample_source = unlines (map lit [''schema_version=1'', ''[user_dictionary]'', ''EN: Rust'', ''[process_exclusions]'', ''C:/P/A.EXE'', ''[backend_rules]'', ''a.exe=replay''])"

lemmas evaluate_entry = lexicon_entry_def lexicon_form_def normalize_pack_entry_def parse_entry_def split_once_def from_id_def
  normalize_word_def format_pack_entry_def language_id_def CANONICAL_IDS_def trim_end_def is_control_def process_entry_def
  normalize_executable_name_def process_name_reads_back_def last_piece_def is_path_separator_def forbidden_in_windows_path_def

lemma sample_rows:
  "document_rows 1 (str_lines (without_byte_order_mark sample_source)) document_start =
   Inr (document_start\<lparr>ds_schema := Some 1, ds_section := Some SecBackendRules, ds_user_dictionary := [(3, lit ''EN: Rust'')],
     ds_process_exclusions := [(5, lit ''C:/P/A.EXE'')], ds_backend_seen := True,
     ds_backend_rules := [lit ''a.exe=replay''], ds_backend_lines := [7]\<rparr>)"
proof -
  have "str_lines (without_byte_order_mark sample_source) = map lit [''schema_version=1'', ''[user_dictionary]'',
      ''EN: Rust'', ''[process_exclusions]'', ''C:/P/A.EXE'', ''[backend_rules]'', ''a.exe=replay'']"
    by (simp add: sample_source_def without_byte_order_mark_def unlines_def str_lines_def strip_cr_def)
  then show ?thesis
    by (simp add: evaluate_row schema_row_def section_row_def split_once_def parse_u32_def document_start_def)
qed

lemma sample_entries:
  "canonical_lexicon_entries ascii_tables [(3, lit ''EN: Rust'')] = Inr [lit ''en-US: rust'']"
  "canonical_process_entries ascii_tables [(5, lit ''C:/P/A.EXE'')] = Inr [lit ''a.exe'']"
  "canonical_lexicon_entries ascii_tables [(1, lit ''en-US: rust'')] = Inr [lit ''en-US: rust'']"
  "canonical_process_entries ascii_tables [(1, lit ''a.exe'')] = Inr [lit ''a.exe'']"
  by (simp_all add: canonical_lexicon_entries_def canonical_process_entries_def evaluate_row evaluate_entry ordered_set_def)

lemma no_entries: "canonical_lexicon_entries U [] = Inr []" "canonical_process_entries U [] = Inr []"
  by (simp_all add: canonical_lexicon_entries_def canonical_process_entries_def ordered_set_def)

lemma sample_parts:
  "rules_from_lines ascii_tables [lit ''a.exe=replay''] = Inr \<lparr>br_exact = [(lit ''a.exe'', PhysicalReplay)], br_fallback = CapabilityProbe\<rparr>"
  "settings_try_from_text [] = Inr settings_default"
  by (simp add: rules_from_lines_def rule_line_def evaluate_row evaluate_entry normalize_rule_pattern_def
      normalize_process_path_def strategy_from_id_def om_lookup_def)
    (simp add: settings_try_from_text_def settings_parse_text_def str_lines_def parse_start_def settle_hotkey_def)

lemma default_settings_fault:
  "cd_settings d = settings_default \<Longrightarrow> cd_word_exclusions d = [] \<Longrightarrow> document_fault d = None"
  using settings_ready_default by (simp add: document_fault_def settings_ready_def) (simp add: settings_default_def)

definition sample_document :: configuration_document where
  "sample_document = \<lparr>cd_package_mode = ModeLegacy, cd_settings = settings_default, cd_input_profiles = [],
     cd_ui_language = ui_language_default, cd_user_dictionary = [lit ''en-US: rust''], cd_word_exclusions = [],
     cd_process_exclusions = [lit ''a.exe''],
     cd_backend_rules = \<lparr>br_exact = [(lit ''a.exe'', PhysicalReplay)], br_fallback = CapabilityProbe\<rparr>\<rparr>"

lemma sample_source_read: "document_from_text ascii_tables sample_source = Inr sample_document"
proof -
  let ?st = "document_start\<lparr>ds_schema := Some 1, ds_section := Some SecBackendRules, ds_user_dictionary := [(3, lit ''EN: Rust'')],
     ds_process_exclusions := [(5, lit ''C:/P/A.EXE'')], ds_backend_seen := True,
     ds_backend_rules := [lit ''a.exe=replay''], ds_backend_lines := [7]\<rparr>"
  have "document_of ascii_tables ?st = Inr sample_document"
    by (simp add: document_of_def document_start_def selections_parse_def sample_entries sample_parts no_entries
        sample_document_def del: lit_simps)
  moreover have "canonicalize_and_validate ascii_tables sample_document = (None, sample_document)"
    by (simp add: canonicalize_and_validate_def sample_document_def sample_entries no_entries default_settings_fault Let_def
        del: lit_simps One_nat_def)
  moreover have "schema_fault ?st = None" by (simp add: schema_fault_def document_start_def consts_def)
  ultimately show ?thesis
    unfolding document_from_text_def sample_rows by (simp only: sum.case option.case prod.case)
qed

lemma sample_stable: "\<forall>(k, s) \<in> set (br_exact (cd_backend_rules sample_document)). stable_key ascii_tables k"
  by (simp add: sample_document_def stable_key_def normalize_rule_pattern_def normalize_process_path_def evaluate_row
      evaluate_entry clean_ends_def is_line_def)

lemma saved_configuration_reads_back_witness:
  "\<exists>written. document_to_text ascii_tables sample_document = Inr written
     \<and> document_from_text ascii_tables written = Inr (without_note sample_document)"
  by (rule saved_configuration_reads_back [OF ascii_tables_charwise])
    (use loaded_document [OF ascii_tables_charwise sample_source_read sample_stable] stored_validates in auto)


end
