(* ===== verification/Configuration_Merge.thy ===== *)
theory Configuration_Merge
  imports Configuration_Loaded
begin

text \<open>
  \<open>ConfigurationDocument::merge\<close> of \<open>src/configuration.rs\<close>: a draft of the settings window, made from an older
  state, is merged into the configuration as it is now. Settings, profiles and rules are maps from names to texts
  meanwhile; a \<open>BTreeMap<String, String>\<close> is an association list sorted by name.
\<close>

type_synonym named_texts = "(ustr \<times> ustr) list"

record merged_configuration =
  mc_document :: configuration_document
  mc_conflicts :: "ustr list"

definition parsed_or_ours :: "ustr \<Rightarrow> 'e + 'a \<Rightarrow> 'a \<Rightarrow> ustr list \<Rightarrow> 'a \<times> ustr list" where
  "parsed_or_ours name parsed ours conflicts =
     (case parsed of Inr x \<Rightarrow> (x, conflicts) | Inl _ \<Rightarrow> (ours, conflicts @ [name]))"

definition merge_value :: "ustr \<Rightarrow> 'a \<Rightarrow> 'a \<Rightarrow> 'a \<Rightarrow> ustr list \<Rightarrow> 'a \<times> ustr list" where
  "merge_value name base ours theirs conflicts =
     (if ours = base then (theirs, conflicts)
      else (ours, if theirs \<noteq> base \<and> theirs \<noteq> ours then conflicts @ [name] else conflicts))"

fun merge_names ::
  "ustr list \<Rightarrow> named_texts \<Rightarrow> named_texts \<Rightarrow> named_texts \<Rightarrow> named_texts \<times> ustr list \<Rightarrow> named_texts \<times> ustr list" where
  "merge_names [] base ours theirs (merged, conflicts) = (merged, conflicts)"
| "merge_names (name # names) base ours theirs (merged, conflicts) =
     (case merge_value name (om_lookup base name) (om_lookup ours name) (om_lookup theirs name) conflicts of
        (None, conflicts) \<Rightarrow> merge_names names base ours theirs (merged, conflicts)
      | (Some given, conflicts) \<Rightarrow> merge_names names base ours theirs (om_insert name given merged, conflicts))"

definition merge_map ::
  "named_texts \<Rightarrow> named_texts \<Rightarrow> named_texts \<Rightarrow> ustr list \<Rightarrow> named_texts \<times> ustr list" where
  "merge_map base ours theirs conflicts =
     merge_names (ordered_set (map fst base @ map fst ours @ map fst theirs)) base ours theirs ([], conflicts)"

definition merge_entries :: "ustr list \<Rightarrow> ustr list \<Rightarrow> ustr list \<Rightarrow> ustr list" where
  "merge_entries base ours theirs =
     ordered_set (filter (\<lambda>e. e \<in> set theirs \<or> e \<notin> set base) ours @ filter (\<lambda>e. e \<notin> set base) theirs)"

section \<open>Parts of a document as named texts\<close>

text \<open>\<open>collect\<close> into a \<open>BTreeMap\<close>: a later pair replaces an earlier one of the same name.\<close>

definition collect_map :: "(ustr \<times> ustr) list \<Rightarrow> named_texts" where
  "collect_map pairs = foldl (\<lambda>m (k, v). om_insert k v m) [] pairs"

definition key_pairs :: "ustr list \<Rightarrow> (ustr \<times> ustr) list" where
  "key_pairs ls = map (\<lambda>(k, v). (trim k, trim v)) (List.map_filter (split_once 0x3D) ls)"

definition HOTKEY_KEYS :: "ustr list" where
  "HOTKEY_KEYS = map lit [''pause_break_undo'', ''force_hotkey_key'', ''force_hotkey_modifiers'']"

definition HOTKEY_ENTRY :: ustr where
  "HOTKEY_ENTRY = lit ''force_hotkey''"

fun take_values :: "ustr list \<Rightarrow> named_texts \<Rightarrow> ustr list \<times> named_texts" where
  "take_values [] m = ([], m)"
| "take_values (k # ks) m =
     (let v = (case om_lookup m k of Some v \<Rightarrow> v | None \<Rightarrow> []); (vs, m) = take_values ks (om_remove k m) in (v # vs, m))"

definition settings_values :: "settings \<Rightarrow> named_texts" where
  "settings_values s =
     (let (hotkey, m) = take_values HOTKEY_KEYS
        (collect_map (key_pairs (filter (\<lambda>l. \<not> starts_with l 0x23) (map trim (str_lines (settings_to_text s))))))
      in om_insert HOTKEY_ENTRY (join_with 10 hotkey) m)"

definition settings_text :: "named_texts \<Rightarrow> ustr" where
  "settings_text m = concat (map (\<lambda>(key, v).
     if key = HOTKEY_ENTRY
     then concat (map (\<lambda>(key, v). key @ 0x3D # v @ [10]) (zip HOTKEY_KEYS (split_on (\<lambda>c. c = 10) v)))
     else key @ 0x3D # v @ [10]) m)"

definition profile_values :: "input_profile_selections \<Rightarrow> named_texts" where
  "profile_values ps = collect_map (map (\<lambda>(l, p). (pack_str l, profile_to_string p)) ps)"

definition rule_values :: "backend_rules \<Rightarrow> named_texts" where
  "rule_values r = collect_map (key_pairs (str_lines (rules_to_text r)))"

definition rules_text :: "named_texts \<Rightarrow> ustr" where
  "rules_text m = concat (map (\<lambda>(pattern, strategy). pattern @ lit '' = '' @ strategy @ [10]) m)"

section \<open>The merge\<close>

text \<open>An entry that ended up in both lists stays in the one the draft holds it in.\<close>

fun keep_one_list :: "configuration_document \<Rightarrow> ustr list \<Rightarrow> configuration_document \<Rightarrow> configuration_document" where
  "keep_one_list ours [] d = d"
| "keep_one_list ours (e # both) d =
     keep_one_list ours both
       (if e \<in> set (cd_word_exclusions ours) then d\<lparr>cd_user_dictionary := filter (\<lambda>w. w \<noteq> e) (cd_user_dictionary d)\<rparr>
        else d\<lparr>cd_word_exclusions := filter (\<lambda>w. w \<noteq> e) (cd_word_exclusions d)\<rparr>)"

definition document_merge ::
  "unicode \<Rightarrow> configuration_document \<Rightarrow> configuration_document \<Rightarrow> configuration_document \<Rightarrow> merged_configuration" where
  "document_merge U base ours theirs =
     (let (mode, conflicts) = merge_value (lit ''mode'') (cd_package_mode base) (cd_package_mode ours) (cd_package_mode theirs) [];
          (ui, conflicts) = merge_value (lit ''ui_language'') (cd_ui_language base) (cd_ui_language ours)
            (cd_ui_language theirs) conflicts;
          (named_settings, conflicts) = merge_map (settings_values (cd_settings base)) (settings_values (cd_settings ours))
            (settings_values (cd_settings theirs)) conflicts;
          (profiles, conflicts) = merge_map (profile_values (cd_input_profiles base)) (profile_values (cd_input_profiles ours))
            (profile_values (cd_input_profiles theirs)) conflicts;
          (named_rules, conflicts) = merge_map (rule_values (cd_backend_rules base)) (rule_values (cd_backend_rules ours))
            (rule_values (cd_backend_rules theirs)) conflicts;
          (s, conflicts) = parsed_or_ours (lit ''settings'') (settings_try_from_text (settings_text named_settings))
            (cd_settings ours) conflicts;
          (profiles, conflicts) = parsed_or_ours (lit ''input_profiles'') (selections_parse profiles)
            (cd_input_profiles ours) conflicts;
          (rules, conflicts) = parsed_or_ours (lit ''backend_rules'') (rules_from_lines U (str_lines (rules_text named_rules)))
            (cd_backend_rules ours) conflicts;
          d = \<lparr>cd_package_mode = mode, cd_settings = s, cd_input_profiles = profiles, cd_ui_language = ui,
               cd_user_dictionary = merge_entries (cd_user_dictionary base) (cd_user_dictionary ours) (cd_user_dictionary theirs),
               cd_word_exclusions = merge_entries (cd_word_exclusions base) (cd_word_exclusions ours) (cd_word_exclusions theirs),
               cd_process_exclusions =
                 merge_entries (cd_process_exclusions base) (cd_process_exclusions ours) (cd_process_exclusions theirs),
               cd_backend_rules = rules\<rparr>;
          both = filter (\<lambda>e. e \<in> set (cd_user_dictionary d)) (cd_word_exclusions d)
      in if both = [] then \<lparr>mc_document = d, mc_conflicts = conflicts\<rparr>
         else \<lparr>mc_document = keep_one_list ours both d,
               mc_conflicts = conflicts @ [lit ''user_dictionary, word_exclusions'']\<rparr>)"

section \<open>Three versions of one value\<close>

text \<open>What a merge should make of a value: the draft's change, or else the configuration's.\<close>

definition three_way :: "'a \<Rightarrow> 'a \<Rightarrow> 'a \<Rightarrow> 'a" where
  "three_way base ours theirs = (if ours = base then theirs else ours)"

definition conflict :: "'a \<Rightarrow> 'a \<Rightarrow> 'a \<Rightarrow> bool" where
  "conflict base ours theirs \<longleftrightarrow> ours \<noteq> base \<and> theirs \<noteq> base \<and> theirs \<noteq> ours"

lemma merge_value_three_way:
  "merge_value name b o' t c = (three_way b o' t, c @ (if conflict b o' t then [name] else []))"
  by (auto simp: merge_value_def three_way_def conflict_def)

lemma merge_names_lookup:
  "distinct names \<Longrightarrow> om_sorted merged \<Longrightarrow>
   om_lookup (fst (merge_names names b o' t (merged, c))) k =
     (if k \<in> set names then (case three_way (om_lookup b k) (om_lookup o' k) (om_lookup t k) of
        None \<Rightarrow> om_lookup merged k | Some v \<Rightarrow> Some v) else om_lookup merged k)
   \<and> om_sorted (fst (merge_names names b o' t (merged, c)))
   \<and> snd (merge_names names b o' t (merged, c))
      = c @ filter (\<lambda>k. conflict (om_lookup b k) (om_lookup o' k) (om_lookup t k)) names"
  by (induction names b o' t "(merged, c)" arbitrary: merged c rule: merge_names.induct)
    (auto simp: merge_value_three_way om_lookup_insert om_sorted_insert split: option.split)

lemma om_lookup_absent: "k \<notin> fst ` set m \<Longrightarrow> om_lookup m k = None"
  by (simp add: om_lookup_def map_of_eq_None_iff)

lemma merge_map_lookup:
  "om_lookup (fst (merge_map b o' t c)) k = three_way (om_lookup b k) (om_lookup o' k) (om_lookup t k)"
  "om_sorted (fst (merge_map b o' t c))"
  "set (snd (merge_map b o' t c)) = set c \<union> {k. conflict (om_lookup b k) (om_lookup o' k) (om_lookup t k)}"
proof -
  let ?names = "ordered_set (map fst b @ map fst o' @ map fst t)"
  have d: "distinct ?names" "om_sorted []" by (simp_all add: ordered_set_def om_sorted_def)
  note m = merge_names_lookup [OF d, of b o' t c]
  have absent: "om_lookup b k = None" "om_lookup o' k = None" "om_lookup t k = None" if "k \<notin> set ?names" for k
    using that by (auto intro!: om_lookup_absent)
  show "om_lookup (fst (merge_map b o' t c)) k = three_way (om_lookup b k) (om_lookup o' k) (om_lookup t k)"
    using m [of k] absent [of k] unfolding merge_map_def
    by (cases "k \<in> set ?names") (auto simp: three_way_def om_lookup_def split: option.splits)
  show "om_sorted (fst (merge_map b o' t c))" using m unfolding merge_map_def by blast
  show "set (snd (merge_map b o' t c)) = set c \<union> {k. conflict (om_lookup b k) (om_lookup o' k) (om_lookup t k)}"
  proof -
    have "k \<in> set ?names" if "conflict (om_lookup b k) (om_lookup o' k) (om_lookup t k)" for k
      using that absent [of k] unfolding conflict_def by metis
    then show ?thesis using m [of k] unfolding merge_map_def by auto
  qed
qed

end
