(* ===== verification/Configuration_Merge_Settings.thy ===== *)
theory Configuration_Merge_Settings
  imports Configuration_Merge
begin

text \<open>
  The settings of a merge. Their map of names to texts has one entry per setting, and one for the hotkey; so the merge
  of the texts is the merge of the settings, field by field.
\<close>

section \<open>The entries\<close>

definition packs_text :: "settings \<Rightarrow> ustr" where
  "packs_text s = join_with 0x2C (map pack_str (sorted_list_of_set (st_enabled_input_packs s)))"

definition hotkey_parts :: "settings \<Rightarrow> ustr list" where
  "hotkey_parts s = [bool_text (st_pause_break_undo s), key_name (force_hotkey s), modifiers_text (force_hotkey s)]"

definition hotkey_text :: "settings \<Rightarrow> ustr" where
  "hotkey_text s = join_with 10 (hotkey_parts s)"

definition field_pair :: "settings \<Rightarrow> bool_field \<Rightarrow> ustr \<times> ustr" where
  "field_pair s = (\<lambda>(k, _, get). (k, bool_text (get s)))"

text \<open>The boolean settings by name, but for that of the hotkey.\<close>

definition early_fields :: "bool_field list" where
  "early_fields =
     [(lit ''automatic_conversion_on_startup'', st_automatic_conversion_on_startup_update, st_automatic_conversion_on_startup),
      (lit ''conversion_sound'', st_conversion_sound_update, st_conversion_sound),
      (lit ''diagnostics_enabled'', st_diagnostics_enabled_update, st_diagnostics_enabled)]"

definition late_fields :: "bool_field list" where
  "late_fields =
     [(lit ''layout_model'', st_layout_model_update, st_layout_model),
      (lit ''manual_terminal_uia_fallback'', st_manual_terminal_uia_fallback_update, st_manual_terminal_uia_fallback),
      (lit ''offer_dictionary_after_forced_conversion'', st_offer_dictionary_after_forced_conversion_update, st_offer_dictionary_after_forced_conversion),
      (lit ''offer_word_exclusion_after_undo'', st_offer_word_exclusion_after_undo_update, st_offer_word_exclusion_after_undo),
      (lit ''physical_fallback_for_unsupported_apps'', st_physical_fallback_for_unsupported_apps_update, st_physical_fallback_for_unsupported_apps),
      (lit ''recheck_first_word_after_erasing'', st_recheck_first_word_after_erasing_update, st_recheck_first_word_after_erasing),
      (lit ''single_letter_words'', st_single_letter_words_update, st_single_letter_words),
      (lit ''suppress_after_backspace'', st_suppress_after_backspace_update, st_suppress_after_backspace),
      (lit ''suppress_after_delete'', st_suppress_after_delete_update, st_suppress_after_delete),
      (lit ''suppress_after_down'', st_suppress_after_down_update, st_suppress_after_down),
      (lit ''suppress_after_home_end'', st_suppress_after_home_end_update, st_suppress_after_home_end),
      (lit ''suppress_after_left'', st_suppress_after_left_update, st_suppress_after_left),
      (lit ''suppress_after_manual_layout_change'', st_suppress_after_manual_layout_change_update, st_suppress_after_manual_layout_change),
      (lit ''suppress_after_right'', st_suppress_after_right_update, st_suppress_after_right),
      (lit ''suppress_after_up'', st_suppress_after_up_update, st_suppress_after_up)]"

definition settings_table :: "settings \<Rightarrow> named_texts" where
  "settings_table s = map (field_pair s) early_fields
     @ (lit ''enabled_input_packs'', packs_text s) # (HOTKEY_ENTRY, hotkey_text s) # map (field_pair s) late_fields"

lemma collected_pairs:
  "collect_map (map (field_pair s) bool_fields1 @ (lit ''force_hotkey_key'', k) # (lit ''force_hotkey_modifiers'', m)
     # map (field_pair s) bool_fields2 @ [(lit ''enabled_input_packs'', e)]) =
   map (field_pair s) early_fields @ (lit ''enabled_input_packs'', e) # (lit ''force_hotkey_key'', k)
     # (lit ''force_hotkey_modifiers'', m) # map (field_pair s) (take 4 late_fields)
     @ (lit ''pause_break_undo'', bool_text (st_pause_break_undo s)) # map (field_pair s) (drop 4 late_fields)"
  by (simp add: collect_map_def bool_fields1_def bool_fields2_def early_fields_def late_fields_def field_pair_def)

lemma hotkey_collected:
  "(let (hotkey, m) = take_values HOTKEY_KEYS
      (map (field_pair s) early_fields @ (lit ''enabled_input_packs'', e) # (lit ''force_hotkey_key'', k)
       # (lit ''force_hotkey_modifiers'', m) # map (field_pair s) (take 4 late_fields)
       @ (lit ''pause_break_undo'', p) # map (field_pair s) (drop 4 late_fields))
    in om_insert HOTKEY_ENTRY (join_with 10 hotkey) m) =
   map (field_pair s) early_fields @ (lit ''enabled_input_packs'', e) # (HOTKEY_ENTRY, join_with 10 [p, k, m])
     # map (field_pair s) late_fields"
  by (simp add: early_fields_def late_fields_def field_pair_def HOTKEY_KEYS_def HOTKEY_ENTRY_def om_lookup_def
      om_remove_def)

lemma key_pairs_written:
  "\<forall>(k, v) \<in> set kvs. plain_key k \<and> clean_line v \<Longrightarrow>
   key_pairs (filter (\<lambda>l. \<not> starts_with l 0x23) (map trim (map (\<lambda>(k, v). k @ 0x3D # v) kvs))) = kvs"
proof (induction kvs)
  case (Cons kv kvs)
  obtain k v where kv: "kv = (k, v)" by (cases kv)
  have "clean_ends is_whitespace v" "trim v = v" using Cons.prems by (simp_all add: kv clean_line_def trim_clean)
  with trim_key_value [of k v] Cons show ?case by (simp add: kv key_pairs_def List.map_filter_def)
qed (simp add: key_pairs_def List.map_filter_def)

lemma known_plain_key: "k \<in> set known_keys \<Longrightarrow> plain_key k"
  using known_keys_plain by (simp add: list_all_iff)

lemma field_pairs_plain:
  assumes "set fs \<subseteq> set (bool_fields1 @ bool_fields2)"
  shows "\<forall>(k, v) \<in> set (map (field_pair s) fs). plain_key k \<and> clean_line v"
proof -
  have "plain_key k \<and> clean_line (bool_text (g s))" if "(k, u, g) \<in> set fs" for k u g
    using known_plain_key [OF bool_field_setting(2)] that assms by (auto simp: clean_line_def)
  then show ?thesis by (fastforce simp: field_pair_def)
qed

lemma clean_packs_text: "settings_saveable s \<Longrightarrow> clean_line (packs_text s)"
  unfolding packs_text_def settings_saveable_def by (rule parse_selection_written(2)) simp_all

lemma settings_pairs_plain:
  assumes "settings_saveable s"
  shows "\<forall>(k, v) \<in> set (map (field_pair s) bool_fields1 @ (lit ''force_hotkey_key'', key_name (force_hotkey s))
     # (lit ''force_hotkey_modifiers'', modifiers_text (force_hotkey s)) # map (field_pair s) bool_fields2
     @ [(lit ''enabled_input_packs'', packs_text s)]). plain_key k \<and> clean_line v"
proof -
  note special = special_keys_in [THEN special_known, THEN known_plain_key]
  have "clean_line (key_name (force_hotkey s))" "clean_line (modifiers_text (force_hotkey s))"
    by (simp_all add: clean_line_def key_name_clean modifiers_text_clean)
  then show ?thesis
    using special clean_packs_text [OF assms] field_pairs_plain [of bool_fields1 s] field_pairs_plain [of bool_fields2 s]
    by (simp add: ball_Un del: lit_simps)
qed

lemma settings_values_table:
  assumes "settings_saveable s"
  shows "settings_values s = settings_table s"
proof -
  let ?kvs = "map (field_pair s) bool_fields1 @ (lit ''force_hotkey_key'', key_name (force_hotkey s))
     # (lit ''force_hotkey_modifiers'', modifiers_text (force_hotkey s)) # map (field_pair s) bool_fields2
     @ [(lit ''enabled_input_packs'', packs_text s)]"
  let ?comment = "lit ''# AutoKeyboardLayot settings v2''"
  have rows: "settings_text_lines s = ?comment # map (\<lambda>(k, v). k @ 0x3D # v) ?kvs"
    by (simp add: settings_text_split key_value_def packs_text_def field_pair_def bool_line_def case_prod_unfold comp_def
        del: lit_simps)
  note plain = settings_pairs_plain [OF assms]
  have "str_lines (settings_to_text s) = settings_text_lines s"
    unfolding settings_to_text_def by (rule str_lines_unlines [OF settings_lines_are_lines [OF assms]])
  moreover have "trim ?comment = ?comment" "starts_with ?comment 0x23"
    by (rule trim_clean) (simp_all add: clean_ends_def is_whitespace_def)
  ultimately have "key_pairs (filter (\<lambda>l. \<not> starts_with l 0x23) (map trim (str_lines (settings_to_text s)))) = ?kvs"
    unfolding rows using key_pairs_written [OF plain] by (simp del: lit_simps)
  then show ?thesis
    unfolding settings_values_def collected_pairs [of s] hotkey_collected settings_table_def
    by (simp only: collected_pairs hotkey_collected hotkey_text_def hotkey_parts_def)
qed

section \<open>The settings of a map\<close>

definition pause_field :: "bool_field list" where
  "pause_field = [(lit ''pause_break_undo'', st_pause_break_undo_update, st_pause_break_undo)]"

lemma fields_among_settings:
  "set early_fields \<subseteq> set (bool_fields1 @ bool_fields2)" "set late_fields \<subseteq> set (bool_fields1 @ bool_fields2)"
  "set pause_field \<subseteq> set (bool_fields1 @ bool_fields2)"
  by (simp_all add: early_fields_def late_fields_def pause_field_def bool_fields1_def bool_fields2_def del: lit_simps)

lemma fields_distinct:
  "distinct (map fst (early_fields @ pause_field @ late_fields))"
  by (simp add: early_fields_def late_fields_def pause_field_def)

lemma fields_not_special:
  assumes "set fs \<subseteq> set (bool_fields1 @ bool_fields2)"
  shows "fst ` set fs \<inter> set special_keys = {}"
proof -
  have "fst ` set fs \<subseteq> fst ` set bool_fields1 \<union> fst ` set bool_fields2"
    using image_mono [OF assms, of fst] by (simp add: image_Un)
  then show ?thesis using special_fresh by blast
qed

definition table_rows :: "settings \<Rightarrow> ustr list" where
  "table_rows s = map (bool_line s) early_fields @ (lit ''enabled_input_packs'' @ 0x3D # packs_text s)
     # map (bool_line s) pause_field @ (lit ''force_hotkey_key'' @ 0x3D # key_name (force_hotkey s))
     # (lit ''force_hotkey_modifiers'' @ 0x3D # modifiers_text (force_hotkey s)) # map (bool_line s) late_fields"

lemma settings_text_append: "settings_text (m @ n) = settings_text m @ settings_text n"
  by (simp add: settings_text_def)

lemma settings_text_fields: "HOTKEY_ENTRY \<notin> fst ` set fs \<Longrightarrow> settings_text (map (field_pair s) fs) = unlines (map (bool_line s) fs)"
  by (induction fs) (auto simp: settings_text_def field_pair_def bool_line_def unlines_def)

lemma hotkey_parts_split: "split_on (\<lambda>c. c = 10) (hotkey_text s) = hotkey_parts s"
  unfolding hotkey_text_def
  by (rule split_on_join)
    (use bool_text_value(3) [of "st_pause_break_undo s"] key_name_clean(2) [of "force_hotkey s"] modifiers_text_clean(2) [of "force_hotkey s"]
      in \<open>auto simp: hotkey_parts_def is_line_def\<close>)

lemma settings_table_text: "settings_text (settings_table s) = unlines (table_rows s)"
proof -
  have "HOTKEY_ENTRY \<notin> fst ` set early_fields" "HOTKEY_ENTRY \<notin> fst ` set late_fields"
    by (simp_all add: HOTKEY_ENTRY_def early_fields_def late_fields_def)
  note fields = settings_text_fields [OF this(1), of s] settings_text_fields [OF this(2), of s]
  have entry: "settings_text ((HOTKEY_ENTRY, hotkey_text s) # m) = unlines (map (bool_line s) pause_field
      @ [lit ''force_hotkey_key'' @ 0x3D # key_name (force_hotkey s), lit ''force_hotkey_modifiers'' @ 0x3D # modifiers_text (force_hotkey s)])
      @ settings_text m" for m
    by (simp add: settings_text_def hotkey_parts_split hotkey_parts_def HOTKEY_KEYS_def unlines_def pause_field_def bool_line_def)
  have packs: "settings_text ((lit ''enabled_input_packs'', e) # m) = lit ''enabled_input_packs'' @ 0x3D # e @ 10 # settings_text m" for e m
    by (simp add: settings_text_def HOTKEY_ENTRY_def)
  show ?thesis
    unfolding settings_table_def table_rows_def settings_text_append packs entry fields unlines_append unlines_Cons list.map
    by simp
qed

lemma table_rows_settings: "settings_saveable s \<Longrightarrow> \<forall>row \<in> set (table_rows s). setting_row row"
proof -
  assume s: "settings_saveable s"
  have "setting_row (bool_line s f)" if "f \<in> set early_fields \<union> set late_fields \<union> set pause_field" for f
    using that fields_among_settings by (intro bool_setting_row) blast
  moreover note special = special_keys_in [THEN special_known, THEN known_setting_row]
  have "setting_row (lit ''enabled_input_packs'' @ 0x3D # packs_text s)" by (rule special(3) [OF clean_packs_text [OF s]])
  moreover have "setting_row (lit ''force_hotkey_key'' @ 0x3D # key_name (force_hotkey s))"
    "setting_row (lit ''force_hotkey_modifiers'' @ 0x3D # modifiers_text (force_hotkey s))"
    by (rule special(1), simp add: clean_line_def key_name_clean, rule special(2), simp add: clean_line_def modifiers_text_clean)
  ultimately show ?thesis by (auto simp: table_rows_def simp del: lit_simps)
qed

definition fields_set :: "settings \<Rightarrow> bool_field list \<Rightarrow> settings \<Rightarrow> settings" where
  "fields_set s fs t = fold (\<lambda>(k, u, g). u (\<lambda>_. g s)) fs t"

lemma field_lines:
  assumes "set fs \<subseteq> set (bool_fields1 @ bool_fields2)" "distinct (map fst fs)" "fst ` set fs \<inter> ps_seen p = {}"
  shows "settings_lines True n (map (bool_line s) fs @ ls) p =
    settings_lines True (n + length fs) ls
      (p\<lparr>ps_seen := ps_seen p \<union> fst ` set fs, ps_settings := fields_set s fs (ps_settings p)\<rparr>)"
  unfolding fields_set_def by (rule settings_lines_bools [OF assms])

lemma table_rows_read:
  assumes "settings_saveable s"
  shows "\<exists>p. settings_lines True 1 (table_rows s) parse_start = Inr p
     \<and> ps_settings p = fields_set s late_fields (fields_set s pause_field
         ((fields_set s early_fields settings_default)\<lparr>st_enabled_input_packs := st_enabled_input_packs s\<rparr>))
     \<and> ps_hotkey_key p = Some (key_name (force_hotkey s)) \<and> ps_hotkey_modifiers p = Some (modifiers_text (force_hotkey s))"
proof -
  let ?k = "lit ''force_hotkey_key''" and ?m = "lit ''force_hotkey_modifiers''" and ?e = "lit ''enabled_input_packs''"
  let ?h = "force_hotkey s" and ?A = "st_enabled_input_packs s"
  note sp = special_keys_in
  note among = fields_among_settings
  note other = among [THEN fields_not_special]
  have ne: "?k \<noteq> ?m" "?k \<noteq> ?e" "?m \<noteq> ?e" by simp_all
  have d: "distinct (map fst early_fields)" "distinct (map fst late_fields)" "distinct (map fst pause_field)"
    "fst ` set pause_field \<inter> fst ` set early_fields = {}" "fst ` set late_fields \<inter> fst ` set early_fields = {}"
    "fst ` set late_fields \<inter> fst ` set pause_field = {}"
    using fields_distinct unfolding map_append distinct_append set_map set_append by blast+
  have v: "parse_pack_selection (packs_text s) = Inr ?A" "clean_line (packs_text s)"
    using parse_selection_written [of ?A] assms by (simp_all add: packs_text_def settings_saveable_def)
  have packs: "settings_line True n (?e @ 0x3D # packs_text s) p = Inr (p\<lparr>ps_seen := insert ?e (ps_seen p),
      ps_settings := (ps_settings p)\<lparr>st_enabled_input_packs := ?A\<rparr>, ps_pack_selection_seen := True\<rparr>)"
    if "?e \<notin> ps_seen p" "\<not> ps_pack_selection_seen p" "\<not> ps_legacy_selection_seen p" for n p
    using that by (subst settings_line_special [OF sp(3) _ v(2)]) (simp_all add: apply_packs v(1) del: lit_simps)
  have key: "settings_line True n (?k @ 0x3D # key_name ?h) p = Inr (p\<lparr>ps_seen := insert ?k (ps_seen p),
      ps_hotkey_key := Some (key_name ?h), ps_hotkey_line := n\<rparr>)" if "?k \<notin> ps_seen p" for n p
    using that by (subst settings_line_special [OF sp(1)])
      (simp_all add: apply_hotkey_key key_name_clean clean_line_def del: lit_simps)
  have mods: "settings_line True n (?m @ 0x3D # modifiers_text ?h) p = Inr (p\<lparr>ps_seen := insert ?m (ps_seen p),
      ps_hotkey_modifiers := Some (modifiers_text ?h), ps_hotkey_line := n\<rparr>)" if "?m \<notin> ps_seen p" for n p
    using that by (subst settings_line_special [OF sp(2)])
      (simp_all add: apply_hotkey_modifiers modifiers_text_clean clean_line_def del: lit_simps)
  have fresh: "?e \<notin> fst ` set early_fields" "?k \<notin> fst ` set early_fields" "?m \<notin> fst ` set early_fields"
    "?k \<notin> fst ` set pause_field" "?m \<notin> fst ` set pause_field" "?e \<notin> fst ` set pause_field" "?e \<notin> fst ` set late_fields"
    "?k \<notin> fst ` set late_fields" "?m \<notin> fst ` set late_fields"
    using other sp by blast+
  have late: "settings_lines True n (map (bool_line s) late_fields) p = Inr (p\<lparr>ps_seen := ps_seen p \<union> fst ` set late_fields,
      ps_settings := fields_set s late_fields (ps_settings p)\<rparr>)" if "fst ` set late_fields \<inter> ps_seen p = {}" for n p
    using field_lines [OF among(2) d(2) that, of n s "[]"] by simp
  show ?thesis
    unfolding table_rows_def
    by (simp add: field_lines among d fresh ne ne [symmetric] packs key mods late parse_start_def Int_insert_right Int_Un_distrib
        del: lit_simps set_append)
qed

lemma settings_table_read:
  assumes "settings_saveable s"
  shows "settings_try_from_text (settings_text (settings_table s)) = Inr (s\<lparr>st_refused_force_hotkey := None\<rparr>)"
proof -
  let ?h = "\<lparr>hk_key = st_force_hotkey_virtual_key s, hk_mods = st_force_hotkey_modifiers s\<rparr>"
  have new: "hotkey_new (st_force_hotkey_virtual_key s) (st_force_hotkey_modifiers s) = Inr ?h"
    using assms by (simp add: settings_saveable_def)
  then have h: "force_hotkey s = ?h" by (simp add: force_hotkey_def)
  have fp: "from_parts (key_name ?h) (modifiers_text ?h) = Inr ?h" by (rule from_parts_new [OF usable_canonical_new [OF new]])
  obtain p where p: "settings_lines True 1 (table_rows s) parse_start = Inr p"
    "ps_settings p = fields_set s late_fields (fields_set s pause_field
         ((fields_set s early_fields settings_default)\<lparr>st_enabled_input_packs := st_enabled_input_packs s\<rparr>))"
    "ps_hotkey_key p = Some (key_name ?h)" "ps_hotkey_modifiers p = Some (modifiers_text ?h)"
    using table_rows_read [OF assms] unfolding h by blast
  have fields: "(ps_settings p)\<lparr>st_force_hotkey_virtual_key := st_force_hotkey_virtual_key s,
      st_force_hotkey_modifiers := st_force_hotkey_modifiers s\<rparr> = s\<lparr>st_refused_force_hotkey := None\<rparr>"
    unfolding p(2) by (cases s) (simp add: fields_set_def early_fields_def pause_field_def late_fields_def settings_default_def del: lit_simps)
  have "str_lines (unlines (table_rows s)) = table_rows s"
    using table_rows_settings [OF assms] setting_row_plain plain_row_line by (intro str_lines_unlines) blast
  moreover have "strip_prefix [0xFEFF] (unlines (table_rows s)) = None"
    by (simp add: table_rows_def early_fields_def bool_line_def unlines_def)
  ultimately have "settings_try_from_text (settings_text (settings_table s)) = settle_hotkey True p"
    unfolding settings_table_text settings_try_from_text_def settings_parse_text_def by (simp add: p(1) del: One_nat_def)
  also have "\<dots> = Inr (s\<lparr>st_refused_force_hotkey := None\<rparr>)"
    using fields by (simp add: settle_hotkey_def p(3,4) fp Let_def)
  finally show ?thesis .
qed

section \<open>Field by field\<close>

definition hotkey_setting :: "settings \<Rightarrow> bool \<times> u16 \<times> u8" where
  "hotkey_setting s = (st_pause_break_undo s, st_force_hotkey_virtual_key s, st_force_hotkey_modifiers s)"

text \<open>What the merge of three settings should be: every field by itself, the hotkey as a whole.\<close>

definition merged_settings :: "settings \<Rightarrow> settings \<Rightarrow> settings \<Rightarrow> settings" where
  "merged_settings base ours theirs =
     (let pick = (\<lambda>get :: settings \<Rightarrow> bool. three_way (get base) (get ours) (get theirs));
          (on, key, mods) = three_way (hotkey_setting base) (hotkey_setting ours) (hotkey_setting theirs)
      in \<lparr>st_automatic_conversion_on_startup = pick st_automatic_conversion_on_startup, st_pause_break_undo = on,
          st_offer_word_exclusion_after_undo = pick st_offer_word_exclusion_after_undo,
          st_offer_dictionary_after_forced_conversion = pick st_offer_dictionary_after_forced_conversion,
          st_force_hotkey_virtual_key = key, st_force_hotkey_modifiers = mods,
          st_recheck_first_word_after_erasing = pick st_recheck_first_word_after_erasing,
          st_physical_fallback_for_unsupported_apps = pick st_physical_fallback_for_unsupported_apps,
          st_single_letter_words = pick st_single_letter_words, st_layout_model = pick st_layout_model,
          st_manual_terminal_uia_fallback = pick st_manual_terminal_uia_fallback,
          st_conversion_sound = pick st_conversion_sound, st_diagnostics_enabled = pick st_diagnostics_enabled,
          st_suppress_after_backspace = pick st_suppress_after_backspace,
          st_suppress_after_delete = pick st_suppress_after_delete, st_suppress_after_left = pick st_suppress_after_left,
          st_suppress_after_right = pick st_suppress_after_right, st_suppress_after_up = pick st_suppress_after_up,
          st_suppress_after_down = pick st_suppress_after_down, st_suppress_after_home_end = pick st_suppress_after_home_end,
          st_suppress_after_manual_layout_change = pick st_suppress_after_manual_layout_change,
          st_enabled_input_packs = three_way (st_enabled_input_packs base) (st_enabled_input_packs ours) (st_enabled_input_packs theirs),
          st_refused_force_hotkey = None\<rparr>)"

definition settings_entries :: "(ustr \<times> (settings \<Rightarrow> ustr)) list" where
  "settings_entries = map (\<lambda>(k, _, get). (k, \<lambda>s. bool_text (get s))) early_fields
     @ (lit ''enabled_input_packs'', packs_text) # (HOTKEY_ENTRY, hotkey_text)
     # map (\<lambda>(k, _, get). (k, \<lambda>s. bool_text (get s))) late_fields"

lemma settings_table_entries: "settings_table s = map (\<lambda>(k, f). (k, f s)) settings_entries"
  by (simp add: settings_table_def settings_entries_def field_pair_def case_prod_unfold comp_def)

lemma settings_table_lookup: "om_lookup (settings_table s) k = map_option (\<lambda>f. f s) (map_of settings_entries k)"
  unfolding om_lookup_def settings_table_entries by (simp add: map_of_map)

lemma settings_table_sorted: "om_sorted (settings_table s)"
  by (simp add: om_sorted_def settings_table_def field_pair_def early_fields_def late_fields_def HOTKEY_ENTRY_def)

lemma three_way_image: "(f y = f x \<Longrightarrow> y = x) \<Longrightarrow> three_way (f x) (f y) (f z) = f (three_way x y z)"
  by (auto simp: three_way_def)

lemma three_way_bool: "three_way (bool_text x) (bool_text y) (bool_text z) = bool_text (three_way x y z)"
  by (rule three_way_image) (auto simp: bool_text_def split: if_splits)

lemma three_way_Some: "three_way (Some x) (Some y) (Some z) = Some (three_way x y z)"
  by (rule three_way_image) simp

lemma packs_text_read: "settings_saveable s \<Longrightarrow> parse_pack_selection (packs_text s) = Inr (st_enabled_input_packs s)"
  using parse_selection_written [of "st_enabled_input_packs s"] by (simp add: packs_text_def settings_saveable_def)

lemma hotkey_text_read:
  assumes "settings_saveable s" "settings_saveable t" "hotkey_text s = hotkey_text t"
  shows "hotkey_setting s = hotkey_setting t"
proof -
  have parts: "hotkey_parts s = hotkey_parts t" using assms(3) hotkey_parts_split by metis
  have hk: "force_hotkey u = \<lparr>hk_key = st_force_hotkey_virtual_key u, hk_mods = st_force_hotkey_modifiers u\<rparr>"
    "from_parts (key_name (force_hotkey u)) (modifiers_text (force_hotkey u)) = Inr (force_hotkey u)"
    if "settings_saveable u" for u
  proof -
    have new: "hotkey_new (st_force_hotkey_virtual_key u) (st_force_hotkey_modifiers u)
        = Inr \<lparr>hk_key = st_force_hotkey_virtual_key u, hk_mods = st_force_hotkey_modifiers u\<rparr>"
      using that by (simp only: settings_saveable_def)
    show hk: "force_hotkey u = \<lparr>hk_key = st_force_hotkey_virtual_key u, hk_mods = st_force_hotkey_modifiers u\<rparr>"
      by (simp only: force_hotkey_def new sum.case)
    show "from_parts (key_name (force_hotkey u)) (modifiers_text (force_hotkey u)) = Inr (force_hotkey u)"
      unfolding hk by (rule from_parts_new [OF usable_canonical_new [OF new]])
  qed
  have same: "key_name (force_hotkey s) = key_name (force_hotkey t)" "modifiers_text (force_hotkey s) = modifiers_text (force_hotkey t)"
    using parts by (simp_all only: hotkey_parts_def list.inject)
  have "force_hotkey s = force_hotkey t"
    using hk(2) [OF assms(1)] unfolding same hk(2) [OF assms(2)] by (simp only: sum.inject)
  moreover have "st_pause_break_undo s = st_pause_break_undo t"
    using parts by (auto simp: hotkey_parts_def bool_text_def split: if_splits)
  ultimately show ?thesis
    unfolding hk(1) [OF assms(1)] hk(1) [OF assms(2)] hotkey_setting_def by (simp only: hotkey.ext_inject simp_thms)
qed

text \<open>The entry of the hotkey is a function of the hotkey's setting.\<close>

lemma hotkey_text_setting: "hotkey_setting s = hotkey_setting t \<Longrightarrow> hotkey_text s = hotkey_text t"
  by (simp add: hotkey_setting_def hotkey_text_def hotkey_parts_def force_hotkey_def)

lemma merged_hotkey: "hotkey_setting (merged_settings b u t) = three_way (hotkey_setting b) (hotkey_setting u) (hotkey_setting t)"
  by (simp add: merged_settings_def hotkey_setting_def Let_def split: prod.split)

lemma merged_packs: "st_enabled_input_packs (merged_settings b u t)
    = three_way (st_enabled_input_packs b) (st_enabled_input_packs u) (st_enabled_input_packs t)"
  by (simp add: merged_settings_def Let_def split: prod.split)

lemma merged_fields:
  "(k, v, g) \<in> set (early_fields @ late_fields) \<Longrightarrow> g (merged_settings b u t) = three_way (g b) (g u) (g t)"
  by (auto simp: early_fields_def late_fields_def merged_settings_def Let_def simp del: lit_simps split: prod.split)

lemma merged_entries:
  assumes "settings_saveable b" "settings_saveable u" "settings_saveable t" "(k, f) \<in> set settings_entries"
  shows "f (merged_settings b u t) = three_way (f b) (f u) (f t)"
proof -
  have packs: "packs_text (merged_settings b u t) = three_way (packs_text b) (packs_text u) (packs_text t)"
    using packs_text_read [OF assms(1)] packs_text_read [OF assms(2)] merged_packs [of b u t]
    by (auto simp: packs_text_def three_way_def)
  have hotkey: "hotkey_text (merged_settings b u t) = three_way (hotkey_text b) (hotkey_text u) (hotkey_text t)"
    using hotkey_text_read [OF assms(2,1)] merged_hotkey [of b u t]
      hotkey_text_setting [of "merged_settings b u t"] hotkey_text_setting [of u b] by (auto simp: three_way_def split: if_splits)
  have fields: "bool_text (g (merged_settings b u t)) = three_way (bool_text (g b)) (bool_text (g u)) (bool_text (g t))"
    if "(k, v, g) \<in> set (early_fields @ late_fields)" for k v g
    using merged_fields [OF that] by (simp add: three_way_bool)
  consider "f = packs_text" | "f = hotkey_text" | k v g where "(k, v, g) \<in> set (early_fields @ late_fields)" "f = (\<lambda>s. bool_text (g s))"
    using assms(4) by (auto simp: settings_entries_def)
  then show ?thesis by cases (simp_all add: packs hotkey fields)
qed

text \<open>Two sorted maps with the same entries are the same.\<close>

lemma om_sorted_entries: "om_sorted m \<Longrightarrow> map (\<lambda>k. (k, the (om_lookup m k))) (map fst m) = m"
  using om_sorted_in [of m] by (simp add: comp_def) (rule map_idI, auto)

lemma om_eqI:
  assumes "om_sorted m" "om_sorted n" "\<And>k. om_lookup m k = om_lookup n k"
  shows "m = n"
proof -
  have "sorted_wrt (<) (map fst m)" "sorted_wrt (<) (map fst n)" using assms(1,2) by (simp_all add: om_sorted_def)
  moreover have "k \<in> set (map fst m) \<longleftrightarrow> k \<in> set (map fst n)" for k
    using assms(3) [of k] by (metis list.set_map map_of_eq_None_iff om_lookup_def)
  then have "set (map fst m) = set (map fst n)" by blast
  ultimately have "map fst m = map fst n" using strict_sorted_equal by metis
  then show ?thesis using om_sorted_entries [OF assms(1)] om_sorted_entries [OF assms(2)] assms(3) by simp
qed

lemma merged_table:
  assumes "settings_saveable b" "settings_saveable u" "settings_saveable t"
  shows "fst (merge_map (settings_table b) (settings_table u) (settings_table t) c) = settings_table (merged_settings b u t)"
proof (rule om_eqI)
  show "om_sorted (fst (merge_map (settings_table b) (settings_table u) (settings_table t) c))" by (rule merge_map_lookup)
  show "om_sorted (settings_table (merged_settings b u t))" by (rule settings_table_sorted)
  show "om_lookup (fst (merge_map (settings_table b) (settings_table u) (settings_table t) c)) k
      = om_lookup (settings_table (merged_settings b u t)) k" for k
  proof (cases "map_of settings_entries k")
    case None
    then show ?thesis by (simp add: merge_map_lookup settings_table_lookup three_way_def)
  next
    case (Some f)
    then show ?thesis
      using merged_entries [OF assms map_of_SomeD [OF Some]] by (simp add: merge_map_lookup settings_table_lookup three_way_Some)
  qed
qed

lemma merged_settings_saveable:
  assumes "settings_saveable b" "settings_saveable u" "settings_saveable t"
  shows "settings_saveable (merged_settings b u t)"
proof -
  define m where "m = merged_settings b u t"
  have "hotkey_setting m \<in> {hotkey_setting b, hotkey_setting u, hotkey_setting t}"
    unfolding m_def merged_hotkey by (auto simp: three_way_def)
  moreover have "st_enabled_input_packs m \<in> {st_enabled_input_packs b, st_enabled_input_packs u, st_enabled_input_packs t}"
    unfolding m_def merged_packs by (auto simp: three_way_def)
  ultimately show ?thesis
    unfolding m_def [symmetric] using assms by (auto simp: settings_saveable_def hotkey_setting_def)
qed

lemma merged_settings_read:
  assumes "settings_saveable base" "settings_saveable ours" "settings_saveable theirs"
  shows "settings_try_from_text (settings_text
      (fst (merge_map (settings_values base) (settings_values ours) (settings_values theirs) conflicts)))
    = Inr (merged_settings base ours theirs)"
  unfolding settings_values_table [OF assms(1)] settings_values_table [OF assms(2)] settings_values_table [OF assms(3)]
    merged_table [OF assms] settings_table_read [OF merged_settings_saveable [OF assms]]
  by (simp add: merged_settings_def Let_def split: prod.split)

end
