(* ===== verification/Configuration_Merge_Document.thy ===== *)
theory Configuration_Merge_Document
  imports Configuration_Merge_Settings
begin

text \<open>
  The profiles, the rules and the lists of a merge, and the document as a whole.
\<close>

section \<open>Profiles\<close>

lemma collect_sorted: "om_sorted m \<Longrightarrow> collect_map m = m"
proof -
  have "foldl (\<lambda>m (k, v). om_insert k v m) ex m = ex @ m" if "om_sorted (ex @ m)" for ex m :: named_texts
    using that
  proof (induction m arbitrary: ex)
    case (Cons e m)
    obtain k v where e: "e = (k, v)" by (cases e)
    have "om_insert k v ex = ex @ [(k, v)]"
      using om_insert_last om_sorted_append [of "ex @ [(k, v)]" m] Cons.prems by (simp add: e)
    with Cons show ?case by (simp add: e)
  qed simp
  then show "om_sorted m \<Longrightarrow> collect_map m = m" by (simp add: collect_map_def)
qed

definition profile_pair :: "pack_id \<times> windows_keyboard_profile \<Rightarrow> ustr \<times> ustr" where
  "profile_pair = (\<lambda>(l, p). (pack_str l, profile_to_string p))"

lemma profile_pairs_sorted: "om_sorted (map profile_pair ps) \<longleftrightarrow> om_sorted ps"
  by (simp add: om_sorted_def profile_pair_def sorted_wrt_map less_pack_id_def case_prod_unfold)

lemma profile_values_pairs: "om_sorted ps \<Longrightarrow> profile_values ps = map profile_pair ps"
  by (simp add: profile_values_def profile_pair_def [symmetric] collect_sorted profile_pairs_sorted)

lemma profile_pairs_lookup: "om_lookup (map profile_pair ps) k = map_option profile_to_string (om_lookup ps (PackId k))"
  by (induction ps) (auto simp: om_lookup_def profile_pair_def)

definition profile_pair_ok :: "pack_id \<times> windows_keyboard_profile \<Rightarrow> bool" where
  "profile_pair_ok = (\<lambda>(l, p). valid_pack l \<and> profile_parse (profile_to_string p) = Inr p)"

lemma profiles_saveable_pairs:
  "profiles_saveable ps \<longleftrightarrow> om_sorted ps \<and> length ps \<le> 64 \<and> (\<forall>e \<in> set ps. profile_pair_ok e)"
  by (auto simp: profiles_saveable_def profile_pair_ok_def)

lemma too_many_selections:
  "om_sorted (ex @ ps) \<Longrightarrow> i \<le> 64 \<Longrightarrow> 64 < i + length ps \<Longrightarrow> \<forall>e \<in> set ps. profile_pair_ok e \<Longrightarrow>
   selection_choices i (map profile_pair ps) ex = Inl SelectionLimitExceeded"
proof (induction ps arbitrary: i ex)
  case (Cons e ps)
  obtain l p where e: "e = (l, p)" by (cases e)
  have "om_insert l p ex = ex @ [(l, p)]"
    using om_insert_last om_sorted_append [of "ex @ [(l, p)]" ps] Cons.prems(1) by (simp add: e)
  moreover have "om_lookup ex l = None" using Cons.prems(1) om_lookup_fresh by (simp add: e)
  ultimately show ?case using Cons by (simp add: e profile_pair_def profile_pair_ok_def valid_pack_def)
qed simp

lemma selections_of_pairs:
  assumes "om_sorted ps" "\<forall>e \<in> set ps. profile_pair_ok e"
  shows "selections_parse (map profile_pair ps) = (if length ps \<le> 64 then Inr ps else Inl SelectionLimitExceeded)"
  using assms selections_written [of ps] too_many_selections [of "[]" ps 0]
  by (auto simp: profiles_saveable_pairs selections_parse_def profile_pair_def)

lemma three_way_option: "(\<And>x y. f x = f y \<Longrightarrow> x = y) \<Longrightarrow> three_way (map_option f x) (map_option f y) (map_option f z) = map_option f (three_way x y z)"
  by (rule three_way_image) (auto simp: map_option_case split: option.splits)

lemma profile_to_string_inj: "profile_to_string p = profile_to_string q \<Longrightarrow> p = q"
proof -
  assume "profile_to_string p = profile_to_string q"
  then have "upper_hex 4 (unat (profile_language_id p)) = upper_hex 4 (unat (profile_language_id q))"
    "upper_hex 8 (unat (profile_klid p)) = upper_hex 8 (unat (profile_klid q))"
    unfolding profile_to_string_def by (subst (asm) append_eq_append_conv; simp)+
  moreover have "unat (profile_language_id r) < 16 ^ 4" "unat (profile_klid r) < 16 ^ 8" for r
    using unsigned_less [of "profile_language_id r", where 'a = nat] unsigned_less [of "profile_klid r", where 'a = nat] by simp_all
  ultimately have "unat (profile_language_id p) = unat (profile_language_id q)" "unat (profile_klid p) = unat (profile_klid q)"
    by (metis from_hex_upper_hex)+
  then show "p = q" by (intro windows_keyboard_profile.expand) (simp add: word_unat_eq_iff)
qed

text \<open>A map all of whose entries come from saved profiles is the map of profiles.\<close>

lemma pairs_back:
  assumes "\<forall>e \<in> set m. \<exists>l p. e = profile_pair (l, p) \<and> profile_pair_ok (l, p)"
  shows "\<exists>ps. m = map profile_pair ps \<and> (\<forall>e \<in> set ps. profile_pair_ok e)"
  using assms
proof (induction m)
  case (Cons e m)
  then obtain ps l p where "m = map profile_pair ps" "\<forall>e \<in> set ps. profile_pair_ok e" "e = profile_pair (l, p)" "profile_pair_ok (l, p)"
    by auto
  then show ?case by (intro exI [where x = "(l, p) # ps"]) simp
qed simp

lemma merged_profiles:
  assumes "profiles_saveable b" "profiles_saveable u" "profiles_saveable t"
  shows "\<exists>ps. fst (merge_map (profile_values b) (profile_values u) (profile_values t) c) = map profile_pair ps
     \<and> om_sorted ps \<and> (\<forall>e \<in> set ps. profile_pair_ok e)
     \<and> (\<forall>l. om_lookup ps l = three_way (om_lookup b l) (om_lookup u l) (om_lookup t l))"
proof -
  let ?M = "fst (merge_map (profile_values b) (profile_values u) (profile_values t) c)"
  have sorted: "om_sorted b" "om_sorted u" "om_sorted t" and ok: "\<forall>e \<in> set b \<union> set u \<union> set t. profile_pair_ok e"
    using assms by (auto simp: profiles_saveable_pairs)
  have look: "om_lookup (profile_values ps) k = map_option profile_to_string (om_lookup ps (PackId k))" if "om_sorted ps" for ps k
    using that by (simp add: profile_values_pairs profile_pairs_lookup)
  have M: "om_lookup ?M k = three_way (map_option profile_to_string (om_lookup b (PackId k)))
      (map_option profile_to_string (om_lookup u (PackId k))) (map_option profile_to_string (om_lookup t (PackId k)))" for k
    by (simp only: merge_map_lookup look sorted)
  have "\<exists>l p. e = profile_pair (l, p) \<and> profile_pair_ok (l, p)" if e: "e \<in> set ?M" for e
  proof -
    obtain k v where kv: "e = (k, v)" by (cases e)
    have "om_lookup ?M k = Some v" using e om_sorted_in [OF merge_map_lookup(2)] by (simp add: kv)
    then obtain p where "v = profile_to_string p" "(PackId k, p) \<in> set b \<union> set u \<union> set t"
      unfolding M using sorted [THEN om_sorted_in] by (auto simp: three_way_def split: if_splits)
    then show ?thesis using ok by (intro exI [where x = "PackId k"] exI [where x = p]) (auto simp: kv profile_pair_def)
  qed
  then obtain ps where ps: "?M = map profile_pair ps" "\<forall>e \<in> set ps. profile_pair_ok e" using pairs_back [of ?M] by blast
  have "om_sorted ps" using merge_map_lookup(2) [of "profile_values b" "profile_values u" "profile_values t" c]
    unfolding ps(1) by (simp add: profile_pairs_sorted)
  moreover have "om_lookup ps l = three_way (om_lookup b l) (om_lookup u l) (om_lookup t l)" for l
  proof -
    have "map_option profile_to_string (om_lookup ps l)
        = map_option profile_to_string (three_way (om_lookup b l) (om_lookup u l) (om_lookup t l))"
      using M [of "pack_str l"] by (simp add: ps(1) profile_pairs_lookup three_way_option [OF profile_to_string_inj])
    then show ?thesis using profile_to_string_inj by (auto simp: map_option_case split: option.splits)
  qed
  ultimately show ?thesis using ps by blast
qed

section \<open>Rules\<close>

definition rule_pair :: "ustr \<times> backend_strategy \<Rightarrow> ustr \<times> ustr" where
  "rule_pair = (\<lambda>(k, s). (k, strategy_id s))"

definition catch_all :: ustr where
  "catch_all = lit ''*''"

lemma strategy_id_inj: "strategy_id s = strategy_id s' \<Longrightarrow> s = s'"
  by (metis option.inject strategy_id_line(2))

lemma rule_text_pairs:
  assumes "clean_ends is_whitespace k" "k \<noteq> []" "0x3D \<notin> set k"
  shows "key_pairs (rule_text (k, s) # ls) = (k, strategy_id s) # key_pairs ls"
proof -
  have "trim (0x20 # strategy_id s) = strategy_id s" "trim (k @ [0x20]) = k" using trim_spaces assms(1) by simp_all
  then show ?thesis using split_rule_text(2) [OF assms] by (simp add: key_pairs_def List.map_filter_def)
qed

lemma catch_all_row: "lit ''* = '' @ strategy_id s = rule_text (catch_all, s)"
  by (simp add: rule_text_def catch_all_def)

lemma catch_all_plain: "clean_ends is_whitespace catch_all" "catch_all \<noteq> []" "0x3D \<notin> set catch_all" "is_line catch_all"
  by (simp_all add: catch_all_def clean_ends_def is_whitespace_def is_line_def)

lemma rule_row_pairs:
  "\<forall>(k, s) \<in> set ex. stable_key U k \<Longrightarrow>
   key_pairs (map rule_text ex @ [rule_text (catch_all, fb)]) = map rule_pair ex @ [(catch_all, strategy_id fb)]"
proof (induction ex)
  case Nil
  have "key_pairs [] = []" by (simp add: key_pairs_def List.map_filter_def)
  then show ?case using rule_text_pairs [OF catch_all_plain(1-3), of fb "[]"] by simp
next
  case (Cons e ex)
  obtain k s where e: "e = (k, s)" by (cases e)
  have "clean_ends is_whitespace k" "k \<noteq> []" "0x3D \<notin> set k" using Cons.prems by (auto simp: e stable_key_def)
  from rule_text_pairs [OF this] Cons show ?case by (simp add: e rule_pair_def)
qed

lemma collect_snoc: "om_sorted m \<Longrightarrow> collect_map (m @ [(k, v)]) = om_insert k v m"
  using collect_sorted [of m] by (simp add: collect_map_def)

lemma rule_pairs_sorted: "om_sorted (map rule_pair ex) \<longleftrightarrow> om_sorted ex"
  by (simp add: om_sorted_def rule_pair_def sorted_wrt_map case_prod_unfold)

lemma rule_pairs_lookup: "om_lookup (map rule_pair ex) k = map_option strategy_id (om_lookup ex k)"
  by (induction ex) (auto simp: om_lookup_def rule_pair_def)

lemma rule_values_insert:
  assumes "rules_saveable U r"
  shows "rule_values r = om_insert catch_all (strategy_id (br_fallback r)) (map rule_pair (br_exact r))"
proof -
  have "\<forall>row \<in> set (rule_rows r). is_line row" using rule_rows_plain [OF assms] plain_row_line by blast
  then have "str_lines (rules_to_text r) = rule_rows r"
    using str_lines_unlines unfolding rules_to_text_def rule_rows_def by blast
  then show ?thesis
    using rule_row_pairs [of "br_exact r" U] collect_snoc [of "map rule_pair (br_exact r)"] assms
    by (simp add: rule_values_def rule_rows_def rules_saveable_def rule_pairs_sorted catch_all_row del: lit_simps)
qed

lemma rule_values_lookup:
  assumes "rules_saveable U r"
  shows "om_lookup (rule_values r) k =
    (if k = catch_all then Some (strategy_id (br_fallback r)) else map_option strategy_id (om_lookup (br_exact r) k))"
  by (simp add: rule_values_insert [OF assms] om_lookup_insert rule_pairs_lookup)

lemma rules_text_rows: "rules_text m = unlines (map (\<lambda>(k, v). k @ lit '' = '' @ v) m)"
  by (simp add: rules_text_def unlines_def case_prod_unfold comp_def)

lemma rule_pairs_back:
  assumes "\<forall>e \<in> set m. \<exists>k s. e = rule_pair (k, s) \<and> stable_key U k"
  shows "\<exists>ex. m = map rule_pair ex \<and> (\<forall>(k, s) \<in> set ex. stable_key U k)"
  using assms
proof (induction m)
  case (Cons e m)
  then obtain ex k s where "m = map rule_pair ex" "\<forall>(k, s) \<in> set ex. stable_key U k" "e = rule_pair (k, s)" "stable_key U k"
    by auto
  then show ?case by (intro exI [where x = "(k, s) # ex"]) simp
qed simp

text \<open>The catch-all rule is somewhere among the sorted names; the reader takes it from there.\<close>

lemma rules_of_pairs:
  assumes "om_sorted (e1 @ e2)" "\<forall>(k, s) \<in> set (e1 @ e2). stable_key U k"
  shows "rules_from_lines U (str_lines (rules_text (map rule_pair e1 @ (catch_all, strategy_id s) # map rule_pair e2)))
    = Inr \<lparr>br_exact = e1 @ e2, br_fallback = s\<rparr>"
proof -
  let ?rows = "map rule_text e1 @ rule_text (catch_all, s) # map rule_text e2"
  have line: "is_line (rule_text (k, s))" if "is_line k" for k s
    using that strategy_id_line(4) [of s] by (auto simp: rule_text_def is_line_def)
  have "is_line (rule_text e)" if "e \<in> set (e1 @ e2)" for e
    using that assms(2) by (cases e) (auto simp: stable_key_def intro!: line)
  then have "\<forall>row \<in> set ?rows. is_line row" using line [OF catch_all_plain(4)] by auto
  moreover have "rules_text (map rule_pair e1 @ (catch_all, strategy_id s) # map rule_pair e2) = unlines ?rows"
    by (simp add: rules_text_rows rule_text_def rule_pair_def comp_def case_prod_unfold del: lit_simps)
  ultimately have rows: "str_lines (rules_text (map rule_pair e1 @ (catch_all, strategy_id s) # map rule_pair e2)) = ?rows"
    using str_lines_unlines by metis
  have "om_sorted ([] @ e1)" using om_sorted_append [OF assms(1)] by simp
  note first = rule_lines_text [OF this, of U 1 "rule_text (catch_all, s) # map rule_text e2" None]
  have "rule_lines U n (rule_text (catch_all, s) # map rule_text e2) (e1, None) = Inr (e1 @ e2, Some s)" for n
    using rule_lines_text [OF assms(1), of U "n + 1" "[]" "Some s"] assms(2)
    by (simp add: catch_all_row [symmetric] fallback_line del: lit_simps)
  then show ?thesis using first assms(2) unfolding rows rules_from_lines_def by simp
qed

lemma catch_all_not_stable: "\<not> stable_key U catch_all"
  by (simp add: stable_key_def catch_all_def)

lemma sorted_middle: "om_sorted (m @ e # n) \<Longrightarrow> om_sorted (m @ n)"
  by (simp add: om_sorted_def sorted_wrt_append)

lemma merged_rules:
  assumes "rules_saveable U b" "rules_saveable U u" "rules_saveable U t"
  shows "\<exists>r. rules_from_lines U (str_lines (rules_text (fst (merge_map (rule_values b) (rule_values u) (rule_values t) c)))) = Inr r
     \<and> rules_saveable U r \<and> br_fallback r = three_way (br_fallback b) (br_fallback u) (br_fallback t)
     \<and> (\<forall>k. om_lookup (br_exact r) k = three_way (om_lookup (br_exact b) k) (om_lookup (br_exact u) k) (om_lookup (br_exact t) k))"
proof -
  let ?M = "fst (merge_map (rule_values b) (rule_values u) (rule_values t) c)"
  let ?way = "\<lambda>k. three_way (om_lookup (br_exact b) k) (om_lookup (br_exact u) k) (om_lookup (br_exact t) k)"
  let ?fb = "three_way (br_fallback b) (br_fallback u) (br_fallback t)"
  have fb: "three_way (strategy_id (br_fallback b)) (strategy_id (br_fallback u)) (strategy_id (br_fallback t)) = strategy_id ?fb"
    by (rule three_way_image) (rule strategy_id_inj)
  have star: "om_lookup ?M catch_all = Some (strategy_id ?fb)"
    by (simp add: merge_map_lookup rule_values_lookup [OF assms(1)] rule_values_lookup [OF assms(2)]
        rule_values_lookup [OF assms(3)] three_way_Some fb)
  have other: "om_lookup ?M k = map_option strategy_id (?way k)" if "k \<noteq> catch_all" for k
    using that three_way_option [of strategy_id, OF strategy_id_inj]
    by (simp add: merge_map_lookup rule_values_lookup [OF assms(1)] rule_values_lookup [OF assms(2)]
        rule_values_lookup [OF assms(3)])
  note sorted = merge_map_lookup(2) [of "rule_values b" "rule_values u" "rule_values t" c]
  obtain m1 m2 where M: "?M = m1 @ (catch_all, strategy_id ?fb) # m2"
    using star om_sorted_in [OF sorted] split_list by metis
  have fresh: "catch_all \<notin> fst ` set (m1 @ m2)"
    using sorted unfolding M by (auto simp: om_sorted_def sorted_wrt_append)
  have "\<exists>k s. e = rule_pair (k, s) \<and> stable_key U k" if e: "e \<in> set (m1 @ m2)" for e
  proof -
    obtain k v where kv: "e = (k, v)" by (cases e)
    have k: "k \<noteq> catch_all" using fresh e by (force simp: kv)
    have "om_lookup ?M k = Some v" using e om_sorted_in [OF sorted, of k v] by (auto simp: M kv)
    then obtain s where s: "?way k = Some s" "v = strategy_id s" using other [OF k] by auto
    then have "om_lookup (br_exact b) k = Some s \<or> om_lookup (br_exact u) k = Some s \<or> om_lookup (br_exact t) k = Some s"
      by (auto simp: three_way_def split: if_splits)
    then have "(k, s) \<in> set (br_exact b) \<union> set (br_exact u) \<union> set (br_exact t)"
      by (auto simp: om_lookup_def dest: map_of_SomeD)
    then show ?thesis using assms s(2) by (auto simp: rules_saveable_def kv rule_pair_def)
  qed
  then have pairs: "\<forall>e \<in> set m1. \<exists>k s. e = rule_pair (k, s) \<and> stable_key U k"
    "\<forall>e \<in> set m2. \<exists>k s. e = rule_pair (k, s) \<and> stable_key U k" by simp_all
  obtain e1 e2 where ex: "m1 = map rule_pair e1" "m2 = map rule_pair e2" "\<forall>(k, s) \<in> set (e1 @ e2). stable_key U k"
    using rule_pairs_back [OF pairs(1)] rule_pairs_back [OF pairs(2)] by (metis UnE set_append)
  have order: "om_sorted (e1 @ e2)"
    using sorted_middle [OF sorted [unfolded M]] rule_pairs_sorted [of "e1 @ e2"] by (simp add: ex)
  have "om_lookup (e1 @ e2) k = ?way k" for k
  proof (cases "k = catch_all")
    case True
    have "(catch_all, s) \<notin> set (br_exact r)" if "rules_saveable U r" for r s
      using that catch_all_not_stable by (auto simp: rules_saveable_def)
    then have "om_lookup (br_exact r) catch_all = None" if "rules_saveable U r" for r
      using that by (force simp: om_lookup_def map_of_eq_None_iff)
    moreover have "om_lookup (e1 @ e2) catch_all = None"
      using ex(3) catch_all_not_stable by (force simp: om_lookup_def map_of_eq_None_iff)
    ultimately show ?thesis using assms by (simp add: True three_way_def)
  next
    case False
    have "om_lookup ?M k = om_lookup (map rule_pair (e1 @ e2)) k"
      using False by (simp add: M ex om_lookup_def map_add_def split: option.split)
    then have "map_option strategy_id (om_lookup (e1 @ e2) k) = map_option strategy_id (?way k)"
      using other [OF False] by (simp only: rule_pairs_lookup)
    then show ?thesis using strategy_id_inj by (auto simp: map_option_case split: option.splits)
  qed
  moreover have "rules_from_lines U (str_lines (rules_text ?M)) = Inr \<lparr>br_exact = e1 @ e2, br_fallback = ?fb\<rparr>"
    using rules_of_pairs [OF order ex(3)] unfolding M ex by simp
  ultimately show ?thesis using order ex(3) by (simp add: rules_saveable_def)
qed

section \<open>Lists\<close>

lemma ordered_set_iff: "ordered_set xs = xs \<longleftrightarrow> sorted xs \<and> distinct xs"
  by (metis ordered_set_def sorted_list_of_set.sorted_sorted_key_list_of_set sorted_list_of_set.distinct_sorted_key_list_of_set
      sorted_list_of_set.idem_if_sorted_distinct)

lemma stored_list_filter: "stored_list f xs \<Longrightarrow> stored_list f (filter P xs)"
  by (auto simp: stored_list_def ordered_set_iff sorted_wrt_filter)

lemma stored_list_merge:
  "stored_list f ours \<Longrightarrow> stored_list f theirs \<Longrightarrow> stored_list f (merge_entries base ours theirs)"
  by (auto simp: stored_list_def merge_entries_def ordered_set_fixed)

lemma merge_entries_set:
  "e \<in> set (merge_entries base ours theirs) \<longleftrightarrow>
     (if e \<in> set base then e \<in> set ours \<and> e \<in> set theirs else e \<in> set ours \<or> e \<in> set theirs)"
  by (auto simp: merge_entries_def)

lemma keep_one_list_filters:
  "keep_one_list ours both d = d\<lparr>
     cd_user_dictionary := filter (\<lambda>w. \<not> (w \<in> set both \<and> w \<in> set (cd_word_exclusions ours))) (cd_user_dictionary d),
     cd_word_exclusions := filter (\<lambda>w. \<not> (w \<in> set both \<and> w \<notin> set (cd_word_exclusions ours))) (cd_word_exclusions d)\<rparr>"
proof (induction both arbitrary: d)
  case (Cons e both)
  let ?in = "\<lambda>w. w \<in> set (cd_word_exclusions ours)"
  have skip: "filter (\<lambda>w. \<not> (w \<in> set (e # both) \<and> P w)) xs = filter (\<lambda>w. \<not> (w \<in> set both \<and> P w)) xs"
    if "\<not> P e" for P and xs :: "ustr list" using that by (auto intro!: filter_cong)
  have drop: "filter (\<lambda>w. \<not> (w \<in> set (e # both) \<and> P w)) xs = filter (\<lambda>w. \<not> (w \<in> set both \<and> P w)) (filter (\<lambda>w. w \<noteq> e) xs)"
    if "P e" for P and xs :: "ustr list" using that by (auto intro!: filter_cong)
  show ?case
    using skip [of ?in] skip [of "\<lambda>w. \<not> ?in w"] drop [of ?in] drop [of "\<lambda>w. \<not> ?in w"]
    by (cases "?in e") (simp_all only: keep_one_list.simps if_True if_False Cons.IH not_False_eq_True not_True_eq_False
        simp_thms, simp_all)
qed simp

section \<open>The document\<close>

text \<open>A configuration the program holds: it can be saved, its lists are in stored form, no fault is found in it.\<close>

definition document_valid :: "unicode \<Rightarrow> configuration_document \<Rightarrow> bool" where
  "document_valid U d \<longleftrightarrow> document_saveable U d \<and> lists_stored U d \<and> document_fault d = None"

text \<open>What the merge of three documents should be. A list is merged entry by entry.\<close>

definition in_merged_list :: "ustr \<Rightarrow> ustr list \<Rightarrow> ustr list \<Rightarrow> ustr list \<Rightarrow> bool" where
  "in_merged_list e base ours theirs \<longleftrightarrow>
     (if e \<in> set base then e \<in> set ours \<and> e \<in> set theirs else e \<in> set ours \<or> e \<in> set theirs)"

definition merged_profiles_of ::
  "configuration_document \<Rightarrow> configuration_document \<Rightarrow> configuration_document \<Rightarrow> merged_configuration \<Rightarrow> bool" where
  "merged_profiles_of base ours theirs m \<longleftrightarrow>
     (\<forall>l. om_lookup (cd_input_profiles (mc_document m)) l = three_way (om_lookup (cd_input_profiles base) l)
            (om_lookup (cd_input_profiles ours) l) (om_lookup (cd_input_profiles theirs) l))
     \<or> cd_input_profiles (mc_document m) = cd_input_profiles ours \<and> lit ''input_profiles'' \<in> set (mc_conflicts m)"

definition merged_rules_of :: "backend_rules \<Rightarrow> backend_rules \<Rightarrow> backend_rules \<Rightarrow> backend_rules \<Rightarrow> bool" where
  "merged_rules_of base ours theirs r \<longleftrightarrow>
     br_fallback r = three_way (br_fallback base) (br_fallback ours) (br_fallback theirs)
     \<and> (\<forall>k. om_lookup (br_exact r) k
            = three_way (om_lookup (br_exact base) k) (om_lookup (br_exact ours) k) (om_lookup (br_exact theirs) k))"

lemma parsed_or_ours_Inr: "parsed_or_ours name (Inr x) ours c = (x, c)"
  by (simp add: parsed_or_ours_def)

text \<open>The document before the two word lists are told apart, and the profiles before their number is checked.\<close>

definition merge_outcome ::
  "unicode \<Rightarrow> configuration_document \<Rightarrow> configuration_document \<Rightarrow> configuration_document \<Rightarrow> input_profile_selections
   \<Rightarrow> configuration_document \<Rightarrow> ustr list \<Rightarrow> bool" where
  "merge_outcome U base ours theirs ps d c \<longleftrightarrow>
     cd_package_mode d = three_way (cd_package_mode base) (cd_package_mode ours) (cd_package_mode theirs)
     \<and> cd_ui_language d = three_way (cd_ui_language base) (cd_ui_language ours) (cd_ui_language theirs)
     \<and> cd_settings d = merged_settings (cd_settings base) (cd_settings ours) (cd_settings theirs)
     \<and> cd_input_profiles d = (if length ps \<le> 64 then ps else cd_input_profiles ours)
     \<and> (64 < length ps \<longrightarrow> lit ''input_profiles'' \<in> set c)
     \<and> om_sorted ps \<and> (\<forall>e \<in> set ps. profile_pair_ok e)
     \<and> (\<forall>l. om_lookup ps l = three_way (om_lookup (cd_input_profiles base) l) (om_lookup (cd_input_profiles ours) l)
        (om_lookup (cd_input_profiles theirs) l))
     \<and> rules_saveable U (cd_backend_rules d)
     \<and> merged_rules_of (cd_backend_rules base) (cd_backend_rules ours) (cd_backend_rules theirs) (cd_backend_rules d)
     \<and> cd_user_dictionary d = merge_entries (cd_user_dictionary base) (cd_user_dictionary ours) (cd_user_dictionary theirs)
     \<and> cd_word_exclusions d = merge_entries (cd_word_exclusions base) (cd_word_exclusions ours) (cd_word_exclusions theirs)
     \<and> cd_process_exclusions d = merge_entries (cd_process_exclusions base) (cd_process_exclusions ours) (cd_process_exclusions theirs)
     \<and> document_merge U base ours theirs =
       (let both = filter (\<lambda>e. e \<in> set (cd_user_dictionary d)) (cd_word_exclusions d)
        in if both = [] then \<lparr>mc_document = d, mc_conflicts = c\<rparr>
           else \<lparr>mc_document = keep_one_list ours both d, mc_conflicts = c @ [lit ''user_dictionary, word_exclusions'']\<rparr>)"

lemma merge_parts:
  assumes "document_saveable U base" "document_saveable U ours" "document_saveable U theirs"
  shows "\<exists>ps d c. merge_outcome U base ours theirs ps d c"
proof -
  have s: "settings_saveable (cd_settings base)" "settings_saveable (cd_settings ours)" "settings_saveable (cd_settings theirs)"
    and p: "profiles_saveable (cd_input_profiles base)" "profiles_saveable (cd_input_profiles ours)" "profiles_saveable (cd_input_profiles theirs)"
    and k: "rules_saveable U (cd_backend_rules base)" "rules_saveable U (cd_backend_rules ours)" "rules_saveable U (cd_backend_rules theirs)"
    using assms by (simp_all add: document_saveable_def)
  let ?pick = "\<lambda>get c. merge_map (get base) (get ours) (get theirs) c"
  obtain c1 where c1: "merge_value (lit ''mode'') (cd_package_mode base) (cd_package_mode ours) (cd_package_mode theirs) []
      = (three_way (cd_package_mode base) (cd_package_mode ours) (cd_package_mode theirs), c1)"
    by (simp add: merge_value_three_way)
  obtain c2 where c2: "merge_value (lit ''ui_language'') (cd_ui_language base) (cd_ui_language ours) (cd_ui_language theirs) c1
      = (three_way (cd_ui_language base) (cd_ui_language ours) (cd_ui_language theirs), c2)"
    by (simp add: merge_value_three_way)
  obtain ns c3 where c3: "?pick (settings_values \<circ> cd_settings) c2 = (ns, c3)" by (meson surj_pair)
  obtain np c4 where c4: "?pick (profile_values \<circ> cd_input_profiles) c3 = (np, c4)" by (meson surj_pair)
  obtain nr c5 where c5: "?pick (rule_values \<circ> cd_backend_rules) c4 = (nr, c5)" by (meson surj_pair)
  have settings: "settings_try_from_text (settings_text ns) = Inr (merged_settings (cd_settings base) (cd_settings ours) (cd_settings theirs))"
    using merged_settings_read [OF s, of c2] c3 by simp
  obtain ps where ps: "np = map profile_pair ps" "om_sorted ps" "\<forall>e \<in> set ps. profile_pair_ok e"
    "\<forall>l. om_lookup ps l = three_way (om_lookup (cd_input_profiles base) l) (om_lookup (cd_input_profiles ours) l)
        (om_lookup (cd_input_profiles theirs) l)"
    using merged_profiles [OF p, of c3] c4 by auto
  obtain r where r: "rules_from_lines U (str_lines (rules_text nr)) = Inr r" "rules_saveable U r"
    "merged_rules_of (cd_backend_rules base) (cd_backend_rules ours) (cd_backend_rules theirs) r"
    using merged_rules [OF k, of c4] c5 by (auto simp: merged_rules_of_def)
  obtain profiles c6 where c6: "parsed_or_ours (lit ''input_profiles'') (selections_parse np) (cd_input_profiles ours) c5 = (profiles, c6)"
    by (meson surj_pair)
  have profiles: "profiles = (if length ps \<le> 64 then ps else cd_input_profiles ours)" "64 < length ps \<Longrightarrow> lit ''input_profiles'' \<in> set c6"
    using c6 selections_of_pairs [OF ps(2,3)] by (auto simp: ps(1) parsed_or_ours_def simp del: lit_simps split: if_splits)
  have "merge_outcome U base ours theirs ps (\<lparr>cd_package_mode = three_way (cd_package_mode base) (cd_package_mode ours) (cd_package_mode theirs),
        cd_settings = merged_settings (cd_settings base) (cd_settings ours) (cd_settings theirs), cd_input_profiles = profiles,
        cd_ui_language = three_way (cd_ui_language base) (cd_ui_language ours) (cd_ui_language theirs),
        cd_user_dictionary = merge_entries (cd_user_dictionary base) (cd_user_dictionary ours) (cd_user_dictionary theirs),
        cd_word_exclusions = merge_entries (cd_word_exclusions base) (cd_word_exclusions ours) (cd_word_exclusions theirs),
        cd_process_exclusions = merge_entries (cd_process_exclusions base) (cd_process_exclusions ours) (cd_process_exclusions theirs),
        cd_backend_rules = r\<rparr>) c6"
    unfolding merge_outcome_def
    using profiles ps r c3 c4 c5 c6 by (simp add: document_merge_def c1 c2 settings parsed_or_ours_Inr Let_def del: lit_simps)
  then show ?thesis by blast
qed

lemma fault_none:
  "document_fault d = None \<longleftrightarrow> card (st_enabled_input_packs (cd_settings d)) \<le> 64
     \<and> (\<exists>h. hotkey_new (st_force_hotkey_virtual_key (cd_settings d)) (st_force_hotkey_modifiers (cd_settings d)) = Inr h)
     \<and> set (cd_user_dictionary d) \<inter> set (cd_word_exclusions d) = {}"
  by (auto simp: document_fault_def find_None_iff not_less simp del: lit_simps split: if_splits sum.splits)

lemma three_way_cases: "three_way b u t \<in> {b, u, t}"
  by (simp add: three_way_def)

lemma merge_valid:
  assumes "document_valid U base" "document_valid U ours" "document_valid U theirs"
  shows "document_valid U (mc_document (document_merge U base ours theirs))"
proof -
  have save: "document_saveable U base" "document_saveable U ours" "document_saveable U theirs"
    using assms by (simp_all add: document_valid_def)
  obtain ps d c where outcome: "merge_outcome U base ours theirs ps d c" using merge_parts [OF save] by blast
  note d = outcome [unfolded merge_outcome_def, THEN conjunct2]
  have m: "document_merge U base ours theirs =
       (let both = filter (\<lambda>e. e \<in> set (cd_user_dictionary d)) (cd_word_exclusions d)
        in if both = [] then \<lparr>mc_document = d, mc_conflicts = c\<rparr>
           else \<lparr>mc_document = keep_one_list ours both d, mc_conflicts = c @ [lit ''user_dictionary, word_exclusions'']\<rparr>)"
    using d by blast
  have s: "settings_saveable (cd_settings d)"
    using merged_settings_saveable save d by (simp add: document_saveable_def)
  have ui: "ui_from_config (as_config (cd_ui_language d)) = cd_ui_language d"
    using three_way_cases [of "cd_ui_language base" "cd_ui_language ours" "cd_ui_language theirs"] save
    using d by (auto simp: document_saveable_def)
  have "document_saveable U d"
    using s ui save(2) d by (simp add: document_saveable_def profiles_saveable_pairs)
  moreover have "lists_stored U d"
    using assms stored_list_merge d by (simp add: document_valid_def lists_stored_def)
  moreover have "card (st_enabled_input_packs (cd_settings d)) \<le> 64"
    "\<exists>h. hotkey_new (st_force_hotkey_virtual_key (cd_settings d)) (st_force_hotkey_modifiers (cd_settings d)) = Inr h"
    using s by (auto simp: settings_saveable_def)
  ultimately show ?thesis
    unfolding m document_valid_def fault_none Let_def keep_one_list_filters
    by (auto simp: document_saveable_def lists_stored_def stored_list_filter filter_empty_conv)
qed


text \<open>C12. What the merge makes can be saved: when the draft, its base and the configuration as it is now are configurations
  the program holds, the merged one passes every check, is written without a refusal and reads back the same; no entry
  is in both word lists.\<close>

theorem merged_configuration_saves:
  assumes "lower_charwise U" and "document_valid U base" "document_valid U ours" "document_valid U theirs"
  shows "(let d = mc_document (document_merge U base ours theirs) in
     (\<exists>written. document_to_text U d = Inr written \<and> document_from_text U written = Inr (without_note d))
     \<and> set (cd_user_dictionary d) \<inter> set (cd_word_exclusions d) = {})"
proof -
  let ?d = "mc_document (document_merge U base ours theirs)"
  note valid = merge_valid [OF assms(2-4), unfolded document_valid_def]
  have "document_from_text U (document_text ?d) = Inr (without_note ?d)"
    using written_document_read valid by blast
  then have "\<exists>written. document_to_text U ?d = Inr written \<and> document_from_text U written = Inr (without_note ?d)"
    using stored_validates [of U ?d] valid by (simp add: document_to_text_def Let_def without_note_def)
  moreover have "set (cd_user_dictionary ?d) \<inter> set (cd_word_exclusions ?d) = {}"
    using valid unfolding fault_none by blast
  ultimately show ?thesis by (simp only: Let_def simp_thms)
qed

section \<open>A draft that changes nothing\<close>

lemma merge_map_unchanged: "om_sorted t \<Longrightarrow> merge_map b b t c = (t, c)"
proof (rule prod_eqI)
  show "om_sorted t \<Longrightarrow> fst (merge_map b b t c) = fst (t, c)"
    using om_eqI [OF merge_map_lookup(2), of t b b t c] by (simp add: merge_map_lookup(1) three_way_def)
  have "snd (merge_names names b b t (m, c)) = c" for names m
    by (induction names arbitrary: m) (simp_all add: merge_value_def split: option.split)
  then show "snd (merge_map b b t c) = snd (t, c)" by (simp add: merge_map_def)
qed

lemma merge_value_unchanged: "merge_value name b b t c = (t, c)"
  by (simp add: merge_value_def)

lemma stored_list_set: "stored_list f t \<Longrightarrow> set (merge_entries b u v) = set t \<Longrightarrow> merge_entries b u v = t"
  by (metis stored_list_def ordered_set_def merge_entries_def set_ordered_set)

lemma merge_entries_one_side:
  assumes "stored_list f t"
  shows "merge_entries b b t = t" "merge_entries b t b = t"
proof -
  have "set (merge_entries b b t) = set t" "set (merge_entries b t b) = set t" by (auto simp: merge_entries_set split: if_splits)
  then show "merge_entries b b t = t" "merge_entries b t b = t" by (simp_all only: stored_list_set [OF assms])
qed

lemma merge_map_one_side:
  assumes "om_sorted t"
  shows "merge_map b t b c = (t, c)"
proof (rule prod_eqI)
  show "fst (merge_map b t b c) = fst (t, c)"
    using om_eqI [OF merge_map_lookup(2) assms, of b t b c] by (simp add: merge_map_lookup(1) three_way_def)
  have "snd (merge_names names b t b (m, c)) = c" for names m
    by (induction names arbitrary: m) (simp_all add: merge_value_def split: option.split)
  then show "snd (merge_map b t b c) = snd (t, c)" by (simp add: merge_map_def)
qed

lemma merge_value_one_side: "merge_value name b t b c = (t, c)"
  by (simp add: merge_value_def)

lemma named_parts_read:
  assumes "document_saveable U d"
  shows "settings_try_from_text (settings_text (settings_values (cd_settings d))) = Inr ((cd_settings d)\<lparr>st_refused_force_hotkey := None\<rparr>)"
    "selections_parse (profile_values (cd_input_profiles d)) = Inr (cd_input_profiles d)"
    "rules_from_lines U (str_lines (rules_text (rule_values (cd_backend_rules d)))) = Inr (cd_backend_rules d)"
    "om_sorted (settings_values (cd_settings d))" "om_sorted (profile_values (cd_input_profiles d))"
    "om_sorted (rule_values (cd_backend_rules d))"
proof -
  have s: "settings_saveable (cd_settings d)" and p: "profiles_saveable (cd_input_profiles d)"
    and r: "rules_saveable U (cd_backend_rules d)"
    using assms by (simp_all add: document_saveable_def)
  show "settings_try_from_text (settings_text (settings_values (cd_settings d))) = Inr ((cd_settings d)\<lparr>st_refused_force_hotkey := None\<rparr>)"
    "om_sorted (settings_values (cd_settings d))"
    unfolding settings_values_table [OF s] by (rule settings_table_read [OF s], rule settings_table_sorted)
  have sorted: "om_sorted (cd_input_profiles d)" "om_sorted (br_exact (cd_backend_rules d))"
    using p r by (simp_all add: profiles_saveable_pairs rules_saveable_def)
  show "selections_parse (profile_values (cd_input_profiles d)) = Inr (cd_input_profiles d)"
    "om_sorted (profile_values (cd_input_profiles d))"
    using p by (simp_all add: profiles_saveable_pairs profile_values_pairs selections_of_pairs profile_pairs_sorted)
  show rules: "om_sorted (rule_values (cd_backend_rules d))"
    unfolding rule_values_insert [OF r] using sorted(2) by (intro om_sorted_insert) (simp add: rule_pairs_sorted)
  obtain r' where r': "rules_from_lines U (str_lines (rules_text (rule_values (cd_backend_rules d)))) = Inr r'"
    "rules_saveable U r'" "br_fallback r' = br_fallback (cd_backend_rules d)"
    "\<forall>k. om_lookup (br_exact r') k = om_lookup (br_exact (cd_backend_rules d)) k"
    using merged_rules [OF r r r, of "[]"] merge_map_unchanged [OF rules] by (auto simp: three_way_def)
  have "br_exact r' = br_exact (cd_backend_rules d)"
    using r'(2,4) sorted(2) by (intro om_eqI) (simp_all add: rules_saveable_def)
  then show "rules_from_lines U (str_lines (rules_text (rule_values (cd_backend_rules d)))) = Inr (cd_backend_rules d)"
    using r'(1,3) by simp
qed

lemma no_word_in_both: "document_fault d = None \<Longrightarrow> filter (\<lambda>e. e \<in> set (cd_user_dictionary d)) (cd_word_exclusions d) = []"
  unfolding fault_none by (auto simp: filter_empty_conv)

text \<open>C14. A merge invents nothing: a draft that changed nothing yields the configuration as it is now, and a draft whose base is
  still the configuration yields the draft, in every field and without a conflict.\<close>

theorem one_sided_merge_exact:
  assumes "document_valid U base" "document_valid U changed"
  shows "document_merge U base base changed = \<lparr>mc_document = without_note changed, mc_conflicts = []\<rparr>
     \<and> document_merge U base changed base = \<lparr>mc_document = without_note changed, mc_conflicts = []\<rparr>"
proof -
  have save: "document_saveable U changed" and lists: "lists_stored U changed" and fault: "document_fault changed = None"
    using assms(2) by (simp_all add: document_valid_def)
  note parts = named_parts_read [OF save]
  have stored: "stored_list (lexicon_entry U) (cd_user_dictionary changed)" "stored_list (lexicon_entry U) (cd_word_exclusions changed)"
    "stored_list (process_entry U) (cd_process_exclusions changed)"
    using lists by (simp_all add: lists_stored_def)
  note entries = stored [THEN merge_entries_one_side(1)] stored [THEN merge_entries_one_side(2)]
  show ?thesis
    unfolding document_merge_def
    by (simp add: merge_value_unchanged merge_value_one_side merge_map_unchanged merge_map_one_side parts entries
        parsed_or_ours_Inr no_word_in_both [OF fault] without_note_def del: lit_simps)
qed

section \<open>Witnesses\<close>

definition sample_draft :: configuration_document where
  "sample_draft = sample_document\<lparr>cd_user_dictionary := []\<rparr>"

lemma sample_valid: "document_valid ascii_tables sample_document" "document_valid ascii_tables sample_draft"
proof -
  note loaded = loaded_document [OF ascii_tables_charwise sample_source_read sample_stable]
  show "document_valid ascii_tables sample_document" using loaded by (simp add: document_valid_def)
  have "stored_list f []" for f by (simp add: stored_list_def ordered_set_def)
  then show "document_valid ascii_tables sample_draft"
    using loaded unfolding document_valid_def fault_none sample_draft_def
    by (simp add: document_saveable_def lists_stored_def)
qed


lemma merged_configuration_saves_witness:
  "\<exists>written. document_to_text ascii_tables (mc_document (document_merge ascii_tables sample_document sample_draft sample_document)) = Inr written"
  using merged_configuration_saves [OF ascii_tables_charwise sample_valid(1) sample_valid(2) sample_valid(1)]
  by (auto simp: Let_def)

lemma one_sided_merge_exact_witness:
  "document_merge ascii_tables sample_document sample_document sample_draft = \<lparr>mc_document = without_note sample_draft, mc_conflicts = []\<rparr>"
  using one_sided_merge_exact [OF sample_valid] by simp

end
