(* ===== verification/Keyboard_Hook.thy ===== *)
theory Keyboard_Hook
  imports Gate_Protocol Hotkey_Gesture
begin

text \<open>
  \<open>src/windows_agent.rs\<close>, \<open>keyboard_hook_body\<close> and \<open>observe_mouse_button\<close>: what the
  low-level hooks do with every key edge and mouse button. What Windows reports (the foreground
  window, the asynchronous key state, clock readings, the verdict of the hooks further down the
  chain) is a record of the environment.
\<close>

section \<open>The hook's input\<close>

record hook_event =
  he_message :: u32
  he_vk :: u32
  he_scan :: u32
  he_extended :: bool
  he_injected :: bool
  he_extra :: u64

record hook_env =
  hv_foreground :: "foreground_context option"
  hv_current :: "foreground_context option"
  hv_caps_lock :: bool
  hv_key_down :: key_state
  hv_now :: instant
  hv_later :: instant

record hook_outcome =
  ho_swallow :: bool
  ho_forwarded :: "u64 option"
  ho_drained :: bool

abbreviation passed :: "bool \<Rightarrow> hook_outcome" where
  "passed drained \<equiv> \<lparr>ho_swallow = False, ho_forwarded = None, ho_drained = drained\<rparr>"

abbreviation swallowed :: hook_outcome where
  "swallowed \<equiv> \<lparr>ho_swallow = True, ho_forwarded = None, ho_drained = False\<rparr>"

definition break_now :: "gate_failure_cause \<Rightarrow> hook_env \<Rightarrow> app_state \<Rightarrow> app_state" where
  "break_now cause env s = break_correction_gate cause (hv_current env) (hv_later env) s"

definition retained_hotkey_events ::
  "raw_key_event \<Rightarrow> bool \<Rightarrow> bool \<Rightarrow> raw_input_event option \<times> raw_input_event option" where
  "retained_hotkey_events raw passes_through recovery_armed =
     (if passes_through then Some (EvKey (raw\<lparr>ke_hotkey_trigger := False\<rparr>)) else None,
      if recovery_armed then Some (EvRecoverInput (ke_sequence raw) True) else None)"

section \<open>The branches of the hook\<close>

text \<open>The agent's own fence key: its key-up says that a drained batch went through.\<close>

definition observe_fence :: "u64 \<Rightarrow> bool \<Rightarrow> hook_env \<Rightarrow> app_state \<Rightarrow> app_state" where
  "observe_fence extra key_up env s =
     (let g = as_gate s in
      if \<not> cg_active g \<or> extra \<noteq> cg_fence_marker g then s
      else if \<not> key_up then s
      else if cg_cancelled g then break_now CauseDownstreamHook env s
      else
        let s' = s\<lparr>as_gate := g\<lparr>cg_current_drain_count := 0, cg_drain_in_flight := False,
                                cg_awaiting_worker_ack := True\<rparr>\<rparr>;
            (queued, s') = enqueue (EvGateDrainReady (cg_token g) (cg_current_drain_count g)
                              (\<not> cg_drain_failed g \<and> \<not> cg_cancelled g)) (hv_later env) s'
        in if queued then s' else break_now CauseWorkerQueue env s')"

definition bump_observed :: "app_state \<Rightarrow> app_state" where
  "bump_observed s =
     as_metrics_update (\<lambda>m. m\<lparr>m_observed_input_sequence := m_observed_input_sequence m + 1\<rparr>) s"

definition observe_foreign_injection :: "hook_env \<Rightarrow> app_state \<Rightarrow> app_state" where
  "observe_foreign_injection env s =
     (let s = break_now CauseExternalInjection env s;
          s = bump_observed (s\<lparr>as_typed_input := as_typed_input s + 1\<rparr>)
      in enqueued EvExternalInjection (hv_later env) s)"

text \<open>The hotkey machine's verdict. The result is the outcome when the hook is done with the
  edge, otherwise the edge, whether the hotkey claimed it, and whether it still goes through.\<close>

definition claim_hotkey ::
  "raw_key_event \<Rightarrow> undo_hotkey_action \<Rightarrow> app_state
   \<Rightarrow> (hook_outcome + raw_key_event \<times> bool \<times> bool) \<times> app_state" where
  "claim_hotkey raw action s =
     (case action of
        PassThrough \<Rightarrow> (Inr (raw, False, False), s)
      | Swallow \<Rightarrow> (Inl swallowed, s)
      | TriggerSwallow \<Rightarrow>
          if cg_active (as_gate s)
          then (Inl swallowed,
                s\<lparr>as_gate := defer_hotkey (raw\<lparr>ke_hotkey_trigger := True\<rparr>) (as_gate s)\<rparr>)
          else (Inr (raw\<lparr>ke_hotkey_trigger := True\<rparr>, True, False), s)
      | TriggerPassThrough \<Rightarrow>
          if cg_active (as_gate s)
          then (Inr (raw\<lparr>ke_hotkey_trigger := False\<rparr>, False, False),
                s\<lparr>as_gate := defer_hotkey (raw\<lparr>ke_hotkey_trigger := True\<rparr>) (as_gate s)\<rparr>)
          else (Inr (raw\<lparr>ke_hotkey_trigger := True\<rparr>, True, True), s))"

text \<open>A physical edge while a gate is active: whether the gate took it.\<close>

definition gate_edge ::
  "raw_key_event \<Rightarrow> bool \<Rightarrow> foreground_context \<Rightarrow> hook_env \<Rightarrow> app_state
   \<Rightarrow> bool \<times> raw_key_event \<times> app_state" where
  "gate_edge raw key_down foreground env s =
     (let s = (case cg_origin (as_gate s) of
                 Some origin \<Rightarrow>
                   if \<not> same_input_target origin foreground
                   then break_now CauseFocusChanged env s else s
               | None \<Rightarrow> s);
          s = (if key_down \<and> hotkey_modifier_bit (ucast (ke_virtual_key raw)) = None
               then s\<lparr>as_gate := (as_gate s)\<lparr>cg_pending_hotkey := None\<rparr>\<rparr> else s);
          raw = (if cg_active (as_gate s) \<and> key_down
                 then raw\<lparr>ke_repeat := gated_key_down_repeats (cg_held (as_gate s)) raw
                            (hv_key_down env (ucast (ke_virtual_key raw)))\<rparr>
                 else raw);
          (held, s) = hold_gated_edge raw (hv_now env) (hv_later env) (hv_current env) s
      in (held, raw, s))"

definition arm_space_gate ::
  "raw_key_event \<Rightarrow> bool \<Rightarrow> bool \<Rightarrow> foreground_context \<Rightarrow> hook_env \<Rightarrow> app_state \<Rightarrow> app_state" where
  "arm_space_gate raw drained key_down foreground env s =
     (let m = as_metrics s in
      if should_arm_space_decision_gate drained key_down (ucast (ke_virtual_key raw))
           (m_auto_enabled m) (hook_privacy_reason m (fc_process foreground)) (cg_active (as_gate s))
           (shortcut_modifiers_released_by (hv_key_down env))
         \<and> \<not> has_retained_input m \<and> \<not> m_configuration_pending m
      then arm_gate (ke_sequence raw) (Some foreground) (hv_later env) s
      else s)"

definition queue_edge ::
  "raw_key_event \<Rightarrow> bool \<Rightarrow> bool \<Rightarrow> hook_env \<Rightarrow> app_state \<Rightarrow> bool \<times> app_state" where
  "queue_edge raw claimed passes_through env s =
     (if claimed \<and> has_retained_input (as_metrics s) then
        let armed = m_recovery_armed (as_metrics s);
            s = as_metrics_update (\<lambda>m. m\<lparr>m_recovery_armed := False\<rparr>) s;
            (key, recovery) = retained_hotkey_events raw passes_through armed;
            (key_queued, s) = (case key of None \<Rightarrow> (True, s) | Some k \<Rightarrow> enqueue k (hv_later env) s)
        in if \<not> key_queued then (False, s)
           else (case recovery of None \<Rightarrow> (True, s) | Some r \<Rightarrow> enqueue r (hv_later env) s)
      else enqueue (EvKey raw) (hv_later env) s)"

text \<open>An edge that goes to the application: numbered, queued for the worker, and with it the
  decision gate of a Space.\<close>

definition forward_edge ::
  "raw_key_event \<Rightarrow> bool \<Rightarrow> bool \<Rightarrow> bool \<Rightarrow> bool \<Rightarrow> foreground_context \<Rightarrow> hook_env \<Rightarrow> app_state
   \<Rightarrow> u64 \<times> app_state" where
  "forward_edge raw claimed passes_through drained key_down foreground env s =
     (let s = (if key_down \<and> \<not> drained then s\<lparr>as_typed_input := as_typed_input s + 1\<rparr> else s);
          s = bump_observed s;
          sequence = m_observed_input_sequence (as_metrics s);
          raw = raw\<lparr>ke_sequence := sequence\<rparr>;
          s = (if claimed
               then as_metrics_update (\<lambda>m. m\<lparr>m_explicit_hotkey_sequence := sequence\<rparr>) s else s);
          s = arm_space_gate raw drained key_down foreground env s;
          (queued, s) = queue_edge raw claimed passes_through env s;
          s = (if \<not> queued \<and> cg_active (as_gate s) \<and> (drained \<or> cg_token (as_gate s) = sequence)
               then break_now CauseWorkerQueue env
                      (s\<lparr>as_gate := (as_gate s)\<lparr>cg_drain_failed := True\<rparr>\<rparr>)
               else s)
      in (sequence, s))"


section \<open>The keyboard hook\<close>

definition hooked_edge :: "hook_event \<Rightarrow> bool \<Rightarrow> foreground_context \<Rightarrow> hook_env \<Rightarrow> app_state \<Rightarrow> raw_key_event" where
  "hooked_edge e drained foreground env s =
     \<lparr>ke_message = he_message e, ke_virtual_key = he_vk e, ke_scan_code = he_scan e,
      ke_caps_lock = hv_caps_lock env, ke_extended = he_extended e, ke_foreground = foreground,
      ke_sequence = 0, ke_drain_token = (if drained then cg_token (as_gate s) else 0),
      ke_hotkey_trigger = False, ke_repeat = False,
      ke_held_modifiers = held_modifiers_for_event (hv_key_down env) (ucast (he_vk e))
        (is_down_message (he_message e)) (is_up_message (he_message e))\<rparr>"

text \<open>A physical edge: it first supersedes a queued key-up of the same key, then the hotkey
  machine may take it, then an active gate.\<close>

definition physical_edge ::
  "raw_key_event \<Rightarrow> bool \<Rightarrow> bool \<Rightarrow> foreground_context \<Rightarrow> hook_env \<Rightarrow> app_state
   \<Rightarrow> hook_outcome \<times> app_state" where
  "physical_edge raw key_down key_up foreground env s =
     (let s = s\<lparr>as_pending_key_releases := cancel_superseded_key_release (as_pending_key_releases s) raw\<rparr>;
          vk = ucast (ke_virtual_key raw);
          (action, m) = contextual_hotkey_action (as_metrics s) (ke_message raw) vk
            (pressed_hotkey_modifiers_for_event (hv_key_down env) vk key_down key_up)
      in case claim_hotkey raw action (s\<lparr>as_metrics := m\<rparr>) of
           (Inl outcome, s) \<Rightarrow> (outcome, s)
         | (Inr (raw, claimed, passes_through), s) \<Rightarrow>
             let (held, raw, s) =
                   (if \<not> claimed \<and> cg_active (as_gate s)
                    then gate_edge raw key_down foreground env s else (False, raw, s))
             in if held then (swallowed, s)
                else
                  let (sequence, s) = forward_edge raw claimed passes_through False key_down foreground env s
                  in (\<lparr>ho_swallow = (action = TriggerSwallow), ho_forwarded = Some sequence,
                       ho_drained = False\<rparr>, s))"

definition observe_key_edge :: "hook_event \<Rightarrow> hook_env \<Rightarrow> app_state \<Rightarrow> hook_outcome \<times> app_state" where
  "observe_key_edge e env s =
     (let key_down = is_down_message (he_message e);
          key_up = is_up_message (he_message e);
          drained = (he_extra e = DRAINED_EVENT_MARKER)
      in
      if he_extra e = INJECTED_EVENT_MARKER then (passed False, s)
      else if is_owned_gate_fence_marker (he_extra e)
      then (swallowed, observe_fence (he_extra e) key_up env s)
      else if as_shutdown s then (passed False, s)
      else if he_injected e \<and> \<not> drained then (passed drained, observe_foreign_injection env s)
      else case hv_foreground env of
          None \<Rightarrow> (passed drained,
            enqueued EvExternalInjection (hv_later env) (break_now CauseFocusChanged env s))
        | Some foreground \<Rightarrow>
            let raw = hooked_edge e drained foreground env s in
            if drained then
              let (sequence, s) = forward_edge raw False False True key_down foreground env s
              in (\<lparr>ho_swallow = False, ho_forwarded = Some sequence, ho_drained = True\<rparr>, s)
            else physical_edge raw key_down key_up foreground env s)"

text \<open>After the hooks further down the chain: \<open>consumed\<close> says that one of them took the edge.\<close>

definition after_chain :: "bool \<Rightarrow> hook_outcome \<Rightarrow> hook_env \<Rightarrow> app_state \<Rightarrow> app_state" where
  "after_chain consumed out env s =
     (case (ho_swallow out, ho_forwarded out) of
        (False, Some sequence) \<Rightarrow>
          if \<not> consumed
          then as_metrics_update (\<lambda>m. m\<lparr>m_forwarded_input_sequence := sequence\<rparr>) s
          else
            let s = (if \<not> ho_drained out \<and> cg_active (as_gate s) \<and> cg_token (as_gate s) = sequence
                     then break_now CauseDownstreamHook env s else s);
                s = (if ho_drained out \<and> cg_active (as_gate s)
                     then s\<lparr>as_gate := (as_gate s)\<lparr>cg_cancelled := True, cg_drain_failed := True\<rparr>,
                            as_metrics := (as_metrics s)\<lparr>m_cancelled_gate_token := cg_token (as_gate s)\<rparr>\<rparr>
                     else s)
            in enqueued EvExternalInjection (hv_later env) s
      | _ \<Rightarrow> s)"

text \<open>The whole callback: whether the edge is withheld from the application, and the state.\<close>

definition keyboard_hook_body ::
  "bool \<Rightarrow> hook_event \<Rightarrow> hook_env \<Rightarrow> bool \<Rightarrow> app_state \<Rightarrow> bool \<times> app_state" where
  "keyboard_hook_body code_ok e env consumed s =
     (if \<not> code_ok then (consumed, s)
      else
        let (out, s) = observe_key_edge e env s;
            withheld = (ho_swallow out \<or> consumed)
        in (withheld, after_chain consumed out env s))"

definition observe_mouse_button :: "bool \<Rightarrow> hook_env \<Rightarrow> app_state \<Rightarrow> app_state" where
  "observe_mouse_button injected env s =
     (let s = bump_observed (s\<lparr>as_typed_input := as_typed_input s + 1\<rparr>)
      in if injected
         then enqueued EvExternalInjection (hv_later env) (break_now CauseExternalInjection env s)
         else enqueued EvMouse (hv_later env) (break_now CauseMouse env s))"

section \<open>The hooks are steps of the gate's protocol\<close>

text \<open>A part of a hook: it moves the world by steps of the protocol, and what it takes from the
  user is \<open>xs\<close>.\<close>

definition moves :: "world \<Rightarrow> raw_key_event list \<Rightarrow> app_state \<Rightarrow> bool" where
  "moves w xs s \<longleftrightarrow>
     (\<exists>w'. rtranclp gate_step w w' \<and> w_app w' = s \<and> w_taken w' = w_taken w @ xs)"

lemma moves_refl: "moves w [] (w_app w)"
  unfolding moves_def by (intro exI [of _ w]) simp

lemma moves_then:
  assumes "moves w xs s" "\<And>w'. w_app w' = s \<Longrightarrow> moves w' ys t"
  shows "moves w (xs @ ys) t"
proof -
  obtain w1 where 1: "rtranclp gate_step w w1" "w_app w1 = s" "w_taken w1 = w_taken w @ xs"
    using assms(1) unfolding moves_def by blast
  obtain w2 where 2: "rtranclp gate_step w1 w2" "w_app w2 = t" "w_taken w2 = w_taken w1 @ ys"
    using assms(2) [OF 1(2)] unfolding moves_def by blast
  have "rtranclp gate_step w w2" by (rule rtranclp_trans [OF 1(1) 2(1)])
  with 1 2 show ?thesis unfolding moves_def by (intro exI [of _ w2]) simp
qed

lemma moves_step:
  assumes "gate_step w w'" "w_app w' = s" "w_taken w' = w_taken w @ xs"
  shows "moves w xs s"
  unfolding moves_def using r_into_rtranclp [where r = gate_step, OF assms(1)] assms(2,3)
  by (intro exI [of _ w']) simp

lemma moves_quiet: "quiet (w_app w) s \<Longrightarrow> moves w [] s"
  by (rule moves_step [OF other]) simp_all

lemma moves_break: "moves w [] (break_correction_gate c cur now (w_app w))"
  by (rule moves_step [OF break_gate]) simp_all

lemma moves_hold: "hold_gated_edge raw t1 t2 cur (w_app w) = (True, s) \<Longrightarrow> moves w [raw] s"
  by (rule moves_step [OF swallow]) simp_all

lemma moves_then_quiet: "moves w xs s \<Longrightarrow> quiet s t \<Longrightarrow> moves w xs t"
  using moves_then [of w xs s "[]" t] moves_quiet by fastforce

lemma moves_then_break: "moves w xs s \<Longrightarrow> moves w xs (break_correction_gate c cur now s)"
  using moves_then [of w xs s "[]" "break_correction_gate c cur now s"] moves_break by fastforce

lemma moves_then_enqueued: "moves w xs s \<Longrightarrow> moves w xs (enqueued e now s)"
  by (rule moves_then_quiet [OF _ quiet_enqueued(1)])

lemma moves_then_break_now: "moves w xs s \<Longrightarrow> moves w xs (break_now c env s)"
  unfolding break_now_def by (rule moves_then_break)

lemma moves_then_enqueue: "moves w xs s \<Longrightarrow> enqueue e now s = (b, t) \<Longrightarrow> moves w xs t"
  using moves_then_quiet quiet_enqueued(2) [of s e now] by simp

lemma moves_then_cases: "(P \<Longrightarrow> moves w xs s) \<Longrightarrow> (\<not> P \<Longrightarrow> moves w xs t) \<Longrightarrow> moves w xs (if P then s else t)"
  by simp

lemmas moves_intros = moves_refl moves_then_break_now moves_then_enqueued

lemma quiet_bump: "quiet s (bump_observed s)" "quiet s (bump_observed (s\<lparr>as_typed_input := n\<rparr>))"
  by (simp_all add: bump_observed_def quiet_def)

lemma observe_fence_moves: "moves w [] (observe_fence extra key_up env (w_app w))"
proof -
  let ?s = "(w_app w)\<lparr>as_gate := (as_gate (w_app w))\<lparr>cg_current_drain_count := 0,
      cg_drain_in_flight := False, cg_awaiting_worker_ack := True\<rparr>\<rparr>"
  have q: "moves w [] ?s" by (rule moves_quiet) (simp add: quiet_def)
  obtain b t where t: "enqueue (EvGateDrainReady (cg_token (as_gate (w_app w)))
      (cg_current_drain_count (as_gate (w_app w)))
      (\<not> cg_drain_failed (as_gate (w_app w)) \<and> \<not> cg_cancelled (as_gate (w_app w))))
      (hv_later env) ?s = (b, t)" by fastforce
  have "moves w [] t" by (rule moves_then_enqueue [OF q t])
  then show ?thesis
    unfolding observe_fence_def Let_def t by (simp add: moves_intros)
qed

lemma observe_foreign_moves: "moves w [] (observe_foreign_injection env (w_app w))"
  unfolding observe_foreign_injection_def Let_def
  by (rule moves_then_enqueued, rule moves_then_quiet [OF moves_then_break_now [OF moves_refl]])
    (rule quiet_bump)

lemma observe_mouse_moves: "moves w [] (observe_mouse_button injected env (w_app w))"
proof -
  have "moves w [] (bump_observed ((w_app w)\<lparr>as_typed_input := as_typed_input (w_app w) + 1\<rparr>))"
    by (rule moves_quiet) (rule quiet_bump)
  then show ?thesis by (simp add: observe_mouse_button_def Let_def moves_intros)
qed

lemma claim_hotkey_quiet: "claim_hotkey raw a s = (r, t) \<Longrightarrow> quiet s t"
  by (auto simp: claim_hotkey_def quiet_def defer_hotkey_def split: undo_hotkey_action.splits if_splits
      option.splits)

lemma hotkey_action_quiet:
  assumes "contextual_hotkey_action (as_metrics s) msg vk mods = (a, m)"
  shows "quiet s (s\<lparr>as_metrics := m\<rparr>)"
proof -
  have "m_retained_input m = m_retained_input (as_metrics s)"
    using assms
    by (auto simp: contextual_hotkey_action_def hotkey_release_action_def Let_def split: if_splits)
  then show ?thesis by (simp add: quiet_def)
qed

lemma queue_edge_quiet: "queue_edge raw claimed pt env s = (b, t) \<Longrightarrow> quiet s t"
proof -
  assume q: "queue_edge raw claimed pt env s = (b, t)"
  let ?s = "as_metrics_update (\<lambda>m. m\<lparr>m_recovery_armed := False\<rparr>) s"
  have a: "quiet s ?s" by (simp add: quiet_def)
  have "quiet s (snd (queue_edge raw claimed pt env s))"
    using a quiet_enqueued(2) quiet_trans [OF a quiet_enqueued(2)]
      quiet_trans [OF quiet_trans [OF a quiet_enqueued(2)] quiet_enqueued(2)]
    by (auto simp: queue_edge_def retained_hotkey_events_def Let_def case_prod_unfold)
  then show "quiet s t" using q by simp
qed

lemma moves_then_arm:
  assumes "moves w xs s"
  shows "moves w xs (arm_space_gate raw drained kd fg env s)"
proof (cases "arm_space_gate raw drained kd fg env s = s")
  case False
  then have c: "\<not> cg_active (as_gate s)" "\<not> has_retained_input (as_metrics s)"
    "arm_space_gate raw drained kd fg env s = arm_gate (ke_sequence raw) (Some fg) (hv_later env) s"
    by (auto simp: arm_space_gate_def should_arm_space_decision_gate_def Let_def split: if_splits)
  have "moves w (xs @ []) (arm_gate (ke_sequence raw) (Some fg) (hv_later env) s)"
  proof (rule moves_then [OF assms])
    fix v :: world assume v: "w_app v = s"
    show "moves v [] (arm_gate (ke_sequence raw) (Some fg) (hv_later env) s)"
      using arm [of v "ke_sequence raw" "Some fg" "hv_later env"] c v
      by (intro moves_step [where w' = "v\<lparr>w_app := arm_gate (ke_sequence raw) (Some fg) (hv_later env) s\<rparr>"])
        simp_all
  qed
  then show ?thesis using c by simp
qed (use assms in simp)

lemma forward_edge_moves:
  assumes "moves w xs s" "forward_edge raw claimed pt drained kd fg env s = (n, t)"
  shows "moves w xs t"
proof -
  define s1 where "s1 = bump_observed (if kd \<and> \<not> drained then s\<lparr>as_typed_input := as_typed_input s + 1\<rparr> else s)"
  define r where "r = raw\<lparr>ke_sequence := m_observed_input_sequence (as_metrics s1)\<rparr>"
  define s2 where "s2 = (if claimed
      then as_metrics_update (\<lambda>m. m\<lparr>m_explicit_hotkey_sequence := m_observed_input_sequence (as_metrics s1)\<rparr>) s1
      else s1)"
  define s3 where "s3 = arm_space_gate r drained kd fg env s2"
  obtain b s4 where q: "queue_edge r claimed pt env s3 = (b, s4)" by fastforce
  have "quiet s s1" unfolding s1_def by (simp add: quiet_bump)
  moreover have "quiet s1 s2" unfolding s2_def by (simp add: quiet_def)
  ultimately have "moves w xs s2" using assms(1) quiet_trans moves_then_quiet by blast
  then have "moves w xs s3" unfolding s3_def by (rule moves_then_arm)
  then have m4: "moves w xs s4" by (rule moves_then_quiet) (rule queue_edge_quiet [OF q])
  have q5: "quiet s4 (s4\<lparr>as_gate := (as_gate s4)\<lparr>cg_drain_failed := True\<rparr>\<rparr>)" by (simp add: quiet_def)
  have "t = s4 \<or> t = break_now CauseWorkerQueue env (s4\<lparr>as_gate := (as_gate s4)\<lparr>cg_drain_failed := True\<rparr>\<rparr>)"
    using assms(2) q
    unfolding forward_edge_def Let_def s1_def [symmetric] r_def [symmetric] s2_def [symmetric] s3_def [symmetric]
    by (auto split: if_splits)
  then show ?thesis using m4 moves_then_break_now [OF moves_then_quiet [OF m4 q5]] by metis
qed


lemma gate_edge_moves:
  assumes "moves w [] s" "gate_edge raw kd fg env s = (held, raw', t)"
  shows "moves w (if held then [raw'] else []) t"
proof -
  define s1 where "s1 = (case cg_origin (as_gate s) of
      Some origin \<Rightarrow> if \<not> same_input_target origin fg then break_now CauseFocusChanged env s else s
    | None \<Rightarrow> s)"
  define s2 where "s2 = (if kd \<and> hotkey_modifier_bit (ucast (ke_virtual_key raw)) = None
      then s1\<lparr>as_gate := (as_gate s1)\<lparr>cg_pending_hotkey := None\<rparr>\<rparr> else s1)"
  have "moves w [] s1" using assms(1) by (simp add: s1_def moves_intros split: option.split)
  moreover have "quiet s1 s2" by (simp add: s2_def quiet_def)
  ultimately have m2: "moves w [] s2" by (rule moves_then_quiet)
  have h: "hold_gated_edge raw' (hv_now env) (hv_later env) (hv_current env) s2 = (held, t)"
    using assms(2)
    unfolding gate_edge_def Let_def s1_def [symmetric] s2_def [symmetric]
    by (auto simp: case_prod_unfold prod_eq_iff split: if_splits)
  show ?thesis
  proof (cases held)
    case True
    have "moves w ([] @ [raw']) t"
      by (rule moves_then [OF m2]) (use h True in \<open>auto intro: moves_hold\<close>)
    then show ?thesis using True by simp
  next
    case False
    then have "t = s2" using h by (auto simp: hold_gated_edge_def Let_def split: prod.splits if_splits bool.splits)
    then show ?thesis using False m2 by simp
  qed
qed

lemma repeat_mark_key:
  "key_of (if P then raw\<lparr>ke_repeat := b\<rparr> else raw) = key_of raw"
  "ke_message (if P then raw\<lparr>ke_repeat := b\<rparr> else raw) = ke_message raw"
  by (simp_all add: key_of_def)

lemma gate_edge_key:
  "gate_edge raw kd fg env s = (held, raw', t) \<Longrightarrow> key_of raw' = key_of raw \<and> ke_message raw' = ke_message raw"
proof -
  assume "gate_edge raw kd fg env s = (held, raw', t)"
  then have "raw' = fst (snd (gate_edge raw kd fg env s))" by simp
  then show ?thesis by (simp add: gate_edge_def Let_def case_prod_unfold repeat_mark_key)
qed

lemma moves_supersede:
  "moves w [] ((w_app w)\<lparr>as_pending_key_releases :=
     cancel_superseded_key_release (as_pending_key_releases (w_app w)) raw\<rparr>)"
  by (rule moves_step [OF supersede [of w raw]]) simp_all

text \<open>A physical edge the hook withholds is in custody, unless the hotkey took it.\<close>

lemma physical_edge_moves:
  assumes "physical_edge raw kd ku fg env (w_app w) = (out, t)"
  shows "\<exists>xs. moves w xs t \<and> (\<forall>x \<in> set xs. key_of x = key_of raw \<and> ke_message x = ke_message raw)
    \<and> length xs \<le> 1 \<and> (xs \<noteq> [] \<longrightarrow> ho_swallow out)
    \<and> (ho_swallow out \<and> xs = [] \<longrightarrow> swallows (fst (contextual_hotkey_action (as_metrics (w_app w))
        (ke_message raw) (ucast (ke_virtual_key raw))
        (pressed_hotkey_modifiers_for_event (hv_key_down env) (ucast (ke_virtual_key raw)) kd ku))))"
proof -
  define s where "s = (w_app w)\<lparr>as_pending_key_releases :=
      cancel_superseded_key_release (as_pending_key_releases (w_app w)) raw\<rparr>"
  have sm: "as_metrics s = as_metrics (w_app w)" by (simp add: s_def)
  obtain a m where a: "contextual_hotkey_action (as_metrics s) (ke_message raw) (ucast (ke_virtual_key raw))
      (pressed_hotkey_modifiers_for_event (hv_key_down env) (ucast (ke_virtual_key raw)) kd ku) = (a, m)"
    by fastforce
  obtain r u where c: "claim_hotkey raw a (s\<lparr>as_metrics := m\<rparr>) = (r, u)" by fastforce
  have "moves w [] s" unfolding s_def by (rule moves_supersede)
  then have mu: "moves w [] u"
    using moves_then_quiet quiet_trans [OF hotkey_action_quiet [OF a] claim_hotkey_quiet [OF c]] by blast
  show ?thesis
  proof (cases r)
    case (Inl o')
    then have "out = o'" "t = u" "swallows a"
      using assms a c
      unfolding physical_edge_def Let_def s_def [symmetric]
      by (auto simp: claim_hotkey_def swallows_def split: undo_hotkey_action.splits if_splits)
    then show ?thesis using mu a sm by (intro exI [of _ "[]"]) simp
  next
    case (Inr q)
    obtain raw1 claimed pt where q: "q = (raw1, claimed, pt)" by (cases q)
    have k1: "key_of raw1 = key_of raw" "ke_message raw1 = ke_message raw"
      using c Inr q by (auto simp: claim_hotkey_def key_of_def split: undo_hotkey_action.splits if_splits)
    obtain held raw2 v where g: "(if \<not> claimed \<and> cg_active (as_gate u)
        then gate_edge raw1 kd fg env u else (False, raw1, u)) = (held, raw2, v)"
      by (metis prod_cases3)
    have mv: "moves w (if held then [raw2] else []) v"
      using g mu gate_edge_moves [OF mu, of raw1 kd fg env held raw2 v] by (cases "\<not> claimed \<and> cg_active (as_gate u)") auto
    have k2: "key_of raw2 = key_of raw1" "ke_message raw2 = ke_message raw1"
      using g gate_edge_key [of raw1 kd fg env u held raw2 v] by (auto split: if_splits)
    obtain n x where f: "forward_edge raw2 claimed pt False kd fg env v = (n, x)" by fastforce
    have t: "(out, t) = (if held then (swallowed, v)
        else (\<lparr>ho_swallow = (a = TriggerSwallow), ho_forwarded = Some n, ho_drained = False\<rparr>, x))"
      using assms g c
      unfolding physical_edge_def Let_def s_def [symmetric] a prod.case Inr q
      using f by (cases "\<not> claimed \<and> cg_active (as_gate u)"; cases held) auto
    show ?thesis
    proof (cases held)
      case True
      then show ?thesis using t mv k1 k2 by (intro exI [of _ "[raw2]"]) simp
    next
      case False
      have "moves w [] x" using forward_edge_moves [OF _ f] mv False by simp
      then show ?thesis using t False a sm by (intro exI [of _ "[]"]) (simp add: swallows_def)
    qed
  qed
qed

lemma after_chain_moves:
  assumes "moves w xs s"
  shows "moves w xs (after_chain consumed out env s)"
proof (cases "ho_forwarded out")
  case (Some n)
  define s1 where "s1 = (if \<not> ho_drained out \<and> cg_active (as_gate s) \<and> cg_token (as_gate s) = n
      then break_now CauseDownstreamHook env s else s)"
  define s2 where "s2 = (if ho_drained out \<and> cg_active (as_gate s1)
      then s1\<lparr>as_gate := (as_gate s1)\<lparr>cg_cancelled := True, cg_drain_failed := True\<rparr>,
              as_metrics := (as_metrics s1)\<lparr>m_cancelled_gate_token := cg_token (as_gate s1)\<rparr>\<rparr>
      else s1)"
  have "moves w xs s1" using assms by (simp add: s1_def moves_then_break_now)
  moreover have "quiet s1 s2" by (simp add: s2_def quiet_def)
  ultimately have "moves w xs (enqueued EvExternalInjection (hv_later env) s2)"
    using moves_then_quiet moves_then_enqueued by blast
  moreover have "moves w xs (as_metrics_update (\<lambda>m. m\<lparr>m_forwarded_input_sequence := n\<rparr>) s)"
    by (rule moves_then_quiet [OF assms]) (simp add: quiet_def)
  ultimately show ?thesis
    using assms Some unfolding after_chain_def Let_def s1_def s2_def
    by (cases "ho_swallow out") simp_all
qed (use assms in \<open>simp add: after_chain_def split: bool.split\<close>)

definition is_marked :: "hook_event \<Rightarrow> bool" where
  "is_marked e \<longleftrightarrow>
     he_extra e = INJECTED_EVENT_MARKER \<or> he_extra e = DRAINED_EVENT_MARKER
     \<or> is_owned_gate_fence_marker (he_extra e)"

text \<open>The verdict of the hotkey machine on an event.\<close>

definition hotkey_verdict :: "hook_event \<Rightarrow> hook_env \<Rightarrow> app_state \<Rightarrow> undo_hotkey_action" where
  "hotkey_verdict e env s =
     fst (contextual_hotkey_action (as_metrics s) (he_message e) (ucast (he_vk e))
       (pressed_hotkey_modifiers_for_event (hv_key_down env) (ucast (he_vk e))
         (is_down_message (he_message e)) (is_up_message (he_message e))))"

lemma observe_key_edge_moves:
  assumes "observe_key_edge e env (w_app w) = (out, t)"
  shows "\<exists>xs. moves w xs t \<and> length xs \<le> 1
    \<and> (\<forall>x \<in> set xs. key_of x = (he_vk e, he_scan e, he_extended e) \<and> ke_message x = he_message e)
    \<and> (xs \<noteq> [] \<longrightarrow> ho_swallow out)
    \<and> (ho_swallow out \<and> xs = [] \<longrightarrow>
        is_owned_gate_fence_marker (he_extra e) \<or> swallows (hotkey_verdict e env (w_app w)))"
proof -
  let ?s = "w_app w"
  consider "out = passed False" "t = ?s" | "out = passed False" "t = observe_foreign_injection env ?s"
    | "is_owned_gate_fence_marker (he_extra e)" "t = observe_fence (he_extra e) (is_up_message (he_message e)) env ?s"
    | "\<not> ho_swallow out" "t = enqueued EvExternalInjection (hv_later env) (break_now CauseFocusChanged env ?s)"
    | fg n where "\<not> ho_swallow out"
      "forward_edge (hooked_edge e True fg env ?s) False False True (is_down_message (he_message e)) fg env ?s = (n, t)"
    | fg where "physical_edge (hooked_edge e False fg env ?s) (is_down_message (he_message e))
        (is_up_message (he_message e)) fg env ?s = (out, t)"
    using assms
    by (auto simp: observe_key_edge_def Let_def case_prod_unfold prod_eq_iff split: if_splits option.splits)
  then show ?thesis
  proof cases
    case 1
    then show ?thesis by (intro exI [of _ "[]"]) (simp add: moves_intros)
  next
    case 2
    then show ?thesis by (intro exI [of _ "[]"]) (simp add: observe_foreign_moves)
  next
    case 3
    then show ?thesis by (intro exI [of _ "[]"]) (simp add: observe_fence_moves)
  next
    case 4
    then show ?thesis by (intro exI [of _ "[]"]) (simp add: moves_intros)
  next
    case 5
    then show ?thesis using forward_edge_moves [OF moves_refl 5(2)] by (intro exI [of _ "[]"]) simp
  next
    case 6
    show ?thesis
      using physical_edge_moves [OF 6]
      by (auto simp: hooked_edge_def key_of_def hotkey_verdict_def)
  qed
qed


section \<open>What the hook promises\<close>

text \<open>C1. A key the agent withholds is never simply gone. Whatever the state, one call of the
  keyboard hook is a run of the gate's protocol that takes at most the event's own edge into
  custody; a withheld event that no later hook consumed is in custody, is the agent's own
  fence key, or belongs to the hotkey; an event that is let through is not also kept.\<close>

theorem withheld_key_in_custody:
  assumes "keyboard_hook_body True e env consumed (w_app w) = (withheld, t)"
  shows "\<exists>w' xs. rtranclp gate_step w w' \<and> w_app w' = t \<and> w_taken w' = w_taken w @ xs
    \<and> length xs \<le> 1
    \<and> (\<forall>x \<in> set xs. key_of x = (he_vk e, he_scan e, he_extended e) \<and> ke_message x = he_message e)
    \<and> (xs \<noteq> [] \<longrightarrow> withheld)
    \<and> (withheld \<and> \<not> consumed \<and> xs = [] \<longrightarrow>
        is_owned_gate_fence_marker (he_extra e) \<or> swallows (hotkey_verdict e env (w_app w)))"
proof -
  obtain out s where o: "observe_key_edge e env (w_app w) = (out, s)" by fastforce
  have r: "withheld \<longleftrightarrow> ho_swallow out \<or> consumed" "t = after_chain consumed out env s"
    using assms o by (auto simp: keyboard_hook_body_def Let_def)
  obtain xs where xs: "moves w xs s" "length xs \<le> 1"
    "\<forall>x \<in> set xs. key_of x = (he_vk e, he_scan e, he_extended e) \<and> ke_message x = he_message e"
    "xs \<noteq> [] \<longrightarrow> ho_swallow out"
    "ho_swallow out \<and> xs = [] \<longrightarrow>
      is_owned_gate_fence_marker (he_extra e) \<or> swallows (hotkey_verdict e env (w_app w))"
    using observe_key_edge_moves [OF o] by blast
  obtain w' where "rtranclp gate_step w w'" "w_app w' = t" "w_taken w' = w_taken w @ xs"
    using after_chain_moves [OF xs(1), of consumed out env] unfolding moves_def r(2) by blast
  with xs r(1) show ?thesis by (intro exI [of _ w'] exI [of _ xs]) blast
qed

definition sample_event :: "u32 \<Rightarrow> u32 \<Rightarrow> hook_event" where
  "sample_event message vk =
     \<lparr>he_message = message, he_vk = vk, he_scan = 0x1e, he_extended = False, he_injected = False,
      he_extra = 0\<rparr>"

definition sample_env :: hook_env where
  "sample_env =
     \<lparr>hv_foreground = Some sample_target, hv_current = Some sample_target, hv_caps_lock = False,
      hv_key_down = (\<lambda>_. False), hv_now = 1, hv_later = 1\<rparr>"

lemma withheld_key_in_custody_witness:
  "\<exists>withheld t w' xs. keyboard_hook_body True (sample_event WM_KEYDOWN 0x41) sample_env False
      (agent_start sample_configuration 0) = (withheld, t)
    \<and> rtranclp gate_step (world_start (agent_start sample_configuration 0)) w' \<and> w_app w' = t
    \<and> w_taken w' = xs"
proof -
  let ?w = "world_start (agent_start sample_configuration 0)"
  obtain b t where r: "keyboard_hook_body True (sample_event WM_KEYDOWN 0x41) sample_env False (w_app ?w) = (b, t)"
    by fastforce
  from withheld_key_in_custody [OF r]
  obtain w' xs where "rtranclp gate_step ?w w'" "w_app w' = t" "w_taken w' = w_taken ?w @ xs"
    by (elim exE conjE)
  then show ?thesis using r by (intro exI [of _ b] exI [of _ t] exI [of _ w'] exI [of _ xs])
    (simp add: world_start_def)
qed

text \<open>C32. Input injected by another program is never withheld and never kept: it breaks an
  active gate, so that no held key is typed after it, and goes through.\<close>

theorem foreign_injection_passes:
  assumes "keyboard_hook_body True e env consumed s = (withheld, t)"
    and "he_injected e" "\<not> is_marked e" "\<not> as_shutdown s"
  shows "withheld = consumed \<and> \<not> cg_active (as_gate t) \<and> cg_held (as_gate t) = (if cg_active (as_gate s) then [] else cg_held (as_gate s))
    \<and> as_typed_input t = as_typed_input s + 1"
proof -
  have t: "withheld = consumed" "t = observe_foreign_injection env s"
    using assms by (simp_all add: keyboard_hook_body_def observe_key_edge_def Let_def is_marked_def
        after_chain_def)
  have "as_gate (break_now c env s) = (as_gate s)\<lparr>cg_held := [], cg_cancelled := True,
      cg_active := False, cg_pending_hotkey := None\<rparr>"
    "as_typed_input (break_now c env s) = as_typed_input s" if "cg_active (as_gate s)" for c
    using break_fields(1,8) [OF that] by (simp_all add: break_now_def)
  then show ?thesis
    unfolding t
    by (cases "cg_active (as_gate s)")
      (simp_all add: observe_foreign_injection_def Let_def bump_observed_def frame break_now_def)
qed

lemma foreign_injection_passes_witness:
  "\<exists>t. keyboard_hook_body True ((sample_event WM_KEYDOWN 0x41)\<lparr>he_injected := True\<rparr>) sample_env False
      (agent_start sample_configuration 0) = (False, t) \<and> \<not> cg_active (as_gate t)"
proof -
  let ?e = "(sample_event WM_KEYDOWN 0x41)\<lparr>he_injected := True\<rparr>"
  obtain b t where r: "keyboard_hook_body True ?e sample_env False (agent_start sample_configuration 0) = (b, t)"
    by fastforce
  have "he_injected ?e" "\<not> is_marked ?e" "\<not> as_shutdown (agent_start sample_configuration 0)"
    by (simp_all add: is_marked_def sample_event_def is_owned_gate_fence_marker_def agent_start_def
        Let_def consts_def)
  from foreign_injection_passes [OF r this] r show ?thesis by simp
qed


section \<open>When the hook opens a gate\<close>

text \<open>The metrics a hook leaves alone before it decides on a gate.\<close>

definition arming_facts :: "observer_metrics \<Rightarrow> bool \<times> u8 \<times> u32 \<times> bool \<times> bool" where
  "arming_facts m =
     (m_auto_enabled m, m_privacy_reason m, m_privacy_process_id m, has_retained_input m,
      m_configuration_pending m)"

definition space_gate_allowed :: "hook_event \<Rightarrow> hook_env \<Rightarrow> app_state \<Rightarrow> bool" where
  "space_gate_allowed e env s \<longleftrightarrow>
     is_down_message (he_message e) \<and> (ucast (he_vk e) :: u16) = VK_SPACE \<and> he_extra e \<noteq> DRAINED_EVENT_MARKER
     \<and> m_auto_enabled (as_metrics s) \<and> \<not> has_retained_input (as_metrics s)
     \<and> \<not> m_configuration_pending (as_metrics s)
     \<and> shortcut_modifiers_released_by (hv_key_down env)
     \<and> (\<exists>fg. hv_foreground env = Some fg
          \<and> hook_privacy_reason (as_metrics s) (fc_process fg) = PRIVACY_ALLOWED)"

lemma contextual_arming: "contextual_hotkey_action m msg vk mods = (a, m') \<Longrightarrow> arming_facts m' = arming_facts m"
  by (auto simp: contextual_hotkey_action_def hotkey_release_action_def Let_def arming_facts_def
      has_retained_input_def split: if_splits)

lemma claim_hotkey_frame:
  assumes "claim_hotkey raw a s = (r, t)"
  shows "as_metrics t = as_metrics s" "cg_active (as_gate t) = cg_active (as_gate s)"
    and "r = Inr (raw', claimed, pt) \<Longrightarrow> ke_virtual_key raw' = ke_virtual_key raw"
  using assms
  by (auto simp: claim_hotkey_def defer_hotkey_def split: undo_hotkey_action.splits if_splits option.splits)

lemma queue_edge_active: "queue_edge raw claimed pt env s = (b, t) \<Longrightarrow> cg_active (as_gate t) = cg_active (as_gate s)"
  by (drule queue_edge_quiet) (simp add: quiet_def)

lemma break_now_inactive: "\<not> cg_active (as_gate (break_now c env s))"
  by (cases "cg_active (as_gate s)") (simp_all add: break_now_def break_fields)

lemma arm_space_gate_active:
  assumes "cg_active (as_gate (arm_space_gate raw drained kd fg env s))" "\<not> cg_active (as_gate s)"
  shows "\<not> drained \<and> kd \<and> (ucast (ke_virtual_key raw) :: u16) = VK_SPACE
    \<and> m_auto_enabled (as_metrics s) \<and> hook_privacy_reason (as_metrics s) (fc_process fg) = PRIVACY_ALLOWED
    \<and> shortcut_modifiers_released_by (hv_key_down env) \<and> \<not> has_retained_input (as_metrics s)
    \<and> \<not> m_configuration_pending (as_metrics s)"
  using assms by (auto simp: arm_space_gate_def Let_def should_arm_space_decision_gate_def split: if_splits)

lemma forward_edge_active:
  assumes "forward_edge raw claimed pt drained kd fg env s = (n, t)" "cg_active (as_gate t)"
    and "\<not> cg_active (as_gate s)"
  shows "\<not> drained \<and> kd \<and> (ucast (ke_virtual_key raw) :: u16) = VK_SPACE
    \<and> m_auto_enabled (as_metrics s) \<and> hook_privacy_reason (as_metrics s) (fc_process fg) = PRIVACY_ALLOWED
    \<and> shortcut_modifiers_released_by (hv_key_down env) \<and> \<not> has_retained_input (as_metrics s)
    \<and> \<not> m_configuration_pending (as_metrics s)"
proof -
  define s1 where "s1 = bump_observed (if kd \<and> \<not> drained then s\<lparr>as_typed_input := as_typed_input s + 1\<rparr> else s)"
  define s2 where "s2 = (if claimed
      then as_metrics_update (\<lambda>m. m\<lparr>m_explicit_hotkey_sequence := m_observed_input_sequence (as_metrics s1)\<rparr>) s1
      else s1)"
  define r where "r = raw\<lparr>ke_sequence := m_observed_input_sequence (as_metrics s1)\<rparr>"
  have f: "arming_facts (as_metrics s2) = arming_facts (as_metrics s)" "\<not> cg_active (as_gate s2)"
    using assms(3) by (simp_all add: s1_def s2_def bump_observed_def arming_facts_def has_retained_input_def)
  obtain b u where q: "queue_edge r claimed pt env (arm_space_gate r drained kd fg env s2) = (b, u)" by fastforce
  have "cg_active (as_gate u)"
    using assms(1,2) q break_now_inactive
    unfolding forward_edge_def Let_def s1_def [symmetric] r_def [symmetric] s2_def [symmetric]
    by (auto split: if_splits)
  then have "cg_active (as_gate (arm_space_gate r drained kd fg env s2))" using queue_edge_active [OF q] by simp
  from arm_space_gate_active [OF this f(2)] f(1) show ?thesis
    by (auto simp: r_def arming_facts_def hook_privacy_reason_def split: if_splits)
qed



definition sample_space_state :: app_state where
  "sample_space_state =
     (agent_start sample_configuration 0)\<lparr>as_metrics := observer_metrics_default\<lparr>m_auto_enabled := True,
        m_privacy_reason := 0, m_privacy_process_id := fc_process sample_target\<rparr>\<rparr>"

lemma sample_space_facts:
  "\<not> cg_active (as_gate sample_space_state)" "as_queue sample_space_state = Some []"
  "as_worker_listening sample_space_state" "\<not> as_shutdown sample_space_state"
  "as_pending_key_releases sample_space_state = []"
  "as_metrics sample_space_state = observer_metrics_default\<lparr>m_auto_enabled := True,
     m_privacy_reason := 0, m_privacy_process_id := fc_process sample_target\<rparr>"
  by (simp_all add: sample_space_state_def Let_def agent_start_def correction_gate_default_def)

lemma sample_space_hotkey:
  "contextual_hotkey_action (as_metrics sample_space_state) WM_KEYDOWN VK_SPACE mods
   = (PassThrough, as_metrics sample_space_state)"
  by (simp add: contextual_hotkey_action_def hotkey_release_action_def Let_def sample_space_facts
      observer_metrics_default_def matches_key_def is_down_message_def hotkey_default_def consts_def)

lemma sample_space_opens:
  "cg_active (as_gate (snd (keyboard_hook_body True (sample_event WM_KEYDOWN 0x20) sample_env False sample_space_state)))"
proof -
  let ?s = sample_space_state
  let ?e = "sample_event WM_KEYDOWN 0x20"
  let ?raw = "hooked_edge ?e False sample_target sample_env ?s"
  have e: "he_extra ?e = 0" "he_message ?e = WM_KEYDOWN" "\<not> he_injected ?e"
    "ke_message ?raw = WM_KEYDOWN" "(ucast (ke_virtual_key ?raw) :: u16) = VK_SPACE"
    "hv_foreground sample_env = Some sample_target" "\<And>k. \<not> hv_key_down sample_env k"
    by (simp_all add: sample_event_def hooked_edge_def sample_env_def VK_SPACE_def)
  have mk: "\<not> is_owned_gate_fence_marker 0" "(0 :: u64) \<noteq> INJECTED_EVENT_MARKER" "(0 :: u64) \<noteq> DRAINED_EVENT_MARKER"
    by (simp_all add: is_owned_gate_fence_marker_def consts_def)
  have d: "is_down_message WM_KEYDOWN" "\<not> is_up_message WM_KEYDOWN"
    by (simp_all add: is_down_message_def is_up_message_def consts_def)
  obtain n t where f: "forward_edge ?raw False False False True sample_target sample_env ?s = (n, t)"
    by fastforce
  have same: "?s\<lparr>as_pending_key_releases := [], as_metrics := as_metrics ?s\<rparr> = ?s"
    using sample_space_facts(5) by (metis app_state.surjective app_state.update_convs(4,13))
  have o: "observe_key_edge ?e sample_env ?s =
      (\<lparr>ho_swallow = False, ho_forwarded = Some n, ho_drained = False\<rparr>, t)"
    by (simp add: observe_key_edge_def Let_def e mk d sample_space_facts(1,4,5) physical_edge_def
        cancel_superseded_key_release_def sample_space_hotkey claim_hotkey_def same f)
  have "cg_active (as_gate t)"
    using f
    by (auto simp: forward_edge_def bump_observed_def Let_def e arm_space_gate_def
        should_arm_space_decision_gate_def hook_privacy_reason_def sample_space_facts
        observer_metrics_default_def PRIVACY_ALLOWED_def shortcut_modifiers_released_by_def
        has_retained_input_def queue_edge_def enqueue_def enqueue_with_configuration_def
        arm_gate_def activate_def refresh_flag_def set_refresh_flag_def note_layout_def try_send_def
        INPUT_QUEUE_CAPACITY_def)
  then show ?thesis using o by (simp add: keyboard_hook_body_def after_chain_def)
qed


end
