(* ===== verification/Spec2Isabelle.thy ===== *)
theory Spec2Isabelle
  imports Session Ui_Guard User_Lexicon Backend_Rules Conversion Configuration_Handoff Gate_Protocol Text_Field
    Worker_Steps Configuration_Merge_Document
    Keyboard_Hook Settings Privacy Language Hotkey
begin

text \<open>
  AutoKeyboardLayout: a Windows agent that notices when a word was typed in the wrong keyboard layout and
  types it again in the right one. This development models its decision code and the paths on which a
  user's keys, clipboard or text could get lost, and states what makes them correct.

  \<^bold>\<open>The program.\<close> Low-level hooks see every key edge and mouse button (\<open>keyboard_hook_body\<close>). The hook runs on
  the UI thread, whose state is \<open>AppState\<close>; it passes an edge on, or queues it for the input worker, or
  withholds it in the correction gate while an edit is under way. The worker (\<open>InputProcessor\<close>) follows the
  word being typed (\<open>InputSession\<close>), asks the detector at the end of a word whether it is a word of another
  layout, and edits the text: it erases and retypes the word, or selects it and pastes the replacement from
  the clipboard, which a broker thread owns meanwhile. It tells the UI thread when the gate may hand the
  withheld keys back. Settings, language packs, keyboard profiles and exclusion lists configure both.

  \<^bold>\<open>How effects are modelled.\<close> Pure code is a function on records with the source's fields. The UI thread's
  operations take and return \<open>app_state\<close>; what Windows answers (times, focus, held keys, what \<open>SendInput\<close>
  took) is an argument. The worker's operations take and return its fields (\<open>processor\<close>, and \<open>cells\<close> for those
  behind a \<open>Cell\<close>) and a state \<open>'s\<close> of everything outside the worker, which only the operations of
  \<open>worker_world\<close> read and change; so other threads and programs may act between any two steps. Loops that
  poll are \<open>iterate\<close> (theory \<open>Loops\<close>), whose value is \<open>None\<close> when they do not end; that they end is proved.
  Errors and early returns are values of sums and options. Machine integers are words of their width;
  counters that cannot wrap are \<open>nat\<close>, and so are durations and instants, in nanoseconds. A \<open>char\<close> is its
  scalar value; Unicode tables, the exponential function, the FST library, JSON decoding and grapheme
  segmentation are arguments.

  \<^bold>\<open>Foundations.\<close> \<open>Prelude\<close> (integers, time, collections of facts), \<open>Rust_Text\<close> (\<open>char\<close> and \<open>str\<close>), \<open>F32\<close>
  (binary32 arithmetic), \<open>Ordered_Map\<close> (\<open>BTreeMap\<close>), \<open>Loops\<close> (polling loops and when they return), and
  \<open>Rolling_Budget\<close>, the interface of every rolling allowance: the locale \<open>rolling_budget\<close> proves that no window
  of one period holds more grants than the limit, and \<open>Ui_Guard\<close> interprets it for \<open>RateLimit\<close> and for the
  hook watchdog.

  \<^bold>\<open>Keys and the gate\<close> (\<open>windows_agent.rs\<close>). \<open>Key_Edges\<close>: recorded key edges, the lists of them that are
  replayed, and the inputs built from them. \<open>Gate\<close>: \<open>CorrectionGate\<close>. \<open>Agent_State\<close> and \<open>Agent_Operations\<close>:
  the UI thread's state and the handlers that arm, break, drain, expire and hand over the gate, retain keys,
  queue events and shut down. \<open>Hotkey_Gesture\<close> and \<open>Keyboard_Hook\<close>: the hook from the event to its verdict.
  \<open>Configuration_Handoff\<close>: a loaded configuration on its way to the worker and back. \<open>Gate_Protocol\<close> composes
  these: every handler is a step of a world with ghost state for the edges swallowed and where they went,
  and the lemmas show by induction over runs that every swallowed key is accounted for, in order, and
  recoverable. \<open>Ui_Guard\<close>: \<open>ui_guard.rs\<close> and \<open>rate_limit.rs\<close>.

  \<^bold>\<open>Words and decisions.\<close> \<open>Language\<close>, \<open>Dictionary\<close>, \<open>Scoring\<close>, \<open>Layout_Model\<close> and \<open>Detector\<close> are the files of
  these names: which word is a word of which layout. \<open>Session\<close> is \<open>session.rs\<close>, refined against an abstract view
  of the typed text. \<open>Conversion\<close>: the edits of a conversion and their undo. \<open>Input_Profile\<close>,
  \<open>Profile_Resolver\<close> and \<open>Profile_Cache\<close>: which pack a keyboard layout belongs to. \<open>Hotkey\<close>, \<open>Settings\<close>,
  \<open>User_Lexicon\<close>, \<open>Backend_Rules\<close> and \<open>Privacy\<close>: the user's configuration, with its text forms read back;
  \<open>Configuration_Document\<close> is the file that holds them (\<open>configuration.rs\<close>), read, validated and written.
  \<open>Configuration_Saving\<close>, \<open>Configuration_Round_Trip\<close> and \<open>Configuration_Loaded\<close> prove that what can be loaded can be
  saved and reads back the same: rows in stored form are fixed points, and every row is read into the section it was
  written under. \<open>Configuration_Merge\<close> is the merge of the settings window's draft; \<open>Configuration_Merge_Settings\<close> and
  \<open>Configuration_Merge_Document\<close> prove it against \<open>three_way\<close>, the abstract merge of one value.

  \<^bold>\<open>The worker\<close> (\<open>windows_agent.rs\<close>). \<open>Modifiers\<close>, \<open>Replay_Plan\<close>, \<open>Gate_Budget\<close>, \<open>Text_Field\<close> and
  \<open>Clipboard_Broker\<close> are its parts: modifier tracking, the inputs that retype a word, the time an edit may
  take, the text barrier and the selection over the trait \<open>TextField\<close>, and the broker thread over the trait
  \<open>ClipboardSystem\<close>. \<open>Bounded_Probe\<close> is \<open>bounded_probe.rs\<close>, \<open>Protected_Clipboard\<close> the worker's side of the
  broker. \<open>Worker_State\<close> and \<open>Worker_World\<close> hold the worker's fields, its world, and its reads and guards;
  \<open>Edit_Waits\<close> its waits and its questions to the gate, \<open>Protected_Paste\<close> the two kinds of edit.
  The worker's own steps build on these, in the order a key takes them. \<open>Worker_Privacy\<close>: what may be read at
  all - the policy of the foreground process, the probe of the field and what its answer, its failure or
  its silence is taken for. \<open>Worker_Edit\<close>: a conversion and an undo from the last checks through the edit to
  the end of the gate. \<open>Worker_Words\<close> and \<open>Worker_Manual\<close>: the keys kept of the word, its end, its
  resumption, the words remembered for other windows, and the hotkey's walk through the layouts.
  \<open>Worker_Keys\<close>: \<open>process_key\<close>. \<open>Worker_Loop\<close>: \<open>process\<close>, every event of the queue. Two theories hold no
  definitions of the program but its invariants: \<open>Worker_Run\<close> proves that the worker comes back from every
  event, and \<open>Worker_Steps\<close> that over every run the keys it keeps are those of the word it judges. In both,
  one lemma per operation goes into a collection (\<open>comes\<close>, \<open>follow\<close>) that proves the operations above it.
  \<open>World_Laws\<close> states what is assumed of a world - a clock that does not run back and sleeps that last - and
  proves that every wait returns; \<open>Sample_World\<close> is a world that satisfies the laws, for the witnesses.

  \<^bold>\<open>What the lemmas show.\<close> Every theory proves its component's invariant and the behaviour of each operation on
  it. The properties are the theorems whose text begins with C and a number; each has a witness that applies it to a
  concrete input where it has hypotheses. Laws of code outside the repository's control (Windows, the
  trait objects, other threads) are predicates such as \<open>world_clock\<close>, \<open>clipboard_laws\<close>, \<open>link_laws\<close>,
  \<open>provider_laws\<close>; a witness shows that each can hold.

  \<^bold>\<open>Bounds.\<close> No recursion uses fuel. Loops over lists are structural; the broker's installation makes its
  three attempts and \<open>select_preceding_text_retrying\<close> the attempts of its patience; polling loops end at their
  deadline, because each turn sleeps at least one millisecond of a clock that does not run back.

  \<^bold>\<open>Not modelled.\<close> Diagnostic records (nothing reads them), sounds beyond the request for one, test seams. The
  Win32, COM and UI Automation calls themselves: windows, tray, timers, clipboard formats, process handles.
  The parts of the repository that only move files, bytes or pixels: the storage of configuration files, package catalogue, download, signature check, store and installer (file system, network, ZIP, JSON
  and cryptography of other crates), the settings window, localisation, the crash log, and the panic
  guard's unwinding. A panic inside the worker: what it
  does after a contained one is \<open>after_fault\<close>.
\<close>

end
